(* ===== verification/GoPrelude.thy ===== *)
theory GoPrelude
  imports Main "HOL-Library.AList" "HOL-Library.Sublist"
begin

text \<open>
  Shared vocabulary of the development: Go strings as byte strings with the functions of the
  package strings that the gateway calls, points in time, Go maps as association lists, and the
  collections of rewrite rules the component theories add to.

  \<^item> A Go string is a sequence of bytes, so it is a HOL \<open>string\<close> (a list of 8-bit characters).
    \<open>TrimSpace\<close> strips exactly the UTF-8 encodings of the runes for which unicode.IsSpace holds.
    \<open>ToLower\<close> folds the ASCII letters; bytes above 127 are kept (the gateway applies it to role
    names, model names, header names and error texts and compares with ASCII literals).
  \<^item> A \<open>time.Time\<close> is an integer number of nanoseconds since the zero Time, so that the zero value
    is 0, \<open>Before\<close> and \<open>After\<close> are \<open><\<close> and \<open>>\<close>, and \<open>Add\<close> and \<open>Sub\<close> are \<open>+\<close> and \<open>-\<close>.
  \<^item> A Go map is an association list with distinct keys: \<open>map_of\<close> looks up, \<open>AList.update\<close>
    assigns, \<open>AList.delete\<close> deletes; the order of the list is one iteration order.
\<close>

named_theorems go_string "laws of the string functions"
named_theorems go_map "laws of association-list maps"

subsection \<open>Time\<close>

type_synonym gotime = int
type_synonym duration = int

abbreviation zeroTime :: gotime where
  "zeroTime \<equiv> 0"

definition seconds :: "int \<Rightarrow> duration" where
  "seconds n = n * 1000000000"

definition minutes :: "int \<Rightarrow> duration" where
  "minutes n = seconds (60 * n)"

definition hours :: "int \<Rightarrow> duration" where
  "hours n = minutes (60 * n)"

lemma seconds_mono [simp]: "seconds a < seconds b \<longleftrightarrow> a < b"
  by (simp add: seconds_def)

lemma seconds_pos [simp]: "0 < seconds a \<longleftrightarrow> 0 < a"
  by (simp add: seconds_def)

lemma minutes_pos [simp]: "0 < minutes a \<longleftrightarrow> 0 < a"
  by (simp add: minutes_def)

lemma hours_pos [simp]: "0 < hours a \<longleftrightarrow> 0 < a"
  by (simp add: hours_def)

subsection \<open>Byte strings\<close>

definition asciiSpace :: "char \<Rightarrow> bool" where
  "asciiSpace c \<longleftrightarrow> c \<in> {CHR 0x09, CHR 0x0A, CHR 0x0B, CHR 0x0C, CHR 0x0D, CHR 0x20}"

definition space2 :: "char \<Rightarrow> char \<Rightarrow> bool" where
  "space2 c d \<longleftrightarrow> c = CHR 0xC2 \<and> (d = CHR 0x85 \<or> d = CHR 0xA0)"

definition space3 :: "char \<Rightarrow> char \<Rightarrow> char \<Rightarrow> bool" where
  "space3 c d e \<longleftrightarrow>
     (c = CHR 0xE1 \<and> d = CHR 0x9A \<and> e = CHR 0x80)
   \<or> (c = CHR 0xE2 \<and> d = CHR 0x80 \<and>
        e \<in> {CHR 0x80, CHR 0x81, CHR 0x82, CHR 0x83, CHR 0x84, CHR 0x85, CHR 0x86, CHR 0x87,
             CHR 0x88, CHR 0x89, CHR 0x8A, CHR 0xA8, CHR 0xA9, CHR 0xAF})
   \<or> (c = CHR 0xE2 \<and> d = CHR 0x81 \<and> e = CHR 0x9F)
   \<or> (c = CHR 0xE3 \<and> d = CHR 0x80 \<and> e = CHR 0x80)"

text \<open>
  Strip the longest prefix made of encoded spaces; the encodings of two and three bytes are
  parameters, so that the same function strips from the right end of a reversed string.
\<close>

fun stripSpaces :: "(char \<Rightarrow> char \<Rightarrow> bool) \<Rightarrow> (char \<Rightarrow> char \<Rightarrow> char \<Rightarrow> bool) \<Rightarrow> string \<Rightarrow> string" where
  "stripSpaces s2 s3 [] = []"
| "stripSpaces s2 s3 [c] = (if asciiSpace c then [] else [c])"
| "stripSpaces s2 s3 [c, d] =
     (if asciiSpace c then stripSpaces s2 s3 [d] else if s2 c d then [] else [c, d])"
| "stripSpaces s2 s3 (c # d # e # s) =
     (if asciiSpace c then stripSpaces s2 s3 (d # e # s)
      else if s2 c d then stripSpaces s2 s3 (e # s)
      else if s3 c d e then stripSpaces s2 s3 s
      else c # d # e # s)"

definition trimLeft :: "string \<Rightarrow> string" where
  "trimLeft s = stripSpaces space2 space3 s"

definition trimRight :: "string \<Rightarrow> string" where
  "trimRight s = rev (stripSpaces (\<lambda>d c. space2 c d) (\<lambda>e d c. space3 c d e) (rev s))"

definition TrimSpace :: "string \<Rightarrow> string" where
  "TrimSpace s = trimRight (trimLeft s)"

abbreviation blank :: "string \<Rightarrow> bool" where
  "blank s \<equiv> TrimSpace s = []"

lemma stripSpaces_suffix: "suffix (stripSpaces s2 s3 s) s"
  by (induction s2 s3 s rule: stripSpaces.induct) (auto simp: suffix_Cons)

lemma stripSpaces_prefix_fixed:
  "stripSpaces s2 s3 s = s \<Longrightarrow> prefix p s \<Longrightarrow> stripSpaces s2 s3 p = p"
proof -
  have len: "length (stripSpaces s2 s3 t) \<le> length t" for t
    using stripSpaces_suffix by (rule suffix_length_le)
  assume fixed: "stripSpaces s2 s3 s = s" and pre: "prefix p s"
  show ?thesis
  proof (cases s)
    case Nil
    with pre show ?thesis by simp
  next
    case (Cons c s1)
    have c: "\<not> asciiSpace c"
    proof
      assume "asciiSpace c"
      then have "stripSpaces s2 s3 (c # s1) = stripSpaces s2 s3 s1"
        by (cases "(s2, s3, c # s1)" rule: stripSpaces.cases) simp_all
      with fixed Cons len [of s1] show False by simp
    qed
    show ?thesis
    proof (cases s1)
      case Nil
      with Cons pre c show ?thesis by (cases p) auto
    next
      case (Cons d s2')
      note s1 = this
      have d: "\<not> s2 c d"
      proof
        assume "s2 c d"
        with c have "length (stripSpaces s2 s3 (c # d # s2')) \<le> length s2'"
          using len [of s2'] by (cases s2') auto
        with fixed \<open>s = c # s1\<close> s1 show False by simp
      qed
      show ?thesis
      proof (cases s2')
        case Nil
        with \<open>s = c # s1\<close> s1 pre c d show ?thesis
          by (auto simp: prefix_Cons)
      next
        case (Cons e s3')
        have e: "\<not> s3 c d e"
        proof
          assume "s3 c d e"
          with c d have "length (stripSpaces s2 s3 (c # d # e # s3')) \<le> length s3'"
            using len by auto
          with fixed \<open>s = c # s1\<close> s1 Cons show False by simp
        qed
        from pre \<open>s = c # s1\<close> s1 Cons c d e show ?thesis
          by (auto simp: prefix_Cons)
      qed
    qed
  qed
qed

lemma stripSpaces_idem [simp]:
  "stripSpaces s2 s3 (stripSpaces s2 s3 s) = stripSpaces s2 s3 s"
  by (induction s2 s3 s rule: stripSpaces.induct) auto

lemma trimRight_prefix: "prefix (trimRight s) s"
  unfolding trimRight_def
  using stripSpaces_suffix [of _ _ "rev s"] by (metis rev_rev_ident suffix_to_prefix)

lemma trimLeft_trimRight_fixed: "trimLeft s = s \<Longrightarrow> trimLeft (trimRight s) = trimRight s"
  unfolding trimLeft_def using stripSpaces_prefix_fixed trimRight_prefix by blast

lemma TrimSpace_idem [simp, go_string]: "TrimSpace (TrimSpace s) = TrimSpace s"
proof -
  have "trimLeft (trimRight (trimLeft s)) = trimRight (trimLeft s)"
    by (rule trimLeft_trimRight_fixed) (simp add: trimLeft_def)
  then show ?thesis by (simp add: TrimSpace_def trimRight_def)
qed

lemma TrimSpace_Nil [simp, go_string]: "TrimSpace [] = []"
  by (simp add: TrimSpace_def trimLeft_def trimRight_def)

lemma trimLeft_length: "length (trimLeft s) \<le> length s"
  unfolding trimLeft_def using stripSpaces_suffix by (rule suffix_length_le)

lemma TrimSpace_length [go_string]: "length (TrimSpace s) \<le> length s"
proof -
  have "length (trimRight (trimLeft s)) \<le> length (trimLeft s)"
    using trimRight_prefix by (rule prefix_length_le)
  then show ?thesis using trimLeft_length [of s] by (simp add: TrimSpace_def)
qed

text \<open>A string that begins with a byte that can neither be nor begin a space is not blank.\<close>

definition plainLead :: "char \<Rightarrow> bool" where
  "plainLead c \<longleftrightarrow> \<not> asciiSpace c \<and> c \<notin> {CHR 0xC2, CHR 0xE1, CHR 0xE2, CHR 0xE3}"

lemma stripSpaces_last:
  "ys \<noteq> [] \<Longrightarrow> \<not> asciiSpace (last ys) \<Longrightarrow> (\<And>d. \<not> s2 d (last ys)) \<Longrightarrow> (\<And>e d. \<not> s3 e d (last ys)) \<Longrightarrow>
   stripSpaces s2 s3 ys \<noteq> []"
  by (induction s2 s3 ys rule: stripSpaces.induct) (auto split: if_splits)

lemma stripSpaces_plain:
  "\<not> asciiSpace c \<Longrightarrow> (\<And>d. \<not> s2 c d) \<Longrightarrow> (\<And>d e. \<not> s3 c d e) \<Longrightarrow> stripSpaces s2 s3 (c # s) = c # s"
  by (cases "(s2, s3, c # s)" rule: stripSpaces.cases) simp_all

lemma plainLead_not_blank [simp, go_string]:
  assumes "plainLead c"
  shows "\<not> blank (c # s)"
proof -
  have c: "\<not> asciiSpace c" "\<not> space2 c d" "\<not> space3 c d e" for d e
    using assms by (simp_all add: plainLead_def space2_def space3_def)
  have "trimLeft (c # s) = c # s" unfolding trimLeft_def by (rule stripSpaces_plain) (rule c)+
  moreover have "trimRight (c # s) \<noteq> []" unfolding trimRight_def
    using stripSpaces_last [of "rev (c # s)" "\<lambda>d c. space2 c d" "\<lambda>e d c. space3 c d e"] c
    by (simp add: last_rev)
  ultimately show ?thesis by (simp add: TrimSpace_def)
qed

text \<open>Case folding.\<close>

definition lowerChar :: "char \<Rightarrow> char" where
  "lowerChar c =
     (let n = of_char c :: nat in if 65 \<le> n \<and> n \<le> 90 then char_of (n + 32) else c)"

definition ToLower :: "string \<Rightarrow> string" where
  "ToLower s = map lowerChar s"

definition EqualFold :: "string \<Rightarrow> string \<Rightarrow> bool" where
  "EqualFold a b \<longleftrightarrow> ToLower a = ToLower b"

lemma lowerChar_idem [simp]: "lowerChar (lowerChar c) = lowerChar c"
  by (simp add: lowerChar_def Let_def of_char_of)

lemma ToLower_idem [simp, go_string]: "ToLower (ToLower s) = ToLower s"
  by (simp add: ToLower_def comp_def)

lemma ToLower_length [simp, go_string]: "length (ToLower s) = length s"
  by (simp add: ToLower_def)

lemma ToLower_append: "ToLower (a @ b) = ToLower a @ ToLower b"
  by (simp add: ToLower_def)

text \<open>Searching: the first occurrence of a substring, as a byte index.\<close>

abbreviation HasPrefix :: "string \<Rightarrow> string \<Rightarrow> bool" where
  "HasPrefix s p \<equiv> prefix p s"

abbreviation HasSuffix :: "string \<Rightarrow> string \<Rightarrow> bool" where
  "HasSuffix s p \<equiv> suffix p s"

fun IndexOf :: "string \<Rightarrow> string \<Rightarrow> nat option" where
  "IndexOf [] sub = (if sub = [] then Some 0 else None)"
| "IndexOf (c # s) sub =
     (if prefix sub (c # s) then Some 0 else map_option Suc (IndexOf s sub))"

definition Contains :: "string \<Rightarrow> string \<Rightarrow> bool" where
  "Contains s sub \<longleftrightarrow> IndexOf s sub \<noteq> None"

lemma prefix_take: "prefix p s \<Longrightarrow> length p \<le> length s \<and> take (length p) s = p"
  by (auto simp: prefix_def)

lemma IndexOf_Some:
  "IndexOf s sub = Some i \<Longrightarrow> i + length sub \<le> length s \<and> take (length sub) (drop i s) = sub"
proof (induction s arbitrary: i)
  case Nil
  then show ?case by (auto split: if_splits)
next
  case (Cons c s)
  then show ?case
    by (auto split: if_splits dest: prefix_take)
qed

lemma IndexOf_first:
  "IndexOf s sub = Some i \<Longrightarrow> j < i \<Longrightarrow> \<not> prefix sub (drop j s)"
proof (induction s arbitrary: i j)
  case Nil
  then show ?case by (auto split: if_splits)
next
  case (Cons c s)
  then show ?case by (cases j) (auto split: if_splits)
qed

lemma Contains_Cons [simp]: "Contains (c # s) sub \<longleftrightarrow> prefix sub (c # s) \<or> Contains s sub"
  by (auto simp: Contains_def)

lemma Contains_Nil [simp]: "Contains [] sub \<longleftrightarrow> sub = []"
  by (auto simp: Contains_def)

lemma Contains_sublist: "Contains s sub \<longleftrightarrow> sublist sub s"
  by (induction s) (auto simp: sublist_Cons_right)

text \<open>The last occurrence of a substring, as \<open>strings.LastIndex\<close>.\<close>

fun LastIndexOf :: "string \<Rightarrow> string \<Rightarrow> nat option" where
  "LastIndexOf [] sub = (if sub = [] then Some 0 else None)"
| "LastIndexOf (c # s) sub =
     (case LastIndexOf s sub of
        Some i \<Rightarrow> Some (Suc i)
      | None \<Rightarrow> if prefix sub (c # s) then Some 0 else None)"

lemma LastIndexOf_Some:
  "LastIndexOf s sub = Some i \<Longrightarrow> i + length sub \<le> length s \<and> take (length sub) (drop i s) = sub"
proof (induction s arbitrary: i)
  case Nil
  then show ?case by (auto split: if_splits)
next
  case (Cons c s)
  then show ?case
    by (auto split: if_splits option.splits dest: prefix_take)
qed

text \<open>\<open>strings.Split\<close> at a one-byte separator.\<close>

fun splitOn :: "char \<Rightarrow> string \<Rightarrow> string list" where
  "splitOn c [] = [[]]"
| "splitOn c (x # xs) =
     (if x = c then [] # splitOn c xs
      else (case splitOn c xs of [] \<Rightarrow> [[x]] | p # ps \<Rightarrow> (x # p) # ps))"

text \<open>The first argument that is not blank, else the empty string (the Go helper of this name).\<close>

fun firstNonEmpty :: "string list \<Rightarrow> string" where
  "firstNonEmpty [] = []"
| "firstNonEmpty (v # vs) = (if \<not> blank v then v else firstNonEmpty vs)"

lemma firstNonEmpty_blank: "blank (firstNonEmpty vs) \<longleftrightarrow> (\<forall>v \<in> set vs. blank v)"
  by (induction vs) auto

lemma firstNonEmpty_mem: "firstNonEmpty vs \<noteq> [] \<Longrightarrow> firstNonEmpty vs \<in> set vs"
  by (induction vs) auto

subsection \<open>Maps\<close>

type_synonym ('k, 'v) gomap = "('k \<times> 'v) list"

abbreviation wf_map :: "('k, 'v) gomap \<Rightarrow> bool" where
  "wf_map m \<equiv> distinct (map fst m)"

lemma wf_map_update [simp, go_map]: "wf_map m \<Longrightarrow> wf_map (AList.update k v m)"
  by (rule distinct_update)

lemma wf_map_delete [simp, go_map]: "wf_map m \<Longrightarrow> wf_map (AList.delete k m)"
  by (rule distinct_delete)

lemma wf_map_filter [simp, go_map]: "wf_map m \<Longrightarrow> wf_map (filter P m)"
  by (rule distinct_map_filter)

lemma map_of_filter_wf [go_map]:
  "wf_map m \<Longrightarrow>
   map_of (filter P m) k =
     (case map_of m k of None \<Rightarrow> None | Some v \<Rightarrow> if P (k, v) then Some v else None)"
proof (induction m)
  case Nil
  then show ?case by simp
next
  case (Cons kv m)
  obtain k' v' where kv: "kv = (k', v')" by force
  show ?case
  proof (cases "k = k'")
    case True
    with Cons.prems kv have "map_of m k = None" by (simp add: map_of_eq_None_iff)
    with True Cons kv show ?thesis by simp
  next
    case False
    with Cons kv show ?thesis by simp
  qed
qed

lemmas map_update [simp, go_map] = update_conv'
lemmas map_delete [simp, go_map] = delete_conv'

text \<open>Lookup with the zero value for a missing key, as \<open>m[k]\<close> in Go.\<close>

definition getOr :: "'v \<Rightarrow> ('k, 'v) gomap \<Rightarrow> 'k \<Rightarrow> 'v" where
  "getOr d m k = (case map_of m k of None \<Rightarrow> d | Some v \<Rightarrow> v)"

lemma getOr_update [simp, go_map]:
  "getOr d (AList.update k v m) k' = (if k' = k then v else getOr d m k')"
  by (simp add: getOr_def)

lemma getOr_delete [simp, go_map]:
  "getOr d (AList.delete k m) k' = (if k' = k then d else getOr d m k')"
  by (simp add: getOr_def)

subsection \<open>Components as operations over a state\<close>

text \<open>
  The interface the component theories use for invariants: the operations of a component as data,
  the state they transform, the conditions the callers guarantee, and the invariant. A component
  proves one law, that a single admissible operation keeps the invariant; every sequence of
  operations then keeps it.
\<close>

locale op_system =
  fixes exec :: "'op \<Rightarrow> 's \<Rightarrow> 's"
    and admissible :: "'op \<Rightarrow> bool"
    and inv :: "'s \<Rightarrow> bool"
  assumes exec_inv: "admissible op \<Longrightarrow> inv s \<Longrightarrow> inv (exec op s)"
begin

lemma run_inv: "\<forall>op \<in> set ops. admissible op \<Longrightarrow> inv s \<Longrightarrow> inv (fold exec ops s)"
  by (induction ops arbitrary: s) (simp_all add: exec_inv)

lemma run_split:
  "\<forall>op \<in> set (ops @ ops'). admissible op \<Longrightarrow> inv s \<Longrightarrow>
   inv (fold exec ops s) \<and> fold exec (ops @ ops') s = fold exec ops' (fold exec ops s)"
  by (simp add: run_inv)

end

text \<open>
  The interface for components described by a step relation: an invariant, and an observation that
  no step changes as long as the observed item is live. Along every run through states in which it
  is live the observation stays the same.
\<close>

locale monitored_system =
  fixes step :: "'s \<Rightarrow> 's \<Rightarrow> bool"
    and inv :: "'s \<Rightarrow> bool"
    and live :: "'s \<Rightarrow> bool"
    and obs :: "'s \<Rightarrow> 'o"
  assumes step_inv: "step s t \<Longrightarrow> inv s \<Longrightarrow> inv t"
    and step_obs: "step s t \<Longrightarrow> inv s \<Longrightarrow> live s \<Longrightarrow> live t \<Longrightarrow> obs t = obs s"
begin

lemma reachable_inv: "step\<^sup>*\<^sup>* s t \<Longrightarrow> inv s \<Longrightarrow> inv t"
  by (induction rule: rtranclp_induct) (auto intro: step_inv)

lemma live_run:
  "(\<lambda>s t. step s t \<and> live t)\<^sup>*\<^sup>* s t \<Longrightarrow> inv s \<Longrightarrow> live s \<Longrightarrow> inv t \<and> live t \<and> obs t = obs s"
  by (induction rule: rtranclp_induct) (auto intro: step_inv dest: step_obs)

end

text \<open>Taking back an assignment.\<close>

lemma update_same: "map_of m k = Some v \<Longrightarrow> AList.update k v m = m"
  by (induction m) auto

lemma update_undo: "map_of m k = Some v \<Longrightarrow> AList.update k v (AList.update k w m) = m"
  by (induction m) auto

lemma delete_new: "map_of m k = None \<Longrightarrow> AList.delete k (AList.update k w m) = m"
  by (simp add: delete_update_same map_of_eq_None_iff)

lemma update_commute:
  "map_of m k \<noteq> None \<Longrightarrow> k \<noteq> j \<Longrightarrow> AList.update k v (AList.update j w m) = AList.update j w (AList.update k v m)"
  by (induction m) (auto split: if_splits)

lemma delete_absent: "k \<notin> fst ` set m \<or> map_of m k = None \<Longrightarrow> AList.delete k m = m"
  by (auto simp: map_of_eq_None_iff)

lemma filter_keys:
  "wf_map m \<Longrightarrow>
   filter (\<lambda>k. k \<notin> set (map fst (filter (\<lambda>(_, v). P v) m))) (map fst m) = map fst (filter (\<lambda>(_, v). \<not> P v) m)"
proof (induction m)
  case (Cons kv m)
  obtain k v where kv: "kv = (k, v)" by force
  have "filter (\<lambda>j. j \<notin> set (map fst (filter (\<lambda>(_, v). P v) (kv # m)))) (map fst m)
      = filter (\<lambda>j. j \<notin> set (map fst (filter (\<lambda>(_, v). P v) m))) (map fst m)"
    by (rule filter_cong) (use Cons.prems kv in auto)
  moreover have "k \<notin> set (map fst (filter (\<lambda>(_, v). P v) m))" using Cons.prems kv by auto
  ultimately show ?case using Cons kv by simp
qed simp

end
