(* ===== verification/GoText.thy ===== *)
theory GoText
  imports GoPrelude
begin

text \<open>
  Numbers and runes in byte strings: decimal printing and parsing (the verb %d, strconv.Atoi and
  strconv.ParseInt with base 10 and 64 bits), the wrap-around of a 64-bit signed product, and the
  UTF-8 decoding that \<open>[]rune(s)\<close>, range loops and utf8.ValidString perform.
\<close>

subsection \<open>Decimal numbers\<close>

definition digitChar :: "nat \<Rightarrow> char" where
  "digitChar d = char_of (48 + d)"

definition isDigit :: "char \<Rightarrow> bool" where
  "isDigit c \<longleftrightarrow> 48 \<le> (of_char c :: nat) \<and> (of_char c :: nat) \<le> 57"

definition digitVal :: "char \<Rightarrow> nat" where
  "digitVal c = of_char c - 48"

fun showNat :: "nat \<Rightarrow> string" where
  "showNat n = (if n < 10 then [digitChar n] else showNat (n div 10) @ [digitChar (n mod 10)])"

declare showNat.simps [simp del]

definition showInt :: "int \<Rightarrow> string" where
  "showInt i = (if i < 0 then CHR ''-'' # showNat (nat (- i)) else showNat (nat i))"

definition parseNat :: "string \<Rightarrow> nat option" where
  "parseNat s =
     (if s = [] \<or> \<not> list_all isDigit s then None
      else Some (foldl (\<lambda>a c. 10 * a + digitVal c) 0 s))"

definition fitsInt64 :: "int \<Rightarrow> bool" where
  "fitsInt64 i \<longleftrightarrow> - (2 ^ 63) \<le> i \<and> i < 2 ^ 63"

definition ParseInt :: "string \<Rightarrow> int option" where
  "ParseInt s =
     (let r = (case s of
                 [] \<Rightarrow> None
               | c # t \<Rightarrow>
                   if c = CHR ''-'' then map_option (\<lambda>n. - int n) (parseNat t)
                   else if c = CHR ''+'' then map_option int (parseNat t)
                   else map_option int (parseNat s))
      in case r of None \<Rightarrow> None | Some i \<Rightarrow> if fitsInt64 i then Some i else None)"

text \<open>A 64-bit signed result: reduction modulo \<open>2 ^ 64\<close> into the signed range.\<close>

definition wrapInt64 :: "int \<Rightarrow> int" where
  "wrapInt64 i = (i + 2 ^ 63) mod 2 ^ 64 - 2 ^ 63"

lemma wrapInt64_id [simp]: "fitsInt64 i \<Longrightarrow> wrapInt64 i = i"
  by (simp add: wrapInt64_def fitsInt64_def)

lemma wrapInt64_fits: "fitsInt64 (wrapInt64 i)"
proof -
  have "0 \<le> (i + 2 ^ 63) mod 2 ^ 64" "(i + 2 ^ 63) mod 2 ^ 64 < (2 :: int) ^ 64"
    by simp_all
  then show ?thesis by (simp add: wrapInt64_def fitsInt64_def)
qed

lemma digitChar_props: "d < 10 \<Longrightarrow> isDigit (digitChar d) \<and> digitVal (digitChar d) = d"
  by (simp add: isDigit_def digitVal_def digitChar_def of_char_of)

lemma showNat_nonempty [simp]: "showNat n \<noteq> []"
  by (subst showNat.simps) simp

lemma showNat_digits: "list_all isDigit (showNat n)"
proof (induction n rule: showNat.induct)
  case (1 n)
  then show ?case by (subst showNat.simps) (auto simp: digitChar_props)
qed

lemma showNat_value: "foldl (\<lambda>a c. 10 * a + digitVal c) 0 (showNat n) = n"
proof (induction n rule: showNat.induct)
  case (1 n)
  show ?case
  proof (cases "n < 10")
    case True
    then show ?thesis by (subst showNat.simps) (simp add: digitChar_props)
  next
    case False
    with 1 show ?thesis by (subst showNat.simps) (simp add: digitChar_props)
  qed
qed

lemma parseNat_showNat [simp]: "parseNat (showNat n) = Some n"
  by (simp add: parseNat_def showNat_digits showNat_value)

lemma isDigit_not_sign: "isDigit c \<Longrightarrow> c \<noteq> CHR ''-'' \<and> c \<noteq> CHR ''+''"
  by (auto simp: isDigit_def)

lemma ParseInt_showInt: "fitsInt64 i \<Longrightarrow> ParseInt (showInt i) = Some i"
proof (cases "i < 0")
  case True
  then show "fitsInt64 i \<Longrightarrow> ParseInt (showInt i) = Some i"
    by (simp add: ParseInt_def showInt_def)
next
  case False
  assume "fitsInt64 i"
  obtain c t where ct: "showNat (nat i) = c # t" by (cases "showNat (nat i)") auto
  then have "isDigit c" using showNat_digits [of "nat i"] by simp
  then have "ParseInt (c # t) = (case map_option int (parseNat (c # t)) of
      None \<Rightarrow> None | Some j \<Rightarrow> if fitsInt64 j then Some j else None)"
    using isDigit_not_sign [of c] by (simp add: ParseInt_def)
  with False \<open>fitsInt64 i\<close> ct [symmetric] show ?thesis by (simp add: showInt_def)
qed

lemma ParseInt_fits: "ParseInt s = Some i \<Longrightarrow> fitsInt64 i"
  by (simp add: ParseInt_def Let_def split: option.splits if_splits)

lemma showNat_length: "n < 10 ^ k \<Longrightarrow> 0 < k \<Longrightarrow> length (showNat n) \<le> k"
proof (induction n arbitrary: k rule: showNat.induct)
  case (1 n)
  show ?case
  proof (cases "n < 10")
    case True
    with "1.prems" show ?thesis by (subst showNat.simps) simp
  next
    case False
    with "1.prems" obtain j where k: "k = Suc j" "0 < j"
      by (cases k; cases "k = 1") auto
    with "1.prems" have "n div 10 < 10 ^ j" by (simp add: less_mult_imp_div_less mult.commute)
    with "1.IH" False k have "length (showNat (n div 10)) \<le> j" by blast
    with False k show ?thesis by (subst showNat.simps) simp
  qed
qed

subsection \<open>Hexadecimal\<close>

definition hexDigit :: "nat \<Rightarrow> char" where
  "hexDigit d = (if d < 10 then char_of (48 + d) else char_of (87 + d))"

definition hexVal :: "char \<Rightarrow> nat option" where
  "hexVal c =
     (let n = of_char c :: nat
      in if 48 \<le> n \<and> n \<le> 57 then Some (n - 48)
         else if 97 \<le> n \<and> n \<le> 102 then Some (n - 87)
         else if 65 \<le> n \<and> n \<le> 70 then Some (n - 55)
         else None)"

fun hexEncode :: "string \<Rightarrow> string" where
  "hexEncode [] = []"
| "hexEncode (c # s) =
     hexDigit ((of_char c :: nat) div 16) # hexDigit ((of_char c :: nat) mod 16) # hexEncode s"

fun hexDecode :: "string \<Rightarrow> string option" where
  "hexDecode [] = Some []"
| "hexDecode [c] = None"
| "hexDecode (c # d # s) =
     (case (hexVal c, hexVal d) of
        (Some a, Some b) \<Rightarrow> map_option (\<lambda>r. char_of (16 * a + b) # r) (hexDecode s)
      | _ \<Rightarrow> None)"

lemma hexVal_hexDigit [simp]: "d < 16 \<Longrightarrow> hexVal (hexDigit d) = Some d"
  by (auto simp: hexVal_def hexDigit_def of_char_of Let_def)

lemma of_char_lt_256 [simp]: "(of_char c :: nat) < 256"
  by (metis nat_of_char_less_256)

lemma hexDecode_hexEncode [simp]: "hexDecode (hexEncode s) = Some s"
proof (induction s)
  case Nil
  then show ?case by simp
next
  case (Cons c s)
  have "(of_char c :: nat) div 16 < 16"
    using of_char_lt_256 [of c] by (simp add: less_mult_imp_div_less del: of_char_lt_256)
  moreover have "16 * ((of_char c :: nat) div 16) + (of_char c :: nat) mod 16 = of_char c"
    by simp
  ultimately show ?case using Cons.IH by (simp del: mult_div_mod_eq)
qed

lemma hexEncode_length [simp]: "length (hexEncode s) = 2 * length s"
  by (induction s) auto

lemma inj_hexEncode: "inj hexEncode"
  by (metis hexDecode_hexEncode injI option.inject)

subsection \<open>UTF-8\<close>

abbreviation byteVal :: "char \<Rightarrow> nat" where
  "byteVal c \<equiv> of_char c"

definition isCont :: "char \<Rightarrow> bool" where
  "isCont c \<longleftrightarrow> 128 \<le> byteVal c \<and> byteVal c < 192"

text \<open>\<open>utf8.RuneStart\<close>: not a continuation byte.\<close>

abbreviation RuneStart :: "char \<Rightarrow> bool" where
  "RuneStart c \<equiv> \<not> isCont c"

definition lead2 :: "nat \<Rightarrow> bool" where
  "lead2 b \<longleftrightarrow> 194 \<le> b \<and> b \<le> 223"

definition lead3 :: "nat \<Rightarrow> nat \<Rightarrow> bool" where
  "lead3 b c \<longleftrightarrow> (b = 224 \<and> 160 \<le> c) \<or> (b = 237 \<and> c \<le> 159)
     \<or> (225 \<le> b \<and> b \<le> 239 \<and> b \<noteq> 237)"

definition lead4 :: "nat \<Rightarrow> nat \<Rightarrow> bool" where
  "lead4 b c \<longleftrightarrow> (b = 240 \<and> 144 \<le> c) \<or> (b = 244 \<and> c \<le> 143) \<or> (241 \<le> b \<and> b \<le> 243)"

text \<open>The size of the valid rune a string starts with, 0 when it starts with none.\<close>

definition runeLen :: "string \<Rightarrow> nat" where
  "runeLen s =
     (case s of
        [] \<Rightarrow> 0
      | b # s1 \<Rightarrow>
          if byteVal b < 128 then 1
          else case s1 of
            [] \<Rightarrow> 0
          | c # s2 \<Rightarrow>
              if \<not> isCont c then 0
              else if lead2 (byteVal b) then 2
              else case s2 of
                [] \<Rightarrow> 0
              | d # s3 \<Rightarrow>
                  if \<not> isCont d then 0
                  else if lead3 (byteVal b) (byteVal c) then 3
                  else case s3 of
                    [] \<Rightarrow> 0
                  | e # s4 \<Rightarrow> if isCont e \<and> lead4 (byteVal b) (byteVal c) then 4 else 0)"

lemma runeLen_le: "runeLen s \<le> length s"
  by (auto simp: runeLen_def split: list.splits)

text \<open>The pieces a range loop visits: valid runes as their bytes, every other byte alone.\<close>

function runes :: "string \<Rightarrow> string list" where
  "runes s = (if s = [] then []
              else take (max 1 (runeLen s)) s # runes (drop (max 1 (runeLen s)) s))"
  by pat_completeness auto
termination
  by (relation "measure length") (auto simp: max_def)

declare runes.simps [simp del]

definition ValidString :: "string \<Rightarrow> bool" where
  "ValidString s \<longleftrightarrow> (\<forall>r \<in> set (runes s). runeLen r \<noteq> 0)"

lemma runes_Nil [simp]: "runes [] = []"
  by (simp add: runes.simps)

lemma concat_runes [simp]: "concat (runes s) = s"
  by (induction s rule: runes.induct) (subst runes.simps, auto)

lemma runes_nonempty: "r \<in> set (runes s) \<Longrightarrow> r \<noteq> []"
proof (induction s rule: runes.induct)
  case (1 s)
  then show ?case by (subst (asm) runes.simps) (auto split: if_splits)
qed

text \<open>Conversion of a rune back to a string: an invalid byte has become U+FFFD.\<close>

definition runeString :: "string \<Rightarrow> string" where
  "runeString r = (if runeLen r = 0 then [CHR 0xEF, CHR 0xBF, CHR 0xBD] else r)"

definition runesString :: "string list \<Rightarrow> string" where
  "runesString rs = concat (map runeString rs)"

lemma runesString_valid:
  assumes "ValidString s"
  shows "runesString (runes s) = s"
proof -
  have "map runeString (runes s) = runes s"
    by (rule map_idI) (use assms in \<open>auto simp: ValidString_def runeString_def\<close>)
  then show ?thesis by (simp add: runesString_def)
qed

end
