(* ===== verification/UpstreamErrors.thy ===== *)
theory UpstreamErrors
  imports GoText
begin

text \<open>
  The errors that come back from ChatHub and their classification: the typed errors of
  internal/chathub/client.go with their messages and the Retry-After parser, and the predicates of
  internal/web/account_health.go and internal/web/account_router.go that decide which failures
  belong to an account, to the shared upstream or to the local request.

  An error value is its message together with the chain of errors it wraps, outermost first: that
  is all that Error, errors.Is and errors.As can see of it. A nil error is None.
\<close>

subsection \<open>Error values\<close>

record rateLimitError =
  rlStatusCode :: int
  rlRetryAfter :: duration
  rlRetryAt :: gotime
  rlReason :: string

record httpStatusError =
  hsStatusCode :: int
  hsReason :: string

datatype errNode =
    ContextCanceled | ContextDeadlineExceeded | IoErrClosedPipe | OsErrNotExist
  | ErrDisengaged | ErrInactiveAccount | ErrUpstreamCircuitOpen | ErrPinnedAccountUnavailable
  | RateLimitNode rateLimitError | HTTPStatusNode httpStatusError | PlainError

datatype goerror = GoError (errText: string) (errChain: "errNode list")

definition errorsIs :: "goerror \<Rightarrow> errNode \<Rightarrow> bool" where
  "errorsIs err tgt \<longleftrightarrow> tgt \<in> set (errChain err)"

fun firstRateLimit :: "errNode list \<Rightarrow> rateLimitError option" where
  "firstRateLimit [] = None"
| "firstRateLimit (RateLimitNode r # es) = Some r"
| "firstRateLimit (_ # es) = firstRateLimit es"

fun firstHTTPStatus :: "errNode list \<Rightarrow> httpStatusError option" where
  "firstHTTPStatus [] = None"
| "firstHTTPStatus (HTTPStatusNode h # es) = Some h"
| "firstHTTPStatus (_ # es) = firstHTTPStatus es"

text \<open>\<open>fmt.Errorf("prefix: %w", err)\<close>: the text is prefixed, the chain is kept behind the wrapper.\<close>

definition wrapError :: "string \<Rightarrow> goerror \<Rightarrow> goerror" where
  "wrapError p e = GoError (p @ '': '' @ errText e) (PlainError # errChain e)"

definition plainError :: "string \<Rightarrow> goerror" where
  "plainError t = GoError t [PlainError]"

subsection \<open>Messages of the typed errors\<close>

text \<open>The table behind \<open>http.StatusText\<close>.\<close>

definition statusTexts :: "(int \<times> string) list" where
  "statusTexts =
     [(100, ''Continue''), (101, ''Switching Protocols''), (102, ''Processing''),
      (103, ''Early Hints''), (200, ''OK''), (201, ''Created''), (202, ''Accepted''),
      (203, ''Non-Authoritative Information''), (204, ''No Content''), (205, ''Reset Content''),
      (206, ''Partial Content''), (207, ''Multi-Status''), (208, ''Already Reported''),
      (226, ''IM Used''), (300, ''Multiple Choices''), (301, ''Moved Permanently''),
      (302, ''Found''), (303, ''See Other''), (304, ''Not Modified''), (305, ''Use Proxy''),
      (307, ''Temporary Redirect''), (308, ''Permanent Redirect''), (400, ''Bad Request''),
      (401, ''Unauthorized''), (402, ''Payment Required''), (403, ''Forbidden''),
      (404, ''Not Found''), (405, ''Method Not Allowed''), (406, ''Not Acceptable''),
      (407, ''Proxy Authentication Required''), (408, ''Request Timeout''), (409, ''Conflict''),
      (410, ''Gone''), (411, ''Length Required''), (412, ''Precondition Failed''),
      (413, ''Request Entity Too Large''), (414, ''Request URI Too Long''),
      (415, ''Unsupported Media Type''), (416, ''Requested Range Not Satisfiable''),
      (417, ''Expectation Failed''), (418, ''I'' @ [CHR 0x27] @ ''m a teapot''),
      (421, ''Misdirected Request''), (422, ''Unprocessable Entity''), (423, ''Locked''),
      (424, ''Failed Dependency''), (425, ''Too Early''), (426, ''Upgrade Required''),
      (428, ''Precondition Required''), (429, ''Too Many Requests''),
      (431, ''Request Header Fields Too Large''), (451, ''Unavailable For Legal Reasons''),
      (500, ''Internal Server Error''), (501, ''Not Implemented''), (502, ''Bad Gateway''),
      (503, ''Service Unavailable''), (504, ''Gateway Timeout''),
      (505, ''HTTP Version Not Supported''), (506, ''Variant Also Negotiates''),
      (507, ''Insufficient Storage''), (508, ''Loop Detected''), (510, ''Not Extended''),
      (511, ''Network Authentication Required'')]"

definition StatusText :: "int \<Rightarrow> string" where
  "StatusText c = getOr [] statusTexts c"

definition httpStatusErrorText :: "httpStatusError \<Rightarrow> string" where
  "httpStatusErrorText e =
     (let reason = TrimSpace (hsReason e);
          reason = (if reason = [] then StatusText (hsStatusCode e) else reason);
          reason = (if reason = [] then ''upstream WebSocket upgrade failed'' else reason)
      in ''chathub WebSocket HTTP '' @ showInt (hsStatusCode e) @ '': '' @ reason)"

definition rateLimitErrorText :: "rateLimitError \<Rightarrow> string" where
  "rateLimitErrorText e =
     (let message = TrimSpace (rlReason e);
          message = (if message = [] then ''upstream rate limit'' else message)
      in if rlStatusCode e > 0
         then ''chathub rate limited (HTTP '' @ showInt (rlStatusCode e) @ ''): '' @ message
         else ''chathub rate limited: '' @ message)"

definition mkHTTPStatusError :: "httpStatusError \<Rightarrow> goerror list \<Rightarrow> goerror" where
  "mkHTTPStatusError e inner =
     GoError (httpStatusErrorText e) (HTTPStatusNode e # concat (map errChain inner))"

definition mkRateLimitError :: "rateLimitError \<Rightarrow> goerror" where
  "mkRateLimitError e = GoError (rateLimitErrorText e) [RateLimitNode e]"

definition disengagedError :: goerror where
  "disengagedError =
     GoError ''chathub disengaged: upstream safety filter refused this prompt; do not retry unchanged''
       [ErrDisengaged]"

definition quotaReason :: string where
  "quotaReason = ''Microsoft Copilot CostQuota exhausted''"

text \<open>\<open>quotaRateLimitError\<close> of package chathub and \<open>strictQuotaExhaustedError\<close> of package web.\<close>

definition strictQuotaExhaustedError :: goerror where
  "strictQuotaExhaustedError =
     mkRateLimitError \<lparr>rlStatusCode = 0, rlRetryAfter = 0, rlRetryAt = zeroTime, rlReason = quotaReason\<rparr>"

text \<open>
  Retry-After: a number of seconds or an HTTP date (the parser of the three HTTP date formats is
  an argument). The product of seconds and nanoseconds is a 64-bit signed multiplication.
\<close>

definition parseRetryAfter ::
  "(string \<Rightarrow> gotime option) \<Rightarrow> string \<Rightarrow> gotime \<Rightarrow> duration \<times> gotime" where
  "parseRetryAfter parseHTTPTime raw now =
     (let raw = TrimSpace raw
      in if raw = [] then (0, zeroTime)
         else case ParseInt raw of
           Some secs \<Rightarrow>
             if secs \<ge> 0 then (let delay = wrapInt64 (seconds secs) in (delay, now + delay))
             else (case parseHTTPTime raw of
                     Some retryAt \<Rightarrow> (max 0 (retryAt - now), retryAt)
                   | None \<Rightarrow> (0, zeroTime))
         | None \<Rightarrow>
             (case parseHTTPTime raw of
                Some retryAt \<Rightarrow> (max 0 (retryAt - now), retryAt)
              | None \<Rightarrow> (0, zeroTime)))"

subsection \<open>Numbers in legacy error texts\<close>

text \<open>
  The regular expressions \<open>(^|[^0-9])429([^0-9]|$)\<close> and \<open>(^|[^0-9])(?:401|403)([^0-9]|$)\<close>: one of
  the numbers occurs and is not part of a longer digit sequence.
\<close>

definition noDigitAhead :: "string \<Rightarrow> bool" where
  "noDigitAhead s = (case s of [] \<Rightarrow> True | c # _ \<Rightarrow> \<not> isDigit c)"

fun boundedNumber :: "string list \<Rightarrow> bool \<Rightarrow> string \<Rightarrow> bool" where
  "boundedNumber ns afterDigit [] = False"
| "boundedNumber ns afterDigit (c # s) =
     ((\<not> afterDigit \<and> list_ex (\<lambda>n. prefix n (c # s) \<and> noDigitAhead (drop (length n) (c # s))) ns)
      \<or> boundedNumber ns (isDigit c) s)"

definition legacyHTTP429 :: "string \<Rightarrow> bool" where
  "legacyHTTP429 s = boundedNumber [''429''] False s"

definition legacyHTTPAuth :: "string \<Rightarrow> bool" where
  "legacyHTTPAuth s = boundedNumber [''401'', ''403''] False s"

subsection \<open>Classification\<close>

definition containsAny :: "string \<Rightarrow> string list \<Rightarrow> bool" where
  "containsAny s ms = list_ex (Contains s) ms"

definition IsRateLimited :: "goerror option \<Rightarrow> bool" where
  "IsRateLimited err =
     (case err of None \<Rightarrow> False
      | Some e \<Rightarrow> (case firstRateLimit (errChain e) of
                    Some r \<Rightarrow> rlStatusCode r = 429
                  | None \<Rightarrow> legacyHTTP429 (errText e)))"

definition IsQuotaExhausted :: "goerror option \<Rightarrow> bool" where
  "IsQuotaExhausted err =
     (case err of None \<Rightarrow> False
      | Some e \<Rightarrow> (case firstRateLimit (errChain e) of
                    None \<Rightarrow> False
                  | Some r \<Rightarrow> rlStatusCode r = 0 \<and> EqualFold (TrimSpace (rlReason r)) quotaReason))"

definition rateLimitRetryUntil :: "gotime \<Rightarrow> goerror \<Rightarrow> gotime" where
  "rateLimitRetryUntil now e =
     (case firstRateLimit (errChain e) of
        None \<Rightarrow> zeroTime
      | Some r \<Rightarrow> if rlRetryAt r \<noteq> zeroTime then rlRetryAt r
                  else if rlRetryAfter r > 0 then now + rlRetryAfter r
                  else zeroTime)"

definition authMarkers :: "string list" where
  "authMarkers =
     [''unauthorized'', ''forbidden'', ''invalid_grant'', ''token expired'', ''authentication failed'']"

definition IsAuthFailure :: "goerror option \<Rightarrow> bool" where
  "IsAuthFailure err =
     (case err of None \<Rightarrow> False
      | Some e \<Rightarrow> (case firstHTTPStatus (errChain e) of
                    Some h \<Rightarrow> hsStatusCode h = 401 \<or> hsStatusCode h = 403
                  | None \<Rightarrow> (let msg = ToLower (errText e)
                             in legacyHTTPAuth msg \<or> containsAny msg authMarkers)))"

definition IsDisengaged :: "goerror option \<Rightarrow> bool" where
  "IsDisengaged err =
     (case err of None \<Rightarrow> False
      | Some e \<Rightarrow> errorsIs e ErrDisengaged \<or> Contains (ToLower (errText e)) ''chathub disengaged'')"

definition transientMarkers :: "string list" where
  "transientMarkers =
     [''unexpected eof'', ''eof'', ''close 1006'', ''abnormal closure'',
      ''broken pipe'', ''connection reset'', ''connection refused'',
      ''i/o timeout'', ''tls handshake timeout'', ''ws dial'',
      ''ws read before completion'', ''returned no content'', ''chathub completion error'',
      ''chathub upstream error'', ''chathub closed before completion'', ''chathub response deadline'',
      ''upstream error'', ''bad gateway'', ''service unavailable'', ''gateway timeout'',
      ''internal server error'', ''http 500'', ''http 502'', ''http 503'', ''http 504'',
      ''proxy dialer'', ''unsupported proxy protocol'', ''network is unreachable'', ''no route to host'',
      ''no such host'', ''server misbehaving'', ''x509:'', ''certificate'', ''tls:'']"

definition IsTransientUpstream :: "goerror option \<Rightarrow> bool" where
  "IsTransientUpstream err =
     (case err of None \<Rightarrow> False
      | Some e \<Rightarrow>
          if errorsIs e ContextCanceled \<or> errorsIs e ContextDeadlineExceeded then False
          else containsAny (ToLower (errText e)) transientMarkers)"

definition IsUpstreamAccountFailure :: "goerror option \<Rightarrow> bool" where
  "IsUpstreamAccountFailure err =
     (case err of None \<Rightarrow> False
      | Some e \<Rightarrow>
          if errorsIs e ContextCanceled \<or> errorsIs e ContextDeadlineExceeded \<or> errorsIs e IoErrClosedPipe
          then False
          else if IsDisengaged err then False
          else
            let msg = ToLower (TrimSpace (errText e))
            in if (Contains msg ''context deadline exceeded'' \<or> TrimSpace msg = ''deadline exceeded'')
                  \<and> \<not> Contains msg ''ws read'' \<and> \<not> Contains msg ''chathub response deadline''
                  \<and> \<not> Contains msg ''i/o timeout''
               then False
               else \<not> containsAny msg [''invalid request'', ''persist session'', ''session persistence''])"

datatype failureClass =
    PolicyRefusal | RateLimitClass | QuotaExhaustedClass | AuthClass | TransientUpstreamClass
  | UpstreamUnknown

definition accountFailureClass :: "goerror option \<Rightarrow> failureClass" where
  "accountFailureClass err =
     (if IsDisengaged err then PolicyRefusal
      else if IsRateLimited err then RateLimitClass
      else if IsQuotaExhausted err then QuotaExhaustedClass
      else if IsAuthFailure err then AuthClass
      else if IsTransientUpstream err then TransientUpstreamClass
      else UpstreamUnknown)"

definition isSharedUpstreamFailure :: "goerror option \<Rightarrow> bool" where
  "isSharedUpstreamFailure err =
     (case err of None \<Rightarrow> False
      | Some e \<Rightarrow>
          if IsDisengaged err \<or> IsRateLimited err \<or> IsQuotaExhausted err \<or> IsAuthFailure err
             \<or> \<not> IsTransientUpstream err
          then False
          else \<not> containsAny (ToLower (errText e))
                   [''proxy dialer'', ''unsupported proxy protocol'', ''socks5'', ''http proxy''])"

end
