(* ===== verification/AccountHealth.thy ===== *)
theory AccountHealth
  imports UpstreamErrors
begin

text \<open>
  The per-account health tracker of internal/web/account_health.go: timed cooldowns for rate
  limits, quota and transient failures, and the hard authentication pin. Every operation runs
  under the tracker's mutex; it reads the clock once, and that reading is its argument now.
\<close>

subsection \<open>State\<close>

record accountHealth =
  cooldown :: "(string, gotime) gomap"
  transient :: "(string, gotime) gomap"
  authFail :: "(string, bool) gomap"

definition newAccountHealth :: accountHealth where
  "newAccountHealth = \<lparr>cooldown = [], transient = [], authFail = []\<rparr>"

definition wf_health :: "accountHealth \<Rightarrow> bool" where
  "wf_health h \<longleftrightarrow> wf_map (cooldown h) \<and> wf_map (transient h) \<and> wf_map (authFail h)"

definition rateLimitCooldown :: duration where
  "rateLimitCooldown = minutes 2"

definition quotaExhaustedCooldown :: duration where
  "quotaExhaustedCooldown = hours 6"

definition transientFailureCooldown :: duration where
  "transientFailureCooldown = seconds 30"

definition disengagedCooldown :: duration where
  "disengagedCooldown = minutes 12"

subsection \<open>Operations\<close>

definition extendDeadline ::
  "(string, gotime) gomap \<Rightarrow> string \<Rightarrow> gotime \<Rightarrow> (string, gotime) gomap" where
  "extendDeadline deadlines aid until =
     (case map_of deadlines aid of
        None \<Rightarrow> AList.update aid until deadlines
      | Some current \<Rightarrow> if until > current then AList.update aid until deadlines else deadlines)"

definition MarkRateLimited :: "gotime \<Rightarrow> string \<Rightarrow> gotime \<Rightarrow> accountHealth \<Rightarrow> accountHealth" where
  "MarkRateLimited now aid until h =
     (let until = (if until = zeroTime then now + rateLimitCooldown else until)
      in h\<lparr>cooldown := extendDeadline (cooldown h) aid until\<rparr>)"

definition MarkQuotaExhausted :: "gotime \<Rightarrow> string \<Rightarrow> gotime \<Rightarrow> accountHealth \<Rightarrow> accountHealth" where
  "MarkQuotaExhausted now aid until h =
     (let until = (if until = zeroTime then now + quotaExhaustedCooldown else until)
      in h\<lparr>cooldown := extendDeadline (cooldown h) aid until\<rparr>)"

definition MarkTransient :: "gotime \<Rightarrow> string \<Rightarrow> accountHealth \<Rightarrow> accountHealth" where
  "MarkTransient now aid h =
     h\<lparr>transient := extendDeadline (transient h) aid (now + transientFailureCooldown)\<rparr>"

definition MarkDisengaged :: "gotime \<Rightarrow> string \<Rightarrow> accountHealth \<Rightarrow> accountHealth" where
  "MarkDisengaged now aid h =
     h\<lparr>transient := extendDeadline (transient h) aid (now + disengagedCooldown)\<rparr>"

definition MarkAuthFail :: "string \<Rightarrow> accountHealth \<Rightarrow> accountHealth" where
  "MarkAuthFail aid h = h\<lparr>authFail := AList.update aid True (authFail h)\<rparr>"

definition dropExpired ::
  "gotime \<Rightarrow> string \<Rightarrow> (string, gotime) gomap \<Rightarrow> (string, gotime) gomap" where
  "dropExpired now aid m =
     (case map_of m aid of
        None \<Rightarrow> AList.delete aid m
      | Some until \<Rightarrow> if \<not> now < until then AList.delete aid m else m)"

definition MarkSuccess :: "gotime \<Rightarrow> string \<Rightarrow> accountHealth \<Rightarrow> accountHealth" where
  "MarkSuccess now aid h =
     h\<lparr>cooldown := dropExpired now aid (cooldown h), transient := dropExpired now aid (transient h)\<rparr>"

definition ClearAuthFailure :: "string \<Rightarrow> accountHealth \<Rightarrow> accountHealth" where
  "ClearAuthFailure aid h = h\<lparr>authFail := AList.delete aid (authFail h)\<rparr>"

definition resting :: "gotime \<Rightarrow> (string, gotime) gomap \<Rightarrow> string \<Rightarrow> bool" where
  "resting now m aid = (case map_of m aid of None \<Rightarrow> False | Some until \<Rightarrow> now < until)"

definition Available :: "gotime \<Rightarrow> accountHealth \<Rightarrow> string \<Rightarrow> bool" where
  "Available now h aid =
     (if getOr False (authFail h) aid then False
      else if resting now (cooldown h) aid then False
      else if resting now (transient h) aid then False
      else True)"

text \<open>The persisted part: only what still matters at the time of writing or reading.\<close>

definition persistedState :: "gotime \<Rightarrow> accountHealth \<Rightarrow> accountHealth" where
  "persistedState now h =
     \<lparr>cooldown = filter (\<lambda>(aid, until). now < until) (cooldown h),
      transient = filter (\<lambda>(aid, until). now < until) (transient h),
      authFail = filter (\<lambda>(aid, failed). failed) (authFail h)\<rparr>"

definition restorePersistedState :: "gotime \<Rightarrow> accountHealth \<Rightarrow> accountHealth" where
  "restorePersistedState now state =
     \<lparr>cooldown = filter (\<lambda>(aid, until). \<not> blank aid \<and> now < until) (cooldown state),
      transient = filter (\<lambda>(aid, until). \<not> blank aid \<and> now < until) (transient state),
      authFail = filter (\<lambda>(aid, failed). \<not> blank aid \<and> failed) (authFail state)\<rparr>"

record accountHealthView =
  hvAccountID :: string
  hvRateLimited :: bool
  hvAuthFail :: bool
  hvTransientFail :: bool
  hvCooldownUntil :: "gotime option"

definition Snapshot :: "gotime \<Rightarrow> accountHealth \<Rightarrow> accountHealthView list" where
  "Snapshot now h =
     map (\<lambda>(aid, t). \<lparr>hvAccountID = aid, hvRateLimited = now < t, hvAuthFail = False,
                       hvTransientFail = False, hvCooldownUntil = Some t\<rparr>) (cooldown h)
     @ map (\<lambda>(aid, t). \<lparr>hvAccountID = aid, hvRateLimited = False, hvAuthFail = False,
                       hvTransientFail = now < t, hvCooldownUntil = Some t\<rparr>) (transient h)
     @ map (\<lambda>(aid, f). \<lparr>hvAccountID = aid, hvRateLimited = False, hvAuthFail = True,
                       hvTransientFail = False, hvCooldownUntil = None\<rparr>) (authFail h)"

text \<open>What a failure means for the account (recordAccountFailureHealth of account_router.go).\<close>

definition recordAccountFailureHealth :: "gotime \<Rightarrow> string \<Rightarrow> goerror \<Rightarrow> accountHealth \<Rightarrow> accountHealth" where
  "recordAccountFailureHealth now aid err h =
     (if IsDisengaged (Some err) then MarkDisengaged now aid h
      else if IsQuotaExhausted (Some err) then MarkQuotaExhausted now aid (rateLimitRetryUntil now err) h
      else if IsRateLimited (Some err) then MarkRateLimited now aid (rateLimitRetryUntil now err) h
      else if IsAuthFailure (Some err) then MarkAuthFail aid h
      else MarkTransient now aid h)"

subsection \<open>Laws of the deadline maps\<close>

lemma extendDeadline_wf [simp]: "wf_map m \<Longrightarrow> wf_map (extendDeadline m aid u)"
  by (auto simp: extendDeadline_def split: option.splits)

lemma extendDeadline_other [simp]:
  "a \<noteq> aid \<Longrightarrow> map_of (extendDeadline m aid u) a = map_of m a"
  by (auto simp: extendDeadline_def split: option.splits)

lemma extendDeadline_same [simp]:
  "map_of (extendDeadline m aid u) aid =
     Some (case map_of m aid of None \<Rightarrow> u | Some c \<Rightarrow> max c u)"
  by (auto simp: extendDeadline_def max_def split: option.splits)

lemma resting_extend [simp]:
  "resting t (extendDeadline m aid u) a \<longleftrightarrow> resting t m a \<or> (a = aid \<and> t < u)"
  by (cases "a = aid") (auto simp: resting_def split: option.splits)

lemma dropExpired_wf [simp]: "wf_map m \<Longrightarrow> wf_map (dropExpired now aid m)"
  by (auto simp: dropExpired_def split: option.splits)

lemma resting_dropExpired:
  "now \<le> t \<Longrightarrow> resting t (dropExpired now aid m) a = resting t m a"
  by (cases "a = aid") (auto simp: resting_def dropExpired_def split: option.splits)

lemma Available_iff:
  "Available now h aid \<longleftrightarrow>
     \<not> getOr False (authFail h) aid \<and> \<not> resting now (cooldown h) aid
     \<and> \<not> resting now (transient h) aid"
  by (simp add: Available_def)

subsection \<open>Every operation of the tracker\<close>

text \<open>The operations as data, with the clock reading each of them makes.\<close>

datatype healthOp =
    OpRateLimited gotime string gotime
  | OpQuotaExhausted gotime string gotime
  | OpTransient gotime string
  | OpDisengaged gotime string
  | OpAuthFail gotime string
  | OpSuccess gotime string
  | OpClearAuth gotime string

fun opTime :: "healthOp \<Rightarrow> gotime" where
  "opTime (OpRateLimited n _ _) = n"
| "opTime (OpQuotaExhausted n _ _) = n"
| "opTime (OpTransient n _) = n"
| "opTime (OpDisengaged n _) = n"
| "opTime (OpAuthFail n _) = n"
| "opTime (OpSuccess n _) = n"
| "opTime (OpClearAuth n _) = n"

fun opAccount :: "healthOp \<Rightarrow> string" where
  "opAccount (OpRateLimited _ a _) = a"
| "opAccount (OpQuotaExhausted _ a _) = a"
| "opAccount (OpTransient _ a) = a"
| "opAccount (OpDisengaged _ a) = a"
| "opAccount (OpAuthFail _ a) = a"
| "opAccount (OpSuccess _ a) = a"
| "opAccount (OpClearAuth _ a) = a"

fun healthStep :: "healthOp \<Rightarrow> accountHealth \<Rightarrow> accountHealth" where
  "healthStep (OpRateLimited n a u) h = MarkRateLimited n a u h"
| "healthStep (OpQuotaExhausted n a u) h = MarkQuotaExhausted n a u h"
| "healthStep (OpTransient n a) h = MarkTransient n a h"
| "healthStep (OpDisengaged n a) h = MarkDisengaged n a h"
| "healthStep (OpAuthFail n a) h = MarkAuthFail a h"
| "healthStep (OpSuccess n a) h = MarkSuccess n a h"
| "healthStep (OpClearAuth n a) h = ClearAuthFailure a h"

fun isClear :: "string \<Rightarrow> healthOp \<Rightarrow> bool" where
  "isClear a (OpClearAuth _ b) = (a = b)"
| "isClear a _ = False"

lemmas mark_defs =
  MarkRateLimited_def MarkQuotaExhausted_def MarkTransient_def MarkDisengaged_def
  MarkAuthFail_def MarkSuccess_def ClearAuthFailure_def Let_def

lemma healthStep_wf [simp]: "wf_health h \<Longrightarrow> wf_health (healthStep op h)"
  by (cases op) (simp_all add: wf_health_def mark_defs)

lemma wf_newAccountHealth [simp]: "wf_health newAccountHealth"
  by (simp add: wf_health_def newAccountHealth_def)

lemma map_of_dropExpired_other [simp]:
  "b \<noteq> a \<Longrightarrow> map_of (dropExpired n a m) b = map_of m b"
  by (auto simp: dropExpired_def split: option.splits)

lemma resting_dropExpired_other [simp]:
  "b \<noteq> a \<Longrightarrow> resting t (dropExpired n a m) b = resting t m b"
  by (simp add: resting_def)

lemma healthStep_other:
  "b \<noteq> opAccount op \<Longrightarrow> Available t (healthStep op h) b = Available t h b"
  by (cases op) (auto simp: mark_defs Available_iff)

text \<open>
  No operation except the explicit credential update makes an account available that was not:
  a late success only drops deadlines that have expired when it is recorded.
\<close>

lemma healthStep_keeps_unavailable:
  assumes "\<not> Available t h a" and "opTime op \<le> t" and "\<not> isClear a op"
  shows "\<not> Available t (healthStep op h) a"
  using assms by (cases op) (auto simp: mark_defs Available_iff resting_dropExpired)

lemma healthRun_keeps_unavailable:
  "\<not> Available t h a \<Longrightarrow> \<forall>op \<in> set ops. opTime op \<le> t \<and> \<not> isClear a op \<Longrightarrow>
   \<not> Available t (fold healthStep ops h) a"
  by (induction ops arbitrary: h) (auto simp: healthStep_keeps_unavailable)

lemma authFail_persists:
  "getOr False (authFail h) a \<Longrightarrow> \<not> isClear a op \<Longrightarrow> getOr False (authFail (healthStep op h)) a"
  by (cases op) (auto simp: mark_defs)

lemma MarkSuccess_Available: "now \<le> t \<Longrightarrow> Available t (MarkSuccess now a h) b = Available t h b"
  by (simp add: MarkSuccess_def Available_iff resting_dropExpired)

subsection \<open>A failure rests the account\<close>

text \<open>How long a failure rests the account that caused it; None is the pin without an end.\<close>

definition restUntil :: "gotime \<Rightarrow> goerror \<Rightarrow> gotime option" where
  "restUntil now err =
     (if IsDisengaged (Some err) then Some (now + disengagedCooldown)
      else if IsQuotaExhausted (Some err) then
        Some (if rateLimitRetryUntil now err = zeroTime then now + quotaExhaustedCooldown
              else rateLimitRetryUntil now err)
      else if IsRateLimited (Some err) then
        Some (if rateLimitRetryUntil now err = zeroTime then now + rateLimitCooldown
              else rateLimitRetryUntil now err)
      else if IsAuthFailure (Some err) then None
      else Some (now + transientFailureCooldown))"

lemma recordFailure_Available:
  "Available t (recordAccountFailureHealth now a err h) b \<longleftrightarrow>
     Available t h b \<and> (b = a \<longrightarrow> (case restUntil now err of None \<Rightarrow> False | Some u \<Rightarrow> u \<le> t))"
  by (auto simp: recordAccountFailureHealth_def restUntil_def mark_defs Available_iff)

lemma recordFailure_wf [simp]:
  "wf_health h \<Longrightarrow> wf_health (recordAccountFailureHealth now a err h)"
  by (simp add: recordAccountFailureHealth_def wf_health_def mark_defs)

subsection \<open>Persistence\<close>

lemma resting_filter:
  "wf_map m \<Longrightarrow> now \<le> t \<Longrightarrow> (\<forall>k v. P (k, v) \<longleftrightarrow> (Q k \<and> now < v)) \<Longrightarrow> Q a \<Longrightarrow>
   resting t (filter P m) a = resting t m a"
  by (auto simp: resting_def map_of_filter_wf split: option.splits)

lemma getOr_filter_flag:
  "wf_map m \<Longrightarrow> (\<forall>k v. P (k, v) \<longleftrightarrow> (Q k \<and> v)) \<Longrightarrow> Q a \<Longrightarrow>
   getOr False (filter P m) a = getOr False m a"
  by (auto simp: getOr_def map_of_filter_wf split: option.splits)

lemma persistedState_Available:
  assumes "wf_health h" and "now \<le> t"
  shows "Available t (persistedState now h) a = Available t h a"
  using assms
  by (simp add: Available_iff persistedState_def wf_health_def
      resting_filter [where Q = "\<lambda>_. True"] getOr_filter_flag [where Q = "\<lambda>_. True"])

lemma restorePersistedState_Available:
  assumes "wf_health h" and "now \<le> t" and "\<not> blank a"
  shows "Available t (restorePersistedState now h) a = Available t h a"
  using assms
  by (simp add: Available_iff restorePersistedState_def wf_health_def
      resting_filter [where Q = "\<lambda>k. \<not> blank k"] getOr_filter_flag [where Q = "\<lambda>k. \<not> blank k"])

lemma persistedState_wf [simp]: "wf_health h \<Longrightarrow> wf_health (persistedState now h)"
  by (simp add: wf_health_def persistedState_def)

lemma restorePersistedState_wf [simp]: "wf_health h \<Longrightarrow> wf_health (restorePersistedState now h)"
  by (simp add: wf_health_def restorePersistedState_def)

end
