(* ===== verification/PolicyRefusal.thy ===== *)
theory PolicyRefusal
  imports AccountHealth
begin

text \<open>
  The prompt-scoped refusal guard of internal/web/policy_refusal.go: the digests of recently
  refused prompts with the time until which an identical prompt is rejected before routing. The
  digest function (SHA-256) is an argument; a key is its 32-byte result.
\<close>

type_synonym refusals = "(string, gotime) gomap"

definition policyRefusalTTL :: duration where
  "policyRefusalTTL = disengagedCooldown"

definition maxPolicyRefusalEntries :: nat where
  "maxPolicyRefusalEntries = 2048"

definition policyRefusalKey :: "(string \<Rightarrow> string) \<Rightarrow> string \<Rightarrow> string" where
  "policyRefusalKey sha256 prompt = sha256 (TrimSpace prompt)"

text \<open>Entries that have expired are dropped from memory and from the persisted copy.\<close>

definition liveRefusals :: "gotime \<Rightarrow> refusals \<Rightarrow> refusals" where
  "liveRefusals now r = filter (\<lambda>(key, until). now < until) r"

definition persistedPolicyRefusals :: "gotime \<Rightarrow> refusals \<Rightarrow> (string, gotime) gomap \<times> refusals" where
  "persistedPolicyRefusals now r =
     (map (\<lambda>(key, until). (hexEncode key, until)) (liveRefusals now r), liveRefusals now r)"

definition restoreEntry :: "gotime \<Rightarrow> string \<times> gotime \<Rightarrow> refusals \<Rightarrow> refusals" where
  "restoreEntry now entry restored =
     (case entry of (encoded, until) \<Rightarrow>
        if \<not> now < until \<or> length restored \<ge> maxPolicyRefusalEntries then restored
        else case hexDecode encoded of
               None \<Rightarrow> restored
             | Some decoded \<Rightarrow>
                 if length decoded \<noteq> 32 then restored else AList.update decoded until restored)"

definition restorePolicyRefusals :: "gotime \<Rightarrow> (string, gotime) gomap \<Rightarrow> refusals" where
  "restorePolicyRefusals now state = fold (restoreEntry now) state []"

text \<open>
  The scan for the entry that expires first: a running minimum, where the zero time means that
  none has been seen.
\<close>

fun oldestRefusal :: "refusals \<Rightarrow> string \<times> gotime \<Rightarrow> string \<times> gotime" where
  "oldestRefusal [] best = best"
| "oldestRefusal ((key, until) # r) best =
     oldestRefusal r (if snd best = zeroTime \<or> until < snd best then (key, until) else best)"

definition rememberPolicyRefusal ::
  "(string \<Rightarrow> string) \<Rightarrow> gotime \<Rightarrow> string \<Rightarrow> refusals \<Rightarrow> refusals" where
  "rememberPolicyRefusal sha256 now prompt r =
     (if blank prompt then r
      else
        let key = policyRefusalKey sha256 prompt;
            live = liveRefusals now r;
            (oldestKey, oldest) = oldestRefusal live ([], zeroTime);
            live = (if map_of live key = None \<and> length live \<ge> maxPolicyRefusalEntries
                       \<and> oldest \<noteq> zeroTime
                    then AList.delete oldestKey live else live)
        in AList.update key (now + policyRefusalTTL) live)"

definition recentPolicyRefusal ::
  "(string \<Rightarrow> string) \<Rightarrow> gotime \<Rightarrow> string \<Rightarrow> refusals \<Rightarrow> bool \<times> refusals" where
  "recentPolicyRefusal sha256 now prompt r =
     (if blank prompt then (False, r)
      else
        let key = policyRefusalKey sha256 prompt
        in case map_of r key of
             None \<Rightarrow> (False, r)
           | Some until \<Rightarrow> if \<not> now < until then (False, AList.delete key r) else (True, r))"

subsection \<open>The guard is bounded and its keys are distinct\<close>

definition wf_refusals :: "refusals \<Rightarrow> bool" where
  "wf_refusals r \<longleftrightarrow> wf_map r \<and> length r \<le> maxPolicyRefusalEntries \<and> (\<forall>(k, u) \<in> set r. 0 < u)"

lemma length_update_le: "length (AList.update k v m) \<le> Suc (length m)"
  by (induction m) auto

lemma length_update_mem: "map_of m k \<noteq> None \<Longrightarrow> length (AList.update k v m) = length m"
  by (induction m) auto

lemma length_delete_mem: "map_of m k \<noteq> None \<Longrightarrow> length (AList.delete k m) < length m"
proof (induction m)
  case Nil
  then show ?case by simp
next
  case (Cons kv m)
  then show ?case
    using length_delete_le [of k m] by (cases kv) (auto split: if_splits)
qed

lemma liveRefusals_wf [simp]: "wf_refusals r \<Longrightarrow> wf_refusals (liveRefusals now r)"
  by (auto simp: wf_refusals_def liveRefusals_def intro: le_trans [OF length_filter_le])

lemma oldestRefusal_mem:
  "oldestRefusal r best = (k, u) \<Longrightarrow> (k, u) = best \<or> (k, u) \<in> set r"
  by (induction r best rule: oldestRefusal.induct) (auto split: if_splits)

lemma oldestRefusal_nonzero:
  "(\<forall>(k, u) \<in> set r. 0 < u) \<Longrightarrow> 0 \<le> snd best \<Longrightarrow> r \<noteq> [] \<or> 0 < snd best \<Longrightarrow>
   0 < snd (oldestRefusal r best)"
  by (induction r best rule: oldestRefusal.induct) auto

lemma oldestRefusal_min:
  "(\<forall>(k, u) \<in> set r. 0 < u) \<Longrightarrow> 0 \<le> snd best \<Longrightarrow>
   \<forall>(k, u) \<in> set r. snd (oldestRefusal r best) \<le> u"
proof -
  have le: "(\<forall>(k, u) \<in> set r. 0 < u) \<Longrightarrow> 0 < snd best \<Longrightarrow> snd (oldestRefusal r best) \<le> snd best" for r best
    by (induction r best rule: oldestRefusal.induct) (auto split: if_splits)
  show "(\<forall>(k, u) \<in> set r. 0 < u) \<Longrightarrow> 0 \<le> snd best \<Longrightarrow>
   \<forall>(k, u) \<in> set r. snd (oldestRefusal r best) \<le> u"
  proof (induction r best rule: oldestRefusal.induct)
    case (1 best)
    then show ?case by simp
  next
    case (2 key until r best)
    let ?b = "if snd best = zeroTime \<or> until < snd best then (key, until) else best"
    have "snd (oldestRefusal r ?b) \<le> snd ?b"
      by (rule le) (use 2 in auto)
    moreover have "snd ?b \<le> until" by auto
    moreover have "\<forall>(k, u) \<in> set r. snd (oldestRefusal r ?b) \<le> u"
      by (rule "2.IH") (use 2 in auto)
    ultimately show ?case by auto
  qed
qed

lemma update_pos:
  "(\<forall>(k, u) \<in> set m. (0::int) < u) \<Longrightarrow> 0 < v \<Longrightarrow> \<forall>(k, u) \<in> set (AList.update x v m). 0 < u"
  by (induction m) auto

lemma delete_subset: "set (AList.delete k m) \<subseteq> set m"
  by (induction m) auto

lemma rememberPolicyRefusal_wf:
  assumes wf: "wf_refusals r" and now: "0 \<le> now"
  shows "wf_refusals (rememberPolicyRefusal sha256 now prompt r)"
proof (cases "blank prompt")
  case True
  with wf show ?thesis by (simp add: rememberPolicyRefusal_def)
next
  case False
  define key where "key = policyRefusalKey sha256 prompt"
  define live where "live = liveRefusals now r"
  obtain ok old where oldest: "oldestRefusal live ([], zeroTime) = (ok, old)" by force
  define evict where
    "evict \<longleftrightarrow> map_of live key = None \<and> length live \<ge> maxPolicyRefusalEntries \<and> old \<noteq> zeroTime"
  define kept where "kept = (if evict then AList.delete ok live else live)"
  have res: "rememberPolicyRefusal sha256 now prompt r = AList.update key (now + policyRefusalTTL) kept"
    using False oldest by (simp add: rememberPolicyRefusal_def key_def live_def kept_def evict_def Let_def)
  have live: "wf_refusals live" using wf by (simp add: live_def)
  have ttl: "0 < policyRefusalTTL" by (simp add: policyRefusalTTL_def disengagedCooldown_def)
  have kept: "wf_map kept" "\<forall>(k, u) \<in> set kept. 0 < u"
    using live delete_subset [of ok live] by (auto simp: kept_def wf_refusals_def)
  have len: "length (AList.update key (now + policyRefusalTTL) kept) \<le> maxPolicyRefusalEntries"
  proof (cases evict)
    case True
    then have nz: "old \<noteq> zeroTime" by (simp add: evict_def)
    with oldestRefusal_mem [OF oldest] have "(ok, old) \<in> set live" by auto
    then have "map_of live ok \<noteq> None"
      by (metis map_of_eq_None_iff fst_conv image_eqI)
    then have "Suc (length kept) \<le> length live"
      using True length_delete_mem [of live ok] by (simp add: kept_def)
    then show ?thesis
      using live length_update_le [of key "now + policyRefusalTTL" kept]
      by (simp add: wf_refusals_def)
  next
    case False
    then have k: "kept = live" by (simp add: kept_def)
    show ?thesis
    proof (cases "map_of live key = None")
      case True
      have "length live < maxPolicyRefusalEntries"
      proof (rule ccontr)
        assume "\<not> ?thesis"
        with True False have "old = zeroTime" "live \<noteq> []"
          by (auto simp: evict_def maxPolicyRefusalEntries_def)
        with oldestRefusal_nonzero [of live "([], zeroTime)"] live oldest
        show False by (auto simp: wf_refusals_def)
      qed
      then show ?thesis using k length_update_le [of key "now + policyRefusalTTL" kept] by simp
    next
      case False
      then show ?thesis using k live length_update_mem [OF False] by (simp add: wf_refusals_def)
    qed
  qed
  show ?thesis
    using kept len now ttl update_pos [OF kept(2), of "now + policyRefusalTTL" key]
    by (simp add: wf_refusals_def res)
qed

lemma recentPolicyRefusal_wf:
  "wf_refusals r \<Longrightarrow> wf_refusals (snd (recentPolicyRefusal sha256 now prompt r))"
  using delete_subset [of "policyRefusalKey sha256 prompt" r]
    length_delete_le [of "policyRefusalKey sha256 prompt" r]
  by (auto simp: recentPolicyRefusal_def wf_refusals_def Let_def split: option.splits)

lemma restoreEntry_wf:
  "wf_refusals acc \<Longrightarrow> 0 \<le> now \<Longrightarrow> wf_refusals (restoreEntry now e acc)"
proof (cases e)
  case (Pair enc u)
  assume wf: "wf_refusals acc" and now: "0 \<le> now"
  have "wf_refusals (AList.update d u acc)"
    if "now < u" "length acc < maxPolicyRefusalEntries" for d
    using wf now that length_update_le [of d u acc] update_pos [of acc u d]
    by (simp add: wf_refusals_def)
  with wf Pair show ?thesis by (auto simp: restoreEntry_def split: option.splits)
qed

lemma restorePolicyRefusals_wf: "0 \<le> now \<Longrightarrow> wf_refusals (restorePolicyRefusals now state)"
proof -
  assume now: "0 \<le> now"
  have "wf_refusals acc \<Longrightarrow> wf_refusals (fold (restoreEntry now) state acc)" for acc
    by (induction state arbitrary: acc) (use now in \<open>auto simp: restoreEntry_wf\<close>)
  from this [of "[]"] show ?thesis by (simp add: restorePolicyRefusals_def wf_refusals_def)
qed

subsection \<open>Remembering and asking\<close>

lemma recent_after_remember:
  "\<not> blank prompt \<Longrightarrow> t < now + policyRefusalTTL \<Longrightarrow>
   fst (recentPolicyRefusal sha256 t prompt (rememberPolicyRefusal sha256 now prompt r))"
  by (simp add: recentPolicyRefusal_def rememberPolicyRefusal_def Let_def split: prod.splits)

lemma persisted_restored:
  assumes "wf_refusals r" and "\<forall>(k, u) \<in> set r. length k = 32" and "now \<le> t"
  shows "restorePolicyRefusals t (fst (persistedPolicyRefusals now r)) = liveRefusals t r"
proof -
  define step where "step = (\<lambda>(key, until). (hexEncode key, until :: gotime))"
  have upd: "k \<notin> fst ` set acc \<Longrightarrow> AList.update k u acc = acc @ [(k, u)]" for k and u :: gotime and acc
    by (induction acc) auto
  have "fold (restoreEntry t) (map step (filter (\<lambda>(key, until). now < until) xs)) acc
        = acc @ filter (\<lambda>(key, until). t < until) xs"
    if "distinct (map fst (acc @ xs))" "length acc + length xs \<le> maxPolicyRefusalEntries"
       "\<forall>(k, u) \<in> set xs. length k = 32" for xs acc
    using that
  proof (induction xs arbitrary: acc)
    case Nil
    then show ?case by simp
  next
    case (Cons x xs)
    obtain k u where x: "x = (k, u)" by force
    show ?case
    proof (cases "t < u")
      case True
      have k: "k \<notin> fst ` set acc" using Cons.prems(1) x by auto
      have e: "restoreEntry t (step x) acc = acc @ [(k, u)]"
        using True Cons.prems x upd [OF k] by (simp add: restoreEntry_def step_def)
      have "fold (restoreEntry t) (map step (filter (\<lambda>(key, until). now < until) xs)) (acc @ [(k, u)])
            = (acc @ [(k, u)]) @ filter (\<lambda>(key, until). t < until) xs"
        by (rule Cons.IH) (use Cons.prems x in auto)
      with True x e assms(3) show ?thesis by simp
    next
      case False
      then have e: "restoreEntry t (step x) acc = acc"
        using x by (simp add: restoreEntry_def step_def)
      have "fold (restoreEntry t) (map step (filter (\<lambda>(key, until). now < until) xs)) acc
            = acc @ filter (\<lambda>(key, until). t < until) xs"
        by (rule Cons.IH) (use Cons.prems x in auto)
      with False x e show ?thesis by simp
    qed
  qed
  from this [of "[]" r] assms show ?thesis
    by (simp add: restorePolicyRefusals_def persistedPolicyRefusals_def liveRefusals_def step_def
        wf_refusals_def)
qed

end
