(* ===== verification/GoJson.thy ===== *)
theory GoJson
  imports GoText
begin

text \<open>
  JSON values as Go programs see them after decoding into \<open>any\<close>, the text encoding/json writes for
  them, and contentToString and mustJSON of internal/web/server.go.

  A number is represented by the text encoding/json prints for it; an object is its list of members
  with distinct names. Encoding a map sorts its members by name; \<open>canon\<close> does this at every level.
\<close>

datatype json =
    JNull
  | JBool bool
  | JNum string
  | JStr string
  | JArr "json list"
  | JObj "(string \<times> json) list"

subsection \<open>Order of names\<close>

fun strLess :: "string \<Rightarrow> string \<Rightarrow> bool" where
  "strLess [] [] = False"
| "strLess [] (_ # _) = True"
| "strLess (_ # _) [] = False"
| "strLess (a # as) (b # bs) =
     (byteVal a < byteVal b \<or> (byteVal a = byteVal b \<and> strLess as bs))"

text \<open>Insertion behind all elements that are not greater: a stable sort.\<close>

fun insertBy :: "('a \<Rightarrow> 'a \<Rightarrow> bool) \<Rightarrow> 'a \<Rightarrow> 'a list \<Rightarrow> 'a list" where
  "insertBy lt x [] = [x]"
| "insertBy lt x (y # ys) = (if lt x y then x # y # ys else y # insertBy lt x ys)"

definition sortBy :: "('a \<Rightarrow> 'a \<Rightarrow> bool) \<Rightarrow> 'a list \<Rightarrow> 'a list" where
  "sortBy lt xs = fold (insertBy lt) xs []"

lemma set_insertBy [simp]: "set (insertBy lt x xs) = insert x (set xs)"
  by (induction xs) auto

lemma length_insertBy [simp]: "length (insertBy lt x xs) = Suc (length xs)"
  by (induction xs) auto

lemma set_fold_insertBy: "set (fold (insertBy lt) xs acc) = set xs \<union> set acc"
  by (induction xs arbitrary: acc) auto

lemma length_fold_insertBy: "length (fold (insertBy lt) xs acc) = length xs + length acc"
  by (induction xs arbitrary: acc) auto

lemma set_sortBy [simp]: "set (sortBy lt xs) = set xs"
  by (simp add: sortBy_def set_fold_insertBy)

lemma length_sortBy [simp]: "length (sortBy lt xs) = length xs"
  by (simp add: sortBy_def length_fold_insertBy)

lemma distinct_insertBy [simp]: "distinct (insertBy lt x xs) \<longleftrightarrow> x \<notin> set xs \<and> distinct xs"
  by (induction xs) auto

lemma distinct_fold_insertBy:
  "distinct (xs @ acc) \<Longrightarrow> distinct (fold (insertBy lt) xs acc)"
  by (induction xs arbitrary: acc) auto

lemma distinct_sortBy: "distinct xs \<Longrightarrow> distinct (sortBy lt xs)"
  by (simp add: sortBy_def distinct_fold_insertBy)

fun canon :: "json \<Rightarrow> json" where
  "canon (JArr vs) = JArr (map canon vs)"
| "canon (JObj ms) = JObj (sortBy (\<lambda>m n. strLess (fst m) (fst n)) (map (\<lambda>(k, v). (k, canon v)) ms))"
| "canon v = v"

subsection \<open>Text\<close>

definition hex2 :: "nat \<Rightarrow> string" where
  "hex2 n = [hexDigit (n div 16), hexDigit (n mod 16)]"

text \<open>One rune inside a quoted string, with the escapes encoding/json uses by default.\<close>

definition quoteRune :: "string \<Rightarrow> string" where
  "quoteRune r =
     (if runeLen r = 0 then CHR 0x5C # ''ufffd''
      else if r = [CHR 0x22] then [CHR 0x5C, CHR 0x22]
      else if r = [CHR 0x5C] then [CHR 0x5C, CHR 0x5C]
      else if r = [CHR 0x08] then [CHR 0x5C, CHR ''b'']
      else if r = [CHR 0x0C] then [CHR 0x5C, CHR ''f'']
      else if r = [CHR 0x0A] then [CHR 0x5C, CHR ''n'']
      else if r = [CHR 0x0D] then [CHR 0x5C, CHR ''r'']
      else if r = [CHR 0x09] then [CHR 0x5C, CHR ''t'']
      else if r = [CHR 0xE2, CHR 0x80, CHR 0xA8] then CHR 0x5C # ''u2028''
      else if r = [CHR 0xE2, CHR 0x80, CHR 0xA9] then CHR 0x5C # ''u2029''
      else case r of
             [c] \<Rightarrow> if byteVal c < 32 \<or> c \<in> {CHR ''<'', CHR ''>'', CHR ''&''}
                    then CHR 0x5C # ''u00'' @ hex2 (byteVal c) else r
           | _ \<Rightarrow> r)"

definition jsonQuote :: "string \<Rightarrow> string" where
  "jsonQuote s = CHR 0x22 # concat (map quoteRune (runes s)) @ [CHR 0x22]"

definition commaJoin :: "string list \<Rightarrow> string" where
  "commaJoin parts = (case parts of [] \<Rightarrow> [] | p # ps \<Rightarrow> p @ concat (map (\<lambda>q. CHR '','' # q) ps))"

fun render :: "json \<Rightarrow> string" where
  "render JNull = ''null''"
| "render (JBool b) = (if b then ''true'' else ''false'')"
| "render (JNum t) = t"
| "render (JStr s) = jsonQuote s"
| "render (JArr vs) = CHR ''['' # commaJoin (map render vs) @ [CHR '']'']"
| "render (JObj ms) =
     CHR ''{'' # commaJoin (map (\<lambda>(k, v). jsonQuote k @ CHR '':'' # render v) ms) @ [CHR ''}'']"

definition mustJSON :: "json \<Rightarrow> string" where
  "mustJSON v = render (canon v)"

text \<open>What a string is after encoding and decoding: invalid bytes have become U+FFFD.\<close>

definition toValid :: "string \<Rightarrow> string" where
  "toValid s = runesString (runes s)"

lemma toValid_valid [simp]: "ValidString s \<Longrightarrow> toValid s = s"
  by (simp add: toValid_def runesString_valid)

lemma toValid_Nil [simp]: "toValid [] = []"
  by (simp add: toValid_def runesString_def)

lemma runeString_nonempty: "r \<noteq> [] \<Longrightarrow> runeString r \<noteq> []"
  by (simp add: runeString_def)

lemma toValid_eq_Nil [simp]: "toValid s = [] \<longleftrightarrow> s = []"
proof
  assume "toValid s = []"
  then have "\<forall>r \<in> set (runes s). runeString r = []" by (simp add: toValid_def runesString_def)
  then have "runes s = []" using runes_nonempty [of _ s] runeString_nonempty by (cases "runes s") auto
  then show "s = []" using concat_runes [of s] by simp
qed simp

subsection \<open>Access\<close>

definition jsonField :: "string \<Rightarrow> json \<Rightarrow> json" where
  "jsonField k v = (case v of JObj ms \<Rightarrow> getOr JNull ms k | _ \<Rightarrow> JNull)"

definition asString :: "json \<Rightarrow> string" where
  "asString v = (case v of JStr s \<Rightarrow> s | _ \<Rightarrow> [])"

text \<open>
  The text of a message content; what \<open>fmt.Sprint\<close> makes of a number, a boolean or an object is an
  argument.
\<close>

definition textPart :: "json \<Rightarrow> string" where
  "textPart part =
     (case part of
        JObj ms \<Rightarrow>
          (if asString (jsonField ''type'' part) \<in> {''text'', ''input_text'', ''output_text''}
           then asString (jsonField ''text'' part) else [])
      | _ \<Rightarrow> [])"

definition contentToString :: "(json \<Rightarrow> string) \<Rightarrow> json \<Rightarrow> string" where
  "contentToString sprint c =
     (case c of
        JNull \<Rightarrow> []
      | JStr s \<Rightarrow> s
      | JArr parts \<Rightarrow> concat (map textPart parts)
      | _ \<Rightarrow> sprint c)"

end
