(* ===== verification/AtomicFile.thy ===== *)
theory AtomicFile
  imports GoPrelude
begin

text \<open>
  Durable file replacement: atomicWriteFile of internal/web/atomic_file.go and its twin
  atomicWrite of internal/auth/cache.go, as the sequence of fallible system calls they make, and
  the abstraction every persistent store of the gateway uses: a file whose next writes either
  replace the whole content or leave it alone.
\<close>

subsection \<open>The system calls\<close>

text \<open>
  The part of the file system one call touches: the content of the path (None: no such file) and
  of the temporary file beside it. An environment fixes the outcome of every system call, and how
  many bytes a failing write leaves in the temporary file.
\<close>

record filesystem =
  target :: "string option"
  temporary :: "string option"

record writeEnv =
  mkdirOk :: bool
  createOk :: bool
  chmodOk :: bool
  writeOk :: bool
  partialBytes :: nat
  syncOk :: bool
  closeOk :: bool
  renameOk :: bool
  removeOk :: bool

datatype writeError =
    EmptyPath | MkdirFailed | CreateFailed | ChmodFailed | WriteFailed | SyncFailed
  | CloseFailed | RenameFailed

text \<open>The deferred cleanup: the temporary file is removed unless the rename has happened.\<close>

definition cleanup :: "writeEnv \<Rightarrow> filesystem \<Rightarrow> filesystem" where
  "cleanup env fs = (if removeOk env then fs\<lparr>temporary := None\<rparr> else fs)"

text \<open>
  The calls in order; the result is the error, and every intermediate state of the file system,
  the last one being the state when the function has returned.
\<close>

definition atomicWriteFile ::
  "string \<Rightarrow> string \<Rightarrow> writeEnv \<Rightarrow> filesystem \<Rightarrow> writeError option \<times> filesystem list" where
  "atomicWriteFile path data env fs =
     (if path = [] then (Some EmptyPath, [fs])
      else if \<not> mkdirOk env then (Some MkdirFailed, [fs])
      else if \<not> createOk env then (Some CreateFailed, [fs])
      else
        let fs1 = fs\<lparr>temporary := Some []\<rparr>
        in if \<not> chmodOk env then (Some ChmodFailed, [fs, fs1, cleanup env fs1])
           else if \<not> writeOk env then
             (let fs2 = fs1\<lparr>temporary := Some (take (partialBytes env) data)\<rparr>
              in (Some WriteFailed, [fs, fs1, fs2, cleanup env fs2]))
           else
             let fs2 = fs1\<lparr>temporary := Some data\<rparr>
             in if \<not> syncOk env then (Some SyncFailed, [fs, fs1, fs2, cleanup env fs2])
                else if \<not> closeOk env then (Some CloseFailed, [fs, fs1, fs2, cleanup env fs2])
                else if \<not> renameOk env then (Some RenameFailed, [fs, fs1, fs2, cleanup env fs2])
                else (None, [fs, fs1, fs2, \<lparr>target = temporary fs2, temporary = None\<rparr>]))"

text \<open>The twin in the token cache makes the same calls and has no check for an empty path.\<close>

definition atomicWrite ::
  "string \<Rightarrow> writeEnv \<Rightarrow> filesystem \<Rightarrow> writeError option \<times> filesystem list" where
  "atomicWrite data env fs = atomicWriteFile ''.'' data env fs"

lemma cleanup_target [simp]: "target (cleanup env fs) = target fs"
  by (simp add: cleanup_def)

lemma atomicWriteFile_states:
  "atomicWriteFile path data env fs = (err, states) \<Longrightarrow>
   states \<noteq> [] \<and> (\<forall>t \<in> set states. target t = target fs \<or> target t = Some data)"
  by (auto simp: atomicWriteFile_def Let_def split: if_splits)

lemma atomicWriteFile_success:
  "atomicWriteFile path data env fs = (None, states) \<Longrightarrow>
   target (last states) = Some data \<and> temporary (last states) = None"
  by (auto simp: atomicWriteFile_def Let_def split: if_splits)

lemma atomicWriteFile_failure:
  "atomicWriteFile path data env fs = (Some e, states) \<Longrightarrow>
   target (last states) = target fs"
  by (auto simp: atomicWriteFile_def Let_def split: if_splits)

lemma atomicWriteFile_no_litter:
  "atomicWriteFile path data env fs = (err, states) \<Longrightarrow> removeOk env \<Longrightarrow>
   temporary fs = None \<Longrightarrow> temporary (last states) = None"
  by (auto simp: atomicWriteFile_def Let_def cleanup_def split: if_splits)

subsection \<open>The abstraction: all or nothing\<close>

text \<open>
  A persisted value with the outcomes of its next writes (an exhausted list: all further writes
  succeed). A write consumes one outcome; it replaces the content or leaves it alone.
\<close>

datatype 'a diskfile = File (contents: "'a option") (outcomes: "bool list")

fun writeFile :: "'a \<Rightarrow> 'a diskfile \<Rightarrow> bool \<times> 'a diskfile" where
  "writeFile v (File c []) = (True, File (Some v) [])"
| "writeFile v (File c (b # bs)) = (b, File (if b then Some v else c) bs)"

lemma writeFile_ok: "writeFile v f = (True, f') \<Longrightarrow> contents f' = Some v"
  by (cases "(v, f)" rule: writeFile.cases) auto

lemma writeFile_fail: "writeFile v f = (False, f') \<Longrightarrow> contents f' = contents f"
  by (cases "(v, f)" rule: writeFile.cases) auto

lemmas writeFile_cases = writeFile_ok writeFile_fail

text \<open>
  Refinement: whatever the system calls do, the content of the path after the function has
  returned is the content of an abstract file after a write whose outcome is "no error".
\<close>

lemma atomicWriteFile_refines:
  "target (last (snd (atomicWriteFile path data env fs))) =
   contents (snd (writeFile data (File (target fs) [fst (atomicWriteFile path data env fs) = None])))"
  by (auto simp: atomicWriteFile_def Let_def)

subsection \<open>The contract of a durable store\<close>

text \<open>
  Every persistent store of the gateway promises the same: an operation that reports a
  persistence error has changed neither memory nor disk, and one that succeeds leaves the disk
  equal to memory or has not touched either. Memory then never runs ahead of the disk, so a
  restart that reloads the file finds what was in memory.
\<close>

definition insync :: "('s \<Rightarrow> 'v) \<Rightarrow> ('s \<Rightarrow> 'v option) \<Rightarrow> 'v \<Rightarrow> 's \<Rightarrow> bool" where
  "insync view disk fresh s \<longleftrightarrow> (case disk s of None \<Rightarrow> view s = fresh | Some v \<Rightarrow> v = view s)"

locale durable_store =
  fixes exec :: "'o \<Rightarrow> 's \<Rightarrow> 's"
    and failed :: "'o \<Rightarrow> 's \<Rightarrow> bool"
    and view :: "'s \<Rightarrow> 'v"
    and disk :: "'s \<Rightarrow> 'v option"
    and fresh :: 'v
  assumes failed_frame:
      "failed op s \<Longrightarrow> view (exec op s) = view s \<and> disk (exec op s) = disk s"
    and ok_sync:
      "\<not> failed op s \<Longrightarrow>
         view (exec op s) = view s \<and> disk (exec op s) = disk s
       \<or> disk (exec op s) = Some (view (exec op s))"
begin

lemma exec_insync: "insync view disk fresh s \<Longrightarrow> insync view disk fresh (exec op s)"
  using failed_frame [of op s] ok_sync [of op s]
  by (cases "failed op s") (auto simp: insync_def split: option.splits)

lemma run_insync: "insync view disk fresh s \<Longrightarrow> insync view disk fresh (fold exec ops s)"
  by (induction ops arbitrary: s) (auto intro: exec_insync)

lemma reload_after_run:
  "insync view disk fresh s \<Longrightarrow>
   (case disk (fold exec ops s) of None \<Rightarrow> fresh | Some v \<Rightarrow> v) = view (fold exec ops s)"
  using run_insync [of s ops] by (auto simp: insync_def split: option.splits)

end

end
