(* ===== verification/TokenFile.thy ===== *)
theory TokenFile
  imports GoJson AtomicFile
begin

text \<open>
  The accounts of internal/auth/cache.go and the JSON document of the cache file: what
  json.MarshalIndent makes of a \<open>Cache\<close> under the struct tags of \<open>AccountToken\<close> (names, omitempty,
  times as strings, invalid UTF-8 replaced), and what json.Unmarshal reads back from any document
  (members in order, names matched exactly or up to case, unknown names ignored, null leaving a
  field alone, a value of another type an error).

  The file is the JSON value; laying it out as text with two spaces of indentation and scanning it
  again are encoding/json's. Formatting a time (time.Time.MarshalJSON, an error outside the years 0
  to 9999) and parsing it are arguments. Case folding of names is that of ASCII letters.
\<close>

subsection \<open>Accounts\<close>

record tokenSet =
  tsAccessToken :: string
  tsRefreshToken :: string
  tsExpiresAt :: gotime
  tsEmail :: string
  tsDisplayName :: string
  tsHomeOID :: string
  tsTenantID :: string

record accountToken =
  accID :: string
  accEmail :: string
  accDisplayName :: string
  accStatus :: string
  accAccessToken :: string
  accRefreshToken :: string
  accExpiresAt :: gotime
  accUpdatedAt :: gotime
  accOID :: string
  accTID :: string
  accClientID :: string
  accProxy :: string

definition emptyAccount :: accountToken where
  "emptyAccount =
     \<lparr>accID = [], accEmail = [], accDisplayName = [], accStatus = [], accAccessToken = [],
      accRefreshToken = [], accExpiresAt = zeroTime, accUpdatedAt = zeroTime, accOID = [],
      accTID = [], accClientID = [], accProxy = []\<rparr>"

subsection \<open>Encoding\<close>

definition optMember :: "string \<Rightarrow> string \<Rightarrow> (string \<times> json) list" where
  "optMember k s = (if s = [] then [] else [(k, JStr (toValid s))])"

definition encodeAccount :: "(gotime \<Rightarrow> string option) \<Rightarrow> accountToken \<Rightarrow> json option" where
  "encodeAccount fmt a =
     (case (fmt (accExpiresAt a), fmt (accUpdatedAt a)) of
        (Some expires, Some updated) \<Rightarrow>
          Some (JObj ([(''id'', JStr (toValid (accID a))), (''email'', JStr (toValid (accEmail a)))]
            @ optMember ''displayName'' (accDisplayName a)
            @ [(''status'', JStr (toValid (accStatus a))), (''accessToken'', JStr (toValid (accAccessToken a)))]
            @ optMember ''refreshToken'' (accRefreshToken a)
            @ [(''expiresAt'', JStr expires), (''updatedAt'', JStr updated)]
            @ optMember ''oid'' (accOID a) @ optMember ''tid'' (accTID a)
            @ optMember ''clientId'' (accClientID a) @ optMember ''proxy'' (accProxy a)))
      | _ \<Rightarrow> None)"

text \<open>A nil slice is written as null.\<close>

definition encodeCache :: "(gotime \<Rightarrow> string option) \<Rightarrow> bool \<Rightarrow> accountToken list \<Rightarrow> json option" where
  "encodeCache fmt isNil accounts =
     (case those (map (encodeAccount fmt) accounts) of
        None \<Rightarrow> None
      | Some docs \<Rightarrow> Some (JObj [(''accounts'', if isNil then JNull else JArr docs)]))"

subsection \<open>Decoding\<close>

definition matchField :: "string list \<Rightarrow> string \<Rightarrow> string option" where
  "matchField names k = (if k \<in> set names then Some k else find (EqualFold k) names)"

definition accountFields :: "string list" where
  "accountFields = [''id'', ''email'', ''displayName'', ''status'', ''accessToken'', ''refreshToken'',
     ''expiresAt'', ''updatedAt'', ''oid'', ''tid'', ''clientId'', ''proxy'']"

definition assignString :: "(string \<Rightarrow> 'a \<Rightarrow> 'a) \<Rightarrow> json \<Rightarrow> 'a \<Rightarrow> 'a option" where
  "assignString put v a = (case v of JNull \<Rightarrow> Some a | JStr s \<Rightarrow> Some (put s a) | _ \<Rightarrow> None)"

definition assignTime ::
  "(string \<Rightarrow> gotime option) \<Rightarrow> (gotime \<Rightarrow> 'a \<Rightarrow> 'a) \<Rightarrow> json \<Rightarrow> 'a \<Rightarrow> 'a option" where
  "assignTime parse put v a =
     (case v of
        JNull \<Rightarrow> Some a
      | JStr s \<Rightarrow> map_option (\<lambda>t. put t a) (parse s)
      | _ \<Rightarrow> None)"

definition setAccountField ::
  "(string \<Rightarrow> gotime option) \<Rightarrow> string \<Rightarrow> json \<Rightarrow> accountToken \<Rightarrow> accountToken option" where
  "setAccountField parse f =
     (if f = ''id'' then assignString (\<lambda>s. accID_update (\<lambda>_. s))
      else if f = ''email'' then assignString (\<lambda>s. accEmail_update (\<lambda>_. s))
      else if f = ''displayName'' then assignString (\<lambda>s. accDisplayName_update (\<lambda>_. s))
      else if f = ''status'' then assignString (\<lambda>s. accStatus_update (\<lambda>_. s))
      else if f = ''accessToken'' then assignString (\<lambda>s. accAccessToken_update (\<lambda>_. s))
      else if f = ''refreshToken'' then assignString (\<lambda>s. accRefreshToken_update (\<lambda>_. s))
      else if f = ''expiresAt'' then assignTime parse (\<lambda>t. accExpiresAt_update (\<lambda>_. t))
      else if f = ''updatedAt'' then assignTime parse (\<lambda>t. accUpdatedAt_update (\<lambda>_. t))
      else if f = ''oid'' then assignString (\<lambda>s. accOID_update (\<lambda>_. s))
      else if f = ''tid'' then assignString (\<lambda>s. accTID_update (\<lambda>_. s))
      else if f = ''clientId'' then assignString (\<lambda>s. accClientID_update (\<lambda>_. s))
      else assignString (\<lambda>s. accProxy_update (\<lambda>_. s)))"

fun decodeMembers ::
  "(string \<Rightarrow> gotime option) \<Rightarrow> (string \<times> json) list \<Rightarrow> accountToken \<Rightarrow> accountToken option" where
  "decodeMembers parse [] a = Some a"
| "decodeMembers parse ((k, v) # ms) a =
     (case matchField accountFields k of
        None \<Rightarrow> decodeMembers parse ms a
      | Some f \<Rightarrow>
          (case setAccountField parse f v a of
             None \<Rightarrow> None
           | Some a' \<Rightarrow> decodeMembers parse ms a'))"

definition decodeAccount :: "(string \<Rightarrow> gotime option) \<Rightarrow> json \<Rightarrow> accountToken option" where
  "decodeAccount parse v =
     (case v of
        JNull \<Rightarrow> Some emptyAccount
      | JObj ms \<Rightarrow> decodeMembers parse ms emptyAccount
      | _ \<Rightarrow> None)"

fun decodeCacheMembers ::
  "(string \<Rightarrow> gotime option) \<Rightarrow> (string \<times> json) list \<Rightarrow> accountToken list \<Rightarrow> accountToken list option" where
  "decodeCacheMembers parse [] accounts = Some accounts"
| "decodeCacheMembers parse ((k, v) # ms) accounts =
     (if matchField [''accounts''] k = None then decodeCacheMembers parse ms accounts
      else case v of
        JNull \<Rightarrow> decodeCacheMembers parse ms []
      | JArr vs \<Rightarrow>
          (case those (map (decodeAccount parse) vs) of
             None \<Rightarrow> None
           | Some accounts' \<Rightarrow> decodeCacheMembers parse ms accounts')
      | _ \<Rightarrow> None)"

definition decodeCache :: "(string \<Rightarrow> gotime option) \<Rightarrow> json \<Rightarrow> accountToken list option" where
  "decodeCache parse v =
     (case v of
        JNull \<Rightarrow> Some []
      | JObj ms \<Rightarrow> decodeCacheMembers parse ms []
      | _ \<Rightarrow> None)"

subsection \<open>Round trip\<close>

definition validAccount :: "accountToken \<Rightarrow> bool" where
  "validAccount a \<longleftrightarrow>
     ValidString (accID a) \<and> ValidString (accEmail a) \<and> ValidString (accDisplayName a)
     \<and> ValidString (accStatus a) \<and> ValidString (accAccessToken a) \<and> ValidString (accRefreshToken a)
     \<and> ValidString (accOID a) \<and> ValidString (accTID a) \<and> ValidString (accClientID a)
     \<and> ValidString (accProxy a)"

lemma matchField_known: "k \<in> set names \<Longrightarrow> matchField names k = Some k"
  by (simp add: matchField_def)

lemma setAccountField_simps:
  "setAccountField parse ''id'' = assignString (\<lambda>s. accID_update (\<lambda>_. s))"
  "setAccountField parse ''email'' = assignString (\<lambda>s. accEmail_update (\<lambda>_. s))"
  "setAccountField parse ''displayName'' = assignString (\<lambda>s. accDisplayName_update (\<lambda>_. s))"
  "setAccountField parse ''status'' = assignString (\<lambda>s. accStatus_update (\<lambda>_. s))"
  "setAccountField parse ''accessToken'' = assignString (\<lambda>s. accAccessToken_update (\<lambda>_. s))"
  "setAccountField parse ''refreshToken'' = assignString (\<lambda>s. accRefreshToken_update (\<lambda>_. s))"
  "setAccountField parse ''expiresAt'' = assignTime parse (\<lambda>t. accExpiresAt_update (\<lambda>_. t))"
  "setAccountField parse ''updatedAt'' = assignTime parse (\<lambda>t. accUpdatedAt_update (\<lambda>_. t))"
  "setAccountField parse ''oid'' = assignString (\<lambda>s. accOID_update (\<lambda>_. s))"
  "setAccountField parse ''tid'' = assignString (\<lambda>s. accTID_update (\<lambda>_. s))"
  "setAccountField parse ''clientId'' = assignString (\<lambda>s. accClientID_update (\<lambda>_. s))"
  "setAccountField parse ''proxy'' = assignString (\<lambda>s. accProxy_update (\<lambda>_. s))"
  by (simp_all add: setAccountField_def)

lemma decodeMembers_known:
  "k \<in> set accountFields \<Longrightarrow> decodeMembers parse ((k, v) # ms) a =
     (case setAccountField parse k v a of None \<Rightarrow> None | Some a' \<Rightarrow> decodeMembers parse ms a')"
  by (simp add: matchField_known)

text \<open>An omitted member leaves the zero value that decoding starts from.\<close>

lemma decodeMembers_opt:
  assumes "k \<in> set accountFields" and "setAccountField parse k = assignString put"
    and "put [] a = a"
  shows "decodeMembers parse (optMember k s @ ms) a = decodeMembers parse ms (put (toValid s) a)"
  using assms by (simp add: optMember_def decodeMembers_known assignString_def del: decodeMembers.simps)

lemmas decodeMembers_opt_last = decodeMembers_opt [where ms = "[]", unfolded append_Nil2]

lemma decode_encode_account:
  assumes codec: "\<forall>t s. fmt t = Some s \<longrightarrow> parse s = Some t"
    and enc: "encodeAccount fmt a = Some d" and v: "validAccount a"
  shows "decodeAccount parse d = Some a"
proof -
  obtain e u where f: "fmt (accExpiresAt a) = Some e" "fmt (accUpdatedAt a) = Some u"
    using enc by (auto simp: encodeAccount_def split: option.splits)
  then have p: "parse e = Some (accExpiresAt a)" "parse u = Some (accUpdatedAt a)" using codec by blast+
  note fields = accountFields_def setAccountField_simps assignString_def assignTime_def p
  show ?thesis
    using enc v f
    by (auto simp: encodeAccount_def decodeAccount_def decodeMembers_opt decodeMembers_opt_last decodeMembers_known fields
        emptyAccount_def validAccount_def simp del: decodeMembers.simps(2))
qed

lemma decode_encode_accounts:
  assumes codec: "\<forall>t s. fmt t = Some s \<longrightarrow> parse s = Some t"
  shows "those (map (encodeAccount fmt) as) = Some ds \<Longrightarrow> \<forall>a \<in> set as. validAccount a \<Longrightarrow>
    those (map (decodeAccount parse) ds) = Some as"
proof (induction as arbitrary: ds)
  case (Cons a as)
  then show ?case by (auto split: option.splits simp: decode_encode_account [OF codec])
qed simp

text \<open>The document up to the two ways of writing no accounts, which are read alike.\<close>

definition normDoc :: "json \<Rightarrow> json" where
  "normDoc d = (if d = JObj [(''accounts'', JNull)] then JObj [(''accounts'', JArr [])] else d)"

lemma decodeCache_normDoc: "decodeCache parse (normDoc d) = decodeCache parse d"
  by (simp add: normDoc_def decodeCache_def matchField_def)

lemma normDoc_encodeCache:
  "isNil \<longrightarrow> accounts = [] \<Longrightarrow>
   map_option normDoc (encodeCache fmt isNil accounts) = encodeCache fmt False accounts"
  by (auto simp: encodeCache_def normDoc_def split: option.splits)

lemma encodeCache_empty: "encodeCache fmt False accounts = encodeCache fmt False [] \<Longrightarrow> accounts = []"
  by (cases accounts) (auto simp: encodeCache_def split: option.splits)

lemma decode_encode_cache:
  assumes codec: "\<forall>t s. fmt t = Some s \<longrightarrow> parse s = Some t"
    and "encodeCache fmt False accounts = Some d" and "\<forall>a \<in> set accounts. validAccount a"
  shows "decodeCache parse d = Some accounts"
  using assms(2,3) decode_encode_accounts [OF codec, of accounts]
  by (auto simp: encodeCache_def decodeCache_def matchField_def split: option.splits)

end
