(* ===== verification/TokenStore.thy ===== *)
theory TokenStore
  imports UpstreamErrors TokenFile
begin

text \<open>
  The account token cache of internal/auth/cache.go: the list of accounts with their OAuth tokens,
  its durable operations (Upsert, Delete, SetProxy), the lookup operations, and token validation
  with refresh (EnsureValid, refreshInflight, RefreshDue).

  The network is an argument: \<open>refresh\<close> stands for one round trip to the token endpoint
  (auth.Refresh through the account's proxy client) and returns an error or a token set. The lock
  of the store is released during that round trip and between the sections that follow it, so
  refreshInflight is given as its critical sections, with what other goroutines do in between as an
  argument; TokenFlight puts the sections into concurrent runs. The cache file holds the JSON
  document of TokenFile; \<open>fmt\<close> formats a time for it.
\<close>

subsection \<open>State\<close>

text \<open>
  The store: accounts in memory, the cache file, the accounts with a refresh in flight and the
  backoff deadlines after failed refreshes.
\<close>

record tokenStore =
  tokAccounts :: "accountToken list"
  tokFile :: "json diskfile"
  tokInflight :: "string list"
  tokBackoff :: "(string, gotime) gomap"

definition refreshFailureBackoff :: duration where
  "refreshFailureBackoff = minutes 5"

text \<open>
  \<open>saveDataLocked\<close> and the assignment that follows it: memory moves only when the accounts could be
  encoded and the write succeeded. The copy of an empty list is a nil slice.
\<close>

definition commitAccounts ::
  "(gotime \<Rightarrow> string option) \<Rightarrow> accountToken list \<Rightarrow> tokenStore \<Rightarrow> bool \<times> tokenStore" where
  "commitAccounts fmt next s =
     (case encodeCache fmt (next = [] \<and> tokAccounts s = []) next of
        None \<Rightarrow> (False, s)
      | Some doc \<Rightarrow>
          let (ok, f) = writeFile doc (tokFile s)
          in if ok then (True, s\<lparr>tokAccounts := next, tokFile := f\<rparr>)
             else (False, s\<lparr>tokFile := f\<rparr>))"

subsection \<open>Opening\<close>

definition normalizeAccount :: "accountToken \<Rightarrow> accountToken" where
  "normalizeAccount a =
     (let a = (if accOID a = [] then a\<lparr>accOID := accID a\<rparr> else a)
      in if accID a = [] then a\<lparr>accID := accOID a\<rparr> else a)"

text \<open>A missing file is an empty store; a document that cannot be decoded is an error.\<close>

definition OpenStore :: "(string \<Rightarrow> gotime option) \<Rightarrow> json diskfile \<Rightarrow> tokenStore option" where
  "OpenStore parse f =
     (case (case contents f of None \<Rightarrow> Some [] | Some doc \<Rightarrow> decodeCache parse doc) of
        None \<Rightarrow> None
      | Some accounts \<Rightarrow>
          Some \<lparr>tokAccounts = map normalizeAccount accounts, tokFile = f, tokInflight = [], tokBackoff = []\<rparr>)"

subsection \<open>Durable operations\<close>

text \<open>\<open>time.Now().Format("150405")\<close> and the configured client id are arguments.\<close>

definition upsertAccount :: "string \<Rightarrow> string \<Rightarrow> gotime \<Rightarrow> tokenSet \<Rightarrow> accountToken" where
  "upsertAccount clientID stamp now tok =
     (let aid = tsHomeOID tok;
          aid = (if aid = [] then tsEmail tok else aid);
          aid = (if aid = [] then ''account-'' @ stamp else aid)
      in \<lparr>accID = aid, accEmail = tsEmail tok, accDisplayName = tsDisplayName tok,
          accStatus = ''online'', accAccessToken = tsAccessToken tok,
          accRefreshToken = tsRefreshToken tok, accExpiresAt = tsExpiresAt tok,
          accUpdatedAt = now, accOID = firstNonEmpty [tsHomeOID tok, aid],
          accTID = tsTenantID tok, accClientID = clientID, accProxy = []\<rparr>)"

definition sameAccount :: "accountToken \<Rightarrow> accountToken \<Rightarrow> bool" where
  "sameAccount acc existing \<longleftrightarrow>
     accID existing = accID acc \<or> (accEmail acc \<noteq> [] \<and> accEmail existing = accEmail acc)"

definition inheritFields :: "accountToken \<Rightarrow> accountToken \<Rightarrow> accountToken" where
  "inheritFields acc existing =
     acc\<lparr>accRefreshToken := (if accRefreshToken acc = [] then accRefreshToken existing else accRefreshToken acc),
         accTID := (if accTID acc = [] then accTID existing else accTID acc),
         accOID := (if accOID acc = [] then accOID existing else accOID acc),
         accProxy := (if accProxy acc = [] then accProxy existing else accProxy acc)\<rparr>"

text \<open>The loop: the first matching entry is replaced, otherwise the account is appended.\<close>

fun replaceOrAppend :: "accountToken \<Rightarrow> accountToken list \<Rightarrow> accountToken list \<times> accountToken" where
  "replaceOrAppend acc [] = ([acc], acc)"
| "replaceOrAppend acc (existing # rest) =
     (if sameAccount acc existing
      then (let acc' = inheritFields acc existing in (acc' # rest, acc'))
      else (let (rest', acc') = replaceOrAppend acc rest in (existing # rest', acc')))"

definition Upsert ::
  "(gotime \<Rightarrow> string option) \<Rightarrow> string \<Rightarrow> string \<Rightarrow> gotime \<Rightarrow> tokenSet \<Rightarrow> tokenStore \<Rightarrow> accountToken option \<times> tokenStore" where
  "Upsert fmt clientID stamp now tok s =
     (let (next, acc) = replaceOrAppend (upsertAccount clientID stamp now tok) (tokAccounts s);
          (ok, s') = commitAccounts fmt next s
      in if ok then (Some acc, s') else (None, s'))"

definition Delete :: "(gotime \<Rightarrow> string option) \<Rightarrow> string \<Rightarrow> tokenStore \<Rightarrow> bool \<times> tokenStore" where
  "Delete fmt aid s = commitAccounts fmt (filter (\<lambda>a. accID a \<noteq> aid) (tokAccounts s)) s"

datatype storeError = StoreNotExist | StoreWriteFailed

fun setFirst :: "('a \<Rightarrow> bool) \<Rightarrow> ('a \<Rightarrow> 'a) \<Rightarrow> 'a list \<Rightarrow> 'a list" where
  "setFirst P f [] = []"
| "setFirst P f (x # xs) = (if P x then f x # xs else x # setFirst P f xs)"

definition SetProxy ::
  "(gotime \<Rightarrow> string option) \<Rightarrow> string \<Rightarrow> string \<Rightarrow> tokenStore \<Rightarrow> storeError option \<times> tokenStore" where
  "SetProxy fmt aid prox s =
     (if \<not> list_ex (\<lambda>a. accID a = aid) (tokAccounts s) then (Some StoreNotExist, s)
      else
        let (ok, s') =
          commitAccounts fmt (setFirst (\<lambda>a. accID a = aid) (\<lambda>a. a\<lparr>accProxy := prox\<rparr>) (tokAccounts s)) s
        in (if ok then None else Some StoreWriteFailed, s'))"

subsection \<open>Lookup\<close>

abbreviation List :: "tokenStore \<Rightarrow> accountToken list" where
  "List s \<equiv> tokAccounts s"

definition Get :: "string \<Rightarrow> tokenStore \<Rightarrow> accountToken option" where
  "Get aid s = find (\<lambda>a. accID a = aid \<or> accOID a = aid \<or> accEmail a = aid) (tokAccounts s)"

definition First :: "tokenStore \<Rightarrow> accountToken option" where
  "First s = (case tokAccounts s of [] \<Rightarrow> None | a # _ \<Rightarrow> Some a)"

subsection \<open>Validation and refresh\<close>

definition expirySlack :: duration where
  "expirySlack = seconds 30"

definition usableAt :: "gotime \<Rightarrow> accountToken \<Rightarrow> bool" where
  "usableAt now a \<longleftrightarrow> now < accExpiresAt a - expirySlack"

definition expiredError :: goerror where
  "expiredError = plainError ''token_expired: refresh token missing or expired''"

definition storeNotExistError :: goerror where
  "storeNotExistError = GoError ''file does not exist'' [OsErrNotExist]"

text \<open>
  The first critical section of refreshInflight. It fails while a backoff window is open, returns
  a token another flight has refreshed meanwhile, joins the flight of this account, or starts one.
  The error text names the deadline; its rendering is an argument.
\<close>

datatype flightStart =
    FlightBackoff accountToken goerror
  | FlightFresh accountToken
  | FlightJoin accountToken
  | FlightLead accountToken

definition backoffError :: "(gotime \<Rightarrow> string) \<Rightarrow> string \<Rightarrow> gotime \<Rightarrow> goerror" where
  "backoffError rfc3339 aid until =
     plainError (''token refresh backing off for account '' @ aid @ '' until '' @ rfc3339 until)"

definition beginFlight :: "gotime \<Rightarrow> accountToken \<Rightarrow> tokenStore \<Rightarrow> flightStart \<times> tokenStore" where
  "beginFlight now acc s =
     (let current = find (\<lambda>c. accID c = accID acc) (tokAccounts s)
      in case current of
           Some c \<Rightarrow>
             if usableAt now c then (FlightFresh c, s)
             else if accID c \<in> set (tokInflight s) then (FlightJoin c, s)
             else (FlightLead c, s\<lparr>tokInflight := accID c # tokInflight s\<rparr>)
         | None \<Rightarrow>
             if accID acc \<in> set (tokInflight s) then (FlightJoin acc, s)
             else (FlightLead acc, s\<lparr>tokInflight := accID acc # tokInflight s\<rparr>))"

definition beginRefresh ::
  "(gotime \<Rightarrow> string) \<Rightarrow> gotime \<Rightarrow> accountToken \<Rightarrow> tokenStore \<Rightarrow> flightStart \<times> tokenStore" where
  "beginRefresh rfc3339 now acc s =
     (case map_of (tokBackoff s) (accID acc) of
        Some until \<Rightarrow>
          if now < until then (FlightBackoff acc (backoffError rfc3339 (accID acc) until), s)
          else beginFlight now acc (s\<lparr>tokBackoff := AList.delete (accID acc) (tokBackoff s)\<rparr>)
      | None \<Rightarrow> beginFlight now acc s)"

text \<open>
  The network part ends in one of three ways: no proxy client can be built, the token endpoint
  refuses, or it returns a token set.
\<close>

datatype netResult = ClientError goerror | RefreshError goerror | Refreshed tokenSet

definition endFlight :: "string \<Rightarrow> tokenStore \<Rightarrow> tokenStore" where
  "endFlight aid s = s\<lparr>tokInflight := removeAll aid (tokInflight s)\<rparr>"

definition persistFailedError :: "goerror \<Rightarrow> goerror" where
  "persistFailedError err =
     GoError (errText err @ '' (also failed to persist expired status: write failed)'')
       (PlainError # errChain err)"

definition writeFailedError :: goerror where
  "writeFailedError = plainError ''write failed''"

definition recordRefreshFailure ::
  "(gotime \<Rightarrow> string option) \<Rightarrow> gotime \<Rightarrow> accountToken \<Rightarrow> goerror \<Rightarrow> tokenStore \<Rightarrow> (accountToken \<times> goerror option) \<times> tokenStore" where
  "recordRefreshFailure fmt now acc err s =
     (let acc = acc\<lparr>accStatus := ''expired''\<rparr>;
          s = s\<lparr>tokBackoff := AList.update (accID acc) (now + refreshFailureBackoff) (tokBackoff s)\<rparr>
      in if list_ex (\<lambda>a. accID a = accID acc) (tokAccounts s)
         then (let (ok, s') = commitAccounts fmt
                     (setFirst (\<lambda>a. accID a = accID acc) (\<lambda>_. acc) (tokAccounts s)) s
               in ((acc, Some (if ok then err else persistFailedError err)), s'))
         else ((acc, Some err), s))"

definition completeTokenSet :: "accountToken \<Rightarrow> tokenSet \<Rightarrow> tokenSet" where
  "completeTokenSet acc tok =
     tok\<lparr>tsEmail := (if tsEmail tok = [] then accEmail acc else tsEmail tok),
         tsDisplayName := (if tsDisplayName tok = [] then accDisplayName acc else tsDisplayName tok),
         tsHomeOID := (if tsHomeOID tok = [] then firstNonEmpty [accOID acc, accID acc] else tsHomeOID tok),
         tsTenantID := (if tsTenantID tok = [] then accTID acc else tsTenantID tok)\<rparr>"

definition clearBackoff :: "string \<Rightarrow> tokenStore \<Rightarrow> tokenStore" where
  "clearBackoff aid s = s\<lparr>tokBackoff := AList.delete aid (tokBackoff s)\<rparr>"

text \<open>
  The critical sections after the round trip, in the order a flight runs them; \<open>between\<close> is what
  other goroutines do while the lock is free between them.
\<close>

definition finishRefresh ::
  "(gotime \<Rightarrow> string option) \<Rightarrow> (nat \<Rightarrow> tokenStore \<Rightarrow> tokenStore) \<Rightarrow> string \<Rightarrow> string \<Rightarrow> gotime \<Rightarrow>
   accountToken \<Rightarrow> netResult \<Rightarrow> tokenStore \<Rightarrow> (accountToken \<times> goerror option) \<times> tokenStore" where
  "finishRefresh fmt between clientID stamp now acc net s =
     (case net of
        ClientError err \<Rightarrow> ((acc, Some err), endFlight (accID acc) s)
      | RefreshError err \<Rightarrow>
          (let (res, s') = recordRefreshFailure fmt now acc err s
           in (res, endFlight (accID acc) (between 0 s')))
      | Refreshed tok \<Rightarrow>
          (let (stored, s') = Upsert fmt clientID stamp now (completeTokenSet acc tok) s;
               s' = clearBackoff (accID acc) (between 0 s');
               s' = endFlight (accID acc) (between 1 s')
           in case stored of
                Some a \<Rightarrow> ((a, None), s')
              | None \<Rightarrow> ((emptyAccount, Some writeFailedError), s')))"

text \<open>
  The surroundings of one call: the two clock readings, the network, the outcome broadcast by
  another flight, what other goroutines do while the lock is released, and the constants.
\<close>

record refreshEnv =
  envStart :: gotime
  envEnd :: gotime
  envNet :: "accountToken \<Rightarrow> netResult"
  envJoined :: "accountToken \<times> goerror option"
  envOthers :: "tokenStore \<Rightarrow> tokenStore"
  envBetween :: "nat \<Rightarrow> tokenStore \<Rightarrow> tokenStore"
  envFormat :: "gotime \<Rightarrow> string option"
  envClientID :: string
  envStamp :: string
  envRFC3339 :: "gotime \<Rightarrow> string"

definition refreshInflight ::
  "refreshEnv \<Rightarrow> accountToken \<Rightarrow> tokenStore \<Rightarrow> (accountToken \<times> goerror option) \<times> tokenStore" where
  "refreshInflight env acc s =
     (case beginRefresh (envRFC3339 env) (envStart env) acc s of
        (FlightBackoff a err, s') \<Rightarrow> ((a, Some err), s')
      | (FlightFresh a, s') \<Rightarrow> ((a, None), s')
      | (FlightJoin a, s') \<Rightarrow> (envJoined env, envOthers env s')
      | (FlightLead a, s') \<Rightarrow>
          finishRefresh (envFormat env) (envBetween env) (envClientID env) (envStamp env) (envEnd env) a (envNet env a)
            (envOthers env s'))"

definition markExpired :: "(gotime \<Rightarrow> string option) \<Rightarrow> accountToken \<Rightarrow> tokenStore \<Rightarrow> accountToken \<times> tokenStore" where
  "markExpired fmt acc s =
     (if list_ex (\<lambda>a. accID a = accID acc) (tokAccounts s)
      then (let acc = acc\<lparr>accStatus := ''expired''\<rparr>
            in (acc, snd (commitAccounts fmt
                  (setFirst (\<lambda>a. accID a = accID acc) (\<lambda>_. acc) (tokAccounts s)) s)))
      else (acc, s))"

definition EnsureValid ::
  "refreshEnv \<Rightarrow> string \<Rightarrow> tokenStore \<Rightarrow> (accountToken \<times> goerror option) \<times> tokenStore" where
  "EnsureValid env aid s =
     (case Get aid s of
        None \<Rightarrow> ((emptyAccount, Some storeNotExistError), s)
      | Some acc \<Rightarrow>
          if usableAt (envStart env) acc then ((acc, None), s)
          else if accRefreshToken acc = [] then
            (let (acc', s') = markExpired (envFormat env) acc s in ((acc', Some expiredError), s'))
          else refreshInflight env acc s)"

text \<open>The proactive sweep: the outcome per account id, for every account that is due.\<close>

definition RefreshDue ::
  "refreshEnv \<Rightarrow> duration \<Rightarrow> tokenStore \<Rightarrow> (string, goerror option) gomap \<times> tokenStore" where
  "RefreshDue env window s =
     fold (\<lambda>acc (out, s).
             if accRefreshToken acc = [] then (out, s)
             else if envStart env < accExpiresAt acc - window then (out, s)
             else (let ((_, err), s') = refreshInflight env acc s
                   in (AList.update (accID acc) err out, s')))
       (List s) ([], s)"

subsection \<open>Laws of the durable operations\<close>

lemma commitAccounts_ok:
  "commitAccounts fmt next s = (True, s') \<Longrightarrow>
   tokAccounts s' = next \<and> contents (tokFile s') = encodeCache fmt (next = [] \<and> tokAccounts s = []) next
   \<and> contents (tokFile s') \<noteq> None
   \<and> tokInflight s' = tokInflight s \<and> tokBackoff s' = tokBackoff s"
  by (auto simp: commitAccounts_def split: option.splits prod.splits if_splits dest: writeFile_ok)

lemma commitAccounts_fail:
  "commitAccounts fmt next s = (False, s') \<Longrightarrow>
   tokAccounts s' = tokAccounts s \<and> contents (tokFile s') = contents (tokFile s)
   \<and> tokInflight s' = tokInflight s \<and> tokBackoff s' = tokBackoff s"
  by (auto simp: commitAccounts_def split: option.splits prod.splits if_splits dest: writeFile_fail)

lemma commitAccounts_frame [simp]:
  "tokInflight (snd (commitAccounts fmt next s)) = tokInflight s"
  "tokBackoff (snd (commitAccounts fmt next s)) = tokBackoff s"
  by (cases "commitAccounts fmt next s"; cases "fst (commitAccounts fmt next s)";
      auto dest: commitAccounts_ok commitAccounts_fail)+

lemma commitAccounts_frameD:
  "commitAccounts fmt next s = (ok, s') \<Longrightarrow> tokInflight s' = tokInflight s \<and> tokBackoff s' = tokBackoff s"
  using commitAccounts_frame [of fmt "next" s] by simp

text \<open>The document the accounts in memory stand for, and the one on disk.\<close>

definition memoryDoc :: "(gotime \<Rightarrow> string option) \<Rightarrow> tokenStore \<Rightarrow> json option" where
  "memoryDoc fmt s = encodeCache fmt False (tokAccounts s)"

definition diskDoc :: "tokenStore \<Rightarrow> json option option" where
  "diskDoc s = map_option (\<lambda>d. Some (normDoc d)) (contents (tokFile s))"

lemma commit_either:
  "(\<not> fst (commitAccounts fmt next s) \<and> tokAccounts (snd (commitAccounts fmt next s)) = tokAccounts s
      \<and> contents (tokFile (snd (commitAccounts fmt next s))) = contents (tokFile s))
   \<or> (fst (commitAccounts fmt next s)
      \<and> diskDoc (snd (commitAccounts fmt next s)) = Some (memoryDoc fmt (snd (commitAccounts fmt next s)))
      \<and> tokAccounts (snd (commitAccounts fmt next s)) = next)"
proof (cases "commitAccounts fmt next s")
  case (Pair ok s')
  show ?thesis
  proof (cases ok)
    case True
    let ?nil = "next = [] \<and> tokAccounts s = []"
    from Pair True commitAccounts_ok [of fmt "next" s s'] obtain d where
      d: "encodeCache fmt ?nil next = Some d" "contents (tokFile s') = Some d" and a: "tokAccounts s' = next"
      by (metis option.exhaust)
    have "map_option normDoc (encodeCache fmt ?nil next) = encodeCache fmt False next"
      by (rule normDoc_encodeCache) simp
    with d a Pair True show ?thesis by (simp add: diskDoc_def memoryDoc_def)
  next
    case False
    with Pair commitAccounts_fail [of fmt "next" s s'] show ?thesis by simp
  qed
qed

text \<open>
  The requests other goroutines make of the store: logins, deletions and proxy settings, and the
  account EnsureValid marks as expired (a copy it read earlier).
\<close>

datatype tokenOp =
    TokUpsert string string gotime tokenSet
  | TokDelete string
  | TokSetProxy string string
  | TokExpire accountToken

fun tokExec :: "(gotime \<Rightarrow> string option) \<Rightarrow> tokenOp \<Rightarrow> tokenStore \<Rightarrow> tokenStore" where
  "tokExec fmt (TokUpsert cid stamp now tok) s = snd (Upsert fmt cid stamp now tok s)"
| "tokExec fmt (TokDelete aid) s = snd (Delete fmt aid s)"
| "tokExec fmt (TokSetProxy aid prox) s = snd (SetProxy fmt aid prox s)"
| "tokExec fmt (TokExpire acc) s = snd (markExpired fmt acc s)"

end
