(* ===== verification/AccountRouter.thy ===== *)
theory AccountRouter
  imports PolicyRefusal TokenStore "HOL-Library.Word"
begin

text \<open>
  The single-active-account router of internal/web/account_router.go, with markAccountResult,
  resolveRequestAccount and shouldFailoverAccount of internal/web/server.go: one global active
  identity with a generation counter, advanced in the fixed order of the account list when the
  active account fails, persisted with the health and refusal state, and guarded by a process-local
  circuit breaker against shared upstream failures.

  Every critical section under accountRouteMu is one function from state to state; it reads the
  clock once (now). Operations that release the lock around a token refresh are two sections, and
  what other requests do in between is a function of their environment. Log lines are not modelled.
\<close>

subsection \<open>State\<close>

record accountRouteState =
  rsActiveAccountID :: string
  rsRouteGeneration :: "64 word"
  rsUpdatedAt :: gotime
  rsHealth :: accountHealth
  rsPolicyRefusals :: "(string, gotime) gomap"

record server =
  activeAccountID :: string
  activeAccountGeneration :: "64 word"
  nextAccountLeaseID :: "64 word"
  activeAccountLeases :: "64 word list"
  cancelledLeases :: "64 word list"
  sharedFailureAccounts :: "(string, gotime) gomap"
  upstreamCircuitUntil :: gotime
  accountRoutePath :: string
  routeFile :: "accountRouteState diskfile"
  tokens :: tokenStore
  accountPool :: accountHealth
  policyRefusals :: refusals
  accountStats :: "(string, int) gomap"
  statsDirty :: bool

definition sharedFailureWindow :: duration where
  "sharedFailureWindow = seconds 12"

definition upstreamCircuitRest :: duration where
  "upstreamCircuitRest = seconds 20"

definition errInactiveAccount :: goerror where
  "errInactiveAccount =
     GoError ''requested account is isolated; only the active account may contact upstream''
       [ErrInactiveAccount]"

definition errUpstreamCircuitOpen :: goerror where
  "errUpstreamCircuitOpen =
     GoError ''shared upstream circuit is temporarily open'' [ErrUpstreamCircuitOpen]"

definition errPinnedAccountUnavailable :: goerror where
  "errPinnedAccountUnavailable =
     GoError ''pinned account temporarily unavailable'' [ErrPinnedAccountUnavailable]"

subsection \<open>Positions\<close>

fun accountIndexByID :: "accountToken list \<Rightarrow> string \<Rightarrow> nat option" where
  "accountIndexByID [] aid = None"
| "accountIndexByID (a # as) aid =
     (if accID a = aid then Some 0 else map_option Suc (accountIndexByID as aid))"

definition accountPositionByID :: "accountToken list \<Rightarrow> string \<Rightarrow> nat" where
  "accountPositionByID accounts aid =
     (case accountIndexByID accounts aid of None \<Rightarrow> 0 | Some i \<Rightarrow> i + 1)"

subsection \<open>The shared-failure breaker\<close>

definition observeSharedFailureLocked :: "string \<Rightarrow> goerror \<Rightarrow> gotime \<Rightarrow> server \<Rightarrow> bool \<times> server" where
  "observeSharedFailureLocked aid err now s =
     (if \<not> isSharedUpstreamFailure (Some err) then (False, s)
      else
        let fresh = filter (\<lambda>(_, observedAt). \<not> now - observedAt > sharedFailureWindow)
                      (sharedFailureAccounts s);
            seen = AList.update aid now fresh;
            s = s\<lparr>sharedFailureAccounts := seen\<rparr>
        in if length seen < 2 then (False, s)
           else
             let until = now + upstreamCircuitRest
             in (True, if until > upstreamCircuitUntil s then s\<lparr>upstreamCircuitUntil := until\<rparr> else s))"

definition upstreamCircuitOpenLocked :: "gotime \<Rightarrow> server \<Rightarrow> bool" where
  "upstreamCircuitOpenLocked now s \<longleftrightarrow>
     upstreamCircuitUntil s \<noteq> zeroTime \<and> now < upstreamCircuitUntil s"

subsection \<open>Persistence and activation\<close>

definition persistActiveAccountLocked :: "gotime \<Rightarrow> string \<Rightarrow> server \<Rightarrow> goerror option \<times> server" where
  "persistActiveAccountLocked now aid s =
     (if blank (accountRoutePath s) then (None, s)
      else
        let (refused, live) = persistedPolicyRefusals now (policyRefusals s);
            state = \<lparr>rsActiveAccountID = aid, rsRouteGeneration = activeAccountGeneration s,
                     rsUpdatedAt = now, rsHealth = persistedState now (accountPool s),
                     rsPolicyRefusals = refused\<rparr>;
            (ok, f) = writeFile state (routeFile s)
        in (if ok then None else Some writeFailedError,
            s\<lparr>policyRefusals := live, routeFile := f\<rparr>))"

definition activateAccountLocked :: "gotime \<Rightarrow> string \<Rightarrow> server \<Rightarrow> goerror option \<times> server" where
  "activateAccountLocked now aid s =
     (let aid = TrimSpace aid
      in if aid = activeAccountID s then (None, s)
         else
           let previousID = activeAccountID s;
               previousGeneration = activeAccountGeneration s;
               s1 = s\<lparr>activeAccountID := aid, activeAccountGeneration := previousGeneration + 1\<rparr>;
               (err, s2) = persistActiveAccountLocked now aid s1
           in case err of
                Some e \<Rightarrow> (Some e, s2\<lparr>activeAccountID := previousID,
                                      activeAccountGeneration := previousGeneration\<rparr>)
              | None \<Rightarrow> (None, s2))"

definition ensureActiveAccountLocked ::
  "gotime \<Rightarrow> accountToken list \<Rightarrow> server \<Rightarrow> (goerror + string) \<times> server" where
  "ensureActiveAccountLocked now accounts s =
     (case accounts of
        [] \<Rightarrow> (Inr [], s\<lparr>activeAccountID := []\<rparr>)
      | a # _ \<Rightarrow>
          if accountIndexByID accounts (activeAccountID s) \<noteq> None then (Inr (activeAccountID s), s)
          else (case activateAccountLocked now (accID a) s of
                  (Some e, s') \<Rightarrow> (Inl e, s')
                | (None, s') \<Rightarrow> (Inr (activeAccountID s'), s')))"

definition cancelActiveLeasesLocked :: "server \<Rightarrow> server" where
  "cancelActiveLeasesLocked s =
     s\<lparr>cancelledLeases := activeAccountLeases s @ cancelledLeases s, activeAccountLeases := []\<rparr>"

text \<open>The other accounts in cyclic order, starting behind the given index.\<close>

definition successors :: "accountToken list \<Rightarrow> nat \<Rightarrow> accountToken list" where
  "successors accounts start =
     map (\<lambda>offset. accounts ! ((start + offset) mod length accounts)) [1..<length accounts]"

text \<open>Result: whether the route has advanced, and the error.\<close>

definition advanceActiveAccountLocked ::
  "gotime \<Rightarrow> string \<Rightarrow> accountToken list \<Rightarrow> server \<Rightarrow> (bool \<times> goerror option) \<times> server" where
  "advanceActiveAccountLocked now failedID accounts s =
     (case ensureActiveAccountLocked now accounts s of
        (Inl e, s1) \<Rightarrow> ((False, Some e), s1)
      | (Inr activeID, s1) \<Rightarrow>
          if activeID = [] \<or> activeID \<noteq> failedID then ((False, None), s1)
          else (case accountIndexByID accounts activeID of
                  None \<Rightarrow> ((False, None), s1)
                | Some start \<Rightarrow>
                    (case find (\<lambda>c. Available now (accountPool s1) (accID c)) (successors accounts start) of
                       None \<Rightarrow> ((False, None), s1)
                     | Some candidate \<Rightarrow>
                         (case activateAccountLocked now (accID candidate) s1 of
                            (Some e, s2) \<Rightarrow> ((False, Some e), s2)
                          | (None, s2) \<Rightarrow> ((True, None), s2)))))"

subsection \<open>Queries\<close>

definition currentActiveAccountID :: "gotime \<Rightarrow> server \<Rightarrow> string \<times> server" where
  "currentActiveAccountID now s =
     (case ensureActiveAccountLocked now (List (tokens s)) s of
        (Inl e, s') \<Rightarrow> ([], s')
      | (Inr aid, s') \<Rightarrow> (aid, s'))"

definition isActiveAccount :: "gotime \<Rightarrow> string \<Rightarrow> server \<Rightarrow> bool \<times> server" where
  "isActiveAccount now aid s =
     (if blank aid then (False, s)
      else (let (active, s') = currentActiveAccountID now s in (active = TrimSpace aid, s')))"

definition accountRouteVersion :: "gotime \<Rightarrow> string \<Rightarrow> server \<Rightarrow> (64 word \<times> bool) \<times> server" where
  "accountRouteVersion now aid s =
     (case ensureActiveAccountLocked now (List (tokens s)) s of
        (Inl e, s') \<Rightarrow> ((activeAccountGeneration s', False), s')
      | (Inr activeID, s') \<Rightarrow>
          if blank aid \<or> activeID \<noteq> TrimSpace aid then ((activeAccountGeneration s', False), s')
          else ((activeAccountGeneration s', True), s'))"

definition syncActiveAccount :: "gotime \<Rightarrow> server \<Rightarrow> goerror option \<times> server" where
  "syncActiveAccount now s =
     (case ensureActiveAccountLocked now (List (tokens s)) s of
        (Inl e, s') \<Rightarrow> (Some e, s')
      | (Inr _, s') \<Rightarrow> (None, s'))"

definition clearAuthFailureAfterCredentialUpdate ::
  "gotime \<Rightarrow> string \<Rightarrow> server \<Rightarrow> goerror option \<times> server" where
  "clearAuthFailureAfterCredentialUpdate now aid s =
     (let s = s\<lparr>accountPool := ClearAuthFailure (TrimSpace aid) (accountPool s)\<rparr>
      in persistActiveAccountLocked now (activeAccountID s) s)"

subsection \<open>Operations around a token refresh\<close>

text \<open>
  The environment of an operation that leaves the lock: the clock at its two critical sections,
  the surroundings of the token store call, and the effect of all other requests in between.
\<close>

record routeEnv =
  reNow1 :: gotime
  reNow2 :: gotime
  reToken :: refreshEnv
  reOthers :: "server \<Rightarrow> server"

definition ensureValidUnlocked ::
  "routeEnv \<Rightarrow> string \<Rightarrow> server \<Rightarrow> (accountToken \<times> goerror option) \<times> server" where
  "ensureValidUnlocked env aid s =
     (let (res, ts) = EnsureValid (reToken env) aid (tokens s)
      in (res, reOthers env (s\<lparr>tokens := ts\<rparr>)))"

definition poolFailure :: "gotime \<Rightarrow> string \<Rightarrow> goerror \<Rightarrow> server \<Rightarrow> server" where
  "poolFailure now aid err s =
     s\<lparr>accountPool := recordAccountFailureHealth now aid err (accountPool s)\<rparr>"

definition refreshActiveAccount :: "routeEnv \<Rightarrow> string \<Rightarrow> server \<Rightarrow> (goerror + accountToken) \<times> server" where
  "refreshActiveAccount env aid s =
     (let aid = TrimSpace aid
      in case ensureActiveAccountLocked (reNow1 env) (List (tokens s)) s of
        (Inl e, s1) \<Rightarrow> (Inl e, s1)
      | (Inr activeID, s1) \<Rightarrow>
          if aid = [] \<or> aid \<noteq> activeID then (Inl errInactiveAccount, s1)
          else
            let generation = activeAccountGeneration s1;
                ((tok, err), s2) = ensureValidUnlocked env activeID s1;
                currentList = List (tokens s2)
            in case ensureActiveAccountLocked (reNow2 env) currentList s2 of
                 (Inl e, s3) \<Rightarrow> (Inl e, s3)
               | (Inr currentID, s3) \<Rightarrow>
                   if currentID \<noteq> activeID \<or> activeAccountGeneration s3 \<noteq> generation
                   then (Inl errInactiveAccount, s3)
                   else (case err of
                     Some e \<Rightarrow>
                       let s4 = poolFailure (reNow2 env) activeID e s3;
                           ((advanced, routeErr), s5) =
                             advanceActiveAccountLocked (reNow2 env) activeID currentList s4;
                           s6 = (if \<not> advanced
                                 then snd (persistActiveAccountLocked (reNow2 env) (activeAccountID s5) s5)
                                 else s5)
                       in (Inl e, s6)
                   | None \<Rightarrow>
                       let s4 = s3\<lparr>accountPool := ClearAuthFailure activeID (accountPool s3)\<rparr>
                       in case persistActiveAccountLocked (reNow2 env) (activeAccountID s4) s4 of
                            (Some e, s5) \<Rightarrow> (Inl e, s5)
                          | (None, s5) \<Rightarrow> (Inr tok, s5)))"

definition bumpAccountStats :: "string \<Rightarrow> server \<Rightarrow> server" where
  "bumpAccountStats aid s =
     s\<lparr>accountStats := AList.update aid (getOr 0 (accountStats s) aid + 1) (accountStats s),
       statsDirty := True\<rparr>"

definition noAccountsError :: goerror where
  "noAccountsError = plainError ''no accounts; login first''"

definition resolveActiveAccount :: "routeEnv \<Rightarrow> server \<Rightarrow> (goerror + accountToken) \<times> server" where
  "resolveActiveAccount env s =
     (let accounts = List (tokens s)
      in case ensureActiveAccountLocked (reNow1 env) accounts s of
        (Inl e, s1) \<Rightarrow> (Inl e, s1)
      | (Inr activeID, s1) \<Rightarrow>
          if activeID = [] then (Inl noAccountsError, s1)
          else if upstreamCircuitOpenLocked (reNow1 env) s1 then (Inl errUpstreamCircuitOpen, s1)
          else if \<not> Available (reNow1 env) (accountPool s1) activeID then
            (case advanceActiveAccountLocked (reNow1 env) activeID accounts s1 of
               ((_, Some e), s2) \<Rightarrow> (Inl e, s2)
             | ((_, None), s2) \<Rightarrow> (Inl errPinnedAccountUnavailable, s2))
          else
            let generation = activeAccountGeneration s1;
                ((tok, err), s2) = ensureValidUnlocked env activeID s1;
                currentList = List (tokens s2)
            in case ensureActiveAccountLocked (reNow2 env) currentList s2 of
                 (Inl e, s3) \<Rightarrow> (Inl e, s3)
               | (Inr currentID, s3) \<Rightarrow>
                   if currentID \<noteq> activeID \<or> activeAccountGeneration s3 \<noteq> generation
                   then (Inl errInactiveAccount, s3)
                   else (case err of
                     Some e \<Rightarrow>
                       let s4 = poolFailure (reNow2 env) activeID e s3;
                           ((advanced, advanceErr), s5) =
                             advanceActiveAccountLocked (reNow2 env) activeID currentList s4;
                           (advanceErr, s6) =
                             (if advanceErr = None \<and> \<not> advanced
                              then persistActiveAccountLocked (reNow2 env) (activeAccountID s5) s5
                              else (advanceErr, s5))
                       in (Inl (case advanceErr of Some e' \<Rightarrow> e' | None \<Rightarrow> e), s6)
                   | None \<Rightarrow> (Inr tok, bumpAccountStats activeID s3)))"

definition resolveActiveAccountWithoutAdvance ::
  "routeEnv \<Rightarrow> server \<Rightarrow> (goerror + accountToken) \<times> server" where
  "resolveActiveAccountWithoutAdvance env s =
     (case ensureActiveAccountLocked (reNow1 env) (List (tokens s)) s of
        (Inl e, s1) \<Rightarrow> (Inl e, s1)
      | (Inr activeID, s1) \<Rightarrow>
          if activeID = [] then (Inl noAccountsError, s1)
          else if upstreamCircuitOpenLocked (reNow1 env) s1 then (Inl errUpstreamCircuitOpen, s1)
          else if \<not> Available (reNow1 env) (accountPool s1) activeID then
            (Inl errPinnedAccountUnavailable, snd (persistActiveAccountLocked (reNow1 env) activeID s1))
          else
            let generation = activeAccountGeneration s1;
                ((tok, err), s2) = ensureValidUnlocked env activeID s1;
                currentList = List (tokens s2)
            in case ensureActiveAccountLocked (reNow2 env) currentList s2 of
                 (Inl e, s3) \<Rightarrow> (Inl e, s3)
               | (Inr currentID, s3) \<Rightarrow>
                   if currentID \<noteq> activeID \<or> activeAccountGeneration s3 \<noteq> generation
                   then (Inl errInactiveAccount, s3)
                   else (case err of
                     Some e \<Rightarrow>
                       let s4 = poolFailure (reNow2 env) activeID e s3;
                           (persistErr, s5) = persistActiveAccountLocked (reNow2 env) activeID s4
                       in (Inl (case persistErr of Some e' \<Rightarrow> e' | None \<Rightarrow> e), s5)
                   | None \<Rightarrow> (Inr tok, bumpAccountStats activeID s3)))"

text \<open>
  A request starts on the active account; when that fails it may try the account the failure has
  activated, once. The second component of a success says that the request has left the account
  it was bound to.
\<close>

definition resolveRequestAccount ::
  "routeEnv \<Rightarrow> routeEnv \<Rightarrow> string \<Rightarrow> bool \<Rightarrow> server \<Rightarrow> (goerror + accountToken \<times> bool) \<times> server" where
  "resolveRequestAccount env1 env2 accountID explicit s =
     (let requestedID = TrimSpace accountID;
          (first, s1) = resolveActiveAccount env1 s;
          (acc, switched, s2) =
            (case first of
               Inr a \<Rightarrow> (Inr a, False, s1)
             | Inl _ \<Rightarrow> (let (second, s2) = resolveActiveAccountWithoutAdvance env2 s1
                          in (second, True, s2)))
      in case acc of
           Inl e \<Rightarrow> (Inl e, s2)
         | Inr a \<Rightarrow>
             if requestedID \<noteq> [] \<and> requestedID \<noteq> accID a then
               (if explicit then (Inl errInactiveAccount, s2) else (Inr (a, True), s2))
             else (Inr (a, switched), s2))"

subsection \<open>Deleting an account\<close>

definition deleteAccountToken ::
  "(gotime \<Rightarrow> string option) \<Rightarrow> gotime \<Rightarrow> string \<Rightarrow> server \<Rightarrow> goerror option \<times> server" where
  "deleteAccountToken fmt now aid s =
     (let before = List (tokens s)
      in case ensureActiveAccountLocked now before s of
        (Inl e, s1) \<Rightarrow> (Some e, s1)
      | (Inr activeID, s1) \<Rightarrow>
          let activeIndex = accountIndexByID before activeID;
              (ok, ts) = Delete fmt aid (tokens s1);
              s2 = s1\<lparr>tokens := ts\<rparr>
          in if \<not> ok then (Some writeFailedError, s2)
             else if aid \<noteq> activeID then (None, s2)
             else
               let remaining = List (tokens s2)
               in if remaining = [] then activateAccountLocked now [] s2
                  else
                    let i = (case activeIndex of None \<Rightarrow> 0 | Some i \<Rightarrow> i)
                    in activateAccountLocked now (accID (remaining ! (i mod length remaining))) s2)"

subsection \<open>Results of calls\<close>

definition recordAccountFailureWithoutAdvance :: "gotime \<Rightarrow> string \<Rightarrow> goerror \<Rightarrow> server \<Rightarrow> server" where
  "recordAccountFailureWithoutAdvance now aid err s =
     (let aid = TrimSpace aid
      in if aid = [] \<or> (\<not> IsUpstreamAccountFailure (Some err) \<and> \<not> IsDisengaged (Some err)) then s
         else
           let s1 = poolFailure now aid err s;
               (opened, s2) = observeSharedFailureLocked aid err now s1
           in snd (persistActiveAccountLocked now (activeAccountID s2) s2))"

definition markAccountResult :: "gotime \<Rightarrow> string \<Rightarrow> goerror option \<Rightarrow> server \<Rightarrow> bool \<times> server" where
  "markAccountResult now aid err s =
     (let aid = TrimSpace aid
      in if aid = [] then (False, s)
         else case err of
           None \<Rightarrow>
             (case ensureActiveAccountLocked now (List (tokens s)) s of
                (Inl e, s1) \<Rightarrow> (False, s1)
              | (Inr activeID, s1) \<Rightarrow>
                  (False, if activeID = aid
                          then s1\<lparr>accountPool := MarkSuccess now aid (accountPool s1)\<rparr> else s1))
         | Some e \<Rightarrow>
             if IsDisengaged err then
               (let s1 = poolFailure now aid e s
                in (False, snd (persistActiveAccountLocked now (activeAccountID s1) s1)))
             else if \<not> IsUpstreamAccountFailure err then (False, s)
             else
               let accounts = List (tokens s);
                   s1 = poolFailure now aid e s;
                   (opened, s2) = observeSharedFailureLocked aid e now s1;
                   ((advanced, routeErr), s3) =
                     (if \<not> opened \<and> \<not> upstreamCircuitOpenLocked now s2
                      then advanceActiveAccountLocked now aid accounts s2
                      else ((False, None), s2));
                   s4 = (if routeErr = None \<and> \<not> advanced
                         then snd (persistActiveAccountLocked now (activeAccountID s3) s3) else s3)
               in (advanced, s4))"

definition markAccountSuccess :: "gotime \<Rightarrow> string \<Rightarrow> server \<Rightarrow> server" where
  "markAccountSuccess now aid s = snd (markAccountResult now aid None s)"

text \<open>
  The policy gate for rotation; whether the response was an empty quota failure is an argument
  (quotaFailureWithoutContent looks at the response only).
\<close>

definition shouldFailoverAccount :: "bool \<Rightarrow> bool \<Rightarrow> goerror option \<Rightarrow> bool \<Rightarrow> bool" where
  "shouldFailoverAccount alreadySwitched visibleOutput err quotaFailure =
     (if alreadySwitched \<or> visibleOutput then False
      else case err of
             Some e \<Rightarrow> IsUpstreamAccountFailure err
           | None \<Rightarrow> quotaFailure)"

subsection \<open>Leases\<close>

text \<open>
  A call context knows the request lease it carries and the leases whose cancel functions cancel
  it. A release function is represented by the lease it releases, if any.
\<close>

record activeAccountRequestLease =
  leaseAccountID :: string
  leaseGeneration :: "64 word"

record callContext =
  ctxRequestLease :: "activeAccountRequestLease option"
  ctxLeases :: "64 word list"

definition newLease :: "server \<Rightarrow> 64 word \<times> server" where
  "newLease s =
     (let leaseID = nextAccountLeaseID s + 1
      in (leaseID, s\<lparr>nextAccountLeaseID := leaseID,
                     activeAccountLeases := leaseID # removeAll leaseID (activeAccountLeases s)\<rparr>))"

definition beginActiveAccountCall ::
  "gotime \<Rightarrow> callContext \<Rightarrow> string \<Rightarrow> server \<Rightarrow> (goerror + callContext \<times> 64 word option) \<times> server" where
  "beginActiveAccountCall now parent accountID s =
     (if (case ctxRequestLease parent of
            Some lease \<Rightarrow> \<not> blank accountID \<and> leaseAccountID lease = TrimSpace accountID
          | None \<Rightarrow> False)
      then (Inr (parent, None), s)
      else case ensureActiveAccountLocked now (List (tokens s)) s of
        (Inl e, s1) \<Rightarrow> (Inl e, s1)
      | (Inr activeID, s1) \<Rightarrow>
          if accountID = [] \<or> accountID \<noteq> activeID then (Inl errInactiveAccount, s1)
          else (let (leaseID, s2) = newLease s1
                in (Inr (parent\<lparr>ctxLeases := leaseID # ctxLeases parent\<rparr>, Some leaseID), s2)))"

definition beginActiveAccountRequest ::
  "gotime \<Rightarrow> callContext \<Rightarrow> string \<Rightarrow> server \<Rightarrow> (goerror + callContext \<times> 64 word option) \<times> server" where
  "beginActiveAccountRequest now parent accountID s =
     (let accountID = TrimSpace accountID
      in case ensureActiveAccountLocked now (List (tokens s)) s of
        (Inl e, s1) \<Rightarrow> (Inl e, s1)
      | (Inr activeID, s1) \<Rightarrow>
          if accountID = [] \<or> accountID \<noteq> activeID then (Inl errInactiveAccount, s1)
          else (let (leaseID, s2) = newLease s1;
                    lease = \<lparr>leaseAccountID = accountID, leaseGeneration = activeAccountGeneration s1\<rparr>
                in (Inr (parent\<lparr>ctxRequestLease := Some lease, ctxLeases := leaseID # ctxLeases parent\<rparr>,
                         Some leaseID), s2)))"

definition releaseLease :: "64 word option \<Rightarrow> server \<Rightarrow> server" where
  "releaseLease r s =
     (case r of
        None \<Rightarrow> s
      | Some leaseID \<Rightarrow>
          if leaseID \<in> set (activeAccountLeases s)
          then s\<lparr>activeAccountLeases := removeAll leaseID (activeAccountLeases s),
                 cancelledLeases := leaseID # cancelledLeases s\<rparr>
          else s)"

subsection \<open>Start-up\<close>

text \<open>
  The persisted route (an error when it cannot be read or decoded, None when there is no file) and
  the highest generation found in the session store.
\<close>

definition initializeAccountRouter ::
  "gotime \<Rightarrow> (goerror + accountRouteState option) \<Rightarrow> 64 word option \<Rightarrow> server \<Rightarrow> goerror option \<times> server" where
  "initializeAccountRouter now stored sessionGeneration s =
     (case (if blank (accountRoutePath s) then Inr None else stored) of
        Inl e \<Rightarrow> (Some e, s)
      | Inr st \<Rightarrow>
          let s1 = (case st of
                      None \<Rightarrow> s
                    | Some r \<Rightarrow> s\<lparr>activeAccountID := TrimSpace (rsActiveAccountID r),
                                  activeAccountGeneration := rsRouteGeneration r\<rparr>);
              health = (case st of None \<Rightarrow> newAccountHealth | Some r \<Rightarrow> rsHealth r);
              refused = (case st of None \<Rightarrow> [] | Some r \<Rightarrow> rsPolicyRefusals r);
              s2 = (case sessionGeneration of
                      None \<Rightarrow> s1
                    | Some g \<Rightarrow> if g > activeAccountGeneration s1
                                then s1\<lparr>activeAccountGeneration := g\<rparr> else s1);
              s3 = s2\<lparr>accountPool := restorePersistedState now health,
                      policyRefusals := restorePolicyRefusals now refused\<rparr>
          in case ensureActiveAccountLocked now (List (tokens s3)) s3 of
               (Inl e, s4) \<Rightarrow> (Some e, s4)
             | (Inr _, s4) \<Rightarrow> (None, s4))"

end
