(* ===== verification/RouterLaws.thy ===== *)
theory RouterLaws
  imports AccountRouter
begin

text \<open>
  Laws of the account router: frames of its critical sections, the order in which it visits
  accounts, rollback of a failed activation, the agreement of the route file with memory, and the
  breaker.
\<close>

subsection \<open>Positions and order\<close>

abbreviation ids :: "accountToken list \<Rightarrow> string list" where
  "ids accounts \<equiv> map accID accounts"

text \<open>Account ids as OAuth logins create them: distinct, trimmed and not empty.\<close>

definition goodIDs :: "accountToken list \<Rightarrow> bool" where
  "goodIDs accounts \<longleftrightarrow> distinct (ids accounts) \<and> (\<forall>i \<in> set (ids accounts). TrimSpace i = i \<and> i \<noteq> [])"

lemma accountIndexByID_None: "accountIndexByID accounts aid = None \<longleftrightarrow> aid \<notin> set (ids accounts)"
  by (induction accounts) auto

lemma accountIndexByID_Some:
  "accountIndexByID accounts aid = Some i \<Longrightarrow>
   i < length accounts \<and> accID (accounts ! i) = aid \<and> (\<forall>j<i. accID (accounts ! j) \<noteq> aid)"
proof (induction accounts arbitrary: i)
  case Nil
  then show ?case by simp
next
  case (Cons a accounts)
  show ?case
  proof (cases "accID a = aid")
    case True
    with Cons.prems show ?thesis by simp
  next
    case False
    with Cons.prems obtain k where k: "accountIndexByID accounts aid = Some k" "i = Suc k" by auto
    with Cons.IH [OF k(1)] False show ?thesis by (auto simp: less_Suc_eq_0_disj)
  qed
qed

lemma successors_eq:
  assumes "start < length accounts"
  shows "successors accounts start = drop (Suc start) accounts @ take start accounts"
proof (rule nth_equalityI)
  show len: "length (successors accounts start) = length (drop (Suc start) accounts @ take start accounts)"
    using assms by (simp add: successors_def)
  fix i assume "i < length (successors accounts start)"
  then have i: "i < length accounts - 1" by (simp add: successors_def)
  then have l: "successors accounts start ! i = accounts ! ((start + Suc i) mod length accounts)"
    by (simp add: successors_def)
  show "successors accounts start ! i = (drop (Suc start) accounts @ take start accounts) ! i"
  proof (cases "start + Suc i < length accounts")
    case True
    with l i assms show ?thesis by (simp add: nth_append)
  next
    case False
    then have "(start + Suc i) mod length accounts = start + Suc i - length accounts"
      using i assms by (subst mod_if) (simp add: le_mod_geq)
    with l i assms False show ?thesis by (simp add: nth_append add.commute)
  qed
qed

lemma successors_not_self:
  assumes "distinct (ids accounts)" and "accountIndexByID accounts aid = Some i"
    and "c \<in> set (successors accounts i)"
  shows "accID c \<noteq> aid \<and> c \<in> set accounts"
proof -
  from accountIndexByID_Some [OF assms(2)] have i: "i < length accounts" "accID (accounts ! i) = aid"
    by auto
  have split: "accounts = take i accounts @ accounts ! i # drop (Suc i) accounts"
    using i(1) by (rule id_take_nth_drop)
  from assms(3) have c: "c \<in> set (drop (Suc i) accounts) \<or> c \<in> set (take i accounts)"
    using successors_eq [OF i(1)] by auto
  have "distinct (ids (take i accounts @ accounts ! i # drop (Suc i) accounts))"
    using assms(1) split by metis
  then have "accID (accounts ! i) \<notin> set (ids (take i accounts))"
    and "accID (accounts ! i) \<notin> set (ids (drop (Suc i) accounts))" by simp_all
  then have "accID c \<noteq> aid" using c i(2) by (metis image_eqI list.set_map)
  moreover have "c \<in> set accounts" using c by (metis in_set_dropD in_set_takeD)
  ultimately show ?thesis by simp
qed

subsection \<open>Frames\<close>

text \<open>Everything but the route itself, the route file and the refusals.\<close>

definition sameRest :: "server \<Rightarrow> server \<Rightarrow> bool" where
  "sameRest s t \<longleftrightarrow>
     nextAccountLeaseID t = nextAccountLeaseID s \<and> activeAccountLeases t = activeAccountLeases s
     \<and> cancelledLeases t = cancelledLeases s \<and> sharedFailureAccounts t = sharedFailureAccounts s
     \<and> upstreamCircuitUntil t = upstreamCircuitUntil s \<and> accountRoutePath t = accountRoutePath s
     \<and> tokens t = tokens s \<and> accountPool t = accountPool s \<and> accountStats t = accountStats s
     \<and> statsDirty t = statsDirty s"

definition sameRoute :: "server \<Rightarrow> server \<Rightarrow> bool" where
  "sameRoute s t \<longleftrightarrow>
     activeAccountID t = activeAccountID s \<and> activeAccountGeneration t = activeAccountGeneration s"

lemma sameRest_refl [simp]: "sameRest s s"
  by (simp add: sameRest_def)

lemma sameRest_trans: "sameRest s t \<Longrightarrow> sameRest t u \<Longrightarrow> sameRest s u"
  by (simp add: sameRest_def)

lemma sameRoute_refl [simp]: "sameRoute s s"
  by (simp add: sameRoute_def)

lemma persist_cases:
  assumes "persistActiveAccountLocked now aid s = (err, t)"
  obtains "blank (accountRoutePath s)" and "err = None" and "t = s"
  | st f where "\<not> blank (accountRoutePath s)" and "err = None"
    and "t = s\<lparr>policyRefusals := snd (persistedPolicyRefusals now (policyRefusals s)), routeFile := f\<rparr>"
    and "contents f = Some st"
    and "st = \<lparr>rsActiveAccountID = aid, rsRouteGeneration = activeAccountGeneration s,
               rsUpdatedAt = now, rsHealth = persistedState now (accountPool s),
               rsPolicyRefusals = fst (persistedPolicyRefusals now (policyRefusals s))\<rparr>"
  | e f where "\<not> blank (accountRoutePath s)" and "err = Some e"
    and "t = s\<lparr>policyRefusals := snd (persistedPolicyRefusals now (policyRefusals s)), routeFile := f\<rparr>"
    and "contents f = contents (routeFile s)"
proof (cases "blank (accountRoutePath s)")
  case True
  with assms have "err = None" "t = s" by (simp_all add: persistActiveAccountLocked_def)
  with True show thesis by (rule that(1))
next
  case False
  obtain refused live where pr: "persistedPolicyRefusals now (policyRefusals s) = (refused, live)" by force
  define st where "st = \<lparr>rsActiveAccountID = aid, rsRouteGeneration = activeAccountGeneration s,
               rsUpdatedAt = now, rsHealth = persistedState now (accountPool s), rsPolicyRefusals = refused\<rparr>"
  obtain ok f where w: "writeFile st (routeFile s) = (ok, f)" by force
  from False assms pr w have t: "err = (if ok then None else Some writeFailedError)"
      "t = s\<lparr>policyRefusals := live, routeFile := f\<rparr>"
    by (simp_all add: persistActiveAccountLocked_def st_def)
  show thesis
  proof (cases ok)
    case True
    then have "contents f = Some st" using w by (intro writeFile_ok) simp
    with True False t pr show thesis by (intro that(2)) (simp_all add: st_def)
  next
    case no: False
    then have "contents f = contents (routeFile s)" using w by (intro writeFile_fail) simp
    with no False t pr show thesis by (intro that(3) [of writeFailedError f]) simp_all
  qed
qed

lemma persist_frame:
  assumes "persistActiveAccountLocked now aid s = (err, t)"
  shows "sameRest s t \<and> sameRoute s t \<and> policyRefusals t = (if blank (accountRoutePath s) then policyRefusals s
     else snd (persistedPolicyRefusals now (policyRefusals s)))"
  using assms by (rule persist_cases) (simp_all add: sameRest_def sameRoute_def)

text \<open>Activation: all or nothing, with the generation counting the changes.\<close>

lemma activate_same [simp]: "TrimSpace aid = activeAccountID s \<Longrightarrow> activateAccountLocked now aid s = (None, s)"
  by (simp add: activateAccountLocked_def)

lemma activate_cases:
  assumes "activateAccountLocked now aid s = (err, t)"
  obtains "TrimSpace aid = activeAccountID s" and "err = None" and "t = s"
  | u where "TrimSpace aid \<noteq> activeAccountID s" and "err = None" and "t = u"
    and "persistActiveAccountLocked now (TrimSpace aid)
           (s\<lparr>activeAccountID := TrimSpace aid, activeAccountGeneration := activeAccountGeneration s + 1\<rparr>)
         = (None, u)"
  | u e where "TrimSpace aid \<noteq> activeAccountID s" and "err = Some e"
    and "t = u\<lparr>activeAccountID := activeAccountID s, activeAccountGeneration := activeAccountGeneration s\<rparr>"
    and "persistActiveAccountLocked now (TrimSpace aid)
           (s\<lparr>activeAccountID := TrimSpace aid, activeAccountGeneration := activeAccountGeneration s + 1\<rparr>)
         = (Some e, u)"
proof (cases "TrimSpace aid = activeAccountID s")
  case True
  with assms have "err = None" "t = s" by simp_all
  with True show thesis by (rule that(1))
next
  case False
  obtain r u where p: "persistActiveAccountLocked now (TrimSpace aid)
      (s\<lparr>activeAccountID := TrimSpace aid, activeAccountGeneration := activeAccountGeneration s + 1\<rparr>) = (r, u)"
    by force
  show thesis
  proof (cases r)
    case None
    with False p assms have "err = None" "t = u" by (simp_all add: activateAccountLocked_def Let_def)
    with False p None show thesis by (intro that(2)) simp_all
  next
    case (Some e)
    with False p assms have "err = Some e"
      "t = u\<lparr>activeAccountID := activeAccountID s, activeAccountGeneration := activeAccountGeneration s\<rparr>"
      by (simp_all add: activateAccountLocked_def Let_def)
    with False p Some show thesis by (intro that(3)) simp_all
  qed
qed

lemma activate_frame: "activateAccountLocked now aid s = (err, t) \<Longrightarrow> sameRest s t"
  by (erule activate_cases) (auto simp: sameRest_def dest!: persist_frame)

lemma activate_error: "activateAccountLocked now aid s = (Some e, t) \<Longrightarrow> sameRoute s t"
  by (erule activate_cases) (auto simp: sameRoute_def)

lemma activate_ok:
  "activateAccountLocked now aid s = (None, t) \<Longrightarrow>
   activeAccountID t = TrimSpace aid \<and>
   activeAccountGeneration t =
     activeAccountGeneration s + (if TrimSpace aid = activeAccountID s then 0 else 1)"
  by (erule activate_cases) (auto simp: sameRoute_def dest!: persist_frame)

subsection \<open>The route file agrees with memory\<close>

definition routeSynced :: "server \<Rightarrow> bool" where
  "routeSynced s \<longleftrightarrow>
     blank (accountRoutePath s) \<or> activeAccountID s = []
     \<or> (\<exists>st. contents (routeFile s) = Some st \<and> rsActiveAccountID st = activeAccountID s)"

lemma persist_synced:
  assumes "persistActiveAccountLocked now (activeAccountID s) s = (err, t)" and "routeSynced s"
  shows "routeSynced t"
  using assms(1) by (rule persist_cases) (use assms(2) in \<open>simp_all add: routeSynced_def\<close>)

lemma activate_synced:
  assumes act: "activateAccountLocked now aid s = (err, t)" and sync: "routeSynced s"
  shows "routeSynced t"
  using act
proof (rule activate_cases)
  assume "t = s"
  with sync show ?thesis by simp
next
  fix u assume "t = u" and "persistActiveAccountLocked now (TrimSpace aid)
    (s\<lparr>activeAccountID := TrimSpace aid, activeAccountGeneration := activeAccountGeneration s + 1\<rparr>) = (None, u)"
  from this(2,1) show ?thesis by (elim persist_cases) (simp_all add: routeSynced_def)
next
  fix u e assume t: "t = u\<lparr>activeAccountID := activeAccountID s,
      activeAccountGeneration := activeAccountGeneration s\<rparr>"
    and p: "persistActiveAccountLocked now (TrimSpace aid)
    (s\<lparr>activeAccountID := TrimSpace aid, activeAccountGeneration := activeAccountGeneration s + 1\<rparr>) = (Some e, u)"
  from p show ?thesis by (rule persist_cases) (use t sync in \<open>simp_all add: routeSynced_def\<close>)
qed

subsection \<open>Ensuring an active account\<close>

lemma ensure_frame: "ensureActiveAccountLocked now accounts s = (r, t) \<Longrightarrow> sameRest s t"
  by (auto simp: ensureActiveAccountLocked_def sameRest_def
      split: list.splits if_splits prod.splits option.splits dest!: activate_frame)

lemma ensure_synced:
  "ensureActiveAccountLocked now accounts s = (r, t) \<Longrightarrow> routeSynced s \<Longrightarrow> routeSynced t"
proof (cases accounts)
  case Nil
  assume "ensureActiveAccountLocked now accounts s = (r, t)" "routeSynced s"
  with Nil show ?thesis by (auto simp: ensureActiveAccountLocked_def routeSynced_def)
next
  case (Cons a as)
  assume "ensureActiveAccountLocked now accounts s = (r, t)" "routeSynced s"
  with Cons show ?thesis
    by (auto simp: ensureActiveAccountLocked_def
        split: if_splits prod.splits option.splits intro: activate_synced)
qed

lemma ensure_active [simp]:
  "activeAccountID s \<in> set (ids accounts) \<Longrightarrow>
   ensureActiveAccountLocked now accounts s = (Inr (activeAccountID s), s)"
  by (cases accounts) (auto simp: ensureActiveAccountLocked_def accountIndexByID_None)

lemma ensure_result:
  "ensureActiveAccountLocked now accounts s = (Inr aid, t) \<Longrightarrow> activeAccountID t = aid"
  by (auto simp: ensureActiveAccountLocked_def split: list.splits if_splits prod.splits option.splits)

lemma ensure_member:
  assumes "ensureActiveAccountLocked now accounts s = (Inr aid, t)" and "goodIDs accounts"
    and "accounts \<noteq> []"
  shows "aid \<in> set (ids accounts)"
proof -
  obtain a as where acc: "accounts = a # as" using assms(3) by (cases accounts) auto
  then have trim: "TrimSpace (accID a) = accID a" using assms(2) by (simp add: goodIDs_def)
  show ?thesis
  proof (cases "activeAccountID s \<in> set (ids accounts)")
    case True
    with assms(1) show ?thesis by (auto simp del: set_map)
  next
    case False
    then have none: "accountIndexByID accounts (activeAccountID s) = None"
      by (simp add: accountIndexByID_None)
    obtain e u where act: "activateAccountLocked now (accID a) s = (e, u)" by force
    have "e = None \<and> u = t \<and> aid = activeAccountID t"
      using assms(1) none act by (auto simp: ensureActiveAccountLocked_def acc simp del: accountIndexByID.simps
          split: option.splits)
    with act have "activateAccountLocked now (accID a) s = (None, t)" "aid = activeAccountID t" by simp_all
    then show ?thesis using activate_ok [of now "accID a" s t] trim acc by simp
  qed
qed

subsection \<open>Advancing\<close>

lemma find_SomeD: "find P xs = Some c \<Longrightarrow> c \<in> set xs \<and> P c"
  by (induction xs) (auto split: if_splits)

lemma advance_frame:
  "advanceActiveAccountLocked now failedID accounts s = (r, t) \<Longrightarrow> sameRest s t"
  by (auto simp: advanceActiveAccountLocked_def
      split: prod.splits sum.splits if_splits option.splits dest!: ensure_frame activate_frame
      intro: sameRest_trans)

lemma advance_synced:
  "advanceActiveAccountLocked now failedID accounts s = (r, t) \<Longrightarrow> routeSynced s \<Longrightarrow> routeSynced t"
  by (auto simp: advanceActiveAccountLocked_def
      split: prod.splits sum.splits if_splits option.splits
      dest: ensure_synced activate_synced)

lemma advance_stale:
  "activeAccountID s \<in> set (ids accounts) \<Longrightarrow> failedID \<noteq> activeAccountID s \<Longrightarrow>
   advanceActiveAccountLocked now failedID accounts s = ((False, None), s)"
  by (simp add: advanceActiveAccountLocked_def)

lemma advance_active:
  assumes good: "goodIDs accounts" and idx: "accountIndexByID accounts (activeAccountID s) = Some i"
  shows "advanceActiveAccountLocked now (activeAccountID s) accounts s =
     (case find (\<lambda>c. Available now (accountPool s) (accID c)) (drop (Suc i) accounts @ take i accounts) of
        None \<Rightarrow> ((False, None), s)
      | Some c \<Rightarrow> (case activateAccountLocked now (accID c) s of
                     (Some e, t) \<Rightarrow> ((False, Some e), t)
                   | (None, t) \<Rightarrow> ((True, None), t)))"
proof -
  have mem: "activeAccountID s \<in> set (ids accounts)"
    using idx accountIndexByID_None [of accounts "activeAccountID s"] by auto
  then have ne: "activeAccountID s \<noteq> []" using good by (auto simp: goodIDs_def)
  have "i < length accounts" using accountIndexByID_Some [OF idx] by simp
  with mem ne idx show ?thesis
    by (simp add: advanceActiveAccountLocked_def successors_eq)
qed

lemma advance_moved:
  assumes adv: "advanceActiveAccountLocked now failedID accounts s = ((True, err), t)"
    and good: "goodIDs accounts" and mem: "activeAccountID s \<in> set (ids accounts)"
  shows "failedID = activeAccountID s \<and> activeAccountID t \<noteq> activeAccountID s
     \<and> activeAccountID t \<in> set (ids accounts)
     \<and> Available now (accountPool s) (activeAccountID t)
     \<and> activeAccountGeneration t = activeAccountGeneration s + 1"
proof -
  have f: "failedID = activeAccountID s"
    using adv advance_stale [OF mem] by fastforce
  obtain i where i: "accountIndexByID accounts (activeAccountID s) = Some i"
    using mem accountIndexByID_None [of accounts "activeAccountID s"] by fastforce
  have lt: "i < length accounts" using accountIndexByID_Some [OF i] by simp
  obtain c where c: "find (\<lambda>c. Available now (accountPool s) (accID c)) (drop (Suc i) accounts @ take i accounts) = Some c"
    and act: "activateAccountLocked now (accID c) s = (None, t)"
    using adv unfolding f advance_active [OF good i]
    by (auto split: option.splits prod.splits)
  have av: "Available now (accountPool s) (accID c)"
      and cin: "c \<in> set (successors accounts i)"
    using find_SomeD [OF c] unfolding successors_eq [OF lt] by simp_all
  have ne: "accID c \<noteq> activeAccountID s" and acc: "c \<in> set accounts"
    using successors_not_self [OF _ i cin] good by (auto simp: goodIDs_def)
  have trim: "TrimSpace (accID c) = accID c" using good acc by (auto simp: goodIDs_def)
  show ?thesis using activate_ok [OF act] ne acc av f trim by auto
qed

lemma advance_not_moved:
  assumes "advanceActiveAccountLocked now failedID accounts s = ((False, err), t)"
    and "activeAccountID s \<in> set (ids accounts)"
  shows "sameRoute s t"
  using assms
  by (auto simp: advanceActiveAccountLocked_def
      split: if_splits option.splits prod.splits dest: activate_error)

subsection \<open>The breaker\<close>

lemma observe_frame:
  "observeSharedFailureLocked aid err now s = (b, t) \<Longrightarrow>
   sameRoute s t \<and> tokens t = tokens s \<and> accountPool t = accountPool s
   \<and> accountRoutePath t = accountRoutePath s \<and> routeFile t = routeFile s
   \<and> activeAccountLeases t = activeAccountLeases s \<and> cancelledLeases t = cancelledLeases s"
  by (auto simp: observeSharedFailureLocked_def Let_def sameRoute_def split: if_splits)

lemma update_singleton: "fst ` set m \<subseteq> {k} \<Longrightarrow> wf_map m \<Longrightarrow> length (AList.update k v m) = 1"
proof (cases m)
  case Nil
  then show ?thesis by simp
next
  case (Cons kv m')
  assume "fst ` set m \<subseteq> {k}" and "wf_map m"
  with Cons have "fst kv = k" and "m' = []"
    by (cases m'; auto)+
  with Cons show ?thesis by (cases kv) simp
qed

lemma observe_single:
  assumes "wf_map (sharedFailureAccounts s)" and "fst ` set (sharedFailureAccounts s) \<subseteq> {aid}"
    and "observeSharedFailureLocked aid err now s = (b, t)"
  shows "\<not> b \<and> upstreamCircuitUntil t = upstreamCircuitUntil s
     \<and> wf_map (sharedFailureAccounts t) \<and> fst ` set (sharedFailureAccounts t) \<subseteq> {aid}"
proof (cases "isSharedUpstreamFailure (Some err)")
  case False
  with assms show ?thesis by (auto simp: observeSharedFailureLocked_def)
next
  case True
  define fresh where
    "fresh = filter (\<lambda>(_, observedAt). \<not> now - observedAt > sharedFailureWindow) (sharedFailureAccounts s)"
  have fresh: "wf_map fresh" "fst ` set fresh \<subseteq> {aid}"
    using assms(1,2) by (auto simp: fresh_def)
  have "length (AList.update aid now fresh) = 1"
    by (rule update_singleton [OF fresh(2,1)])
  then have "b = False" and t: "t = s\<lparr>sharedFailureAccounts := AList.update aid now fresh\<rparr>"
    using assms(3) True by (auto simp: observeSharedFailureLocked_def fresh_def Let_def)
  then show ?thesis using fresh by (auto simp: dom_update)
qed

lemma length_update_two:
  "map_of m a \<noteq> None \<Longrightarrow> a \<noteq> k \<Longrightarrow> 2 \<le> length (AList.update k v m)"
proof (induction m)
  case Nil
  then show ?case by simp
next
  case (Cons kv m)
  then show ?case by (cases kv; cases m) (auto split: if_splits)
qed

lemma observe_two:
  assumes "isSharedUpstreamFailure (Some err)" and "wf_map (sharedFailureAccounts s)"
    and "map_of (sharedFailureAccounts s) other = Some u" and "other \<noteq> aid"
    and "now - u \<le> sharedFailureWindow"
  shows "fst (observeSharedFailureLocked aid err now s)
     \<and> now + upstreamCircuitRest \<le> upstreamCircuitUntil (snd (observeSharedFailureLocked aid err now s))"
proof -
  define fresh where
    "fresh = filter (\<lambda>(_, observedAt). \<not> now - observedAt > sharedFailureWindow) (sharedFailureAccounts s)"
  have "map_of fresh other = Some u"
    using assms by (simp add: fresh_def map_of_filter_wf)
  then have "2 \<le> length (AList.update aid now fresh)"
    using length_update_two [of fresh other aid now] assms(4) by simp
  then show ?thesis using assms(1)
    by (auto simp: observeSharedFailureLocked_def fresh_def Let_def)
qed

end
