(* ===== verification/RouterSystem.thy ===== *)
theory RouterSystem
  imports RouterLaws
begin

text \<open>
  The operations of the account router as one system: what a finished call may change, what a
  resolution returns, what a deletion selects, and the invariants of every sequence of operations.
\<close>

subsection \<open>Laws of the remaining operations\<close>

lemma find_ids:
  "ids accounts = front @ aid # back \<Longrightarrow> aid \<notin> set front \<Longrightarrow>
   accountIndexByID accounts aid = Some (length front)"
proof (induction front arbitrary: accounts)
  case Nil
  then show ?case by (cases accounts) auto
next
  case (Cons f front)
  then show ?case by (cases accounts) auto
qed

lemma find_map_ids:
  "find (\<lambda>c. P (accID c)) accounts = Some c \<Longrightarrow> find P (ids accounts) = Some (accID c)"
  by (induction accounts) (auto split: if_splits)

lemma find_map_ids_None:
  "find (\<lambda>c. P (accID c)) accounts = None \<Longrightarrow> find P (ids accounts) = None"
  by (induction accounts) (auto split: if_splits)

lemma find_first:
  "find P xs = Some x \<Longrightarrow> \<exists>pre post. xs = pre @ x # post \<and> (\<forall>y \<in> set pre. \<not> P y) \<and> P x"
proof (induction xs)
  case Nil
  then show ?case by simp
next
  case (Cons y ys)
  show ?case
  proof (cases "P y")
    case True
    with Cons.prems have "y # ys = [] @ x # ys \<and> P x" by simp
    then show ?thesis by fastforce
  next
    case False
    with Cons.prems have "find P ys = Some x" by simp
    from Cons.IH [OF this] obtain pre post
      where "ys = pre @ x # post" "\<forall>y \<in> set pre. \<not> P y" "P x" by blast
    with False have "y # ys = (y # pre) @ x # post \<and> (\<forall>z \<in> set (y # pre). \<not> P z) \<and> P x" by simp
    then show ?thesis by blast
  qed
qed

lemma activate_file:
  assumes "activateAccountLocked now aid s = (None, t)" and "TrimSpace aid \<noteq> activeAccountID s"
    and "\<not> blank (accountRoutePath s)"
  shows "\<exists>st. contents (routeFile t) = Some st \<and> rsActiveAccountID st = activeAccountID t
     \<and> rsRouteGeneration st = activeAccountGeneration t"
  using assms(1)
proof (rule activate_cases)
  assume "TrimSpace aid = activeAccountID s"
  with assms(2) show ?thesis by simp
next
  fix u assume "t = u" and p: "persistActiveAccountLocked now (TrimSpace aid)
    (s\<lparr>activeAccountID := TrimSpace aid, activeAccountGeneration := activeAccountGeneration s + 1\<rparr>) = (None, u)"
  from p this(1) show ?thesis by (elim persist_cases) (use assms(3) in simp_all)
next
  fix e assume "None = Some e"
  then show ?thesis by simp
qed

lemma activate_file_error:
  assumes "activateAccountLocked now aid s = (Some e, t)"
  shows "contents (routeFile t) = contents (routeFile s)"
  using assms
proof (rule activate_cases)
  fix u e' assume "t = u\<lparr>activeAccountID := activeAccountID s,
      activeAccountGeneration := activeAccountGeneration s\<rparr>"
    and "persistActiveAccountLocked now (TrimSpace aid)
    (s\<lparr>activeAccountID := TrimSpace aid, activeAccountGeneration := activeAccountGeneration s + 1\<rparr>) = (Some e', u)"
  from this(2,1) show ?thesis by (elim persist_cases) simp_all
qed simp_all

lemma poolFailure_frame [simp]:
  "activeAccountID (poolFailure now aid e s) = activeAccountID s"
  "activeAccountGeneration (poolFailure now aid e s) = activeAccountGeneration s"
  "tokens (poolFailure now aid e s) = tokens s"
  "accountRoutePath (poolFailure now aid e s) = accountRoutePath s"
  "routeFile (poolFailure now aid e s) = routeFile s"
  "sharedFailureAccounts (poolFailure now aid e s) = sharedFailureAccounts s"
  "upstreamCircuitUntil (poolFailure now aid e s) = upstreamCircuitUntil s"
  "activeAccountLeases (poolFailure now aid e s) = activeAccountLeases s"
  "cancelledLeases (poolFailure now aid e s) = cancelledLeases s"
  "accountPool (poolFailure now aid e s) = recordAccountFailureHealth now aid e (accountPool s)"
  by (simp_all add: poolFailure_def)

lemma routeSynced_cong:
  "activeAccountID t = activeAccountID s \<Longrightarrow> accountRoutePath t = accountRoutePath s \<Longrightarrow>
   contents (routeFile t) = contents (routeFile s) \<Longrightarrow> routeSynced t = routeSynced s"
  by (simp add: routeSynced_def)

lemma persist_any_synced:
  "routeSynced s \<Longrightarrow> routeSynced (snd (persistActiveAccountLocked now (activeAccountID s) s))"
  by (cases "persistActiveAccountLocked now (activeAccountID s) s") (auto intro: persist_synced)

lemma poolFailure_synced [simp]: "routeSynced (poolFailure now aid e s) = routeSynced s"
  by (rule routeSynced_cong) simp_all

lemma observe_synced:
  "observeSharedFailureLocked aid err now s = (b, t) \<Longrightarrow> routeSynced t = routeSynced s"
  by (rule routeSynced_cong) (auto dest!: observe_frame simp: sameRoute_def)

subsection \<open>Finished calls\<close>

text \<open>The part of a server that decides where requests go.\<close>

definition movesTo :: "gotime \<Rightarrow> server \<Rightarrow> server \<Rightarrow> bool" where
  "movesTo now s t \<longleftrightarrow>
     activeAccountID t \<noteq> activeAccountID s \<and> activeAccountID t \<in> set (ids (List (tokens t)))
     \<and> Available now (accountPool t) (activeAccountID t)
     \<and> activeAccountGeneration t = activeAccountGeneration s + 1"

lemma persist_snd_frame:
  "sameRest s (snd (persistActiveAccountLocked now aid s))
   \<and> sameRoute s (snd (persistActiveAccountLocked now aid s))"
  by (cases "persistActiveAccountLocked now aid s") (use persist_frame in force)

lemma markAccountResult_cases:
  assumes mark: "markAccountResult now aid err s = (rotated, t)"
    and good: "goodIDs (List (tokens s))" and mem: "activeAccountID s \<in> set (ids (List (tokens s)))"
  shows "(rotated \<longrightarrow>
       (\<exists>e. err = Some e) \<and> IsUpstreamAccountFailure err \<and> \<not> IsDisengaged err
       \<and> TrimSpace aid = activeAccountID s \<and> \<not> upstreamCircuitOpenLocked now s \<and> movesTo now s t)
     \<and> (\<not> rotated \<longrightarrow> sameRoute s t)"
proof (cases err)
  case None
  then show ?thesis using mark mem
    by (auto simp: markAccountResult_def Let_def sameRoute_def simp del: set_map split: if_splits)
next
  case (Some e)
  show ?thesis
  proof (cases "TrimSpace aid = [] \<or> IsDisengaged err \<or> \<not> IsUpstreamAccountFailure err")
    case True
    then show ?thesis using mark Some
        persist_snd_frame [of "poolFailure now (TrimSpace aid) e s" now
          "activeAccountID (poolFailure now (TrimSpace aid) e s)"]
      by (auto simp: markAccountResult_def Let_def sameRoute_def split: if_splits)
  next
    case False
    define s1 where "s1 = poolFailure now (TrimSpace aid) e s"
    obtain opened s2 where obs: "observeSharedFailureLocked (TrimSpace aid) e now s1 = (opened, s2)" by force
    note fr = observe_frame [OF obs]
    have act: "activeAccountID s2 = activeAccountID s" and gen: "activeAccountGeneration s2 = activeAccountGeneration s"
      and tok: "tokens s2 = tokens s"
      using fr by (simp_all add: sameRoute_def s1_def)
    have mono: "\<not> opened \<Longrightarrow> upstreamCircuitOpenLocked now s = upstreamCircuitOpenLocked now s2"
      using obs by (auto simp: observeSharedFailureLocked_def s1_def upstreamCircuitOpenLocked_def Let_def
          split: if_splits)
    show ?thesis
    proof (cases "\<not> opened \<and> \<not> upstreamCircuitOpenLocked now s2")
      case closed: True
      obtain adv re s3 where a: "advanceActiveAccountLocked now (TrimSpace aid) (List (tokens s)) s2 = ((adv, re), s3)"
        by (metis prod.exhaust)
      define s4 where "s4 = (if re = None \<and> \<not> adv
        then snd (persistActiveAccountLocked now (activeAccountID s3) s3) else s3)"
      have r: "rotated = adv" "t = s4"
        using mark False Some closed a obs by (auto simp: markAccountResult_def s1_def s4_def Let_def)
      show ?thesis
      proof (cases adv)
        case True
        then have a1: "advanceActiveAccountLocked now (TrimSpace aid) (List (tokens s)) s2 = ((True, re), s3)"
          using a by simp
        have "TrimSpace aid = activeAccountID s2 \<and> activeAccountID s3 \<noteq> activeAccountID s2
           \<and> activeAccountID s3 \<in> set (ids (List (tokens s)))
           \<and> Available now (accountPool s2) (activeAccountID s3)
           \<and> activeAccountGeneration s3 = activeAccountGeneration s2 + 1"
          by (rule advance_moved [OF a1 good]) (simp add: act mem del: set_map)
        moreover have "t = s3" using r True by (simp add: s4_def)
        moreover have "tokens s3 = tokens s2" "accountPool s3 = accountPool s2"
          using advance_frame [OF a] by (simp_all add: sameRest_def)
        ultimately show ?thesis using True r False Some closed mono act gen tok
          by (auto simp: movesTo_def simp del: set_map)
      next
        case no: False
        then have a0: "advanceActiveAccountLocked now (TrimSpace aid) (List (tokens s)) s2 = ((False, re), s3)"
          using a by simp
        have "sameRoute s2 s3"
          by (rule advance_not_moved [OF a0]) (simp add: act mem del: set_map)
        then have "sameRoute s s4"
          using persist_snd_frame [of s3 now "activeAccountID s3"] act gen
          by (auto simp: s4_def sameRoute_def)
        with r no show ?thesis by simp
      qed
    next
      case open': False
      have "rotated = False" "t = snd (persistActiveAccountLocked now (activeAccountID s2) s2)"
        using mark False Some open' obs by (auto simp: markAccountResult_def s1_def Let_def)
      then show ?thesis using persist_snd_frame [of s2 now "activeAccountID s2"] act gen
        by (auto simp: sameRoute_def)
    qed
  qed
qed

subsection \<open>Resolution\<close>

lemma ensureValid_pair:
  obtains tok err ts where "EnsureValid (reToken env) aid (tokens s) = ((tok, err), ts)"
    and "ensureValidUnlocked env aid s = ((tok, err), reOthers env (s\<lparr>tokens := ts\<rparr>))"
proof -
  obtain tok err ts where "EnsureValid (reToken env) aid (tokens s) = ((tok, err), ts)" by (metis prod.exhaust)
  then show thesis using that by (simp add: ensureValidUnlocked_def)
qed

lemma resolve_available:
  assumes "activeAccountID s \<in> set (ids (List (tokens s)))" and "activeAccountID s \<noteq> []"
    and "\<not> upstreamCircuitOpenLocked (reNow1 env) s"
    and "Available (reNow1 env) (accountPool s) (activeAccountID s)"
    and "ensureValidUnlocked env (activeAccountID s) s = ((tk, err), s2)"
    and "ensureActiveAccountLocked (reNow2 env) (List (tokens s2)) s2 = (r, u)"
    and "resolveActiveAccount env s = (Inr tok, t)"
  shows "err = None \<and> tk = tok \<and> r = Inr (activeAccountID s)
     \<and> activeAccountGeneration u = activeAccountGeneration s \<and> t = bumpAccountStats (activeAccountID s) u"
proof -
  note eq = assms(7) [unfolded resolveActiveAccount_def Let_def ensure_active [OF assms(1)]]
  note eq2 = eq [simplified assms(2-6) prod.case sum.case if_False if_True not_True_eq_False not_False_eq_True]
  show ?thesis
  proof (cases r)
    case (Inl e)
    with eq2 show ?thesis by simp
  next
    case (Inr cid)
    with eq2 show ?thesis by (cases err) (auto split: if_splits prod.splits)
  qed
qed

lemma resolve_circuit:
  assumes "activeAccountID s \<in> set (ids (List (tokens s)))" and "activeAccountID s \<noteq> []"
    and "upstreamCircuitOpenLocked (reNow1 env) s"
  shows "resolveActiveAccount env s = (Inl errUpstreamCircuitOpen, s)"
  unfolding resolveActiveAccount_def Let_def ensure_active [OF assms(1)] prod.case sum.case
  using assms(2,3) by (simp only: if_True if_False)

lemma resolve_resting:
  assumes "activeAccountID s \<in> set (ids (List (tokens s)))" and "activeAccountID s \<noteq> []"
    and "\<not> upstreamCircuitOpenLocked (reNow1 env) s"
    and "\<not> Available (reNow1 env) (accountPool s) (activeAccountID s)"
  shows "resolveActiveAccount env s =
     (case advanceActiveAccountLocked (reNow1 env) (activeAccountID s) (List (tokens s)) s of
               ((_, Some e), s2) \<Rightarrow> (Inl e, s2)
             | ((_, None), s2) \<Rightarrow> (Inl errPinnedAccountUnavailable, s2))"
  unfolding resolveActiveAccount_def Let_def ensure_active [OF assms(1)] prod.case sum.case
  using assms(2,3,4) by (simp only: if_True if_False not_False_eq_True)

lemma resolve_needs:
  assumes "activeAccountID s \<in> set (ids (List (tokens s)))"
    and "resolveActiveAccount env s = (Inr tok, t)"
  shows "activeAccountID s \<noteq> [] \<and> \<not> upstreamCircuitOpenLocked (reNow1 env) s
    \<and> Available (reNow1 env) (accountPool s) (activeAccountID s)"
proof -
  note eq = assms(2) [unfolded resolveActiveAccount_def Let_def ensure_active [OF assms(1)] prod.case sum.case]
  have ne: "activeAccountID s \<noteq> []"
  proof
    assume "activeAccountID s = []"
    with eq show False by (simp only: if_True) simp
  qed
  moreover have open': "\<not> upstreamCircuitOpenLocked (reNow1 env) s"
    using resolve_circuit [OF assms(1) ne, of env] assms(2) by auto
  moreover have "Available (reNow1 env) (accountPool s) (activeAccountID s)"
  proof (rule ccontr)
    assume "\<not> Available (reNow1 env) (accountPool s) (activeAccountID s)"
    from resolve_resting [OF assms(1) ne open' this] assms(2) show False
      by (auto split: prod.splits option.splits)
  qed
  ultimately show ?thesis by blast
qed

lemma bumpAccountStats_frame [simp]:
  "activeAccountID (bumpAccountStats aid s) = activeAccountID s"
  "activeAccountGeneration (bumpAccountStats aid s) = activeAccountGeneration s"
  "accountRoutePath (bumpAccountStats aid s) = accountRoutePath s"
  "routeFile (bumpAccountStats aid s) = routeFile s"
  "tokens (bumpAccountStats aid s) = tokens s"
  "getOr 0 (accountStats (bumpAccountStats aid s)) b =
     getOr 0 (accountStats s) b + (if b = aid then 1 else 0)"
  by (simp_all add: bumpAccountStats_def)

lemma resolveActiveAccount_granted:
  assumes res: "resolveActiveAccount env s = (Inr tok, t)"
    and mem: "activeAccountID s \<in> set (ids (List (tokens s)))"
  obtains ts u where "EnsureValid (reToken env) (activeAccountID s) (tokens s) = ((tok, None), ts)"
    and "ensureActiveAccountLocked (reNow2 env) (List (tokens (reOthers env (s\<lparr>tokens := ts\<rparr>))))
           (reOthers env (s\<lparr>tokens := ts\<rparr>)) = (Inr (activeAccountID s), u)"
    and "t = bumpAccountStats (activeAccountID s) u"
    and "activeAccountID t = activeAccountID s"
    and "activeAccountGeneration t = activeAccountGeneration s"
proof -
  obtain tk err ts where ev: "EnsureValid (reToken env) (activeAccountID s) (tokens s) = ((tk, err), ts)"
    and eu: "ensureValidUnlocked env (activeAccountID s) s = ((tk, err), reOthers env (s\<lparr>tokens := ts\<rparr>))"
    by (rule ensureValid_pair)
  obtain r u where en: "ensureActiveAccountLocked (reNow2 env)
      (List (tokens (reOthers env (s\<lparr>tokens := ts\<rparr>)))) (reOthers env (s\<lparr>tokens := ts\<rparr>)) = (r, u)" by force
  have g: "err = None \<and> tk = tok \<and> r = Inr (activeAccountID s)
     \<and> activeAccountGeneration u = activeAccountGeneration s \<and> t = bumpAccountStats (activeAccountID s) u"
    using resolve_needs [OF mem res] by (intro resolve_available [OF mem _ _ _ eu en res]) simp_all
  then have r: "r = Inr (activeAccountID s)" and err: "err = None" and tk: "tk = tok"
    and gen: "activeAccountGeneration u = activeAccountGeneration s"
    and t: "t = bumpAccountStats (activeAccountID s) u" by blast+
  have "activeAccountID u = activeAccountID s" by (rule ensure_result [OF en [unfolded r]])
  then have "activeAccountID t = activeAccountID s" unfolding t by (simp only: bumpAccountStats_frame)
  moreover have "activeAccountGeneration t = activeAccountGeneration s"
    unfolding t by (simp only: bumpAccountStats_frame gen)
  ultimately show thesis
    using that [OF ev [unfolded err tk] en [unfolded r] t] by blast
qed

subsection \<open>The route file follows every operation\<close>

lemma ensure_synced_snd: "routeSynced s \<Longrightarrow> routeSynced (snd (ensureActiveAccountLocked now accounts s))"
  by (rule ensure_synced [of now accounts s "fst (ensureActiveAccountLocked now accounts s)"]) simp_all

lemma advance_synced_snd:
  "routeSynced s \<Longrightarrow> routeSynced (snd (advanceActiveAccountLocked now failedID accounts s))"
  by (rule advance_synced [of now failedID accounts s "fst (advanceActiveAccountLocked now failedID accounts s)"])
     simp_all

lemma activate_synced_snd: "routeSynced s \<Longrightarrow> routeSynced (snd (activateAccountLocked now aid s))"
  by (rule activate_synced [of now aid s "fst (activateAccountLocked now aid s)"]) simp_all

lemma observe_synced_snd:
  "routeSynced s \<Longrightarrow> routeSynced (snd (observeSharedFailureLocked aid err now s))"
  using observe_synced [of aid err now s "fst (observeSharedFailureLocked aid err now s)"
      "snd (observeSharedFailureLocked aid err now s)"] by simp

lemma frame_synced [simp]:
  "routeSynced (s\<lparr>accountPool := h\<rparr>) = routeSynced s"
  "routeSynced (s\<lparr>tokens := ts\<rparr>) = routeSynced s"
  "routeSynced (s\<lparr>nextAccountLeaseID := n, activeAccountLeases := l\<rparr>) = routeSynced s"
  "routeSynced (s\<lparr>activeAccountLeases := l, cancelledLeases := c\<rparr>) = routeSynced s"
  "routeSynced (s\<lparr>cancelledLeases := c, activeAccountLeases := l\<rparr>) = routeSynced s"
  "routeSynced (bumpAccountStats aid s) = routeSynced s"
  by (simp_all add: routeSynced_def bumpAccountStats_def)

definition keepsRoute :: "(server \<Rightarrow> server) \<Rightarrow> bool" where
  "keepsRoute f \<longleftrightarrow> (\<forall>s. routeSynced s \<longrightarrow> routeSynced (f s))"

lemma ensureValid_synced_snd:
  "keepsRoute (reOthers env) \<Longrightarrow> routeSynced s \<Longrightarrow> routeSynced (snd (ensureValidUnlocked env aid s))"
  by (simp add: ensureValidUnlocked_def keepsRoute_def case_prod_beta Let_def)

lemma persist_id_synced:
  "routeSynced s \<Longrightarrow> aid = activeAccountID s \<Longrightarrow> routeSynced (snd (persistActiveAccountLocked now aid s))"
  by (simp add: persist_any_synced)

lemmas synced_intros =
  ensure_synced_snd advance_synced_snd activate_synced_snd observe_synced_snd
  persist_id_synced ensureValid_synced_snd

text \<open>The identifier the callers pass to the persist step is the one they have just ensured.\<close>

lemma ensure_id:
  "fst (ensureActiveAccountLocked now accounts s) = Inr aid \<Longrightarrow>
   activeAccountID (snd (ensureActiveAccountLocked now accounts s)) = aid"
  by (rule ensure_result [of now accounts s]) (simp add: prod_eq_iff)

lemma persist_ensured_synced:
  "fst (ensureActiveAccountLocked now accounts s) = Inr aid \<Longrightarrow> routeSynced s \<Longrightarrow>
   routeSynced (snd (persistActiveAccountLocked now' aid (snd (ensureActiveAccountLocked now accounts s))))"
  using ensure_id [of now accounts s aid] persist_any_synced [OF ensure_synced_snd [of s now accounts], of now']
  by simp

lemma persist_ensured_failure_synced:
  "fst (ensureActiveAccountLocked now accounts s) = Inr aid \<Longrightarrow> routeSynced s \<Longrightarrow>
   routeSynced (snd (persistActiveAccountLocked now' aid
     (poolFailure now' aid' e (snd (ensureActiveAccountLocked now accounts s)))))"
  using ensure_id [of now accounts s aid]
    persist_any_synced [of "poolFailure now' aid' e (snd (ensureActiveAccountLocked now accounts s))" now']
    ensure_synced_snd [of s now accounts] by simp

lemma mark_synced: "routeSynced s \<Longrightarrow> routeSynced (snd (markAccountResult now aid err s))"
  unfolding markAccountResult_def Let_def case_prod_beta
  by (auto split: sum.split option.split intro!: synced_intros)

lemma recordWithout_synced:
  "routeSynced s \<Longrightarrow> routeSynced (recordAccountFailureWithoutAdvance now aid err s)"
  unfolding recordAccountFailureWithoutAdvance_def Let_def case_prod_beta
  by (auto intro!: synced_intros)

lemma delete_synced: "routeSynced s \<Longrightarrow> routeSynced (snd (deleteAccountToken fmt now aid s))"
  unfolding deleteAccountToken_def Let_def case_prod_beta
  by (auto split: sum.split option.split intro!: synced_intros)

lemma clearAuth_synced:
  "routeSynced s \<Longrightarrow> routeSynced (snd (clearAuthFailureAfterCredentialUpdate now aid s))"
  unfolding clearAuthFailureAfterCredentialUpdate_def Let_def
  using persist_any_synced [of "s\<lparr>accountPool := ClearAuthFailure (TrimSpace aid) (accountPool s)\<rparr>" now]
  by simp

lemma sync_synced: "routeSynced s \<Longrightarrow> routeSynced (snd (syncActiveAccount now s))"
  unfolding syncActiveAccount_def case_prod_beta
  by (auto split: sum.split intro!: synced_intros)

lemma lease_synced:
  "routeSynced s \<Longrightarrow> routeSynced (snd (beginActiveAccountCall now ctx aid s))"
  "routeSynced s \<Longrightarrow> routeSynced (snd (beginActiveAccountRequest now ctx aid s))"
  "routeSynced s \<Longrightarrow> routeSynced (releaseLease l s)"
  "routeSynced s \<Longrightarrow> routeSynced (cancelActiveLeasesLocked s)"
  unfolding beginActiveAccountCall_def beginActiveAccountRequest_def releaseLease_def
    cancelActiveLeasesLocked_def newLease_def Let_def case_prod_beta
  by (auto split: sum.split option.split intro!: synced_intros)

lemma resolve_synced:
  "keepsRoute (reOthers env) \<Longrightarrow> routeSynced s \<Longrightarrow> routeSynced (snd (resolveActiveAccount env s))"
  unfolding resolveActiveAccount_def Let_def case_prod_beta
  by (auto split: sum.split option.split intro!: synced_intros)

lemma resolveWithout_synced:
  "keepsRoute (reOthers env) \<Longrightarrow> routeSynced s \<Longrightarrow>
   routeSynced (snd (resolveActiveAccountWithoutAdvance env s))"
  unfolding resolveActiveAccountWithoutAdvance_def Let_def case_prod_beta
  by (auto split: sum.split option.split intro!: synced_intros simp: ensure_id)

lemma refresh_synced:
  "keepsRoute (reOthers env) \<Longrightarrow> routeSynced s \<Longrightarrow> routeSynced (snd (refreshActiveAccount env aid s))"
  unfolding refreshActiveAccount_def Let_def case_prod_beta
  by (auto split: sum.split option.split intro!: synced_intros)

lemma request_synced:
  "keepsRoute (reOthers env1) \<Longrightarrow> keepsRoute (reOthers env2) \<Longrightarrow> routeSynced s \<Longrightarrow>
   routeSynced (snd (resolveRequestAccount env1 env2 aid explicit s))"
  unfolding resolveRequestAccount_def Let_def case_prod_beta
  by (auto split: sum.split intro!: resolve_synced resolveWithout_synced)

text \<open>The operations of the router as data.\<close>

datatype routerOp =
    RopSync gotime
  | RopResolve routeEnv
  | RopResolveRequest routeEnv routeEnv string bool
  | RopRefresh routeEnv string
  | RopResult gotime string "goerror option"
  | RopFailureWithoutAdvance gotime string goerror
  | RopDelete "gotime \<Rightarrow> string option" gotime string
  | RopCredentialUpdate gotime string
  | RopBeginCall gotime callContext string
  | RopBeginRequest gotime callContext string
  | RopRelease "64 word option"
  | RopCancelLeases

fun routerExec :: "routerOp \<Rightarrow> server \<Rightarrow> server" where
  "routerExec (RopSync now) s = snd (syncActiveAccount now s)"
| "routerExec (RopResolve env) s = snd (resolveActiveAccount env s)"
| "routerExec (RopResolveRequest env1 env2 aid ex) s = snd (resolveRequestAccount env1 env2 aid ex s)"
| "routerExec (RopRefresh env aid) s = snd (refreshActiveAccount env aid s)"
| "routerExec (RopResult now aid err) s = snd (markAccountResult now aid err s)"
| "routerExec (RopFailureWithoutAdvance now aid err) s = recordAccountFailureWithoutAdvance now aid err s"
| "routerExec (RopDelete fmt now aid) s = snd (deleteAccountToken fmt now aid s)"
| "routerExec (RopCredentialUpdate now aid) s = snd (clearAuthFailureAfterCredentialUpdate now aid s)"
| "routerExec (RopBeginCall now ctx aid) s = snd (beginActiveAccountCall now ctx aid s)"
| "routerExec (RopBeginRequest now ctx aid) s = snd (beginActiveAccountRequest now ctx aid s)"
| "routerExec (RopRelease l) s = releaseLease l s"
| "routerExec RopCancelLeases s = cancelActiveLeasesLocked s"

text \<open>What runs while an operation has released the lock keeps the invariant itself.\<close>

fun routerQuiet :: "routerOp \<Rightarrow> bool" where
  "routerQuiet (RopResolve env) = keepsRoute (reOthers env)"
| "routerQuiet (RopResolveRequest env1 env2 _ _) = (keepsRoute (reOthers env1) \<and> keepsRoute (reOthers env2))"
| "routerQuiet (RopRefresh env _) = keepsRoute (reOthers env)"
| "routerQuiet _ = True"

lemmas router_synced =
  sync_synced resolve_synced request_synced refresh_synced mark_synced recordWithout_synced
  delete_synced clearAuth_synced lease_synced

interpretation router: op_system routerExec routerQuiet routeSynced
proof
  fix op s assume "routerQuiet op" and "routeSynced s"
  then show "routeSynced (routerExec op s)" by (cases op) (simp_all add: router_synced)
qed

subsection \<open>The breaker across finished calls\<close>

definition breakerOf :: "server \<Rightarrow> (string, gotime) gomap \<times> gotime" where
  "breakerOf s = (sharedFailureAccounts s, upstreamCircuitUntil s)"

lemma rest_breaker: "sameRest s t \<Longrightarrow> breakerOf t = breakerOf s"
  by (simp add: sameRest_def breakerOf_def)

lemma persist_breaker [simp]: "breakerOf (snd (persistActiveAccountLocked n a u)) = breakerOf u"
  by (rule rest_breaker) (rule conjunct1 [OF persist_snd_frame])

lemma advance_breaker [simp]: "breakerOf (snd (advanceActiveAccountLocked n a l u)) = breakerOf u"
  by (rule rest_breaker, rule advance_frame [of n a l u "fst (advanceActiveAccountLocked n a l u)"]) simp

lemma ensure_breaker [simp]: "breakerOf (snd (ensureActiveAccountLocked n l u)) = breakerOf u"
  by (rule rest_breaker, rule ensure_frame [of n l u "fst (ensureActiveAccountLocked n l u)"]) simp

lemma pool_breaker [simp]:
  "breakerOf (poolFailure n a e u) = breakerOf u"
  "breakerOf (u\<lparr>accountPool := h\<rparr>) = breakerOf u"
  by (simp_all add: breakerOf_def)

lemma observe_breaker [simp]:
  "breakerOf (snd (observeSharedFailureLocked a e n (poolFailure n' a' e' s))) =
   breakerOf (snd (observeSharedFailureLocked a e n s))"
  by (simp add: observeSharedFailureLocked_def Let_def breakerOf_def poolFailure_def)

lemma mark_breaker_shared:
  assumes "IsUpstreamAccountFailure (Some e)" and "\<not> IsDisengaged (Some e)" and "TrimSpace aid \<noteq> []"
  shows "breakerOf (snd (markAccountResult now aid (Some e) s))
     = breakerOf (snd (observeSharedFailureLocked (TrimSpace aid) e now s))"
  unfolding markAccountResult_def Let_def case_prod_beta
  using assms by simp

lemma mark_breaker_other:
  assumes "err = None \<or> \<not> IsUpstreamAccountFailure err \<or> IsDisengaged err \<or> TrimSpace aid = []"
  shows "breakerOf (snd (markAccountResult now aid err s)) = breakerOf s"
  unfolding markAccountResult_def Let_def case_prod_beta
  using assms by (auto simp del: poolFailure_frame split: option.split sum.split)

definition onlyFrom :: "string \<Rightarrow> server \<Rightarrow> bool" where
  "onlyFrom aid s \<longleftrightarrow> wf_map (sharedFailureAccounts s) \<and> fst ` set (sharedFailureAccounts s) \<subseteq> {aid}"

lemma mark_onlyFrom:
  assumes "onlyFrom (TrimSpace aid) s"
  shows "onlyFrom (TrimSpace aid) (snd (markAccountResult now aid err s))
    \<and> upstreamCircuitUntil (snd (markAccountResult now aid err s)) = upstreamCircuitUntil s"
proof (cases "err = None \<or> \<not> IsUpstreamAccountFailure err \<or> IsDisengaged err \<or> TrimSpace aid = []")
  case True
  from mark_breaker_other [OF this] assms show ?thesis by (simp add: breakerOf_def onlyFrom_def)
next
  case False
  then obtain e where "err = Some e" by auto
  with False have b: "breakerOf (snd (markAccountResult now aid err s))
          = breakerOf (snd (observeSharedFailureLocked (TrimSpace aid) e now s))"
    by (simp add: mark_breaker_shared)
  from observe_single [of s "TrimSpace aid" e now "fst (observeSharedFailureLocked (TrimSpace aid) e now s)"
      "snd (observeSharedFailureLocked (TrimSpace aid) e now s)"] assms b
  show ?thesis by (simp add: breakerOf_def onlyFrom_def)
qed

lemma shared_is_account_failure_cases:
  "isSharedUpstreamFailure (Some e) \<Longrightarrow> \<not> IsDisengaged (Some e) \<and> IsTransientUpstream (Some e)"
  by (auto simp: isSharedUpstreamFailure_def split: if_splits)

text \<open>A shared failure is on record after it has been observed.\<close>

lemma observe_records:
  assumes "isSharedUpstreamFailure (Some e)"
  shows "map_of (sharedFailureAccounts (snd (observeSharedFailureLocked aid e now s))) aid = Some now
    \<and> (wf_map (sharedFailureAccounts s) \<longrightarrow>
        wf_map (sharedFailureAccounts (snd (observeSharedFailureLocked aid e now s))))"
  using assms by (auto simp: observeSharedFailureLocked_def Let_def)

lemma mark_records:
  assumes "isSharedUpstreamFailure (Some e)" and "IsUpstreamAccountFailure (Some e)"
    and "TrimSpace aid \<noteq> []" and "wf_map (sharedFailureAccounts s)"
  shows "map_of (sharedFailureAccounts (snd (markAccountResult now aid (Some e) s))) (TrimSpace aid) = Some now
    \<and> wf_map (sharedFailureAccounts (snd (markAccountResult now aid (Some e) s)))"
  using mark_breaker_shared [OF assms(2) _ assms(3), of now s] observe_records [OF assms(1), of "TrimSpace aid" now s]
    shared_is_account_failure_cases [OF assms(1)] assms(4)
  by (simp add: breakerOf_def)

lemma mark_opened:
  assumes "fst (observeSharedFailureLocked (TrimSpace aid) e now s)"
    and "IsUpstreamAccountFailure (Some e)" and "\<not> IsDisengaged (Some e)" and "TrimSpace aid \<noteq> []"
  shows "\<not> fst (markAccountResult now aid (Some e) s)
    \<and> sameRoute s (snd (markAccountResult now aid (Some e) s))
    \<and> tokens (snd (markAccountResult now aid (Some e) s)) = tokens s"
proof -
  define u where "u = observeSharedFailureLocked (TrimSpace aid) e now (poolFailure now (TrimSpace aid) e s)"
  have f: "fst u" using assms(1)
    by (simp add: u_def observeSharedFailureLocked_def Let_def poolFailure_def split: if_splits)
  have fr: "sameRoute s (snd u) \<and> tokens (snd u) = tokens s"
    using observe_frame [of "TrimSpace aid" e now "poolFailure now (TrimSpace aid) e s" "fst u" "snd u"]
    by (simp add: u_def sameRoute_def)
  have m: "markAccountResult now aid (Some e) s
     = (False, snd (persistActiveAccountLocked now (activeAccountID (snd u)) (snd u)))"
    unfolding markAccountResult_def Let_def case_prod_beta using assms(2-4) f unfolding u_def by simp
  show ?thesis using m fr persist_snd_frame [of "snd u" now "activeAccountID (snd u)"]
    by (auto simp: sameRoute_def sameRest_def)
qed

end
