(* ===== verification/RouterProps.thy ===== *)
theory RouterProps
  imports RouterSystem
begin

text \<open>
  What the account router promises: the order of rotation, who may rotate, the breaker, what a
  resolution returns, leases, deletion, and the agreement with the route file across a restart.
  The witnesses run the definitions on a pool of three accounts.
\<close>

subsection \<open>A pool for the witnesses\<close>

definition exAccount :: "string \<Rightarrow> accountToken" where
  "exAccount i = emptyAccount\<lparr>accID := i, accAccessToken := ''t'', accExpiresAt := hours 24\<rparr>"

definition exTokens :: tokenStore where
  "exTokens = \<lparr>tokAccounts = map exAccount [''a'', ''b'', ''c''], tokFile = File None [],
               tokInflight = [], tokBackoff = []\<rparr>"

definition exServer :: server where
  "exServer = \<lparr>activeAccountID = ''a'', activeAccountGeneration = 1, nextAccountLeaseID = 0,
     activeAccountLeases = [], cancelledLeases = [], sharedFailureAccounts = [],
     upstreamCircuitUntil = zeroTime, accountRoutePath = ''route.json'', routeFile = File None [],
     tokens = exTokens, accountPool = newAccountHealth, policyRefusals = [], accountStats = [],
     statsDirty = False\<rparr>"

definition exEnv :: routeEnv where
  "exEnv = \<lparr>reNow1 = seconds 10, reNow2 = seconds 11,
     reToken = \<lparr>envStart = seconds 10, envEnd = seconds 11, envNet = \<lambda>_. RefreshError expiredError,
                envJoined = (emptyAccount, None), envOthers = id, envBetween = \<lambda>_. id, envFormat = \<lambda>_. None,
                envClientID = [], envStamp = [],
                envRFC3339 = \<lambda>_. []\<rparr>,
     reOthers = id\<rparr>"

lemmas ex_defs = exServer_def exTokens_def exAccount_def exEnv_def emptyAccount_def

lemma ex_ids [simp]: "ids (List (tokens exServer)) = [''a'', ''b'', ''c'']"
  and ex_active [simp]: "activeAccountID exServer = ''a''"
  by (simp_all add: ex_defs)

lemma ex_good [simp]: "goodIDs (List (tokens exServer))"
  unfolding goodIDs_def ex_ids by code_simp

subsection \<open>Rotation\<close>

text \<open>C1: an advance of the active account is a compare-and-swap over a fixed cyclic order. It
  takes effect only when the account that failed is still the active one; it then selects the
  first available account behind it in the order of the account list, with everything in
  between unavailable, counts one generation, and has written the selection to the route file.
  Without an error it stays put only for a stale failure or when no other account is available;
  with an error neither memory nor the file has moved.\<close>

theorem advance_first_available:
  assumes good: "goodIDs accounts" and order: "ids accounts = front @ activeAccountID s # back"
    and path: "\<not> blank (accountRoutePath s)"
    and adv: "advanceActiveAccountLocked now failedID accounts s = ((moved, err), t)"
  shows "if moved then err = None \<and> failedID = activeAccountID s
            \<and> (\<exists>pre post. back @ front = pre @ activeAccountID t # post
                  \<and> (\<forall>a \<in> set pre. \<not> Available now (accountPool s) a)
                  \<and> Available now (accountPool s) (activeAccountID t))
            \<and> activeAccountGeneration t = activeAccountGeneration s + 1
            \<and> (\<exists>st. contents (routeFile t) = Some st \<and> rsActiveAccountID st = activeAccountID t
                  \<and> rsRouteGeneration st = activeAccountGeneration t)
         else case err of
             None \<Rightarrow> t = s \<and> (failedID \<noteq> activeAccountID s
                       \<or> (\<forall>a \<in> set front \<union> set back. \<not> Available now (accountPool s) a))
           | Some e \<Rightarrow> sameRoute s t \<and> contents (routeFile t) = contents (routeFile s)"
proof (cases "failedID = activeAccountID s")
  case False
  have "activeAccountID s \<in> set (ids accounts)" by (simp add: order del: set_map)
  from advance_stale [OF this False] adv False show ?thesis by auto
next
  case True
  have dis: "distinct (front @ activeAccountID s # back)"
    and trims: "\<forall>i \<in> set (ids accounts). TrimSpace i = i" using good order by (simp_all add: goodIDs_def)
  then have idx: "accountIndexByID accounts (activeAccountID s) = Some (length front)"
    by (intro find_ids [OF order]) auto
  let ?rot = "drop (Suc (length front)) accounts @ take (length front) accounts"
  have rot: "ids ?rot = back @ front"
    using arg_cong [OF order, of "drop (Suc (length front))"] arg_cong [OF order, of "take (length front)"]
    by (simp add: drop_map take_map)
  note adv' = adv [unfolded True advance_active [OF good idx]]
  show ?thesis
  proof (cases "find (\<lambda>c. Available now (accountPool s) (accID c)) ?rot")
    case None
    from find_map_ids_None [OF this] have "\<forall>a \<in> set (back @ front). \<not> Available now (accountPool s) a"
      unfolding rot find_None_iff by blast
    with adv' None show ?thesis by auto
  next
    case (Some c)
    from find_first [OF find_map_ids [OF Some, unfolded rot]] obtain pre post
      where pre: "back @ front = pre @ accID c # post" "\<forall>a \<in> set pre. \<not> Available now (accountPool s) a"
        "Available now (accountPool s) (accID c)" by blast
    have cin: "accID c \<in> set (back @ front)" using pre(1) by simp
    then have trim: "TrimSpace (accID c) = accID c" using trims order by (auto simp del: set_map)
    have ne: "accID c \<noteq> activeAccountID s" using dis cin by auto
    obtain e u where act: "activateAccountLocked now (accID c) s = (e, u)" by force
    show ?thesis
    proof (cases e)
      case None
      then have "moved = True" "err = None" "t = u" using adv' Some act by simp_all
      then show ?thesis using activate_ok [OF act [unfolded None]] activate_file [OF act [unfolded None] _ path]
          pre trim ne True by auto
    next
      case (Some x)
      then have "moved = False" "err = Some x" "t = u"
        using adv' \<open>find _ _ = Some c\<close> act by simp_all
      then show ?thesis using activate_error [OF act [unfolded Some]] activate_file_error [OF act [unfolded Some]]
        by simp
    qed
  qed
qed

definition exResting :: server where
  "exResting = exServer\<lparr>accountPool := MarkAuthFail ''b'' newAccountHealth\<rparr>"

theorem advance_first_available_witness:
  "activeAccountGeneration (snd (advanceActiveAccountLocked (seconds 10) ''a''
      (List (tokens exServer)) exResting)) = 2"
proof -
  define r where "r = advanceActiveAccountLocked (seconds 10) ''a'' (List (tokens exServer)) exResting"
  have order: "ids (List (tokens exServer)) = [] @ activeAccountID exResting # [''b'', ''c'']"
    by (simp add: exResting_def)
  have path: "\<not> blank (accountRoutePath exResting)" by code_simp
  have "fst (advanceActiveAccountLocked (seconds 10) ''a'' (List (tokens exServer)) exResting) = (True, None)"
    by code_simp
  then have adv: "advanceActiveAccountLocked (seconds 10) ''a'' (List (tokens exServer)) exResting
      = ((True, None), snd r)" by (simp add: prod_eq_iff r_def)
  from advance_first_available [OF ex_good order path adv]
  show ?thesis unfolding r_def by (simp add: exResting_def exServer_def)
qed

subsection \<open>Results of calls\<close>

text \<open>C2: a finished call moves the route only when it is an account failure of the active account
  while the breaker is closed; the route then points to another account of the list that is
  available, one generation further. Every other result (success, local error, policy refusal, a
  failure of an account that is no longer active) leaves identity and generation alone.\<close>

theorem result_moves_route:
  assumes "goodIDs (List (tokens s))" and "activeAccountID s \<in> set (ids (List (tokens s)))"
  shows "case markAccountResult now aid err s of (rotated, t) \<Rightarrow>
      if rotated
      then IsUpstreamAccountFailure err \<and> \<not> IsDisengaged err \<and> TrimSpace aid = activeAccountID s
           \<and> \<not> upstreamCircuitOpenLocked now s \<and> movesTo now s t
      else sameRoute s t"
proof (cases "markAccountResult now aid err s")
  case (Pair rotated t)
  from markAccountResult_cases [OF Pair assms] Pair show ?thesis by auto
qed

definition exRateLimit :: goerror where
  "exRateLimit = plainError ''http 429''"

theorem result_moves_route_witness:
  "movesTo (seconds 10) exServer (snd (markAccountResult (seconds 10) ''a'' (Some exRateLimit) exServer))"
proof -
  define r where "r = markAccountResult (seconds 10) ''a'' (Some exRateLimit) exServer"
  have "fst (markAccountResult (seconds 10) ''a'' (Some exRateLimit) exServer)" by code_simp
  then have "fst r" by (simp add: r_def)
  moreover have "activeAccountID exServer \<in> set (ids (List (tokens exServer)))" by simp
  ultimately show ?thesis
    using result_moves_route [OF ex_good, where now = "seconds 10" and aid = "''a''" and err = "Some exRateLimit"]
    unfolding r_def [symmetric] by (simp add: case_prod_beta)
qed

text \<open>A policy refusal is about the prompt: it never rotates the route and never touches the
  breaker, and it rests the account for twelve minutes without touching any other account.\<close>

lemma policy_refusal_rests:
  assumes "IsDisengaged err" and "TrimSpace aid \<noteq> []"
  shows "\<not> fst (markAccountResult now aid err s)
    \<and> sameRoute s (snd (markAccountResult now aid err s))
    \<and> breakerOf (snd (markAccountResult now aid err s)) = breakerOf s
    \<and> (\<forall>t. Available t (accountPool (snd (markAccountResult now aid err s))) b \<longleftrightarrow>
         Available t (accountPool s) b \<and> (b = TrimSpace aid \<longrightarrow> now + minutes 12 \<le> t))"
proof -
  from assms(1) obtain e where e: "err = Some e" by (cases err) (auto simp: IsDisengaged_def)
  have m: "markAccountResult now aid err s
     = (False, snd (persistActiveAccountLocked now (activeAccountID s) (poolFailure now (TrimSpace aid) e s)))"
    using assms e by (simp add: markAccountResult_def Let_def)
  define u where "u = snd (persistActiveAccountLocked now (activeAccountID s) (poolFailure now (TrimSpace aid) e s))"
  have "sameRoute s u" and pool: "accountPool u = recordAccountFailureHealth now (TrimSpace aid) e (accountPool s)"
    using persist_snd_frame [of "poolFailure now (TrimSpace aid) e s" now "activeAccountID s"]
    unfolding u_def [symmetric] sameRoute_def sameRest_def by simp_all
  moreover have "breakerOf u = breakerOf s" by (simp add: u_def)
  moreover have "restUntil now e = Some (now + minutes 12)"
    using assms(1) e by (simp add: restUntil_def disengagedCooldown_def)
  ultimately show ?thesis unfolding m u_def [symmetric] fst_conv snd_conv pool recordFailure_Available by simp
qed

lemma policy_refusal_rests_witness:
  "\<not> Available (minutes 5) (accountPool (snd (markAccountResult 0 ''a'' (Some disengagedError) exServer))) ''a''"
proof -
  have "IsDisengaged (Some disengagedError)" and "TrimSpace ''a'' \<noteq> []" by code_simp+
  moreover have "TrimSpace ''a'' = ''a''" "\<not> 0 + minutes 12 \<le> minutes 5" by code_simp+
  ultimately show ?thesis using policy_refusal_rests [of "Some disengagedError" "''a''" 0 exServer "''a''"] by metis
qed

subsection \<open>The breaker\<close>

text \<open>Failures that all come from one account never open the shared breaker, however many there
  are and whatever they say.\<close>

lemma one_account_never_opens:
  assumes "onlyFrom (TrimSpace aid) s"
  shows "upstreamCircuitUntil (fold (\<lambda>(now, err) u. snd (markAccountResult now aid err u)) results s)
       = upstreamCircuitUntil s"
proof -
  have "onlyFrom (TrimSpace aid) (fold (\<lambda>(now, err) u. snd (markAccountResult now aid err u)) results s)
    \<and> upstreamCircuitUntil (fold (\<lambda>(now, err) u. snd (markAccountResult now aid err u)) results s)
      = upstreamCircuitUntil s"
    using assms by (induction results arbitrary: s) (auto simp: mark_onlyFrom)
  then show ?thesis by simp
qed

definition exTransient :: goerror where
  "exTransient = plainError ''http 503 service unavailable''"

lemma one_account_never_opens_witness:
  "upstreamCircuitUntil (fold (\<lambda>(now, err) u. snd (markAccountResult now ''a'' err u))
     [(1, Some exTransient), (2, Some exTransient)] exServer) = zeroTime"
proof -
  have "onlyFrom (TrimSpace ''a'') exServer" by (simp add: onlyFrom_def exServer_def)
  from one_account_never_opens [OF this, of "[(1, Some exTransient), (2, Some exTransient)]"]
  show ?thesis by (simp add: exServer_def)
qed

text \<open>C3: two shared upstream failures of different accounts within twelve seconds open the breaker
  for twenty seconds: the second result does not rotate the route, and every resolution inside
  that time is refused with the circuit error and no change of state, so no further account is
  tried.\<close>

theorem two_accounts_open_breaker:
  assumes first_shared: "isSharedUpstreamFailure (Some e1)" "IsUpstreamAccountFailure (Some e1)"
    and second_shared: "isSharedUpstreamFailure (Some e2)" "IsUpstreamAccountFailure (Some e2)"
    and accounts: "TrimSpace a1 \<noteq> []" "TrimSpace a2 \<noteq> []" "TrimSpace a1 \<noteq> TrimSpace a2"
    and times: "now2 - now1 \<le> seconds 12" "0 < now2"
    and wf: "wf_map (sharedFailureAccounts s)"
    and u: "u = snd (markAccountResult now1 a1 (Some e1) s)"
    and t: "t = snd (markAccountResult now2 a2 (Some e2) u)"
  shows "\<not> fst (markAccountResult now2 a2 (Some e2) u) \<and> sameRoute u t
    \<and> (now2 \<le> reNow1 env \<and> reNow1 env < now2 + seconds 20
        \<and> activeAccountID t \<in> set (ids (List (tokens t))) \<and> activeAccountID t \<noteq> [] \<longrightarrow>
       resolveActiveAccount env t = (Inl errUpstreamCircuitOpen, t))"
proof -
  have d2: "\<not> IsDisengaged (Some e2)" using shared_is_account_failure_cases [OF second_shared(1)] by simp
  have rec: "map_of (sharedFailureAccounts u) (TrimSpace a1) = Some now1"
    and wfu: "wf_map (sharedFailureAccounts u)"
    using mark_records [OF first_shared accounts(1) wf] u by simp_all
  have open2: "fst (observeSharedFailureLocked (TrimSpace a2) e2 now2 u)"
    and until: "now2 + upstreamCircuitRest
      \<le> upstreamCircuitUntil (snd (observeSharedFailureLocked (TrimSpace a2) e2 now2 u))"
    using observe_two [OF second_shared(1) wfu rec accounts(3)] times
    by (simp_all add: sharedFailureWindow_def)
  have "now2 + upstreamCircuitRest \<le> upstreamCircuitUntil t"
    using until mark_breaker_shared [OF second_shared(2) d2 accounts(2), of now2 u] t
    by (simp add: breakerOf_def)
  then have "upstreamCircuitOpenLocked (reNow1 env) t" if "reNow1 env < now2 + seconds 20"
    using that times(2) by (auto simp: upstreamCircuitOpenLocked_def upstreamCircuitRest_def seconds_def)
  then show ?thesis
    using mark_opened [OF open2 second_shared(2) d2 accounts(2)] t resolve_circuit [of t env] by blast
qed

definition exOpened :: server where
  "exOpened = snd (markAccountResult (seconds 7) ''b'' (Some exTransient)
                (snd (markAccountResult (seconds 5) ''a'' (Some exTransient) exServer)))"

theorem two_accounts_open_breaker_witness:
  "resolveActiveAccount exEnv exOpened = (Inl errUpstreamCircuitOpen, exOpened)"
proof -
  have shared: "isSharedUpstreamFailure (Some exTransient)" "IsUpstreamAccountFailure (Some exTransient)"
    by code_simp+
  have names: "TrimSpace ''a'' \<noteq> []" "TrimSpace ''b'' \<noteq> []" "TrimSpace ''a'' \<noteq> TrimSpace ''b''"
    by code_simp+
  have times: "seconds 7 - seconds 5 \<le> seconds 12" "0 < seconds 7" by (simp_all add: seconds_def)
  have wf: "wf_map (sharedFailureAccounts exServer)" by (simp add: exServer_def)
  have mem: "activeAccountID exOpened \<in> set (ids (List (tokens exOpened)))" "activeAccountID exOpened \<noteq> []"
    by code_simp+
  have clock: "seconds 7 \<le> reNow1 exEnv" "reNow1 exEnv < seconds 7 + seconds 20"
    by (simp_all add: exEnv_def seconds_def)
  from two_accounts_open_breaker [OF shared shared names times wf refl exOpened_def, of exEnv] mem clock
  show ?thesis by blast
qed

subsection \<open>Resolution\<close>

text \<open>C4: a resolution that succeeds returns the token the store has just validated for the account
  that was active when it began, and only if the breaker was closed, the account was available,
  and identity and generation are the same after the network call as before it; it counts one
  call for that account.\<close>

theorem resolve_returns_active:
  assumes res: "resolveActiveAccount env s = (Inr tok, t)"
    and mem: "activeAccountID s \<in> set (ids (List (tokens s)))"
  shows "\<not> upstreamCircuitOpenLocked (reNow1 env) s
    \<and> Available (reNow1 env) (accountPool s) (activeAccountID s)
    \<and> fst (EnsureValid (reToken env) (activeAccountID s) (tokens s)) = (tok, None)
    \<and> activeAccountID t = activeAccountID s \<and> activeAccountGeneration t = activeAccountGeneration s
    \<and> (\<exists>u. sameRest (reOthers env (s\<lparr>tokens := snd (EnsureValid (reToken env) (activeAccountID s) (tokens s))\<rparr>)) u
          \<and> t = bumpAccountStats (activeAccountID s) u)"
proof -
  obtain ts u where ev: "EnsureValid (reToken env) (activeAccountID s) (tokens s) = ((tok, None), ts)"
    and en: "ensureActiveAccountLocked (reNow2 env) (List (tokens (reOthers env (s\<lparr>tokens := ts\<rparr>))))
           (reOthers env (s\<lparr>tokens := ts\<rparr>)) = (Inr (activeAccountID s), u)"
    and t: "t = bumpAccountStats (activeAccountID s) u"
    and same: "activeAccountID t = activeAccountID s" "activeAccountGeneration t = activeAccountGeneration s"
    by (rule resolveActiveAccount_granted [OF res mem])
  have "sameRest (reOthers env (s\<lparr>tokens := snd (EnsureValid (reToken env) (activeAccountID s) (tokens s))\<rparr>)) u"
    using ensure_frame [OF en] by (simp only: ev snd_conv)
  moreover have "fst (EnsureValid (reToken env) (activeAccountID s) (tokens s)) = (tok, None)"
    by (simp only: ev fst_conv)
  ultimately show ?thesis using resolve_needs [OF mem res] same t by blast
qed

theorem resolve_returns_active_witness:
  "fst (EnsureValid (reToken exEnv) ''a'' (tokens exServer)) = (exAccount ''a'', None)"
proof -
  have ev: "resolveActiveAccount exEnv exServer =
      (Inr (exAccount ''a''), snd (resolveActiveAccount exEnv exServer))"
  proof -
    have "fst (resolveActiveAccount exEnv exServer) = Inr (exAccount ''a'')"
      by code_simp
    then show ?thesis by (simp add: prod_eq_iff)
  qed
  have "activeAccountID exServer \<in> set (ids (List (tokens exServer)))" by simp
  from resolve_returns_active [OF ev this] show ?thesis by simp
qed

text \<open>A request that names an account explicitly is served by that account or not at all, and a
  request that leaves the account it was bound to is told so.\<close>

lemma request_account_choice:
  assumes "resolveRequestAccount env1 env2 accountID explicit s = (Inr (acc, switched), t)"
  shows "(explicit \<and> TrimSpace accountID \<noteq> [] \<longrightarrow> accID acc = TrimSpace accountID)
    \<and> (\<not> switched \<longrightarrow> (TrimSpace accountID = [] \<or> accID acc = TrimSpace accountID)
        \<and> (\<exists>u. resolveActiveAccount env1 s = (Inr acc, u)))"
  using assms
  by (auto simp: resolveRequestAccount_def Let_def case_prod_beta prod_eq_iff split: sum.splits if_splits)

lemma request_account_choice_witness:
  "accID (exAccount ''a'') = TrimSpace ''a''"
proof -
  have "fst (resolveRequestAccount exEnv exEnv ''a'' True exServer) = Inr (exAccount ''a'', False)"
    by code_simp
  then have "resolveRequestAccount exEnv exEnv ''a'' True exServer
     = (Inr (exAccount ''a'', False), snd (resolveRequestAccount exEnv exEnv ''a'' True exServer))"
    by (simp add: prod_eq_iff)
  moreover have "TrimSpace ''a'' \<noteq> []" by code_simp
  ultimately show ?thesis using request_account_choice [of exEnv exEnv "''a''" True exServer] by blast
qed

subsection \<open>The route file\<close>

text \<open>C5: whatever sequence of router operations runs, and whichever of their file writes fail, the
  route file names the account that is active in memory, provided it did so at the start (and the
  requests that run while an operation has released the lock are router operations too).\<close>

theorem route_file_follows_memory:
  assumes "\<forall>op \<in> set ops. routerQuiet op" and "routeSynced s"
  shows "routeSynced (fold routerExec ops s)"
  using assms by (rule router.run_inv)

definition exOps :: "routerOp list" where
  "exOps = [RopSync 1, RopResult 2 ''a'' (Some exRateLimit), RopDelete (\<lambda>_. Some []) 3 ''b'', RopCancelLeases]"

definition exFailing :: server where
  "exFailing = exServer\<lparr>activeAccountID := [], routeFile := File None [True, False, True]\<rparr>"

theorem route_file_follows_memory_witness:
  "routeSynced (fold routerExec exOps exFailing)"
proof -
  have "\<forall>op \<in> set exOps. routerQuiet op" by (simp add: exOps_def)
  moreover have "routeSynced exFailing" by (simp add: routeSynced_def exFailing_def)
  ultimately show ?thesis by (rule route_file_follows_memory)
qed

subsection \<open>Deletion\<close>

lemma filter_one_out:
  "map f xs = front @ v # back \<Longrightarrow> v \<notin> set front \<Longrightarrow> v \<notin> set back \<Longrightarrow>
   map f (filter (\<lambda>x. f x \<noteq> v) xs) = front @ back"
proof -
  assume m: "map f xs = front @ v # back" and n: "v \<notin> set front" "v \<notin> set back"
  have "map f (filter (\<lambda>x. f x \<noteq> v) xs) = filter (\<lambda>y. y \<noteq> v) (map f xs)"
    by (simp add: filter_map comp_def)
  also have "\<dots> = filter (\<lambda>y. y \<noteq> v) front @ filter (\<lambda>y. y \<noteq> v) back" using m by simp
  also have "filter (\<lambda>y. y \<noteq> v) front = front" using n(1) by (induction front) auto
  also have "filter (\<lambda>y. y \<noteq> v) back = back" using n(2) by (induction "back") auto
  finally show ?thesis .
qed

text \<open>Deleting the active account removes exactly that account and hands the route to its
  successor in the list, wrapping to the first account; without other accounts the route is
  empty.\<close>

lemma delete_active_selects_next:
  assumes good: "goodIDs (List (tokens s))"
    and order: "ids (List (tokens s)) = front @ activeAccountID s # back"
    and del: "deleteAccountToken fmt now (activeAccountID s) s = (None, t)"
  shows "ids (List (tokens t)) = front @ back
    \<and> activeAccountID t = (case back @ front of [] \<Rightarrow> [] | next # _ \<Rightarrow> next)
    \<and> activeAccountGeneration t = activeAccountGeneration s + 1"
proof -
  have dis: "distinct (front @ activeAccountID s # back)"
    and trims: "\<forall>i \<in> set (ids (List (tokens s))). TrimSpace i = i \<and> i \<noteq> []"
    using good order by (simp_all add: goodIDs_def)
  have mem: "activeAccountID s \<in> set (ids (List (tokens s)))" by (simp add: order del: set_map)
  have ne: "activeAccountID s \<noteq> []" using trims mem by blast
  have idx: "accountIndexByID (List (tokens s)) (activeAccountID s) = Some (length front)"
    using dis by (intro find_ids [OF order]) auto
  obtain ok ts where d: "Delete fmt (activeAccountID s) (tokens s) = (ok, ts)" by force
  have ok: "ok" using del d mem
    by (auto simp: deleteAccountToken_def Let_def simp del: set_map split: if_splits)
  define rest where "rest = List ts"
  have rest: "ids rest = front @ back"
    using commitAccounts_ok [of fmt "filter (\<lambda>a. accID a \<noteq> activeAccountID s) (List (tokens s))" "tokens s" ts] d ok
      filter_one_out [OF order] dis
    by (simp add: Delete_def rest_def)
  let ?s2 = "s\<lparr>tokens := ts\<rparr>"
  define target where
    "target = (if rest = [] then [] else accID (rest ! (length front mod length rest)))"
  have act: "activateAccountLocked now target ?s2 = (None, t)"
    using del d ok mem idx rest_def
    by (auto simp: deleteAccountToken_def Let_def target_def simp del: set_map split: if_splits)
  have tgt: "target = (case back @ front of [] \<Rightarrow> [] | n # _ \<Rightarrow> n)"
  proof (cases "rest = []")
    case True
    with rest show ?thesis by (simp add: target_def)
  next
    case False
    have len: "length rest = length front + length back" using arg_cong [OF rest, of length] by simp
    have lt: "length front mod length rest < length rest"
      by (rule mod_less_divisor) (use False in simp)
    have "accID (rest ! (length front mod length rest)) = (front @ back) ! (length front mod length rest)"
      using nth_map [OF lt, of accID] by (simp only: rest)
    then show ?thesis using False len rest
      by (cases "back"; cases front) (auto simp: target_def nth_append)
  qed
  have trim: "TrimSpace target = target \<and> target \<noteq> activeAccountID s"
  proof (cases "back @ front")
    case Nil
    moreover have "TrimSpace [] = []" by code_simp
    ultimately show ?thesis using tgt ne by simp
  next
    case (Cons n r)
    then have "n \<in> set (front @ back)" by (metis Un_commute list.set_intros(1) set_append)
    with trims order dis tgt Cons show ?thesis by (auto simp del: set_map)
  qed
  show ?thesis
    using activate_ok [OF act] activate_frame [OF act] trim tgt rest rest_def
    by (auto simp: sameRest_def)
qed

lemma delete_active_selects_next_witness:
  "activeAccountID (snd (deleteAccountToken (\<lambda>_. Some []) (seconds 3) ''a'' exServer)) = ''b''"
proof -
  have "fst (deleteAccountToken (\<lambda>_. Some []) (seconds 3) ''a'' exServer) = None" by code_simp
  then have del: "deleteAccountToken (\<lambda>_. Some []) (seconds 3) (activeAccountID exServer) exServer
      = (None, snd (deleteAccountToken (\<lambda>_. Some []) (seconds 3) ''a'' exServer))"
    by (simp add: prod_eq_iff)
  have order: "ids (List (tokens exServer)) = [] @ activeAccountID exServer # [''b'', ''c'']" by simp
  from delete_active_selects_next [OF ex_good order del] show ?thesis by simp
qed

subsection \<open>Leases\<close>

lemma mark_leases:
  "activeAccountLeases (snd (markAccountResult now aid err s)) = activeAccountLeases s
   \<and> cancelledLeases (snd (markAccountResult now aid err s)) = cancelledLeases s"
proof -
  define L where "L = (\<lambda>s :: server. (activeAccountLeases s, cancelledLeases s))"
  have rest: "sameRest u v \<Longrightarrow> L v = L u" for u v by (simp add: L_def sameRest_def)
  have ens: "L (snd (ensureActiveAccountLocked n l u)) = L u" for n l u
    by (rule rest, rule ensure_frame [of n l u "fst (ensureActiveAccountLocked n l u)"]) simp
  have adv: "L (snd (advanceActiveAccountLocked n a l u)) = L u" for n a l u
    by (rule rest, rule advance_frame [of n a l u "fst (advanceActiveAccountLocked n a l u)"]) simp
  have per: "L (snd (persistActiveAccountLocked n a u)) = L u" for n a u
    by (rule rest) (rule conjunct1 [OF persist_snd_frame])
  have obs: "L (snd (observeSharedFailureLocked a e n u)) = L u" for a e n u
    using observe_frame [of a e n u "fst (observeSharedFailureLocked a e n u)"] by (simp add: L_def)
  have pool: "L (poolFailure n a e u) = L u" "L (u\<lparr>accountPool := h\<rparr>) = L u" for n a e u h
    by (simp_all add: L_def)
  have "L (snd (markAccountResult now aid err s)) = L s"
    unfolding markAccountResult_def Let_def case_prod_beta
    by (auto simp: ens adv per obs pool simp del: poolFailure_frame split: sum.split option.split)
  then show ?thesis by (simp add: L_def)
qed

text \<open>Only the active account gets a turn lease; once granted, the lease is not cancelled by any
  number of finished calls, whatever they rotate, and releasing it returns the lease table to the
  leases that were there before and cancels this one alone.\<close>

lemma turn_lease_survives_rotation:
  assumes lease: "beginActiveAccountRequest now ctx aid s = (Inr (ctx', r), u)"
    and mem: "activeAccountID s \<in> set (ids (List (tokens s)))"
    and unused: "nextAccountLeaseID s + 1 \<notin> set (activeAccountLeases s)"
    and v: "v = fold (\<lambda>(n, a, err) w. snd (markAccountResult n a err w)) results u"
  shows "TrimSpace aid = activeAccountID s
    \<and> (\<exists>l. r = Some l \<and> l \<in> set (activeAccountLeases v) \<and> l \<in> set (ctxLeases ctx')
          \<and> ctxRequestLease ctx' = Some \<lparr>leaseAccountID = activeAccountID s,
                                         leaseGeneration = activeAccountGeneration s\<rparr>
          \<and> cancelledLeases v = cancelledLeases s
          \<and> activeAccountLeases (releaseLease r v) = activeAccountLeases s
          \<and> cancelledLeases (releaseLease r v) = l # cancelledLeases s)"
proof -
  let ?l = "nextAccountLeaseID s + 1"
  have g: "TrimSpace aid = activeAccountID s \<and> r = Some ?l
     \<and> ctx' = ctx\<lparr>ctxRequestLease := Some \<lparr>leaseAccountID = activeAccountID s,
         leaseGeneration = activeAccountGeneration s\<rparr>, ctxLeases := ?l # ctxLeases ctx\<rparr>
     \<and> activeAccountLeases u = ?l # activeAccountLeases s \<and> cancelledLeases u = cancelledLeases s"
    using lease mem unused
    by (auto simp: beginActiveAccountRequest_def newLease_def Let_def simp del: set_map split: if_splits)
  have "activeAccountLeases v = activeAccountLeases u \<and> cancelledLeases v = cancelledLeases u"
    unfolding v by (induction results arbitrary: u) (auto simp: mark_leases)
  then show ?thesis using g unused by (simp add: releaseLease_def)
qed

definition exContext :: callContext where
  "exContext = \<lparr>ctxRequestLease = None, ctxLeases = []\<rparr>"

lemma turn_lease_survives_rotation_witness:
  "cancelledLeases (fold (\<lambda>(n, a, err) w. snd (markAccountResult n a err w))
      [(seconds 10, ''a'', Some exRateLimit)] (snd (beginActiveAccountRequest 1 exContext ''a'' exServer))) = []"
proof -
  have b: "beginActiveAccountRequest 1 exContext ''a'' exServer =
     (Inr (exContext\<lparr>ctxRequestLease := Some \<lparr>leaseAccountID = ''a'', leaseGeneration = 1\<rparr>,
                     ctxLeases := [1]\<rparr>, Some 1), snd (beginActiveAccountRequest 1 exContext ''a'' exServer))"
  proof -
    have "TrimSpace ''a'' = ''a''" by code_simp
    moreover have "ensureActiveAccountLocked 1 (List (tokens exServer)) exServer = (Inr ''a'', exServer)"
      using ensure_active [of exServer "List (tokens exServer)" 1] by simp
    ultimately show ?thesis
      by (simp add: beginActiveAccountRequest_def newLease_def Let_def) (simp add: exServer_def exContext_def)
  qed
  have mem: "activeAccountID exServer \<in> set (ids (List (tokens exServer)))" by simp
  have un: "nextAccountLeaseID exServer + 1 \<notin> set (activeAccountLeases exServer)" by (simp add: exServer_def)
  have "cancelledLeases exServer = []" by (simp add: exServer_def)
  with turn_lease_survives_rotation [OF b mem un refl, of "[(seconds 10, ''a'', Some exRateLimit)]"]
  show ?thesis by auto
qed

subsection \<open>Restart\<close>

text \<open>A process that restarts from the route file another process has written continues where it
  was: the same active account, at least the same generation (and at least the one found in the
  session store), the same availability of every account from then on, and exactly the policy
  refusals that have not expired meanwhile.\<close>

lemma restart_restores_route:
  assumes saved: "persistActiveAccountLocked now (activeAccountID s) s = (None, t)"
    and path: "\<not> blank (accountRoutePath s)" "accountRoutePath b = accountRoutePath s"
    and mem: "activeAccountID s \<in> set (ids (List (tokens b)))"
    and trim: "TrimSpace (activeAccountID s) = activeAccountID s"
    and wf: "wf_health (accountPool s)" "wf_refusals (policyRefusals s)"
      "\<forall>(k, u) \<in> set (policyRefusals s). length k = 32"
    and later: "now \<le> now'"
    and boot: "b' = snd (initializeAccountRouter now' (Inr (contents (routeFile t))) sessions b)"
  shows "fst (initializeAccountRouter now' (Inr (contents (routeFile t))) sessions b) = None
    \<and> activeAccountID b' = activeAccountID s
    \<and> activeAccountGeneration b' = (case sessions of
         None \<Rightarrow> activeAccountGeneration s | Some g \<Rightarrow> max (activeAccountGeneration s) g)
    \<and> (\<forall>n a. now' \<le> n \<and> \<not> blank a \<longrightarrow> Available n (accountPool b') a = Available n (accountPool s) a)
    \<and> policyRefusals b' = liveRefusals now' (policyRefusals s)"
proof -
  obtain st where st: "contents (routeFile t) = Some st"
      "st = \<lparr>rsActiveAccountID = activeAccountID s, rsRouteGeneration = activeAccountGeneration s,
         rsUpdatedAt = now, rsHealth = persistedState now (accountPool s),
         rsPolicyRefusals = fst (persistedPolicyRefusals now (policyRefusals s))\<rparr>"
    using saved by (rule persist_cases) (use path(1) in simp_all)
  define b1 where "b1 = b\<lparr>activeAccountID := activeAccountID s,
      activeAccountGeneration := (case sessions of
         None \<Rightarrow> activeAccountGeneration s | Some g \<Rightarrow> max (activeAccountGeneration s) g),
      accountPool := restorePersistedState now' (persistedState now (accountPool s)),
      policyRefusals := restorePolicyRefusals now' (fst (persistedPolicyRefusals now (policyRefusals s)))\<rparr>"
  have "ensureActiveAccountLocked now' (List (tokens b1)) b1 = (Inr (activeAccountID b1), b1)"
    by (rule ensure_active) (use mem in \<open>simp add: b1_def\<close>)
  then have "initializeAccountRouter now' (Inr (contents (routeFile t))) sessions b = (None, b1)"
    unfolding st(1) using path st(2) trim
    by (cases sessions) (auto simp: initializeAccountRouter_def Let_def b1_def max_def)
  moreover have "Available n (accountPool b1) a = Available n (accountPool s) a"
    if "now' \<le> n" "\<not> blank a" for n a
    using restorePersistedState_Available [of "persistedState now (accountPool s)" now' n a]
      persistedState_Available [of "accountPool s" now n a] wf(1) that later
    by (simp add: b1_def)
  moreover have "policyRefusals b1 = liveRefusals now' (policyRefusals s)"
    using persisted_restored [OF wf(2,3) later] by (simp add: b1_def)
  ultimately show ?thesis using boot by (simp add: b1_def)
qed

definition exSaved :: server where
  "exSaved = snd (persistActiveAccountLocked 1 ''a'' exServer)"

lemma restart_restores_route_witness:
  "activeAccountID (snd (initializeAccountRouter 2 (Inr (contents (routeFile exSaved))) (Some 7) exServer)) = ''a''"
proof -
  have "fst (persistActiveAccountLocked 1 (activeAccountID exServer) exServer) = None" by code_simp
  then have saved: "persistActiveAccountLocked 1 (activeAccountID exServer) exServer = (None, exSaved)"
    by (simp add: prod_eq_iff exSaved_def)
  have path: "\<not> blank (accountRoutePath exServer)" by code_simp
  have trim: "TrimSpace (activeAccountID exServer) = activeAccountID exServer" by code_simp
  have mem: "activeAccountID exServer \<in> set (ids (List (tokens exServer)))" by simp
  have wf: "wf_health (accountPool exServer)" "wf_refusals (policyRefusals exServer)"
      "\<forall>(k, u) \<in> set (policyRefusals exServer). length k = 32" and le: "(1::int) \<le> 2"
    by (simp_all add: exServer_def wf_refusals_def)
  from restart_restores_route [OF saved path refl mem trim wf le refl] show ?thesis by simp
qed

end
