(* ===== verification/TokenFlight.thy ===== *)
theory TokenFlight
  imports TokenStore
begin

text \<open>
  Concurrent use of the token cache: which accounts the durable operations leave in the store, and
  the single-flight protocol of refreshInflight as a step relation over the store and the flights
  under way, in which every critical section of a flight is a step of its own.
\<close>

subsection \<open>What Upsert and Delete leave in the store\<close>

lemma inheritFields_simps [simp]:
  "accID (inheritFields acc e) = accID acc"
  "accEmail (inheritFields acc e) = accEmail acc"
  "accExpiresAt (inheritFields acc e) = accExpiresAt acc"
  "accAccessToken (inheritFields acc e) = accAccessToken acc"
  "accStatus (inheritFields acc e) = accStatus acc"
  by (simp_all add: inheritFields_def)

lemma replaceOrAppend_found:
  "replaceOrAppend acc xs = (ys, a) \<Longrightarrow>
   find (\<lambda>c. accID c = accID acc) ys = Some a \<and> accID a = accID acc
   \<and> accExpiresAt a = accExpiresAt acc \<and> accAccessToken a = accAccessToken acc"
proof (induction xs arbitrary: ys a)
  case Nil
  then show ?case by auto
next
  case (Cons x xs)
  then show ?case
    by (cases "replaceOrAppend acc xs")
       (auto simp: Let_def sameAccount_def split: if_splits)
qed

lemma replaceOrAppend_others:
  "replaceOrAppend acc xs = (ys, a) \<Longrightarrow>
   filter (\<lambda>c. \<not> sameAccount acc c) ys = filter (\<lambda>c. \<not> sameAccount acc c) xs"
proof (induction xs arbitrary: ys a)
  case Nil
  then show ?case by (auto simp: sameAccount_def)
next
  case (Cons x xs)
  then show ?case
    by (cases "replaceOrAppend acc xs") (auto simp: Let_def sameAccount_def split: if_splits)
qed

lemma replaceOrAppend_ids:
  "replaceOrAppend acc xs = (ys, a) \<Longrightarrow> accID ` set ys \<subseteq> insert (accID acc) (accID ` set xs)"
proof (induction xs arbitrary: ys a)
  case Nil
  then show ?case by auto
next
  case (Cons x xs)
  obtain ys' a' where r: "replaceOrAppend acc xs = (ys', a')" by force
  have "set ys \<subseteq> insert a (insert x (set ys' \<union> set xs)) \<and> accID a = accID acc"
    using Cons.prems r replaceOrAppend_found [OF Cons.prems] by (auto simp: Let_def split: if_splits)
  then show ?case using Cons.IH [OF r] by auto
qed

text \<open>
  Account ids stay distinct when no entry with the same email stands before the entry with the
  same id: the loop takes the first entry that matches by either.
\<close>

definition noForeignEmail :: "accountToken \<Rightarrow> accountToken list \<Rightarrow> bool" where
  "noForeignEmail acc xs \<longleftrightarrow>
     (\<forall>e \<in> set xs. accEmail acc \<noteq> [] \<and> accEmail e = accEmail acc \<longrightarrow>
        accID e = accID acc \<or> accID acc \<notin> accID ` set xs)"

lemma noForeignEmail_Cons:
  "noForeignEmail acc (x # xs) \<Longrightarrow> noForeignEmail acc xs"
  by (auto simp: noForeignEmail_def)

lemma replaceOrAppend_distinct:
  "replaceOrAppend acc xs = (ys, a) \<Longrightarrow> distinct (map accID xs) \<Longrightarrow> noForeignEmail acc xs \<Longrightarrow>
   distinct (map accID ys)"
proof (induction xs arbitrary: ys a)
  case Nil
  then show ?case by auto
next
  case (Cons x xs)
  obtain ys' a' where r: "replaceOrAppend acc xs = (ys', a')" by force
  show ?case
  proof (cases "sameAccount acc x")
    case True
    have "accID acc \<notin> accID ` set xs"
    proof (cases "accID x = accID acc")
      case True
      with Cons.prems(2) show ?thesis by simp
    next
      case False
      with \<open>sameAccount acc x\<close> have "accEmail acc \<noteq> [] \<and> accEmail x = accEmail acc"
        by (simp add: sameAccount_def)
      with Cons.prems(3) False show ?thesis by (simp add: noForeignEmail_def)
    qed
    with True Cons.prems(1,2) show ?thesis by (auto simp: Let_def)
  next
    case False
    with Cons.prems r have ys: "ys = x # ys'" by (auto simp: Let_def)
    have "distinct (map accID ys')"
      using Cons.IH [OF r] Cons.prems(2) noForeignEmail_Cons [OF Cons.prems(3)] by simp
    moreover have "accID x \<notin> accID ` set ys'"
    proof -
      have "accID x \<noteq> accID acc" using False by (simp add: sameAccount_def)
      moreover have "accID x \<notin> accID ` set xs" using Cons.prems(2) by simp
      ultimately show ?thesis using replaceOrAppend_ids [OF r] by blast
    qed
    ultimately show ?thesis using ys by simp
  qed
qed

lemma setFirst_map_eq: "(\<And>x. P x \<Longrightarrow> g (f x) = g x) \<Longrightarrow> map g (setFirst P f xs) = map g xs"
  by (induction xs) auto

lemma setFirst_other: "(\<And>x. P x \<Longrightarrow> P (f x)) \<Longrightarrow> filter (\<lambda>x. \<not> P x) (setFirst P f xs) = filter (\<lambda>x. \<not> P x) xs"
  by (induction xs) auto

lemma setFirst_found:
  "(\<And>x. P x \<Longrightarrow> P (f x)) \<Longrightarrow> find P (setFirst P f xs) = map_option f (find P xs)"
  by (induction xs) auto

subsection \<open>Refresh: failures back off, successes are reused\<close>

lemma recordRefreshFailure_frame:
  "tokInflight (snd (recordRefreshFailure fmt now acc err s)) = tokInflight s"
  "tokBackoff (snd (recordRefreshFailure fmt now acc err s)) =
     AList.update (accID acc) (now + refreshFailureBackoff) (tokBackoff s)"
  by (simp_all add: recordRefreshFailure_def Let_def split: prod.splits)
     (auto dest!: commitAccounts_frameD)

lemma beginRefresh_after_failure:
  assumes "finishRefresh fmt (\<lambda>_. id) cid stamp now acc (RefreshError err) s = (res, s')"
    and "t < now + refreshFailureBackoff" and "accID a = accID acc"
  shows "\<exists>e. beginRefresh rfc t a s' = (FlightBackoff a e, s')"
proof -
  have "map_of (tokBackoff s') (accID a) = Some (now + refreshFailureBackoff)"
    using assms recordRefreshFailure_frame(2) [of fmt now acc err s]
    by (auto simp: finishRefresh_def endFlight_def split: prod.splits)
  with assms(2) show ?thesis by (simp add: beginRefresh_def)
qed

lemma Upsert_backoff [simp]:
  "tokBackoff (snd (Upsert fmt cid stamp now tok s)) = tokBackoff s"
  "tokInflight (snd (Upsert fmt cid stamp now tok s)) = tokInflight s"
  by (auto simp: Upsert_def split: prod.splits dest!: commitAccounts_frameD)

lemma Upsert_frameD:
  "Upsert fmt cid stamp now tok s = (r, s') \<Longrightarrow> tokInflight s' = tokInflight s \<and> tokBackoff s' = tokBackoff s"
  using Upsert_backoff [of fmt cid stamp now tok s] by simp

lemma Upsert_stored:
  "Upsert fmt cid stamp now tok s = (Some a, s') \<Longrightarrow>
   find (\<lambda>c. accID c = accID a) (tokAccounts s') = Some a
   \<and> accID a = accID (upsertAccount cid stamp now tok) \<and> accExpiresAt a = tsExpiresAt tok"
proof -
  assume u: "Upsert fmt cid stamp now tok s = (Some a, s')"
  obtain ys b where r: "replaceOrAppend (upsertAccount cid stamp now tok) (tokAccounts s) = (ys, b)"
    by force
  with u have "commitAccounts fmt ys s = (True, s')" and b: "b = a"
    by (auto simp: Upsert_def split: prod.splits if_splits)
  then have "tokAccounts s' = ys"
    by (auto dest: commitAccounts_ok)
  moreover have "accExpiresAt (upsertAccount cid stamp now tok) = tsExpiresAt tok"
    by (simp add: upsertAccount_def Let_def)
  ultimately show ?thesis using replaceOrAppend_found [OF r] b by auto
qed

text \<open>
  A caller that still holds the old token and arrives after a successful flight is served the
  refreshed token and does not redeem the refresh token a second time.
\<close>

lemma beginRefresh_after_success:
  assumes fin: "finishRefresh fmt (\<lambda>_. id) cid stamp now acc (Refreshed tok) s = ((a, None), s')"
    and same: "accID a = accID acc" and stale: "accID old = accID acc"
    and usable: "t < tsExpiresAt tok - expirySlack"
  shows "beginRefresh rfc t old s' = (FlightFresh a, s')"
proof -
  obtain s1 where u: "Upsert fmt cid stamp now (completeTokenSet acc tok) s = (Some a, s1)"
      and s': "s' = endFlight (accID acc) (s1\<lparr>tokBackoff := AList.delete (accID acc) (tokBackoff s1)\<rparr>)"
    using fin by (auto simp: finishRefresh_def clearBackoff_def Let_def split: prod.splits option.splits)
  have "map_of (tokBackoff s') (accID old) = None"
    using s' stale by (simp add: endFlight_def)
  moreover have "find (\<lambda>c. accID c = accID old) (tokAccounts s') = Some a"
    using conjunct1 [OF Upsert_stored [OF u]] unfolding stale same [symmetric] s'
    by (simp add: endFlight_def)
  moreover have "usableAt t a"
    using Upsert_stored [OF u] usable by (simp add: usableAt_def completeTokenSet_def)
  ultimately show ?thesis by (simp add: beginRefresh_def beginFlight_def)
qed

subsection \<open>The single-flight protocol\<close>

text \<open>
  A configuration: the store, and the flights under way. A goroutine enters refreshInflight (and
  either leads a flight or leaves); the network answers a leading flight, which records the failure
  or stores the new token, forgets the backoff, and at last removes itself, each under the lock on
  its own; or another request changes the store in between.
\<close>

record flightSystem =
  flStore :: tokenStore
  flLeaders :: "accountToken list"

inductive flightStep :: "flightSystem \<Rightarrow> flightSystem \<Rightarrow> bool" where
  enterLead:
    "beginRefresh rfc now acc (flStore c) = (FlightLead a, st) \<Longrightarrow>
     flightStep c (c\<lparr>flStore := st, flLeaders := a # flLeaders c\<rparr>)"
| enterLeave:
    "beginRefresh rfc now acc (flStore c) = (r, st) \<Longrightarrow> (\<forall>a. r \<noteq> FlightLead a) \<Longrightarrow>
     flightStep c (c\<lparr>flStore := st\<rparr>)"
| failed:
    "a \<in> set (flLeaders c) \<Longrightarrow> recordRefreshFailure fmt now a err (flStore c) = (res, st) \<Longrightarrow>
     flightStep c (c\<lparr>flStore := st\<rparr>)"
| landed:
    "a \<in> set (flLeaders c) \<Longrightarrow>
     Upsert fmt cid stamp now (completeTokenSet a tok) (flStore c) = (stored, st) \<Longrightarrow>
     flightStep c (c\<lparr>flStore := st\<rparr>)"
| cleared:
    "a \<in> set (flLeaders c) \<Longrightarrow> flightStep c (c\<lparr>flStore := clearBackoff (accID a) (flStore c)\<rparr>)"
| finished:
    "a \<in> set (flLeaders c) \<Longrightarrow>
     flightStep c (c\<lparr>flStore := endFlight (accID a) (flStore c), flLeaders := remove1 a (flLeaders c)\<rparr>)"
| otherRequest:
    "flightStep c (c\<lparr>flStore := tokExec fmt op (flStore c)\<rparr>)"

inductive flightReachable :: "flightSystem \<Rightarrow> bool" where
  opened: "tokInflight st = [] \<Longrightarrow> flightReachable \<lparr>flStore = st, flLeaders = []\<rparr>"
| stepped: "flightReachable c \<Longrightarrow> flightStep c d \<Longrightarrow> flightReachable d"

definition flightInv :: "flightSystem \<Rightarrow> bool" where
  "flightInv c \<longleftrightarrow> distinct (map accID (flLeaders c))
     \<and> set (tokInflight (flStore c)) = accID ` set (flLeaders c)"

lemma beginRefresh_lead:
  "beginRefresh rfc now acc s = (FlightLead a, s') \<Longrightarrow>
   accID a \<notin> set (tokInflight s) \<and> set (tokInflight s') = insert (accID a) (set (tokInflight s))
   \<and> accID a = accID acc"
  by (auto simp: beginRefresh_def beginFlight_def Let_def find_Some_iff
      split: option.splits if_splits)

lemma beginRefresh_leave:
  "beginRefresh rfc now acc s = (r, s') \<Longrightarrow> \<forall>a. r \<noteq> FlightLead a \<Longrightarrow>
   tokInflight s' = tokInflight s \<and> tokAccounts s' = tokAccounts s"
  by (auto simp: beginRefresh_def beginFlight_def Let_def split: option.splits if_splits)

lemma markExpired_inflight [simp]: "tokInflight (snd (markExpired fmt acc s)) = tokInflight s"
  by (simp add: markExpired_def Let_def)

lemma tokExec_inflight [simp]: "tokInflight (tokExec fmt op s) = tokInflight s"
  by (cases op) (auto simp: Delete_def SetProxy_def split: prod.splits dest!: commitAccounts_frameD)

lemma flightStep_inv: "flightStep c d \<Longrightarrow> flightInv c \<Longrightarrow> flightInv d"
proof (induction rule: flightStep.induct)
  case (enterLead rfc now acc c a st)
  then show ?case using beginRefresh_lead [OF enterLead.hyps] by (auto simp: flightInv_def)
next
  case (enterLeave rfc now acc c r st)
  then show ?case using beginRefresh_leave [OF enterLeave.hyps] by (auto simp: flightInv_def)
next
  case (failed a c fmt now err res st)
  then show ?case using recordRefreshFailure_frame(1) [of fmt now a err "flStore c"]
    by (simp add: flightInv_def)
next
  case (landed a c fmt cid stamp now tok stored st)
  then show ?case using Upsert_frameD [OF landed.hyps(2)] by (simp add: flightInv_def)
next
  case (cleared a c)
  then show ?case by (simp add: flightInv_def clearBackoff_def)
next
  case (finished a c)
  have inj: "inj_on accID (set (flLeaders c))" and dis: "distinct (flLeaders c)"
    using finished.prems by (auto simp: flightInv_def distinct_map)
  have "set (tokInflight (endFlight (accID a) (flStore c))) = accID ` set (flLeaders c) - {accID a}"
    using finished.prems by (auto simp: flightInv_def endFlight_def)
  also have "\<dots> = accID ` set (remove1 a (flLeaders c))"
    using inj dis finished.hyps by (auto simp: inj_on_def)
  finally show ?case
    using finished.prems by (auto simp: flightInv_def distinct_map intro: inj_on_subset)
next
  case (otherRequest c fmt op)
  then show ?case by (simp add: flightInv_def)
qed

lemma flightReachable_inv: "flightReachable c \<Longrightarrow> flightInv c"
proof (induction rule: flightReachable.induct)
  case (opened st)
  then show ?case by (simp add: flightInv_def)
next
  case (stepped c d)
  then show ?case by (blast intro: flightStep_inv)
qed

subsection \<open>Everything that changes the store\<close>

text \<open>
  The critical sections in which a goroutine changes the store: a request, and the sections of a
  refresh. Calls of EnsureValid and RefreshDue, whatever runs between their sections, are sequences
  of them.
\<close>

datatype storeSection =
    Request tokenOp
  | EnterRefresh "gotime \<Rightarrow> string" gotime accountToken
  | StoreFailure gotime accountToken goerror
  | StoreRefreshed string string gotime accountToken tokenSet
  | ClearBackoff string
  | EndFlight string

fun storeExec :: "(gotime \<Rightarrow> string option) \<Rightarrow> storeSection \<Rightarrow> tokenStore \<Rightarrow> tokenStore" where
  "storeExec fmt (Request op) s = tokExec fmt op s"
| "storeExec fmt (EnterRefresh rfc now acc) s = snd (beginRefresh rfc now acc s)"
| "storeExec fmt (StoreFailure now acc err) s = snd (recordRefreshFailure fmt now acc err s)"
| "storeExec fmt (StoreRefreshed cid stamp now acc tok) s =
     snd (Upsert fmt cid stamp now (completeTokenSet acc tok) s)"
| "storeExec fmt (ClearBackoff aid) s = clearBackoff aid s"
| "storeExec fmt (EndFlight aid) s = endFlight aid s"

definition sectionsReach ::
  "(gotime \<Rightarrow> string option) \<Rightarrow> tokenStore \<Rightarrow> tokenStore \<Rightarrow> bool" where
  "sectionsReach fmt s t \<longleftrightarrow> (\<exists>ops. t = fold (storeExec fmt) ops s)"

lemma sectionsReach_refl [simp]: "sectionsReach fmt s s"
  unfolding sectionsReach_def by (rule exI [of _ "[]"]) simp

lemma sectionsReach_trans: "sectionsReach fmt s t \<Longrightarrow> sectionsReach fmt t u \<Longrightarrow> sectionsReach fmt s u"
  unfolding sectionsReach_def by (metis fold_append comp_apply)

lemma sectionsReach_step: "sectionsReach fmt s t \<Longrightarrow> sectionsReach fmt s (storeExec fmt op t)"
  by (rule sectionsReach_trans, assumption, unfold sectionsReach_def, rule exI [of _ "[op]"]) simp

lemma finishRefresh_sections:
  assumes "\<And>i u. sectionsReach fmt u (between i u)"
  shows "sectionsReach fmt s (snd (finishRefresh fmt between cid stamp now acc net s))"
proof (cases net)
  case (ClientError e)
  then show ?thesis using sectionsReach_step [of fmt s s "EndFlight (accID acc)"]
    by (simp add: finishRefresh_def)
next
  case (RefreshError e)
  have "sectionsReach fmt s (storeExec fmt (EndFlight (accID acc))
      (between 0 (storeExec fmt (StoreFailure now acc e) s)))"
    by (rule sectionsReach_step, rule sectionsReach_trans, rule sectionsReach_step,
        rule sectionsReach_refl, rule assms)
  with RefreshError show ?thesis by (simp add: finishRefresh_def case_prod_beta)
next
  case (Refreshed tok)
  have "sectionsReach fmt s (storeExec fmt (EndFlight (accID acc)) (between 1
      (storeExec fmt (ClearBackoff (accID acc))
        (between 0 (storeExec fmt (StoreRefreshed cid stamp now acc tok) s)))))"
    by (rule sectionsReach_step, rule sectionsReach_trans, rule sectionsReach_step,
        rule sectionsReach_trans, rule sectionsReach_step, rule sectionsReach_refl, rule assms, rule assms)
  with Refreshed show ?thesis by (simp add: finishRefresh_def Let_def case_prod_beta split: option.splits)
qed

lemma refreshInflight_sections:
  assumes others: "\<And>u. sectionsReach (envFormat env) u (envOthers env u)"
    and between: "\<And>i u. sectionsReach (envFormat env) u (envBetween env i u)"
  shows "sectionsReach (envFormat env) s (snd (refreshInflight env acc s))"
proof -
  obtain r s' where b: "beginRefresh (envRFC3339 env) (envStart env) acc s = (r, s')" by force
  have e: "sectionsReach (envFormat env) s s'"
    using sectionsReach_step [of "envFormat env" s s "EnterRefresh (envRFC3339 env) (envStart env) acc"] b
    by simp
  note o = sectionsReach_trans [OF e others]
  note l = sectionsReach_trans [OF o finishRefresh_sections [OF between]]
  show ?thesis using b e o l by (cases r) (simp_all add: refreshInflight_def)
qed

lemma EnsureValid_sections:
  assumes "\<And>u. sectionsReach (envFormat env) u (envOthers env u)"
    and "\<And>i u. sectionsReach (envFormat env) u (envBetween env i u)"
  shows "sectionsReach (envFormat env) s (snd (EnsureValid env aid s))"
proof (cases "Get aid s")
  case (Some acc)
  have "sectionsReach (envFormat env) s (snd (markExpired (envFormat env) acc s))"
    using sectionsReach_step [of "envFormat env" s s "Request (TokExpire acc)"] by simp
  with Some refreshInflight_sections [OF assms] show ?thesis
    by (simp add: EnsureValid_def case_prod_beta)
qed (simp add: EnsureValid_def)

lemma RefreshDue_sections:
  assumes "\<And>u. sectionsReach (envFormat env) u (envOthers env u)"
    and "\<And>i u. sectionsReach (envFormat env) u (envBetween env i u)"
  shows "sectionsReach (envFormat env) s (snd (RefreshDue env window s))"
proof -
  have "sectionsReach (envFormat env) s (snd (fold (\<lambda>acc (out, s).
             if accRefreshToken acc = [] then (out, s)
             else if envStart env < accExpiresAt acc - window then (out, s)
             else (let ((_, err), s') = refreshInflight env acc s
                   in (AList.update (accID acc) err out, s'))) accs (out, t)))"
    if "sectionsReach (envFormat env) s t" for accs out t using that
    by (induction accs arbitrary: out t)
       (auto simp: case_prod_beta intro: sectionsReach_trans [OF _ refreshInflight_sections [OF assms]])
  from this [of s] show ?thesis by (simp add: RefreshDue_def)
qed

end
