(* ===== verification/Utf8Laws.thy ===== *)
theory Utf8Laws
  imports GoText
begin

text \<open>
  Laws of UTF-8 decoding: validity of a concatenation and of its parts at a rune boundary, of a
  trimmed string, of the longest valid prefix of a cut string, and of a suffix that begins at a
  rune start.
\<close>

named_theorems utf8 "validity laws"

subsection \<open>Runes\<close>

lemma four_cases:
  obtains "s = []" | c where "s = [c]" | c d where "s = [c, d]" | c d e where "s = [c, d, e]"
    | c d e f t where "s = c # d # e # f # t"
  by (metis neq_Nil_conv)

lemma runeLen_append: "runeLen a \<noteq> 0 \<Longrightarrow> runeLen (a @ b) = runeLen a"
  by (cases rule: four_cases [of a]) (simp_all add: runeLen_def split: if_splits)

lemma runeLen_take: "runeLen s \<noteq> 0 \<Longrightarrow> runeLen (take (runeLen s) s) = runeLen s"
  by (auto simp: runeLen_def split: list.splits if_splits)

lemma runeLen_le_4: "runeLen s \<le> 4"
  by (auto simp: runeLen_def split: list.splits if_splits)

lemma runeLen_short: "runeLen s \<noteq> 0 \<Longrightarrow> runeLen s = 1 \<or> runeLen s = 2 \<or> runeLen s = 3 \<or> runeLen s = 4"
  by (auto simp: runeLen_def split: list.splits if_splits)

text \<open>The bytes of a rune behind the first one are continuation bytes.\<close>

lemma rune_tail_cont: "0 < i \<Longrightarrow> i < runeLen s \<Longrightarrow> isCont (s ! i)"
proof -
  assume i: "0 < i" "i < runeLen s"
  have "i = 1 \<or> i = 2 \<or> i = 3" using i runeLen_le_4 [of s] by auto
  then show ?thesis using i by (auto simp: runeLen_def split: list.splits if_splits)
qed

lemma rune_start: "runeLen (c # s) \<noteq> 0 \<Longrightarrow> \<not> isCont c"
  by (auto simp: runeLen_def isCont_def lead2_def lead3_def lead4_def split: list.splits if_splits)

text \<open>Validity by recursion on the string.\<close>

lemma ValidString_Nil [simp, utf8]: "ValidString []"
  by (simp add: ValidString_def)

lemma ValidString_step:
  "s \<noteq> [] \<Longrightarrow> ValidString s \<longleftrightarrow> runeLen s \<noteq> 0 \<and> ValidString (drop (runeLen s) s)"
proof -
  assume s: "s \<noteq> []"
  have r: "runes s = take (max 1 (runeLen s)) s # runes (drop (max 1 (runeLen s)) s)"
    using s by (subst runes.simps) simp
  show ?thesis
  proof (cases "runeLen s = 0")
    case True
    then have "runeLen (take 1 s) = 0" using s by (auto simp: runeLen_def split: list.splits if_splits)
    with True r show ?thesis by (simp add: ValidString_def)
  next
    case False
    then have "max 1 (runeLen s) = runeLen s" by simp
    with r False runeLen_take [of s] show ?thesis by (simp add: ValidString_def)
  qed
qed

lemma valid_induct [consumes 1, case_names Nil rune]:
  assumes "ValidString s" and "P []"
    and "\<And>s. s \<noteq> [] \<Longrightarrow> runeLen s \<noteq> 0 \<Longrightarrow> ValidString (drop (runeLen s) s) \<Longrightarrow> P (drop (runeLen s) s) \<Longrightarrow> P s"
  shows "P s"
  using assms(1)
proof (induction s rule: length_induct)
  case (1 s)
  show ?case
  proof (cases "s = []")
    case False
    with 1(2) have r: "runeLen s \<noteq> 0" "ValidString (drop (runeLen s) s)" by (simp_all add: ValidString_step)
    with False 1(1) have "P (drop (runeLen s) s)" by simp
    with False r show ?thesis by (rule assms(3))
  qed (simp add: assms(2))
qed

lemma ValidString_append [utf8]: "ValidString a \<Longrightarrow> ValidString b \<Longrightarrow> ValidString (a @ b)"
proof (induction a rule: valid_induct)
  case (rune s)
  then have "ValidString (drop (runeLen s) s @ b)" by simp
  moreover have "drop (runeLen (s @ b)) (s @ b) = drop (runeLen s) s @ b"
    using rune(2) runeLen_le [of s] by (simp add: runeLen_append)
  ultimately show ?case using rune(1,2) by (simp add: ValidString_step [of "s @ b"] runeLen_append)
qed simp

lemma ValidString_concat [utf8]: "(\<And>s. s \<in> set ss \<Longrightarrow> ValidString s) \<Longrightarrow> ValidString (concat ss)"
  by (induction ss) (auto intro: ValidString_append)

lemma ValidString_ascii [utf8]: "(\<And>c. c \<in> set s \<Longrightarrow> byteVal c < 128) \<Longrightarrow> ValidString s"
proof (induction s)
  case (Cons c s)
  then have "runeLen (c # s) = 1" by (simp add: runeLen_def)
  with Cons show ?case by (simp add: ValidString_step)
qed simp

lemma ValidString_rune [utf8]: "runeLen s = length s \<Longrightarrow> ValidString s"
  by (cases "s = []") (auto simp: ValidString_step)

subsection \<open>Splitting at a rune start\<close>

lemma ValidString_split:
  "ValidString s \<Longrightarrow> s = a @ b \<Longrightarrow> b = [] \<or> \<not> isCont (hd b) \<Longrightarrow> ValidString a \<and> ValidString b"
proof (induction s arbitrary: a rule: valid_induct)
  case Nil
  then show ?case by simp
next
  case (rune s)
  show ?case
  proof (cases "a = []")
    case True
    with rune(1,2,3,5) show ?thesis by (simp add: ValidString_step [of b])
  next
    case False
    have "runeLen s \<le> length a"
    proof (rule ccontr)
      assume long: "\<not> runeLen s \<le> length a"
      then have "b \<noteq> []" using rune(5) runeLen_le [of s] by auto
      then have "hd b = s ! length a" using rune(5) by (simp add: nth_append hd_conv_nth)
      moreover have "isCont (s ! length a)" using False long by (intro rune_tail_cont) auto
      ultimately show False using rune(6) \<open>b \<noteq> []\<close> by simp
    qed
    then have eq: "drop (runeLen s) s = drop (runeLen s) a @ b" and "take (runeLen s) s = take (runeLen s) a"
      using rune(5) by simp_all
    with rune(2) runeLen_take [of s] have "runeLen (take (runeLen s) a) = runeLen s" by simp
    with rune(2) runeLen_append [of "take (runeLen s) a" "drop (runeLen s) a"] have "runeLen a = runeLen s" by simp
    with False rune(2) rune.IH [OF eq rune(6)] show ?thesis by (simp add: ValidString_step [of a])
  qed
qed

lemma ValidString_prefix:
  assumes "ValidString a" and "ValidString (a @ b)"
  shows "ValidString b"
  using assms
proof (induction a rule: valid_induct)
  case (rune s)
  have "ValidString (drop (runeLen s) s @ b)"
    using rune(1,2,5) runeLen_le [of s] by (simp add: ValidString_step [of "s @ b"] runeLen_append)
  with rune show ?case by simp
qed simp

lemma ValidString_suffix:
  assumes "ValidString b" and "ValidString (a @ b)"
  shows "ValidString a"
proof (cases b)
  case Nil
  with assms show ?thesis by simp
next
  case (Cons c t)
  with assms(1) have "runeLen (c # t) \<noteq> 0" by (simp add: ValidString_step)
  then have "\<not> isCont (hd b)" using Cons rune_start by simp
  then show ?thesis using ValidString_split [OF assms(2) refl] by blast
qed

subsection \<open>Trimming\<close>

lemma asciiSpace_rune: "asciiSpace c \<Longrightarrow> ValidString [c]"
  by (rule ValidString_rune) (auto simp: asciiSpace_def runeLen_def)

lemma space2_rune: "space2 c d \<Longrightarrow> ValidString [c, d]"
  by (rule ValidString_rune) (auto simp: space2_def runeLen_def isCont_def lead2_def)

lemma space3_cont: "space3 c d e \<Longrightarrow> 225 \<le> byteVal c \<and> byteVal c \<le> 227 \<and> isCont d \<and> isCont e"
  by (auto simp: space3_def isCont_def)

lemma space3_rune: "space3 c d e \<Longrightarrow> ValidString [c, d, e]"
  by (rule ValidString_rune) (use space3_cont [of c d e] in \<open>simp add: runeLen_def lead2_def lead3_def\<close>)

lemmas space_runes = asciiSpace_rune space2_rune space3_rune

lemma valid_single: "ValidString [c] \<Longrightarrow> byteVal c < 128"
  using ValidString_step [of "[c]"] by (simp add: runeLen_def split: if_splits)

lemma valid_pair: "ValidString [c, d] \<Longrightarrow> byteVal c < 128 \<or> lead2 (byteVal c)"
  using ValidString_step [of "[c, d]"] by (simp add: runeLen_def split: if_splits)

lemma space_leads: "byteVal c < 128 \<Longrightarrow> \<not> space2 c d \<and> \<not> space2 d c \<and> \<not> space3 c d e \<and> \<not> space3 e d c"
  by (auto simp: space2_def space3_def)

lemma strip_one: "asciiSpace c \<Longrightarrow> stripSpaces s2 s3 (c # s) = stripSpaces s2 s3 s"
  by (cases "(s2, s3, c # s)" rule: stripSpaces.cases) simp_all

lemma strip_two: "\<not> asciiSpace c \<Longrightarrow> s2 c d \<Longrightarrow> stripSpaces s2 s3 (c # d # s) = stripSpaces s2 s3 s"
  by (cases s) simp_all

lemma strip_three:
  "\<not> asciiSpace c \<Longrightarrow> \<not> s2 c d \<Longrightarrow> s3 c d e \<Longrightarrow> stripSpaces s2 s3 (c # d # e # s) = stripSpaces s2 s3 s"
  by simp

text \<open>Stripping as a loop over whole spaces.\<close>

lemma strip_induct [case_names one two three stop]:
  assumes "\<And>c s. asciiSpace c \<Longrightarrow> P s \<Longrightarrow> P (c # s)"
    and "\<And>c d s. \<not> asciiSpace c \<Longrightarrow> s2 c d \<Longrightarrow> P s \<Longrightarrow> P (c # d # s)"
    and "\<And>c d e s. \<not> asciiSpace c \<Longrightarrow> \<not> s2 c d \<Longrightarrow> s3 c d e \<Longrightarrow> P s \<Longrightarrow> P (c # d # e # s)"
    and "\<And>s. stripSpaces s2 s3 s = s \<Longrightarrow> P s"
  shows "P s"
proof (induction s rule: length_induct)
  case (1 s)
  show ?case
  proof (cases "stripSpaces s2 s3 s = s")
    case False
    then obtain c t where s: "s = c # t" by (cases s) auto
    consider "asciiSpace c" | d u where "\<not> asciiSpace c" "t = d # u" "s2 c d"
      | d e u where "\<not> asciiSpace c" "t = d # e # u" "\<not> s2 c d" "s3 c d e"
      using False s by (cases "(s2, s3, c # t)" rule: stripSpaces.cases) (auto split: if_splits)
    then show ?thesis using 1 s assms(1-3) by cases auto
  qed (rule assms(4))
qed

lemma strip_fixed:
  assumes "stripSpaces s2 s3 (c # s) = c # s"
  shows "\<not> asciiSpace c" and "s = d # t \<Longrightarrow> \<not> s2 c d" and "s = d # e # u \<Longrightarrow> \<not> s3 c d e"
proof -
  have len: "length (stripSpaces s2 s3 t) \<le> length t" for t
    using stripSpaces_suffix by (rule suffix_length_le)
  have ne: "stripSpaces s2 s3 t \<noteq> u" if "length t < length u" for t u
    using len [of t] that by auto
  show 1: "\<not> asciiSpace c"
    using assms ne [of s "c # s"] strip_one [of c s2 s3 s] by auto
  show 2: "\<not> s2 c d" if "s = d # t" for d t
    using assms ne [of t "c # s"] strip_two [OF 1, of s2 d s3 t] that by auto
  show "\<not> s3 c d e" if "s = d # e # u"
    using assms ne [of u "c # s"] strip_three [of c s2 d s3 e u] 1 2 [OF that] that by auto
qed

lemma strip_left_valid: "ValidString s \<Longrightarrow> ValidString (stripSpaces space2 space3 s)"
proof (induction s rule: strip_induct [where ?s2.0 = space2 and ?s3.0 = space3])
  case (one c s)
  with ValidString_prefix [OF space_runes(1), of c s] show ?case by (simp add: strip_one)
next
  case (two c d s)
  with ValidString_prefix [OF space_runes(2), of c d s] show ?case by (simp add: strip_two)
next
  case (three c d e s)
  with ValidString_prefix [OF space_runes(3), of c d e s] show ?case by (simp add: strip_three)
qed simp

lemma strip_right_valid:
  "ValidString (rev r) \<Longrightarrow> ValidString (rev (stripSpaces (\<lambda>d c. space2 c d) (\<lambda>e d c. space3 c d e) r))"
proof (induction r rule: strip_induct [where ?s2.0 = "\<lambda>d c. space2 c d" and ?s3.0 = "\<lambda>e d c. space3 c d e"])
  case (one c s)
  with ValidString_suffix [OF space_runes(1), of c "rev s"] show ?case by (simp add: strip_one)
next
  case (two d c s)
  with ValidString_suffix [OF space_runes(2), of c d "rev s"] show ?case by (simp add: strip_two)
next
  case (three e d c s)
  with ValidString_suffix [OF space_runes(3), of c d e "rev s"] show ?case by (simp add: strip_three)
qed simp

lemma TrimSpace_valid [utf8]: "ValidString s \<Longrightarrow> ValidString (TrimSpace s)"
  unfolding TrimSpace_def trimRight_def trimLeft_def by (rule strip_right_valid) (simp add: strip_left_valid)

text \<open>
  A text that begins with a valid trimmed piece and ends with one is trimmed: spaces are whole
  runes, so whether a string begins or ends with one is decided inside such a piece.
\<close>

lemma strip_left_fixed_append:
  assumes "ValidString h" and "h \<noteq> []" and "stripSpaces space2 space3 h = h"
  shows "stripSpaces space2 space3 (h @ m) = h @ m"
proof (cases rule: four_cases [of h])
  case (2 c)
  with assms(1) valid_single space_leads have "\<not> space2 c d" "\<not> space3 c d e" for d e by blast+
  moreover have "\<not> asciiSpace c" using assms(3) 2 by (auto split: if_splits)
  ultimately show ?thesis using 2 stripSpaces_plain by simp
next
  case (3 c d)
  have n: "\<not> asciiSpace c" "\<not> space2 c d" using strip_fixed(1,2) assms(3) 3 by blast+
  have "\<not> space3 c d e" for e
  proof
    assume "space3 c d e"
    then show False using space3_cont [of c d e] valid_pair [of c d] assms(1) 3 by (auto simp: lead2_def)
  qed
  with n 3 show ?thesis by (cases m) simp_all
next
  case (4 c d e)
  have "\<not> asciiSpace c" "\<not> space2 c d" "\<not> space3 c d e"
    using strip_fixed(1-3) assms(3) 4 by blast+
  with 4 show ?thesis by simp
next
  case (5 c d e f t)
  have "\<not> asciiSpace c" "\<not> space2 c d" "\<not> space3 c d e"
    using strip_fixed(1-3) assms(3) 5 by blast+
  with 5 show ?thesis by simp
qed (use assms in simp)

lemmas right_fixed = strip_fixed [where ?s2.0 = "\<lambda>d c. space2 c d" and ?s3.0 = "\<lambda>e d c. space3 c d e", simplified]

lemma strip_right_fixed_append:
  assumes "ValidString h" and "h \<noteq> []"
    and fixed: "stripSpaces (\<lambda>d c. space2 c d) (\<lambda>e d c. space3 c d e) (rev h) = rev h"
  shows "stripSpaces (\<lambda>d c. space2 c d) (\<lambda>e d c. space3 c d e) (rev (m @ h)) = rev (m @ h)"
proof (cases rule: four_cases [of "rev h"])
  case (2 c)
  then have h: "h = [c]" by simp
  with assms(1) valid_single space_leads have "\<not> space2 d c" "\<not> space3 e d c" for d e by blast+
  moreover have "\<not> asciiSpace c" using fixed 2 by (auto split: if_splits)
  ultimately show ?thesis using h stripSpaces_plain by simp
next
  case (3 c d)
  then have h: "h = [d, c]" by (metis rev.simps(1,2) rev_rev_ident append_Cons append_Nil)
  have n: "\<not> asciiSpace c" "\<not> space2 d c" using right_fixed(1,2) fixed 3 by metis+
  have "\<not> space3 e d c" for e
  proof
    assume "space3 e d c"
    then show False using space3_cont [of e d c] valid_pair [of d c] assms(1) h by (auto simp: lead2_def isCont_def)
  qed
  with n h show ?thesis by (cases "rev m") simp_all
next
  case (4 c d e)
  have "\<not> asciiSpace c" "\<not> space2 d c" "\<not> space3 e d c"
    using right_fixed fixed 4 by metis+
  with 4 show ?thesis by simp
next
  case (5 c d e f t)
  have "\<not> asciiSpace c" "\<not> space2 d c" "\<not> space3 e d c"
    using right_fixed fixed 5 by metis+
  with 5 show ?thesis by simp
qed (use assms in simp)

lemma TrimSpace_sandwich:
  assumes "ValidString h" and "h \<noteq> []" and "trimLeft h = h"
    and "ValidString t" and "t \<noteq> []" and "trimRight t = t"
  shows "TrimSpace (h @ m @ t) = h @ m @ t"
proof -
  have "trimLeft (h @ m @ t) = h @ m @ t"
    using strip_left_fixed_append [OF assms(1,2)] assms(3) by (simp add: trimLeft_def)
  moreover have "stripSpaces (\<lambda>d c. space2 c d) (\<lambda>e d c. space3 c d e) (rev t) = rev t"
    using assms(6) by (metis rev_rev_ident trimRight_def)
  then have "trimRight ((h @ m) @ t) = (h @ m) @ t"
    using strip_right_fixed_append [OF assms(4,5)] unfolding trimRight_def by (metis rev_rev_ident)
  ultimately show ?thesis by (simp add: TrimSpace_def)
qed

lemma TrimSpace_parts:
  assumes "TrimSpace v = v"
  shows "trimLeft v = v" and "trimRight v = v"
proof -
  have "length (trimRight (trimLeft v)) \<le> length (trimLeft v)" "length (trimLeft v) \<le> length v"
    using trimRight_prefix prefix_length_le trimLeft_length by blast+
  with assms have "length (trimLeft v) = length v" by (simp add: TrimSpace_def)
  moreover have "suffix (trimLeft v) v" unfolding trimLeft_def by (rule stripSpaces_suffix)
  ultimately show l: "trimLeft v = v" by (metis suffix_order.eq_iff suffix_length_suffix suffix_order.order_refl order_refl)
  with assms show "trimRight v = v" by (simp add: TrimSpace_def)
qed

end
