(* ===== verification/StoreProps.thy ===== *)
theory StoreProps
  imports TokenFlight PolicyRefusal Utf8Laws
begin

text \<open>
  What the durable stores, the health tracker, the refusal guard and the token cache promise.
\<close>

subsection \<open>Atomic replacement\<close>

text \<open>At every point of an atomic replacement, so also when the process dies there, the path holds
  the complete old content or the complete new content; the function reports success exactly when
  the new content is in place, and it leaves no temporary file behind if removal works.\<close>

lemma atomic_write_all_or_nothing:
  assumes run: "atomicWriteFile path data env fs = (err, states)"
    and changed: "target fs \<noteq> Some data" and clean: "temporary fs = None" and "removeOk env"
  shows "(\<forall>t \<in> set states. target t = target fs \<or> target t = Some data)
    \<and> (err = None \<longleftrightarrow> target (last states) = Some data)
    \<and> (err \<noteq> None \<longrightarrow> target (last states) = target fs)
    \<and> temporary (last states) = None"
proof (cases err)
  case None
  with atomicWriteFile_states [OF run] atomicWriteFile_success [OF run [unfolded None]] show ?thesis by blast
next
  case (Some e)
  with atomicWriteFile_states [OF run] atomicWriteFile_failure [OF run [unfolded Some]] changed
    atomicWriteFile_no_litter [OF run \<open>removeOk env\<close> clean] show ?thesis by auto
qed

definition exWriteEnv :: writeEnv where
  "exWriteEnv = \<lparr>mkdirOk = True, createOk = True, chmodOk = True, writeOk = False, partialBytes = 2,
     syncOk = True, closeOk = True, renameOk = True, removeOk = True\<rparr>"

lemma atomic_write_all_or_nothing_witness:
  "target (last (snd (atomicWriteFile ''f'' ''new'' exWriteEnv \<lparr>target = Some ''old'', temporary = None\<rparr>)))
   = Some ''old''"
proof -
  define r where "r = atomicWriteFile ''f'' ''new'' exWriteEnv \<lparr>target = Some ''old'', temporary = None\<rparr>"
  have run: "atomicWriteFile ''f'' ''new'' exWriteEnv \<lparr>target = Some ''old'', temporary = None\<rparr>
      = (Some WriteFailed, snd r)"
    by (simp add: r_def atomicWriteFile_def exWriteEnv_def Let_def)
  from atomic_write_all_or_nothing [OF run] show ?thesis
    unfolding r_def [symmetric] by (simp add: exWriteEnv_def)
qed

subsection \<open>Account health\<close>

text \<open>An account that rests at a time t still rests at t after any operations recorded no later
  than t (late successes, shorter deadlines, other accounts), unless its credentials have been
  replaced: a deadline is only ever extended.\<close>

lemma rest_is_never_shortened:
  assumes "\<not> Available t h a" and "\<forall>op \<in> set ops. opTime op \<le> t \<and> \<not> isClear a op"
  shows "\<not> Available t (fold healthStep ops h) a"
  using assms by (rule healthRun_keeps_unavailable)

lemma rest_is_never_shortened_witness:
  "\<not> Available (seconds 60) (fold healthStep [OpRateLimited 2 ''a'' (seconds 3), OpSuccess 3 ''a'']
      (MarkRateLimited 1 ''a'' zeroTime newAccountHealth)) ''a''"
proof -
  have "\<not> Available (seconds 60) (MarkRateLimited 1 ''a'' zeroTime newAccountHealth) ''a''"
    by code_simp
  moreover have "\<forall>op \<in> set [OpRateLimited 2 ''a'' (seconds 3), OpSuccess 3 ''a''].
      opTime op \<le> seconds 60 \<and> \<not> isClear ''a'' op"
    by (simp add: seconds_def)
  ultimately show ?thesis by (rule rest_is_never_shortened)
qed

text \<open>A recorded failure rests exactly the account that caused it, from then until the time its
  class prescribes (the upstream's own deadline for rate limits and quota when it gives one,
  otherwise 2 minutes, 6 hours, 12 minutes for a refusal, 30 seconds for anything transient), and
  pins it without end for an authentication failure.\<close>

lemma failure_rests_account:
  "Available t (recordAccountFailureHealth now a err h) b \<longleftrightarrow>
     Available t h b \<and> (b = a \<longrightarrow> (case restUntil now err of None \<Rightarrow> False | Some u \<Rightarrow> u \<le> t))"
  by (rule recordFailure_Available)

lemma failure_rests_account_witness:
  "\<not> Available (minutes 11) (recordAccountFailureHealth 0 ''a'' disengagedError newAccountHealth) ''a''
   \<and> Available (minutes 11) (recordAccountFailureHealth 0 ''a'' disengagedError newAccountHealth) ''b''"
proof -
  have "restUntil 0 disengagedError = Some (0 + minutes 12)" "Available (minutes 11) newAccountHealth ''b''"
    "\<not> 0 + minutes 12 \<le> minutes 11"
    by code_simp+
  then show ?thesis unfolding failure_rests_account by simp
qed

subsection \<open>Policy refusals\<close>

datatype refusalOp =
    Remember gotime string
  | Ask gotime string
  | Reload gotime "(string, gotime) gomap"
  | Save gotime

fun refusalExec :: "(string \<Rightarrow> string) \<Rightarrow> refusalOp \<Rightarrow> refusals \<Rightarrow> refusals" where
  "refusalExec sha (Remember now p) r = rememberPolicyRefusal sha now p r"
| "refusalExec sha (Ask now p) r = snd (recentPolicyRefusal sha now p r)"
| "refusalExec sha (Reload now state) r = restorePolicyRefusals now state"
| "refusalExec sha (Save now) r = snd (persistedPolicyRefusals now r)"

fun refusalTime :: "refusalOp \<Rightarrow> gotime" where
  "refusalTime (Remember now _) = now"
| "refusalTime (Ask now _) = now"
| "refusalTime (Reload now _) = now"
| "refusalTime (Save now) = now"

interpretation refusal: op_system "refusalExec sha" "\<lambda>op. 0 \<le> refusalTime op" wf_refusals for sha
proof
  fix op r assume "0 \<le> refusalTime op" and "wf_refusals r"
  then show "wf_refusals (refusalExec sha op r)"
    by (cases op) (auto simp: rememberPolicyRefusal_wf recentPolicyRefusal_wf restorePolicyRefusals_wf
        persistedPolicyRefusals_def)
qed

text \<open>The refusal guard stays bounded (at most 2048 entries, one per digest) through any sequence
  of refusals, questions, saves and reloads of arbitrary persisted data, and a prompt that has just
  been refused is refused again, up to surrounding white space, until twelve minutes have passed.\<close>

lemma refusal_guard:
  assumes "\<forall>op \<in> set ops. 0 \<le> refusalTime op"
  shows "let r = fold (refusalExec sha) ops [] in
     length r \<le> 2048 \<and> distinct (map fst r)
     \<and> (\<not> blank p \<and> TrimSpace p = TrimSpace q \<and> t < now + minutes 12 \<longrightarrow>
        fst (recentPolicyRefusal sha t q (rememberPolicyRefusal sha now p r)))"
proof -
  have "wf_refusals (fold (refusalExec sha) ops [])"
    by (rule refusal.run_inv [OF assms(1)]) (simp add: wf_refusals_def)
  moreover have "fst (recentPolicyRefusal sha t q (rememberPolicyRefusal sha now p r))"
    if "\<not> blank p" "TrimSpace p = TrimSpace q" "t < now + minutes 12" for r
  proof -
    have "recentPolicyRefusal sha t q u = recentPolicyRefusal sha t p u" for u
      using that(2) by (simp add: recentPolicyRefusal_def policyRefusalKey_def)
    moreover have "t < now + policyRefusalTTL"
      using that(3) by (simp add: policyRefusalTTL_def disengagedCooldown_def)
    ultimately show ?thesis using recent_after_remember [OF that(1)] by (simp only:)
  qed
  ultimately show ?thesis
    unfolding wf_refusals_def maxPolicyRefusalEntries_def Let_def by blast
qed

lemma refusal_guard_witness:
  "fst (recentPolicyRefusal id (minutes 11) ''x '' (rememberPolicyRefusal id 0 ''x''
     (fold (refusalExec id) [Remember 0 ''y''] [])))"
proof -
  have "\<forall>op \<in> set [Remember 0 ''y'']. 0 \<le> refusalTime op" by simp
  moreover have "\<not> blank ''x''" "TrimSpace ''x'' = TrimSpace ''x ''" "minutes 11 < 0 + minutes 12" by code_simp+
  ultimately show ?thesis using refusal_guard [of "[Remember 0 ''y'']" id "''x''" "''x ''" "minutes 11" 0]
    unfolding Let_def by blast
qed

subsection \<open>The token cache\<close>

text \<open>
  The accounts the store keeps: both ids are set or neither is, an email that is not empty is not
  blank, and every string is valid UTF-8, as all strings are that come out of the JSON decoder.
\<close>

definition namedOrEmpty :: "string \<Rightarrow> bool" where
  "namedOrEmpty s \<longleftrightarrow> s = [] \<or> \<not> blank s"

definition soundAccount :: "accountToken \<Rightarrow> bool" where
  "soundAccount a \<longleftrightarrow> normalizeAccount a = a \<and> namedOrEmpty (accEmail a) \<and> validAccount a"

definition soundTokens :: "tokenSet \<Rightarrow> bool" where
  "soundTokens tok \<longleftrightarrow> namedOrEmpty (tsHomeOID tok) \<and> namedOrEmpty (tsEmail tok)
     \<and> ValidString (tsAccessToken tok) \<and> ValidString (tsRefreshToken tok) \<and> ValidString (tsEmail tok)
     \<and> ValidString (tsDisplayName tok) \<and> ValidString (tsHomeOID tok) \<and> ValidString (tsTenantID tok)"

definition soundStore :: "tokenStore \<Rightarrow> bool" where
  "soundStore s \<longleftrightarrow> (\<forall>a \<in> set (tokAccounts s). soundAccount a)"

text \<open>What the callers pass in: token sets of the identity provider and account copies of the store.\<close>

fun requestSound :: "tokenOp \<Rightarrow> bool" where
  "requestSound (TokUpsert cid stamp now tok) =
     (ValidString cid \<and> ValidString stamp \<and> soundTokens tok)"
| "requestSound (TokDelete aid) = True"
| "requestSound (TokSetProxy aid prox) = ValidString prox"
| "requestSound (TokExpire acc) = soundAccount acc"

fun sectionSound :: "storeSection \<Rightarrow> bool" where
  "sectionSound (Request op) = requestSound op"
| "sectionSound (StoreFailure now acc err) = soundAccount acc"
| "sectionSound (StoreRefreshed cid stamp now acc tok) =
     (ValidString cid \<and> ValidString stamp \<and> soundAccount acc \<and> soundTokens tok)"
| "sectionSound _ = True"

lemma plainLead_a [simp]: "plainLead CHR ''a''"
  by code_simp

lemma ValidString_words [simp]: "ValidString ''online''" "ValidString ''expired''" "ValidString ''account-''"
  by code_simp+

lemma ValidString_firstNonEmpty: "\<forall>v \<in> set vs. ValidString v \<Longrightarrow> ValidString (firstNonEmpty vs)"
  by (induction vs) auto

lemma namedOrEmpty_firstNonEmpty: "namedOrEmpty (firstNonEmpty vs)"
  by (induction vs) (auto simp: namedOrEmpty_def)

lemma normalize_fixed: "normalizeAccount a = a \<longleftrightarrow> (accID a = [] \<longleftrightarrow> accOID a = [])"
  by (cases a) (auto simp: normalizeAccount_def Let_def)

lemma soundAccount_iff:
  "soundAccount a \<longleftrightarrow> (accID a = [] \<longleftrightarrow> accOID a = []) \<and> namedOrEmpty (accEmail a) \<and> validAccount a"
  by (simp add: soundAccount_def normalize_fixed)

lemma soundStore_same: "tokAccounts t = tokAccounts s \<Longrightarrow> soundStore t = soundStore s"
  by (simp add: soundStore_def)

lemma normalize_named: "accID a \<noteq> [] \<Longrightarrow> accOID a \<noteq> [] \<Longrightarrow> normalizeAccount a = a"
  by (simp add: normalizeAccount_def)

lemma upsertAccount_sound:
  assumes "soundTokens tok" "ValidString cid" "ValidString stamp"
  shows "soundAccount (upsertAccount cid stamp now tok)"
proof -
  have "normalizeAccount (upsertAccount cid stamp now tok) = upsertAccount cid stamp now tok"
    using assms(1)
    by (intro normalize_named) (auto simp: upsertAccount_def soundTokens_def namedOrEmpty_def Let_def)
  moreover have "ValidString (''account-'' @ stamp)" using assms(3) by (rule ValidString_append [rotated]) simp
  ultimately show ?thesis using assms
    by (auto simp: soundAccount_def soundTokens_def validAccount_def upsertAccount_def Let_def
        intro!: ValidString_firstNonEmpty)
qed

lemma completeTokenSet_sound: "soundTokens tok \<Longrightarrow> soundAccount acc \<Longrightarrow> soundTokens (completeTokenSet acc tok)"
  using namedOrEmpty_firstNonEmpty [of "[accOID acc, accID acc]"]
  by (auto simp: soundTokens_def soundAccount_def validAccount_def completeTokenSet_def
      simp del: firstNonEmpty.simps intro!: ValidString_firstNonEmpty)

lemma inheritFields_sound:
  "soundAccount acc \<Longrightarrow> soundAccount e \<Longrightarrow> accOID acc \<noteq> [] \<Longrightarrow> soundAccount (inheritFields acc e)"
  by (auto simp: soundAccount_iff validAccount_def inheritFields_def)

lemma replaceOrAppend_sound:
  "replaceOrAppend acc xs = (ys, a) \<Longrightarrow> soundAccount acc \<Longrightarrow> accOID acc \<noteq> [] \<Longrightarrow>
   \<forall>x \<in> set xs. soundAccount x \<Longrightarrow> \<forall>y \<in> set ys. soundAccount y"
proof (induction xs arbitrary: ys a)
  case (Cons x xs)
  obtain ys' a' where r: "replaceOrAppend acc xs = (ys', a')" by force
  have "soundAccount (inheritFields acc x)" using Cons.prems by (intro inheritFields_sound) simp_all
  moreover have "\<forall>y \<in> set ys'. soundAccount y" using Cons.IH [OF r] Cons.prems by simp
  ultimately show ?case using Cons.prems r by (auto simp: Let_def split: if_splits)
qed auto

lemma setFirst_all: "\<forall>x \<in> set xs. Q x \<Longrightarrow> (\<And>x. Q x \<Longrightarrow> Q (f x)) \<Longrightarrow> \<forall>x \<in> set (setFirst P f xs). Q x"
  by (induction xs) auto

lemma commit_sound:
  "soundStore s \<Longrightarrow> \<forall>a \<in> set next. soundAccount a \<Longrightarrow> soundStore (snd (commitAccounts fmt next s))"
  using commit_either [of fmt "next" s] by (auto simp: soundStore_def)

lemma Upsert_sound:
  assumes "soundTokens tok" "ValidString cid" "ValidString stamp" "soundStore s"
  shows "soundStore (snd (Upsert fmt cid stamp now tok s))"
proof -
  obtain ys a where r: "replaceOrAppend (upsertAccount cid stamp now tok) (tokAccounts s) = (ys, a)" by force
  have "accOID (upsertAccount cid stamp now tok) \<noteq> []"
    using assms(1) by (auto simp: upsertAccount_def soundTokens_def namedOrEmpty_def Let_def)
  with r assms have "\<forall>a \<in> set ys. soundAccount a"
    by (intro replaceOrAppend_sound [OF r upsertAccount_sound]) (simp_all add: soundStore_def)
  with assms(4) have "soundStore (snd (commitAccounts fmt ys s))" by (rule commit_sound)
  with r show ?thesis by (simp add: Upsert_def case_prod_beta)
qed

lemma soundAccount_expired: "soundAccount acc \<Longrightarrow> soundAccount (acc\<lparr>accStatus := ''expired''\<rparr>)"
  by (auto simp: soundAccount_iff validAccount_def)

lemma soundAccount_proxy: "soundAccount a \<Longrightarrow> ValidString prox \<Longrightarrow> soundAccount (a\<lparr>accProxy := prox\<rparr>)"
  by (auto simp: soundAccount_iff validAccount_def)

lemma commitFirst_sound:
  "soundStore s \<Longrightarrow> (\<And>a. soundAccount a \<Longrightarrow> soundAccount (f a)) \<Longrightarrow>
   soundStore (snd (commitAccounts fmt (setFirst P f (tokAccounts s)) s))"
  by (intro commit_sound setFirst_all) (simp_all add: soundStore_def)

lemma tokExec_sound: "requestSound op \<Longrightarrow> soundStore s \<Longrightarrow> soundStore (tokExec fmt op s)"
  by (cases op)
     (auto simp: Upsert_sound Delete_def SetProxy_def markExpired_def case_prod_beta Let_def
       intro!: commit_sound [where s = s] commitFirst_sound soundAccount_proxy soundAccount_expired,
      auto simp: soundStore_def)

lemma storeExec_sound: "sectionSound op \<Longrightarrow> soundStore s \<Longrightarrow> soundStore (storeExec fmt op s)"
proof (cases op)
  case (StoreFailure now acc err)
  assume "sectionSound op" and "soundStore s"
  then have "soundStore (s\<lparr>tokBackoff := b\<rparr>)" "soundAccount (acc\<lparr>accStatus := ''expired''\<rparr>)" for b
    using StoreFailure by (simp_all add: soundStore_def soundAccount_expired)
  then show ?thesis
    using StoreFailure commitFirst_sound [of "s\<lparr>tokBackoff := _\<rparr>" "\<lambda>_. acc\<lparr>accStatus := ''expired''\<rparr>"]
    by (auto simp: recordRefreshFailure_def Let_def case_prod_beta)
next
  case (EnterRefresh rfc now acc)
  assume "soundStore s"
  moreover have "tokAccounts (storeExec fmt op s) = tokAccounts s" using EnterRefresh
    by (auto simp: beginRefresh_def beginFlight_def Let_def split: option.splits)
  ultimately show ?thesis using soundStore_same by blast
next
  case (ClearBackoff aid)
  assume "soundStore s"
  with ClearBackoff soundStore_same [of "storeExec fmt op s" s] show ?thesis by (simp add: clearBackoff_def)
next
  case (EndFlight aid)
  assume "soundStore s"
  with EndFlight soundStore_same [of "storeExec fmt op s" s] show ?thesis by (simp add: endFlight_def)
qed (simp_all add: tokExec_sound Upsert_sound completeTokenSet_sound)

interpretation tokSound: op_system "storeExec fmt" sectionSound soundStore for fmt
  by unfold_locales (rule storeExec_sound)

text \<open>The store keeps the contract of a durable store, document for document.\<close>

fun sectionFailed :: "(gotime \<Rightarrow> string option) \<Rightarrow> storeSection \<Rightarrow> tokenStore \<Rightarrow> bool" where
  "sectionFailed fmt (Request (TokUpsert cid stamp now tok)) s = (fst (Upsert fmt cid stamp now tok s) = None)"
| "sectionFailed fmt (Request (TokDelete aid)) s = (\<not> fst (Delete fmt aid s))"
| "sectionFailed fmt (Request (TokSetProxy aid prox)) s = (fst (SetProxy fmt aid prox s) \<noteq> None)"
| "sectionFailed fmt (StoreRefreshed cid stamp now acc tok) s =
     (fst (Upsert fmt cid stamp now (completeTokenSet acc tok) s) = None)"
| "sectionFailed fmt _ s = False"

definition storeKept :: "tokenStore \<Rightarrow> tokenStore \<Rightarrow> bool" where
  "storeKept s t \<longleftrightarrow> tokAccounts t = tokAccounts s \<and> contents (tokFile t) = contents (tokFile s)"

definition storeSynced :: "(gotime \<Rightarrow> string option) \<Rightarrow> tokenStore \<Rightarrow> bool" where
  "storeSynced fmt t \<longleftrightarrow> diskDoc t = Some (memoryDoc fmt t)"

lemma commit_outcome:
  "(\<not> fst (commitAccounts fmt next s) \<and> storeKept s (snd (commitAccounts fmt next s)))
   \<or> (fst (commitAccounts fmt next s) \<and> storeSynced fmt (snd (commitAccounts fmt next s)))"
  using commit_either [of fmt "next" s] by (auto simp: storeKept_def storeSynced_def)

lemma Upsert_cases:
  "(fst (Upsert fmt cid stamp now tok s) = None \<and> storeKept s (snd (Upsert fmt cid stamp now tok s)))
   \<or> (fst (Upsert fmt cid stamp now tok s) \<noteq> None \<and> storeSynced fmt (snd (Upsert fmt cid stamp now tok s)))"
  using commit_outcome [of fmt "fst (replaceOrAppend (upsertAccount cid stamp now tok) (tokAccounts s))" s]
  by (auto simp: Upsert_def case_prod_beta Let_def)

lemma recordRefreshFailure_cases:
  "storeKept s (snd (recordRefreshFailure fmt now acc err s))
   \<or> storeSynced fmt (snd (recordRefreshFailure fmt now acc err s))"
proof -
  have k: "storeKept (s\<lparr>tokBackoff := b\<rparr>) t = storeKept s t" for b t by (simp add: storeKept_def)
  show ?thesis
    using commit_outcome [of fmt "setFirst (\<lambda>a. accID a = accID acc) (\<lambda>_. acc\<lparr>accStatus := ''expired''\<rparr>) (tokAccounts s)"
        "s\<lparr>tokBackoff := AList.update (accID acc) (now + refreshFailureBackoff) (tokBackoff s)\<rparr>"]
    by (auto simp: recordRefreshFailure_def Let_def case_prod_beta k) (auto simp: storeKept_def)
qed

lemma storeExec_cases:
  "(sectionFailed fmt op s \<longrightarrow> storeKept s (storeExec fmt op s))
   \<and> (storeKept s (storeExec fmt op s) \<or> storeSynced fmt (storeExec fmt op s))"
proof (cases op)
  case (Request r)
  show ?thesis
  proof (cases r)
    case (TokUpsert cid stamp now tok)
    with Request show ?thesis using Upsert_cases [of fmt cid stamp now tok s] by auto
  next
    case (TokDelete aid)
    with Request show ?thesis using commit_outcome [of fmt "filter (\<lambda>a. accID a \<noteq> aid) (tokAccounts s)" s]
      by (auto simp: Delete_def)
  next
    case (TokSetProxy aid prox)
    with Request show ?thesis
      using commit_outcome [of fmt "setFirst (\<lambda>a. accID a = aid) (\<lambda>a. a\<lparr>accProxy := prox\<rparr>) (tokAccounts s)" s]
      by (auto simp: SetProxy_def case_prod_beta) (auto simp: storeKept_def)
  next
    case (TokExpire acc)
    with Request show ?thesis
      using commit_outcome [of fmt "setFirst (\<lambda>a. accID a = accID acc) (\<lambda>_. acc\<lparr>accStatus := ''expired''\<rparr>) (tokAccounts s)" s]
      by (auto simp: markExpired_def Let_def) (auto simp: storeKept_def)
  qed
next
  case (StoreFailure now acc err)
  then show ?thesis using recordRefreshFailure_cases [of s fmt now acc err] by simp
next
  case (StoreRefreshed cid stamp now acc tok)
  then show ?thesis using Upsert_cases [of fmt cid stamp now "completeTokenSet acc tok" s] by auto
next
  case (EnterRefresh rfc now acc)
  then show ?thesis
    by (auto simp: beginRefresh_def beginFlight_def storeKept_def Let_def split: option.splits)
qed (simp_all add: clearBackoff_def endFlight_def storeKept_def)

interpretation tok: durable_store "storeExec fmt" "sectionFailed fmt" "memoryDoc fmt" diskDoc
    "encodeCache fmt False []" for fmt
proof
  show "memoryDoc fmt (storeExec fmt op s) = memoryDoc fmt s \<and> diskDoc (storeExec fmt op s) = diskDoc s"
    if "sectionFailed fmt op s" for op s
    using storeExec_cases [of fmt op s] that by (simp add: storeKept_def memoryDoc_def diskDoc_def)
  show "memoryDoc fmt (storeExec fmt op s) = memoryDoc fmt s \<and> diskDoc (storeExec fmt op s) = diskDoc s
      \<or> diskDoc (storeExec fmt op s) = Some (memoryDoc fmt (storeExec fmt op s))"
    if "\<not> sectionFailed fmt op s" for op s
    using storeExec_cases [of fmt op s] by (auto simp: storeKept_def storeSynced_def memoryDoc_def diskDoc_def)
qed

lemma storeExec_run:
  "storeKept s (fold (storeExec fmt) ops s) \<or> storeSynced fmt (fold (storeExec fmt) ops s)"
proof (induction ops rule: rev_induct)
  case Nil
  then show ?case by (simp add: storeKept_def)
next
  case (snoc op ops)
  let ?t = "fold (storeExec fmt) ops s"
  have "storeKept ?t (storeExec fmt op ?t) \<or> storeSynced fmt (storeExec fmt op ?t)"
    using storeExec_cases by blast
  with snoc show ?case
    by (auto simp: storeKept_def storeSynced_def diskDoc_def memoryDoc_def)
qed

text \<open>A store in step with its file finds its accounts there again.\<close>

lemma synced_reload:
  assumes codec: "\<forall>t s. fmt t = Some s \<longrightarrow> parse s = Some t"
    and sync: "storeSynced fmt s" and sound: "soundStore s"
  shows "map_option tokAccounts (OpenStore parse (tokFile s)) = Some (tokAccounts s)"
proof -
  from sync obtain d where d: "contents (tokFile s) = Some d" "encodeCache fmt False (tokAccounts s) = Some (normDoc d)"
    by (auto simp: storeSynced_def diskDoc_def memoryDoc_def)
  have "decodeCache parse (normDoc d) = Some (tokAccounts s)"
    using sound by (intro decode_encode_cache [OF codec d(2)]) (auto simp: soundStore_def soundAccount_def)
  moreover have "map normalizeAccount (tokAccounts s) = tokAccounts s"
    using sound by (intro map_idI) (auto simp: soundStore_def soundAccount_def)
  ultimately show ?thesis using d(1) by (simp add: OpenStore_def decodeCache_normDoc)
qed

text \<open>C7: a store is opened on any readable cache file whose accounts are well formed. Then logins,
  deletions, proxy changes, expiries and all the sections of token refreshes run in any order and
  interleaving, and any of their file writes (and encodings) may fail. Opening the cache file again
  finds exactly the accounts that were in memory, in the same order with all their fields.\<close>

theorem token_store_survives_restart:
  assumes codec: "\<forall>t s. fmt t = Some s \<longrightarrow> parse s = Some t"
    and opened: "OpenStore parse f = Some s\<^sub>0" and loaded: "soundStore s\<^sub>0"
    and ops: "\<forall>op \<in> set ops. sectionSound op"
  shows "map_option tokAccounts (OpenStore parse (tokFile (fold (storeExec fmt) ops s\<^sub>0)))
    = Some (tokAccounts (fold (storeExec fmt) ops s\<^sub>0))"
proof -
  let ?s = "fold (storeExec fmt) ops s\<^sub>0"
  consider "storeKept s\<^sub>0 ?s" | "storeSynced fmt ?s" using storeExec_run by blast
  then show ?thesis
  proof cases
    case 1
    moreover have "tokFile s\<^sub>0 = f" using opened by (auto simp: OpenStore_def split: option.splits)
    ultimately show ?thesis using opened
      by (auto simp: storeKept_def OpenStore_def split: option.splits)
  next
    case 2
    then show ?thesis by (rule synced_reload [OF codec _ tokSound.run_inv [OF ops loaded]])
  qed
qed

definition exLogin :: tokenSet where
  "exLogin = \<lparr>tsAccessToken = ''t'', tsRefreshToken = ''r'', tsExpiresAt = hours 1, tsEmail = ''e1'',
              tsDisplayName = [], tsHomeOID = ''B'', tsTenantID = []\<rparr>"

text \<open>Times as decimal nanoseconds, for the examples.\<close>

definition exFormat :: "gotime \<Rightarrow> string option" where
  "exFormat t = (if fitsInt64 t then Some (showInt t) else None)"

definition exStale :: accountToken where
  "exStale = emptyAccount\<lparr>accID := ''A'', accOID := ''A'', accEmail := ''a''\<rparr>"

definition exSections :: "storeSection list" where
  "exSections = [Request (TokUpsert ''c'' ''1'' 0 exLogin), EnterRefresh (\<lambda>_. []) (hours 2) exStale,
     StoreFailure (hours 2) exStale expiredError, Request (TokDelete ''B''), EndFlight ''A'']"

theorem token_store_survives_restart_witness:
  "map_option tokAccounts (OpenStore ParseInt (tokFile (fold (storeExec exFormat) exSections
      \<lparr>tokAccounts = [], tokFile = File None [True, False], tokInflight = [], tokBackoff = []\<rparr>)))
    = Some (tokAccounts (fold (storeExec exFormat) exSections
      \<lparr>tokAccounts = [], tokFile = File None [True, False], tokInflight = [], tokBackoff = []\<rparr>))"
proof -
  have "\<forall>t s. exFormat t = Some s \<longrightarrow> ParseInt s = Some t"
    by (auto simp: exFormat_def ParseInt_showInt split: if_splits)
  moreover have "OpenStore ParseInt (File None [True, False])
      = Some \<lparr>tokAccounts = [], tokFile = File None [True, False], tokInflight = [], tokBackoff = []\<rparr>"
    by (simp add: OpenStore_def)
  moreover have "soundStore \<lparr>tokAccounts = [], tokFile = File None [True, False], tokInflight = [], tokBackoff = []\<rparr>"
    by (simp add: soundStore_def)
  moreover have "\<forall>op \<in> set exSections. sectionSound op" by code_simp
  ultimately show ?thesis by (rule token_store_survives_restart)
qed

text \<open>A login never makes two accounts share an id as long as its email does not already belong to
  an account with another id, and it stores the new account under its id.\<close>

lemma upsert_keeps_ids_distinct:
  assumes "distinct (map accID (tokAccounts s))"
    and "noForeignEmail (upsertAccount cid stamp now tok) (tokAccounts s)"
  shows "distinct (map accID (tokAccounts (snd (Upsert fmt cid stamp now tok s))))
    \<and> (case fst (Upsert fmt cid stamp now tok s) of
         None \<Rightarrow> tokAccounts (snd (Upsert fmt cid stamp now tok s)) = tokAccounts s
       | Some a \<Rightarrow> find (\<lambda>c. accID c = accID a) (tokAccounts (snd (Upsert fmt cid stamp now tok s))) = Some a)"
proof -
  obtain ys a where r: "replaceOrAppend (upsertAccount cid stamp now tok) (tokAccounts s) = (ys, a)" by force
  have d: "distinct (map accID ys)" by (rule replaceOrAppend_distinct [OF r assms])
  show ?thesis
  proof (cases "Upsert fmt cid stamp now tok s")
    case (Pair st s')
    show ?thesis
    proof (cases st)
      case None
      then have "tokAccounts s' = tokAccounts s" using Pair r commit_either [of fmt ys s]
        by (auto simp: Upsert_def case_prod_beta split: if_splits)
      with None Pair assms show ?thesis by simp
    next
      case (Some b)
      then have "tokAccounts s' = ys" using Pair r commit_either [of fmt ys s]
        by (auto simp: Upsert_def case_prod_beta split: if_splits)
      moreover have "find (\<lambda>c. accID c = accID b) (tokAccounts s') = Some b"
        using Upsert_stored [of fmt cid stamp now tok s b s'] Some Pair by blast
      ultimately show ?thesis using Some Pair d by simp
    qed
  qed
qed

definition exNone :: tokenStore where
  "exNone = \<lparr>tokAccounts = [], tokFile = File None [], tokInflight = [], tokBackoff = []\<rparr>"

lemma upsert_keeps_ids_distinct_witness:
  "distinct (map accID (tokAccounts (snd (Upsert exFormat ''c'' ''1'' 0 exLogin exNone))))"
proof -
  have "distinct (map accID (tokAccounts exNone))"
    and "noForeignEmail (upsertAccount ''c'' ''1'' 0 exLogin) (tokAccounts exNone)"
    by (simp_all add: exNone_def noForeignEmail_def)
  from upsert_keeps_ids_distinct [OF this] show ?thesis by blast
qed

text \<open>
  The condition on the email is needed. With accounts A (email e1) and B (email e2), a login of B
  that reports the email e1 replaces A and leaves two accounts with the id B, of which Delete
  then removes both.
\<close>

definition exTwo :: tokenStore where
  "exTwo = \<lparr>tokAccounts = [emptyAccount\<lparr>accID := ''A'', accEmail := ''e1''\<rparr>,
                            emptyAccount\<lparr>accID := ''B'', accEmail := ''e2''\<rparr>],
            tokFile = File None [], tokInflight = [], tokBackoff = []\<rparr>"

lemma upsert_duplicates_id:
  "map accID (tokAccounts (snd (Upsert (\<lambda>_. Some []) ''c'' ''1'' 0 exLogin exTwo))) = [''B'', ''B'']
   \<and> tokAccounts (snd (Delete (\<lambda>_. Some []) ''B'' (snd (Upsert (\<lambda>_. Some []) ''c'' ''1'' 0 exLogin exTwo)))) = []"
  by code_simp

subsection \<open>Refreshing\<close>

text \<open>C6: in every reachable configuration of concurrent callers, finishing flights and other store
  requests, at most one flight per account is at the token endpoint, and a caller is told to lead
  a flight only when none is under way for its account.\<close>

theorem single_flight:
  assumes "flightReachable c"
  shows "distinct (map accID (flLeaders c))
    \<and> (\<forall>rfc now acc a st. beginRefresh rfc now acc (flStore c) = (FlightLead a, st) \<longrightarrow>
          accID a \<notin> accID ` set (flLeaders c))"
proof -
  have inv: "flightInv c" by (rule flightReachable_inv [OF assms])
  then have "accID a \<notin> accID ` set (flLeaders c)"
    if "beginRefresh rfc now acc (flStore c) = (FlightLead a, st)" for rfc now acc a st
    using beginRefresh_lead [OF that] by (auto simp: flightInv_def)
  with inv show ?thesis by (auto simp: flightInv_def)
qed

definition exFlight :: flightSystem where
  "exFlight = \<lparr>flStore = exTwo\<lparr>tokInflight := [''A'']\<rparr>, flLeaders = [emptyAccount\<lparr>accID := ''A'', accEmail := ''e1''\<rparr>]\<rparr>"

theorem single_flight_witness: "distinct (map accID (flLeaders exFlight))"
proof -
  have "beginRefresh (\<lambda>_. []) 0 (emptyAccount\<lparr>accID := ''A''\<rparr>) exTwo
      = (FlightLead (emptyAccount\<lparr>accID := ''A'', accEmail := ''e1''\<rparr>), exTwo\<lparr>tokInflight := [''A'']\<rparr>)"
    by (simp add: beginRefresh_def beginFlight_def exTwo_def emptyAccount_def usableAt_def expirySlack_def seconds_def)
  from flightStep.enterLead [of _ _ _ "\<lparr>flStore = exTwo, flLeaders = []\<rparr>", simplified, OF this]
  have "flightStep \<lparr>flStore = exTwo, flLeaders = []\<rparr> exFlight" by (simp add: exFlight_def)
  moreover have "flightReachable \<lparr>flStore = exTwo, flLeaders = []\<rparr>"
    by (rule flightReachable.opened) (simp add: exTwo_def)
  ultimately have "flightReachable exFlight" by (rule flightReachable.stepped [rotated])
  from single_flight [OF this] show ?thesis by blast
qed

text \<open>After a refresh the token endpoint has refused, every caller of that account is turned away
  without a network call for five minutes; after a refresh that succeeded, a caller that still
  holds the old token is given the new one without redeeming the refresh token again.\<close>

lemma refresh_outcome_is_shared:
  assumes fin: "finishRefresh fmt (\<lambda>_. id) cid stamp now acc net s = ((a, err), s')"
    and caller: "accID old = accID acc"
  shows "case net of
      RefreshError e \<Rightarrow> t < now + minutes 5 \<longrightarrow> (\<exists>e'. beginRefresh rfc t old s' = (FlightBackoff old e', s'))
    | Refreshed tok \<Rightarrow> err = None \<and> accID a = accID acc \<and> t < tsExpiresAt tok - expirySlack \<longrightarrow>
        beginRefresh rfc t old s' = (FlightFresh a, s')
    | ClientError e \<Rightarrow> err = Some e \<and> tokAccounts s' = tokAccounts s \<and> tokBackoff s' = tokBackoff s"
proof (cases net)
  case (ClientError e)
  with fin show ?thesis by (auto simp: finishRefresh_def endFlight_def)
next
  case (RefreshError e)
  with beginRefresh_after_failure [OF fin [unfolded RefreshError] _ caller] show ?thesis
    by (simp add: refreshFailureBackoff_def)
next
  case (Refreshed tok)
  with beginRefresh_after_success [of fmt cid stamp now acc tok s a s' old t rfc] fin caller show ?thesis by auto
qed

lemma refresh_outcome_is_shared_witness:
  "\<exists>e'. beginRefresh (\<lambda>_. []) (minutes 4) (emptyAccount\<lparr>accID := ''A''\<rparr>)
      (snd (finishRefresh exFormat (\<lambda>_. id) ''c'' ''1'' 0 (emptyAccount\<lparr>accID := ''A''\<rparr>) (RefreshError expiredError) exTwo))
    = (FlightBackoff (emptyAccount\<lparr>accID := ''A''\<rparr>) e',
       snd (finishRefresh exFormat (\<lambda>_. id) ''c'' ''1'' 0 (emptyAccount\<lparr>accID := ''A''\<rparr>) (RefreshError expiredError) exTwo))"
proof -
  obtain a err s' where f: "finishRefresh exFormat (\<lambda>_. id) ''c'' ''1'' 0 (emptyAccount\<lparr>accID := ''A''\<rparr>)
      (RefreshError expiredError) exTwo = ((a, err), s')"
    by (metis prod.exhaust)
  have "minutes 4 < 0 + minutes 5" by (simp add: minutes_def seconds_def)
  with refresh_outcome_is_shared [OF f refl, of "minutes 4" "\<lambda>_. []"] f show ?thesis by simp
qed

subsection \<open>Upstream errors\<close>

text \<open>The failure classes exclude each other where the router depends on it: a policy refusal and a
  caller's own cancellation are never account failures, a shared upstream failure is never one of
  the account-specific classes, and wrapping an error with context changes neither its status code
  nor its retry deadline.\<close>

lemma failure_classes_disjoint:
  "(IsDisengaged err \<longrightarrow> \<not> IsUpstreamAccountFailure err \<and> \<not> isSharedUpstreamFailure err
      \<and> accountFailureClass err = PolicyRefusal)
   \<and> (isSharedUpstreamFailure err \<longrightarrow> accountFailureClass err = TransientUpstreamClass)
   \<and> (errorsIs e ContextCanceled \<longrightarrow>
        \<not> IsUpstreamAccountFailure (Some (wrapError msg e)) \<and> \<not> isSharedUpstreamFailure (Some (wrapError msg e)))
   \<and> firstHTTPStatus (errChain (wrapError msg e)) = firstHTTPStatus (errChain e)
   \<and> rateLimitRetryUntil now (wrapError msg e) = rateLimitRetryUntil now e"
proof -
  have "IsDisengaged err \<Longrightarrow> \<not> IsUpstreamAccountFailure err \<and> \<not> isSharedUpstreamFailure err
      \<and> accountFailureClass err = PolicyRefusal"
    by (cases err) (auto simp: IsUpstreamAccountFailure_def isSharedUpstreamFailure_def accountFailureClass_def)
  moreover have "isSharedUpstreamFailure err \<Longrightarrow> accountFailureClass err = TransientUpstreamClass"
    by (cases err) (auto simp: isSharedUpstreamFailure_def accountFailureClass_def split: if_splits)
  moreover have w: "errorsIs e n \<Longrightarrow> errorsIs (wrapError msg e) n" for n
    by (simp add: errorsIs_def wrapError_def)
  then have "errorsIs e ContextCanceled \<Longrightarrow>
        \<not> IsUpstreamAccountFailure (Some (wrapError msg e)) \<and> \<not> isSharedUpstreamFailure (Some (wrapError msg e))"
    by (auto simp: IsUpstreamAccountFailure_def isSharedUpstreamFailure_def IsTransientUpstream_def)
  moreover have "firstHTTPStatus (errChain (wrapError msg e)) = firstHTTPStatus (errChain e)"
    "rateLimitRetryUntil now (wrapError msg e) = rateLimitRetryUntil now e"
    by (simp_all add: wrapError_def rateLimitRetryUntil_def)
  ultimately show ?thesis by blast
qed

lemma failure_classes_disjoint_witness:
  "\<not> IsUpstreamAccountFailure (Some disengagedError) \<and> \<not> isSharedUpstreamFailure (Some disengagedError)"
proof -
  have "IsDisengaged (Some disengagedError)" by code_simp
  then show ?thesis using failure_classes_disjoint [of "Some disengagedError" disengagedError "[]" 0] by blast
qed

text \<open>A Retry-After header with a number of seconds (and any white space around it) up to about
  292 years is read as exactly that delay and the deadline it implies; a blank header and one
  that is neither a number nor a date give no deadline.\<close>

lemma retry_after_seconds:
  assumes "TrimSpace raw = (if n < 0 then [] else showInt n)" and "n \<le> 9223372036"
  shows "parseRetryAfter http raw now =
    (if n < 0 then (0, zeroTime) else (seconds n, now + seconds n))"
proof (cases "n < 0")
  case True
  with assms show ?thesis by (simp add: parseRetryAfter_def)
next
  case False
  then have fits: "fitsInt64 n" "fitsInt64 (seconds n)"
    using assms(2) by (simp_all add: fitsInt64_def seconds_def)
  have "showInt n \<noteq> []"
  proof
    assume "showInt n = []"
    with ParseInt_showInt [OF fits(1)] show False by (simp add: ParseInt_def)
  qed
  with False assms fits show ?thesis by (simp add: parseRetryAfter_def ParseInt_showInt Let_def)
qed

lemma retry_after_seconds_witness:
  "parseRetryAfter (\<lambda>_. None) '' 120 '' 5 = (seconds 120, 5 + seconds 120)"
proof -
  have "TrimSpace '' 120 '' = (if (120::int) < 0 then [] else showInt 120)" by code_simp
  from retry_after_seconds [OF this] show ?thesis by simp
qed

text \<open>
  Beyond that bound the multiplication by a second overflows: the delay the header describes as
  non-negative comes out negative.
\<close>

lemma retry_after_overflow:
  assumes "TrimSpace raw = showInt 9223372037"
  shows "fst (parseRetryAfter http raw now) = -9223372036709551616"
proof -
  have p: "ParseInt (showInt 9223372037) = Some 9223372037" by (rule ParseInt_showInt) (simp add: fitsInt64_def)
  then have "showInt 9223372037 \<noteq> []" by (auto simp: ParseInt_def)
  then show ?thesis using assms p by (simp add: parseRetryAfter_def Let_def seconds_def wrapInt64_def)
qed

end
