(* ===== verification/ApiKeys.thy ===== *)
theory ApiKeys
  imports GoText AtomicFile
begin

text \<open>
  The API key store of internal/web/keys.go and its two users in internal/web/server.go, the
  handler adminKeys and the check validAPIKey. Random bytes, SHA-256 and the calendar arithmetic
  of time.AddDate are arguments; a request body is given by the result of decoding it.
\<close>

subsection \<open>State\<close>

record apiKeyRecord =
  krID :: string
  krName :: string
  krPrefix :: string
  krHash :: string
  krCreatedAt :: gotime
  krLastUsedAt :: "gotime option"
  krExpiresAt :: "gotime option"
  krRevoked :: bool

record apiKeyStore =
  keysMem :: "apiKeyRecord list"
  keysFile :: "apiKeyRecord list diskfile"

text \<open>The standard library behind the store.\<close>

record keyEnv =
  keSHA256 :: "string \<Rightarrow> string"
  keAddDays :: "gotime \<Rightarrow> int \<Rightarrow> gotime"

definition openAPIKeys :: "apiKeyRecord list diskfile \<Rightarrow> apiKeyStore" where
  "openAPIKeys f = \<lparr>keysMem = (case contents f of None \<Rightarrow> [] | Some keys \<Rightarrow> keys), keysFile = f\<rparr>"

definition keyHash :: "keyEnv \<Rightarrow> string \<Rightarrow> string" where
  "keyHash env k = hexEncode (keSHA256 env k)"

text \<open>\<open>saveKeysLocked\<close> and the assignment behind it.\<close>

definition commitKeys :: "apiKeyRecord list \<Rightarrow> apiKeyStore \<Rightarrow> bool \<times> apiKeyStore" where
  "commitKeys next s =
     (let (ok, f) = writeFile next (keysFile s)
      in if ok then (True, s\<lparr>keysMem := next, keysFile := f\<rparr>) else (False, s\<lparr>keysFile := f\<rparr>))"

subsection \<open>Operations\<close>

definition newKeyRecord :: "keyEnv \<Rightarrow> gotime \<Rightarrow> string \<Rightarrow> string \<Rightarrow> int \<Rightarrow> apiKeyRecord" where
  "newKeyRecord env now b name days =
     (let raw = ''m365_'' @ hexEncode b
      in \<lparr>krID = hexEncode (take 8 b), krName = name, krPrefix = take 12 raw, krHash = keyHash env raw,
          krCreatedAt = now, krLastUsedAt = None,
          krExpiresAt = (if days > 0 then Some (keAddDays env now days) else None), krRevoked = False\<rparr>)"

definition createKey ::
  "keyEnv \<Rightarrow> gotime \<Rightarrow> string option \<Rightarrow> string \<Rightarrow> int \<Rightarrow> apiKeyStore \<Rightarrow>
   (apiKeyRecord \<times> string) option \<times> apiKeyStore" where
  "createKey env now random name days s =
     (case random of
        None \<Rightarrow> (None, s)
      | Some b \<Rightarrow>
          let raw = ''m365_'' @ hexEncode b;
              r = newKeyRecord env now b name days;
              (ok, s') = commitKeys (keysMem s @ [r]) s
          in if ok then (Some (r, raw), s') else (None, s'))"

definition listKeys :: "apiKeyStore \<Rightarrow> apiKeyRecord list" where
  "listKeys s = map (\<lambda>k. k\<lparr>krHash := []\<rparr>) (keysMem s)"

text \<open>The first record that satisfies a condition is replaced or removed; None: there is none.\<close>

fun changeFirst :: "('a \<Rightarrow> bool) \<Rightarrow> ('a \<Rightarrow> 'a list) \<Rightarrow> 'a list \<Rightarrow> 'a list option" where
  "changeFirst P f [] = None"
| "changeFirst P f (x # xs) =
     (if P x then Some (f x @ xs) else map_option (\<lambda>ys. x # ys) (changeFirst P f xs))"

datatype keyOutcome = KeyDone | KeyMissing | KeyStorageError

definition changeKeys :: "apiKeyRecord list option \<Rightarrow> apiKeyStore \<Rightarrow> keyOutcome \<times> apiKeyStore" where
  "changeKeys next s =
     (case next of
        None \<Rightarrow> (KeyMissing, s)
      | Some keys \<Rightarrow> (let (ok, s') = commitKeys keys s in (if ok then KeyDone else KeyStorageError, s')))"

definition revokeKey :: "string \<Rightarrow> apiKeyStore \<Rightarrow> keyOutcome \<times> apiKeyStore" where
  "revokeKey kid s =
     changeKeys (changeFirst (\<lambda>k. krID k = kid \<and> \<not> krRevoked k) (\<lambda>k. [k\<lparr>krRevoked := True\<rparr>]) (keysMem s)) s"

definition removeKey :: "string \<Rightarrow> apiKeyStore \<Rightarrow> keyOutcome \<times> apiKeyStore" where
  "removeKey kid s = changeKeys (changeFirst (\<lambda>k. krID k = kid) (\<lambda>_. []) (keysMem s)) s"

definition setExpiry ::
  "keyEnv \<Rightarrow> gotime \<Rightarrow> string \<Rightarrow> int \<Rightarrow> apiKeyStore \<Rightarrow> keyOutcome \<times> apiKeyStore" where
  "setExpiry env now kid days s =
     changeKeys (changeFirst (\<lambda>k. krID k = kid)
       (\<lambda>k. [k\<lparr>krExpiresAt := (if days > 0 then Some (keAddDays env now days) else None)\<rparr>]) (keysMem s)) s"

definition keyAccepts :: "keyEnv \<Rightarrow> gotime \<Rightarrow> string \<Rightarrow> apiKeyRecord \<Rightarrow> bool" where
  "keyAccepts env now raw k \<longleftrightarrow>
     krHash k = keyHash env raw \<and> \<not> krRevoked k
     \<and> \<not> (case krExpiresAt k of None \<Rightarrow> False | Some e \<Rightarrow> now > e)"

text \<open>The time of use is noted in memory only.\<close>

definition validKey :: "keyEnv \<Rightarrow> gotime \<Rightarrow> string \<Rightarrow> apiKeyStore \<Rightarrow> bool \<times> apiKeyStore" where
  "validKey env now raw s =
     (case changeFirst (keyAccepts env now raw) (\<lambda>k. [k\<lparr>krLastUsedAt := Some now\<rparr>]) (keysMem s) of
        None \<Rightarrow> (False, s)
      | Some keys \<Rightarrow> (True, s\<lparr>keysMem := keys\<rparr>))"

subsection \<open>The request check\<close>

definition bearerPrefix :: string where
  "bearerPrefix = ''bearer ''"

text \<open>The key of a request: the X-API-Key header, otherwise the bearer token.\<close>

definition requestKey :: "string \<Rightarrow> string \<Rightarrow> string" where
  "requestKey xAPIKey authorization =
     (let raw = TrimSpace xAPIKey
      in if raw = [] then
           (if HasPrefix (ToLower authorization) bearerPrefix then TrimSpace (drop 7 authorization) else raw)
         else raw)"

definition validAPIKey :: "keyEnv \<Rightarrow> gotime \<Rightarrow> string \<Rightarrow> string \<Rightarrow> apiKeyStore \<Rightarrow> bool \<times> apiKeyStore" where
  "validAPIKey env now xAPIKey authorization s =
     (let raw = requestKey xAPIKey authorization
      in if raw = [] then (False, s) else validKey env now raw s)"

subsection \<open>The administration handler\<close>

datatype keysRequest =
    KeysGet
  | KeysPost "(string \<times> int) option" "string option"
  | KeysPatch "(string \<times> int) option"
  | KeysDelete string bool
  | KeysOther

datatype keysResponse =
    KeysListed "apiKeyRecord list"
  | KeysCreated string apiKeyRecord
  | KeysOK string
  | KeysError nat

definition outcomeResponse :: "string \<Rightarrow> keyOutcome \<Rightarrow> keysResponse" where
  "outcomeResponse done r =
     (case r of KeyDone \<Rightarrow> KeysOK done | KeyMissing \<Rightarrow> KeysError 404 | KeyStorageError \<Rightarrow> KeysError 500)"

definition adminKeys ::
  "keyEnv \<Rightarrow> gotime \<Rightarrow> keysRequest \<Rightarrow> apiKeyStore \<Rightarrow> keysResponse \<times> apiKeyStore" where
  "adminKeys env now r s =
     (case r of
        KeysGet \<Rightarrow> (KeysListed (listKeys s), s)
      | KeysPost body random \<Rightarrow>
          (case body of
             None \<Rightarrow> (KeysError 400, s)
           | Some (name, days) \<Rightarrow>
               let name = (if blank name then ''API key'' else name)
               in case createKey env now random name days s of
                    (None, s') \<Rightarrow> (KeysError 500, s')
                  | (Some (rec, raw), s') \<Rightarrow> (KeysCreated raw rec, s'))
      | KeysPatch body \<Rightarrow>
          (case body of
             None \<Rightarrow> (KeysError 400, s)
           | Some (kid, days) \<Rightarrow>
               if kid = [] then (KeysError 400, s)
               else (let (o', s') = setExpiry env now kid days s in (outcomeResponse ''updated'' o', s')))
      | KeysDelete kid purge \<Rightarrow>
          (let (o', s') = (if purge then removeKey kid s else revokeKey kid s)
           in (outcomeResponse ''revoked'' o', s'))
      | KeysOther \<Rightarrow> (KeysError 405, s))"

subsection \<open>Laws\<close>

lemma changeFirst_None: "changeFirst P f xs = None \<longleftrightarrow> (\<forall>x \<in> set xs. \<not> P x)"
  by (induction xs) auto

lemma changeFirst_Some:
  "changeFirst P f xs = Some ys \<Longrightarrow>
   \<exists>pre x post. xs = pre @ x # post \<and> ys = pre @ f x @ post \<and> P x \<and> (\<forall>p \<in> set pre. \<not> P p)"
proof (induction xs arbitrary: ys)
  case Nil
  then show ?case by simp
next
  case (Cons x xs)
  show ?case
  proof (cases "P x")
    case True
    with Cons.prems have "x # xs = [] @ x # xs \<and> ys = [] @ f x @ xs \<and> P x \<and> (\<forall>p \<in> set []. \<not> P p)" by simp
    then show ?thesis by blast
  next
    case False
    with Cons.prems obtain zs where z: "changeFirst P f xs = Some zs" "ys = x # zs" by auto
    from Cons.IH [OF z(1)] obtain pre y post
      where "xs = pre @ y # post" "zs = pre @ f y @ post" "P y" "\<forall>p \<in> set pre. \<not> P p" by blast
    with False z(2) have "x # xs = (x # pre) @ y # post \<and> ys = (x # pre) @ f y @ post \<and> P y
        \<and> (\<forall>p \<in> set (x # pre). \<not> P p)" by simp
    then show ?thesis by blast
  qed
qed

lemma changeFirst_map:
  "changeFirst P f xs = Some ys \<Longrightarrow> (\<And>x. map g (f x) = [g x]) \<Longrightarrow> map g ys = map g xs"
  by (drule changeFirst_Some) auto

lemma commitKeys_cases:
  "(\<not> fst (commitKeys next s) \<and> keysMem (snd (commitKeys next s)) = keysMem s
      \<and> contents (keysFile (snd (commitKeys next s))) = contents (keysFile s))
   \<or> (fst (commitKeys next s) \<and> keysMem (snd (commitKeys next s)) = next
      \<and> contents (keysFile (snd (commitKeys next s))) = Some next)"
proof (cases "writeFile next (keysFile s)")
  case (Pair ok f)
  then show ?thesis by (cases ok) (auto simp: commitKeys_def dest: writeFile_ok writeFile_fail)
qed

text \<open>What is persisted is everything but the time of the last use.\<close>

definition eraseUse :: "apiKeyRecord list \<Rightarrow> apiKeyRecord list" where
  "eraseUse = map (\<lambda>k. k\<lparr>krLastUsedAt := None\<rparr>)"

datatype keyOp =
    KeyCreate gotime "string option" string int
  | KeyRevoke string
  | KeyRemove string
  | KeyExpiry gotime string int
  | KeyUse gotime string

fun keyExec :: "keyEnv \<Rightarrow> keyOp \<Rightarrow> apiKeyStore \<Rightarrow> apiKeyStore" where
  "keyExec env (KeyCreate now random name days) s = snd (createKey env now random name days s)"
| "keyExec env (KeyRevoke kid) s = snd (revokeKey kid s)"
| "keyExec env (KeyRemove kid) s = snd (removeKey kid s)"
| "keyExec env (KeyExpiry now kid days) s = snd (setExpiry env now kid days s)"
| "keyExec env (KeyUse now raw) s = snd (validKey env now raw s)"

fun keyFailed :: "keyEnv \<Rightarrow> keyOp \<Rightarrow> apiKeyStore \<Rightarrow> bool" where
  "keyFailed env (KeyCreate now random name days) s = (fst (createKey env now random name days s) = None)"
| "keyFailed env (KeyRevoke kid) s = (fst (revokeKey kid s) \<noteq> KeyDone)"
| "keyFailed env (KeyRemove kid) s = (fst (removeKey kid s) \<noteq> KeyDone)"
| "keyFailed env (KeyExpiry now kid days) s = (fst (setExpiry env now kid days s) \<noteq> KeyDone)"
| "keyFailed env (KeyUse now raw) s = (\<not> fst (validKey env now raw s))"

lemma changeKeys_cases:
  "(fst (changeKeys next s) \<noteq> KeyDone \<and> keysMem (snd (changeKeys next s)) = keysMem s
      \<and> contents (keysFile (snd (changeKeys next s))) = contents (keysFile s))
   \<or> (fst (changeKeys next s) = KeyDone \<and> next = Some (keysMem (snd (changeKeys next s)))
      \<and> contents (keysFile (snd (changeKeys next s))) = next)"
  using commitKeys_cases [of "the next" s]
  by (cases "next") (auto simp: changeKeys_def case_prod_beta)

lemma validKey_frame:
  "eraseUse (keysMem (snd (validKey env now raw s))) = eraseUse (keysMem s)
   \<and> keysFile (snd (validKey env now raw s)) = keysFile s"
  by (auto simp: validKey_def eraseUse_def split: option.splits
      dest!: changeFirst_map [where g = "\<lambda>k. k\<lparr>krLastUsedAt := None\<rparr>"])

lemma keyExec_cases:
  "(keyFailed env op s \<and> keysMem (keyExec env op s) = keysMem s
      \<and> contents (keysFile (keyExec env op s)) = contents (keysFile s))
   \<or> (\<not> keyFailed env op s \<and>
        (eraseUse (keysMem (keyExec env op s)) = eraseUse (keysMem s)
           \<and> contents (keysFile (keyExec env op s)) = contents (keysFile s)
         \<or> contents (keysFile (keyExec env op s)) = Some (keysMem (keyExec env op s))))"
proof (cases op)
  case (KeyCreate now random name days)
  then show ?thesis
  proof (cases random)
    case None
    with KeyCreate show ?thesis by (simp add: createKey_def)
  next
    case (Some b)
    with KeyCreate commitKeys_cases [of "keysMem s @ [newKeyRecord env now b name days]" s] show ?thesis
      by (auto simp: createKey_def Let_def case_prod_beta)
  qed
next
  case (KeyUse now raw)
  then show ?thesis using validKey_frame [of env now raw s]
    by (auto simp: validKey_def split: option.splits)
next
  case (KeyRevoke kid)
  with changeKeys_cases [of "changeFirst (\<lambda>k. krID k = kid \<and> \<not> krRevoked k) (\<lambda>k. [k\<lparr>krRevoked := True\<rparr>]) (keysMem s)" s]
  show ?thesis by (auto simp: revokeKey_def)
next
  case (KeyRemove kid)
  with changeKeys_cases [of "changeFirst (\<lambda>k. krID k = kid) (\<lambda>_. []) (keysMem s)" s]
  show ?thesis by (auto simp: removeKey_def)
next
  case (KeyExpiry now kid days)
  with changeKeys_cases [of "changeFirst (\<lambda>k. krID k = kid)
       (\<lambda>k. [k\<lparr>krExpiresAt := (if days > 0 then Some (keAddDays env now days) else None)\<rparr>]) (keysMem s)" s]
  show ?thesis by (auto simp: setExpiry_def)
qed

interpretation keys: durable_store "keyExec env" "keyFailed env" "\<lambda>s. eraseUse (keysMem s)"
    "\<lambda>s. map_option eraseUse (contents (keysFile s))" "[]" for env
proof
  fix op s
  show "keyFailed env op s \<Longrightarrow> eraseUse (keysMem (keyExec env op s)) = eraseUse (keysMem s)
      \<and> map_option eraseUse (contents (keysFile (keyExec env op s))) = map_option eraseUse (contents (keysFile s))"
    using keyExec_cases [of env op s] by auto
  show "\<not> keyFailed env op s \<Longrightarrow> eraseUse (keysMem (keyExec env op s)) = eraseUse (keysMem s)
      \<and> map_option eraseUse (contents (keysFile (keyExec env op s))) = map_option eraseUse (contents (keysFile s))
      \<or> map_option eraseUse (contents (keysFile (keyExec env op s))) = Some (eraseUse (keysMem (keyExec env op s)))"
    using keyExec_cases [of env op s] by auto
qed

subsection \<open>Which keys are accepted\<close>

definition accepted :: "keyEnv \<Rightarrow> gotime \<Rightarrow> string \<Rightarrow> apiKeyStore \<Rightarrow> bool" where
  "accepted env now raw s \<longleftrightarrow> (\<exists>k \<in> set (keysMem s). keyAccepts env now raw k)"

lemma validKey_accepted: "fst (validKey env now raw s) = accepted env now raw s"
proof (cases "changeFirst (keyAccepts env now raw) (\<lambda>k. [k\<lparr>krLastUsedAt := Some now\<rparr>]) (keysMem s)")
  case None
  then have "\<not> fst (validKey env now raw s)" by (simp add: validKey_def)
  with None show ?thesis by (simp add: accepted_def changeFirst_None)
next
  case (Some ys)
  then have "fst (validKey env now raw s)" by (simp add: validKey_def)
  with changeFirst_Some [OF Some] show ?thesis by (auto simp: accepted_def)
qed

lemma accepts_use [simp]: "keyAccepts env now raw (k\<lparr>krLastUsedAt := u\<rparr>) = keyAccepts env now raw k"
  by (simp add: keyAccepts_def)

lemma accepted_eraseUse: "accepted env now raw s = (\<exists>k \<in> set (eraseUse (keysMem s)). keyAccepts env now raw k)"
  by (simp add: accepted_def eraseUse_def)

lemma accepted_use: "accepted env t raw (snd (validKey env now raw' s)) = accepted env t raw s"
  using validKey_frame [of env now raw' s] by (simp add: accepted_eraseUse)

subsection \<open>The life of a key\<close>

text \<open>The records that could answer for a key: those with its id or its hash.\<close>

definition answering :: "string \<Rightarrow> string \<Rightarrow> apiKeyStore \<Rightarrow> apiKeyRecord list" where
  "answering kid h s = filter (\<lambda>k. krID k = kid \<or> krHash k = h) (eraseUse (keysMem s))"

text \<open>Operations on other keys, creating keys with other identifiers and hashes included.\<close>

fun onOtherKeys :: "keyEnv \<Rightarrow> string \<Rightarrow> string \<Rightarrow> keyOp \<Rightarrow> bool" where
  "onOtherKeys env kid h (KeyCreate now random name days) =
     (case random of None \<Rightarrow> True
      | Some b \<Rightarrow> hexEncode (take 8 b) \<noteq> kid \<and> keyHash env (''m365_'' @ hexEncode b) \<noteq> h)"
| "onOtherKeys env kid h (KeyRevoke k) = (k \<noteq> kid)"
| "onOtherKeys env kid h (KeyRemove k) = (k \<noteq> kid)"
| "onOtherKeys env kid h (KeyExpiry now k days) = (k \<noteq> kid)"
| "onOtherKeys env kid h (KeyUse now raw) = True"

lemma eraseUse_append [simp]: "eraseUse (xs @ ys) = eraseUse xs @ eraseUse ys"
  "eraseUse (x # xs) = x\<lparr>krLastUsedAt := None\<rparr> # eraseUse xs" "eraseUse [] = []"
  by (simp_all add: eraseUse_def)

lemma changeFirst_answering:
  assumes "changeFirst P f (keysMem s) = Some ys"
    and "\<And>x. P x \<Longrightarrow> krID x \<noteq> kid" and "answering kid h s = [k0]" and "krID k0 = kid"
    and "\<And>x y. y \<in> set (f x) \<Longrightarrow> krID y = krID x \<and> krHash y = krHash x"
  shows "filter (\<lambda>k. krID k = kid \<or> krHash k = h) (eraseUse ys) = [k0]"
proof -
  obtain pre x post where c: "keysMem s = pre @ x # post" "ys = pre @ f x @ post" "P x"
    using changeFirst_Some [OF assms(1)] by blast
  have x: "krID x \<noteq> kid" using assms(2) c(3) .
  have "krHash x \<noteq> h"
  proof
    assume "krHash x = h"
    then have "x\<lparr>krLastUsedAt := None\<rparr> \<in> set (answering kid h s)" using c(1) by (simp add: answering_def)
    with assms(3) have "x\<lparr>krLastUsedAt := None\<rparr> = k0" by simp
    with x assms(4) show False by auto
  qed
  with x have "filter (\<lambda>k. krID k = kid \<or> krHash k = h) (eraseUse (f x)) = []"
    using assms(5) by (auto simp: eraseUse_def filter_empty_conv)
  moreover have "filter (\<lambda>k. krID k = kid \<or> krHash k = h) (eraseUse pre)
      @ filter (\<lambda>k. krID k = kid \<or> krHash k = h) (eraseUse post) = [k0]"
    using assms(3) c(1) x \<open>krHash x \<noteq> h\<close> by (simp add: answering_def)
  ultimately show ?thesis using c(2) by simp
qed

lemma changeKeys_answering:
  assumes "\<And>x. P x \<Longrightarrow> krID x \<noteq> kid" and "answering kid h s = [k0]" and "krID k0 = kid"
    and "\<And>x y. y \<in> set (f x) \<Longrightarrow> krID y = krID x \<and> krHash y = krHash x"
  shows "answering kid h (snd (changeKeys (changeFirst P f (keysMem s)) s)) = [k0]"
  using changeKeys_cases [of "changeFirst P f (keysMem s)" s] changeFirst_answering [OF _ assms] assms(2)
  by (auto simp: answering_def)

lemma onOtherKeys_answering:
  assumes "onOtherKeys env kid h op" and "answering kid h s = [k0]" and "krID k0 = kid"
  shows "answering kid h (keyExec env op s) = [k0]"
proof (cases op)
  case (KeyCreate now random name days)
  show ?thesis
  proof (cases random)
    case None
    with KeyCreate assms show ?thesis by (simp add: createKey_def)
  next
    case (Some b)
    let ?r = "newKeyRecord env now b name days"
    have r: "krID ?r \<noteq> kid" "krHash ?r \<noteq> h" using assms(1) KeyCreate Some by (simp_all add: newKeyRecord_def Let_def)
    have "answering kid h (snd (commitKeys (keysMem s @ [?r]) s)) = [k0]"
      using commitKeys_cases [of "keysMem s @ [?r]" s] r assms(2) by (auto simp: answering_def)
    with KeyCreate Some show ?thesis by (simp add: createKey_def Let_def case_prod_beta)
  qed
next
  case (KeyRevoke k)
  with assms show ?thesis by (auto simp: revokeKey_def intro!: changeKeys_answering)
next
  case (KeyRemove k)
  with assms show ?thesis by (auto simp: removeKey_def intro!: changeKeys_answering)
next
  case (KeyExpiry now k days)
  with assms show ?thesis by (auto simp: setExpiry_def intro!: changeKeys_answering)
next
  case (KeyUse now raw)
  with assms show ?thesis using validKey_frame [of env now raw s] by (simp add: answering_def)
qed

interpretation keyLife: op_system "keyExec env" "onOtherKeys env kid (krHash k0)"
    "\<lambda>s. answering kid (krHash k0) s = [k0] \<and> krID k0 = kid" for env kid k0
  by unfold_locales (simp add: onOtherKeys_answering)

text \<open>A hash whose records are all revoked stays refused while no key with that hash is created.\<close>

definition deadHash :: "string \<Rightarrow> apiKeyStore \<Rightarrow> bool" where
  "deadHash h s \<longleftrightarrow> (\<forall>k \<in> set (keysMem s). krHash k = h \<longrightarrow> krRevoked k)"

fun createsOther :: "keyEnv \<Rightarrow> string \<Rightarrow> keyOp \<Rightarrow> bool" where
  "createsOther env h (KeyCreate now random name days) =
     (case random of None \<Rightarrow> True | Some b \<Rightarrow> keyHash env (''m365_'' @ hexEncode b) \<noteq> h)"
| "createsOther env h _ = True"

lemma changeKeys_dead:
  assumes "deadHash h s" and "\<And>x y. y \<in> set (f x) \<Longrightarrow> krHash y = krHash x \<and> (krRevoked x \<longrightarrow> krRevoked y)"
  shows "deadHash h (snd (changeKeys (changeFirst P f (keysMem s)) s))"
  using changeKeys_cases [of "changeFirst P f (keysMem s)" s] assms
  by (auto simp: deadHash_def dest!: changeFirst_Some)

lemma createsOther_dead:
  assumes "createsOther env h op" and "deadHash h s"
  shows "deadHash h (keyExec env op s)"
proof (cases op)
  case (KeyCreate now random name days)
  show ?thesis
  proof (cases random)
    case None
    with KeyCreate assms show ?thesis by (simp add: createKey_def)
  next
    case (Some b)
    let ?r = "newKeyRecord env now b name days"
    have "deadHash h (snd (commitKeys (keysMem s @ [?r]) s))"
      using commitKeys_cases [of "keysMem s @ [?r]" s] assms KeyCreate Some
      by (auto simp: deadHash_def newKeyRecord_def Let_def)
    with KeyCreate Some show ?thesis by (simp add: createKey_def Let_def case_prod_beta)
  qed
next
  case (KeyUse now raw)
  with assms show ?thesis
    by (auto simp: validKey_def deadHash_def split: option.splits dest!: changeFirst_Some)
qed (use assms in \<open>auto simp: revokeKey_def removeKey_def setExpiry_def intro!: changeKeys_dead\<close>)

interpretation keyDead: op_system "keyExec env" "createsOther env h" "deadHash h" for env h
  by unfold_locales (rule createsOther_dead)

lemma revoke_dead:
  assumes "answering kid h s = [k0]" and "krID k0 = kid" and "fst (revokeKey kid s) = KeyDone"
  shows "deadHash h (snd (revokeKey kid s))"
proof -
  let ?c = "changeFirst (\<lambda>k. krID k = kid \<and> \<not> krRevoked k) (\<lambda>k. [k\<lparr>krRevoked := True\<rparr>]) (keysMem s)"
  obtain ys where c: "?c = Some ys" and m: "keysMem (snd (revokeKey kid s)) = ys"
    using assms(3) changeKeys_cases [of ?c s] by (auto simp: revokeKey_def)
  obtain pre x post where x: "keysMem s = pre @ x # post" "ys = pre @ [x\<lparr>krRevoked := True\<rparr>] @ post"
      "krID x = kid"
    using changeFirst_Some [OF c] by auto
  have "filter (\<lambda>k. krID k = kid \<or> krHash k = h) (eraseUse pre) = []
    \<and> filter (\<lambda>k. krID k = kid \<or> krHash k = h) (eraseUse post) = []"
    using assms(1) x(1,3) by (auto simp: answering_def append_eq_Cons_conv)
  then have "\<forall>k \<in> set (pre @ post). krHash k \<noteq> h" by (auto simp: eraseUse_def filter_empty_conv)
  with m x(2) show ?thesis by (auto simp: deadHash_def)
qed

text \<open>C8: a key is accepted from its creation on, at every time up to its expiry, whatever is done to
  other keys; once its revocation has been reported, it is never accepted again, whatever is done
  afterwards, as long as no key with the same hash is created.\<close>

theorem api_key_lifecycle:
  assumes created: "createKey env now (Some b) name days s = (Some (r, raw), s1)"
    and fresh: "answering (krID r) (krHash r) s = []"
    and others: "\<forall>op \<in> set ops. onOtherKeys env (krID r) (krHash r) op"
    and s2: "s2 = fold (keyExec env) ops s1"
    and revoked: "fst (revokeKey (krID r) s2) = KeyDone"
    and later: "\<forall>op \<in> set ops'. createsOther env (krHash r) op"
  shows "(days \<le> 0 \<or> t \<le> keAddDays env now days \<longrightarrow> fst (validKey env t raw s2))
    \<and> \<not> fst (validKey env t' raw (fold (keyExec env) ops' (snd (revokeKey (krID r) s2))))"
proof -
  have r: "r = newKeyRecord env now b name days" and raw: "raw = ''m365_'' @ hexEncode b"
    and mem: "keysMem s1 = keysMem s @ [r]"
    using created commitKeys_cases [of "keysMem s @ [newKeyRecord env now b name days]" s]
    by (auto simp: createKey_def Let_def case_prod_beta split: if_splits)
  have h: "krHash r = keyHash env raw" and e: "krExpiresAt r = (if days > 0 then Some (keAddDays env now days) else None)"
    and n: "\<not> krRevoked r" and u: "r\<lparr>krLastUsedAt := None\<rparr> = r"
    using r raw by (simp_all add: newKeyRecord_def Let_def)
  have "answering (krID r) (krHash r) s1 = [r]" using fresh mem u by (simp add: answering_def)
  then have a: "answering (krID r) (krHash r) s2 = [r]"
    unfolding s2 using keyLife.run_inv [OF others] by simp
  then have "r \<in> set (answering (krID r) (krHash r) s2)" by simp
  then have "r \<in> set (eraseUse (keysMem s2))" by (simp add: answering_def)
  then have "accepted env t raw s2" if "days \<le> 0 \<or> t \<le> keAddDays env now days"
    using that h e n unfolding accepted_eraseUse by (intro bexI) (auto simp: keyAccepts_def)
  moreover have "deadHash (krHash r) (fold (keyExec env) ops' (snd (revokeKey (krID r) s2)))"
    by (rule keyDead.run_inv [OF later revoke_dead [OF a refl revoked]])
  then have "\<not> accepted env t' raw (fold (keyExec env) ops' (snd (revokeKey (krID r) s2)))"
    using h by (auto simp: accepted_def deadHash_def keyAccepts_def)
  ultimately show ?thesis by (simp add: validKey_accepted)
qed

definition exKeyEnv :: keyEnv where
  "exKeyEnv = \<lparr>keSHA256 = (\<lambda>k. k), keAddDays = (\<lambda>t d. t + hours (24 * d))\<rparr>"

definition exKeys :: apiKeyStore where
  "exKeys = openAPIKeys (File None [])"

theorem api_key_lifecycle_witness:
  "fst (validKey exKeyEnv (hours 23) (''m365_'' @ hexEncode ''abcdefgh'')
     (snd (createKey exKeyEnv 0 (Some ''abcdefgh'') ''n'' 1 exKeys)))"
proof -
  let ?c = "createKey exKeyEnv 0 (Some ''abcdefgh'') ''n'' 1 exKeys"
  let ?r = "newKeyRecord exKeyEnv 0 ''abcdefgh'' ''n'' 1"
  have c: "?c = (Some (?r, ''m365_'' @ hexEncode ''abcdefgh''), snd ?c)"
    by (simp add: createKey_def exKeys_def openAPIKeys_def commitKeys_def Let_def)
  have fresh: "answering (krID ?r) (krHash ?r) exKeys = []"
    by (simp add: answering_def exKeys_def openAPIKeys_def)
  have rev: "fst (revokeKey (krID ?r) (snd ?c)) = KeyDone" by code_simp
  have t: "hours 23 \<le> keAddDays exKeyEnv 0 1"
    by (simp add: exKeyEnv_def hours_def minutes_def seconds_def)
  have no: "\<forall>op \<in> set []. onOtherKeys exKeyEnv (krID ?r) (krHash ?r) op"
    "\<forall>op \<in> set []. createsOther exKeyEnv (krHash ?r) op" by simp_all
  from api_key_lifecycle [OF c fresh no(1) _ rev no(2), of "hours 23" 0] t show ?thesis by simp
qed

text \<open>After any operations with any storage failures, a restart of the process changes nothing
  about the keys except when they were last used, and accepts exactly the same keys.\<close>

lemma api_keys_survive_restart:
  "let s = fold (keyExec env) ops (openAPIKeys (File None writes))
   in eraseUse (keysMem (openAPIKeys (keysFile s))) = eraseUse (keysMem s)
    \<and> fst (validKey env t raw (openAPIKeys (keysFile s))) = fst (validKey env t raw s)"
proof -
  define s where "s = fold (keyExec env) ops (openAPIKeys (File None writes))"
  have "(case map_option eraseUse (contents (keysFile s)) of None \<Rightarrow> [] | Some v \<Rightarrow> v) = eraseUse (keysMem s)"
    unfolding s_def by (rule keys.reload_after_run) (simp add: insync_def openAPIKeys_def)
  then have "eraseUse (keysMem (openAPIKeys (keysFile s))) = eraseUse (keysMem s)"
    by (auto simp: openAPIKeys_def split: option.splits)
  then show ?thesis by (simp add: s_def [symmetric] validKey_accepted accepted_eraseUse Let_def)
qed

end
