(* ===== verification/AdminSecurity.thy ===== *)
theory AdminSecurity
  imports ApiKeys
begin

text \<open>
  Administrator authentication: internal/web/admin_security.go (login limiter, password rules,
  password change, loading the password at start-up) and the handlers of internal/web/server.go
  that use it (adminLogin, adminLogout, adminSession, adminMiddleware).

  bcrypt, the random session token and the decoded request bodies are arguments. A handler that
  takes the mutex several moments is given as one function; the clock readings are arguments.
\<close>

subsection \<open>State\<close>

record loginAttempt =
  laFailures :: int
  laWindowStart :: gotime
  laLockedUntil :: gotime

definition noAttempt :: loginAttempt where
  "noAttempt = \<lparr>laFailures = 0, laWindowStart = zeroTime, laLockedUntil = zeroTime\<rparr>"

record adminState =
  adminPassword :: string
  mustChangePassword :: bool
  adminSessions :: "(string, gotime) gomap"
  loginAttempts :: "(string, loginAttempt) gomap"
  passwordFile :: "string diskfile"

record bcryptEnv =
  bcGenerate :: "string \<Rightarrow> string option"
  bcCompare :: "string \<Rightarrow> string \<Rightarrow> bool"
  bcCostOk :: "string \<Rightarrow> bool"

definition defaultAdminPassword :: string where
  "defaultAdminPassword = ''admin888''"

subsection \<open>Passwords\<close>

definition verifyAdminPassword :: "bcryptEnv \<Rightarrow> string \<Rightarrow> string \<Rightarrow> bool" where
  "verifyAdminPassword env hash password =
     (if hash = [] \<or> password = [] then False else bcCompare env hash password)"

datatype passwordProblem = IsDefault | TooShort | TooLong

definition validNewAdminPassword :: "string \<Rightarrow> passwordProblem option" where
  "validNewAdminPassword p =
     (if p = defaultAdminPassword then Some IsDefault
      else if length p < 12 then Some TooShort
      else if length p > 256 then Some TooLong
      else None)"

text \<open>Hash and persist; None: the hash could not be made or not be stored.\<close>

definition saveAdminPassword ::
  "bcryptEnv \<Rightarrow> string \<Rightarrow> string diskfile \<Rightarrow> string option \<times> string diskfile" where
  "saveAdminPassword env password f =
     (case bcGenerate env password of
        None \<Rightarrow> (None, f)
      | Some hash \<Rightarrow>
          (let (ok, f') = writeFile (hash @ [CHR 0x0A]) f in (if ok then Some hash else None, f')))"

text \<open>
  The bootstrap password: the secret file when one is configured (unreadable: an error), else the
  environment variable.
\<close>

definition bootstrapAdminPassword :: "(unit + string) option \<Rightarrow> string \<Rightarrow> unit + string" where
  "bootstrapAdminPassword secretFile envPassword =
     (case secretFile of
        Some (Inl e) \<Rightarrow> Inl e
      | Some (Inr b) \<Rightarrow> Inr (TrimSpace b)
      | None \<Rightarrow> if TrimSpace envPassword \<noteq> [] then Inr (TrimSpace envPassword) else Inr [])"

datatype loadError = HashInvalid | BootstrapUnreadable | NotConfigured | HashFailed | PersistFailed

definition loadAdminPassword ::
  "bcryptEnv \<Rightarrow> (unit + string) option \<Rightarrow> string \<Rightarrow> string diskfile \<Rightarrow>
   (loadError + string \<times> bool) \<times> string diskfile" where
  "loadAdminPassword env secretFile envPassword f =
     (case contents f of
        Some b \<Rightarrow>
          let hash = TrimSpace b
          in if \<not> bcCostOk env hash then (Inl HashInvalid, f)
             else (Inr (hash, verifyAdminPassword env hash defaultAdminPassword), f)
      | None \<Rightarrow>
          (case bootstrapAdminPassword secretFile envPassword of
             Inl _ \<Rightarrow> (Inl BootstrapUnreadable, f)
           | Inr bootstrap \<Rightarrow>
               if bootstrap = [] then (Inl NotConfigured, f)
               else (case bcGenerate env bootstrap of
                       None \<Rightarrow> (Inl HashFailed, f)
                     | Some hash \<Rightarrow>
                         let (ok, f') = writeFile (hash @ [CHR 0x0A]) f
                         in if ok then (Inr (hash, bootstrap = defaultAdminPassword), f')
                            else (Inl PersistFailed, f'))))"

subsection \<open>The login limiter\<close>

definition loginWindow :: duration where
  "loginWindow = minutes 15"

definition clientIP :: "string \<Rightarrow> string \<Rightarrow> (string \<Rightarrow> bool) \<Rightarrow> string \<Rightarrow> string" where
  "clientIP host remoteAddr isLoopback forwardedFor =
     (let x = TrimSpace (takeWhile (\<lambda>c. c \<noteq> CHR '','') forwardedFor)
      in if isLoopback host \<and> x \<noteq> [] then x
         else if host \<noteq> [] then host else remoteAddr)"

text \<open>None: allowed; otherwise the remaining time, read from a second clock reading.\<close>

definition loginAllowed :: "string \<Rightarrow> gotime \<Rightarrow> gotime \<Rightarrow> adminState \<Rightarrow> duration option \<times> adminState" where
  "loginAllowed ip now now' s =
     (let a = getOr noAttempt (loginAttempts s) ip
      in if now < laLockedUntil a then (Some (laLockedUntil a - now'), s)
         else if laWindowStart a = zeroTime \<or> now - laWindowStart a > loginWindow
              then (None, s\<lparr>loginAttempts := AList.delete ip (loginAttempts s)\<rparr>)
              else (None, s))"

definition recordLoginFailure :: "string \<Rightarrow> gotime \<Rightarrow> adminState \<Rightarrow> adminState" where
  "recordLoginFailure ip now s =
     (let a = getOr noAttempt (loginAttempts s) ip;
          a = (if laWindowStart a = zeroTime \<or> now - laWindowStart a > loginWindow
               then \<lparr>laFailures = 0, laWindowStart = now, laLockedUntil = zeroTime\<rparr> else a);
          a = a\<lparr>laFailures := laFailures a + 1\<rparr>;
          a = (if laFailures a \<ge> 5 then a\<lparr>laLockedUntil := now + loginWindow\<rparr> else a)
      in s\<lparr>loginAttempts := AList.update ip a (loginAttempts s)\<rparr>)"

definition clearLoginFailures :: "string \<Rightarrow> adminState \<Rightarrow> adminState" where
  "clearLoginFailures ip s = s\<lparr>loginAttempts := AList.delete ip (loginAttempts s)\<rparr>"

subsection \<open>Handlers\<close>

datatype adminResponse =
    AdmMethodNotAllowed
  | AdmLocked int
  | AdmUnauthorized
  | AdmBadRequest
  | AdmServerError
  | AdmLoggedIn string bool
  | AdmLoggedOut
  | AdmSessionState bool bool
  | AdmPasswordChanged

text \<open>Whole seconds of a duration (int(d.Seconds()), towards zero).\<close>

definition wholeSeconds :: "duration \<Rightarrow> int" where
  "wholeSeconds d = (if d < 0 then - ((- d) div 1000000000) else d div 1000000000)"

definition adminLogin ::
  "bcryptEnv \<Rightarrow> bool \<Rightarrow> string \<Rightarrow> gotime \<Rightarrow> gotime \<Rightarrow> string option \<Rightarrow> string option \<Rightarrow> adminState \<Rightarrow>
   adminResponse \<times> adminState" where
  "adminLogin env post ip now now' body token s =
     (if \<not> post then (AdmMethodNotAllowed, s)
      else case loginAllowed ip now now' s of
        (Some wait, s1) \<Rightarrow> (AdmLocked (wholeSeconds wait + 1), s1)
      | (None, s1) \<Rightarrow>
          if (case body of None \<Rightarrow> True | Some p \<Rightarrow> \<not> verifyAdminPassword env (adminPassword s1) p)
          then (AdmUnauthorized, recordLoginFailure ip now s1)
          else
            let s2 = clearLoginFailures ip s1
            in case token of
                 None \<Rightarrow> (AdmServerError, s2)
               | Some t \<Rightarrow>
                   (AdmLoggedIn t (mustChangePassword s1),
                    s2\<lparr>adminSessions := AList.update t (now' + hours 24) (adminSessions s2)\<rparr>))"

definition adminLogout :: "string option \<Rightarrow> adminState \<Rightarrow> adminResponse \<times> adminState" where
  "adminLogout cookie s =
     (AdmLoggedOut,
      case cookie of None \<Rightarrow> s | Some c \<Rightarrow> s\<lparr>adminSessions := AList.delete c (adminSessions s)\<rparr>)"

definition validAdminSession :: "gotime \<Rightarrow> string option \<Rightarrow> adminState \<Rightarrow> bool \<times> adminState" where
  "validAdminSession now cookie s =
     (case cookie of
        None \<Rightarrow> (False, s)
      | Some c \<Rightarrow>
          if c = [] then (False, s)
          else case map_of (adminSessions s) c of
            None \<Rightarrow> (False, s\<lparr>adminSessions := AList.delete c (adminSessions s)\<rparr>)
          | Some expires \<Rightarrow>
              if now > expires then (False, s\<lparr>adminSessions := AList.delete c (adminSessions s)\<rparr>)
              else (True, s))"

definition adminSession :: "gotime \<Rightarrow> string option \<Rightarrow> adminState \<Rightarrow> adminResponse \<times> adminState" where
  "adminSession now cookie s =
     (let (authenticated, s1) = validAdminSession now cookie s
      in (AdmSessionState authenticated (authenticated \<and> mustChangePassword s1), s1))"

definition adminChangePassword ::
  "bcryptEnv \<Rightarrow> bool \<Rightarrow> gotime \<Rightarrow> string option \<Rightarrow> (string \<times> string) option \<Rightarrow> adminState \<Rightarrow>
   adminResponse \<times> adminState" where
  "adminChangePassword env post now cookie body s =
     (if \<not> post then (AdmMethodNotAllowed, s)
      else case validAdminSession now cookie s of
        (False, s1) \<Rightarrow> (AdmUnauthorized, s1)
      | (True, s1) \<Rightarrow>
          (case body of
             None \<Rightarrow> (AdmBadRequest, s1)
           | Some (current, new) \<Rightarrow>
               if \<not> verifyAdminPassword env (adminPassword s1) current then (AdmUnauthorized, s1)
               else if validNewAdminPassword new \<noteq> None then (AdmBadRequest, s1)
               else (case saveAdminPassword env new (passwordFile s1) of
                       (None, f) \<Rightarrow> (AdmServerError, s1\<lparr>passwordFile := f\<rparr>)
                     | (Some hash, f) \<Rightarrow>
                         (AdmPasswordChanged,
                          s1\<lparr>adminPassword := hash, mustChangePassword := False, adminSessions := [],
                             passwordFile := f\<rparr>))))"

definition cookieSecure :: "bool \<Rightarrow> string \<Rightarrow> string \<Rightarrow> string \<Rightarrow> bool" where
  "cookieSecure tls forwardedProto forwardedSsl envSecure =
     (if tls then True
      else if EqualFold forwardedProto ''https'' \<or> EqualFold forwardedSsl ''on'' then True
      else EqualFold envSecure ''true'')"

subsection \<open>The middleware\<close>

datatype gate = Forward | GateKeyRequired | GateNotConfigured | GateLoginRequired | GateMustChange

definition openPaths :: "string list" where
  "openPaths = [''/api/admin/login'', ''/api/admin/session'', ''/api/admin/change-password'',
     ''/api/admin/logout'', ''/'', ''/admin.js'', ''/api/health'']"

text \<open>The state of the process as far as the middleware reads and changes it.\<close>

definition adminMiddleware ::
  "keyEnv \<Rightarrow> gotime \<Rightarrow> string \<Rightarrow> string \<Rightarrow> string \<Rightarrow> string option \<Rightarrow> adminState \<times> apiKeyStore \<Rightarrow>
   gate \<times> adminState \<times> apiKeyStore" where
  "adminMiddleware env now path xAPIKey authorization cookie st =
     (case st of (a, k) \<Rightarrow>
        if path \<in> set openPaths then (Forward, a, k)
        else if HasPrefix path ''/v1/'' then
          (let (ok, k1) = validAPIKey env now xAPIKey authorization k
           in (if ok then Forward else GateKeyRequired, a, k1))
        else if adminPassword a = [] then (GateNotConfigured, a, k)
        else
          (let (ok, a1) = validAdminSession now cookie a
           in if \<not> ok then (GateLoginRequired, a1, k)
              else if mustChangePassword a1 \<and> path \<noteq> ''/api/admin/change-password''
                      \<and> path \<noteq> ''/api/admin/logout''
                   then (GateMustChange, a1, k)
                   else (Forward, a1, k)))"

subsection \<open>The limiter locks after five failures\<close>

type_synonym loginEvent = "string \<times> gotime \<times> string option \<times> string option"

definition login :: "bcryptEnv \<Rightarrow> loginEvent \<Rightarrow> adminState \<Rightarrow> adminState" where
  "login env ev s = (case ev of (ip, now, body, token) \<Rightarrow> snd (adminLogin env True ip now now body token s))"

definition wrongPassword :: "bcryptEnv \<Rightarrow> string \<Rightarrow> string option \<Rightarrow> bool" where
  "wrongPassword env hash body \<longleftrightarrow>
     (case body of None \<Rightarrow> True | Some p \<Rightarrow> \<not> verifyAdminPassword env hash p)"

lemma login_password [simp]: "adminPassword (login env ev s) = adminPassword s"
  by (cases ev) (auto simp: login_def adminLogin_def loginAllowed_def recordLoginFailure_def
      clearLoginFailures_def Let_def split: option.split)

lemma login_other:
  "fst ev \<noteq> ip \<Longrightarrow> map_of (loginAttempts (login env ev s)) ip = map_of (loginAttempts s) ip"
  by (cases ev) (auto simp: login_def adminLogin_def loginAllowed_def recordLoginFailure_def
      clearLoginFailures_def Let_def split: option.split)

definition attempt :: "nat \<Rightarrow> gotime \<Rightarrow> gotime \<Rightarrow> loginAttempt" where
  "attempt k start latest =
     \<lparr>laFailures = int k, laWindowStart = start,
      laLockedUntil = (if k \<ge> 5 then latest + loginWindow else zeroTime)\<rparr>"

text \<open>No failure of the address is on record, or only those of a window (and a lock) that has ended.\<close>

definition noOpenWindow :: "string \<Rightarrow> gotime \<Rightarrow> adminState \<Rightarrow> bool" where
  "noOpenWindow ip now s \<longleftrightarrow>
     (case map_of (loginAttempts s) ip of
        None \<Rightarrow> True
      | Some a \<Rightarrow> laLockedUntil a \<le> now \<and> laWindowStart a + loginWindow < now)"

lemma login_first:
  assumes "noOpenWindow ip now s" and "wrongPassword env (adminPassword s) body" and "0 \<le> now"
  shows "map_of (loginAttempts (login env (ip, now, body, token) s)) ip = Some (attempt 1 now now)"
  using assms
  by (auto simp: login_def adminLogin_def loginAllowed_def recordLoginFailure_def wrongPassword_def
      noOpenWindow_def attempt_def noAttempt_def getOr_def Let_def split: option.splits)

lemma login_next:
  assumes "map_of (loginAttempts s) ip = Some (attempt k start before)"
    and "k < 5" and "wrongPassword env (adminPassword s) body"
    and "0 < start" and "start \<le> now" and "now \<le> start + loginWindow"
  shows "map_of (loginAttempts (login env (ip, now, body, token) s)) ip = Some (attempt (Suc k) start now)"
  using assms
  by (auto simp: login_def adminLogin_def loginAllowed_def recordLoginFailure_def wrongPassword_def
      attempt_def getOr_def Let_def split: option.split)

lemma login_failures:
  assumes "map_of (loginAttempts s) ip = Some (attempt k start before)" and "k \<ge> 1"
    and "k + length moments \<le> 5"
    and "moments = map (\<lambda>(_, now, _). now) (filter (\<lambda>ev. fst ev = ip) evs)"
    and "\<forall>(ip', now, body, token) \<in> set evs. ip' = ip \<longrightarrow>
        wrongPassword env (adminPassword s) body \<and> start \<le> now \<and> now \<le> start + loginWindow"
    and "0 < start"
  shows "map_of (loginAttempts (fold (login env) evs s)) ip
     = Some (attempt (k + length moments) start (last (before # moments)))"
  using assms
proof (induction evs arbitrary: s k before moments)
  case Nil
  then show ?case by simp
next
  case (Cons ev evs)
  obtain ip' now body token where ev: "ev = (ip', now, body, token)" by (cases ev)
  have rest: "\<forall>(ip', now, body, token) \<in> set evs. ip' = ip \<longrightarrow>
        wrongPassword env (adminPassword (login env ev s)) body \<and> start \<le> now \<and> now \<le> start + loginWindow"
    using Cons.prems(5) by auto
  show ?case
  proof (cases "ip' = ip")
    case True
    define ts where "ts = map (\<lambda>(_, now, _). now) (filter (\<lambda>ev. fst ev = ip) evs)"
    have moments: "moments = now # ts" using Cons.prems(4) ev True by (simp add: ts_def)
    have one: "map_of (loginAttempts (login env ev s)) ip = Some (attempt (Suc k) start now)"
      unfolding ev True by (rule login_next [OF Cons.prems(1)]) (use Cons.prems moments ev True in auto)
    have "map_of (loginAttempts (fold (login env) evs (login env ev s))) ip
       = Some (attempt (Suc k + length ts) start (last (now # ts)))"
      by (rule Cons.IH [OF one _ _ ts_def rest Cons.prems(6)]) (use Cons.prems(2,3) moments in auto)
    then show ?thesis by (simp add: moments)
  next
    case False
    have same: "map_of (loginAttempts (login env ev s)) ip = Some (attempt k start before)"
      using login_other [of ev ip env s] False Cons.prems(1) ev by simp
    have "moments = map (\<lambda>(_, now, _). now) (filter (\<lambda>ev. fst ev = ip) evs)"
      using Cons.prems(4) False ev by simp
    from Cons.IH [OF same Cons.prems(2,3) this rest Cons.prems(6)] show ?thesis by simp
  qed
qed

text \<open>C9: the first wrong password of a client address with no open window (no failures on record, or
  only those of a window and a lock that have ended) opens a window of fifteen minutes, which later
  failures do not move. When the address sends wrong passwords in this window, interleaved in any
  way with logins from other addresses, it is not locked out before the fifth, and after the fifth
  every further login from it, with the right password or not, is refused until fifteen minutes
  after that fifth failure, without any change of state.\<close>

theorem login_lockout:
  assumes fresh: "noOpenWindow ip t1 s"
    and moments: "map (\<lambda>(_, now, _). now) (filter (\<lambda>ev. fst ev = ip) evs) = t1 # moments"
    and wrong: "\<forall>(ip', now, body, token) \<in> set evs. ip' = ip \<longrightarrow>
        wrongPassword env (adminPassword s) body \<and> t1 \<le> now \<and> now \<le> t1 + minutes 15"
    and start: "0 < t1" and five: "length moments \<le> 4" and now: "0 \<le> now"
    and final: "s' = fold (login env) evs s"
  shows "if length moments = 4
     then now < last (t1 # moments) + minutes 15 \<longrightarrow>
        (\<exists>wait. adminLogin env True ip now now' body token s' = (AdmLocked wait, s'))
     else \<forall>wait. fst (adminLogin env True ip now now' body token s') \<noteq> AdmLocked wait"
proof -
  obtain pre ev post where split: "evs = pre @ ev # post" and ip: "fst ev = ip"
    and pre: "\<forall>e \<in> set pre. fst e \<noteq> ip"
  proof -
    have "\<exists>ev \<in> set evs. fst ev = ip"
    proof (rule ccontr)
      assume "\<not> ?thesis"
      then have "filter (\<lambda>ev. fst ev = ip) evs = []" by (simp add: filter_empty_conv)
      with moments show False by simp
    qed
    then show thesis using that split_list_first_prop [of evs "\<lambda>e. fst e = ip"] by metis
  qed
  obtain n b tk where ev: "ev = (ip, n, b, tk)" using ip by (cases ev) auto
  have fpre: "filter (\<lambda>ev. fst ev = ip) pre = []" using pre by (simp add: filter_empty_conv)
  have n: "n = t1" and ts: "moments = map (\<lambda>(_, now, _). now) (filter (\<lambda>ev. fst ev = ip) post)"
    using moments split ev fpre by simp_all
  have pw: "adminPassword (fold (login env) es u) = adminPassword u" for es u
    by (induction es arbitrary: u) simp_all
  have "map_of (loginAttempts (fold (login env) pre s)) ip = map_of (loginAttempts s) ip"
    using pre by (induction pre arbitrary: s) (simp_all add: login_other)
  with fresh have c0: "noOpenWindow ip t1 (fold (login env) pre s)" by (simp add: noOpenWindow_def)
  have c1: "map_of (loginAttempts (login env ev (fold (login env) pre s))) ip = Some (attempt 1 t1 t1)"
    unfolding ev n by (rule login_first [OF c0]) (use wrong split ev start pw in auto)
  have rest: "\<forall>(ip', now, body, token) \<in> set post. ip' = ip \<longrightarrow>
      wrongPassword env (adminPassword (login env ev (fold (login env) pre s))) body
      \<and> t1 \<le> now \<and> now \<le> t1 + loginWindow"
    using wrong split pw by (auto simp: loginWindow_def)
  have "map_of (loginAttempts (fold (login env) post (login env ev (fold (login env) pre s)))) ip
      = Some (attempt (1 + length moments) t1 (last (t1 # moments)))"
    by (rule login_failures [OF c1 _ _ ts rest start]) (use five in auto)
  then have "map_of (loginAttempts s') ip = Some (attempt (Suc (length moments)) t1 (last (t1 # moments)))"
    by (simp add: final split)
  then show ?thesis using five now
    by (auto simp: adminLogin_def loginAllowed_def getOr_def attempt_def loginWindow_def Let_def
        split: option.split)
qed

definition exBcrypt :: bcryptEnv where
  "exBcrypt = \<lparr>bcGenerate = (\<lambda>p. if length p \<le> 72 then Some (CHR ''$'' # p) else None),
     bcCompare = (\<lambda>h p. h = CHR ''$'' # p), bcCostOk = (\<lambda>h. h \<noteq> [])\<rparr>"

definition exAdmin :: adminState where
  "exAdmin = \<lparr>adminPassword = ''$admin888'', mustChangePassword = True, adminSessions = [],
     loginAttempts = [(''x'', \<lparr>laFailures = 4, laWindowStart = - minutes 20, laLockedUntil = zeroTime\<rparr>)],
     passwordFile = File None []\<rparr>"

definition exAttack :: "loginEvent list" where
  "exAttack = [(''x'', 1, Some ''a'', None), (''x'', 2, None, None), (''y'', 2, Some ''admin888'', Some ''s''),
     (''x'', 3, Some ''b'', None), (''x'', 4, Some ''c'', None), (''x'', 5, Some ''d'', None)]"

theorem login_lockout_witness:
  "\<exists>wait. fst (adminLogin exBcrypt True ''x'' (minutes 14) (minutes 14) (Some ''admin888'') (Some ''t'')
      (fold (login exBcrypt) exAttack exAdmin)) = AdmLocked wait"
proof -
  have fresh: "noOpenWindow ''x'' 1 exAdmin"
    by (simp add: exAdmin_def noOpenWindow_def loginWindow_def minutes_def seconds_def)
  have moments: "map (\<lambda>(_, now, _). now) (filter (\<lambda>ev. fst ev = ''x'') exAttack) = 1 # [2, 3, 4, 5]"
    by (simp add: exAttack_def)
  have m: "minutes 15 = 900000000000" "minutes 14 = 840000000000" by (simp_all add: minutes_def seconds_def)
  have wrong: "\<forall>(ip', now, body, token) \<in> set exAttack. ip' = ''x'' \<longrightarrow>
      wrongPassword exBcrypt (adminPassword exAdmin) body \<and> 1 \<le> now \<and> now \<le> 1 + minutes 15"
    by (simp add: exAttack_def wrongPassword_def verifyAdminPassword_def exBcrypt_def exAdmin_def m)
  have "0 < (1::int)" "length [2, 3, 4, 5 :: gotime] \<le> 4" "0 \<le> minutes 14" by (simp_all add: m)
  from login_lockout [OF fresh moments wrong this refl, of "minutes 14" "Some ''admin888''" "Some ''t''"]
  show ?thesis by (auto simp: m)
qed

subsection \<open>Sessions\<close>

datatype adminOp =
    AopLogin bool string gotime gotime "string option" "string option"
  | AopLogout "string option"
  | AopSession gotime "string option"
  | AopChange bool gotime "string option" "(string \<times> string) option"

fun adminExec :: "bcryptEnv \<Rightarrow> adminOp \<Rightarrow> adminState \<Rightarrow> adminState" where
  "adminExec env (AopLogin post ip now now' body token) s = snd (adminLogin env post ip now now' body token s)"
| "adminExec env (AopLogout cookie) s = snd (adminLogout cookie s)"
| "adminExec env (AopSession now cookie) s = snd (adminSession now cookie s)"
| "adminExec env (AopChange post now cookie body) s = snd (adminChangePassword env post now cookie body s)"

text \<open>Requests that leave a session alone: other logins and logouts, and refused password changes.\<close>

fun leavesSession :: "string \<Rightarrow> gotime \<Rightarrow> adminOp \<Rightarrow> bool" where
  "leavesSession tok e (AopLogin post ip now now' body token) = (token \<noteq> Some tok)"
| "leavesSession tok e (AopLogout cookie) = (cookie \<noteq> Some tok)"
| "leavesSession tok e (AopSession now cookie) = (cookie = Some tok \<longrightarrow> now \<le> e)"
| "leavesSession tok e (AopChange post now cookie body) =
     ((cookie = Some tok \<longrightarrow> now \<le> e)
      \<and> (case body of None \<Rightarrow> True | Some (_, new) \<Rightarrow> validNewAdminPassword new \<noteq> None))"

lemma login_sessions:
  "adminSessions (snd (adminLogin env post ip now now' body token s)) =
     (case fst (adminLogin env post ip now now' body token s) of
        AdmLoggedIn t mc \<Rightarrow> AList.update t (now' + hours 24) (adminSessions s)
      | _ \<Rightarrow> adminSessions s)"
  by (auto simp: adminLogin_def loginAllowed_def recordLoginFailure_def clearLoginFailures_def Let_def
      split: option.split)

lemma login_token:
  "fst (adminLogin env post ip now now' body token s) = AdmLoggedIn t mc \<Longrightarrow> token = Some t"
  by (auto simp: adminLogin_def loginAllowed_def Let_def split: option.splits if_splits)

lemma validSession_other:
  "cookie \<noteq> Some tok \<Longrightarrow>
   map_of (adminSessions (snd (validAdminSession now cookie s))) tok = map_of (adminSessions s) tok"
  by (auto simp: validAdminSession_def split: option.split)

lemma validSession_keeps:
  "map_of (adminSessions s) tok = Some e \<Longrightarrow> (cookie = Some tok \<longrightarrow> now \<le> e) \<Longrightarrow>
   map_of (adminSessions (snd (validAdminSession now cookie s))) tok = Some e"
  by (auto simp: validAdminSession_def split: option.split)

lemma change_refused:
  "(case body of None \<Rightarrow> True | Some (_, new) \<Rightarrow> validNewAdminPassword new \<noteq> None) \<Longrightarrow>
   adminSessions (snd (adminChangePassword env post now cookie body s)) =
     (if post then adminSessions (snd (validAdminSession now cookie s)) else adminSessions s)"
  by (auto simp: adminChangePassword_def case_prod_beta split: option.splits prod.splits bool.splits)

lemma leavesSession_keeps:
  assumes "leavesSession tok e op" and "map_of (adminSessions s) tok = Some e"
  shows "map_of (adminSessions (adminExec env op s)) tok = Some e"
proof (cases op)
  case (AopLogin post ip now now' body token)
  with assms show ?thesis
    using login_token [of env post ip now now' body token s]
    by (auto simp: login_sessions split: adminResponse.splits)
next
  case (AopLogout cookie)
  with assms show ?thesis by (auto simp: adminLogout_def split: option.split)
next
  case (AopSession now cookie)
  with assms show ?thesis by (simp add: adminSession_def case_prod_beta Let_def validSession_keeps)
next
  case (AopChange post now cookie body)
  with assms show ?thesis by (simp add: change_refused validSession_keeps)
qed

interpretation adminSess: op_system "adminExec env" "leavesSession tok e"
    "\<lambda>s. map_of (adminSessions s) tok = Some e" for env tok e
  by unfold_locales (rule leavesSession_keeps)

text \<open>After a password change nobody is logged in until somebody logs in.\<close>

fun noLogin :: "adminOp \<Rightarrow> bool" where
  "noLogin (AopLogin post ip now now' body token) = (token = None)"
| "noLogin _ = True"

lemma change_sessions:
  "adminSessions s = [] \<Longrightarrow> adminSessions (snd (adminChangePassword env post now cookie body s)) = []"
  by (auto simp: adminChangePassword_def validAdminSession_def case_prod_beta split: option.split)

lemma noLogin_empty:
  assumes "noLogin op" and "adminSessions s = []"
  shows "adminSessions (adminExec env op s) = []"
proof (cases op)
  case (AopLogin post ip now now' body token)
  with assms show ?thesis using login_token [of env post ip now now' body token s]
    by (auto simp: login_sessions split: adminResponse.split)
next
  case (AopSession now cookie)
  with assms show ?thesis
    by (auto simp: adminSession_def validAdminSession_def case_prod_beta Let_def split: option.split)
qed (use assms in \<open>auto simp: adminLogout_def change_sessions split: option.split\<close>)

interpretation adminOut: op_system "adminExec env" noLogin "\<lambda>s. adminSessions s = []" for env
  by unfold_locales (rule noLogin_empty)

text \<open>A session opened by a login is valid for exactly twenty-four hours, whatever other logins,
  logouts and refused password changes happen, and a password change ends every session: until the
  next login no cookie at all is accepted.\<close>

lemma session_lifetime:
  assumes opened: "adminLogin env post ip now now' body token s = (AdmLoggedIn tok mc, s1)"
    and tok: "tok \<noteq> []"
    and ops: "\<forall>op \<in> set ops. leavesSession tok (now' + hours 24) op"
    and s2: "s2 = fold (adminExec env) ops s1"
    and changed: "adminChangePassword env post' n cookie new s2 = (AdmPasswordChanged, s3)"
    and later: "\<forall>op \<in> set ops'. noLogin op"
  shows "(fst (validAdminSession t (Some tok) s2) \<longleftrightarrow> t \<le> now' + hours 24)
    \<and> \<not> fst (validAdminSession t' c (fold (adminExec env) ops' s3))"
proof -
  have "map_of (adminSessions s1) tok = Some (now' + hours 24)"
    using login_sessions [of env post ip now now' body token s] opened by simp
  then have "map_of (adminSessions s2) tok = Some (now' + hours 24)"
    unfolding s2 by (rule adminSess.run_inv [OF ops])
  then have "fst (validAdminSession t (Some tok) s2) \<longleftrightarrow> t \<le> now' + hours 24"
    using tok by (auto simp: validAdminSession_def)
  moreover have "adminSessions s3 = []"
    using changed by (auto simp: adminChangePassword_def split: if_splits option.splits prod.splits bool.splits)
  then have "adminSessions (fold (adminExec env) ops' s3) = []" by (rule adminOut.run_inv [OF later])
  then have "\<not> fst (validAdminSession t' c (fold (adminExec env) ops' s3))"
    by (auto simp: validAdminSession_def split: option.split)
  ultimately show ?thesis by blast
qed

lemma session_lifetime_witness:
  "fst (validAdminSession (hours 23) (Some ''s'')
     (snd (adminLogin exBcrypt True ''y'' 1 1 (Some ''admin888'') (Some ''s'') exAdmin)))"
proof -
  let ?l = "adminLogin exBcrypt True ''y'' 1 1 (Some ''admin888'') (Some ''s'') exAdmin"
  let ?c = "adminChangePassword exBcrypt True 2 (Some ''s'') (Some (''admin888'', ''long-enough-one'')) (snd ?l)"
  have l: "?l = (AdmLoggedIn ''s'' True, snd ?l)"
    by (simp add: adminLogin_def loginAllowed_def exAdmin_def getOr_def noAttempt_def verifyAdminPassword_def
        exBcrypt_def clearLoginFailures_def Let_def)
  have "fst ?c = AdmPasswordChanged" by code_simp
  then have c: "adminChangePassword exBcrypt True 2 (Some ''s'') (Some (''admin888'', ''long-enough-one''))
      (fold (adminExec exBcrypt) [] (snd ?l)) = (AdmPasswordChanged, snd ?c)" by (simp add: prod_eq_iff)
  have "hours 23 \<le> 1 + hours 24" by (simp add: hours_def minutes_def seconds_def)
  with session_lifetime [OF l _ _ refl c, of "[]" "hours 23"] show ?thesis by simp
qed

subsection \<open>What passes the middleware\<close>

text \<open>C10: a request reaches a handler only when its path is one of the seven open ones, or an API path
  with a key the store accepts, or when it carries a valid session of an administrator who does
  not have to change the password first; the check itself never changes the password state.\<close>

theorem middleware_authorises:
  assumes "adminMiddleware env now path xkey auth cookie (a, k) = (Forward, a', k')"
  shows "path \<in> set openPaths
    \<or> HasPrefix path ''/v1/'' \<and> requestKey xkey auth \<noteq> [] \<and> accepted env now (requestKey xkey auth) k
    \<or> adminPassword a \<noteq> [] \<and> \<not> mustChangePassword a
       \<and> (\<exists>c e. cookie = Some c \<and> map_of (adminSessions a) c = Some e \<and> now \<le> e)"
proof (cases "path \<in> set openPaths")
  case False
  have exempt: "path \<noteq> ''/api/admin/change-password''" "path \<noteq> ''/api/admin/logout''"
    using False by (auto simp: openPaths_def)
  show ?thesis
  proof (cases "HasPrefix path ''/v1/''")
    case True
    with assms False show ?thesis
      using validKey_accepted [of env now "requestKey xkey auth" k]
      by (auto simp: adminMiddleware_def validAPIKey_def case_prod_beta Let_def split: if_splits)
  next
    case no: False
    obtain ok a1 where v: "validAdminSession now cookie a = (ok, a1)" by force
    have "adminPassword a \<noteq> []" "ok" "\<not> mustChangePassword a1"
      using assms False no v exempt by (auto simp: adminMiddleware_def split: if_splits)
    with v show ?thesis by (auto simp: validAdminSession_def split: option.splits if_splits)
  qed
qed simp

theorem middleware_authorises_witness:
  "accepted exKeyEnv 1 ''m365_'' (openAPIKeys (File (Some [\<lparr>krID = ''1'', krName = [], krPrefix = [],
     krHash = hexEncode ''m365_'', krCreatedAt = 0, krLastUsedAt = None, krExpiresAt = None, krRevoked = False\<rparr>]) []))"
proof -
  let ?k = "openAPIKeys (File (Some [\<lparr>krID = ''1'', krName = [], krPrefix = [],
     krHash = hexEncode ''m365_'', krCreatedAt = 0, krLastUsedAt = None, krExpiresAt = None, krRevoked = False\<rparr>]) [])"
  let ?m = "adminMiddleware exKeyEnv 1 ''/v1/models'' [] ''Bearer m365_'' None (exAdmin, ?k)"
  have "fst ?m = Forward" by code_simp
  then have m: "?m = (Forward, fst (snd ?m), snd (snd ?m))" by (simp add: prod_eq_iff)
  have path: "''/v1/models'' \<notin> set openPaths" and key: "requestKey [] ''Bearer m365_'' = ''m365_''"
    by code_simp+
  from middleware_authorises [OF m] path key show ?thesis by simp
qed

end
