(* ===== verification/Settings.thy ===== *)
theory Settings
  imports GoText AtomicFile
begin

text \<open>
  The runtime settings of internal/web/settings.go: defaults from the environment, validation, the
  durable store behind the settings page, and the limit on tool calls. The process environment is
  a function from names to optional values; the file content is the decoded record.
\<close>

subsection \<open>Paths\<close>

text \<open>\<open>filepath.Clean\<close> on a Unix path: the components without empty and dot ones, each dot-dot
  cancelling the component before it.\<close>

fun joinWith :: "char \<Rightarrow> string list \<Rightarrow> string" where
  "joinWith c [] = []"
| "joinWith c [p] = p"
| "joinWith c (p # q # ps) = p @ c # joinWith c (q # ps)"

text \<open>The components kept so far stand in reverse order.\<close>

fun cleanStep :: "bool \<Rightarrow> string \<Rightarrow> string list \<Rightarrow> string list" where
  "cleanStep rooted p kept =
     (if p = [] \<or> p = ''.'' then kept
      else if p = ''..'' then
        (case kept of
           [] \<Rightarrow> if rooted then [] else [''..'']
         | q # qs \<Rightarrow> if q = ''..'' then ''..'' # kept else qs)
      else p # kept)"

definition cleanPath :: "string \<Rightarrow> string" where
  "cleanPath p =
     (let rooted = (case p of [] \<Rightarrow> False | c # _ \<Rightarrow> c = CHR ''/'');
          body = joinWith (CHR ''/'') (rev (fold (cleanStep rooted) (splitOn (CHR ''/'') p) []))
      in if rooted then CHR ''/'' # body else if body = [] then ''.'' else body)"

subsection \<open>Settings\<close>

record runtimeSettings =
  MaxToolCallsPerTurn :: int
  MaxToolRounds :: int
  ContextWindow :: int
  MaxOutputTokens :: int
  ChatTimeoutSeconds :: int
  ImageTimeoutSeconds :: int
  LogLevel :: string
  DebugLogPath :: string
  ListenAddress :: string
  ConfigPath :: string
  TokenCachePath :: string
  SessionCachePath :: string
  ClientID :: string
  Authority :: string
  RedirectURI :: string
  Scope :: string

type_synonym environment = "string \<Rightarrow> string option"

definition Getenv :: "environment \<Rightarrow> string \<Rightarrow> string" where
  "Getenv env name = (case env name of None \<Rightarrow> [] | Some v \<Rightarrow> v)"

definition envInt :: "environment \<Rightarrow> string \<Rightarrow> int \<Rightarrow> int" where
  "envInt env name fallback =
     (case ParseInt (TrimSpace (Getenv env name)) of
        Some n \<Rightarrow> if n > 0 then n else fallback
      | None \<Rightarrow> fallback)"

fun firstNonEmptySetting :: "string list \<Rightarrow> string" where
  "firstNonEmptySetting [] = []"
| "firstNonEmptySetting (v # vs) = (if \<not> blank v then TrimSpace v else firstNonEmptySetting vs)"

definition defaultRuntimeSettings :: "environment \<Rightarrow> runtimeSettings" where
  "defaultRuntimeSettings env =
     \<lparr>MaxToolCallsPerTurn = envInt env ''M365_MAX_TOOL_CALLS_PER_TURN'' 4,
      MaxToolRounds = envInt env ''M365_MAX_TOOL_ROUNDS'' 64,
      ContextWindow = envInt env ''M365_CONTEXT_WINDOW'' 128000,
      MaxOutputTokens = envInt env ''M365_MAX_OUTPUT_TOKENS'' 16384,
      ChatTimeoutSeconds = envInt env ''M365_CHAT_TIMEOUT_SECONDS'' 600,
      ImageTimeoutSeconds = envInt env ''M365_IMAGE_TIMEOUT_SECONDS'' 150,
      LogLevel = firstNonEmptySetting [Getenv env ''M365_LOG_LEVEL'', ''warn''],
      DebugLogPath = Getenv env ''M365_DEBUG_LOG'',
      ListenAddress = Getenv env ''M365_LISTEN'',
      ConfigPath = Getenv env ''M365_CONFIG'',
      TokenCachePath = Getenv env ''M365_TOKEN_CACHE'',
      SessionCachePath = Getenv env ''M365_SESSION_CACHE'',
      ClientID = Getenv env ''M365_CLIENT_ID'',
      Authority = Getenv env ''M365_AUTHORITY'',
      RedirectURI = Getenv env ''M365_REDIRECT_URI'',
      Scope = Getenv env ''M365_SCOPE''\<rparr>"

datatype settingsError =
    BadToolCalls | BadToolRounds | BadContextWindow | BadMaxOutput | BadChatTimeout
  | BadImageTimeout | BadLogLevel | SamePath

text \<open>The four paths that are compared; the code visits them in any order.\<close>

definition storagePaths :: "runtimeSettings \<Rightarrow> string list" where
  "storagePaths v =
     map (\<lambda>p. ToLower (cleanPath (TrimSpace p)))
       (filter (\<lambda>p. \<not> blank p) [DebugLogPath v, ConfigPath v, TokenCachePath v, SessionCachePath v])"

fun firstRepeat :: "string list \<Rightarrow> string list \<Rightarrow> bool" where
  "firstRepeat seen [] = False"
| "firstRepeat seen (p # ps) = (p \<in> set seen \<or> firstRepeat (p # seen) ps)"

definition validateSettings :: "runtimeSettings \<Rightarrow> settingsError option" where
  "validateSettings v =
     (if MaxToolCallsPerTurn v < 1 \<or> MaxToolCallsPerTurn v > 64 then Some BadToolCalls
      else if MaxToolRounds v < 1 \<or> MaxToolRounds v > 512 then Some BadToolRounds
      else if ContextWindow v < 1024 then Some BadContextWindow
      else if MaxOutputTokens v < 1 \<or> MaxOutputTokens v \<ge> ContextWindow v then Some BadMaxOutput
      else if ChatTimeoutSeconds v < 5 \<or> ChatTimeoutSeconds v > 3600 then Some BadChatTimeout
      else if ImageTimeoutSeconds v < 5 \<or> ImageTimeoutSeconds v > 3600 then Some BadImageTimeout
      else if LogLevel v \<notin> set [''silent'', ''error'', ''warn'', ''info'', ''debug''] then Some BadLogLevel
      else if firstRepeat [] (storagePaths v) then Some SamePath
      else None)"

subsection \<open>The store\<close>

record settingsStore =
  setCurrent :: runtimeSettings
  setFile :: "runtimeSettings diskfile"

text \<open>A file that exists but cannot be read or decoded is an error before this point.\<close>

definition openSettingsStore ::
  "environment \<Rightarrow> runtimeSettings diskfile \<Rightarrow> settingsError + settingsStore" where
  "openSettingsStore env f =
     (let v = (case contents f of None \<Rightarrow> defaultRuntimeSettings env | Some v \<Rightarrow> v)
      in case validateSettings v of
           Some e \<Rightarrow> Inl e
         | None \<Rightarrow> Inr \<lparr>setCurrent = v, setFile = f\<rparr>)"

datatype saveOutcome = Saved | Invalid settingsError | SaveFailed

definition saveSettings :: "runtimeSettings \<Rightarrow> settingsStore \<Rightarrow> saveOutcome \<times> settingsStore" where
  "saveSettings v s =
     (case validateSettings v of
        Some e \<Rightarrow> (Invalid e, s)
      | None \<Rightarrow>
          (let (ok, f) = writeFile v (setFile s)
           in if ok then (Saved, s\<lparr>setCurrent := v, setFile := f\<rparr>) else (SaveFailed, s\<lparr>setFile := f\<rparr>)))"

subsection \<open>The limit on tool calls\<close>

definition configuredToolCallLimit :: "environment \<Rightarrow> settingsStore \<Rightarrow> int" where
  "configuredToolCallLimit env s =
     (case env ''M365_MAX_TOOL_CALLS_PER_TURN'' of
        Some raw \<Rightarrow>
          (case ParseInt (TrimSpace raw) of
             Some n \<Rightarrow> if 1 \<le> n \<and> n \<le> 64 then n else 1
           | None \<Rightarrow> 1)
      | None \<Rightarrow> MaxToolCallsPerTurn (setCurrent s))"

definition limitToolCalls :: "'c list \<Rightarrow> int \<Rightarrow> 'c list" where
  "limitToolCalls calls n =
     (let n = (if n < 1 then 1 else n) in if int (length calls) > n then take (nat n) calls else calls)"

definition effectiveToolCallLimit :: "bool option \<Rightarrow> environment \<Rightarrow> settingsStore \<Rightarrow> int" where
  "effectiveToolCallLimit requestedParallel env s =
     (if requestedParallel = Some False then 1 else configuredToolCallLimit env s)"

text \<open>\<open>ApplyStartupSettingsEnv\<close>: saved values fill environment variables that are not set.\<close>

definition startupValues :: "runtimeSettings \<Rightarrow> (string \<times> string) list" where
  "startupValues v =
     [(''M365_LISTEN'', ListenAddress v), (''M365_CONFIG'', ConfigPath v),
      (''M365_TOKEN_CACHE'', TokenCachePath v), (''M365_SESSION_CACHE'', SessionCachePath v),
      (''M365_CLIENT_ID'', ClientID v), (''M365_AUTHORITY'', Authority v),
      (''M365_REDIRECT_URI'', RedirectURI v), (''M365_SCOPE'', Scope v),
      (''M365_DEBUG_LOG'', DebugLogPath v)]"

definition ApplyStartupSettingsEnv :: "runtimeSettings \<Rightarrow> environment \<Rightarrow> environment" where
  "ApplyStartupSettingsEnv v env =
     fold (\<lambda>(k, x) e. if e k = None \<and> \<not> blank x then e(k := Some x) else e) (startupValues v) env"

subsection \<open>Laws\<close>

lemma firstRepeat_distinct: "firstRepeat seen ps \<longleftrightarrow> \<not> distinct ps \<or> set ps \<inter> set seen \<noteq> {}"
  by (induction ps arbitrary: seen) auto

lemma validateSettings_None:
  "validateSettings v = None \<longleftrightarrow>
     1 \<le> MaxToolCallsPerTurn v \<and> MaxToolCallsPerTurn v \<le> 64
     \<and> 1 \<le> MaxToolRounds v \<and> MaxToolRounds v \<le> 512
     \<and> 1024 \<le> ContextWindow v \<and> 1 \<le> MaxOutputTokens v \<and> MaxOutputTokens v < ContextWindow v
     \<and> 5 \<le> ChatTimeoutSeconds v \<and> ChatTimeoutSeconds v \<le> 3600
     \<and> 5 \<le> ImageTimeoutSeconds v \<and> ImageTimeoutSeconds v \<le> 3600
     \<and> LogLevel v \<in> {''silent'', ''error'', ''warn'', ''info'', ''debug''}
     \<and> distinct (storagePaths v)"
  by (auto simp: validateSettings_def firstRepeat_distinct)

definition settingsOk :: "settingsStore \<Rightarrow> bool" where
  "settingsOk s \<longleftrightarrow> validateSettings (setCurrent s) = None
     \<and> (case contents (setFile s) of None \<Rightarrow> True | Some v \<Rightarrow> v = setCurrent s)"

lemma saveSettings_cases:
  "(fst (saveSettings v s) = Saved \<and> setCurrent (snd (saveSettings v s)) = v \<and> validateSettings v = None
      \<and> contents (setFile (snd (saveSettings v s))) = Some v)
   \<or> (fst (saveSettings v s) \<noteq> Saved \<and> setCurrent (snd (saveSettings v s)) = setCurrent s
      \<and> contents (setFile (snd (saveSettings v s))) = contents (setFile s))"
proof (cases "writeFile v (setFile s)")
  case (Pair ok f)
  then show ?thesis
    by (cases ok) (auto simp: saveSettings_def split: option.split dest: writeFile_ok writeFile_fail)
qed

interpretation settings: durable_store "\<lambda>v s. snd (saveSettings v s)" "\<lambda>v s. fst (saveSettings v s) \<noteq> Saved"
    setCurrent "\<lambda>s. contents (setFile s)" fallback for fallback
proof
  fix v s
  show "fst (saveSettings v s) \<noteq> Saved \<Longrightarrow> setCurrent (snd (saveSettings v s)) = setCurrent s
      \<and> contents (setFile (snd (saveSettings v s))) = contents (setFile s)"
    using saveSettings_cases [of v s] by auto
  show "\<not> fst (saveSettings v s) \<noteq> Saved \<Longrightarrow> setCurrent (snd (saveSettings v s)) = setCurrent s
      \<and> contents (setFile (snd (saveSettings v s))) = contents (setFile s)
      \<or> contents (setFile (snd (saveSettings v s))) = Some (setCurrent (snd (saveSettings v s)))"
    using saveSettings_cases [of v s] by auto
qed

interpretation settingsValid: op_system "\<lambda>v s. snd (saveSettings v s)" "\<lambda>_. True" settingsOk
proof
  fix v s assume "settingsOk s"
  then show "settingsOk (snd (saveSettings v s))"
    using saveSettings_cases [of v s] by (auto simp: settingsOk_def split: option.splits)
qed

text \<open>The settings in force are valid at every moment, whatever the administrator saves and
  whichever writes fail, the store can be opened again from its file and then holds the same
  settings, and the number of tool calls of a turn stays between 1 and 64 whatever the environment
  says.\<close>

lemma settings_stay_valid:
  assumes opened: "openSettingsStore env f = Inr s0" and s: "s = fold (\<lambda>v s. snd (saveSettings v s)) saves s0"
  shows "validateSettings (setCurrent s) = None
    \<and> (contents (setFile s) \<noteq> None \<longrightarrow>
        (\<exists>s1. openSettingsStore env' (setFile s) = Inr s1 \<and> setCurrent s1 = setCurrent s))
    \<and> 1 \<le> effectiveToolCallLimit par env' s \<and> effectiveToolCallLimit par env' s \<le> 64
    \<and> int (length (limitToolCalls calls (effectiveToolCallLimit par env' s)))
        \<le> effectiveToolCallLimit par env' s"
proof -
  have "settingsOk s0" using opened
    by (auto simp: openSettingsStore_def settingsOk_def Let_def split: option.splits)
  then have ok: "settingsOk s" unfolding s by (intro settingsValid.run_inv) simp_all
  then have "\<exists>s1. openSettingsStore env' (setFile s) = Inr s1 \<and> setCurrent s1 = setCurrent s"
    if "contents (setFile s) \<noteq> None"
    using that by (auto simp: openSettingsStore_def settingsOk_def Let_def)
  moreover have l: "1 \<le> effectiveToolCallLimit par env' s \<and> effectiveToolCallLimit par env' s \<le> 64"
    using ok by (auto simp: effectiveToolCallLimit_def configuredToolCallLimit_def settingsOk_def
        validateSettings_None split: option.split)
  ultimately show ?thesis using ok by (auto simp: limitToolCalls_def Let_def settingsOk_def)
qed

definition exSettings :: settingsStore where
  "exSettings = \<lparr>setCurrent = defaultRuntimeSettings (\<lambda>_. None), setFile = File None []\<rparr>"

lemma settings_stay_valid_witness:
  "validateSettings (setCurrent (snd (saveSettings
     (defaultRuntimeSettings (\<lambda>_. None) \<lparr>MaxToolCallsPerTurn := 99\<rparr>) exSettings))) = None"
proof -
  have "validateSettings (defaultRuntimeSettings (\<lambda>_. None)) = None" by code_simp
  then have "openSettingsStore (\<lambda>_. None) (File None []) = Inr exSettings"
    by (simp add: openSettingsStore_def exSettings_def)
  from conjunct1 [OF settings_stay_valid [OF this,
      of "fold (\<lambda>v s. snd (saveSettings v s)) [defaultRuntimeSettings (\<lambda>_. None) \<lparr>MaxToolCallsPerTurn := 99\<rparr>] exSettings"
         "[defaultRuntimeSettings (\<lambda>_. None) \<lparr>MaxToolCallsPerTurn := 99\<rparr>]"]]
  show ?thesis by (simp only: fold.simps comp_apply id_apply simp_thms)
qed

end
