(* ===== verification/ModelCapabilities.thy ===== *)
theory ModelCapabilities
  imports Settings
begin

text \<open>
  Model names, limits and reasoning levels of internal/web/model_capabilities.go with modelTone,
  requestedOutputLimit and truncateToOutputLimit of internal/web/server.go, and the token count of
  internal/web/token_usage.go. The BPE tokenizer is a third-party package and an argument (None: it
  could not be loaded or failed on the text).
\<close>

subsection \<open>The catalogue\<close>

datatype modelSpec =
  modelSpec (msID: string) (msOwner: string) (msTools: bool) (msReasoning: bool)
    (msContextWindow: int) (msMaxInputTokens: int) (msMaxOutputTokens: int)

datatype modelLimits =
  modelLimits (mlContextWindow: int) (mlMaxInputTokens: int) (mlMaxOutputTokens: int)

definition gatewayModels :: "modelSpec list" where
  "gatewayModels =
     [modelSpec ''gpt-5.2'' ''microsoft-365'' True True 400000 0 128000,
      modelSpec ''gpt-5.2-reasoning'' ''microsoft-365'' True True 400000 0 128000,
      modelSpec ''gpt-5.3'' ''microsoft-365'' True False 400000 0 128000,
      modelSpec ''gpt-5.4'' ''microsoft-365'' True True 1050000 0 128000,
      modelSpec ''gpt-5.4-reasoning'' ''microsoft-365'' True True 1050000 0 128000,
      modelSpec ''gpt-5.5'' ''microsoft-365'' True True 128000 96000 16384,
      modelSpec ''gpt-5.5-reasoning'' ''microsoft-365'' True True 128000 96000 16384,
      modelSpec ''gpt-5.6-sol'' ''microsoft-365'' True True 128000 96000 16384,
      modelSpec ''gpt-5.6-reasoning'' ''microsoft-365'' True True 128000 96000 16384,
      modelSpec ''claude-sonnet'' ''anthropic-via-microsoft-365'' True True 200000 0 64000,
      modelSpec ''claude-sonnet-reasoning'' ''anthropic-via-microsoft-365'' True True 200000 0 64000,
      modelSpec ''gpt-5.6-terra'' ''microsoft-365'' True True 128000 96000 16384,
      modelSpec ''gpt-5.6-luna'' ''microsoft-365'' True True 128000 96000 16384]"

definition gatewayModelAliases :: "(string \<times> string) list" where
  "gatewayModelAliases =
     [(''m365-copilot'', ''gpt-5.6-sol''),
      (''gpt-5.6'', ''gpt-5.6-sol''),
      (''claude'', ''claude-sonnet''),
      (''quick'', ''gpt-5.4''),
      (''think-deeper'', ''gpt-5.6-reasoning''),
      (''gpt-5.6-terra'', ''gpt-5.6-sol''),
      (''gpt-5.6-luna'', ''gpt-5.6-reasoning''),
      (''gpt-5.4-quick'', ''gpt-5.4''),
      (''gpt-5.4-mini'', ''gpt-5.3''),
      (''gpt-5.3-think-deeper'', ''gpt-5.3''),
      (''gpt-reserve'', ''gpt-5.5''),
      (''gpt-5.2-quick'', ''gpt-5.2''),
      (''gpt-5.2-think-deeper'', ''gpt-5.2-reasoning''),
      (''gpt-5.3-quick'', ''gpt-5.3''),
      (''gpt-5.5-quick'', ''gpt-5.5'')]"

definition modelNameOf :: "string \<Rightarrow> string" where
  "modelNameOf model =
     (let wanted = ToLower (TrimSpace model);
          wanted = (if wanted = [] then ''gpt-5.6-sol'' else wanted)
      in getOr wanted gatewayModelAliases wanted)"

definition canonicalGatewayModel :: "string \<Rightarrow> string \<times> bool" where
  "canonicalGatewayModel model =
     (let wanted = modelNameOf model in (wanted, list_ex (\<lambda>spec. msID spec = wanted) gatewayModels))"

definition limitsOf :: "modelSpec \<Rightarrow> modelLimits" where
  "limitsOf m =
     (let maxOutput = msMaxOutputTokens m;
          maxOutput = (if maxOutput \<ge> msContextWindow m then msContextWindow m div 8 else maxOutput);
          maxInput = msMaxInputTokens m;
          maxInput = (if maxInput \<le> 0 \<or> maxInput + maxOutput > msContextWindow m
                      then msContextWindow m - maxOutput else maxInput)
      in modelLimits (msContextWindow m) maxInput maxOutput)"

definition configuredModelLimits :: "runtimeSettings \<Rightarrow> modelLimits" where
  "configuredModelLimits cfg =
     (let contextWindow = ContextWindow cfg;
          maxOutput = MaxOutputTokens cfg;
          maxOutput = (if maxOutput \<ge> contextWindow
                       then (let m = contextWindow div 8 in if m < 1 then 1 else m) else maxOutput)
      in modelLimits contextWindow (contextWindow - maxOutput) maxOutput)"

definition modelLimitsFor :: "runtimeSettings \<Rightarrow> string \<Rightarrow> modelLimits" where
  "modelLimitsFor cfg model =
     (case find (\<lambda>spec. msID spec = fst (canonicalGatewayModel model)) gatewayModels of
        Some spec \<Rightarrow> limitsOf spec
      | None \<Rightarrow> configuredModelLimits cfg)"

definition positiveEnvInt :: "environment \<Rightarrow> string \<Rightarrow> int \<Rightarrow> int" where
  "positiveEnvInt env name fallback = envInt env name fallback"

subsection \<open>Reasoning\<close>

definition normalizeReasoningEffort :: "string \<Rightarrow> string option" where
  "normalizeReasoningEffort e =
     (let e = ToLower (TrimSpace e)
      in if e = [] then Some []
         else if e \<in> set [''none'', ''minimal'', ''low'', ''medium'', ''high'', ''xhigh''] then Some e
         else if e = ''max'' then Some ''xhigh''
         else None)"

definition modelTone :: "string \<Rightarrow> string" where
  "modelTone model =
     getOr ''magic''
       [(''gpt-5.2'', ''Gpt_5_2_Chat''),
      (''gpt-5.2-reasoning'', ''Gpt_5_2_Reasoning''),
      (''gpt-5.3'', ''Gpt_5_3_Chat''),
      (''gpt-5.4'', ''Gpt_5_4_Chat''),
      (''gpt-5.4-reasoning'', ''Gpt_5_4_Reasoning''),
      (''gpt-5.5'', ''Gpt_5_5_Chat''),
      (''gpt-5.5-reasoning'', ''Gpt_5_5_Reasoning''),
      (''gpt-5.6'', ''Gpt_5_6_Chat''),
      (''gpt-5.6-sol'', ''Gpt_5_6_Chat''),
      (''gpt-5.6-terra'', ''Gpt_5_6_Chat''),
      (''gpt-5.6-reasoning'', ''Gpt_5_6_Reasoning''),
      (''gpt-5.6-luna'', ''Gpt_5_6_Reasoning''),
      (''gpt-5.3-reasoning'', ''Gpt_5_3_Reasoning''),
      (''claude'', ''Claude_Sonnet''),
      (''claude-sonnet'', ''Claude_Sonnet''),
      (''claude-sonnet-reasoning'', ''Claude_Sonnet_Reasoning''),
      (''gpt-5.4-quick'', ''Gpt_5_4_Chat''),
      (''gpt-5.3-think-deeper'', ''Gpt_5_3_Chat''),
      (''quick'', ''Gpt_Quick''),
      (''think-deeper'', ''Gpt_Reasoning'')]
       (ToLower (TrimSpace model))"

datatype toneError = UnsupportedEffort | NoReasoningTone

definition lowEffort :: "string \<Rightarrow> bool" where
  "lowEffort e \<longleftrightarrow> e = [] \<or> e = ''none'' \<or> e = ''minimal'' \<or> e = ''low''"

definition reasoningTone :: "string \<Rightarrow> string \<Rightarrow> toneError + string" where
  "reasoningTone model effort =
     (case normalizeReasoningEffort effort of
        None \<Rightarrow> Inl UnsupportedEffort
      | Some e \<Rightarrow>
          let base = modelTone model
          in if EqualFold (TrimSpace model) ''gpt-5.3'' \<and> \<not> lowEffort e then Inl NoReasoningTone
             else if EqualFold (TrimSpace model) ''gpt-5.6-sol'' \<and> e = [] then Inr ''Gpt_5_6_Reasoning''
             else if Contains (ToLower model) ''reasoning'' then Inr base
             else if lowEffort e then Inr base
             else Inr (getOr ''Gpt_Reasoning''
                    [(''claude'', ''Claude_Sonnet_Reasoning''), (''claude-sonnet'', ''Claude_Sonnet_Reasoning''),
                     (''gpt-5.2'', ''Gpt_5_2_Reasoning''), (''gpt-5.3'', ''Gpt_5_3_Reasoning''),
                     (''gpt-5.4'', ''Gpt_5_4_Reasoning''), (''gpt-5.5'', ''Gpt_5_5_Reasoning''),
                     (''gpt-5.6'', ''Gpt_5_6_Reasoning''), (''gpt-5.6-sol'', ''Gpt_5_6_Reasoning'')]
                    (ToLower (TrimSpace model))))"

subsection \<open>Counting tokens\<close>

text \<open>\<open>unicode.IsSpace\<close> of a rune given by its bytes.\<close>

definition isSpaceRune :: "string \<Rightarrow> bool" where
  "isSpaceRune r =
     (case r of
        [c] \<Rightarrow> asciiSpace c
      | [c, d] \<Rightarrow> space2 c d
      | [c, d, e] \<Rightarrow> space3 c d e
      | _ \<Rightarrow> False)"

definition asciiRune :: "string \<Rightarrow> bool" where
  "asciiRune r \<longleftrightarrow> (case r of [c] \<Rightarrow> byteVal c < 128 | _ \<Rightarrow> False)"

definition heuristicOfRunes :: "string list \<Rightarrow> nat" where
  "heuristicOfRunes rs =
     (let visible = filter (\<lambda>r. \<not> isSpaceRune r) rs;
          ascii = length (filter asciiRune visible);
          other = length (filter (\<lambda>r. \<not> asciiRune r) visible)
      in if ascii = 0 \<and> other = 0 then 0 else (ascii + 3) div 4 + other)"

definition heuristicTokenCount :: "string \<Rightarrow> nat" where
  "heuristicTokenCount text = heuristicOfRunes (runes text)"

definition countTokens :: "(string \<Rightarrow> nat option) \<Rightarrow> string \<Rightarrow> string \<Rightarrow> nat" where
  "countTokens encode model text =
     (if HasPrefix (ToLower (TrimSpace model)) ''gpt-''
      then (case encode text of Some n \<Rightarrow> n | None \<Rightarrow> heuristicTokenCount text)
      else heuristicTokenCount text)"

subsection \<open>The output limit\<close>

text \<open>The three limits a request can carry, in the order they are read; None: the request is refused.\<close>

fun requestedOutputLimit :: "int option list \<Rightarrow> int \<Rightarrow> int option" where
  "requestedOutputLimit [] limit = Some limit"
| "requestedOutputLimit (None # cs) limit = requestedOutputLimit cs limit"
| "requestedOutputLimit (Some c # cs) limit =
     (if c \<le> 0 then None
      else requestedOutputLimit cs (if limit \<le> 0 \<or> c < limit then c else limit))"

text \<open>The binary search for the longest prefix of runes within the limit.\<close>

function searchPrefix :: "(nat \<Rightarrow> bool) \<Rightarrow> nat \<Rightarrow> nat \<Rightarrow> nat" where
  "searchPrefix fits low high =
     (if low < high then
        (let mid = (low + high + 1) div 2
         in if fits mid then searchPrefix fits mid high else searchPrefix fits low (mid - 1))
      else low)"
  by pat_completeness auto
termination
  by (relation "measure (\<lambda>(_, low, high). high - low)") auto

declare searchPrefix.simps [simp del]

definition truncateToOutputLimit ::
  "(string \<Rightarrow> nat option) \<Rightarrow> string \<Rightarrow> string \<Rightarrow> int \<Rightarrow> string \<times> bool" where
  "truncateToOutputLimit encode model text limit =
     (if limit \<le> 0 \<or> int (countTokens encode model text) \<le> limit then (text, False)
      else
        let rs = runes text;
            low = searchPrefix (\<lambda>mid. int (countTokens encode model (runesString (take mid rs))) \<le> limit)
                    0 (length rs)
        in (runesString (take low rs), True))"

subsection \<open>Laws\<close>

lemma searchPrefix_step:
  assumes "low < high"
  obtains m where "low < m" and "m \<le> high" and "m = (low + high + 1) div 2"
    and "searchPrefix fits low high =
      (if fits m then searchPrefix fits m high else searchPrefix fits low (m - 1))"
  using assms by (intro that [of "(low + high + 1) div 2"]) (auto simp: searchPrefix.simps [of fits low high] Let_def)

lemma searchPrefix_range: "low \<le> high \<Longrightarrow> low \<le> searchPrefix fits low high \<and> searchPrefix fits low high \<le> high"
proof (induction fits low high rule: searchPrefix.induct)
  case (1 fits low high)
  show ?case
  proof (cases "low < high")
    case True
    then obtain m where m: "low < m" "m \<le> high" "m = (low + high + 1) div 2"
      and eq: "searchPrefix fits low high =
        (if fits m then searchPrefix fits m high else searchPrefix fits low (m - 1))"
      by (rule searchPrefix_step)
    show ?thesis
    proof (cases "fits m")
      case fit: True
      from "1.IH"(1) [OF True m(3) fit m(2)] m fit eq show ?thesis by simp
    next
      case unfit: False
      have "low \<le> m - 1" using m(1) by simp
      from "1.IH"(2) [OF True m(3) unfit this] m(1,2) unfit eq show ?thesis by (simp, linarith)
    qed
  next
    case False
    with 1 show ?thesis by (simp add: searchPrefix.simps)
  qed
qed

lemma searchPrefix_fits: "fits low \<Longrightarrow> fits (searchPrefix fits low high)"
proof (induction fits low high rule: searchPrefix.induct)
  case (1 fits low high)
  then show ?case by (subst searchPrefix.simps) (simp add: Let_def)
qed

lemma searchPrefix_maximal:
  assumes "low \<le> high" and "\<And>i j. i \<le> j \<Longrightarrow> j \<le> high \<Longrightarrow> fits j \<Longrightarrow> fits i"
    and "searchPrefix fits low high < j" and "j \<le> high"
  shows "\<not> fits j"
  using assms
proof (induction fits low high rule: searchPrefix.induct)
  case (1 fits low high)
  show ?case
  proof (cases "low < high")
    case True
    then obtain m where m: "low < m" "m \<le> high" "m = (low + high + 1) div 2"
      and eq: "searchPrefix fits low high =
        (if fits m then searchPrefix fits m high else searchPrefix fits low (m - 1))"
      by (rule searchPrefix_step)
    note mono = "1.prems"(2)
    show ?thesis
    proof (cases "fits m")
      case fit: True
      show ?thesis
        by (rule "1.IH"(1) [OF True m(3) fit m(2) mono]) (use eq fit "1.prems"(3,4) in simp_all)
    next
      case unfit: False
      show ?thesis
      proof (cases "j \<le> m - 1")
        case le: True
        have lo: "low \<le> m - 1" and hi: "m - 1 \<le> high" using m by simp_all
        have "searchPrefix fits low (m - 1) < j" using eq unfit "1.prems"(3) by simp
        from "1.IH"(2) [OF True m(3) unfit lo mono this le] hi show ?thesis by simp
      next
        case False
        then have "m \<le> j" by simp
        with mono [of m j] "1.prems"(4) unfit show ?thesis by auto
      qed
    qed
  next
    case False
    with "1.prems" show ?thesis by (simp add: searchPrefix.simps)
  qed
qed

lemma requestedOutputLimit_min:
  "0 < limit \<Longrightarrow>
   requestedOutputLimit cs limit =
     (if \<exists>c. Some c \<in> set cs \<and> c \<le> 0 then None
      else Some (Min (insert limit {c. Some c \<in> set cs})))"
proof (induction cs arbitrary: limit)
  case Nil
  then show ?case by simp
next
  case (Cons c cs)
  have fin: "finite {c. Some c \<in> set cs}"
    using finite_vimageI [of "set cs" Some] by (simp add: vimage_def)
  show ?case
  proof (cases c)
    case None
    with Cons show ?thesis by simp
  next
    case (Some d)
    define S where "S = {c. Some c \<in> set cs}"
    show ?thesis
    proof (cases "d \<le> 0")
      case True
      with Some show ?thesis by auto
    next
      case False
      define l where "l = (if limit \<le> 0 \<or> d < limit then d else limit)"
      have l: "l = min d limit" "0 < l" using False Cons.prems by (auto simp: l_def)
      have "Min (insert l S) = Min (insert limit (insert d S))"
        using fin by (cases "S = {}") (simp_all add: l S_def [symmetric] ac_simps)
      moreover have "insert d S = {c. Some c \<in> set (Some d # cs)}" by (auto simp: S_def)
      moreover have "(\<exists>c. Some c \<in> set (Some d # cs) \<and> c \<le> 0) \<longleftrightarrow> (\<exists>c. Some c \<in> set cs \<and> c \<le> 0)"
        using False by auto
      moreover have "requestedOutputLimit (c # cs) limit = requestedOutputLimit cs l"
        using False Some by (simp add: l_def)
      ultimately show ?thesis unfolding Some using Cons.IH [OF l(2)] by (simp only: S_def)
    qed
  qed
qed

lemma heuristic_take_mono:
  "i \<le> j \<Longrightarrow> heuristicOfRunes (take i rs) \<le> heuristicOfRunes (take j rs)"
proof -
  assume ij: "i \<le> j"
  define count where "count = (\<lambda>P xs. length (filter P (filter (\<lambda>r. \<not> isSpaceRune r) xs)))"
  have mono: "count P (take i rs) \<le> count P (take j rs)" for P
  proof -
    have "take j rs = take i rs @ drop i (take j rs)"
      using ij by (metis append_take_drop_id min.absorb1 take_take)
    then show ?thesis unfolding count_def by (metis filter_append le_add1 length_append)
  qed
  have h: "heuristicOfRunes xs = (count asciiRune xs + 3) div 4 + count (\<lambda>r. \<not> asciiRune r) xs" for xs
    by (simp add: heuristicOfRunes_def count_def Let_def)
  have "(count asciiRune (take i rs) + 3) div 4 \<le> (count asciiRune (take j rs) + 3) div 4"
    by (rule div_le_mono) (simp add: mono)
  with mono [of "\<lambda>r. \<not> asciiRune r"] show ?thesis unfolding h by linarith
qed

lemma countTokens_empty:
  "(encode [] = None \<or> encode [] = Some 0) \<Longrightarrow> countTokens encode model [] = 0"
  by (auto simp: countTokens_def heuristicTokenCount_def heuristicOfRunes_def)

text \<open>A request with positive limits gets the smallest of them and the configured one, and one with a
  limit that is not positive is refused. Truncation to that budget returns a text that counts at
  most that many tokens; it changes nothing when the text fits already, and otherwise returns
  whole runes from the start of the text, and the most runes that fit when the count never
  decreases from one prefix to a longer one.\<close>

lemma output_budget:
  assumes configured: "0 < configured"
    and granted: "requestedOutputLimit cs configured = Some limit"
    and empty: "encode [] = None \<or> encode [] = Some 0"
    and cut: "truncateToOutputLimit encode model text limit = (out, truncated)"
  shows "limit = Min (insert configured {c. Some c \<in> set cs}) \<and> 0 < limit
    \<and> int (countTokens encode model out) \<le> limit
    \<and> (truncated \<longleftrightarrow> limit < int (countTokens encode model text))
    \<and> (\<not> truncated \<longrightarrow> out = text)
    \<and> (truncated \<longrightarrow> (\<exists>k \<le> length (runes text). out = runesString (take k (runes text))
          \<and> ((\<forall>i j. i \<le> j \<longrightarrow> countTokens encode model (runesString (take i (runes text)))
                              \<le> countTokens encode model (runesString (take j (runes text)))) \<longrightarrow>
             (\<forall>j. k < j \<and> j \<le> length (runes text) \<longrightarrow>
                limit < int (countTokens encode model (runesString (take j (runes text))))))))"
proof -
  have lim: "\<not> (\<exists>c. Some c \<in> set cs \<and> c \<le> 0)" "limit = Min (insert configured {c. Some c \<in> set cs})"
    using granted configured by (simp_all add: requestedOutputLimit_min split: if_splits)
  have fin: "finite {c. Some c \<in> set cs}" using finite_vimageI [of "set cs" Some] by (simp add: vimage_def)
  have pos: "0 < limit" using lim configured fin
    by (subst lim(2)) (auto simp: Min_gr_iff)
  let ?fits = "\<lambda>mid. int (countTokens encode model (runesString (take mid (runes text)))) \<le> limit"
  show ?thesis
  proof (cases "int (countTokens encode model text) \<le> limit")
    case True
    with cut pos have "out = text \<and> \<not> truncated" by (simp add: truncateToOutputLimit_def)
    with True lim(2) pos show ?thesis by auto
  next
    case False
    define k where "k = searchPrefix ?fits 0 (length (runes text))"
    have out: "out = runesString (take k (runes text))" "truncated"
      using cut pos False by (simp_all add: truncateToOutputLimit_def k_def Let_def)
    have "?fits 0" using countTokens_empty [of encode model] empty pos by (simp add: runesString_def)
    then have "?fits k" unfolding k_def by (rule searchPrefix_fits)
    moreover have "k \<le> length (runes text)" using searchPrefix_range [of 0 "length (runes text)" ?fits] by (simp add: k_def)
    moreover have "\<forall>j. k < j \<and> j \<le> length (runes text) \<longrightarrow> \<not> ?fits j"
      if mono: "\<forall>i j. i \<le> j \<longrightarrow> countTokens encode model (runesString (take i (runes text)))
                              \<le> countTokens encode model (runesString (take j (runes text)))"
    proof (intro allI impI, elim conjE)
      fix j assume j: "k < j" "j \<le> length (runes text)"
      show "\<not> ?fits j"
      proof (rule searchPrefix_maximal [of 0 "length (runes text)" ?fits j])
        fix i i' assume "i \<le> i'" and "?fits i'"
        with mono show "?fits i" by (meson of_nat_le_iff order_trans)
      qed (use j in \<open>simp_all add: k_def\<close>)
    qed
    ultimately show ?thesis using out lim(2) pos False by (auto simp: not_le)
  qed
qed

lemma output_budget_witness:
  "countTokens (\<lambda>_. None) ''m'' (fst (truncateToOutputLimit (\<lambda>_. None) ''m'' ''abcdefgh xyz'' 2)) \<le> 2"
proof -
  have g: "requestedOutputLimit [None, Some 2] 16 = Some 2" by simp
  obtain out cut where c: "truncateToOutputLimit (\<lambda>_. None) ''m'' ''abcdefgh xyz'' 2 = (out, cut)" by force
  from output_budget [OF _ g _ c] have "int (countTokens (\<lambda>_. None) ''m'' out) \<le> 2" by simp
  with c show ?thesis by simp
qed

text \<open>Every model of the catalogue, and every unknown name under valid settings, gets limits whose
  input and output budgets are positive and together fit its context window; every alias leads to
  a model of the catalogue that is not an alias itself.\<close>

lemma model_limits_sane:
  assumes "validateSettings cfg = None"
  shows "(case modelLimitsFor cfg model of modelLimits window input output \<Rightarrow>
      0 < input \<and> 0 < output \<and> input + output \<le> window)
    \<and> (\<forall>(alias, name) \<in> set gatewayModelAliases.
      canonicalGatewayModel alias = (name, True) \<and> canonicalGatewayModel name = (name, True))"
proof
  have cat: "list_all (\<lambda>spec. case limitsOf spec of modelLimits window input output \<Rightarrow>
      0 < input \<and> 0 < output \<and> input + output \<le> window) gatewayModels"
    by (simp add: gatewayModels_def limitsOf_def)
  show "case modelLimitsFor cfg model of modelLimits window input output \<Rightarrow>
      0 < input \<and> 0 < output \<and> input + output \<le> window"
  proof (cases "find (\<lambda>spec. msID spec = fst (canonicalGatewayModel model)) gatewayModels")
    case None
    with assms show ?thesis
      by (simp add: modelLimitsFor_def configuredModelLimits_def validateSettings_None Let_def)
  next
    case (Some spec)
    then have "spec \<in> set gatewayModels" by (auto simp: find_Some_iff)
    with cat Some show ?thesis by (simp add: modelLimitsFor_def list_all_iff)
  qed
  show "\<forall>(alias, name) \<in> set gatewayModelAliases.
      canonicalGatewayModel alias = (name, True) \<and> canonicalGatewayModel name = (name, True)"
    unfolding gatewayModelAliases_def by code_simp
qed

lemma model_limits_sane_witness:
  "canonicalGatewayModel ''quick'' = (''gpt-5.4'', True)"
proof -
  have v: "validateSettings (defaultRuntimeSettings (\<lambda>_. None)) = None" by code_simp
  have "(''quick'', ''gpt-5.4'') \<in> set gatewayModelAliases" by (simp add: gatewayModelAliases_def)
  with model_limits_sane [OF v] show ?thesis by blast
qed

end
