(* ===== verification/PortableHistory.thy ===== *)
theory PortableHistory
  imports GoJson
begin

text \<open>
  Portable conversation history of internal/web/portable_history.go: bounding a single value,
  sanitizing a message, the bounded tail of a transcript, the transition that encodes one history
  relative to another, and the merge of a stored history with a request. Message equality is
  equality of the encoded values, and a copy through encoding/json makes strings valid UTF-8.
\<close>

subsection \<open>Messages\<close>

record oaiMsg =
  msgRole :: string
  msgContent :: json
  msgName :: string
  msgToolCallID :: string
  msgToolCalls :: "(string \<times> json) list list"

record detectedToolCall =
  callID :: string
  callName :: string
  callArguments :: string

definition emptyMsg :: oaiMsg where
  "emptyMsg = \<lparr>msgRole = [], msgContent = JNull, msgName = [], msgToolCallID = [], msgToolCalls = []\<rparr>"

definition maxRecoverableToolRounds :: nat where
  "maxRecoverableToolRounds = 512"

definition maxPortableMessages :: nat where
  "maxPortableMessages = 1 + maxRecoverableToolRounds * 3"

definition maxPortableHistoryBytes :: nat where
  "maxPortableHistoryBytes = 8 * 1024 * 1024"

definition maxPortableContentBytes :: nat where
  "maxPortableContentBytes = 64 * 1024"

definition maxPortableToolCalls :: nat where
  "maxPortableToolCalls = 64"

definition maxPortableToolArgBytes :: nat where
  "maxPortableToolArgBytes = 16 * 1024"

subsection \<open>Bounding a value\<close>

function shrinkValid :: "string \<Rightarrow> string" where
  "shrinkValid t = (if t = [] \<or> ValidString t then t else shrinkValid (butlast t))"
  by pat_completeness auto
termination by (relation "measure length") auto

declare shrinkValid.simps [simp del]

definition utf8Prefix :: "string \<Rightarrow> nat \<Rightarrow> string" where
  "utf8Prefix s n = (if n \<ge> length s then s else shrinkValid (take n s))"

definition utf8Suffix :: "string \<Rightarrow> nat \<Rightarrow> string" where
  "utf8Suffix s n = (if n \<ge> length s then s else dropWhile (\<lambda>c. \<not> RuneStart c) (drop (length s - n) s))"

lemma utf8Suffix_shorter: "tail \<noteq> [] \<Longrightarrow> length (utf8Suffix tail (length tail - 1)) < length tail"
proof -
  assume t: "tail \<noteq> []"
  then have d: "length tail - (length tail - 1) = 1" by (cases tail) auto
  have "length (dropWhile (\<lambda>c. \<not> RuneStart c) (drop 1 tail)) \<le> length (drop 1 tail)"
    by (rule length_dropWhile_le)
  also have "\<dots> < length tail" using t by simp
  finally show ?thesis using t unfolding utf8Suffix_def d by auto
qed

function shortenTail :: "nat \<Rightarrow> nat \<Rightarrow> string \<Rightarrow> string" where
  "shortenTail used limit tail =
     (if used + length tail > limit \<and> tail \<noteq> []
      then shortenTail used limit (utf8Suffix tail (length tail - 1)) else tail)"
  by pat_completeness auto
termination by (relation "measure (\<lambda>(_, _, tail). length tail)") (auto simp: utf8Suffix_shorter simp del: One_nat_def)

declare shortenTail.simps [simp del]

definition markerReserve :: nat where
  "markerReserve = 64"

definition truncationMarker :: "nat \<Rightarrow> string" where
  "truncationMarker n = CHR 0x0A # ''... [truncated '' @ showNat n @ '' bytes] ...'' @ [CHR 0x0A]"

definition compactPortableUTF8 :: "string \<Rightarrow> nat \<Rightarrow> string" where
  "compactPortableUTF8 value limit =
     (let value = TrimSpace value
      in if limit < 1 \<or> length value \<le> limit then value
         else if limit \<le> markerReserve then utf8Prefix value limit
         else
           let headBudget = (limit - markerReserve) div 3;
               tailBudget = limit - markerReserve - headBudget;
               head = utf8Prefix value headBudget;
               tail = utf8Suffix value tailBudget;
               marker = truncationMarker (length value - length head - length tail);
               tail = shortenTail (length head + length marker) limit tail
           in head @ marker @ tail)"

subsection \<open>Encoding\<close>

definition toJSON :: "oaiMsg \<Rightarrow> json" where
  "toJSON m =
     JObj ([(''role'', JStr (toValid (msgRole m))), (''content'', canon (msgContent m))]
           @ (if msgName m = [] then [] else [(''name'', JStr (toValid (msgName m)))])
           @ (if msgToolCallID m = [] then [] else [(''tool_call_id'', JStr (toValid (msgToolCallID m)))])
           @ (if msgToolCalls m = [] then []
              else [(''tool_calls'', JArr (map (\<lambda>c. canon (JObj c)) (msgToolCalls m)))]))"

definition portableMessagesBytes :: "oaiMsg list \<Rightarrow> nat" where
  "portableMessagesBytes ms = length (render (JArr (map toJSON ms)))"

definition portableMessageEqual :: "oaiMsg \<Rightarrow> oaiMsg \<Rightarrow> bool" where
  "portableMessageEqual a b \<longleftrightarrow> toJSON a = toJSON b"

text \<open>Decoding what has been encoded.\<close>

fun cloneJSON :: "json \<Rightarrow> json" where
  "cloneJSON (JStr s) = JStr (toValid s)"
| "cloneJSON (JArr vs) = JArr (map cloneJSON vs)"
| "cloneJSON (JObj ms) = JObj (map (\<lambda>(k, v). (toValid k, cloneJSON v)) ms)"
| "cloneJSON v = v"

definition cloneMsg :: "oaiMsg \<Rightarrow> oaiMsg" where
  "cloneMsg m =
     \<lparr>msgRole = toValid (msgRole m), msgContent = cloneJSON (msgContent m), msgName = toValid (msgName m),
      msgToolCallID = toValid (msgToolCallID m),
      msgToolCalls = map (map (\<lambda>(k, v). (toValid k, cloneJSON v))) (msgToolCalls m)\<rparr>"

definition clonePortableMessages :: "oaiMsg list \<Rightarrow> oaiMsg list" where
  "clonePortableMessages ms = map cloneMsg ms"

subsection \<open>Sanitizing\<close>

definition portableRoles :: "string list" where
  "portableRoles = [''system'', ''developer'', ''user'', ''assistant'', ''tool'']"

definition portableCall :: "string \<Rightarrow> string \<Rightarrow> string \<Rightarrow> (string \<times> json) list" where
  "portableCall cid name arguments =
     [(''function'', JObj [(''arguments'', JStr arguments), (''name'', JStr name)]),
      (''id'', JStr cid), (''type'', JStr ''function'')]"

definition sanitizeCall :: "(string \<times> json) list \<Rightarrow> (string \<times> json) list option" where
  "sanitizeCall rawCall =
     (let cid = asString (getOr JNull rawCall ''id'');
          function' = getOr JNull rawCall ''function'';
          name = asString (jsonField ''name'' function');
          raw = jsonField ''arguments'' function';
          arguments = (case raw of JStr s \<Rightarrow> s | _ \<Rightarrow> mustJSON raw);
          cid = compactPortableUTF8 cid 256;
          name = compactPortableUTF8 name 256;
          arguments = compactPortableUTF8 arguments maxPortableToolArgBytes
      in if cid = [] \<or> name = [] then None else Some (portableCall cid name arguments))"

definition sanitizeContent :: "(json \<Rightarrow> string) \<Rightarrow> json \<Rightarrow> json" where
  "sanitizeContent sprint c =
     (if c = JNull then JNull
      else (let t = TrimSpace (contentToString sprint c)
            in if t \<noteq> [] then JStr (compactPortableUTF8 t maxPortableContentBytes) else JNull))"

definition sanitizePortableMessage :: "(json \<Rightarrow> string) \<Rightarrow> oaiMsg \<Rightarrow> oaiMsg option" where
  "sanitizePortableMessage sprint m =
     (let role = ToLower (TrimSpace (msgRole m))
      in if role \<notin> set portableRoles then None
         else
           let clean =
             \<lparr>msgRole = role, msgContent = sanitizeContent sprint (msgContent m),
              msgName = compactPortableUTF8 (msgName m) 256,
              msgToolCallID = (if role = ''tool'' then compactPortableUTF8 (msgToolCallID m) 256 else []),
              msgToolCalls =
                (if role = ''assistant''
                 then List.map_filter sanitizeCall (take maxPortableToolCalls (msgToolCalls m)) else [])\<rparr>
           in if msgContent clean = JNull \<and> msgToolCalls clean = [] \<and> role \<noteq> ''tool'' then None
              else Some clean)"

definition sanitizePortableDelta :: "(json \<Rightarrow> string) \<Rightarrow> oaiMsg list \<Rightarrow> oaiMsg list" where
  "sanitizePortableDelta sprint ms =
     clonePortableMessages (List.map_filter (sanitizePortableMessage sprint) ms)"

subsection \<open>The bounded tail\<close>

definition historyFits :: "oaiMsg list \<Rightarrow> bool" where
  "historyFits ms \<longleftrightarrow> length ms \<le> maxPortableMessages \<and> portableMessagesBytes ms \<le> maxPortableHistoryBytes"

abbreviation isUser :: "oaiMsg \<Rightarrow> bool" where
  "isUser m \<equiv> msgRole m = ''user''"

abbreviation isTool :: "oaiMsg \<Rightarrow> bool" where
  "isTool m \<equiv> msgRole m = ''tool''"

text \<open>An assistant message with calls forms a unit with the tool results behind it.\<close>

function toolUnits :: "oaiMsg list \<Rightarrow> oaiMsg list list" where
  "toolUnits [] = []"
| "toolUnits (m # ms) =
     (if msgRole m = ''assistant'' \<and> msgToolCalls m \<noteq> []
      then (m # takeWhile isTool ms) # toolUnits (dropWhile isTool ms)
      else [m] # toolUnits ms)"
  by pat_completeness auto
termination by (relation "measure length") (auto simp: le_imp_less_Suc length_dropWhile_le)

text \<open>The newest units that fit behind the anchor; the units come newest first.\<close>

fun selectUnits :: "oaiMsg \<Rightarrow> oaiMsg list \<Rightarrow> oaiMsg list list \<Rightarrow> oaiMsg list" where
  "selectUnits anchor selected [] = selected"
| "selectUnits anchor selected (u # us) =
     (let tail = clonePortableMessages u @ selected
      in if \<not> historyFits (cloneMsg anchor # tail) then selected else selectUnits anchor tail us)"

text \<open>Without a user message: whole turns, or single messages, are dropped from the front.\<close>

function dropOldest :: "oaiMsg list \<Rightarrow> oaiMsg list" where
  "dropOldest ms =
     (if historyFits ms then clonePortableMessages ms
      else if length ms \<le> 1 then ms
      else (case dropWhile (\<lambda>m. \<not> isUser m) (tl ms) of
              [] \<Rightarrow> dropOldest (tl ms)
            | turn # rest \<Rightarrow> dropOldest (turn # rest)))"
  by pat_completeness auto
termination
proof (relation "measure length")
  fix ms :: "oaiMsg list" and turn rest
  assume "\<not> historyFits ms" "\<not> length ms \<le> 1"
    and "dropWhile (\<lambda>m. \<not> isUser m) (tl ms) = turn # rest"
  then have "length (turn # rest) \<le> length (tl ms)" by (metis length_dropWhile_le)
  with \<open>\<not> length ms \<le> 1\<close> show "(turn # rest, ms) \<in> measure length" by (cases ms) auto
qed auto

declare dropOldest.simps [simp del]

definition boundedPortableMessages :: "(json \<Rightarrow> string) \<Rightarrow> oaiMsg list \<Rightarrow> oaiMsg list" where
  "boundedPortableMessages sprint ms =
     (let clean = List.map_filter (sanitizePortableMessage sprint) ms
      in if clean = [] then []
         else if historyFits clean then clonePortableMessages clean
         else (case dropWhile (\<lambda>m. \<not> isUser m) (rev clean) of
                 anchor # _ \<Rightarrow>
                   clonePortableMessages (anchor #
                     selectUnits anchor [] (rev (toolUnits (rev (takeWhile (\<lambda>m. \<not> isUser m) (rev clean))))))
               | [] \<Rightarrow> dropOldest clean))"

subsection \<open>Transitions and merges\<close>

definition overlapAt :: "oaiMsg list \<Rightarrow> oaiMsg list \<Rightarrow> nat \<Rightarrow> bool" where
  "overlapAt left right n =
     list_all2 portableMessageEqual (drop (length left - n) left) (take n right)"

fun largestOverlap :: "oaiMsg list \<Rightarrow> oaiMsg list \<Rightarrow> nat \<Rightarrow> nat" where
  "largestOverlap left right 0 = 0"
| "largestOverlap left right (Suc n) =
     (if overlapAt left right (Suc n) then Suc n else largestOverlap left right n)"

definition overlapOf :: "oaiMsg list \<Rightarrow> oaiMsg list \<Rightarrow> nat" where
  "overlapOf left right = largestOverlap left right (min (length left) (length right))"

definition portableTransition ::
  "(json \<Rightarrow> string) \<Rightarrow> oaiMsg list \<Rightarrow> oaiMsg list \<Rightarrow> nat \<times> oaiMsg list" where
  "portableTransition sprint parent tgt =
     (let parent = boundedPortableMessages sprint parent;
          tgt = boundedPortableMessages sprint tgt;
          overlap = overlapOf parent tgt
      in (length parent - overlap, clonePortableMessages (drop overlap tgt)))"

definition mergePortableMessages ::
  "(json \<Rightarrow> string) \<Rightarrow> oaiMsg list \<Rightarrow> oaiMsg list \<Rightarrow> oaiMsg list" where
  "mergePortableMessages sprint history incoming =
     (let history = boundedPortableMessages sprint history;
          incoming = boundedPortableMessages sprint incoming;
          overlap = overlapOf history incoming
      in boundedPortableMessages sprint (clonePortableMessages history @ drop overlap incoming))"

subsection \<open>The answer as a message\<close>

definition toolCallMaps :: "detectedToolCall list \<Rightarrow> (string \<times> json) list list" where
  "toolCallMaps calls = map (\<lambda>c. portableCall (callID c) (callName c) (callArguments c)) calls"

definition assistantPortableMessage :: "string \<Rightarrow> detectedToolCall list \<Rightarrow> oaiMsg" where
  "assistantPortableMessage t calls =
     (if calls = [] then emptyMsg\<lparr>msgRole := ''assistant'', msgContent := JStr t\<rparr>
      else emptyMsg\<lparr>msgRole := ''assistant'', msgToolCalls := toolCallMaps calls\<rparr>)"

subsection \<open>Messages in normal form\<close>

text \<open>A message that sanitizing and copying leave alone, as every stored message is.\<close>

definition wfMsg :: "(json \<Rightarrow> string) \<Rightarrow> oaiMsg \<Rightarrow> bool" where
  "wfMsg sprint m \<longleftrightarrow> sanitizePortableMessage sprint m = Some m \<and> cloneMsg m = m"

abbreviation wfMsgs :: "(json \<Rightarrow> string) \<Rightarrow> oaiMsg list \<Rightarrow> bool" where
  "wfMsgs sprint ms \<equiv> \<forall>m \<in> set ms. wfMsg sprint m"

text \<open>A message whose sanitized form is in normal form.\<close>

definition tame :: "(json \<Rightarrow> string) \<Rightarrow> oaiMsg \<Rightarrow> bool" where
  "tame sprint m \<longleftrightarrow> (\<forall>c. sanitizePortableMessage sprint m = Some c \<longrightarrow> wfMsg sprint c)"

abbreviation tames :: "(json \<Rightarrow> string) \<Rightarrow> oaiMsg list \<Rightarrow> bool" where
  "tames sprint ms \<equiv> \<forall>m \<in> set ms. tame sprint m"

definition boundedHistory :: "(json \<Rightarrow> string) \<Rightarrow> oaiMsg list \<Rightarrow> bool" where
  "boundedHistory sprint ms \<longleftrightarrow> wfMsgs sprint ms \<and> boundedPortableMessages sprint ms = ms"

lemma wfMsg_tame: "wfMsg sprint m \<Longrightarrow> tame sprint m"
  by (simp add: tame_def wfMsg_def)

lemma map_filter_wf [simp]: "wfMsgs sprint ms \<Longrightarrow> List.map_filter (sanitizePortableMessage sprint) ms = ms"
  by (induction ms) (auto simp: List.map_filter_simps wfMsg_def)

lemma clone_wf [simp]: "wfMsgs sprint ms \<Longrightarrow> clonePortableMessages ms = ms"
  by (induction ms) (auto simp: clonePortableMessages_def wfMsg_def)

lemma map_filter_tame: "tames sprint ms \<Longrightarrow> wfMsgs sprint (List.map_filter (sanitizePortableMessage sprint) ms)"
  by (induction ms) (auto simp: List.map_filter_simps tame_def split: option.splits)

lemma toolUnits_set: "\<forall>u \<in> set (toolUnits ms). set u \<subseteq> set ms"
proof (induction ms rule: toolUnits.induct)
  case (2 m ms)
  then show ?case
    by (auto dest: set_takeWhileD set_dropWhileD split: if_splits)
qed simp

lemma selectUnits_set:
  "set (selectUnits a sel us) \<subseteq> set sel \<union> (\<Union>u \<in> set us. set (clonePortableMessages u))"
  by (induction a sel us rule: selectUnits.induct) (auto simp: Let_def)

lemma selectUnits_fits:
  "sel = [] \<or> historyFits (cloneMsg a # sel) \<Longrightarrow>
   selectUnits a sel us = [] \<or> historyFits (cloneMsg a # selectUnits a sel us)"
  by (induction a sel us rule: selectUnits.induct) (auto simp: Let_def)

lemma dropOldest_cases:
  obtains "historyFits ms" and "dropOldest ms = clonePortableMessages ms"
  | "\<not> historyFits ms" and "length ms \<le> 1" and "dropOldest ms = ms"
  | ms' where "\<not> historyFits ms" and "\<not> length ms \<le> 1" and "dropOldest ms = dropOldest ms'"
      and "set ms' \<subseteq> set ms" and "length ms' < length ms" and "suffix ms' ms" and "ms' \<noteq> []"
proof -
  consider "historyFits ms" | "\<not> historyFits ms" "length ms \<le> 1" | "\<not> historyFits ms" "\<not> length ms \<le> 1" by blast
  then show thesis
  proof cases
    case 1
    then show thesis by (intro that(1)) (simp_all add: dropOldest.simps [of ms])
  next
    case 2
    then show thesis by (intro that(2)) (simp_all add: dropOldest.simps [of ms])
  next
    case F: 3
    then obtain m r where ms: "ms = m # r" "r \<noteq> []" by (cases ms) auto
    show thesis
    proof (cases "dropWhile (\<lambda>m. \<not> isUser m) (tl ms)")
      case Nil
      then have "dropOldest ms = dropOldest (tl ms)"
        using F by (simp only: dropOldest.simps [of ms] if_False list.case)
      then show thesis using F ms by (intro that(3) [of "tl ms"]) (auto simp: suffix_Cons)
    next
      case (Cons t rest)
      then have eq: "dropOldest ms = dropOldest (t # rest)"
        using F by (simp only: dropOldest.simps [of ms] if_False list.case)
      have suf: "suffix (t # rest) r" using Cons ms by (metis list.sel(3) suffix_dropWhile)
      then have "length (t # rest) \<le> length r" "set (t # rest) \<subseteq> set r"
        by (rule suffix_length_le, rule set_mono_suffix)
      then show thesis using F ms eq suf by (intro that(3) [of "t # rest"]) (auto simp: suffix_Cons)
    qed
  qed
qed

lemma dropOldest_spec:
  "wfMsgs sprint ms \<Longrightarrow>
   set (dropOldest ms) \<subseteq> set ms \<and> (historyFits (dropOldest ms) \<or> length (dropOldest ms) \<le> 1)
   \<and> (ms \<noteq> [] \<longrightarrow> dropOldest ms \<noteq> [])"
proof (induction "length ms" arbitrary: ms rule: less_induct)
  case less
  show ?case
  proof (cases rule: dropOldest_cases [of ms])
    case 1
    with less.prems show ?thesis by simp
  next
    case 2
    then show ?thesis by simp
  next
    case (3 ms')
    then have "wfMsgs sprint ms'" using less.prems by auto
    from less.hyps [OF 3(5) this] 3 show ?thesis by auto
  qed
qed

lemma map_filter_set: "set (List.map_filter f xs) = {y. \<exists>x \<in> set xs. f x = Some y}"
  by (induction xs) (auto simp: List.map_filter_simps split: option.splits)

lemma bounded_wf:
  assumes "wfMsgs sprint ms"
  shows "set (boundedPortableMessages sprint ms) \<subseteq> set ms
    \<and> (historyFits (boundedPortableMessages sprint ms) \<or> length (boundedPortableMessages sprint ms) \<le> 1)"
proof (cases "ms = [] \<or> historyFits ms")
  case True
  with assms show ?thesis by (auto simp: boundedPortableMessages_def Let_def)
next
  case False
  show ?thesis
  proof (cases "dropWhile (\<lambda>m. \<not> isUser m) (rev ms)")
    case Nil
    then have "boundedPortableMessages sprint ms = dropOldest ms"
      using False assms by (simp add: boundedPortableMessages_def Let_def del: dropWhile_eq_Nil_conv)
    with dropOldest_spec [OF assms] show ?thesis by simp
  next
    case (Cons a r)
    define us where "us = rev (toolUnits (rev (takeWhile (\<lambda>m. \<not> isUser m) (rev ms))))"
    have eq: "boundedPortableMessages sprint ms = clonePortableMessages (a # selectUnits a [] us)"
      using False assms Cons by (simp add: boundedPortableMessages_def us_def Let_def)
    have a: "a \<in> set ms" using Cons by (metis list.set_intros(1) set_dropWhileD set_rev)
    have units: "\<forall>u \<in> set us. set u \<subseteq> set ms"
      using toolUnits_set by (fastforce simp: us_def dest: set_takeWhileD)
    then have "\<forall>u \<in> set us. clonePortableMessages u = u" using assms by (blast intro: clone_wf)
    then have sel: "set (selectUnits a [] us) \<subseteq> set ms"
      using selectUnits_set [of a "[]" us] units by fastforce
    then have wf: "wfMsgs sprint (a # selectUnits a [] us)" using a assms by auto
    then have eq2: "boundedPortableMessages sprint ms = a # selectUnits a [] us" using eq by simp
    have "cloneMsg a = a" using wf by (simp add: wfMsg_def)
    then have "selectUnits a [] us = [] \<or> historyFits (a # selectUnits a [] us)"
      using selectUnits_fits [of "[]" a us] by simp
    with eq2 a sel show ?thesis by auto
  qed
qed

lemma bounded_fits: "wfMsgs sprint ms \<Longrightarrow> historyFits ms \<Longrightarrow> boundedPortableMessages sprint ms = ms"
  by (cases "ms = []") (simp_all add: boundedPortableMessages_def Let_def)

lemma bounded_single:
  assumes "wfMsg sprint m"
  shows "boundedPortableMessages sprint [m] = [m]"
proof -
  have f: "List.map_filter (sanitizePortableMessage sprint) [m] = [m]"
    and c: "clonePortableMessages [m] = [m]"
    using map_filter_wf [of "[m]" sprint] clone_wf [of "[m]" sprint] assms by simp_all
  have d: "dropOldest [m] = [m]" using c by (simp add: dropOldest.simps [of "[m]"])
  show ?thesis unfolding boundedPortableMessages_def f Let_def
    by (cases "isUser m") (simp_all add: c d)
qed

lemma bounded_fixed:
  assumes "wfMsgs sprint ms"
  shows "boundedHistory sprint (boundedPortableMessages sprint ms)"
proof -
  let ?b = "boundedPortableMessages sprint ms"
  have wf: "wfMsgs sprint ?b" using bounded_wf [OF assms] assms by blast
  consider "historyFits ?b" | "length ?b \<le> 1" using bounded_wf [OF assms] by blast
  then have "boundedPortableMessages sprint ?b = ?b"
  proof cases
    case 1
    with wf show ?thesis by (rule bounded_fits)
  next
    case 2
    then consider "?b = []" | m where "?b = [m]" by (cases ?b) auto
    then show ?thesis
    proof cases
      case 1
      then show ?thesis by (simp add: boundedPortableMessages_def List.map_filter_simps)
    next
      case 2
      with wf bounded_single show ?thesis by simp
    qed
  qed
  with wf show ?thesis by (simp add: boundedHistory_def)
qed

lemma bounded_filter:
  assumes "tames sprint ms"
  shows "boundedPortableMessages sprint ms =
    boundedPortableMessages sprint (List.map_filter (sanitizePortableMessage sprint) ms)"
proof -
  have "wfMsgs sprint (List.map_filter (sanitizePortableMessage sprint) ms)" by (rule map_filter_tame [OF assms])
  then have "List.map_filter (sanitizePortableMessage sprint) (List.map_filter (sanitizePortableMessage sprint) ms)
      = List.map_filter (sanitizePortableMessage sprint) ms" by (rule map_filter_wf)
  then show ?thesis unfolding boundedPortableMessages_def by (simp only:)
qed

lemma bounded_tame: "tames sprint ms \<Longrightarrow> boundedHistory sprint (boundedPortableMessages sprint ms)"
  using bounded_fixed [OF map_filter_tame] bounded_filter by fastforce

subsection \<open>Transitions encode histories exactly\<close>

lemma sanitizeCall_shape:
  "sanitizeCall c = Some d \<Longrightarrow> \<exists>cid name arguments. d = portableCall cid name arguments"
  by (auto simp: sanitizeCall_def Let_def split: if_splits)

lemma wfMsg_shape:
  assumes "wfMsg sprint m"
  shows "(msgContent m = JNull \<or> (\<exists>t. msgContent m = JStr t)) \<and>
     (\<forall>c \<in> set (msgToolCalls m). \<exists>cid name arguments. c = portableCall cid name arguments)"
proof -
  define role where "role = ToLower (TrimSpace (msgRole m))"
  define clean where "clean = \<lparr>msgRole = role, msgContent = sanitizeContent sprint (msgContent m),
              msgName = compactPortableUTF8 (msgName m) 256,
              msgToolCallID = (if role = ''tool'' then compactPortableUTF8 (msgToolCallID m) 256 else []),
              msgToolCalls =
                (if role = ''assistant''
                 then List.map_filter sanitizeCall (take maxPortableToolCalls (msgToolCalls m)) else [])\<rparr>"
  have "sanitizePortableMessage sprint m =
    (if role \<notin> set portableRoles then None
     else if msgContent clean = JNull \<and> msgToolCalls clean = [] \<and> role \<noteq> ''tool'' then None else Some clean)"
    unfolding sanitizePortableMessage_def Let_def role_def [symmetric] clean_def [symmetric] by (rule refl)
  then have eq: "m = clean" using assms by (simp add: wfMsg_def split: if_splits)
  have "msgContent m = sanitizeContent sprint (msgContent m)"
    by (rule trans [OF arg_cong [OF eq, of msgContent]]) (simp add: clean_def)
  moreover have "sanitizeContent sprint c = JNull \<or> (\<exists>t. sanitizeContent sprint c = JStr t)" for c
    by (simp add: sanitizeContent_def Let_def)
  ultimately have 1: "msgContent m = JNull \<or> (\<exists>t. msgContent m = JStr t)" by metis
  have calls: "msgToolCalls m = (if role = ''assistant''
      then List.map_filter sanitizeCall (take maxPortableToolCalls (msgToolCalls m)) else [])"
    by (rule trans [OF arg_cong [OF eq, of msgToolCalls]]) (simp add: clean_def)
  have "set (msgToolCalls m) \<subseteq> {y. \<exists>x. sanitizeCall x = Some y}"
    by (subst calls) (auto simp: map_filter_set)
  then have "\<exists>c'. sanitizeCall c' = Some c" if "c \<in> set (msgToolCalls m)" for c
    using that by blast
  with sanitizeCall_shape 1 show ?thesis by blast
qed

lemma canon_portableCall [simp]: "canon (JObj (portableCall cid name arguments)) = JObj (portableCall cid name arguments)"
  by (simp add: portableCall_def sortBy_def)

lemma equal_wf:
  assumes "wfMsg sprint a" and "wfMsg sprint b"
  shows "portableMessageEqual a b \<longleftrightarrow> a = b"
proof
  assume eq: "portableMessageEqual a b"
  have v: "cloneMsg a = a" "cloneMsg b = b" using assms by (simp_all add: wfMsg_def)
  have valid: "toValid (msgRole m) = msgRole m \<and> toValid (msgName m) = msgName m
      \<and> toValid (msgToolCallID m) = msgToolCallID m" if "cloneMsg m = m" for m
    by (metis cloneMsg_def oaiMsg.select_convs(1,3,4) that)
  have canonContent: "canon (msgContent m) = msgContent m" if "wfMsg sprint m" for m
    using wfMsg_shape [OF that] by auto
  have canonCalls: "map (\<lambda>c. canon (JObj c)) (msgToolCalls m) = map JObj (msgToolCalls m)" if "wfMsg sprint m" for m
    using wfMsg_shape [OF that] by (intro map_cong [OF refl]) (metis canon_portableCall)
  have j: "toJSON m = JObj ([(''role'', JStr (msgRole m)), (''content'', msgContent m)]
           @ (if msgName m = [] then [] else [(''name'', JStr (msgName m))])
           @ (if msgToolCallID m = [] then [] else [(''tool_call_id'', JStr (msgToolCallID m))])
           @ (if msgToolCalls m = [] then [] else [(''tool_calls'', JArr (map JObj (msgToolCalls m)))]))"
    if "wfMsg sprint m" for m
    using that valid [of m] canonContent [OF that] canonCalls [OF that] by (simp add: toJSON_def wfMsg_def)
  have "msgRole a = msgRole b \<and> msgContent a = msgContent b \<and> msgName a = msgName b
      \<and> msgToolCallID a = msgToolCallID b \<and> map JObj (msgToolCalls a) = map JObj (msgToolCalls b)"
    using eq unfolding portableMessageEqual_def j [OF assms(1)] j [OF assms(2)]
    by (auto split: if_splits)
  moreover have "inj JObj" by (simp add: inj_def)
  ultimately show "a = b" by (simp add: inj_map_eq_map)
next
  assume "a = b"
  then show "portableMessageEqual a b" by (simp add: portableMessageEqual_def)
qed

lemma largestOverlap_le: "largestOverlap l r n \<le> n"
  by (induction l r n rule: largestOverlap.induct) auto

lemma largestOverlap_matches: "overlapAt l r (largestOverlap l r n)"
proof (induction l r n rule: largestOverlap.induct)
  case (1 l r)
  then show ?case by (simp add: overlapAt_def)
qed simp

lemma overlap_eq:
  assumes "wfMsgs sprint l" and "wfMsgs sprint r"
  shows "drop (length l - overlapOf l r) l = take (overlapOf l r) r \<and> overlapOf l r \<le> length l
    \<and> overlapOf l r \<le> length r"
proof -
  let ?n = "overlapOf l r"
  have "list_all2 portableMessageEqual (drop (length l - ?n) l) (take ?n r)"
    using largestOverlap_matches [of l r "min (length l) (length r)"] by (simp add: overlapAt_def overlapOf_def)
  then have "list_all2 (=) (drop (length l - ?n) l) (take ?n r)"
    by (rule list.rel_mono_strong) (use assms equal_wf in \<open>meson in_set_dropD in_set_takeD\<close>)
  moreover have "?n \<le> min (length l) (length r)" unfolding overlapOf_def by (rule largestOverlap_le)
  ultimately show ?thesis by (simp add: list.rel_eq)
qed

text \<open>What sessions.go does with a parent history and a transition.\<close>

definition applyTransition :: "(json \<Rightarrow> string) \<Rightarrow> oaiMsg list \<Rightarrow> nat \<Rightarrow> oaiMsg list \<Rightarrow> oaiMsg list" where
  "applyTransition sprint parent d delta =
     boundedPortableMessages sprint (clonePortableMessages (drop d parent) @ clonePortableMessages delta)"

lemma transition_exact:
  assumes "boundedHistory sprint parent" and "boundedHistory sprint tgt"
    and "portableTransition sprint parent tgt = (d, delta)"
  shows "d \<le> length parent \<and> applyTransition sprint parent d delta = tgt \<and> wfMsgs sprint delta"
proof -
  have wf: "wfMsgs sprint parent" "wfMsgs sprint tgt"
    and b: "boundedPortableMessages sprint parent = parent" "boundedPortableMessages sprint tgt = tgt"
    using assms(1,2) by (simp_all add: boundedHistory_def)
  let ?n = "overlapOf parent tgt"
  have wfd: "wfMsgs sprint (drop ?n tgt)" "wfMsgs sprint (drop (length parent - ?n) parent)"
    using wf by (auto dest: in_set_dropD)
  have d: "d = length parent - ?n" "delta = drop ?n tgt"
    using assms(3) wfd(1) by (simp_all add: portableTransition_def b Let_def)
  have "drop d parent @ delta = tgt"
    using overlap_eq [OF wf] by (simp add: d)
  then have "applyTransition sprint parent d delta = tgt"
    using wfd b(2) by (simp add: applyTransition_def d)
  then show ?thesis using d wfd by simp
qed

lemma merge_bounded:
  assumes "tames sprint h" and "tames sprint i"
  shows "boundedHistory sprint (mergePortableMessages sprint h i)"
proof -
  have h: "boundedHistory sprint (boundedPortableMessages sprint h)" by (rule bounded_tame [OF assms(1)])
  have i: "boundedHistory sprint (boundedPortableMessages sprint i)" by (rule bounded_tame [OF assms(2)])
  have "wfMsgs sprint (clonePortableMessages (boundedPortableMessages sprint h)
     @ drop (overlapOf (boundedPortableMessages sprint h) (boundedPortableMessages sprint i))
         (boundedPortableMessages sprint i))"
    using h i by (auto simp: boundedHistory_def dest: in_set_dropD)
  then show ?thesis unfolding mergePortableMessages_def Let_def by (rule bounded_fixed)
qed

lemma boundedHistory_wf: "boundedHistory sprint ms \<Longrightarrow> wfMsgs sprint ms"
  by (simp add: boundedHistory_def)

lemma boundedHistory_Nil [simp]: "boundedHistory sprint []"
  by (simp add: boundedHistory_def boundedPortableMessages_def List.map_filter_simps)

end
