(* ===== verification/Sessions.thy ===== *)
theory Sessions
  imports PortableHistory AtomicFile "HOL-Library.Word"
begin

text \<open>
  The session store of internal/web/sessions.go with pruneNow of internal/web/session_admin.go:
  conversations bound to upstream accounts, and their portable histories. A response snapshot is
  stored as a transition from an immutable parent; a stable thread head refers to its latest
  response.

  Every operation runs under the store's mutex and reads the clock once (now). Go visits a map in
  any order and sorts without stability; here the order is that of the list and the sort is stable,
  one of the possible runs. The size of the indented encoding of a store, a fresh UUID and
  \<open>fmt.Sprint\<close> are arguments.
\<close>

subsection \<open>State\<close>

record conversation =
  cvID :: string
  cvAccountID :: string
  cvConversationID :: string
  cvSessionID :: string
  cvTitle :: string
  cvPortableMessages :: "oaiMsg list"
  cvHistoryParent :: string
  cvHistoryDrop :: int
  cvPortableDelta :: "oaiMsg list"
  cvAliasGroup :: string
  cvResponseAlias :: bool
  cvRouteGeneration :: "64 word"
  cvCreatedAt :: gotime
  cvUpdatedAt :: gotime

type_synonym conversations = "(string, conversation) gomap"

record sessionStore =
  ssData :: conversations
  ssPins :: "(string, int) gomap"
  ssFile :: "conversations diskfile"

record sessionEnv =
  sePrint :: "json \<Rightarrow> string"
  seSize :: "conversations \<Rightarrow> int"
  seUUID :: string

definition emptyConversation :: conversation where
  "emptyConversation =
     \<lparr>cvID = [], cvAccountID = [], cvConversationID = [], cvSessionID = [], cvTitle = [],
      cvPortableMessages = [], cvHistoryParent = [], cvHistoryDrop = 0, cvPortableDelta = [],
      cvAliasGroup = [], cvResponseAlias = False, cvRouteGeneration = 0, cvCreatedAt = zeroTime,
      cvUpdatedAt = zeroTime\<rparr>"

definition maxSessionKeyLength :: nat where
  "maxSessionKeyLength = 256"

definition maxStoredSessions :: nat where
  "maxStoredSessions = 5000"

definition sessionTTL :: duration where
  "sessionTTL = hours (30 * 24)"

definition maxResponseAliasesPerSession :: nat where
  "maxResponseAliasesPerSession = 128"

definition maxSessionStoreBytes :: int where
  "maxSessionStoreBytes = 16 * 1024 * 1024"

datatype sessionError =
    SessNotExist | SessCyclic | SessBadDrop | SessInvalidKey | SessWriteFailed | SessKeyTooLong
  | SessDecode | SessRead

subsection \<open>Titles\<close>

text \<open>compactToolResult of agent_ledger.go slices bytes.\<close>

definition compactToolResult :: "string \<Rightarrow> nat \<Rightarrow> string" where
  "compactToolResult s limit =
     (let s = TrimSpace s;
          limit = (if limit < 200 then 200 else limit)
      in if length s \<le> limit then s
         else
           let head = limit div 3;
               tail = (if limit - head - 80 < 80 then 80 else limit - head - 80)
           in take head s @ truncationMarker (length s - head - tail) @ drop (length s - tail) s)"

definition boundedSessionTitle :: "string \<Rightarrow> string" where
  "boundedSessionTitle t = compactToolResult (TrimSpace t) 240"

subsection \<open>Histories\<close>

lemma key_of_Some: "map_of m k = Some v \<Longrightarrow> k \<in> fst ` set m"
  by (metis domI dom_map_of_conv_image_fst)

definition hasPortableState :: "conversation \<Rightarrow> bool" where
  "hasPortableState v \<longleftrightarrow>
     cvPortableMessages v \<noteq> [] \<or> cvHistoryParent v \<noteq> [] \<or> cvPortableDelta v \<noteq> [] \<or> cvHistoryDrop v > 0"

function materializeHistory ::
  "(json \<Rightarrow> string) \<Rightarrow> conversations \<Rightarrow> string list \<Rightarrow> string \<Rightarrow> sessionError + oaiMsg list" where
  "materializeHistory sprint d visiting sid =
     (case map_of d sid of
        None \<Rightarrow> Inl SessNotExist
      | Some v \<Rightarrow>
          if sid \<in> set visiting then Inl SessCyclic
          else if cvHistoryParent v = [] then Inr (boundedPortableMessages sprint (cvPortableMessages v))
          else (case materializeHistory sprint d (sid # visiting) (cvHistoryParent v) of
                  Inl e \<Rightarrow> Inl e
                | Inr parent \<Rightarrow>
                    if cvHistoryDrop v < 0 \<or> cvHistoryDrop v > int (length parent) then Inl SessBadDrop
                    else Inr (applyTransition sprint parent (nat (cvHistoryDrop v)) (cvPortableDelta v))))"
  by pat_completeness auto
termination
proof (relation "measure (\<lambda>(_, d, visiting, _). card (fst ` set d - set visiting))")
  fix sprint and d :: conversations and visiting sid v
  assume "map_of d sid = Some v" and "sid \<notin> set visiting"
  then have "sid \<in> fst ` set d - set visiting" using key_of_Some by fast
  then have "fst ` set d - set (sid # visiting) \<subset> fst ` set d - set visiting" by auto
  then have "card (fst ` set d - set (sid # visiting)) < card (fst ` set d - set visiting)"
    by (rule psubset_card_mono [rotated]) simp
  then show "((sprint, d, sid # visiting, cvHistoryParent v), sprint, d, visiting, sid)
      \<in> measure (\<lambda>(_, d, visiting, _). card (fst ` set d - set visiting))" by simp
qed simp

declare materializeHistory.simps [simp del]

abbreviation historyOf :: "sessionEnv \<Rightarrow> conversations \<Rightarrow> string \<Rightarrow> sessionError + oaiMsg list" where
  "historyOf env d sid \<equiv> materializeHistory (sePrint env) d [] sid"

definition materializedConversation :: "sessionEnv \<Rightarrow> conversations \<Rightarrow> string \<Rightarrow> conversation option" where
  "materializedConversation env d sid =
     (case map_of d sid of
        None \<Rightarrow> None
      | Some v \<Rightarrow> (case historyOf env d sid of
                    Inl e \<Rightarrow> None
                  | Inr history \<Rightarrow> Some (v\<lparr>cvPortableMessages := history\<rparr>)))"

text \<open>A conversation with its history written out, as deletion leaves a surviving child.\<close>

definition rooted :: "oaiMsg list \<Rightarrow> conversation \<Rightarrow> conversation" where
  "rooted history v =
     v\<lparr>cvPortableMessages := history, cvHistoryParent := [], cvHistoryDrop := 0, cvPortableDelta := []\<rparr>"

text \<open>The loop over the children of a removed parent; an error leaves the children done so far.\<close>

fun rebaseChildren ::
  "sessionEnv \<Rightarrow> (string \<Rightarrow> conversation \<Rightarrow> bool) \<Rightarrow> string list \<Rightarrow> conversations \<Rightarrow>
   sessionError option \<times> conversations" where
  "rebaseChildren env child [] d = (None, d)"
| "rebaseChildren env child (k # ks) d =
     (case map_of d k of
        None \<Rightarrow> rebaseChildren env child ks d
      | Some v \<Rightarrow>
          if \<not> child k v then rebaseChildren env child ks d
          else (case historyOf env d k of
                  Inl e \<Rightarrow> (Some e, d)
                | Inr history \<Rightarrow> rebaseChildren env child ks (AList.update k (rooted history v) d)))"

definition deleteWithRebase :: "sessionEnv \<Rightarrow> string \<Rightarrow> conversations \<Rightarrow> sessionError option \<times> conversations" where
  "deleteWithRebase env sid d =
     (case map_of d sid of
        None \<Rightarrow> (None, d)
      | Some _ \<Rightarrow>
          (case rebaseChildren env (\<lambda>_ v. cvHistoryParent v = sid) (map fst d) d of
             (Some e, d') \<Rightarrow> (Some e, d')
           | (None, d') \<Rightarrow> (None, AList.delete sid d')))"

subsection \<open>Pins\<close>

text \<open>The chain of parents from a pinned conversation; visited names end the walk.\<close>

function dependsOn :: "conversations \<Rightarrow> string \<Rightarrow> string list \<Rightarrow> string \<Rightarrow> bool" where
  "dependsOn d sid seen current =
     (if current = [] \<or> current \<in> set seen then False
      else if current = sid then True
      else (case map_of d current of
              None \<Rightarrow> False
            | Some v \<Rightarrow> dependsOn d sid (current # seen) (cvHistoryParent v)))"
  by pat_completeness auto
termination
proof (relation "measure (\<lambda>(d, _, seen, _). card (fst ` set d - set seen))")
  fix d :: conversations and sid seen current v
  assume "\<not> (current = [] \<or> current \<in> set seen)" and "map_of d current = Some v"
  then have "current \<in> fst ` set d - set seen" using key_of_Some by fast
  then have "fst ` set d - set (current # seen) \<subset> fst ` set d - set seen" by auto
  then have "card (fst ` set d - set (current # seen)) < card (fst ` set d - set seen)"
    by (rule psubset_card_mono [rotated]) simp
  then show "((d, sid, current # seen, cvHistoryParent v), d, sid, seen, current)
      \<in> measure (\<lambda>(d, _, seen, _). card (fst ` set d - set seen))" by simp
qed simp

declare dependsOn.simps [simp del]

definition pinnedDependency :: "(string, int) gomap \<Rightarrow> conversations \<Rightarrow> string \<Rightarrow> bool" where
  "pinnedDependency pins d sid \<longleftrightarrow>
     getOr 0 pins sid > 0 \<or> list_ex (\<lambda>(pinned, n). n > 0 \<and> dependsOn d sid [] pinned) pins"

subsection \<open>Pruning\<close>

definition expiredAt :: "gotime \<Rightarrow> string \<Rightarrow> conversation \<Rightarrow> bool" where
  "expiredAt now k v \<longleftrightarrow>
     blank k \<or> length k > maxSessionKeyLength \<or> cvUpdatedAt v = zeroTime \<or> now - cvUpdatedAt v > sessionTTL"

definition aliasGroupOf :: "string \<Rightarrow> conversation \<Rightarrow> string" where
  "aliasGroupOf k v = firstNonEmpty [cvAliasGroup v, cvID v, k]"

fun tooManyAliases :: "(string, nat) gomap \<Rightarrow> conversations \<Rightarrow> bool" where
  "tooManyAliases counts [] = False"
| "tooManyAliases counts ((k, v) # d) =
     (if cvResponseAlias v
      then (let n = getOr 0 counts (aliasGroupOf k v) + 1
            in n > maxResponseAliasesPerSession
             \<or> tooManyAliases (AList.update (aliasGroupOf k v) n counts) d)
      else tooManyAliases counts d)"

definition needsStructuralPrune :: "gotime \<Rightarrow> conversations \<Rightarrow> bool" where
  "needsStructuralPrune now d \<longleftrightarrow>
     length d > maxStoredSessions \<or> list_ex (\<lambda>(k, v). expiredAt now k v) d \<or> tooManyAliases [] d"

text \<open>Removal unless a pinned conversation depends on it; an error of the rebase is ignored.\<close>

definition evict :: "sessionEnv \<Rightarrow> (string, int) gomap \<Rightarrow> string \<Rightarrow> conversations \<Rightarrow> conversations" where
  "evict env pins k d = (if pinnedDependency pins d k then d else snd (deleteWithRebase env k d))"

definition pruneExpired :: "sessionEnv \<Rightarrow> gotime \<Rightarrow> (string, int) gomap \<Rightarrow> conversations \<Rightarrow> conversations" where
  "pruneExpired env now pins d =
     fold (\<lambda>(k, v) d. if expiredAt now k v then evict env pins k d else d) d d"

definition aliasesByGroup :: "conversations \<Rightarrow> (string, conversation list) gomap" where
  "aliasesByGroup d =
     fold (\<lambda>(_, v) groups.
             if cvResponseAlias v
             then (let group = (if cvAliasGroup v = [] then cvID v else cvAliasGroup v)
                   in AList.update group (getOr [] groups group @ [v]) groups)
             else groups) d []"

definition pruneAliases :: "sessionEnv \<Rightarrow> (string, int) gomap \<Rightarrow> conversations \<Rightarrow> conversations" where
  "pruneAliases env pins d =
     fold (\<lambda>(_, aliases) d.
             if length aliases \<le> maxResponseAliasesPerSession then d
             else fold (\<lambda>v. evict env pins (cvID v))
                    (drop maxResponseAliasesPerSession
                       (sortBy (\<lambda>a b. cvUpdatedAt a > cvUpdatedAt b) aliases)) d)
       (aliasesByGroup d) d"

text \<open>Aliases before stable heads, the oldest first.\<close>

definition evictsBefore :: "conversation \<Rightarrow> conversation \<Rightarrow> bool" where
  "evictsBefore a b \<longleftrightarrow>
     (if cvResponseAlias a \<noteq> cvResponseAlias b then cvResponseAlias a else cvUpdatedAt a < cvUpdatedAt b)"

definition evictionOrder :: "conversations \<Rightarrow> conversation list" where
  "evictionOrder d = sortBy evictsBefore (map snd d)"

definition pruneCount :: "sessionEnv \<Rightarrow> (string, int) gomap \<Rightarrow> conversations \<Rightarrow> conversations" where
  "pruneCount env pins d =
     (if length d \<le> maxStoredSessions then d
      else fold (\<lambda>v d. if length d > maxStoredSessions then evict env pins (cvID v) d else d)
             (evictionOrder d) d)"

fun pruneBytesLoop ::
  "sessionEnv \<Rightarrow> (string, int) gomap \<Rightarrow> conversation list \<Rightarrow> int \<Rightarrow> conversations \<Rightarrow> conversations" where
  "pruneBytesLoop env pins [] remaining d = d"
| "pruneBytesLoop env pins (v # items) remaining d =
     (if pinnedDependency pins d (cvID v) then pruneBytesLoop env pins items remaining d
      else case deleteWithRebase env (cvID v) d of
             (Some _, d') \<Rightarrow> pruneBytesLoop env pins items remaining d'
           | (None, d') \<Rightarrow>
               let remaining = remaining - (seSize env [(cvID v, v)] - 2)
               in if remaining \<le> maxSessionStoreBytes \<and> seSize env d' \<le> maxSessionStoreBytes then d'
                  else if d' = [] then d'
                  else pruneBytesLoop env pins items
                         (if remaining \<le> maxSessionStoreBytes then seSize env d' else remaining) d')"

definition pruneSerializedBytes :: "sessionEnv \<Rightarrow> (string, int) gomap \<Rightarrow> conversations \<Rightarrow> conversations" where
  "pruneSerializedBytes env pins d =
     (if seSize env d \<le> maxSessionStoreBytes then d
      else pruneBytesLoop env pins (evictionOrder d) (seSize env d) d)"

definition pruneSessions :: "sessionEnv \<Rightarrow> gotime \<Rightarrow> (string, int) gomap \<Rightarrow> conversations \<Rightarrow> conversations" where
  "pruneSessions env now pins d =
     pruneSerializedBytes env pins (pruneCount env pins (pruneAliases env pins (pruneExpired env now pins d)))"

definition preparePersist :: "sessionEnv \<Rightarrow> gotime \<Rightarrow> (string, int) gomap \<Rightarrow> conversations \<Rightarrow> conversations" where
  "preparePersist env now pins d =
     (if \<not> needsStructuralPrune now d \<and> seSize env d \<le> maxSessionStoreBytes then d
      else pruneSessions env now pins d)"

subsection \<open>Reading and pinning\<close>

definition pinSession :: "sessionEnv \<Rightarrow> string \<Rightarrow> sessionStore \<Rightarrow> conversation option \<times> sessionStore" where
  "pinSession env sid s =
     (case materializedConversation env (ssData s) sid of
        None \<Rightarrow> (None, s)
      | Some v \<Rightarrow> (Some v, s\<lparr>ssPins := AList.update sid (getOr 0 (ssPins s) sid + 1) (ssPins s)\<rparr>))"

definition unpinSession :: "string \<Rightarrow> sessionStore \<Rightarrow> sessionStore" where
  "unpinSession sid s =
     (if sid = [] then s
      else if getOr 0 (ssPins s) sid \<le> 1 then s\<lparr>ssPins := AList.delete sid (ssPins s)\<rparr>
      else s\<lparr>ssPins := AList.update sid (getOr 0 (ssPins s) sid - 1) (ssPins s)\<rparr>)"

definition listSessions :: "sessionEnv \<Rightarrow> sessionStore \<Rightarrow> conversation list" where
  "listSessions env s = List.map_filter (materializedConversation env (ssData s)) (map fst (ssData s))"

definition getSession :: "sessionEnv \<Rightarrow> string \<Rightarrow> sessionStore \<Rightarrow> conversation option" where
  "getSession env sid s =
     (if blank sid \<or> length sid > maxSessionKeyLength then None
      else materializedConversation env (ssData s) sid)"

text \<open>A stable head that refers to its latest response without a change of its own.\<close>

definition lightHead :: "conversation \<Rightarrow> bool" where
  "lightHead v \<longleftrightarrow>
     cvHistoryParent v \<noteq> [] \<and> cvHistoryDrop v = 0 \<and> cvPortableDelta v = [] \<and> cvPortableMessages v = []"

definition immutableParent :: "string \<Rightarrow> conversation \<Rightarrow> string" where
  "immutableParent sid v =
     (if cvResponseAlias v then sid else if lightHead v then cvHistoryParent v else [])"

definition aliasSource :: "sessionEnv \<Rightarrow> string \<Rightarrow> sessionStore \<Rightarrow> (conversation \<times> string) option" where
  "aliasSource env sid s =
     (case (materializedConversation env (ssData s) sid, map_of (ssData s) sid) of
        (Some m, Some raw) \<Rightarrow> Some (m, immutableParent sid raw)
      | _ \<Rightarrow> None)"

definition maxRouteGeneration :: "sessionStore \<Rightarrow> 64 word" where
  "maxRouteGeneration s =
     fold (\<lambda>(_, v) m. if cvRouteGeneration v > m then cvRouteGeneration v else m) (ssData s) 0"

subsection \<open>Writing\<close>

definition restoreConversation :: "string \<Rightarrow> conversation option \<Rightarrow> conversations \<Rightarrow> conversations" where
  "restoreConversation sid prev d =
     (case prev of Some v \<Rightarrow> AList.update sid v d | None \<Rightarrow> AList.delete sid d)"

text \<open>
  Write the pruned store; a failed write leaves the unpruned store, from which the caller takes
  back the entries it has changed.
\<close>

definition persistSessions ::
  "sessionEnv \<Rightarrow> gotime \<Rightarrow> (conversations \<Rightarrow> conversations) \<Rightarrow> conversations \<Rightarrow> sessionStore \<Rightarrow> bool \<times> sessionStore" where
  "persistSessions env now undo d s =
     (let pruned = preparePersist env now (ssPins s) d
      in case writeFile pruned (ssFile s) of
           (True, f) \<Rightarrow> (True, s\<lparr>ssData := pruned, ssFile := f\<rparr>)
         | (False, f) \<Rightarrow> (False, s\<lparr>ssData := undo d, ssFile := f\<rparr>))"

definition storedConversation :: "sessionEnv \<Rightarrow> string \<Rightarrow> sessionStore \<Rightarrow> conversation" where
  "storedConversation env sid s =
     (case materializedConversation env (ssData s) sid of None \<Rightarrow> emptyConversation | Some v \<Rightarrow> v)"

text \<open>The conversation that upsertLocked stores: group, portable state, times and title completed.\<close>

definition completeConversation :: "sessionEnv \<Rightarrow> gotime \<Rightarrow> conversation option \<Rightarrow> conversation \<Rightarrow> conversation" where
  "completeConversation env now prev v =
     (let v = (if cvAliasGroup v = []
               then (case prev of
                       Some p \<Rightarrow> v\<lparr>cvAliasGroup := (if cvAliasGroup p \<noteq> [] then cvAliasGroup p else cvID v)\<rparr>
                     | None \<Rightarrow> v\<lparr>cvAliasGroup := cvID v\<rparr>)
               else v);
          v = (case prev of
                 Some p \<Rightarrow>
                   if \<not> hasPortableState v \<and> hasPortableState p
                   then v\<lparr>cvPortableMessages := clonePortableMessages (cvPortableMessages p),
                          cvHistoryParent := cvHistoryParent p, cvHistoryDrop := cvHistoryDrop p,
                          cvPortableDelta := clonePortableMessages (cvPortableDelta p)\<rparr>
                   else if cvHistoryParent v \<noteq> []
                   then v\<lparr>cvPortableMessages := [],
                          cvPortableDelta := sanitizePortableDelta (sePrint env) (cvPortableDelta v)\<rparr>
                   else rooted (boundedPortableMessages (sePrint env) (cvPortableMessages v)) v
               | None \<Rightarrow>
                   if cvHistoryParent v \<noteq> []
                   then v\<lparr>cvPortableMessages := [],
                          cvPortableDelta := sanitizePortableDelta (sePrint env) (cvPortableDelta v)\<rparr>
                   else rooted (boundedPortableMessages (sePrint env) (cvPortableMessages v)) v);
          v = (if cvCreatedAt v = zeroTime
               then v\<lparr>cvCreatedAt :=
                        (case prev of
                           Some p \<Rightarrow> if cvCreatedAt p \<noteq> zeroTime then cvCreatedAt p else now
                         | None \<Rightarrow> now)\<rparr>
               else v)
      in v\<lparr>cvUpdatedAt := now, cvTitle := boundedSessionTitle (cvTitle v)\<rparr>)"

definition upsertSession ::
  "sessionEnv \<Rightarrow> gotime \<Rightarrow> conversation \<Rightarrow> sessionStore \<Rightarrow> (sessionError + conversation) \<times> sessionStore" where
  "upsertSession env now v s =
     (let v = (if cvID v = [] then v\<lparr>cvID := seUUID env\<rparr> else v)
      in if length (cvID v) > maxSessionKeyLength then (Inl SessKeyTooLong, s)
         else
           let prev = map_of (ssData s) (cvID v);
               v = completeConversation env now prev v
           in case persistSessions env now (restoreConversation (cvID v) prev)
                     (AList.update (cvID v) v (ssData s)) s of
                (False, s') \<Rightarrow> (Inl SessWriteFailed, s')
              | (True, s') \<Rightarrow> (Inr (storedConversation env (cvID v) s'), s'))"

text \<open>A binding written by an older route generation than the stored one is discarded.\<close>

definition staleBinding :: "conversation \<Rightarrow> bool \<Rightarrow> conversation \<Rightarrow> bool" where
  "staleBinding v authoritative current \<longleftrightarrow>
     cvRouteGeneration current > cvRouteGeneration v
   \<or> (cvRouteGeneration current = cvRouteGeneration v \<and> cvAccountID current \<noteq> []
       \<and> cvAccountID current \<noteq> cvAccountID v \<and> \<not> authoritative)"

definition upsertBinding ::
  "sessionEnv \<Rightarrow> gotime \<Rightarrow> conversation \<Rightarrow> bool \<Rightarrow> sessionStore \<Rightarrow>
   (sessionError + conversation \<times> bool) \<times> sessionStore" where
  "upsertBinding env now v authoritative s =
     (case map_of (ssData s) (cvID v) of
        Some current \<Rightarrow>
          if staleBinding v authoritative current then (Inr (current, False), s)
          else (case upsertSession env now v s of
                  (Inl e, s') \<Rightarrow> (Inl e, s') | (Inr c, s') \<Rightarrow> (Inr (c, True), s'))
      | None \<Rightarrow>
          (case upsertSession env now v s of
             (Inl e, s') \<Rightarrow> (Inl e, s') | (Inr c, s') \<Rightarrow> (Inr (c, True), s')))"

definition updatePortable ::
  "sessionEnv \<Rightarrow> gotime \<Rightarrow> string \<Rightarrow> oaiMsg list \<Rightarrow> sessionStore \<Rightarrow>
   (sessionError + conversation) \<times> sessionStore" where
  "updatePortable env now sid messages s =
     (if blank sid \<or> length sid > maxSessionKeyLength then (Inl SessInvalidKey, s)
      else case map_of (ssData s) sid of
             None \<Rightarrow> (Inl SessNotExist, s)
           | Some previous \<Rightarrow>
               let v = (rooted (boundedPortableMessages (sePrint env) messages) previous)\<lparr>cvUpdatedAt := now\<rparr>
               in case persistSessions env now (AList.update sid previous) (AList.update sid v (ssData s)) s of
                    (False, s') \<Rightarrow> (Inl SessWriteFailed, s')
                  | (True, s') \<Rightarrow> (Inr v, s'))"

subsection \<open>Committing a response\<close>

text \<open>The conversation the target starts from: its own binding, else a copy of the source.\<close>

definition commitTarget ::
  "string \<Rightarrow> string \<Rightarrow> conversation option \<Rightarrow> conversation option \<Rightarrow> conversation option" where
  "commitTarget sourceID targetID source tgt =
     (case tgt of
        Some t \<Rightarrow> Some t
      | None \<Rightarrow>
          (case source of
             Some v \<Rightarrow>
               Some (v\<lparr>cvID := targetID, cvResponseAlias := (targetID \<noteq> sourceID),
                       cvAliasGroup := (if cvAliasGroup v = [] then firstNonEmpty [sourceID, targetID]
                                        else cvAliasGroup v)\<rparr>)
           | None \<Rightarrow>
               if sourceID = targetID
               then Some (emptyConversation\<lparr>cvID := targetID, cvAliasGroup := targetID\<rparr>) else None))"

text \<open>The history behind the answer.\<close>

definition commitHistory ::
  "sessionEnv \<Rightarrow> conversations \<Rightarrow> string \<Rightarrow> string \<Rightarrow> oaiMsg list \<Rightarrow> oaiMsg \<Rightarrow> sessionError + oaiMsg list" where
  "commitHistory env d sourceID targetID request assistant =
     (case (if map_of d sourceID = None then Inr [] else historyOf env d sourceID) of
        Inl e \<Rightarrow> Inl e
      | Inr sourceHistory \<Rightarrow>
          (case (if map_of d targetID = None then Inr sourceHistory
                 else case historyOf env d targetID of
                        Inl e \<Rightarrow> Inl e
                      | Inr targetHistory \<Rightarrow>
                          Inr (if sourceID = targetID then targetHistory
                               else mergePortableMessages (sePrint env) sourceHistory targetHistory)) of
             Inl e \<Rightarrow> Inl e
           | Inr history \<Rightarrow>
               Inr (boundedPortableMessages (sePrint env)
                      (mergePortableMessages (sePrint env) history request @ [assistant]))))"

definition commitGroup :: "string \<Rightarrow> string \<Rightarrow> conversation option \<Rightarrow> conversation \<Rightarrow> conversation" where
  "commitGroup sourceID targetID source t =
     (if targetID \<noteq> sourceID
      then t\<lparr>cvResponseAlias := True,
             cvAliasGroup := (case source of
                                Some v \<Rightarrow> firstNonEmpty [cvAliasGroup v, cvID v, sourceID]
                              | None \<Rightarrow> sourceID)\<rparr>
      else if cvAliasGroup t = [] then t\<lparr>cvAliasGroup := targetID\<rparr> else t)"

definition commitParent :: "string \<Rightarrow> string \<Rightarrow> conversation option \<Rightarrow> string" where
  "commitParent sourceID targetID source =
     (case source of
        Some v \<Rightarrow> if sourceID \<noteq> targetID then immutableParent sourceID v else []
      | None \<Rightarrow> [])"

definition commitNode ::
  "sessionEnv \<Rightarrow> conversations \<Rightarrow> string \<Rightarrow> oaiMsg list \<Rightarrow> conversation \<Rightarrow> sessionError + conversation" where
  "commitNode env d parentID history t =
     (if parentID = [] then Inr (rooted history t)
      else case historyOf env d parentID of
             Inl e \<Rightarrow> Inl e
           | Inr parentHistory \<Rightarrow>
               let (n, delta) = portableTransition (sePrint env) parentHistory history
               in Inr (t\<lparr>cvPortableMessages := [], cvHistoryParent := parentID, cvHistoryDrop := int n,
                         cvPortableDelta := delta\<rparr>))"

definition commitHead :: "string \<Rightarrow> string \<Rightarrow> conversation option \<Rightarrow> conversation \<Rightarrow> conversation" where
  "commitHead sourceID targetID source t =
     t\<lparr>cvID := sourceID, cvAliasGroup := sourceID, cvResponseAlias := False, cvPortableMessages := [],
       cvHistoryParent := targetID, cvHistoryDrop := 0, cvPortableDelta := [],
       cvCreatedAt := (case source of
                         Some v \<Rightarrow> if cvCreatedAt v \<noteq> zeroTime then cvCreatedAt v else cvCreatedAt t
                       | None \<Rightarrow> cvCreatedAt t)\<rparr>"

text \<open>The store with the answer, before it is pruned and written.\<close>

definition commitData ::
  "sessionEnv \<Rightarrow> gotime \<Rightarrow> string \<Rightarrow> string \<Rightarrow> oaiMsg list \<Rightarrow> oaiMsg \<Rightarrow> bool \<Rightarrow> conversations \<Rightarrow>
   sessionError + conversations" where
  "commitData env now sourceID targetID request assistant advanceSource d =
     (let source = map_of d sourceID
      in if \<not> advanceSource \<and> sourceID \<noteq> [] \<and> sourceID \<noteq> targetID \<and> source = None then Inl SessNotExist
         else case commitTarget sourceID targetID source (map_of d targetID) of
                None \<Rightarrow> Inl SessNotExist
              | Some t \<Rightarrow>
                  (case commitHistory env d sourceID targetID request assistant of
                     Inl e \<Rightarrow> Inl e
                   | Inr history \<Rightarrow>
                       (case commitNode env d (commitParent sourceID targetID source) history
                               (commitGroup sourceID targetID source (t\<lparr>cvUpdatedAt := now\<rparr>)) of
                          Inl e \<Rightarrow> Inl e
                        | Inr t \<Rightarrow>
                            Inr (if advanceSource \<and> sourceID \<noteq> [] \<and> sourceID \<noteq> targetID
                                 then AList.update sourceID (commitHead sourceID targetID source t)
                                        (AList.update targetID t d)
                                 else AList.update targetID t d))))"

definition commitResponse ::
  "sessionEnv \<Rightarrow> gotime \<Rightarrow> string \<Rightarrow> string \<Rightarrow> oaiMsg list \<Rightarrow> oaiMsg \<Rightarrow> bool \<Rightarrow> sessionStore \<Rightarrow>
   (sessionError + conversation) \<times> sessionStore" where
  "commitResponse env now sourceID targetID request assistant advanceSource s =
     (if blank targetID \<or> length targetID > maxSessionKeyLength then (Inl SessInvalidKey, s)
      else case commitData env now sourceID targetID request assistant advanceSource (ssData s) of
             Inl e \<Rightarrow> (Inl e, s)
           | Inr d \<Rightarrow>
               let undo = (\<lambda>d.
                     let d = restoreConversation targetID (map_of (ssData s) targetID) d
                     in if sourceID \<noteq> targetID
                        then restoreConversation sourceID (map_of (ssData s) sourceID) d else d)
               in case persistSessions env now undo d s of
                    (False, s') \<Rightarrow> (Inl SessWriteFailed, s')
                  | (True, s') \<Rightarrow> (Inr (storedConversation env targetID s'), s'))"

subsection \<open>Deleting\<close>

definition saveSessions :: "conversations \<Rightarrow> conversations \<Rightarrow> sessionStore \<Rightarrow> bool \<times> sessionStore" where
  "saveSessions previous d s =
     (case writeFile d (ssFile s) of
        (True, f) \<Rightarrow> (True, s\<lparr>ssData := d, ssFile := f\<rparr>)
      | (False, f) \<Rightarrow> (False, s\<lparr>ssData := previous, ssFile := f\<rparr>))"

definition deleteSession :: "sessionEnv \<Rightarrow> string \<Rightarrow> sessionStore \<Rightarrow> (sessionError + bool) \<times> sessionStore" where
  "deleteSession env sid s =
     (if map_of (ssData s) sid = None then (Inr False, s)
      else case deleteWithRebase env sid (ssData s) of
             (Some e, d) \<Rightarrow> (Inl e, s\<lparr>ssData := d\<rparr>)
           | (None, d) \<Rightarrow>
               (case saveSessions (ssData s) d s of
                  (False, s') \<Rightarrow> (Inl SessWriteFailed, s') | (True, s') \<Rightarrow> (Inr True, s')))"

definition deleteByAccount :: "sessionEnv \<Rightarrow> string \<Rightarrow> sessionStore \<Rightarrow> (sessionError + nat) \<times> sessionStore" where
  "deleteByAccount env account s =
     (let remove = map fst (filter (\<lambda>(_, v). cvAccountID v = account) (ssData s))
      in if remove = [] then (Inr 0, s)
         else case rebaseChildren env (\<lambda>k v. k \<notin> set remove \<and> cvHistoryParent v \<in> set remove)
                     (map fst (ssData s)) (ssData s) of
                (Some e, _) \<Rightarrow> (Inl e, s)
              | (None, d) \<Rightarrow>
                  (case saveSessions (ssData s) (filter (\<lambda>(k, _). k \<notin> set remove) d) s of
                     (False, s') \<Rightarrow> (Inl SessWriteFailed, s')
                   | (True, s') \<Rightarrow> (Inr (length remove), s')))"

subsection \<open>Administration\<close>

record sessionCacheStats =
  scTotal :: nat
  scStable :: nat
  scAliases :: nat
  scPinned :: nat
  scBytes :: int
  scOldest :: "gotime option"
  scLatest :: "gotime option"

fun countSession :: "(string, int) gomap \<Rightarrow> string \<times> conversation \<Rightarrow> sessionCacheStats \<Rightarrow> sessionCacheStats" where
  "countSession pins (k, v) st =
     (let st = (if cvResponseAlias v then st\<lparr>scAliases := scAliases st + 1\<rparr>
                else st\<lparr>scStable := scStable st + 1\<rparr>);
          st = (if getOr 0 pins k > 0 then st\<lparr>scPinned := scPinned st + 1\<rparr> else st);
          t = cvUpdatedAt v
      in if t = zeroTime then st
         else
           let st = (case scOldest st of
                       Some o' \<Rightarrow> if t < o' then st\<lparr>scOldest := Some t\<rparr> else st
                     | None \<Rightarrow> st\<lparr>scOldest := Some t\<rparr>)
           in (case scLatest st of
                 Some l \<Rightarrow> if t > l then st\<lparr>scLatest := Some t\<rparr> else st
               | None \<Rightarrow> st\<lparr>scLatest := Some t\<rparr>))"

definition cacheStats :: "sessionEnv \<Rightarrow> sessionStore \<Rightarrow> sessionCacheStats" where
  "cacheStats env s =
     (fold (countSession (ssPins s)) (ssData s)
        \<lparr>scTotal = length (ssData s), scStable = 0, scAliases = 0, scPinned = 0, scBytes = 0,
         scOldest = None, scLatest = None\<rparr>)\<lparr>scBytes := seSize env (ssData s)\<rparr>"

definition pruneNow ::
  "sessionEnv \<Rightarrow> gotime \<Rightarrow> sessionStore \<Rightarrow> (sessionCacheStats \<times> sessionCacheStats \<times> sessionError option) \<times> sessionStore" where
  "pruneNow env now s =
     (let pruned = pruneSessions env now (ssPins s) (ssData s)
      in case writeFile pruned (ssFile s) of
           (False, f) \<Rightarrow>
             let s' = s\<lparr>ssFile := f\<rparr> in ((cacheStats env s, cacheStats env s', Some SessWriteFailed), s')
         | (True, f) \<Rightarrow>
             let s' = s\<lparr>ssData := pruned, ssFile := f\<rparr> in ((cacheStats env s, cacheStats env s', None), s'))"

subsection \<open>Opening\<close>

text \<open>
  Records older than alias groups are grouped by their upstream triple; the first by creation,
  update and name is the root. The name of a group has its parts separated by NUL bytes.
\<close>

definition legacyRecord :: "conversation \<Rightarrow> bool" where
  "legacyRecord v \<longleftrightarrow>
     cvAliasGroup v = [] \<and> cvAccountID v \<noteq> [] \<and> cvConversationID v \<noteq> [] \<and> cvSessionID v \<noteq> []"

definition legacyGroupKey :: "conversation \<Rightarrow> string" where
  "legacyGroupKey v = cvAccountID v @ [CHR 0x00] @ cvConversationID v @ [CHR 0x00] @ cvSessionID v"

definition groupKeys :: "(string \<Rightarrow> conversation \<Rightarrow> string option) \<Rightarrow> conversations \<Rightarrow> (string, string list) gomap" where
  "groupKeys name d =
     fold (\<lambda>(k, v) groups. case name k v of
                            None \<Rightarrow> groups
                          | Some g \<Rightarrow> AList.update g (getOr [] groups g @ [k]) groups) d []"

definition legacyBefore :: "conversations \<Rightarrow> string \<Rightarrow> string \<Rightarrow> bool" where
  "legacyBefore d i j =
     (let l = getOr emptyConversation d i; r = getOr emptyConversation d j
      in if cvCreatedAt l \<noteq> cvCreatedAt r then cvCreatedAt l < cvCreatedAt r
         else if cvUpdatedAt l \<noteq> cvUpdatedAt r then cvUpdatedAt l < cvUpdatedAt r
         else strLess i j)"

definition classifyGroup :: "string list \<Rightarrow> conversations \<Rightarrow> conversations" where
  "classifyGroup keys d =
     (case sortBy (legacyBefore d) keys of
        [] \<Rightarrow> d
      | root # rest \<Rightarrow>
          fold (\<lambda>k d. AList.update k ((getOr emptyConversation d k)
                        \<lparr>cvAliasGroup := root, cvResponseAlias := (k \<noteq> root)\<rparr>) d) (root # rest) d)"

definition classifyLegacy :: "conversations \<Rightarrow> conversations" where
  "classifyLegacy d =
     fold (\<lambda>(_, keys). classifyGroup keys)
       (groupKeys (\<lambda>_ v. if legacyRecord v then Some (legacyGroupKey v) else None) d) d"

definition normalizeLoaded :: "sessionEnv \<Rightarrow> string \<Rightarrow> conversation \<Rightarrow> conversation" where
  "normalizeLoaded env k v =
     v\<lparr>cvID := k, cvAliasGroup := (if cvAliasGroup v = [] then k else cvAliasGroup v),
       cvPortableMessages := boundedPortableMessages (sePrint env) (cvPortableMessages v),
       cvPortableDelta := sanitizePortableDelta (sePrint env) (cvPortableDelta v)\<rparr>"

definition structured :: "conversation \<Rightarrow> bool" where
  "structured v \<longleftrightarrow> cvHistoryParent v \<noteq> [] \<or> cvHistoryDrop v \<noteq> 0 \<or> cvPortableDelta v \<noteq> []"

definition copiesBefore :: "conversations \<Rightarrow> string \<Rightarrow> string \<Rightarrow> bool" where
  "copiesBefore d i j =
     (let l = getOr emptyConversation d i; r = getOr emptyConversation d j
      in if cvResponseAlias l \<noteq> cvResponseAlias r then cvResponseAlias l
         else if cvCreatedAt l \<noteq> cvCreatedAt r then cvCreatedAt l < cvCreatedAt r
         else strLess i j)"

definition compactGroup :: "sessionEnv \<Rightarrow> string list \<Rightarrow> conversations \<Rightarrow> conversations" where
  "compactGroup env keys d =
     (if length keys < 2 \<or> list_ex (\<lambda>k. structured (getOr emptyConversation d k)) keys then d
      else
        let keys = sortBy (copiesBefore d) keys
        in case filter (\<lambda>k. cvResponseAlias (getOr emptyConversation d k)) keys of
             [] \<Rightarrow> d
           | baseID # _ \<Rightarrow>
               let baseHistory = boundedPortableMessages (sePrint env)
                                   (cvPortableMessages (getOr emptyConversation d baseID))
               in fold (\<lambda>k d.
                          if k = baseID then d
                          else
                            let v = getOr emptyConversation d k;
                                (n, delta) = portableTransition (sePrint env) baseHistory (cvPortableMessages v)
                            in AList.update k
                                 (v\<lparr>cvPortableMessages := [], cvHistoryParent := baseID, cvHistoryDrop := int n,
                                    cvPortableDelta := delta\<rparr>) d)
                    keys d)"

definition compactLegacyPortableCopies :: "sessionEnv \<Rightarrow> conversations \<Rightarrow> conversations" where
  "compactLegacyPortableCopies env d =
     fold (\<lambda>(_, keys). compactGroup env keys) (groupKeys (\<lambda>k v. Some (aliasGroupOf k v)) d) d"

text \<open>What reading the file gives.\<close>

datatype sessionFileRead =
    SessionFile conversations | SessionFileMissing | SessionFileUnreadable | SessionFileMalformed

definition migrateSessions :: "sessionEnv \<Rightarrow> conversations \<Rightarrow> conversations" where
  "migrateSessions env d =
     compactLegacyPortableCopies env (map (\<lambda>(k, v). (k, normalizeLoaded env k v)) (classifyLegacy d))"

definition openSessionStore ::
  "sessionEnv \<Rightarrow> gotime \<Rightarrow> sessionFileRead \<Rightarrow> bool list \<Rightarrow> sessionError + sessionStore" where
  "openSessionStore env now r writes =
     (case r of
        SessionFileUnreadable \<Rightarrow> Inl SessRead
      | SessionFileMalformed \<Rightarrow> Inl SessDecode
      | SessionFileMissing \<Rightarrow> Inr \<lparr>ssData = [], ssPins = [], ssFile = File None writes\<rparr>
      | SessionFile d \<Rightarrow>
          let m = migrateSessions env d
          in case List.find (\<lambda>k. isl (historyOf env m k)) (map fst m) of
               Some k \<Rightarrow> Inl (projl (historyOf env m k))
             | None \<Rightarrow>
                 let pruned = pruneSessions env now [] m
                 in case writeFile pruned (File (Some d) writes) of
                      (False, _) \<Rightarrow> Inl SessWriteFailed
                    | (True, f) \<Rightarrow> Inr \<lparr>ssData = pruned, ssPins = [], ssFile = f\<rparr>)"

end
