(* ===== verification/ResponseSession.thy ===== *)
theory ResponseSession
  imports Sessions AccountRouter
begin

text \<open>
  Response sessions of internal/web/response_session.go with persistSession of server.go: the keys under
  which conversations are stored, the lease a response takes on its source and target, and the commit of the
  finished response. SHA-256 is an argument. The lock of a stable head is the set of held keys here; the
  reference-counted entries behind it are in ResponseLocks.
\<close>

subsection \<open>Keys\<close>

type_synonym digest = "string \<Rightarrow> string"

definition hashedKey :: "digest \<Rightarrow> string \<Rightarrow> string \<Rightarrow> string" where
  "hashedKey sha label v = label @ hexEncode (take 16 (sha v))"

definition responseIDSessionKey :: "digest \<Rightarrow> string \<Rightarrow> string" where
  "responseIDSessionKey sha responseID =
     hashedKey sha ''response_'' (''m365-response-id'' @ [CHR 0x00] @ TrimSpace responseID)"

text \<open>The fields of a Responses request that name its conversation.\<close>

record threadRef =
  trNewConversation :: bool
  trPreviousResponseID :: string
  trClientMetadata :: "(string, json) gomap"
  trConversation :: json

definition threadCandidates :: "threadRef \<Rightarrow> string list" where
  "threadCandidates r =
     List.map_filter (\<lambda>key. case map_of (trClientMetadata r) key of Some (JStr s) \<Rightarrow> Some s | _ \<Rightarrow> None)
       [''thread_id'', ''session_id'', ''root_turn_id'']
     @ (case trConversation r of
          JStr s \<Rightarrow> [s]
        | JObj ms \<Rightarrow> (case map_of ms ''id'' of Some (JStr s) \<Rightarrow> [s] | _ \<Rightarrow> [])
        | _ \<Rightarrow> [])"

definition stableSessionKey :: "digest \<Rightarrow> threadRef \<Rightarrow> string" where
  "stableSessionKey sha r =
     (if trNewConversation r then []
      else if \<not> blank (trPreviousResponseID r) then responseIDSessionKey sha (TrimSpace (trPreviousResponseID r))
      else case filter (\<lambda>c. c \<noteq> []) (map TrimSpace (threadCandidates r)) of
             [] \<Rightarrow> []
           | c # _ \<Rightarrow> hashedKey sha ''responses_'' (''m365-responses-session'' @ [CHR 0x00] @ c))"

text \<open>The credential of a request, from the headers X-API-Key and Authorization.\<close>

definition requestCredential :: "string \<Rightarrow> string \<Rightarrow> string" where
  "requestCredential xAPIKey authorization =
     (let credential = TrimSpace xAPIKey
      in if credential \<noteq> [] then credential
         else
           let credential = TrimSpace authorization
           in if HasPrefix (ToLower credential) ''bearer '' then TrimSpace (drop 7 credential) else credential)"

definition scopedSessionKey :: "digest \<Rightarrow> string \<Rightarrow> string \<Rightarrow> string" where
  "scopedSessionKey sha credential key =
     (if key = [] then []
      else hashedKey sha ''session_''
             (''m365-session-scope'' @ [CHR 0x00] @ credential @ [CHR 0x00] @ key))"

definition promptTitle :: "(json \<Rightarrow> string) \<Rightarrow> oaiMsg list \<Rightarrow> string" where
  "promptTitle sprint messages =
     (case List.map_filter
        (\<lambda>m. let t = TrimSpace (contentToString sprint (msgContent m))
              in if EqualFold (TrimSpace (msgRole m)) ''user'' \<and> t \<noteq> [] then Some t else None) (rev messages) of
        t # _ \<Rightarrow> boundedSessionTitle t
      | [] \<Rightarrow> ''conversation-'' @ showNat (length messages))"

subsection \<open>The lease of a response\<close>

definition lockStableResponseSession :: "string \<Rightarrow> string set \<Rightarrow> bool \<times> string set" where
  "lockStableResponseSession key held =
     (if key = [] then (True, held) else if key \<in> held then (False, held) else (True, insert key held))"

definition unlockStable :: "string \<Rightarrow> string set \<Rightarrow> string set" where
  "unlockStable key held = (if key = [] then held else held - {key})"

datatype responseError =
    TargetMissing | SourceActive | SourceNotFound | AliasKeyMissing | AliasSourceMissing
  | PersistFailed sessionError

text \<open>What the closure returned by prepareResponseTarget remembers.\<close>

datatype responseLease =
    OwnTarget string bool
  | Branch (leaseSource: string) (leaseTarget: string) (leasePinned: bool) (leaseLock: string)

definition prepareResponseTarget ::
  "sessionEnv \<Rightarrow> string \<Rightarrow> string \<Rightarrow> bool \<Rightarrow> sessionStore \<Rightarrow> string set \<Rightarrow>
   (responseError + responseLease) \<times> sessionStore \<times> string set" where
  "prepareResponseTarget env source tgt requireSource s held =
     (if tgt = [] then (Inl TargetMissing, s, held)
      else if source = tgt then (Inr (OwnTarget tgt (getSession env tgt s \<noteq> None)), s, held)
      else
        let key = (if requireSource then [] else source);
            (locked, held') = lockStableResponseSession key held
        in if \<not> locked then (Inl SourceActive, s, held)
           else
             let (v, s') = pinSession env source s
             in if v = None \<and> requireSource then (Inl SourceNotFound, s', unlockStable key held')
                else (Inr (Branch source tgt (v \<noteq> None) key), s', held'))"

definition finishResponseTarget ::
  "sessionEnv \<Rightarrow> bool \<Rightarrow> responseLease \<Rightarrow> sessionStore \<Rightarrow> string set \<Rightarrow> sessionStore \<times> string set" where
  "finishResponseTarget env committed lease s held =
     (case lease of
        OwnTarget tgt existed \<Rightarrow>
          (if \<not> committed \<and> \<not> existed then snd (deleteSession env tgt s) else s, held)
      | Branch source tgt pinned key \<Rightarrow>
          let s = (if pinned then unpinSession source s else s);
              s = (if \<not> committed then snd (deleteSession env tgt s) else s)
          in (s, unlockStable key held))"

subsection \<open>Commit, bindings and aliases\<close>

text \<open>The stable head follows only a response of an account that is authoritative; None: no token store.\<close>

definition effectiveAdvance ::
  "sessionEnv \<Rightarrow> gotime \<Rightarrow> string \<Rightarrow> string \<Rightarrow> bool \<Rightarrow> sessionStore \<Rightarrow> server option \<Rightarrow> bool \<times> server option" where
  "effectiveAdvance env now source tgt advanceSource s srv =
     (if advanceSource \<and> source \<noteq> tgt
      then (case (getSession env tgt s, srv) of
              (Some v, Some router) \<Rightarrow>
                if cvAccountID v \<noteq> []
                then (let ((_, authoritative), router) = accountRouteVersion now (cvAccountID v) router
                      in (authoritative, Some router))
                else (True, srv)
            | _ \<Rightarrow> (True, srv))
      else (advanceSource, srv))"

definition commitResponsePortableHistory ::
  "sessionEnv \<Rightarrow> gotime \<Rightarrow> string \<Rightarrow> string \<Rightarrow> oaiMsg list \<Rightarrow> oaiMsg \<Rightarrow> bool \<Rightarrow> sessionStore \<Rightarrow> server option \<Rightarrow>
   responseError option \<times> sessionStore \<times> server option" where
  "commitResponsePortableHistory env now source tgt request assistant advanceSource s srv =
     (let (advance, srv) = effectiveAdvance env now source tgt advanceSource s srv
      in case commitResponse env now source tgt request assistant advance s of
           (Inl e, s') \<Rightarrow> (Some (PersistFailed e), s', srv)
         | (Inr _, s') \<Rightarrow> (None, s', srv))"

text \<open>
  The result of an upstream turn that a binding is made of; the last field is the number of user messages
  in the throttling payload, rounded down, when it has one.
\<close>

record turnBinding =
  tbConversationID :: string
  tbSessionID :: string
  tbUserMessages :: "int option"

definition conversationRotateThreshold :: int where
  "conversationRotateThreshold = 550"

definition shouldRotateConversation :: "turnBinding \<Rightarrow> bool" where
  "shouldRotateConversation res =
     (case tbUserMessages res of None \<Rightarrow> False | Some n \<Rightarrow> n \<ge> conversationRotateThreshold)"

definition upstreamBinding ::
  "sessionEnv \<Rightarrow> string \<Rightarrow> string \<Rightarrow> turnBinding \<Rightarrow> bool \<Rightarrow> sessionStore \<Rightarrow> string \<times> string" where
  "upstreamBinding env sessionKey account res clear s =
     (let kept = (if \<not> clear \<and> tbConversationID res = [] \<and> tbSessionID res = []
                  then (case getSession env sessionKey s of
                          Some existing \<Rightarrow>
                            if cvAccountID existing = account
                            then (cvConversationID existing, cvSessionID existing)
                            else (tbConversationID res, tbSessionID res)
                        | None \<Rightarrow> (tbConversationID res, tbSessionID res))
                  else (tbConversationID res, tbSessionID res))
      in if shouldRotateConversation res then ([], []) else kept)"

definition persistSession ::
  "sessionEnv \<Rightarrow> gotime \<Rightarrow> string \<Rightarrow> string \<Rightarrow> string \<Rightarrow> turnBinding \<Rightarrow> bool \<Rightarrow> sessionStore \<Rightarrow> server \<Rightarrow>
   sessionError option \<times> sessionStore \<times> server" where
  "persistSession env now sessionKey account prompt res clear s srv =
     (if sessionKey = [] then (None, s, srv)
      else
        let (conv, sess) = upstreamBinding env sessionKey account res clear s;
            ((generation, authoritative), srv) = accountRouteVersion now account srv;
            v = emptyConversation\<lparr>cvID := sessionKey, cvAccountID := account, cvConversationID := conv,
                  cvSessionID := sess, cvTitle := boundedSessionTitle prompt, cvRouteGeneration := generation\<rparr>
        in case upsertBinding env now v authoritative s of
             (Inl e, s') \<Rightarrow> (Some e, s', srv)
           | (Inr _, s') \<Rightarrow> (None, s', srv))"

definition aliasResponseSession ::
  "sessionEnv \<Rightarrow> gotime \<Rightarrow> string \<Rightarrow> string \<Rightarrow> sessionStore \<Rightarrow> responseError option \<times> sessionStore" where
  "aliasResponseSession env now source alias s =
     (if source = [] \<or> alias = [] then (Some AliasKeyMissing, s)
      else if source = alias
           then (if getSession env source s = None then Some AliasSourceMissing else None, s)
      else (case aliasSource env source s of
              None \<Rightarrow> (Some AliasSourceMissing, s)
            | Some (conv, parent) \<Rightarrow>
                let conv = conv\<lparr>cvID := alias,
                             cvAliasGroup := (if cvAliasGroup conv = [] then source else cvAliasGroup conv),
                             cvResponseAlias := True\<rparr>;
                    conv = (if parent \<noteq> []
                            then conv\<lparr>cvPortableMessages := [], cvHistoryParent := parent, cvHistoryDrop := 0,
                                   cvPortableDelta := []\<rparr>
                            else conv\<lparr>cvHistoryParent := [], cvHistoryDrop := 0, cvPortableDelta := []\<rparr>)
                in (case upsertSession env now conv s of
                      (Inl e, s') \<Rightarrow> (Some (PersistFailed e), s') | (Inr _, s') \<Rightarrow> (None, s'))))"

definition persistResponsePortableHistory ::
  "sessionEnv \<Rightarrow> gotime \<Rightarrow> string \<Rightarrow> oaiMsg list \<Rightarrow> oaiMsg \<Rightarrow> sessionStore \<Rightarrow> responseError option \<times> sessionStore" where
  "persistResponsePortableHistory env now source request assistant s =
     (if source = [] then (Some AliasKeyMissing, s)
      else case getSession env source s of
             None \<Rightarrow> (Some AliasSourceMissing, s)
           | Some existing \<Rightarrow>
               (case updatePortable env now source
                       (mergePortableMessages (sePrint env) (cvPortableMessages existing) request @ [assistant]) s of
                  (Inl e, s') \<Rightarrow> (Some (PersistFailed e), s') | (Inr _, s') \<Rightarrow> (None, s')))"

end
