(* ===== verification/ResponseLocks.thy ===== *)
theory ResponseLocks
  imports ResponseSession
begin

text \<open>
  The locks of stable heads: lockStableResponseSession of internal/web/response_session.go as the steps its
  critical sections make. A lock is an object on the heap with a reference count and a mutex; the table maps
  keys to objects. A request registers under the table's mutex, tries the mutex of the object it has got
  hold of, and later unlocks and deregisters, which removes the object from the table with the last
  reference. Requests interleave arbitrarily.
\<close>

subsection \<open>State and steps\<close>

record keyedResponseLock =
  krlRefs :: nat
  krlLocked :: bool

datatype lockPhase = Registered | Holding | Leaving

type_synonym lockClient = "string \<times> nat \<times> lockPhase"

record lockState =
  lkTable :: "(string, nat) gomap"
  lkHeap :: "(nat, keyedResponseLock) gomap"
  lkClients :: "(nat, lockClient) gomap"

definition entryOf :: "lockState \<Rightarrow> nat \<Rightarrow> keyedResponseLock" where
  "entryOf s e = getOr \<lparr>krlRefs = 0, krlLocked = False\<rparr> (lkHeap s) e"

definition setEntry :: "nat \<Rightarrow> keyedResponseLock \<Rightarrow> lockState \<Rightarrow> lockState" where
  "setEntry e v s = s\<lparr>lkHeap := AList.update e v (lkHeap s)\<rparr>"

definition setClient :: "nat \<Rightarrow> lockClient \<Rightarrow> lockState \<Rightarrow> lockState" where
  "setClient p c s = s\<lparr>lkClients := AList.update p c (lkClients s)\<rparr>"

text \<open>The critical section at the beginning; a new object has a fresh address.\<close>

definition registerLock :: "nat \<Rightarrow> string \<Rightarrow> nat \<Rightarrow> lockState \<Rightarrow> lockState" where
  "registerLock p key fresh s =
     (let (e, s) = (case map_of (lkTable s) key of
                      Some e \<Rightarrow> (e, s)
                    | None \<Rightarrow> (fresh, setEntry fresh \<lparr>krlRefs = 0, krlLocked = False\<rparr>
                                        (s\<lparr>lkTable := AList.update key fresh (lkTable s)\<rparr>)))
      in setClient p (key, e, Registered)
           (setEntry e ((entryOf s e)\<lparr>krlRefs := krlRefs (entryOf s e) + 1\<rparr>) s))"

text \<open>TryLock of the mutex.\<close>

definition tryLock :: "nat \<Rightarrow> string \<Rightarrow> nat \<Rightarrow> lockState \<Rightarrow> lockState" where
  "tryLock p key e s =
     (if krlLocked (entryOf s e) then setClient p (key, e, Leaving) s
      else setClient p (key, e, Holding) (setEntry e ((entryOf s e)\<lparr>krlLocked := True\<rparr>) s))"

definition unlockEntry :: "nat \<Rightarrow> string \<Rightarrow> nat \<Rightarrow> lockState \<Rightarrow> lockState" where
  "unlockEntry p key e s =
     setClient p (key, e, Leaving) (setEntry e ((entryOf s e)\<lparr>krlLocked := False\<rparr>) s)"

text \<open>The critical section at the end.\<close>

definition deregisterLock :: "nat \<Rightarrow> string \<Rightarrow> nat \<Rightarrow> lockState \<Rightarrow> lockState" where
  "deregisterLock p key e s =
     (let s = setEntry e ((entryOf s e)\<lparr>krlRefs := krlRefs (entryOf s e) - 1\<rparr>) s;
          s = (if krlRefs (entryOf s e) = 0 then s\<lparr>lkTable := AList.delete key (lkTable s)\<rparr> else s)
      in s\<lparr>lkClients := AList.delete p (lkClients s)\<rparr>)"

inductive lockStep :: "lockState \<Rightarrow> lockState \<Rightarrow> bool" where
  register: "map_of (lkClients s) p = None \<Longrightarrow> map_of (lkHeap s) fresh = None \<Longrightarrow> key \<noteq> [] \<Longrightarrow>
    lockStep s (registerLock p key fresh s)"
| attempt: "map_of (lkClients s) p = Some (key, e, Registered) \<Longrightarrow> lockStep s (tryLock p key e s)"
| unlock: "map_of (lkClients s) p = Some (key, e, Holding) \<Longrightarrow> lockStep s (unlockEntry p key e s)"
| deregister: "map_of (lkClients s) p = Some (key, e, Leaving) \<Longrightarrow> lockStep s (deregisterLock p key e s)"

subsection \<open>The invariant\<close>

text \<open>The requests that hold a reference to an object.\<close>

definition referrers :: "lockState \<Rightarrow> nat \<Rightarrow> nat set" where
  "referrers s e = {p. \<exists>key ph. map_of (lkClients s) p = Some (key, e, ph)}"

definition lockInv :: "lockState \<Rightarrow> bool" where
  "lockInv s \<longleftrightarrow>
     (\<forall>p key e ph. map_of (lkClients s) p = Some (key, e, ph) \<longrightarrow> map_of (lkTable s) key = Some e)
   \<and> (\<forall>key e. map_of (lkTable s) key = Some e \<longrightarrow> map_of (lkHeap s) e \<noteq> None
        \<and> krlRefs (entryOf s e) = card (referrers s e) \<and> referrers s e \<noteq> {}
        \<and> (krlLocked (entryOf s e) \<longleftrightarrow> (\<exists>p. map_of (lkClients s) p = Some (key, e, Holding)))
        \<and> (\<forall>key'. map_of (lkTable s) key' = Some e \<longrightarrow> key' = key))
   \<and> (\<forall>p q key key' e. map_of (lkClients s) p = Some (key, e, Holding) \<longrightarrow>
        map_of (lkClients s) q = Some (key', e, Holding) \<longrightarrow> p = q)"

definition lockStart :: lockState where
  "lockStart = \<lparr>lkTable = [], lkHeap = [], lkClients = []\<rparr>"

lemma lockInv_start: "lockInv lockStart"
  by (simp add: lockInv_def lockStart_def)

lemma finite_referrers [simp]: "finite (referrers s e)"
proof -
  have "referrers s e \<subseteq> dom (map_of (lkClients s))" by (auto simp: referrers_def)
  then show ?thesis using finite_dom_map_of by (rule finite_subset)
qed

lemma set_simps [simp]:
  "lkTable (setEntry e v s) = lkTable s" "lkClients (setEntry e v s) = lkClients s"
  "lkHeap (setClient p c s) = lkHeap s" "lkTable (setClient p c s) = lkTable s"
  "map_of (lkHeap (setEntry e v s)) = (map_of (lkHeap s))(e \<mapsto> v)"
  "map_of (lkClients (setClient p c s)) = (map_of (lkClients s))(p \<mapsto> c)"
  by (simp_all add: setEntry_def setClient_def)

lemma entryOf_simps [simp]:
  "entryOf (setEntry e v s) e' = (if e' = e then v else entryOf s e')"
  "entryOf (setClient p c s) e' = entryOf s e'"
  "entryOf (s\<lparr>lkTable := t\<rparr>) e' = entryOf s e'"
  "entryOf (s\<lparr>lkClients := cs\<rparr>) e' = entryOf s e'"
  by (simp_all add: entryOf_def getOr_def)

lemma referrers_simps [simp]:
  "referrers (setEntry e v s) e' = referrers s e'"
  "referrers (s\<lparr>lkTable := t\<rparr>) e' = referrers s e'"
  "referrers (setClient p (key, e, ph) s) e' = (if e' = e then insert p (referrers s e') else referrers s e' - {p})"
  by (auto simp: referrers_def)

lemma client_table: "lockInv s \<Longrightarrow> map_of (lkClients s) p = Some (key, e, ph) \<Longrightarrow> map_of (lkTable s) key = Some e"
  unfolding lockInv_def by blast

lemma table_entry:
  "lockInv s \<Longrightarrow> map_of (lkTable s) key = Some e \<Longrightarrow> map_of (lkHeap s) e \<noteq> None
    \<and> krlRefs (entryOf s e) = card (referrers s e) \<and> referrers s e \<noteq> {}
    \<and> (krlLocked (entryOf s e) \<longleftrightarrow> (\<exists>p. map_of (lkClients s) p = Some (key, e, Holding)))
    \<and> (\<forall>key'. map_of (lkTable s) key' = Some e \<longrightarrow> key' = key)"
  unfolding lockInv_def by blast

lemma one_holder:
  "lockInv s \<Longrightarrow> map_of (lkClients s) p = Some (key, e, Holding) \<Longrightarrow>
   map_of (lkClients s) q = Some (key', e, Holding) \<Longrightarrow> p = q"
  unfolding lockInv_def by blast

text \<open>A change of the phase of one client together with the mutex of its object.\<close>

lemma phase_inv:
  assumes inv: "lockInv s" and p: "map_of (lkClients s) p = Some (key, e, ph)"
    and lock: "b \<longleftrightarrow> ph' = Holding \<or> (\<exists>q. q \<noteq> p \<and> map_of (lkClients s) q = Some (key, e, Holding))"
    and one: "ph' = Holding \<Longrightarrow> \<forall>q. q \<noteq> p \<longrightarrow> map_of (lkClients s) q \<noteq> Some (key, e, Holding)"
  shows "lockInv (setClient p (key, e, ph') (setEntry e ((entryOf s e)\<lparr>krlLocked := b\<rparr>) s))"
proof -
  let ?s = "setClient p (key, e, ph') (setEntry e ((entryOf s e)\<lparr>krlLocked := b\<rparr>) s)"
  note pt = client_table [OF inv p]
  have pr: "p \<in> referrers s e'  \<longleftrightarrow> e' = e" for e' using p by (auto simp: referrers_def)
  have ref: "referrers ?s e' = referrers s e'" for e' using pr by auto
  have same_key: "key' = key" if "map_of (lkClients s) q = Some (key', e, ph'')" for q key' ph''
    using client_table [OF inv that] table_entry [OF inv pt] by blast
  show ?thesis
    unfolding lockInv_def ref
  proof (intro conjI allI impI)
    fix q key' e' ph'' assume "map_of (lkClients ?s) q = Some (key', e', ph'')"
    then show "map_of (lkTable ?s) key' = Some e'"
      using client_table [OF inv, of q] pt by (simp split: if_splits)
  next
    fix q q' key' key'' e' assume "map_of (lkClients ?s) q = Some (key', e', Holding)"
      "map_of (lkClients ?s) q' = Some (key'', e', Holding)"
    then show "q = q'" using one_holder [OF inv, of q key' e' q' key''] one same_key by (auto split: if_splits)
  next
    fix key' e' assume t: "map_of (lkTable ?s) key' = Some e'"
    then have t': "map_of (lkTable s) key' = Some e'" by simp
    note T = table_entry [OF inv t']
    show "map_of (lkHeap ?s) e' \<noteq> None" using T by simp
    show "krlRefs (entryOf ?s e') = card (referrers s e')" using T by (cases "e' = e") simp_all
    show "referrers s e' \<noteq> {}" using T by blast
    show "krlLocked (entryOf ?s e') \<longleftrightarrow> (\<exists>q. map_of (lkClients ?s) q = Some (key', e', Holding))"
    proof (cases "e' = e")
      case True
      with T pt have "key' = key" by blast
      with True lock show ?thesis by auto
    next
      case False
      have "(\<exists>q. map_of (lkClients ?s) q = Some (key', e', Holding)) \<longleftrightarrow>
          (\<exists>q. map_of (lkClients s) q = Some (key', e', Holding))"
        using False p by (auto split: if_splits) (metis option.inject prod.inject)
      with T False show ?thesis by simp
    qed
    show "key'' = key'" if "map_of (lkTable ?s) key'' = Some e'" for key'' using that T by simp
  qed
qed

lemma tryLock_inv:
  assumes inv: "lockInv s" and p: "map_of (lkClients s) p = Some (key, e, Registered)"
  shows "lockInv (tryLock p key e s)"
proof -
  note T = table_entry [OF inv client_table [OF inv p]]
  show ?thesis
  proof (cases "krlLocked (entryOf s e)")
    case True
    then obtain q where q: "map_of (lkClients s) q = Some (key, e, Holding)" using T by blast
    with p have "q \<noteq> p" by auto
    have "entryOf s e = (entryOf s e)\<lparr>krlLocked := True\<rparr>" using True by simp
    then have "setEntry e ((entryOf s e)\<lparr>krlLocked := True\<rparr>) s = setEntry e (entryOf s e) s" by simp
    moreover have "setEntry e (entryOf s e) s = s"
      using T by (cases s) (auto simp: setEntry_def entryOf_def getOr_def intro: update_same)
    ultimately have "tryLock p key e s = setClient p (key, e, Leaving) (setEntry e ((entryOf s e)\<lparr>krlLocked := True\<rparr>) s)"
      using True by (simp add: tryLock_def)
    moreover have "lockInv \<dots>" by (rule phase_inv [OF inv p]) (use q \<open>q \<noteq> p\<close> in auto)
    ultimately show ?thesis by simp
  next
    case False
    then have "\<forall>q. map_of (lkClients s) q \<noteq> Some (key, e, Holding)" using T by blast
    with False show ?thesis unfolding tryLock_def
      by (simp only: if_False) (rule phase_inv [OF inv p], auto)
  qed
qed

lemma unlock_inv:
  assumes inv: "lockInv s" and p: "map_of (lkClients s) p = Some (key, e, Holding)"
  shows "lockInv (unlockEntry p key e s)"
  unfolding unlockEntry_def
  by (rule phase_inv [OF inv p]) (use one_holder [OF inv p] in auto)

lemma register_inv:
  assumes inv: "lockInv s" and p: "map_of (lkClients s) p = None" and fresh: "map_of (lkHeap s) f = None"
  shows "lockInv (registerLock p key f s)"
proof -
  define e where "e = (case map_of (lkTable s) key of Some e \<Rightarrow> e | None \<Rightarrow> f)"
  define t where "t = (case map_of (lkTable s) key of Some e \<Rightarrow> s
      | None \<Rightarrow> setEntry f \<lparr>krlRefs = 0, krlLocked = False\<rparr> (s\<lparr>lkTable := AList.update key f (lkTable s)\<rparr>))"
  let ?t = "setClient p (key, e, Registered) (setEntry e ((entryOf t e)\<lparr>krlRefs := krlRefs (entryOf t e) + 1\<rparr>) t)"
  have eq: "registerLock p key f s = ?t"
    by (simp add: registerLock_def e_def t_def split: option.split)
  have pr: "p \<notin> referrers s e'" for e' using p by (simp add: referrers_def)
  have clients: "lkClients t = lkClients s" by (simp add: t_def split: option.split)
  have refs: "referrers ?t e' = (if e' = e then insert p (referrers s e') else referrers s e')" for e'
    using pr by (auto simp: referrers_def clients)
  have nof: "map_of (lkTable s) k' \<noteq> Some f" for k' using table_entry [OF inv, of k' f] fresh by auto
  have nocl: "map_of (lkClients s) q \<noteq> Some (k', f, ph)" for q k' ph using client_table [OF inv, of q k' f ph] nof by auto
  have table: "map_of (lkTable t) k' = (if k' = key then Some e else map_of (lkTable s) k')" for k'
    by (simp add: t_def e_def split: option.split)
  have key: "map_of (lkTable s) key = Some e \<or> map_of (lkTable s) key = None \<and> e = f"
    by (simp add: e_def split: option.split)
  have ent: "entryOf t e' = (if map_of (lkTable s) key = None \<and> e' = f then \<lparr>krlRefs = 0, krlLocked = False\<rparr> else entryOf s e')"
    for e' by (simp add: t_def split: option.split)
  have heap: "map_of (lkHeap ?t) e' \<noteq> None \<longleftrightarrow> e' = e \<or> map_of (lkHeap s) e' \<noteq> None" for e'
    by (simp add: t_def e_def split: option.split)
  have inj: "k' = key" if "map_of (lkTable s) k' = Some e" for k'
    using key nof [of k'] table_entry [OF inv that] that by metis
  have fref: "referrers s f = {}" using nocl by (auto simp: referrers_def)
  show ?thesis unfolding eq lockInv_def
  proof (intro conjI allI impI)
    fix q k' e' ph assume a: "map_of (lkClients ?t) q = Some (k', e', ph)"
    show "map_of (lkTable ?t) k' = Some e'"
    proof (cases "q = p")
      case False
      with a have m: "map_of (lkClients s) q = Some (k', e', ph)" by (simp add: clients)
      show ?thesis
        using client_table [OF inv m] key nof by (cases "k' = key") (auto simp: table)
    qed (use a in \<open>simp add: table\<close>)
  next
    fix q q' k' k'' e' assume "map_of (lkClients ?t) q = Some (k', e', Holding)" "map_of (lkClients ?t) q' = Some (k'', e', Holding)"
    then show "q = q'" using one_holder [OF inv, of q k' e' q' k''] by (auto simp: clients split: if_splits)
  next
    fix k' e' assume t: "map_of (lkTable ?t) k' = Some e'"
    then have t': "k' = key \<and> e' = e \<or> k' \<noteq> key \<and> e' \<noteq> e \<and> map_of (lkTable s) k' = Some e'"
      using inj by (auto simp: table split: if_splits)
    show "map_of (lkHeap ?t) e' \<noteq> None" unfolding heap using t' table_entry [OF inv, of k' e'] by auto
    show "krlRefs (entryOf ?t e') = card (referrers ?t e')"
    proof (cases "map_of (lkTable s) key = None \<and> e' = f")
      case True
      with t' nof [of k'] key have "e' = e" by auto
      have "referrers ?t e' = {p}" using refs [of e'] \<open>e' = e\<close> True fref by simp
      moreover have "krlRefs (entryOf ?t e') = 1" using True \<open>e' = e\<close> by (simp add: ent)
      ultimately show ?thesis by simp
    next
      case False
      with t' key have m: "map_of (lkTable s) k' = Some e'" by auto
      have "e' \<noteq> f" using m nof [of k'] by blast
      then have te: "entryOf t e' = entryOf s e'" by (simp add: ent)
      have "krlRefs (entryOf s e') = card (referrers s e')" using table_entry [OF inv m] by blast
      then show ?thesis using pr [of e'] te unfolding refs by (cases "e' = e") simp_all
    qed
    show "referrers ?t e' \<noteq> {}" unfolding refs using t' table_entry [OF inv, of k' e'] by auto
    have cl: "(\<exists>q. map_of (lkClients ?t) q = Some (k', e', Holding)) \<longleftrightarrow> (\<exists>q. map_of (lkClients s) q = Some (k', e', Holding))"
    proof -
      have "map_of (lkClients ?t) q = Some (k', e', Holding) \<longleftrightarrow> map_of (lkClients s) q = Some (k', e', Holding)" for q
        using p by (simp add: clients)
      then show ?thesis by simp
    qed
    show "krlLocked (entryOf ?t e') \<longleftrightarrow> (\<exists>q. map_of (lkClients ?t) q = Some (k', e', Holding))"
    proof (cases "map_of (lkTable s) key = None \<and> e' = f")
      case True
      with t' nof [of k'] key have "e' = e" by auto
      with True nocl show ?thesis unfolding cl by (simp add: ent)
    next
      case False
      with t' key have m: "map_of (lkTable s) k' = Some e'" by auto
      have "e' \<noteq> f" using m nof [of k'] by blast
      then have "krlLocked (entryOf ?t e') = krlLocked (entryOf s e')" by (simp add: ent)
      then show ?thesis unfolding cl using table_entry [OF inv m] by blast
    qed
    show "k'' = k'" if m: "map_of (lkTable ?t) k'' = Some e'" for k''
    proof -
      have "k'' = key \<and> e' = e \<or> k'' \<noteq> key \<and> map_of (lkTable s) k'' = Some e'"
        using m by (simp add: table split: if_splits)
      with t' inj table_entry [OF inv, of k' e'] show ?thesis by metis
    qed
  qed
qed

lemma deregister_inv:
  assumes inv: "lockInv s" and p: "map_of (lkClients s) p = Some (key, e, Leaving)"
  shows "lockInv (deregisterLock p key e s)"
proof -
  note pt = client_table [OF inv p]
  note T0 = table_entry [OF inv pt]
  let ?t = "deregisterLock p key e s"
  let ?last = "krlRefs (entryOf s e) = 1"
  have pr: "p \<in> referrers s e' \<longleftrightarrow> e' = e" for e' using p by (auto simp: referrers_def)
  have pos: "krlRefs (entryOf s e) > 0" using T0 pr [of e] by (simp add: card_gt_0_iff)
  have clients: "map_of (lkClients ?t) q = (if q = p then None else map_of (lkClients s) q)" for q
    by (simp add: deregisterLock_def Let_def)
  have refs: "referrers ?t e' = referrers s e' - {p}" for e' by (auto simp: referrers_def clients)
  have table: "map_of (lkTable ?t) k' = (if k' = key \<and> ?last then None else map_of (lkTable s) k')" for k'
    using pos by (auto simp: deregisterLock_def Let_def)
  have ent: "entryOf ?t e' = (if e' = e then (entryOf s e)\<lparr>krlRefs := krlRefs (entryOf s e) - 1\<rparr> else entryOf s e')" for e'
    by (simp add: deregisterLock_def Let_def)
  have heap: "map_of (lkHeap ?t) e' \<noteq> None \<longleftrightarrow> e' = e \<or> map_of (lkHeap s) e' \<noteq> None" for e'
    by (simp add: deregisterLock_def Let_def)
  have alone: "q = p" if "?last" "map_of (lkClients s) q = Some (key, e, ph)" for q ph
  proof -
    have "card (referrers s e) = 1" using T0 that(1) by simp
    then obtain r where "referrers s e = {r}" by (auto simp: card_1_singleton_iff)
    moreover have "q \<in> referrers s e" using that(2) by (auto simp: referrers_def)
    ultimately show ?thesis using pr [of e] by auto
  qed
  show ?thesis unfolding lockInv_def
  proof (intro conjI allI impI)
    fix q k' e' ph assume "map_of (lkClients ?t) q = Some (k', e', ph)"
    then have q: "q \<noteq> p" "map_of (lkClients s) q = Some (k', e', ph)" by (auto simp: clients split: if_splits)
    note t = client_table [OF inv q(2)]
    have "\<not> (k' = key \<and> ?last)" using alone q t pt by auto
    with t show "map_of (lkTable ?t) k' = Some e'" by (simp add: table)
  next
    fix q q' k' k'' e' assume "map_of (lkClients ?t) q = Some (k', e', Holding)" "map_of (lkClients ?t) q' = Some (k'', e', Holding)"
    then show "q = q'" using one_holder [OF inv, of q k' e' q' k''] by (auto simp: clients split: if_splits)
  next
    fix k' e' assume "map_of (lkTable ?t) k' = Some e'"
    then have t: "map_of (lkTable s) k' = Some e'" "\<not> (k' = key \<and> ?last)" by (auto simp: table split: if_splits)
    note T = table_entry [OF inv t(1)]
    have ke: "e' = e \<longleftrightarrow> k' = key" using T T0 t(1) pt by (metis option.inject)
    show "map_of (lkHeap ?t) e' \<noteq> None" unfolding heap using T by simp
    show "krlRefs (entryOf ?t e') = card (referrers ?t e')" unfolding refs using T pr [of e'] by (auto simp: ent)
    show "referrers ?t e' \<noteq> {}"
    proof (cases "e' = e")
      case True
      then have "card (referrers s e') \<noteq> 1" using t(2) ke T by auto
      moreover have "p \<in> referrers s e'" using pr True by blast
      moreover have "referrers s e' = {p} \<Longrightarrow> card (referrers s e') = 1" by simp
      ultimately show ?thesis unfolding refs by blast
    qed (use T pr in \<open>simp add: refs\<close>)
    have "(\<exists>q. map_of (lkClients ?t) q = Some (k', e', Holding)) \<longleftrightarrow> (\<exists>q. map_of (lkClients s) q = Some (k', e', Holding))"
    proof -
      have "map_of (lkClients ?t) q = Some (k', e', Holding) \<longleftrightarrow> map_of (lkClients s) q = Some (k', e', Holding)" for q
        using p by (cases "q = p") (simp_all add: clients del: not_Some_eq not_None_eq)
      then show ?thesis by blast
    qed
    moreover have "krlLocked (entryOf ?t e') = krlLocked (entryOf s e')" by (simp add: ent)
    ultimately show "krlLocked (entryOf ?t e') \<longleftrightarrow> (\<exists>q. map_of (lkClients ?t) q = Some (k', e', Holding))"
      using T by blast
    show "k'' = k'" if m: "map_of (lkTable ?t) k'' = Some e'" for k''
    proof -
      have "map_of (lkTable s) k'' = Some e'" using m by (simp add: table split: if_splits)
      with T show ?thesis by blast
    qed
  qed
qed

lemma lockStep_inv: "lockStep s t \<Longrightarrow> lockInv s \<Longrightarrow> lockInv t"
  by (induction rule: lockStep.induct) (auto intro: register_inv tryLock_inv unlock_inv deregister_inv)

end
