(* ===== verification/LockProps.thy ===== *)
theory LockProps
  imports ResponseLocks
begin

text \<open>The locks of stable heads against the set of held keys, and that they drain.\<close>

subsection \<open>Locks against the set of held keys\<close>

definition heldKeys :: "lockState \<Rightarrow> string set" where
  "heldKeys s = {key. \<exists>p e. map_of (lkClients s) p = Some (key, e, Holding)}"

definition phaseOf :: "lockState \<Rightarrow> nat \<Rightarrow> lockPhase option" where
  "phaseOf s p = map_option (snd \<circ> snd) (map_of (lkClients s) p)"

definition namedClients :: "lockState \<Rightarrow> bool" where
  "namedClients s \<longleftrightarrow> (\<forall>p key e ph. map_of (lkClients s) p = Some (key, e, ph) \<longrightarrow> key \<noteq> [])"

lemma clients_register:
  "map_of (lkClients (registerLock p key f s))
    = (map_of (lkClients s))(p \<mapsto> (key, case map_of (lkTable s) key of Some e \<Rightarrow> e | None \<Rightarrow> f, Registered))"
  by (auto simp: registerLock_def setEntry_def setClient_def Let_def split: option.split)

lemma clients_try:
  "map_of (lkClients (tryLock p key e s))
    = (map_of (lkClients s))(p \<mapsto> (key, e, if krlLocked (entryOf s e) then Leaving else Holding))"
  by (simp add: tryLock_def)

lemma clients_unlock: "map_of (lkClients (unlockEntry p key e s)) = (map_of (lkClients s))(p \<mapsto> (key, e, Leaving))"
  by (simp add: unlockEntry_def)

lemma clients_deregister: "map_of (lkClients (deregisterLock p key e s)) = (map_of (lkClients s))(p := None)"
  by (simp add: deregisterLock_def Let_def delete_conv')

lemmas clients_after = clients_register clients_try clients_unlock clients_deregister

lemma lockStep_named: "lockStep s t \<Longrightarrow> namedClients s \<Longrightarrow> namedClients t"
  by (induction rule: lockStep.induct) (auto simp: namedClients_def clients_after split: if_splits)

lemma lock_reachable:
  assumes "lockStep\<^sup>*\<^sup>* lockStart s"
  shows "lockInv s \<and> namedClients s"
  using assms
proof (induction rule: rtranclp_induct)
  case base
  show ?case by (simp add: lockInv_start namedClients_def) (simp add: lockStart_def)
next
  case (step s t)
  then show ?case by (blast intro: lockStep_inv lockStep_named)
qed

lemma held_locked:
  assumes "lockInv s" and "map_of (lkTable s) key = Some e"
  shows "key \<in> heldKeys s \<longleftrightarrow> krlLocked (entryOf s e)"
proof -
  have "e' = e" if "map_of (lkClients s) p = Some (key, e', Holding)" for p e'
    using client_table [OF assms(1) that] assms(2) by simp
  then show ?thesis using table_entry [OF assms] by (auto simp: heldKeys_def)
qed

lemma other_client:
  assumes "\<And>q. q \<noteq> p \<Longrightarrow> map_of (lkClients t) q = map_of (lkClients s) q"
    and "phaseOf s p \<noteq> Some Holding" and "phaseOf t p \<noteq> Some Holding"
  shows "heldKeys t = heldKeys s"
proof -
  have "map_of (lkClients t) q = Some (key, e, Holding) \<longleftrightarrow> map_of (lkClients s) q = Some (key, e, Holding)" for q key e
    using assms by (cases "q = p") (auto simp: phaseOf_def)
  then show ?thesis by (simp add: heldKeys_def)
qed

lemma held_gain:
  assumes "map_of (lkClients t) = (map_of (lkClients s))(p \<mapsto> (key, e, Holding))"
    and "map_of (lkClients s) p = Some (key, e, ph)"
  shows "heldKeys t = insert key (heldKeys s)"
proof -
  have "(\<exists>q e'. map_of (lkClients t) q = Some (k, e', Holding)) \<longleftrightarrow>
      k = key \<or> (\<exists>q e'. map_of (lkClients s) q = Some (k, e', Holding))" for k
  proof
    assume "\<exists>q e'. map_of (lkClients t) q = Some (k, e', Holding)"
    then show "k = key \<or> (\<exists>q e'. map_of (lkClients s) q = Some (k, e', Holding))"
      using assms(1) by (metis fun_upd_apply option.inject prod.inject)
  next
    assume "k = key \<or> (\<exists>q e'. map_of (lkClients s) q = Some (k, e', Holding))"
    then show "\<exists>q e'. map_of (lkClients t) q = Some (k, e', Holding)"
      using assms by (metis fun_upd_apply option.inject prod.inject)
  qed
  then show ?thesis by (auto simp: heldKeys_def)
qed

lemma held_loss:
  assumes inv: "lockInv s" and p: "map_of (lkClients s) p = Some (key, e, Holding)"
    and t: "map_of (lkClients t) = (map_of (lkClients s))(p \<mapsto> (key, e, Leaving))"
  shows "heldKeys t = heldKeys s - {key}"
proof -
  have sole: "q = p" if "map_of (lkClients s) q = Some (key, e', Holding)" for q e'
    using one_holder [OF inv p, of q key] client_table [OF inv that] client_table [OF inv p] that by simp
  have "map_of (lkClients t) q = Some (k, e', Holding) \<longleftrightarrow>
      map_of (lkClients s) q = Some (k, e', Holding) \<and> k \<noteq> key" for k q e'
  proof (cases "q = p")
    case False
    then show ?thesis using sole by (auto simp: t)
  qed (use p in \<open>auto simp: t\<close>)
  then show ?thesis by (auto simp: heldKeys_def)
qed

lemma try_refines:
  assumes inv: "lockInv s" and p: "map_of (lkClients s) p = Some (key, e, Registered)" and key: "key \<noteq> []"
  shows "lockStableResponseSession key (heldKeys s)
    = (phaseOf (tryLock p key e s) p = Some Holding, heldKeys (tryLock p key e s))"
proof (cases "krlLocked (entryOf s e)")
  case True
  with held_locked [OF inv client_table [OF inv p]] have "key \<in> heldKeys s" by simp
  moreover have "heldKeys (tryLock p key e s) = heldKeys s"
    by (rule other_client [of p]) (simp_all add: clients_try phaseOf_def p True)
  ultimately show ?thesis using key True by (simp add: lockStableResponseSession_def phaseOf_def clients_try)
next
  case False
  with held_locked [OF inv client_table [OF inv p]] have "key \<notin> heldKeys s" by simp
  moreover have "heldKeys (tryLock p key e s) = insert key (heldKeys s)"
    by (rule held_gain [OF _ p]) (simp add: clients_try False)
  ultimately show ?thesis using key False by (simp add: lockStableResponseSession_def phaseOf_def clients_try)
qed


subsection \<open>Progress\<close>

text \<open>One step of a request by itself; a request that holds the lock finishes.\<close>

definition advanceClient :: "nat \<Rightarrow> lockState \<Rightarrow> lockState" where
  "advanceClient p s =
     (case map_of (lkClients s) p of
        None \<Rightarrow> s
      | Some (key, e, Registered) \<Rightarrow> tryLock p key e s
      | Some (key, e, Holding) \<Rightarrow> unlockEntry p key e s
      | Some (key, e, Leaving) \<Rightarrow> deregisterLock p key e s)"

definition stepsLeft :: "nat \<Rightarrow> lockState \<Rightarrow> nat" where
  "stepsLeft p s = (case phaseOf s p of None \<Rightarrow> 0 | Some Leaving \<Rightarrow> 1 | Some Holding \<Rightarrow> 2 | Some Registered \<Rightarrow> 3)"

lemma advance_step: "advanceClient p s = s \<or> lockStep s (advanceClient p s)"
  by (auto simp: advanceClient_def intro: lockStep.intros split: option.split lockPhase.split)

lemma advance_phase:
  "stepsLeft q (advanceClient p s) \<le> (if q = p then stepsLeft q s - 1 else stepsLeft q s)"
  by (auto simp: advanceClient_def stepsLeft_def phaseOf_def clients_after split: option.split lockPhase.split)

lemma fold_advance:
  "lockStep\<^sup>*\<^sup>* s (fold advanceClient ps s) \<and> stepsLeft q (fold advanceClient ps s) \<le> stepsLeft q s - count_list ps q"
proof (induction ps arbitrary: s)
  case (Cons p ps)
  have "lockStep\<^sup>*\<^sup>* s (advanceClient p s)" using advance_step [of p s] by (metis r_into_rtranclp rtranclp.rtrancl_refl)
  then have "lockStep\<^sup>*\<^sup>* s (fold advanceClient (p # ps) s)" using Cons.IH [of "advanceClient p s"] by auto
  moreover have "stepsLeft q (fold advanceClient (p # ps) s) \<le> stepsLeft q s - count_list (p # ps) q"
    using Cons.IH [of "advanceClient p s"] advance_phase [of q p s] by (auto split: if_splits)
  ultimately show ?case ..
qed simp

lemma stepsLeft_zero: "stepsLeft p s = 0 \<longleftrightarrow> map_of (lkClients s) p = None"
  by (auto simp: stepsLeft_def phaseOf_def split: option.split lockPhase.split)

lemma stepsLeft_le: "stepsLeft p s \<le> 3"
  by (simp add: stepsLeft_def split: option.split lockPhase.split)

lemma map_empty: "(\<And>k. map_of m k = None) \<Longrightarrow> m = []"
  by (cases m) (auto simp: fun_upd_def, metis option.distinct(1))

subsection \<open>Properties\<close>

text \<open>C14: the reference-counted locks behave like the set of held keys that lockStableResponseSession is about:
  in every reachable interleaving at most one request holds a key, an attempt gives exactly what the function
  on the set gives, an unlock removes the key, registering and leaving change nothing, and the table has an
  entry for exactly the keys some request refers to.\<close>

theorem stable_lock_refines:
  assumes "lockStep\<^sup>*\<^sup>* lockStart s"
  shows "(\<forall>p q key e e'. map_of (lkClients s) p = Some (key, e, Holding) \<longrightarrow>
        map_of (lkClients s) q = Some (key, e', Holding) \<longrightarrow> p = q)
    \<and> (\<forall>p key e. map_of (lkClients s) p = Some (key, e, Registered) \<longrightarrow>
        lockStableResponseSession key (heldKeys s)
          = (phaseOf (tryLock p key e s) p = Some Holding, heldKeys (tryLock p key e s)))
    \<and> (\<forall>p key e. map_of (lkClients s) p = Some (key, e, Holding) \<longrightarrow>
        heldKeys (unlockEntry p key e s) = unlockStable key (heldKeys s))
    \<and> (\<forall>p key f. map_of (lkClients s) p = None \<longrightarrow> heldKeys (registerLock p key f s) = heldKeys s)
    \<and> (\<forall>p key e. map_of (lkClients s) p = Some (key, e, Leaving) \<longrightarrow> heldKeys (deregisterLock p key e s) = heldKeys s)
    \<and> (\<forall>key. map_of (lkTable s) key \<noteq> None \<longleftrightarrow> (\<exists>p e ph. map_of (lkClients s) p = Some (key, e, ph)))"
proof (intro conjI allI impI)
  have inv: "lockInv s" and named: "namedClients s" using lock_reachable [OF assms] by simp_all
  fix p q key e e' f
  show "p = q" if "map_of (lkClients s) p = Some (key, e, Holding)" "map_of (lkClients s) q = Some (key, e', Holding)"
    using one_holder [OF inv, of p key e q key] client_table [OF inv that(1)] client_table [OF inv that(2)] that by simp
  show "lockStableResponseSession key (heldKeys s)
          = (phaseOf (tryLock p key e s) p = Some Holding, heldKeys (tryLock p key e s))"
    if "map_of (lkClients s) p = Some (key, e, Registered)"
    using try_refines [OF inv that] named that unfolding namedClients_def by blast
  show "heldKeys (unlockEntry p key e s) = unlockStable key (heldKeys s)"
    if "map_of (lkClients s) p = Some (key, e, Holding)"
  proof -
    have "key \<noteq> []" using named that unfolding namedClients_def by blast
    with held_loss [OF inv that clients_unlock] show ?thesis by (simp add: unlockStable_def)
  qed
  show "heldKeys (registerLock p key f s) = heldKeys s" if "map_of (lkClients s) p = None"
    by (rule other_client [of p]) (simp_all add: clients_register phaseOf_def that)
  show "heldKeys (deregisterLock p key e s) = heldKeys s" if "map_of (lkClients s) p = Some (key, e, Leaving)"
    by (rule other_client [of p]) (simp_all add: clients_deregister phaseOf_def that)
  show "map_of (lkTable s) key \<noteq> None \<longleftrightarrow> (\<exists>p e ph. map_of (lkClients s) p = Some (key, e, ph))"
  proof
    assume "map_of (lkTable s) key \<noteq> None"
    then obtain a where a: "map_of (lkTable s) key = Some a" by blast
    then obtain r where "r \<in> referrers s a" using table_entry [OF inv a] by blast
    then obtain key' ph where r: "map_of (lkClients s) r = Some (key', a, ph)" by (auto simp: referrers_def)
    from client_table [OF inv r] table_entry [OF inv a] have "key' = key" by blast
    with r show "\<exists>p e ph. map_of (lkClients s) p = Some (key, e, ph)" by blast
  next
    assume "\<exists>p e ph. map_of (lkClients s) p = Some (key, e, ph)"
    then show "map_of (lkTable s) key \<noteq> None" using client_table [OF inv] by fastforce
  qed
qed

text \<open>Two requests for one key; the first has it.\<close>

definition contended :: lockState where
  "contended = tryLock 1 ''thread'' 10 (registerLock 2 ''thread'' 11 (registerLock 1 ''thread'' 10 lockStart))"

lemma contended_reachable: "lockStep\<^sup>*\<^sup>* lockStart contended"
proof -
  let ?a = "registerLock 1 ''thread'' 10 lockStart"
  let ?b = "registerLock 2 ''thread'' 11 ?a"
  have "lockStep lockStart ?a" by (rule lockStep.register) (simp_all add: lockStart_def)
  moreover have "lockStep ?a ?b" by (rule lockStep.register) (code_simp, code_simp, simp)
  moreover have "lockStep ?b contended" unfolding contended_def by (rule lockStep.attempt) code_simp
  ultimately show ?thesis by (meson converse_rtranclp_into_rtranclp rtranclp.rtrancl_refl)
qed

theorem stable_lock_refines_witness:
  "map_of (lkClients contended) 2 = Some (''thread'', 10, Registered)
   \<and> lockStableResponseSession ''thread'' (heldKeys contended)
       = (phaseOf (tryLock 2 ''thread'' 10 contended) 2 = Some Holding, heldKeys (tryLock 2 ''thread'' 10 contended))"
proof -
  have c: "map_of (lkClients contended) 2 = Some (''thread'', 10, Registered)" by code_simp
  with stable_lock_refines [OF contended_reachable] show ?thesis by blast
qed

text \<open>The locks drain: in whatever order the requests get on, once each has had three turns of its own no
  request is left and the table is empty, so no lock outlives its requests and no request waits for another.\<close>

lemma locks_drain:
  assumes "lockStep\<^sup>*\<^sup>* lockStart s" and "\<forall>p. map_of (lkClients s) p \<noteq> None \<longrightarrow> 3 \<le> count_list ps p"
  shows "lockStep\<^sup>*\<^sup>* s (fold advanceClient ps s) \<and> lkClients (fold advanceClient ps s) = []
    \<and> lkTable (fold advanceClient ps s) = []"
proof -
  let ?t = "fold advanceClient ps s"
  have run: "lockStep\<^sup>*\<^sup>* s ?t" using fold_advance [of s ps] by blast
  have "stepsLeft p ?t = 0" for p
  proof (cases "map_of (lkClients s) p")
    case None
    then have "stepsLeft p s = 0" by (simp add: stepsLeft_zero)
    then show ?thesis using fold_advance [of s ps p] by simp
  next
    case (Some c)
    then show ?thesis using assms(2) fold_advance [of s ps p] stepsLeft_le [of p s] by fastforce
  qed
  then have none: "map_of (lkClients ?t) p = None" for p by (simp add: stepsLeft_zero)
  have inv: "lockInv ?t" using lock_reachable [of ?t] assms(1) run by (meson rtranclp_trans)
  have table: "map_of (lkTable ?t) k = None" for k
  proof (rule ccontr)
    assume "map_of (lkTable ?t) k \<noteq> None"
    then obtain a where "map_of (lkTable ?t) k = Some a" by blast
    moreover have "referrers ?t a = {}" for a by (simp add: referrers_def none)
    ultimately show False using table_entry [OF inv] by blast
  qed
  have "lkClients ?t = []" by (rule map_empty) (rule none)
  moreover have "lkTable ?t = []" by (rule map_empty) (rule table)
  ultimately show ?thesis using run by simp
qed

lemma locks_drain_witness:
  "lkTable (fold advanceClient [2, 1, 1, 2, 2, 1] contended) = []"
proof -
  have c: "map fst (lkClients contended) = [1, 2]" by code_simp
  have "\<forall>p. map_of (lkClients contended) p \<noteq> None \<longrightarrow> 3 \<le> count_list [2, 1, 1, 2, 2, 1] p"
  proof (intro allI impI)
    fix p assume "map_of (lkClients contended) p \<noteq> None"
    then have "p \<in> set (map fst (lkClients contended))" by (metis map_of_eq_None_iff set_map)
    then have "p = 1 \<or> p = 2" by (simp only: c) simp
    then show "3 \<le> count_list [2, 1, 1, 2, 2, 1] p" by (elim disjE) simp_all
  qed
  from locks_drain [OF contended_reachable this] show ?thesis by blast
qed

end
