(* ===== verification/PortableLaws.thy ===== *)
theory PortableLaws
  imports PortableHistory Utf8Laws
begin

text \<open>
  Laws of portable history: a compacted value is valid UTF-8, within its limit, trimmed and left
  alone by a second pass; and every message made of valid strings is in normal form after one
  pass of sanitizing.
\<close>

subsection \<open>Cutting at rune boundaries\<close>

lemma shrinkValid_prefix: "prefix (shrinkValid t) t"
proof (induction t rule: shrinkValid.induct)
  case (1 t)
  show ?case
  proof (cases "t = [] \<or> ValidString t")
    case True
    then show ?thesis by (subst shrinkValid.simps) simp
  next
    case False
    with 1 have "prefix (shrinkValid (butlast t)) (butlast t)" by blast
    with False show ?thesis by (subst shrinkValid.simps) (simp add: prefixeq_butlast prefix_order.trans)
  qed
qed

lemma shrinkValid_valid: "ValidString (shrinkValid t)"
proof (induction t rule: shrinkValid.induct)
  case (1 t)
  then show ?case by (subst shrinkValid.simps) auto
qed

lemma shrinkValid_longest: "ValidString p \<Longrightarrow> prefix p t \<Longrightarrow> prefix p (shrinkValid t)"
proof (induction t rule: shrinkValid.induct)
  case (1 t)
  show ?case
  proof (cases "t = [] \<or> ValidString t")
    case True
    with 1(3) show ?thesis by (subst shrinkValid.simps) simp
  next
    case False
    with 1(2,3) have "prefix p (butlast t)"
      by (metis append_butlast_last_id butlast_append butlast_snoc prefix_def prefix_snoc)
    with False 1 show ?thesis by (subst shrinkValid.simps) simp
  qed
qed

lemma utf8Prefix_law:
  assumes "ValidString s"
  shows "prefix (utf8Prefix s n) s" and "length (utf8Prefix s n) \<le> n" and "ValidString (utf8Prefix s n)"
    and "s \<noteq> [] \<Longrightarrow> 4 \<le> n \<Longrightarrow> utf8Prefix s n \<noteq> []"
proof -
  have p: "prefix (shrinkValid (take n s)) (take n s)" by (rule shrinkValid_prefix)
  then show "prefix (utf8Prefix s n) s"
    by (auto simp: utf8Prefix_def intro: prefix_order.trans take_is_prefix)
  show "length (utf8Prefix s n) \<le> n"
    using prefix_length_le [OF p] by (auto simp: utf8Prefix_def)
  show "ValidString (utf8Prefix s n)" using assms by (simp add: utf8Prefix_def shrinkValid_valid)
  show "utf8Prefix s n \<noteq> []" if s: "s \<noteq> []" "4 \<le> n"
  proof -
    let ?r = "take (runeLen s) s"
    have r: "runeLen s \<noteq> 0" using assms s by (simp add: ValidString_step)
    have "ValidString ?r"
      by (rule ValidString_rune) (use r runeLen_take [of s] runeLen_le [of s] in simp)
    moreover have "prefix ?r (take n s)" using runeLen_le_4 [of s] s(2)
      by (metis le_trans min.absorb1 take_is_prefix take_take)
    ultimately have "prefix ?r (shrinkValid (take n s))" by (rule shrinkValid_longest)
    moreover have "?r \<noteq> []" using r s by simp
    ultimately show ?thesis using s by (auto simp: utf8Prefix_def)
  qed
qed

text \<open>At most three continuation bytes follow each other at the end.\<close>

lemma few_conts: "ValidString s \<Longrightarrow> s = a @ b \<Longrightarrow> (\<forall>c \<in> set b. isCont c) \<Longrightarrow> length b \<le> 3"
proof (induction s arbitrary: a rule: valid_induct)
  case (rune s)
  show ?case
  proof (cases "runeLen s \<le> length a")
    case True
    with rune show ?thesis by (intro rune.IH [of "drop (runeLen s) a"]) simp_all
  next
    case short: False
    have rest: "drop (runeLen s) s = []"
    proof (rule ccontr)
      assume "drop (runeLen s) s \<noteq> []"
      then obtain c t where c: "drop (runeLen s) s = c # t" by (cases "drop (runeLen s) s") auto
      with rune(3) have "\<not> isCont c" by (metis ValidString_step list.distinct(1) rune_start)
      moreover have "drop (runeLen s) s = drop (runeLen s - length a) b" using rune(5) short by simp
      with c have "c \<in> set b" by (metis in_set_dropD list.set_intros(1))
      ultimately show False using rune(6) by blast
    qed
    then have len: "length s \<le> 4" using runeLen_le_4 [of s] by simp
    show ?thesis
    proof (cases "a = []")
      case True
      then have "b = []" using rune by (metis append_Nil list.set_sel(1) neq_Nil_conv list.sel(1) rune_start)
      then show ?thesis by simp
    next
      case False
      then have "0 < length a" by simp
      with len rune(5) show ?thesis by (simp only: length_append)
    qed
  qed
qed simp

lemma utf8Suffix_law:
  assumes "ValidString s"
  shows "suffix (utf8Suffix s n) s" and "length (utf8Suffix s n) \<le> n" and "ValidString (utf8Suffix s n)"
    and "s \<noteq> [] \<Longrightarrow> 4 \<le> n \<Longrightarrow> utf8Suffix s n \<noteq> []"
proof -
  let ?d = "drop (length s - n) s" and ?w = "dropWhile (\<lambda>c. \<not> RuneStart c) (drop (length s - n) s)"
  have suf: "suffix ?w s" by (metis suffix_dropWhile suffix_drop suffix_order.trans)
  then show "suffix (utf8Suffix s n) s" by (simp add: utf8Suffix_def)
  have "length ?w \<le> length ?d" by (rule length_dropWhile_le)
  then show "length (utf8Suffix s n) \<le> n" by (auto simp: utf8Suffix_def)
  from suf obtain a where a: "s = a @ ?w" by (auto simp: suffix_def)
  have "?w = [] \<or> \<not> isCont (hd ?w)" using hd_dropWhile [of "\<lambda>c. \<not> RuneStart c" ?d] by blast
  with ValidString_split [OF assms a] assms show "ValidString (utf8Suffix s n)" by (simp add: utf8Suffix_def)
  show "utf8Suffix s n \<noteq> []" if "s \<noteq> []" "4 \<le> n"
  proof (cases "n \<ge> length s")
    case False
    have "?w \<noteq> []"
    proof
      assume "?w = []"
      then have "\<forall>c \<in> set ?d. isCont c" by (simp add: dropWhile_eq_Nil_conv)
      with few_conts [OF assms, of "take (length s - n) s" ?d] have "length ?d \<le> 3" by simp
      with False that show False by simp
    qed
    with False show ?thesis by (simp add: utf8Suffix_def)
  qed (use that in \<open>simp add: utf8Suffix_def\<close>)
qed

subsection \<open>Compacting a value\<close>

lemma shortenTail_fits: "used + length tail \<le> limit \<Longrightarrow> shortenTail used limit tail = tail"
  by (subst shortenTail.simps) simp

lemma truncationMarker_length: "n < 10 ^ 36 \<Longrightarrow> length (truncationMarker n) \<le> markerReserve"
  using showNat_length [of n 36] by (simp add: truncationMarker_def markerReserve_def)

lemma showNat_ascii: "c \<in> set (showNat n) \<Longrightarrow> byteVal c < 128"
  using showNat_digits [of n] by (auto simp: list_all_iff isDigit_def)

lemma truncationMarker_valid [utf8]: "ValidString (truncationMarker n)"
  by (rule ValidString_ascii) (auto simp: truncationMarker_def dest: showNat_ascii)

text \<open>A value that is cut keeps a valid head and a valid tail around the marker.\<close>

lemma compact_cut:
  assumes v: "ValidString v" "TrimSpace v = v" and small: "length v < 10 ^ 36"
    and limit: "76 \<le> limit" "limit < length v"
  obtains h t where "compactPortableUTF8 v limit = h @ truncationMarker (length v - length h - length t) @ t"
    and "prefix h v" and "suffix t v" and "h \<noteq> []" and "t \<noteq> []" and "ValidString h" and "ValidString t"
    and "length h + length t + markerReserve \<le> limit"
proof -
  define hb where "hb = (limit - markerReserve) div 3"
  define h where "h = utf8Prefix v hb"
  define t where "t = utf8Suffix v (limit - markerReserve - hb)"
  let ?m = "truncationMarker (length v - length h - length t)"
  have hb: "4 \<le> hb" "4 \<le> limit - markerReserve - hb" "hb \<le> limit - markerReserve"
    using limit by (simp_all add: hb_def markerReserve_def)
  have ne: "v \<noteq> []" using limit by auto
  note H = utf8Prefix_law [OF v(1), of hb, folded h_def] and T = utf8Suffix_law [OF v(1), of "limit - markerReserve - hb", folded t_def]
  have len: "length h + length t + markerReserve \<le> limit"
    using H(2) T(2) hb(3) limit by (simp add: markerReserve_def)
  moreover have "length ?m \<le> markerReserve" by (rule truncationMarker_length) (use small in simp)
  ultimately have "shortenTail (length h + length ?m) limit t = t" by (intro shortenTail_fits) simp
  then have "compactPortableUTF8 v limit = h @ ?m @ t"
    using limit v(2) unfolding compactPortableUTF8_def
    by (simp add: Let_def markerReserve_def h_def t_def hb_def)
  with H T len ne hb that show ?thesis by blast
qed

lemma compact_law:
  assumes valid: "ValidString v" and small: "length v < 10 ^ 36" and limit: "76 \<le> limit"
  defines "out \<equiv> compactPortableUTF8 v limit"
  shows "length out \<le> limit" and "ValidString out" and "TrimSpace out = out" and "compactPortableUTF8 out limit = out"
proof -
  let ?v = "TrimSpace v"
  have eq: "compactPortableUTF8 v limit = compactPortableUTF8 ?v limit" by (simp add: compactPortableUTF8_def)
  have v: "ValidString ?v" "TrimSpace ?v = ?v" "length ?v < 10 ^ 36"
    using valid small TrimSpace_length [of v] by (simp_all add: utf8)
  have "length out \<le> limit \<and> ValidString out \<and> TrimSpace out = out"
  proof (cases "length ?v \<le> limit")
    case True
    then have "out = ?v" unfolding out_def compactPortableUTF8_def by (simp add: Let_def)
    with True v show ?thesis by simp
  next
    case False
    then obtain h t where o: "out = h @ truncationMarker (length ?v - length h - length t) @ t"
      and ht: "prefix h ?v" "suffix t ?v" "h \<noteq> []" "t \<noteq> []" "ValidString h" "ValidString t"
      and len: "length h + length t + markerReserve \<le> limit"
      using compact_cut [OF v limit] unfolding out_def eq by (metis not_le)
    have "length (truncationMarker (length ?v - length h - length t)) \<le> markerReserve"
      by (rule truncationMarker_length) (use v(3) in simp)
    with len have "length out \<le> limit" by (simp add: o)
    moreover have "ValidString out" using ht unfolding o by (intro ValidString_append truncationMarker_valid)
    moreover have "TrimSpace out = out" unfolding o
    proof (rule TrimSpace_sandwich [OF ht(5,3) _ ht(6,4)])
      show "trimLeft h = h" using TrimSpace_parts(1) [OF v(2)] ht(1)
        unfolding trimLeft_def by (metis stripSpaces_prefix_fixed)
      show "trimRight t = t" using TrimSpace_parts(2) [OF v(2)] ht(2)
        unfolding trimRight_def by (metis rev_rev_ident stripSpaces_prefix_fixed suffix_to_prefix)
    qed
    ultimately show ?thesis by blast
  qed
  then show "length out \<le> limit" "ValidString out" "TrimSpace out = out" by blast+
  then show "compactPortableUTF8 out limit = out" by (simp add: compactPortableUTF8_def)
qed

lemma compact_nonempty:
  assumes "ValidString v" and "length v < 10 ^ 36" and "76 \<le> limit" and "TrimSpace v \<noteq> []"
  shows "compactPortableUTF8 v limit \<noteq> []"
proof (cases "length (TrimSpace v) \<le> limit")
  case True
  with assms(4) show ?thesis by (simp add: compactPortableUTF8_def Let_def)
next
  case False
  have eq: "compactPortableUTF8 v limit = compactPortableUTF8 (TrimSpace v) limit" by (simp add: compactPortableUTF8_def)
  have "ValidString (TrimSpace v)" "length (TrimSpace v) < 10 ^ 36"
    using assms(1,2) TrimSpace_length [of v] by (simp_all add: TrimSpace_valid)
  with compact_cut [OF this(1) TrimSpace_idem this(2) assms(3)] False show ?thesis
    unfolding eq by (metis append_is_Nil_conv not_le)
qed

subsection \<open>Messages of valid strings\<close>

text \<open>
  What decoding a request yields: every string is valid UTF-8 (the decoder of encoding/json replaces
  invalid bytes), and no string has \<open>10 ^ 36\<close> bytes.
\<close>

definition okText :: "string \<Rightarrow> bool" where
  "okText s \<longleftrightarrow> ValidString s \<and> length s < 10 ^ 36"

definition callTexts :: "(string \<times> json) list \<Rightarrow> string list" where
  "callTexts c =
     (let function' = getOr JNull c ''function'';
          raw = jsonField ''arguments'' function'
      in [asString (getOr JNull c ''id''), asString (jsonField ''name'' function'),
          (case raw of JStr s \<Rightarrow> s | _ \<Rightarrow> mustJSON raw)])"

definition validMsg :: "(json \<Rightarrow> string) \<Rightarrow> oaiMsg \<Rightarrow> bool" where
  "validMsg sprint m \<longleftrightarrow>
     okText (msgRole m) \<and> okText (msgName m) \<and> okText (msgToolCallID m)
   \<and> okText (contentToString sprint (msgContent m))
   \<and> list_all (\<lambda>c. list_all okText (callTexts c)) (msgToolCalls m)"

abbreviation validMsgs :: "(json \<Rightarrow> string) \<Rightarrow> oaiMsg list \<Rightarrow> bool" where
  "validMsgs sprint ms \<equiv> \<forall>m \<in> set ms. validMsg sprint m"

lemma okText_compact:
  assumes "okText s" and "76 \<le> limit"
  shows "ValidString (compactPortableUTF8 s limit)"
    and "compactPortableUTF8 (compactPortableUTF8 s limit) limit = compactPortableUTF8 s limit"
    and "TrimSpace (compactPortableUTF8 s limit) = compactPortableUTF8 s limit"
    and "TrimSpace s \<noteq> [] \<Longrightarrow> compactPortableUTF8 s limit \<noteq> []"
  using assms compact_law compact_nonempty unfolding okText_def by blast+

lemma limits_large: "(76 :: nat) \<le> 256" "76 \<le> maxPortableContentBytes" "76 \<le> maxPortableToolArgBytes"
  by (simp_all add: maxPortableContentBytes_def maxPortableToolArgBytes_def)

text \<open>Calls.\<close>

lemma portableCall_fields:
  "getOr JNull (portableCall cid name arguments) ''id'' = JStr cid"
  "jsonField ''name'' (getOr JNull (portableCall cid name arguments) ''function'') = JStr name"
  "jsonField ''arguments'' (getOr JNull (portableCall cid name arguments) ''function'') = JStr arguments"
  by (simp_all add: portableCall_def getOr_def jsonField_def)

lemma sanitizeCall_texts:
  "sanitizeCall c =
     (case callTexts c of [cid, name, arguments] \<Rightarrow>
        let cid = compactPortableUTF8 cid 256; name = compactPortableUTF8 name 256
        in if cid = [] \<or> name = [] then None
           else Some (portableCall cid name (compactPortableUTF8 arguments maxPortableToolArgBytes))
      | _ \<Rightarrow> None)"
  by (simp add: sanitizeCall_def callTexts_def Let_def)

lemma callTexts_portable: "callTexts (portableCall cid name arguments) = [cid, name, arguments]"
  by (simp add: callTexts_def portableCall_fields asString_def)

lemma ascii_words:
  "ValidString ''function''" "ValidString ''id''" "ValidString ''type''" "ValidString ''arguments''" "ValidString ''name''"
  by (rule ValidString_ascii, force)+

lemma sanitizeCall_stable:
  assumes ok: "list_all okText (callTexts c)" and s: "sanitizeCall c = Some d"
  shows "sanitizeCall d = Some d" and "map (\<lambda>(k, v). (toValid k, cloneJSON v)) d = d"
proof -
  obtain cid name arguments where t: "callTexts c = [cid, name, arguments]"
    by (simp add: callTexts_def Let_def)
  let ?c = "compactPortableUTF8 cid 256" and ?n = "compactPortableUTF8 name 256"
    and ?a = "compactPortableUTF8 arguments maxPortableToolArgBytes"
  have d: "d = portableCall ?c ?n ?a" "?c \<noteq> []" "?n \<noteq> []"
    using s by (auto simp: sanitizeCall_texts t Let_def split: if_splits)
  have ok': "okText cid" "okText name" "okText arguments" using ok t by simp_all
  note C = okText_compact [OF ok'(1) limits_large(1)] and N = okText_compact [OF ok'(2) limits_large(1)]
    and A = okText_compact [OF ok'(3) limits_large(3)]
  show "sanitizeCall d = Some d"
    using C(2) N(2) A(2) d(2,3) unfolding d(1) sanitizeCall_texts callTexts_portable by (simp add: Let_def)
  show "map (\<lambda>(k, v). (toValid k, cloneJSON v)) d = d"
    using C(1) N(1) A(1) ascii_words unfolding d(1) portableCall_def by simp
qed

lemma map_filter_stable:
  assumes "\<And>c d. c \<in> set cs \<Longrightarrow> f c = Some d \<Longrightarrow> f d = Some d"
  shows "List.map_filter f (List.map_filter f cs) = List.map_filter f cs"
  using assms
proof (induction cs)
  case (Cons c cs)
  have "List.map_filter f (List.map_filter f cs) = List.map_filter f cs"
    by (rule Cons.IH) (use Cons.prems in auto)
  with Cons.prems [of c] show ?case by (cases "f c") (simp_all add: List.map_filter_simps)
qed (simp add: List.map_filter_simps)

lemma map_filter_length: "length (List.map_filter f cs) \<le> length cs"
  by (induction cs) (auto simp: List.map_filter_simps split: option.splits)

text \<open>Contents.\<close>

lemma sanitizeContent_stable:
  assumes "okText (contentToString sprint c)"
  shows "sanitizeContent sprint (sanitizeContent sprint c) = sanitizeContent sprint c"
    and "cloneJSON (sanitizeContent sprint c) = sanitizeContent sprint c"
proof -
  let ?t = "TrimSpace (contentToString sprint c)"
  have ok: "okText ?t"
    using assms TrimSpace_length [of "contentToString sprint c"] by (simp add: okText_def TrimSpace_valid)
  note C = okText_compact [OF ok limits_large(2)]
  have "sanitizeContent sprint (JStr (compactPortableUTF8 ?t maxPortableContentBytes))
      = JStr (compactPortableUTF8 ?t maxPortableContentBytes)" if "?t \<noteq> []"
    using C(2,3,4) that by (simp add: sanitizeContent_def contentToString_def Let_def)
  then show "sanitizeContent sprint (sanitizeContent sprint c) = sanitizeContent sprint c"
    by (simp add: sanitizeContent_def [of _ c] Let_def) (simp add: sanitizeContent_def)
  show "cloneJSON (sanitizeContent sprint c) = sanitizeContent sprint c"
    using C(1) by (simp add: sanitizeContent_def Let_def)
qed

lemma portableRoles_fixed:
  "r \<in> set portableRoles \<Longrightarrow> ToLower (TrimSpace r) = r \<and> toValid r = r"
proof -
  assume "r \<in> set portableRoles"
  then consider "r = ''system''" | "r = ''developer''" | "r = ''user''" | "r = ''assistant''" | "r = ''tool''"
    by (auto simp: portableRoles_def)
  then have "ToLower (TrimSpace r) = r \<and> (\<forall>c \<in> set r. byteVal c < 128)"
    by cases (simp_all add: TrimSpace_def trimLeft_def trimRight_def asciiSpace_def space2_def space3_def
        ToLower_def lowerChar_def)
  then show ?thesis using ValidString_ascii toValid_valid by blast
qed

lemma sanitize_cases:
  assumes "sanitizePortableMessage sprint m = Some c"
  defines "role \<equiv> ToLower (TrimSpace (msgRole m))"
  shows "role \<in> set portableRoles"
    and "c = \<lparr>msgRole = role, msgContent = sanitizeContent sprint (msgContent m),
              msgName = compactPortableUTF8 (msgName m) 256,
              msgToolCallID = (if role = ''tool'' then compactPortableUTF8 (msgToolCallID m) 256 else []),
              msgToolCalls =
                (if role = ''assistant''
                 then List.map_filter sanitizeCall (take maxPortableToolCalls (msgToolCalls m)) else [])\<rparr>"
    and "\<not> (msgContent c = JNull \<and> msgToolCalls c = [] \<and> role \<noteq> ''tool'')"
proof -
  define clean where "clean = \<lparr>msgRole = role, msgContent = sanitizeContent sprint (msgContent m),
              msgName = compactPortableUTF8 (msgName m) 256,
              msgToolCallID = (if role = ''tool'' then compactPortableUTF8 (msgToolCallID m) 256 else []),
              msgToolCalls =
                (if role = ''assistant''
                 then List.map_filter sanitizeCall (take maxPortableToolCalls (msgToolCalls m)) else [])\<rparr>"
  have eq: "(if role \<notin> set portableRoles then None
      else if msgContent clean = JNull \<and> msgToolCalls clean = [] \<and> role \<noteq> ''tool'' then None
      else Some clean) = Some c"
    using assms(1) unfolding sanitizePortableMessage_def Let_def role_def [symmetric] clean_def [symmetric] .
  show "role \<in> set portableRoles" using eq by (simp split: if_splits)
  have "c = clean" using eq by (simp split: if_splits)
  then show "c = \<lparr>msgRole = role, msgContent = sanitizeContent sprint (msgContent m),
              msgName = compactPortableUTF8 (msgName m) 256,
              msgToolCallID = (if role = ''tool'' then compactPortableUTF8 (msgToolCallID m) 256 else []),
              msgToolCalls =
                (if role = ''assistant''
                 then List.map_filter sanitizeCall (take maxPortableToolCalls (msgToolCalls m)) else [])\<rparr>"
    by (simp add: clean_def)
  show "\<not> (msgContent c = JNull \<and> msgToolCalls c = [] \<and> role \<noteq> ''tool'')"
    using eq \<open>c = clean\<close> by (simp split: if_splits)
qed

lemma validMsg_tame:
  assumes valid: "validMsg sprint m"
  shows "tame sprint m"
  unfolding tame_def
proof (intro allI impI)
  fix c assume c: "sanitizePortableMessage sprint m = Some c"
  define role where "role = ToLower (TrimSpace (msgRole m))"
  note S = sanitize_cases [OF c, folded role_def]
  have role: "ToLower (TrimSpace role) = role" "toValid role = role"
    using portableRoles_fixed [OF S(1)] by simp_all
  let ?calls = "List.map_filter sanitizeCall (take maxPortableToolCalls (msgToolCalls m))"
  have ok: "okText (msgName m)" "okText (msgToolCallID m)" "okText (contentToString sprint (msgContent m))"
    and calls: "\<And>d. d \<in> set (take maxPortableToolCalls (msgToolCalls m)) \<Longrightarrow> list_all okText (callTexts d)"
    using valid by (auto simp: validMsg_def list_all_iff dest: in_set_takeD)
  have "take maxPortableToolCalls ?calls = ?calls"
    using map_filter_length [of sanitizeCall "take maxPortableToolCalls (msgToolCalls m)"] by simp
  moreover have "List.map_filter sanitizeCall ?calls = ?calls"
    by (rule map_filter_stable) (use calls sanitizeCall_stable(1) in blast)
  ultimately have again: "List.map_filter sanitizeCall (take maxPortableToolCalls ?calls) = ?calls" by simp
  have clone: "map (map (\<lambda>(k, v). (toValid k, cloneJSON v))) ?calls = ?calls"
    by (rule map_idI) (use calls sanitizeCall_stable(2) in \<open>auto simp: map_filter_set\<close>)
  note N = okText_compact [OF ok(1) limits_large(1)] and T = okText_compact [OF ok(2) limits_large(1)]
    and C = sanitizeContent_stable [OF ok(3)]
  have "sanitizePortableMessage sprint c = Some c"
    using S role N(2) T(2) C(1) again unfolding sanitizePortableMessage_def
    by (simp add: Let_def S(2))
  moreover have "cloneMsg c = c"
    using role N(1) T(1) C(2) clone by (simp add: cloneMsg_def S(2))
  ultimately show "wfMsg sprint c" by (simp add: wfMsg_def)
qed

lemma validMsgs_tames: "validMsgs sprint ms \<Longrightarrow> tames sprint ms"
  using validMsg_tame by blast

end
