(* ===== verification/SessionLaws.thy ===== *)
theory SessionLaws
  imports Sessions PortableLaws
begin

text \<open>
  Laws of the session store: what a history depends on, that overwriting a conversation that is no
  parent changes no other history, that removal with rebase and every kind of pruning keep the
  histories of the survivors, and that a failed write restores the entries.
\<close>

named_theorems session_rules "laws of the operations on conversations"

subsection \<open>What a history depends on\<close>

inductive chain :: "conversations \<Rightarrow> string \<Rightarrow> string \<Rightarrow> bool" for d where
  self: "chain d x x"
| up: "map_of d x = Some v \<Longrightarrow> cvHistoryParent v \<noteq> [] \<Longrightarrow> chain d (cvHistoryParent v) y \<Longrightarrow> chain d x y"

lemma history_frame:
  "materializeHistory sp d visiting x = Inr h \<Longrightarrow>
   (\<And>y. chain d x y \<Longrightarrow> map_of d' y = map_of d y \<and> (y \<in> set visiting' \<longrightarrow> y \<in> set visiting)) \<Longrightarrow>
   materializeHistory sp d' visiting' x = Inr h"
proof (induction sp d visiting x arbitrary: h visiting' rule: materializeHistory.induct)
  case (1 sp d visiting x)
  have same: "map_of d' x = map_of d x" "x \<in> set visiting' \<longrightarrow> x \<in> set visiting"
    using 1(3) [OF self] by blast+
  from 1(2) obtain v where v: "map_of d x = Some v" "x \<notin> set visiting"
    by (subst (asm) materializeHistory.simps) (auto split: option.splits if_splits)
  show ?case
  proof (cases "cvHistoryParent v = []")
    case True
    with 1(2) v same show ?thesis
      by (subst (asm) materializeHistory.simps, subst materializeHistory.simps) auto
  next
    case False
    from 1(2) v False obtain parent where parent:
      "materializeHistory sp d (x # visiting) (cvHistoryParent v) = Inr parent"
      by (subst (asm) materializeHistory.simps) (auto split: sum.splits)
    have "materializeHistory sp d' (x # visiting') (cvHistoryParent v) = Inr parent"
      by (rule 1(1) [OF v(1) v(2) False parent]) (use 1(3) chain.up [OF v(1) False] in auto)
    with 1(2) v same False parent show ?thesis
      by (subst (asm) materializeHistory.simps, subst materializeHistory.simps) auto
  qed
qed

definition notParent :: "conversations \<Rightarrow> string \<Rightarrow> bool" where
  "notParent d w \<longleftrightarrow> (\<forall>v. (\<exists>k. map_of d k = Some v) \<longrightarrow> cvHistoryParent v \<noteq> [] \<longrightarrow> cvHistoryParent v \<noteq> w)"

lemma chain_avoids: "chain d x y \<Longrightarrow> notParent d w \<Longrightarrow> x \<noteq> w \<Longrightarrow> y \<noteq> w"
  by (induction rule: chain.induct) (auto simp: notParent_def)

lemma history_avoids:
  assumes "materializeHistory sp d [] x = Inr h" and "notParent d w" and "x \<noteq> w"
    and "\<And>y. y \<noteq> w \<Longrightarrow> map_of d' y = map_of d y" and "set visiting \<subseteq> {w}"
  shows "materializeHistory sp d' visiting x = Inr h"
  by (rule history_frame [OF assms(1)]) (use chain_avoids [OF _ assms(2,3)] assms(4,5) in blast)

lemma history_node:
  "map_of d x = Some v \<Longrightarrow>
   materializeHistory sp d [] x =
     (if cvHistoryParent v = [] then Inr (boundedPortableMessages sp (cvPortableMessages v))
      else (case materializeHistory sp d [x] (cvHistoryParent v) of
              Inl e \<Rightarrow> Inl e
            | Inr parent \<Rightarrow>
                if cvHistoryDrop v < 0 \<or> cvHistoryDrop v > int (length parent) then Inl SessBadDrop
                else Inr (applyTransition sp parent (nat (cvHistoryDrop v)) (cvPortableDelta v))))"
  by (subst materializeHistory.simps) simp

subsection \<open>The invariant\<close>

text \<open>
  Names are the keys, every history can be written out and is bounded, the stored messages are in
  normal form, and every parent is a response snapshot.
\<close>

definition goodNode :: "(json \<Rightarrow> string) \<Rightarrow> conversations \<Rightarrow> string \<Rightarrow> conversation \<Rightarrow> bool" where
  "goodNode sp d k v \<longleftrightarrow>
     cvID v = k
   \<and> (\<exists>h. materializeHistory sp d [] k = Inr h \<and> boundedHistory sp h)
   \<and> wfMsgs sp (cvPortableMessages v) \<and> wfMsgs sp (cvPortableDelta v)
   \<and> (cvHistoryParent v \<noteq> [] \<longrightarrow> (\<exists>p. map_of d (cvHistoryParent v) = Some p \<and> cvResponseAlias p))"

definition sessionsOK :: "(json \<Rightarrow> string) \<Rightarrow> conversations \<Rightarrow> bool" where
  "sessionsOK sp d \<longleftrightarrow> wf_map d \<and> (\<forall>k v. map_of d k = Some v \<longrightarrow> goodNode sp d k v)"

lemma sessionsOK_node: "sessionsOK sp d \<Longrightarrow> map_of d k = Some v \<Longrightarrow> goodNode sp d k v"
  by (simp add: sessionsOK_def)

lemma sessionsOK_history:
  "sessionsOK sp d \<Longrightarrow> map_of d k = Some v \<Longrightarrow>
   (\<And>h. materializeHistory sp d [] k = Inr h \<Longrightarrow> boundedHistory sp h \<Longrightarrow> thesis) \<Longrightarrow> thesis"
  using sessionsOK_node by (fastforce simp: goodNode_def)

lemma sessionsOK_Nil [simp]: "sessionsOK sp []"
  by (simp add: sessionsOK_def)

text \<open>Only a response snapshot can be a parent.\<close>

lemma not_alias_notParent:
  assumes "sessionsOK sp d" and "\<And>v. map_of d w = Some v \<Longrightarrow> \<not> cvResponseAlias v"
  shows "notParent d w"
  unfolding notParent_def using assms sessionsOK_node by (fastforce simp: goodNode_def)

subsection \<open>Writing one conversation\<close>

definition nodeHistory :: "(json \<Rightarrow> string) \<Rightarrow> conversations \<Rightarrow> conversation \<Rightarrow> oaiMsg list \<Rightarrow> bool" where
  "nodeHistory sp d v h \<longleftrightarrow>
     (if cvHistoryParent v = [] then h = boundedPortableMessages sp (cvPortableMessages v)
      else \<exists>parent. materializeHistory sp d [] (cvHistoryParent v) = Inr parent
             \<and> 0 \<le> cvHistoryDrop v \<and> cvHistoryDrop v \<le> int (length parent)
             \<and> h = applyTransition sp parent (nat (cvHistoryDrop v)) (cvPortableDelta v))"

lemma update_history:
  assumes np: "notParent d w" and v: "nodeHistory sp d v h" and parent: "cvHistoryParent v = [] \<or> cvHistoryParent v \<noteq> w"
  shows "materializeHistory sp (AList.update w v d) [] w = Inr h"
proof (cases "cvHistoryParent v = []")
  case True
  with v show ?thesis by (simp add: history_node [of _ w v] nodeHistory_def)
next
  case False
  with v obtain ph where ph: "materializeHistory sp d [] (cvHistoryParent v) = Inr ph"
    and d: "0 \<le> cvHistoryDrop v" "cvHistoryDrop v \<le> int (length ph)"
    and h: "h = applyTransition sp ph (nat (cvHistoryDrop v)) (cvPortableDelta v)"
    by (auto simp: nodeHistory_def)
  have "materializeHistory sp (AList.update w v d) [w] (cvHistoryParent v) = Inr ph"
    by (rule history_avoids [OF ph np]) (use parent False in auto)
  with False d h show ?thesis by (simp add: history_node [of _ w v])
qed

lemma node_of_history:
  assumes ok: "sessionsOK sp d" and v: "map_of d x = Some v" and h: "materializeHistory sp d [] x = Inr h"
  shows "nodeHistory sp d v h"
proof (cases "cvHistoryParent v = []")
  case True
  with h v show ?thesis by (simp add: history_node nodeHistory_def)
next
  case False
  with h v obtain parent where p: "materializeHistory sp d [x] (cvHistoryParent v) = Inr parent"
    "0 \<le> cvHistoryDrop v" "cvHistoryDrop v \<le> int (length parent)"
    "h = applyTransition sp parent (nat (cvHistoryDrop v)) (cvPortableDelta v)"
    by (auto simp: history_node split: sum.splits if_splits)
  have "materializeHistory sp d [] (cvHistoryParent v) = Inr parent" by (rule history_frame [OF p(1)]) simp
  with False p show ?thesis by (simp add: nodeHistory_def)
qed

lemma update_sessions:
  assumes ok: "sessionsOK sp d" and np: "notParent d w" and h: "nodeHistory sp d v h" "boundedHistory sp h"
    and v: "cvID v = w" "wfMsgs sp (cvPortableMessages v)" "wfMsgs sp (cvPortableDelta v)"
    and parent: "cvHistoryParent v \<noteq> [] \<Longrightarrow>
      cvHistoryParent v \<noteq> w \<and> (\<exists>p. map_of d (cvHistoryParent v) = Some p \<and> cvResponseAlias p)"
  shows "sessionsOK sp (AList.update w v d)"
    and "materializeHistory sp (AList.update w v d) [] w = Inr h"
    and "map_of d x = Some y \<Longrightarrow> x \<noteq> w \<Longrightarrow>
      materializeHistory sp (AList.update w v d) [] x = materializeHistory sp d [] x"
proof -
  show hw: "materializeHistory sp (AList.update w v d) [] w = Inr h"
    by (rule update_history [OF np h(1)]) (use parent in blast)
  have frame: "materializeHistory sp (AList.update w v d) [] x = materializeHistory sp d [] x"
    if "map_of d x = Some y" "x \<noteq> w" for x y
  proof (rule sessionsOK_history [OF ok that(1)])
    fix h assume "materializeHistory sp d [] x = Inr h"
    moreover from this have "materializeHistory sp (AList.update w v d) [] x = Inr h"
      by (rule history_avoids [OF _ np that(2)]) auto
    ultimately show ?thesis by simp
  qed
  then show "map_of d x = Some y \<Longrightarrow> x \<noteq> w \<Longrightarrow>
      materializeHistory sp (AList.update w v d) [] x = materializeHistory sp d [] x" .
  have "goodNode sp (AList.update w v d) k c" if c: "map_of (AList.update w v d) k = Some c" for k c
  proof (cases "k = w")
    case True
    with c have "c = v" by simp
    with True v hw h(2) parent show ?thesis by (auto simp: goodNode_def)
  next
    case False
    with c have "map_of d k = Some c" by simp
    moreover from ok this have "goodNode sp d k c" by (rule sessionsOK_node)
    moreover have "cvHistoryParent c \<noteq> [] \<Longrightarrow> cvHistoryParent c \<noteq> w"
      using np \<open>map_of d k = Some c\<close> unfolding notParent_def by blast
    ultimately show ?thesis using frame [OF _ False] by (auto simp: goodNode_def)
  qed
  with ok show "sessionsOK sp (AList.update w v d)" by (simp add: sessionsOK_def)
qed

subsection \<open>Thinning: fewer conversations, the same histories\<close>

text \<open>
  Every conversation of the thinner store was there before with the same metadata and the same
  history; its parent is as before, or it has become a root.
\<close>

definition thins :: "(json \<Rightarrow> string) \<Rightarrow> conversations \<Rightarrow> conversations \<Rightarrow> bool" where
  "thins sp d d' \<longleftrightarrow>
     sessionsOK sp d'
   \<and> (\<forall>k v'. map_of d' k = Some v' \<longrightarrow>
        (\<exists>v. map_of d k = Some v \<and> rooted [] v' = rooted [] v
           \<and> (cvHistoryParent v' = [] \<or> cvHistoryParent v' = cvHistoryParent v))
        \<and> materializeHistory sp d' [] k = materializeHistory sp d [] k)"

lemma thins_refl: "sessionsOK sp d \<Longrightarrow> thins sp d d"
  by (simp add: thins_def)

lemma thins_OK: "thins sp d d' \<Longrightarrow> sessionsOK sp d'"
  by (simp add: thins_def)

lemma thins_node:
  assumes "thins sp d d'" and "map_of d' k = Some v'"
  obtains v where "map_of d k = Some v" and "rooted [] v' = rooted [] v"
    and "cvHistoryParent v' = [] \<or> cvHistoryParent v' = cvHistoryParent v"
    and "materializeHistory sp d' [] k = materializeHistory sp d [] k"
  using assms unfolding thins_def by blast

lemma thins_trans:
  assumes "thins sp d d'" and "thins sp d' d''"
  shows "thins sp d d''"
  unfolding thins_def
proof (intro conjI allI impI)
  show "sessionsOK sp d''" using assms(2) by (rule thins_OK)
next
  fix k v'' assume "map_of d'' k = Some v''"
  from thins_node [OF assms(2) this] obtain v' where v': "map_of d' k = Some v'" "rooted [] v'' = rooted [] v'"
    "cvHistoryParent v'' = [] \<or> cvHistoryParent v'' = cvHistoryParent v'"
    "materializeHistory sp d'' [] k = materializeHistory sp d' [] k" .
  from thins_node [OF assms(1) v'(1)] obtain v where v: "map_of d k = Some v" "rooted [] v' = rooted [] v"
    "cvHistoryParent v' = [] \<or> cvHistoryParent v' = cvHistoryParent v"
    "materializeHistory sp d' [] k = materializeHistory sp d [] k" .
  from v v' show "\<exists>v. map_of d k = Some v \<and> rooted [] v'' = rooted [] v
      \<and> (cvHistoryParent v'' = [] \<or> cvHistoryParent v'' = cvHistoryParent v)" by metis
  from v v' show "materializeHistory sp d'' [] k = materializeHistory sp d [] k" by simp
qed

lemma fold_thins:
  assumes "sessionsOK sp d" and "\<And>x d. x \<in> set xs \<Longrightarrow> sessionsOK sp d \<Longrightarrow> thins sp d (f x d)"
  shows "thins sp d (fold f xs d)"
  using assms
proof (induction xs arbitrary: d)
  case Nil
  then show ?case by (simp add: thins_refl)
next
  case (Cons x xs)
  from Cons.prems have "thins sp d (f x d)" by simp
  moreover from this have "thins sp (f x d) (fold f xs (f x d))"
    by (intro Cons.IH) (auto intro: thins_OK Cons.prems(2))
  ultimately show ?case by (auto intro: thins_trans)
qed

subsection \<open>Rebasing\<close>

lemma rooted_history:
  assumes k: "map_of d k = Some v" and hk: "materializeHistory sp d [] k = Inr h"
    and b: "boundedPortableMessages sp h = h"
  shows "materializeHistory sp d visiting x = Inr g \<Longrightarrow>
    materializeHistory sp (AList.update k (rooted h v) d) visiting x = Inr g"
  using k hk b
proof (induction sp d visiting x arbitrary: g rule: materializeHistory.induct)
  case (1 sp d visiting x)
  note prems = 1(2-5)
  from prems(1) obtain vx where vx: "map_of d x = Some vx" "x \<notin> set visiting"
    by (subst (asm) materializeHistory.simps) (auto split: option.splits if_splits)
  show ?case
  proof (cases "x = k")
    case True
    have "materializeHistory sp d [] k = Inr g"
      using prems(1) unfolding True by (rule history_frame) simp
    with prems(3) have "g = h" by simp
    with True vx(2) prems(4) show ?thesis by (subst materializeHistory.simps) (simp add: rooted_def)
  next
    case False
    show ?thesis
    proof (cases "cvHistoryParent vx = []")
      case True
      with prems(1) vx False show ?thesis
        by (subst (asm) materializeHistory.simps, subst materializeHistory.simps) auto
    next
      case parent: False
      from prems(1) vx parent obtain ph where ph:
        "materializeHistory sp d (x # visiting) (cvHistoryParent vx) = Inr ph"
        by (subst (asm) materializeHistory.simps) (auto split: sum.splits)
      have "materializeHistory sp (AList.update k (rooted h v) d) (x # visiting) (cvHistoryParent vx) = Inr ph"
        by (rule 1(1) [OF vx parent ph prems(2-4)])
      with prems(1) vx False parent ph show ?thesis
        by (subst (asm) materializeHistory.simps, subst materializeHistory.simps) auto
    qed
  qed
qed

lemma rooted_fields [simp]:
  "cvID (rooted h v) = cvID v" "cvResponseAlias (rooted h v) = cvResponseAlias v"
  "cvHistoryParent (rooted h v) = []" "cvPortableMessages (rooted h v) = h"
  "cvPortableDelta (rooted h v) = []" "rooted g (rooted h v) = rooted g v"
  by (simp_all add: rooted_def)

lemma rooted_eq_fields:
  "rooted [] v' = rooted [] v \<Longrightarrow> cvID v' = cvID v \<and> cvResponseAlias v' = cvResponseAlias v
     \<and> cvAccountID v' = cvAccountID v \<and> cvUpdatedAt v' = cvUpdatedAt v \<and> cvAliasGroup v' = cvAliasGroup v
     \<and> cvConversationID v' = cvConversationID v \<and> cvSessionID v' = cvSessionID v \<and> cvCreatedAt v' = cvCreatedAt v
     \<and> cvRouteGeneration v' = cvRouteGeneration v \<and> cvTitle v' = cvTitle v"
  by (cases v; cases v') (simp add: rooted_def)

lemma rooted_thins:
  assumes ok: "sessionsOK sp d" and k: "map_of d k = Some v" and h: "materializeHistory sp d [] k = Inr h"
  shows "thins sp d (AList.update k (rooted h v) d)"
proof -
  let ?d = "AList.update k (rooted h v) d"
  from sessionsOK_history [OF ok k] h have b: "boundedHistory sp h" by force
  then have same: "materializeHistory sp ?d [] x = Inr g" if "materializeHistory sp d [] x = Inr g" for x g
    by (intro rooted_history [OF k h _ that]) (simp add: boundedHistory_def)
  have old: "\<exists>v. map_of d x = Some v \<and> rooted [] v' = rooted [] v
      \<and> (cvHistoryParent v' = [] \<or> cvHistoryParent v' = cvHistoryParent v)" if "map_of ?d x = Some v'" for x v'
  proof (cases "x = k")
    case True
    with that k show ?thesis by auto
  next
    case False
    with that show ?thesis by simp
  qed
  have mat: "materializeHistory sp ?d [] x = materializeHistory sp d [] x" if "map_of ?d x = Some v'" for x v'
  proof -
    from old [OF that] obtain w where "map_of d x = Some w" by blast
    then obtain g where "materializeHistory sp d [] x = Inr g" using sessionsOK_history [OF ok] by metis
    with same show ?thesis by simp
  qed
  have "goodNode sp ?d x v'" if x: "map_of ?d x = Some v'" for x v'
  proof (cases "x = k")
    case True
    with x have v': "v' = rooted h v" by simp
    moreover have "goodNode sp d k v" using ok k by (rule sessionsOK_node)
    ultimately show ?thesis using True mat [OF x] b by (simp add: goodNode_def boundedHistory_def)
  next
    case False
    with x have "map_of d x = Some v'" by simp
    then have "goodNode sp d x v'" using ok by (intro sessionsOK_node)
    with mat [OF x] k show ?thesis by (auto simp: goodNode_def)
  qed
  with ok have "sessionsOK sp ?d" by (simp add: sessionsOK_def)
  with old mat show ?thesis by (simp add: thins_def)
qed

lemma rebase:
  assumes "sessionsOK (sePrint env) d" and "distinct ks"
  shows "\<exists>d'. rebaseChildren env child ks d = (None, d') \<and> thins (sePrint env) d d' \<and> map fst d' = map fst d
    \<and> (\<forall>k \<in> set ks. \<forall>v. map_of d k = Some v \<longrightarrow> child k v \<longrightarrow> (\<exists>v'. map_of d' k = Some v' \<and> cvHistoryParent v' = []))
    \<and> (\<forall>k. k \<notin> set ks \<longrightarrow> map_of d' k = map_of d k)"
  using assms
proof (induction ks arbitrary: d)
  case Nil
  then show ?case by (simp add: thins_refl)
next
  case (Cons k ks)
  show ?case
  proof (cases "\<exists>v. map_of d k = Some v \<and> child k v")
    case False
    then have "rebaseChildren env child (k # ks) d = rebaseChildren env child ks d" by (auto split: option.splits)
    moreover from Cons.prems Cons.IH obtain d' where
      "rebaseChildren env child ks d = (None, d')" "thins (sePrint env) d d'" "map fst d' = map fst d"
      "\<forall>k \<in> set ks. \<forall>v. map_of d k = Some v \<longrightarrow> child k v \<longrightarrow> (\<exists>v'. map_of d' k = Some v' \<and> cvHistoryParent v' = [])"
      "\<forall>k. k \<notin> set ks \<longrightarrow> map_of d' k = map_of d k" by fastforce
    ultimately show ?thesis using False by auto
  next
    case True
    then obtain v where v: "map_of d k = Some v" "child k v" by blast
    obtain h where h: "materializeHistory (sePrint env) d [] k = Inr h"
      using sessionsOK_history [OF Cons.prems(1) v(1)] by metis
    let ?d = "AList.update k (rooted h v) d"
    have t: "thins (sePrint env) d ?d" using Cons.prems(1) v(1) h by (rule rooted_thins)
    have step: "rebaseChildren env child (k # ks) d = rebaseChildren env child ks ?d" using v h by simp
    have keys: "map fst ?d = map fst d" using v(1) by (simp add: update_keys key_of_Some)
    from Cons.prems(2) have k: "k \<notin> set ks" "distinct ks" by simp_all
    from Cons.IH [OF thins_OK [OF t] k(2)] obtain d' where d':
      "rebaseChildren env child ks ?d = (None, d')" "thins (sePrint env) ?d d'" "map fst d' = map fst ?d"
      "\<forall>j \<in> set ks. \<forall>v. map_of ?d j = Some v \<longrightarrow> child j v \<longrightarrow> (\<exists>v'. map_of d' j = Some v' \<and> cvHistoryParent v' = [])"
      "\<forall>j. j \<notin> set ks \<longrightarrow> map_of d' j = map_of ?d j" by blast
    have "\<forall>j \<in> set (k # ks). \<forall>u. map_of d j = Some u \<longrightarrow> child j u \<longrightarrow> (\<exists>v'. map_of d' j = Some v' \<and> cvHistoryParent v' = [])"
    proof (intro ballI allI impI)
      fix j u assume j: "j \<in> set (k # ks)" "map_of d j = Some u" "child j u"
      show "\<exists>v'. map_of d' j = Some v' \<and> cvHistoryParent v' = []"
      proof (cases "j = k")
        case True
        with d'(5) k show ?thesis by simp
      next
        case False
        with j d'(4) show ?thesis by simp
      qed
    qed
    moreover have "\<forall>j. j \<notin> set (k # ks) \<longrightarrow> map_of d' j = map_of d j" using d'(5) by simp
    ultimately show ?thesis using step d'(1,3) thins_trans [OF t d'(2)] keys by metis
  qed
qed

subsection \<open>Removing\<close>

lemma chain_closed:
  "chain d x y \<Longrightarrow> P x \<Longrightarrow>
   (\<And>k v. map_of d k = Some v \<Longrightarrow> P k \<Longrightarrow> cvHistoryParent v \<noteq> [] \<Longrightarrow> P (cvHistoryParent v)) \<Longrightarrow> P y"
  by (induction rule: chain.induct) blast+

lemma filter_thins:
  assumes ok: "sessionsOK sp d"
    and closed: "\<And>k v. map_of d k = Some v \<Longrightarrow> P k \<Longrightarrow> cvHistoryParent v \<noteq> [] \<Longrightarrow> P (cvHistoryParent v)"
  shows "thins sp d (filter (\<lambda>(k, _). P k) d)"
proof -
  let ?d = "filter (\<lambda>(k, _). P k) d"
  have wf: "wf_map d" using ok by (simp add: sessionsOK_def)
  have look: "map_of ?d k = (if P k then map_of d k else None)" for k
    by (simp add: map_of_filter_wf [OF wf] split: option.splits)
  have mat: "materializeHistory sp ?d [] k = materializeHistory sp d [] k" if k: "map_of ?d k = Some v" for k v
  proof -
    from k look have P: "P k" and "map_of d k = Some v" by (auto split: if_splits)
    then obtain h where h: "materializeHistory sp d [] k = Inr h" using sessionsOK_history [OF ok] by metis
    have "materializeHistory sp ?d [] k = Inr h"
      by (rule history_frame [OF h]) (use chain_closed [of d k _ P] P closed look in auto)
    with h show ?thesis by simp
  qed
  have good: "goodNode sp ?d k v" if k: "map_of ?d k = Some v" for k v
  proof -
    from k look have P: "P k" and v: "map_of d k = Some v" by (auto split: if_splits)
    from sessionsOK_node [OF ok v] mat [OF k] closed [OF v P] look show ?thesis
      by (auto simp: goodNode_def)
  qed
  have "wf_map ?d" using wf by (rule wf_map_filter)
  with good have "sessionsOK sp ?d" by (simp add: sessionsOK_def)
  with mat look show ?thesis by (auto simp: thins_def split: if_splits)
qed

lemma rebase_filter:
  assumes ok: "sessionsOK (sePrint env) d"
    and child: "\<And>k v. \<not> R k \<Longrightarrow> cvHistoryParent v \<noteq> [] \<Longrightarrow> R (cvHistoryParent v) \<Longrightarrow> child k v"
  obtains d' where "rebaseChildren env child (map fst d) d = (None, d')" and "map fst d' = map fst d"
    and "thins (sePrint env) d (filter (\<lambda>(k, _). \<not> R k) d')"
proof -
  have "distinct (map fst d)" using ok by (simp add: sessionsOK_def)
  from rebase [OF ok this, of child] obtain d' where d': "rebaseChildren env child (map fst d) d = (None, d')"
    "thins (sePrint env) d d'" "map fst d' = map fst d"
    and rooted: "\<forall>k \<in> set (map fst d). \<forall>v. map_of d k = Some v \<longrightarrow> child k v \<longrightarrow>
      (\<exists>v'. map_of d' k = Some v' \<and> cvHistoryParent v' = [])" by blast
  have "thins (sePrint env) d' (filter (\<lambda>(k, _). \<not> R k) d')"
  proof (rule filter_thins [OF thins_OK [OF d'(2)], where P = "\<lambda>k. \<not> R k"])
    fix k v' assume v': "map_of d' k = Some v'" "\<not> R k" "cvHistoryParent v' \<noteq> []"
    from thins_node [OF d'(2) v'(1)] obtain v where v: "map_of d k = Some v"
      "cvHistoryParent v' = [] \<or> cvHistoryParent v' = cvHistoryParent v" by metis
    show "\<not> R (cvHistoryParent v')"
    proof
      assume "R (cvHistoryParent v')"
      with v(2) v'(2,3) have "child k v" by (intro child) auto
      moreover have "k \<in> set (map fst d)" using key_of_Some [OF v(1)] by simp
      ultimately obtain u where "map_of d' k = Some u" "cvHistoryParent u = []" using rooted v(1) by blast
      with v'(1,3) show False by simp
    qed
  qed
  with d' thins_trans that show ?thesis by blast
qed

lemma delete_filter: "AList.delete k m = filter (\<lambda>(k', _). \<not> k' = k) m"
  by (simp add: AList.delete_eq case_prod_beta eq_commute)

lemma deleteWithRebase_thins:
  assumes "sessionsOK (sePrint env) d"
  obtains d' where "deleteWithRebase env k d = (None, d')" and "thins (sePrint env) d d'"
    and "map fst d' = filter (\<lambda>k'. k' \<noteq> k) (map fst d)"
proof (cases "map_of d k")
  case None
  then have "deleteWithRebase env k d = (None, d)" by (simp add: deleteWithRebase_def)
  moreover have "filter (\<lambda>k'. k' \<noteq> k) (map fst d) = map fst d"
    using None by (auto simp: filter_id_conv map_of_eq_None_iff)
  ultimately show ?thesis using that thins_refl [OF assms] by simp
next
  case (Some v)
  obtain d' where d': "rebaseChildren env (\<lambda>_ v. cvHistoryParent v = k) (map fst d) d = (None, d')"
    "map fst d' = map fst d" "thins (sePrint env) d (filter (\<lambda>(k', _). \<not> k' = k) d')"
    by (rule rebase_filter [OF assms, of "\<lambda>k'. k' = k" "\<lambda>_ v. cvHistoryParent v = k"]) simp_all
  have "deleteWithRebase env k d = (None, AList.delete k d')" using Some d'(1) by (simp add: deleteWithRebase_def)
  moreover have "map fst (AList.delete k d') = filter (\<lambda>k'. k' \<noteq> k) (map fst d)"
    by (simp add: delete_filter filter_map comp_def case_prod_unfold flip: d'(2))
  ultimately show ?thesis using that d'(3) unfolding delete_filter by blast
qed

subsection \<open>Pruning thins\<close>

lemma evict_thins: "sessionsOK (sePrint env) d \<Longrightarrow> thins (sePrint env) d (evict env pins k d)"
  by (rule deleteWithRebase_thins [of env d k]) (auto simp: evict_def thins_refl)

lemma pruneExpired_thins: "sessionsOK (sePrint env) d \<Longrightarrow> thins (sePrint env) d (pruneExpired env now pins d)"
  unfolding pruneExpired_def by (rule fold_thins) (auto simp: thins_refl evict_thins split: prod.splits)

lemma pruneAliases_thins: "sessionsOK (sePrint env) d \<Longrightarrow> thins (sePrint env) d (pruneAliases env pins d)"
  unfolding pruneAliases_def
  by (rule fold_thins) (auto simp: thins_refl intro!: fold_thins evict_thins split: prod.splits)

lemma pruneCount_thins: "sessionsOK (sePrint env) d \<Longrightarrow> thins (sePrint env) d (pruneCount env pins d)"
  unfolding pruneCount_def by (auto simp: thins_refl intro!: fold_thins evict_thins)

lemma pruneBytesLoop_thins:
  "sessionsOK (sePrint env) d \<Longrightarrow> thins (sePrint env) d (pruneBytesLoop env pins items remaining d)"
proof (induction items arbitrary: remaining d)
  case Nil
  then show ?case by (simp add: thins_refl)
next
  case (Cons v items)
  show ?case
  proof (cases "pinnedDependency pins d (cvID v)")
    case True
    with Cons show ?thesis by simp
  next
    case False
    obtain d' where d': "deleteWithRebase env (cvID v) d = (None, d')" "thins (sePrint env) d d'"
      using deleteWithRebase_thins [OF Cons.prems] by metis
    have "thins (sePrint env) d' (pruneBytesLoop env pins items r d')" for r
      by (rule Cons.IH [OF thins_OK [OF d'(2)]])
    with False d' show ?thesis by (auto simp: Let_def intro: thins_trans)
  qed
qed

lemma pruneSerializedBytes_thins:
  "sessionsOK (sePrint env) d \<Longrightarrow> thins (sePrint env) d (pruneSerializedBytes env pins d)"
  by (simp add: pruneSerializedBytes_def thins_refl pruneBytesLoop_thins)

lemma pruneSessions_thins:
  assumes "sessionsOK (sePrint env) d"
  shows "thins (sePrint env) d (pruneSessions env now pins d)"
proof -
  note e = pruneExpired_thins [OF assms, of now pins]
  note a = pruneAliases_thins [OF thins_OK [OF e], of pins]
  note c = pruneCount_thins [OF thins_OK [OF a], of pins]
  note b = pruneSerializedBytes_thins [OF thins_OK [OF c], of pins]
  show ?thesis unfolding pruneSessions_def by (rule thins_trans [OF thins_trans [OF thins_trans [OF e a] c] b])
qed

lemma preparePersist_thins: "sessionsOK (sePrint env) d \<Longrightarrow> thins (sePrint env) d (preparePersist env now pins d)"
  by (simp add: preparePersist_def thins_refl pruneSessions_thins)

subsection \<open>Committing a response\<close>

text \<open>The specification of the history a response is committed with.\<close>

definition historyOr :: "(json \<Rightarrow> string) \<Rightarrow> conversations \<Rightarrow> string \<Rightarrow> oaiMsg list" where
  "historyOr sp d x = (case materializeHistory sp d [] x of Inr h \<Rightarrow> h | Inl _ \<Rightarrow> [])"

definition committedHistory ::
  "(json \<Rightarrow> string) \<Rightarrow> conversations \<Rightarrow> string \<Rightarrow> string \<Rightarrow> oaiMsg list \<Rightarrow> oaiMsg \<Rightarrow> oaiMsg list" where
  "committedHistory sp d sourceID targetID request assistant =
     (let base = (if map_of d targetID = None then historyOr sp d sourceID
                  else if sourceID = targetID then historyOr sp d targetID
                  else mergePortableMessages sp (historyOr sp d sourceID) (historyOr sp d targetID))
      in boundedPortableMessages sp (mergePortableMessages sp base request @ [assistant]))"

lemma historyOr_bounded:
  assumes "sessionsOK sp d"
  shows "boundedHistory sp (historyOr sp d x)"
proof (cases "map_of d x")
  case None
  then have "materializeHistory sp d [] x = Inl SessNotExist" by (subst materializeHistory.simps) simp
  then show ?thesis by (simp add: historyOr_def)
next
  case (Some v)
  show ?thesis by (rule sessionsOK_history [OF assms Some]) (simp add: historyOr_def)
qed

lemma bounded_tames: "boundedHistory sp h \<Longrightarrow> tames sp h"
  by (simp add: boundedHistory_def wfMsg_tame)

lemma historyOr_eq: "sessionsOK sp d \<Longrightarrow> map_of d x = Some v \<Longrightarrow> materializeHistory sp d [] x = Inr (historyOr sp d x)"
  unfolding historyOr_def by (metis sessionsOK_history sum.simps(6))

lemma historyOr_None: "map_of d x = None \<Longrightarrow> historyOr sp d x = []"
  by (subst historyOr_def, subst materializeHistory.simps) simp

lemma commitHistory_eq:
  assumes "sessionsOK (sePrint env) d"
  shows "commitHistory env d sourceID targetID request assistant =
    Inr (committedHistory (sePrint env) d sourceID targetID request assistant)"
  using historyOr_eq [OF assms, of sourceID] historyOr_eq [OF assms, of targetID] historyOr_None
  by (cases "map_of d sourceID"; cases "map_of d targetID")
     (auto simp: commitHistory_def committedHistory_def Let_def)

lemma committedHistory_bounded:
  assumes ok: "sessionsOK sp d" and "tames sp request" and "tame sp assistant"
  shows "boundedHistory sp (committedHistory sp d sourceID targetID request assistant)"
proof -
  note t = bounded_tames [OF historyOr_bounded [OF ok]]
  note m = bounded_tames [OF merge_bounded [OF t t]]
  have "boundedHistory sp (mergePortableMessages sp base request)" if "tames sp base" for base
    using that assms(2) by (rule merge_bounded)
  then have "boundedHistory sp (boundedPortableMessages sp (mergePortableMessages sp base request @ [assistant]))"
    if "tames sp base" for base
    using bounded_tames assms(3) that by (intro bounded_tame) auto
  then show ?thesis using t m by (simp add: committedHistory_def Let_def)
qed

lemma applyTransition_none:
  "boundedHistory sp h \<Longrightarrow> applyTransition sp h 0 [] = h"
  using clone_wf [of h sp] by (simp add: applyTransition_def boundedHistory_def clonePortableMessages_def)

text \<open>The conversation of the target, before and after its history is encoded.\<close>

lemma commitTarget_ID:
  assumes "sessionsOK sp d" and "commitTarget sourceID targetID (map_of d sourceID) (map_of d targetID) = Some t"
  shows "cvID t = targetID"
  using assms(2) sessionsOK_node [OF assms(1), of targetID]
  by (auto simp: commitTarget_def goodNode_def split: option.splits if_splits)

lemma commitGroup_fields:
  "cvID (commitGroup sourceID targetID source t) = cvID t"
  "targetID \<noteq> sourceID \<Longrightarrow> cvResponseAlias (commitGroup sourceID targetID source t)"
  by (simp_all add: commitGroup_def)

text \<open>The parent of a new response is a response snapshot other than the target.\<close>

lemma commitParent_alias:
  assumes ok: "sessionsOK sp d" and fresh: "\<And>v. map_of d targetID = Some v \<Longrightarrow> \<not> cvResponseAlias v"
    and p: "commitParent sourceID targetID (map_of d sourceID) = p" "p \<noteq> []"
  obtains v where "map_of d p = Some v" and "cvResponseAlias v" and "p \<noteq> targetID"
proof -
  from p obtain s where s: "map_of d sourceID = Some s" "sourceID \<noteq> targetID" "p = immutableParent sourceID s"
    by (auto simp: commitParent_def split: option.splits if_splits)
  show ?thesis
  proof (cases "cvResponseAlias s")
    case True
    with s that show ?thesis by (simp add: immutableParent_def)
  next
    case False
    with s p have "p = cvHistoryParent s" by (auto simp: immutableParent_def split: if_splits)
    with sessionsOK_node [OF ok s(1)] p obtain v where "map_of d p = Some v" "cvResponseAlias v"
      by (auto simp: goodNode_def)
    with fresh that show ?thesis by blast
  qed
qed

lemma commitNode_law:
  assumes ok: "sessionsOK (sePrint env) d" and h: "boundedHistory (sePrint env) history"
    and p: "p = [] \<or> map_of d p \<noteq> None"
  obtains t' where "commitNode env d p history t = Inr t'" and "nodeHistory (sePrint env) d t' history"
    and "cvHistoryParent t' = p" and "cvID t' = cvID t" and "cvResponseAlias t' = cvResponseAlias t"
    and "wfMsgs (sePrint env) (cvPortableMessages t')" and "wfMsgs (sePrint env) (cvPortableDelta t')"
    and "rooted [] t' = rooted [] t"
proof (cases "p = []")
  case True
  have "nodeHistory (sePrint env) d (rooted history t) history"
    using h by (simp add: nodeHistory_def boundedHistory_def)
  with True h that show ?thesis by (simp add: commitNode_def boundedHistory_def)
next
  case False
  with p obtain v where "map_of d p = Some v" by blast
  with ok obtain ph where ph: "materializeHistory (sePrint env) d [] p = Inr ph" "boundedHistory (sePrint env) ph"
    using sessionsOK_history by metis
  obtain n delta where tr: "portableTransition (sePrint env) ph history = (n, delta)" by force
  from transition_exact [OF ph(2) h tr] have exact: "n \<le> length ph"
    "applyTransition (sePrint env) ph n delta = history" "wfMsgs (sePrint env) delta" by auto
  let ?t = "t\<lparr>cvPortableMessages := [], cvHistoryParent := p, cvHistoryDrop := int n, cvPortableDelta := delta\<rparr>"
  have "commitNode env d p history t = Inr ?t" using False ph(1) tr by (simp add: commitNode_def)
  moreover have "nodeHistory (sePrint env) d ?t history" using False ph(1) exact by (simp add: nodeHistory_def)
  moreover have "rooted [] ?t = rooted [] t" by (cases t) (simp add: rooted_def)
  ultimately show ?thesis using that exact(3) by simp
qed

text \<open>The store behind a commit that has no error.\<close>

definition advances :: "string \<Rightarrow> string \<Rightarrow> bool \<Rightarrow> bool" where
  "advances sourceID targetID advanceSource \<longleftrightarrow> advanceSource \<and> sourceID \<noteq> [] \<and> sourceID \<noteq> targetID"

definition snapshotsFree :: "conversations \<Rightarrow> string \<Rightarrow> string \<Rightarrow> bool \<Rightarrow> bool" where
  "snapshotsFree d sourceID targetID advanceSource \<longleftrightarrow>
     (\<forall>v. map_of d targetID = Some v \<longrightarrow> \<not> cvResponseAlias v)
   \<and> (advances sourceID targetID advanceSource \<longrightarrow> (\<forall>v. map_of d sourceID = Some v \<longrightarrow> \<not> cvResponseAlias v))"

lemma commitData_cases:
  assumes ok: "sessionsOK (sePrint env) d" and d': "commitData env now sourceID targetID request assistant advanceSource d = Inr d'"
  obtains t n where "commitTarget sourceID targetID (map_of d sourceID) (map_of d targetID) = Some t"
    and "commitNode env d (commitParent sourceID targetID (map_of d sourceID))
           (committedHistory (sePrint env) d sourceID targetID request assistant)
           (commitGroup sourceID targetID (map_of d sourceID) (t\<lparr>cvUpdatedAt := now\<rparr>)) = Inr n"
    and "d' = (if advances sourceID targetID advanceSource
               then AList.update sourceID (commitHead sourceID targetID (map_of d sourceID) n) (AList.update targetID n d)
               else AList.update targetID n d)"
  using d' commitHistory_eq [OF ok, of sourceID targetID request assistant] that
  by (auto simp: commitData_def advances_def Let_def split: if_splits option.splits sum.splits)

lemma commitHead_fields [simp]:
  "cvID (commitHead s t v n) = s" "cvPortableMessages (commitHead s t v n) = []"
  "cvPortableDelta (commitHead s t v n) = []" "cvHistoryParent (commitHead s t v n) = t"
  "cvHistoryDrop (commitHead s t v n) = 0" "cvResponseAlias (commitHead s t v n) = False"
  by (simp_all add: commitHead_def)

lemma commitHead_law:
  fixes n :: conversation and src :: "conversation option"
  assumes ok: "sessionsOK sp d" and t: "map_of d t = Some v" "cvResponseAlias v" "t \<noteq> []" "s \<noteq> t"
    and h: "materializeHistory sp d [] t = Inr h" and s: "\<And>v. map_of d s = Some v \<Longrightarrow> \<not> cvResponseAlias v"
  defines "d' \<equiv> AList.update s (commitHead s t src n) d"
  shows "sessionsOK sp d'" and "materializeHistory sp d' [] s = Inr h"
    and "map_of d x = Some y \<Longrightarrow> x \<noteq> s \<Longrightarrow> materializeHistory sp d' [] x = materializeHistory sp d [] x"
proof -
  have b: "boundedHistory sp h" using sessionsOK_history [OF ok t(1)] h by (metis sum.inject(2))
  have node: "nodeHistory sp d (commitHead s t src n) h"
    using t h b by (simp add: nodeHistory_def applyTransition_none)
  have np: "notParent d s" by (rule not_alias_notParent [OF ok s])
  have par: "cvHistoryParent (commitHead s t src n) \<noteq> s
      \<and> (\<exists>p. map_of d (cvHistoryParent (commitHead s t src n)) = Some p \<and> cvResponseAlias p)"
    using t by auto
  note w = update_sessions [OF ok np node b, simplified, OF par [simplified], folded d'_def]
  show "sessionsOK sp d'" and "materializeHistory sp d' [] s = Inr h"
    and "map_of d x = Some y \<Longrightarrow> x \<noteq> s \<Longrightarrow> materializeHistory sp d' [] x = materializeHistory sp d [] x"
    using w by blast+
qed

lemma commitData_law:
  assumes ok: "sessionsOK (sePrint env) d" and tame: "tames (sePrint env) request" "tame (sePrint env) assistant"
    and free: "snapshotsFree d sourceID targetID advanceSource" and target: "targetID \<noteq> []"
    and d': "commitData env now sourceID targetID request assistant advanceSource d = Inr d'"
  defines "h \<equiv> committedHistory (sePrint env) d sourceID targetID request assistant"
  shows "sessionsOK (sePrint env) d'"
    and "materializeHistory (sePrint env) d' [] targetID = Inr h"
    and "advances sourceID targetID advanceSource \<Longrightarrow> materializeHistory (sePrint env) d' [] sourceID = Inr h"
    and "map_of d x = Some v \<Longrightarrow> x \<noteq> targetID \<Longrightarrow> \<not> (advances sourceID targetID advanceSource \<and> x = sourceID) \<Longrightarrow>
      map_of d' x = Some v \<and> materializeHistory (sePrint env) d' [] x = materializeHistory (sePrint env) d [] x"
    and "\<exists>v. map_of d' targetID = Some v \<and> (sourceID \<noteq> targetID \<longrightarrow> cvResponseAlias v)"
proof -
  let ?sp = "sePrint env" and ?p = "commitParent sourceID targetID (map_of d sourceID)"
  have h: "boundedHistory ?sp h" unfolding h_def by (rule committedHistory_bounded [OF ok tame])
  obtain t n where t: "commitTarget sourceID targetID (map_of d sourceID) (map_of d targetID) = Some t"
    and n: "commitNode env d ?p h (commitGroup sourceID targetID (map_of d sourceID) (t\<lparr>cvUpdatedAt := now\<rparr>)) = Inr n"
    and eq: "d' = (if advances sourceID targetID advanceSource
               then AList.update sourceID (commitHead sourceID targetID (map_of d sourceID) n) (AList.update targetID n d)
               else AList.update targetID n d)"
    using commitData_cases [OF ok d'] unfolding h_def by blast
  have fresh: "\<not> cvResponseAlias v" if "map_of d targetID = Some v" for v
    using free that by (simp add: snapshotsFree_def)
  have p: "\<exists>v. map_of d ?p = Some v \<and> cvResponseAlias v \<and> ?p \<noteq> targetID" if "?p \<noteq> []"
    using commitParent_alias [OF ok fresh refl that] by blast
  have "?p = [] \<or> map_of d ?p \<noteq> None" using p by auto
  then obtain n' where "commitNode env d ?p h (commitGroup sourceID targetID (map_of d sourceID) (t\<lparr>cvUpdatedAt := now\<rparr>)) = Inr n'"
    and n': "nodeHistory ?sp d n' h" "cvHistoryParent n' = ?p"
      "cvID n' = cvID (commitGroup sourceID targetID (map_of d sourceID) (t\<lparr>cvUpdatedAt := now\<rparr>))"
      "cvResponseAlias n' = cvResponseAlias (commitGroup sourceID targetID (map_of d sourceID) (t\<lparr>cvUpdatedAt := now\<rparr>))"
      "wfMsgs ?sp (cvPortableMessages n')" "wfMsgs ?sp (cvPortableDelta n')"
    by (rule commitNode_law [OF ok h])
  with n have n_eq: "n' = n" by simp
  have np: "notParent d targetID" by (rule not_alias_notParent [OF ok fresh])
  have nID: "cvID n = targetID" using n'(3) commitTarget_ID [OF ok t] by (simp add: n_eq commitGroup_fields)
  have nAlias: "sourceID \<noteq> targetID \<Longrightarrow> cvResponseAlias n" using n'(4) by (simp add: n_eq commitGroup_fields)
  have par: "cvHistoryParent n \<noteq> [] \<Longrightarrow> cvHistoryParent n \<noteq> targetID
      \<and> (\<exists>p. map_of d (cvHistoryParent n) = Some p \<and> cvResponseAlias p)"
    using n'(2) p by (auto simp: n_eq)
  let ?d = "AList.update targetID n d"
  have u: "sessionsOK ?sp ?d" "materializeHistory ?sp ?d [] targetID = Inr h"
    "map_of d x = Some y \<Longrightarrow> x \<noteq> targetID \<Longrightarrow>
      materializeHistory ?sp ?d [] x = materializeHistory ?sp d [] x" for x y
    using update_sessions [OF ok np n'(1) [unfolded n_eq] h nID n'(5,6) [unfolded n_eq]] par by blast+
  show "\<exists>v. map_of d' targetID = Some v \<and> (sourceID \<noteq> targetID \<longrightarrow> cvResponseAlias v)"
    using nAlias by (auto simp: eq advances_def)
  have goal: "sessionsOK ?sp d' \<and> materializeHistory ?sp d' [] targetID = Inr h
    \<and> (advances sourceID targetID advanceSource \<longrightarrow> materializeHistory ?sp d' [] sourceID = Inr h)
    \<and> (\<forall>x v. map_of d x = Some v \<longrightarrow> x \<noteq> targetID \<longrightarrow> \<not> (advances sourceID targetID advanceSource \<and> x = sourceID) \<longrightarrow>
      map_of d' x = Some v \<and> materializeHistory ?sp d' [] x = materializeHistory ?sp d [] x)"
  proof (cases "advances sourceID targetID advanceSource")
    case False
    with u eq show ?thesis by auto
  next
    case True
    then have ne: "sourceID \<noteq> targetID" by (simp add: advances_def)
    let ?head = "commitHead sourceID targetID (map_of d sourceID) n"
    have "\<not> cvResponseAlias v" if "map_of ?d sourceID = Some v" for v
      using free True ne that by (auto simp: snapshotsFree_def)
    with ne nAlias target u(2) have w: "sessionsOK ?sp (AList.update sourceID ?head ?d)"
      "materializeHistory ?sp (AList.update sourceID ?head ?d) [] sourceID = Inr h"
      "map_of ?d x = Some y \<Longrightarrow> x \<noteq> sourceID \<Longrightarrow>
        materializeHistory ?sp (AList.update sourceID ?head ?d) [] x = materializeHistory ?sp ?d [] x" for x y
      by (intro commitHead_law [OF u(1), of targetID n]; simp)+
    have d': "d' = AList.update sourceID ?head ?d" using eq True by simp
    have same: "materializeHistory ?sp d' [] x = materializeHistory ?sp d [] x"
      if "map_of d x = Some v" "x \<noteq> targetID" "x \<noteq> sourceID" for x v
      using w(3) [of x v] u(3) [OF that(1,2)] that unfolding d' by simp
    have "materializeHistory ?sp d' [] targetID = materializeHistory ?sp ?d [] targetID"
      unfolding d' using w(3) [of targetID n] ne by simp
    with w(1,2) u(2) same True show ?thesis unfolding d' by auto
  qed
  then show "sessionsOK ?sp d'" and "materializeHistory ?sp d' [] targetID = Inr h"
    and "advances sourceID targetID advanceSource \<Longrightarrow> materializeHistory ?sp d' [] sourceID = Inr h"
    and "map_of d x = Some v \<Longrightarrow> x \<noteq> targetID \<Longrightarrow> \<not> (advances sourceID targetID advanceSource \<and> x = sourceID) \<Longrightarrow>
      map_of d' x = Some v \<and> materializeHistory ?sp d' [] x = materializeHistory ?sp d [] x"
    by blast+
qed

end
