(* ===== verification/SessionSteps.thy ===== *)
theory SessionSteps
  imports SessionLaws
begin

text \<open>
  The operations of the session store as steps of a transition system: bindings, commits, deletions,
  pruning and pins. Every step keeps the invariant and memory equal to disk, and leaves the history
  of every surviving response snapshot alone.
\<close>

subsection \<open>Bindings\<close>

lemma complete_fields:
  "cvID (completeConversation env now prev v) = cvID v"
  "cvResponseAlias (completeConversation env now prev v) = cvResponseAlias v"
  "cvAccountID (completeConversation env now prev v) = cvAccountID v"
  "cvConversationID (completeConversation env now prev v) = cvConversationID v"
  "cvSessionID (completeConversation env now prev v) = cvSessionID v"
  "cvRouteGeneration (completeConversation env now prev v) = cvRouteGeneration v"
  by (simp_all add: completeConversation_def Let_def rooted_def split: option.splits)

lemma complete_keep:
  assumes "\<not> hasPortableState v" and "hasPortableState p"
  shows "cvPortableMessages (completeConversation env now (Some p) v) = clonePortableMessages (cvPortableMessages p)"
    and "cvHistoryParent (completeConversation env now (Some p) v) = cvHistoryParent p"
    and "cvHistoryDrop (completeConversation env now (Some p) v) = cvHistoryDrop p"
    and "cvPortableDelta (completeConversation env now (Some p) v) = clonePortableMessages (cvPortableDelta p)"
  using assms by (simp_all add: completeConversation_def Let_def hasPortableState_def)

lemma complete_root:
  assumes "cvHistoryParent v = []" and "hasPortableState v \<or> (\<forall>p. prev = Some p \<longrightarrow> \<not> hasPortableState p)"
  shows "cvPortableMessages (completeConversation env now prev v) =
      boundedPortableMessages (sePrint env) (cvPortableMessages v)"
    and "cvHistoryParent (completeConversation env now prev v) = []"
    and "cvPortableDelta (completeConversation env now prev v) = []"
  using assms by (auto simp: completeConversation_def Let_def hasPortableState_def rooted_def split: option.splits)

definition bindingHistory :: "(json \<Rightarrow> string) \<Rightarrow> conversations \<Rightarrow> conversation \<Rightarrow> oaiMsg list" where
  "bindingHistory sp d v =
     (if hasPortableState v then boundedPortableMessages sp (cvPortableMessages v) else historyOr sp d (cvID v))"

lemma bounded_Nil [simp]: "boundedPortableMessages sp [] = []"
  by (simp add: boundedPortableMessages_def List.map_filter_simps)

lemma stateless_history:
  assumes "map_of d k = Some p" and "\<not> hasPortableState p"
  shows "historyOr sp d k = []"
  using assms by (simp add: historyOr_def history_node [OF assms(1)] hasPortableState_def)

lemma binding_law:
  fixes now :: gotime
  assumes ok: "sessionsOK (sePrint env) d" and v: "cvHistoryParent v = []" "tames (sePrint env) (cvPortableMessages v)"
    and fresh: "\<And>c. map_of d (cvID v) = Some c \<Longrightarrow> \<not> cvResponseAlias c"
  defines "d' \<equiv> AList.update (cvID v) (completeConversation env now (map_of d (cvID v)) v) d"
  shows "sessionsOK (sePrint env) d'"
    and "materializeHistory (sePrint env) d' [] (cvID v) = Inr (bindingHistory (sePrint env) d v)"
    and "map_of d x = Some y \<Longrightarrow> x \<noteq> cvID v \<Longrightarrow>
      materializeHistory (sePrint env) d' [] x = materializeHistory (sePrint env) d [] x"
proof -
  let ?sp = "sePrint env" and ?n = "completeConversation env now (map_of d (cvID v)) v" and ?h = "bindingHistory (sePrint env) d v"
  have np: "notParent d (cvID v)" by (rule not_alias_notParent [OF ok fresh])
  have b: "boundedHistory ?sp ?h"
    using historyOr_bounded [OF ok] bounded_tame [OF v(2)] by (simp add: bindingHistory_def)
  have "nodeHistory ?sp d ?n ?h \<and> wfMsgs ?sp (cvPortableMessages ?n) \<and> wfMsgs ?sp (cvPortableDelta ?n)
      \<and> (cvHistoryParent ?n \<noteq> [] \<longrightarrow> cvHistoryParent ?n \<noteq> cvID v
          \<and> (\<exists>p. map_of d (cvHistoryParent ?n) = Some p \<and> cvResponseAlias p))"
  proof (cases "\<not> hasPortableState v \<and> (\<exists>p. map_of d (cvID v) = Some p \<and> hasPortableState p)")
    case True
    then obtain p where p: "map_of d (cvID v) = Some p" "hasPortableState p" "\<not> hasPortableState v" by blast
    have good: "goodNode ?sp d (cvID v) p" by (rule sessionsOK_node [OF ok p(1)])
    then have same: "cvPortableMessages ?n = cvPortableMessages p" "cvPortableDelta ?n = cvPortableDelta p"
      "cvHistoryParent ?n = cvHistoryParent p" "cvHistoryDrop ?n = cvHistoryDrop p"
      using complete_keep [OF p(3,2)] p(1) clone_wf by (auto simp: goodNode_def)
    have par: "cvHistoryParent p \<noteq> [] \<longrightarrow> cvHistoryParent p \<noteq> cvID v
          \<and> (\<exists>q. map_of d (cvHistoryParent p) = Some q \<and> cvResponseAlias q)"
      using good fresh by (auto simp: goodNode_def)
    have "?h = historyOr ?sp d (cvID v)" using p(3) by (simp add: bindingHistory_def)
    then have hist: "materializeHistory ?sp d [] (cvID v) = Inr ?h" using historyOr_eq [OF ok p(1)] by simp
    have "nodeHistory ?sp d p ?h" by (rule node_of_history [OF ok p(1) hist])
    then have "nodeHistory ?sp d ?n ?h" by (simp add: nodeHistory_def same)
    with good par same show ?thesis by (simp add: goodNode_def)
  next
    case False
    then have root: "hasPortableState v \<or> (\<forall>p. map_of d (cvID v) = Some p \<longrightarrow> \<not> hasPortableState p)" by blast
    note r = complete_root [OF v(1) root, where env = env and now = now]
    have "?h = boundedPortableMessages ?sp (cvPortableMessages v)"
    proof (cases "hasPortableState v")
      case False
      then have "cvPortableMessages v = []" by (simp add: hasPortableState_def)
      moreover have "historyOr ?sp d (cvID v) = []"
        using False root stateless_history historyOr_None by (cases "map_of d (cvID v)") auto
      ultimately show ?thesis using False by (simp add: bindingHistory_def)
    qed (simp add: bindingHistory_def)
    with b r show ?thesis by (simp add: nodeHistory_def boundedHistory_def)
  qed
  then show "sessionsOK ?sp d'"
    and "materializeHistory ?sp d' [] (cvID v) = Inr ?h"
    and "map_of d x = Some y \<Longrightarrow> x \<noteq> cvID v \<Longrightarrow>
      materializeHistory ?sp d' [] x = materializeHistory ?sp d [] x"
    unfolding d'_def using update_sessions [OF ok np _ b] complete_fields(1) by metis+
qed

subsection \<open>Memory and disk\<close>

lemma restore_one: "restoreConversation k (map_of m k) (AList.update k v m) = m"
  by (cases "map_of m k") (simp_all add: restoreConversation_def update_same delete_new)

lemma restore_two:
  "k \<noteq> j \<Longrightarrow>
   restoreConversation j (map_of m j) (restoreConversation k (map_of m k) (AList.update j w (AList.update k v m))) = m"
proof -
  assume kj: "k \<noteq> j"
  have "restoreConversation k (map_of m k) (AList.update j w (AList.update k v m))
      = AList.update j w (restoreConversation k (map_of m k) (AList.update k v m))"
    using kj by (cases "map_of m k") (simp_all add: restoreConversation_def update_commute delete_update)
  then show ?thesis by (simp add: restore_one)
qed

lemma restore_absent: "restoreConversation k (map_of m k) m = m"
  by (cases "map_of m k") (simp_all add: restoreConversation_def update_same delete_absent)

text \<open>The invariant of the store: the conversations are in order, and the file holds them.\<close>

definition storeInv :: "(json \<Rightarrow> string) \<Rightarrow> sessionStore \<Rightarrow> bool" where
  "storeInv sp s \<longleftrightarrow>
     sessionsOK sp (ssData s) \<and> insync ssData (\<lambda>s. contents (ssFile s)) [] s"

lemma storeInv_OK: "storeInv sp s \<Longrightarrow> sessionsOK sp (ssData s)"
  by (simp add: storeInv_def)

lemma persist_law:
  assumes inv: "storeInv (sePrint env) s" and d: "sessionsOK (sePrint env) d" and undo: "undo d = ssData s"
    and p: "persistSessions env now undo d s = (ok, s')"
  shows "storeInv (sePrint env) s' \<and> ssPins s' = ssPins s
    \<and> (if ok then thins (sePrint env) d (ssData s') else ssData s' = ssData s)"
proof -
  let ?p = "preparePersist env now (ssPins s) d"
  obtain b f where w: "writeFile ?p (ssFile s) = (b, f)" by force
  have t: "thins (sePrint env) d ?p" by (rule preparePersist_thins [OF d])
  show ?thesis
  proof (cases b)
    case True
    with p w have "ok" "s' = s\<lparr>ssData := ?p, ssFile := f\<rparr>" by (auto simp: persistSessions_def Let_def)
    moreover have "contents f = Some ?p" using w True by (auto dest: writeFile_ok)
    ultimately show ?thesis using t thins_OK [OF t] by (auto simp: storeInv_def insync_def)
  next
    case False
    with p w undo have "\<not> ok" "s' = s\<lparr>ssData := ssData s, ssFile := f\<rparr>" by (auto simp: persistSessions_def Let_def)
    moreover have "contents f = contents (ssFile s)" using w False by (auto dest: writeFile_fail)
    ultimately show ?thesis using inv by (auto simp: storeInv_def insync_def split: option.splits)
  qed
qed

lemma save_law:
  assumes inv: "storeInv sp s" and d: "sessionsOK sp d" and p: "saveSessions (ssData s) d s = (ok, s')"
  shows "storeInv sp s' \<and> ssPins s' = ssPins s \<and> ssData s' = (if ok then d else ssData s)"
  using p inv d
  by (cases "writeFile d (ssFile s)")
     (auto simp: saveSessions_def storeInv_def insync_def split: bool.splits option.splits dest!: writeFile_cases)

subsection \<open>What an operation keeps\<close>

text \<open>
  Apart from the names in W, a conversation of the new store was there before, with the same
  metadata and the same history.
\<close>

definition keepsOthers :: "(json \<Rightarrow> string) \<Rightarrow> string set \<Rightarrow> conversations \<Rightarrow> conversations \<Rightarrow> bool" where
  "keepsOthers sp W d d' \<longleftrightarrow>
     (\<forall>x v'. map_of d' x = Some v' \<longrightarrow> x \<notin> W \<longrightarrow>
        (\<exists>v. map_of d x = Some v \<and> rooted [] v' = rooted [] v)
        \<and> materializeHistory sp d' [] x = materializeHistory sp d [] x)"

lemma thins_keeps: "thins sp d d' \<Longrightarrow> keepsOthers sp W d d'"
  unfolding thins_def keepsOthers_def by blast

lemma keeps_refl [simp]: "keepsOthers sp W d d"
  by (simp add: keepsOthers_def)

lemma keeps_trans: "keepsOthers sp W d d' \<Longrightarrow> keepsOthers sp W d' d'' \<Longrightarrow> keepsOthers sp W d d''"
  unfolding keepsOthers_def by metis

lemma update_keeps:
  assumes "\<And>x. x \<notin> W \<Longrightarrow> map_of d' x = map_of d x"
    and "\<And>x y. map_of d x = Some y \<Longrightarrow> x \<notin> W \<Longrightarrow> materializeHistory sp d' [] x = materializeHistory sp d [] x"
  shows "keepsOthers sp W d d'"
  using assms unfolding keepsOthers_def by auto

text \<open>The law of an operation that changes some entries and writes the store.\<close>

lemma write_law:
  assumes "storeInv (sePrint env) s" and "sessionsOK (sePrint env) d" and "keepsOthers (sePrint env) W (ssData s) d"
    and "undo d = ssData s" and "persistSessions env now undo d s = (ok, s')"
  shows "storeInv (sePrint env) s' \<and> keepsOthers (sePrint env) W (ssData s) (ssData s')
    \<and> (if ok then thins (sePrint env) d (ssData s') else ssData s' = ssData s)"
  using persist_law [OF assms(1,2,4,5)] keeps_trans [OF assms(3)] thins_keeps by (auto split: if_splits)

subsection \<open>Bindings\<close>

definition bindingKey :: "sessionEnv \<Rightarrow> conversation \<Rightarrow> string" where
  "bindingKey env v = (if cvID v = [] then seUUID env else cvID v)"

text \<open>A binding as the gateway writes it: no parent, and its name is not that of a snapshot.\<close>

definition goodBinding :: "sessionEnv \<Rightarrow> conversation \<Rightarrow> conversations \<Rightarrow> bool" where
  "goodBinding env v d \<longleftrightarrow>
     cvHistoryParent v = [] \<and> validMsgs (sePrint env) (cvPortableMessages v)
   \<and> (\<forall>c. map_of d (bindingKey env v) = Some c \<longrightarrow> \<not> cvResponseAlias c)"

lemma upsert_cases:
  assumes "upsertSession env now v s = (r, s')"
  obtains (long) "r = Inl SessKeyTooLong" and "s' = s"
  | (written) w ok where "w = v\<lparr>cvID := bindingKey env v\<rparr>"
    and "persistSessions env now (restoreConversation (cvID w) (map_of (ssData s) (cvID w)))
           (AList.update (cvID w) (completeConversation env now (map_of (ssData s) (cvID w)) w) (ssData s)) s = (ok, s')"
    and "r = (if ok then Inr (storedConversation env (cvID w) s') else Inl SessWriteFailed)"
proof -
  let ?w = "v\<lparr>cvID := bindingKey env v\<rparr>"
  have w: "(if cvID v = [] then v\<lparr>cvID := seUUID env\<rparr> else v) = ?w" by (simp add: bindingKey_def)
  obtain ok t where p: "persistSessions env now (restoreConversation (cvID ?w) (map_of (ssData s) (cvID ?w)))
           (AList.update (cvID ?w) (completeConversation env now (map_of (ssData s) (cvID ?w)) ?w) (ssData s)) s = (ok, t)"
    by force
  show ?thesis
  proof (cases "length (cvID ?w) > maxSessionKeyLength")
    case True
    with assms w long show ?thesis by (simp add: upsertSession_def Let_def complete_fields)
  next
    case False
    with assms w p written [of ?w ok] show ?thesis
      by (cases ok) (auto simp: upsertSession_def Let_def complete_fields)
  qed
qed

lemma upsert_law:
  assumes inv: "storeInv (sePrint env) s" and v: "goodBinding env v (ssData s)"
    and u: "upsertSession env now v s = (r, s')"
  shows "storeInv (sePrint env) s' \<and> keepsOthers (sePrint env) {bindingKey env v} (ssData s) (ssData s')
    \<and> (case r of
         Inl e \<Rightarrow> ssData s' = ssData s
       | Inr c \<Rightarrow> \<forall>w. map_of (ssData s') (bindingKey env v) = Some w \<longrightarrow>
           materializeHistory (sePrint env) (ssData s') [] (bindingKey env v)
             = Inr (bindingHistory (sePrint env) (ssData s) (v\<lparr>cvID := bindingKey env v\<rparr>))
           \<and> cvAccountID w = cvAccountID v \<and> cvConversationID w = cvConversationID v
           \<and> cvSessionID w = cvSessionID v \<and> cvRouteGeneration w = cvRouteGeneration v)"
  using u
proof (cases rule: upsert_cases)
  case long
  with inv show ?thesis by simp
next
  case (written w ok)
  let ?d = "AList.update (cvID w) (completeConversation env now (map_of (ssData s) (cvID w)) w) (ssData s)"
  have w: "cvHistoryParent w = []" "tames (sePrint env) (cvPortableMessages w)" "cvID w = bindingKey env v"
    "\<And>c. map_of (ssData s) (cvID w) = Some c \<Longrightarrow> \<not> cvResponseAlias c"
    using v written(1) validMsg_tame by (auto simp: goodBinding_def)
  note b = binding_law [OF storeInv_OK [OF inv] w(1,2,4), where now = now]
  have k: "keepsOthers (sePrint env) {cvID w} (ssData s) ?d"
    by (rule update_keeps) (auto intro: b(3))
  have law: "storeInv (sePrint env) s' \<and> keepsOthers (sePrint env) {cvID w} (ssData s) (ssData s')
    \<and> (if ok then thins (sePrint env) ?d (ssData s') else ssData s' = ssData s)"
    by (rule write_law [OF inv b(1) k restore_one written(2)])
  have fields: "cvAccountID x = cvAccountID v \<and> cvConversationID x = cvConversationID v
      \<and> cvSessionID x = cvSessionID v \<and> cvRouteGeneration x = cvRouteGeneration v"
    if "map_of (ssData s') (cvID w) = Some x" ok for x
    using law that written(1) by (auto simp: complete_fields elim!: thins_node dest!: rooted_eq_fields)
  show ?thesis
  proof (cases ok)
    case True
    with law have t: "thins (sePrint env) ?d (ssData s')" by simp
    have "materializeHistory (sePrint env) (ssData s') [] (cvID w) = Inr (bindingHistory (sePrint env) (ssData s) w)"
      if "map_of (ssData s') (cvID w) = Some x" for x
      using thins_node [OF t that] b(2) by metis
    with law fields True written(1,3) w(3) show ?thesis by auto
  next
    case False
    with law written(3) w(3) show ?thesis by auto
  qed
qed

lemma upsertBinding_cases:
  assumes "upsertBinding env now v authoritative s = (r, s')"
  obtains (stale) c where "map_of (ssData s) (cvID v) = Some c" and "staleBinding v authoritative c"
      and "r = Inr (c, False)" and "s' = s"
  | (fresh) u where "\<forall>c. map_of (ssData s) (cvID v) = Some c \<longrightarrow> \<not> staleBinding v authoritative c"
      and "upsertSession env now v s = (u, s')" and "r = (case u of Inl e \<Rightarrow> Inl e | Inr c \<Rightarrow> Inr (c, True))"
proof (cases "\<exists>c. map_of (ssData s) (cvID v) = Some c \<and> staleBinding v authoritative c")
  case True
  then obtain c where c: "map_of (ssData s) (cvID v) = Some c" "staleBinding v authoritative c" by blast
  with assms have "r = Inr (c, False)" "s' = s" by (simp_all add: upsertBinding_def)
  with c show ?thesis by (rule stale)
next
  case False
  obtain u t where u: "upsertSession env now v s = (u, t)" by force
  with False assms have "s' = t" "r = (case u of Inl e \<Rightarrow> Inl e | Inr c \<Rightarrow> Inr (c, True))"
    by (auto simp: upsertBinding_def split: option.splits sum.splits if_splits)
  with False u show ?thesis by (intro fresh) auto
qed

lemma upsertBinding_law:
  assumes "storeInv (sePrint env) s" and "goodBinding env v (ssData s)"
    and "upsertBinding env now v authoritative s = (r, s')"
  shows "storeInv (sePrint env) s' \<and> keepsOthers (sePrint env) {bindingKey env v} (ssData s) (ssData s')"
  using assms(3)
proof (cases rule: upsertBinding_cases)
  case stale
  with assms(1) show ?thesis by simp
next
  case (fresh u)
  from upsert_law [OF assms(1,2) fresh(2)] show ?thesis by blast
qed

subsection \<open>Replacing a history\<close>

lemma updatePortable_law:
  assumes inv: "storeInv (sePrint env) s" and valid: "validMsgs (sePrint env) messages"
    and fresh: "\<And>c. map_of (ssData s) sid = Some c \<Longrightarrow> \<not> cvResponseAlias c"
    and u: "updatePortable env now sid messages s = (r, s')"
  shows "storeInv (sePrint env) s' \<and> keepsOthers (sePrint env) {sid} (ssData s) (ssData s')"
proof (cases "blank sid \<or> length sid > maxSessionKeyLength \<or> map_of (ssData s) sid = None")
  case True
  with u have "s' = s" by (auto simp: updatePortable_def split: if_splits)
  with inv show ?thesis by simp
next
  case False
  then obtain p where p: "map_of (ssData s) sid = Some p" by blast
  let ?h = "boundedPortableMessages (sePrint env) messages"
  let ?v = "(rooted ?h p)\<lparr>cvUpdatedAt := now\<rparr>"
  let ?d = "AList.update sid ?v (ssData s)"
  obtain ok where w: "persistSessions env now (AList.update sid p) ?d s = (ok, s')"
    using u p False by (auto simp: updatePortable_def Let_def split: prod.splits bool.splits)
  note OK = storeInv_OK [OF inv]
  have b: "boundedHistory (sePrint env) ?h" by (rule bounded_tame [OF validMsgs_tames [OF valid]])
  have f: "cvID ?v = sid" "cvHistoryParent ?v = []" "cvPortableMessages ?v = ?h" "cvPortableDelta ?v = []"
    using sessionsOK_node [OF OK p] by (simp_all add: rooted_def goodNode_def)
  have n: "nodeHistory (sePrint env) (ssData s) ?v ?h" using f b by (simp add: nodeHistory_def boundedHistory_def)
  note up = update_sessions [OF OK not_alias_notParent [OF OK fresh] n b f(1)]
  have d: "sessionsOK (sePrint env) ?d" by (rule up(1)) (use f b in \<open>simp_all add: boundedHistory_def\<close>)
  have k: "keepsOthers (sePrint env) {sid} (ssData s) ?d"
    by (rule update_keeps) (use up(3) f b in \<open>simp_all add: boundedHistory_def\<close>)
  from write_law [OF inv d k update_undo [OF p] w] show ?thesis by blast
qed

subsection \<open>Commits\<close>

lemma commitData_shape:
  assumes "commitData env now sourceID targetID request assistant advanceSource d = Inr d'"
  obtains n h where "d' = (if advances sourceID targetID advanceSource
    then AList.update sourceID h (AList.update targetID n d) else AList.update targetID n d)"
  using assms that
  by (auto simp: commitData_def advances_def Let_def split: if_splits option.splits sum.splits)

lemma commit_undo:
  assumes "commitData env now sourceID targetID request assistant advanceSource d = Inr d'"
  shows "(let r = restoreConversation targetID (map_of d targetID) d'
          in if sourceID \<noteq> targetID then restoreConversation sourceID (map_of d sourceID) r else r) = d"
proof -
  from assms obtain n h where d': "d' = (if advances sourceID targetID advanceSource
    then AList.update sourceID h (AList.update targetID n d) else AList.update targetID n d)"
    by (rule commitData_shape)
  show ?thesis
    using restore_one [of targetID d n] restore_absent [of sourceID d] restore_two [of targetID sourceID d h n]
    by (simp add: d' advances_def Let_def)
qed

lemma commit_cases:
  assumes "commitResponse env now sourceID targetID request assistant advanceSource s = (r, s')"
  obtains (refused) e where "r = Inl e" and "s' = s"
      and "blank targetID \<or> length targetID > maxSessionKeyLength
         \<or> commitData env now sourceID targetID request assistant advanceSource (ssData s) = Inl e"
  | (written) d undo ok where "\<not> blank targetID"
      and "commitData env now sourceID targetID request assistant advanceSource (ssData s) = Inr d"
      and "undo d = ssData s" and "persistSessions env now undo d s = (ok, s')"
      and "r = (if ok then Inr (storedConversation env targetID s') else Inl SessWriteFailed)"
proof (cases "blank targetID \<or> length targetID > maxSessionKeyLength")
  case True
  with assms refused show ?thesis by (auto simp: commitResponse_def)
next
  case False
  show ?thesis
  proof (cases "commitData env now sourceID targetID request assistant advanceSource (ssData s)")
    case (Inl e)
    with False assms refused show ?thesis by (auto simp: commitResponse_def)
  next
    case (Inr d)
    let ?undo = "\<lambda>d. let d = restoreConversation targetID (map_of (ssData s) targetID) d
                     in if sourceID \<noteq> targetID
                        then restoreConversation sourceID (map_of (ssData s) sourceID) d else d"
    obtain ok where p: "persistSessions env now ?undo d s = (ok, s')"
      "r = (if ok then Inr (storedConversation env targetID s') else Inl SessWriteFailed)"
      using assms False Inr unfolding commitResponse_def
      by (cases "persistSessions env now ?undo d s") (auto split: bool.splits)
    have "?undo d = ssData s" by (rule commit_undo [OF Inr])
    with False show ?thesis by (intro written [OF _ Inr _ p]) auto
  qed
qed

lemma commit_law:
  assumes inv: "storeInv (sePrint env) s" and valid: "validMsgs (sePrint env) request" "validMsg (sePrint env) assistant"
    and free: "snapshotsFree (ssData s) sourceID targetID advanceSource"
    and c: "commitResponse env now sourceID targetID request assistant advanceSource s = (r, s')"
  defines "h \<equiv> committedHistory (sePrint env) (ssData s) sourceID targetID request assistant"
    and "W \<equiv> {targetID} \<union> (if advances sourceID targetID advanceSource then {sourceID} else {})"
  shows "storeInv (sePrint env) s' \<and> keepsOthers (sePrint env) W (ssData s) (ssData s')
    \<and> (case r of
         Inl e \<Rightarrow> ssData s' = ssData s
       | Inr v \<Rightarrow> \<forall>x \<in> W. map_of (ssData s') x \<noteq> None \<longrightarrow>
           materializeHistory (sePrint env) (ssData s') [] x = Inr h)"
  using c
proof (cases rule: commit_cases)
  case (refused e)
  with inv show ?thesis by simp
next
  case (written d undo ok)
  then have target: "targetID \<noteq> []" by auto
  note law = commitData_law [OF storeInv_OK [OF inv] validMsgs_tames [OF valid(1)] validMsg_tame [OF valid(2)] free target written(2), folded h_def]
  from written(2) obtain n g where d: "d = (if advances sourceID targetID advanceSource
    then AList.update sourceID g (AList.update targetID n (ssData s)) else AList.update targetID n (ssData s))"
    by (rule commitData_shape)
  have k: "keepsOthers (sePrint env) W (ssData s) d"
  proof (rule update_keeps)
    show "map_of d x = map_of (ssData s) x" if "x \<notin> W" for x
      using that by (auto simp: d W_def)
    show "materializeHistory (sePrint env) d [] x = materializeHistory (sePrint env) (ssData s) [] x"
      if "map_of (ssData s) x = Some y" "x \<notin> W" for x y
      using law(4) [OF that(1)] that(2) by (auto simp: W_def split: if_splits)
  qed
  have h: "materializeHistory (sePrint env) d [] x = Inr h" if "x \<in> W" for x
    using that law(2,3) by (auto simp: W_def split: if_splits)
  from write_law [OF inv law(1) k written(3,4)] h written(5) show ?thesis
    by (auto simp: thins_def)
qed

subsection \<open>Deletions and pruning\<close>

lemma delete_law:
  assumes inv: "storeInv (sePrint env) s" and d: "deleteSession env sid s = (r, s')"
  shows "storeInv (sePrint env) s' \<and> keepsOthers (sePrint env) {} (ssData s) (ssData s')
    \<and> (r = Inr True \<longrightarrow> map_of (ssData s') sid = None \<and> map fst (ssData s') = filter (\<lambda>k. k \<noteq> sid) (map fst (ssData s)))
    \<and> (r \<noteq> Inr True \<longrightarrow> ssData s' = ssData s)"
proof (cases "map_of (ssData s) sid = None")
  case True
  with d have "r = Inr False" "s' = s" by (simp_all add: deleteSession_def)
  with inv show ?thesis by simp
next
  case False
  obtain dd where dd: "deleteWithRebase env sid (ssData s) = (None, dd)" "thins (sePrint env) (ssData s) dd"
    "map fst dd = filter (\<lambda>k. k \<noteq> sid) (map fst (ssData s))"
    using deleteWithRebase_thins [OF storeInv_OK [OF inv]] .
  obtain ok where ok: "saveSessions (ssData s) dd s = (ok, s')"
    "r = (if ok then Inr True else Inl SessWriteFailed)"
    using d False dd(1) by (auto simp: deleteSession_def split: prod.splits bool.splits)
  have "map_of dd sid = None" using arg_cong [OF dd(3), of set] by (auto simp: map_of_eq_None_iff)
  with save_law [OF inv thins_OK [OF dd(2)] ok(1)] ok(2) thins_keeps [OF dd(2)] dd(3) show ?thesis
    by auto
qed

lemma deleteByAccount_law:
  assumes inv: "storeInv (sePrint env) s" and d: "deleteByAccount env account s = (r, s')"
  shows "storeInv (sePrint env) s' \<and> keepsOthers (sePrint env) {} (ssData s) (ssData s')
    \<and> (case r of
         Inl e \<Rightarrow> ssData s' = ssData s
       | Inr n \<Rightarrow> n = length (filter (\<lambda>(_, v). cvAccountID v = account) (ssData s))
           \<and> map fst (ssData s') = map fst (filter (\<lambda>(_, v). cvAccountID v \<noteq> account) (ssData s)))"
proof -
  let ?R = "map fst (filter (\<lambda>(_, v). cvAccountID v = account) (ssData s))"
  have wf: "wf_map (ssData s)" using storeInv_OK [OF inv] by (simp add: sessionsOK_def)
  have keys: "filter (\<lambda>k. k \<notin> set ?R) (map fst (ssData s))
      = map fst (filter (\<lambda>(_, v). cvAccountID v \<noteq> account) (ssData s))"
    using wf by (rule filter_keys)
  show ?thesis
  proof (cases "?R = []")
    case True
    then have "filter (\<lambda>(_, v). cvAccountID v \<noteq> account) (ssData s) = ssData s"
      by (auto simp: filter_id_conv filter_empty_conv)
    with True d inv show ?thesis by (auto simp: deleteByAccount_def Let_def)
  next
    case False
    obtain dd where dd: "rebaseChildren env (\<lambda>k v. k \<notin> set ?R \<and> cvHistoryParent v \<in> set ?R)
        (map fst (ssData s)) (ssData s) = (None, dd)" "map fst dd = map fst (ssData s)"
      "thins (sePrint env) (ssData s) (filter (\<lambda>(k, _). \<not> k \<in> set ?R) dd)"
      by (rule rebase_filter [OF storeInv_OK [OF inv], of "\<lambda>k. k \<in> set ?R"
            "\<lambda>k v. k \<notin> set ?R \<and> cvHistoryParent v \<in> set ?R"]) simp_all
    let ?d = "filter (\<lambda>(k, _). k \<notin> set ?R) dd"
    obtain ok where ok: "saveSessions (ssData s) ?d s = (ok, s')"
      "r = (if ok then Inr (length ?R) else Inl SessWriteFailed)"
      using d False dd(1) by (auto simp: deleteByAccount_def Let_def split: prod.splits bool.splits)
    have "map fst ?d = filter (\<lambda>k. k \<notin> set ?R) (map fst dd)"
      by (simp add: filter_map comp_def case_prod_unfold)
    with save_law [OF inv thins_OK [OF dd(3)] ok(1)] ok(2) thins_keeps [OF dd(3)] keys dd(2) show ?thesis
      by (auto simp del: set_map)
  qed
qed

lemma prune_law:
  assumes inv: "storeInv (sePrint env) s" and p: "pruneNow env now s = (r, s')"
  shows "storeInv (sePrint env) s' \<and> keepsOthers (sePrint env) {} (ssData s) (ssData s')
    \<and> (snd (snd r) = None \<longrightarrow> ssData s' = pruneSessions env now (ssPins s) (ssData s))
    \<and> (snd (snd r) \<noteq> None \<longrightarrow> ssData s' = ssData s)"
proof -
  let ?p = "pruneSessions env now (ssPins s) (ssData s)"
  have t: "thins (sePrint env) (ssData s) ?p" by (rule pruneSessions_thins [OF storeInv_OK [OF inv]])
  obtain ok f where w: "writeFile ?p (ssFile s) = (ok, f)" by force
  show ?thesis
    using p w t inv thins_OK [OF t] thins_keeps [OF t] writeFile_ok [of ?p "ssFile s" f] writeFile_fail [of ?p "ssFile s" f]
    by (cases ok) (auto simp: pruneNow_def Let_def storeInv_def insync_def split: option.splits)
qed

subsection \<open>The transition system\<close>

text \<open>
  The guards are what the callers of the store ensure: response names are fresh, so that neither a
  binding nor a commit writes over a snapshot, and a stable head that is advanced is no snapshot.
\<close>

inductive sessionStep :: "(json \<Rightarrow> string) \<Rightarrow> sessionStore \<Rightarrow> sessionStore \<Rightarrow> bool" for sp where
  pin: "sePrint env = sp \<Longrightarrow> pinSession env sid s = (r, s') \<Longrightarrow> sessionStep sp s s'"
| unpin: "sessionStep sp s (unpinSession sid s)"
| upsert: "sePrint env = sp \<Longrightarrow> goodBinding env v (ssData s) \<Longrightarrow> upsertSession env now v s = (r, s') \<Longrightarrow>
    sessionStep sp s s'"
| bind: "sePrint env = sp \<Longrightarrow> goodBinding env v (ssData s) \<Longrightarrow>
    upsertBinding env now v authoritative s = (r', s') \<Longrightarrow> sessionStep sp s s'"
| replace: "sePrint env = sp \<Longrightarrow> validMsgs sp messages \<Longrightarrow>
    \<forall>c. map_of (ssData s) sid = Some c \<longrightarrow> \<not> cvResponseAlias c \<Longrightarrow>
    updatePortable env now sid messages s = (r'', s') \<Longrightarrow> sessionStep sp s s'"
| commit: "sePrint env = sp \<Longrightarrow> validMsgs sp request \<Longrightarrow> validMsg sp assistant \<Longrightarrow>
    snapshotsFree (ssData s) sourceID targetID advanceSource \<Longrightarrow>
    commitResponse env now sourceID targetID request assistant advanceSource s = (q, s') \<Longrightarrow> sessionStep sp s s'"
| remove: "sePrint env = sp \<Longrightarrow> deleteSession env sid s = (q', s') \<Longrightarrow> sessionStep sp s s'"
| forget: "sePrint env = sp \<Longrightarrow> deleteByAccount env account s = (q'', s') \<Longrightarrow> sessionStep sp s s'"
| prune: "sePrint env = sp \<Longrightarrow> pruneNow env now s = (st, s') \<Longrightarrow> sessionStep sp s s'"

definition snapshotIn :: "sessionStore \<Rightarrow> string \<Rightarrow> bool" where
  "snapshotIn s x = (case map_of (ssData s) x of None \<Rightarrow> False | Some v \<Rightarrow> cvResponseAlias v)"

lemma snapshotIn_iff: "snapshotIn s x \<longleftrightarrow> (\<exists>v. map_of (ssData s) x = Some v \<and> cvResponseAlias v)"
  by (simp add: snapshotIn_def split: option.splits)

lemma pin_data: "pinSession env sid s = (r, s') \<Longrightarrow> ssData s' = ssData s \<and> ssFile s' = ssFile s"
  by (auto simp: pinSession_def split: option.splits)

lemma unpin_data: "ssData (unpinSession sid s) = ssData s \<and> ssFile (unpinSession sid s) = ssFile s"
  by (simp add: unpinSession_def)

lemma storeInv_pins: "ssData s' = ssData s \<Longrightarrow> ssFile s' = ssFile s \<Longrightarrow> storeInv sp s \<Longrightarrow> storeInv sp s'"
  by (simp add: storeInv_def insync_def split: option.splits)

text \<open>Every step writes over no snapshot.\<close>

lemma step_law:
  assumes "sessionStep sp s s'" and "storeInv sp s"
  obtains W where "storeInv sp s'" and "keepsOthers sp W (ssData s) (ssData s')" and "\<forall>x \<in> W. \<not> snapshotIn s x"
  using assms(1)
proof cases
  case (pin env sid r)
  with pin_data that [of "{}"] storeInv_pins assms(2) show ?thesis by (metis empty_iff keeps_refl)
next
  case (unpin sid)
  with unpin_data that [of "{}"] storeInv_pins assms(2) show ?thesis by (metis empty_iff keeps_refl)
next
  case (upsert env v now r)
  with upsert_law [of env s v now r s'] assms(2) show ?thesis
    by (intro that [of "{bindingKey env v}"]) (auto simp: goodBinding_def snapshotIn_iff)
next
  case (bind env v now authoritative r)
  with upsertBinding_law [of env s v now authoritative r s'] assms(2) show ?thesis
    by (intro that [of "{bindingKey env v}"]) (auto simp: goodBinding_def snapshotIn_iff)
next
  case (replace env messages sid now r)
  with updatePortable_law [of env s messages sid now r s'] assms(2) show ?thesis
    by (intro that [of "{sid}"]) (auto simp: snapshotIn_iff)
next
  case (commit env request assistant sourceID targetID advanceSource now r)
  let ?W = "{targetID} \<union> (if advances sourceID targetID advanceSource then {sourceID} else {})"
  from commit commit_law [of env s request assistant sourceID targetID advanceSource now r s'] assms(2)
  show ?thesis by (intro that [of ?W]) (auto simp: snapshotsFree_def snapshotIn_iff)
next
  case (remove env sid r)
  with delete_law [of env s sid r s'] assms(2) show ?thesis by (intro that [of "{}"]) auto
next
  case (forget env account r)
  with deleteByAccount_law [of env s account r s'] assms(2) show ?thesis by (intro that [of "{}"]) auto
next
  case (prune env now r)
  with prune_law [of env s now r s'] assms(2) show ?thesis by (intro that [of "{}"]) auto
qed

interpretation snapshot: monitored_system "sessionStep sp" "storeInv sp" "\<lambda>s. snapshotIn s x"
    "\<lambda>s. materializeHistory sp (ssData s) [] x" for sp x
proof
  show "storeInv sp t" if "sessionStep sp s t" "storeInv sp s" for s t
    using that step_law by metis
  show "materializeHistory sp (ssData t) [] x = materializeHistory sp (ssData s) [] x"
    if "sessionStep sp s t" "storeInv sp s" "snapshotIn s x" "snapshotIn t x" for s t
    using step_law [OF that(1,2)] that(3,4) unfolding keepsOthers_def snapshotIn_iff by metis
qed

end
