(* ===== verification/SessionPrune.thy ===== *)
theory SessionPrune
  imports SessionSteps
begin

text \<open>
  What pruning achieves: pinned conversations stay; apart from those that a pinned conversation is built
  on, no conversation has expired, no group keeps more than 128 snapshots, and unless only such
  conversations are left there are at most 5000, which fit in 16 MiB.
\<close>

subsection \<open>Keys\<close>

abbreviation keysOf :: "conversations \<Rightarrow> string set" where
  "keysOf d \<equiv> fst ` set d"

lemma thins_keys: "thins sp d d' \<Longrightarrow> keysOf d' \<subseteq> keysOf d"
proof
  fix k assume t: "thins sp d d'" and "k \<in> keysOf d'"
  then obtain v where "map_of d' k = Some v" by (metis dom_map_of_conv_image_fst domD)
  then obtain u where "map_of d k = Some u" using thins_node [OF t] by metis
  then show "k \<in> keysOf d" by (rule key_of_Some)
qed

lemma OK_distinct: "sessionsOK sp d \<Longrightarrow> distinct (map fst d)"
  by (simp add: sessionsOK_def)

lemma length_keys: "sessionsOK sp d \<Longrightarrow> card (keysOf d) = length d"
  using OK_distinct distinct_card by fastforce

lemma thins_length: "thins sp d d' \<Longrightarrow> sessionsOK sp d \<Longrightarrow> length d' \<le> length d"
  by (metis List.finite_set card_mono finite_imageI length_keys thins_OK thins_keys)

lemma evict_keys:
  assumes "sessionsOK (sePrint env) d" and "\<not> pinnedDependency pins d k"
  shows "keysOf (evict env pins k d) = keysOf d - {k}"
proof -
  obtain d' where d': "deleteWithRebase env k d = (None, d')" "map fst d' = filter (\<lambda>k'. k' \<noteq> k) (map fst d)"
    using deleteWithRebase_thins [OF assms(1)] by metis
  have "keysOf d' = keysOf d - {k}" using arg_cong [OF d'(2), of set] by auto
  with d'(1) assms(2) show ?thesis by (simp add: evict_def)
qed

text \<open>A conversation that is not evicted stays.\<close>

lemma evict_keeps:
  assumes "sessionsOK (sePrint env) d" and "k \<noteq> x \<or> pinnedDependency pins d x" and "x \<in> keysOf d"
  shows "x \<in> keysOf (evict env pins k d)"
proof (cases "pinnedDependency pins d k")
  case True
  with assms(3) show ?thesis by (simp add: evict_def)
next
  case False
  with evict_keys [OF assms(1) False] assms(2,3) show ?thesis by auto
qed

definition pinned :: "(string, int) gomap \<Rightarrow> string \<Rightarrow> bool" where
  "pinned pins x \<longleftrightarrow> getOr 0 pins x > 0"

lemma pinned_dependency: "pinned pins x \<Longrightarrow> pinnedDependency pins d x"
  by (simp add: pinned_def pinnedDependency_def)

text \<open>
  The conversations a pin holds: the pinned one and all it is built on, along the parents.
\<close>

definition parentOf :: "conversations \<Rightarrow> (string \<times> string) set" where
  "parentOf d = {(k, cvHistoryParent v) | k v. map_of d k = Some v \<and> cvHistoryParent v \<noteq> []}"

definition heldBy :: "(string, int) gomap \<Rightarrow> conversations \<Rightarrow> string \<Rightarrow> bool" where
  "heldBy pins d x \<longleftrightarrow> (\<exists>p n. (p, n) \<in> set pins \<and> 0 < n \<and> (p, x) \<in> (parentOf d)\<^sup>*)"

lemma dependsOn_reaches: "dependsOn d x seen c \<Longrightarrow> (c, x) \<in> (parentOf d)\<^sup>*"
proof (induction d x seen c rule: dependsOn.induct)
  case (1 d x seen c)
  show ?case
  proof (cases "c = x")
    case False
    with 1(2) obtain v where v: "map_of d c = Some v" "dependsOn d x (c # seen) (cvHistoryParent v)"
      "c \<noteq> []" "c \<notin> set seen"
      by (subst (asm) dependsOn.simps) (auto split: if_splits option.splits)
    then have "(cvHistoryParent v, x) \<in> (parentOf d)\<^sup>*" using 1(1) False by blast
    moreover have "cvHistoryParent v \<noteq> []" using v(2) by (subst (asm) dependsOn.simps) (auto split: if_splits)
    then have "(c, cvHistoryParent v) \<in> parentOf d" using v(1) by (auto simp: parentOf_def)
    ultimately show ?thesis by (rule converse_rtrancl_into_rtrancl [rotated])
  qed simp
qed

lemma pinnedDependency_held: "pinnedDependency pins d x \<Longrightarrow> heldBy pins d x"
  unfolding pinnedDependency_def heldBy_def
proof (elim disjE)
  assume "getOr 0 pins x > 0"
  then obtain n where "(x, n) \<in> set pins" "0 < n"
    by (auto simp: getOr_def dest: map_of_SomeD split: option.splits)
  then show "\<exists>p n. (p, n) \<in> set pins \<and> 0 < n \<and> (p, x) \<in> (parentOf d)\<^sup>*" by blast
qed (auto simp: list_ex_iff dest: dependsOn_reaches)

lemma thins_held: "thins sp d d' \<Longrightarrow> heldBy pins d' x \<Longrightarrow> heldBy pins d x"
proof -
  assume t: "thins sp d d'"
  have "parentOf d' \<subseteq> parentOf d" using thins_node [OF t] by (fastforce simp: parentOf_def)
  then have "(parentOf d')\<^sup>* \<subseteq> (parentOf d)\<^sup>*" by (rule rtrancl_mono)
  then show "heldBy pins d' x \<Longrightarrow> heldBy pins d x" unfolding heldBy_def by blast
qed

lemma not_held: "thins sp d d' \<Longrightarrow> \<not> heldBy pins d x \<Longrightarrow> \<not> pinnedDependency pins d' x"
  using thins_held pinnedDependency_held by metis

lemma not_held_Nil [simp]: "\<not> heldBy [] d x"
  by (simp add: heldBy_def)

lemma unpinned [simp]: "\<not> pinnedDependency [] d k"
  by (simp add: pinnedDependency_def getOr_def)

text \<open>Loops of evictions keep what every step keeps, and remove what some step removes.\<close>

lemma fold_keeps:
  assumes "sessionsOK sp d" and "x \<in> keysOf d"
    and "\<And>y d. y \<in> set ys \<Longrightarrow> sessionsOK sp d \<Longrightarrow> thins sp d (f y d)"
    and "\<And>y d. y \<in> set ys \<Longrightarrow> sessionsOK sp d \<Longrightarrow> x \<in> keysOf d \<Longrightarrow> x \<in> keysOf (f y d)"
  shows "x \<in> keysOf (fold f ys d)"
  using assms
proof (induction ys arbitrary: d)
  case (Cons y ys)
  have "sessionsOK sp (f y d)" by (rule thins_OK [OF Cons.prems(3)]) (use Cons.prems in auto)
  then show ?case unfolding fold.simps comp_apply
    by (rule Cons.IH) (use Cons.prems in auto)
qed simp

lemma fold_removes:
  assumes "sessionsOK sp d0" and "thins sp d0 d" and "y \<in> set ys"
    and "\<And>y d. y \<in> set ys \<Longrightarrow> sessionsOK sp d \<Longrightarrow> thins sp d (f y d)"
    and "\<And>d. thins sp d0 d \<Longrightarrow> x \<notin> keysOf (f y d)"
  shows "x \<notin> keysOf (fold f ys d)"
  using assms(2-)
proof (induction ys arbitrary: d)
  case (Cons z ys)
  note ok0 = thins_OK [OF Cons.prems(1)]
  have t: "thins sp d (f z d)" by (rule Cons.prems(3)) (use ok0 in auto)
  note ok = thins_OK [OF t] and t0 = thins_trans [OF Cons.prems(1) t]
  show ?case
  proof (cases "y = z")
    case True
    have "thins sp (f z d) (fold f ys (f z d))"
      by (rule fold_thins [OF ok]) (use Cons.prems in auto)
    from thins_keys [OF this] Cons.prems(1,4) True show ?thesis by auto
  next
    case False
    then show ?thesis unfolding fold.simps comp_apply
      by (intro Cons.IH [OF t0]) (use Cons.prems in auto)
  qed
qed simp

subsection \<open>Pinned conversations\<close>

lemma pruneBytesLoop_keeps:
  "sessionsOK (sePrint env) d \<Longrightarrow> pinned pins x \<Longrightarrow> x \<in> keysOf d \<Longrightarrow> x \<in> keysOf (pruneBytesLoop env pins items remaining d)"
proof (induction items arbitrary: remaining d)
  case (Cons v items)
  show ?case
  proof (cases "pinnedDependency pins d (cvID v)")
    case True
    with Cons show ?thesis by simp
  next
    case False
    with pinned_dependency [OF Cons.prems(2)] have ne: "cvID v \<noteq> x" by auto
    obtain d' where d': "deleteWithRebase env (cvID v) d = (None, d')" "thins (sePrint env) d d'"
      "map fst d' = filter (\<lambda>k. k \<noteq> cvID v) (map fst d)"
      using deleteWithRebase_thins [OF Cons.prems(1)] by metis
    have "x \<in> keysOf d'" using arg_cong [OF d'(3), of set] Cons.prems(3) ne by auto
    with Cons.IH [OF thins_OK [OF d'(2)] Cons.prems(2)] False d'(1) show ?thesis by (auto simp: Let_def)
  qed
qed simp

lemma prune_keeps_pinned:
  assumes ok: "sessionsOK (sePrint env) d" and pin: "pinned pins x" and x: "x \<in> keysOf d"
  shows "x \<in> keysOf (pruneSessions env now pins d)"
proof -
  note keep = evict_keeps [OF _ disjI2 [OF pinned_dependency [OF pin]]]
  note e = pruneExpired_thins [OF ok, of now pins]
  note a = pruneAliases_thins [OF thins_OK [OF e], of pins]
  note c = pruneCount_thins [OF thins_OK [OF a], of pins]
  have "x \<in> keysOf (pruneExpired env now pins d)" unfolding pruneExpired_def
    by (rule fold_keeps [OF ok x]) (auto simp: thins_refl evict_thins keep split: prod.splits)
  moreover have inner: "thins (sePrint env) d (fold (\<lambda>v. evict env pins (cvID v)) vs d)
      \<and> (x \<in> keysOf d \<longrightarrow> x \<in> keysOf (fold (\<lambda>v. evict env pins (cvID v)) vs d))"
    if "sessionsOK (sePrint env) d" for vs d
    by (intro conjI impI fold_thins [OF that] fold_keeps [OF that]) (simp_all add: evict_thins keep)
  ultimately have "x \<in> keysOf (pruneAliases env pins (pruneExpired env now pins d))"
    unfolding pruneAliases_def
    by (intro fold_keeps [OF thins_OK [OF e]]) (simp_all add: thins_refl inner split: prod.splits)
  then have "x \<in> keysOf (pruneCount env pins (pruneAliases env pins (pruneExpired env now pins d)))"
    unfolding pruneCount_def
    by (cases "length (pruneAliases env pins (pruneExpired env now pins d)) \<le> maxStoredSessions")
       (simp_all, intro fold_keeps [OF thins_OK [OF a]], simp_all add: thins_refl evict_thins keep)
  with thins_OK [OF c] pin show ?thesis
    by (simp add: pruneSessions_def pruneSerializedBytes_def pruneBytesLoop_keeps)
qed

subsection \<open>Expiry\<close>

lemma expiredAt_fields: "rooted [] v' = rooted [] v \<Longrightarrow> expiredAt now k v' = expiredAt now k v"
  using rooted_eq_fields [of v' v] by (simp add: expiredAt_def)

lemma pruneExpired_law:
  assumes ok: "sessionsOK (sePrint env) d" and v': "map_of (pruneExpired env now pins d) k = Some v'"
    and free: "\<not> heldBy pins d k"
  shows "\<not> expiredAt now k v'"
proof
  assume expired: "expiredAt now k v'"
  note e = pruneExpired_thins [OF ok, of now pins]
  from thins_node [OF e v'] obtain v where v: "map_of d k = Some v" "rooted [] v' = rooted [] v" by metis
  with expired have "expiredAt now k v" by (simp add: expiredAt_fields [OF v(2)])
  then have gone: "k \<notin> keysOf ((\<lambda>(k, v) d. if expiredAt now k v then evict env pins k d else d) (k, v) e)"
    if "thins (sePrint env) d e" for e
    using evict_keys [OF thins_OK [OF that] not_held [OF that free]] by simp
  have "thins (sePrint env) e ((\<lambda>(k, v) d. if expiredAt now k v then evict env pins k d else d) y e)"
    if "sessionsOK (sePrint env) e" for y e
    using that by (cases y) (simp add: thins_refl evict_thins)
  with gone have "k \<notin> keysOf (fold (\<lambda>(k, v) d. if expiredAt now k v then evict env pins k d else d) d d)"
    by (intro fold_removes [OF ok thins_refl [OF ok] map_of_SomeD [OF v(1)]])
  with key_of_Some [OF v'] show False by (simp add: pruneExpired_def)
qed

subsection \<open>Snapshots per group\<close>

definition groupName :: "conversation \<Rightarrow> string" where
  "groupName v = (if cvAliasGroup v = [] then cvID v else cvAliasGroup v)"

definition groupMembers :: "string \<Rightarrow> conversations \<Rightarrow> conversation list" where
  "groupMembers g d = map snd (filter (\<lambda>(_, v). cvResponseAlias v \<and> groupName v = g) d)"

lemma aliasesByGroup_fold:
  "getOr [] (fold (\<lambda>(_, v) groups.
             if cvResponseAlias v
             then (let group = (if cvAliasGroup v = [] then cvID v else cvAliasGroup v)
                   in AList.update group (getOr [] groups group @ [v]) groups)
             else groups) d acc) g = getOr [] acc g @ groupMembers g d"
proof (induction d arbitrary: acc)
  case Nil
  then show ?case by (simp add: groupMembers_def)
next
  case (Cons kv d)
  obtain k v where kv: "kv = (k, v)" by force
  have members: "groupMembers g ((k, v) # d) =
      (if cvResponseAlias v \<and> groupName v = g then [v] else []) @ groupMembers g d"
    by (simp add: groupMembers_def)
  show ?case
    unfolding kv fold.simps comp_apply case_prod_conv Cons.IH members
    by (simp add: groupName_def Let_def)
qed

lemma aliasesByGroup_members: "getOr [] (aliasesByGroup d) g = groupMembers g d"
  by (simp add: aliasesByGroup_def aliasesByGroup_fold getOr_def [of _ "[]"])

lemma members_length:
  assumes "sessionsOK sp d'" and "cvID ` set (filter P (groupMembers g d')) \<subseteq> set ks"
  shows "length (filter P (groupMembers g d')) \<le> length ks"
proof -
  have id: "map cvID (groupMembers g d') = map fst (filter (\<lambda>(_, v). cvResponseAlias v \<and> groupName v = g) d')"
    unfolding groupMembers_def map_map
  proof (rule map_cong [OF refl])
    fix kv assume "kv \<in> set (filter (\<lambda>(_, v). cvResponseAlias v \<and> groupName v = g) d')"
    then have "map_of d' (fst kv) = Some (snd kv)"
      using OK_distinct [OF assms(1)] by (auto intro: map_of_is_SomeI)
    from sessionsOK_node [OF assms(1) this] show "(cvID \<circ> snd) kv = fst kv" by (simp add: goodNode_def)
  qed
  have "distinct (map cvID (groupMembers g d'))" unfolding id
    by (rule distinct_map_filter) (rule OK_distinct [OF assms(1)])
  then have "distinct (map cvID (filter P (groupMembers g d')))" by (rule distinct_map_filter)
  then have "length (filter P (groupMembers g d')) = card (cvID ` set (filter P (groupMembers g d')))"
    using distinct_card by fastforce
  also have "\<dots> \<le> card (set ks)" using assms(2) by (intro card_mono) auto
  also have "\<dots> \<le> length ks" by (rule card_length)
  finally show ?thesis .
qed

text \<open>A survivor is a member of the same group as before.\<close>

lemma thins_members:
  assumes t: "thins sp d d'" and v: "v \<in> set (groupMembers g d')"
  shows "\<exists>u \<in> set (groupMembers g d). cvID u = cvID v \<and> cvID v \<in> keysOf d'"
proof -
  from v obtain k where k: "(k, v) \<in> set d'" "cvResponseAlias v" "groupName v = g" by (auto simp: groupMembers_def)
  then have "map_of d' k = Some v" using OK_distinct [OF thins_OK [OF t]] by (auto intro: map_of_is_SomeI)
  moreover from sessionsOK_node [OF thins_OK [OF t] this] have "cvID v = k" by (simp add: goodNode_def)
  ultimately obtain u where u: "map_of d k = Some u" "rooted [] v = rooted [] u" using thins_node [OF t] by metis
  then have "u \<in> set (groupMembers g d)"
    using k rooted_eq_fields [OF u(2)] map_of_SomeD [OF u(1)] by (force simp: groupMembers_def groupName_def)
  with u k \<open>cvID v = k\<close> rooted_eq_fields [OF u(2)] show ?thesis by force
qed

lemma thins_members_length:
  assumes "thins sp d d'"
  shows "length (groupMembers g d') \<le> length (groupMembers g d)"
proof -
  have "cvID ` set (filter (\<lambda>_. True) (groupMembers g d')) \<subseteq> set (map cvID (groupMembers g d))"
  proof (rule image_subsetI)
    fix v assume "v \<in> set (filter (\<lambda>_. True) (groupMembers g d'))"
    then have "v \<in> set (groupMembers g d')" by simp
    from thins_members [OF assms this] obtain u where "u \<in> set (groupMembers g d)" "cvID v = cvID u" by auto
    then show "cvID v \<in> set (map cvID (groupMembers g d))" by simp
  qed
  from members_length [OF thins_OK [OF assms] this] show ?thesis by simp
qed

lemma pruneAliases_law:
  assumes ok0: "sessionsOK (sePrint env) d0" and d: "thins (sePrint env) d0 d"
  shows "length (filter (\<lambda>v. \<not> heldBy pins d0 (cvID v)) (groupMembers g (pruneAliases env pins d)))
    \<le> maxResponseAliasesPerSession"
proof -
  define step where "step = (\<lambda>(g :: string, aliases :: conversation list) d.
             if length aliases \<le> maxResponseAliasesPerSession then d
             else fold (\<lambda>v. evict env pins (cvID v))
                    (drop maxResponseAliasesPerSession
                       (sortBy (\<lambda>a b. cvUpdatedAt a > cvUpdatedAt b) aliases)) d)"
  let ?d' = "pruneAliases env pins d" and ?free = "\<lambda>v. \<not> heldBy pins d0 (cvID v)"
  note ok = thins_OK [OF d]
  have t: "thins (sePrint env) d ?d'" by (rule pruneAliases_thins [OF ok])
  have eq: "?d' = fold step (aliasesByGroup d) d" by (simp add: pruneAliases_def step_def)
  have inner: "thins (sePrint env) d (fold (\<lambda>v. evict env pins (cvID v)) vs d)"
    if "sessionsOK (sePrint env) d" for vs :: "conversation list" and d
    by (rule fold_thins [OF that]) (rule evict_thins)
  have step_thins: "thins (sePrint env) d (step y d)" if "sessionsOK (sePrint env) d" for y d
    using that inner by (cases y) (simp add: step_def thins_refl)
  show ?thesis
  proof (cases "length (groupMembers g d) \<le> maxResponseAliasesPerSession")
    case True
    with thins_members_length [OF t, of g] length_filter_le [of ?free "groupMembers g ?d'"] show ?thesis by linarith
  next
    case False
    let ?sorted = "sortBy (\<lambda>a b. cvUpdatedAt a > cvUpdatedAt b) (groupMembers g d)"
    let ?keep = "take maxResponseAliasesPerSession ?sorted" and ?drop = "drop maxResponseAliasesPerSession ?sorted"
    have "map_of (aliasesByGroup d) g = Some (groupMembers g d)"
      using aliasesByGroup_members [of d g] False by (auto simp: getOr_def split: option.splits)
    then have mem: "(g, groupMembers g d) \<in> set (aliasesByGroup d)" by (rule map_of_SomeD)
    have gone: "cvID v \<notin> keysOf ?d'" if v: "v \<in> set ?drop" and free: "\<not> heldBy pins d0 (cvID v)" for v
    proof -
      have one: "step (g, groupMembers g d) e = fold (\<lambda>v. evict env pins (cvID v)) ?drop e" for e
        using False by (simp add: step_def)
      have "cvID v \<notin> keysOf (evict env pins (cvID v) e)" if e: "thins (sePrint env) d0 e" for e
        using evict_keys [OF thins_OK [OF e] not_held [OF e free]] by simp
      then have "cvID v \<notin> keysOf (step (g, groupMembers g d) e)" if e: "thins (sePrint env) d0 e" for e
        unfolding one by (intro fold_removes [OF ok0 e v]) (simp_all add: evict_thins)
      with step_thins show ?thesis unfolding eq
        by (intro fold_removes [OF ok0 d mem]) auto
    qed
    have "cvID ` set (filter ?free (groupMembers g ?d')) \<subseteq> set (map cvID ?keep)"
    proof (rule image_subsetI)
      fix v assume "v \<in> set (filter ?free (groupMembers g ?d'))"
      then have v: "v \<in> set (groupMembers g ?d')" and free: "\<not> heldBy pins d0 (cvID v)" by simp_all
      from thins_members [OF t v] obtain u where u: "u \<in> set (groupMembers g d)" "cvID u = cvID v" "cvID v \<in> keysOf ?d'"
        by blast
      have "u \<in> set ?keep \<or> u \<in> set ?drop"
        using u(1) append_take_drop_id [of maxResponseAliasesPerSession ?sorted] by (metis UnE set_append set_sortBy)
      with gone [of u] u free show "cvID v \<in> set (map cvID ?keep)" by auto
    qed
    from members_length [OF thins_OK [OF t] this] show ?thesis by simp
  qed
qed

subsection \<open>Count and size\<close>

text \<open>All that is left is held by pins.\<close>

definition allHeld :: "(string, int) gomap \<Rightarrow> conversations \<Rightarrow> conversations \<Rightarrow> bool" where
  "allHeld pins d0 d \<longleftrightarrow> (\<forall>k \<in> keysOf d. heldBy pins d0 k)"

lemma allHeld_thins: "thins sp d d' \<Longrightarrow> allHeld pins d0 d \<Longrightarrow> allHeld pins d0 d'"
  using thins_keys unfolding allHeld_def by blast

lemma pruneCount_loop:
  "thins (sePrint env) d0 d \<Longrightarrow>
   length (fold (\<lambda>v d. if length d > maxStoredSessions then evict env pins (cvID v) d else d) items d) \<le> maxStoredSessions
   \<or> (\<forall>v \<in> set items. cvID v \<in>
        keysOf (fold (\<lambda>v d. if length d > maxStoredSessions then evict env pins (cvID v) d else d) items d)
        \<longrightarrow> heldBy pins d0 (cvID v))"
proof (induction items arbitrary: d)
  case Nil
  show ?case by (rule disjI2) (rule ballI, simp only: list.set empty_iff)
next
  case (Cons v items)
  let ?f = "\<lambda>v d. if length d > maxStoredSessions then evict env pins (cvID v) d else d"
  have thin: "thins (sePrint env) d (?f v d)" if "sessionsOK (sePrint env) d" for v d
    using that by (simp add: thins_refl evict_thins)
  define r where "r = fold ?f items (?f v d)"
  have step: "fold ?f (v # items) d = r" by (simp only: fold.simps comp_apply r_def)
  have t: "thins (sePrint env) d (?f v d)" by (rule thin [OF thins_OK [OF Cons.prems]])
  note ok = thins_OK [OF t]
  have rest: "thins (sePrint env) (?f v d) r" unfolding r_def by (rule fold_thins [OF ok]) (rule thin)
  note IH = Cons.IH [OF thins_trans [OF Cons.prems t], folded r_def]
  show ?case unfolding step
  proof (cases "length d > maxStoredSessions")
    case True
    have "heldBy pins d0 (cvID v)" if k: "cvID v \<in> keysOf r"
    proof (rule ccontr)
      assume "\<not> heldBy pins d0 (cvID v)"
      from evict_keys [OF thins_OK [OF Cons.prems] not_held [OF Cons.prems this]] True
      have "cvID v \<notin> keysOf (?f v d)" by simp
      with thins_keys [OF rest] k show False by blast
    qed
    with IH show "length r \<le> maxStoredSessions
      \<or> (\<forall>v \<in> set (v # items). cvID v \<in> keysOf r \<longrightarrow> heldBy pins d0 (cvID v))" by simp
  next
    case False
    with thins_length [OF rest ok]
    show "length r \<le> maxStoredSessions
      \<or> (\<forall>v \<in> set (v # items). cvID v \<in> keysOf r \<longrightarrow> heldBy pins d0 (cvID v))" by simp
  qed
qed

lemma evictionOrder_covers:
  assumes ok: "sessionsOK sp d" and k: "k \<in> keysOf d"
  shows "\<exists>v \<in> set (evictionOrder d). cvID v = k"
proof -
  obtain v where v: "(k, v) \<in> set d" using k by auto
  then have "map_of d k = Some v" using OK_distinct [OF ok] by simp
  with sessionsOK_node [OF ok this] have "cvID v = k" by (simp add: goodNode_def)
  moreover have "v \<in> set (evictionOrder d)"
    unfolding evictionOrder_def set_sortBy set_map using v by (rule image_eqI [rotated]) simp
  ultimately show ?thesis by blast
qed

lemma covered_held:
  assumes ok: "sessionsOK sp d" and t: "thins sp d d'"
    and cov: "\<forall>v \<in> set (evictionOrder d). cvID v \<in> keysOf d' \<longrightarrow> heldBy pins d0 (cvID v)"
  shows "allHeld pins d0 d'"
  unfolding allHeld_def
proof
  fix k assume k: "k \<in> keysOf d'"
  then have "k \<in> keysOf d" using thins_keys [OF t] by blast
  from evictionOrder_covers [OF ok this] cov k show "heldBy pins d0 k" by blast
qed

lemma pruneCount_law:
  assumes d: "thins (sePrint env) d0 d"
  shows "length (pruneCount env pins d) \<le> maxStoredSessions \<or> allHeld pins d0 (pruneCount env pins d)"
proof (cases "length d \<le> maxStoredSessions")
  case False
  note ok = thins_OK [OF d]
  have eq: "pruneCount env pins d = fold (\<lambda>v d. if length d > maxStoredSessions then evict env pins (cvID v) d else d) (evictionOrder d) d"
    using False by (simp add: pruneCount_def)
  from pruneCount_loop [OF d, of pins "evictionOrder d"] covered_held [OF ok pruneCount_thins [OF ok, of pins]]
  show ?thesis unfolding eq by blast
qed (simp add: pruneCount_def)

lemma pruneBytes_loop:
  "thins (sePrint env) d0 d \<Longrightarrow>
   seSize env (pruneBytesLoop env pins items remaining d) \<le> maxSessionStoreBytes
   \<or> pruneBytesLoop env pins items remaining d = []
   \<or> (\<forall>v \<in> set items. cvID v \<in> keysOf (pruneBytesLoop env pins items remaining d) \<longrightarrow> heldBy pins d0 (cvID v))"
proof (induction items arbitrary: remaining d)
  case (Cons v items)
  note okd = thins_OK [OF Cons.prems]
  show ?case
  proof (cases "pinnedDependency pins d (cvID v)")
    case True
    then have "heldBy pins d0 (cvID v)" using thins_held [OF Cons.prems pinnedDependency_held] by blast
    with Cons.IH [OF Cons.prems, of remaining] True show ?thesis by simp
  next
    case False
    obtain d' where d': "deleteWithRebase env (cvID v) d = (None, d')" "thins (sePrint env) d d'"
      "map fst d' = filter (\<lambda>k. k \<noteq> cvID v) (map fst d)"
      using deleteWithRebase_thins [OF okd] by metis
    note ok = thins_OK [OF d'(2)]
    have gone: "cvID v \<notin> keysOf d'" using arg_cong [OF d'(3), of set] by auto
    have "cvID v \<notin> keysOf (pruneBytesLoop env pins items r d')" for r
      using gone thins_keys [OF pruneBytesLoop_thins [OF ok]] by blast
    with Cons.IH [OF thins_trans [OF Cons.prems d'(2)]] d'(1) False show ?thesis by (auto simp: Let_def)
  qed
qed simp

lemma pruneSerializedBytes_law:
  assumes d: "thins (sePrint env) d0 d"
  shows "seSize env (pruneSerializedBytes env pins d) \<le> maxSessionStoreBytes
    \<or> allHeld pins d0 (pruneSerializedBytes env pins d)"
proof (cases "seSize env d \<le> maxSessionStoreBytes")
  case False
  note ok = thins_OK [OF d]
  have eq: "pruneSerializedBytes env pins d = pruneBytesLoop env pins (evictionOrder d) (seSize env d) d"
    using False by (simp add: pruneSerializedBytes_def)
  from pruneBytes_loop [OF d, of pins "evictionOrder d" "seSize env d"]
    covered_held [OF ok pruneBytesLoop_thins [OF ok, of pins "evictionOrder d" "seSize env d"]]
  show ?thesis unfolding eq by (auto simp: allHeld_def)
qed (simp add: pruneSerializedBytes_def)

subsection \<open>All bounds together\<close>

lemma pruneSessions_bounds:
  fixes now :: gotime and pins :: "(string, int) gomap"
  assumes ok: "sessionsOK (sePrint env) d"
  defines "p \<equiv> pruneSessions env now pins d"
  shows "length p \<le> maxStoredSessions \<or> allHeld pins d p"
    and "seSize env p \<le> maxSessionStoreBytes \<or> allHeld pins d p"
    and "length (filter (\<lambda>v. \<not> heldBy pins d (cvID v)) (groupMembers g p)) \<le> maxResponseAliasesPerSession"
    and "map_of p k = Some v \<Longrightarrow> expiredAt now k v \<Longrightarrow> heldBy pins d k"
proof -
  let ?e = "pruneExpired env now pins d"
  let ?a = "pruneAliases env pins ?e"
  let ?c = "pruneCount env pins ?a"
  note e = pruneExpired_thins [OF ok, of now pins]
  note a = pruneAliases_thins [OF thins_OK [OF e], of pins]
  note c = pruneCount_thins [OF thins_OK [OF a], of pins]
  note b = pruneSerializedBytes_thins [OF thins_OK [OF c], of pins]
  note da = thins_trans [OF e a]
  note dc = thins_trans [OF da c]
  have p: "p = pruneSerializedBytes env pins ?c" by (simp add: p_def pruneSessions_def)
  have ap: "thins (sePrint env) ?a p" unfolding p by (rule thins_trans [OF c b])
  have ep: "thins (sePrint env) ?e p" by (rule thins_trans [OF a ap])
  show "length p \<le> maxStoredSessions \<or> allHeld pins d p"
    using thins_length [OF b thins_OK [OF c]] pruneCount_law [OF da, of pins] allHeld_thins [OF b, of pins d]
    unfolding p by linarith
  show "seSize env p \<le> maxSessionStoreBytes \<or> allHeld pins d p"
    unfolding p by (rule pruneSerializedBytes_law [OF dc])
  show "length (filter (\<lambda>v. \<not> heldBy pins d (cvID v)) (groupMembers g p)) \<le> maxResponseAliasesPerSession"
  proof -
    let ?free = "\<lambda>v. \<not> heldBy pins d (cvID v)"
    have "cvID ` set (filter ?free (groupMembers g p)) \<subseteq> set (map cvID (filter ?free (groupMembers g ?a)))"
    proof (rule image_subsetI)
      fix v assume v: "v \<in> set (filter ?free (groupMembers g p))"
      then have "v \<in> set (groupMembers g p)" by simp
      from thins_members [OF ap this] obtain u where "u \<in> set (groupMembers g ?a)" "cvID u = cvID v" by blast
      moreover have "\<not> heldBy pins d (cvID v)" using v by simp
      ultimately show "cvID v \<in> set (map cvID (filter ?free (groupMembers g ?a)))"
        unfolding set_map set_filter by (intro image_eqI [where x = u]) simp_all
    qed
    from members_length [OF thins_OK [OF ap] this]
    show ?thesis using pruneAliases_law [OF ok e, of pins g] by simp
  qed
  show "heldBy pins d k" if v: "map_of p k = Some v" "expiredAt now k v"
  proof (rule ccontr)
    assume free: "\<not> heldBy pins d k"
    obtain u where u: "map_of ?e k = Some u" "rooted [] v = rooted [] u" using thins_node [OF ep v(1)] by metis
    from pruneExpired_law [OF ok u(1) free] v(2) show False by (simp add: expiredAt_fields [OF u(2)])
  qed
qed

end
