(* ===== verification/SessionOpen.thy ===== *)
theory SessionOpen
  imports SessionPrune
begin

text \<open>
  Opening the session file: bounding and sanitizing what was loaded and encoding the copies of a
  group relative to one snapshot change no history, so that a restart finds every conversation as it
  was unless it is pruned.
\<close>

subsection \<open>Encodings of the same conversations\<close>

definition sameSessions :: "(json \<Rightarrow> string) \<Rightarrow> conversations \<Rightarrow> conversations \<Rightarrow> bool" where
  "sameSessions sp d d' \<longleftrightarrow>
     sessionsOK sp d' \<and> map fst d' = map fst d
   \<and> (\<forall>k v'. map_of d' k = Some v' \<longrightarrow> (\<exists>v. map_of d k = Some v \<and> rooted [] v' = rooted [] v)
        \<and> materializeHistory sp d' [] k = materializeHistory sp d [] k)"

lemma same_refl: "sessionsOK sp d \<Longrightarrow> sameSessions sp d d"
  by (simp add: sameSessions_def)

lemma same_OK: "sameSessions sp d d' \<Longrightarrow> sessionsOK sp d'"
  by (simp add: sameSessions_def)

lemma same_keys: "sameSessions sp d d' \<Longrightarrow> map fst d' = map fst d"
  by (simp add: sameSessions_def)

lemma same_trans:
  assumes "sameSessions sp d d'" and "sameSessions sp d' d''"
  shows "sameSessions sp d d''"
  using assms unfolding sameSessions_def by metis

lemma fold_same:
  assumes "sessionsOK sp d"
    and "\<And>x e. x \<in> set xs \<Longrightarrow> sameSessions sp d e \<Longrightarrow> sameSessions sp e (f x e)"
  shows "sameSessions sp d (fold f xs d)"
  using assms
proof (induction xs rule: rev_induct)
  case Nil
  then show ?case by (simp add: same_refl)
next
  case (snoc x xs)
  then have "sameSessions sp d (fold f xs d)" by simp
  with snoc.prems(2) [of x] same_trans show ?case by auto
qed

subsection \<open>A root becomes a transition from another root\<close>

definition encodedFrom :: "(json \<Rightarrow> string) \<Rightarrow> string \<Rightarrow> oaiMsg list \<Rightarrow> conversation \<Rightarrow> conversation" where
  "encodedFrom sp baseID baseHistory v =
     (let (n, delta) = portableTransition sp baseHistory (cvPortableMessages v)
      in v\<lparr>cvPortableMessages := [], cvHistoryParent := baseID, cvHistoryDrop := int n, cvPortableDelta := delta\<rparr>)"

lemma transition_bounded:
  "wfMsgs sp tgt \<Longrightarrow> portableTransition sp parent tgt = portableTransition sp parent (boundedPortableMessages sp tgt)"
  using bounded_fixed [of tgt sp] by (simp add: portableTransition_def boundedHistory_def)

lemma encodedFrom_fields:
  "cvID (encodedFrom sp b h v) = cvID v" "cvHistoryParent (encodedFrom sp b h v) = b"
  "cvPortableMessages (encodedFrom sp b h v) = []" "cvResponseAlias (encodedFrom sp b h v) = cvResponseAlias v"
  "rooted [] (encodedFrom sp b h v) = rooted [] v"
  by (cases v; simp add: encodedFrom_def rooted_def case_prod_beta Let_def)+

lemma encodedFrom_exact:
  assumes "boundedHistory sp h" and "wfMsgs sp (cvPortableMessages v)"
  shows "0 \<le> cvHistoryDrop (encodedFrom sp b h v) \<and> cvHistoryDrop (encodedFrom sp b h v) \<le> int (length h)
    \<and> applyTransition sp h (nat (cvHistoryDrop (encodedFrom sp b h v))) (cvPortableDelta (encodedFrom sp b h v))
        = boundedPortableMessages sp (cvPortableMessages v)
    \<and> wfMsgs sp (cvPortableDelta (encodedFrom sp b h v))"
proof -
  obtain n delta where t: "portableTransition sp h (cvPortableMessages v) = (n, delta)" by force
  with transition_bounded [OF assms(2)] have "portableTransition sp h (boundedPortableMessages sp (cvPortableMessages v)) = (n, delta)"
    by simp
  from transition_exact [OF assms(1) bounded_fixed [OF assms(2)] this] t show ?thesis by (simp add: encodedFrom_def)
qed

lemma encode_history:
  assumes base: "map_of d baseID = Some b" "cvHistoryParent b = []" "baseID \<noteq> []"
    and k: "map_of d k = Some v" "cvHistoryParent v = []" "k \<noteq> baseID" "wfMsgs sp (cvPortableMessages v)"
    and h: "boundedPortableMessages sp (cvPortableMessages b) = h" "boundedHistory sp h"
  shows "materializeHistory sp d visiting x = Inr g \<Longrightarrow> baseID \<notin> set visiting \<Longrightarrow>
    materializeHistory sp (AList.update k (encodedFrom sp baseID h v) d) visiting x = Inr g"
  using assms
proof (induction sp d visiting x arbitrary: g rule: materializeHistory.induct)
  case (1 sp d visiting x)
  let ?d = "AList.update k (encodedFrom sp baseID h v) d"
  note mat = "1.prems"(1) and nb = "1.prems"(2) and base = "1.prems"(3-5) and k = "1.prems"(6-9) and h = "1.prems"(10,11)
  from mat obtain vx where vx: "map_of d x = Some vx" "x \<notin> set visiting"
    by (subst (asm) materializeHistory.simps) (auto split: option.splits if_splits)
  show ?case
  proof (cases "x = k")
    case True
    have g: "g = boundedPortableMessages sp (cvPortableMessages v)"
      using mat k vx True by (subst (asm) materializeHistory.simps) simp
    have "materializeHistory sp ?d (k # visiting) baseID = Inr h"
      using base k nb h by (subst materializeHistory.simps) simp
    with encodedFrom_exact [OF h(2) k(4), of baseID] g vx base(3) True show ?thesis
      by (subst materializeHistory.simps) (simp add: encodedFrom_fields)
  next
    case other: False
    show ?thesis
    proof (cases "cvHistoryParent vx = []")
      case True
      with mat vx other show ?thesis
        by (subst (asm) materializeHistory.simps, subst materializeHistory.simps) auto
    next
      case False
      with mat vx obtain ph where ph: "materializeHistory sp d (x # visiting) (cvHistoryParent vx) = Inr ph"
        by (subst (asm) materializeHistory.simps) (auto split: sum.splits)
      have "x \<noteq> baseID" using vx(1) base False by auto
      with nb have "baseID \<notin> set (x # visiting)" by simp
      from "1.IH" [OF vx False ph this base k h]
      have "materializeHistory sp ?d (x # visiting) (cvHistoryParent vx) = Inr ph" .
      with mat vx other False ph show ?thesis
        by (subst (asm) materializeHistory.simps, subst materializeHistory.simps) auto
    qed
  qed
qed

lemma encode_same:
  assumes ok: "sessionsOK sp d"
    and base: "map_of d baseID = Some b" "cvHistoryParent b = []" "baseID \<noteq> []" "cvResponseAlias b"
    and k: "map_of d k = Some v" "cvHistoryParent v = []" "k \<noteq> baseID"
    and h: "boundedPortableMessages sp (cvPortableMessages b) = h"
  shows "sameSessions sp d (AList.update k (encodedFrom sp baseID h v) d)"
proof -
  let ?d = "AList.update k (encodedFrom sp baseID h v) d"
  note gk = sessionsOK_node [OF ok k(1)] and gb = sessionsOK_node [OF ok base(1)]
  have wf: "wfMsgs sp (cvPortableMessages v)" using gk by (simp add: goodNode_def)
  have hb: "boundedHistory sp h" using bounded_fixed [of "cvPortableMessages b" sp] gb h by (simp add: goodNode_def)
  have keep: "materializeHistory sp ?d [] x = Inr g" if "materializeHistory sp d [] x = Inr g" for x g
    using encode_history [OF base(1-3) k wf h hb that] by simp
  have old: "\<exists>u. map_of d x = Some u \<and> rooted [] v' = rooted [] u" if "map_of ?d x = Some v'" for x v'
    using that k(1) by (cases "x = k") (auto simp: encodedFrom_fields)
  have mat: "materializeHistory sp ?d [] x = materializeHistory sp d [] x" if x: "map_of ?d x = Some v'" for x v'
  proof -
    obtain u where "map_of d x = Some u" using old [OF x] by blast
    then obtain g where "materializeHistory sp d [] x = Inr g" using sessionsOK_history [OF ok] by metis
    with keep show ?thesis by simp
  qed
  have "goodNode sp ?d x v'" if x: "map_of ?d x = Some v'" for x v'
  proof (cases "x = k")
    case True
    with x have v': "v' = encodedFrom sp baseID h v" by simp
    with gk mat [OF x] True encodedFrom_exact [OF hb wf, of baseID] base k show ?thesis
      by (simp add: goodNode_def encodedFrom_fields)
  next
    case False
    with x have "map_of d x = Some v'" by simp
    from sessionsOK_node [OF ok this] mat [OF x] k(1) show ?thesis
      by (auto simp: goodNode_def encodedFrom_fields)
  qed
  with ok have "sessionsOK sp ?d" by (simp add: sessionsOK_def)
  moreover have "map fst ?d = map fst d" using k(1) by (simp add: update_keys key_of_Some)
  ultimately show ?thesis using old mat by (simp add: sameSessions_def)
qed

subsection \<open>Compacting a group\<close>

definition compactStep :: "(json \<Rightarrow> string) \<Rightarrow> string \<Rightarrow> oaiMsg list \<Rightarrow> string \<Rightarrow> conversations \<Rightarrow> conversations" where
  "compactStep sp baseID h k d =
     (if k = baseID then d else AList.update k (encodedFrom sp baseID h (getOr emptyConversation d k)) d)"

lemma compactStep_lambda:
  "compactStep sp baseID h =
     (\<lambda>k d. if k = baseID then d
            else
              let v = getOr emptyConversation d k;
                  (n, delta) = portableTransition sp h (cvPortableMessages v)
              in AList.update k
                   (v\<lparr>cvPortableMessages := [], cvHistoryParent := baseID, cvHistoryDrop := int n,
                      cvPortableDelta := delta\<rparr>) d)"
  by (intro ext) (simp add: compactStep_def encodedFrom_def Let_def case_prod_beta)

lemma compactGroup_eq:
  "compactGroup env keys d =
     (if length keys < 2 \<or> list_ex (\<lambda>k. structured (getOr emptyConversation d k)) keys then d
      else
        let keys = sortBy (copiesBefore d) keys
        in case filter (\<lambda>k. cvResponseAlias (getOr emptyConversation d k)) keys of
             [] \<Rightarrow> d
           | baseID # _ \<Rightarrow>
               fold (compactStep (sePrint env) baseID
                  (boundedPortableMessages (sePrint env) (cvPortableMessages (getOr emptyConversation d baseID)))) keys d)"
  unfolding compactGroup_def compactStep_lambda Let_def by (rule refl)

lemma compactSteps_same:
  assumes "sessionsOK sp d" and "distinct ks" and "baseID \<noteq> []"
    and base: "map_of d baseID = Some b" "cvHistoryParent b = []" "cvResponseAlias b"
      "boundedPortableMessages sp (cvPortableMessages b) = h"
    and ks: "\<forall>k \<in> set ks. \<exists>v. map_of d k = Some v \<and> cvHistoryParent v = []"
  shows "sameSessions sp d (fold (compactStep sp baseID h) ks d)"
  using assms
proof (induction ks arbitrary: d)
  case Nil
  then show ?case by (simp add: same_refl)
next
  case (Cons k ks)
  let ?d = "compactStep sp baseID h k d"
  obtain v where v: "map_of d k = Some v" "cvHistoryParent v = []" using Cons.prems(8) by auto
  have same: "sameSessions sp d ?d"
  proof (cases "k = baseID")
    case True
    with Cons.prems(1) show ?thesis by (simp add: compactStep_def same_refl)
  next
    case False
    with encode_same [OF Cons.prems(1,4,5,3,6) v False Cons.prems(7)] v(1) show ?thesis
      by (simp add: compactStep_def getOr_def)
  qed
  have other: "map_of ?d j = map_of d j" if "j \<noteq> k \<or> j = baseID" for j
    using that by (auto simp: compactStep_def)
  have "sameSessions sp ?d (fold (compactStep sp baseID h) ks ?d)"
  proof (rule Cons.IH [OF same_OK [OF same] _ Cons.prems(3)])
    show "distinct ks" using Cons.prems(2) by simp
    show "map_of ?d baseID = Some b" using other Cons.prems(4) by simp
    show "\<forall>j \<in> set ks. \<exists>v. map_of ?d j = Some v \<and> cvHistoryParent v = []"
      using Cons.prems(2,8) other by (metis distinct.simps(2) list.set_intros(2))
  qed (use Cons.prems in auto)
  with same show ?case by (auto intro: same_trans)
qed

lemma compactGroup_same:
  assumes ok: "sessionsOK (sePrint env) d" and keys: "distinct keys" "set keys \<subseteq> fst ` set d" "[] \<notin> set keys"
  shows "sameSessions (sePrint env) d (compactGroup env keys d)"
proof (cases "length keys < 2 \<or> list_ex (\<lambda>k. structured (getOr emptyConversation d k)) keys")
  case True
  then show ?thesis using ok by (simp add: compactGroup_eq same_refl)
next
  case False
  let ?ks = "sortBy (copiesBefore d) keys"
  have present: "\<exists>v. map_of d k = Some v \<and> cvHistoryParent v = [] \<and> getOr emptyConversation d k = v"
    if "k \<in> set keys" for k
  proof -
    from that keys(2) have "k \<in> fst ` set d" by (rule rev_subsetD)
    then obtain v where v: "map_of d k = Some v" using map_of_eq_None_iff [of d k] by blast
    moreover have "\<not> structured (getOr emptyConversation d k)" using False that by (auto simp: list_ex_iff)
    ultimately show ?thesis by (simp add: getOr_def structured_def)
  qed
  show ?thesis
  proof (cases "filter (\<lambda>k. cvResponseAlias (getOr emptyConversation d k)) ?ks")
    case Nil
    with False ok show ?thesis by (simp add: compactGroup_eq same_refl Let_def)
  next
    case (Cons baseID rest)
    then have "baseID \<in> set (filter (\<lambda>k. cvResponseAlias (getOr emptyConversation d k)) ?ks)" by simp
    then have base: "baseID \<in> set keys" "cvResponseAlias (getOr emptyConversation d baseID)" by simp_all
    then obtain b where b: "map_of d baseID = Some b" "cvHistoryParent b = []" "getOr emptyConversation d baseID = b"
      using present by blast
    have "sameSessions (sePrint env) d (fold (compactStep (sePrint env) baseID
        (boundedPortableMessages (sePrint env) (cvPortableMessages b))) ?ks d)"
    proof (rule compactSteps_same [OF ok distinct_sortBy [OF keys(1)] _ b(1,2) _ refl])
      show "baseID \<noteq> []" using base(1) keys(3) by metis
      show "cvResponseAlias b" using base(2) b(3) by simp
      show "\<forall>k \<in> set ?ks. \<exists>v. map_of d k = Some v \<and> cvHistoryParent v = []"
        unfolding set_sortBy using present by blast
    qed
    moreover have "compactGroup env keys d = fold (compactStep (sePrint env) baseID
        (boundedPortableMessages (sePrint env) (cvPortableMessages b))) ?ks d"
      unfolding compactGroup_eq if_not_P [OF False] Let_def Cons list.case b(3) by (rule refl)
    ultimately show ?thesis by simp
  qed
qed

subsection \<open>Groups\<close>

lemma groupKeys_fold:
  "getOr [] (fold (\<lambda>(k, v) groups. case name k v of
                            None \<Rightarrow> groups
                          | Some g \<Rightarrow> AList.update g (getOr [] groups g @ [k]) groups) d acc) g
   = getOr [] acc g @ map fst (filter (\<lambda>(k, v). name k v = Some g) d)"
proof (induction d arbitrary: acc)
  case Nil
  then show ?case by simp
next
  case (Cons kv d)
  obtain k v where kv: "kv = (k, v)" by force
  show ?case
    unfolding kv fold.simps comp_apply case_prod_conv Cons.IH
    by (simp split: option.split)
qed

lemma groupKeys_wf: "wf_map (groupKeys name d)"
proof -
  have "wf_map (fold (\<lambda>(k, v) groups. case name k v of
                            None \<Rightarrow> groups
                          | Some g \<Rightarrow> AList.update g (getOr [] groups g @ [k]) groups) d acc)" if "wf_map acc" for acc
    using that
  proof (induction d arbitrary: acc)
    case (Cons kv d)
    obtain k v where kv: "kv = (k, v)" by force
    show ?case unfolding kv fold.simps comp_apply case_prod_conv
      by (rule Cons.IH) (use Cons.prems in \<open>simp split: option.split\<close>)
  qed simp
  then show ?thesis by (simp add: groupKeys_def)
qed

lemma groupKeys_members:
  assumes "(g, keys) \<in> set (groupKeys name d)"
  shows "keys = map fst (filter (\<lambda>(k, v). name k v = Some g) d)"
proof -
  have "map_of (groupKeys name d) g = Some keys" using groupKeys_wf assms by (rule map_of_is_SomeI)
  moreover have "getOr [] (groupKeys name d) g = map fst (filter (\<lambda>(k, v). name k v = Some g) d)"
    by (simp add: groupKeys_def groupKeys_fold getOr_def [of _ "[]"])
  ultimately show ?thesis by (simp add: getOr_def)
qed

lemma compactLegacy_same:
  assumes ok: "sessionsOK (sePrint env) d" and named: "[] \<notin> fst ` set d"
  shows "sameSessions (sePrint env) d (compactLegacyPortableCopies env d)"
  unfolding compactLegacyPortableCopies_def
proof (rule fold_same [OF ok])
  fix y e assume y: "y \<in> set (groupKeys (\<lambda>k v. Some (aliasGroupOf k v)) d)" and e: "sameSessions (sePrint env) d e"
  obtain g keys where gk: "y = (g, keys)" by force
  have keys: "keys = map fst (filter (\<lambda>(k, v). Some (aliasGroupOf k v) = Some g) d)"
    by (rule groupKeys_members) (use y gk in simp)
  have "distinct keys" unfolding keys using OK_distinct [OF ok] by (rule distinct_map_filter)
  moreover have "set keys \<subseteq> fst ` set d" unfolding keys by auto
  moreover have "fst ` set e = fst ` set d" using arg_cong [OF same_keys [OF e], of set] by simp
  ultimately show "sameSessions (sePrint env) e ((\<lambda>(_, keys). compactGroup env keys) y e)"
    unfolding gk case_prod_conv using named by (intro compactGroup_same [OF same_OK [OF e]]) auto
qed

subsection \<open>Loading what was written\<close>

lemma classifyLegacy_none:
  assumes "\<And>k v. (k, v) \<in> set d \<Longrightarrow> cvAliasGroup v \<noteq> []"
  shows "classifyLegacy d = d"
proof -
  have "fold (\<lambda>(k, v) groups. case (if legacyRecord v then Some (legacyGroupKey v) else None) of
                            None \<Rightarrow> groups
                          | Some g \<Rightarrow> AList.update g (getOr [] groups g @ [k]) groups) e acc = acc"
    if "set e \<subseteq> set d" for e acc
    using that
  proof (induction e)
    case (Cons kv e)
    obtain k v where kv: "kv = (k, v)" by force
    with Cons.prems assms have "\<not> legacyRecord v" by (auto simp: legacyRecord_def)
    with Cons kv show ?case by simp
  qed simp
  then show ?thesis by (simp add: classifyLegacy_def groupKeys_def)
qed

lemma map_of_normalize:
  "map_of (map (\<lambda>(k, v). (k, f k v)) d) x = map_option (f x) (map_of d x)"
  by (induction d) auto

lemma normalize_fields:
  assumes "goodNode (sePrint env) d x v"
  shows "cvHistoryParent (normalizeLoaded env x v) = cvHistoryParent v"
    and "cvHistoryDrop (normalizeLoaded env x v) = cvHistoryDrop v"
    and "cvPortableDelta (normalizeLoaded env x v) = cvPortableDelta v"
    and "cvPortableMessages (normalizeLoaded env x v) = boundedPortableMessages (sePrint env) (cvPortableMessages v)"
    and "boundedHistory (sePrint env) (boundedPortableMessages (sePrint env) (cvPortableMessages v))"
    and "cvID (normalizeLoaded env x v) = x"
  using assms bounded_fixed [of "cvPortableMessages v" "sePrint env"] clone_wf [of "cvPortableDelta v" "sePrint env"]
  by (simp_all add: normalizeLoaded_def goodNode_def sanitizePortableDelta_def)

lemma normalize_alias: "cvResponseAlias (normalizeLoaded env x v) = cvResponseAlias v"
  by (simp add: normalizeLoaded_def)

lemma normalize_history:
  "sessionsOK (sePrint env) d \<Longrightarrow>
   materializeHistory (sePrint env) (map (\<lambda>(k, v). (k, normalizeLoaded env k v)) d) visiting x
     = materializeHistory (sePrint env) d visiting x"
proof (induction "sePrint env" d visiting x rule: materializeHistory.induct)
  case (1 d visiting x)
  show ?case
  proof (cases "map_of d x")
    case None
    then show ?thesis by (subst (1 2) materializeHistory.simps) (simp add: map_of_normalize)
  next
    case (Some v)
    note fields = normalize_fields [OF sessionsOK_node [OF 1(2) Some]]
    have m: "boundedPortableMessages (sePrint env) (boundedPortableMessages (sePrint env) (cvPortableMessages v))
        = boundedPortableMessages (sePrint env) (cvPortableMessages v)"
      using fields(5) by (simp add: boundedHistory_def)
    show ?thesis
    proof (cases "x \<in> set visiting \<or> cvHistoryParent v = []")
      case True
      with Some m show ?thesis
        by (subst (1 2) materializeHistory.simps) (auto simp: map_of_normalize fields)
    next
      case False
      with 1(1) [OF Some _ _ 1(2)] Some show ?thesis
        by (subst (1 2) materializeHistory.simps) (simp add: map_of_normalize fields cong: sum.case_cong if_cong)
    qed
  qed
qed

lemma normalize_same:
  assumes ok: "sessionsOK (sePrint env) d" and groups: "\<And>k v. (k, v) \<in> set d \<Longrightarrow> cvAliasGroup v \<noteq> []"
  shows "sameSessions (sePrint env) d (map (\<lambda>(k, v). (k, normalizeLoaded env k v)) d)"
proof -
  let ?d = "map (\<lambda>(k, v). (k, normalizeLoaded env k v)) d"
  have keys: "map fst ?d = map fst d" by (simp add: case_prod_unfold comp_def)
  have old: "\<exists>v. map_of d x = Some v \<and> rooted [] v' = rooted [] v \<and> v' = normalizeLoaded env x v \<and> goodNode (sePrint env) d x v"
    if "map_of ?d x = Some v'" for x v'
  proof -
    from that obtain v where v: "map_of d x = Some v" "v' = normalizeLoaded env x v" by (auto simp: map_of_normalize)
    moreover have "goodNode (sePrint env) d x v" by (rule sessionsOK_node [OF ok v(1)])
    moreover have "cvAliasGroup v \<noteq> []" by (rule groups) (rule map_of_SomeD [OF v(1)])
    ultimately show ?thesis by (cases v) (simp add: normalizeLoaded_def rooted_def goodNode_def)
  qed
  have "goodNode (sePrint env) ?d x v'" if x: "map_of ?d x = Some v'" for x v'
  proof -
    from old [OF x] obtain v where v: "map_of d x = Some v" "v' = normalizeLoaded env x v" "goodNode (sePrint env) d x v"
      by blast
    note f = normalize_fields [OF v(3)]
    have "\<exists>p. map_of ?d (cvHistoryParent v) = Some p \<and> cvResponseAlias p" if "cvHistoryParent v \<noteq> []"
    proof -
      from v(3) that obtain p where "map_of d (cvHistoryParent v) = Some p" "cvResponseAlias p" by (auto simp: goodNode_def)
      then show ?thesis by (simp add: map_of_normalize normalize_alias)
    qed
    with v(3) f show ?thesis
      unfolding v(2) goodNode_def normalize_history [OF ok] by (simp add: boundedHistory_def)
  qed
  moreover have "wf_map ?d" unfolding keys by (rule OK_distinct [OF ok])
  ultimately have "sessionsOK (sePrint env) ?d" by (simp add: sessionsOK_def)
  moreover have "\<exists>v. map_of d x = Some v \<and> rooted [] v' = rooted [] v" if "map_of ?d x = Some v'" for x v'
    using old [OF that] by blast
  ultimately show ?thesis using keys unfolding sameSessions_def normalize_history [OF ok] by blast
qed

lemma migrate_same:
  assumes ok: "sessionsOK (sePrint env) d" and groups: "\<And>k v. (k, v) \<in> set d \<Longrightarrow> cvAliasGroup v \<noteq> []"
    and named: "[] \<notin> fst ` set d"
  shows "sameSessions (sePrint env) d (migrateSessions env d)"
proof -
  have n: "sameSessions (sePrint env) d (map (\<lambda>(k, v). (k, normalizeLoaded env k v)) d)"
    by (rule normalize_same [OF ok]) (rule groups)
  have c: "classifyLegacy d = d" by (rule classifyLegacy_none) (rule groups)
  have "[] \<notin> fst ` set (map (\<lambda>(k, v). (k, normalizeLoaded env k v)) d)"
    using named by (simp add: image_image case_prod_unfold)
  from same_trans [OF n compactLegacy_same [OF same_OK [OF n] this]] show ?thesis
    by (simp add: migrateSessions_def c)
qed

text \<open>Nothing to prune.\<close>

lemma pruneSessions_id:
  assumes "\<And>k v. (k, v) \<in> set d \<Longrightarrow> \<not> expiredAt now k v"
    and "\<And>g. length (groupMembers g d) \<le> maxResponseAliasesPerSession"
    and "length d \<le> maxStoredSessions" and "seSize env d \<le> maxSessionStoreBytes"
  shows "pruneSessions env now pins d = d"
proof -
  have "fold (\<lambda>(k, v) d. if expiredAt now k v then evict env pins k d else d) e acc = acc" if "set e \<subseteq> set d" for e acc
    using that
  proof (induction e arbitrary: acc)
    case (Cons kv e)
    obtain k v where "kv = (k, v)" by force
    with Cons assms(1) [of k v] show ?case by simp
  qed simp
  then have e: "pruneExpired env now pins d = d" by (simp add: pruneExpired_def)
  have small: "length l \<le> maxResponseAliasesPerSession" if gl: "(g, l) \<in> set (aliasesByGroup d)" for g l
  proof -
    have "wf_map (fold (\<lambda>(_, v) groups.
             if cvResponseAlias v
             then (let group = (if cvAliasGroup v = [] then cvID v else cvAliasGroup v)
                   in AList.update group (getOr [] groups group @ [v]) groups)
             else groups) e acc)" if "wf_map acc" for acc and e :: conversations
      using that by (induction e arbitrary: acc) (auto simp: Let_def split: prod.splits)
    then have "map_of (aliasesByGroup d) g = Some l"
      using gl by (intro map_of_is_SomeI) (simp_all add: aliasesByGroup_def)
    then have "l = groupMembers g d" using aliasesByGroup_members [of d g] by (simp add: getOr_def)
    with assms(2) show ?thesis by simp
  qed
  have "fold (\<lambda>(_, aliases) d.
             if length aliases \<le> maxResponseAliasesPerSession then d
             else fold (\<lambda>v. evict env pins (cvID v))
                    (drop maxResponseAliasesPerSession
                       (sortBy (\<lambda>a b. cvUpdatedAt a > cvUpdatedAt b) aliases)) d) gs acc = acc"
    if "set gs \<subseteq> set (aliasesByGroup d)" for gs acc
    using that
  proof (induction gs arbitrary: acc)
    case (Cons gl gs)
    obtain g l where gl: "gl = (g, l)" by force
    with Cons.prems have "length l \<le> maxResponseAliasesPerSession" by (intro small [of g]) simp
    with Cons gl show ?case by simp
  qed simp
  then have a: "pruneAliases env pins d = d" by (simp add: pruneAliases_def)
  show ?thesis
    using assms(3,4) by (simp add: pruneSessions_def e a pruneCount_def pruneSerializedBytes_def)
qed

lemma open_law:
  assumes ok: "sessionsOK (sePrint env) d" and groups: "\<And>k v. (k, v) \<in> set d \<Longrightarrow> cvAliasGroup v \<noteq> []"
    and named: "[] \<notin> fst ` set d"
  shows "openSessionStore env now (SessionFile d) writes =
      (if writes = [] \<or> hd writes
       then Inr \<lparr>ssData = pruneSessions env now [] (migrateSessions env d), ssPins = [],
                 ssFile = File (Some (pruneSessions env now [] (migrateSessions env d))) (tl writes)\<rparr>
       else Inl SessWriteFailed)"
proof -
  have m: "sameSessions (sePrint env) d (migrateSessions env d)"
    by (rule migrate_same [OF ok _ named]) (rule groups)
  have "\<not> isl (historyOf env (migrateSessions env d) k)" if "k \<in> set (map fst (migrateSessions env d))" for k
  proof -
    from that obtain v where "map_of (migrateSessions env d) k = Some v"
      using map_of_eq_None_iff [of "migrateSessions env d" k] by auto
    then obtain h where "historyOf env (migrateSessions env d) k = Inr h" using sessionsOK_history [OF same_OK [OF m]] by metis
    then show ?thesis by simp
  qed
  then have find: "List.find (\<lambda>k. isl (historyOf env (migrateSessions env d) k)) (map fst (migrateSessions env d)) = None"
    by (simp only: find_None_iff) blast
  show ?thesis
    unfolding openSessionStore_def Let_def sessionFileRead.case find option.case
    by (cases writes) (simp_all split: bool.split)
qed

end
