(* ===== verification/PortableProps.thy ===== *)
theory PortableProps
  imports PortableLaws
begin

text \<open>Properties of portable history, with the examples their witnesses use.\<close>

subsection \<open>Which messages survive\<close>

lemma concat_toolUnits [simp]: "concat (toolUnits ms) = ms"
  by (induction ms rule: toolUnits.induct) auto

lemma selectUnits_suffix:
  "\<forall>u \<in> set us. clonePortableMessages u = u \<Longrightarrow>
   \<exists>k. selectUnits a sel us = concat (rev (take k us)) @ sel"
proof (induction a sel us rule: selectUnits.induct)
  case (1 a sel)
  then show ?case by simp
next
  case (2 a sel u us)
  show ?case
  proof (cases "historyFits (cloneMsg a # (clonePortableMessages u @ sel))")
    case False
    then have "selectUnits a sel (u # us) = concat (rev (take 0 (u # us))) @ sel" by (simp add: Let_def)
    then show ?thesis by blast
  next
    case True
    with 2 obtain k where "selectUnits a (u @ sel) us = concat (rev (take k us)) @ u @ sel" by (auto simp: Let_def)
    with True 2(2) have "selectUnits a sel (u # us) = concat (rev (take (Suc k) (u # us))) @ sel" by (simp add: Let_def)
    then show ?thesis by blast
  qed
qed

text \<open>
  The sanitized transcript is kept whole when it fits. Otherwise the newest user message is kept
  with the newest units behind it, a unit being an assistant message with its tool results.
\<close>

lemma bounded_keeps:
  assumes wf: "wfMsgs sprint clean" and big: "\<not> historyFits clean" "clean \<noteq> []"
    and split: "clean = before @ user # behind" "isUser user" "\<forall>m \<in> set behind. \<not> isUser m"
  shows "\<exists>k. boundedPortableMessages sprint clean = user # concat (drop k (toolUnits behind))"
proof -
  have tw: "takeWhile (\<lambda>m. \<not> isUser m) (rev clean) = rev behind"
    and dw: "dropWhile (\<lambda>m. \<not> isUser m) (rev clean) = user # rev before"
    using split by (simp_all add: takeWhile_append dropWhile_append)
  have eq: "boundedPortableMessages sprint clean = clonePortableMessages (user # selectUnits user [] (rev (toolUnits behind)))"
    using big wf by (simp add: boundedPortableMessages_def Let_def tw dw)
  have "\<forall>u \<in> set (toolUnits behind). set u \<subseteq> set behind" by (rule toolUnits_set)
  then have units: "\<forall>u \<in> set (rev (toolUnits behind)). clonePortableMessages u = u"
    using wf split(1) clone_wf by (metis (no_types, lifting) Un_iff in_mono list.set_intros(2) set_append set_rev)
  from selectUnits_suffix [OF this, of user "[]"] obtain k where
    "selectUnits user [] (rev (toolUnits behind)) = concat (rev (take k (rev (toolUnits behind))))" by auto
  then have sel: "selectUnits user [] (rev (toolUnits behind))
      = concat (drop (length (toolUnits behind) - k) (toolUnits behind))" by (simp add: take_rev)
  have "set (concat (drop (length (toolUnits behind) - k) (toolUnits behind))) \<subseteq> set behind"
    by (metis concat_append concat_toolUnits append_take_drop_id set_append sup_ge2)
  then have "wfMsgs sprint (user # concat (drop (length (toolUnits behind) - k) (toolUnits behind)))"
    using wf split(1) by auto
  then have "clonePortableMessages (user # concat (drop (length (toolUnits behind) - k) (toolUnits behind)))
      = user # concat (drop (length (toolUnits behind) - k) (toolUnits behind))" by (rule clone_wf)
  with eq sel show ?thesis by auto
qed

subsection \<open>Merging a transcript that is sent again\<close>

lemma overlap_maximal: "overlapAt l r n \<Longrightarrow> n \<le> m \<Longrightarrow> n \<le> largestOverlap l r m"
  by (induction l r m rule: largestOverlap.induct) (auto simp: le_Suc_eq)

lemma equal_refl: "portableMessageEqual m m"
  by (simp add: portableMessageEqual_def)

lemma merge_resend:
  assumes "boundedHistory sprint h" and "boundedHistory sprint (h @ new)"
  shows "mergePortableMessages sprint h (h @ new) = h @ new"
proof -
  have b: "boundedPortableMessages sprint h = h" "boundedPortableMessages sprint (h @ new) = h @ new"
    using assms by (simp_all add: boundedHistory_def)
  have "overlapAt h (h @ new) (length h)"
    by (simp add: overlapAt_def list.rel_refl equal_refl)
  then have "length h \<le> overlapOf h (h @ new)" unfolding overlapOf_def by (rule overlap_maximal) simp
  moreover have "overlapOf h (h @ new) \<le> length h"
    unfolding overlapOf_def using largestOverlap_le [of h "h @ new" "min (length h) (length (h @ new))"] by simp
  ultimately have "overlapOf h (h @ new) = length h" by simp
  moreover have "clonePortableMessages h = h" by (rule clone_wf [OF boundedHistory_wf [OF assms(1)]])
  ultimately show ?thesis by (simp add: mergePortableMessages_def b Let_def)
qed

subsection \<open>Example messages\<close>

definition textMsg :: "string \<Rightarrow> string \<Rightarrow> oaiMsg" where
  "textMsg role t = emptyMsg\<lparr>msgRole := role, msgContent := JStr t\<rparr>"

lemma okText_ascii: "list_all (\<lambda>c. byteVal c < 128) s \<Longrightarrow> length s < 10 ^ 36 \<Longrightarrow> okText s"
  using ValidString_ascii by (simp add: okText_def list_all_iff)

lemma okText_Nil [simp]: "okText []"
  by (simp add: okText_def)

lemma textMsg_valid: "okText role \<Longrightarrow> okText t \<Longrightarrow> validMsg sprint (textMsg role t)"
  by (simp add: validMsg_def textMsg_def emptyMsg_def contentToString_def)

lemma okText_words:
  "okText ''user''" "okText ''assistant''" "okText ''hello''" "okText ''hi''" "okText ''more''" "okText ''done''"
  by (rule okText_ascii; simp)+

lemmas example_valid = textMsg_valid okText_words

subsection \<open>Properties\<close>

text \<open>CompactPortableUTF8 never exceeds its limit and never cuts inside a rune: the result of a
  valid value is valid UTF-8 within the limit, a second pass leaves it alone, a value that fits is only
  trimmed, and one that does not keeps a valid head and tail around a marker with the exact number of
  omitted bytes.\<close>

lemma portable_value_bounds:
  assumes "ValidString v" and "length v < 10 ^ 36" and "76 \<le> limit"
  shows "length (compactPortableUTF8 v limit) \<le> limit \<and> ValidString (compactPortableUTF8 v limit)
    \<and> compactPortableUTF8 (compactPortableUTF8 v limit) limit = compactPortableUTF8 v limit
    \<and> (if length (TrimSpace v) \<le> limit then compactPortableUTF8 v limit = TrimSpace v
       else \<exists>h t. h \<noteq> [] \<and> t \<noteq> [] \<and> prefix h (TrimSpace v) \<and> suffix t (TrimSpace v) \<and> ValidString h \<and> ValidString t
         \<and> compactPortableUTF8 v limit = h @ truncationMarker (length (TrimSpace v) - length h - length t) @ t)"
proof -
  have trim: "ValidString (TrimSpace v)" "length (TrimSpace v) < 10 ^ 36"
    using assms(1,2) TrimSpace_length [of v] by (simp_all add: TrimSpace_valid)
  have eq: "compactPortableUTF8 v limit = compactPortableUTF8 (TrimSpace v) limit" by (simp add: compactPortableUTF8_def)
  have "compactPortableUTF8 v limit = TrimSpace v" if "length (TrimSpace v) \<le> limit"
    using that by (simp add: compactPortableUTF8_def Let_def)
  moreover have "\<exists>h t. h \<noteq> [] \<and> t \<noteq> [] \<and> prefix h (TrimSpace v) \<and> suffix t (TrimSpace v) \<and> ValidString h \<and> ValidString t
         \<and> compactPortableUTF8 v limit = h @ truncationMarker (length (TrimSpace v) - length h - length t) @ t"
    if "\<not> length (TrimSpace v) \<le> limit"
    using compact_cut [OF trim(1) TrimSpace_idem trim(2) assms(3)] that unfolding eq by (metis not_le)
  ultimately show ?thesis using compact_law [OF assms] by simp
qed

lemma portable_value_bounds_witness:
  "length (compactPortableUTF8 (replicate 100 (CHR ''a'')) 80) \<le> 80
   \<and> ValidString (compactPortableUTF8 (replicate 100 (CHR ''a'')) 80)"
proof -
  have "ValidString (replicate 100 (CHR ''a''))" by (rule ValidString_ascii) simp
  then show ?thesis using portable_value_bounds [of "replicate 100 (CHR ''a'')" 80] by simp
qed

text \<open>C16: boundedPortableMessages of a decoded transcript is within 1537 messages and 8 MiB or a single
  message; it contains sanitized messages only and a second pass leaves it alone; a sanitized transcript
  that fits is kept whole, and otherwise the newest user message is kept with the newest units behind it,
  so that no tool result is separated from its call.\<close>

theorem portable_history_bounded:
  fixes sprint :: "json \<Rightarrow> string" and ms :: "oaiMsg list"
  assumes "validMsgs sprint ms"
  defines "clean \<equiv> List.map_filter (sanitizePortableMessage sprint) ms"
    and "b \<equiv> boundedPortableMessages sprint ms"
  shows "(length b \<le> maxPortableMessages \<and> portableMessagesBytes b \<le> maxPortableHistoryBytes \<or> length b \<le> 1)
    \<and> set b \<subseteq> set clean \<and> boundedPortableMessages sprint b = b \<and> (historyFits clean \<longrightarrow> b = clean)
    \<and> (\<forall>before user behind. \<not> historyFits clean \<longrightarrow> clean = before @ user # behind \<longrightarrow> isUser user \<longrightarrow>
        (\<forall>m \<in> set behind. \<not> isUser m) \<longrightarrow> (\<exists>k. b = user # concat (drop k (toolUnits behind))))"
proof -
  have wf: "wfMsgs sprint clean" unfolding clean_def by (rule map_filter_tame [OF validMsgs_tames [OF assms(1)]])
  have b: "b = boundedPortableMessages sprint clean"
    unfolding b_def clean_def by (rule bounded_filter [OF validMsgs_tames [OF assms(1)]])
  have "set b \<subseteq> set clean \<and> (historyFits b \<or> length b \<le> 1)" unfolding b by (rule bounded_wf [OF wf])
  moreover have "boundedPortableMessages sprint b = b"
    using bounded_fixed [OF wf] by (simp add: b boundedHistory_def)
  moreover have "b = clean" if "historyFits clean" using bounded_fits [OF wf that] by (simp add: b)
  moreover have "\<exists>k. b = user # concat (drop k (toolUnits behind))"
    if "\<not> historyFits clean" "clean = before @ user # behind" "isUser user" "\<forall>m \<in> set behind. \<not> isUser m"
    for before user behind
    unfolding b by (rule bounded_keeps [OF wf that(1) _ that(2-4)]) (use that(2) in simp)
  ultimately show ?thesis unfolding historyFits_def by blast
qed

theorem portable_history_bounded_witness:
  "length (boundedPortableMessages (\<lambda>_. []) [textMsg ''user'' ''hello'', textMsg ''assistant'' ''hi'']) \<le> maxPortableMessages"
  using portable_history_bounded [of "[textMsg ''user'' ''hello'', textMsg ''assistant'' ''hi'']" "\<lambda>_. []"]
  by (auto simp: example_valid maxPortableMessages_def maxRecoverableToolRounds_def)

text \<open>C17: portableTransition is exact: what sessions.go does with the dropped prefix and the delta
  reconstructs the bounded target history from the bounded parent history, message for message.\<close>

theorem transition_roundtrip:
  assumes "validMsgs sprint parent" and "validMsgs sprint tgt"
    and "portableTransition sprint parent tgt = (n, delta)"
  shows "n \<le> length (boundedPortableMessages sprint parent)
    \<and> boundedPortableMessages sprint
        (clonePortableMessages (drop n (boundedPortableMessages sprint parent)) @ clonePortableMessages delta)
      = boundedPortableMessages sprint tgt"
proof -
  have p: "boundedHistory sprint (boundedPortableMessages sprint parent)"
    and t: "boundedHistory sprint (boundedPortableMessages sprint tgt)"
    using assms(1,2) by (auto intro!: bounded_tame validMsg_tame)
  have "portableTransition sprint (boundedPortableMessages sprint parent) (boundedPortableMessages sprint tgt) = (n, delta)"
    using assms(3) p t by (simp add: portableTransition_def boundedHistory_def)
  from transition_exact [OF p t this] show ?thesis by (simp add: applyTransition_def)
qed

theorem transition_roundtrip_witness:
  "\<exists>n delta. boundedPortableMessages (\<lambda>_. [])
      (clonePortableMessages (drop n (boundedPortableMessages (\<lambda>_. []) [textMsg ''user'' ''hello''])) @ clonePortableMessages delta)
    = boundedPortableMessages (\<lambda>_. []) [textMsg ''user'' ''hello'', textMsg ''assistant'' ''hi'']"
proof -
  obtain n delta where "portableTransition (\<lambda>_. []) [textMsg ''user'' ''hello'']
      [textMsg ''user'' ''hello'', textMsg ''assistant'' ''hi''] = (n, delta)" by force
  from transition_roundtrip [OF _ _ this] show ?thesis by (auto simp: example_valid)
qed

text \<open>A client that sends the stored transcript again with new messages behind it gets exactly that
  transcript: mergePortableMessages repeats and loses nothing, and merging nothing changes nothing.\<close>

lemma resend_is_absorbed:
  assumes "validMsgs sprint ms" and "validMsgs sprint new"
    and "boundedPortableMessages sprint (boundedPortableMessages sprint ms @ new) = boundedPortableMessages sprint ms @ new"
  shows "mergePortableMessages sprint (boundedPortableMessages sprint ms) (boundedPortableMessages sprint ms @ new)
      = boundedPortableMessages sprint ms @ new
    \<and> mergePortableMessages sprint (boundedPortableMessages sprint ms) [] = boundedPortableMessages sprint ms"
proof -
  let ?h = "boundedPortableMessages sprint ms"
  have h: "boundedHistory sprint ?h" by (rule bounded_tame [OF validMsgs_tames [OF assms(1)]])
  then have t: "tames sprint (?h @ new)" using assms(2) validMsg_tame wfMsg_tame by (auto simp: boundedHistory_def)
  have "boundedHistory sprint (?h @ new)" using bounded_tame [OF t] assms(3) by simp
  with h have "mergePortableMessages sprint ?h (?h @ new) = ?h @ new" by (rule merge_resend)
  moreover have "mergePortableMessages sprint ?h [] = ?h"
  proof -
    have "boundedPortableMessages sprint [] = []"
      by (simp add: boundedPortableMessages_def List.map_filter_simps)
    moreover have "clonePortableMessages ?h = ?h" by (rule clone_wf [OF boundedHistory_wf [OF h]])
    ultimately show ?thesis using h by (simp add: mergePortableMessages_def boundedHistory_def)
  qed
  ultimately show ?thesis ..
qed

lemma resend_is_absorbed_witness:
  "mergePortableMessages (\<lambda>_. []) (boundedPortableMessages (\<lambda>_. []) [textMsg ''user'' ''hello''])
      (boundedPortableMessages (\<lambda>_. []) [textMsg ''user'' ''hello''] @ [])
    = boundedPortableMessages (\<lambda>_. []) [textMsg ''user'' ''hello''] @ []"
proof -
  have v: "validMsgs (\<lambda>_. []) [textMsg ''user'' ''hello'']" by (simp add: example_valid)
  have "boundedPortableMessages (\<lambda>_. []) (boundedPortableMessages (\<lambda>_. []) [textMsg ''user'' ''hello''] @ [])
      = boundedPortableMessages (\<lambda>_. []) [textMsg ''user'' ''hello''] @ []"
    using bounded_tame [OF validMsgs_tames [OF v]] by (simp add: boundedHistory_def)
  from resend_is_absorbed [OF v _ this] show ?thesis by simp
qed

end
