(* ===== verification/SessionProps.thy ===== *)
theory SessionProps
  imports SessionOpen PortableProps
begin

text \<open>Properties of the session store, with the example stores their witnesses use.\<close>

subsection \<open>Helpers\<close>





text \<open>Which commits have an error.\<close>

lemma commitNode_total:
  assumes "sessionsOK (sePrint env) d" and "\<And>v. map_of d targetID = Some v \<Longrightarrow> \<not> cvResponseAlias v"
    and "boundedHistory (sePrint env) h"
  shows "\<exists>n. commitNode env d (commitParent sourceID targetID (map_of d sourceID)) h t = Inr n"
proof -
  let ?p = "commitParent sourceID targetID (map_of d sourceID)"
  have "?p = [] \<or> map_of d ?p \<noteq> None"
    using commitParent_alias [OF assms(1,2) refl] by (metis option.distinct(1))
  then show ?thesis using commitNode_law [OF assms(1,3)] by metis
qed

lemma commitData_total:
  assumes ok: "sessionsOK (sePrint env) d" and valid: "validMsgs (sePrint env) request" "validMsg (sePrint env) assistant"
    and free: "snapshotsFree d sourceID targetID advanceSource"
  shows "(\<exists>e. commitData env now sourceID targetID request assistant advanceSource d = Inl e) \<longleftrightarrow>
    map_of d sourceID = None \<and> sourceID \<noteq> targetID \<and> (map_of d targetID = None \<or> \<not> advanceSource \<and> sourceID \<noteq> [])"
proof -
  let ?h = "committedHistory (sePrint env) d sourceID targetID request assistant"
  have h: "boundedHistory (sePrint env) ?h"
    by (rule committedHistory_bounded [OF ok validMsgs_tames [OF valid(1)] validMsg_tame [OF valid(2)]])
  have node: "\<exists>n. commitNode env d (commitParent sourceID targetID (map_of d sourceID)) ?h t = Inr n" for t
    by (rule commitNode_total [OF ok _ h]) (use free in \<open>simp add: snapshotsFree_def\<close>)
  have target: "commitTarget sourceID targetID (map_of d sourceID) (map_of d targetID) = None \<longleftrightarrow>
      map_of d targetID = None \<and> map_of d sourceID = None \<and> sourceID \<noteq> targetID"
    by (auto simp: commitTarget_def split: option.splits)
  show ?thesis
  proof (cases "\<not> advanceSource \<and> sourceID \<noteq> [] \<and> sourceID \<noteq> targetID \<and> map_of d sourceID = None")
    case True
    then show ?thesis by (simp add: commitData_def Let_def)
  next
    case False
    show ?thesis
    proof (cases "commitTarget sourceID targetID (map_of d sourceID) (map_of d targetID)")
      case None
      with False target show ?thesis by (auto simp: commitData_def Let_def)
    next
      case (Some t)
      obtain n where "commitNode env d (commitParent sourceID targetID (map_of d sourceID)) ?h
          (commitGroup sourceID targetID (map_of d sourceID) (t\<lparr>cvUpdatedAt := now\<rparr>)) = Inr n" using node by blast
      with False Some have "commitData env now sourceID targetID request assistant advanceSource d \<noteq> Inl e" for e
        by (auto simp: commitData_def Let_def commitHistory_eq [OF ok])
      with False Some target show ?thesis by auto
    qed
  qed
qed

lemma writeFile_outcome: "fst (writeFile v f) \<longleftrightarrow> outcomes f = [] \<or> hd (outcomes f)"
  by (cases "(v, f)" rule: writeFile.cases) auto

definition writeFails :: "sessionStore \<Rightarrow> bool" where
  "writeFails s \<longleftrightarrow> outcomes (ssFile s) \<noteq> [] \<and> \<not> hd (outcomes (ssFile s))"

lemma persist_outcome:
  "persistSessions env now undo d s = (ok, s') \<Longrightarrow> (ok \<longleftrightarrow> \<not> writeFails s)
     \<and> (\<not> ok \<longrightarrow> ssData s' = undo d \<and> contents (ssFile s') = contents (ssFile s))"
  using writeFile_outcome [of "preparePersist env now (ssPins s) d" "ssFile s"]
  by (auto simp: persistSessions_def writeFails_def Let_def dest: writeFile_fail split: prod.splits bool.splits)

lemma commit_error_law:
  assumes inv: "storeInv (sePrint env) s" and valid: "validMsgs (sePrint env) request" "validMsg (sePrint env) assistant"
    and free: "snapshotsFree (ssData s) sourceID targetID advanceSource"
    and c: "commitResponse env now sourceID targetID request assistant advanceSource s = (r, s')"
  shows "isl r \<longleftrightarrow>
       blank targetID \<or> length targetID > maxSessionKeyLength
     \<or> map_of (ssData s) sourceID = None \<and> sourceID \<noteq> targetID
         \<and> (map_of (ssData s) targetID = None \<or> \<not> advanceSource \<and> sourceID \<noteq> [])
     \<or> writeFails s"
    and "isl r \<Longrightarrow> ssData s' = ssData s \<and> contents (ssFile s') = contents (ssFile s)"
proof -
  note total = commitData_total [OF storeInv_OK [OF inv] valid free, where now = now]
  from c show "isl r \<longleftrightarrow>
       blank targetID \<or> length targetID > maxSessionKeyLength
     \<or> map_of (ssData s) sourceID = None \<and> sourceID \<noteq> targetID
         \<and> (map_of (ssData s) targetID = None \<or> \<not> advanceSource \<and> sourceID \<noteq> [])
     \<or> writeFails s"
  proof (cases rule: commit_cases)
    case (refused e)
    with total show ?thesis by auto
  next
    case (written d undo ok)
    moreover from c written(1,2) have "\<not> length targetID > maxSessionKeyLength \<or> isl r"
      by (auto simp: commitResponse_def)
    moreover have "\<not> length targetID > maxSessionKeyLength"
    proof
      assume "length targetID > maxSessionKeyLength"
      with c have "r = Inl SessInvalidKey" by (simp add: commitResponse_def)
      with written(5) show False by (simp split: if_splits)
    qed
    ultimately show ?thesis using total persist_outcome [OF written(4)] by (auto split: if_splits)
  qed
  from c show "isl r \<Longrightarrow> ssData s' = ssData s \<and> contents (ssFile s') = contents (ssFile s)"
  proof (cases rule: commit_cases)
    case (written d undo ok)
    then show "isl r \<Longrightarrow> ?thesis" using persist_outcome [OF written(4)] by (auto split: if_splits)
  qed simp
qed

subsection \<open>Example stores\<close>

definition exampleEnv :: sessionEnv where
  "exampleEnv = \<lparr>sePrint = (\<lambda>_. []), seSize = (\<lambda>d. 100 * int (length d)), seUUID = ''u-1''\<rparr>"

definition exampleConversation :: "string \<Rightarrow> string \<Rightarrow> bool \<Rightarrow> conversation" where
  "exampleConversation sid account snap =
     emptyConversation\<lparr>cvID := sid, cvAccountID := account, cvAliasGroup := ''thread'', cvResponseAlias := snap,
       cvRouteGeneration := 5, cvCreatedAt := 10, cvUpdatedAt := 10\<rparr>"

text \<open>A snapshot and a stable head without messages.\<close>

definition exampleSessions :: sessionStore where
  "exampleSessions =
     \<lparr>ssData = [(''resp'', exampleConversation ''resp'' ''a'' True), (''thread'', exampleConversation ''thread'' ''b'' False)],
      ssPins = [], ssFile = File (Some [(''resp'', exampleConversation ''resp'' ''a'' True),
        (''thread'', exampleConversation ''thread'' ''b'' False)]) []\<rparr>"

lemma example_fields [simp]:
  "cvID (exampleConversation sid a b) = sid" "cvAccountID (exampleConversation sid a b) = a"
  "cvResponseAlias (exampleConversation sid a b) = b" "cvHistoryParent (exampleConversation sid a b) = []"
  "cvPortableMessages (exampleConversation sid a b) = []" "cvPortableDelta (exampleConversation sid a b) = []"
  "cvRouteGeneration (exampleConversation sid a b) = 5" "cvUpdatedAt (exampleConversation sid a b) = 10"
  "cvAliasGroup (exampleConversation sid a b) = ''thread''"
  by (simp_all add: exampleConversation_def emptyConversation_def)

lemma example_inv: "storeInv (sePrint exampleEnv) exampleSessions"
proof -
  have "goodNode sp d k (exampleConversation k a b)" if "map_of d k = Some (exampleConversation k a b)" for sp d k a b
    using that by (simp add: goodNode_def history_node)
  then have "sessionsOK (sePrint exampleEnv) (ssData exampleSessions)"
    by (auto simp: sessionsOK_def exampleSessions_def split: if_splits)
  then show ?thesis by (simp add: storeInv_def insync_def exampleSessions_def)
qed

subsection \<open>Properties\<close>




lemma example_free: "snapshotsFree (ssData exampleSessions) ''thread'' ''new'' True"
  by (simp add: snapshotsFree_def exampleSessions_def)

lemma new_not_blank: "\<not> blank ''new''"
  by (rule plainLead_not_blank) (simp add: plainLead_def asciiSpace_def)

lemma example_commit:
  "\<exists>c s'. commitResponse exampleEnv 20 ''thread'' ''new'' [textMsg ''user'' ''hello''] (textMsg ''assistant'' ''hi'') True
     exampleSessions = (Inr c, s')"
proof -
  obtain r s' where c: "commitResponse exampleEnv 20 ''thread'' ''new'' [textMsg ''user'' ''hello''] (textMsg ''assistant'' ''hi'') True
     exampleSessions = (r, s')" by force
  have "\<not> isl r"
    using commit_error_law(1) [OF example_inv _ _ example_free c] new_not_blank
    by (simp add: example_valid maxSessionKeyLength_def writeFails_def) (simp add: exampleSessions_def)
  with c show ?thesis by (metis isl_def sum.exhaust)
qed



text \<open>CommitResponse has an error exactly for a blank or overlong target, for a source that does not
  exist when nothing has bound the target, and when the file cannot be written; then neither the
  conversations nor the file have changed.\<close>

lemma commit_errors:
  assumes "storeInv (sePrint env) s" and "validMsgs (sePrint env) request" and "validMsg (sePrint env) assistant"
    and "snapshotsFree (ssData s) sourceID targetID advanceSource"
    and "commitResponse env now sourceID targetID request assistant advanceSource s = (r, s')"
  shows "(isl r \<longleftrightarrow>
       blank targetID \<or> length targetID > maxSessionKeyLength
     \<or> map_of (ssData s) sourceID = None \<and> sourceID \<noteq> targetID
         \<and> (map_of (ssData s) targetID = None \<or> \<not> advanceSource \<and> sourceID \<noteq> [])
     \<or> writeFails s)
   \<and> (isl r \<longrightarrow> ssData s' = ssData s \<and> contents (ssFile s') = contents (ssFile s))"
  using commit_error_law [OF assms] by blast

lemma commit_errors_witness:
  "\<exists>r s'. commitResponse exampleEnv 20 ''gone'' ''new'' [] (textMsg ''assistant'' ''hi'') False exampleSessions = (r, s')
     \<and> isl r \<and> ssData s' = ssData exampleSessions"
proof -
  obtain r s' where c: "commitResponse exampleEnv 20 ''gone'' ''new'' [] (textMsg ''assistant'' ''hi'') False
     exampleSessions = (r, s')" by force
  have "snapshotsFree (ssData exampleSessions) ''gone'' ''new'' False"
    by (simp add: snapshotsFree_def exampleSessions_def)
  from commit_errors [OF example_inv _ _ this c] have "isl r \<and> ssData s' = ssData exampleSessions"
    by (simp add: example_valid) (simp add: exampleSessions_def)
  with c show ?thesis by blast
qed

text \<open>UpsertBinding: a binding written under an older route generation than the stored one, or under the
  same one by another account that is not authoritative, is discarded and changes nothing; any other binding
  stores its account, upstream names and generation, leaves the history of the conversation and every other
  conversation as they were, and after an error nothing has changed.\<close>

lemma stale_bindings_discarded:
  assumes "storeInv (sePrint env) s" and "cvID v \<noteq> []" and "goodBinding env v (ssData s)" and "\<not> hasPortableState v"
    and "upsertBinding env now v authoritative s = (r, s')"
  shows "storeInv (sePrint env) s'
    \<and> (\<forall>c. map_of (ssData s) (cvID v) = Some c \<longrightarrow> staleBinding v authoritative c \<longrightarrow> r = Inr (c, False) \<and> s' = s)
    \<and> ((\<forall>c. map_of (ssData s) (cvID v) = Some c \<longrightarrow> \<not> staleBinding v authoritative c) \<longrightarrow>
         (case r of
            Inl e \<Rightarrow> ssData s' = ssData s
          | Inr (c, applied) \<Rightarrow> applied \<and> (\<forall>w. map_of (ssData s') (cvID v) = Some w \<longrightarrow>
              historyOf env (ssData s') (cvID v) = Inr (historyOr (sePrint env) (ssData s) (cvID v))
              \<and> cvAccountID w = cvAccountID v \<and> cvConversationID w = cvConversationID v
              \<and> cvSessionID w = cvSessionID v \<and> cvRouteGeneration w = cvRouteGeneration v)))
    \<and> (\<forall>x w. map_of (ssData s') x = Some w \<longrightarrow> x \<noteq> cvID v \<longrightarrow>
         (\<exists>u. map_of (ssData s) x = Some u \<and> rooted [] w = rooted [] u)
         \<and> historyOf env (ssData s') x = historyOf env (ssData s) x)"
proof -
  have key: "bindingKey env v = cvID v" using assms(2) by (simp add: bindingKey_def)
  have h: "bindingHistory (sePrint env) (ssData s) (v\<lparr>cvID := cvID v\<rparr>) = historyOr (sePrint env) (ssData s) (cvID v)"
    using assms(4) by (simp add: bindingHistory_def hasPortableState_def)
  from assms(5) show ?thesis
  proof (cases rule: upsertBinding_cases)
    case (stale c)
    with assms(1) show ?thesis by simp
  next
    case (fresh u)
    from upsert_law [OF assms(1,3) fresh(2)] fresh(1,3) show ?thesis
      unfolding key h keepsOthers_def by (cases u) auto
  qed
qed

lemma stale_bindings_discarded_witness:
  "upsertBinding exampleEnv 20 ((exampleConversation ''thread'' ''a'' False)\<lparr>cvRouteGeneration := 4\<rparr>) True exampleSessions
    = (Inr (exampleConversation ''thread'' ''b'' False, False), exampleSessions)"
proof -
  let ?v = "(exampleConversation ''thread'' ''a'' False)\<lparr>cvRouteGeneration := 4\<rparr>"
  obtain r s' where u: "upsertBinding exampleEnv 20 ?v True exampleSessions = (r, s')" by force
  have c: "map_of (ssData exampleSessions) ''thread'' = Some (exampleConversation ''thread'' ''b'' False)"
    by (simp add: exampleSessions_def)
  have good: "goodBinding exampleEnv ?v (ssData exampleSessions)"
    by (simp add: goodBinding_def bindingKey_def c)
  have none: "\<not> hasPortableState ?v"
    by (simp add: hasPortableState_def) (simp add: exampleConversation_def emptyConversation_def)
  have "staleBinding ?v True (exampleConversation ''thread'' ''b'' False)" by (simp add: staleBinding_def)
  with stale_bindings_discarded [OF example_inv _ good none u] c u show ?thesis by simp
qed

text \<open>DeleteByAccount removes exactly the conversations of the account and counts them; every
  other conversation keeps its metadata and its history, also when its parent has been removed; after an
  error nothing has changed. deleteSession does the same for one name.\<close>

lemma removal_keeps_survivors:
  assumes "storeInv (sePrint env) s"
    and "deleteByAccount env account s = (r, s')" and "deleteSession env sid s = (q, s'')"
  shows "storeInv (sePrint env) s' \<and> storeInv (sePrint env) s''
    \<and> (case r of
         Inl e \<Rightarrow> ssData s' = ssData s
       | Inr n \<Rightarrow> n = length (filter (\<lambda>(_, v). cvAccountID v = account) (ssData s))
           \<and> map fst (ssData s') = map fst (filter (\<lambda>(_, v). cvAccountID v \<noteq> account) (ssData s)))
    \<and> (q = Inr True \<longrightarrow> map fst (ssData s'') = filter (\<lambda>k. k \<noteq> sid) (map fst (ssData s)))
    \<and> (q \<noteq> Inr True \<longrightarrow> ssData s'' = ssData s)
    \<and> (\<forall>x v. map_of (ssData s') x = Some v \<longrightarrow>
         (\<exists>u. map_of (ssData s) x = Some u \<and> rooted [] v = rooted [] u)
         \<and> historyOf env (ssData s') x = historyOf env (ssData s) x)
    \<and> (\<forall>x v. map_of (ssData s'') x = Some v \<longrightarrow>
         (\<exists>u. map_of (ssData s) x = Some u \<and> rooted [] v = rooted [] u)
         \<and> historyOf env (ssData s'') x = historyOf env (ssData s) x)"
  using deleteByAccount_law [OF assms(1,2)] delete_law [OF assms(1,3)] unfolding keepsOthers_def by blast

lemma removal_keeps_survivors_witness:
  "\<exists>r s'. deleteByAccount exampleEnv ''a'' exampleSessions = (r, s') \<and> storeInv (sePrint exampleEnv) s'"
proof -
  obtain r s' where d: "deleteByAccount exampleEnv ''a'' exampleSessions = (r, s')" by force
  obtain q s'' where e: "deleteSession exampleEnv ''resp'' exampleSessions = (q, s'')" by force
  from removal_keeps_survivors [OF example_inv d e] d show ?thesis by blast
qed

text \<open>C13: pruneNow. A pinned conversation is never evicted; every survivor keeps its metadata and its
  history, and after a failed write nothing has changed. Pins hold back the eviction of the pinned
  conversations and of those their histories are built on, and of nothing else: apart from these, no
  conversation that is left has expired and no group has more than 128 snapshots, and when anything else is
  left there are at most 5000 conversations, which fit in 16 MiB.\<close>

theorem prune_bounds:
  assumes "storeInv (sePrint env) s" and "pruneNow env now s = ((before, after, err), s')"
  shows "storeInv (sePrint env) s' \<and> (err \<noteq> None \<longrightarrow> ssData s' = ssData s)
    \<and> (\<forall>x v. map_of (ssData s') x = Some v \<longrightarrow>
         (\<exists>u. map_of (ssData s) x = Some u \<and> rooted [] v = rooted [] u)
         \<and> historyOf env (ssData s') x = historyOf env (ssData s) x)
    \<and> (\<forall>x v. pinned (ssPins s) x \<longrightarrow> map_of (ssData s) x = Some v \<longrightarrow> map_of (ssData s') x \<noteq> None)
    \<and> (err = None \<longrightarrow>
         (\<forall>x v. map_of (ssData s') x = Some v \<longrightarrow> expiredAt now x v \<longrightarrow> heldBy (ssPins s) (ssData s) x)
       \<and> (\<forall>g. length (filter (\<lambda>v. \<not> heldBy (ssPins s) (ssData s) (cvID v)) (groupMembers g (ssData s')))
              \<le> maxResponseAliasesPerSession)
       \<and> ((\<exists>x \<in> keysOf (ssData s'). \<not> heldBy (ssPins s) (ssData s) x) \<longrightarrow>
            length (ssData s') \<le> maxStoredSessions \<and> seSize env (ssData s') \<le> maxSessionStoreBytes))"
proof -
  note ok = storeInv_OK [OF assms(1)]
  have law: "storeInv (sePrint env) s'" "keepsOthers (sePrint env) {} (ssData s) (ssData s')"
    "err = None \<Longrightarrow> ssData s' = pruneSessions env now (ssPins s) (ssData s)" "err \<noteq> None \<Longrightarrow> ssData s' = ssData s"
    using prune_law [OF assms] by simp_all
  have pins: "map_of (ssData s') x \<noteq> None" if "pinned (ssPins s) x" "map_of (ssData s) x = Some v" for x v
  proof (cases "err = None")
    case True
    with prune_keeps_pinned [OF ok that(1) key_of_Some [OF that(2)], of now] law(3)
    have "x \<in> keysOf (ssData s')" by simp
    then show ?thesis by (simp add: map_of_eq_None_iff)
  next
    case False
    with law(4) that show ?thesis by simp
  qed
  have keep: "\<forall>x v. map_of (ssData s') x = Some v \<longrightarrow>
         (\<exists>u. map_of (ssData s) x = Some u \<and> rooted [] v = rooted [] u)
         \<and> historyOf env (ssData s') x = historyOf env (ssData s) x"
    using law(2) unfolding keepsOthers_def by simp
  note bounds = pruneSessions_bounds [OF ok, where now = now and pins = "ssPins s"]
  have bounded: "(\<forall>x v. map_of (ssData s') x = Some v \<longrightarrow> expiredAt now x v \<longrightarrow> heldBy (ssPins s) (ssData s) x)
       \<and> (\<forall>g. length (filter (\<lambda>v. \<not> heldBy (ssPins s) (ssData s) (cvID v)) (groupMembers g (ssData s')))
              \<le> maxResponseAliasesPerSession)
       \<and> ((\<exists>x \<in> keysOf (ssData s'). \<not> heldBy (ssPins s) (ssData s) x) \<longrightarrow>
            length (ssData s') \<le> maxStoredSessions \<and> seSize env (ssData s') \<le> maxSessionStoreBytes)" (is ?bounds)
    if "err = None" unfolding law(3) [OF that]
  proof (intro conjI allI impI)
    show "heldBy (ssPins s) (ssData s) x"
      if "map_of (pruneSessions env now (ssPins s) (ssData s)) x = Some v" "expiredAt now x v" for x v
      using that by (rule bounds(4))
    assume "\<exists>x \<in> keysOf (pruneSessions env now (ssPins s) (ssData s)). \<not> heldBy (ssPins s) (ssData s) x"
    then have "\<not> allHeld (ssPins s) (ssData s) (pruneSessions env now (ssPins s) (ssData s))"
      unfolding allHeld_def by blast
    with bounds(1,2) show "length (pruneSessions env now (ssPins s) (ssData s)) \<le> maxStoredSessions"
      "seSize env (pruneSessions env now (ssPins s) (ssData s)) \<le> maxSessionStoreBytes" by blast+
  qed (rule bounds(3))
  have failed: "err \<noteq> None \<longrightarrow> ssData s' = ssData s" using law(4) by blast
  have pins': "\<forall>x v. pinned (ssPins s) x \<longrightarrow> map_of (ssData s) x = Some v \<longrightarrow> map_of (ssData s') x \<noteq> None"
    using pins by blast
  show ?thesis
    by (rule conjI [OF law(1) conjI [OF failed conjI [OF keep conjI [OF pins' impI]]]]) (rule bounded)
qed

theorem prune_bounds_witness:
  "\<exists>before after err s'. pruneNow exampleEnv 20 (exampleSessions\<lparr>ssPins := [(''resp'', 1)]\<rparr>) = ((before, after, err), s')
     \<and> storeInv (sePrint exampleEnv) s'"
proof -
  have inv: "storeInv (sePrint exampleEnv) (exampleSessions\<lparr>ssPins := [(''resp'', 1)]\<rparr>)"
    using example_inv by (auto simp: storeInv_def insync_def split: option.splits)
  obtain before after err s' where
    p: "pruneNow exampleEnv 20 (exampleSessions\<lparr>ssPins := [(''resp'', 1)]\<rparr>) = ((before, after, err), s')"
    by (metis prod.exhaust)
  with conjunct1 [OF prune_bounds [OF inv p]] show ?thesis by blast
qed

text \<open>OpenSessionStore on the file the store has written: when the file can be rewritten the store opens
  with no pins, in the invariant, and every conversation in it was stored with the same metadata and the same
  history, although copies may be encoded differently; if nothing has expired and the bounds hold, every
  conversation is there. If the file cannot be rewritten, opening fails.\<close>

lemma restart_keeps_histories:
  assumes "storeInv (sePrint env) s"
    and "\<forall>(k, v) \<in> set (ssData s). k \<noteq> [] \<and> cvAliasGroup v \<noteq> []"
  shows "if writes \<noteq> [] \<and> \<not> hd writes then openSessionStore env now (SessionFile (ssData s)) writes = Inl SessWriteFailed
    else \<exists>t. openSessionStore env now (SessionFile (ssData s)) writes = Inr t \<and> storeInv (sePrint env) t \<and> ssPins t = []
      \<and> (\<forall>x v. map_of (ssData t) x = Some v \<longrightarrow>
           (\<exists>u. map_of (ssData s) x = Some u \<and> rooted [] v = rooted [] u)
           \<and> historyOf env (ssData t) x = historyOf env (ssData s) x)
      \<and> ((\<forall>(k, v) \<in> set (migrateSessions env (ssData s)). \<not> expiredAt now k v) \<longrightarrow>
         (\<forall>g. length (groupMembers g (migrateSessions env (ssData s))) \<le> maxResponseAliasesPerSession) \<longrightarrow>
         length (ssData s) \<le> maxStoredSessions \<longrightarrow> seSize env (migrateSessions env (ssData s)) \<le> maxSessionStoreBytes \<longrightarrow>
         map fst (ssData t) = map fst (ssData s))"
proof -
  let ?m = "migrateSessions env (ssData s)" and ?p = "pruneSessions env now [] (migrateSessions env (ssData s))"
  note ok = storeInv_OK [OF assms(1)]
  have groups: "cvAliasGroup v \<noteq> []" if "(k, v) \<in> set (ssData s)" for k v using assms(2) that by auto
  have named: "[] \<notin> fst ` set (ssData s)" using assms(2) by auto
  have m: "sameSessions (sePrint env) (ssData s) ?m" by (rule migrate_same [OF ok _ named]) (rule groups)
  have t: "thins (sePrint env) ?m ?p" by (rule pruneSessions_thins [OF same_OK [OF m]])
  have op: "openSessionStore env now (SessionFile (ssData s)) writes =
      (if writes = [] \<or> hd writes
       then Inr \<lparr>ssData = ?p, ssPins = [], ssFile = File (Some ?p) (tl writes)\<rparr> else Inl SessWriteFailed)"
    by (rule open_law [OF ok _ named]) (rule groups)
  have inv: "storeInv (sePrint env) \<lparr>ssData = ?p, ssPins = [], ssFile = File (Some ?p) (tl writes)\<rparr>"
    using thins_OK [OF t] by (simp add: storeInv_def insync_def)
  have keep: "(\<exists>u. map_of (ssData s) x = Some u \<and> rooted [] v = rooted [] u)
      \<and> historyOf env ?p x = historyOf env (ssData s) x" if "map_of ?p x = Some v" for x v
    using thins_node [OF t that] m unfolding sameSessions_def by metis
  have all: "map fst ?p = map fst (ssData s)"
    if "\<forall>(k, v) \<in> set ?m. \<not> expiredAt now k v" "\<forall>g. length (groupMembers g ?m) \<le> maxResponseAliasesPerSession"
      "length (ssData s) \<le> maxStoredSessions" "seSize env ?m \<le> maxSessionStoreBytes"
  proof -
    have "length ?m = length (ssData s)" using same_keys [OF m] by (metis length_map)
    then have "?p = ?m" using that by (intro pruneSessions_id) auto
    then show ?thesis using same_keys [OF m] by simp
  qed
  show ?thesis
    by (rule if_split [THEN iffD2]) (use op inv keep all in auto)
qed

lemma restart_keeps_histories_witness:
  "\<exists>t. openSessionStore exampleEnv 20 (SessionFile (ssData exampleSessions)) [True] = Inr t
     \<and> storeInv (sePrint exampleEnv) t"
proof -
  have "\<forall>(k, v) \<in> set (ssData exampleSessions). k \<noteq> [] \<and> cvAliasGroup v \<noteq> []"
    by (simp add: exampleSessions_def)
  from restart_keeps_histories [OF example_inv this, of "[True]" 20] show ?thesis by auto
qed

subsection \<open>A snapshot must not be advanced\<close>

lemma two_cycle:
  assumes "map_of d a = Some va" and "cvHistoryParent va = b" and "map_of d b = Some vb" and "cvHistoryParent vb = a"
    and "a \<noteq> b" and "a \<noteq> []" and "b \<noteq> []"
  shows "materializeHistory sp d [] a = Inl SessCyclic"
proof -
  have "materializeHistory sp d [b, a] a = Inl SessCyclic"
    using assms(1) by (subst materializeHistory.simps) simp
  then have "materializeHistory sp d [a] b = Inl SessCyclic"
    using assms by (subst materializeHistory.simps) simp
  then show ?thesis using assms by (subst materializeHistory.simps) simp
qed

text \<open>The guard on snapshots is needed: commitResponse does not check it, and a commit that advances a
  source which is itself a snapshot links the source to the new response and the response to the source, so
  that the history of neither can be written out any more.\<close>

lemma advanced_snapshot_cycles:
  assumes "sessionsOK (sePrint env) d" and "map_of d sourceID = Some v" and "cvResponseAlias v"
    and "sourceID \<noteq> []" and "targetID \<noteq> []" and "sourceID \<noteq> targetID"
    and "\<And>t. map_of d targetID = Some t \<Longrightarrow> \<not> cvResponseAlias t"
    and "validMsgs (sePrint env) request" and "validMsg (sePrint env) assistant"
    and "commitData env now sourceID targetID request assistant True d = Inr d'"
  shows "historyOf env d' targetID = Inl SessCyclic \<and> historyOf env d' sourceID = Inl SessCyclic"
proof -
  let ?h = "committedHistory (sePrint env) d sourceID targetID request assistant"
  obtain t n where n: "commitNode env d (commitParent sourceID targetID (map_of d sourceID)) ?h
      (commitGroup sourceID targetID (map_of d sourceID) (t\<lparr>cvUpdatedAt := now\<rparr>)) = Inr n"
    and d': "d' = (if advances sourceID targetID True
      then AList.update sourceID (commitHead sourceID targetID (map_of d sourceID) n) (AList.update targetID n d)
      else AList.update targetID n d)"
    using commitData_cases [OF assms(1,10)] by metis
  have p: "commitParent sourceID targetID (map_of d sourceID) = sourceID"
    using assms(2,3,6) by (simp add: commitParent_def immutableParent_def)
  have "boundedHistory (sePrint env) ?h"
    by (rule committedHistory_bounded [OF assms(1) validMsgs_tames [OF assms(8)] validMsg_tame [OF assms(9)]])
  then obtain n' where "commitNode env d sourceID ?h
      (commitGroup sourceID targetID (map_of d sourceID) (t\<lparr>cvUpdatedAt := now\<rparr>)) = Inr n'" "cvHistoryParent n' = sourceID"
    using commitNode_law [OF assms(1), of ?h sourceID] assms(2) by (metis option.distinct(1))
  with n p have par: "cvHistoryParent n = sourceID" by simp
  have s: "map_of d' sourceID = Some (commitHead sourceID targetID (map_of d sourceID) n)" "map_of d' targetID = Some n"
    using assms(4,6) by (simp_all add: d' advances_def)
  show ?thesis
    using two_cycle [OF s(2) par s(1)] two_cycle [OF s(1) _ s(2) par] assms(4-6) by simp
qed

lemma advanced_snapshot_cycles_witness:
  "\<exists>d'. commitData exampleEnv 20 ''resp'' ''new'' [] (textMsg ''assistant'' ''hi'') True (ssData exampleSessions) = Inr d'
     \<and> historyOf exampleEnv d' ''new'' = Inl SessCyclic"
proof -
  let ?d = "ssData exampleSessions"
  have v: "map_of ?d ''resp'' = Some (exampleConversation ''resp'' ''a'' True)" by (simp add: exampleSessions_def)
  have f: "map_of ?d ''new'' = None" by (simp add: exampleSessions_def)
  have h: "boundedHistory (sePrint exampleEnv)
      (committedHistory (sePrint exampleEnv) ?d ''resp'' ''new'' [] (textMsg ''assistant'' ''hi''))"
    by (rule committedHistory_bounded [OF storeInv_OK [OF example_inv] _ validMsg_tame]) (simp_all add: example_valid)
  obtain n where "commitNode exampleEnv ?d (commitParent ''resp'' ''new'' (map_of ?d ''resp''))
      (committedHistory (sePrint exampleEnv) ?d ''resp'' ''new'' [] (textMsg ''assistant'' ''hi''))
      (commitGroup ''resp'' ''new'' (map_of ?d ''resp'') (the (commitTarget ''resp'' ''new'' (map_of ?d ''resp'') (map_of ?d ''new''))
        \<lparr>cvUpdatedAt := 20\<rparr>)) = Inr n"
    using commitNode_total [OF storeInv_OK [OF example_inv], of "''new''", OF _ h] f by fastforce
  moreover have "commitTarget ''resp'' ''new'' (map_of ?d ''resp'') (map_of ?d ''new'') \<noteq> None"
    by (simp add: commitTarget_def v f)
  ultimately obtain d' where d': "commitData exampleEnv 20 ''resp'' ''new'' [] (textMsg ''assistant'' ''hi'') True ?d = Inr d'"
    by (auto simp: commitData_def Let_def commitHistory_eq [OF storeInv_OK [OF example_inv]])
  from advanced_snapshot_cycles [OF storeInv_OK [OF example_inv] v _ _ _ _ _ _ _ d'] f d'
  show ?thesis by (simp add: example_valid)
qed

end
