(* ===== verification/ResponseProps.thy ===== *)
theory ResponseProps
  imports LockProps SessionProps RouterProps
begin

text \<open>Properties of response sessions: the lease of a response, its keys, and who may move a stable head.\<close>

subsection \<open>Pins\<close>

abbreviation pinCount :: "sessionStore \<Rightarrow> string \<Rightarrow> int" where
  "pinCount s k \<equiv> getOr 0 (ssPins s) k"

lemma unpin_counts:
  "x \<noteq> [] \<Longrightarrow> 1 \<le> pinCount s x \<Longrightarrow> pinCount (unpinSession x s) k = (if k = x then pinCount s k - 1 else pinCount s k)"
  by (auto simp: unpinSession_def getOr_def delete_conv' split: option.split)

lemma pin_stored:
  assumes inv: "storeInv (sePrint env) s"
  shows "fst (pinSession env x s) = None \<longleftrightarrow> map_of (ssData s) x = None"
    and "pinCount (snd (pinSession env x s)) k
      = (if k = x \<and> map_of (ssData s) x \<noteq> None then pinCount s k + 1 else pinCount s k)"
proof -
  have "materializedConversation env (ssData s) x = None \<longleftrightarrow> map_of (ssData s) x = None"
    using sessionsOK_history [OF storeInv_OK [OF inv]] by (fastforce simp: materializedConversation_def split: option.split sum.split)
  then show "fst (pinSession env x s) = None \<longleftrightarrow> map_of (ssData s) x = None"
    and "pinCount (snd (pinSession env x s)) k
      = (if k = x \<and> map_of (ssData s) x \<noteq> None then pinCount s k + 1 else pinCount s k)"
    by (auto simp: pinSession_def split: option.split)
qed

lemma pin_none: "fst (pinSession env x s) = None \<Longrightarrow> snd (pinSession env x s) = s"
  by (auto simp: pinSession_def split: option.splits)

lemma delete_pins: "ssPins (snd (deleteSession env x s)) = ssPins s"
  by (auto simp: deleteSession_def saveSessions_def split: option.splits prod.splits bool.splits)

text \<open>What a lease of a branch is.\<close>

definition stableKey :: "string \<Rightarrow> bool \<Rightarrow> string" where
  "stableKey source requireSource = (if requireSource then [] else source)"

lemma prepare_cases:
  assumes "storeInv (sePrint env) s" and "prepareResponseTarget env source tgt requireSource s held = (r, s', held')"
    and "source \<noteq> tgt"
  obtains (missing) "tgt = []" "r = Inl TargetMissing" "s' = s" "held' = held"
  | (active) "tgt \<noteq> []" "\<not> requireSource" "source \<noteq> []" "source \<in> held" "r = Inl SourceActive" "s' = s" "held' = held"
  | (absent) "tgt \<noteq> []" "requireSource" "map_of (ssData s) source = None" "r = Inl SourceNotFound" "s' = s" "held' = held"
  | (leased) "tgt \<noteq> []" "stableKey source requireSource = [] \<or> stableKey source requireSource \<notin> held"
      "\<not> (requireSource \<and> map_of (ssData s) source = None)"
      "r = Inr (Branch source tgt (map_of (ssData s) source \<noteq> None) (stableKey source requireSource))"
      "s' = snd (pinSession env source s)"
      "held' = (if stableKey source requireSource = [] then held else insert (stableKey source requireSource) held)"
proof -
  obtain v t where p: "pinSession env source s = (v, t)" by force
  have v: "v = None \<longleftrightarrow> map_of (ssData s) source = None" "v = None \<Longrightarrow> t = s"
    using pin_stored(1) [OF assms(1), of source] pin_none [of env source s] p by simp_all
  show ?thesis
  proof (cases "tgt = []")
    case True
    with assms(2) show ?thesis by (intro missing) (simp_all add: prepareResponseTarget_def)
  next
    case target: False
    show ?thesis
    proof (cases "stableKey source requireSource \<in> held \<and> stableKey source requireSource \<noteq> []")
      case True
      with target assms(2,3) show ?thesis
        by (intro active) (simp_all add: prepareResponseTarget_def lockStableResponseSession_def stableKey_def split: if_splits)
    next
      case free: False
      then obtain h where h: "lockStableResponseSession (stableKey source requireSource) held = (True, h)"
        "h = (if stableKey source requireSource = [] then held else insert (stableKey source requireSource) held)"
        by (auto simp: lockStableResponseSession_def)
      have eq: "prepareResponseTarget env source tgt requireSource s held
          = (if v = None \<and> requireSource then (Inl SourceNotFound, t, unlockStable (stableKey source requireSource) h)
             else (Inr (Branch source tgt (v \<noteq> None) (stableKey source requireSource)), t, h))"
        using target assms(3) h(1) p by (simp add: prepareResponseTarget_def stableKey_def)
      show ?thesis
      proof (cases "v = None \<and> requireSource")
        case True
        then have "h = held" "unlockStable (stableKey source requireSource) h = h"
          using h(2) by (simp_all add: unlockStable_def stableKey_def)
        with True eq assms(2) v target show ?thesis by (intro absent) simp_all
      next
        case False
        with eq assms(2) v(1) target free h(2) p show ?thesis by (intro leased) auto
      qed
    qed
  qed
qed

lemma lease_protects:
  assumes inv: "storeInv (sePrint env) s" and x: "map_of (ssData s) x \<noteq> None"
    and t: "t = snd (pinSession env x s)" and count: "0 \<le> pinCount s x" and p: "pruneNow env now t = (st, u)"
  shows "map_of (ssData u) x \<noteq> None \<and> historyOf env (ssData u) x = historyOf env (ssData s) x"
proof -
  obtain r where r: "pinSession env x s = (r, t)" using t by (metis prod.collapse)
  note same = pin_data [OF r]
  have tinv: "storeInv (sePrint env) t" using storeInv_pins [OF _ _ inv] same by blast
  have pin: "pinned (ssPins t) x" using pin_stored(2) [OF inv, of x x] x count t by (simp add: pinned_def)
  have mem: "x \<in> keysOf (ssData t)" using x same by (metis not_None_eq key_of_Some)
  note law = prune_law [OF tinv p]
  have here: "map_of (ssData u) x \<noteq> None"
  proof (cases "snd (snd st) = None")
    case True
    with law prune_keeps_pinned [OF storeInv_OK [OF tinv] pin mem, of now] show ?thesis
      by (simp add: map_of_eq_None_iff)
  next
    case False
    with law same x show ?thesis by simp
  qed
  with law same show ?thesis unfolding keepsOthers_def by (metis not_None_eq empty_iff)
qed

subsection \<open>Properties\<close>

text \<open>C15: prepareResponseTarget and the closure it returns: a refused request has pinned and locked nothing; it
  is refused only without a target, for a stable head in use, or for a missing previous response. A lease pins a
  stored source, so that no pruning evicts it or changes its history, and leaves the conversations alone; its
  release takes back exactly its own pin and lock, also after others have pinned, locked or written, and removes
  the target when the response was not committed.\<close>

theorem response_lease:
  assumes "storeInv (sePrint env) s" and "prepareResponseTarget env source tgt requireSource s held = (r, s', held')"
    and "source \<noteq> tgt" and "source \<noteq> []" and "0 \<le> pinCount s source"
  shows "(isl r \<longrightarrow> s' = s \<and> held' = held
        \<and> (tgt = [] \<or> \<not> requireSource \<and> source \<in> held \<or> requireSource \<and> map_of (ssData s) source = None))
    \<and> ssData s' = ssData s
    \<and> (\<forall>lease now st u. r = Inr lease \<longrightarrow> map_of (ssData s) source \<noteq> None \<longrightarrow> pruneNow env now s' = (st, u) \<longrightarrow>
         map_of (ssData u) source \<noteq> None \<and> historyOf env (ssData u) source = historyOf env (ssData s) source)
    \<and> (\<forall>lease. r = Inr lease \<longrightarrow> held' = (if requireSource then held else insert source held) \<and> (\<not> requireSource \<longrightarrow> source \<notin> held)
         \<and> pinCount s' source = pinCount s source + (if map_of (ssData s) source = None then 0 else 1))
    \<and> (\<forall>lease committed t busy t' busy'. r = Inr lease \<longrightarrow> 1 \<le> pinCount t source \<longrightarrow>
         finishResponseTarget env committed lease t busy = (t', busy') \<longrightarrow>
         busy' = (if requireSource then busy else busy - {source})
         \<and> (\<forall>k. pinCount t' k = pinCount t k - (if k = source \<and> map_of (ssData s) source \<noteq> None then 1 else 0))
         \<and> (committed \<longrightarrow> ssData t' = ssData t)
         \<and> (\<not> committed \<longrightarrow> (\<exists>q. t' = snd (deleteSession env tgt q) \<and> ssData q = ssData t)))"
  using assms(1-3)
proof (cases rule: prepare_cases)
  case leased
  obtain v where v: "pinSession env source s = (v, s')" using leased(5) by (metis prod.collapse)
  have count: "pinCount s' source = pinCount s source + (if map_of (ssData s) source = None then 0 else 1)"
    using pin_stored(2) [OF assms(1), of source source] leased(5) by simp
  have protect: "map_of (ssData u) source \<noteq> None \<and> historyOf env (ssData u) source = historyOf env (ssData s) source"
    if "map_of (ssData s) source \<noteq> None" "pruneNow env now s' = (st, u)" for now st u
    by (rule lease_protects [OF assms(1) that(1) leased(5) assms(5) that(2)])
  have release: "busy' = (if requireSource then busy else busy - {source})
         \<and> (\<forall>k. pinCount t' k = pinCount t k - (if k = source \<and> map_of (ssData s) source \<noteq> None then 1 else 0))
         \<and> (committed \<longrightarrow> ssData t' = ssData t)
         \<and> (\<not> committed \<longrightarrow> (\<exists>q. t' = snd (deleteSession env tgt q) \<and> ssData q = ssData t))"
    if f: "r = Inr lease" "1 \<le> pinCount t source" "finishResponseTarget env committed lease t busy = (t', busy')"
    for lease committed t busy t' busy'
  proof -
    define q where "q = (if map_of (ssData s) source \<noteq> None then unpinSession source t else t)"
    have t': "t' = (if committed then q else snd (deleteSession env tgt q))"
      and b: "busy' = unlockStable (stableKey source requireSource) busy"
      using f(1,3) leased(4) by (auto simp: finishResponseTarget_def q_def Let_def)
    have d: "ssData q = ssData t" by (simp add: q_def unpin_data)
    have "pinCount t' k = pinCount q k" for k by (simp add: t' delete_pins)
    moreover have "pinCount q k = pinCount t k - (if k = source \<and> map_of (ssData s) source \<noteq> None then 1 else 0)" for k
      by (cases "map_of (ssData s) source = None")
         (simp_all add: q_def unpin_counts [OF assms(4) f(2), of k] del: not_None_eq not_Some_eq)
    moreover have "busy' = (if requireSource then busy else busy - {source})"
      using b assms(4) by (simp add: unlockStable_def stableKey_def)
    ultimately show ?thesis using t' d by auto
  qed
  have lock: "held' = (if requireSource then held else insert source held) \<and> (\<not> requireSource \<longrightarrow> source \<notin> held)"
    using leased(2,6) assms(4) by (simp add: stableKey_def split: if_splits)
  have "\<not> isl r" "ssData s' = ssData s" using leased(4) pin_data [OF v] by simp_all
  then show ?thesis by (intro conjI allI impI) (use count protect lock release in \<open>blast+\<close>)
qed auto

theorem response_lease_witness:
  "\<exists>lease s' held'. prepareResponseTarget exampleEnv ''thread'' ''new'' False exampleSessions {} = (Inr lease, s', held')
     \<and> held' = {''thread''} \<and> pinCount s' ''thread'' = 1"
proof -
  obtain r s' held' where p: "prepareResponseTarget exampleEnv ''thread'' ''new'' False exampleSessions {} = (r, s', held')"
    by (metis surj_pair)
  have c: "pinCount exampleSessions ''thread'' = 0" "map_of (ssData exampleSessions) ''thread'' \<noteq> None"
    by (simp_all add: exampleSessions_def getOr_def)
  note law = response_lease [OF example_inv p]
  from law c have "\<not> isl r" by simp
  then obtain lease where "r = Inr lease" by (cases r) auto
  with law c p show ?thesis by simp
qed

text \<open>Two requests share an upstream conversation only when credential and client key agree: scoped session
  keys coincide exactly when SHA-256 agrees in its first 16 bytes on the two scopes, and the scopes of different
  credentials or of different keys are different inputs. Header values contain no NUL byte.\<close>

lemma credentials_are_isolated:
  fixes sha :: digest
  assumes "key \<noteq> []" and "key' \<noteq> []" and "CHR 0x00 \<notin> set credential" and "CHR 0x00 \<notin> set credential'"
  defines "scope \<equiv> \<lambda>c k. ''m365-session-scope'' @ [CHR 0x00] @ c @ [CHR 0x00] @ k"
  shows "(scopedSessionKey sha credential key = scopedSessionKey sha credential' key' \<longleftrightarrow>
        take 16 (sha (scope credential key)) = take 16 (sha (scope credential' key')))
    \<and> (scope credential key = scope credential' key' \<longleftrightarrow> credential = credential' \<and> key = key')"
proof
  show "scopedSessionKey sha credential key = scopedSessionKey sha credential' key' \<longleftrightarrow>
        take 16 (sha (scope credential key)) = take 16 (sha (scope credential' key'))"
    using assms(1,2) inj_eq [OF inj_hexEncode] by (simp add: scopedSessionKey_def hashedKey_def scope_def)
  have split: "takeWhile (\<lambda>c. c \<noteq> CHR 0x00) (credential @ CHR 0x00 # key) = credential"
    "takeWhile (\<lambda>c. c \<noteq> CHR 0x00) (credential' @ CHR 0x00 # key') = credential'"
    using assms(3,4) by (simp_all add: takeWhile_append)
  show "scope credential key = scope credential' key' \<longleftrightarrow> credential = credential' \<and> key = key'"
  proof
    assume "scope credential key = scope credential' key'"
    then have e: "credential @ CHR 0x00 # key = credential' @ CHR 0x00 # key'" by (simp add: scope_def)
    then have "credential = credential'" using split by metis
    with e show "credential = credential' \<and> key = key'" by simp
  qed simp
qed

lemma credentials_are_isolated_witness:
  "scopedSessionKey rev ''alice'' ''thread'' \<noteq> scopedSessionKey rev ''bob'' ''thread''"
  using credentials_are_isolated [of "''thread''" "''thread''" "''alice''" "''bob''" rev] by simp

text \<open>A response moves the stable head of its thread only when the account that produced it is the active one:
  of an account that has been rotated away, the answer is stored under its own response key and the head keeps
  its history; of the active account, the head has the history with the turn appended. After an error nothing
  has changed.\<close>

lemma inactive_account_keeps_head:
  assumes "storeInv (sePrint env) s" and "validMsgs (sePrint env) request" and "validMsg (sePrint env) assistant"
    and "snapshotsFree (ssData s) source tgt True" and "source \<noteq> tgt" and "source \<noteq> []"
    and "getSession env tgt s = Some t" and "cvAccountID t \<noteq> []"
    and "accountRouteVersion now (cvAccountID t) router = ((generation, authoritative), router')"
    and "commitResponsePortableHistory env now source tgt request assistant True s (Some router) = (err, s', srv')"
  shows "storeInv (sePrint env) s' \<and> srv' = Some router' \<and> (err \<noteq> None \<longrightarrow> ssData s' = ssData s)
    \<and> (err = None \<longrightarrow> map_of (ssData s') source \<noteq> None \<longrightarrow>
         historyOf env (ssData s') source
           = (if authoritative then Inr (committedHistory (sePrint env) (ssData s) source tgt request assistant)
              else historyOf env (ssData s) source))"
proof -
  obtain r where c: "commitResponse env now source tgt request assistant authoritative s = (r, s')"
    and e: "srv' = Some router'" "err \<noteq> None \<longleftrightarrow> isl r"
    using assms(5,7-10) by (auto simp: commitResponsePortableHistory_def effectiveAdvance_def split: prod.splits sum.splits)
  have free: "snapshotsFree (ssData s) source tgt authoritative"
    using assms(4) by (auto simp: snapshotsFree_def advances_def)
  note law = commit_law [OF assms(1-3) free c]
  show ?thesis
  proof (cases r)
    case (Inl a)
    then obtain x where "err = Some x" using e by auto
    with law e Inl show ?thesis by simp
  next
    case (Inr v)
    have "historyOf env (ssData s') source = historyOf env (ssData s) source"
      if "\<not> authoritative" "map_of (ssData s') source \<noteq> None"
      using law that assms(5) unfolding keepsOthers_def by (auto simp: advances_def)
    with law e Inr assms(5,6) show ?thesis by (auto simp: advances_def)
  qed
qed

text \<open>A target bound to account c while a is active.\<close>

definition boundSessions :: sessionStore where
  "boundSessions = exampleSessions\<lparr>ssData := (''new'', exampleConversation ''new'' ''c'' False) # ssData exampleSessions,
     ssFile := File (Some ((''new'', exampleConversation ''new'' ''c'' False) # ssData exampleSessions)) []\<rparr>"

lemma bound_inv: "storeInv (sePrint exampleEnv) boundSessions"
proof -
  have "goodNode sp d k (exampleConversation k a b)" if "map_of d k = Some (exampleConversation k a b)" for sp d k a b
    using that by (simp add: goodNode_def history_node)
  then have "sessionsOK (sePrint exampleEnv) (ssData boundSessions)"
    by (auto simp: sessionsOK_def exampleSessions_def boundSessions_def split: if_splits)
  then show ?thesis by (simp add: storeInv_def insync_def boundSessions_def)
qed

lemma inactive_account_keeps_head_witness:
  "\<exists>err s' srv'. commitResponsePortableHistory exampleEnv 20 ''thread'' ''new'' [] (textMsg ''assistant'' ''hi'') True boundSessions
        (Some exServer) = (err, s', srv')
     \<and> storeInv (sePrint exampleEnv) s'
     \<and> (err = None \<longrightarrow> map_of (ssData s') ''thread'' \<noteq> None \<longrightarrow>
          historyOf exampleEnv (ssData s') ''thread'' = historyOf exampleEnv (ssData boundSessions) ''thread'')"
proof -
  obtain err s' srv' where c: "commitResponsePortableHistory exampleEnv 20 ''thread'' ''new'' [] (textMsg ''assistant'' ''hi'') True
      boundSessions (Some exServer) = (err, s', srv')" by (metis surj_pair)
  have free: "snapshotsFree (ssData boundSessions) ''thread'' ''new'' True"
    by (simp add: snapshotsFree_def boundSessions_def exampleSessions_def)
  have m: "map_of (ssData boundSessions) ''new'' = Some (exampleConversation ''new'' ''c'' False)" by (simp add: boundSessions_def)
  obtain h where "historyOf exampleEnv (ssData boundSessions) ''new'' = Inr h"
    using sessionsOK_history [OF storeInv_OK [OF bound_inv] m] by blast
  then obtain t where t: "getSession exampleEnv ''new'' boundSessions = Some t" "cvAccountID t = ''c''"
    using m new_not_blank by (auto simp: getSession_def materializedConversation_def maxSessionKeyLength_def)
  obtain g router' where v: "accountRouteVersion 20 (cvAccountID t) exServer = ((g, False), router')"
  proof -
    have "\<not> snd (fst (accountRouteVersion 20 ''c'' exServer))" by code_simp
    with that t(2) show ?thesis by (metis prod.collapse)
  qed
  from inactive_account_keeps_head [OF bound_inv _ _ free _ _ t(1) _ v c] c t(2) show ?thesis by (simp add: example_valid)
qed

end
