(* ===== verification/GoRegexp.thy ===== *)
theory GoRegexp
  imports GoText
begin

text \<open>
  Regular expressions as Go's regexp package runs them, on the runes of a text: the leftmost match, and
  among the matches there the one a backtracking search finds first. A matcher returns what may be left
  behind it, the preferred rest first, together with the runes read so far (the newest first), which word
  boundaries look at. An empty match replaces nothing; no pattern of the program that is used for a
  replacement matches the empty text.
\<close>

subsection \<open>Expressions\<close>

datatype regex =
    Epsilon
  | Rune "string \<Rightarrow> bool"
  | Cat regex regex
  | Alt regex regex
  | Star bool regex
  | WordBoundary
  | TextStart
  | TextEnd

type_synonym cursor = "string list \<times> string list"

definition wordRune :: "string \<Rightarrow> bool" where
  "wordRune r = (case r of [c] \<Rightarrow> (let n = byteVal c in 48 \<le> n \<and> n \<le> 57 \<or> 65 \<le> n \<and> n \<le> 90 \<or> n = 95 \<or> 97 \<le> n \<and> n \<le> 122)
                        | _ \<Rightarrow> False)"

definition headIs :: "(string \<Rightarrow> bool) \<Rightarrow> string list \<Rightarrow> bool" where
  "headIs P rs = (case rs of [] \<Rightarrow> False | r # _ \<Rightarrow> P r)"

function ends :: "regex \<Rightarrow> string list \<Rightarrow> string list \<Rightarrow> cursor list" where
  "ends Epsilon prev rest = [(prev, rest)]"
| "ends (Rune P) prev rest = (case rest of [] \<Rightarrow> [] | r # rs \<Rightarrow> if P r then [(r # prev, rs)] else [])"
| "ends (Cat a b) prev rest = concat (map (\<lambda>(prev', rest'). ends b prev' rest') (ends a prev rest))"
| "ends (Alt a b) prev rest = ends a prev rest @ ends b prev rest"
| "ends (Star greedy a) prev rest =
     (let more = concat (map (\<lambda>(prev', rest'). if length rest' < length rest then ends (Star greedy a) prev' rest' else [])
                           (ends a prev rest))
      in if greedy then more @ [(prev, rest)] else (prev, rest) # more)"
| "ends WordBoundary prev rest = (if headIs wordRune prev \<noteq> headIs wordRune rest then [(prev, rest)] else [])"
| "ends TextStart prev rest = (if prev = [] then [(prev, rest)] else [])"
| "ends TextEnd prev rest = (if rest = [] then [(prev, rest)] else [])"
  by pat_completeness auto
termination by (relation "measures [\<lambda>(r, _, _). size r, \<lambda>(_, _, rest). length rest]") auto

lemmas ends_Star = ends.simps(5)
declare ends_Star [simp del]

subsection \<open>Building blocks\<close>

text \<open>A rune given by its bytes, and classes of runes.\<close>

definition lit :: "string \<Rightarrow> regex" where
  "lit s = foldr (\<lambda>r e. Cat (Rune (\<lambda>x. x = r)) e) (runes s) Epsilon"

text \<open>Letters match without regard to case; k and s also match the Kelvin sign and the long s.\<close>

definition foldsTo :: "string \<Rightarrow> string \<Rightarrow> bool" where
  "foldsTo r x \<longleftrightarrow>
     ToLower x = ToLower r
   \<or> ToLower r = ''k'' \<and> x = [CHR 0xE2, CHR 0x84, CHR 0xAA]
   \<or> ToLower r = ''s'' \<and> x = [CHR 0xC5, CHR 0xBF]"

definition foldedLit :: "string \<Rightarrow> regex" where
  "foldedLit s = foldr (\<lambda>r e. Cat (Rune (foldsTo r)) e) (runes s) Epsilon"

definition noneOf :: "string list \<Rightarrow> regex" where
  "noneOf rs = Rune (\<lambda>x. x \<notin> set rs)"

definition oneOf :: "string list \<Rightarrow> regex" where
  "oneOf rs = Rune (\<lambda>x. x \<in> set rs)"

definition anyRune :: regex where
  "anyRune = Rune (\<lambda>_. True)"

definition spaceRune :: regex where
  "spaceRune = oneOf [[CHR 0x09], [CHR 0x0A], [CHR 0x0C], [CHR 0x0D], [CHR 0x20]]"

definition digitRune :: regex where
  "digitRune = Rune (\<lambda>x. case x of [c] \<Rightarrow> isDigit c | _ \<Rightarrow> False)"

definition maybe :: "regex \<Rightarrow> regex" where
  "maybe r = Alt r Epsilon"

definition plus1 :: "regex \<Rightarrow> regex" where
  "plus1 r = Cat r (Star True r)"

primrec upTo :: "nat \<Rightarrow> regex \<Rightarrow> regex" where
  "upTo 0 r = Epsilon"
| "upTo (Suc n) r = maybe (Cat r (upTo n r))"

definition sequence :: "regex list \<Rightarrow> regex" where
  "sequence rs = foldr Cat rs Epsilon"

fun choice :: "regex list \<Rightarrow> regex" where
  "choice [] = Rune (\<lambda>_. False)"
| "choice [r] = r"
| "choice (r # rs) = Alt r (choice rs)"

subsection \<open>Searching and replacing\<close>

fun matchesFrom :: "regex \<Rightarrow> string list \<Rightarrow> string list \<Rightarrow> bool" where
  "matchesFrom r prev [] = (ends r prev [] \<noteq> [])"
| "matchesFrom r prev (x # xs) = (ends r prev (x # xs) \<noteq> [] \<or> matchesFrom r (x # prev) xs)"

definition MatchString :: "regex \<Rightarrow> string \<Rightarrow> bool" where
  "MatchString r s = matchesFrom r [] (runes s)"

function replaceFrom :: "regex \<Rightarrow> string \<Rightarrow> string list \<Rightarrow> string list \<Rightarrow> string list" where
  "replaceFrom r repl prev rest =
     (case ends r prev rest of
        (prev', rest') # _ \<Rightarrow>
          (if length rest' < length rest then repl # replaceFrom r repl prev' rest'
           else (case rest of [] \<Rightarrow> [] | x # xs \<Rightarrow> x # replaceFrom r repl (x # prev) xs))
      | [] \<Rightarrow> (case rest of [] \<Rightarrow> [] | x # xs \<Rightarrow> x # replaceFrom r repl (x # prev) xs))"
  by pat_completeness auto
termination by (relation "measure (\<lambda>(_, _, _, rest). length rest)") auto

declare replaceFrom.simps [simp del]

definition ReplaceAllString :: "regex \<Rightarrow> string \<Rightarrow> string \<Rightarrow> string" where
  "ReplaceAllString r repl s = concat (replaceFrom r repl [] (runes s))"

text \<open>A match reads a piece of the text in front of the cursor.\<close>

lemma ends_reads: "(prev', rest') \<in> set (ends r prev rest) \<Longrightarrow> \<exists>m. rest = m @ rest' \<and> prev' = rev m @ prev"
proof (induction r prev rest arbitrary: prev' rest' rule: ends.induct)
  case (3 a b prev rest)
  then obtain u v where uv: "(u, v) \<in> set (ends a prev rest)" "(prev', rest') \<in> set (ends b u v)" by auto
  from 3(1) [OF uv(1)] obtain m where m: "rest = m @ v" "u = rev m @ prev" by blast
  from 3(2) [OF uv(1) refl uv(2)] obtain n where "v = n @ rest'" "prev' = rev n @ u" by blast
  with m have "rest = (m @ n) @ rest' \<and> prev' = rev (m @ n) @ prev" by simp
  then show ?case by blast
next
  case (5 g a prev rest)
  show ?case
  proof (cases "(prev', rest') = (prev, rest)")
    case False
    have "(prev', rest') \<in> set (concat (map (\<lambda>(u, v). if length v < length rest then ends (Star g a) u v else []) (ends a prev rest)))"
      using 5(3) False by (subst (asm) ends_Star) (auto simp: Let_def split: if_splits)
    then obtain u v where uv: "(u, v) \<in> set (ends a prev rest)" "length v < length rest"
      "(prev', rest') \<in> set (ends (Star g a) u v)"
      by (auto split: if_splits)
    from 5(1) [OF uv(1)] obtain m where m: "rest = m @ v" "u = rev m @ prev" by blast
    from 5(2) [OF uv(1) refl uv(2,3)] obtain n where "v = n @ rest'" "prev' = rev n @ u" by blast
    with m have "rest = (m @ n) @ rest' \<and> prev' = rev (m @ n) @ prev" by simp
    then show ?thesis by blast
  qed auto
qed (auto split: list.splits if_splits)

text \<open>Deleting the matches leaves a subsequence of the text.\<close>

lemma replace_subseq: "subseq (concat (replaceFrom r [] prev rest)) (concat rest)"
proof (induction "length rest" arbitrary: prev rest rule: less_induct)
  case less
  have skip: "subseq (concat (case rest of [] \<Rightarrow> [] | x # xs \<Rightarrow> x # replaceFrom r [] (x # prev) xs)) (concat rest)"
    using less by (cases rest) (simp_all add: list_emb_append_mono)
  show ?case
  proof (cases "ends r prev rest")
    case Nil
    with skip show ?thesis by (subst replaceFrom.simps) simp
  next
    case (Cons e es)
    obtain u v where e: "e = (u, v)" by force
    show ?thesis
    proof (cases "length v < length rest")
      case True
      obtain m where "rest = m @ v" using ends_reads [of u v r prev rest] Cons e by auto
      then have "subseq (concat v) (concat rest)" by (simp add: list_emb_append2)
      moreover have "subseq (concat (replaceFrom r [] u v)) (concat v)" using less True by blast
      ultimately have "subseq (concat (replaceFrom r [] u v)) (concat rest)" by (meson subseq_order.trans)
      with Cons e True show ?thesis by (subst replaceFrom.simps) simp
    next
      case False
      with skip Cons e show ?thesis by (subst replaceFrom.simps) simp
    qed
  qed
qed

lemma ReplaceAll_subseq: "subseq (ReplaceAllString r [] s) s"
  using replace_subseq [of r "[]" "runes s"] by (simp add: ReplaceAllString_def)

end
