(* ===== verification/ChatFrames.thy ===== *)
theory ChatFrames
  imports GoJson GoRegexp UpstreamErrors
begin

text \<open>
  What the frames of a ChatHub connection say, without state: internal/chathub/stream_events.go, the message
  and cursor predicates of answer_stream.go, the kinds of events.go, and the handshake, quota, error and
  clean-up functions of client.go. A decoded object is its list of members; a range over a Go map visits the
  members in list order, one of the possible runs. The value of a number is read by functions of its text.
\<close>

subsection \<open>Members of an object\<close>

type_synonym jsonObject = "(string \<times> json) list"

abbreviation member :: "jsonObject \<Rightarrow> string \<Rightarrow> json" where
  "member m k \<equiv> getOr JNull m k"

abbreviation memberString :: "jsonObject \<Rightarrow> string \<Rightarrow> string" where
  "memberString m k \<equiv> asString (member m k)"

definition asObject :: "json \<Rightarrow> jsonObject" where
  "asObject v = (case v of JObj m \<Rightarrow> m | _ \<Rightarrow> [])"

definition asArray :: "json \<Rightarrow> json list" where
  "asArray v = (case v of JArr vs \<Rightarrow> vs | _ \<Rightarrow> [])"

subsection \<open>Cursors and messages\<close>

definition cursorQuoted :: "char \<Rightarrow> string \<Rightarrow> string option" where
  "cursorQuoted quote path =
     (let p = [CHR ''$'', CHR ''['', quote]
      in if HasPrefix path p
         then (let rest = drop (length p) path
               in map_option (\<lambda>n. take n rest) (IndexOf rest [quote, CHR '']'']))
         else None)"

definition cursorMessageID :: "jsonObject \<Rightarrow> string" where
  "cursorMessageID arg =
     (let path = asString (jsonField ''j'' (member arg ''cursor''))
      in case cursorQuoted (CHR 0x27) path of
           Some i \<Rightarrow> i
         | None \<Rightarrow> (case cursorQuoted (CHR 0x22) path of Some i \<Rightarrow> i | None \<Rightarrow> []))"

definition visibleAnswerMessage :: "jsonObject \<Rightarrow> bool" where
  "visibleAnswerMessage m \<longleftrightarrow>
     (let messageType = ToLower (TrimSpace (memberString m ''messageType''));
          contentType = ToLower (TrimSpace (memberString m ''contentType''))
      in EqualFold (TrimSpace (memberString m ''author'')) ''bot''
       \<and> messageType \<in> {[], ''chat'', ''answer''}
       \<and> contentType \<notin> {''searchresults'', ''code'', ''toolcall'', ''progress''}
       \<and> member m ''pluginInfo'' = JNull \<and> blank (memberString m ''invocation'')
       \<and> \<not> blank (memberString m ''text''))"

subsection \<open>Tool calls and events\<close>

record streamEvent =
  evKind :: string
  evText :: string
  evMessageType :: string
  evContentType :: string
  evToolName :: string
  evArguments :: string
  evRaw :: string

definition toolNameKeys :: "string list" where
  "toolNameKeys = [''name'', ''toolName'', ''pluginName'', ''functionName'']"

definition toolArgumentKeys :: "string list" where
  "toolArgumentKeys = [''arguments'', ''args'', ''parameters'', ''input'', ''functionArguments'']"

definition firstString :: "jsonObject \<Rightarrow> string list \<Rightarrow> string" where
  "firstString m ks = (case filter (\<lambda>s. s \<noteq> []) (map (memberString m) ks) of [] \<Rightarrow> [] | s # _ \<Rightarrow> s)"

definition firstPresent :: "jsonObject \<Rightarrow> string list \<Rightarrow> json option" where
  "firstPresent m ks = (case List.map_filter (map_of m) ks of [] \<Rightarrow> None | v # _ \<Rightarrow> Some v)"

definition extractToolFields :: "jsonObject \<Rightarrow> string \<times> string" where
  "extractToolFields m =
     (let name = firstString m toolNameKeys
      in if name = [] then ([], [])
         else case firstPresent m toolArgumentKeys of
                None \<Rightarrow> ([], [])
              | Some v \<Rightarrow> (name, mustJSON v))"

definition classifyMessage :: "jsonObject \<Rightarrow> streamEvent option" where
  "classifyMessage m =
     (let txt = memberString m ''text''; mt = memberString m ''messageType''; ct = memberString m ''contentType''
      in if EqualFold (TrimSpace mt) ''MemoryUpdate'' then None
         else
           let kind = (if mt = ''Progress'' \<or> ct = ''SearchResults'' \<or> ct = ''Code'' \<or> ct = ''ToolCall''
                       then ''progress'' else ''text'');
               (name, args) = extractToolFields m;
               kind = (if name \<noteq> [] \<and> args \<noteq> [] then ''tool'' else kind)
           in if kind = ''text'' \<and> \<not> visibleAnswerMessage m then None
              else if txt = [] \<and> kind = ''text'' then None
              else Some \<lparr>evKind = kind, evText = txt, evMessageType = mt, evContentType = ct,
                          evToolName = name, evArguments = args, evRaw = []\<rparr>)"

definition classifyUpdateMessages :: "json list \<Rightarrow> streamEvent list" where
  "classifyUpdateMessages messages =
     List.map_filter (\<lambda>v. case v of JObj m \<Rightarrow> classifyMessage m | _ \<Rightarrow> None) messages"

definition toolEventOf :: "jsonObject \<Rightarrow> string list \<times> streamEvent list \<Rightarrow> string list \<times> streamEvent list" where
  "toolEventOf z acc =
     (let (seen, out) = acc;
          (name, args) = extractToolFields z;
          key = name @ CHR ''|'' # args
      in if name \<noteq> [] \<and> args \<noteq> [] \<and> key \<notin> set seen
         then (key # seen, out @ [\<lparr>evKind = ''tool'', evText = [], evMessageType = [], evContentType = [],
                                    evToolName = name, evArguments = args, evRaw = mustJSON (JObj z)\<rparr>])
         else acc)"

fun walkTools :: "json \<Rightarrow> string list \<times> streamEvent list \<Rightarrow> string list \<times> streamEvent list" where
  "walkTools (JArr vs) acc = fold walkTools vs acc"
| "walkTools (JObj z) acc = fold (\<lambda>(_, child). walkTools child) z (toolEventOf z acc)"
| "walkTools v acc = acc"

definition extractToolEvents :: "json \<Rightarrow> string list \<Rightarrow> string list \<times> streamEvent list" where
  "extractToolEvents v seen = walkTools v (seen, [])"

text \<open>The kind of a frame from its type, its target and whether it has an error.\<close>

definition eventKind :: "int \<Rightarrow> string \<Rightarrow> bool \<Rightarrow> string" where
  "eventKind t tgt hasError =
     (if t = 6 then ''ping''
      else if t = 1 \<and> tgt = ''update'' then ''update''
      else if t = 2 then ''result''
      else if t = 3 \<and> hasError then ''error''
      else if t = 3 then ''complete''
      else if tgt \<noteq> [] then ''target''
      else ''unknown'')"

subsection \<open>Quota\<close>

definition quotaNumberExhausted :: "(string \<Rightarrow> bool) \<Rightarrow> json \<Rightarrow> bool" where
  "quotaNumberExhausted nonPositive v = (case v of JNum n \<Rightarrow> nonPositive n | _ \<Rightarrow> False)"

definition quotaValueExhausted :: "(string \<Rightarrow> bool) \<Rightarrow> json \<Rightarrow> bool" where
  "quotaValueExhausted nonPositive v \<longleftrightarrow>
     quotaNumberExhausted nonPositive v
   \<or> (case v of JObj q \<Rightarrow> quotaNumberExhausted nonPositive (member q ''remainingAllowance'') | _ \<Rightarrow> False)"

definition quotaExhausted :: "(string \<Rightarrow> bool) \<Rightarrow> json \<Rightarrow> bool" where
  "quotaExhausted nonPositive throttling =
     (case throttling of
        JObj root \<Rightarrow>
          quotaValueExhausted nonPositive (member root ''CostQuota'')
        \<or> (case member root ''metering'' of
             JObj metering \<Rightarrow> quotaValueExhausted nonPositive (member metering ''CostQuota'')
           | _ \<Rightarrow> False)
      | _ \<Rightarrow> False)"

subsection \<open>Clean-up of texts\<close>

text \<open>The narration and citation patterns; Chinese characters are written as their bytes.\<close>

definition narrationLead :: string where
  "narrationLead = [CHR 0xE6, CHR 0x88, CHR 0x91, CHR 0xE5, CHR 0xB0, CHR 0x86, CHR 0xE6, CHR 0x89, CHR 0xA7, CHR 0xE8, CHR 0xA1, CHR 0x8C]"

definition narrationPurpose :: string where
  "narrationPurpose = [CHR 0xE7, CHR 0x9B, CHR 0xAE, CHR 0xE7, CHR 0x9A, CHR 0x84]"

definition narrationExpectation :: string where
  "narrationExpectation = [CHR 0xE9, CHR 0xA2, CHR 0x84, CHR 0xE6, CHR 0x9C, CHR 0x9F]"

definition wideColon :: string where
  "wideColon = [CHR 0xEF, CHR 0xBC, CHR 0x9A]"

definition wideStop :: string where
  "wideStop = [CHR 0xE3, CHR 0x80, CHR 0x82]"

definition newline :: string where
  "newline = [CHR 0x0A]"

definition anyColon :: regex where
  "anyColon = oneOf [wideColon, '':'']"

definition narrationRe1 :: regex where
  "narrationRe1 = sequence
     [lit narrationLead, anyColon, Star False anyRune, lit newline, Star True spaceRune, lit narrationPurpose, anyColon,
      Star True (noneOf [newline]), maybe (lit newline), Star True spaceRune, lit narrationExpectation, anyColon,
      Star True (noneOf [newline])]"

definition narrationRe2 :: regex where
  "narrationRe2 = sequence
     [lit narrationLead, anyColon, upTo 120 (noneOf [newline, wideStop]), lit wideStop]"

definition scrubNarration :: "string \<Rightarrow> string" where
  "scrubNarration s = TrimSpace (ReplaceAllString narrationRe2 [] (ReplaceAllString narrationRe1 [] s))"

text \<open>In the second pattern the escapes denote the code points U+00C3, U+0091 and U+0094.\<close>

definition citationPatterns :: "regex list" where
  "citationPatterns =
     [sequence [lit ''[^'', Star True (noneOf ['']'']), lit ''^]''],
      sequence [lit [CHR 0xC3, CHR 0x83, CHR 0xC2, CHR 0x91], lit ''cite'',
                Star True (noneOf [[CHR 0xC3, CHR 0x83], [CHR 0xC2, CHR 0x94]]),
                lit [CHR 0xC3, CHR 0x83, CHR 0xC2, CHR 0x94]],
      sequence [lit ''<cite'', Star True (noneOf [''>'']), lit ''>'', Star True (noneOf [''<'']), lit ''</cite>'']]"

definition scrubCitations :: "string \<Rightarrow> string" where
  "scrubCitations s = fold (\<lambda>re s. ReplaceAllString re [] s) citationPatterns s"

definition codeInterpreterArtifactMarkers :: "string list" where
  "codeInterpreterArtifactMarkers =
     map (\<lambda>w. [CHR 0x22] @ w @ [CHR 0x22]) [''fileStoreType'', ''codeResultFileUrl'', ''reference_id'']"

definition isCodeInterpreterArtifact :: "string \<Rightarrow> bool" where
  "isCodeInterpreterArtifact txt \<longleftrightarrow>
     (let stripped = TrimSpace txt
      in (HasPrefix stripped ''{'' \<or> HasPrefix stripped ''['')
       \<and> length (filter (Contains stripped) codeInterpreterArtifactMarkers) \<ge> 2)"

subsection \<open>Handshake and frames\<close>

definition recordSeparator :: char where
  "recordSeparator = CHR 0x1E"

definition frameParts :: "string \<Rightarrow> string list" where
  "frameParts msg = filter (\<lambda>p. p \<noteq> []) (map TrimSpace (splitOn recordSeparator msg))"

text \<open>Decoding into a map: null leaves it empty, other values are errors.\<close>

definition decodeObject :: "(string \<Rightarrow> json option) \<Rightarrow> string \<Rightarrow> jsonObject option" where
  "decodeObject unmarshal s =
     (case unmarshal s of Some (JObj m) \<Rightarrow> Some m | Some JNull \<Rightarrow> Some [] | _ \<Rightarrow> None)"

fun handshakeParts :: "(string \<Rightarrow> json option) \<Rightarrow> string list \<Rightarrow> bool \<Rightarrow> goerror option" where
  "handshakeParts unmarshal [] acknowledged =
     (if acknowledged then None else Some (plainError ''missing SignalR handshake acknowledgement''))"
| "handshakeParts unmarshal (p # ps) acknowledged =
     (case decodeObject unmarshal p of
        None \<Rightarrow> Some (plainError ''invalid SignalR handshake JSON'')
      | Some frame \<Rightarrow>
          if \<not> blank (memberString frame ''error'') then Some (plainError ''SignalR handshake rejected'')
          else if frame = [] then handshakeParts unmarshal ps True
          else Some (plainError ''unexpected SignalR handshake frame''))"

definition validateSignalRHandshake :: "(string \<Rightarrow> json option) \<Rightarrow> string \<Rightarrow> goerror option" where
  "validateSignalRHandshake unmarshal raw = handshakeParts unmarshal (frameParts raw) False"

definition frameNumber :: "(string \<Rightarrow> int) \<Rightarrow> jsonObject \<Rightarrow> int" where
  "frameNumber trunc m = (case member m ''type'' of JNum n \<Rightarrow> trunc n | _ \<Rightarrow> 0)"

subsection \<open>Stages of an error\<close>

definition chatHubErrorStage :: "goerror option \<Rightarrow> string" where
  "chatHubErrorStage err =
     (case err of
        None \<Rightarrow> ''none''
      | Some e \<Rightarrow>
          let message = ToLower (errText e)
          in if errorsIs e ContextCanceled then ''client_cancel''
             else if errorsIs e ContextDeadlineExceeded then ''request_deadline''
             else if Contains message ''proxy dialer'' then ''proxy_config''
             else if Contains message ''ws dial'' then ''websocket_dial''
             else if Contains message ''handshake'' then ''signalr_handshake''
             else if Contains message ''chat send'' then ''request_send''
             else if Contains message ''signalr ping'' then ''keepalive''
             else if Contains message ''signalr protocol'' then ''signalr_protocol''
             else if Contains message ''ws read'' then ''stream_read''
             else if errorsIs e ErrDisengaged then ''policy_refusal''
             else if Contains message ''rate limit'' \<or> Contains message ''quota'' then ''throttling''
             else if Contains message ''completion'' \<or> Contains message ''no content'' \<or> Contains message ''response deadline''
                  then ''completion''
             else ''unknown'')"

end
