(* ===== verification/AnswerStream.thy ===== *)
theory AnswerStream
  imports GoPrelude
begin

text \<open>
  The visible answer of one ChatHub invocation, internal/chathub/answer_stream.go: a track for each message
  with its authoritative snapshot and the bytes already given to the caller, and the cursor that later
  deltas are written at. Go keeps pointers to tracks in a map; here every operation stores the changed track
  under its identity.
\<close>

subsection \<open>State and operations\<close>

definition implicitAnswerTrackID :: string where
  "implicitAnswerTrackID = ''__implicit_visible_answer__''"

record answerTrack =
  atID :: string
  atAuthoritative :: string
  atDelivered :: string
  atFinal :: bool

record answerStream =
  asTracks :: "(string, answerTrack) gomap"
  asCurrentID :: string
  asLastVisibleID :: string
  asFinalID :: string
  asBlockedCursor :: bool

definition newAnswerStream :: answerStream where
  "newAnswerStream = \<lparr>asTracks = [], asCurrentID = [], asLastVisibleID = [], asFinalID = [], asBlockedCursor = False\<rparr>"

definition trackKey :: "string \<Rightarrow> string" where
  "trackKey i = (if blank i then implicitAnswerTrackID else i)"

definition newTrack :: "string \<Rightarrow> answerTrack" where
  "newTrack i = \<lparr>atID = i, atAuthoritative = [], atDelivered = [], atFinal = False\<rparr>"

definition trackAt :: "string \<Rightarrow> answerStream \<Rightarrow> answerTrack" where
  "trackAt i a = getOr (newTrack (trackKey i)) (asTracks a) (trackKey i)"

definition storeTrack :: "answerTrack \<Rightarrow> answerStream \<Rightarrow> answerStream" where
  "storeTrack t a = a\<lparr>asTracks := AList.update (atID t) t (asTracks a)\<rparr>"

definition observeSnapshot :: "string \<Rightarrow> string \<Rightarrow> bool \<Rightarrow> answerStream \<Rightarrow> string \<times> answerStream" where
  "observeSnapshot i txt fin a =
     (if txt = [] then ([], a)
      else
        let t = (trackAt i a)\<lparr>atAuthoritative := txt\<rparr>;
            t = (if fin then t\<lparr>atFinal := True\<rparr> else t);
            a = (if fin then a\<lparr>asFinalID := atID t\<rparr> else a);
            a = a\<lparr>asCurrentID := atID t, asLastVisibleID := atID t, asBlockedCursor := False\<rparr>
        in if atDelivered t = [] then (txt, storeTrack (t\<lparr>atDelivered := txt\<rparr>) a)
           else if HasPrefix txt (atDelivered t)
                then (drop (length (atDelivered t)) txt, storeTrack (t\<lparr>atDelivered := txt\<rparr>) a)
           else ([], storeTrack t a))"

definition selectCursor :: "string \<Rightarrow> answerStream \<Rightarrow> answerStream" where
  "selectCursor i a =
     (let i = TrimSpace i
      in if i = [] then a
         else if map_of (asTracks a) i \<noteq> None then a\<lparr>asCurrentID := i, asBlockedCursor := False\<rparr>
         else a\<lparr>asCurrentID := [], asBlockedCursor := True\<rparr>)"

definition appendAtCursor :: "string \<Rightarrow> answerStream \<Rightarrow> (string \<times> bool) \<times> answerStream" where
  "appendAtCursor delta a =
     (if delta = [] \<or> asBlockedCursor a then (([], False), a)
      else
        let i = (if asCurrentID a = [] then implicitAnswerTrackID else asCurrentID a);
            t = trackAt i a;
            t = t\<lparr>atDelivered := atDelivered t @ delta\<rparr>;
            t = (if atAuthoritative t = [] \<or> HasPrefix (atDelivered t) (atAuthoritative t)
                 then t\<lparr>atAuthoritative := atDelivered t\<rparr> else t)
        in ((delta, True), (storeTrack t a)\<lparr>asCurrentID := atID t, asLastVisibleID := atID t\<rparr>))"

fun firstText :: "answerStream \<Rightarrow> string list \<Rightarrow> string" where
  "firstText a [] = []"
| "firstText a (i # is) =
     (case map_of (asTracks a) i of
        None \<Rightarrow> firstText a is
      | Some t \<Rightarrow>
          if \<not> blank (atAuthoritative t) then atAuthoritative t
          else if \<not> blank (atDelivered t) then atDelivered t
          else firstText a is)"

definition bestText :: "answerStream \<Rightarrow> string" where
  "bestText a = firstText a [asFinalID a, asLastVisibleID a, asCurrentID a]"

subsection \<open>What a track is\<close>

text \<open>
  Upstream has rewritten a track when its authoritative text does not extend what the caller has got. Otherwise
  the caller has got exactly the authoritative text.
\<close>

definition rewritten :: "answerTrack \<Rightarrow> bool" where
  "rewritten t \<longleftrightarrow> \<not> HasPrefix (atAuthoritative t) (atDelivered t)"

definition soundTrack :: "answerTrack \<Rightarrow> bool" where
  "soundTrack t \<longleftrightarrow> atDelivered t \<noteq> [] \<and> atAuthoritative t \<noteq> [] \<and> \<not> blank (atID t)
     \<and> (atAuthoritative t = atDelivered t \<or> rewritten t)"

definition answerInv :: "answerStream \<Rightarrow> bool" where
  "answerInv a \<longleftrightarrow>
     (\<forall>k t. map_of (asTracks a) k = Some t \<longrightarrow> atID t = k \<and> soundTrack t)
   \<and> (asCurrentID a \<noteq> [] \<longrightarrow> map_of (asTracks a) (asCurrentID a) \<noteq> None)
   \<and> (asLastVisibleID a \<noteq> [] \<longrightarrow> map_of (asTracks a) (asLastVisibleID a) \<noteq> None)
   \<and> (asFinalID a \<noteq> [] \<longrightarrow> map_of (asTracks a) (asFinalID a) \<noteq> None)
   \<and> (asBlockedCursor a \<longrightarrow> asCurrentID a = [])
   \<and> (asTracks a = [] \<longleftrightarrow> asLastVisibleID a = [])"

definition deliveredOn :: "answerStream \<Rightarrow> string \<Rightarrow> string" where
  "deliveredOn a k = (case map_of (asTracks a) k of None \<Rightarrow> [] | Some t \<Rightarrow> atDelivered t)"

lemma answerInv_new: "answerInv newAnswerStream"
  by (simp add: answerInv_def newAnswerStream_def)

lemma implicit_not_blank: "\<not> blank implicitAnswerTrackID"
  unfolding implicitAnswerTrackID_def by (rule plainLead_not_blank) (simp add: plainLead_def asciiSpace_def)

lemma trackKey_not_blank [simp]: "\<not> blank (trackKey i)"
  by (simp add: trackKey_def implicit_not_blank)

lemma blank_Nil: "\<not> blank i \<Longrightarrow> i \<noteq> []"
  by auto

lemma current_named:
  assumes "answerInv a" and "asCurrentID a \<noteq> []"
  shows "\<not> blank (asCurrentID a)"
proof -
  obtain t where "map_of (asTracks a) (asCurrentID a) = Some t" using assms unfolding answerInv_def by blast
  with assms(1) show ?thesis unfolding answerInv_def soundTrack_def by metis
qed

lemma trackAt_cases:
  assumes "answerInv a"
  obtains (old) "map_of (asTracks a) (trackKey i) = Some (trackAt i a)" "atID (trackAt i a) = trackKey i" "soundTrack (trackAt i a)"
  | (new) "map_of (asTracks a) (trackKey i) = None" "trackAt i a = newTrack (trackKey i)"
  using assms by (cases "map_of (asTracks a) (trackKey i)") (auto simp: trackAt_def getOr_def answerInv_def)

text \<open>Storing a sound track under its identity and making it the current one.\<close>

lemma store_inv:
  assumes inv: "answerInv a" and t: "soundTrack t"
  shows "answerInv ((storeTrack t a)\<lparr>asCurrentID := atID t, asLastVisibleID := atID t, asBlockedCursor := False\<rparr>)"
    and "answerInv ((storeTrack t (a\<lparr>asFinalID := atID t\<rparr>))\<lparr>asCurrentID := atID t, asLastVisibleID := atID t, asBlockedCursor := False\<rparr>)"
proof -
  have "atID t \<noteq> []" using t by (auto simp: soundTrack_def)
  moreover have "AList.update (atID t) t (asTracks a) \<noteq> []" by (cases "asTracks a") auto
  ultimately show "answerInv ((storeTrack t a)\<lparr>asCurrentID := atID t, asLastVisibleID := atID t, asBlockedCursor := False\<rparr>)"
    and "answerInv ((storeTrack t (a\<lparr>asFinalID := atID t\<rparr>))\<lparr>asCurrentID := atID t, asLastVisibleID := atID t, asBlockedCursor := False\<rparr>)"
    using inv t by (auto simp: answerInv_def storeTrack_def)
qed

lemma store_delivered:
  "deliveredOn ((storeTrack t a)\<lparr>asCurrentID := c, asLastVisibleID := l, asBlockedCursor := b\<rparr>) k
    = (if k = atID t then atDelivered t else deliveredOn a k)"
  "deliveredOn ((storeTrack t (a\<lparr>asFinalID := f\<rparr>))\<lparr>asCurrentID := c, asLastVisibleID := l, asBlockedCursor := b\<rparr>) k
    = (if k = atID t then atDelivered t else deliveredOn a k)"
  by (simp_all add: deliveredOn_def storeTrack_def)

subsection \<open>What an operation gives to the caller\<close>

text \<open>Only one track grows, by the bytes that are given to the caller.\<close>

definition grows :: "answerStream \<Rightarrow> string \<Rightarrow> string \<Rightarrow> answerStream \<Rightarrow> bool" where
  "grows a key out a' \<longleftrightarrow> (\<forall>k. deliveredOn a' k = (if k = key then deliveredOn a k @ out else deliveredOn a k))"

lemma grows_refl: "grows a k [] a"
  by (simp add: grows_def)

lemma snapshot_law:
  assumes inv: "answerInv a" and o: "observeSnapshot i txt fin a = (out, a')"
  shows "answerInv a' \<and> grows a (trackKey i) out a'"
proof (cases "txt = []")
  case True
  with assms show ?thesis by (simp add: observeSnapshot_def grows_refl)
next
  case False
  define d where "d = (if atDelivered (trackAt i a) = [] \<or> HasPrefix txt (atDelivered (trackAt i a)) then txt
    else atDelivered (trackAt i a))"
  define t where "t = \<lparr>atID = atID (trackAt i a), atAuthoritative = txt, atDelivered = d, atFinal = fin \<or> atFinal (trackAt i a)\<rparr>"
  have old: "deliveredOn a (trackKey i) = atDelivered (trackAt i a)" "atID t = trackKey i" "soundTrack t"
    using inv False by (cases rule: trackAt_cases [of a i];
      auto simp: deliveredOn_def newTrack_def t_def d_def soundTrack_def rewritten_def)+
  have a': "a' = (storeTrack t (if fin then a\<lparr>asFinalID := atID t\<rparr> else a))
      \<lparr>asCurrentID := atID t, asLastVisibleID := atID t, asBlockedCursor := False\<rparr>"
    and out: "out = drop (length (atDelivered (trackAt i a))) d"
    using o False by (cases "trackAt i a"; auto simp: observeSnapshot_def storeTrack_def t_def d_def Let_def split: if_splits)+
  have "d = atDelivered (trackAt i a) @ out" unfolding out d_def by (auto simp: prefix_def)
  moreover have "deliveredOn a' k = (if k = atID t then d else deliveredOn a k)" for k
  proof -
    have "atDelivered t = d" by (simp add: t_def)
    then show ?thesis unfolding a' by (cases fin) (simp_all add: store_delivered, simp add: deliveredOn_def)
  qed
  ultimately have "grows a (trackKey i) out a'" using old(1,2) by (simp add: grows_def)
  then show ?thesis using store_inv [OF inv old(3)] unfolding a' by (cases fin) simp_all
qed

lemma select_law: "answerInv a \<Longrightarrow> answerInv (selectCursor i a) \<and> grows a k [] (selectCursor i a)"
  by (auto simp: selectCursor_def answerInv_def grows_def deliveredOn_def Let_def)

lemma append_law:
  assumes inv: "answerInv a" and o: "appendAtCursor delta a = ((out, visible), a')"
  shows "answerInv a' \<and> (\<exists>k. grows a k out a') \<and> (visible \<longleftrightarrow> delta \<noteq> [] \<and> \<not> asBlockedCursor a)
    \<and> out = (if visible then delta else [])"
proof (cases "delta = [] \<or> asBlockedCursor a")
  case True
  with assms show ?thesis by (auto simp: appendAtCursor_def intro: grows_refl)
next
  case False
  define i where "i = (if asCurrentID a = [] then implicitAnswerTrackID else asCurrentID a)"
  have key: "trackKey i = i"
    using implicit_not_blank current_named [OF inv] by (simp add: i_def trackKey_def)
  define d where "d = atDelivered (trackAt i a) @ delta"
  define t where "t = \<lparr>atID = atID (trackAt i a),
    atAuthoritative = (if atAuthoritative (trackAt i a) = [] \<or> HasPrefix d (atAuthoritative (trackAt i a)) then d
                       else atAuthoritative (trackAt i a)),
    atDelivered = d, atFinal = atFinal (trackAt i a)\<rparr>"
  have old: "deliveredOn a i = atDelivered (trackAt i a)" "atID t = i"
    using inv by (cases rule: trackAt_cases [of a i]; simp add: deliveredOn_def newTrack_def t_def key)+
  have sound: "soundTrack t"
    using inv
  proof (cases rule: trackAt_cases [of a i])
    case old
    then have "rewritten t" if "atAuthoritative t \<noteq> d"
      using that by (auto simp: soundTrack_def t_def d_def rewritten_def split: if_splits dest: append_prefixD)
    moreover have "atID t = atID (trackAt i a)" "atDelivered t = d" "d \<noteq> []" "atAuthoritative t \<noteq> []"
      using old(3) by (simp_all add: t_def d_def soundTrack_def)
    ultimately show ?thesis using old(2,3) by (auto simp: soundTrack_def)
  next
    case new
    then show ?thesis using False key trackKey_not_blank [of i] by (simp add: soundTrack_def t_def d_def newTrack_def)
  qed
  have a': "a' = (storeTrack t a)\<lparr>asCurrentID := atID t, asLastVisibleID := atID t, asBlockedCursor := False\<rparr>"
    and out: "out = delta" "visible"
  proof -
    obtain i0 u0 d0 f0 where tr: "trackAt i a = \<lparr>atID = i0, atAuthoritative = u0, atDelivered = d0, atFinal = f0\<rparr>"
      by (cases "trackAt i a")
    have "appendAtCursor delta a = ((delta, True), (storeTrack t a)\<lparr>asCurrentID := atID t, asLastVisibleID := atID t\<rparr>)"
      using False unfolding appendAtCursor_def i_def [symmetric] by (simp add: Let_def tr t_def d_def)
    moreover have "asBlockedCursor (storeTrack t a) = False" using False by (simp add: storeTrack_def)
    ultimately show "a' = (storeTrack t a)\<lparr>asCurrentID := atID t, asLastVisibleID := atID t, asBlockedCursor := False\<rparr>"
      "out = delta" "visible" using o by (cases "storeTrack t a"; simp)+
  qed
  have "grows a i out a'" unfolding grows_def a' store_delivered using old by (simp add: t_def d_def out)
  with store_inv(1) [OF inv sound] out False show ?thesis unfolding a' by auto
qed

subsection \<open>All that has been given to the caller\<close>

text \<open>Every piece given to the caller belongs to a track, and the pieces of a track make up what it delivered.\<close>

definition attributed :: "answerStream \<Rightarrow> string list \<Rightarrow> bool" where
  "attributed a ds \<longleftrightarrow> (\<exists>owners. length owners = length ds
     \<and> (\<forall>k. deliveredOn a k = concat (map snd (filter (\<lambda>(o', d). o' = k) (zip owners ds)))))"

lemma attributed_new: "attributed newAnswerStream []"
  by (simp add: attributed_def deliveredOn_def newAnswerStream_def)

lemma attributed_grows:
  assumes "attributed a ds" and "grows a k out a'"
  shows "attributed a' (ds @ [out])" and "out = [] \<Longrightarrow> attributed a' ds"
proof -
  obtain owners where ow: "length owners = length ds"
    "\<forall>k. deliveredOn a k = concat (map snd (filter (\<lambda>(o', d). o' = k) (zip owners ds)))"
    using assms(1) by (auto simp: attributed_def)
  have "deliveredOn a' j = concat (map snd (filter (\<lambda>(o', d). o' = j) (zip (owners @ [k]) (ds @ [out]))))" for j
    using assms(2) ow by (simp add: grows_def)
  moreover have "length (owners @ [k]) = length (ds @ [out])" using ow(1) by simp
  ultimately show "attributed a' (ds @ [out])" unfolding attributed_def by blast
  show "attributed a' ds" if "out = []"
  proof -
    have "deliveredOn a' j = deliveredOn a j" for j using assms(2) that by (simp add: grows_def)
    then show ?thesis using ow unfolding attributed_def by (intro exI [of _ owners]) simp
  qed
qed

lemma concat_owned:
  "length owners = length ds \<Longrightarrow> \<forall>(o', d) \<in> set (zip owners ds). d \<noteq> [] \<longrightarrow> o' = k \<Longrightarrow>
   concat (map snd (filter (\<lambda>(o', d). o' = k) (zip owners ds))) = concat ds"
  by (induction owners ds rule: list_induct2) auto

lemma owned_piece:
  "(k, d) \<in> set (zip owners ds) \<Longrightarrow> d \<noteq> [] \<Longrightarrow> concat (map snd (filter (\<lambda>(o', d). o' = k) (zip owners ds))) \<noteq> []"
  by force

lemma attributed_single:
  assumes "attributed a ds" and "\<forall>k. deliveredOn a k \<noteq> [] \<longrightarrow> k = j"
  shows "concat ds = deliveredOn a j"
proof -
  obtain owners where ow: "length owners = length ds"
    "\<forall>k. deliveredOn a k = concat (map snd (filter (\<lambda>(o', d). o' = k) (zip owners ds)))"
    using assms(1) by (auto simp: attributed_def)
  have "o' = j" if "(o', d) \<in> set (zip owners ds)" "d \<noteq> []" for o' d
    using owned_piece [OF that] ow(2) assms(2) by metis
  then have "concat (map snd (filter (\<lambda>(o', d). o' = j) (zip owners ds))) = concat ds"
    by (intro concat_owned [OF ow(1)]) auto
  with ow(2) show ?thesis by simp
qed

end
