(* ===== verification/ChatStream.thy ===== *)
theory ChatStream
  imports ChatFrames AnswerStream
begin

text \<open>
  One ChatHub attempt after the request has been sent: the read loop of runChat in internal/chathub/client.go.
  A read gives a message or an error; every frame in a message is handled in order, and the attempt returns at
  a completion frame, an error, a failed write or callback, or the deadline. Clocks, the outcome of reads and
  pings, the caller's callbacks, json.Unmarshal and the value of numbers are arguments. Log lines and counters
  for them are left out; so are Normalized and Images of the result, which are functions of its events.
\<close>

subsection \<open>State\<close>

definition maxRetainedEventCount :: nat where
  "maxRetainedEventCount = 2048"

definition maxRetainedEventBytes :: nat where
  "maxRetainedEventBytes = 8 * 1024 * 1024"

definition defaultFinalFrameTimeout :: duration where
  "defaultFinalFrameTimeout = seconds 60"

text \<open>
  A callback sees what it has been given before. The read loop starts at \<open>ceStart\<close>, under a context
  that may have a deadline.
\<close>

record chatEnv =
  ceUnmarshal :: "string \<Rightarrow> json option"
  ceTrunc :: "string \<Rightarrow> int"
  ceNonPositive :: "string \<Rightarrow> bool"
  ceFormat :: "json \<Rightarrow> string"
  ceOnDelta :: "(string list \<Rightarrow> string \<Rightarrow> bool \<times> goerror option) option"
  ceOnEvent :: "(streamEvent list \<Rightarrow> streamEvent \<Rightarrow> bool \<times> goerror option) option"
  cePong :: "nat \<Rightarrow> goerror option"
  ceFinalFrameTimeout :: duration
  ceStart :: gotime
  ceContextDeadline :: "gotime option"

record chatState =
  csAnswers :: answerStream
  csDeltas :: "string list"
  csHandled :: "streamEvent list"
  csEmitted :: bool
  csFinal :: string
  csThrottling :: json
  csRawResult :: string
  csResultError :: string
  csEvents :: "string list"
  csRetainedBytes :: nat
  csTruncated :: bool
  csSeenTools :: "string list"
  csPongs :: nat
  csFinalDeadline :: gotime

definition chatStart :: chatState where
  "chatStart =
     \<lparr>csAnswers = newAnswerStream, csDeltas = [], csHandled = [], csEmitted = False, csFinal = [],
      csThrottling = JNull, csRawResult = [], csResultError = [], csEvents = [], csRetainedBytes = 0,
      csTruncated = False, csSeenTools = [], csPongs = 0, csFinalDeadline = zeroTime\<rparr>"

record chatResult =
  crText :: string
  crFullText :: string
  crThrottling :: json
  crRawResult :: string
  crEvents :: "string list"
  crTruncated :: bool

definition noResult :: chatResult where
  "noResult = \<lparr>crText = [], crFullText = [], crThrottling = JNull, crRawResult = [], crEvents = [], crTruncated = False\<rparr>"

definition resultWith :: "string \<Rightarrow> chatState \<Rightarrow> chatResult" where
  "resultWith txt s =
     \<lparr>crText = txt, crFullText = txt, crThrottling = csThrottling s, crRawResult = csRawResult s,
      crEvents = csEvents s, crTruncated = csTruncated s\<rparr>"

definition partialResult :: "chatState \<Rightarrow> chatResult" where
  "partialResult s =
     (let txt = csFinal s;
          txt = (if blank txt then bestText (csAnswers s) else txt);
          txt = (if blank txt then concat (csDeltas s) else txt)
      in resultWith (scrubCitations (scrubNarration txt)) s)"

subsection \<open>Steps that may fail\<close>

text \<open>An operation gives an error, which ends the attempt, or goes on with the next one.\<close>

type_synonym chatStep = "chatState \<Rightarrow> goerror option \<times> chatState"

definition andThen :: "chatStep \<Rightarrow> chatStep \<Rightarrow> chatStep" where
  "andThen f g s = (case f s of (Some e, s') \<Rightarrow> (Some e, s') | (None, s') \<Rightarrow> g s')"

definition update :: "(chatState \<Rightarrow> chatState) \<Rightarrow> chatStep" where
  "update f s = (None, f s)"

definition skip :: chatStep where
  "skip s = (None, s)"

fun forEach :: "('a \<Rightarrow> chatStep) \<Rightarrow> 'a list \<Rightarrow> chatStep" where
  "forEach f [] s = (None, s)"
| "forEach f (x # xs) s = andThen (f x) (forEach f xs) s"

definition emitDelta :: "chatEnv \<Rightarrow> string \<Rightarrow> chatStep" where
  "emitDelta env d s =
     (if d = [] then (None, s)
      else
        let s' = s\<lparr>csDeltas := csDeltas s @ [d]\<rparr>
        in case ceOnDelta env of
             None \<Rightarrow> (None, s')
           | Some f \<Rightarrow> (case f (csDeltas s) d of
                         (_, Some e) \<Rightarrow> (Some e, s')
                       | (committed, None) \<Rightarrow> (None, s'\<lparr>csEmitted := csEmitted s \<or> committed\<rparr>)))"

definition emitEvent :: "chatEnv \<Rightarrow> streamEvent \<Rightarrow> chatStep" where
  "emitEvent env ev s =
     (case ceOnEvent env of
        None \<Rightarrow> (None, s)
      | Some f \<Rightarrow>
          let s' = s\<lparr>csHandled := csHandled s @ [ev]\<rparr>
          in (case f (csHandled s) ev of
                (_, Some e) \<Rightarrow> (Some e, s')
              | (committed, None) \<Rightarrow> (None, s'\<lparr>csEmitted := csEmitted s \<or> committed\<rparr>)))"

subsection \<open>Retained frames\<close>

function dropEvents :: "string list \<Rightarrow> nat \<Rightarrow> bool \<Rightarrow> string list \<times> nat \<times> bool" where
  "dropEvents evs n truncated =
     (if evs \<noteq> [] \<and> (length evs > maxRetainedEventCount \<or> n > maxRetainedEventBytes)
      then dropEvents (tl evs) (n - length (hd evs)) True
      else (evs, n, truncated))"
  by pat_completeness auto
termination by (relation "measure (\<lambda>(evs, _, _). length evs)") auto

declare dropEvents.simps [simp del]

definition retainEvent :: "string \<Rightarrow> chatState \<Rightarrow> chatState" where
  "retainEvent part s =
     (if length part \<le> maxRetainedEventBytes
      then (let (evs, n, t) = dropEvents (csEvents s @ [part]) (csRetainedBytes s + length part) (csTruncated s)
            in s\<lparr>csEvents := evs, csRetainedBytes := n, csTruncated := t\<rparr>)
      else s\<lparr>csTruncated := True\<rparr>)"

subsection \<open>Update frames\<close>

text \<open>The message of an update that carries the visible answer: the last one, or the one the cursor names.\<close>

fun pickVisible :: "string \<Rightarrow> json list \<Rightarrow> jsonObject option \<Rightarrow> bool \<Rightarrow> jsonObject option" where
  "pickVisible cursorID [] found matched = found"
| "pickVisible cursorID (v # vs) found matched =
     (let m = asObject v; messageID = memberString m ''messageId''
      in if \<not> visibleAnswerMessage m \<or> isCodeInterpreterArtifact (memberString m ''text'')
         then pickVisible cursorID vs found matched
         else if cursorID = [] then pickVisible cursorID vs (Some m) matched
         else if messageID = cursorID then pickVisible cursorID vs (Some m) True
         else if messageID = [] \<and> \<not> matched then pickVisible cursorID vs (Some m) matched
         else pickVisible cursorID vs found matched)"

definition observeMessage :: "chatEnv \<Rightarrow> jsonObject \<Rightarrow> string \<Rightarrow> jsonObject \<Rightarrow> chatStep" where
  "observeMessage env arg cursorID m s =
     (let messageID = (if memberString m ''messageId'' = [] then cursorID else memberString m ''messageId'');
          finished = member arg ''isLastUpdate'' = JBool True
                     \<or> EqualFold (TrimSpace (memberString m ''turnState'')) ''Completed'';
          (tail, answers) = observeSnapshot messageID (scrubCitations (memberString m ''text'')) finished (csAnswers s)
      in emitDelta env tail (s\<lparr>csAnswers := answers\<rparr>))"

definition writeCursor :: "chatEnv \<Rightarrow> string \<Rightarrow> chatStep" where
  "writeCursor env w s =
     (case appendAtCursor (scrubCitations w) (csAnswers s) of
        ((delta, visible), answers) \<Rightarrow>
          if visible then emitDelta env delta (s\<lparr>csAnswers := answers\<rparr>) else (None, s\<lparr>csAnswers := answers\<rparr>))"

definition updateEvents :: "chatEnv \<Rightarrow> jsonObject \<Rightarrow> json list \<Rightarrow> chatStep" where
  "updateEvents env arg msgs s =
     (if ceOnEvent env = None then (None, s)
      else
        let (seen, tools) = extractToolEvents (JObj arg) (csSeenTools s);
            others = filter (\<lambda>ev. evKind ev \<noteq> ''text'')
                       (map (\<lambda>ev. ev\<lparr>evRaw := mustJSON (JObj arg)\<rparr>) (classifyUpdateMessages msgs))
        in andThen (forEach (emitEvent env) tools) (forEach (emitEvent env) others) (s\<lparr>csSeenTools := seen\<rparr>))"

definition disengages :: "json list \<Rightarrow> bool" where
  "disengages msgs \<longleftrightarrow> list_ex (\<lambda>v. memberString (asObject v) ''messageType'' = ''Disengaged'') msgs"

definition disengagedResult :: goerror where
  "disengagedResult = GoError (errText disengagedError) (PlainError # errChain disengagedError)"

definition finalFrameTimeout :: "chatEnv \<Rightarrow> duration" where
  "finalFrameTimeout env = (if ceFinalFrameTimeout env \<le> 0 then defaultFinalFrameTimeout else ceFinalFrameTimeout env)"

definition noteThrottling :: "jsonObject \<Rightarrow> chatState \<Rightarrow> chatState" where
  "noteThrottling m s = (case map_of m ''throttling'' of Some t \<Rightarrow> s\<lparr>csThrottling := t\<rparr> | None \<Rightarrow> s)"

definition handleUpdate :: "chatEnv \<Rightarrow> gotime \<Rightarrow> json \<Rightarrow> chatStep" where
  "handleUpdate env now raw =
     (case raw of
        JObj arg \<Rightarrow>
          let msgs = asArray (member arg ''messages'');
              cursorID = cursorMessageID arg
          in andThen (updateEvents env arg msgs)
            (andThen (\<lambda>s. if disengages msgs then (Some disengagedResult, s) else (None, noteThrottling arg s))
            (andThen (case pickVisible cursorID msgs None False of
                        Some m \<Rightarrow> observeMessage env arg cursorID m | None \<Rightarrow> skip)
            (andThen (update (\<lambda>s. if cursorID \<noteq> [] then s\<lparr>csAnswers := selectCursor cursorID (csAnswers s)\<rparr> else s))
            (andThen (if memberString arg ''writeAtCursor'' \<noteq> []
                      then writeCursor env (memberString arg ''writeAtCursor'') else skip)
            (update (\<lambda>s. if member arg ''isLastUpdate'' = JBool True
                          then s\<lparr>csFinalDeadline := now + finalFrameTimeout env\<rparr> else s))))))
      | _ \<Rightarrow> skip)"

subsection \<open>Result frames\<close>

text \<open>The error an upstream result value describes.\<close>

definition upstreamMessage :: "jsonObject \<Rightarrow> string" where
  "upstreamMessage rv =
     (let em = (case member rv ''error'' of
                  JObj e \<Rightarrow> (if memberString e ''message'' \<noteq> [] then memberString e ''message'' else memberString e ''code'')
                | _ \<Rightarrow> [])
      in if memberString rv ''message'' \<noteq> [] then memberString rv ''message'' else em)"

definition handleResult :: "chatEnv \<Rightarrow> gotime \<Rightarrow> jsonObject \<Rightarrow> chatState \<Rightarrow> chatState" where
  "handleResult env now obj s =
     (let s = s\<lparr>csFinalDeadline := now + finalFrameTimeout env\<rparr>
      in case member obj ''item'' of
           JObj item \<Rightarrow>
             let s = noteThrottling item s
             in (case member item ''result'' of
                   JObj res \<Rightarrow>
                     let raw = memberString res ''value'';
                         s = s\<lparr>csRawResult := raw\<rparr>;
                         s = (case map_of res ''message'' of Some (JStr m) \<Rightarrow> s\<lparr>csFinal := m\<rparr> | _ \<Rightarrow> s)
                     in if raw \<noteq> [] \<and> csResultError s = []
                        then (case decodeObject (ceUnmarshal env) raw of
                                Some rv \<Rightarrow> s\<lparr>csResultError := upstreamMessage rv\<rparr>
                              | None \<Rightarrow> s)
                        else s
                 | _ \<Rightarrow> s)
         | _ \<Rightarrow> s)"

subsection \<open>Completion\<close>

definition completionError :: "chatEnv \<Rightarrow> jsonObject \<Rightarrow> goerror option" where
  "completionError env obj =
     (case member obj ''error'' of
        JNull \<Rightarrow> None
      | JStr t \<Rightarrow> if blank t then None else Some (plainError (''chathub completion error: '' @ t))
      | v \<Rightarrow> Some (plainError (''chathub completion error: '' @ ceFormat env v)))"

definition answerText :: "chatState \<Rightarrow> string" where
  "answerText s =
     (let txt = csFinal s;
          txt = (if txt = [] then bestText (csAnswers s) else txt);
          txt = (if txt = [] then concat (csDeltas s) else txt)
      in scrubCitations (scrubNarration txt))"

definition handleCompletion :: "chatEnv \<Rightarrow> jsonObject \<Rightarrow> chatState \<Rightarrow> chatResult \<times> goerror option" where
  "handleCompletion env obj s =
     (let exhausted = quotaExhausted (ceNonPositive env) (csThrottling s);
          noContent = blank (csFinal s) \<and> blank (bestText (csAnswers s)) \<and> csDeltas s = []
      in if noContent \<and> exhausted then (noResult, Some strictQuotaExhaustedError)
         else case completionError env obj of
                Some e \<Rightarrow> (noResult, Some e)
              | None \<Rightarrow>
                  if csResultError s \<noteq> []
                  then (noResult, Some (plainError (''chathub upstream error: '' @ csResultError s)))
                  else if blank (answerText s)
                  then (noResult, Some (if exhausted then strictQuotaExhaustedError
                                        else plainError ''chathub returned no content''))
                  else (resultWith (answerText s) s, None))"

definition closeError :: "jsonObject \<Rightarrow> goerror" where
  "closeError obj =
     (if blank (memberString obj ''error'') then plainError ''chathub closed before completion''
      else plainError (''chathub closed before completion: '' @ memberString obj ''error''))"

subsection \<open>The loop\<close>

datatype frameOutcome = Continue | Return chatResult "goerror option"

definition handlePart :: "chatEnv \<Rightarrow> gotime \<Rightarrow> string \<Rightarrow> chatState \<Rightarrow> frameOutcome \<times> chatState" where
  "handlePart env now part s =
     (let s = retainEvent part s
      in case decodeObject (ceUnmarshal env) part of
           None \<Rightarrow> (Return noResult (Some (plainError ''signalr protocol: invalid JSON frame'')), s)
         | Some obj \<Rightarrow>
             let t = frameNumber (ceTrunc env) obj
             in if t = 6 then
                  (case cePong env (csPongs s) of
                     Some e \<Rightarrow> (Return noResult (Some (wrapError ''signalr ping reply'' e)), s)
                   | None \<Rightarrow> (Continue, s\<lparr>csPongs := csPongs s + 1\<rparr>))
                else if t = 1 \<and> memberString obj ''target'' = ''update'' then
                  (case forEach (handleUpdate env now) (asArray (member obj ''arguments'')) s of
                     (Some e, s') \<Rightarrow> (Return noResult (Some e), s') | (None, s') \<Rightarrow> (Continue, s'))
                else if t = 2 then (Continue, handleResult env now obj s)
                else if t = 3 then (case handleCompletion env obj s of (r, e) \<Rightarrow> (Return r e, s))
                else if t = 7 then (Return (partialResult s) (Some (closeError obj)), s)
                else (Continue, s))"

fun handleParts :: "chatEnv \<Rightarrow> gotime \<Rightarrow> string list \<Rightarrow> chatState \<Rightarrow> frameOutcome \<times> chatState" where
  "handleParts env now [] s = (Continue, s)"
| "handleParts env now (p # ps) s =
     (case handlePart env now p s of
        (Return r e, s') \<Rightarrow> (Return r e, s')
      | (Continue, s') \<Rightarrow> handleParts env now ps s')"

text \<open>
  One turn of the loop: the clock before the read, the error of the context then and after a failed read, the
  error of the ping goroutine, the clock while the message is handled, and the message or connection error that
  comes next on the socket with the time it comes, if it ever does.
\<close>

record wsRead =
  rdBefore :: gotime
  rdCancelled :: "goerror option"
  rdCancelledAfter :: "goerror option"
  rdPing :: "goerror option"
  rdAt :: gotime
  rdArrives :: "gotime option"
  rdMessage :: "goerror + string"

definition ceDeadline :: "chatEnv \<Rightarrow> gotime" where
  "ceDeadline env = (case ceContextDeadline env of Some c \<Rightarrow> c | None \<Rightarrow> ceStart env + minutes 10)"

text \<open>The deadline given to SetReadDeadline before a read.\<close>

definition readDeadline :: "chatEnv \<Rightarrow> chatState \<Rightarrow> gotime" where
  "readDeadline env s =
     (let d = ceDeadline env;
          d = (if csFinalDeadline s \<noteq> zeroTime \<and> csFinalDeadline s < d then csFinalDeadline s else d)
      in case ceContextDeadline env of Some c \<Rightarrow> if c < d then c else d | None \<Rightarrow> d)"

text \<open>
  ReadMessage on a connection with or without a read deadline: it gives what comes before the deadline and
  otherwise fails with a timeout; without a deadline it blocks for ever when nothing comes.
\<close>

definition readTimeout :: goerror where
  "readTimeout = plainError ''i/o timeout''"

definition ReadMessage :: "gotime option \<Rightarrow> wsRead \<Rightarrow> (goerror + string) option" where
  "ReadMessage deadline r =
     (case (rdArrives r, deadline) of
        (Some t, Some d) \<Rightarrow> Some (if t < d then rdMessage r else Inl readTimeout)
      | (Some t, None) \<Rightarrow> Some (rdMessage r)
      | (None, Some d) \<Rightarrow> Some (Inl readTimeout)
      | (None, None) \<Rightarrow> None)"

definition failedRead :: "wsRead \<Rightarrow> goerror \<Rightarrow> goerror" where
  "failedRead r e =
     (case rdCancelledAfter r of
        Some c \<Rightarrow> c
      | None \<Rightarrow> (case rdPing r of
                    Some p \<Rightarrow> wrapError ''signalr ping'' p
                  | None \<Rightarrow> wrapError ''ws read before completion'' e))"

text \<open>No outcome: the attempt waits for another read, or in one.\<close>

fun chatLoop :: "chatEnv \<Rightarrow> wsRead list \<Rightarrow> chatState \<Rightarrow> (chatResult \<times> goerror option) option \<times> chatState" where
  "chatLoop env [] s = (None, s)"
| "chatLoop env (r # rs) s =
     (if \<not> rdBefore r < ceDeadline env
      then (Some (partialResult s, Some (plainError ''chathub response deadline exceeded before completion'')), s)
      else case rdCancelled r of
             Some e \<Rightarrow> (Some (noResult, Some e), s)
           | None \<Rightarrow>
               (case ReadMessage (Some (readDeadline env s)) r of
                  None \<Rightarrow> (None, s)
                | Some (Inl e) \<Rightarrow> (Some (partialResult s, Some (failedRead r e)), s)
                | Some (Inr msg) \<Rightarrow>
                    (case handleParts env (rdAt r) (frameParts msg) s of
                       (Return res e, s') \<Rightarrow> (Some (res, e), s')
                     | (Continue, s') \<Rightarrow> chatLoop env rs s')))"

lemma ReadMessage_message: "ReadMessage d r = Some (Inr m) \<Longrightarrow> rdMessage r = Inr m"
  by (auto simp: ReadMessage_def split: option.splits if_splits)

lemma ReadMessage_error: "ReadMessage d r = Some (Inl e) \<Longrightarrow> e = readTimeout \<or> rdMessage r = Inl e"
  by (auto simp: ReadMessage_def split: option.splits if_splits)

lemma ReadMessage_returns [simp]: "ReadMessage (Some d) r \<noteq> None"
  by (auto simp: ReadMessage_def split: option.split)

lemma ReadMessage_cases:
  obtains (failed) e where "ReadMessage (Some d) r = Some (Inl e)" "e = readTimeout \<or> rdMessage r = Inl e"
    | (message) m where "ReadMessage (Some d) r = Some (Inr m)" "rdMessage r = Inr m"
proof (cases "ReadMessage (Some d) r")
  case (Some v)
  show ?thesis
  proof (cases v)
    case (Inl e)
    with Some show ?thesis using ReadMessage_error [of "Some d" r e] failed by blast
  next
    case (Inr m)
    with Some show ?thesis using ReadMessage_message [of "Some d" r m] message by blast
  qed
qed simp

subsection \<open>The attempt\<close>

record chatAccount =
  caAccessToken :: string
  caOID :: string
  caTID :: string

record chatRequest =
  cqText :: string
  cqTone :: string
  cqConversationID :: string
  cqSessionID :: string
  cqStarted :: bool

definition defaultTone :: string where
  "defaultTone = ''magic''"

text \<open>The request that is sent and whether it opens its conversation; the two UUIDs are arguments.\<close>

definition prepareChat ::
  "string \<Rightarrow> string \<Rightarrow> chatAccount \<Rightarrow> chatRequest \<Rightarrow> goerror + chatRequest \<times> bool" where
  "prepareChat newSession newConversation acc req =
     (if caAccessToken acc = [] \<or> caOID acc = [] \<or> caTID acc = []
      then Inl (plainError ''missing access token / oid / tid'')
      else if blank (cqText req) then Inl (plainError ''empty prompt'')
      else
        let req = (if cqTone req = [] then req\<lparr>cqTone := defaultTone\<rparr> else req);
            firstTurn = cqStarted req;
            (req, firstTurn) = (if cqSessionID req = [] then (req\<lparr>cqSessionID := newSession\<rparr>, True) else (req, firstTurn));
            (req, firstTurn) = (if cqConversationID req = [] then (req\<lparr>cqConversationID := newConversation\<rparr>, True)
                                else (req, firstTurn))
        in Inr (req, firstTurn))"

text \<open>Dialling: refused with a status and its Retry-After header, or failed without a response.\<close>

datatype dialOutcome = Dialled | DialRefused int string goerror | DialFailed goerror

definition dialError :: "(string \<Rightarrow> gotime option) \<Rightarrow> gotime \<Rightarrow> dialOutcome \<Rightarrow> goerror option" where
  "dialError httpDate now d =
     (case d of
        Dialled \<Rightarrow> None
      | DialRefused status retryAfter e \<Rightarrow>
          if status = 429
          then (let (delay, retryAt) = parseRetryAfter httpDate retryAfter now
                in Some (mkRateLimitError \<lparr>rlStatusCode = status, rlRetryAfter = delay, rlRetryAt = retryAt,
                                           rlReason = StatusText status\<rparr>))
          else Some (mkHTTPStatusError \<lparr>hsStatusCode = status, hsReason = StatusText status\<rparr> [e])
      | DialFailed e \<Rightarrow> Some (wrapError ''ws dial'' e))"

text \<open>What happens before the loop, in the order of the code.\<close>

record chatOpening =
  coURL :: "goerror option"
  coProxy :: "goerror option"
  coDial :: dialOutcome
  coNow :: gotime
  coHTTPDate :: "string \<Rightarrow> gotime option"
  coHelloSent :: "goerror option"
  coHandshake :: "goerror + string"
  coRequestSent :: "goerror option"

definition openingError :: "chatEnv \<Rightarrow> chatOpening \<Rightarrow> goerror option" where
  "openingError env co =
     (case coURL co of
        Some e \<Rightarrow> Some e
      | None \<Rightarrow>
     (case coProxy co of
        Some e \<Rightarrow> Some (wrapError ''proxy dialer'' e)
      | None \<Rightarrow>
     (case dialError (coHTTPDate co) (coNow co) (coDial co) of
        Some e \<Rightarrow> Some e
      | None \<Rightarrow>
     (case coHelloSent co of
        Some e \<Rightarrow> Some (wrapError ''handshake send'' e)
      | None \<Rightarrow>
     (case coHandshake co of
        Inl e \<Rightarrow> Some (wrapError ''handshake recv'' e)
      | Inr msg \<Rightarrow>
     (case validateSignalRHandshake (ceUnmarshal env) msg of
        Some e \<Rightarrow> Some (wrapError ''handshake recv'' e)
      | None \<Rightarrow> map_option (wrapError ''chat send'') (coRequestSent co)))))))"

definition runChat ::
  "chatEnv \<Rightarrow> chatOpening \<Rightarrow> wsRead list \<Rightarrow> (chatResult \<times> goerror option) option \<times> chatState" where
  "runChat env co reads =
     (case openingError env co of
        Some e \<Rightarrow> (Some (noResult, Some e), chatStart)
      | None \<Rightarrow> chatLoop env reads chatStart)"

end
