(* ===== verification/ChatLaws.thy ===== *)
theory ChatLaws
  imports ChatStream
begin

text \<open>
  Laws of the read loop: what its steps leave alone, the contract between the loop and the answer tracker,
  the frames that are kept, and how an attempt ends.
\<close>

subsection \<open>Steps that keep a property\<close>

definition keeps :: "(chatState \<Rightarrow> bool) \<Rightarrow> chatStep \<Rightarrow> bool" where
  "keeps P f \<longleftrightarrow> (\<forall>s. P s \<longrightarrow> P (snd (f s)))"

lemma keepsD: "keeps P f \<Longrightarrow> f s = (e, t) \<Longrightarrow> P s \<Longrightarrow> P t"
  unfolding keeps_def by (metis snd_conv)

lemma keeps_andThen: "keeps P f \<Longrightarrow> keeps P g \<Longrightarrow> keeps P (andThen f g)"
  unfolding keeps_def andThen_def by (fastforce split: prod.split option.split)

lemma keeps_forEach: "(\<And>x. keeps P (f x)) \<Longrightarrow> keeps P (forEach f xs)"
proof (induction xs)
  case Nil
  then show ?case by (simp add: keeps_def)
next
  case (Cons x xs)
  then have "keeps P (andThen (f x) (forEach f xs))" by (intro keeps_andThen) simp_all
  then show ?case by (simp add: keeps_def)
qed

lemma keeps_update: "(\<And>s. P s \<Longrightarrow> P (f s)) \<Longrightarrow> keeps P (update f)"
  by (simp add: keeps_def update_def)

lemma keeps_skip: "keeps P skip"
  by (simp add: keeps_def skip_def)

lemma note_fields [simp]:
  "csAnswers (noteThrottling m s) = csAnswers s" "csDeltas (noteThrottling m s) = csDeltas s"
  "csEvents (noteThrottling m s) = csEvents s" "csRetainedBytes (noteThrottling m s) = csRetainedBytes s"
  "csTruncated (noteThrottling m s) = csTruncated s"
  by (simp_all add: noteThrottling_def split: option.split)

lemma retain_fields [simp]:
  "csAnswers (retainEvent p s) = csAnswers s" "csDeltas (retainEvent p s) = csDeltas s"
  "csFinal (retainEvent p s) = csFinal s" "csResultError (retainEvent p s) = csResultError s"
  by (simp_all add: retainEvent_def split: prod.split)

lemma result_fields [simp]:
  "csAnswers (handleResult env now obj s) = csAnswers s" "csDeltas (handleResult env now obj s) = csDeltas s"
  "csEvents (handleResult env now obj s) = csEvents s" "csRetainedBytes (handleResult env now obj s) = csRetainedBytes s"
  "csTruncated (handleResult env now obj s) = csTruncated s"
  proof -
  let ?same = "\<lambda>t. csAnswers t = csAnswers s \<and> csDeltas t = csDeltas s \<and> csEvents t = csEvents s
    \<and> csRetainedBytes t = csRetainedBytes s \<and> csTruncated t = csTruncated s"
  have "?same (handleResult env now obj s)"
  proof (cases "member obj ''item''")
    case (JObj item)
    then show ?thesis
      by (cases "member item ''result''") (auto simp: handleResult_def Let_def split: option.split json.split)
  qed (simp_all add: handleResult_def)
  then show "csAnswers (handleResult env now obj s) = csAnswers s" "csDeltas (handleResult env now obj s) = csDeltas s"
    "csEvents (handleResult env now obj s) = csEvents s" "csRetainedBytes (handleResult env now obj s) = csRetainedBytes s"
    "csTruncated (handleResult env now obj s) = csTruncated s" by simp_all
qed

lemma emitDelta_fields:
  "csAnswers (snd (emitDelta env d s)) = csAnswers s"
  "csDeltas (snd (emitDelta env d s)) = (if d = [] then csDeltas s else csDeltas s @ [d])"
  "csEvents (snd (emitDelta env d s)) = csEvents s" "csRetainedBytes (snd (emitDelta env d s)) = csRetainedBytes s"
  "csTruncated (snd (emitDelta env d s)) = csTruncated s"
  by (simp_all add: emitDelta_def Let_def split: option.split prod.split)

lemma emitEvent_fields:
  "csAnswers (snd (emitEvent env ev s)) = csAnswers s" "csDeltas (snd (emitEvent env ev s)) = csDeltas s"
  "csEvents (snd (emitEvent env ev s)) = csEvents s" "csRetainedBytes (snd (emitEvent env ev s)) = csRetainedBytes s"
  "csTruncated (snd (emitEvent env ev s)) = csTruncated s"
  by (simp_all add: emitEvent_def Let_def split: option.split prod.split)

lemma keeps_updateEvents:
  assumes "\<And>ev. keeps P (emitEvent env ev)" and "\<And>s seen. P s \<Longrightarrow> P (s\<lparr>csSeenTools := seen\<rparr>)"
  shows "keeps P (updateEvents env arg msgs)"
  unfolding keeps_def
proof (intro allI impI)
  fix s assume "P s"
  obtain seen tools where t: "extractToolEvents (JObj arg) (csSeenTools s) = (seen, tools)" by force
  have "keeps P (andThen (forEach (emitEvent env) tools) (forEach (emitEvent env) others))" for others
    by (intro keeps_andThen keeps_forEach assms(1))
  then show "P (snd (updateEvents env arg msgs s))"
    using \<open>P s\<close> assms(2) by (simp add: updateEvents_def t Let_def keeps_def)
qed

text \<open>The steps of an update, one condition each.\<close>

lemma keeps_handleUpdate:
  assumes ev: "\<And>ev. keeps P (emitEvent env ev)" and seen: "\<And>s seen. P s \<Longrightarrow> P (s\<lparr>csSeenTools := seen\<rparr>)"
    and note': "\<And>m s. P s \<Longrightarrow> P (noteThrottling m s)"
    and obs: "\<And>arg c m. keeps P (observeMessage env arg c m)"
    and sel: "\<And>c s. P s \<Longrightarrow> P (s\<lparr>csAnswers := selectCursor c (csAnswers s)\<rparr>)"
    and cur: "\<And>w. keeps P (writeCursor env w)"
    and dl: "\<And>s d. P s \<Longrightarrow> P (s\<lparr>csFinalDeadline := d\<rparr>)"
  shows "keeps P (handleUpdate env now raw)"
proof (cases raw)
  case (JObj arg)
  have dis: "keeps P (\<lambda>s. if disengages msgs then (Some disengagedResult, s) else (None, noteThrottling arg s))" for msgs
    using note' by (simp add: keeps_def)
  have vis: "keeps P (case v of Some m \<Rightarrow> observeMessage env arg c m | None \<Rightarrow> skip)" for v c
    using obs keeps_skip by (cases v) simp_all
  have wr: "keeps P (if b then writeCursor env w else skip)" for b w using cur keeps_skip by simp
  show ?thesis
    unfolding handleUpdate_def JObj json.case Let_def
    by (intro keeps_andThen keeps_updateEvents ev seen dis vis wr keeps_update) (auto intro: sel dl)
qed (simp_all add: handleUpdate_def keeps_skip)

subsection \<open>The loop and the answer tracker\<close>

text \<open>
  The interface between them: a property of the tracker together with all bytes given to the caller, kept by
  every operation of the tracker when its output is passed on.
\<close>

locale answer_client =
  fixes P :: "answerStream \<Rightarrow> string list \<Rightarrow> bool"
  assumes observe: "P a ds \<Longrightarrow> observeSnapshot i t f a = (out, a') \<Longrightarrow> P a' (if out = [] then ds else ds @ [out])"
    and select: "P a ds \<Longrightarrow> P (selectCursor i a) ds"
    and append: "P a ds \<Longrightarrow> appendAtCursor d a = ((out, visible), a') \<Longrightarrow>
      P a' (if visible \<and> out \<noteq> [] then ds @ [out] else ds)"
begin

lemma tracker_observe_keeps: "keeps (\<lambda>s. P (csAnswers s) (csDeltas s)) (observeMessage env arg c m)"
  unfolding keeps_def
proof (intro allI impI)
  fix s :: chatState assume p: "P (csAnswers s) (csDeltas s)"
  define i where "i = (if memberString m ''messageId'' = [] then c else memberString m ''messageId'')"
  define f where "f \<longleftrightarrow> member arg ''isLastUpdate'' = JBool True \<or> EqualFold (TrimSpace (memberString m ''turnState'')) ''Completed''"
  obtain out a' where o: "observeSnapshot i (scrubCitations (memberString m ''text'')) f (csAnswers s) = (out, a')" by force
  then have "observeMessage env arg c m s = emitDelta env out (s\<lparr>csAnswers := a'\<rparr>)"
    unfolding observeMessage_def Let_def i_def [symmetric] f_def [symmetric] by simp
  then show "P (csAnswers (snd (observeMessage env arg c m s))) (csDeltas (snd (observeMessage env arg c m s)))"
    using observe [OF p o] by (simp add: emitDelta_fields split: if_splits)
qed

lemma tracker_write_keeps: "keeps (\<lambda>s. P (csAnswers s) (csDeltas s)) (writeCursor env w)"
  unfolding keeps_def
proof (intro allI impI)
  fix s :: chatState assume p: "P (csAnswers s) (csDeltas s)"
  obtain out visible a' where o: "appendAtCursor (scrubCitations w) (csAnswers s) = ((out, visible), a')" by (metis surj_pair)
  show "P (csAnswers (snd (writeCursor env w s))) (csDeltas (snd (writeCursor env w s)))"
    using append [OF p o] by (auto simp: writeCursor_def o emitDelta_fields split: if_splits)
qed

lemma tracker_update_keeps: "keeps (\<lambda>s. P (csAnswers s) (csDeltas s)) (handleUpdate env now raw)"
  by (rule keeps_handleUpdate) (simp_all add: tracker_observe_keeps tracker_write_keeps select, simp add: keeps_def emitEvent_fields)

lemma part_keeps:
  assumes "handlePart env now part s = (o', s')" and "P (csAnswers s) (csDeltas s)"
  shows "P (csAnswers s') (csDeltas s')"
proof -
  have k: "keeps (\<lambda>s. P (csAnswers s) (csDeltas s)) (forEach (handleUpdate env now) args)" for args
    by (intro keeps_forEach tracker_update_keeps)
  have "P (csAnswers (retainEvent part s)) (csDeltas (retainEvent part s))" using assms(2) by simp
  then have u: "P (csAnswers t) (csDeltas t)" if "forEach (handleUpdate env now) args (retainEvent part s) = (e, t)" for args e t
    using keepsD [OF k that] by simp
  from assms show ?thesis
    by (auto simp: handlePart_def Let_def dest: u split: option.splits if_splits prod.splits)
qed

lemma parts_keep:
  "handleParts env now ps s = (o', s') \<Longrightarrow> P (csAnswers s) (csDeltas s) \<Longrightarrow> P (csAnswers s') (csDeltas s')"
  by (induction ps arbitrary: s) (auto dest: part_keeps split: prod.splits frameOutcome.splits)

lemma loop_keeps:
  "chatLoop env rs s = (o', s') \<Longrightarrow> P (csAnswers s) (csDeltas s) \<Longrightarrow> P (csAnswers s') (csDeltas s')"
  by (induction rs arbitrary: s)
     (auto dest: parts_keep split: if_splits option.splits sum.splits prod.splits frameOutcome.splits)

end

definition deliveredInv :: "answerStream \<Rightarrow> string list \<Rightarrow> bool" where
  "deliveredInv a ds \<longleftrightarrow> answerInv a \<and> attributed a ds \<and> [] \<notin> set ds"

interpretation delivered: answer_client deliveredInv
proof
  fix a ds i t f out a'
  assume p: "deliveredInv a ds" and o: "observeSnapshot i t f a = (out, a')"
  from snapshot_law [OF _ o] p have l: "answerInv a'" "grows a (trackKey i) out a'" by (simp_all add: deliveredInv_def)
  show "deliveredInv a' (if out = [] then ds else ds @ [out])"
    using attributed_grows [OF _ l(2), of ds] l(1) p by (simp add: deliveredInv_def)
next
  fix a ds i assume "deliveredInv a ds"
  then show "deliveredInv (selectCursor i a) ds"
    using select_law [of a i] attributed_grows(2) by (auto simp: deliveredInv_def)
next
  fix a ds d out visible a'
  assume p: "deliveredInv a ds" and o: "appendAtCursor d a = ((out, visible), a')"
  from append_law [OF _ o] p obtain k where l: "answerInv a'" "grows a k out a'" "out = (if visible then d else [])"
    by (auto simp: deliveredInv_def)
  show "deliveredInv a' (if visible \<and> out \<noteq> [] then ds @ [out] else ds)"
    using attributed_grows [OF _ l(2), of ds] l(1,3) p by (auto simp: deliveredInv_def)
qed

text \<open>Nothing that has been given to the caller is taken back.\<close>

interpretation appended: answer_client "\<lambda>_ ds. prefix before ds" for before
  by unfold_locales (auto simp: prefix_snoc)

end
