(* ===== verification/ChatProps.thy ===== *)
theory ChatProps
  imports ChatLaws
begin

text \<open>Properties of a ChatHub attempt, with the frames their witnesses use.\<close>

subsection \<open>How an attempt ends\<close>

text \<open>The frames of a run, in the order they are read.\<close>

definition messagesOf :: "wsRead list \<Rightarrow> string list" where
  "messagesOf rs = List.map_filter (\<lambda>r. case rdMessage r of Inr m \<Rightarrow> Some m | Inl _ \<Rightarrow> None) rs"

definition completedBy :: "chatEnv \<Rightarrow> chatState \<Rightarrow> string \<Rightarrow> chatResult \<Rightarrow> bool" where
  "completedBy env s part r \<longleftrightarrow> (\<exists>obj. decodeObject (ceUnmarshal env) part = Some obj
     \<and> frameNumber (ceTrunc env) obj = 3 \<and> completionError env obj = None \<and> csResultError s = []
     \<and> r = resultWith (answerText s) s \<and> \<not> blank (answerText s))"

lemma completion_success:
  "handleCompletion env obj s = (r, None) \<Longrightarrow>
   completionError env obj = None \<and> csResultError s = [] \<and> r = resultWith (answerText s) s \<and> \<not> blank (answerText s)"
  by (auto simp: handleCompletion_def Let_def split: if_splits option.splits)

lemma part_success:
  assumes "handlePart env now part s = (Return r None, s')"
  shows "completedBy env s' part r"
proof -
  obtain obj where d: "decodeObject (ceUnmarshal env) part = Some obj"
    using assms by (auto simp: handlePart_def Let_def split: option.splits)
  have t: "frameNumber (ceTrunc env) obj = 3" "handleCompletion env obj (retainEvent part s) = (r, None)"
    "s' = retainEvent part s"
    using assms d by (auto simp: handlePart_def Let_def split: if_splits option.splits prod.splits)
  from completion_success [OF t(2)] d t(1,3) show ?thesis unfolding completedBy_def by blast
qed

lemma parts_success:
  "handleParts env now ps s = (Return r None, s') \<Longrightarrow> \<exists>p \<in> set ps. completedBy env s' p r"
  by (induction ps arbitrary: s) (auto dest: part_success split: prod.splits frameOutcome.splits)

lemma loop_success:
  assumes "chatLoop env rs s = (Some (r, None), s')"
  shows "\<exists>m \<in> set (messagesOf rs). \<exists>p \<in> set (frameParts m). completedBy env s' p r"
  using assms
proof (induction rs arbitrary: s)
  case (Cons x rs)
  then obtain msg where r: "ReadMessage (Some (readDeadline env s)) x = Some (Inr msg)"
    by (auto split: if_splits option.splits sum.splits)
  then have m: "rdMessage x = Inr msg" by (rule ReadMessage_message)
  obtain o' t where h: "handleParts env (rdAt x) (frameParts msg) s = (o', t)" by force
  show ?case
  proof (cases o')
    case Continue
    with Cons.prems h r have "chatLoop env rs t = (Some (r, None), s')"
      by (auto split: if_splits option.splits)
    from Cons.IH [OF this] show ?thesis by (auto simp: messagesOf_def List.map_filter_simps m)
  next
    case (Return q e)
    with Cons.prems h r have "handleParts env (rdAt x) (frameParts msg) s = (Return r None, s')"
      by (auto split: if_splits option.splits)
    from parts_success [OF this] show ?thesis by (auto simp: messagesOf_def List.map_filter_simps m)
  qed
qed simp

subsection \<open>Classes of the errors\<close>

text \<open>The callers and the network give no errors of their own: no callbacks, pings that succeed, a live context.\<close>

definition quiet :: "chatEnv \<Rightarrow> bool" where
  "quiet env \<longleftrightarrow> ceOnDelta env = None \<and> ceOnEvent env = None \<and> (\<forall>n. cePong env n = None)"

definition networkError :: "goerror \<Rightarrow> bool" where
  "networkError e \<longleftrightarrow> \<not> errorsIs e ContextCanceled \<and> \<not> errorsIs e ContextDeadlineExceeded"

definition liveRead :: "wsRead \<Rightarrow> bool" where
  "liveRead r \<longleftrightarrow> rdCancelled r = None \<and> rdCancelledAfter r = None \<and> rdPing r = None
     \<and> (case rdMessage r of Inl e \<Rightarrow> networkError e | Inr _ \<Rightarrow> True)"

definition badFrame :: goerror where
  "badFrame = plainError ''signalr protocol: invalid JSON frame''"

definition upstreamOutcome :: "goerror \<Rightarrow> bool" where
  "upstreamOutcome e \<longleftrightarrow> e = disengagedResult \<or> e = strictQuotaExhaustedError \<or> e = badFrame \<or> IsTransientUpstream (Some e)"

lemma prefix_Contains: "HasPrefix s p \<Longrightarrow> Contains s p"
  by (simp add: Contains_sublist prefix_imp_sublist)

lemma transient_text:
  assumes "m \<in> set transientMarkers" and "HasPrefix (ToLower (errText e)) m" and "networkError e"
  shows "IsTransientUpstream (Some e)"
  using assms prefix_Contains [OF assms(2)] by (auto simp: IsTransientUpstream_def networkError_def containsAny_def list_ex_iff)

lemma plain_network [simp]: "networkError (plainError t)"
  by (simp add: networkError_def errorsIs_def plainError_def)

lemma errText_plain [simp]: "errText (plainError t) = t"
  by (simp add: plainError_def)

lemma plain_transient:
  "m \<in> set transientMarkers \<Longrightarrow> ToLower l = m \<Longrightarrow> IsTransientUpstream (Some (plainError (l @ t)))"
  by (rule transient_text [of m]) (simp_all add: ToLower_def)

lemma wrap_network: "networkError e \<Longrightarrow> networkError (wrapError l e)"
  by (simp add: networkError_def errorsIs_def wrapError_def)

lemmas stage_markers =
  plain_transient [of "''chathub completion error''" "''chathub completion error''"]
  plain_transient [of "''chathub upstream error''" "''chathub upstream error''"]
  plain_transient [of "''chathub closed before completion''" "''chathub closed before completion''"]
  plain_transient [of "''chathub response deadline''" "''chathub response deadline''"]

lemma completion_transient: "completionError env obj = Some e \<Longrightarrow> IsTransientUpstream (Some e)"
proof -
  have t: "IsTransientUpstream (Some (plainError (''chathub completion error: '' @ x)))" for x
    using plain_transient [of "''chathub completion error''" "''chathub completion error''" "'': '' @ x"]
    by (simp add: transientMarkers_def ToLower_def lowerChar_def)
  show "completionError env obj = Some e \<Longrightarrow> IsTransientUpstream (Some e)"
    using t by (auto simp: completionError_def split: json.splits if_splits)
qed

subsection \<open>Frames of an example\<close>

text \<open>An update that writes at the cursor and a completion frame, joined by the record separator.\<close>

definition demoUnmarshal :: "string \<Rightarrow> json option" where
  "demoUnmarshal p =
     (if p = ''u'' then Some (JObj [(''type'', JNum ''1''), (''target'', JStr ''update''),
                                    (''arguments'', JArr [JObj [(''writeAtCursor'', JStr ''Hi'')]])])
      else if p = ''c'' then Some (JObj [(''type'', JNum ''3'')])
      else if p = ''{}'' then Some (JObj []) else None)"

definition demoEnv :: chatEnv where
  "demoEnv = \<lparr>ceUnmarshal = demoUnmarshal, ceTrunc = (\<lambda>n. if n = ''1'' then 1 else if n = ''3'' then 3 else 0),
     ceNonPositive = (\<lambda>n. n = ''0''), ceFormat = (\<lambda>_. []), ceOnDelta = None, ceOnEvent = None,
     cePong = (\<lambda>_. None), ceFinalFrameTimeout = 0, ceStart = 1, ceContextDeadline = Some 100\<rparr>"

definition demoOpening :: chatOpening where
  "demoOpening = \<lparr>coURL = None, coProxy = None, coDial = Dialled, coNow = 1, coHTTPDate = (\<lambda>_. None), coHelloSent = None,
     coHandshake = Inr (''{}'' @ [recordSeparator]), coRequestSent = None\<rparr>"

definition demoRead :: "goerror + string \<Rightarrow> wsRead" where
  "demoRead m = \<lparr>rdBefore = 2, rdCancelled = None, rdCancelledAfter = None, rdPing = None, rdAt = 3, rdArrives = Some 3, rdMessage = m\<rparr>"

definition demoReads :: "wsRead list" where
  "demoReads = [demoRead (Inr (''u'' @ [recordSeparator])), demoRead (Inr (''c'' @ [recordSeparator]))]"

definition demoAnswers :: answerStream where
  "demoAnswers = \<lparr>asTracks = [(implicitAnswerTrackID, \<lparr>atID = implicitAnswerTrackID, atAuthoritative = ''Hi'', atDelivered = ''Hi'', atFinal = False\<rparr>)],
     asCurrentID = implicitAnswerTrackID, asLastVisibleID = implicitAnswerTrackID, asFinalID = [], asBlockedCursor = False\<rparr>"

definition demoMid :: chatState where
  "demoMid = chatStart\<lparr>csEvents := [''u''], csRetainedBytes := 1, csAnswers := demoAnswers, csDeltas := [''Hi'']\<rparr>"

definition demoEnd :: chatState where
  "demoEnd = demoMid\<lparr>csEvents := [''u'', ''c''], csRetainedBytes := 2\<rparr>"

lemma demo_opening: "openingError demoEnv demoOpening = None"
proof -
  have "validateSignalRHandshake demoUnmarshal (''{}'' @ [recordSeparator]) = None" by code_simp
  then show ?thesis by (simp add: openingError_def demoOpening_def dialError_def demoEnv_def)
qed

lemma demo_append: "appendAtCursor (scrubCitations ''Hi'') newAnswerStream = ((''Hi'', True), demoAnswers)"
proof -
  have h: "scrubCitations ''Hi'' = ''Hi''" by code_simp
  show ?thesis unfolding h by code_simp
qed

lemma demo_update: "handlePart demoEnv 3 ''u'' chatStart = (Continue, demoMid)"
proof -
  have r: "retainEvent ''u'' chatStart = chatStart\<lparr>csEvents := [''u''], csRetainedBytes := Suc 0\<rparr>" 
    by (simp add: retainEvent_def chatStart_def maxRetainedEventBytes_def maxRetainedEventCount_def dropEvents.simps)
  have d: "decodeObject demoUnmarshal ''u'' = Some [(''type'', JNum ''1''), (''target'', JStr ''update''),
     (''arguments'', JArr [JObj [(''writeAtCursor'', JStr ''Hi'')]])]"
    by (simp add: decodeObject_def demoUnmarshal_def)
  have c: "cursorMessageID [(''writeAtCursor'', JStr ''Hi'')] = []" by code_simp
  let ?s = "chatStart\<lparr>csEvents := [''u''], csRetainedBytes := Suc 0\<rparr>"
  have u: "handleUpdate demoEnv 3 (JObj [(''writeAtCursor'', JStr ''Hi'')]) ?s = (None, demoMid)"
    using demo_append
    by (simp add: handleUpdate_def c Let_def getOr_def asString_def asArray_def andThen_def updateEvents_def demoEnv_def
      disengages_def noteThrottling_def skip_def update_def writeCursor_def emitDelta_def demoMid_def chatStart_def)
  have f: "ceUnmarshal demoEnv = demoUnmarshal" "ceTrunc demoEnv ''1'' = 1" by (simp_all add: demoEnv_def)
  show ?thesis
    by (simp add: handlePart_def Let_def r d f u frameNumber_def getOr_def asString_def asArray_def andThen_def)
qed

lemma demo_completion: "handlePart demoEnv 3 ''c'' demoMid = (Return (resultWith ''Hi'' demoEnd) None, demoEnd)"
proof -
  have r: "retainEvent ''c'' demoMid = demoEnd" 
    by (simp add: retainEvent_def chatStart_def demoMid_def demoEnd_def maxRetainedEventBytes_def maxRetainedEventCount_def dropEvents.simps)
  have d: "decodeObject demoUnmarshal ''c'' = Some [(''type'', JNum ''3'')]"
    by (simp add: decodeObject_def demoUnmarshal_def)
  have b: "bestText demoAnswers = ''Hi''" by code_simp
  have t: "scrubCitations (scrubNarration ''Hi'') = ''Hi''" by code_simp
  have n: "\<not> blank ''Hi''" by code_simp
  have q: "csFinal demoEnd = []" "csDeltas demoEnd = [''Hi'']" "csResultError demoEnd = []" "csAnswers demoEnd = demoAnswers"
    by (simp_all add: demoEnd_def demoMid_def chatStart_def)
  have f: "ceUnmarshal demoEnv = demoUnmarshal" "ceTrunc demoEnv ''3'' = 3" by (simp_all add: demoEnv_def)
  show ?thesis
    by (simp add: handlePart_def Let_def r d f q frameNumber_def getOr_def asString_def
      handleCompletion_def completionError_def answerText_def b t n)
qed

lemma demo_parts:
  "frameParts (''u'' @ [recordSeparator]) = [''u'']" "frameParts (''c'' @ [recordSeparator]) = [''c'']"
  by code_simp+

lemma demo_in_time: "\<not> ceDeadline demoEnv \<le> 2"
  by (simp add: demoEnv_def ceDeadline_def)

lemma demo_read: "csFinalDeadline st = zeroTime \<Longrightarrow> ReadMessage (Some (readDeadline demoEnv st)) (demoRead v) = Some v"
  by (simp add: ReadMessage_def readDeadline_def demoEnv_def ceDeadline_def demoRead_def)

lemma demoRead_simps:
  "rdBefore (demoRead v) = 2" "rdCancelled (demoRead v) = None" "rdAt (demoRead v) = 3" "rdMessage (demoRead v) = v"
  "rdCancelledAfter (demoRead v) = None" "rdPing (demoRead v) = None"
  by (simp_all add: demoRead_def)

lemma demo_run: "runChat demoEnv demoOpening demoReads = (Some (resultWith ''Hi'' demoEnd, None), demoEnd)"
proof -
  have z: "csFinalDeadline chatStart = zeroTime" "csFinalDeadline demoMid = zeroTime"
    by (simp_all add: chatStart_def demoMid_def)
  show ?thesis
    by (simp only: runChat_def demo_opening option.case demoReads_def chatLoop.simps demoRead_simps demo_read z sum.case demo_parts
      handleParts.simps demo_update demo_completion prod.case frameOutcome.case not_less demo_in_time if_False)
qed

subsection \<open>Success and the streamed answer\<close>

text \<open>C18: an attempt that succeeds has read a completion frame (type 3) without an error of its own and after no
  result error; the text it returns is not blank and is the final message, else the best answer track, else
  the concatenated deltas, without narration and citation marks. No other frame and no end of the connection
  gives a success.\<close>

theorem chat_success:
  assumes "runChat env co reads = (Some (r, None), s)"
  shows "\<exists>m \<in> set (messagesOf reads). \<exists>part \<in> set (frameParts m). \<exists>obj.
      decodeObject (ceUnmarshal env) part = Some obj \<and> frameNumber (ceTrunc env) obj = 3
    \<and> completionError env obj = None \<and> csResultError s = [] \<and> r = resultWith (answerText s) s \<and> \<not> blank (crText r)"
proof -
  have "chatLoop env reads chatStart = (Some (r, None), s)"
    using assms by (simp add: runChat_def split: option.splits)
  from loop_success [OF this] show ?thesis
    unfolding completedBy_def by (fastforce simp: resultWith_def)
qed

theorem chat_success_witness:
  "\<exists>m \<in> set (messagesOf demoReads). \<exists>part \<in> set (frameParts m). \<exists>obj.
      decodeObject (ceUnmarshal demoEnv) part = Some obj \<and> frameNumber (ceTrunc demoEnv) obj = 3
    \<and> completionError demoEnv obj = None \<and> csResultError demoEnd = []
    \<and> resultWith ''Hi'' demoEnd = resultWith (answerText demoEnd) demoEnd \<and> \<not> blank (crText (resultWith ''Hi'' demoEnd))"
  by (rule chat_success [OF demo_run])

lemma chatLoop_append:
  "chatLoop env (rs @ rs') s =
     (case chatLoop env rs s of (Some x, s') \<Rightarrow> (Some x, s') | (None, s') \<Rightarrow> chatLoop env rs' s')"
  by (induction rs arbitrary: s) (auto split: option.split sum.split prod.split frameOutcome.split)

lemma deliveredInv_start: "deliveredInv (csAnswers chatStart) (csDeltas chatStart)"
  by (simp add: deliveredInv_def chatStart_def answerInv_new attributed_new)

lemma run_delivered: "runChat env co reads = (o', s) \<Longrightarrow> deliveredInv (csAnswers s) (csDeltas s)"
  using delivered.loop_keeps [of env reads chatStart] deliveredInv_start
  by (auto simp: runChat_def split: option.splits)

lemma run_grows: "prefix (csDeltas (snd (runChat env co rs))) (csDeltas (snd (runChat env co (rs @ rs'))))"
proof (cases "openingError env co")
  case None
  obtain o' s where l: "chatLoop env rs chatStart = (o', s)" by force
  obtain o'' t where m: "chatLoop env rs' s = (o'', t)" by force
  have "prefix (csDeltas s) (csDeltas t)" using appended.loop_keeps [OF m, of "csDeltas s"] by simp
  with None l m show ?thesis by (simp add: runChat_def chatLoop_append split: option.split)
qed (simp add: runChat_def)

text \<open>One track that upstream has not rewritten.\<close>

definition plainAnswer :: "chatState \<Rightarrow> string \<Rightarrow> bool" where
  "plainAnswer s k \<longleftrightarrow> (\<exists>t. asTracks (csAnswers s) = [(k, t)] \<and> \<not> rewritten t)"

lemma plain_best:
  assumes inv: "deliveredInv (csAnswers s) (csDeltas s)" and p: "plainAnswer s k"
  shows "bestText (csAnswers s) = concat (csDeltas s) \<or> bestText (csAnswers s) = []"
proof -
  obtain t where t: "asTracks (csAnswers s) = [(k, t)]" "\<not> rewritten t" using p by (auto simp: plainAnswer_def)
  have a: "answerInv (csAnswers s)" "attributed (csAnswers s) (csDeltas s)" using inv by (simp_all add: deliveredInv_def)
  have st: "soundTrack t" "atID t = k" using a(1) t(1) by (auto simp: answerInv_def)
  have d: "deliveredOn (csAnswers s) j = (if j = k then atDelivered t else [])" for j by (simp add: deliveredOn_def t(1))
  have c: "concat (csDeltas s) = atDelivered t" using attributed_single [OF a(2), of k] d by simp
  have "asLastVisibleID (csAnswers s) \<noteq> []" using a(1) t(1) by (simp add: answerInv_def)
  then have l: "asLastVisibleID (csAnswers s) = k" using a(1) t(1) by (auto simp: answerInv_def split: if_splits)
  have au: "atAuthoritative t = atDelivered t" using st(1) t(2) by (simp add: soundTrack_def)
  show ?thesis
    using l au c by (auto simp: bestText_def t(1))
qed

text \<open>C19: what the caller receives and what the attempt finally returns agree. After every run each piece that
  was streamed is nonempty and belongs to one answer track, and the pieces of a track make up exactly what the
  track has delivered; further reads only append to what has been streamed. When upstream kept to a single
  answer that it did not rewrite and sent no final message, the text of a successful attempt is the
  concatenation of the streamed pieces, cleaned of narration and citation marks.\<close>

theorem streamed_answer:
  assumes "runChat env co reads = (o', s)"
  shows "[] \<notin> set (csDeltas s)
    \<and> (\<exists>owners. length owners = length (csDeltas s) \<and> (\<forall>k. deliveredOn (csAnswers s) k
           = concat (map snd (filter (\<lambda>(owner, d). owner = k) (zip owners (csDeltas s))))))
    \<and> prefix (csDeltas s) (csDeltas (snd (runChat env co (reads @ later))))
    \<and> (o' = Some (r, None) \<longrightarrow> plainAnswer s k \<longrightarrow> csFinal s = []
           \<longrightarrow> crText r = scrubCitations (scrubNarration (concat (csDeltas s))))"
proof -
  have inv: "deliveredInv (csAnswers s) (csDeltas s)" by (rule run_delivered [OF assms])
  have "crText r = scrubCitations (scrubNarration (concat (csDeltas s)))"
    if a: "o' = Some (r, None)" "plainAnswer s k" "csFinal s = []"
  proof -
    have "chatLoop env reads chatStart = (Some (r, None), s)" using assms a(1) by (simp add: runChat_def split: option.splits)
    from loop_success [OF this] have r: "crText r = answerText s" "\<not> blank (crText r)"
      by (auto simp: completedBy_def resultWith_def)
    show ?thesis using plain_best [OF inv a(2)] r a(3) by (auto simp: answerText_def Let_def)
  qed
  then show ?thesis
    using inv run_grows [of env co reads later] assms by (simp add: deliveredInv_def attributed_def)
qed

lemma demo_plain: "plainAnswer demoEnd implicitAnswerTrackID"
  by (simp add: plainAnswer_def demoEnd_def demoMid_def chatStart_def demoAnswers_def rewritten_def)

theorem streamed_answer_witness:
  "crText (resultWith ''Hi'' demoEnd) = scrubCitations (scrubNarration (concat (csDeltas demoEnd)))"
  using streamed_answer [OF demo_run, of "[]" "resultWith ''Hi'' demoEnd" implicitAnswerTrackID] demo_plain
  by (simp add: demoEnd_def demoMid_def chatStart_def)

end
