(* ===== verification/ChatLimits.thy ===== *)
theory ChatLimits
  imports ChatProps
begin

text \<open>Errors of the read loop by class, the frames a result keeps, the handshake, and the end of an attempt.\<close>

subsection \<open>Errors of the loop\<close>

definition failsOnly :: "(goerror \<Rightarrow> bool) \<Rightarrow> chatStep \<Rightarrow> bool" where
  "failsOnly E f \<longleftrightarrow> (\<forall>s e t. f s = (Some e, t) \<longrightarrow> E e)"

lemma failsOnlyD: "failsOnly E f \<Longrightarrow> f s = (Some e, t) \<Longrightarrow> E e"
  unfolding failsOnly_def by blast

lemma fails_andThen: "failsOnly E f \<Longrightarrow> failsOnly E g \<Longrightarrow> failsOnly E (andThen f g)"
  unfolding failsOnly_def andThen_def by (auto split: prod.splits option.splits)

lemma fails_forEach: "(\<And>x. failsOnly E (f x)) \<Longrightarrow> failsOnly E (forEach f xs)"
proof (induction xs)
  case (Cons x xs)
  then have "failsOnly E (andThen (f x) (forEach f xs))" by (intro fails_andThen) simp_all
  then show ?case by (simp add: failsOnly_def)
qed (simp add: failsOnly_def)

lemma fails_delta: "quiet env \<Longrightarrow> failsOnly E (emitDelta env d)"
  by (auto simp: failsOnly_def emitDelta_def quiet_def Let_def)

lemma fails_event: "quiet env \<Longrightarrow> failsOnly E (emitEvent env ev)"
  by (auto simp: failsOnly_def emitEvent_def quiet_def)

lemma fails_update: "failsOnly E (update f)" and fails_skip: "failsOnly E skip"
  by (simp_all add: failsOnly_def update_def skip_def)

lemma fails_events: "quiet env \<Longrightarrow> failsOnly E (updateEvents env arg msgs)"
  by (simp add: failsOnly_def updateEvents_def quiet_def)

lemma fails_observe: "quiet env \<Longrightarrow> failsOnly E (observeMessage env arg c m)"
  unfolding failsOnly_def
proof (intro allI impI)
  fix s e t assume q: "quiet env" and o: "observeMessage env arg c m s = (Some e, t)"
  then obtain d s0 where "emitDelta env d s0 = (Some e, t)" by (auto simp: observeMessage_def Let_def split: prod.splits)
  with fails_delta [OF q] show "E e" by (rule failsOnlyD)
qed

lemma fails_write: "quiet env \<Longrightarrow> failsOnly E (writeCursor env w)"
  by (auto simp: failsOnly_def writeCursor_def split: prod.splits if_splits dest: failsOnlyD [OF fails_delta [of env E]])

lemma fails_handleUpdate:
  assumes "quiet env"
  shows "failsOnly (\<lambda>e. e = disengagedResult) (handleUpdate env now raw)"
proof (cases raw)
  case (JObj arg)
  note q = fails_events [OF assms] fails_observe [OF assms] fails_write [OF assms]
  have dis: "failsOnly (\<lambda>e. e = disengagedResult)
      (\<lambda>s. if disengages msgs then (Some disengagedResult, s) else (None, noteThrottling arg s))" for msgs
    by (auto simp: failsOnly_def)
  have vis: "failsOnly E (case v of Some m \<Rightarrow> observeMessage env arg c m | None \<Rightarrow> skip)" for E v c
    using q fails_skip by (cases v) simp_all
  have wr: "failsOnly E (if b then writeCursor env w else skip)" for E b w using q fails_skip by simp
  show ?thesis
    unfolding handleUpdate_def JObj json.case Let_def
    by (intro fails_andThen q dis vis wr fails_update)
qed (simp_all add: handleUpdate_def fails_skip)

lemma outcome_transient: "IsTransientUpstream (Some e) \<Longrightarrow> upstreamOutcome e"
  by (simp add: upstreamOutcome_def)

lemmas marker_facts = transientMarkers_def ToLower_def lowerChar_def

lemma upstream_transient: "IsTransientUpstream (Some (plainError (''chathub upstream error: '' @ t)))"
  using plain_transient [of "''chathub upstream error''" "''chathub upstream error''" "'': '' @ t"]
  by (simp add: marker_facts)

lemma empty_transient: "IsTransientUpstream (Some (plainError ''chathub returned no content''))"
  by code_simp

lemma closed_transient: "IsTransientUpstream (Some (closeError obj))"
  using plain_transient [of "''chathub closed before completion''" "''chathub closed before completion''" "'': '' @ t" for t]
    plain_transient [of "''chathub closed before completion''" "''chathub closed before completion''" "[]"]
  by (simp add: marker_facts closeError_def)

lemma deadline_transient: "IsTransientUpstream (Some (plainError ''chathub response deadline exceeded before completion''))"
  by code_simp

lemma read_transient:
  assumes "networkError e"
  shows "IsTransientUpstream (Some (wrapError ''ws read before completion'' e))"
  using wrap_network [OF assms]
  by (intro transient_text [of "''ws read before completion''"]) (simp_all add: marker_facts wrapError_def del: append_Cons)

lemma completion_outcome: "handleCompletion env obj s = (r, Some e) \<Longrightarrow> upstreamOutcome e"
  using completion_transient upstream_transient empty_transient
  by (auto simp: handleCompletion_def Let_def upstreamOutcome_def split: if_splits option.splits)

lemma part_outcome:
  assumes q: "quiet env" and h: "handlePart env now part s = (Return r (Some e), s')"
  shows "upstreamOutcome e"
proof (cases "decodeObject (ceUnmarshal env) part")
  case None
  with h show ?thesis by (simp add: handlePart_def Let_def upstreamOutcome_def badFrame_def)
next
  case (Some obj)
  have u: "e' = disengagedResult" if "forEach (handleUpdate env now) args s0 = (Some e', t)" for args s0 e' t
    by (rule failsOnlyD [OF fails_forEach [OF fails_handleUpdate [OF q]] that])
  have p: "cePong env n = None" for n using q by (simp add: quiet_def)
  show ?thesis
    using h Some p closed_transient [of obj]
    by (auto simp: handlePart_def Let_def upstreamOutcome_def
        dest: u completion_outcome [unfolded upstreamOutcome_def] split: if_splits option.splits prod.splits)
qed

lemma parts_outcome:
  "quiet env \<Longrightarrow> handleParts env now ps s = (Return r (Some e), s') \<Longrightarrow> upstreamOutcome e"
  by (induction ps arbitrary: s) (auto dest: part_outcome split: prod.splits frameOutcome.splits)

lemma loop_outcome:
  assumes "quiet env" and "\<forall>r \<in> set rs. liveRead r" and "chatLoop env rs s = (Some (r, Some e), s')"
  shows "upstreamOutcome e"
  using assms(2,3)
proof (induction rs arbitrary: s)
  case (Cons x rs)
  have live: "rdCancelled x = None" "rdCancelledAfter x = None" "rdPing x = None" using Cons.prems(1) by (simp_all add: liveRead_def)
  show ?case
  proof (cases "rdBefore x < ceDeadline env")
    case False
    with Cons.prems(2) deadline_transient show ?thesis by (auto intro: outcome_transient)
  next
    case in_time: True
    show ?thesis
    proof (cases rule: ReadMessage_cases [of "readDeadline env s" x])
      case (failed err)
      with Cons.prems(1) have "networkError err" by (auto simp: liveRead_def readTimeout_def)
      from read_transient [OF this] failed in_time Cons.prems(2) live show ?thesis
        by (auto simp: failedRead_def intro: outcome_transient)
    next
      case Inr: (message msg)
      obtain o' t where h: "handleParts env (rdAt x) (frameParts msg) s = (o', t)" by force
      show ?thesis
      proof (cases o')
        case Continue
        with Cons.prems(2) Inr in_time live h have "chatLoop env rs t = (Some (r, Some e), s')" by simp
        with Cons.IH Cons.prems(1) show ?thesis by simp
      next
        case (Return q e')
        with Cons.prems(2) Inr in_time live h have "handleParts env (rdAt x) (frameParts msg) s = (Return r (Some e), t)" by simp
        with parts_outcome [OF assms(1)] show ?thesis by simp
      qed
    qed
  qed
qed simp

lemma outcome_classes:
  "accountFailureClass (Some disengagedResult) = PolicyRefusal"
  "accountFailureClass (Some strictQuotaExhaustedError) = QuotaExhaustedClass"
  "accountFailureClass (Some badFrame) = UpstreamUnknown"
  by code_simp+

text \<open>The errors of an attempt reach the right account decision. When the caller and the request context
  give no error of their own, an attempt that fails after its request was sent does so with the
  disengagement of upstream (a policy refusal), an exhausted quota, a frame that is no JSON object, or a
  transient upstream failure; so among these only the malformed frame is of an unknown class.\<close>

lemma chat_errors_classified:
  assumes "quiet env" and "\<forall>rd \<in> set reads. liveRead rd" and "openingError env co = None"
    and "runChat env co reads = (Some (r, Some e), s)"
  shows "(e = disengagedResult \<and> accountFailureClass (Some e) = PolicyRefusal)
    \<or> (e = strictQuotaExhaustedError \<and> accountFailureClass (Some e) = QuotaExhaustedClass)
    \<or> (e = badFrame \<and> accountFailureClass (Some e) = UpstreamUnknown)
    \<or> (IsTransientUpstream (Some e) \<and> accountFailureClass (Some e) \<noteq> UpstreamUnknown)"
proof -
  have "chatLoop env reads chatStart = (Some (r, Some e), s)" using assms(3,4) by (simp add: runChat_def)
  from loop_outcome [OF assms(1,2) this] show ?thesis
    using outcome_classes unfolding upstreamOutcome_def
    by (elim disjE) (simp_all add: accountFailureClass_def)
qed

lemma chat_errors_classified_witness:
  "accountFailureClass (Some (wrapError ''ws read before completion'' (plainError ''reset''))) \<noteq> UpstreamUnknown"
proof -
  let ?reads = "[demoRead (Inl (plainError ''reset''))]" and ?e = "wrapError ''ws read before completion'' (plainError ''reset'')"
  have run: "runChat demoEnv demoOpening ?reads = (Some (partialResult chatStart, Some ?e), chatStart)"
    by (simp only: runChat_def demo_opening option.case chatLoop.simps demoRead_simps sum.case
        demo_read [of chatStart, simplified chatStart_def, simplified, folded chatStart_def] failedRead_def not_less demo_in_time if_False)
  have "quiet demoEnv" "\<forall>rd \<in> set ?reads. liveRead rd"
    by (simp_all add: quiet_def demoEnv_def liveRead_def demoRead_def)
  from chat_errors_classified [OF this demo_opening run]
  have "?e = badFrame \<or> accountFailureClass (Some ?e) \<noteq> UpstreamUnknown" by (elim disjE) auto
  then show ?thesis by (auto simp: wrapError_def plainError_def badFrame_def)
qed

subsection \<open>The frames that are kept\<close>

definition retainedInv :: "chatState \<Rightarrow> bool" where
  "retainedInv s \<longleftrightarrow> length (csEvents s) \<le> maxRetainedEventCount \<and> csRetainedBytes s \<le> maxRetainedEventBytes
     \<and> csRetainedBytes s = sum_list (map length (csEvents s))"

lemma drop_events:
  "dropEvents evs n t = (evs', n', t') \<Longrightarrow> n = sum_list (map length evs) \<Longrightarrow>
   n' = sum_list (map length evs') \<and> length evs' \<le> maxRetainedEventCount \<and> n' \<le> maxRetainedEventBytes
   \<and> suffix evs' evs \<and> (t' \<longleftrightarrow> t \<or> evs' \<noteq> evs)"
proof (induction evs n t rule: dropEvents.induct)
  case (1 evs n t)
  show ?case
  proof (cases "evs \<noteq> [] \<and> (length evs > maxRetainedEventCount \<or> n > maxRetainedEventBytes)")
    case True
    then obtain x xs where x: "evs = x # xs" by (cases evs) auto
    have "dropEvents xs (n - length x) True = (evs', n', t')" using 1(2) True x by (subst (asm) dropEvents.simps) simp
    with 1(1) [OF True] 1(3) x have i: "n' = sum_list (map length evs') \<and> length evs' \<le> maxRetainedEventCount
      \<and> n' \<le> maxRetainedEventBytes \<and> suffix evs' xs \<and> t'" by simp
    then have "evs' \<noteq> evs" using x by (auto dest: suffix_length_le)
    with i x show ?thesis by (auto intro: suffix_ConsI)
  next
    case False
    then show ?thesis using 1(2,3) by (subst (asm) dropEvents.simps) (auto simp: not_less maxRetainedEventBytes_def)
  qed
qed

text \<open>What a state has kept of the frames that were handled.\<close>

definition keptOf :: "string list \<Rightarrow> chatState \<Rightarrow> bool" where
  "keptOf handled s \<longleftrightarrow> retainedInv s
     \<and> suffix (csEvents s) (filter (\<lambda>p. length p \<le> maxRetainedEventBytes) handled)
     \<and> (csTruncated s \<longleftrightarrow> length (csEvents s) < length handled)"

lemma retain_law:
  assumes k: "keptOf handled s"
  shows "keptOf (handled @ [p]) (retainEvent p s)"
proof (cases "length p \<le> maxRetainedEventBytes")
  case False
  have "length (csEvents s) \<le> length handled"
    using k by (meson keptOf_def length_filter_le order_trans suffix_length_le)
  with k False show ?thesis by (simp add: keptOf_def retainEvent_def retainedInv_def)
next
  case True
  obtain evs n t where d: "dropEvents (csEvents s @ [p]) (csRetainedBytes s + length p) (csTruncated s) = (evs, n, t)"
    by (metis surj_pair)
  have l: "n = sum_list (map length evs) \<and> length evs \<le> maxRetainedEventCount \<and> n \<le> maxRetainedEventBytes
    \<and> suffix evs (csEvents s @ [p]) \<and> (t \<longleftrightarrow> csTruncated s \<or> evs \<noteq> csEvents s @ [p])"
    by (rule drop_events [OF d]) (use k in \<open>simp add: keptOf_def retainedInv_def\<close>)
  have sfx: "suffix evs (csEvents s @ [p])" and tr: "t \<longleftrightarrow> csTruncated s \<or> evs \<noteq> csEvents s @ [p]" using l by blast+
  have le: "length (csEvents s) \<le> length handled"
    using k by (meson keptOf_def length_filter_le order_trans suffix_length_le)
  have shorter: "evs = csEvents s @ [p] \<or> length evs < Suc (length (csEvents s))"
    using sfx unfolding suffix_def by (metis append_Nil length_append length_append_singleton less_add_same_cancel2 length_greater_0_conv)
  have "suffix (csEvents s @ [p]) (filter (\<lambda>p. length p \<le> maxRetainedEventBytes) (handled @ [p]))"
    using k True by (auto simp: keptOf_def suffix_def)
  with sfx have "suffix evs (filter (\<lambda>p. length p \<le> maxRetainedEventBytes) (handled @ [p]))"
    using suffix_order.trans by blast
  moreover have "t \<longleftrightarrow> length evs < length (handled @ [p])"
    using tr shorter le k by (auto simp: keptOf_def)
  moreover have "retainEvent p s = s\<lparr>csEvents := evs, csRetainedBytes := n, csTruncated := t\<rparr>"
    using True d by (simp add: retainEvent_def)
  ultimately show ?thesis using l by (simp add: keptOf_def retainedInv_def)
qed

lemma update_kept: "keeps (keptOf h) (handleUpdate env now raw)"
proof (rule keeps_handleUpdate)
  have d: "keptOf h t = keptOf h s" if "csEvents t = csEvents s" "csRetainedBytes t = csRetainedBytes s" "csTruncated t = csTruncated s"
    for s t :: chatState using that by (simp add: keptOf_def retainedInv_def)
  show "keeps (keptOf h) (emitEvent env ev)" for ev
    unfolding keeps_def using d emitEvent_fields by blast
  show "keeps (keptOf h) (observeMessage env arg c m)" for arg c m
    unfolding keeps_def
  proof (intro allI impI)
    fix s :: chatState assume "keptOf h s"
    then show "keptOf h (snd (observeMessage env arg c m s))"
      by (auto simp: observeMessage_def Let_def keptOf_def retainedInv_def emitDelta_fields split: prod.split)
  qed
  show "keeps (keptOf h) (writeCursor env w)" for w
    unfolding keeps_def
    by (auto simp: writeCursor_def keptOf_def retainedInv_def emitDelta_fields split: prod.split)
qed (simp_all add: keptOf_def retainedInv_def)

lemma part_kept:
  assumes "handlePart env now p s = (o', s')" and "keptOf h s"
  shows "keptOf (h @ [p]) s'"
proof -
  have r: "keptOf (h @ [p]) (retainEvent p s)" by (rule retain_law [OF assms(2)])
  have k: "keeps (keptOf (h @ [p])) (forEach (handleUpdate env now) args)" for args
    by (intro keeps_forEach update_kept)
  have u: "keptOf (h @ [p]) t" if "forEach (handleUpdate env now) args (retainEvent p s) = (e, t)" for args e t
    by (rule keepsD [OF k that r])
  have "keptOf (h @ [p]) (handleResult env now obj (retainEvent p s))" for obj
    using r by (simp add: keptOf_def retainedInv_def)
  moreover have "keptOf (h @ [p]) ((retainEvent p s)\<lparr>csPongs := n\<rparr>)" for n
    using r by (simp add: keptOf_def retainedInv_def)
  ultimately show ?thesis
    using assms(1) r by (auto simp: handlePart_def Let_def dest: u split: option.splits if_splits prod.splits)
qed

lemma parts_kept:
  "handleParts env now ps s = (o', s') \<Longrightarrow> keptOf h s \<Longrightarrow>
   \<exists>n. keptOf (h @ take n ps) s' \<and> (o' = Continue \<longrightarrow> take n ps = ps)"
proof (induction ps arbitrary: s h)
  case (Cons p ps)
  obtain o1 t where p: "handlePart env now p s = (o1, t)" by force
  note k = part_kept [OF p Cons.prems(2)]
  show ?case
  proof (cases o1)
    case Continue
    with Cons.prems(1) p have "handleParts env now ps t = (o', s')" by simp
    from Cons.IH [OF this k] obtain n where "keptOf ((h @ [p]) @ take n ps) s' \<and> (o' = Continue \<longrightarrow> take n ps = ps)" by blast
    then show ?thesis by (intro exI [of _ "Suc n"]) simp
  next
    case (Return r e)
    with Cons.prems(1) p k show ?thesis by (intro exI [of _ 1]) auto
  qed
qed simp

definition framesOf :: "wsRead list \<Rightarrow> string list" where
  "framesOf rs = concat (map frameParts (messagesOf rs))"

lemma framesOf_Cons:
  "framesOf (r # rs) = (case rdMessage r of Inr m \<Rightarrow> frameParts m @ framesOf rs | Inl _ \<Rightarrow> framesOf rs)"
  by (simp add: framesOf_def messagesOf_def List.map_filter_simps split: sum.split)

lemma loop_kept:
  "chatLoop env rs s = (o', s') \<Longrightarrow> keptOf h s \<Longrightarrow> \<exists>n. keptOf (h @ take n (framesOf rs)) s'"
proof (induction rs arbitrary: s h)
  case Nil
  then have "keptOf (h @ take 0 (framesOf [])) s'" by simp
  then show ?case by blast
next
  case (Cons x rs)
  show ?case
  proof (cases "rdBefore x < ceDeadline env \<and> rdCancelled x = None
      \<and> (\<exists>m. ReadMessage (Some (readDeadline env s)) x = Some (Inr m))")
    case False
    then have "s' = s" using Cons.prems(1) by (auto split: if_splits option.splits sum.splits)
    with Cons.prems(2) show ?thesis by (intro exI [of _ 0]) simp
  next
    case True
    then obtain m where g: "ReadMessage (Some (readDeadline env s)) x = Some (Inr m)" by blast
    then have m: "rdMessage x = Inr m" by (rule ReadMessage_message)
    obtain o1 t where h: "handleParts env (rdAt x) (frameParts m) s = (o1, t)" by force
    from parts_kept [OF h Cons.prems(2)] obtain n where
      n: "keptOf (h @ take n (frameParts m)) t" "o1 = Continue \<longrightarrow> take n (frameParts m) = frameParts m" by blast
    show ?thesis
    proof (cases o1)
      case Continue
      with Cons.prems(1) True g h have "chatLoop env rs t = (o', s')" by simp
      from Cons.IH [OF this n(1)] obtain k where "keptOf ((h @ frameParts m) @ take k (framesOf rs)) s'"
        using n(2) Continue by auto
      then show ?thesis by (intro exI [of _ "length (frameParts m) + k"]) (simp add: framesOf_Cons m)
    next
      case (Return r e)
      with Cons.prems(1) True g h have "s' = t" by simp
      with n(1) show ?thesis
        by (intro exI [of _ "min n (length (frameParts m))"]) (auto simp: framesOf_Cons m min_def)
    qed
  qed
qed

text \<open>The raw frames a result carries are bounded. Whatever is read, at most 2048 frames and 8 MiB are kept;
  they are the newest ones of the frames handled so far (without the ones that alone exceed the limit), and
  the result is marked as truncated exactly when a frame is missing.\<close>

lemma retained_events_bounded:
  assumes "runChat env co reads = (o', s)"
  shows "length (csEvents s) \<le> 2048 \<and> sum_list (map length (csEvents s)) \<le> 8 * 1024 * 1024
    \<and> (\<exists>n. suffix (csEvents s) (filter (\<lambda>p. length p \<le> 8 * 1024 * 1024) (take n (framesOf reads)))
         \<and> (csTruncated s \<longleftrightarrow> csEvents s \<noteq> take n (framesOf reads)))"
proof -
  have "\<exists>n. keptOf (take n (framesOf reads)) s"
  proof (cases "openingError env co")
    case (Some e)
    with assms have "s = chatStart" by (simp add: runChat_def)
    then have "keptOf (take 0 (framesOf reads)) s" by (simp add: keptOf_def retainedInv_def chatStart_def)
    then show ?thesis by blast
  next
    case None
    with assms loop_kept [of env reads chatStart o' s "[]"] show ?thesis
      by (simp add: runChat_def keptOf_def retainedInv_def chatStart_def)
  qed
  then obtain n where k: "keptOf (take n (framesOf reads)) s" ..
  have eq: "xs = h \<longleftrightarrow> \<not> length xs < length h" if "suffix xs (filter P h)" for xs h :: "string list" and P
  proof
    assume "\<not> length xs < length h"
    moreover have "length xs \<le> length (filter P h)" using that by (rule suffix_length_le)
    ultimately have "length xs = length (filter P h)" "length (filter P h) = length h"
      using length_filter_le [of P h] by linarith+
    moreover from this(2) have "filter P h = h"
      by (metis filter_True length_filter_less nat_neq_iff)
    ultimately show "xs = h" using that by (auto simp: suffix_def)
  qed simp
  from k show ?thesis
    using eq unfolding keptOf_def retainedInv_def maxRetainedEventCount_def maxRetainedEventBytes_def by (metis (no_types, lifting))
qed

lemma retained_events_bounded_witness:
  "csEvents demoEnd = [''u'', ''c''] \<and> length (csEvents demoEnd) \<le> 2048"
  using retained_events_bounded [OF demo_run] by (simp add: demoEnd_def demoMid_def chatStart_def)

subsection \<open>The handshake\<close>

lemma handshake_parts:
  "handshakeParts um ps acknowledged = None \<longleftrightarrow> (acknowledged \<or> ps \<noteq> []) \<and> (\<forall>p \<in> set ps. decodeObject um p = Some [])"
  by (induction ps arbitrary: acknowledged) (auto simp: getOr_def asString_def split: option.split)

text \<open>The handshake check against its specification: it accepts a response exactly when the response has at
  least one record and every record is an empty JSON object (or null); the empty list of frames, an error
  member, any other member and text that is no object are refused.\<close>

lemma handshake_accepts:
  "validateSignalRHandshake um raw = None \<longleftrightarrow>
     frameParts raw \<noteq> [] \<and> (\<forall>p \<in> set (frameParts raw). um p \<in> {Some (JObj []), Some JNull})"
proof -
  have "decodeObject um p = Some [] \<longleftrightarrow> um p \<in> {Some (JObj []), Some JNull}" for p
    by (auto simp: decodeObject_def split: option.split json.split)
  then show ?thesis by (simp add: validateSignalRHandshake_def handshake_parts)
qed

subsection \<open>The end of an attempt\<close>

definition lastRead :: "chatEnv \<Rightarrow> wsRead \<Rightarrow> bool" where
  "lastRead env r \<longleftrightarrow> ceDeadline env \<le> rdBefore r \<or> rdCancelled r \<noteq> None \<or> isl (rdMessage r)
     \<or> (\<forall>t. rdArrives r = Some t \<longrightarrow> ceDeadline env \<le> t)"

lemma readDeadline_le: "readDeadline env s \<le> ceDeadline env"
  by (auto simp: readDeadline_def Let_def split: option.split)

lemma readDeadline_final: "csFinalDeadline s \<noteq> zeroTime \<Longrightarrow> readDeadline env s \<le> csFinalDeadline s"
  by (auto simp: readDeadline_def Let_def split: option.split)

lemma ReadMessage_late:
  "\<forall>t. rdArrives r = Some t \<longrightarrow> d \<le> t \<Longrightarrow> ReadMessage (Some d) r = Some (Inl readTimeout)"
  by (auto simp: ReadMessage_def split: option.split)

lemma loop_ends: "\<exists>r \<in> set rs. lastRead env r \<Longrightarrow> fst (chatLoop env rs s) \<noteq> None"
proof (induction rs arbitrary: s)
  case (Cons x rs)
  show ?case
  proof (cases "lastRead env x")
    case True
    then consider "ceDeadline env \<le> rdBefore x \<or> rdCancelled x \<noteq> None"
      | e where "ReadMessage (Some (readDeadline env s)) x = Some (Inl e)"
      using ReadMessage_late [of x "readDeadline env s"] readDeadline_le [of env s]
        ReadMessage_message [of "Some (readDeadline env s)" x] ReadMessage_returns [of "readDeadline env s" x]
      unfolding lastRead_def by (metis isl_def obj_sumE option.exhaust order.trans sum.distinct(1))
    then show ?thesis by cases (auto split: option.split)
  next
    case False
    with Cons show ?thesis by (auto split: option.split sum.split prod.split frameOutcome.split)
  qed
qed simp

lemma run_ends:
  assumes "\<exists>r \<in> set reads. lastRead env r"
  shows "\<exists>res s. \<forall>later. runChat env co (reads @ later) = (Some res, s)"
proof (cases "openingError env co")
  case None
  obtain res s where "chatLoop env reads chatStart = (Some res, s)"
    using loop_ends [OF assms, of chatStart] by (cases "chatLoop env reads chatStart") auto
  with None show ?thesis by (simp add: runChat_def chatLoop_append)
qed (simp add: runChat_def)

lemma final_frame_timeout: "0 < finalFrameTimeout env"
  by (simp add: finalFrameTimeout_def defaultFinalFrameTimeout_def seconds_def)

lemma handleResult_deadline: "csFinalDeadline (handleResult env now obj s) = now + finalFrameTimeout env"
  by (simp add: handleResult_def noteThrottling_def Let_def split: option.split json.split)

lemma late_read_fails:
  assumes "csFinalDeadline s \<noteq> zeroTime" and "\<forall>t. rdArrives rd = Some t \<longrightarrow> csFinalDeadline s \<le> t"
  shows "\<exists>res e. chatLoop env (rd # rds) s = (Some (res, Some e), s)"
proof -
  have "\<forall>t. rdArrives rd = Some t \<longrightarrow> readDeadline env s \<le> t"
    using readDeadline_final [OF assms(1), of env] assms(2) by (auto intro: order.trans)
  from ReadMessage_late [OF this] show ?thesis by (auto split: option.split)
qed

text \<open>C20: every attempt ends. The connection may fall silent at any read; what it delivers comes one
  message after the other, the i-th no earlier than i nanoseconds after the loop has started. Then a
  number of reads bounded by the time that is left to the deadline of the attempt (the context's, or
  ten minutes) gives an outcome, and it is not changed by anything that could be read later. When a
  result frame has been handled and nothing comes within the final frame timeout, the attempt fails
  at the very next read.\<close>

theorem chat_ends:
  assumes pace: "\<forall>i t. rdArrives (net i) = Some t \<longrightarrow> ceStart env + int i \<le> t"
  shows "(\<exists>res s. \<forall>n > nat (ceDeadline env - ceStart env). runChat env co (map net [0..<n]) = (Some res, s))
    \<and> (0 < now \<and> (\<forall>t. rdArrives rd = Some t \<longrightarrow> now + finalFrameTimeout env \<le> t) \<longrightarrow>
        (\<exists>res e. chatLoop env (rd # rds) (handleResult env now obj st)
           = (Some (res, Some e), handleResult env now obj st)))"
proof
  let ?n = "nat (ceDeadline env - ceStart env)"
  have "ceDeadline env \<le> t" if "rdArrives (net ?n) = Some t" for t
    using pace [rule_format, OF that] by linarith
  then have "lastRead env (net ?n)" by (simp add: lastRead_def)
  then have "\<exists>r \<in> set (map net [0..<Suc ?n]). lastRead env r" by auto
  from run_ends [OF this, of co] obtain res s where
    e: "\<And>later. runChat env co (map net [0..<Suc ?n] @ later) = (Some res, s)" by blast
  have "runChat env co (map net [0..<n]) = (Some res, s)" if "?n < n" for n
  proof -
    have "[0..<n] = [0..<Suc ?n] @ [Suc ?n..<n]" using that by (metis Suc_leI le_add_diff_inverse upt_add_eq_append zero_le)
    with e [of "map net [Suc ?n..<n]"] show ?thesis by (simp only: map_append)
  qed
  then show "\<exists>res s. \<forall>n > ?n. runChat env co (map net [0..<n]) = (Some res, s)" by blast
next
  show "0 < now \<and> (\<forall>t. rdArrives rd = Some t \<longrightarrow> now + finalFrameTimeout env \<le> t) \<longrightarrow>
        (\<exists>res e. chatLoop env (rd # rds) (handleResult env now obj st)
           = (Some (res, Some e), handleResult env now obj st))"
    using late_read_fails [of "handleResult env now obj st" rd env rds] final_frame_timeout [of env]
    by (simp add: handleResult_deadline)
qed

text \<open>A connection that accepts the request and never says anything.\<close>

definition silentRead :: "nat \<Rightarrow> wsRead" where
  "silentRead i = (demoRead (Inr []))\<lparr>rdArrives := None\<rparr>"

theorem chat_ends_witness:
  "\<exists>res s. \<forall>n > 99. runChat demoEnv demoOpening (map silentRead [0..<n]) = (Some res, s)"
proof -
  have "\<forall>i t. rdArrives (silentRead i) = Some t \<longrightarrow> ceStart demoEnv + int i \<le> t" by (simp add: silentRead_def)
  moreover have "nat (ceDeadline demoEnv - ceStart demoEnv) = 99" by (simp add: demoEnv_def ceDeadline_def)
  ultimately show ?thesis using chat_ends [of silentRead demoEnv demoOpening] by simp
qed

text \<open>
  The second citation pattern means the two bytes C3 91, but its escapes are code points: the marker with these
  bytes stays in the text, and the one with the code points, of four bytes, is removed.
\<close>

lemma citation_bytes_kept:
  "scrubCitations (''a'' @ [CHR 0xC3, CHR 0x91] @ ''cite:1'' @ [CHR 0xC3, CHR 0x94]) =
     ''a'' @ [CHR 0xC3, CHR 0x91] @ ''cite:1'' @ [CHR 0xC3, CHR 0x94]"
  by code_simp

lemma citation_runes_removed:
  "scrubCitations (''a'' @ [CHR 0xC3, CHR 0x83, CHR 0xC2, CHR 0x91] @ ''cite:1'' @ [CHR 0xC3, CHR 0x83, CHR 0xC2, CHR 0x94]) = ''a''"
  by code_simp

end
