(* ===== verification/ChatImages.thy ===== *)
theory ChatImages
  imports ChatFrames
begin

text \<open>
  Image addresses in the frames of a connection, internal/chathub/images.go. A data URL without a comma makes
  the Go code index out of range: that panic is None. json.Unmarshal, base64 decoding and url.Parse (its scheme
  and path) are arguments.
\<close>

definition imageKeys :: "string list" where
  "imageKeys = [''url'', ''imageurl'', ''thumbnailurl'', ''downloadurl'', ''src'']"

definition imageSuffixes :: "string list" where
  "imageSuffixes = [''.png'', ''.jpg'', ''.jpeg'', ''.webp'', ''.gif'']"

definition isImageURL :: "(string \<Rightarrow> bool) \<Rightarrow> (string \<Rightarrow> (string \<times> string) option) \<Rightarrow> string \<Rightarrow> bool option" where
  "isImageURL base64 parse s =
     (if HasPrefix s ''data:image/'' then map_option (\<lambda>i. base64 (drop (i + 1) s)) (IndexOf s '','')
      else case parse s of
             None \<Rightarrow> Some False
           | Some (scheme, path) \<Rightarrow>
               Some (scheme = ''https''
                     \<and> (let p = ToLower path in Contains p ''image'' \<or> list_ex (HasSuffix p) imageSuffixes)))"

text \<open>A loop that may panic.\<close>

fun foldPanic :: "('a \<Rightarrow> 'b \<Rightarrow> 'b option) \<Rightarrow> 'a list \<Rightarrow> 'b \<Rightarrow> 'b option" where
  "foldPanic f [] acc = Some acc"
| "foldPanic f (x # xs) acc = Option.bind (f x acc) (foldPanic f xs)"

lemma foldPanic_cong [fundef_cong]:
  "xs = ys \<Longrightarrow> acc = acc' \<Longrightarrow> (\<And>x a. x \<in> set ys \<Longrightarrow> f x a = g x a) \<Longrightarrow> foldPanic f xs acc = foldPanic g ys acc'"
  by (induction xs arbitrary: ys acc acc') (auto split: Option.bind_split)

definition noteImage :: "(string \<Rightarrow> bool option) \<Rightarrow> string \<Rightarrow> string list \<Rightarrow> string list option" where
  "noteImage isImage s out =
     map_option (\<lambda>image. if image \<and> s \<notin> set out then out @ [s] else out) (isImage s)"

fun walkImages :: "(string \<Rightarrow> bool option) \<Rightarrow> json \<Rightarrow> string list \<Rightarrow> string list option" where
  "walkImages isImage (JArr vs) out = foldPanic (walkImages isImage) vs out"
| "walkImages isImage (JObj m) out =
     foldPanic (\<lambda>(k, e) acc.
        (if ToLower k \<in> set imageKeys \<and> e = JStr (asString e) then noteImage isImage (asString e) acc else walkImages isImage e acc)) m out"
| "walkImages isImage v out = Some out"

definition imageURLs :: "(string \<Rightarrow> json option) \<Rightarrow> (string \<Rightarrow> bool option) \<Rightarrow> string list \<Rightarrow> string list option" where
  "imageURLs unmarshal isImage raw =
     foldPanic (\<lambda>r acc. case unmarshal r of Some v \<Rightarrow> walkImages isImage v acc | None \<Rightarrow> Some acc) raw []"

text \<open>Each address found is an image, and none comes twice.\<close>

definition imagesOk :: "(string \<Rightarrow> bool option) \<Rightarrow> string list \<Rightarrow> bool" where
  "imagesOk isImage out \<longleftrightarrow> distinct out \<and> (\<forall>s \<in> set out. isImage s = Some True)"

lemma foldPanic_keeps:
  assumes "foldPanic f xs acc = Some out" and "P acc"
    and "\<And>x a b. x \<in> set xs \<Longrightarrow> f x a = Some b \<Longrightarrow> P a \<Longrightarrow> P b"
  shows "P out"
  using assms
proof (induction xs arbitrary: acc)
  case (Cons x xs)
  then obtain b where b: "f x acc = Some b" "foldPanic f xs b = Some out" by (auto split: Option.bind_splits)
  have "P b" using Cons.prems(2) Cons.prems(3) [OF _ b(1)] by simp
  show ?case by (rule Cons.IH [OF b(2) \<open>P b\<close>]) (rule Cons.prems(3), simp_all)
qed simp

lemma noteImage_ok: "noteImage isImage s acc = Some out \<Longrightarrow> imagesOk isImage acc \<Longrightarrow> imagesOk isImage out"
  by (auto simp: noteImage_def imagesOk_def split: if_splits)

lemma walkImages_ok: "walkImages isImage v acc = Some out \<Longrightarrow> imagesOk isImage acc \<Longrightarrow> imagesOk isImage out"
proof (induction isImage v acc arbitrary: out rule: walkImages.induct)
  case (1 isImage vs acc)
  from 1(2) have f: "foldPanic (walkImages isImage) vs acc = Some out" by simp
  show ?case by (rule foldPanic_keeps [of _ _ _ _ "imagesOk isImage", OF f 1(3) 1(1)])
next
  case (2 isImage m acc)
  from 2(2) have f: "foldPanic (\<lambda>(k, e) acc.
      (if ToLower k \<in> set imageKeys \<and> e = JStr (asString e) then noteImage isImage (asString e) acc else walkImages isImage e acc))
      m acc = Some out" by simp
  show ?case
  proof (rule foldPanic_keeps [of _ _ _ _ "imagesOk isImage", OF f 2(3)])
    fix x :: "string \<times> json" and a b
    obtain k e where x: "x = (k, e)" by force
    assume "x \<in> set m" and step: "(case x of (k, e) \<Rightarrow> \<lambda>acc.
      (if ToLower k \<in> set imageKeys \<and> e = JStr (asString e) then noteImage isImage (asString e) acc else walkImages isImage e acc)) a
      = Some b" and ok: "imagesOk isImage a"
    then show "imagesOk isImage b"
      using 2(1) [OF \<open>x \<in> set m\<close> x [symmetric]] noteImage_ok [of isImage "asString e" a b]
      by (cases "ToLower k \<in> set imageKeys \<and> e = JStr (asString e)") (simp_all add: x)
  qed
qed simp_all

lemma image_urls_ok:
  assumes "imageURLs um isImage raw = Some out"
  shows "imagesOk isImage out"
proof (rule foldPanic_keeps [OF assms [unfolded imageURLs_def]])
  show "imagesOk isImage []" by (simp add: imagesOk_def)
next
  fix x a b assume "(case um x of Some v \<Rightarrow> walkImages isImage v a | None \<Rightarrow> Some a) = Some b" "imagesOk isImage a"
  then show "imagesOk isImage b" by (auto split: option.splits intro: walkImages_ok)
qed

lemma image_panics: "isImageURL b p s = None \<longleftrightarrow> HasPrefix s ''data:image/'' \<and> \<not> Contains s '',''"
  by (auto simp: isImageURL_def Contains_def split: option.split)

lemma image_frame_panics:
  "imageURLs (\<lambda>_. Some (JObj [(''url'', JStr ''data:image/png'')])) (isImageURL b p) [frame] = None"
  by (simp add: imageURLs_def noteImage_def image_panics imageKeys_def ToLower_def lowerChar_def asString_def Contains_def)

end
