(* ===== verification/ToolSchema.thy ===== *)
theory ToolSchema
  imports PortableHistory ChatFrames
begin

text \<open>
  Checking tool calls against the tools a request offers: internal/web/tooldecision.go, the tool choice of
  toolloop.go, the calls found in ChatHub frames (native_tools.go) and in fenced blocks (fenced_tools.go).
  json.Unmarshal, the hash of a call identity and whether a number is integral are arguments. A range over a Go
  map visits the members in list order, one of the possible runs.
\<close>

subsection \<open>Offered tools\<close>

definition functionOf :: "jsonObject \<Rightarrow> jsonObject option" where
  "functionOf t = (case map_of t ''function'' of Some (JObj f) \<Rightarrow> Some f | _ \<Rightarrow> None)"

definition allowedToolNames :: "jsonObject list \<Rightarrow> string list" where
  "allowedToolNames tools =
     filter (\<lambda>n. n \<noteq> []) (List.map_filter (\<lambda>t. map_option (\<lambda>f. memberString f ''name'') (functionOf t)) tools)"

fun toolFunction :: "string \<Rightarrow> jsonObject list \<Rightarrow> jsonObject option" where
  "toolFunction name [] = None"
| "toolFunction name (t # ts) =
     (let f = functionOf t;
          n = (case f of Some m \<Rightarrow> memberString m ''name'' | None \<Rightarrow> [])
      in if n = name then f else toolFunction name ts)"

definition toolChoiceAllows :: "json \<Rightarrow> string \<Rightarrow> bool" where
  "toolChoiceAllows chosen name =
     (case chosen of
        JStr s \<Rightarrow> s \<noteq> ''none'' \<and> (s \<noteq> ''required'' \<or> name \<noteq> [])
      | JObj m \<Rightarrow>
          (case map_of m ''function'' of
             Some (JObj f) \<Rightarrow> memberString f ''name'' = name
           | _ \<Rightarrow> (case map_of m ''name'' of Some (JStr n) \<Rightarrow> n = name | _ \<Rightarrow> True))
      | _ \<Rightarrow> True)"

text \<open>The identity of a call: the first eight bytes of a hash, in hexadecimal digits.\<close>

definition mkCallID :: "(string \<Rightarrow> string) \<Rightarrow> string \<Rightarrow> string \<Rightarrow> nat \<Rightarrow> string" where
  "mkCallID sha256 name args index =
     ''call_'' @ hexEncode (take 8 (sha256 (showNat index @ '':'' @ name @ '':'' @ args)))"

subsection \<open>Schemas\<close>

fun firstError :: "('a \<Rightarrow> 'e option) \<Rightarrow> 'a list \<Rightarrow> 'e option" where
  "firstError f [] = None"
| "firstError f (x # xs) = (case f x of Some e \<Rightarrow> Some e | None \<Rightarrow> firstError f xs)"

lemma firstError_None: "firstError f xs = None \<longleftrightarrow> (\<forall>x \<in> set xs. f x = None)"
  by (induction xs) (auto split: option.split)

lemma firstError_cong [fundef_cong]:
  "xs = ys \<Longrightarrow> (\<And>x. x \<in> set ys \<Longrightarrow> f x = g x) \<Longrightarrow> firstError f xs = firstError g ys"
  by (induction xs arbitrary: ys) (auto split: option.split)

definition enumAllows :: "json \<Rightarrow> jsonObject \<Rightarrow> bool" where
  "enumAllows v schema =
     (case map_of schema ''enum'' of Some (JArr es) \<Rightarrow> mustJSON v \<in> set (map mustJSON es) | _ \<Rightarrow> True)"

definition schemaType :: "jsonObject \<Rightarrow> string" where
  "schemaType schema = memberString schema ''type''"

definition requiredNames :: "jsonObject \<Rightarrow> string list" where
  "requiredNames schema = map asString (asArray (member schema ''required''))"

definition propertySchemas :: "jsonObject \<Rightarrow> jsonObject" where
  "propertySchemas schema = asObject (member schema ''properties'')"

definition missingError :: "jsonObject \<Rightarrow> jsonObject \<Rightarrow> string option" where
  "missingError schema m =
     firstError (\<lambda>n. if map_of m n = None then Some (''missing required argument '' @ n) else None) (requiredNames schema)"

definition extraError :: "jsonObject \<Rightarrow> jsonObject \<Rightarrow> string \<Rightarrow> string option" where
  "extraError schema m path =
     (if member schema ''additionalProperties'' = JBool False
      then firstError (\<lambda>(n, _). if map_of (propertySchemas schema) n = None
                                then Some (path @ ''.'' @ n @ '' is not allowed'') else None) m
      else None)"

definition scalarError :: "(string \<Rightarrow> bool) \<Rightarrow> string \<Rightarrow> json \<Rightarrow> string \<Rightarrow> string option" where
  "scalarError integral typ v path =
     (if typ = ''string'' then (case v of JStr _ \<Rightarrow> None | _ \<Rightarrow> Some (path @ '' must be string''))
      else if typ = ''number'' then (case v of JNum _ \<Rightarrow> None | _ \<Rightarrow> Some (path @ '' must be number''))
      else if typ = ''integer'' then
        (case v of JNum n \<Rightarrow> if integral n then None else Some (path @ '' must be integer'')
         | _ \<Rightarrow> Some (path @ '' must be integer''))
      else if typ = ''boolean'' then (case v of JBool _ \<Rightarrow> None | _ \<Rightarrow> Some (path @ '' must be boolean''))
      else if typ = ''null'' then (if v = JNull then None else Some (path @ '' must be null''))
      else None)"

lemma size_member: "(k, v) \<in> set m \<Longrightarrow> size v < size (JObj m)"
  by (induction m) auto

lemma size_element: "(i, v) \<in> set (enumerate n vs) \<Longrightarrow> size v < size (JArr vs)"
proof -
  assume "(i, v) \<in> set (enumerate n vs)"
  then have "v \<in> set vs" by (auto simp: enumerate_eq_zip dest: set_zip_rightD)
  then show ?thesis by (induction vs) auto
qed

function validateJSONSchema :: "(string \<Rightarrow> bool) \<Rightarrow> json \<Rightarrow> jsonObject \<Rightarrow> string \<Rightarrow> string option" where
  "validateJSONSchema integral v schema path =
     (if \<not> enumAllows v schema then Some (path @ '' is not an allowed enum value'')
      else if schemaType schema = ''object'' then
        (case v of
           JObj m \<Rightarrow>
             (case missingError schema m of
                Some e \<Rightarrow> Some e
              | None \<Rightarrow>
             (case extraError schema m path of
                Some e \<Rightarrow> Some e
              | None \<Rightarrow>
                  firstError (\<lambda>(n, w). case map_of (propertySchemas schema) n of
                                         Some (JObj ps) \<Rightarrow> validateJSONSchema integral w ps (path @ ''.'' @ n)
                                       | _ \<Rightarrow> None) m))
         | _ \<Rightarrow> Some (path @ '' must be object''))
      else if schemaType schema = ''array'' then
        (case v of
           JArr vs \<Rightarrow>
             (case map_of schema ''items'' of
                Some (JObj items) \<Rightarrow>
                  firstError (\<lambda>(i, w). validateJSONSchema integral w items (path @ ''['' @ showNat i @ '']'')) (enumerate 0 vs)
              | _ \<Rightarrow> None)
         | _ \<Rightarrow> Some (path @ '' must be array''))
      else scalarError integral (schemaType schema) v path)"
  by pat_completeness auto
termination
  by (relation "measure (\<lambda>(_, v, _, _). size v)") (auto dest: size_member size_element simp del: json.size)

declare validateJSONSchema.simps [simp del]

text \<open>
  The arguments are a map that may be nil (None). A nil map is written as null where the enum values are
  compared, and is an object without members in every other respect.
\<close>

definition schemaValid :: "(string \<Rightarrow> bool) \<Rightarrow> jsonObject option \<Rightarrow> jsonObject \<Rightarrow> string option" where
  "schemaValid integral args fn =
     (case map_of fn ''parameters'' of
        Some (JObj params) \<Rightarrow>
          (case args of
             Some m \<Rightarrow> validateJSONSchema integral (JObj m) params ''arguments''
           | None \<Rightarrow>
               if \<not> enumAllows JNull params then Some ''arguments is not an allowed enum value''
               else validateJSONSchema integral (JObj []) (AList.delete ''enum'' params) ''arguments'')
      | _ \<Rightarrow> None)"

subsection \<open>Validated calls\<close>

text \<open>The arguments of the definitions below: the hash and the integrality of a number.\<close>

record toolEnv =
  teHash :: "string \<Rightarrow> string"
  teIntegral :: "string \<Rightarrow> bool"
  teUnmarshal :: "string \<Rightarrow> json option"

text \<open>Decoding null into a map leaves a nil map: JNull stands for it here.\<close>

definition argumentObject :: "json \<Rightarrow> jsonObject option option" where
  "argumentObject args = (case args of JObj m \<Rightarrow> Some (Some m) | JNull \<Rightarrow> Some None | _ \<Rightarrow> None)"

definition validatedFallbackToolCall ::
  "toolEnv \<Rightarrow> string \<Rightarrow> json \<Rightarrow> jsonObject list \<Rightarrow> json \<Rightarrow> nat \<Rightarrow> detectedToolCall option" where
  "validatedFallbackToolCall env name args tools chosen index =
     (case toolFunction name tools of
        None \<Rightarrow> None
      | Some fn \<Rightarrow>
          (case argumentObject args of
             Some arguments \<Rightarrow>
               if \<not> toolChoiceAllows chosen name \<or> schemaValid (teIntegral env) arguments fn \<noteq> None then None
               else (let encoded = mustJSON args
                     in Some \<lparr>callID = mkCallID (teHash env) name encoded index, callName = name, callArguments = encoded\<rparr>)
           | None \<Rightarrow> None))"

definition appendUniqueToolCall :: "toolEnv \<Rightarrow> detectedToolCall list \<Rightarrow> detectedToolCall \<Rightarrow> detectedToolCall list" where
  "appendUniqueToolCall env calls candidate =
     (if \<exists>c \<in> set calls. callName c = callName candidate \<and> callArguments c = callArguments candidate then calls
      else calls @ [candidate\<lparr>callID := mkCallID (teHash env) (callName candidate) (callArguments candidate) (length calls)\<rparr>])"

definition acceptCall ::
  "toolEnv \<Rightarrow> jsonObject list \<Rightarrow> json \<Rightarrow> detectedToolCall list \<Rightarrow> string \<times> json \<Rightarrow> detectedToolCall list" where
  "acceptCall env tools chosen out nameArgs =
     (case validatedFallbackToolCall env (fst nameArgs) (snd nameArgs) tools chosen (length out) of
        Some call \<Rightarrow> appendUniqueToolCall env out call
      | None \<Rightarrow> out)"

subsection \<open>Calls in ChatHub frames\<close>

record offeredTool =
  otType :: string
  otFunction :: string

definition toolMap :: "toolEnv \<Rightarrow> offeredTool \<Rightarrow> jsonObject option" where
  "toolMap env t =
     (case decodeObject (teUnmarshal env) (otFunction t) of
        Some f \<Rightarrow> if memberString f ''name'' = [] then None
                  else Some [(''type'', JStr (otType t)), (''function'', JObj f)]
      | None \<Rightarrow> None)"

definition nativeName :: "string list \<Rightarrow> jsonObject \<Rightarrow> string" where
  "nativeName allowed x =
     (case filter (\<lambda>s. s \<in> set allowed) (List.map_filter (\<lambda>k. case map_of x k of Some (JStr s) \<Rightarrow> Some s | _ \<Rightarrow> None) toolNameKeys)
      of [] \<Rightarrow> [] | s # _ \<Rightarrow> s)"

fun walkNative :: "string list \<Rightarrow> json \<Rightarrow> (string \<times> json) list" where
  "walkNative allowed (JArr vs) = concat (map (walkNative allowed) vs)"
| "walkNative allowed (JObj x) =
     (let name = nativeName allowed x; a = firstPresent x toolArgumentKeys
      in if name \<noteq> [] \<and> a \<noteq> None \<and> a \<noteq> Some JNull then [(name, the a)]
         else concat (map (\<lambda>(_, y). walkNative allowed y) x))"
| "walkNative allowed v = []"

definition nativeCandidates :: "toolEnv \<Rightarrow> string list \<Rightarrow> string list \<Rightarrow> (string \<times> json) list" where
  "nativeCandidates env allowed events =
     concat (map (\<lambda>raw. case teUnmarshal env raw of Some v \<Rightarrow> walkNative allowed v | None \<Rightarrow> []) events)"

definition nativeToolCalls :: "toolEnv \<Rightarrow> string list \<Rightarrow> offeredTool list \<Rightarrow> detectedToolCall list" where
  "nativeToolCalls env events tools =
     (let toolMaps = List.map_filter (toolMap env) tools
      in foldl (acceptCall env toolMaps (JStr ''auto'')) [] (nativeCandidates env (allowedToolNames toolMaps) events))"

subsection \<open>Calls in fenced blocks\<close>

text \<open>
  The pattern is a fence, a name, white space with a line feed at its end, the shortest body, a line feed and a
  fence. A match binds the name and the body: the runes read between two cursors.
\<close>

definition fence :: string where
  "fence = replicate 3 (CHR 0x60)"

definition nameRune :: regex where
  "nameRune = Rune (\<lambda>r. wordRune r \<or> r = ''-'')"

definition readBetween :: "cursor \<Rightarrow> cursor \<Rightarrow> string" where
  "readBetween before after = concat (take (length (snd before) - length (snd after)) (snd before))"

definition follow :: "regex \<Rightarrow> cursor \<Rightarrow> cursor list" where
  "follow r c = ends r (fst c) (snd c)"

definition fencedAt :: "cursor \<Rightarrow> (string \<times> string \<times> cursor) list" where
  "fencedAt start =
     concat (map (\<lambda>a.
     concat (map (\<lambda>b.
     concat (map (\<lambda>c.
     concat (map (\<lambda>d. map (\<lambda>e. (readBetween a b, readBetween c d, e)) (follow (lit (newline @ fence)) d))
       (follow (Star False anyRune) c)))
       (follow (Cat (Star True spaceRune) (lit newline)) b)))
       (follow (plus1 nameRune) a)))
       (follow (lit fence) start))"

function fencedMatches :: "cursor \<Rightarrow> (string \<times> string) list" where
  "fencedMatches start =
     (case fencedAt start of
        (name, body, stop) # _ \<Rightarrow>
          (if length (snd stop) < length (snd start) then (name, body) # fencedMatches stop
           else (case snd start of [] \<Rightarrow> [] | x # xs \<Rightarrow> fencedMatches (x # fst start, xs)))
      | [] \<Rightarrow> (case snd start of [] \<Rightarrow> [] | x # xs \<Rightarrow> fencedMatches (x # fst start, xs)))"
  by pat_completeness auto
termination by (relation "measure (\<lambda>c. length (snd c))") auto

declare fencedMatches.simps [simp del]

definition fencedCandidate :: "toolEnv \<Rightarrow> string list \<Rightarrow> json \<Rightarrow> string \<times> string \<Rightarrow> (string \<times> json) option" where
  "fencedCandidate env allowed chosen nameBody =
     (let name = fst nameBody
      in if name \<notin> set allowed \<or> \<not> toolChoiceAllows chosen name then None
         else (case teUnmarshal env (TrimSpace (snd nameBody)) of
                 Some (JObj v) \<Rightarrow> Some (name, JObj v) | Some JNull \<Rightarrow> Some (name, JNull) | _ \<Rightarrow> None))"

definition fencedToolCalls :: "toolEnv \<Rightarrow> string \<Rightarrow> jsonObject list \<Rightarrow> json \<Rightarrow> detectedToolCall list" where
  "fencedToolCalls env text tools chosen =
     foldl (acceptCall env tools chosen) []
       (List.map_filter (fencedCandidate env (allowedToolNames tools) chosen) (fencedMatches ([], runes text)))"

end
