(* ===== verification/ToolCalls.thy ===== *)
theory ToolCalls
  imports ToolSchema
begin

text \<open>Schema validation as a typing relation, and what every accepted tool call satisfies.\<close>

subsection \<open>Values of a schema\<close>

definition hasScalarType :: "(string \<Rightarrow> bool) \<Rightarrow> string \<Rightarrow> json \<Rightarrow> bool" where
  "hasScalarType integral typ v \<longleftrightarrow>
     (typ = ''string'' \<longrightarrow> (\<exists>s. v = JStr s)) \<and> (typ = ''number'' \<longrightarrow> (\<exists>n. v = JNum n))
   \<and> (typ = ''integer'' \<longrightarrow> (\<exists>n. v = JNum n \<and> integral n)) \<and> (typ = ''boolean'' \<longrightarrow> (\<exists>b. v = JBool b))
   \<and> (typ = ''null'' \<longrightarrow> v = JNull)"

inductive conforms :: "(string \<Rightarrow> bool) \<Rightarrow> json \<Rightarrow> jsonObject \<Rightarrow> bool" for integral where
  Scalar: "enumAllows v s \<Longrightarrow> schemaType s \<notin> {''object'', ''array''} \<Longrightarrow> hasScalarType integral (schemaType s) v
    \<Longrightarrow> conforms integral v s"
| Object: "enumAllows (JObj m) s \<Longrightarrow> schemaType s = ''object''
    \<Longrightarrow> set (requiredNames s) \<subseteq> fst ` set m
    \<Longrightarrow> (member s ''additionalProperties'' = JBool False \<longrightarrow> fst ` set m \<subseteq> fst ` set (propertySchemas s))
    \<Longrightarrow> (\<And>n w ps. (n, w) \<in> set m \<Longrightarrow> map_of (propertySchemas s) n = Some (JObj ps) \<Longrightarrow> conforms integral w ps)
    \<Longrightarrow> conforms integral (JObj m) s"
| Array: "enumAllows (JArr vs) s \<Longrightarrow> schemaType s = ''array''
    \<Longrightarrow> (\<And>w items. w \<in> set vs \<Longrightarrow> map_of s ''items'' = Some (JObj items) \<Longrightarrow> conforms integral w items)
    \<Longrightarrow> conforms integral (JArr vs) s"

inductive_cases conformsE: "conforms integral v s"

lemma scalarError_None: "scalarError integral typ v path = None \<longleftrightarrow> hasScalarType integral typ v"
  by (cases v) (simp_all add: scalarError_def hasScalarType_def)

lemma missingError_None: "missingError s m = None \<longleftrightarrow> set (requiredNames s) \<subseteq> fst ` set m"
  by (auto simp: missingError_def firstError_None map_of_eq_None_iff subset_iff)

lemma extraError_None:
  "extraError s m path = None \<longleftrightarrow>
     (member s ''additionalProperties'' = JBool False \<longrightarrow> fst ` set m \<subseteq> fst ` set (propertySchemas s))"
  unfolding extraError_def by (force simp: firstError_None map_of_eq_None_iff split: if_splits)

lemma validate_object:
  "schemaType s = ''object'' \<Longrightarrow> validateJSONSchema integral (JObj m) s path = None \<longleftrightarrow>
     enumAllows (JObj m) s \<and> missingError s m = None \<and> extraError s m path = None
   \<and> (\<forall>(n, w) \<in> set m. \<forall>ps. map_of (propertySchemas s) n = Some (JObj ps)
         \<longrightarrow> validateJSONSchema integral w ps (path @ ''.'' @ n) = None)"
  by (subst validateJSONSchema.simps)
     (auto simp: firstError_None split: option.split json.split)

lemma validate_array:
  "schemaType s = ''array'' \<Longrightarrow> validateJSONSchema integral (JArr vs) s path = None \<longleftrightarrow>
     enumAllows (JArr vs) s
   \<and> (\<forall>items. map_of s ''items'' = Some (JObj items) \<longrightarrow>
        (\<forall>(i, w) \<in> set (enumerate 0 vs). validateJSONSchema integral w items (path @ ''['' @ showNat i @ '']'') = None))"
  by (subst validateJSONSchema.simps)
     (auto simp: firstError_None split: option.split json.split)

lemma validate_scalar:
  "schemaType s \<notin> {''object'', ''array''} \<Longrightarrow> validateJSONSchema integral v s path = None \<longleftrightarrow>
     enumAllows v s \<and> hasScalarType integral (schemaType s) v"
  by (subst validateJSONSchema.simps) (simp add: scalarError_None)

lemma element_enumerate: "(\<exists>i. (i, w) \<in> set (enumerate n vs)) \<longleftrightarrow> w \<in> set vs"
  by (induction vs arbitrary: n) auto

lemma validate_conforms:
  "validateJSONSchema integral v s path = None \<longleftrightarrow> conforms integral v s"
proof (induction v arbitrary: s path rule: measure_induct_rule [where f = size])
  case (less v)
  consider (object) "schemaType s = ''object''" | (array) "schemaType s = ''array''"
    | (scalar) "schemaType s \<notin> {''object'', ''array''}" by blast
  then show ?case
  proof cases
    case object
    show ?thesis
    proof (cases v)
      case (JObj m)
      have ih: "validateJSONSchema integral w ps q = None \<longleftrightarrow> conforms integral w ps" if "(n, w) \<in> set m" for n w ps q
        using less size_member [OF that] JObj by blast
      have "validateJSONSchema integral v s path = None \<longleftrightarrow> enumAllows v s \<and> set (requiredNames s) \<subseteq> fst ` set m
        \<and> (member s ''additionalProperties'' = JBool False \<longrightarrow> fst ` set m \<subseteq> fst ` set (propertySchemas s))
        \<and> (\<forall>(n, w) \<in> set m. \<forall>ps. map_of (propertySchemas s) n = Some (JObj ps) \<longrightarrow> conforms integral w ps)"
        using object ih by (auto simp: JObj validate_object missingError_None extraError_None)
      also have "\<dots> \<longleftrightarrow> conforms integral v s"
        unfolding JObj by (rule iffI, rule Object) (use object in \<open>auto elim!: conformsE\<close>)
      finally show ?thesis .
    qed (use object in \<open>auto simp: validateJSONSchema.simps [of _ _ s] elim: conformsE\<close>)
  next
    case array
    show ?thesis
    proof (cases v)
      case (JArr vs)
      have ih: "validateJSONSchema integral w ps q = None \<longleftrightarrow> conforms integral w ps" if "(i, w) \<in> set (enumerate 0 vs)" for i w ps q
        using less size_element [OF that] JArr by blast
      have "(\<forall>(i, w) \<in> set (enumerate 0 vs). validateJSONSchema integral w items (path @ ''['' @ showNat i @ '']'') = None)
        \<longleftrightarrow> (\<forall>w \<in> set vs. conforms integral w items)" for items
        using ih element_enumerate [of _ 0 vs] by blast
      then have "validateJSONSchema integral v s path = None \<longleftrightarrow> enumAllows v s
        \<and> (\<forall>items. map_of s ''items'' = Some (JObj items) \<longrightarrow> (\<forall>w \<in> set vs. conforms integral w items))"
        using array by (simp only: JArr validate_array)
      also have "\<dots> \<longleftrightarrow> conforms integral v s"
        unfolding JArr by (rule iffI, rule Array) (use array in \<open>auto elim!: conformsE\<close>)
      finally show ?thesis .
    qed (use array in \<open>auto simp: validateJSONSchema.simps [of _ _ s] elim: conformsE\<close>)
  next
    case scalar
    then show ?thesis by (auto simp: validate_scalar intro: Scalar elim: conformsE)
  qed
qed

text \<open>C21: schema validation is a typing relation. validateJSONSchema accepts a value exactly when the value has
  the schema: it is among the enum values, has the scalar type, or is an object that has every required member
  and, when additional ones are closed off, no undeclared member, and whose members have the schemas declared
  for them, or an array whose elements have the schema of the items. The path only labels the error.\<close>

theorem schema_validation_is_typing:
  "validateJSONSchema integral v schema path = None \<longleftrightarrow> conforms integral v schema"
  by (rule validate_conforms)

subsection \<open>Accepted calls\<close>

text \<open>Arguments of a schema; a nil map is null for the enum values and an empty object for the rest.\<close>

definition hasArguments :: "(string \<Rightarrow> bool) \<Rightarrow> jsonObject option \<Rightarrow> jsonObject \<Rightarrow> bool" where
  "hasArguments integral args params \<longleftrightarrow>
     (case args of
        Some m \<Rightarrow> conforms integral (JObj m) params
      | None \<Rightarrow> enumAllows JNull params \<and> conforms integral (JObj []) (AList.delete ''enum'' params))"

definition typedCall :: "toolEnv \<Rightarrow> jsonObject list \<Rightarrow> string \<times> json \<Rightarrow> bool" where
  "typedCall env tools cand \<longleftrightarrow>
     (\<exists>fn args. toolFunction (fst cand) tools = Some fn \<and> argumentObject (snd cand) = Some args
        \<and> (\<forall>params. map_of fn ''parameters'' = Some (JObj params) \<longrightarrow> hasArguments (teIntegral env) args params))"

definition wellTyped :: "toolEnv \<Rightarrow> jsonObject list \<Rightarrow> json \<Rightarrow> string \<times> json \<Rightarrow> bool" where
  "wellTyped env tools chosen cand \<longleftrightarrow> toolChoiceAllows chosen (fst cand) \<and> typedCall env tools cand"

definition callKey :: "detectedToolCall \<Rightarrow> string \<times> string" where
  "callKey c = (callName c, callArguments c)"

definition numberedCalls :: "toolEnv \<Rightarrow> detectedToolCall list \<Rightarrow> bool" where
  "numberedCalls env out \<longleftrightarrow> distinct (map callKey out)
     \<and> (\<forall>i < length out. callID (out ! i) = mkCallID (teHash env) (callName (out ! i)) (callArguments (out ! i)) i)"

lemma schemaValid_conforms:
  "schemaValid integral args fn = None \<longleftrightarrow>
     (\<forall>params. map_of fn ''parameters'' = Some (JObj params) \<longrightarrow> hasArguments integral args params)"
  by (auto simp: schemaValid_def hasArguments_def validate_conforms split: option.split json.split)

lemma validated_cases:
  "validatedFallbackToolCall env n a tools chosen i =
     (if wellTyped env tools chosen (n, a)
      then Some \<lparr>callID = mkCallID (teHash env) n (mustJSON a) i, callName = n, callArguments = mustJSON a\<rparr> else None)"
  by (auto simp: validatedFallbackToolCall_def wellTyped_def typedCall_def schemaValid_conforms [symmetric] Let_def split: option.split)

lemma append_cases:
  "appendUniqueToolCall env calls c =
     (if callKey c \<in> callKey ` set calls then calls
      else calls @ [c\<lparr>callID := mkCallID (teHash env) (callName c) (callArguments c) (length calls)\<rparr>])"
proof -
  have "(\<exists>d \<in> set calls. callName d = callName c \<and> callArguments d = callArguments c) \<longleftrightarrow> callKey c \<in> callKey ` set calls"
    unfolding callKey_def image_iff prod.inject by (simp only: eq_commute)
  then show ?thesis by (simp only: appendUniqueToolCall_def)
qed

lemma callKey_renamed [simp]: "callKey (c\<lparr>callID := i\<rparr>) = callKey c"
  by (simp add: callKey_def)

lemma append_keys: "callKey ` set (appendUniqueToolCall env calls c) = insert (callKey c) (callKey ` set calls)"
  by (simp add: append_cases insert_absorb)

lemma append_numbered: "numberedCalls env calls \<Longrightarrow> numberedCalls env (appendUniqueToolCall env calls c)"
  by (auto simp: append_cases numberedCalls_def nth_append less_Suc_eq)

lemma accept_keys:
  "callKey ` set (acceptCall env tools chosen out x) =
     callKey ` set out \<union> (if wellTyped env tools chosen x then {(fst x, mustJSON (snd x))} else {})"
  by (simp add: acceptCall_def validated_cases append_keys) (simp add: callKey_def)

lemma accept_numbered: "numberedCalls env out \<Longrightarrow> numberedCalls env (acceptCall env tools chosen out x)"
  by (simp add: acceptCall_def validated_cases append_numbered)

lemma accept_all:
  "numberedCalls env out \<Longrightarrow> numberedCalls env (foldl (acceptCall env tools chosen) out cands)
   \<and> callKey ` set (foldl (acceptCall env tools chosen) out cands) =
      callKey ` set out \<union> (\<lambda>x. (fst x, mustJSON (snd x))) ` {x \<in> set cands. wellTyped env tools chosen x}"
proof (induction cands arbitrary: out)
  case (Cons x xs)
  from Cons.IH [OF accept_numbered [OF Cons.prems]] show ?case by (auto simp: accept_keys)
qed simp

definition fencedCandidates :: "toolEnv \<Rightarrow> string \<Rightarrow> jsonObject list \<Rightarrow> json \<Rightarrow> (string \<times> json) list" where
  "fencedCandidates env text tools chosen =
     List.map_filter (fencedCandidate env (allowedToolNames tools) chosen) (fencedMatches ([], runes text))"

text \<open>With the choice auto, which nativeToolCalls passes, every name is allowed.\<close>

lemma wellTyped_auto: "wellTyped env tools (JStr ''auto'') cand \<longleftrightarrow> typedCall env tools cand"
  by (simp add: wellTyped_def toolChoiceAllows_def)

text \<open>C22: every tool call a response reports is well typed. The calls taken from ChatHub frames are exactly the
  candidates there whose name the request offers and whose arguments are an object of the declared schema (the
  tool choice of the request is not consulted for them); the calls taken from fenced blocks are exactly the
  candidates there that satisfy this and are allowed by the tool choice. No call is reported twice, and the
  identity of a call depends on its name, arguments and position alone.\<close>

theorem reported_calls_well_typed:
  "(let maps = List.map_filter (toolMap env) offered; calls = nativeToolCalls env events offered
    in numberedCalls env calls
     \<and> callKey ` set calls = (\<lambda>x. (fst x, mustJSON (snd x)))
          ` {x \<in> set (nativeCandidates env (allowedToolNames maps) events). typedCall env maps x})
   \<and> (let calls = fencedToolCalls env text tools chosen
      in numberedCalls env calls
       \<and> callKey ` set calls = (\<lambda>x. (fst x, mustJSON (snd x)))
            ` {x \<in> set (fencedCandidates env text tools chosen).
                 toolChoiceAllows chosen (fst x) \<and> typedCall env tools x})"
proof -
  have "numberedCalls env []" by (simp add: numberedCalls_def)
  from accept_all [OF this] show ?thesis
    by (simp add: nativeToolCalls_def fencedToolCalls_def fencedCandidates_def wellTyped_auto flip: wellTyped_def)
qed

end
