(* ===== verification/AgentLedger.thy ===== *)
theory AgentLedger
  imports Sessions ChatFrames
begin

text \<open>
  The evidence ledger of a tool loop, internal/web/agent_ledger.go: which calls of a transcript have results,
  which of these failed, and whether the loop repeats itself. json.Unmarshal, fmt.Sprint of odd values,
  strconv.ParseFloat (whether the number is not zero and whether it is at least 400) and SHA-256 are arguments.
\<close>

subsection \<open>State\<close>

record toolEvidence =
  tvID :: string
  tvName :: string
  tvArguments :: string
  tvResult :: string
  tvHasResult :: bool
  tvFailed :: bool

record agentLedger =
  alCompleted :: "toolEvidence list"
  alPending :: "toolEvidence list"
  alToolRounds :: nat
  alRepeatedCall :: bool
  alRepeatedFailure :: bool
  alRepetitionSignature :: string

record ledgerEnv =
  leUnmarshal :: "string \<Rightarrow> json option"
  leSprint :: "json \<Rightarrow> string"
  leNumber :: "string \<Rightarrow> (bool \<times> bool) option"
  leHash :: "string \<Rightarrow> string"

subsection \<open>Patterns\<close>

definition word :: "regex \<Rightarrow> regex" where
  "word r = sequence [WordBoundary, r, WordBoundary]"

definition spaces :: regex where
  "spaces = Star True spaceRune"

definition errorWord :: regex where
  "errorWord = sequence [foldedLit ''error'', maybe (foldedLit ''s'')]"

definition exitLabel :: "regex list" where
  "exitLabel = [foldedLit ''exit'', spaces, maybe (choice [foldedLit ''code'', foldedLit ''status'']), spaces,
                maybe (oneOf ['':'', ''='']), spaces]"

text \<open>Chinese words, by their bytes: failed, error, exception, timeout, refused, insufficient permissions, not found.\<close>

definition failureWordsZh :: "string list" where
  "failureWordsZh =
     [[CHR 0xE5, CHR 0xA4, CHR 0xB1, CHR 0xE8, CHR 0xB4, CHR 0xA5],
      [CHR 0xE9, CHR 0x94, CHR 0x99, CHR 0xE8, CHR 0xAF, CHR 0xAF],
      [CHR 0xE5, CHR 0xBC, CHR 0x82, CHR 0xE5, CHR 0xB8, CHR 0xB8],
      [CHR 0xE8, CHR 0xB6, CHR 0x85, CHR 0xE6, CHR 0x97, CHR 0xB6],
      [CHR 0xE6, CHR 0x8B, CHR 0x92, CHR 0xE7, CHR 0xBB, CHR 0x9D],
      [CHR 0xE6, CHR 0x9D, CHR 0x83, CHR 0xE9, CHR 0x99, CHR 0x90, CHR 0xE4, CHR 0xB8, CHR 0x8D, CHR 0xE8, CHR 0xB6, CHR 0xB3],
      [CHR 0xE6, CHR 0x9C, CHR 0xAA, CHR 0xE6, CHR 0x89, CHR 0xBE, CHR 0xE5, CHR 0x88, CHR 0xB0]]"

definition failureSignal :: regex where
  "failureSignal = choice
     ([sequence (exitLabel @ [oneOf (map (\<lambda>d. [d]) ''123456789''), Star True digitRune]),
       word errorWord, word (foldedLit ''failed''), word (foldedLit ''failure''), foldedLit ''exception'',
       foldedLit ''traceback'', sequence [foldedLit ''time'', maybe (foldedLit ''d''), spaces, foldedLit ''out''],
       foldedLit ''permission denied'', foldedLit ''not found'', foldedLit ''refused''] @ map lit failureWordsZh)"

definition countedErrors :: "string \<Rightarrow> regex" where
  "countedErrors w = sequence [WordBoundary, foldedLit w, plus1 spaceRune, errorWord, WordBoundary]"

definition noFailureWordsZh :: "string list" where
  "noFailureWordsZh =
     (let wrong = [CHR 0xE9, CHR 0x94, CHR 0x99, CHR 0xE8, CHR 0xAF, CHR 0xAF]
      in [[CHR 0xE6, CHR 0xB2, CHR 0xA1, CHR 0xE6, CHR 0x9C, CHR 0x89] @ wrong,
          [CHR 0xE6, CHR 0x97, CHR 0xA0] @ wrong,
          [CHR 0xE6, CHR 0x9C, CHR 0xAA, CHR 0xE5, CHR 0x8F, CHR 0x91, CHR 0xE7, CHR 0x8E, CHR 0xB0] @ wrong])"

definition explicitNoFailure :: regex where
  "explicitNoFailure = choice
     ([countedErrors ''no'', countedErrors ''zero'', countedErrors ''0'', countedErrors ''without'',
       sequence (WordBoundary # exitLabel @ [lit ''0'', WordBoundary])] @ map lit noFailureWordsZh)"

definition unsupportedSuccess :: regex where
  "unsupportedSuccess = word (choice
     (map foldedLit [''installed'', ''created'', ''written'', ''executed'', ''ran'', ''started'', ''deployed'', ''deleted'',
                     ''verified'', ''completed'', ''succeeded'']
      @ [sequence [foldedLit ''successful'', maybe (foldedLit ''ly'')]]))"

subsection \<open>Failed results\<close>

definition normalizedKey :: "string \<Rightarrow> string" where
  "normalizedKey k = ToLower (filter (\<lambda>c. c \<noteq> CHR ''_'' \<and> c \<noteq> CHR ''-'') k)"

definition normalizedFields :: "(string \<times> json) list \<Rightarrow> (string \<times> json) list" where
  "normalizedFields m = fold (\<lambda>(k, v). AList.update (normalizedKey k) v) m []"

definition fieldNumber :: "ledgerEnv \<Rightarrow> (string \<times> json) list \<Rightarrow> string \<Rightarrow> (bool \<times> bool) option" where
  "fieldNumber env flds k =
     (case map_of flds k of
        Some (JNum n) \<Rightarrow> leNumber env n
      | Some (JStr s) \<Rightarrow> leNumber env (TrimSpace s)
      | _ \<Rightarrow> None)"

fun firstSome :: "'a option list \<Rightarrow> 'a option" where
  "firstSome [] = None"
| "firstSome (x # xs) = (case x of None \<Rightarrow> firstSome xs | Some v \<Rightarrow> Some v)"

definition fieldBool :: "(string \<times> json) list \<Rightarrow> string \<Rightarrow> bool option" where
  "fieldBool flds k = (case map_of flds k of Some (JBool b) \<Rightarrow> Some b | _ \<Rightarrow> None)"

definition statusFailed :: "(string \<times> json) list \<Rightarrow> bool option" where
  "statusFailed flds =
     (case map_of flds ''status'' of
        Some (JStr s) \<Rightarrow>
          (let t = ToLower (TrimSpace s)
           in if t \<in> {''ok'', ''success'', ''succeeded'', ''completed'', ''complete'', ''done'', ''passed''} then Some False
              else if t \<in> {''error'', ''failed'', ''failure'', ''timeout'', ''timed_out'', ''cancelled'', ''canceled'', ''denied''}
              then Some True else None)
      | _ \<Rightarrow> None)"

definition errorField :: "(string \<times> json) list \<Rightarrow> bool option" where
  "errorField flds =
     (case map_of flds ''error'' of
        None \<Rightarrow> None
      | Some JNull \<Rightarrow> Some False
      | Some (JBool b) \<Rightarrow> Some b
      | Some (JStr s) \<Rightarrow> Some (\<not> blank s)
      | Some _ \<Rightarrow> Some True)"

text \<open>Whether the fields decide the outcome, and whether it is a failure.\<close>

definition structuredToolFailure :: "ledgerEnv \<Rightarrow> json \<Rightarrow> bool option" where
  "structuredToolFailure env content =
     (let v = (case content of
                 JStr t \<Rightarrow> if blank t then None else leUnmarshal env (TrimSpace t)
               | c \<Rightarrow> Some c)
      in case v of
           Some (JObj m) \<Rightarrow>
             (let flds = normalizedFields m
              in firstSome
                   ([fieldBool flds ''iserror'', map_option Not (fieldBool flds ''success''),
                     map_option Not (fieldBool flds ''ok''),
                     map_option fst (fieldNumber env flds ''exitcode''), map_option fst (fieldNumber env flds ''exitstatus''),
                     map_option snd (fieldNumber env flds ''statuscode''), map_option snd (fieldNumber env flds ''httpstatus''),
                     statusFailed flds, errorField flds]))
         | _ \<Rightarrow> None)"

definition toolResultFailed :: "ledgerEnv \<Rightarrow> json \<Rightarrow> string \<Rightarrow> bool" where
  "toolResultFailed env content compact =
     (case structuredToolFailure env content of
        Some failed \<Rightarrow> failed
      | None \<Rightarrow> MatchString failureSignal (ReplaceAllString explicitNoFailure [] compact))"

definition normalizeFailure :: "string \<Rightarrow> string" where
  "normalizeFailure s = take 500 (ReplaceAllString (plus1 digitRune) ''#'' (ToLower s))"

definition normalizeToolArguments :: "ledgerEnv \<Rightarrow> string \<Rightarrow> string" where
  "normalizeToolArguments env args =
     (let args = TrimSpace args
      in if args = [] then ''{}''
         else case leUnmarshal env args of Some v \<Rightarrow> mustJSON v | None \<Rightarrow> args)"

subsection \<open>The ledger of a transcript\<close>

text \<open>fmt.Sprint of the arguments of a call.\<close>

definition sprintArguments :: "ledgerEnv \<Rightarrow> json \<Rightarrow> string" where
  "sprintArguments env v = (case v of JStr s \<Rightarrow> s | JNull \<Rightarrow> ''<nil>'' | _ \<Rightarrow> leSprint env v)"

record collected =
  clCalls :: "(string, toolEvidence) gomap"
  clOrder :: "string list"
  clRounds :: nat

definition callEvidence :: "ledgerEnv \<Rightarrow> (string \<times> json) list \<Rightarrow> toolEvidence" where
  "callEvidence env raw =
     (let fn = getOr JNull raw ''function''
      in \<lparr>tvID = asString (getOr JNull raw ''id''), tvName = asString (jsonField ''name'' fn),
          tvArguments = normalizeToolArguments env (sprintArguments env (jsonField ''arguments'' fn)),
          tvResult = [], tvHasResult = False, tvFailed = False\<rparr>)"

definition recordCall :: "ledgerEnv \<Rightarrow> (string \<times> json) list \<Rightarrow> collected \<Rightarrow> collected" where
  "recordCall env raw c =
     (let e = callEvidence env raw
      in if tvID e = [] then c
         else c\<lparr>clCalls := AList.update (tvID e) e (clCalls c), clOrder := clOrder c @ [tvID e]\<rparr>)"

definition hasCall :: "oaiMsg \<Rightarrow> bool" where
  "hasCall m = list_ex (\<lambda>raw. asString (getOr JNull raw ''id'') \<noteq> []) (msgToolCalls m)"

definition recordResult :: "ledgerEnv \<Rightarrow> oaiMsg \<Rightarrow> collected \<Rightarrow> collected" where
  "recordResult env m c =
     (case map_of (clCalls c) (msgToolCallID m) of
        None \<Rightarrow> c
      | Some e \<Rightarrow>
          let result = compactToolResult (contentToString (leSprint env) (msgContent m)) 4000;
              e = e\<lparr>tvResult := result, tvHasResult := True, tvFailed := toolResultFailed env (msgContent m) result\<rparr>
          in c\<lparr>clCalls := AList.update (msgToolCallID m) e (clCalls c)\<rparr>)"

definition collectMessage :: "ledgerEnv \<Rightarrow> oaiMsg \<Rightarrow> collected \<Rightarrow> collected" where
  "collectMessage env m c =
     (let c = (if msgRole m = ''assistant''
               then (let c' = fold (recordCall env) (msgToolCalls m) c
                     in if hasCall m then c'\<lparr>clRounds := clRounds c' + 1\<rparr> else c')
               else c)
      in if msgRole m = ''tool'' then recordResult env m c else c)"

definition collect :: "ledgerEnv \<Rightarrow> oaiMsg list \<Rightarrow> collected" where
  "collect env ms = fold (collectMessage env) ms \<lparr>clCalls = [], clOrder = [], clRounds = 0\<rparr>"

text \<open>The parts of a signature are separated by a NUL byte.\<close>

definition NUL :: char where
  "NUL = CHR 0x00"

definition callSignature :: "toolEvidence \<Rightarrow> string" where
  "callSignature e = tvName e @ NUL # tvArguments e"

definition failureSignature :: "toolEvidence \<Rightarrow> string" where
  "failureSignature e = callSignature e @ NUL # normalizeFailure (tvResult e)"

record tally =
  taLedger :: agentLedger
  taSeenFailure :: "(string, nat) gomap"
  taProgress :: "(string, string \<times> nat) gomap"

definition noteProgress :: "toolEvidence \<Rightarrow> tally \<Rightarrow> tally" where
  "noteProgress e t =
     (let sig = callSignature e;
          fingerprint = TrimSpace (tvResult e);
          (f, n) = getOr ([], 0) (taProgress t) sig;
          p = (if n > 0 \<and> f = fingerprint then (f, n + 1) else (fingerprint, 1));
          t = t\<lparr>taProgress := AList.update sig p (taProgress t)\<rparr>;
          l = taLedger t
      in if snd p \<ge> 3
         then t\<lparr>taLedger := l\<lparr>alRepeatedCall := True,
                alRepetitionSignature := (if alRepetitionSignature l = [] then sig else alRepetitionSignature l)\<rparr>\<rparr>
         else t)"

definition noteFailure :: "toolEvidence \<Rightarrow> tally \<Rightarrow> tally" where
  "noteFailure e t =
     (if \<not> tvFailed e then t
      else
        let sig = failureSignature e;
            n = getOr 0 (taSeenFailure t) sig + 1;
            t = t\<lparr>taSeenFailure := AList.update sig n (taSeenFailure t)\<rparr>
        in if n \<ge> 2 then t\<lparr>taLedger := (taLedger t)\<lparr>alRepeatedFailure := True, alRepetitionSignature := sig\<rparr>\<rparr> else t)"

definition tallyEvidence :: "toolEvidence \<Rightarrow> tally \<Rightarrow> tally" where
  "tallyEvidence e t =
     (let l = taLedger t
      in if \<not> tvHasResult e then t\<lparr>taLedger := l\<lparr>alPending := alPending l @ [e]\<rparr>\<rparr>
         else noteFailure e (noteProgress e (t\<lparr>taLedger := l\<lparr>alCompleted := alCompleted l @ [e]\<rparr>\<rparr>)))"

definition emptyEvidence :: toolEvidence where
  "emptyEvidence = \<lparr>tvID = [], tvName = [], tvArguments = [], tvResult = [], tvHasResult = False, tvFailed = False\<rparr>"

definition emptyTally :: "nat \<Rightarrow> tally" where
  "emptyTally rounds =
     \<lparr>taLedger = \<lparr>alCompleted = [], alPending = [], alToolRounds = rounds, alRepeatedCall = False,
                  alRepeatedFailure = False, alRepetitionSignature = []\<rparr>,
      taSeenFailure = [], taProgress = []\<rparr>"

definition evidenceOf :: "collected \<Rightarrow> toolEvidence list" where
  "evidenceOf c = map (getOr emptyEvidence (clCalls c)) (clOrder c)"

definition buildAgentLedger :: "ledgerEnv \<Rightarrow> oaiMsg list \<Rightarrow> agentLedger" where
  "buildAgentLedger env messages =
     (let c = collect env messages in taLedger (fold tallyEvidence (evidenceOf c) (emptyTally (clRounds c))))"

text \<open>The last user turn; messages before it do not count.\<close>

fun lastUserIndex :: "nat \<Rightarrow> oaiMsg list \<Rightarrow> nat option" where
  "lastUserIndex i [] = None"
| "lastUserIndex i (m # ms) =
     (case lastUserIndex (i + 1) ms of Some j \<Rightarrow> Some j | None \<Rightarrow> if msgRole m = ''user'' then Some i else None)"

definition activeMessages :: "oaiMsg list \<Rightarrow> oaiMsg list" where
  "activeMessages messages =
     (case lastUserIndex 0 messages of Some i \<Rightarrow> if i \<le> 0 then messages else drop i messages | None \<Rightarrow> messages)"

subsection \<open>Uses of the ledger\<close>

definition RecoveryInstruction :: "agentLedger \<Rightarrow> string" where
  "RecoveryInstruction l =
     (if \<not> alRepeatedFailure l \<and> \<not> alRepeatedCall l then []
      else newline @ ''[TOOL_LOOP_RECOVERY]'' @ newline
           @ (if alRepeatedFailure l then ''the same tool call failed repeatedly''
              else ''the same tool call returned the same result repeatedly without progress'')
           @ ''. Do not issue that identical function and arguments again. Inspect the recorded failure, ''
           @ ''choose a materially different diagnostic or corrective call, or explain the concrete blocker to the user. ''
           @ ''Do not claim success without new successful evidence.'')"

text \<open>\<open>strings.SplitN\<close> at NUL into the name, the arguments and the rest.\<close>

definition signatureParts :: "string \<Rightarrow> (string \<times> string) option" where
  "signatureParts s =
     (case dropWhile (\<lambda>c. c \<noteq> NUL) s of
        [] \<Rightarrow> None
      | _ # rest \<Rightarrow> Some (takeWhile (\<lambda>c. c \<noteq> NUL) s, takeWhile (\<lambda>c. c \<noteq> NUL) rest))"

definition blocksRepeatedToolCall :: "ledgerEnv \<Rightarrow> agentLedger \<Rightarrow> string \<Rightarrow> string \<Rightarrow> bool" where
  "blocksRepeatedToolCall env l name arguments =
     (if (\<not> alRepeatedFailure l \<and> \<not> alRepeatedCall l) \<or> alRepetitionSignature l = [] then False
      else case signatureParts (alRepetitionSignature l) of
             None \<Rightarrow> False
           | Some (n, a) \<Rightarrow> name = n \<and> normalizeToolArguments env arguments = normalizeToolArguments env a)"

fun removeBlocked :: "ledgerEnv \<Rightarrow> agentLedger \<Rightarrow> detectedToolCall list \<Rightarrow> detectedToolCall list \<times> nat" where
  "removeBlocked env l [] = ([], 0)"
| "removeBlocked env l (c # cs) =
     (let (kept, removed) = removeBlocked env l cs
      in if blocksRepeatedToolCall env l (callName c) (callArguments c) then (kept, removed + 1) else (c # kept, removed))"

definition removeRepeatedToolCalls :: "ledgerEnv \<Rightarrow> detectedToolCall list \<Rightarrow> agentLedger \<Rightarrow> detectedToolCall list \<times> nat" where
  "removeRepeatedToolCalls env calls l =
     (if \<not> alRepeatedFailure l \<and> \<not> alRepeatedCall l then (calls, 0) else removeBlocked env l calls)"

definition hexPrefix :: "ledgerEnv \<Rightarrow> string \<Rightarrow> string" where
  "hexPrefix env s = hexEncode (take 8 (leHash env s))"

definition ledgerEntry :: "ledgerEnv \<Rightarrow> string \<Rightarrow> toolEvidence \<Rightarrow> json" where
  "ledgerEntry env status e =
     JObj ([(''call_id'', JStr (tvID e)), (''name'', JStr (tvName e)),
            (''arguments_sha256'', JStr (hexPrefix env (tvArguments e))), (''status'', JStr status)]
           @ (if tvResult e = [] then [] else [(''result_sha256'', JStr (hexPrefix env (tvResult e)))])
           @ (let failure = (if tvFailed e then compactToolResult (normalizeFailure (tvResult e)) 240 else [])
              in if failure = [] then [] else [(''failure'', JStr failure)]))"

definition agentLedgerPrompt :: "ledgerEnv \<Rightarrow> agentLedger \<Rightarrow> string" where
  "agentLedgerPrompt env l =
     ''[STRUCTURED_TOOL_LEDGER]'' @ newline
     @ render (JObj
         [(''calls'', JArr (map (\<lambda>e. ledgerEntry env (if tvFailed e then ''failed'' else ''completed'') e) (alCompleted l)
                            @ map (ledgerEntry env ''pending'') (alPending l))),
          (''repeated_call'', JBool (alRepeatedCall l)), (''repeated_failure'', JBool (alRepeatedFailure l)),
          (''tool_rounds'', JNum (showNat (alToolRounds l)))])"

definition maxToolRounds :: "string option \<Rightarrow> int \<Rightarrow> int" where
  "maxToolRounds environment setting =
     (case environment of
        Some raw \<Rightarrow> (case ParseInt (TrimSpace raw) of Some n \<Rightarrow> if n > 0 \<and> n \<le> 512 then n else 32 | None \<Rightarrow> 32)
      | None \<Rightarrow> if setting > 0 \<and> setting \<le> 512 then setting else 32)"

definition hedges :: "string list" where
  "hedges = [''cannot confirm'', ''not confirmed'', ''unable to confirm'', ''no tool result'', ''not completed'', ''failed'']"

definition completionEvidenceAllows :: "string \<Rightarrow> agentLedger \<Rightarrow> bool" where
  "completionEvidenceAllows answer l =
     (if alPending l \<noteq> [] then False
      else if \<not> MatchString unsupportedSuccess answer then True
      else if list_ex (\<lambda>e. tvHasResult e \<and> \<not> tvFailed e) (alCompleted l) then True
      else list_ex (Contains (ToLower answer)) hedges)"

definition scopedCallID :: "(string \<Rightarrow> string) \<Rightarrow> string \<Rightarrow> string \<Rightarrow> nat \<Rightarrow> string \<Rightarrow> string" where
  "scopedCallID sha256 name args index scope =
     ''call_'' @ hexEncode (take 8 (sha256 (scope @ '':'' @ showNat index @ '':'' @ name @ '':'' @ args)))"

definition completedCallIDs :: "agentLedger \<Rightarrow> string list" where
  "completedCallIDs l = sortBy strLess (map tvID (alCompleted l))"

end
