(* ===== verification/ToolProtocol.thy ===== *)
theory ToolProtocol
  imports PortableHistory "HOL-Library.Multiset"
begin

text \<open>
  The tool protocol of a conversation, internal/web/tool_state.go: every assistant call is answered by exactly
  one result before the next turn. The Go sets of pending and completed identities are lists here; which of
  several missing results the last error names depends on a map iteration, and the first one stands for it.
\<close>

subsection \<open>The check\<close>

definition callIdentity :: "(string \<times> json) list \<Rightarrow> string" where
  "callIdentity call = asString (getOr JNull call ''id'')"

fun registerCalls :: "nat \<Rightarrow> string list \<Rightarrow> (string \<times> json) list list \<Rightarrow> string list \<Rightarrow> string + string list" where
  "registerCalls i completed [] pending = Inr pending"
| "registerCalls i completed (c # cs) pending =
     (let cid = callIdentity c
      in if cid = [] then Inl (''assistant tool call missing id at index '' @ showNat i)
         else if cid \<in> set pending \<or> cid \<in> set completed then Inl (''duplicate tool call id: '' @ cid)
         else registerCalls i completed cs (pending @ [cid]))"

fun checkMessages :: "nat \<Rightarrow> oaiMsg list \<Rightarrow> string list \<Rightarrow> string list \<Rightarrow> string option" where
  "checkMessages i [] pending completed =
     (case pending of [] \<Rightarrow> None | cid # _ \<Rightarrow> Some (''missing tool result for tool_call_id: '' @ cid))"
| "checkMessages i (m # ms) pending completed =
     (if pending \<noteq> [] \<and> msgRole m \<noteq> ''tool''
      then Some (''tool results must immediately follow assistant calls before '' @ msgRole m
                 @ '' message at index '' @ showNat i)
      else if msgRole m = ''assistant'' then
        (case registerCalls i completed (msgToolCalls m) pending of
           Inl e \<Rightarrow> Some e
         | Inr pending' \<Rightarrow> checkMessages (i + 1) ms pending' completed)
      else if msgRole m = ''tool'' then
        (let cid = msgToolCallID m
         in if cid = [] then Some (''tool_call_id required at index '' @ showNat i)
            else if cid \<notin> set pending then Some (''unexpected tool result: '' @ cid)
            else checkMessages (i + 1) ms (removeAll cid pending) (completed @ [cid]))
      else checkMessages (i + 1) ms pending completed)"

definition validateToolConversation :: "oaiMsg list \<Rightarrow> string option" where
  "validateToolConversation messages = checkMessages 0 messages [] []"

text \<open>A request that carries only results, and users' words, for calls of the previous response.\<close>

definition allowResponsesToolContinuation :: "bool \<Rightarrow> oaiMsg list \<Rightarrow> bool" where
  "allowResponsesToolContinuation allowed messages \<longleftrightarrow>
     allowed \<and> messages \<noteq> [] \<and> list_all (\<lambda>m. msgRole m = ''tool'' \<or> msgRole m = ''user'') messages
     \<and> list_ex (\<lambda>m. msgRole m = ''tool'') messages"

subsection \<open>Well-formed conversations\<close>

definition callIdentities :: "oaiMsg \<Rightarrow> string list" where
  "callIdentities m = map callIdentity (msgToolCalls m)"

text \<open>
  A conversation is a sequence of messages that neither call nor answer and of rounds: an assistant message with
  calls, followed by its results in any order. No identity is used twice.
\<close>

inductive protocolRounds :: "string set \<Rightarrow> oaiMsg list \<Rightarrow> bool" where
  Done: "protocolRounds used []"
| Plain: "msgRole m \<notin> {''assistant'', ''tool''} \<Longrightarrow> protocolRounds used ms \<Longrightarrow> protocolRounds used (m # ms)"
| Round: "msgRole m = ''assistant'' \<Longrightarrow> [] \<notin> set (callIdentities m) \<Longrightarrow> distinct (callIdentities m)
    \<Longrightarrow> set (callIdentities m) \<inter> used = {} \<Longrightarrow> \<forall>r \<in> set results. msgRole r = ''tool''
    \<Longrightarrow> mset (map msgToolCallID results) = mset (callIdentities m)
    \<Longrightarrow> protocolRounds (used \<union> set (callIdentities m)) ms
    \<Longrightarrow> protocolRounds used (m # results @ ms)"

lemma register_ok:
  "registerCalls i completed cs pending = Inr p \<longleftrightarrow>
     p = pending @ map callIdentity cs \<and> [] \<notin> set (map callIdentity cs) \<and> distinct (map callIdentity cs)
   \<and> set (map callIdentity cs) \<inter> (set pending \<union> set completed) = {}"
  by (induction cs arbitrary: pending) (auto simp: Let_def)

text \<open>With calls pending, the results come first.\<close>

lemma remove_mset: "distinct xs \<Longrightarrow> x \<in> set xs \<Longrightarrow> mset xs = add_mset x (mset (removeAll x xs))"
  by (simp add: distinct_remove1_removeAll [symmetric])

text \<open>The verdict does not depend on the index, nor on the order of the completed identities.\<close>

lemma check_index:
  "set c = set c' \<Longrightarrow> checkMessages i ms p c = None \<longleftrightarrow> checkMessages j ms p c' = None"
proof (induction ms arbitrary: i j p c c')
  case Nil
  then show ?case by (simp split: list.split)
next
  case (Cons m ms)
  have calls: "(case registerCalls i c (msgToolCalls m) p of Inl e \<Rightarrow> Some e | Inr p' \<Rightarrow> checkMessages (i + 1) ms p' c) = None
      \<longleftrightarrow> (case registerCalls j c' (msgToolCalls m) p of Inl e \<Rightarrow> Some e | Inr p' \<Rightarrow> checkMessages (j + 1) ms p' c') = None"
  proof (cases "registerCalls i c (msgToolCalls m) p")
    case (Inr p')
    then have "registerCalls j c' (msgToolCalls m) p = Inr p'" using register_ok Cons.prems by metis
    with Inr Cons.IH [OF Cons.prems] show ?thesis by simp
  next
    case (Inl e)
    have "registerCalls j c' (msgToolCalls m) p \<noteq> Inr p'" for p'
      using Inl register_ok [of i c "msgToolCalls m" p p'] register_ok [of j c' "msgToolCalls m" p p'] Cons.prems by auto
    with Inl show ?thesis by (cases "registerCalls j c' (msgToolCalls m) p") auto
  qed
  have "set (c @ [x]) = set (c' @ [x])" for x using Cons.prems by simp
  note completed = Cons.IH [OF this] and same = Cons.IH [OF Cons.prems]
  consider "p \<noteq> [] \<and> msgRole m \<noteq> ''tool''" | "msgRole m = ''tool''" | "msgRole m = ''assistant''" "p = []"
    | "msgRole m \<notin> {''assistant'', ''tool''}" "p = []" by blast
  then show ?case
  proof cases
    case 2
    with completed show ?thesis by (simp add: Let_def)
  next
    case 3
    with calls show ?thesis by simp
  next
    case 4
    with same show ?thesis by simp
  qed simp
qed

text \<open>The results of a round, in any order.\<close>

lemma check_results:
  "\<forall>r \<in> set results. msgRole r = ''tool'' \<Longrightarrow> distinct p \<Longrightarrow> [] \<notin> set p
   \<Longrightarrow> mset (map msgToolCallID results) = mset p
   \<Longrightarrow> checkMessages i (results @ ms) p c = checkMessages (i + length results) ms [] (c @ map msgToolCallID results)"
proof (induction results arbitrary: i p c)
  case Nil
  then show ?case by simp
next
  case (Cons r rs)
  let ?x = "msgToolCallID r"
  have x: "?x \<in> set p" using Cons.prems(4) by (metis list.set_intros(1) list.simps(9) mset_eq_setD)
  then have ne: "?x \<noteq> []" "p \<noteq> []" using Cons.prems(3) by auto
  have "mset (map msgToolCallID rs) = mset (removeAll ?x p)"
    using Cons.prems(4) remove_mset [OF Cons.prems(2) x] by simp
  from Cons.IH [OF _ _ _ this] Cons.prems x ne show ?case by (simp add: Let_def distinct_removeAll)
qed

lemma check_split:
  "distinct p \<Longrightarrow> [] \<notin> set p \<Longrightarrow> checkMessages i ms p c = None \<Longrightarrow>
   \<exists>results rest j c'. ms = results @ rest \<and> (\<forall>r \<in> set results. msgRole r = ''tool'')
     \<and> mset (map msgToolCallID results) = mset p \<and> set c' = set c \<union> set p \<and> checkMessages j rest [] c' = None"
proof (induction ms arbitrary: i p c)
  case Nil
  then show ?case by (intro exI [of _ "[]"]) (auto split: list.splits)
next
  case (Cons m ms)
  show ?case
  proof (cases "p = []")
    case True
    with Cons.prems show ?thesis by (intro exI [of _ "[]"] exI [of _ "m # ms"] exI [of _ i] exI [of _ c]) simp
  next
    case False
    then have m: "msgRole m = ''tool''" "msgToolCallID m \<in> set p"
      "checkMessages (i + 1) ms (removeAll (msgToolCallID m) p) (c @ [msgToolCallID m]) = None"
      using Cons.prems(3) by (auto simp: Let_def split: if_splits)
    from Cons.IH [OF distinct_removeAll [OF Cons.prems(1)] _ m(3)] Cons.prems(2) obtain results rest j c' where r: "ms = results @ rest"
      "\<forall>r \<in> set results. msgRole r = ''tool''" "mset (map msgToolCallID results) = mset (removeAll (msgToolCallID m) p)"
      "set c' = set (c @ [msgToolCallID m]) \<union> set (removeAll (msgToolCallID m) p)" "checkMessages j rest [] c' = None"
      by auto
    have "set c' = set c \<union> set p" using r(4) m(2) by auto
    with r m remove_mset [OF Cons.prems(1) m(2)] show ?thesis
      by (intro exI [of _ "m # results"] exI [of _ rest] exI [of _ j] exI [of _ c']) simp
  qed
qed

lemma conversation_checked: "protocolRounds used ms \<Longrightarrow> used = set c \<Longrightarrow> checkMessages i ms [] c = None"
proof (induction arbitrary: c i rule: protocolRounds.induct)
  case (Round m used results ms)
  let ?ids = "callIdentities m"
  have reg: "registerCalls i c (msgToolCalls m) [] = Inr ?ids"
    using Round by (simp add: register_ok callIdentities_def)
  have res: "mset (map msgToolCallID results) = mset ?ids" by fact
  then have s: "set (map msgToolCallID results) = set ?ids" by (rule mset_eq_setD)
  have "checkMessages (i + 1) (results @ ms) ?ids c
      = checkMessages (i + 1 + length results) ms [] (c @ map msgToolCallID results)"
    by (rule check_results) (use Round res in simp_all)
  also have "\<dots> = None"
    by (rule Round.IH) (use Round.prems s in simp)
  finally show ?case using Round.hyps(1) reg by simp
qed simp_all

lemma checked_conversation: "checkMessages i ms [] c = None \<Longrightarrow> protocolRounds (set c) ms"
proof (induction "length ms" arbitrary: ms i c rule: less_induct)
  case less
  show ?case
  proof (cases ms)
    case (Cons m ms')
    consider (call) "msgRole m = ''assistant''" | (plain) "msgRole m \<notin> {''assistant'', ''tool''}"
      using less.prems Cons by (auto simp: Let_def split: if_splits)
    then show ?thesis
    proof cases
      case plain
      with less.prems Cons have "checkMessages (i + 1) ms' [] c = None" by simp
      from less.hyps [OF _ this] Cons plain show ?thesis by (auto intro: Plain)
    next
      case call
      with less.prems Cons obtain p where p: "registerCalls i c (msgToolCalls m) [] = Inr p" "checkMessages (i + 1) ms' p c = None"
        by (auto split: sum.splits)
      have ids: "p = callIdentities m" "[] \<notin> set p" "distinct p" "set p \<inter> set c = {}"
        using p(1) by (auto simp: register_ok callIdentities_def)
      from check_split [OF ids(3,2) p(2)] obtain results rest j c' where r: "ms' = results @ rest"
        "\<forall>r \<in> set results. msgRole r = ''tool''" "mset (map msgToolCallID results) = mset p"
        "set c' = set c \<union> set p" "checkMessages j rest [] c' = None" by blast
      have "protocolRounds (set c') rest" by (rule less.hyps [OF _ r(5)]) (simp add: Cons r(1))
      with r ids call show ?thesis unfolding Cons r(1) by (intro Round) simp_all
    qed
  qed (simp add: Done)
qed

text \<open>C23: the tool protocol check against its grammar. A conversation is accepted exactly when it is a sequence of
  messages that neither call nor answer and of rounds, each an assistant message followed by one result for each
  of its calls, in any order, where no call identity is empty or used twice in the conversation.\<close>

theorem tool_protocol_grammar:
  "validateToolConversation messages = None \<longleftrightarrow> protocolRounds {} messages"
proof
  assume "validateToolConversation messages = None"
  then show "protocolRounds {} messages" using checked_conversation [of 0 messages "[]"] by (simp add: validateToolConversation_def)
qed (simp add: validateToolConversation_def conversation_checked [of "{}" _ "[]"])

end
