(* ===== verification/LedgerProps.thy ===== *)
theory LedgerProps
  imports AgentLedger ToolProtocol
begin

text \<open>
  What the ledger says: its calls against the tool protocol, its repetitions against the history of results, and
  the calls it blocks.
\<close>

subsection \<open>A conversation that follows the protocol has no pending calls\<close>

definition answered :: "collected \<Rightarrow> bool" where
  "answered c \<longleftrightarrow> (\<forall>k \<in> set (clOrder c). \<exists>e. map_of (clCalls c) k = Some e \<and> tvHasResult e \<and> tvID e = k)"

lemma fold_recordCall:
  assumes "[] \<notin> set (map callIdentity raws)" and "distinct (map callIdentity raws)"
    and "set (map callIdentity raws) \<inter> set (clOrder c) = {}"
  shows "clOrder (fold (recordCall env) raws c) = clOrder c @ map callIdentity raws
    \<and> clRounds (fold (recordCall env) raws c) = clRounds c
    \<and> (\<forall>raw \<in> set raws. map_of (clCalls (fold (recordCall env) raws c)) (callIdentity raw) = Some (callEvidence env raw))
    \<and> (\<forall>k. k \<notin> set (map callIdentity raws) \<longrightarrow> map_of (clCalls (fold (recordCall env) raws c)) k = map_of (clCalls c) k)"
  using assms
proof (induction raws arbitrary: c)
  case (Cons raw raws)
  let ?c = "recordCall env raw c"
  have "memberString raw ''id'' \<noteq> []" using Cons.prems(1) by (auto simp: callIdentity_def)
  then have one: "clOrder ?c = clOrder c @ [callIdentity raw]" "clRounds ?c = clRounds c"
    "clCalls ?c = AList.update (callIdentity raw) (callEvidence env raw) (clCalls c)"
    by (simp_all add: recordCall_def callEvidence_def callIdentity_def Let_def)
  have "set (map callIdentity raws) \<inter> set (clOrder ?c) = {}" using Cons.prems(2,3) one(1) by auto
  from Cons.IH [OF _ _ this] Cons.prems(1,2) show ?case
    by (simp add: one update_conv')
qed simp

lemma recordResult_fields [simp]:
  "clOrder (recordResult env m c) = clOrder c" "clRounds (recordResult env m c) = clRounds c"
  by (simp_all add: recordResult_def Let_def split: option.split)

lemma recordResult_other:
  "k \<noteq> msgToolCallID m \<Longrightarrow> map_of (clCalls (recordResult env m c)) k = map_of (clCalls c) k"
  by (simp add: recordResult_def Let_def update_conv' split: option.split)

lemma recordResult_keeps:
  "map_of (clCalls c) k = Some e \<Longrightarrow> tvID e = k \<Longrightarrow>
   \<exists>e'. map_of (clCalls (recordResult env m c)) k = Some e' \<and> tvID e' = k \<and> (tvHasResult e \<or> k = msgToolCallID m \<longrightarrow> tvHasResult e')"
  by (cases "k = msgToolCallID m") (auto simp: recordResult_def Let_def update_conv' split: option.split)

lemma collect_tool: "msgRole m = ''tool'' \<Longrightarrow> collectMessage env m c = recordResult env m c"
  by (simp add: collectMessage_def)

lemma fold_results:
  "\<forall>r \<in> set results. msgRole r = ''tool'' \<Longrightarrow>
   clOrder (fold (collectMessage env) results c) = clOrder c \<and> clRounds (fold (collectMessage env) results c) = clRounds c
   \<and> (\<forall>k e. map_of (clCalls c) k = Some e \<longrightarrow> tvID e = k \<longrightarrow>
        (\<exists>e'. map_of (clCalls (fold (collectMessage env) results c)) k = Some e' \<and> tvID e' = k
           \<and> (tvHasResult e \<or> k \<in> set (map msgToolCallID results) \<longrightarrow> tvHasResult e')))"
proof (induction results arbitrary: c)
  case (Cons r rs)
  have step: "collectMessage env r c = recordResult env r c" using Cons.prems by (simp add: collect_tool)
  have "\<forall>r \<in> set rs. msgRole r = ''tool''" using Cons.prems by simp
  note ih = Cons.IH [OF this, of "recordResult env r c"]
  have "\<exists>e'. map_of (clCalls (fold (collectMessage env) rs (recordResult env r c))) k = Some e' \<and> tvID e' = k
           \<and> (tvHasResult e \<or> k \<in> set (map msgToolCallID (r # rs)) \<longrightarrow> tvHasResult e')"
    if k: "map_of (clCalls c) k = Some e" "tvID e = k" for k e
  proof -
    obtain e1 where e1: "map_of (clCalls (recordResult env r c)) k = Some e1" "tvID e1 = k"
      "tvHasResult e \<or> k = msgToolCallID r \<longrightarrow> tvHasResult e1" using recordResult_keeps [OF k, of env r] by blast
    with ih show ?thesis by fastforce
  qed
  with ih show ?case by (simp add: step)
qed auto

text \<open>Calls and rounds of a transcript.\<close>

definition callsOf :: "oaiMsg list \<Rightarrow> string list" where
  "callsOf ms = concat (map (\<lambda>m. if msgRole m = ''assistant'' then callIdentities m else []) ms)"

definition roundsOf :: "oaiMsg list \<Rightarrow> nat" where
  "roundsOf ms = length (filter (\<lambda>m. msgRole m = ''assistant'' \<and> msgToolCalls m \<noteq> []) ms)"

lemma callsOf_results: "\<forall>r \<in> set results. msgRole r = ''tool'' \<Longrightarrow> callsOf (m # results @ ms) = callsOf [m] @ callsOf ms
  \<and> roundsOf (m # results @ ms) = roundsOf [m] + roundsOf ms"
  by (induction results) (auto simp: callsOf_def roundsOf_def)

lemma conversation_collected:
  "protocolRounds used ms \<Longrightarrow> answered c \<Longrightarrow> set (clOrder c) \<subseteq> used \<Longrightarrow>
   answered (fold (collectMessage env) ms c)
   \<and> clOrder (fold (collectMessage env) ms c) = clOrder c @ callsOf ms
   \<and> clRounds (fold (collectMessage env) ms c) = clRounds c + roundsOf ms"
proof (induction arbitrary: c rule: protocolRounds.induct)
  case (Done used)
  then show ?case by (simp add: callsOf_def roundsOf_def)
next
  case (Plain m used ms)
  then have "collectMessage env m c = c" by (simp add: collectMessage_def)
  with Plain show ?case by (simp add: callsOf_def roundsOf_def)
next
  case (Round m used results ms)
  let ?ids = "callIdentities m"
  define c1 where "c1 = fold (recordCall env) (msgToolCalls m) c"
  define c2 where "c2 = collectMessage env m c"
  define c3 where "c3 = fold (collectMessage env) results c2"
  have rec: "clOrder c1 = clOrder c @ ?ids" "clRounds c1 = clRounds c"
    "\<forall>raw \<in> set (msgToolCalls m). map_of (clCalls c1) (callIdentity raw) = Some (callEvidence env raw)"
    "\<forall>k. k \<notin> set ?ids \<longrightarrow> map_of (clCalls c1) k = map_of (clCalls c) k"
    using fold_recordCall [of "msgToolCalls m" c env] Round.hyps(2,3,4) Round.prems(2)
    unfolding c1_def callIdentities_def by blast+
  have has: "hasCall m \<longleftrightarrow> msgToolCalls m \<noteq> []"
    using Round.hyps(2) by (cases "msgToolCalls m") (auto simp: hasCall_def callIdentities_def callIdentity_def list_ex_iff)
  have c2: "clOrder c2 = clOrder c @ ?ids" "clCalls c2 = clCalls c1" "clRounds c2 = clRounds c + roundsOf [m]"
    using Round.hyps(1) rec(1,2) has by (simp_all add: c2_def collectMessage_def c1_def [symmetric] Let_def roundsOf_def)
  have res: "set (map msgToolCallID results) = set ?ids" using Round.hyps(6) by (rule mset_eq_setD)
  have c3: "clOrder c3 = clOrder c @ ?ids" "clRounds c3 = clRounds c + roundsOf [m]"
    "\<And>k e. map_of (clCalls c2) k = Some e \<Longrightarrow> tvID e = k \<Longrightarrow>
      \<exists>e'. map_of (clCalls c3) k = Some e' \<and> tvID e' = k \<and> (tvHasResult e \<or> k \<in> set ?ids \<longrightarrow> tvHasResult e')"
    using fold_results [OF Round.hyps(5), of env c2] c2 res unfolding c3_def by metis+
  have ev: "\<exists>e. map_of (clCalls c2) k = Some e \<and> tvID e = k \<and> (tvHasResult e \<or> k \<in> set ?ids)" if k: "k \<in> set (clOrder c3)" for k
  proof (cases "k \<in> set ?ids")
    case True
    then obtain raw where "raw \<in> set (msgToolCalls m)" "k = callIdentity raw" by (auto simp: callIdentities_def)
    then have "map_of (clCalls c2) k = Some (callEvidence env raw)" "tvID (callEvidence env raw) = k"
      using rec(3) c2(2) by (auto simp: callEvidence_def callIdentity_def Let_def)
    with True show ?thesis by blast
  next
    case False
    with k c3(1) have "k \<in> set (clOrder c)" by auto
    with Round.prems(1) rec(4) False c2(2) show ?thesis unfolding answered_def by metis
  qed
  have "answered c3" unfolding answered_def
  proof
    fix k assume "k \<in> set (clOrder c3)"
    from ev [OF this] obtain e where e: "map_of (clCalls c2) k = Some e" "tvID e = k" "tvHasResult e \<or> k \<in> set ?ids" by blast
    from c3(3) [OF e(1,2)] e(3) show "\<exists>e. map_of (clCalls c3) k = Some e \<and> tvHasResult e \<and> tvID e = k" by blast
  qed
  moreover have "set (clOrder c3) \<subseteq> used \<union> set ?ids" using Round.prems(2) c3(1) by auto
  ultimately have ih: "answered (fold (collectMessage env) ms c3)"
    "clOrder (fold (collectMessage env) ms c3) = clOrder c3 @ callsOf ms"
    "clRounds (fold (collectMessage env) ms c3) = clRounds c3 + roundsOf ms" using Round.IH by blast+
  have "fold (collectMessage env) (m # results @ ms) c = fold (collectMessage env) ms c3" by (simp add: c3_def c2_def)
  moreover have "callsOf [m] = ?ids" using Round.hyps(1) by (simp add: callsOf_def)
  ultimately show ?case using ih c3(1,2) callsOf_results [OF Round.hyps(5), of m ms] by simp
qed

subsection \<open>The tally\<close>

lemma progress_fields [simp]:
  "alCompleted (taLedger (noteProgress e t)) = alCompleted (taLedger t)"
  "alPending (taLedger (noteProgress e t)) = alPending (taLedger t)"
  "alToolRounds (taLedger (noteProgress e t)) = alToolRounds (taLedger t)"
  "alRepeatedFailure (taLedger (noteProgress e t)) = alRepeatedFailure (taLedger t)"
  "taSeenFailure (noteProgress e t) = taSeenFailure t"
  by (simp_all add: noteProgress_def Let_def split: prod.split)

lemma failure_fields [simp]:
  "alCompleted (taLedger (noteFailure e t)) = alCompleted (taLedger t)"
  "alPending (taLedger (noteFailure e t)) = alPending (taLedger t)"
  "alToolRounds (taLedger (noteFailure e t)) = alToolRounds (taLedger t)"
  "alRepeatedCall (taLedger (noteFailure e t)) = alRepeatedCall (taLedger t)"
  "taProgress (noteFailure e t) = taProgress t"
  by (simp_all add: noteFailure_def Let_def)

lemma fold_tally:
  "alCompleted (taLedger (fold tallyEvidence es t)) = alCompleted (taLedger t) @ filter tvHasResult es
   \<and> alPending (taLedger (fold tallyEvidence es t)) = alPending (taLedger t) @ filter (\<lambda>e. \<not> tvHasResult e) es
   \<and> alToolRounds (taLedger (fold tallyEvidence es t)) = alToolRounds (taLedger t)"
  by (induction es arbitrary: t) (simp_all add: tallyEvidence_def Let_def)

text \<open>The results of one call, and the failures of one kind, in the order of the transcript.\<close>

definition resultsFor :: "toolEvidence list \<Rightarrow> string \<Rightarrow> string list" where
  "resultsFor completed sig = map (\<lambda>e. TrimSpace (tvResult e)) (filter (\<lambda>e. callSignature e = sig) completed)"

definition failuresFor :: "toolEvidence list \<Rightarrow> string \<Rightarrow> nat" where
  "failuresFor completed sig = length (filter (\<lambda>e. tvFailed e \<and> failureSignature e = sig) completed)"

definition endsIn :: "string list \<Rightarrow> string \<times> nat \<Rightarrow> bool" where
  "endsIn rs p \<longleftrightarrow> snd p > 0 \<and> (\<exists>pre. rs = pre @ replicate (snd p) (fst p) \<and> (pre = [] \<or> last pre \<noteq> fst p))"

definition callInv :: "toolEvidence list \<Rightarrow> tally \<Rightarrow> bool" where
  "callInv completed t \<longleftrightarrow>
     (\<forall>sig. case map_of (taProgress t) sig of None \<Rightarrow> resultsFor completed sig = [] | Some p \<Rightarrow> endsIn (resultsFor completed sig) p)
   \<and> (alRepeatedCall (taLedger t) \<longleftrightarrow> (\<exists>sig x. sublist [x, x, x] (resultsFor completed sig)))"

definition failureInv :: "toolEvidence list \<Rightarrow> tally \<Rightarrow> bool" where
  "failureInv completed t \<longleftrightarrow>
     (\<forall>sig. getOr 0 (taSeenFailure t) sig = failuresFor completed sig)
   \<and> (alRepeatedFailure (taLedger t) \<longleftrightarrow> (\<exists>sig. failuresFor completed sig \<ge> 2))"

lemma sublist_snoc: "sublist ys (xs @ [x]) \<longleftrightarrow> sublist ys xs \<or> suffix ys (xs @ [x])"
proof -
  have "sublist ys (xs @ [x]) \<longleftrightarrow> sublist (rev ys) (x # rev xs)" by (metis rev_append rev_singleton_conv sublist_rev append_Cons append_Nil)
  also have "\<dots> \<longleftrightarrow> prefix (rev ys) (x # rev xs) \<or> sublist (rev ys) (rev xs)" by (rule sublist_Cons_right)
  finally show ?thesis by (auto simp: suffix_to_prefix)
qed

lemma endsIn_step:
  assumes "case old of None \<Rightarrow> rs = [] | Some p \<Rightarrow> endsIn rs p"
    and "p = (case old of Some (f, n) \<Rightarrow> if n > 0 \<and> f = x then (f, n + 1) else (x, 1) | None \<Rightarrow> (x, 1))"
  shows "endsIn (rs @ [x]) p \<and> fst p = x"
proof (cases old)
  case None
  with assms show ?thesis by (auto simp: endsIn_def)
next
  case (Some q)
  obtain f n where q: "q = (f, n)" by force
  from assms(1) Some q obtain pre where pre: "n > 0" "rs = pre @ replicate n f" "pre = [] \<or> last pre \<noteq> f"
    by (auto simp: endsIn_def)
  show ?thesis
  proof (cases "f = x")
    case True
    with assms(2) Some q pre(1) have "p = (x, Suc n)" by simp
    moreover have "rs @ [x] = pre @ replicate (Suc n) x" using pre(2) True by (simp add: replicate_append_same)
    ultimately show ?thesis using pre(3) True unfolding endsIn_def by auto
  next
    case False
    with assms(2) Some q have "p = (x, 1)" by simp
    moreover have "last rs \<noteq> x" using pre(1,2) False by simp
    ultimately show ?thesis unfolding endsIn_def by auto
  qed
qed

lemma endsIn_three:
  assumes "endsIn rs (f, n)"
  shows "(\<exists>x. suffix [x, x, x] rs) \<longleftrightarrow> 3 \<le> n"
proof -
  obtain pre where pre: "n > 0" "rs = pre @ replicate n f" "pre = [] \<or> last pre \<noteq> f" using assms by (auto simp: endsIn_def)
  show ?thesis
  proof
    assume "3 \<le> n"
    then have "replicate n f = replicate (n - 3) f @ replicate 3 f" by (metis le_add_diff_inverse2 replicate_add)
    then have "suffix [f, f, f] rs" unfolding pre(2) by (simp add: numeral_3_eq_3 suffix_def)
    then show "\<exists>x. suffix [x, x, x] rs" ..
  next
    assume "\<exists>x. suffix [x, x, x] rs"
    then obtain x us where u: "pre @ replicate n f = us @ [x, x, x]" unfolding pre(2) suffix_def by blast
    show "3 \<le> n"
    proof (rule ccontr)
      assume "\<not> 3 \<le> n"
      then consider "n = 1" | "n = 2" using pre(1) by linarith
      then show False
      proof cases
        case 1
        with u have "pre = us @ [x, x]" "x = f" using append_eq_append_conv2 by auto
        with pre(3) show False by simp
      next
        case 2
        with u have "pre = us @ [x]" "x = f" by (simp_all add: numeral_2_eq_2)
        with pre(3) show False by simp
      qed
    qed
  qed
qed

lemma results_snoc:
  "resultsFor (completed @ [e]) sig = resultsFor completed sig @ (if callSignature e = sig then [TrimSpace (tvResult e)] else [])"
  by (simp add: resultsFor_def)

lemma failures_snoc:
  "failuresFor (completed @ [e]) sig = failuresFor completed sig + (if tvFailed e \<and> failureSignature e = sig then 1 else 0)"
  by (simp add: failuresFor_def)

lemma progress_inv:
  assumes inv: "callInv completed t"
  shows "callInv (completed @ [e]) (noteProgress e t)"
proof -
  define sig x where "sig = callSignature e" and "x = TrimSpace (tvResult e)"
  define old where "old = map_of (taProgress t) sig"
  define p where "p = (case old of Some (f, n) \<Rightarrow> if n > 0 \<and> f = x then (f, n + 1) else (x, 1) | None \<Rightarrow> (x, 1))"
  have "case old of None \<Rightarrow> resultsFor completed sig = [] | Some p \<Rightarrow> endsIn (resultsFor completed sig) p"
    using inv by (simp add: callInv_def old_def)
  from endsIn_step [OF this p_def] have e: "endsIn (resultsFor completed sig @ [x]) p" "fst p = x" by simp_all
  have np: "taProgress (noteProgress e t) = AList.update sig p (taProgress t)"
    "alRepeatedCall (taLedger (noteProgress e t)) \<longleftrightarrow> alRepeatedCall (taLedger t) \<or> 3 \<le> snd p"
    unfolding noteProgress_def Let_def sig_def [symmetric] x_def [symmetric]
    by (auto simp: p_def old_def getOr_def split: option.splits prod.splits if_splits)
  have three: "(\<exists>y. suffix [y, y, y] (resultsFor completed sig @ [x])) \<longleftrightarrow> 3 \<le> snd p"
    by (rule endsIn_three [of _ "fst p" "snd p"]) (simp add: e(1))
  have "sublist [y, y, y] (resultsFor (completed @ [e]) s)
      \<longleftrightarrow> sublist [y, y, y] (resultsFor completed s) \<or> s = sig \<and> suffix [y, y, y] (resultsFor completed sig @ [x])" for s y
    by (cases "s = sig") (simp_all add: results_snoc sig_def x_def sublist_snoc del: sublist_Cons_right sublist_code)
  then have "(\<exists>s y. sublist [y, y, y] (resultsFor (completed @ [e]) s))
      \<longleftrightarrow> (\<exists>s y. sublist [y, y, y] (resultsFor completed s)) \<or> (\<exists>y. suffix [y, y, y] (resultsFor completed sig @ [x]))"
    by blast
  moreover have "case map_of (AList.update sig p (taProgress t)) s of None \<Rightarrow> resultsFor (completed @ [e]) s = []
      | Some q \<Rightarrow> endsIn (resultsFor (completed @ [e]) s) q" for s
  proof (cases "s = sig")
    case True
    with e(1) show ?thesis by (simp add: results_snoc sig_def x_def update_conv')
  next
    case False
    then have "resultsFor (completed @ [e]) s = resultsFor completed s" by (simp add: results_snoc sig_def)
    moreover have "case map_of (taProgress t) s of None \<Rightarrow> resultsFor completed s = [] | Some q \<Rightarrow> endsIn (resultsFor completed s) q"
      using inv by (simp add: callInv_def)
    ultimately show ?thesis using False by (auto simp: update_conv' split: option.splits)
  qed
  ultimately show ?thesis using inv three unfolding callInv_def np by simp
qed

lemma failure_inv:
  assumes inv: "failureInv completed t"
  shows "failureInv (completed @ [e]) (noteFailure e t)"
proof (cases "tvFailed e")
  case False
  with inv show ?thesis by (simp add: noteFailure_def failureInv_def failures_snoc)
next
  case True
  define sig where "sig = failureSignature e"
  have n: "getOr 0 (taSeenFailure t) s = failuresFor completed s" for s using inv by (simp add: failureInv_def)
  have r: "alRepeatedFailure (taLedger (noteFailure e t)) \<longleftrightarrow> alRepeatedFailure (taLedger t) \<or> 2 \<le> failuresFor (completed @ [e]) sig"
    using True n by (simp add: noteFailure_def Let_def sig_def failures_snoc)
  have "2 \<le> failuresFor (completed @ [e]) s
      \<longleftrightarrow> 2 \<le> failuresFor completed s \<or> s = sig \<and> 2 \<le> failuresFor (completed @ [e]) sig" for s
    by (auto simp: failures_snoc sig_def)
  then have "(\<exists>s. 2 \<le> failuresFor (completed @ [e]) s) \<longleftrightarrow> (\<exists>s. 2 \<le> failuresFor completed s) \<or> 2 \<le> failuresFor (completed @ [e]) sig"
    by blast
  moreover have "getOr 0 (taSeenFailure (noteFailure e t)) s = failuresFor (completed @ [e]) s" for s
    using True n [of s] n [of sig] by (simp add: noteFailure_def Let_def failures_snoc sig_def getOr_def update_conv')
  ultimately show ?thesis using inv r by (simp add: failureInv_def)
qed

lemma callInv_frame: "taProgress t' = taProgress t \<Longrightarrow> alRepeatedCall (taLedger t') = alRepeatedCall (taLedger t) \<Longrightarrow>
  callInv completed t' = callInv completed t"
  by (simp add: callInv_def)

lemma failureInv_frame: "taSeenFailure t' = taSeenFailure t \<Longrightarrow> alRepeatedFailure (taLedger t') = alRepeatedFailure (taLedger t) \<Longrightarrow>
  failureInv completed t' = failureInv completed t"
  by (simp add: failureInv_def)

lemma tally_inv:
  "callInv completed t \<Longrightarrow> failureInv completed t \<Longrightarrow>
   callInv (completed @ filter tvHasResult es) (fold tallyEvidence es t)
   \<and> failureInv (completed @ filter tvHasResult es) (fold tallyEvidence es t)"
proof (induction es arbitrary: completed t)
  case (Cons e es)
  show ?case
  proof (cases "tvHasResult e")
    case False
    then have "callInv completed (tallyEvidence e t)" "failureInv completed (tallyEvidence e t)"
      using Cons.prems by (simp_all add: tallyEvidence_def callInv_def failureInv_def Let_def)
    from Cons.IH [OF this] False show ?thesis by simp
  next
    case True
    define t0 where "t0 = t\<lparr>taLedger := (taLedger t)\<lparr>alCompleted := alCompleted (taLedger t) @ [e]\<rparr>\<rparr>"
    have t: "tallyEvidence e t = noteFailure e (noteProgress e t0)" using True by (simp add: tallyEvidence_def t0_def Let_def)
    have i: "callInv completed t0" "failureInv completed t0"
      using Cons.prems by (simp_all add: t0_def callInv_def failureInv_def)
    have "callInv (completed @ [e]) (tallyEvidence e t)"
      unfolding t using progress_inv [OF i(1)] by (simp add: callInv_def)
    moreover have "failureInv (completed @ [e]) (tallyEvidence e t)"
      unfolding t by (rule failure_inv) (use i(2) in \<open>simp add: failureInv_def\<close>)
    ultimately show ?thesis using Cons.IH [of "completed @ [e]"] True by simp
  qed
qed simp

lemma ledger_fields:
  "alCompleted (buildAgentLedger env ms) = filter tvHasResult (evidenceOf (collect env ms))"
  "alPending (buildAgentLedger env ms) = filter (\<lambda>e. \<not> tvHasResult e) (evidenceOf (collect env ms))"
  "alToolRounds (buildAgentLedger env ms) = clRounds (collect env ms)"
  by (simp_all add: buildAgentLedger_def Let_def fold_tally emptyTally_def)

text \<open>C24: the ledger detects loops exactly. It reports a repeated failure just when two completed calls failed with the
  same name, arguments and normalized failure text, and a repeated call just when some call, by name and
  arguments, has three results in a row that are equal up to surrounding white space, whatever other calls lie
  between them.\<close>

theorem ledger_detects_repetition:
  "(alRepeatedFailure (buildAgentLedger env ms) \<longleftrightarrow>
      (\<exists>sig. failuresFor (alCompleted (buildAgentLedger env ms)) sig \<ge> 2))
   \<and> (alRepeatedCall (buildAgentLedger env ms) \<longleftrightarrow>
      (\<exists>sig x. sublist [x, x, x] (resultsFor (alCompleted (buildAgentLedger env ms)) sig)))"
proof -
  have "callInv [] (emptyTally n)" "failureInv [] (emptyTally n)" for n
    by (simp_all add: callInv_def failureInv_def emptyTally_def resultsFor_def failuresFor_def getOr_def)
  from tally_inv [OF this, of "evidenceOf (collect env ms)"] show ?thesis
    unfolding ledger_fields(1) by (simp add: callInv_def failureInv_def buildAgentLedger_def Let_def)
qed

subsection \<open>The ledger of a checked conversation\<close>

lemma conversation_append:
  "protocolRounds used ms \<Longrightarrow> ms = pre @ u # post \<Longrightarrow> msgRole u \<notin> {''assistant'', ''tool''} \<Longrightarrow>
   \<exists>used'. protocolRounds used' (u # post)"
proof (induction arbitrary: pre rule: protocolRounds.induct)
  case (Plain m used ms)
  show ?case
  proof (cases pre)
    case Nil
    with Plain show ?thesis using protocolRounds.Plain [OF Plain.hyps(1,2)] by auto
  next
    case (Cons x xs)
    with Plain.prems have "ms = xs @ u # post" by simp
    from Plain.IH [OF this Plain.prems(2)] show ?thesis .
  qed
next
  case (Round m used results ms)
  then obtain x xs where pre: "pre = x # xs" by (cases pre) auto
  with Round.prems have split: "results @ ms = xs @ u # post" by simp
  have "length results \<le> length xs"
  proof (rule ccontr)
    assume "\<not> length results \<le> length xs"
    then have "u \<in> set results" using split by (metis append_eq_append_conv_if nth_append_length nth_mem not_le nth_append)
    with Round.hyps(5) Round.prems(2) show False by auto
  qed
  then have "ms = drop (length results) xs @ u # post" using split by (metis append_eq_append_conv_if append_eq_conv_conj)
  from Round.IH [OF this Round.prems(2)] show ?case .
qed simp

lemma lastUser_bounds: "lastUserIndex i ms = Some j \<Longrightarrow> i \<le> j \<and> j < i + length ms \<and> msgRole (ms ! (j - i)) = ''user''"
proof (induction ms arbitrary: i)
  case (Cons m ms)
  show ?case
  proof (cases "lastUserIndex (i + 1) ms")
    case (Some k)
    with Cons.prems have "k = j" by simp
    with Cons.IH [of "i + 1"] Some show ?thesis by (auto simp: nth_Cons' split: if_splits)
  next
    case None
    with Cons.prems show ?thesis by (auto split: if_splits)
  qed
qed simp

lemma active_conversation:
  assumes "protocolRounds used ms"
  shows "\<exists>used'. protocolRounds used' (activeMessages ms)"
proof (cases "lastUserIndex 0 ms")
  case (Some j)
  from lastUser_bounds [OF this] have j: "j < length ms" "msgRole (ms ! j) = ''user''" by simp_all
  then have "ms = take j ms @ ms ! j # drop (Suc j) ms" by (simp add: id_take_nth_drop)
  from conversation_append [OF assms this] j obtain used' where "protocolRounds used' (drop j ms)"
    by (auto simp: Cons_nth_drop_Suc)
  with Some assms show ?thesis by (auto simp: activeMessages_def)
qed (use assms in \<open>auto simp: activeMessages_def\<close>)

text \<open>A transcript that passes the protocol check leaves nothing open. The ledger of its active messages has no
  pending call, its completed calls are exactly the calls of the assistant messages there, in order, and its rounds
  are the assistant messages with calls; so the check for pending results that follows it never refuses a request.\<close>

lemma checked_conversation_has_no_pending:
  assumes "validateToolConversation messages = None"
  shows "alPending (buildAgentLedger env (activeMessages messages)) = []
    \<and> map tvID (alCompleted (buildAgentLedger env (activeMessages messages))) = callsOf (activeMessages messages)
    \<and> alToolRounds (buildAgentLedger env (activeMessages messages)) = roundsOf (activeMessages messages)"
proof -
  have "protocolRounds {} messages"
    using assms checked_conversation [of 0 messages "[]"] by (simp add: validateToolConversation_def)
  from active_conversation [OF this] obtain used where conv: "protocolRounds used (activeMessages messages)" ..
  let ?c = "collect env (activeMessages messages)"
  have "answered \<lparr>clCalls = [], clOrder = [], clRounds = 0\<rparr>" by (simp add: answered_def)
  from conversation_collected [OF conv this, of env]
  have c: "answered ?c" "clOrder ?c = callsOf (activeMessages messages)" "clRounds ?c = roundsOf (activeMessages messages)"
    by (simp_all add: collect_def)
  have all: "\<forall>e \<in> set (evidenceOf ?c). tvHasResult e"
    using c(1) by (auto simp: evidenceOf_def answered_def getOr_def)
  have "map tvID (evidenceOf ?c) = clOrder ?c"
    using c(1) by (auto simp: evidenceOf_def answered_def getOr_def intro!: map_idI)
  with all c show ?thesis by (simp add: ledger_fields)
qed

definition oneCall :: "(string \<times> json) list" where
  "oneCall = [(''id'', JStr ''c1''), (''function'', JObj [(''name'', JStr ''ls''), (''arguments'', JStr ''{}'')])]"

definition oneRound :: "oaiMsg list" where
  "oneRound = [emptyMsg\<lparr>msgRole := ''user'', msgContent := JStr ''list''\<rparr>,
               emptyMsg\<lparr>msgRole := ''assistant'', msgToolCalls := [oneCall]\<rparr>,
               emptyMsg\<lparr>msgRole := ''tool'', msgContent := JStr ''a.txt'', msgToolCallID := ''c1''\<rparr>]"

definition noEnv :: ledgerEnv where
  "noEnv = \<lparr>leUnmarshal = (\<lambda>_. None), leSprint = (\<lambda>_. []), leNumber = (\<lambda>_. None), leHash = (\<lambda>_. [])\<rparr>"

lemma checked_conversation_has_no_pending_witness:
  "alPending (buildAgentLedger noEnv (activeMessages oneRound)) = []
   \<and> map tvID (alCompleted (buildAgentLedger noEnv (activeMessages oneRound))) = [''c1'']"
proof -
  have "validateToolConversation oneRound = None" by code_simp
  moreover have "callsOf (activeMessages oneRound) = [''c1'']" by code_simp
  ultimately show ?thesis using checked_conversation_has_no_pending [of oneRound noEnv] by simp
qed

subsection \<open>Blocked calls\<close>

text \<open>A completed call that the ledger reports as repeated.\<close>

definition repeats :: "toolEvidence list \<Rightarrow> toolEvidence \<Rightarrow> bool" where
  "repeats completed e \<longleftrightarrow> e \<in> set completed \<and>
     (2 \<le> failuresFor completed (failureSignature e) \<or> (\<exists>x. sublist [x, x, x] (resultsFor completed (callSignature e))))"

definition flagged :: "agentLedger \<Rightarrow> bool" where
  "flagged l \<longleftrightarrow> alRepeatedCall l \<or> alRepeatedFailure l"

definition signatureInv :: "toolEvidence list \<Rightarrow> agentLedger \<Rightarrow> bool" where
  "signatureInv completed l \<longleftrightarrow> (flagged l \<longleftrightarrow> alRepetitionSignature l \<noteq> [])
     \<and> (flagged l \<longrightarrow> (\<exists>e. repeats completed e \<and> alRepetitionSignature l \<in> {callSignature e, failureSignature e}))"

lemma repeats_snoc:
  assumes "repeats completed e"
  shows "repeats (completed @ [e']) e"
proof -
  have "failuresFor completed sig \<le> failuresFor (completed @ [e']) sig" for sig by (simp add: failures_snoc)
  moreover have "sublist ys (resultsFor completed sig) \<Longrightarrow> sublist ys (resultsFor (completed @ [e']) sig)" for ys sig
    by (simp add: results_snoc sublist_appendI sublist_order.order_trans [of ys "resultsFor completed sig"])
  ultimately show ?thesis using assms unfolding repeats_def
    by (metis Un_iff le_trans set_append)
qed

lemma signature_nonempty [simp]: "callSignature e \<noteq> []" "failureSignature e \<noteq> []"
  by (simp_all add: callSignature_def failureSignature_def)

lemma progress_cases:
  "\<exists>p. map_of (taProgress (noteProgress e t)) (callSignature e) = Some p
     \<and> taLedger (noteProgress e t) =
        (if 3 \<le> snd p then (taLedger t)\<lparr>alRepeatedCall := True, alRepetitionSignature :=
           (if alRepetitionSignature (taLedger t) = [] then callSignature e else alRepetitionSignature (taLedger t))\<rparr>
         else taLedger t)"
proof -
  obtain f n where g: "getOr ([], 0) (taProgress t) (callSignature e) = (f, n)" by force
  show ?thesis
    by (intro exI [of _ "if n > 0 \<and> f = TrimSpace (tvResult e) then (f, n + 1) else (TrimSpace (tvResult e), 1)"])
       (simp add: noteProgress_def Let_def g update_conv')
qed

lemma signatureInv_frame:
  "alRepeatedCall l' = alRepeatedCall l \<Longrightarrow> alRepeatedFailure l' = alRepeatedFailure l \<Longrightarrow>
   alRepetitionSignature l' = alRepetitionSignature l \<Longrightarrow> signatureInv completed l' = signatureInv completed l"
  by (simp add: signatureInv_def flagged_def)

lemma failure_cases:
  "taLedger (noteFailure e t) =
     (if tvFailed e \<and> 2 \<le> getOr 0 (taSeenFailure (noteFailure e t)) (failureSignature e)
      then (taLedger t)\<lparr>alRepeatedFailure := True, alRepetitionSignature := failureSignature e\<rparr> else taLedger t)"
  by (simp add: noteFailure_def Let_def)

lemma progress_signature:
  assumes inv: "callInv (completed @ [e]) (noteProgress e t)" and old: "signatureInv completed (taLedger t)"
  shows "signatureInv (completed @ [e]) (taLedger (noteProgress e t))"
proof -
  obtain p where p: "map_of (taProgress (noteProgress e t)) (callSignature e) = Some p"
    "taLedger (noteProgress e t) =
        (if 3 \<le> snd p then (taLedger t)\<lparr>alRepeatedCall := True, alRepetitionSignature :=
           (if alRepetitionSignature (taLedger t) = [] then callSignature e else alRepetitionSignature (taLedger t))\<rparr>
         else taLedger t)" using progress_cases by blast
  have old': "flagged (taLedger t) \<Longrightarrow>
      \<exists>d. repeats (completed @ [e]) d \<and> alRepetitionSignature (taLedger t) \<in> {callSignature d, failureSignature d}"
    using old repeats_snoc unfolding signatureInv_def by meson
  show ?thesis
  proof (cases "3 \<le> snd p")
    case False
    then have "taLedger (noteProgress e t) = taLedger t" using p(2) by simp
    with old' old show ?thesis by (simp add: signatureInv_def)
  next
    case True
    have "case map_of (taProgress (noteProgress e t)) (callSignature e) of None \<Rightarrow> resultsFor (completed @ [e]) (callSignature e) = []
        | Some q \<Rightarrow> endsIn (resultsFor (completed @ [e]) (callSignature e)) q" using inv by (simp add: callInv_def)
    then have "endsIn (resultsFor (completed @ [e]) (callSignature e)) (fst p, snd p)" by (simp add: p(1))
    from endsIn_three [OF this] True obtain x where "suffix [x, x, x] (resultsFor (completed @ [e]) (callSignature e))" by blast
    then have "repeats (completed @ [e]) e" by (auto simp: repeats_def intro: suffix_imp_sublist)
    with True p(2) old old' show ?thesis by (auto simp: signatureInv_def flagged_def)
  qed
qed

lemma failure_signature:
  assumes inv: "failureInv (completed @ [e]) (noteFailure e t)" and old: "signatureInv (completed @ [e]) (taLedger t)"
  shows "signatureInv (completed @ [e]) (taLedger (noteFailure e t))"
proof (cases "tvFailed e \<and> 2 \<le> getOr 0 (taSeenFailure (noteFailure e t)) (failureSignature e)")
  case False
  have "taLedger (noteFailure e t) = taLedger t" by (subst failure_cases) (simp only: False if_False)
  with old show ?thesis by simp
next
  case True
  with inv have "2 \<le> failuresFor (completed @ [e]) (failureSignature e)" by (simp add: failureInv_def)
  then have "repeats (completed @ [e]) e" by (simp add: repeats_def)
  with True failure_cases [of e t] show ?thesis by (auto simp: signatureInv_def flagged_def)
qed

lemma tally_signature:
  "callInv completed t \<Longrightarrow> failureInv completed t \<Longrightarrow> signatureInv completed (taLedger t) \<Longrightarrow>
   signatureInv (completed @ filter tvHasResult es) (taLedger (fold tallyEvidence es t))"
proof (induction es arbitrary: completed t)
  case (Cons e es)
  show ?case
  proof (cases "tvHasResult e")
    case False
    then have "callInv completed (tallyEvidence e t)" "failureInv completed (tallyEvidence e t)"
      using Cons.prems(1,2) by (simp_all add: tallyEvidence_def callInv_def failureInv_def Let_def)
    moreover have "signatureInv completed (taLedger (tallyEvidence e t))"
      using Cons.prems(3) False by (subst signatureInv_frame [where l = "taLedger t"]) (simp_all add: tallyEvidence_def Let_def)
    ultimately have "callInv completed (tallyEvidence e t)" "failureInv completed (tallyEvidence e t)"
      "signatureInv completed (taLedger (tallyEvidence e t))" by blast+
    from Cons.IH [OF this] False show ?thesis by simp
  next
    case True
    let ?all = "completed @ [e]"
    have inv: "callInv ?all (tallyEvidence e t)" "failureInv ?all (tallyEvidence e t)"
      using tally_inv [OF Cons.prems(1,2), of "[e]"] True by simp_all
    define t0 where "t0 = t\<lparr>taLedger := (taLedger t)\<lparr>alCompleted := alCompleted (taLedger t) @ [e]\<rparr>\<rparr>"
    have t: "tallyEvidence e t = noteFailure e (noteProgress e t0)" using True by (simp add: tallyEvidence_def t0_def Let_def)
    have i: "callInv completed t0" using Cons.prems(1) by (simp add: t0_def callInv_def)
    have j: "signatureInv completed (taLedger t0)" using Cons.prems(3) by (subst signatureInv_frame [where l = "taLedger t"]) (simp_all add: t0_def)
    have "signatureInv ?all (taLedger (noteProgress e t0))"
      by (rule progress_signature [OF progress_inv [OF i] j])
    then have "signatureInv ?all (taLedger (tallyEvidence e t))"
      unfolding t by (rule failure_signature [OF inv(2) [unfolded t]])
    from Cons.IH [OF inv this] True show ?thesis by simp
  qed
qed simp

lemma takeWhile_NUL: "NUL \<notin> set xs \<Longrightarrow> takeWhile (\<lambda>c. c \<noteq> NUL) (xs @ NUL # ys) = xs"
  and dropWhile_NUL: "NUL \<notin> set xs \<Longrightarrow> dropWhile (\<lambda>c. c \<noteq> NUL) (xs @ NUL # ys) = NUL # ys"
  by (induction xs) auto

lemma signature_parts:
  assumes "NUL \<notin> set (tvName e)" and "NUL \<notin> set (tvArguments e)" and "sig \<in> {callSignature e, failureSignature e}"
  shows "signatureParts sig = Some (tvName e, tvArguments e)"
proof -
  have "takeWhile (\<lambda>c. c \<noteq> NUL) (tvArguments e) = tvArguments e" using assms(2) by (simp add: takeWhile_eq_all_conv) metis
  then show ?thesis
    using assms by (auto simp: signatureParts_def callSignature_def failureSignature_def takeWhile_NUL dropWhile_NUL)
qed

lemma removeBlocked_filter:
  "removeBlocked env l calls =
     (filter (\<lambda>c. \<not> blocksRepeatedToolCall env l (callName c) (callArguments c)) calls,
      length (filter (\<lambda>c. blocksRepeatedToolCall env l (callName c) (callArguments c)) calls))"
  by (induction calls) simp_all

definition sameCall :: "ledgerEnv \<Rightarrow> toolEvidence \<Rightarrow> detectedToolCall \<Rightarrow> bool" where
  "sameCall env e c \<longleftrightarrow> callName c = tvName e
     \<and> normalizeToolArguments env (callArguments c) = normalizeToolArguments env (tvArguments e)"

text \<open>A tool loop is broken. When the ledger of a transcript reports a repetition, there is a completed call that
  did repeat (twice the same failure, or three equal results in a row) such that of the new calls exactly those
  with its name and, after normalization, its arguments are removed; the order of the others and the number of
  the removed ones are right. Without a repetition no call is removed. (Names and arguments have no NUL byte,
  the separator of a signature.)\<close>

lemma repeated_calls_removed:
  assumes "\<forall>e \<in> set (alCompleted (buildAgentLedger env ms)). NUL \<notin> set (tvName e) \<and> NUL \<notin> set (tvArguments e)"
  shows "if flagged (buildAgentLedger env ms)
    then \<exists>e. repeats (alCompleted (buildAgentLedger env ms)) e
      \<and> removeRepeatedToolCalls env calls (buildAgentLedger env ms)
          = (filter (\<lambda>c. \<not> sameCall env e c) calls, length (filter (sameCall env e) calls))
    else removeRepeatedToolCalls env calls (buildAgentLedger env ms) = (calls, 0)"
proof (cases "flagged (buildAgentLedger env ms)")
  case False
  then show ?thesis by (simp add: removeRepeatedToolCalls_def flagged_def)
next
  case True
  let ?l = "buildAgentLedger env ms"
  have "callInv [] (emptyTally n)" "failureInv [] (emptyTally n)" "signatureInv [] (taLedger (emptyTally n))" for n
    by (simp_all add: callInv_def failureInv_def signatureInv_def flagged_def emptyTally_def resultsFor_def failuresFor_def getOr_def)
  from tally_signature [OF this, of "evidenceOf (collect env ms)"]
  have "signatureInv (alCompleted ?l) ?l" unfolding ledger_fields(1) by (simp add: buildAgentLedger_def Let_def)
  with True obtain e where e: "repeats (alCompleted ?l) e" "alRepetitionSignature ?l \<in> {callSignature e, failureSignature e}"
    unfolding signatureInv_def by blast
  have "e \<in> set (alCompleted ?l)" using e(1) by (simp add: repeats_def)
  with assms have "signatureParts (alRepetitionSignature ?l) = Some (tvName e, tvArguments e)"
    using signature_parts [OF _ _ e(2)] by blast
  moreover have "alRepetitionSignature ?l \<noteq> []" using e(2) by auto
  ultimately have "blocksRepeatedToolCall env ?l (callName c) (callArguments c) \<longleftrightarrow> sameCall env e c" for c
    using True by (auto simp: blocksRepeatedToolCall_def sameCall_def flagged_def)
  then have "removeRepeatedToolCalls env calls ?l = (filter (\<lambda>c. \<not> sameCall env e c) calls, length (filter (sameCall env e) calls))"
    using True by (auto simp: removeRepeatedToolCalls_def removeBlocked_filter flagged_def)
  with e(1) True show ?thesis by auto
qed


definition failingRound :: "string \<Rightarrow> oaiMsg list" where
  "failingRound cid =
     [emptyMsg\<lparr>msgRole := ''assistant'', msgToolCalls := [AList.update ''id'' (JStr cid) oneCall]\<rparr>,
      emptyMsg\<lparr>msgRole := ''tool'', msgContent := JObj [(''isError'', JBool True)], msgToolCallID := cid\<rparr>]"

definition twoFailures :: "oaiMsg list" where
  "twoFailures = failingRound ''c1'' @ failingRound ''c2''"

lemma two_failures:
  "flagged (buildAgentLedger noEnv twoFailures)"
  "\<forall>e \<in> set (alCompleted (buildAgentLedger noEnv twoFailures)). tvName e = ''ls'' \<and> tvArguments e = ''{}''"
  by code_simp+

lemma repeated_calls_removed_witness:
  "fst (removeRepeatedToolCalls noEnv [\<lparr>callID = ''c3'', callName = ''ls'', callArguments = ''{}''\<rparr>]
     (buildAgentLedger noEnv twoFailures)) = []"
proof -
  let ?l = "buildAgentLedger noEnv twoFailures" and ?calls = "[\<lparr>callID = ''c3'', callName = ''ls'', callArguments = ''{}''\<rparr>]"
  have "\<forall>e \<in> set (alCompleted ?l). NUL \<notin> set (tvName e) \<and> NUL \<notin> set (tvArguments e)"
    using two_failures(2) by (auto simp: NUL_def)
  from repeated_calls_removed [OF this, of ?calls] two_failures(1) obtain e where e: "repeats (alCompleted ?l) e"
    "removeRepeatedToolCalls noEnv ?calls ?l = (filter (\<lambda>c. \<not> sameCall noEnv e c) ?calls, length (filter (sameCall noEnv e) ?calls))"
    by auto
  have "tvName e = ''ls''" "tvArguments e = ''{}''" using e(1) two_failures(2) by (auto simp: repeats_def)
  then show ?thesis using e(2) by (simp add: sameCall_def)
qed

end
