(* ===== verification/PromptBudget.thy ===== *)
theory PromptBudget
  imports ModelCapabilities ToolSchema
begin

text \<open>
  The text that is sent upstream and the budget it must fit: internal/web/multimodal.go, prompt.go and
  prompt_budget.go. The tokenizer, fmt.Sprint of odd contents, the encoding of the tools (raw JSON) and the
  environment are arguments; token counts are unbounded integers.
\<close>

subsection \<open>Contents\<close>

record attachment =
  attType :: string
  attURL :: string
  attName :: string
  attMimeType :: string

definition imageAttachment :: "string \<Rightarrow> attachment" where
  "imageAttachment url = \<lparr>attType = ''image'', attURL = url, attName = [], attMimeType = ''image/*''\<rparr>"

definition parsePart :: "json \<Rightarrow> string \<times> attachment list" where
  "parsePart raw =
     (case raw of
        JObj m \<Rightarrow>
          (let t = memberString m ''type''
           in if t \<in> {''text'', ''input_text''} then (memberString m ''text'', [])
              else if t \<in> {''image_url'', ''input_image''} then
                (case member m ''image_url'' of
                   JStr url \<Rightarrow> ([], [imageAttachment url])
                 | JObj u \<Rightarrow> (case map_of u ''url'' of Some (JStr url) \<Rightarrow> ([], [imageAttachment url]) | _ \<Rightarrow> ([], []))
                 | _ \<Rightarrow> ([], []))
              else if t = ''image'' then
                (case map_of m ''url'' of Some (JStr url) \<Rightarrow> ([], [imageAttachment url]) | _ \<Rightarrow> ([], []))
              else if t \<in> {''file'', ''input_file''} then
                ([], [\<lparr>attType = ''file'', attURL = memberString m ''file_id'', attName = memberString m ''filename'',
                       attMimeType = memberString m ''mime_type''\<rparr>])
              else ([], []))
      | _ \<Rightarrow> ([], []))"

definition parseContent :: "(json \<Rightarrow> string) \<Rightarrow> json \<Rightarrow> string \<times> attachment list" where
  "parseContent sprint c =
     (case c of
        JNull \<Rightarrow> ([], [])
      | JStr s \<Rightarrow> (s, [])
      | JArr parts \<Rightarrow> (concat (map (fst \<circ> parsePart) parts), concat (map (snd \<circ> parsePart) parts))
      | _ \<Rightarrow> (sprint c, []))"

subsection \<open>The prompt\<close>

definition bracketed :: "string \<Rightarrow> string \<Rightarrow> string" where
  "bracketed label txt = newline @ ''['' @ label @ '']'' @ newline @ txt @ newline"

definition roleOf :: "oaiMsg \<Rightarrow> string" where
  "roleOf m = ToLower (TrimSpace (msgRole m))"

definition renderPromptMessage :: "(json \<Rightarrow> string) \<Rightarrow> oaiMsg \<Rightarrow> string \<times> attachment list" where
  "renderPromptMessage sprint m =
     (let role = (if roleOf m = [] then ''user'' else roleOf m);
          (txt, files) = parseContent sprint (msgContent m);
          txt = TrimSpace txt
      in if msgToolCalls m \<noteq> [] then
           ((if txt \<noteq> [] then bracketed role txt else [])
            @ bracketed (role @ '' tool_calls'') (mustJSON (JArr (map JObj (msgToolCalls m)))), files)
         else if role = ''tool'' then (bracketed (''tool result id='' @ msgToolCallID m) txt, files)
         else if txt = [] then ([], files)
         else (bracketed role txt, files))"

record flattened =
  flInstructions :: "string list"
  flTranscript :: string
  flFinal :: string
  flLastRole :: string
  flAttachments :: "attachment list"

definition isInstructionRole :: "string \<Rightarrow> bool" where
  "isInstructionRole role \<longleftrightarrow> role = ''system'' \<or> role = ''developer''"

definition flattenStep :: "(json \<Rightarrow> string) \<Rightarrow> bool \<Rightarrow> oaiMsg \<Rightarrow> flattened \<Rightarrow> flattened" where
  "flattenStep sprint final m f =
     (if isInstructionRole (roleOf m) then
        (let (txt, files) = parseContent sprint (msgContent m); txt = TrimSpace txt
         in f\<lparr>flAttachments := flAttachments f @ files,
              flInstructions := flInstructions f @ (if txt = [] then [] else [txt])\<rparr>)
      else if final then
        (let (txt, files) = parseContent sprint (msgContent m)
         in f\<lparr>flAttachments := flAttachments f @ files, flFinal := TrimSpace txt\<rparr>)
      else
        (let (chunk, files) = renderPromptMessage sprint m
         in f\<lparr>flAttachments := flAttachments f @ files, flTranscript := flTranscript f @ chunk,
              flLastRole := (if blank chunk then flLastRole f else roleOf m)\<rparr>))"

fun joinStrings :: "string \<Rightarrow> string list \<Rightarrow> string" where
  "joinStrings sep [] = []"
| "joinStrings sep [x] = x"
| "joinStrings sep (x # y # xs) = x @ sep @ joinStrings sep (y # xs)"

definition finalUser :: "oaiMsg list \<Rightarrow> bool" where
  "finalUser ms \<longleftrightarrow> ms \<noteq> [] \<and> EqualFold (TrimSpace (msgRole (last ms))) ''user'' \<and> msgToolCalls (last ms) = []"

definition flattenAll :: "(json \<Rightarrow> string) \<Rightarrow> oaiMsg list \<Rightarrow> attachment list \<Rightarrow> flattened" where
  "flattenAll sprint ms attachments =
     (let start = \<lparr>flInstructions = [], flTranscript = [], flFinal = [], flLastRole = [], flAttachments = attachments\<rparr>
      in if finalUser ms then flattenStep sprint True (last ms) (fold (flattenStep sprint False) (butlast ms) start)
         else fold (flattenStep sprint False) ms start)"

definition promptContext :: "flattened \<Rightarrow> string list" where
  "promptContext f =
     (if flInstructions f = [] then [] else [''System instructions:'' @ newline @ joinStrings newline (flInstructions f)])
     @ (let history = TrimSpace (flTranscript f);
            header = (if flLastRole f = ''tool'' then ''Conversation transcript and current tool evidence:''
                      else ''Prior conversation transcript:'')
        in if history = [] then [] else [header @ newline @ history])
     @ (if flFinal f = [] \<and> flLastRole f = ''tool''
        then [''Please provide the complete final response to the user'' @ [CHR 0x27]
              @ ''s request based on the tool execution evidence above.''] else [])"

definition flattenPromptMessages ::
  "(json \<Rightarrow> string) \<Rightarrow> oaiMsg list \<Rightarrow> attachment list \<Rightarrow> string \<times> attachment list" where
  "flattenPromptMessages sprint ms attachments =
     (let f = flattenAll sprint ms attachments;
          context = joinStrings (newline @ newline) (promptContext f)
      in (if flFinal f = [] then TrimSpace context
          else if promptContext f = [] then flFinal f
          else TrimSpace (context @ newline @ newline @ ''---'' @ newline @ newline @ flFinal f),
          flAttachments f))"

end
