(* ===== verification/PromptSelect.thy ===== *)
theory PromptSelect
  imports PromptBudget
begin

text \<open>
  The selection of messages under the input budget, internal/web/prompt_budget.go: units that keep a tool call
  with its results, the order in which they are admitted, and the errors.
\<close>

subsection \<open>Constants and environment\<close>

definition defaultInputBudgetTokens :: int where
  "defaultInputBudgetTokens = 96000"

definition promptBudgetReserveTokens :: int where
  "promptBudgetReserveTokens = 2048"

definition minimumPromptBudgetTokens :: int where
  "minimumPromptBudgetTokens = 8192"

definition defaultContinuingHistoryShare :: int where
  "defaultContinuingHistoryShare = 60"

definition maxTaskAnchorUnits :: nat where
  "maxTaskAnchorUnits = 4"

definition maxTaskAnchorTokens :: int where
  "maxTaskAnchorTokens = 4096"

record budgetEnv =
  beEncode :: "string \<Rightarrow> nat option"
  beSettings :: runtimeSettings
  beEnviron :: environment
  beSprint :: "json \<Rightarrow> string"
  beTools :: "offeredTool list \<Rightarrow> string"

definition configuredContinuingHistoryShare :: "budgetEnv \<Rightarrow> int" where
  "configuredContinuingHistoryShare env =
     (case ParseInt (TrimSpace (Getenv (beEnviron env) ''M365_CONTINUING_HISTORY_SHARE'')) of
        Some n \<Rightarrow> if n \<ge> 0 \<and> n \<le> 100 then n else defaultContinuingHistoryShare
      | None \<Rightarrow> defaultContinuingHistoryShare)"

definition configuredInputBudgetTokens :: "budgetEnv \<Rightarrow> string \<Rightarrow> int" where
  "configuredInputBudgetTokens env model =
     (let limit = (case ParseInt (TrimSpace (Getenv (beEnviron env) ''M365_INPUT_BUDGET_TOKENS'')) of
                     Some n \<Rightarrow> if n \<ge> minimumPromptBudgetTokens + promptBudgetReserveTokens then n else defaultInputBudgetTokens
                   | None \<Rightarrow> defaultInputBudgetTokens);
          modelLimit = mlMaxInputTokens (modelLimitsFor (beSettings env) model)
      in if modelLimit > 0 \<and> limit > modelLimit then modelLimit else limit)"

subsection \<open>Token counts\<close>

text \<open>A nil slice of attachments is encoded as null.\<close>

definition attachmentJSON :: "attachment \<Rightarrow> json" where
  "attachmentJSON a =
     JObj ([(''type'', JStr (attType a))]
           @ (if attURL a = [] then [] else [(''url'', JStr (attURL a))])
           @ (if attName a = [] then [] else [(''name'', JStr (attName a))])
           @ (if attMimeType a = [] then [] else [(''mimeType'', JStr (attMimeType a))]))"

definition attachmentsText :: "attachment list \<Rightarrow> string" where
  "attachmentsText files = (if files = [] then ''null'' else render (JArr (map attachmentJSON files)))"

definition tokensIn :: "budgetEnv \<Rightarrow> string \<Rightarrow> string \<Rightarrow> int" where
  "tokensIn env model txt = int (countTokens (beEncode env) model txt)"

definition attachmentBudgetTokens :: "budgetEnv \<Rightarrow> string \<Rightarrow> attachment list \<Rightarrow> int" where
  "attachmentBudgetTokens env model attachments =
     (let serialized = attachmentsText attachments
      in if length serialized > 32 * 1024 then int ((length serialized + 1) div 2) else tokensIn env model serialized)"

definition promptMessageTokens :: "budgetEnv \<Rightarrow> string \<Rightarrow> oaiMsg \<Rightarrow> int" where
  "promptMessageTokens env model m =
     (let (chunk, attachments) = renderPromptMessage (beSprint env) m
      in tokensIn env model chunk + tokensIn env model (attachmentsText attachments))"

subsection \<open>Units\<close>

record promptUnit =
  puMessages :: "oaiMsg list"
  puTokens :: int
  puInstruction :: bool
  puHasUser :: bool

definition isToolRole :: "oaiMsg \<Rightarrow> bool" where
  "isToolRole m = EqualFold (TrimSpace (msgRole m)) ''tool''"

definition makeUnit :: "budgetEnv \<Rightarrow> string \<Rightarrow> oaiMsg \<Rightarrow> oaiMsg list \<Rightarrow> promptUnit" where
  "makeUnit env model m results =
     \<lparr>puMessages = m # results, puTokens = sum_list (map (promptMessageTokens env model) (m # results)),
      puInstruction = isInstructionRole (roleOf m), puHasUser = (roleOf m = ''user'')\<rparr>"

function buildPromptUnits :: "budgetEnv \<Rightarrow> string \<Rightarrow> oaiMsg list \<Rightarrow> promptUnit list" where
  "buildPromptUnits env model [] = []"
| "buildPromptUnits env model (m # ms) =
     (if msgToolCalls m = [] then makeUnit env model m [] # buildPromptUnits env model ms
      else makeUnit env model m (takeWhile isToolRole ms) # buildPromptUnits env model (dropWhile isToolRole ms))"
  by pat_completeness auto
termination by (relation "measure (\<lambda>(_, _, ms). length ms)") (auto simp: le_imp_less_Suc length_dropWhile_le)

text \<open>The three Chinese characters of the numbered server, by their bytes.\<close>

definition serverWordZh :: string where
  "serverWordZh = [CHR 0xE5, CHR 0x8F, CHR 0xB7, CHR 0xE6, CHR 0x9C, CHR 0x8D, CHR 0xE5, CHR 0x8A, CHR 0xA1, CHR 0xE5, CHR 0x99, CHR 0xA8]"

definition asciiLetter :: regex where
  "asciiLetter = Rune (\<lambda>r. case r of [c] \<Rightarrow> (let n = byteVal c in 65 \<le> n \<and> n \<le> 90 \<or> 97 \<le> n \<and> n \<le> 122)
                         | _ \<Rightarrow> r = [CHR 0xE2, CHR 0x84, CHR 0xAA] \<or> r = [CHR 0xC5, CHR 0xBF])"

definition hostRune :: regex where
  "hostRune = Alt asciiLetter (Alt digitRune (oneOf [''_'', ''.'', ''-'']))"

definition backslash :: string where
  "backslash = [CHR 0x5C]"

definition quoteOrSpace :: regex where
  "quoteOrSpace = Alt spaceRune (oneOf [[CHR 0x22], [CHR 0x27]])"

definition durableTaskAnchorPattern :: regex where
  "durableTaskAnchorPattern = choice
     [sequence [asciiLetter, lit ('':'' @ backslash)],
      sequence [lit (backslash @ backslash), plus1 hostRune, lit backslash],
      sequence [foldedLit ''http'', maybe (foldedLit ''s''), lit ''://''],
      sequence [foldedLit ''.lnk'', WordBoundary],
      sequence [WordBoundary, foldedLit ''server'', Star True spaceRune, maybe (lit ''#''), Star True spaceRune,
                plus1 digitRune, WordBoundary],
      sequence [plus1 digitRune, Star True spaceRune, lit serverWordZh],
      sequence [Alt TextStart quoteOrSpace, lit ''/'',
                choice (map foldedLit [''opt'', ''home'', ''root'', ''srv'', ''var'', ''workspace'', ''app'', ''mnt'']), lit ''/'']]"

definition durableTaskAnchorUnit :: "budgetEnv \<Rightarrow> promptUnit \<Rightarrow> bool" where
  "durableTaskAnchorUnit env u =
     (if puInstruction u then False
      else case puMessages u of
             [m] \<Rightarrow>
               (roleOf m = ''user'' \<or> roleOf m = ''assistant'') \<and> msgToolCalls m = []
               \<and> MatchString durableTaskAnchorPattern (contentToString (beSprint env) (msgContent m))
           | _ \<Rightarrow> False)"

subsection \<open>Selection\<close>

record selection =
  slChosen :: "bool list"
  slUsed :: int
  slAnchorTokens :: int
  slAnchored :: nat

definition admitUnit :: "promptUnit list \<Rightarrow> nat \<Rightarrow> selection \<Rightarrow> selection" where
  "admitUnit units i s = s\<lparr>slChosen := list_update (slChosen s) i True, slUsed := slUsed s + puTokens (units ! i)\<rparr>"

fun chooseInstructions :: "promptUnit list \<Rightarrow> int \<Rightarrow> nat list \<Rightarrow> selection \<Rightarrow> selection option" where
  "chooseInstructions units budget [] s = Some s"
| "chooseInstructions units budget (i # is) s =
     (let u = units ! i
      in if \<not> puInstruction u \<or> puTokens u = 0 then chooseInstructions units budget is s
         else if slUsed s + puTokens u > budget then None
         else chooseInstructions units budget is (admitUnit units i s))"

definition lastUserUnit :: "promptUnit list \<Rightarrow> nat" where
  "lastUserUnit units = fold (\<lambda>i found. if puHasUser (units ! i) then i else found) [0..<length units] 0"

definition currentTokens :: "promptUnit list \<Rightarrow> nat \<Rightarrow> selection \<Rightarrow> int" where
  "currentTokens units k s =
     sum_list (map (\<lambda>i. if slChosen s ! i \<or> puTokens (units ! i) = 0 then 0 else puTokens (units ! i)) [k..<length units])"

definition chooseCurrent :: "promptUnit list \<Rightarrow> nat \<Rightarrow> selection \<Rightarrow> selection" where
  "chooseCurrent units k s =
     fold (\<lambda>i s. if \<not> slChosen s ! i \<and> puTokens (units ! i) > 0 then admitUnit units i s else s) [k..<length units] s"

text \<open>The earliest anchor and the newest ones, at most four, in their order.\<close>

definition anchorIndices :: "budgetEnv \<Rightarrow> promptUnit list \<Rightarrow> nat \<Rightarrow> nat list" where
  "anchorIndices env units k =
     (case filter (\<lambda>i. durableTaskAnchorUnit env (units ! i)) [0..<k] of
        [] \<Rightarrow> []
      | first # others \<Rightarrow> sort (first # take (maxTaskAnchorUnits - 1) (filter (\<lambda>i. i \<noteq> first) (rev (first # others)))))"

definition chooseAnchor :: "promptUnit list \<Rightarrow> int \<Rightarrow> nat \<Rightarrow> selection \<Rightarrow> selection" where
  "chooseAnchor units budget i s =
     (let u = units ! i
      in if slChosen s ! i \<or> puTokens u = 0 \<or> slAnchorTokens s + puTokens u > maxTaskAnchorTokens
            \<or> slUsed s + puTokens u > budget then s
         else (admitUnit units i s)\<lparr>slAnchorTokens := slAnchorTokens s + puTokens u,
                                 slAnchored := slAnchored s + length (puMessages u)\<rparr>)"

fun chooseHistory :: "promptUnit list \<Rightarrow> int \<Rightarrow> nat list \<Rightarrow> selection \<Rightarrow> selection" where
  "chooseHistory units limit [] s = s"
| "chooseHistory units limit (i # is) s =
     (let u = units ! i
      in if slChosen s ! i \<or> puInstruction u \<or> puTokens u = 0 then chooseHistory units limit is s
         else if slUsed s + puTokens u > limit then s
         else chooseHistory units limit is (admitUnit units i s))"

datatype budgetVerdict = Fits selection | Exceeds string

definition historyLimit :: "budgetEnv \<Rightarrow> int \<Rightarrow> bool \<Rightarrow> int" where
  "historyLimit env budget continuing =
     (if continuing then budget * configuredContinuingHistoryShare env div 100 else budget)"

definition selectUnitsWithin :: "budgetEnv \<Rightarrow> promptUnit list \<Rightarrow> int \<Rightarrow> bool \<Rightarrow> budgetVerdict" where
  "selectUnitsWithin env units budget continuing =
     (let start = \<lparr>slChosen = replicate (length units) False, slUsed = 0, slAnchorTokens = 0, slAnchored = 0\<rparr>
      in case chooseInstructions units budget (rev [0..<length units]) start of
           None \<Rightarrow> Exceeds ''system/developer instructions exceed the configured input budget''
         | Some s \<Rightarrow>
             let k = lastUserUnit units
             in if slUsed s + currentTokens units k s > budget
                then Exceeds ''current user turn exceeds the configured input budget''
                else
                  let s = chooseCurrent units k s;
                      s = fold (chooseAnchor units budget) (anchorIndices env units k) s;
                      s = chooseHistory units (historyLimit env budget continuing) (rev [0..<k]) s
                  in Fits s)"

definition chosenMessages :: "promptUnit list \<Rightarrow> bool list \<Rightarrow> oaiMsg list" where
  "chosenMessages units chosen = concat (map (puMessages \<circ> fst) (filter snd (zip units chosen)))"

record promptBudgetStats =
  psOriginalMessages :: nat
  psContinuing :: bool
  psPromptBudget :: int
  psToolTokens :: int
  psAttachmentTokens :: int
  psPromptTokens :: int
  psSelectedMessages :: nat
  psDroppedMessages :: nat
  psTaskAnchorTokens :: int
  psAnchoredMessages :: nat
  psExceededReason :: "string option"

definition selectPromptMessages ::
  "budgetEnv \<Rightarrow> oaiMsg list \<Rightarrow> string \<Rightarrow> offeredTool list \<Rightarrow> attachment list \<Rightarrow> bool \<Rightarrow> oaiMsg list \<times> promptBudgetStats" where
  "selectPromptMessages env messages model tools attachments continuing =
     (let stats = \<lparr>psOriginalMessages = length messages, psContinuing = continuing, psPromptBudget = 0, psToolTokens = 0, psAttachmentTokens = 0, psPromptTokens = 0, psSelectedMessages = 0,
                   psDroppedMessages = 0, psTaskAnchorTokens = 0, psAnchoredMessages = 0, psExceededReason = None\<rparr>
      in if messages = [] then ([], stats)
         else
           let toolTokens = (if tools = [] then 0 else tokensIn env model (beTools env tools));
               attachmentTokens = (if attachments = [] then 0 else attachmentBudgetTokens env model attachments);
               budget = configuredInputBudgetTokens env model - toolTokens - attachmentTokens - promptBudgetReserveTokens;
               stats = stats\<lparr>psToolTokens := toolTokens, psAttachmentTokens := attachmentTokens, psPromptBudget := budget\<rparr>
           in if budget < minimumPromptBudgetTokens
              then ([], stats\<lparr>psExceededReason := Some ''tool definitions or attachments leave too little prompt budget''\<rparr>)
              else
                let units = buildPromptUnits env model messages
                in (case selectUnitsWithin env units budget continuing of
                      Exceeds reason \<Rightarrow> ([], stats\<lparr>psExceededReason := Some reason\<rparr>)
                    | Fits s \<Rightarrow>
                        let out = chosenMessages units (slChosen s)
                        in (out, stats\<lparr>psSelectedMessages := length out, psDroppedMessages := length messages - length out,
                                       psPromptTokens := slUsed s, psTaskAnchorTokens := slAnchorTokens s,
                                       psAnchoredMessages := slAnchored s\<rparr>)))"

end
