(* ===== verification/PromptLaws.thy ===== *)
theory PromptLaws
  imports PromptSelect ToolProtocol
begin

text \<open>Laws of the budgeted selection: what each pass admits and how the used tokens follow.\<close>

subsection \<open>Units\<close>

definition chosenSet :: "selection \<Rightarrow> nat set" where
  "chosenSet s = {i. i < length (slChosen s) \<and> slChosen s ! i}"

definition tokensOf :: "promptUnit list \<Rightarrow> nat set \<Rightarrow> int" where
  "tokensOf units A = (\<Sum>i \<in> A. puTokens (units ! i))"

definition selInv :: "promptUnit list \<Rightarrow> selection \<Rightarrow> bool" where
  "selInv units s \<longleftrightarrow> length (slChosen s) = length units \<and> slUsed s = tokensOf units (chosenSet s)"

definition nonneg :: "promptUnit list \<Rightarrow> bool" where
  "nonneg units \<longleftrightarrow> (\<forall>u \<in> set units. 0 \<le> puTokens u)"

lemma finite_chosen [simp]: "finite (chosenSet s)"
  by (simp add: chosenSet_def)

lemma chosen_bound: "selInv units s \<Longrightarrow> chosenSet s \<subseteq> {..<length units}"
  by (auto simp: chosenSet_def selInv_def)

lemma chosen_iff: "selInv units s \<Longrightarrow> i < length units \<Longrightarrow> slChosen s ! i \<longleftrightarrow> i \<in> chosenSet s"
  by (simp add: chosenSet_def selInv_def)

lemma tokensOf_nonneg: "nonneg units \<Longrightarrow> A \<subseteq> {..<length units} \<Longrightarrow> 0 \<le> tokensOf units A"
  unfolding tokensOf_def nonneg_def by (intro sum_nonneg) (auto simp: subset_iff)

lemma tokensOf_mono: "nonneg units \<Longrightarrow> A \<subseteq> B \<Longrightarrow> B \<subseteq> {..<length units} \<Longrightarrow> tokensOf units A \<le> tokensOf units B"
  unfolding tokensOf_def nonneg_def by (intro sum_mono2) (auto intro: finite_subset [of B])

lemma admit_law:
  assumes "selInv units s" and "i < length units" and "i \<notin> chosenSet s"
  shows "selInv units (admitUnit units i s)" and "chosenSet (admitUnit units i s) = insert i (chosenSet s)"
    and "slUsed (admitUnit units i s) = slUsed s + puTokens (units ! i)"
proof -
  show c: "chosenSet (admitUnit units i s) = insert i (chosenSet s)"
    using assms by (auto simp: chosenSet_def admitUnit_def selInv_def nth_list_update)
  show "slUsed (admitUnit units i s) = slUsed s + puTokens (units ! i)" by (simp add: admitUnit_def)
  then show "selInv units (admitUnit units i s)"
    using assms c by (simp add: selInv_def tokensOf_def admitUnit_def)
qed

lemma instructions_law:
  assumes "nonneg units" and "selInv units s" and "set is \<subseteq> {..<length units}" and "distinct is" and "set is \<inter> chosenSet s = {}"
  shows "case chooseInstructions units budget is s of
      None \<Rightarrow> budget < slUsed s + tokensOf units {i \<in> set is. puInstruction (units ! i)}
    | Some s' \<Rightarrow> selInv units s' \<and> chosenSet s' = chosenSet s \<union> {i \<in> set is. puInstruction (units ! i) \<and> puTokens (units ! i) \<noteq> 0}
        \<and> (slUsed s \<le> budget \<longrightarrow> slUsed s' \<le> budget)
        \<and> slAnchorTokens s' = slAnchorTokens s \<and> slAnchored s' = slAnchored s"
  using assms(2-)
proof (induction "is" arbitrary: s)
  case (Cons i "is")
  have i: "i < length units" "i \<notin> chosenSet s" "i \<notin> set is" using Cons.prems by auto
  let ?I = "\<lambda>is. {i \<in> set is. puInstruction (units ! i)}"
  have fin: "finite (?I is)" by simp
  show ?case
  proof (cases "\<not> puInstruction (units ! i) \<or> puTokens (units ! i) = 0")
    case True
    have t: "tokensOf units (?I (i # is)) = tokensOf units (?I is)"
    proof (cases "puInstruction (units ! i)")
      case inst: True
      then have "?I (i # is) = insert i (?I is)" by auto
      with True inst i(3) show ?thesis by (simp add: tokensOf_def)
    next
      case False
      then have "?I (i # is) = ?I is" by auto
      then show ?thesis by simp
    qed
    have c: "{j \<in> set (i # is). puInstruction (units ! j) \<and> puTokens (units ! j) \<noteq> 0}
      = {j \<in> set is. puInstruction (units ! j) \<and> puTokens (units ! j) \<noteq> 0}" using True by auto
    have same: "chooseInstructions units budget (i # is) s = chooseInstructions units budget is s" using True by (simp add: Let_def)
    show ?thesis unfolding same t c by (rule Cons.IH) (use Cons.prems in auto)
  next
    case inst: False
    have I: "?I (i # is) = insert i (?I is)" using inst by auto
    then have t: "tokensOf units (?I (i # is)) = puTokens (units ! i) + tokensOf units (?I is)"
      using i(3) by (simp add: tokensOf_def)
    show ?thesis
    proof (cases "slUsed s + puTokens (units ! i) > budget")
      case True
      have "0 \<le> tokensOf units (?I is)" by (rule tokensOf_nonneg [OF assms(1)]) (use Cons.prems(2) in auto)
      with True inst t show ?thesis by (simp add: Let_def)
    next
      case False
      note a = admit_law [OF Cons.prems(1) i(1,2)]
      have "set is \<inter> chosenSet (admitUnit units i s) = {}" using Cons.prems(4) i(3) a(2) by auto
      from Cons.IH [OF a(1) _ _ this] Cons.prems(2,3) False inst a(2,3) t show ?thesis
        by (auto simp: Let_def admitUnit_def split: option.splits)
    qed
  qed
qed simp

lemma current_law:
  assumes "nonneg units" and "selInv units s"
  shows "selInv units (chooseCurrent units k s)
    \<and> chosenSet (chooseCurrent units k s) = chosenSet s \<union> {i. k \<le> i \<and> i < length units \<and> puTokens (units ! i) \<noteq> 0}
    \<and> slAnchorTokens (chooseCurrent units k s) = slAnchorTokens s"
proof -
  let ?f = "\<lambda>i s. if \<not> slChosen s ! i \<and> puTokens (units ! i) > 0 then admitUnit units i s else s"
  have step: "selInv units (fold ?f is s) \<and> chosenSet (fold ?f is s) = chosenSet s \<union> {i \<in> set is. puTokens (units ! i) \<noteq> 0}
      \<and> slAnchorTokens (fold ?f is s) = slAnchorTokens s"
    if "set is \<subseteq> {..<length units}" "selInv units s" for "is" s
    using that
  proof (induction "is" arbitrary: s)
    case (Cons i "is")
    have i: "i < length units" using Cons.prems(1) by simp
    then have nn: "0 \<le> puTokens (units ! i)" using assms(1) by (simp add: nonneg_def)
    have "selInv units (?f i s) \<and> chosenSet (?f i s) = chosenSet s \<union> (if puTokens (units ! i) \<noteq> 0 then {i} else {})
        \<and> slAnchorTokens (?f i s) = slAnchorTokens s"
    proof (cases "\<not> slChosen s ! i \<and> puTokens (units ! i) > 0")
      case True
      then have "i \<notin> chosenSet s" using chosen_iff [OF Cons.prems(2) i] by simp
      from admit_law [OF Cons.prems(2) i this] True show ?thesis by (simp add: admitUnit_def)
    next
      case False
      then show ?thesis using chosen_iff [OF Cons.prems(2) i] Cons.prems(2) nn by auto
    qed
    with Cons.IH [of "?f i s"] Cons.prems(1) show ?case by auto
  qed simp
  have sub: "set [k..<length units] \<subseteq> {..<length units}" by auto
  have "{i \<in> set [k..<length units]. puTokens (units ! i) \<noteq> 0} = {i. k \<le> i \<and> i < length units \<and> puTokens (units ! i) \<noteq> 0}" by auto
  with step [OF sub assms(2)] show ?thesis unfolding chooseCurrent_def by (simp only:)
qed

lemma sum_list_upt: "sum_list (map f [k..<n]) = (\<Sum>i \<in> {k..<n}. f i)" for f :: "nat \<Rightarrow> int"
  by (simp add: sum_list_distinct_conv_sum_set)

lemma currentTokens_eq:
  assumes "selInv units s"
  shows "currentTokens units k s = tokensOf units ({k..<length units} - chosenSet s)"
proof -
  have "currentTokens units k s = (\<Sum>i \<in> {k..<length units}. if i \<in> chosenSet s then 0 else puTokens (units ! i))"
    unfolding currentTokens_def sum_list_upt
    by (rule sum.cong) (use chosen_iff [OF assms] in auto)
  also have "\<dots> = tokensOf units ({k..<length units} - chosenSet s)"
    unfolding tokensOf_def by (simp add: sum.If_cases Diff_eq)
  finally show ?thesis .
qed

lemma anchors_law:
  assumes "set is \<subseteq> {..<length units}" and "selInv units s"
  shows "selInv units (fold (chooseAnchor units budget) is s)
    \<and> (\<exists>A \<subseteq> set is. chosenSet (fold (chooseAnchor units budget) is s) = chosenSet s \<union> A)
    \<and> (slUsed s \<le> budget \<longrightarrow> slUsed (fold (chooseAnchor units budget) is s) \<le> budget)
    \<and> (slAnchorTokens s \<le> maxTaskAnchorTokens \<longrightarrow> slAnchorTokens (fold (chooseAnchor units budget) is s) \<le> maxTaskAnchorTokens)"
  using assms
proof (induction "is" arbitrary: s)
  case Nil
  then show ?case by auto
next
  case (Cons i "is")
  have i: "i < length units" using Cons.prems(1) by simp
  let ?s = "chooseAnchor units budget i s"
  have one: "selInv units ?s \<and> (chosenSet ?s = chosenSet s \<or> chosenSet ?s = insert i (chosenSet s))
    \<and> (slUsed s \<le> budget \<longrightarrow> slUsed ?s \<le> budget)
    \<and> (slAnchorTokens s \<le> maxTaskAnchorTokens \<longrightarrow> slAnchorTokens ?s \<le> maxTaskAnchorTokens)"
  proof (cases "slChosen s ! i \<or> puTokens (units ! i) = 0 \<or> slAnchorTokens s + puTokens (units ! i) > maxTaskAnchorTokens
                \<or> slUsed s + puTokens (units ! i) > budget")
    case True
    with Cons.prems(2) show ?thesis by (auto simp: chooseAnchor_def Let_def)
  next
    case False
    then have "i \<notin> chosenSet s" using chosen_iff [OF Cons.prems(2) i] by simp
    note a = admit_law [OF Cons.prems(2) i this]
    have e: "?s = (admitUnit units i s)\<lparr>slAnchorTokens := slAnchorTokens s + puTokens (units ! i),
                                 slAnchored := slAnchored s + length (puMessages (units ! i))\<rparr>"
      using False by (simp add: chooseAnchor_def Let_def)
    from a False show ?thesis unfolding e by (simp add: selInv_def chosenSet_def)
  qed
  from Cons.IH [of ?s] one Cons.prems(1) obtain A where A: "A \<subseteq> set is"
    "chosenSet (fold (chooseAnchor units budget) is ?s) = chosenSet ?s \<union> A" by auto
  have "\<exists>A \<subseteq> set (i # is). chosenSet (fold (chooseAnchor units budget) (i # is) s) = chosenSet s \<union> A"
    using A one by (intro exI [of _ "A \<union> (chosenSet ?s - chosenSet s)"]) auto
  with Cons.IH [of ?s] one Cons.prems(1) show ?case by simp
qed

lemma history_law:
  assumes "selInv units s" and "k \<le> length units"
  shows "selInv units (chooseHistory units limit (rev [0..<k]) s)
    \<and> (\<exists>j \<le> k. chosenSet (chooseHistory units limit (rev [0..<k]) s)
          = chosenSet s \<union> {i. j \<le> i \<and> i < k \<and> \<not> puInstruction (units ! i) \<and> puTokens (units ! i) \<noteq> 0})
    \<and> slUsed (chooseHistory units limit (rev [0..<k]) s) \<le> max limit (slUsed s)
    \<and> slAnchorTokens (chooseHistory units limit (rev [0..<k]) s) = slAnchorTokens s"
  using assms
proof (induction k arbitrary: s)
  case 0
  then show ?case by auto
next
  case (Suc k)
  have k: "k < length units" "k \<le> length units" using Suc.prems(2) by auto
  have upt: "rev [0..<Suc k] = k # rev [0..<k]" by simp
  have grow: "{i. j \<le> i \<and> i < Suc k \<and> P i} = {i. j \<le> i \<and> i < k \<and> P i} \<union> (if P k then {k} else {})" if "j \<le> k" for j P
    using that by (auto simp: less_Suc_eq)
  let ?P = "\<lambda>i. \<not> puInstruction (units ! i) \<and> puTokens (units ! i) \<noteq> 0"
  show ?case
  proof (cases "slChosen s ! k \<or> puInstruction (units ! k) \<or> puTokens (units ! k) = 0")
    case True
    then have e: "chooseHistory units limit (rev [0..<Suc k]) s = chooseHistory units limit (rev [0..<k]) s"
      unfolding upt by (simp add: Let_def)
    from Suc.IH [OF Suc.prems(1) k(2)] obtain j where j: "j \<le> k"
      "chosenSet (chooseHistory units limit (rev [0..<k]) s) = chosenSet s \<union> {i. j \<le> i \<and> i < k \<and> ?P i}" by auto
    have "chosenSet s \<union> {i. j \<le> i \<and> i < k \<and> ?P i} = chosenSet s \<union> {i. j \<le> i \<and> i < Suc k \<and> ?P i}"
      using True chosen_iff [OF Suc.prems(1) k(1)] by (auto simp: less_Suc_eq)
    with j have "\<exists>j \<le> Suc k. chosenSet (chooseHistory units limit (rev [0..<k]) s) = chosenSet s \<union> {i. j \<le> i \<and> i < Suc k \<and> ?P i}"
      by (intro exI [of _ j]) simp
    with Suc.IH [OF Suc.prems(1) k(2)] show ?thesis unfolding e by blast
  next
    case False
    show ?thesis
    proof (cases "slUsed s + puTokens (units ! k) > limit")
      case True
      then have e: "chooseHistory units limit (rev [0..<Suc k]) s = s" using False unfolding upt by (simp add: Let_def)
      show ?thesis unfolding e using Suc.prems by (intro conjI exI [of _ "Suc k"]) auto
    next
      case fits: False
      have e: "chooseHistory units limit (rev [0..<Suc k]) s = chooseHistory units limit (rev [0..<k]) (admitUnit units k s)"
        using False fits unfolding upt by (simp add: Let_def)
      have "k \<notin> chosenSet s" using False chosen_iff [OF Suc.prems(1) k(1)] by simp
      note a = admit_law [OF Suc.prems(1) k(1) this]
      from Suc.IH [OF a(1) k(2)] obtain j where j: "j \<le> k"
        "chosenSet (chooseHistory units limit (rev [0..<k]) (admitUnit units k s))
           = insert k (chosenSet s) \<union> {i. j \<le> i \<and> i < k \<and> ?P i}" unfolding a(2) by blast
      have "insert k (chosenSet s) \<union> {i. j \<le> i \<and> i < k \<and> ?P i} = chosenSet s \<union> {i. j \<le> i \<and> i < Suc k \<and> ?P i}"
        using False j(1) by (auto simp: less_Suc_eq)
      with j have ex: "\<exists>j \<le> Suc k. chosenSet (chooseHistory units limit (rev [0..<k]) (admitUnit units k s))
          = chosenSet s \<union> {i. j \<le> i \<and> i < Suc k \<and> ?P i}" by (intro exI [of _ j]) simp
      have "slUsed (chooseHistory units limit (rev [0..<k]) (admitUnit units k s)) \<le> max limit (slUsed s)"
        using Suc.IH [OF a(1) k(2)] fits a(3) by (auto simp: max_def split: if_splits)
      moreover have "slAnchorTokens (admitUnit units k s) = slAnchorTokens s" by (simp add: admitUnit_def)
      ultimately show ?thesis unfolding e using Suc.IH [OF a(1) k(2)] ex by simp
    qed
  qed
qed

lemma lastUser_bound:
  assumes "units \<noteq> []"
  shows "lastUserUnit units < length units"
proof -
  have "fold (\<lambda>i found. if puHasUser (units ! i) then i else found) is a < n"
    if "a < n" "set is \<subseteq> {..<n}" for "is" a n using that by (induction "is" arbitrary: a) auto
  from this [of 0 "length units" "[0..<length units]"] assms show ?thesis
    unfolding lastUserUnit_def by fastforce
qed

lemma anchor_indices: "set (anchorIndices env units k) \<subseteq> {..<k} \<and> card (set (anchorIndices env units k)) \<le> 4
  \<and> (\<forall>i \<in> set (anchorIndices env units k). durableTaskAnchorUnit env (units ! i))"
proof (cases "filter (\<lambda>i. durableTaskAnchorUnit env (units ! i)) [0..<k]")
  case (Cons x xs)
  have mem: "set (anchorIndices env units k) \<subseteq> set (filter (\<lambda>i. durableTaskAnchorUnit env (units ! i)) [0..<k])"
    unfolding anchorIndices_def Cons by (auto dest: in_set_takeD simp del: sort_key_simps)
  have "card (set (anchorIndices env units k)) \<le> length (anchorIndices env units k)" by (rule card_length)
  also have "\<dots> \<le> 4" by (simp add: anchorIndices_def Cons maxTaskAnchorUnits_def)
  finally show ?thesis using mem by auto
qed (simp add: anchorIndices_def)

text \<open>The units a request cannot do without: instructions, and the current turn from unit \<open>k\<close> on.\<close>

definition requiredUnits :: "promptUnit list \<Rightarrow> nat set" where
  "requiredUnits units = {i. i < length units \<and> (puInstruction (units ! i) \<or> lastUserUnit units \<le> i)}"

lemma share_range: "0 \<le> configuredContinuingHistoryShare env \<and> configuredContinuingHistoryShare env \<le> 100"
  by (simp add: configuredContinuingHistoryShare_def defaultContinuingHistoryShare_def split: option.split)

lemma historyLimit_le:
  assumes "0 \<le> budget"
  shows "historyLimit env budget continuing \<le> budget"
proof -
  have "budget * configuredContinuingHistoryShare env \<le> budget * 100"
    using assms share_range [of env] by (intro mult_left_mono) simp_all
  then have "budget * configuredContinuingHistoryShare env div 100 \<le> budget * 100 div 100"
    by (intro zdiv_mono1) simp_all
  then show ?thesis by (simp add: historyLimit_def)
qed

lemma tokensOf_nonzero:
  assumes "finite A"
  shows "tokensOf units {i \<in> A. puTokens (units ! i) \<noteq> 0} = tokensOf units A"
  unfolding tokensOf_def by (rule sum.mono_neutral_left) (use assms in auto)

lemma selection_outcome:
  assumes nn: "nonneg units" and ne: "units \<noteq> []" and b: "0 \<le> budget"
  shows "case selectUnitsWithin env units budget continuing of
      Exceeds _ \<Rightarrow> budget < tokensOf units (requiredUnits units)
    | Fits s \<Rightarrow> selInv units s \<and> slUsed s \<le> budget \<and> tokensOf units (requiredUnits units) \<le> budget
        \<and> slAnchorTokens s \<le> maxTaskAnchorTokens
        \<and> (\<exists>j \<le> lastUserUnit units. \<exists>A \<subseteq> set (anchorIndices env units (lastUserUnit units)).
             chosenSet s = {i \<in> requiredUnits units. puTokens (units ! i) \<noteq> 0} \<union> A
               \<union> {i. j \<le> i \<and> i < lastUserUnit units \<and> \<not> puInstruction (units ! i) \<and> puTokens (units ! i) \<noteq> 0})"
proof -
  define n where "n = length units"
  define k where "k = lastUserUnit units"
  have kn: "k < n" using lastUser_bound [OF ne] by (simp add: k_def n_def)
  define start where "start = \<lparr>slChosen = replicate n False, slUsed = 0, slAnchorTokens = 0, slAnchored = 0\<rparr>"
  have st: "chosenSet start = {}" by (auto simp: chosenSet_def start_def)
  have inv: "selInv units start" using st by (simp add: selInv_def tokensOf_def) (simp add: start_def n_def)
  have fields: "slUsed start = 0" "slAnchorTokens start = 0" by (simp_all add: start_def)
  define I where "I = {i. i < n \<and> puInstruction (units ! i)}"
  define I' where "I' = {i \<in> I. puTokens (units ! i) \<noteq> 0}"
  have fin: "finite I" by (simp add: I_def)
  have tI: "tokensOf units I' = tokensOf units I" unfolding I'_def by (rule tokensOf_nonzero [OF fin])
  have R: "requiredUnits units = I \<union> {k..<n}" by (auto simp: requiredUnits_def I_def k_def n_def)
  have R_sub: "requiredUnits units \<subseteq> {..<length units}" by (auto simp: requiredUnits_def)
  have instr: "case chooseInstructions units budget (rev [0..<n]) start of
      None \<Rightarrow> budget < tokensOf units I
    | Some s \<Rightarrow> selInv units s \<and> chosenSet s = I' \<and> slUsed s \<le> budget \<and> slAnchorTokens s = 0"
  proof -
    have sets: "{i \<in> set (rev [0..<n]). puInstruction (units ! i)} = I"
      "{i \<in> set (rev [0..<n]). puInstruction (units ! i) \<and> puTokens (units ! i) \<noteq> 0} = I'" by (auto simp: I_def I'_def)
    have pre: "set (rev [0..<n]) \<subseteq> {..<length units}" "distinct (rev [0..<n])" "set (rev [0..<n]) \<inter> chosenSet start = {}"
      by (auto simp: n_def st)
    from instructions_law [OF nn inv pre, of budget] show ?thesis
      unfolding sets st fields using b by (auto split: option.splits)
  qed
  show ?thesis
  proof (cases "chooseInstructions units budget (rev [0..<n]) start")
    case None
    with instr have "budget < tokensOf units I" by simp
    also have "\<dots> \<le> tokensOf units (requiredUnits units)" by (rule tokensOf_mono [OF nn _ R_sub]) (simp add: R)
    finally show ?thesis using None by (simp add: selectUnitsWithin_def start_def n_def)
  next
    case (Some s)
    with instr have s: "selInv units s" "chosenSet s = I'" "slUsed s \<le> budget" "slAnchorTokens s = 0" by simp_all
    have total: "slUsed s + currentTokens units k s = tokensOf units (requiredUnits units)"
    proof -
      have "slUsed s + currentTokens units k s = tokensOf units I' + tokensOf units ({k..<n} - I')"
        using s(1,2) currentTokens_eq [OF s(1)] by (simp add: selInv_def n_def)
      also have "\<dots> = tokensOf units (I' \<union> {k..<n})"
        unfolding tokensOf_def by (subst sum.union_disjoint [symmetric]) (auto simp: fin I'_def Un_Diff_cancel)
      also have "\<dots> = tokensOf units (requiredUnits units)"
        unfolding R tokensOf_def by (rule sum.mono_neutral_left) (auto simp: fin I'_def)
      finally show ?thesis .
    qed
    show ?thesis
    proof (cases "slUsed s + currentTokens units k s > budget")
      case True
      with Some total show ?thesis by (simp add: selectUnitsWithin_def start_def n_def k_def Let_def)
    next
      case False
      define s1 where "s1 = chooseCurrent units k s"
      define s2 where "s2 = fold (chooseAnchor units budget) (anchorIndices env units k) s1"
      define s3 where "s3 = chooseHistory units (historyLimit env budget continuing) (rev [0..<k]) s2"
      from current_law [OF nn s(1), of k] have s1: "selInv units s1" "slAnchorTokens s1 = 0"
        "chosenSet s1 = {i \<in> requiredUnits units. puTokens (units ! i) \<noteq> 0}"
        using s by (auto simp: s1_def R I'_def n_def)
      have u1: "slUsed s1 \<le> budget"
        using False s1(1,3) total tokensOf_nonzero [of "requiredUnits units" units] finite_subset [OF R_sub]
        by (simp add: selInv_def)
      have sub: "set (anchorIndices env units k) \<subseteq> {..<length units}" using anchor_indices [of env units k] kn by (auto simp: n_def)
      from anchors_law [OF sub s1(1), of budget] u1 s1(2) obtain A where s2: "selInv units s2" "A \<subseteq> set (anchorIndices env units k)"
        "chosenSet s2 = chosenSet s1 \<union> A" "slUsed s2 \<le> budget" "slAnchorTokens s2 \<le> maxTaskAnchorTokens"
        unfolding s2_def by (auto simp: maxTaskAnchorTokens_def)
      have "k \<le> length units" using kn by (simp add: n_def)
      from history_law [OF s2(1) this, of "historyLimit env budget continuing"] obtain j where s3: "selInv units s3" "j \<le> k"
        "chosenSet s3 = chosenSet s2 \<union> {i. j \<le> i \<and> i < k \<and> \<not> puInstruction (units ! i) \<and> puTokens (units ! i) \<noteq> 0}"
        "slUsed s3 \<le> max (historyLimit env budget continuing) (slUsed s2)" "slAnchorTokens s3 = slAnchorTokens s2"
        unfolding s3_def by blast
      have "slUsed s3 \<le> budget" using s3(4) s2(4) historyLimit_le [OF b, of env continuing] by simp
      moreover have "selectUnitsWithin env units budget continuing = Fits s3"
        using Some False by (simp add: selectUnitsWithin_def start_def n_def k_def Let_def s3_def s2_def s1_def)
      ultimately show ?thesis
        using s3 s2 s1 total False unfolding k_def [symmetric] by auto
    qed
  qed
qed

end
