(* ===== verification/PromptProps.thy ===== *)
theory PromptProps
  imports PromptLaws
begin

text \<open>Properties of the selected prompt: its bounds, what it always keeps, when it is refused, and its tool rounds.\<close>

subsection \<open>Units of a transcript\<close>

lemma tokensIn_nonneg [simp]: "0 \<le> tokensIn env model t"
  by (simp add: tokensIn_def)

lemma message_tokens_nonneg [simp]: "0 \<le> promptMessageTokens env model m"
  by (simp add: promptMessageTokens_def split: prod.split)

definition messageCost :: "budgetEnv \<Rightarrow> string \<Rightarrow> oaiMsg list \<Rightarrow> int" where
  "messageCost env model ms = sum_list (map (promptMessageTokens env model) ms)"

lemma messageCost_nonneg: "0 \<le> messageCost env model ms"
  unfolding messageCost_def by (rule sum_list_nonneg) auto

lemma units_cost: "u \<in> set (buildPromptUnits env model ms) \<Longrightarrow> puTokens u = messageCost env model (puMessages u)"
  by (induction env model ms rule: buildPromptUnits.induct) (auto simp: makeUnit_def messageCost_def split: if_splits)

lemma units_nonneg: "nonneg (buildPromptUnits env model ms)"
  by (simp add: nonneg_def units_cost messageCost_nonneg)

lemma units_concat: "concat (map puMessages (buildPromptUnits env model ms)) = ms"
  by (induction env model ms rule: buildPromptUnits.induct) (simp_all add: makeUnit_def)

lemma units_empty: "buildPromptUnits env model ms = [] \<longleftrightarrow> ms = []"
  by (cases ms) auto

lemma cost_concat: "messageCost env model (concat mss) = sum_list (map (messageCost env model) mss)"
  by (induction mss) (simp_all add: messageCost_def)

lemma chosen_cost:
  assumes "length sel = length units" and "\<forall>u \<in> set units. puTokens u = messageCost env model (puMessages u)"
  shows "messageCost env model (chosenMessages units sel) = tokensOf units {i. i < length sel \<and> sel ! i}"
proof -
  have "messageCost env model (chosenMessages units sel) = sum_list (map (puTokens \<circ> fst) (filter snd (zip units sel)))"
    unfolding chosenMessages_def cost_concat using assms(2)
    by (simp add: comp_def) (rule arg_cong [where f = sum_list], rule map_cong, auto dest: set_zip_leftD)
  also have "\<dots> = sum_list (map (\<lambda>x. if snd x then (puTokens \<circ> fst) x else 0) (zip units sel))"
    by (rule sum_list_map_filter')
  also have "\<dots> = (\<Sum>i = 0..<length units. if sel ! i then puTokens (units ! i) else 0)"
    using assms(1) unfolding sum_list_sum_nth by (intro sum.cong) auto
  also have "\<dots> = (\<Sum>i \<in> {i \<in> {0..<length units}. sel ! i}. puTokens (units ! i))"
    by (rule sum.inter_filter [symmetric]) simp
  also have "{i \<in> {0..<length units}. sel ! i} = {i. i < length sel \<and> sel ! i}" using assms(1) by auto
  finally show ?thesis by (simp add: tokensOf_def)
qed

subsection \<open>Dropping whole units keeps the tool protocol\<close>

lemma conversation_antimono: "protocolRounds used ms \<Longrightarrow> used' \<subseteq> used \<Longrightarrow> protocolRounds used' ms"
proof (induction arbitrary: used' rule: protocolRounds.induct)
  case (Round m used results ms)
  have "protocolRounds (used' \<union> set (callIdentities m)) ms" by (rule Round.IH) (use Round.prems in auto)
  with Round.hyps(1-6) Round.prems show ?case by (intro protocolRounds.Round) auto
qed (auto intro: protocolRounds.intros)

lemma tool_role: "msgRole m = ''tool'' \<Longrightarrow> isToolRole m" and assistant_role: "msgRole m = ''assistant'' \<Longrightarrow> \<not> isToolRole m"
proof -
  have "EqualFold (TrimSpace ''tool'') ''tool''" "\<not> EqualFold (TrimSpace ''assistant'') ''tool''" by code_simp+
  then show "msgRole m = ''tool'' \<Longrightarrow> isToolRole m" "msgRole m = ''assistant'' \<Longrightarrow> \<not> isToolRole m"
    by (simp_all add: isToolRole_def)
qed

lemma conversation_ConsE:
  assumes "protocolRounds used (m # ms)"
  obtains (plain) "msgRole m \<notin> {''assistant'', ''tool''}" "protocolRounds used ms"
  | (round) results ms' where "ms = results @ ms'" "msgRole m = ''assistant''" "[] \<notin> set (callIdentities m)"
      "distinct (callIdentities m)" "set (callIdentities m) \<inter> used = {}" "\<forall>r \<in> set results. msgRole r = ''tool''"
      "mset (map msgToolCallID results) = mset (callIdentities m)" "protocolRounds (used \<union> set (callIdentities m)) ms'"
  using assms by (cases rule: protocolRounds.cases) blast+

lemma plain_prefix:
  "protocolRounds used (ts @ ms) \<Longrightarrow> \<forall>t \<in> set ts. isToolRole t \<Longrightarrow>
   protocolRounds used ms \<and> (\<forall>t \<in> set ts. msgRole t \<notin> {''assistant'', ''tool''})"
proof (induction ts)
  case (Cons t ts)
  then have "protocolRounds used (t # ts @ ms)" by simp
  then show ?case
  proof (cases rule: conversation_ConsE)
    case plain
    with Cons show ?thesis by simp
  next
    case round
    with Cons.prems(2) assistant_role show ?thesis by auto
  qed
qed simp

lemma plain_append:
  "\<forall>t \<in> set ts. msgRole t \<notin> {''assistant'', ''tool''} \<Longrightarrow> protocolRounds used ms \<Longrightarrow> protocolRounds used (ts @ ms)"
  by (induction ts) (auto intro: protocolRounds.Plain)

lemma takeWhile_results:
  "\<forall>r \<in> set results. isToolRole r \<Longrightarrow> takeWhile isToolRole (results @ ms) = results @ takeWhile isToolRole ms
   \<and> dropWhile isToolRole (results @ ms) = dropWhile isToolRole ms"
  by (induction results) auto

lemma chosen_Cons: "chosenMessages (u # us) (b # bs) = (if b then puMessages u else []) @ chosenMessages us bs"
  by (simp add: chosenMessages_def)

lemma chosen_empty [simp]: "chosenMessages units [] = []" "chosenMessages [] sel = []"
  by (simp_all add: chosenMessages_def)

lemma selection_conversation:
  "protocolRounds used ms \<Longrightarrow> protocolRounds used (chosenMessages (buildPromptUnits env model ms) sel)"
proof (induction env model ms arbitrary: used sel rule: buildPromptUnits.induct)
  case (1 env model)
  then show ?case by (simp add: protocolRounds.Done)
next
  case (2 env model m ms)
  note conv = 2(3) and ih_single = 2(1) and ih_calls = 2(2)
  show ?case
  proof (cases sel)
    case Nil
    then show ?thesis by (simp add: protocolRounds.Done)
  next
    case (Cons b bs)
    show ?thesis
    proof (cases "msgToolCalls m = []")
      case nocalls: True
      have ids: "callIdentities m = []" using nocalls by (simp add: callIdentities_def)
      from conv have rest: "protocolRounds used ms \<and> msgRole m \<noteq> ''tool''"
        by (cases rule: conversation_ConsE) (auto simp: ids)
      with ih_single [OF nocalls] have ih: "protocolRounds used (chosenMessages (buildPromptUnits env model ms) bs)" by simp
      have "protocolRounds used (m # chosenMessages (buildPromptUnits env model ms) bs)"
      proof (cases "msgRole m = ''assistant''")
        case True
        from protocolRounds.Round [of m used "[]"] True ih show ?thesis by (simp add: ids)
      next
        case False
        with rest ih show ?thesis by (intro protocolRounds.Plain) auto
      qed
      with ih show ?thesis using nocalls by (simp add: Cons chosen_Cons makeUnit_def)
    next
      case calls: False
      let ?T = "takeWhile isToolRole ms" and ?D = "dropWhile isToolRole ms"
      have "\<forall>t \<in> set ?T. isToolRole t" by (auto dest: set_takeWhileD)
      from conv show ?thesis
      proof (cases rule: conversation_ConsE)
        case plain
        then have "protocolRounds used (?T @ ?D)" by simp
        from plain_prefix [OF this] have pl: "protocolRounds used ?D" "\<forall>t \<in> set ?T. msgRole t \<notin> {''assistant'', ''tool''}"
          by (auto dest: set_takeWhileD)
        from ih_calls [OF calls pl(1)] have ih: "protocolRounds used (chosenMessages (buildPromptUnits env model ?D) bs)" by simp
        then have "protocolRounds used (m # ?T @ chosenMessages (buildPromptUnits env model ?D) bs)"
          using plain pl(2) by (intro protocolRounds.Plain plain_append) auto
        with ih show ?thesis using calls by (simp add: Cons chosen_Cons makeUnit_def)
      next
        case (round results ms')
        have tools: "\<forall>r \<in> set results. isToolRole r" using round tool_role by blast
        note tw = takeWhile_results [OF tools, of ms']
        let ?T' = "takeWhile isToolRole ms'" and ?used = "used \<union> set (callIdentities m)"
        have "protocolRounds ?used (?T' @ dropWhile isToolRole ms')" using round by simp
        from plain_prefix [OF this] have pl: "protocolRounds ?used ?D" "\<forall>t \<in> set ?T'. msgRole t \<notin> {''assistant'', ''tool''}"
          using tw round(1) by (auto dest: set_takeWhileD)
        have ih: "protocolRounds ?used (chosenMessages (buildPromptUnits env model ?D) bs)"
          by (rule ih_calls [OF calls pl(1)])
        have "protocolRounds ?used (?T' @ chosenMessages (buildPromptUnits env model ?D) bs)" by (rule plain_append [OF pl(2) ih])
        then have "protocolRounds used (m # results @ ?T' @ chosenMessages (buildPromptUnits env model ?D) bs)"
          using round by (intro protocolRounds.Round) auto
        moreover have "protocolRounds used (chosenMessages (buildPromptUnits env model ?D) bs)"
          by (rule conversation_antimono [OF ih]) simp
        ultimately show ?thesis using calls tw round(1) by (simp add: Cons chosen_Cons makeUnit_def)
      qed
    qed
  qed
qed

subsection \<open>Properties\<close>

text \<open>
  The units kept: the required ones, some anchors among at most four, and the units of a recent window without
  holes. A unit of no tokens may be missing.
\<close>

definition keptUnits :: "budgetEnv \<Rightarrow> promptUnit list \<Rightarrow> selection \<Rightarrow> bool" where
  "keptUnits env units s \<longleftrightarrow>
     (\<exists>j \<le> lastUserUnit units. \<exists>A \<subseteq> set (anchorIndices env units (lastUserUnit units)).
        chosenSet s = {i \<in> requiredUnits units. puTokens (units ! i) \<noteq> 0} \<union> A
          \<union> {i. j \<le> i \<and> i < lastUserUnit units \<and> \<not> puInstruction (units ! i) \<and> puTokens (units ! i) \<noteq> 0})"

definition acceptedSelection :: "budgetEnv \<Rightarrow> promptUnit list \<Rightarrow> nat \<Rightarrow> oaiMsg list \<Rightarrow> promptBudgetStats \<Rightarrow> bool" where
  "acceptedSelection env units n out st \<longleftrightarrow>
     (\<exists>s. out = chosenMessages units (slChosen s) \<and> selInv units s \<and> keptUnits env units s
        \<and> psPromptTokens st = slUsed s \<and> slUsed s \<le> psPromptBudget st \<and> psTaskAnchorTokens st \<le> maxTaskAnchorTokens
        \<and> psSelectedMessages st = length out \<and> psDroppedMessages st = n - length out)"

lemma selection_shape:
  fixes env :: budgetEnv and model :: string and messages :: "oaiMsg list"
  assumes "messages \<noteq> []" and sel: "selectPromptMessages env messages model tools attachments continuing = (out, st)"
  defines "units \<equiv> buildPromptUnits env model messages"
  shows "psPromptBudget st = configuredInputBudgetTokens env model - psToolTokens st - psAttachmentTokens st - promptBudgetReserveTokens"
    and "psExceededReason st \<noteq> None \<longleftrightarrow> psPromptBudget st < minimumPromptBudgetTokens
          \<or> psPromptBudget st < tokensOf units (requiredUnits units)"
    and "psExceededReason st = None \<Longrightarrow> acceptedSelection env units (length messages) out st"
proof -
  define tt where "tt = (if tools = [] then 0 else tokensIn env model (beTools env tools))"
  define ta where "ta = (if attachments = [] then 0 else attachmentBudgetTokens env model attachments)"
  define budget where "budget = configuredInputBudgetTokens env model - tt - ta - promptBudgetReserveTokens"
  have nn: "nonneg units" unfolding units_def by (rule units_nonneg)
  have ne: "units \<noteq> []" using assms(1) by (simp add: units_def units_empty)
  have sel': "(if budget < minimumPromptBudgetTokens then ([], st0 (Some ''tool definitions or attachments leave too little prompt budget''))
      else case selectUnitsWithin env units budget continuing of
             Exceeds r \<Rightarrow> ([], st0 (Some r))
           | Fits s \<Rightarrow> let o' = chosenMessages units (slChosen s)
               in (o', (st0 None)\<lparr>psSelectedMessages := length o', psDroppedMessages := length messages - length o',
                       psPromptTokens := slUsed s, psTaskAnchorTokens := slAnchorTokens s, psAnchoredMessages := slAnchored s\<rparr>)) = (out, st)"
    if "st0 = (\<lambda>r. \<lparr>psOriginalMessages = length messages, psContinuing = continuing, psPromptBudget = budget, psToolTokens = tt,
      psAttachmentTokens = ta, psPromptTokens = 0, psSelectedMessages = 0, psDroppedMessages = 0, psTaskAnchorTokens = 0,
      psAnchoredMessages = 0, psExceededReason = r\<rparr>)" for st0
    using sel assms(1) unfolding selectPromptMessages_def Let_def tt_def [symmetric] ta_def [symmetric] budget_def [symmetric]
      units_def [symmetric] that
    by (cases "budget < minimumPromptBudgetTokens"; cases "selectUnitsWithin env units budget continuing") simp_all
  note sel' = sel' [OF refl]
  have law: "\<not> budget < minimumPromptBudgetTokens \<Longrightarrow> case selectUnitsWithin env units budget continuing of
      Exceeds _ \<Rightarrow> budget < tokensOf units (requiredUnits units)
    | Fits s \<Rightarrow> selInv units s \<and> slUsed s \<le> budget \<and> tokensOf units (requiredUnits units) \<le> budget
        \<and> slAnchorTokens s \<le> maxTaskAnchorTokens \<and> keptUnits env units s"
    unfolding keptUnits_def by (rule selection_outcome [OF nn ne]) (simp add: minimumPromptBudgetTokens_def)
  show "psPromptBudget st = configuredInputBudgetTokens env model - psToolTokens st - psAttachmentTokens st - promptBudgetReserveTokens"
    using sel' by (auto simp: budget_def Let_def split: if_splits budgetVerdict.splits)
  have b: "psPromptBudget st = budget" using sel' by (auto simp: Let_def split: if_splits budgetVerdict.splits)
  show "psExceededReason st \<noteq> None \<longleftrightarrow> psPromptBudget st < minimumPromptBudgetTokens
          \<or> psPromptBudget st < tokensOf units (requiredUnits units)"
    using sel' law unfolding b by (auto simp: Let_def split: if_splits budgetVerdict.splits)
  show "acceptedSelection env units (length messages) out st" if "psExceededReason st = None"
  proof -
    from sel' that have nb: "\<not> budget < minimumPromptBudgetTokens" by (auto split: if_splits)
    with sel' that obtain s where s: "selectUnitsWithin env units budget continuing = Fits s"
      by (auto simp: Let_def split: budgetVerdict.splits)
    with law [OF nb] sel' nb show ?thesis unfolding acceptedSelection_def b by (auto simp: Let_def intro!: exI [of _ s])
  qed
qed

text \<open>C25: the prompt respects the input budget. When messages are selected, the tokens reported for the prompt are
  the tokens of exactly the selected messages; together with tools, attachments and the reserve they stay within
  the configured budget; the anchors take at most 4096 of them; selected and dropped messages add up.\<close>

theorem prompt_within_budget:
  assumes "messages \<noteq> []" and "selectPromptMessages env messages model tools attachments continuing = (out, st)"
    and "psExceededReason st = None"
  shows "psPromptTokens st = messageCost env model out
    \<and> psToolTokens st + psAttachmentTokens st + messageCost env model out + 2048 \<le> configuredInputBudgetTokens env model
    \<and> psTaskAnchorTokens st \<le> 4096
    \<and> psSelectedMessages st = length out \<and> psDroppedMessages st = length messages - length out"
proof -
  let ?units = "buildPromptUnits env model messages"
  note shape = selection_shape [OF assms(1,2)]
  obtain s where s: "out = chosenMessages ?units (slChosen s)" "selInv ?units s" "psPromptTokens st = slUsed s"
    "slUsed s \<le> psPromptBudget st" "psTaskAnchorTokens st \<le> maxTaskAnchorTokens"
    "psSelectedMessages st = length out" "psDroppedMessages st = length messages - length out"
    using shape(3) [OF assms(3)] unfolding acceptedSelection_def by blast
  have "messageCost env model out = slUsed s"
    using chosen_cost [of "slChosen s" ?units env model] s(2) units_cost [of _ env model messages]
    unfolding s(1) by (simp add: selInv_def chosenSet_def)
  with s shape(1) show ?thesis by (simp add: maxTaskAnchorTokens_def promptBudgetReserveTokens_def)
qed

text \<open>A request is refused for its size exactly when it must be: when tools and attachments leave less than 8192
  tokens, or the units that cannot be dropped, all instructions and the current turn with its tool loop, do not fit.\<close>

lemma prompt_refused_iff:
  assumes "messages \<noteq> []" and "selectPromptMessages env messages model tools attachments continuing = (out, st)"
  shows "psExceededReason st \<noteq> None \<longleftrightarrow> psPromptBudget st < 8192
    \<or> psPromptBudget st < tokensOf (buildPromptUnits env model messages) (requiredUnits (buildPromptUnits env model messages))"
  using selection_shape(2) [OF assms] by (simp add: minimumPromptBudgetTokens_def)

text \<open>C26: what the selection keeps. The selected messages are whole units of the transcript in their order: every
  instruction, the last user turn with everything after it, and a window of recent history without holes; before
  the window only task anchors are kept, at most four. (Units without tokens may be left out.)\<close>

theorem prompt_keeps_contract:
  fixes env :: budgetEnv and model :: string and messages :: "oaiMsg list"
  assumes "messages \<noteq> []" and "selectPromptMessages env messages model tools attachments continuing = (out, st)"
    and "psExceededReason st = None"
  defines "units \<equiv> buildPromptUnits env model messages"
  shows "\<exists>chosen j. length chosen = length units \<and> out = chosenMessages units chosen \<and> j \<le> lastUserUnit units
    \<and> (\<forall>i < length units. puTokens (units ! i) \<noteq> 0 \<longrightarrow>
         (puInstruction (units ! i) \<or> lastUserUnit units \<le> i \<or> j \<le> i \<longrightarrow> chosen ! i))
    \<and> card {i. i < j \<and> chosen ! i \<and> \<not> puInstruction (units ! i)} \<le> 4
    \<and> (\<forall>i < j. chosen ! i \<and> \<not> puInstruction (units ! i) \<longrightarrow> durableTaskAnchorUnit env (units ! i))"
proof -
  obtain s where s: "out = chosenMessages units (slChosen s)" "selInv units s" "keptUnits env units s"
    using selection_shape(3) [OF assms(1-3)] unfolding acceptedSelection_def units_def by blast
  define k where "k = lastUserUnit units"
  obtain j A where ja: "j \<le> k" "A \<subseteq> set (anchorIndices env units k)"
    "chosenSet s = {i \<in> requiredUnits units. puTokens (units ! i) \<noteq> 0} \<union> A
          \<union> {i. j \<le> i \<and> i < k \<and> \<not> puInstruction (units ! i) \<and> puTokens (units ! i) \<noteq> 0}"
    using s(3) unfolding keptUnits_def k_def by blast
  have "units \<noteq> []" using assms(1) by (simp add: units_def units_empty)
  then have kn: "k < length units" by (simp add: k_def lastUser_bound)
  have ch: "slChosen s ! i \<longleftrightarrow> i \<in> chosenSet s" if "i < length units" for i using chosen_iff [OF s(2) that] .
  have early: "i \<in> A" if "i < j" "slChosen s ! i" "\<not> puInstruction (units ! i)" for i
  proof -
    have "i < length units" using that(1) ja(1) kn by linarith
    with ch that(2) have "i \<in> chosenSet s" by blast
    moreover have "\<not> k \<le> i" "\<not> j \<le> i" using that(1) ja(1) by linarith+
    ultimately show ?thesis using that(3) unfolding ja(3) requiredUnits_def k_def by blast
  qed
  have keep: "slChosen s ! i" if "i < length units" "puTokens (units ! i) \<noteq> 0"
      "puInstruction (units ! i) \<or> k \<le> i \<or> j \<le> i" for i
  proof -
    have "i \<in> chosenSet s"
    proof (cases "puInstruction (units ! i) \<or> k \<le> i")
      case True
      with that(1,2) show ?thesis unfolding ja(3) requiredUnits_def k_def by blast
    next
      case False
      then have "i < k" by linarith
      with False that(2,3) show ?thesis unfolding ja(3) by blast
    qed
    with ch [OF that(1)] show ?thesis by blast
  qed
  note anchors = anchor_indices [of env units k]
  have "card {i. i < j \<and> slChosen s ! i \<and> \<not> puInstruction (units ! i)} \<le> card (set (anchorIndices env units k))"
    by (rule card_mono) (use early ja(2) in auto)
  with anchors have four: "card {i. i < j \<and> slChosen s ! i \<and> \<not> puInstruction (units ! i)} \<le> 4" by linarith
  have "durableTaskAnchorUnit env (units ! i)" if "i < j" "slChosen s ! i" "\<not> puInstruction (units ! i)" for i
    using early [OF that] ja(2) anchors by blast
  note anchored = this
  have len: "length (slChosen s) = length units" using s(2) by (simp add: selInv_def)
  show ?thesis
    by (rule exI [of _ "slChosen s"], rule exI [of _ j], intro conjI)
       (use len s(1) ja(1) four keep anchored in \<open>simp_all add: k_def\<close>)
qed

text \<open>C27: trimming never breaks the tool protocol. If the transcript passes the protocol check, so do the messages
  selected from it, whatever the budget: no result loses its call and no call its result.\<close>

theorem selection_keeps_protocol:
  assumes "validateToolConversation messages = None"
  shows "validateToolConversation (fst (selectPromptMessages env messages model tools attachments continuing)) = None"
proof (cases "messages = []")
  case True
  with assms show ?thesis by (simp add: selectPromptMessages_def)
next
  case False
  obtain out st where o: "selectPromptMessages env messages model tools attachments continuing = (out, st)" by force
  have c: "protocolRounds {} messages"
    using assms checked_conversation [of 0 messages "[]"] by (simp add: validateToolConversation_def)
  have "protocolRounds {} out"
  proof (cases "psExceededReason st")
    case None
    from selection_shape(3) [OF False o None] obtain chosen
      where "out = chosenMessages (buildPromptUnits env model messages) chosen" unfolding acceptedSelection_def by blast
    with selection_conversation [OF c] show ?thesis by simp
  next
    case (Some r)
    with o have "out = []" by (auto simp: selectPromptMessages_def Let_def split: if_splits budgetVerdict.splits)
    then show ?thesis by (simp add: protocolRounds.Done)
  qed
  then show ?thesis using conversation_checked [of "{}" out "[]" 0] by (simp add: o validateToolConversation_def)
qed

subsection \<open>An example\<close>

definition plainBudget :: budgetEnv where
  "plainBudget = \<lparr>beEncode = (\<lambda>_. None), beSettings = defaultRuntimeSettings (\<lambda>_. None), beEnviron = (\<lambda>_. None),
     beSprint = (\<lambda>_. []), beTools = (\<lambda>_. [])\<rparr>"

definition twoMessages :: "oaiMsg list" where
  "twoMessages = [emptyMsg\<lparr>msgRole := ''system'', msgContent := JStr ''be brief''\<rparr>,
                  emptyMsg\<lparr>msgRole := ''user'', msgContent := JStr ''hi''\<rparr>]"

abbreviation selectTwo :: "oaiMsg list \<times> promptBudgetStats" where
  "selectTwo \<equiv> selectPromptMessages plainBudget twoMessages ''m365-copilot'' [] [] False"

lemma two_fit: "psExceededReason (snd selectTwo) = None"
proof -
  let ?units = "buildPromptUnits plainBudget ''m365-copilot'' twoMessages"
  have limit: "configuredInputBudgetTokens plainBudget ''m365-copilot'' = 96000" by code_simp
  have len: "length ?units = 2" and tok: "puTokens (?units ! 0) = 5" "puTokens (?units ! 1) = 3" by code_simp+
  have "tokensOf ?units (requiredUnits ?units) \<le> tokensOf ?units {..<length ?units}"
    by (rule tokensOf_mono [OF units_nonneg]) (auto simp: requiredUnits_def)
  also have "\<dots> = 8" using tok by (simp add: tokensOf_def len lessThan_Suc numeral_2_eq_2)
  finally have small: "tokensOf ?units (requiredUnits ?units) \<le> 8" .
  have "?units \<noteq> []" using len by auto
  from selection_outcome [OF units_nonneg this, of 93952 plainBudget False] small
  obtain s where "selectUnitsWithin plainBudget ?units 93952 False = Fits s" by (auto split: budgetVerdict.splits)
  then show ?thesis
    by (simp add: selectPromptMessages_def Let_def limit promptBudgetReserveTokens_def minimumPromptBudgetTokens_def)
qed

lemma two_given: "twoMessages \<noteq> []" "selectTwo = (fst selectTwo, snd selectTwo)"
  by (simp_all add: twoMessages_def)

theorem prompt_within_budget_witness:
  "psSelectedMessages (snd selectTwo) = length (fst selectTwo)
   \<and> messageCost plainBudget ''m365-copilot'' (fst selectTwo) + 2048 \<le> configuredInputBudgetTokens plainBudget ''m365-copilot''
        - psToolTokens (snd selectTwo) - psAttachmentTokens (snd selectTwo)"
  using prompt_within_budget [OF two_given two_fit] by simp

lemma prompt_refused_iff_witness:
  "\<not> psPromptBudget (snd selectTwo) < 8192"
  using prompt_refused_iff [OF two_given] two_fit by simp

theorem prompt_keeps_contract_witness:
  "\<exists>chosen. length chosen = 2
     \<and> fst selectTwo = chosenMessages (buildPromptUnits plainBudget ''m365-copilot'' twoMessages) chosen \<and> chosen ! 0"
proof -
  let ?units = "buildPromptUnits plainBudget ''m365-copilot'' twoMessages"
  have u: "length ?units = 2" "puTokens (?units ! 0) = 5" "puInstruction (?units ! 0)" by code_simp+
  from prompt_keeps_contract [OF two_given two_fit] obtain chosen where "length chosen = length ?units"
    "fst selectTwo = chosenMessages ?units chosen"
    "\<forall>i < length ?units. puTokens (?units ! i) \<noteq> 0 \<longrightarrow> puInstruction (?units ! i) \<longrightarrow> chosen ! i" by blast
  with u show ?thesis by (intro exI [of _ chosen]) simp
qed

theorem selection_keeps_protocol_witness:
  "validateToolConversation (fst selectTwo) = None"
proof -
  have "validateToolConversation twoMessages = None" by code_simp
  then show ?thesis by (rule selection_keeps_protocol)
qed

end
