(* ===== verification/ProtocolRequests.thy ===== *)
theory ProtocolRequests
  imports ResponseSession PromptBudget
begin

text \<open>
  The requests of the three protocols the gateway speaks and their conversion into the common one:
  internal/web/protocol_compat.go with toolProgress of tool_progress.go and the request type, normalizeLegacyTools
  of server.go. JSON decoding, SHA-256 and the quoting of \<open>%q\<close> are arguments. An optional value is an option; a
  floating-point number is the text encoding/json prints for it, so that 1 is the text 1. isEnvironmentContextMessage
  and progressJSON are not called by the program.
\<close>

record protoEnv =
  peUnmarshal :: "string \<Rightarrow> json option"
  peSha :: digest
  peQuote :: "string \<Rightarrow> string"

subsection \<open>The common request\<close>

datatype reasoningConfig = reasoningConfig (rcEffort: string) (rcSummary: string)

record oaiReq =
  oqModel :: string
  oqMessages :: "oaiMsg list"
  oqStream :: bool
  oqInstructions :: string
  oqUser :: string
  oqAccountID :: string
  oqConversationID :: string
  oqSessionID :: string
  oqSessionKey :: string
  oqSessionWriteKey :: string
  oqToolContinuation :: bool
  oqRestoreHistory :: bool
  oqAttachments :: "attachment list"
  oqTools :: "offeredTool list"
  oqFunctions :: "string list"
  oqToolChoice :: json
  oqFunctionCall :: json
  oqReasoning :: "reasoningConfig option"
  oqReasoningEffort :: string
  oqParallelToolCalls :: "bool option"
  oqMaxOutputTokens :: "int option"
  oqMaxTokens :: "int option"
  oqMaxCompletionTokens :: "int option"

definition emptyReq :: oaiReq where
  "emptyReq =
     \<lparr>oqModel = [], oqMessages = [], oqStream = False, oqInstructions = [], oqUser = [], oqAccountID = [],
      oqConversationID = [], oqSessionID = [], oqSessionKey = [], oqSessionWriteKey = [], oqToolContinuation = False,
      oqRestoreHistory = False, oqAttachments = [], oqTools = [], oqFunctions = [], oqToolChoice = JNull,
      oqFunctionCall = JNull, oqReasoning = None, oqReasoningEffort = [], oqParallelToolCalls = None,
      oqMaxOutputTokens = None, oqMaxTokens = None, oqMaxCompletionTokens = None\<rparr>"

definition normalizeLegacyTools :: "oaiReq \<Rightarrow> oaiReq" where
  "normalizeLegacyTools body =
     (let body = (if oqTools body = [] \<and> oqFunctions body \<noteq> []
                  then body\<lparr>oqTools := map (\<lambda>f. \<lparr>otType = ''function'', otFunction = f\<rparr>) (oqFunctions body)\<rparr>
                  else body)
      in if oqToolChoice body = JNull \<and> oqFunctionCall body \<noteq> JNull
         then body\<lparr>oqToolChoice := oqFunctionCall body\<rparr> else body)"

definition plainMessage :: "string \<Rightarrow> json \<Rightarrow> oaiMsg" where
  "plainMessage role content =
     \<lparr>msgRole = role, msgContent = content, msgName = [], msgToolCallID = [], msgToolCalls = []\<rparr>"

definition toolMessage :: "string \<Rightarrow> json \<Rightarrow> oaiMsg" where
  "toolMessage callId content = (plainMessage ''tool'' content)\<lparr>msgToolCallID := callId\<rparr>"

definition withRequestInstructions :: "oaiMsg list \<Rightarrow> string \<Rightarrow> oaiMsg list" where
  "withRequestInstructions messages instructions =
     (if blank instructions then messages else plainMessage ''developer'' (JStr instructions) # messages)"

subsection \<open>Tool definitions\<close>

definition firstNonEmptyString :: "json list \<Rightarrow> string" where
  "firstNonEmptyString vs =
     (case filter (\<lambda>s. \<not> blank s) (map asString vs) of [] \<Rightarrow> [] | s # _ \<Rightarrow> s)"

definition firstMap :: "json list \<Rightarrow> jsonObject option" where
  "firstMap vs =
     (case List.map_filter (\<lambda>v. case v of JObj m \<Rightarrow> Some m | _ \<Rightarrow> None) vs of [] \<Rightarrow> None | m # _ \<Rightarrow> Some m)"

definition functionTool :: "jsonObject \<Rightarrow> string + offeredTool list" where
  "functionTool t =
     (let fn = asObject (member t ''function'');
          name = firstNonEmptyString [member t ''name'', member fn ''name'']
      in if name = [] then Inl ''function tool name required''
         else
           let description = firstNonEmptyString [member t ''description'', member fn ''description''];
               parameters = firstMap [member t ''parameters'', member t ''input_schema'', member fn ''parameters'', member fn ''input_schema''];
               f = [(''name'', JStr name)]
                   @ (if description = [] then [] else [(''description'', JStr description)])
                   @ (case parameters of Some p \<Rightarrow> [(''parameters'', JObj p)] | None \<Rightarrow> [])
           in Inr [\<lparr>otType = ''function'', otFunction = mustJSON (JObj f)\<rparr>])"

text \<open>The results of a list of parsers, up to the first error.\<close>

fun allTools :: "('a \<Rightarrow> string + 'b list) \<Rightarrow> 'a list \<Rightarrow> string + 'b list" where
  "allTools f [] = Inr []"
| "allTools f (x # xs) =
     (case f x of Inl e \<Rightarrow> Inl e | Inr ts \<Rightarrow> (case allTools f xs of Inl e \<Rightarrow> Inl e | Inr us \<Rightarrow> Inr (ts @ us)))"

lemma allTools_cong [fundef_cong]:
  "xs = ys \<Longrightarrow> (\<And>x. x \<in> set ys \<Longrightarrow> f x = g x) \<Longrightarrow> allTools f xs = allTools g ys"
  by (induction xs arbitrary: ys) (auto split: sum.split)

definition objectsIn :: "json list \<Rightarrow> jsonObject list" where
  "objectsIn vs = List.map_filter (\<lambda>v. case v of JObj m \<Rightarrow> Some m | _ \<Rightarrow> None) vs"

lemma objectsIn_set [simp]: "m \<in> set (objectsIn vs) \<longleftrightarrow> JObj m \<in> set vs"
  by (induction vs) (auto simp: objectsIn_def List.map_filter_simps split: json.splits)

lemma size_arrayElement: "v \<in> set vs \<Longrightarrow> size v < size (JArr vs)"
  by (induction vs) auto

lemma size_subtool: "map_of t k = Some (JArr subs) \<Longrightarrow> JObj m \<in> set subs \<Longrightarrow> size (JObj m) < size (JObj t)"
  using size_arrayElement [of "JObj m" subs] size_member [of k "JArr subs" t]
  by (auto dest!: map_of_SomeD)

function parseResponsesTool :: "(string \<Rightarrow> string) \<Rightarrow> jsonObject \<Rightarrow> string + offeredTool list" where
  "parseResponsesTool quote t =
     (let typ = memberString t ''type''
      in if typ = ''namespace'' then
           (case map_of t ''tools'' of
              Some (JArr subs) \<Rightarrow> allTools (parseResponsesTool quote) (objectsIn subs)
            | _ \<Rightarrow> Inr [])
         else if typ \<notin> {[], ''function'', ''custom''} then Inl (''unsupported tool type '' @ quote typ)
         else functionTool t)"
  by pat_completeness auto
termination
  by (relation "measure (\<lambda>(_, t). size (JObj t))") (auto dest: size_subtool simp del: json.size)

declare parseResponsesTool.simps [simp del]

subsection \<open>Progress of a tool\<close>

record toolProgress =
  tpCallID :: string
  tpPhase :: string
  tpMessage :: string
  tpOutput :: string
  tpDone :: bool

definition parseToolProgress :: "jsonObject \<Rightarrow> toolProgress option" where
  "parseToolProgress v =
     (let p = \<lparr>tpCallID = memberString v ''call_id'', tpPhase = memberString v ''phase'',
               tpMessage = memberString v ''message'', tpOutput = memberString v ''output'',
               tpDone = (member v ''done'' = JBool True)\<rparr>
      in if memberString v ''type'' \<noteq> ''function_call_progress'' \<or> blank (tpCallID p) \<or> blank (tpMessage p) then None
         else Some p)"

subsection \<open>Requests of the Responses protocol\<close>

record responsesRequest = threadRef +
  rqModel :: string
  rqInstructions :: json
  rqInput :: json
  rqTools :: "jsonObject list"
  rqToolChoice :: json
  rqParallelToolCalls :: "bool option"
  rqMaxOutputTokens :: "int option"
  rqStream :: bool
  rqUser :: string
  rqReasoning :: "reasoningConfig option"
  rqPromptCacheKey :: string
  rqMetadata :: "(string \<times> string) list"
  rqBackground :: "bool option"
  rqContextManagement :: "json list"
  rqInclude :: "string list"
  rqPrompt :: json
  rqModeration :: json
  rqStore :: "bool option"
  rqStreamOptions :: jsonObject
  rqTemperature :: "string option"
  rqText :: jsonObject
  rqTopLogprobs :: "int option"
  rqTopP :: "string option"
  rqTruncation :: string
  rqServiceTier :: string
  rqPromptCacheOptions :: jsonObject
  rqPromptCacheRetention :: string
  rqMaxToolCalls :: "int option"

definition emptyResponses :: responsesRequest where
  "emptyResponses =
     \<lparr>trNewConversation = False, trPreviousResponseID = [], trClientMetadata = [], trConversation = JNull,
      rqModel = [], rqInstructions = JNull, rqInput = JNull, rqTools = [], rqToolChoice = JNull,
      rqParallelToolCalls = None, rqMaxOutputTokens = None, rqStream = False, rqUser = [], rqReasoning = None,
      rqPromptCacheKey = [], rqMetadata = [], rqBackground = None, rqContextManagement = [], rqInclude = [],
      rqPrompt = JNull, rqModeration = JNull, rqStore = None, rqStreamOptions = [], rqTemperature = None, rqText = [],
      rqTopLogprobs = None, rqTopP = None, rqTruncation = [], rqServiceTier = [], rqPromptCacheOptions = [],
      rqPromptCacheRetention = [], rqMaxToolCalls = None\<rparr>"

definition knownResponsesRequestFields :: "string list" where
  "knownResponsesRequestFields =
     [''model'', ''instructions'', ''input'', ''tools'', ''tool_choice'',
      ''parallel_tool_calls'', ''max_output_tokens'', ''stream'', ''user'',
      ''reasoning'', ''previous_response_id'', ''conversation'', ''new_conversation'',
      ''prompt_cache_key'', ''client_metadata'', ''metadata'', ''background'',
      ''context_management'', ''include'', ''prompt'', ''moderation'', ''store'',
      ''stream_options'', ''temperature'', ''text'', ''top_logprobs'', ''top_p'',
      ''truncation'', ''service_tier'', ''safety_identifier'', ''prompt_cache_options'',
      ''prompt_cache_retention'', ''max_tool_calls'']"

definition textFormatError :: "jsonObject \<Rightarrow> string option" where
  "textFormatError txt =
     (if txt = [] then None
      else if length txt \<noteq> 1 then Some ''structured text or verbosity controls are not supported''
      else case member txt ''verbosity'' of
             JStr _ \<Rightarrow> None
           | _ \<Rightarrow> (case member txt ''format'' of
                    JObj fmt \<Rightarrow> if length fmt \<noteq> 1 \<or> member fmt ''type'' \<noteq> JStr ''text''
                                then Some ''structured text output is not supported'' else None
                  | _ \<Rightarrow> Some ''structured text output is not supported''))"

definition check :: "bool \<Rightarrow> string \<Rightarrow> string option" where
  "check bad e = (if bad then Some e else None)"

definition validateSemantics :: "(string \<Rightarrow> string) \<Rightarrow> responsesRequest \<Rightarrow> string list \<Rightarrow> string option" where
  "validateSemantics quote r flds =
     firstError id
       ([firstError (\<lambda>f. check (f \<notin> set knownResponsesRequestFields) (''unsupported parameter '' @ quote f)) flds,
         check (rqBackground r = Some True) ''background=true is not supported'',
         check (rqMaxToolCalls r \<noteq> None) ''max_tool_calls applies to built-in tools, which this gateway does not support'',
         check (rqContextManagement r \<noteq> [] \<or> rqPrompt r \<noteq> JNull \<or> rqModeration r \<noteq> JNull)
           ''requested Responses lifecycle or output extension is not supported'',
         firstError (\<lambda>i. check (i \<noteq> ''reasoning.encrypted_content'') (''include value '' @ quote i @ '' is not supported''))
           (rqInclude r),
         check (rqTemperature r \<notin> {None, Some ''1''}) ''temperature values other than 1 are not supported'',
         check (rqTopP r \<notin> {None, Some ''1''}) ''top_p values other than 1 are not supported'',
         check (rqTopLogprobs r \<notin> {None, Some 0}) ''top_logprobs is not supported'',
         check (rqTruncation r \<notin> {[], ''disabled''}) (''truncation='' @ quote (rqTruncation r) @ '' is not supported''),
         check (rqServiceTier r \<notin> {[], ''auto'', ''default''}) (''service_tier='' @ quote (rqServiceTier r) @ '' is not supported''),
         check (rqPromptCacheOptions r \<noteq> [] \<or> rqPromptCacheRetention r \<noteq> []) ''prompt cache policy controls are not supported'',
         (case rqReasoning r of
            Some c \<Rightarrow> check (rcSummary c \<notin> {[], ''auto''}) (''reasoning summary mode '' @ quote (rcSummary c) @ '' is not supported'')
          | None \<Rightarrow> None),
         firstError (\<lambda>(k, v). check (k \<noteq> ''include_obfuscation'' \<or> v \<noteq> JBool False)
                               (''stream option '' @ quote k @ '' is not supported'')) (rqStreamOptions r),
         textFormatError (rqText r),
         check (length (rqMetadata r) > 16) ''metadata supports at most 16 entries'',
         firstError (\<lambda>(k, v). check (length (runes k) > 64 \<or> length (runes v) > 512)
                               ''metadata key or value exceeds the supported length'') (rqMetadata r)])"

text \<open>A function call item as a call of the common protocol; arguments given as text are decoded when they can be.\<close>

definition callObject :: "json \<Rightarrow> json \<Rightarrow> string \<Rightarrow> jsonObject" where
  "callObject ident name args =
     [(''function'', JObj [(''arguments'', JStr args), (''name'', name)]), (''id'', ident), (''type'', JStr ''function'')]"

definition functionCall :: "protoEnv \<Rightarrow> jsonObject \<Rightarrow> jsonObject" where
  "functionCall env m =
     (let args = member m ''arguments'';
          args = (case args of JStr s \<Rightarrow> (case peUnmarshal env s of Some x \<Rightarrow> x | None \<Rightarrow> args) | _ \<Rightarrow> args)
      in callObject (JStr (memberString m ''call_id'')) (JStr (memberString m ''name'')) (mustJSON args))"

text \<open>Adjacent calls become one assistant turn.\<close>

definition callTurn :: "oaiMsg \<Rightarrow> bool" where
  "callTurn m \<longleftrightarrow> msgRole m = ''assistant'' \<and> msgContent m = JNull \<and> msgToolCalls m \<noteq> []"

definition appendCall :: "jsonObject \<Rightarrow> oaiMsg list \<Rightarrow> oaiMsg list" where
  "appendCall call ms =
     (if ms \<noteq> [] \<and> callTurn (last ms)
      then butlast ms @ [(last ms)\<lparr>msgToolCalls := msgToolCalls (last ms) @ [call]\<rparr>]
      else ms @ [(plainMessage ''assistant'' JNull)\<lparr>msgToolCalls := [call]\<rparr>])"

abbreviation addMessage :: "oaiMsg \<Rightarrow> oaiReq \<Rightarrow> oaiReq" where
  "addMessage m q \<equiv> q\<lparr>oqMessages := oqMessages q @ [m]\<rparr>"

definition convertItem :: "protoEnv \<Rightarrow> bool \<Rightarrow> nat \<Rightarrow> json \<Rightarrow> oaiReq \<Rightarrow> string + oaiReq" where
  "convertItem env previousResponse index raw q =
     (case raw of
        JObj m \<Rightarrow>
          (let typ = memberString m ''type''
           in if typ = ''function_call_progress'' then
                (if parseToolProgress m = None then Inl ''invalid function_call_progress'' else Inr q)
              else if typ = ''function_call_output'' then
                (if blank (memberString m ''call_id'') \<or> member m ''output'' = JNull
                 then Inl ''function_call_output requires call_id and non-null output''
                 else Inr (addMessage (toolMessage (memberString m ''call_id'') (member m ''output''))
                             (if previousResponse then q\<lparr>oqToolContinuation := True\<rparr> else q)))
              else if typ = ''function_call'' then
                Inr (q\<lparr>oqMessages := appendCall (functionCall env m) (oqMessages q)\<rparr>)
              else if typ = ''additional_tools'' then
                (case allTools (parseResponsesTool (peQuote env)) (objectsIn (asArray (member m ''tools''))) of
                   Inl e \<Rightarrow> Inl e
                 | Inr ts \<Rightarrow> Inr (q\<lparr>oqTools := oqTools q @ ts\<rparr>))
              else if typ \<in> {[], ''message''} then
                (let role = memberString m ''role''
                 in Inr (addMessage (plainMessage (if role = [] then ''user'' else role) (member m ''content'')) q))
              else Inl (''unsupported input item type '' @ peQuote env typ))
      | _ \<Rightarrow> Inl (''input item '' @ showNat index @ '' must be an object''))"

fun convertItems :: "protoEnv \<Rightarrow> bool \<Rightarrow> nat \<Rightarrow> json list \<Rightarrow> oaiReq \<Rightarrow> string + oaiReq" where
  "convertItems env previousResponse index [] q = Inr q"
| "convertItems env previousResponse index (raw # items) q =
     (case convertItem env previousResponse index raw q of
        Inl e \<Rightarrow> Inl e
      | Inr q' \<Rightarrow> convertItems env previousResponse (index + 1) items q')"

definition convertInput :: "protoEnv \<Rightarrow> bool \<Rightarrow> json \<Rightarrow> oaiReq \<Rightarrow> string + oaiReq" where
  "convertInput env previousResponse input q =
     (case input of
        JStr v \<Rightarrow> if v = [] then Inl ''input required'' else Inr (addMessage (plainMessage ''user'' (JStr v)) q)
      | JArr items \<Rightarrow> convertItems env previousResponse 0 items q
      | _ \<Rightarrow> Inl ''input must be string or array'')"

definition responsesStart :: "protoEnv \<Rightarrow> responsesRequest \<Rightarrow> oaiReq" where
  "responsesStart env r =
     emptyReq\<lparr>oqModel := rqModel r, oqStream := rqStream r, oqToolChoice := rqToolChoice r, oqUser := rqUser r,
       oqSessionKey := stableSessionKey (peSha env) (threadRef.truncate r),
       oqRestoreHistory := \<not> blank (trPreviousResponseID r),
       oqParallelToolCalls := rqParallelToolCalls r, oqMaxOutputTokens := rqMaxOutputTokens r\<rparr>"

definition withInstructions :: "json \<Rightarrow> oaiReq \<Rightarrow> string + oaiReq" where
  "withInstructions v q =
     (case v of
        JNull \<Rightarrow> Inr q
      | JStr s \<Rightarrow> Inr (if blank s then q else q\<lparr>oqInstructions := s\<rparr>)
      | _ \<Rightarrow> Inl ''instructions must be a string'')"

definition responsesOpenAI :: "protoEnv \<Rightarrow> responsesRequest \<Rightarrow> string + oaiReq" where
  "responsesOpenAI env r =
     (let previousResponse = (\<not> blank (trPreviousResponseID r));
          q = responsesStart env r
      in if (case rqMaxOutputTokens r of Some n \<Rightarrow> n \<le> 0 | None \<Rightarrow> False)
         then Inl ''max_output_tokens must be greater than zero''
         else if previousResponse \<and> trConversation r \<noteq> JNull
         then Inl ''previous_response_id and conversation cannot both be provided''
         else if previousResponse \<and> trNewConversation r
         then Inl ''previous_response_id and new_conversation cannot both be provided''
         else
           let q = (case rqReasoning r of
                      Some c \<Rightarrow> q\<lparr>oqReasoning := Some c, oqReasoningEffort := rcEffort c\<rparr> | None \<Rightarrow> q)
           in case withInstructions (rqInstructions r) q of
                Inl e \<Rightarrow> Inl e
              | Inr q \<Rightarrow>
             (case convertInput env previousResponse (rqInput r) q of
                Inl e \<Rightarrow> Inl e
              | Inr q \<Rightarrow>
             (case allTools (parseResponsesTool (peQuote env)) (rqTools r) of
                Inl e \<Rightarrow> Inl e
              | Inr ts \<Rightarrow> Inr (q\<lparr>oqTools := oqTools q @ ts\<rparr>))))"

subsection \<open>Requests of the Anthropic protocol\<close>

datatype anthropicMessage = anthropicMessage (amRole: string) (amContent: json)

record anthropicTool =
  atName :: string
  atDescription :: string
  atInputSchema :: "jsonObject option"

record anthropicRequest =
  arModel :: string
  arSystem :: json
  arMessages :: "anthropicMessage list"
  arTools :: "anthropicTool list"
  arToolChoice :: json
  arStream :: bool
  arMaxTokens :: int

record anthropicParts =
  apText :: "json list"
  apCalls :: "jsonObject list"
  apResults :: "oaiMsg list"

definition anthropicBlock :: "json \<Rightarrow> anthropicParts \<Rightarrow> anthropicParts" where
  "anthropicBlock raw p =
     (case raw of
        JObj b \<Rightarrow>
          (let typ = memberString b ''type''
           in if typ = ''text'' then p\<lparr>apText := apText p @ [JObj b]\<rparr>
              else if typ = ''tool_use'' then
                p\<lparr>apCalls := apCalls p @ [callObject (member b ''id'') (member b ''name'') (mustJSON (member b ''input''))]\<rparr>
              else if typ = ''tool_result'' then
                p\<lparr>apResults := apResults p @ [toolMessage (memberString b ''tool_use_id'') (member b ''content'')]\<rparr>
              else p)
      | _ \<Rightarrow> p)"

text \<open>The tool results of a message come first, then its text and calls as one message.\<close>

definition anthropicMessages :: "anthropicMessage \<Rightarrow> string + oaiMsg list" where
  "anthropicMessages m =
     (case amContent m of
        JStr s \<Rightarrow> Inr [plainMessage (amRole m) (JStr s)]
      | JArr blocks \<Rightarrow>
          (let p = fold anthropicBlock blocks \<lparr>apText = [], apCalls = [], apResults = []\<rparr>
           in Inr (apResults p @ (if apText p = [] \<and> apCalls p = [] then []
                                  else [(plainMessage (amRole m) (JArr (apText p)))\<lparr>msgToolCalls := apCalls p\<rparr>])))
      | _ \<Rightarrow> Inl ''invalid anthropic content'')"

definition anthropicToolOf :: "anthropicTool \<Rightarrow> offeredTool" where
  "anthropicToolOf t =
     \<lparr>otType = ''function'',
      otFunction = mustJSON (JObj [(''name'', JStr (atName t)), (''description'', JStr (atDescription t)),
                                   (''parameters'', case atInputSchema t of Some s \<Rightarrow> JObj s | None \<Rightarrow> JNull)])\<rparr>"

definition anthropicChoice :: "json \<Rightarrow> json" where
  "anthropicChoice v =
     (case v of
        JObj c \<Rightarrow>
          (let typ = member c ''type''
           in if typ = JStr ''auto'' then JStr ''auto''
              else if typ = JStr ''any'' then JStr ''required''
              else if typ = JStr ''none'' then JStr ''none''
              else if typ = JStr ''tool'' then
                JObj [(''type'', JStr ''function''), (''function'', JObj [(''name'', member c ''name'')])]
              else JNull)
      | _ \<Rightarrow> JNull)"

definition anthropicOpenAI :: "anthropicRequest \<Rightarrow> string + oaiReq" where
  "anthropicOpenAI r =
     (case allTools anthropicMessages (arMessages r) of
        Inl e \<Rightarrow> Inl e
      | Inr ms \<Rightarrow>
          Inr (emptyReq\<lparr>oqModel := arModel r, oqStream := arStream r,
                 oqMessages := (if arSystem r = JNull then [] else [plainMessage ''system'' (arSystem r)]) @ ms,
                 oqTools := map anthropicToolOf (arTools r), oqToolChoice := anthropicChoice (arToolChoice r)\<rparr>))"

end
