(* ===== verification/ResponsesStream.thy ===== *)
theory ResponsesStream
  imports ProtocolRequests
begin

text \<open>
  The streaming adapter of the Responses protocol, streamResponsesFromReaderIDFields of
  internal/web/protocol_handlers.go with responsesResourceFields, and writeSSE of stream.go. The lines of the inner
  chat completion and the ticks of the heartbeat arrive one by one, each with its time; all events of one step are
  written at that time. Whether the n-th write succeeds, JSON decoding, the value of a call index, fresh identities and
  the clock are arguments. A failed write ends the function: the state is broken and no later event is sent.
\<close>

record streamEnv =
  seUnmarshal :: "string \<Rightarrow> json option"
  seIndex :: "string \<Rightarrow> int"
  seUuid :: "nat \<Rightarrow> string"
  seCreated :: int
  seInterval :: duration
  seWrites :: "nat \<Rightarrow> bool"

subsection \<open>The response resource\<close>

definition numberJSON :: "int \<Rightarrow> json" where
  "numberJSON n = JNum (showInt n)"

definition optionJSON :: "('a \<Rightarrow> json) \<Rightarrow> 'a option \<Rightarrow> json" where
  "optionJSON f v = (case v of Some x \<Rightarrow> f x | None \<Rightarrow> JNull)"

definition reasoningJSON :: "reasoningConfig \<Rightarrow> json" where
  "reasoningJSON c =
     JObj ((if rcEffort c = [] then [] else [(''effort'', JStr (rcEffort c))])
           @ (if rcSummary c = [] then [] else [(''summary'', JStr (rcSummary c))]))"

definition responsesResourceFields :: "responsesRequest \<Rightarrow> jsonObject" where
  "responsesResourceFields body =
     [(''instructions'', rqInstructions body),
      (''metadata'', JObj (map (\<lambda>(k, v). (k, JStr v)) (rqMetadata body))),
      (''max_output_tokens'', optionJSON numberJSON (rqMaxOutputTokens body)),
      (''parallel_tool_calls'', JBool (case rqParallelToolCalls body of Some b \<Rightarrow> b | None \<Rightarrow> True)),
      (''previous_response_id'', if trPreviousResponseID body = [] then JNull else JStr (trPreviousResponseID body)),
      (''reasoning'', optionJSON reasoningJSON (rqReasoning body)),
      (''store'', JBool (case rqStore body of Some b \<Rightarrow> b | None \<Rightarrow> True)),
      (''temperature'', JNum ''1''), (''text'', JObj [(''format'', JObj [(''type'', JStr ''text'')])]),
      (''tool_choice'', if rqToolChoice body = JNull then JStr ''auto'' else rqToolChoice body),
      (''tools'', JArr (map JObj (rqTools body))), (''top_p'', JNum ''1''), (''truncation'', JStr ''disabled'')]
     @ (if trConversation body = JNull then [] else [(''conversation'', trConversation body)])
     @ (if rqPromptCacheKey body = [] then [] else [(''prompt_cache_key'', JStr (rqPromptCacheKey body))])
     @ (if rqServiceTier body = [] then [] else [(''service_tier'', JStr (rqServiceTier body))])"

definition applyResponsesResourceFields :: "jsonObject \<Rightarrow> jsonObject \<Rightarrow> jsonObject" where
  "applyResponsesResourceFields response fs = fold (\<lambda>(k, v). AList.update k v) fs response"

text \<open>The identity, the model and the resource fields of the response being streamed.\<close>

record responseRef =
  rrID :: string
  rrModel :: string
  rrFields :: jsonObject

definition responseBase :: "streamEnv \<Rightarrow> responseRef \<Rightarrow> string \<Rightarrow> json list \<Rightarrow> jsonObject" where
  "responseBase env r status output =
     applyResponsesResourceFields
       [(''id'', JStr (rrID r)), (''object'', JStr ''response''), (''created_at'', numberJSON (seCreated env)),
        (''status'', JStr status), (''model'', JStr (rrModel r)), (''output'', JArr output),
        (''error'', JNull), (''incomplete_details'', JNull), (''usage'', JNull)]
       (rrFields r)"

subsection \<open>Events\<close>

text \<open>The events in the order of their first use; \<open>Terminal\<close> is completed, incomplete or failed.\<close>

datatype responseEvent =
    Created jsonObject
  | InProgress jsonObject
  | ItemAdded nat jsonObject
  | PartAdded nat string jsonObject
  | TextDelta nat string string
  | ArgumentsDelta nat string string
  | Terminal string jsonObject
  | TextDone nat string string
  | PartDone nat string jsonObject
  | ItemDone nat jsonObject
  | ArgumentsDone nat string string string

fun eventName :: "responseEvent \<Rightarrow> string" where
  "eventName (Created _) = ''response.created''"
| "eventName (InProgress _) = ''response.in_progress''"
| "eventName (ItemAdded _ _) = ''response.output_item.added''"
| "eventName (PartAdded _ _ _) = ''response.content_part.added''"
| "eventName (TextDelta _ _ _) = ''response.output_text.delta''"
| "eventName (ArgumentsDelta _ _ _) = ''response.function_call_arguments.delta''"
| "eventName (Terminal status _) = ''response.'' @ status"
| "eventName (TextDone _ _ _) = ''response.output_text.done''"
| "eventName (PartDone _ _ _) = ''response.content_part.done''"
| "eventName (ItemDone _ _) = ''response.output_item.done''"
| "eventName (ArgumentsDone _ _ _ _) = ''response.function_call_arguments.done''"

definition outputIndex :: "nat \<Rightarrow> string \<times> json" where
  "outputIndex i = (''output_index'', JNum (showNat i))"

fun eventBody :: "responseEvent \<Rightarrow> jsonObject" where
  "eventBody (Created r) = [(''response'', JObj r)]"
| "eventBody (InProgress r) = [(''response'', JObj r)]"
| "eventBody (ItemAdded i item) = [outputIndex i, (''item'', JObj item)]"
| "eventBody (PartAdded i ident part) =
     [outputIndex i, (''content_index'', JNum ''0''), (''item_id'', JStr ident), (''part'', JObj part)]"
| "eventBody (TextDelta i ident d) =
     [outputIndex i, (''content_index'', JNum ''0''), (''item_id'', JStr ident), (''delta'', JStr d)]"
| "eventBody (ArgumentsDelta i ident d) = [outputIndex i, (''item_id'', JStr ident), (''delta'', JStr d)]"
| "eventBody (Terminal _ r) = [(''response'', JObj r)]"
| "eventBody (TextDone i ident t) =
     [outputIndex i, (''content_index'', JNum ''0''), (''item_id'', JStr ident), (''text'', JStr t)]"
| "eventBody (PartDone i ident part) =
     [outputIndex i, (''content_index'', JNum ''0''), (''item_id'', JStr ident), (''part'', JObj part)]"
| "eventBody (ItemDone i item) = [outputIndex i, (''item'', JObj item)]"
| "eventBody (ArgumentsDone i ident name args) =
     [outputIndex i, (''item_id'', JStr ident), (''name'', JStr name), (''arguments'', JStr args)]"

text \<open>The bytes of an event on the wire.\<close>

definition writeSSE :: "string \<Rightarrow> json \<Rightarrow> string" where
  "writeSSE name v = ''event: '' @ name @ newline @ ''data: '' @ mustJSON v @ newline @ newline"

definition eventText :: "nat \<times> responseEvent \<Rightarrow> string" where
  "eventText numbered =
     (let (n, ev) = numbered
      in writeSSE (eventName ev)
           (JObj ((''type'', JStr (eventName ev)) # (''sequence_number'', JNum (showNat n)) # eventBody ev)))"

subsection \<open>The state of a stream\<close>

record tcState =
  tcID :: string
  tcName :: string
  tcArgs :: string
  tcItemID :: string
  tcOutputIndex :: nat
  tcAdded :: bool

text \<open>The calls are listed in the order of their creation (callOrder), under their index.\<close>

record adapterState =
  rsSeq :: nat
  rsLast :: gotime
  rsSent :: "(nat \<times> responseEvent) list"
  rsBroken :: bool
  rsText :: string
  rsTextStarted :: bool
  rsMessageIndex :: nat
  rsNext :: nat
  rsCalls :: "(int, tcState) gomap"
  rsError :: string
  rsCode :: string
  rsFinish :: string
  rsFailed :: bool
  rsDone :: bool

definition emitEventTo :: "streamEnv \<Rightarrow> gotime \<Rightarrow> responseEvent \<Rightarrow> adapterState \<Rightarrow> adapterState" where
  "emitEventTo env now ev s =
     (if rsBroken s then s
      else if seWrites env (rsSeq s)
      then s\<lparr>rsSent := rsSent s @ [(rsSeq s, ev)], rsSeq := rsSeq s + 1, rsLast := now\<rparr>
      else s\<lparr>rsSeq := rsSeq s + 1, rsBroken := True\<rparr>)"

definition adapterStart :: "streamEnv \<Rightarrow> responseRef \<Rightarrow> gotime \<Rightarrow> adapterState" where
  "adapterStart env r now =
     (let base = responseBase env r ''in_progress'' []
      in emitEventTo env now (InProgress base) (emitEventTo env now (Created base)
           \<lparr>rsSeq = 0, rsLast = now, rsSent = [], rsBroken = False, rsText = [], rsTextStarted = False,
            rsMessageIndex = 0, rsNext = 0, rsCalls = [], rsError = [], rsCode = [], rsFinish = [],
            rsFailed = False, rsDone = False\<rparr>))"

definition messageID :: "streamEnv \<Rightarrow> string" where
  "messageID env = ''msg_'' @ seUuid env 0"

subsection \<open>Lines\<close>

definition noteError :: "string \<Rightarrow> adapterState \<Rightarrow> adapterState" where
  "noteError txt s = s\<lparr>rsError := rsError s @ txt @ ''; ''\<rparr>"

definition noteErrorObject :: "string \<Rightarrow> jsonObject \<Rightarrow> adapterState \<Rightarrow> adapterState" where
  "noteErrorObject codeKey detail s =
     (let msg = memberString detail ''message''; code = memberString detail codeKey;
          s = (if msg = [] then s else noteError msg s);
          s = (if code = [] then s else s\<lparr>rsCode := code\<rparr>)
      in s\<lparr>rsFailed := True\<rparr>)"

text \<open>A line that is no data line: an error payload of the inner handler, a comment, an event name or nothing.\<close>

definition otherLine :: "streamEnv \<Rightarrow> string \<Rightarrow> adapterState \<Rightarrow> adapterState" where
  "otherLine env line s =
     (let trimmed = TrimSpace line
      in if trimmed = [] \<or> HasPrefix trimmed ''event:'' \<or> HasPrefix trimmed '':'' then s
         else case decodeObject (seUnmarshal env) trimmed of
                Some envelope \<Rightarrow>
                  (case member envelope ''error'' of
                     JObj detail \<Rightarrow> noteErrorObject ''type'' detail s
                   | _ \<Rightarrow> noteError trimmed s)
              | None \<Rightarrow> noteError trimmed s)"

definition messageItem :: "streamEnv \<Rightarrow> string \<Rightarrow> json list \<Rightarrow> jsonObject" where
  "messageItem env status content =
     [(''type'', JStr ''message''), (''id'', JStr (messageID env)), (''role'', JStr ''assistant''),
      (''status'', JStr status), (''content'', JArr content)]"

definition textPartOf :: "string \<Rightarrow> jsonObject" where
  "textPartOf t = [(''type'', JStr ''output_text''), (''text'', JStr t), (''annotations'', JArr [])]"

definition callItem :: "string \<Rightarrow> string \<Rightarrow> tcState \<Rightarrow> jsonObject" where
  "callItem status args st =
     [(''type'', JStr ''function_call''), (''id'', JStr (tcItemID st)), (''call_id'', JStr (tcID st)),
      (''name'', JStr (tcName st)), (''arguments'', JStr args), (''status'', JStr status)]"

definition contentDelta :: "streamEnv \<Rightarrow> gotime \<Rightarrow> string \<Rightarrow> adapterState \<Rightarrow> adapterState" where
  "contentDelta env now content s =
     (if content = [] then s
      else
        let s = s\<lparr>rsText := rsText s @ content\<rparr>;
            s = (if rsTextStarted s then s
                 else
                   let i = rsNext s;
                       s = s\<lparr>rsTextStarted := True, rsMessageIndex := i, rsNext := i + 1\<rparr>
                   in emitEventTo env now (PartAdded i (messageID env) (textPartOf []))
                        (emitEventTo env now (ItemAdded i (messageItem env ''in_progress'' [])) s))
        in emitEventTo env now (TextDelta (rsMessageIndex s) (messageID env) content) s)"

definition freshCall :: "streamEnv \<Rightarrow> adapterState \<Rightarrow> tcState" where
  "freshCall env s =
     \<lparr>tcID = [], tcName = [], tcArgs = [], tcItemID = ''fc_'' @ seUuid env (length (rsCalls s) + 1),
      tcOutputIndex = rsNext s, tcAdded = False\<rparr>"

definition callAt :: "streamEnv \<Rightarrow> int \<Rightarrow> adapterState \<Rightarrow> tcState \<times> adapterState" where
  "callAt env idx s =
     (case map_of (rsCalls s) idx of
        Some st \<Rightarrow> (st, s)
      | None \<Rightarrow> (freshCall env s, s\<lparr>rsNext := rsNext s + 1\<rparr>))"

definition callDelta :: "streamEnv \<Rightarrow> gotime \<Rightarrow> json \<Rightarrow> adapterState \<Rightarrow> adapterState" where
  "callDelta env now raw s =
     (let tc = asObject raw;
          idx = (case member tc ''index'' of JNum n \<Rightarrow> seIndex env n | _ \<Rightarrow> 0);
          (st, s) = callAt env idx s;
          st = (case member tc ''id'' of JStr v \<Rightarrow> st\<lparr>tcID := v\<rparr> | _ \<Rightarrow> st);
          fn = asObject (member tc ''function'');
          st = st\<lparr>tcName := tcName st @ memberString fn ''name''\<rparr>;
          s = (if tcAdded st then s
               else emitEventTo env now (ItemAdded (tcOutputIndex st) (callItem ''in_progress'' [] st)) s);
          st = st\<lparr>tcAdded := True\<rparr>
      in case member fn ''arguments'' of
           JStr v \<Rightarrow>
             emitEventTo env now (ArgumentsDelta (tcOutputIndex st) (tcItemID st) v)
               (s\<lparr>rsCalls := AList.update idx (st\<lparr>tcArgs := tcArgs st @ v\<rparr>) (rsCalls s)\<rparr>)
         | _ \<Rightarrow> s\<lparr>rsCalls := AList.update idx st (rsCalls s)\<rparr>)"

definition chunkChoice :: "streamEnv \<Rightarrow> gotime \<Rightarrow> jsonObject \<Rightarrow> adapterState \<Rightarrow> adapterState" where
  "chunkChoice env now ch s =
     (let finish = memberString ch ''finish_reason'';
          s = (if finish = [] then s else s\<lparr>rsFinish := finish\<rparr>);
          delta = asObject (member ch ''delta'');
          s = contentDelta env now (memberString delta ''content'') s
      in fold (callDelta env now) (asArray (member delta ''tool_calls'')) s)"

definition dataLine :: "streamEnv \<Rightarrow> gotime \<Rightarrow> string \<Rightarrow> adapterState \<Rightarrow> adapterState" where
  "dataLine env now txt s =
     (if txt = ''[DONE]'' then s\<lparr>rsDone := True\<rparr>
      else case decodeObject (seUnmarshal env) txt of
             None \<Rightarrow> noteError ''malformed upstream SSE data'' (s\<lparr>rsFailed := True\<rparr>)
           | Some chunk \<Rightarrow>
               (case member chunk ''error'' of
                  JObj detail \<Rightarrow> noteErrorObject ''code'' detail s
                | _ \<Rightarrow> (case asArray (member chunk ''choices'') of
                         [] \<Rightarrow> s
                       | c # _ \<Rightarrow> chunkChoice env now (asObject c) s)))"

definition scanLine :: "streamEnv \<Rightarrow> gotime \<Rightarrow> string \<Rightarrow> adapterState \<Rightarrow> adapterState" where
  "scanLine env now line s =
     (if HasPrefix line ''data:'' then dataLine env now (TrimSpace (drop 5 line)) s else otherLine env line s)"

text \<open>A tick of the heartbeat repeats the in-progress event when nothing was written for an interval.\<close>

definition heartbeatTick :: "streamEnv \<Rightarrow> responseRef \<Rightarrow> gotime \<Rightarrow> adapterState \<Rightarrow> adapterState" where
  "heartbeatTick env r now s =
     (if now - rsLast s < seInterval env then s
      else emitEventTo env now (InProgress (responseBase env r ''in_progress'' [])) s)"

datatype scanInput = ScanLine string | ScanTick

definition scanStep :: "streamEnv \<Rightarrow> responseRef \<Rightarrow> gotime \<times> scanInput \<Rightarrow> adapterState \<Rightarrow> adapterState" where
  "scanStep env r input s =
     (if rsBroken s then s
      else case snd input of
             ScanLine line \<Rightarrow> scanLine env (fst input) line s
           | ScanTick \<Rightarrow> heartbeatTick env r (fst input) s)"

text \<open>The end of the inner stream, with the error of the scanner if it stopped early.\<close>

definition scanEnd :: "string option \<Rightarrow> adapterState \<Rightarrow> adapterState" where
  "scanEnd scanErr s =
     (let s = (case scanErr of
                 Some e \<Rightarrow> noteError (''upstream stream read failed: '' @ e) (s\<lparr>rsFailed := True\<rparr>) | None \<Rightarrow> s)
      in if rsDone s then s
         else noteError ''upstream stream disconnected before [DONE]'' (s\<lparr>rsFailed := True\<rparr>))"

subsection \<open>The end of a response\<close>

definition outputItems :: "streamEnv \<Rightarrow> string \<Rightarrow> adapterState \<Rightarrow> json list" where
  "outputItems env status s =
     (let out = replicate (rsNext s) JNull;
          out = (if rsTextStarted s
                 then out[rsMessageIndex s := JObj (messageItem env status [JObj (textPartOf (rsText s))])] else out)
      in fold (\<lambda>(_, st) items. items[tcOutputIndex st := JObj (callItem status (tcArgs st) st)]) (rsCalls s) out)"

definition streamFails :: "adapterState \<Rightarrow> bool" where
  "streamFails s \<longleftrightarrow> rsFailed s \<or> (rsFinish s \<noteq> ''length'' \<and> rsCalls s = [] \<and> blank (rsText s))"

definition failedResource :: "streamEnv \<Rightarrow> responseRef \<Rightarrow> string \<Rightarrow> string \<Rightarrow> jsonObject" where
  "failedResource env r code msg =
     AList.update ''error'' (JObj [(''code'', JStr code), (''message'', JStr msg)]) (responseBase env r ''failed'' [])"

definition emitFailed :: "streamEnv \<Rightarrow> responseRef \<Rightarrow> gotime \<Rightarrow> adapterState \<Rightarrow> adapterState" where
  "emitFailed env r now s =
     (let msg = TrimSpace (rsError s);
          msg = (if msg = [] then ''upstream returned no content'' else msg);
          code = (if rsCode s = [] then ''upstream_error'' else rsCode s)
      in emitEventTo env now (Terminal ''failed'' (failedResource env r code msg)) s)"

definition responseStatus :: "adapterState \<Rightarrow> string" where
  "responseStatus s = (if rsFinish s = ''length'' then ''incomplete'' else ''completed'')"

text \<open>The assistant message handed to the commit: truncated calls are not part of it.\<close>

definition tcCall :: "tcState \<Rightarrow> jsonObject" where
  "tcCall st = callObject (JStr (tcID st)) (JStr (tcName st)) (tcArgs st)"

definition assistantOf :: "adapterState \<Rightarrow> oaiMsg" where
  "assistantOf s =
     (plainMessage ''assistant'' (if rsTextStarted s then JStr (rsText s) else JNull))
       \<lparr>msgToolCalls := (if responseStatus s = ''completed'' then map (tcCall \<circ> snd) (rsCalls s) else [])\<rparr>"

definition completedResource :: "streamEnv \<Rightarrow> responseRef \<Rightarrow> int \<Rightarrow> adapterState \<Rightarrow> jsonObject" where
  "completedResource env r completedAt s =
     (let status = responseStatus s;
          resp = responseBase env r status (outputItems env status s)
      in if status = ''incomplete''
         then AList.update ''incomplete_details'' (JObj [(''reason'', JStr ''max_output_tokens'')]) resp
         else AList.update ''completed_at'' (numberJSON completedAt) resp)"

definition textDoneEvents :: "streamEnv \<Rightarrow> adapterState \<Rightarrow> responseEvent list" where
  "textDoneEvents env s =
     (if rsTextStarted s
      then [TextDone (rsMessageIndex s) (messageID env) (rsText s),
            PartDone (rsMessageIndex s) (messageID env) (textPartOf (rsText s)),
            ItemDone (rsMessageIndex s) (messageItem env (responseStatus s) [JObj (textPartOf (rsText s))])]
      else [])"

definition callDoneEvents :: "adapterState \<Rightarrow> responseEvent list" where
  "callDoneEvents s =
     (if responseStatus s = ''completed''
      then concat (map (\<lambda>(_, st). [ArgumentsDone (tcOutputIndex st) (tcItemID st) (tcName st) (tcArgs st),
                                    ItemDone (tcOutputIndex st) (callItem ''completed'' (tcArgs st) st)]) (rsCalls s))
      else [])"

text \<open>The commit of the finished response: the message it was given, and whether it was stored; None: no callback.\<close>

definition commitTicks :: "streamEnv \<Rightarrow> responseRef \<Rightarrow> gotime list \<Rightarrow> adapterState \<Rightarrow> adapterState" where
  "commitTicks env r ticks s = fold (heartbeatTick env r) ticks s"

definition persistenceFailure :: "streamEnv \<Rightarrow> responseRef \<Rightarrow> jsonObject" where
  "persistenceFailure env r =
     failedResource env r ''session_persistence_error'' ''response state could not be persisted for continuation''"

definition emitAll :: "streamEnv \<Rightarrow> gotime \<Rightarrow> responseEvent list \<Rightarrow> adapterState \<Rightarrow> adapterState" where
  "emitAll env now evs s = fold (emitEventTo env now) evs s"

record streamRun =
  srInputs :: "(gotime \<times> scanInput) list"
  srScanErr :: "string option"
  srEndTime :: gotime
  srCommitTicks :: "gotime list"
  srCommit :: "(oaiMsg \<Rightarrow> bool) option"
  srCommitTime :: gotime
  srCompletedAt :: int

definition finishResponse :: "streamEnv \<Rightarrow> responseRef \<Rightarrow> streamRun \<Rightarrow> adapterState \<Rightarrow> adapterState" where
  "finishResponse env r run s =
     emitAll env (srCommitTime run)
       (textDoneEvents env s @ callDoneEvents s @ [Terminal (responseStatus s) (completedResource env r (srCompletedAt run) s)]) s"

text \<open>The final state and the message that was committed, if the commit was reached.\<close>

definition closeStream :: "streamEnv \<Rightarrow> responseRef \<Rightarrow> streamRun \<Rightarrow> adapterState \<Rightarrow> adapterState \<times> oaiMsg option" where
  "closeStream env r run s =
     (if rsBroken s then (s, None)
      else
        let s = scanEnd (srScanErr run) s
        in if streamFails s then (emitFailed env r (srEndTime run) s, None)
           else case srCommit run of
                  None \<Rightarrow> (finishResponse env r run s, None)
                | Some commit \<Rightarrow>
                    (let s' = commitTicks env r (srCommitTicks run) s
                     in if rsBroken s' then (s', Some (assistantOf s))
                        else if commit (assistantOf s) then (finishResponse env r run s', Some (assistantOf s))
                        else (emitEventTo env (srCommitTime run) (Terminal ''failed'' (persistenceFailure env r)) s',
                              Some (assistantOf s))))"

definition streamResponses :: "streamEnv \<Rightarrow> responseRef \<Rightarrow> gotime \<Rightarrow> streamRun \<Rightarrow> adapterState \<times> oaiMsg option" where
  "streamResponses env r now run = closeStream env r run (fold (scanStep env r) (srInputs run) (adapterStart env r now))"

end
