(* ===== verification/ResponsesLaws.thy ===== *)
theory ResponsesLaws
  imports ResponsesStream
begin

text \<open>
  What holds while a Responses stream is open. A client that follows the events item by item is defined first; the
  invariant says that the events are numbered, that none of them is final, and that the client knows exactly the items,
  texts and arguments of the adapter. It is kept by every line and tick, hence along every stream.
\<close>

subsection \<open>A client of the events\<close>

datatype clientItem = clientItem (ciKind: string) (ciID: string) (ciText: string)

definition extendItem :: "nat \<Rightarrow> string \<Rightarrow> (nat \<Rightarrow> clientItem option) \<Rightarrow> nat \<Rightarrow> clientItem option" where
  "extendItem i d v = v(i := map_option (\<lambda>c. clientItem (ciKind c) (ciID c) (ciText c @ d)) (v i))"

fun clientStep :: "responseEvent \<Rightarrow> (nat \<Rightarrow> clientItem option) \<Rightarrow> nat \<Rightarrow> clientItem option" where
  "clientStep (ItemAdded i item) v = v(i \<mapsto> clientItem (memberString item ''type'') (memberString item ''id'') [])"
| "clientStep (TextDelta i ident d) v = extendItem i d v"
| "clientStep (ArgumentsDelta i ident d) v = extendItem i d v"
| "clientStep _ v = v"

definition clientView :: "responseEvent list \<Rightarrow> nat \<Rightarrow> clientItem option" where
  "clientView evs = fold clientStep evs Map.empty"

lemma clientView_Nil [simp]: "clientView [] = Map.empty"
  by (simp add: clientView_def)

lemma clientView_append: "clientView (evs @ es) = fold clientStep es (clientView evs)"
  by (simp add: clientView_def)

subsection \<open>What the client must know\<close>

definition callsByIndex :: "adapterState \<Rightarrow> (nat \<times> tcState) list" where
  "callsByIndex s = map (\<lambda>(_, st). (tcOutputIndex st, st)) (rsCalls s)"

definition itemAt :: "streamEnv \<Rightarrow> adapterState \<Rightarrow> nat \<Rightarrow> clientItem option" where
  "itemAt env s i =
     (if rsTextStarted s \<and> i = rsMessageIndex s then Some (clientItem ''message'' (messageID env) (rsText s))
      else map_option (\<lambda>st. clientItem ''function_call'' (tcItemID st) (tcArgs st)) (map_of (callsByIndex s) i))"

definition itemIndices :: "adapterState \<Rightarrow> nat list" where
  "itemIndices s = (if rsTextStarted s then [rsMessageIndex s] else []) @ map fst (callsByIndex s)"

definition wfItems :: "adapterState \<Rightarrow> bool" where
  "wfItems s \<longleftrightarrow> distinct (itemIndices s) \<and> set (itemIndices s) = {..<rsNext s}
     \<and> distinct (map fst (rsCalls s)) \<and> (\<forall>(_, st) \<in> set (rsCalls s). tcAdded st)
     \<and> (rsTextStarted s \<longleftrightarrow> rsText s \<noteq> [])"

fun preliminary :: "responseEvent \<Rightarrow> bool" where
  "preliminary (Terminal _ _) = False"
| "preliminary (TextDone _ _ _) = False"
| "preliminary (PartDone _ _ _) = False"
| "preliminary (ItemDone _ _) = False"
| "preliminary (ArgumentsDone _ _ _ _) = False"
| "preliminary _ = True"

abbreviation sentEvents :: "adapterState \<Rightarrow> responseEvent list" where
  "sentEvents s \<equiv> map snd (rsSent s)"

definition numbered :: "adapterState \<Rightarrow> bool" where
  "numbered s \<longleftrightarrow> map fst (rsSent s) = [0..<length (rsSent s)]
     \<and> (\<not> rsBroken s \<longrightarrow> rsSeq s = length (rsSent s))"

definition openLog :: "adapterState \<Rightarrow> bool" where
  "openLog s \<longleftrightarrow> numbered s \<and> (\<forall>ev \<in> set (sentEvents s). preliminary ev)"

definition inStep :: "streamEnv \<Rightarrow> adapterState \<Rightarrow> bool" where
  "inStep env s \<longleftrightarrow> wfItems s \<and> clientView (sentEvents s) = itemAt env s \<and> (\<exists>r rest. sentEvents s = Created r # rest)"

definition adapterInv :: "streamEnv \<Rightarrow> adapterState \<Rightarrow> bool" where
  "adapterInv env s \<longleftrightarrow> openLog s \<and> (\<not> rsBroken s \<longrightarrow> inStep env s)"

subsection \<open>Writing an event\<close>

lemma emit_numbered: "numbered s \<Longrightarrow> numbered (emitEventTo env now ev s)"
  by (auto simp: emitEventTo_def numbered_def)

lemma emit_openLog [intro]: "openLog s \<Longrightarrow> preliminary ev \<Longrightarrow> openLog (emitEventTo env now ev s)"
  by (auto simp: openLog_def emit_numbered) (auto simp: emitEventTo_def split: if_splits)

lemma emit_broken: "rsBroken s \<Longrightarrow> emitEventTo env now ev s = s"
  by (simp add: emitEventTo_def)

lemma emit_sent:
  "\<not> rsBroken (emitEventTo env now ev s) \<Longrightarrow>
   \<not> rsBroken s \<and> sentEvents (emitEventTo env now ev s) = sentEvents s @ [ev]"
  by (auto simp: emitEventTo_def split: if_splits)

lemma emit_sent_subset: "set (sentEvents (emitEventTo env now ev s)) \<subseteq> insert ev (set (sentEvents s))"
  by (auto simp: emitEventTo_def)

lemma emit_keeps [simp]:
  "rsText (emitEventTo env now ev s) = rsText s"
  "rsTextStarted (emitEventTo env now ev s) = rsTextStarted s"
  "rsMessageIndex (emitEventTo env now ev s) = rsMessageIndex s"
  "rsNext (emitEventTo env now ev s) = rsNext s"
  "rsCalls (emitEventTo env now ev s) = rsCalls s"
  "rsFailed (emitEventTo env now ev s) = rsFailed s"
  "rsFinish (emitEventTo env now ev s) = rsFinish s"
  "rsDone (emitEventTo env now ev s) = rsDone s"
  "rsError (emitEventTo env now ev s) = rsError s"
  "rsCode (emitEventTo env now ev s) = rsCode s"
  by (simp_all add: emitEventTo_def)

lemma items_kept [simp]:
  "itemAt env (emitEventTo e now ev s) = itemAt env s"
  "wfItems (emitEventTo e now ev s) = wfItems s"
  "callsByIndex (emitEventTo e now ev s) = callsByIndex s"
  "itemIndices (emitEventTo e now ev s) = itemIndices s"
  by (simp_all add: itemAt_def fun_eq_iff wfItems_def itemIndices_def callsByIndex_def)

text \<open>The log does not depend on the rest of the state.\<close>

lemma openLog_rest [simp]:
  "openLog (s\<lparr>rsText := a\<rparr>) = openLog s" "openLog (s\<lparr>rsTextStarted := b\<rparr>) = openLog s"
  "openLog (s\<lparr>rsMessageIndex := n\<rparr>) = openLog s"
  "openLog (s\<lparr>rsNext := n\<rparr>) = openLog s" "openLog (s\<lparr>rsCalls := cs\<rparr>) = openLog s" "openLog (s\<lparr>rsFinish := f\<rparr>) = openLog s"
  "openLog (s\<lparr>rsError := a\<rparr>) = openLog s" "openLog (s\<lparr>rsCode := a\<rparr>) = openLog s" "openLog (s\<lparr>rsFailed := b\<rparr>) = openLog s"
  "openLog (s\<lparr>rsDone := b\<rparr>) = openLog s"
  by (simp_all add: openLog_def numbered_def)

lemma inStep_rest [simp]:
  "inStep env (s\<lparr>rsFinish := f\<rparr>) = inStep env s" "inStep env (s\<lparr>rsError := a\<rparr>) = inStep env s"
  "inStep env (s\<lparr>rsCode := a\<rparr>) = inStep env s" "inStep env (s\<lparr>rsFailed := b\<rparr>) = inStep env s"
  "inStep env (s\<lparr>rsDone := b\<rparr>) = inStep env s"
  by (simp_all add: inStep_def wfItems_def itemIndices_def callsByIndex_def itemAt_def fun_eq_iff)

lemma adapterInv_rest [simp]:
  "adapterInv env (s\<lparr>rsFinish := f\<rparr>) = adapterInv env s" "adapterInv env (s\<lparr>rsError := a\<rparr>) = adapterInv env s"
  "adapterInv env (s\<lparr>rsCode := a\<rparr>) = adapterInv env s" "adapterInv env (s\<lparr>rsFailed := b\<rparr>) = adapterInv env s"
  "adapterInv env (s\<lparr>rsDone := b\<rparr>) = adapterInv env s"
  by (simp_all add: adapterInv_def)

lemma noteError_inv [simp]: "adapterInv env (noteError e s) = adapterInv env s"
  by (simp add: noteError_def)

lemma noteErrorObject_inv [simp]: "adapterInv env (noteErrorObject k d s) = adapterInv env s"
  by (simp add: noteErrorObject_def Let_def)

lemma otherLine_inv [simp]: "adapterInv env (otherLine env' line s) = adapterInv env s"
  by (simp add: otherLine_def Let_def split: option.split json.split)

subsection \<open>Text\<close>

lemma contentDelta_inv:
  assumes "adapterInv env s"
  shows "adapterInv env (contentDelta env now c s)"
proof (cases "c = []")
  case False
  let ?s1 = "s\<lparr>rsText := rsText s @ c\<rparr>"
  show ?thesis
  proof (cases "rsTextStarted s")
    case True
    let ?ev = "TextDelta (rsMessageIndex s) (messageID env) c"
    have eq: "contentDelta env now c s = emitEventTo env now ?ev ?s1"
      using False True by (simp add: contentDelta_def Let_def)
    have "openLog (emitEventTo env now ?ev ?s1)" using assms by (intro emit_openLog) (simp_all add: adapterInv_def)
    moreover have "inStep env (emitEventTo env now ?ev ?s1)" if "\<not> rsBroken (emitEventTo env now ?ev ?s1)"
      using emit_sent [OF that] assms True False
      by (auto simp: adapterInv_def inStep_def wfItems_def itemIndices_def callsByIndex_def itemAt_def extendItem_def clientView_append fun_eq_iff)
    ultimately show ?thesis by (simp add: eq adapterInv_def)
  next
    case not_started: False
    let ?i = "rsNext s"
    let ?s2 = "?s1\<lparr>rsTextStarted := True, rsMessageIndex := ?i, rsNext := ?i + 1\<rparr>"
    let ?e1 = "ItemAdded ?i (messageItem env ''in_progress'' [])"
    let ?e2 = "PartAdded ?i (messageID env) (textPartOf [])"
    let ?e3 = "TextDelta ?i (messageID env) c"
    let ?t = "emitEventTo env now ?e3 (emitEventTo env now ?e2 (emitEventTo env now ?e1 ?s2))"
    have eq: "contentDelta env now c s = ?t"
      using False not_started by (simp add: contentDelta_def Let_def)
    have "openLog ?s2" using assms by (simp add: adapterInv_def)
    then have "openLog ?t" by (intro emit_openLog) simp_all
    moreover have "inStep env ?t" if u: "\<not> rsBroken ?t"
    proof -
      note r3 = emit_sent [OF u]
      note r2 = emit_sent [OF r3 [THEN conjunct1]]
      note r1 = emit_sent [OF r2 [THEN conjunct1]]
      have s1: "\<not> rsBroken s" "sentEvents ?t = sentEvents s @ [?e1, ?e2, ?e3]"
        using r1 r2 r3 by simp_all
      then have inS: "inStep env s" using assms by (simp add: adapterInv_def)
      have view: "clientView (sentEvents ?t) = extendItem ?i c ((clientView (sentEvents s))(?i \<mapsto> clientItem ''message'' (messageID env) []))"
        unfolding s1(2) clientView_append by (simp add: messageItem_def getOr_def asString_def)
      have empty: "rsText s = []" using inS not_started by (simp add: inStep_def wfItems_def)
      have "wfItems ?t" using inS not_started False
        by (auto simp: inStep_def wfItems_def itemIndices_def callsByIndex_def lessThan_Suc)
      moreover have "clientView (sentEvents ?t) = itemAt env ?t"
        using inS not_started unfolding view
        by (auto simp: inStep_def itemAt_def extendItem_def fun_eq_iff callsByIndex_def empty)
      ultimately show ?thesis using inS unfolding inStep_def s1(2) by auto
    qed
    ultimately show ?thesis by (simp add: eq adapterInv_def)
  qed
qed (use assms in \<open>simp add: contentDelta_def\<close>)

subsection \<open>Calls\<close>

lemma callsByIndex_at:
  "map_of cs k = Some st \<Longrightarrow> distinct (map (\<lambda>(_, st). tcOutputIndex st) cs) \<Longrightarrow>
   map_of (map (\<lambda>(_, st). (tcOutputIndex st, st)) cs) (tcOutputIndex st) = Some st"
proof (induction cs)
  case (Cons c cs)
  obtain k' u where c: "c = (k', u)" by force
  show ?case
  proof (cases "k = k'")
    case False
    with Cons c have mem: "(k, st) \<in> set cs" by (auto dest: map_of_SomeD)
    with Cons.prems(2) c have "tcOutputIndex u \<noteq> tcOutputIndex st" by force
    with Cons c False show ?thesis by simp
  qed (use Cons c in simp)
qed simp

lemma callsByIndex_old:
  assumes "map_of cs k = Some st" and "distinct (map (\<lambda>(_, st). tcOutputIndex st) cs)"
    and "tcOutputIndex st' = tcOutputIndex st"
  shows "map (\<lambda>(_, st). tcOutputIndex st) (AList.update k st' cs) = map (\<lambda>(_, st). tcOutputIndex st) cs"
    and "map_of (map (\<lambda>(_, st). (tcOutputIndex st, st)) (AList.update k st' cs))
           = (map_of (map (\<lambda>(_, st). (tcOutputIndex st, st)) cs))(tcOutputIndex st \<mapsto> st')"
  using assms
proof (induction cs)
  case (Cons c cs)
  obtain k' u where c: "c = (k', u)" by force
  {
    case 1
    then show ?case using Cons.IH(1) c by (auto split: if_splits)
  next
    case 2
    show ?case
    proof (cases "k = k'")
      case False
      with 2 c have mem: "(k, st) \<in> set cs" by (auto dest: map_of_SomeD)
      with 2 c have "tcOutputIndex u \<noteq> tcOutputIndex st" by force
      with Cons.IH(2) 2 c False show ?thesis by (auto simp: fun_eq_iff)
    qed (use 2 c in \<open>simp add: fun_eq_iff\<close>)
  }
qed simp_all

lemma update_new: "map_of cs k = None \<Longrightarrow> AList.update k st cs = cs @ [(k, st)]"
  by (induction cs) auto

lemma map_fst_callsByIndex: "map fst (callsByIndex s) = map (\<lambda>(_, st). tcOutputIndex st) (rsCalls s)"
  by (induction "rsCalls s") (auto simp: callsByIndex_def)

lemma fst_update_old: "map_of cs k = Some st \<Longrightarrow> map fst (AList.update k st' cs) = map fst cs"
  by (induction cs) auto

lemma set_update_subset: "set (AList.update k st cs) \<subseteq> insert (k, st) (set cs)"
  by (induction cs) auto

definition sameText :: "adapterState \<Rightarrow> adapterState \<Rightarrow> bool" where
  "sameText s s' \<longleftrightarrow> rsText s' = rsText s \<and> rsTextStarted s' = rsTextStarted s \<and> rsMessageIndex s' = rsMessageIndex s"

lemma inStep_oldCall:
  assumes inv: "inStep env s" and old: "map_of (rsCalls s) k = Some st"
    and st': "tcItemID st' = tcItemID st" "tcOutputIndex st' = tcOutputIndex st" "tcArgs st' = tcArgs st @ v" "tcAdded st'"
    and sent: "sentEvents s' = sentEvents s @ evs" "\<And>w. fold clientStep evs w = extendItem (tcOutputIndex st) v w"
    and calls: "rsCalls s' = AList.update k st' (rsCalls s)" and same: "sameText s s'" "rsNext s' = rsNext s"
  shows "inStep env s'"
proof -
  let ?i = "tcOutputIndex st"
  have wf: "wfItems s" and view: "clientView (sentEvents s) = itemAt env s" using inv by (auto simp: inStep_def)
  have dist: "distinct (map (\<lambda>(_, st). tcOutputIndex st) (rsCalls s))"
    using wf unfolding wfItems_def itemIndices_def map_fst_callsByIndex by simp
  note upd = callsByIndex_old [OF old dist st'(2)]
  have fsts: "map fst (callsByIndex s') = map fst (callsByIndex s)"
    unfolding map_fst_callsByIndex calls by (rule upd(1))
  have lookup: "map_of (callsByIndex s') = (map_of (callsByIndex s))(?i \<mapsto> st')"
    unfolding callsByIndex_def calls by (rule upd(2))
  have here: "map_of (callsByIndex s) ?i = Some st"
    unfolding callsByIndex_def by (rule callsByIndex_at [OF old dist])
  have "?i \<in> set (map fst (callsByIndex s))" using here by (metis domI dom_map_of_conv_image_fst set_map)
  then have notText: "\<not> (rsTextStarted s \<and> ?i = rsMessageIndex s)"
    using wf by (auto simp: wfItems_def itemIndices_def)
  have "itemIndices s' = itemIndices s" using same unfolding itemIndices_def fsts by (simp add: sameText_def)
  moreover have "\<forall>(_, st) \<in> set (rsCalls s'). tcAdded st"
    using set_update_subset [of k st' "rsCalls s"] wf st'(4) unfolding wfItems_def calls by blast
  moreover have "map fst (rsCalls s') = map fst (rsCalls s)" unfolding calls by (rule fst_update_old [OF old])
  ultimately have "wfItems s'" using wf same by (simp add: wfItems_def sameText_def)
  moreover have "clientView (sentEvents s') = itemAt env s'"
    using notText here same st' unfolding sent clientView_append view
    by (auto simp: extendItem_def itemAt_def fun_eq_iff lookup sameText_def)
  moreover have "\<exists>r rest. sentEvents s' = Created r # rest" using inv unfolding inStep_def sent by auto
  ultimately show ?thesis by (simp add: inStep_def)
qed

lemma inStep_newCall:
  assumes inv: "inStep env s" and new: "map_of (rsCalls s) k = None"
    and st': "tcOutputIndex st' = rsNext s" "tcAdded st'"
    and sent: "sentEvents s' = sentEvents s @ evs"
      "\<And>w. fold clientStep evs w = w(rsNext s \<mapsto> clientItem ''function_call'' (tcItemID st') (tcArgs st'))"
    and calls: "rsCalls s' = AList.update k st' (rsCalls s)" and same: "sameText s s'" "rsNext s' = rsNext s + 1"
  shows "inStep env s'"
proof -
  have wf: "wfItems s" and view: "clientView (sentEvents s) = itemAt env s" using inv by (auto simp: inStep_def)
  have cs: "callsByIndex s' = callsByIndex s @ [(rsNext s, st')]" "map fst (rsCalls s') = map fst (rsCalls s) @ [k]"
    unfolding callsByIndex_def calls update_new [OF new] by (simp_all add: st')
  have ind: "itemIndices s' = itemIndices s @ [rsNext s]"
    using same by (simp add: itemIndices_def cs sameText_def)
  have fresh: "rsNext s \<notin> set (itemIndices s)" "k \<notin> fst ` set (rsCalls s)"
    using wf new by (auto simp: wfItems_def map_of_eq_None_iff)
  then have none: "map_of (callsByIndex s) (rsNext s) = None"
    by (auto simp: itemIndices_def map_of_eq_None_iff)
  have added: "\<forall>(_, st) \<in> set (rsCalls s'). tcAdded st"
    using wf st'(2) unfolding wfItems_def calls update_new [OF new] by auto
  have "wfItems s'" unfolding wfItems_def ind cs
    using wf fresh same added by (auto simp: wfItems_def sameText_def lessThan_Suc)
  moreover have "clientView (sentEvents s') = itemAt env s'"
    using fresh none same unfolding sent clientView_append view
    by (auto simp: itemAt_def fun_eq_iff cs itemIndices_def sameText_def map_add_def split: option.split)
  moreover have "\<exists>r rest. sentEvents s' = Created r # rest" using inv unfolding inStep_def sent by auto
  ultimately show ?thesis by (simp add: inStep_def)
qed

definition namedCall :: "json \<Rightarrow> tcState \<Rightarrow> tcState" where
  "namedCall raw st =
     (let tc = asObject raw;
          st = (case member tc ''id'' of JStr v \<Rightarrow> st\<lparr>tcID := v\<rparr> | _ \<Rightarrow> st)
      in st\<lparr>tcName := tcName st @ memberString (asObject (member tc ''function'')) ''name''\<rparr>)"

lemma namedCall_keeps [simp]:
  "tcItemID (namedCall raw st) = tcItemID st" "tcOutputIndex (namedCall raw st) = tcOutputIndex st"
  "tcArgs (namedCall raw st) = tcArgs st" "tcAdded (namedCall raw st) = tcAdded st"
  by (simp_all add: namedCall_def Let_def split: json.split)

lemma callDelta_cases:
  obtains (args) idx st s1 v where
      "callAt env idx s = (st, s1)"
      "callDelta env now raw s =
         emitEventTo env now (ArgumentsDelta (tcOutputIndex st) (tcItemID st) v)
           ((if tcAdded st then s1
             else emitEventTo env now (ItemAdded (tcOutputIndex st) (callItem ''in_progress'' [] (namedCall raw st))) s1)
            \<lparr>rsCalls := AList.update idx ((namedCall raw st)\<lparr>tcAdded := True, tcArgs := tcArgs st @ v\<rparr>) (rsCalls s1)\<rparr>)"
  | (none) idx st s1 where
      "callAt env idx s = (st, s1)"
      "callDelta env now raw s =
         (if tcAdded st then s1
          else emitEventTo env now (ItemAdded (tcOutputIndex st) (callItem ''in_progress'' [] (namedCall raw st))) s1)
         \<lparr>rsCalls := AList.update idx ((namedCall raw st)\<lparr>tcAdded := True\<rparr>) (rsCalls s1)\<rparr>"
proof -
  define idx where "idx = (case member (asObject raw) ''index'' of JNum n \<Rightarrow> seIndex env n | _ \<Rightarrow> 0)"
  obtain st s1 where at: "callAt env idx s = (st, s1)" by force
  have key: "\<And>c. (if tcAdded st then s1 else emitEventTo env now (ItemAdded (tcOutputIndex st) c) s1)
      \<lparr>rsCalls := AList.update idx x (rsCalls (if tcAdded st then s1 else emitEventTo env now (ItemAdded (tcOutputIndex st) c) s1))\<rparr>
     = (if tcAdded st then s1 else emitEventTo env now (ItemAdded (tcOutputIndex st) c) s1)\<lparr>rsCalls := AList.update idx x (rsCalls s1)\<rparr>" for x
    by simp
  have named: "(case member (asObject raw) ''id'' of JStr v \<Rightarrow> st\<lparr>tcID := v\<rparr> | _ \<Rightarrow> st)
      \<lparr>tcName := tcName (case member (asObject raw) ''id'' of JStr v \<Rightarrow> st\<lparr>tcID := v\<rparr> | _ \<Rightarrow> st)
                 @ memberString (asObject (member (asObject raw) ''function'')) ''name''\<rparr> = namedCall raw st"
    by (simp add: namedCall_def Let_def)
  show thesis
  proof (cases "member (asObject (member (asObject raw) ''function'')) ''arguments''")
    case (JStr v)
    have "callDelta env now raw s =
         emitEventTo env now (ArgumentsDelta (tcOutputIndex st) (tcItemID st) v)
           ((if tcAdded st then s1
             else emitEventTo env now (ItemAdded (tcOutputIndex st) (callItem ''in_progress'' [] (namedCall raw st))) s1)
            \<lparr>rsCalls := AList.update idx ((namedCall raw st)\<lparr>tcAdded := True, tcArgs := tcArgs st @ v\<rparr>) (rsCalls s1)\<rparr>)"
      unfolding callDelta_def Let_def idx_def [symmetric] at prod.case named JStr json.case
      by (simp add: key)
    with at show thesis by (rule args)
  qed (rule none [OF at], unfold callDelta_def Let_def idx_def [symmetric] at prod.case named, simp add: key)+
qed

lemma callAt_openLog: "openLog s \<Longrightarrow> callAt env idx s = (st, s1) \<Longrightarrow> openLog s1 \<and> rsBroken s1 = rsBroken s"
  by (auto simp: callAt_def split: option.splits)

lemma callDelta_inv:
  assumes inv: "adapterInv env s"
  shows "adapterInv env (callDelta env now raw s)"
proof (cases rule: callDelta_cases [of env s now raw])
  case (args idx st s1 v)
  let ?ad = "ItemAdded (tcOutputIndex st) (callItem ''in_progress'' [] (namedCall raw st))"
  let ?ev = "ArgumentsDelta (tcOutputIndex st) (tcItemID st) v"
  let ?st = "(namedCall raw st)\<lparr>tcAdded := True, tcArgs := tcArgs st @ v\<rparr>"
  let ?u = "(if tcAdded st then s1 else emitEventTo env now ?ad s1)\<lparr>rsCalls := AList.update idx ?st (rsCalls s1)\<rparr>"
  have s1: "openLog s1" "rsBroken s1 = rsBroken s"
    using inv callAt_openLog [OF _ args(1)] by (auto simp: adapterInv_def)
  have "openLog (emitEventTo env now ?ev ?u)" using s1(1) by (intro emit_openLog) (simp_all add: emit_openLog)
  moreover have "inStep env (emitEventTo env now ?ev ?u)" if unbroken: "\<not> rsBroken (emitEventTo env now ?ev ?u)"
  proof (cases "map_of (rsCalls s) idx")
    case None
    then have at: "st = freshCall env s" "s1 = s\<lparr>rsNext := rsNext s + 1\<rparr>" using args(1) by (auto simp: callAt_def)
    then have na: "\<not> tcAdded st" and ix: "tcOutputIndex st = rsNext s" "tcArgs st = []" by (simp_all add: freshCall_def)
    note r2 = emit_sent [OF unbroken]
    have r1: "\<not> rsBroken (emitEventTo env now ?ad s1)" using r2 na by simp
    have sent: "sentEvents (emitEventTo env now ?ev ?u) = sentEvents s @ [?ad, ?ev]"
      using r2 emit_sent [OF r1] na at(2) by simp
    have inS: "inStep env s" using inv emit_sent [OF r1] s1(2) by (simp add: adapterInv_def)
    show ?thesis
    proof (rule inStep_newCall [OF inS None, where st' = ?st and evs = "[?ad, ?ev]"])
      show "fold clientStep [?ad, ?ev] w = w(rsNext s \<mapsto> clientItem ''function_call'' (tcItemID ?st) (tcArgs ?st))" for w
        by (simp add: extendItem_def ix callItem_def getOr_def asString_def)
    qed (use ix na at(2) sent in \<open>simp_all add: sameText_def\<close>)
  next
    case (Some st0)
    then have at: "st = st0" "s1 = s" using args(1) by (auto simp: callAt_def)
    note r2 = emit_sent [OF unbroken]
    have nb: "\<not> rsBroken s" using r2 at(2) emit_broken [of s] by (auto split: if_splits)
    then have inS: "inStep env s" using inv by (simp add: adapterInv_def)
    have added: "tcAdded st" using inS Some at(1) by (auto simp: inStep_def wfItems_def dest!: map_of_SomeD)
    have sent: "sentEvents (emitEventTo env now ?ev ?u) = sentEvents s @ [?ev]" using r2 added at(2) by simp
    show ?thesis
    proof (rule inStep_oldCall [OF inS Some, where st' = ?st and evs = "[?ev]" and v = v])
      show "fold clientStep [?ev] w = extendItem (tcOutputIndex st0) v w" for w by (simp add: at(1))
    qed (use added at sent in \<open>simp_all add: sameText_def\<close>)
  qed
  ultimately show ?thesis by (simp add: args(2) adapterInv_def)
next
  case (none idx st s1)
  let ?ad = "ItemAdded (tcOutputIndex st) (callItem ''in_progress'' [] (namedCall raw st))"
  let ?st = "(namedCall raw st)\<lparr>tcAdded := True\<rparr>"
  let ?u = "(if tcAdded st then s1 else emitEventTo env now ?ad s1)\<lparr>rsCalls := AList.update idx ?st (rsCalls s1)\<rparr>"
  have s1: "openLog s1" "rsBroken s1 = rsBroken s"
    using inv callAt_openLog [OF _ none(1)] by (auto simp: adapterInv_def)
  have "openLog ?u" using s1(1) by (simp add: emit_openLog)
  moreover have "inStep env ?u" if unbroken: "\<not> rsBroken ?u"
  proof (cases "map_of (rsCalls s) idx")
    case None
    then have at: "st = freshCall env s" "s1 = s\<lparr>rsNext := rsNext s + 1\<rparr>" using none(1) by (auto simp: callAt_def)
    then have na: "\<not> tcAdded st" and ix: "tcOutputIndex st = rsNext s" "tcArgs st = []" by (simp_all add: freshCall_def)
    have r1: "\<not> rsBroken (emitEventTo env now ?ad s1)" using unbroken na by simp
    have sent: "sentEvents ?u = sentEvents s @ [?ad]" using emit_sent [OF r1] na at(2) by simp
    have inS: "inStep env s" using inv emit_sent [OF r1] s1(2) by (simp add: adapterInv_def)
    show ?thesis
    proof (rule inStep_newCall [OF inS None, where st' = ?st and evs = "[?ad]"])
      show "fold clientStep [?ad] w = w(rsNext s \<mapsto> clientItem ''function_call'' (tcItemID ?st) (tcArgs ?st))" for w
        by (simp add: ix callItem_def getOr_def asString_def)
    qed (use ix na at(2) sent in \<open>simp_all add: sameText_def\<close>)
  next
    case (Some st0)
    then have at: "st = st0" "s1 = s" using none(1) by (auto simp: callAt_def)
    have nb: "\<not> rsBroken s" using unbroken at(2) emit_broken [of s] by (auto split: if_splits)
    then have inS: "inStep env s" using inv by (simp add: adapterInv_def)
    have added: "tcAdded st" using inS Some at(1) by (auto simp: inStep_def wfItems_def dest!: map_of_SomeD)
    show ?thesis
    proof (rule inStep_oldCall [OF inS Some, where st' = ?st and evs = "[]" and v = "[]"])
      show "fold clientStep [] w = extendItem (tcOutputIndex st0) [] w" for w
        by (simp add: extendItem_def fun_eq_iff option.map_ident)
    qed (use added at in \<open>simp_all add: sameText_def\<close>)
  qed
  ultimately show ?thesis by (simp add: none(2) adapterInv_def)
qed

subsection \<open>The whole stream\<close>

lemma chunkChoice_inv: "adapterInv env s \<Longrightarrow> adapterInv env (chunkChoice env now ch s)"
proof -
  have calls: "adapterInv env t \<Longrightarrow> adapterInv env (fold (callDelta env now) cs t)" for cs t
    by (induction cs arbitrary: t) (simp_all add: callDelta_inv)
  assume "adapterInv env s"
  then show ?thesis unfolding chunkChoice_def Let_def by (intro calls contentDelta_inv) simp
qed

lemma dataLine_inv: "adapterInv env s \<Longrightarrow> adapterInv env (dataLine env now txt s)"
  by (simp add: dataLine_def chunkChoice_inv split: option.split json.split list.split)

lemma heartbeat_inv:
  assumes inv: "adapterInv env s"
  shows "adapterInv env (heartbeatTick env r now s)"
proof (cases "now - rsLast s < seInterval env")
  case False
  let ?ev = "InProgress (responseBase env r ''in_progress'' [])"
  have "openLog (emitEventTo env now ?ev s)" using inv by (auto simp: adapterInv_def)
  moreover have "inStep env (emitEventTo env now ?ev s)" if u: "\<not> rsBroken (emitEventTo env now ?ev s)"
    using emit_sent [OF u] inv by (auto simp: adapterInv_def inStep_def clientView_append)
  ultimately show ?thesis using False by (simp add: heartbeatTick_def adapterInv_def)
qed (simp add: heartbeatTick_def inv)

interpretation responses_stream: op_system "scanStep env r" "\<lambda>_. True" "adapterInv env" for env r
  by unfold_locales
    (simp add: scanStep_def scanLine_def dataLine_inv heartbeat_inv split: scanInput.split)

lemma adapterStart_inv: "adapterInv env (adapterStart env r now)"
proof -
  let ?s0 = "\<lparr>rsSeq = 0, rsLast = now, rsSent = [], rsBroken = False, rsText = [], rsTextStarted = False,
            rsMessageIndex = 0, rsNext = 0, rsCalls = [], rsError = [], rsCode = [], rsFinish = [],
            rsFailed = False, rsDone = False\<rparr>"
  let ?base = "responseBase env r ''in_progress'' []"
  let ?t = "emitEventTo env now (InProgress ?base) (emitEventTo env now (Created ?base) ?s0)"
  have "openLog ?s0" by (simp add: openLog_def numbered_def)
  then have "openLog ?t" by (intro emit_openLog) simp_all
  moreover have "inStep env ?t" if u: "\<not> rsBroken ?t"
  proof -
    note r2 = emit_sent [OF u]
    note r1 = emit_sent [OF r2 [THEN conjunct1]]
    have "sentEvents ?t = [Created ?base, InProgress ?base]" using r1 r2 by simp
    then show ?thesis
      by (simp add: inStep_def wfItems_def itemIndices_def callsByIndex_def itemAt_def fun_eq_iff clientView_def)
  qed
  ultimately show ?thesis by (simp add: adapterStart_def Let_def adapterInv_def)
qed

lemma scanned_inv: "adapterInv env (fold (scanStep env r) inputs (adapterStart env r now))"
  by (rule responses_stream.run_inv) (simp_all add: adapterStart_inv)

lemma scanEnd_inv [simp]: "adapterInv env (scanEnd e s) = adapterInv env s"
  by (simp add: scanEnd_def Let_def split: option.split)

lemma commitTicks_inv: "adapterInv env s \<Longrightarrow> adapterInv env (commitTicks env r ticks s)"
  unfolding commitTicks_def by (induction ticks arbitrary: s) (simp_all add: heartbeat_inv)

end
