(* ===== verification/ResponsesProps.thy ===== *)
theory ResponsesProps
  imports ResponsesLaws
begin

text \<open>
  The properties of a whole Responses stream: its shape, what a client of its events knows at the end, and that
  nothing executable is sent before the response has been committed.
\<close>

subsection \<open>The tail of a stream\<close>

fun isTerminal :: "responseEvent \<Rightarrow> bool" where
  "isTerminal (Terminal _ _) = True"
| "isTerminal _ = False"

lemma preliminary_not_terminal [simp]: "preliminary ev \<Longrightarrow> \<not> isTerminal ev"
  by (cases ev) simp_all

text \<open>Writing a list of events: all of them, or the ones before the first failed write.\<close>

lemma emitAll_sent:
  "\<exists>evs'. sentEvents (emitAll env now evs s) = sentEvents s @ evs' \<and> prefix evs' evs
     \<and> (if rsBroken s then evs' = [] else rsBroken (emitAll env now evs s) \<longleftrightarrow> evs' \<noteq> evs)"
proof (induction evs arbitrary: s)
  case (Cons e evs)
  let ?t = "emitEventTo env now e s"
  obtain evs' where IH: "sentEvents (emitAll env now evs ?t) = sentEvents ?t @ evs'" "prefix evs' evs"
    "if rsBroken ?t then evs' = [] else rsBroken (emitAll env now evs ?t) \<longleftrightarrow> evs' \<noteq> evs"
    using Cons.IH [of ?t] by blast
  have step: "emitAll env now (e # evs) s = emitAll env now evs ?t" by (simp add: emitAll_def)
  show ?case
  proof (cases "rsBroken ?t")
    case True
    then have stuck: "emitAll env now evs ?t = ?t" unfolding emitAll_def
      by (induction evs) (simp_all add: emit_broken)
    have "sentEvents ?t = sentEvents s" using True by (auto simp: emitEventTo_def split: if_splits)
    then show ?thesis unfolding step stuck using True by (intro exI [of _ "[]"]) simp
  next
    case False
    note sent = emit_sent [OF False]
    show ?thesis unfolding step IH(1) using IH(2,3) sent False
      by (intro exI [of _ "e # evs'"]) simp
  qed
qed (simp add: emitAll_def)

lemma emitAll_numbered: "numbered s \<Longrightarrow> numbered (emitAll env now evs s)"
  unfolding emitAll_def by (induction evs arbitrary: s) (simp_all add: emit_numbered)

lemma emitAll_keeps [simp]:
  "rsCalls (emitAll env now evs s) = rsCalls s" "rsText (emitAll env now evs s) = rsText s"
  "rsFinish (emitAll env now evs s) = rsFinish s"
  unfolding emitAll_def by (induction evs arbitrary: s) simp_all

text \<open>The state the outcome of a stream is decided in, and the events that end it.\<close>

definition scanned :: "streamEnv \<Rightarrow> responseRef \<Rightarrow> gotime \<Rightarrow> streamRun \<Rightarrow> adapterState" where
  "scanned env r now run =
     scanEnd (srScanErr run) (fold (scanStep env r) (srInputs run) (adapterStart env r now))"

definition finalEvents :: "streamEnv \<Rightarrow> responseRef \<Rightarrow> streamRun \<Rightarrow> adapterState \<Rightarrow> responseEvent list" where
  "finalEvents env r run s =
     textDoneEvents env s @ callDoneEvents s @ [Terminal (responseStatus s) (completedResource env r (srCompletedAt run) s)]"

text \<open>Two states that agree in everything but the log.\<close>

definition sameContent :: "adapterState \<Rightarrow> adapterState \<Rightarrow> bool" where
  "sameContent s t \<longleftrightarrow> rsText t = rsText s \<and> rsTextStarted t = rsTextStarted s \<and> rsMessageIndex t = rsMessageIndex s
     \<and> rsNext t = rsNext s \<and> rsCalls t = rsCalls s \<and> rsFinish t = rsFinish s"

lemma finalEvents_body:
  "filter isTerminal (textDoneEvents env s @ callDoneEvents s) = []"
  by (auto simp: textDoneEvents_def callDoneEvents_def filter_empty_conv)

lemma commitTicks_same: "sameContent s (commitTicks env r ticks s)"
  unfolding commitTicks_def by (induction ticks arbitrary: s) (simp_all add: sameContent_def heartbeatTick_def)

lemma finalEvents_same: "sameContent s t \<Longrightarrow> finalEvents env r run t = finalEvents env r run s"
  by (simp add: sameContent_def finalEvents_def textDoneEvents_def callDoneEvents_def completedResource_def
    responseStatus_def outputItems_def)

lemma itemAt_same: "sameContent s t \<Longrightarrow> itemAt env t = itemAt env s"
  by (simp add: sameContent_def itemAt_def callsByIndex_def fun_eq_iff)

lemma items_same: "sameContent s t \<Longrightarrow> wfItems t = wfItems s \<and> callsByIndex t = callsByIndex s"
  by (simp add: sameContent_def wfItems_def itemIndices_def callsByIndex_def)

text \<open>
  How a stream ends: it broke off while scanning; it failed; it broke off during the commit; it was committed, or there
  was nothing to commit, and its last events were written; or the commit was refused.
\<close>

lemma stream_ends:
  assumes "streamResponses env r now run = (s, committed)"
  obtains (broken) "rsBroken s" "openLog s" "committed = None"
  | (failed) t code msg where "adapterInv env t" "\<not> rsBroken t" "streamFails (scanned env r now run)"
      "\<not> rsBroken (scanned env r now run)" "sameContent (scanned env r now run) t"
      "s = emitEventTo env (srEndTime run) (Terminal ''failed'' (failedResource env r code msg)) t" "committed = None"
  | (interrupted) commit where "rsBroken s" "openLog s" "srCommit run = Some commit"
      "committed = Some (assistantOf (scanned env r now run))"
  | (finished) t where "adapterInv env t" "\<not> rsBroken t" "sameContent (scanned env r now run) t"
      "\<not> streamFails (scanned env r now run)" "\<not> rsBroken (scanned env r now run)"
      "s = emitAll env (srCommitTime run) (finalEvents env r run (scanned env r now run)) t"
      "committed = (case srCommit run of None \<Rightarrow> None | Some c \<Rightarrow> Some (assistantOf (scanned env r now run)))"
      "\<forall>c. srCommit run = Some c \<longrightarrow> c (assistantOf (scanned env r now run))"
  | (refused) t commit where "adapterInv env t" "\<not> rsBroken t" "\<not> streamFails (scanned env r now run)"
      "\<not> rsBroken (scanned env r now run)" "sameContent (scanned env r now run) t"
      "srCommit run = Some commit" "\<not> commit (assistantOf (scanned env r now run))"
      "s = emitEventTo env (srCommitTime run) (Terminal ''failed'' (persistenceFailure env r)) t"
      "committed = Some (assistantOf (scanned env r now run))"
proof -
  let ?o = "fold (scanStep env r) (srInputs run) (adapterStart env r now)"
  let ?s = "scanned env r now run"
  have inv0: "adapterInv env ?o" by (rule scanned_inv)
  then have inv: "adapterInv env ?s" unfolding scanned_def scanEnd_inv .
  have nb: "rsBroken ?s = rsBroken ?o"
    by (simp add: scanned_def scanEnd_def Let_def noteError_def split: option.split)
  have run: "(s, committed) = closeStream env r run ?o" using assms by (simp add: streamResponses_def)
  show thesis
  proof (cases "rsBroken ?o")
    case True
    with run inv0 show thesis by (intro broken) (simp_all add: closeStream_def adapterInv_def)
  next
    case False
    have run: "(s, committed) =
        (if streamFails ?s then (emitFailed env r (srEndTime run) ?s, None)
         else case srCommit run of
                None \<Rightarrow> (finishResponse env r run ?s, None)
              | Some commit \<Rightarrow>
                  (let s' = commitTicks env r (srCommitTicks run) ?s
                   in if rsBroken s' then (s', Some (assistantOf ?s))
                      else if commit (assistantOf ?s) then (finishResponse env r run s', Some (assistantOf ?s))
                      else (emitEventTo env (srCommitTime run) (Terminal ''failed'' (persistenceFailure env r)) s',
                            Some (assistantOf ?s))))"
      using run False by (simp only: closeStream_def if_False Let_def scanned_def [symmetric])
    show thesis
    proof (cases "streamFails ?s")
      case True
      with run show thesis
        by (intro failed [OF inv]) (simp_all add: nb False emitFailed_def Let_def sameContent_def)
    next
      case ok: False
      show thesis
      proof (cases "srCommit run")
        case None
        with run ok show thesis
          by (intro finished [OF inv]) (simp_all add: nb False sameContent_def finishResponse_def finalEvents_def)
      next
        case (Some commit)
        let ?t = "commitTicks env r (srCommitTicks run) ?s"
        have invT: "adapterInv env ?t" by (rule commitTicks_inv [OF inv])
        have same: "sameContent ?s ?t" by (rule commitTicks_same)
        consider "rsBroken ?t" | "\<not> rsBroken ?t" "commit (assistantOf ?s)" | "\<not> rsBroken ?t" "\<not> commit (assistantOf ?s)"
          by blast
        then show thesis
        proof cases
          case 1
          with run ok Some invT show thesis by (intro interrupted) (simp_all add: adapterInv_def Let_def)
        next
          case 2
          have "finishResponse env r run ?t = emitAll env (srCommitTime run) (finalEvents env r run ?s) ?t"
            unfolding finalEvents_same [OF same, symmetric] by (simp add: finishResponse_def finalEvents_def)
          with 2 run ok Some show thesis by (intro finished [OF invT _ same]) (simp_all add: Let_def nb False)
        next
          case 3
          with run ok Some show thesis by (intro refused [OF invT _ _ _ same Some]) (simp_all add: Let_def nb False)
        qed
      qed
    qed
  qed
qed

subsection \<open>The output of a response\<close>

definition itemContent :: "json \<Rightarrow> clientItem" where
  "itemContent item =
     (let m = asObject item; kind = memberString m ''type''
      in clientItem kind (memberString m ''id'')
           (if kind = ''message''
            then concat (map (\<lambda>p. memberString (asObject p) ''text'') (asArray (member m ''content'')))
            else memberString m ''arguments''))"

lemma itemContent_message [simp]:
  "itemContent (JObj (messageItem env status [JObj (textPartOf t)])) = clientItem ''message'' (messageID env) t"
  by (simp add: itemContent_def messageItem_def textPartOf_def getOr_def asString_def asObject_def asArray_def)

lemma itemContent_call [simp]:
  "itemContent (JObj (callItem status args st)) = clientItem ''function_call'' (tcItemID st) args"
  by (simp add: itemContent_def callItem_def getOr_def asString_def asObject_def)

lemma fold_update_nth:
  "i < length acc \<Longrightarrow>
   fold (\<lambda>(_, st) items. items[f st := g st]) cs acc ! i
     = (case map_of (rev (map (\<lambda>(_, st). (f st, st)) cs)) i of Some st \<Rightarrow> g st | None \<Rightarrow> acc ! i)"
  by (induction cs arbitrary: acc) (auto simp: map_add_def nth_list_update split: option.splits)

lemma length_fold_update [simp]: "length (fold (\<lambda>(_, st) items. items[f st := g st]) cs acc) = length acc"
  by (induction cs arbitrary: acc) auto

lemma outputItems_length [simp]: "length (outputItems env status s) = rsNext s"
  by (simp add: outputItems_def Let_def)

lemma outputItems_at:
  assumes wf: "wfItems s" and i: "i < rsNext s"
  shows "outputItems env status s ! i =
    (if rsTextStarted s \<and> i = rsMessageIndex s then JObj (messageItem env status [JObj (textPartOf (rsText s))])
     else (let st = the (map_of (callsByIndex s) i) in JObj (callItem status (tcArgs st) st)))"
    and "\<not> (rsTextStarted s \<and> i = rsMessageIndex s) \<Longrightarrow> map_of (callsByIndex s) i \<noteq> None"
proof -
  have dist: "distinct (map fst (callsByIndex s))" using wf by (auto simp: wfItems_def itemIndices_def)
  have "i \<in> set (itemIndices s)" using wf i by (simp add: wfItems_def)
  then show found: "\<not> (rsTextStarted s \<and> i = rsMessageIndex s) \<Longrightarrow> map_of (callsByIndex s) i \<noteq> None"
    by (auto simp: itemIndices_def map_of_eq_None_iff split: if_splits)
  have only: "rsTextStarted s \<and> i = rsMessageIndex s \<Longrightarrow> map_of (callsByIndex s) i = None"
    using wf by (auto simp: wfItems_def itemIndices_def map_of_eq_None_iff)
  have rev: "map_of (rev (map (\<lambda>(_, st). (tcOutputIndex st, st)) (rsCalls s))) = map_of (callsByIndex s)"
    using dist unfolding callsByIndex_def by (intro map_of_inject_set [THEN iffD2]) (simp_all add: rev_map [symmetric] distinct_rev)
  show "outputItems env status s ! i =
    (if rsTextStarted s \<and> i = rsMessageIndex s then JObj (messageItem env status [JObj (textPartOf (rsText s))])
     else (let st = the (map_of (callsByIndex s) i) in JObj (callItem status (tcArgs st) st)))"
  proof (cases "rsTextStarted s \<and> i = rsMessageIndex s")
    case True
    then show ?thesis using i only by (simp add: outputItems_def Let_def fold_update_nth rev)
  next
    case False
    then show ?thesis using i found by (auto simp: outputItems_def Let_def fold_update_nth rev nth_list_update)
  qed
qed

lemma itemAt_output:
  assumes wf: "wfItems s"
  shows "itemAt env s i = (if i < length (outputItems env status s) then Some (itemContent (outputItems env status s ! i)) else None)"
proof (cases "i < rsNext s")
  case True
  then show ?thesis using outputItems_at [OF wf True] by (auto simp: itemAt_def Let_def)
next
  case False
  then have "i \<notin> set (itemIndices s)" using wf by (simp add: wfItems_def)
  then show ?thesis using False
    by (auto simp: itemAt_def itemIndices_def map_of_eq_None_iff split: if_splits)
qed

lemma map_of_fold_update:
  "k \<notin> fst ` set fs \<Longrightarrow> map_of (fold (\<lambda>(k, v). AList.update k v) fs m) k = map_of m k"
  by (induction fs arbitrary: m) auto

definition plainFields :: "responseRef \<Rightarrow> bool" where
  "plainFields r \<longleftrightarrow> ''output'' \<notin> fst ` set (rrFields r) \<and> ''status'' \<notin> fst ` set (rrFields r)"

lemma resourceFields_plain: "plainFields \<lparr>rrID = ident, rrModel = model, rrFields = responsesResourceFields body\<rparr>"
  by (auto simp: plainFields_def responsesResourceFields_def)

lemma completedResource_output:
  "plainFields r \<Longrightarrow>
   map_of (completedResource env r at s) ''output'' = Some (JArr (outputItems env (responseStatus s) s))
   \<and> map_of (completedResource env r at s) ''status'' = Some (JStr (responseStatus s))"
  by (simp add: completedResource_def Let_def responseBase_def applyResponsesResourceFields_def plainFields_def map_of_fold_update)

subsection \<open>Properties\<close>

text \<open>C28: every Responses stream is well formed. Whatever the inner handler writes, whenever the heartbeat ticks and
  whichever write fails, the events are numbered from zero without a gap; a stream that was not cut off by a failed
  write starts with response.created and has exactly one terminal event, its last one; a stream that was cut off has
  none.\<close>

theorem one_terminal_event:
  "let s = fst (streamResponses env r now run)
   in map fst (rsSent s) = [0..<length (rsSent s)]
    \<and> filter isTerminal (sentEvents s) = (if rsBroken s then [] else [last (sentEvents s)])
    \<and> (if rsBroken s then True else \<exists>resp rest. sentEvents s = Created resp # rest)"
proof -
  obtain s committed where run: "streamResponses env r now run = (s, committed)" by force
  have open_none: "filter isTerminal (sentEvents t) = []" if "openLog t" for t
    using that by (auto simp: openLog_def filter_empty_conv)
  have terminal: "numbered (emitEventTo env at (Terminal st x) t)
      \<and> filter isTerminal (sentEvents (emitEventTo env at (Terminal st x) t))
          = (if rsBroken (emitEventTo env at (Terminal st x) t) then [] else [last (sentEvents (emitEventTo env at (Terminal st x) t))])
      \<and> (if rsBroken (emitEventTo env at (Terminal st x) t) then True
          else \<exists>resp rest. sentEvents (emitEventTo env at (Terminal st x) t) = Created resp # rest)"
    if "adapterInv env t" "\<not> rsBroken t" for at st x t
  proof -
    have "numbered (emitEventTo env at (Terminal st x) t)" "filter isTerminal (sentEvents t) = []"
      using that by (auto simp: adapterInv_def openLog_def emit_numbered filter_empty_conv)
    then show ?thesis using that
      by (auto simp: emitEventTo_def adapterInv_def inStep_def)
  qed
  from run show ?thesis
  proof (cases rule: stream_ends)
    case broken
    then show ?thesis using open_none [of s] by (simp add: run openLog_def numbered_def)
  next
    case (failed t code msg)
    then show ?thesis using terminal [OF failed(1,2)] by (simp add: run numbered_def Let_def)
  next
    case (interrupted commit)
    then show ?thesis using open_none [of s] by (simp add: run openLog_def numbered_def)
  next
    case (refused t commit)
    then show ?thesis using terminal [OF refused(1,2)] by (simp add: run numbered_def Let_def)
  next
    case (finished t)
    let ?evs = "finalEvents env r run (scanned env r now run)"
    obtain evs' where sent: "sentEvents s = sentEvents t @ evs'" "prefix evs' ?evs" "rsBroken s \<longleftrightarrow> evs' \<noteq> ?evs"
      using emitAll_sent [of env "srCommitTime run" ?evs t] finished(2,6) by auto
    obtain body st res where evs: "?evs = body @ [Terminal st res]" "filter isTerminal body = []"
      using finalEvents_body unfolding finalEvents_def append_assoc [symmetric] by blast
    have shape: "filter isTerminal evs' = (if evs' = ?evs then [last evs'] else [])"
      using sent(2) evs by (auto simp: prefix_snoc) (auto simp: prefix_def)
    have "numbered s" using finished(1) unfolding finished(6)
      by (intro emitAll_numbered) (simp add: adapterInv_def openLog_def)
    moreover have "filter isTerminal (sentEvents t) = []" using finished(1) open_none by (simp add: adapterInv_def)
    moreover have "\<exists>resp rest. sentEvents s = Created resp # rest"
      using finished(1,2) unfolding sent(1) adapterInv_def inStep_def by auto
    moreover have "evs' \<noteq> []" if "evs' = ?evs" using that evs by simp
    ultimately show ?thesis using sent(1,3) shape by (cases "evs' = ?evs") (simp_all add: run numbered_def Let_def)
  qed
qed

text \<open>The items a client has been told are done, and the calls among them.\<close>

fun doneItems :: "responseEvent list \<Rightarrow> (nat \<times> json) list" where
  "doneItems [] = []"
| "doneItems (ItemDone i item # evs) = (i, JObj item) # doneItems evs"
| "doneItems (_ # evs) = doneItems evs"

lemma doneItems_append [simp]: "doneItems (a @ b) = doneItems a @ doneItems b"
  by (induction a rule: doneItems.induct) simp_all

lemma doneItems_concat: "doneItems (concat xss) = concat (map doneItems xss)"
  by (induction xss) simp_all

lemma doneItems_preliminary: "\<forall>ev \<in> set evs. preliminary ev \<Longrightarrow> doneItems evs = []"
  by (induction evs rule: doneItems.induct) simp_all

lemma doneItems_open: "openLog s \<Longrightarrow> doneItems (sentEvents s) = []"
  by (simp add: openLog_def doneItems_preliminary)

lemma doneItems_final:
  "doneItems (finalEvents env r run s) =
     (if rsTextStarted s then [(rsMessageIndex s, JObj (messageItem env (responseStatus s) [JObj (textPartOf (rsText s))]))] else [])
     @ (if responseStatus s = ''completed''
        then map (\<lambda>(i, st). (i, JObj (callItem ''completed'' (tcArgs st) st))) (callsByIndex s) else [])"
proof -
  have single: "doneItems ((case p of (_, st) \<Rightarrow> [ArgumentsDone (tcOutputIndex st) (tcItemID st) (tcName st) (tcArgs st),
                                    ItemDone (tcOutputIndex st) (callItem ''completed'' (tcArgs st) st)]))
     = [(tcOutputIndex (snd p), JObj (callItem ''completed'' (tcArgs (snd p)) (snd p)))]" for p :: "int \<times> tcState"
    by (cases p) simp
  have "doneItems (callDoneEvents s) = (if responseStatus s = ''completed''
        then map (\<lambda>(i, st). (i, JObj (callItem ''completed'' (tcArgs st) st))) (callsByIndex s) else [])"
    unfolding callDoneEvents_def
    by (simp add: doneItems_concat comp_def single callsByIndex_def case_prod_beta)
  moreover have "doneItems (textDoneEvents env s) =
     (if rsTextStarted s then [(rsMessageIndex s, JObj (messageItem env (responseStatus s) [JObj (textPartOf (rsText s))]))] else [])"
    by (simp add: textDoneEvents_def)
  ultimately show ?thesis by (simp add: finalEvents_def)
qed

lemma doneItems_indices: "fst ` set (doneItems (finalEvents env r run s)) \<subseteq> set (itemIndices s)"
  by (force simp: doneItems_final itemIndices_def)

lemma clientView_final: "fold clientStep (finalEvents env r run s) w = w"
proof -
  have "fold clientStep (concat (map (\<lambda>(_, st). [ArgumentsDone (tcOutputIndex st) (tcItemID st) (tcName st) (tcArgs st),
                                    ItemDone (tcOutputIndex st) (callItem ''completed'' (tcArgs st) st)]) cs)) w = w" for cs :: "(int \<times> tcState) list"
    by (induction cs arbitrary: w) auto
  then show ?thesis by (simp add: finalEvents_def textDoneEvents_def callDoneEvents_def)
qed

lemma prefix_with_last:
  assumes "prefix evs' (body @ [e])" and "x \<in> set evs'" and "x \<notin> set body"
  shows "evs' = body @ [e] \<and> x = e"
proof -
  have "evs' = body @ [e]" using assms by (auto simp: prefix_snoc dest: set_mono_prefix)
  with assms show ?thesis by auto
qed

lemma final_terminal:
  assumes "prefix evs' (finalEvents env r run s)" and "Terminal status res \<in> set evs'"
  shows "evs' = finalEvents env r run s \<and> status = responseStatus s \<and> res = completedResource env r (srCompletedAt run) s"
proof -
  have "Terminal status res \<notin> set (textDoneEvents env s @ callDoneEvents s)"
    using finalEvents_body [of env s] by (auto simp: filter_empty_conv)
  from prefix_with_last [OF _ assms(2) this, of "Terminal (responseStatus s) (completedResource env r (srCompletedAt run) s)"] assms(1)
  show ?thesis by (simp add: finalEvents_def)
qed

lemma terminal_not_open: "openLog s \<Longrightarrow> Terminal status res \<notin> set (sentEvents s)"
  by (force simp: openLog_def)

text \<open>A terminal event that is no failure closes a stream whose response was completed.\<close>

lemma stream_succeeded:
  assumes run: "streamResponses env r now run = (s, committed)"
    and sent: "Terminal status res \<in> set (sentEvents s)" and ok: "status \<noteq> ''failed''"
  obtains t where "adapterInv env t" "\<not> rsBroken t" "sameContent (scanned env r now run) t"
    "sentEvents s = sentEvents t @ finalEvents env r run (scanned env r now run)" "\<not> rsBroken s"
    "status = responseStatus (scanned env r now run)"
    "res = completedResource env r (srCompletedAt run) (scanned env r now run)"
    "committed = (case srCommit run of None \<Rightarrow> None | Some c \<Rightarrow> Some (assistantOf (scanned env r now run)))"
    "\<forall>c. srCommit run = Some c \<longrightarrow> c (assistantOf (scanned env r now run))"
  using run
proof (cases rule: stream_ends)
  case (finished t)
  let ?evs = "finalEvents env r run (scanned env r now run)"
  obtain evs' where e: "sentEvents s = sentEvents t @ evs'" "prefix evs' ?evs" "rsBroken s \<longleftrightarrow> evs' \<noteq> ?evs"
    using emitAll_sent [of env "srCommitTime run" ?evs t] finished(2,6) by auto
  have "Terminal status res \<in> set evs'"
    using sent e(1) terminal_not_open [of t] finished(1) by (auto simp: adapterInv_def)
  from final_terminal [OF e(2) this] e finished show thesis by (intro that [of t]) auto
next
  case (failed t code msg)
  then show thesis using sent ok emit_sent_subset [of env "srEndTime run" _ t] terminal_not_open [of t status res]
    by (auto simp: adapterInv_def)
next
  case (refused t commit)
  then show thesis using sent ok emit_sent_subset [of env "srCommitTime run" _ t] terminal_not_open [of t status res]
    by (auto simp: adapterInv_def)
qed (use sent terminal_not_open in blast)+

text \<open>C29: the streamed events carry the whole response. When a response ends completed or incomplete, a client that
  adds the items and appends the deltas, by output index, has for every item of the final output exactly its kind,
  identity and text or arguments, and no other item; and the items it was told are done are those of the output, all of
  them for a completed response and only the message for a truncated one.\<close>

theorem client_rebuilds_output:
  assumes "streamResponses env \<lparr>rrID = ident, rrModel = model, rrFields = responsesResourceFields body\<rparr> now run = (s, committed)"
    and "Terminal status res \<in> set (sentEvents s)" and "status \<noteq> ''failed''"
  shows "\<exists>items. map_of res ''output'' = Some (JArr items) \<and> map_of res ''status'' = Some (JStr status)
    \<and> (\<forall>i. clientView (sentEvents s) i = (if i < length items then Some (itemContent (items ! i)) else None))
    \<and> (\<forall>i. map_of (doneItems (sentEvents s)) i
            = (if i < length items \<and> (status = ''completed'' \<or> ciKind (itemContent (items ! i)) = ''message'')
               then Some (items ! i) else None))"
  using assms
proof (cases rule: stream_succeeded)
  case (1 t)
  let ?r = "\<lparr>rrID = ident, rrModel = model, rrFields = responsesResourceFields body\<rparr>"
  let ?s = "scanned env ?r now run"
  let ?items = "outputItems env status ?s"
  have wf: "wfItems t" and view: "clientView (sentEvents t) = itemAt env t"
    using 1(1,2) by (auto simp: adapterInv_def inStep_def)
  have wfS: "wfItems ?s" and at: "itemAt env t = itemAt env ?s" and cbi: "callsByIndex t = callsByIndex ?s"
    using wf items_same [OF 1(3)] itemAt_same [OF 1(3)] by simp_all
  have res: "map_of res ''output'' = Some (JArr ?items)" "map_of res ''status'' = Some (JStr status)"
    using completedResource_output [OF resourceFields_plain] 1(6,7) by simp_all
  have seen: "clientView (sentEvents s) i = (if i < length ?items then Some (itemContent (?items ! i)) else None)" for i
    unfolding 1(4) clientView_append clientView_final view at by (rule itemAt_output [OF wfS])
  have told: "map_of (doneItems (sentEvents s)) i
      = (if i < length ?items \<and> (status = ''completed'' \<or> ciKind (itemContent (?items ! i)) = ''message'')
         then Some (?items ! i) else None)" for i
  proof (cases "i < rsNext ?s")
    case True
    note here = outputItems_at(1) [OF wfS True, of env status] outputItems_at(2) [OF wfS True]
    have fresh: "rsTextStarted ?s \<Longrightarrow> map_of (callsByIndex ?s) (rsMessageIndex ?s) = None"
      using wfS by (auto simp: wfItems_def itemIndices_def map_of_eq_None_iff)
    have lookup: "map_of (map (\<lambda>(i, st). (i, JObj (callItem ''completed'' (tcArgs st) st))) cs) i
       = map_option (\<lambda>st. JObj (callItem ''completed'' (tcArgs st) st)) (map_of cs i)" for cs :: "(nat \<times> tcState) list"
      by (induction cs) auto
    show ?thesis
    proof (cases "rsTextStarted ?s \<and> i = rsMessageIndex ?s")
      case True
      with here(1) show ?thesis using \<open>i < rsNext ?s\<close> 1(1,6)
        by (simp add: 1(4) doneItems_open doneItems_final adapterInv_def)
    next
      case False
      with here obtain c where c: "map_of (callsByIndex ?s) i = Some c" by blast
      with here(1) False show ?thesis using \<open>i < rsNext ?s\<close> 1(1,6)
        by (auto simp: 1(4) doneItems_open doneItems_final adapterInv_def lookup)
    qed
  next
    case False
    then have "i \<notin> set (itemIndices ?s)" using wfS by (simp add: wfItems_def)
    then have "map_of (doneItems (finalEvents env ?r run ?s)) i = None"
      using doneItems_indices by (fastforce simp: map_of_eq_None_iff)
    then show ?thesis using False 1(1) by (simp add: 1(4) doneItems_open adapterInv_def)
  qed
  from res seen told show ?thesis by blast
qed

subsection \<open>Commit before execution\<close>

definition announcedCall :: "nat \<times> json \<Rightarrow> jsonObject option" where
  "announcedCall entry =
     (let m = asObject (snd entry)
      in if memberString m ''type'' = ''function_call''
         then Some (callObject (member m ''call_id'') (member m ''name'') (memberString m ''arguments'')) else None)"

definition announcedCalls :: "responseEvent list \<Rightarrow> jsonObject list" where
  "announcedCalls evs = List.map_filter announcedCall (doneItems evs)"

lemma map_filter_append: "List.map_filter f (a @ b) = List.map_filter f a @ List.map_filter f b"
  by (simp add: List.map_filter_def)

lemma announcedCalls_append: "announcedCalls (a @ b) = announcedCalls a @ announcedCalls b"
  by (simp add: announcedCalls_def map_filter_append)

lemma announcedCalls_prefix: "prefix a b \<Longrightarrow> prefix (announcedCalls a) (announcedCalls b)"
  by (auto simp: prefix_def announcedCalls_append)

lemma announcedCalls_open: "openLog s \<Longrightarrow> announcedCalls (sentEvents s) = []"
  by (simp add: announcedCalls_def doneItems_open List.map_filter_simps)

lemma announcedCalls_final:
  "announcedCalls (finalEvents env r run s) = msgToolCalls (assistantOf s)"
proof -
  have calls: "List.map_filter announcedCall
       (map (\<lambda>(i, st). (i, JObj (callItem ''completed'' (tcArgs st) st))) (map (\<lambda>(_, st). (tcOutputIndex st, st)) cs))
     = map (tcCall \<circ> snd) cs" for cs :: "(int \<times> tcState) list"
    by (induction cs)
      (auto simp: List.map_filter_simps announcedCall_def callItem_def tcCall_def getOr_def asString_def asObject_def)
  have message: "announcedCall (i, JObj (messageItem env status content)) = None" for i status content
    by (simp add: announcedCall_def messageItem_def getOr_def asString_def asObject_def)
  show ?thesis
    using calls [of "rsCalls s"]
    by (simp add: announcedCalls_def doneItems_final map_filter_append assistantOf_def callsByIndex_def
      List.map_filter_simps message)
qed

lemma announcedCalls_failed:
  "openLog t \<Longrightarrow> announcedCalls (sentEvents (emitEventTo env now (Terminal st x) t)) = []"
  by (simp add: emitEventTo_def announcedCalls_append announcedCalls_open)
     (simp add: announcedCalls_def List.map_filter_simps)

lemma failed_only:
  "openLog t \<Longrightarrow> Terminal status res \<in> set (sentEvents (emitEventTo env now (Terminal ''failed'' x) t)) \<Longrightarrow> status = ''failed''"
  using emit_sent_subset [of env now "Terminal ''failed'' x" t] terminal_not_open [of t status res] by blast

text \<open>
  A client may also run a call when its arguments are done, before the item is: the names and arguments it
  learns from the events function_call_arguments.done, and those of the calls of a message.
\<close>

definition readyCall :: "responseEvent \<Rightarrow> (string \<times> string) option" where
  "readyCall ev = (case ev of ArgumentsDone _ _ name args \<Rightarrow> Some (name, args) | _ \<Rightarrow> None)"

definition readyCalls :: "responseEvent list \<Rightarrow> (string \<times> string) list" where
  "readyCalls evs = List.map_filter readyCall evs"

definition callNameArguments :: "jsonObject \<Rightarrow> string \<times> string" where
  "callNameArguments c =
     (let fn = asObject (member c ''function'') in (memberString fn ''name'', memberString fn ''arguments''))"

lemma readyCalls_append: "readyCalls (a @ b) = readyCalls a @ readyCalls b"
  by (simp add: readyCalls_def map_filter_append)

lemma readyCalls_prefix: "prefix a b \<Longrightarrow> prefix (readyCalls a) (readyCalls b)"
  by (auto simp: prefix_def readyCalls_append)

lemma readyCalls_none: "\<forall>ev \<in> set evs. readyCall ev = None \<Longrightarrow> readyCalls evs = []"
  by (induction evs) (simp_all add: readyCalls_def List.map_filter_simps)

lemma readyCall_preliminary: "preliminary ev \<Longrightarrow> readyCall ev = None"
  by (cases ev) (simp_all add: readyCall_def)

lemma readyCalls_open: "openLog s \<Longrightarrow> readyCalls (sentEvents s) = []"
  by (rule readyCalls_none) (simp add: openLog_def readyCall_preliminary)

lemma readyCalls_final:
  "readyCalls (finalEvents env r run s) = map callNameArguments (msgToolCalls (assistantOf s))"
proof -
  have calls: "readyCalls (concat (map (\<lambda>(_, st). [ArgumentsDone (tcOutputIndex st) (tcItemID st) (tcName st) (tcArgs st),
                                    ItemDone (tcOutputIndex st) (callItem ''completed'' (tcArgs st) st)]) cs))
     = map (callNameArguments \<circ> tcCall \<circ> snd) cs" for cs :: "(int \<times> tcState) list"
    by (induction cs)
       (auto simp: readyCalls_def List.map_filter_simps readyCall_def callNameArguments_def tcCall_def callObject_def
         getOr_def asString_def asObject_def)
  have message: "readyCalls (textDoneEvents env s) = []" "readyCalls [Terminal st x] = []" for st x
    by (simp_all add: readyCalls_def readyCall_def textDoneEvents_def List.map_filter_simps)
  show ?thesis
    using calls [of "rsCalls s"] message
    by (simp add: finalEvents_def callDoneEvents_def readyCalls_append assistantOf_def comp_assoc)
       (simp add: readyCalls_def)
qed

lemma readyCalls_failed:
  "openLog t \<Longrightarrow> readyCalls (sentEvents (emitEventTo env now (Terminal st x) t)) = []"
  by (simp add: emitEventTo_def readyCalls_append readyCalls_open)
     (simp add: readyCalls_def readyCall_def List.map_filter_simps)

text \<open>C30: no call becomes executable before the response is stored. A client sees the finished arguments of a
  function call (function_call_arguments.done), a finished call (output_item.done), or a terminal event other than
  response.failed, only when the commit was given a message and stored it; the calls it sees by either event are
  then calls of that message, in order, and all of them unless a write failed; a response cut off by its length
  limit shows no call at all.\<close>

theorem commit_before_execution:
  assumes run: "streamResponses env r now run = (s, committed)" and commit: "srCommit run = Some commit"
    and seen: "announcedCalls (sentEvents s) \<noteq> [] \<or> readyCalls (sentEvents s) \<noteq> []
      \<or> (\<exists>status res. Terminal status res \<in> set (sentEvents s) \<and> status \<noteq> ''failed'')"
  shows "\<exists>m. committed = Some m \<and> commit m \<and> prefix (announcedCalls (sentEvents s)) (msgToolCalls m)
    \<and> prefix (readyCalls (sentEvents s)) (map callNameArguments (msgToolCalls m))
    \<and> (\<not> rsBroken s \<longrightarrow> announcedCalls (sentEvents s) = msgToolCalls m
         \<and> readyCalls (sentEvents s) = map callNameArguments (msgToolCalls m))
    \<and> (rsFinish s = ''length'' \<longrightarrow> msgToolCalls m = [])"
  using run
proof (cases rule: stream_ends)
  case (finished t)
  let ?s = "scanned env r now run"
  let ?evs = "finalEvents env r run ?s"
  obtain evs' where e: "sentEvents s = sentEvents t @ evs'" "prefix evs' ?evs" "rsBroken s \<longleftrightarrow> evs' \<noteq> ?evs"
    using emitAll_sent [of env "srCommitTime run" ?evs t] finished(2,6) by auto
  have calls: "announcedCalls (sentEvents s) = announcedCalls evs'" "readyCalls (sentEvents s) = readyCalls evs'"
    using finished(1)
    by (simp_all add: e(1) announcedCalls_append announcedCalls_open readyCalls_append readyCalls_open adapterInv_def)
  have "rsFinish s = rsFinish ?s" using finished(3) unfolding finished(6) by (simp add: sameContent_def)
  then have "rsFinish s = ''length'' \<Longrightarrow> msgToolCalls (assistantOf ?s) = []"
    by (simp add: assistantOf_def responseStatus_def)
  moreover have "prefix (announcedCalls evs') (msgToolCalls (assistantOf ?s))"
    "prefix (readyCalls evs') (map callNameArguments (msgToolCalls (assistantOf ?s)))"
    using announcedCalls_prefix [OF e(2)] readyCalls_prefix [OF e(2)]
    by (simp_all add: announcedCalls_final readyCalls_final)
  ultimately show ?thesis
    using finished(7,8) commit e(3) unfolding calls
    by (auto simp: announcedCalls_final readyCalls_final)
next
  case (failed t code msg)
  then have "openLog t" by (simp add: adapterInv_def)
  from seen failed_only [OF this] announcedCalls_failed [OF this] readyCalls_failed [OF this] show ?thesis
    unfolding failed(6) by blast
next
  case (refused t commit)
  then have "openLog t" by (simp add: adapterInv_def)
  from seen failed_only [OF this] announcedCalls_failed [OF this] readyCalls_failed [OF this] show ?thesis
    unfolding refused(8) by blast
qed (use seen announcedCalls_open readyCalls_open terminal_not_open in blast)+

subsection \<open>Failures\<close>

definition errorObject :: "jsonObject \<Rightarrow> bool" where
  "errorObject m \<longleftrightarrow> (case member m ''error'' of JObj _ \<Rightarrow> True | _ \<Rightarrow> False)"

definition doneLine :: "string \<Rightarrow> bool" where
  "doneLine line \<longleftrightarrow> HasPrefix line ''data:'' \<and> TrimSpace (drop 5 line) = ''[DONE]''"

text \<open>A data line that is neither the end mark nor an object without error member, or an error payload.\<close>

definition errorLine :: "streamEnv \<Rightarrow> string \<Rightarrow> bool" where
  "errorLine env line \<longleftrightarrow>
     (if HasPrefix line ''data:''
      then \<not> doneLine line
        \<and> (case decodeObject (seUnmarshal env) (TrimSpace (drop 5 line)) of Some m \<Rightarrow> errorObject m | None \<Rightarrow> True)
      else \<not> (blank line \<or> HasPrefix (TrimSpace line) ''event:'' \<or> HasPrefix (TrimSpace line) '':'')
        \<and> (case decodeObject (seUnmarshal env) (TrimSpace line) of Some m \<Rightarrow> errorObject m | None \<Rightarrow> False))"

definition linesOf :: "(gotime \<times> scanInput) list \<Rightarrow> string list" where
  "linesOf inputs = List.map_filter (\<lambda>i. case snd i of ScanLine line \<Rightarrow> Some line | ScanTick \<Rightarrow> None) inputs"

lemma contentDelta_flags [simp]:
  "rsFailed (contentDelta env now c s) = rsFailed s" "rsDone (contentDelta env now c s) = rsDone s"
  by (simp_all add: contentDelta_def Let_def)

lemma callAt_flags: "callAt env idx s = (st, s') \<Longrightarrow> rsFailed s' = rsFailed s \<and> rsDone s' = rsDone s"
  by (auto simp: callAt_def split: option.splits)

lemma callDelta_flags [simp]:
  "rsFailed (callDelta env now raw s) = rsFailed s" "rsDone (callDelta env now raw s) = rsDone s"
  by (cases rule: callDelta_cases [of env s now raw]; use callAt_flags in force)+

lemma chunkChoice_flags [simp]:
  "rsFailed (chunkChoice env now ch s) = rsFailed s" "rsDone (chunkChoice env now ch s) = rsDone s"
proof -
  have "rsFailed (fold (callDelta env now) cs t) = rsFailed t \<and> rsDone (fold (callDelta env now) cs t) = rsDone t" for cs t
    by (induction cs arbitrary: t) simp_all
  then show "rsFailed (chunkChoice env now ch s) = rsFailed s" "rsDone (chunkChoice env now ch s) = rsDone s"
    by (simp_all add: chunkChoice_def Let_def)
qed

lemma scanLine_flags:
  "rsFailed (scanLine env now line s) \<longleftrightarrow> rsFailed s \<or> errorLine env line"
  "rsDone (scanLine env now line s) \<longleftrightarrow> rsDone s \<or> doneLine line"
  by (auto simp: scanLine_def dataLine_def otherLine_def noteError_def noteErrorObject_def Let_def errorLine_def
      doneLine_def errorObject_def split: option.splits json.splits list.splits)

lemma scanStep_flags:
  assumes "\<not> rsBroken s"
  shows "rsFailed (scanStep env r i s) \<longleftrightarrow> rsFailed s \<or> list_ex (errorLine env) (linesOf [i])"
    and "rsDone (scanStep env r i s) \<longleftrightarrow> rsDone s \<or> list_ex doneLine (linesOf [i])"
  using assms
  by (simp_all add: scanStep_def scanLine_flags linesOf_def List.map_filter_simps heartbeatTick_def split: scanInput.split)

lemma broken_stays: "rsBroken s \<Longrightarrow> fold (scanStep env r) ins s = s"
  by (induction ins) (simp_all add: scanStep_def)

lemma linesOf_Cons: "linesOf (i # ins) = linesOf [i] @ linesOf ins"
  by (simp add: linesOf_def List.map_filter_def)

lemma scan_flags:
  "\<not> rsBroken (fold (scanStep env r) ins s) \<Longrightarrow>
   (rsFailed (fold (scanStep env r) ins s) \<longleftrightarrow> rsFailed s \<or> list_ex (errorLine env) (linesOf ins))
   \<and> (rsDone (fold (scanStep env r) ins s) \<longleftrightarrow> rsDone s \<or> list_ex doneLine (linesOf ins))"
proof (induction ins arbitrary: s)
  case (Cons i ins)
  then have "\<not> rsBroken s" using broken_stays [of s env r "i # ins"] by auto
  with Cons show ?case
    by (auto simp: scanStep_flags linesOf_Cons [of i ins])
qed (simp add: linesOf_def List.map_filter_simps)

definition silent :: "adapterState \<Rightarrow> bool" where
  "silent s \<longleftrightarrow> rsFinish s \<noteq> ''length'' \<and> rsCalls s = [] \<and> blank (rsText s)"

lemma scanned_fails:
  assumes "\<not> rsBroken (scanned env r now run)"
  shows "streamFails (scanned env r now run) \<longleftrightarrow>
    srScanErr run \<noteq> None \<or> list_ex (errorLine env) (linesOf (srInputs run)) \<or> \<not> list_ex doneLine (linesOf (srInputs run))
    \<or> silent (scanned env r now run)"
proof -
  let ?o = "fold (scanStep env r) (srInputs run) (adapterStart env r now)"
  have nb: "\<not> rsBroken ?o"
    using assms by (simp add: scanned_def scanEnd_def Let_def noteError_def split: option.splits if_splits)
  have start: "\<not> rsFailed (adapterStart env r now)" "\<not> rsDone (adapterStart env r now)"
    by (simp_all add: adapterStart_def Let_def)
  have "rsFailed (scanned env r now run) \<longleftrightarrow> srScanErr run \<noteq> None \<or> rsFailed ?o \<or> \<not> rsDone ?o"
    by (auto simp: scanned_def scanEnd_def Let_def noteError_def split: option.split)
  with scan_flags [OF nb] start show ?thesis by (auto simp: streamFails_def silent_def)
qed

text \<open>When a stream reports failure. A stream that no failed write cut off ends in response.failed exactly when the
  scanner stopped with an error, a line was malformed or carried an error, the end mark never came, there was neither
  text nor a call although the answer was not cut off by its length, or the response could not be stored.\<close>

lemma stream_fails_iff:
  assumes run: "streamResponses env r now run = (s, committed)" and whole: "\<not> rsBroken s"
  shows "(\<exists>res. Terminal ''failed'' res \<in> set (sentEvents s)) \<longleftrightarrow>
    srScanErr run \<noteq> None \<or> list_ex (errorLine env) (linesOf (srInputs run)) \<or> \<not> list_ex doneLine (linesOf (srInputs run))
    \<or> silent s
    \<or> (case (srCommit run, committed) of (Some commit, Some m) \<Rightarrow> \<not> commit m | _ \<Rightarrow> False)"
  using run
proof (cases rule: stream_ends)
  case (finished t)
  let ?s = "scanned env r now run"
  let ?evs = "finalEvents env r run ?s"
  obtain evs' where e: "sentEvents s = sentEvents t @ evs'" "prefix evs' ?evs"
    using emitAll_sent [of env "srCommitTime run" ?evs t] finished(6) by auto
  have "Terminal ''failed'' res \<notin> set (sentEvents s)" for res
  proof
    assume "Terminal ''failed'' res \<in> set (sentEvents s)"
    then have "Terminal ''failed'' res \<in> set evs'"
      using e(1) terminal_not_open [of t] finished(1) by (auto simp: adapterInv_def)
    from final_terminal [OF e(2) this] show False by (simp add: responseStatus_def split: if_splits)
  qed
  moreover have "silent s = silent ?s" using finished(3) unfolding finished(6) silent_def by (simp add: sameContent_def)
  ultimately show ?thesis using scanned_fails [OF finished(5)] finished(4,7,8) by (auto split: option.split)
next
  case (failed t code msg)
  have "silent s = silent (scanned env r now run)" using failed(5) unfolding failed(6) silent_def by (simp add: sameContent_def)
  moreover have "\<exists>res. Terminal ''failed'' res \<in> set (sentEvents s)"
    using emit_sent whole unfolding failed(6) by fastforce
  ultimately show ?thesis using scanned_fails [OF failed(4)] failed(3) by blast
next
  case (refused t commit)
  have "\<exists>res. Terminal ''failed'' res \<in> set (sentEvents s)"
    using emit_sent whole unfolding refused(8) by fastforce
  then show ?thesis using refused(6,7,9) by simp
qed (use whole in simp_all)

subsection \<open>A concrete stream\<close>

definition deltaChunk :: "jsonObject \<Rightarrow> json" where
  "deltaChunk delta = JObj [(''choices'', JArr [JObj [(''delta'', JObj delta)]])]"

definition demoStream :: streamEnv where
  "demoStream =
     \<lparr>seUnmarshal = (\<lambda>t. if t = ''T'' then Some (deltaChunk [(''content'', JStr ''hi'')])
                         else if t = ''C''
                         then Some (deltaChunk [(''tool_calls'', JArr [JObj (callObject (JStr ''c1'') (JStr ''ls'') ''{}'')])])
                         else None),
      seIndex = (\<lambda>_. 0), seUuid = showNat, seCreated = 0, seInterval = seconds 5, seWrites = (\<lambda>_. True)\<rparr>"

definition demoRun :: "string list \<Rightarrow> streamRun" where
  "demoRun ls =
     \<lparr>srInputs = map (\<lambda>l. (0, ScanLine l)) ls, srScanErr = None, srEndTime = 0, srCommitTicks = [],
      srCommit = Some (\<lambda>_. True), srCommitTime = 0, srCompletedAt = 0\<rparr>"

definition demoTurn :: "string list \<Rightarrow> adapterState \<times> oaiMsg option" where
  "demoTurn ls =
     streamResponses demoStream \<lparr>rrID = ''r'', rrModel = ''m'', rrFields = responsesResourceFields emptyResponses\<rparr> 0 (demoRun ls)"

definition demoLines :: "string list" where
  "demoLines = [''data: T'', ''data: C'', ''data: [DONE]'']"

lemma some_terminal:
  "list_ex (\<lambda>ev. case ev of Terminal st _ \<Rightarrow> st = x | _ \<Rightarrow> False) evs \<Longrightarrow> \<exists>res. Terminal x res \<in> set evs"
  by (induction evs) (auto split: responseEvent.splits)

lemma demo_completed:
  "list_ex (\<lambda>ev. case ev of Terminal st _ \<Rightarrow> st = ''completed'' | _ \<Rightarrow> False) (sentEvents (fst (demoTurn demoLines)))"
  by code_simp

lemma demo_terminal: "\<exists>res. Terminal ''completed'' res \<in> set (sentEvents (fst (demoTurn demoLines)))"
  by (rule some_terminal [OF demo_completed])

lemma demo_stream_run:
  "streamResponses demoStream \<lparr>rrID = ''r'', rrModel = ''m'', rrFields = responsesResourceFields emptyResponses\<rparr> 0 (demoRun ls)
     = (fst (demoTurn ls), snd (demoTurn ls))"
  by (simp add: demoTurn_def)

theorem client_rebuilds_output_witness:
  "\<exists>items. clientView (sentEvents (fst (demoTurn demoLines))) 1
     = (if 1 < length items then Some (itemContent (items ! 1)) else None)"
proof -
  obtain res where "Terminal ''completed'' res \<in> set (sentEvents (fst (demoTurn demoLines)))" using demo_terminal by blast
  from client_rebuilds_output [OF demo_stream_run this] show ?thesis by auto
qed

theorem commit_before_execution_witness:
  "\<exists>m. snd (demoTurn demoLines) = Some m \<and> prefix (announcedCalls (sentEvents (fst (demoTurn demoLines)))) (msgToolCalls m)"
proof -
  have "srCommit (demoRun demoLines) = Some (\<lambda>_. True)" by (simp add: demoRun_def)
  moreover have "announcedCalls (sentEvents (fst (demoTurn demoLines))) \<noteq> []" by code_simp
  ultimately show ?thesis using commit_before_execution [OF demo_stream_run] by blast
qed

lemma stream_fails_iff_witness:
  "\<exists>res. Terminal ''failed'' res \<in> set (sentEvents (fst (demoTurn [''data: T''])))"
proof -
  have "\<not> rsBroken (fst (demoTurn [''data: T'']))" "\<not> list_ex doneLine (linesOf (srInputs (demoRun [''data: T''])))"
    by code_simp+
  then show ?thesis using stream_fails_iff [OF demo_stream_run] by blast
qed

end
