(* ===== verification/ToolResponse.thy ===== *)
theory ToolResponse
  imports ResponsesProps ModelCapabilities PromptSelect
begin

text \<open>
  The chat completion that reports tool calls, internal/web/tool_response.go with compatM365Metadata of
  compat_metadata.go, and what a line scanner at the other end of the pipe reads. Whether the n-th write succeeds, the
  tokenizer and the clock are arguments. toolPlanSummary always is empty, so no summary is modelled.
\<close>

subsection \<open>Frames\<close>

record completionRef =
  cpID :: string
  cpModel :: string
  cpCreated :: int

definition chatChunk :: "completionRef \<Rightarrow> jsonObject \<Rightarrow> json \<Rightarrow> json" where
  "chatChunk r delta finish =
     JObj [(''id'', JStr (cpID r)), (''object'', JStr ''chat.completion.chunk''), (''created'', numberJSON (cpCreated r)),
           (''model'', JStr (cpModel r)),
           (''choices'', JArr [JObj [(''index'', JNum ''0''), (''delta'', JObj delta), (''finish_reason'', finish)]])]"

definition roleChunk :: "completionRef \<Rightarrow> json" where
  "roleChunk r = chatChunk r [(''role'', JStr ''assistant'')] JNull"

definition callChunk :: "completionRef \<Rightarrow> nat \<Rightarrow> detectedToolCall \<Rightarrow> json" where
  "callChunk r i c =
     chatChunk r [(''tool_calls'', JArr [JObj ((''index'', JNum (showNat i)) # portableCall (callID c) (callName c) (callArguments c))])]
       JNull"

definition toolFrames :: "completionRef \<Rightarrow> bool \<Rightarrow> detectedToolCall list \<Rightarrow> json list" where
  "toolFrames r preambleSent calls =
     (if preambleSent then [] else [roleChunk r])
     @ map (\<lambda>(i, c). callChunk r i c) (enumerate 0 calls) @ [chatChunk r [] (JStr ''tool_calls'')]"

definition lengthFrames :: "completionRef \<Rightarrow> bool \<Rightarrow> json list" where
  "lengthFrames r preambleSent =
     (if preambleSent then [] else [roleChunk r]) @ [chatChunk r [] (JStr ''length'')]"

text \<open>One event of a chat completion stream, and the end mark.\<close>

definition dataPayload :: "string \<Rightarrow> string" where
  "dataPayload d = ''data: '' @ d @ newline @ newline"

definition streamPayloads :: "json list \<Rightarrow> string list" where
  "streamPayloads frames = map (dataPayload \<circ> mustJSON) frames @ [dataPayload ''[DONE]'']"

text \<open>The payloads written up to the first failed write, and whether all were written.\<close>

fun sendPayloads :: "(nat \<Rightarrow> bool) \<Rightarrow> nat \<Rightarrow> string list \<Rightarrow> string list \<times> bool" where
  "sendPayloads writes n [] = ([], True)"
| "sendPayloads writes n (p # ps) =
     (if writes n then (let (sent, ok) = sendPayloads writes (n + 1) ps in (p # sent, ok)) else ([], False))"

subsection \<open>The response\<close>

definition compatM365Metadata :: "bool \<Rightarrow> string \<Rightarrow> string \<Rightarrow> string \<Rightarrow> json list \<Rightarrow> bool \<Rightarrow> jsonObject" where
  "compatM365Metadata includeEvents conversationID sessionID requestID events truncated =
     [(''conversationId'', JStr conversationID), (''sessionId'', JStr sessionID), (''requestId'', JStr requestID),
      (''usage_source'', JStr ''unavailable_from_chathub'')]
     @ (if includeEvents then [(''events'', JArr events), (''events_truncated'', JBool truncated)] else [])"

definition completionJSON :: "completionRef \<Rightarrow> jsonObject \<Rightarrow> string \<Rightarrow> jsonObject \<Rightarrow> json" where
  "completionJSON r msg finish metadata =
     JObj [(''id'', JStr (cpID r)), (''object'', JStr ''chat.completion''), (''model'', JStr (cpModel r)),
           (''choices'', JArr [JObj [(''index'', JNum ''0''), (''message'', JObj msg), (''finish_reason'', JStr finish)]]),
           (''m365'', JObj metadata)]"

definition toolMessageJSON :: "detectedToolCall list \<Rightarrow> jsonObject" where
  "toolMessageJSON calls =
     [(''role'', JStr ''assistant''), (''content'', JNull), (''tool_calls'', JArr (map JObj (toolCallMaps calls)))]"

definition emptyMessageJSON :: jsonObject where
  "emptyMessageJSON = [(''role'', JStr ''assistant''), (''content'', JNull)]"

definition toolCallsFitOutputLimit :: "budgetEnv \<Rightarrow> string \<Rightarrow> detectedToolCall list \<Rightarrow> int \<Rightarrow> bool" where
  "toolCallsFitOutputLimit env model calls limit \<longleftrightarrow>
     limit \<le> 0 \<or> tokensIn env model (mustJSON (JArr (map JObj (toolCallMaps calls)))) \<le> limit"

text \<open>Calls that do not fit the limit are withheld as a whole.\<close>

definition writeToolStream ::
  "budgetEnv \<Rightarrow> (nat \<Rightarrow> bool) \<Rightarrow> completionRef \<Rightarrow> detectedToolCall list \<Rightarrow> int \<Rightarrow> bool \<Rightarrow> string list \<times> bool" where
  "writeToolStream env writes r calls limit preambleSent =
     sendPayloads writes 0
       (streamPayloads (if toolCallsFitOutputLimit env (cpModel r) calls limit then toolFrames r preambleSent calls
                        else lengthFrames r preambleSent))"

definition toolResponseJSON ::
  "budgetEnv \<Rightarrow> completionRef \<Rightarrow> detectedToolCall list \<Rightarrow> int \<Rightarrow> jsonObject \<Rightarrow> json" where
  "toolResponseJSON env r calls limit metadata =
     (if toolCallsFitOutputLimit env (cpModel r) calls limit then completionJSON r (toolMessageJSON calls) ''tool_calls'' metadata
      else completionJSON r emptyMessageJSON ''length'' metadata)"

subsection \<open>The reader\<close>

text \<open>\<open>bufio.ScanLines\<close>: the lines without their line feed and a carriage return before it; no empty last line.\<close>

definition dropCR :: "string \<Rightarrow> string" where
  "dropCR l = (if l \<noteq> [] \<and> last l = CHR 0x0D then butlast l else l)"

fun scanLinesFrom :: "string \<Rightarrow> string \<Rightarrow> string list" where
  "scanLinesFrom acc [] = (if acc = [] then [] else [dropCR acc])"
| "scanLinesFrom acc (c # cs) = (if c = CHR 0x0A then dropCR acc # scanLinesFrom [] cs else scanLinesFrom (acc @ [c]) cs)"

definition scanLines :: "string \<Rightarrow> string list" where
  "scanLines s = scanLinesFrom [] s"

end
