(* ===== verification/JsonText.thy ===== *)
theory JsonText
  imports GoJson Utf8Laws
begin

text \<open>
  What the text of a JSON value is made of and what sorting the members of its objects keeps: a rendered value has no
  control character, so it is one line of a stream, and a lookup in a sorted object finds the sorted member.
\<close>

subsection \<open>Control characters\<close>

abbreviation printable :: "string \<Rightarrow> bool" where
  "printable s \<equiv> \<forall>c \<in> set s. 32 \<le> byteVal c"

lemma hexDigit_printable: "d < 16 \<Longrightarrow> 32 \<le> byteVal (hexDigit d)"
  by (simp add: hexDigit_def of_char_of)

lemma rune_bytes_at:
  assumes "runeLen s \<noteq> 1" and "c \<in> set (take (runeLen s) s)"
  shows "128 \<le> byteVal c"
proof -
  obtain i where i: "i < runeLen s" "i < length s" "c = s ! i" using assms(2) by (auto simp: in_set_conv_nth)
  show ?thesis
  proof (cases i)
    case 0
    obtain b s' where s: "s = b # s'" using i(2) by (cases s) auto
    have "128 \<le> byteVal b" using assms(1) unfolding s by (auto simp: runeLen_def split: if_splits)
    then show ?thesis by (simp add: i(3) 0 s)
  next
    case (Suc k)
    then have "isCont c" using rune_tail_cont [of i s] i by simp
    then show ?thesis by (simp add: isCont_def)
  qed
qed

lemma rune_bytes: "r \<in> set (runes s) \<Longrightarrow> length r \<noteq> 1 \<Longrightarrow> printable r"
proof (induction s rule: runes.induct)
  case (1 s)
  show ?case
  proof (cases "s = []")
    case False
    then have "r = take (max 1 (runeLen s)) s \<or> r \<in> set (runes (drop (max 1 (runeLen s)) s))"
      using 1(2) by (subst (asm) runes.simps) auto
    then show ?thesis
    proof
      assume r: "r = take (max 1 (runeLen s)) s"
      have "length r = max 1 (runeLen s)" using runeLen_le [of s] False unfolding r by (cases s) auto
      then have "2 \<le> runeLen s" using 1(3) by auto
      moreover from this have "r = take (runeLen s) s" using r by simp
      ultimately show ?thesis using rune_bytes_at [of s] by force
    qed (use 1 False in blast)
  qed (use 1 in simp)
qed

lemma quoteRune_printable: "r \<in> set (runes s) \<Longrightarrow> printable (quoteRune r)"
proof -
  assume r: "r \<in> set (runes s)"
  consider c where "r = [c]" | "length r \<noteq> 1" by (cases r; cases "tl r") auto
  then show ?thesis
  proof cases
    case 1
    have "32 \<le> byteVal (hexDigit (byteVal c div 16))" for c
    proof (rule hexDigit_printable)
      have "byteVal c mod 256 < 256" by (rule mod_less_divisor) simp
      then have "byteVal c < 256" unfolding of_char_mod_256 .
      then show "byteVal c div 16 < 16" by (rule less_mult_imp_div_less [of _ 16 16, simplified])
    qed
    moreover have "32 \<le> byteVal (hexDigit (byteVal c mod 16))" for c by (intro hexDigit_printable) simp
    ultimately show ?thesis by (auto simp: 1 quoteRune_def hex2_def)
  next
    case 2
    with rune_bytes [OF r] show ?thesis by (auto simp: quoteRune_def split: list.splits)
  qed
qed

lemma jsonQuote_printable: "printable (jsonQuote s)"
  using quoteRune_printable by (auto simp: jsonQuote_def)

fun plainNumbers :: "json \<Rightarrow> bool" where
  "plainNumbers (JNum t) = printable t"
| "plainNumbers (JArr vs) = list_all plainNumbers vs"
| "plainNumbers (JObj ms) = list_all (\<lambda>(_, v). plainNumbers v) ms"
| "plainNumbers v = True"

lemma commaJoin_printable: "\<forall>p \<in> set ps. printable p \<Longrightarrow> printable (commaJoin ps)"
  by (auto simp: commaJoin_def split: list.split)

lemma render_printable: "plainNumbers v \<Longrightarrow> printable (render v)"
proof (induction v rule: render.induct)
  case (5 vs)
  then have "printable (commaJoin (map render vs))" by (intro commaJoin_printable) (auto simp: list_all_iff)
  then show ?case by auto
next
  case (6 ms)
  then have "printable (commaJoin (map (\<lambda>(k, v). jsonQuote k @ CHR '':'' # render v) ms))"
    using jsonQuote_printable by (intro commaJoin_printable) (auto simp: list_all_iff)
  then show ?case by auto
qed (use jsonQuote_printable in \<open>auto simp:\<close>)

subsection \<open>Sorted objects\<close>

lemma plainNumbers_canon [simp]: "plainNumbers (canon v) = plainNumbers v"
proof (induction v rule: canon.induct)
  case (2 ms)
  then show ?case by (force simp: list_all_iff)
qed (simp_all add: list_all_iff)

lemma mustJSON_printable: "plainNumbers v \<Longrightarrow> printable (mustJSON v)"
  unfolding mustJSON_def by (rule render_printable) simp

lemma map_of_insertBy:
  "distinct (map fst (m # ms)) \<Longrightarrow> map_of (insertBy lt m ms) = (map_of ms)(fst m \<mapsto> snd m)"
  by (induction ms) (auto simp: fun_eq_iff)

lemma map_of_fold_insertBy:
  "distinct (map fst (xs @ acc)) \<Longrightarrow> map_of (fold (insertBy lt) xs acc) = map_of acc ++ map_of xs"
proof (induction xs arbitrary: acc)
  case (Cons x xs)
  have "distinct (map fst (xs @ insertBy lt x acc))"
    using Cons.prems by (auto simp: distinct_map inj_on_def) (metis fst_conv image_eqI)
  then have "map_of (fold (insertBy lt) xs (insertBy lt x acc)) = (map_of acc)(fst x \<mapsto> snd x) ++ map_of xs"
    using Cons by (simp add: map_of_insertBy fun_upd_def)
  moreover have "map_of xs (fst x) = None" using Cons.prems by (simp add: map_of_eq_None_iff)
  ultimately show ?case by (cases x) (auto simp: fun_eq_iff map_add_def split: option.split)
qed simp

lemma map_of_sortBy: "distinct (map fst ms) \<Longrightarrow> map_of (sortBy lt ms) = map_of ms"
  using map_of_fold_insertBy [of ms "[]" lt] by (simp add: sortBy_def)

definition canonMembers :: "(string \<times> json) list \<Rightarrow> (string \<times> json) list" where
  "canonMembers ms = sortBy (\<lambda>m n. strLess (fst m) (fst n)) (map (\<lambda>(k, v). (k, canon v)) ms)"

lemma canon_object: "canon (JObj ms) = JObj (canonMembers ms)"
  by (simp add: canonMembers_def)

lemma member_canon: "distinct (map fst ms) \<Longrightarrow> map_of (canonMembers ms) k = map_option canon (map_of ms k)"
proof -
  assume d: "distinct (map fst ms)"
  have "map fst (map (\<lambda>(k, v). (k, canon v)) ms) = map fst ms" by (simp add: case_prod_beta)
  with d have "map_of (canonMembers ms) k = map_of (map (\<lambda>(k, v). (k, canon v)) ms) k"
    unfolding canonMembers_def using map_of_sortBy [of "map (\<lambda>(k, v). (k, canon v)) ms"] by (simp only:)
  also have "\<dots> = map_option canon (map_of ms k)" by (induction ms) auto
  finally show ?thesis .
qed

end
