(* ===== verification/BridgeProps.thy ===== *)
theory BridgeProps
  imports ToolResponse JsonText
begin

text \<open>
  The chat completion writer of ToolResponse in front of the Responses adapter of ResponsesStream, through the pipe and
  the line scanner between them: the tool calls of the inner stream are the calls of the response.
\<close>

subsection \<open>Lines of payloads\<close>

text \<open>A line that carries data, kept as one constant: the simplifier would spell the prefix out.\<close>

definition dataText :: "string \<Rightarrow> string" where
  "dataText d = ''data: '' @ d"

lemma dropCR_printable: "printable l \<Longrightarrow> dropCR l = l"
  by (cases l rule: rev_cases) (auto simp: dropCR_def)

lemma scanLinesFrom_line:
  "CHR 0x0A \<notin> set l \<Longrightarrow> scanLinesFrom acc (l @ CHR 0x0A # rest) = dropCR (acc @ l) # scanLinesFrom [] rest"
  by (induction l arbitrary: acc) auto

lemma printable_no_newline: "printable s \<Longrightarrow> CHR 0x0A \<notin> set s"
  by auto

lemma scan_payload:
  "printable d \<Longrightarrow> scanLinesFrom [] (dataPayload d @ rest) = dataText d # [] # scanLinesFrom [] rest"
proof -
  assume d: "printable d"
  have l: "printable (''data: '' @ d)" using d by auto
  have "dataPayload d @ rest = (''data: '' @ d) @ CHR 0x0A # CHR 0x0A # rest" by (simp add: dataPayload_def newline_def)
  then show ?thesis
    using scanLinesFrom_line [OF printable_no_newline [OF l], of "[]" "CHR 0x0A # rest"] dropCR_printable [OF l]
    by (simp add: dropCR_def dataText_def)
qed

lemma scan_payloads:
  "\<forall>d \<in> set ds. printable d \<Longrightarrow> scanLines (concat (map dataPayload ds)) = concat (map (\<lambda>d. [dataText d, []]) ds)"
  unfolding scanLines_def by (induction ds) (simp_all add: scan_payload)

lemma object_text: "\<exists>m. mustJSON (JObj ms) = CHR ''{'' # m @ [CHR ''}'']"
  by (simp add: mustJSON_def)

lemma TrimSpace_object: "TrimSpace (CHR 0x20 # CHR ''{'' # m @ [CHR ''}'']) = CHR ''{'' # m @ [CHR ''}'']"
proof -
  have left: "trimLeft (CHR 0x20 # CHR ''{'' # m @ [CHR ''}'']) = CHR ''{'' # m @ [CHR ''}'']"
    unfolding trimLeft_def by (cases m) (simp_all add: asciiSpace_def space2_def space3_def stripSpaces_plain)
  have "stripSpaces (\<lambda>d c. space2 c d) (\<lambda>e d c. space3 c d e) (CHR ''}'' # rev m @ [CHR ''{''])
      = CHR ''}'' # rev m @ [CHR ''{'']"
    by (rule stripSpaces_plain) (simp_all add: asciiSpace_def space2_def space3_def)
  then show ?thesis unfolding TrimSpace_def left by (simp add: trimRight_def)
qed

lemma scan_object:
  "scanLine env now (dataText (mustJSON (JObj ms))) s = dataLine env now (mustJSON (JObj ms)) s"
proof -
  obtain m where m: "mustJSON (JObj ms) = CHR ''{'' # m @ [CHR ''}'']" using object_text by blast
  show ?thesis unfolding scanLine_def m dataText_def by (simp add: TrimSpace_object)
qed

lemma scan_empty: "scanLine env now [] s = s"
  by (simp add: scanLine_def otherLine_def Let_def)

lemma scan_done: "scanLine env now (dataText ''[DONE]'') s = s\<lparr>rsDone := True\<rparr>"
proof -
  have "TrimSpace (drop 5 (dataText ''[DONE]'')) = ''[DONE]''" by code_simp
  then show ?thesis by (simp add: scanLine_def dataLine_def dataText_def)
qed

subsection \<open>The content of the adapter, without its log\<close>

definition sameState :: "adapterState \<Rightarrow> adapterState \<Rightarrow> bool" where
  "sameState s t \<longleftrightarrow> rsText s = rsText t \<and> rsTextStarted s = rsTextStarted t \<and> rsMessageIndex s = rsMessageIndex t
     \<and> rsNext s = rsNext t \<and> rsCalls s = rsCalls t \<and> rsError s = rsError t \<and> rsCode s = rsCode t
     \<and> rsFinish s = rsFinish t \<and> rsFailed s = rsFailed t \<and> rsDone s = rsDone t"

lemma contentDelta_same: "sameState s t \<Longrightarrow> sameState (contentDelta env now c s) (contentDelta env now' c t)"
  by (simp add: sameState_def contentDelta_def Let_def)

lemma callAt_same:
  "sameState s t \<Longrightarrow> fst (callAt env i s) = fst (callAt env i t) \<and> sameState (snd (callAt env i s)) (snd (callAt env i t))"
  by (simp add: sameState_def callAt_def freshCall_def split: option.split)

lemma callDelta_same:
  assumes st: "sameState s t"
  shows "sameState (callDelta env now raw s) (callDelta env now' raw t)"
proof -
  define idx where "idx = (case member (asObject raw) ''index'' of JNum n \<Rightarrow> seIndex env n | _ \<Rightarrow> 0)"
  obtain c s1 where s1: "callAt env idx s = (c, s1)" by force
  obtain t1 where t1: "callAt env idx t = (c, t1)" and st1: "sameState s1 t1"
    using callAt_same [OF st, of env idx] s1 by (cases "callAt env idx t") auto
  define d where "d = (case member (asObject raw) ''id'' of JStr v \<Rightarrow> c\<lparr>tcID := v\<rparr> | _ \<Rightarrow> c)"
  show ?thesis
    unfolding callDelta_def Let_def idx_def [symmetric] s1 t1 prod.case d_def [symmetric]
    using st1
    by (cases "member (asObject (member (asObject raw) ''function'')) ''arguments''"; cases "tcAdded d")
       (simp_all add: sameState_def)
qed

lemma callDeltas_same: "sameState s t \<Longrightarrow> sameState (fold (callDelta env now) cs s) (fold (callDelta env now') cs t)"
  by (induction cs arbitrary: s t) (simp_all add: callDelta_same)

lemma chunkChoice_same: "sameState s t \<Longrightarrow> sameState (chunkChoice env now ch s) (chunkChoice env now' ch t)"
  unfolding chunkChoice_def Let_def by (intro callDeltas_same contentDelta_same) (simp add: sameState_def)

lemma noteErrorObject_same: "sameState s t \<Longrightarrow> sameState (noteErrorObject k d s) (noteErrorObject k d t)"
  by (simp add: sameState_def noteErrorObject_def noteError_def Let_def)

lemma noteError_same: "sameState s t \<Longrightarrow> sameState (noteError e s) (noteError e t)"
  by (simp add: sameState_def noteError_def)

lemma scanLine_same: "sameState s t \<Longrightarrow> sameState (scanLine env now l s) (scanLine env now' l t)"
proof -
  assume st: "sameState s t"
  have "sameState (s\<lparr>rsDone := True\<rparr>) (t\<lparr>rsDone := True\<rparr>)" "sameState (s\<lparr>rsFailed := True\<rparr>) (t\<lparr>rsFailed := True\<rparr>)"
    using st by (simp_all add: sameState_def)
  with st chunkChoice_same [OF st] noteErrorObject_same [OF st] noteError_same show ?thesis
    by (auto simp: scanLine_def dataLine_def otherLine_def Let_def split: option.split json.split list.split)
qed

lemma heartbeat_same: "sameState (heartbeatTick env r now s) s"
  by (simp add: heartbeatTick_def sameState_def)

lemma sameState_trans: "sameState s t \<Longrightarrow> sameState t u \<Longrightarrow> sameState s u"
  by (simp add: sameState_def)

lemma scanLines_same: "sameState s t \<Longrightarrow> sameState (fold (scanLine env now) ls s) (fold (scanLine env now) ls t)"
  by (induction ls arbitrary: s t) (simp_all add: scanLine_same)

text \<open>When no write fails a state is never broken, and the ticks between the lines change nothing but the log.\<close>

lemma emit_unbroken: "\<forall>n. seWrites env n \<Longrightarrow> rsBroken (emitEventTo env now ev s) = rsBroken s"
  by (simp add: emitEventTo_def)

lemma contentDelta_unbroken: "\<forall>n. seWrites env n \<Longrightarrow> rsBroken (contentDelta env now c s) = rsBroken s"
  by (simp add: contentDelta_def Let_def emit_unbroken)

lemma callAt_unbroken: "callAt env idx s = (c, s1) \<Longrightarrow> rsBroken s1 = rsBroken s"
  by (auto simp: callAt_def split: option.splits)

lemma callDelta_unbroken:
  assumes w: "\<forall>n. seWrites env n"
  shows "rsBroken (callDelta env now raw s) = rsBroken s"
proof (cases rule: callDelta_cases [of env s now raw])
  case (args idx st s1 v)
  then show ?thesis using callAt_unbroken [OF args(1)] by (simp add: emit_unbroken [OF w])
next
  case (none idx st s1)
  then show ?thesis using callAt_unbroken [OF none(1)] by (simp add: emit_unbroken [OF w])
qed

lemma callDeltas_unbroken: "\<forall>n. seWrites env n \<Longrightarrow> rsBroken (fold (callDelta env now) cs s) = rsBroken s"
  by (induction cs arbitrary: s) (simp_all add: callDelta_unbroken)

lemma scanLine_unbroken: "\<forall>n. seWrites env n \<Longrightarrow> rsBroken (scanLine env now l s) = rsBroken s"
  by (simp add: scanLine_def dataLine_def otherLine_def noteError_def noteErrorObject_def chunkChoice_def Let_def
      callDeltas_unbroken contentDelta_unbroken split: option.split json.split list.split)

lemma scan_inputs:
  assumes w: "\<forall>n. seWrites env n" and nb: "\<not> rsBroken s" and st: "sameState s t"
  shows "\<not> rsBroken (fold (scanStep env r) ins s) \<and> sameState (fold (scanStep env r) ins s) (fold (scanLine env 0) (linesOf ins) t)"
  using nb st
proof (induction ins arbitrary: s t)
  case (Cons i ins)
  obtain now x where i: "i = (now, x)" by force
  show ?case
  proof (cases x)
    case (ScanLine l)
    have "scanStep env r i s = scanLine env now l s" using Cons.prems i ScanLine by (simp add: scanStep_def)
    moreover have "linesOf (i # ins) = l # linesOf ins" using i ScanLine by (simp add: linesOf_def List.map_filter_simps)
    ultimately show ?thesis
      using Cons.IH [of "scanLine env now l s" "scanLine env 0 l t"] Cons.prems scanLine_same scanLine_unbroken [OF w] by simp
  next
    case ScanTick
    have "scanStep env r i s = heartbeatTick env r now s" using Cons.prems i ScanTick by (simp add: scanStep_def)
    moreover have "linesOf (i # ins) = linesOf ins" using i ScanTick by (simp add: linesOf_def List.map_filter_simps)
    moreover have "\<not> rsBroken (heartbeatTick env r now s)" using Cons.prems by (simp add: heartbeatTick_def emit_unbroken [OF w])
    ultimately show ?thesis
      using Cons.IH [of "heartbeatTick env r now s" t] Cons.prems sameState_trans [OF heartbeat_same] by simp
  qed
qed (simp add: linesOf_def List.map_filter_simps)

subsection \<open>The frames of a tool response\<close>

text \<open>Decoding gives back what was encoded, with sorted members; required of the frames written.\<close>

abbreviation decodes :: "streamEnv \<Rightarrow> json \<Rightarrow> bool" where
  "decodes env v \<equiv> seUnmarshal env (mustJSON v) = Some (canon v)"

definition deltaMember :: "jsonObject \<Rightarrow> string \<Rightarrow> json" where
  "deltaMember delta k = (case map_of delta k of Some v \<Rightarrow> canon v | None \<Rightarrow> JNull)"

lemma member_canonMembers:
  "distinct (map fst ms) \<Longrightarrow> member (canonMembers ms) k = deltaMember ms k"
  by (simp add: getOr_def member_canon deltaMember_def split: option.split)

lemma chunk_line:
  assumes "decodes env (chatChunk r delta finish)" and "distinct (map fst delta)"
  shows "scanLine env now (dataText (mustJSON (chatChunk r delta finish))) s
    = fold (callDelta env now) (asArray (deltaMember delta ''tool_calls''))
        (contentDelta env now (asString (deltaMember delta ''content''))
          (if asString (canon finish) = [] then s else s\<lparr>rsFinish := asString (canon finish)\<rparr>))"
proof -
  define ch where "ch = [(''index'', JNum ''0''), (''delta'', JObj delta), (''finish_reason'', finish)]"
  define top where "top = [(''id'', JStr (cpID r)), (''object'', JStr ''chat.completion.chunk''), (''created'', numberJSON (cpCreated r)),
           (''model'', JStr (cpModel r)), (''choices'', JArr [JObj ch])]"
  have chunk: "chatChunk r delta finish = JObj top" by (simp add: chatChunk_def top_def ch_def)
  obtain m where m: "mustJSON (JObj top) = CHR ''{'' # m @ [CHR ''}'']" using object_text by blast
  have dec: "decodeObject (seUnmarshal env) (mustJSON (JObj top)) = Some (canonMembers top)"
    using assms(1) unfolding chunk by (simp add: decodeObject_def canon_object del: canon.simps)
  have top: "distinct (map fst top)" and ch: "distinct (map fst ch)" by (simp_all add: top_def ch_def)
  have parts: "member (canonMembers top) ''error'' = JNull"
    "member (canonMembers top) ''choices'' = JArr [JObj (canonMembers ch)]"
    "member (canonMembers ch) ''finish_reason'' = canon finish"
    "member (canonMembers ch) ''delta'' = JObj (canonMembers delta)"
    unfolding member_canonMembers [OF top] member_canonMembers [OF ch]
    by (simp_all add: top_def ch_def deltaMember_def canon_object del: canon.simps(2))
  have "scanLine env now (dataText (mustJSON (JObj top))) s = chunkChoice env now (canonMembers ch) s"
    unfolding scan_object dataLine_def dec using m parts(1,2) by (simp add: asArray_def asObject_def)
  also have "\<dots> = fold (callDelta env now) (asArray (deltaMember delta ''tool_calls''))
        (contentDelta env now (asString (deltaMember delta ''content''))
          (if asString (canon finish) = [] then s else s\<lparr>rsFinish := asString (canon finish)\<rparr>))"
    unfolding chunkChoice_def Let_def parts(3,4) by (simp add: asObject_def member_canonMembers [OF assms(2)])
  finally show ?thesis unfolding chunk .
qed

definition relayed :: "streamEnv \<Rightarrow> nat \<Rightarrow> detectedToolCall \<Rightarrow> tcState" where
  "relayed env k c =
     \<lparr>tcID = callID c, tcName = callName c, tcArgs = callArguments c, tcItemID = ''fc_'' @ seUuid env (k + 1),
      tcOutputIndex = k, tcAdded = True\<rparr>"

definition relayState :: "streamEnv \<Rightarrow> detectedToolCall list \<Rightarrow> string \<Rightarrow> adapterState \<Rightarrow> bool" where
  "relayState env cs finish s \<longleftrightarrow> rsText s = [] \<and> \<not> rsTextStarted s \<and> rsNext s = length cs
     \<and> rsCalls s = map (\<lambda>(i, c). (int i, relayed env i c)) (enumerate 0 cs)
     \<and> \<not> rsFailed s \<and> rsFinish s = finish"

lemma contentDelta_none [simp]: "contentDelta env now [] s = s"
  by (simp add: contentDelta_def)

lemma role_line:
  "decodes env (roleChunk r) \<Longrightarrow> scanLine env now (dataText (mustJSON (roleChunk r))) s = s"
  unfolding roleChunk_def by (subst chunk_line) (simp_all add: deltaMember_def asString_def asArray_def)

lemma finish_line:
  "decodes env (chatChunk r [] (JStr f)) \<Longrightarrow> f \<noteq> [] \<Longrightarrow>
   scanLine env now (dataText (mustJSON (chatChunk r [] (JStr f)))) s = s\<lparr>rsFinish := f\<rparr>"
  by (subst chunk_line) (simp_all add: deltaMember_def asString_def asArray_def)

lemma call_line:
  assumes dec: "decodes env (callChunk r (length cs) c)" and ix: "seIndex env (showNat (length cs)) = int (length cs)"
    and s: "relayState env cs f s"
  shows "relayState env (cs @ [c]) f (scanLine env now (dataText (mustJSON (callChunk r (length cs) c))) s)"
proof -
  define tc where "tc = (''index'', JNum (showNat (length cs))) # portableCall (callID c) (callName c) (callArguments c)"
  define fn where "fn = [(''arguments'', JStr (callArguments c)), (''name'', JStr (callName c))]"
  have tc: "distinct (map fst tc)" and fn: "distinct (map fst fn)" by (simp_all add: tc_def portableCall_def fn_def)
  have parts: "member (canonMembers tc) ''index'' = JNum (showNat (length cs))" "member (canonMembers tc) ''id'' = JStr (callID c)"
    "member (canonMembers tc) ''function'' = JObj (canonMembers fn)"
    unfolding member_canonMembers [OF tc]
    by (simp_all add: tc_def portableCall_def deltaMember_def fn_def [symmetric] canon_object del: canon.simps(2))
  have fparts: "member (canonMembers fn) ''name'' = JStr (callName c)" "member (canonMembers fn) ''arguments'' = JStr (callArguments c)"
    unfolding member_canonMembers [OF fn] by (simp_all add: fn_def deltaMember_def)
  have line: "scanLine env now (dataText (mustJSON (callChunk r (length cs) c))) s = callDelta env now (JObj (canonMembers tc)) s"
    using dec unfolding callChunk_def tc_def [symmetric]
    by (subst chunk_line) (simp_all add: deltaMember_def asString_def asArray_def canon_object del: canon.simps(2))
  have new: "map_of (rsCalls s) (int (length cs)) = None"
    using s by (auto simp: relayState_def map_of_eq_None_iff enumerate_eq_zip dest!: set_zip_leftD)
  show ?thesis
    unfolding line using s new
    by (simp add: relayState_def callDelta_def Let_def asObject_def parts fparts ix callAt_def freshCall_def asString_def
      update_new relayed_def enumerate_append_eq)
qed

abbreviation frameLines :: "json list \<Rightarrow> string list" where
  "frameLines vs \<equiv> concat (map (\<lambda>v. [dataText (mustJSON v), []]) vs)"

lemma call_lines:
  shows "\<forall>i < length ds + length cs. seIndex env (showNat i) = int i \<Longrightarrow> \<forall>v \<in> set (map (\<lambda>(i, c). callChunk r i c) (enumerate (length ds) cs)). decodes env v \<Longrightarrow> relayState env ds f s \<Longrightarrow>
   relayState env (ds @ cs) f
     (fold (scanLine env 0) (frameLines (map (\<lambda>(i, c). callChunk r i c) (enumerate (length ds) cs))) s)"
proof (induction cs arbitrary: ds s)
  case (Cons c cs)
  have one: "relayState env (ds @ [c]) f (scanLine env 0 (dataText (mustJSON (callChunk r (length ds) c))) s)"
    using Cons.prems by (intro call_line) simp_all
  from Cons.IH [OF _ _ this] Cons.prems(1,2) show ?case by (simp add: scan_empty)
qed simp

lemma showNat_printable: "printable (showNat n)"
  using showNat_digits [of n] by (auto simp: list_all_iff isDigit_def)

lemma chatChunk_plain: "list_all (\<lambda>(_, v). plainNumbers v) delta \<Longrightarrow> plainNumbers finish \<Longrightarrow> plainNumbers (chatChunk r delta finish)"
  using showNat_printable by (auto simp: chatChunk_def numberJSON_def showInt_def)

lemma frames_plain: "v \<in> set (toolFrames r p calls) \<union> set (lengthFrames r p) \<Longrightarrow> plainNumbers v"
  using showNat_printable
  by (auto simp: toolFrames_def lengthFrames_def roleChunk_def callChunk_def portableCall_def intro!: chatChunk_plain
      split: if_splits)

lemma frames_scanned:
  "\<forall>v \<in> set vs. plainNumbers v \<Longrightarrow>
   scanLines (concat (streamPayloads vs)) = frameLines vs @ [dataText ''[DONE]'', []]"
proof -
  assume "\<forall>v \<in> set vs. plainNumbers v"
  then have "\<forall>d \<in> set (map mustJSON vs @ [''[DONE]'']). printable d" using mustJSON_printable by auto
  from scan_payloads [OF this] show ?thesis by (simp add: streamPayloads_def comp_def)
qed

lemma sendPayloads_all: "\<forall>n. writes n \<Longrightarrow> sendPayloads writes n ps = (ps, True)"
  by (induction ps arbitrary: n) simp_all

lemma relay_start: "relayState env [] [] (adapterStart env r now)"
  by (simp add: relayState_def adapterStart_def Let_def)

lemma tool_lines:
  assumes parse: "\<forall>v \<in> set (toolFrames cr False calls). decodes env v" and ix: "\<forall>i < length calls. seIndex env (showNat i) = int i"
    and s: "relayState env [] [] s"
  shows "relayState env calls ''tool_calls'' (fold (scanLine env 0) (frameLines (toolFrames cr False calls) @ [dataText ''[DONE]'', []]) s)
    \<and> rsDone (fold (scanLine env 0) (frameLines (toolFrames cr False calls) @ [dataText ''[DONE]'', []]) s)"
proof -
  have p: "decodes env (roleChunk cr)" "decodes env (chatChunk cr [] (JStr ''tool_calls''))"
    "\<forall>v \<in> set (map (\<lambda>(i, c). callChunk cr i c) (enumerate (length ([] :: detectedToolCall list)) calls)). decodes env v"
    using parse by (auto simp: toolFrames_def)
  from call_lines [OF _ p(3) s] ix have calls: "relayState env calls []
      (fold (scanLine env 0) (frameLines (map (\<lambda>(i, c). callChunk cr i c) (enumerate 0 calls))) s)" by simp
  have frames: "frameLines (toolFrames cr False calls) @ [dataText ''[DONE]'', []]
     = [dataText (mustJSON (roleChunk cr)), []] @ frameLines (map (\<lambda>(i, c). callChunk cr i c) (enumerate 0 calls))
       @ [dataText (mustJSON (chatChunk cr [] (JStr ''tool_calls''))), []] @ [dataText ''[DONE]'', []]"
    by (simp add: toolFrames_def)
  let ?t = "fold (scanLine env 0) (frameLines (map (\<lambda>(i, c). callChunk cr i c) (enumerate 0 calls))) s"
  have "fold (scanLine env 0) (frameLines (toolFrames cr False calls) @ [dataText ''[DONE]'', []]) s
      = ?t\<lparr>rsFinish := ''tool_calls'', rsDone := True\<rparr>"
    unfolding frames fold_append comp_apply
    by (simp add: role_line [OF p(1)] finish_line [OF p(2)] scan_empty scan_done)
  then show ?thesis using calls by (simp add: relayState_def)
qed

lemma length_lines:
  assumes parse: "\<forall>v \<in> set (lengthFrames cr False). decodes env v" and s: "relayState env [] [] s"
  shows "relayState env [] ''length'' (fold (scanLine env 0) (frameLines (lengthFrames cr False) @ [dataText ''[DONE]'', []]) s)
    \<and> rsDone (fold (scanLine env 0) (frameLines (lengthFrames cr False) @ [dataText ''[DONE]'', []]) s)"
proof -
  have p: "decodes env (roleChunk cr)" "decodes env (chatChunk cr [] (JStr ''length''))"
    using parse by (auto simp: lengthFrames_def)
  have "fold (scanLine env 0) (frameLines (lengthFrames cr False) @ [dataText ''[DONE]'', []]) s
      = s\<lparr>rsFinish := ''length'', rsDone := True\<rparr>"
    by (simp add: lengthFrames_def role_line [OF p(1)] finish_line [OF p(2)] scan_empty scan_done)
  then show ?thesis using s by (simp add: relayState_def)
qed

text \<open>The end of a relayed stream when nothing fails.\<close>

lemma emitAll_unbroken: "\<forall>n. seWrites env n \<Longrightarrow> rsBroken (emitAll env now evs s) = rsBroken s"
  unfolding emitAll_def by (induction evs arbitrary: s) (simp_all add: emit_unbroken)

lemma commitTicks_unbroken: "\<forall>n. seWrites env n \<Longrightarrow> rsBroken (commitTicks env r ticks s) = rsBroken s"
  unfolding commitTicks_def by (induction ticks arbitrary: s) (simp_all add: heartbeatTick_def emit_unbroken)

lemma relayed_stream:
  assumes w: "\<forall>n. seWrites env n" and ends: "srScanErr run = None" and commit: "srCommit run = Some commit" "\<forall>m. commit m"
    and seen: "relayState env cs f (fold (scanLine env 0) (linesOf (srInputs run)) (adapterStart env r now))
      \<and> rsDone (fold (scanLine env 0) (linesOf (srInputs run)) (adapterStart env r now))"
    and ok: "f = ''length'' \<or> cs \<noteq> []"
    and run: "streamResponses env r now run = (s, committed)"
  obtains u where "announcedCalls (sentEvents s) = msgToolCalls (assistantOf u)" "committed = Some (assistantOf u)"
    "relayState env cs f u"
proof -
  let ?o = "fold (scanStep env r) (srInputs run) (adapterStart env r now)"
  have start: "\<not> rsBroken (adapterStart env r now)" by (simp add: adapterStart_def Let_def emit_unbroken [OF w])
  have o: "\<not> rsBroken ?o" "sameState ?o (fold (scanLine env 0) (linesOf (srInputs run)) (adapterStart env r now))"
    using scan_inputs [OF w start, of _ r "srInputs run"] by (simp_all add: sameState_def)
  have st: "relayState env cs f ?o" "rsDone ?o" using o(2) seen by (simp_all add: relayState_def sameState_def)
  then have e: "scanEnd (srScanErr run) ?o = ?o" by (simp add: scanEnd_def ends)
  have "rsCalls ?o = [] \<longleftrightarrow> cs = []" using st by (simp add: relayState_def enumerate_eq_zip)
  then have nf: "\<not> streamFails ?o" using st(1) ok by (auto simp: streamFails_def relayState_def)
  let ?t = "commitTicks env r (srCommitTicks run) ?o"
  have t: "\<not> rsBroken ?t" using o(1) by (simp add: commitTicks_unbroken [OF w])
  have res: "s = finishResponse env r run ?t" "committed = Some (assistantOf ?o)"
    using run o(1) nf t commit by (simp_all add: streamResponses_def closeStream_def Let_def e)
  have inv: "openLog ?t" using commitTicks_inv [OF scanned_inv] by (simp add: adapterInv_def)
  have fin: "s = emitAll env (srCommitTime run) (finalEvents env r run ?t) ?t"
    using res(1) by (simp add: finishResponse_def finalEvents_def)
  have whole: "\<not> rsBroken s" using t unfolding fin by (simp add: emitAll_unbroken [OF w])
  obtain evs' where "sentEvents s = sentEvents ?t @ evs'" "rsBroken s \<longleftrightarrow> evs' \<noteq> finalEvents env r run ?t"
    using emitAll_sent [of env "srCommitTime run" "finalEvents env r run ?t" ?t] t unfolding fin by auto
  then have "announcedCalls (sentEvents s) = msgToolCalls (assistantOf ?t)"
    using whole inv by (simp add: announcedCalls_append announcedCalls_open announcedCalls_final)
  moreover have "assistantOf ?t = assistantOf ?o"
    using commitTicks_same [of ?o env r "srCommitTicks run"] by (simp add: sameContent_def assistantOf_def responseStatus_def)
  ultimately show thesis using res(2) st(1) by (intro that [of ?o]) simp_all
qed

text \<open>C31: tool calls cross the protocols unchanged. The calls the chat completion writer reports are, after the pipe, the
  line scanner and the Responses adapter, exactly the calls the client is told to execute, in their order, with their
  identities, names and argument texts, and exactly the calls of the message committed for the next turn; calls withheld
  by the output limit are neither announced nor stored. Required are that decoding a written frame gives it back, that
  an index is read as its number, and that no write fails.\<close>

theorem tool_calls_cross_protocols:
  assumes parse: "\<forall>v \<in> set (toolFrames cr False calls) \<union> set (lengthFrames cr False). decodes env v"
    and ix: "\<forall>i < length calls. seIndex env (showNat i) = int i" and w: "\<forall>n. seWrites env n" "\<forall>n. writes n" and some: "calls \<noteq> []"
    and piped: "linesOf (srInputs run) = scanLines (concat (fst (writeToolStream budget writes cr calls limit False)))"
    and ends: "srScanErr run = None" and commit: "srCommit run = Some commit" "\<forall>m. commit m"
  shows "let (s, committed) = streamResponses env r now run
    in if toolCallsFitOutputLimit budget (cpModel cr) calls limit
       then announcedCalls (sentEvents s) = toolCallMaps calls \<and> committed = Some (assistantPortableMessage [] calls)
       else announcedCalls (sentEvents s) = [] \<and> committed = Some (plainMessage ''assistant'' JNull)"
proof -
  obtain s committed where run: "streamResponses env r now run = (s, committed)" by force
  have plain: "\<forall>v \<in> set (toolFrames cr False calls). plainNumbers v" "\<forall>v \<in> set (lengthFrames cr False). plainNumbers v"
    using frames_plain by blast+
  have calls: "map (\<lambda>x. tcCall (snd (case x of (i, c) \<Rightarrow> (int i, relayed env i c)))) (enumerate n cs) = toolCallMaps cs" for cs n
    by (induction cs arbitrary: n) (simp_all add: toolCallMaps_def relayed_def tcCall_def callObject_def portableCall_def)
  show ?thesis
  proof (cases "toolCallsFitOutputLimit budget (cpModel cr) calls limit")
    case True
    have "linesOf (srInputs run) = frameLines (toolFrames cr False calls) @ [dataText ''[DONE]'', []]"
      unfolding piped using True frames_scanned [OF plain(1)] by (simp add: writeToolStream_def sendPayloads_all [OF w(2)])
    with tool_lines [OF _ ix relay_start, of cr r now] parse
    have "relayState env calls ''tool_calls'' (fold (scanLine env 0) (linesOf (srInputs run)) (adapterStart env r now))
      \<and> rsDone (fold (scanLine env 0) (linesOf (srInputs run)) (adapterStart env r now))" by simp
    from relayed_stream [OF w(1) ends commit this _ run] some obtain u where
      u: "announcedCalls (sentEvents s) = msgToolCalls (assistantOf u)" "committed = Some (assistantOf u)"
        "relayState env calls ''tool_calls'' u" by blast
    have "assistantOf u = assistantPortableMessage [] calls"
      using u(3) some by (simp add: assistantOf_def relayState_def responseStatus_def calls
        assistantPortableMessage_def emptyMsg_def plainMessage_def comp_def)
    with u(1,2) some True show ?thesis by (simp add: run assistantPortableMessage_def)
  next
    case False
    have "linesOf (srInputs run) = frameLines (lengthFrames cr False) @ [dataText ''[DONE]'', []]"
      unfolding piped using False frames_scanned [OF plain(2)] by (simp add: writeToolStream_def sendPayloads_all [OF w(2)])
    with length_lines [OF _ relay_start, of cr env r now] parse
    have "relayState env [] ''length'' (fold (scanLine env 0) (linesOf (srInputs run)) (adapterStart env r now))
      \<and> rsDone (fold (scanLine env 0) (linesOf (srInputs run)) (adapterStart env r now))" by simp
    from relayed_stream [OF w(1) ends commit this _ run] obtain u where
      u: "announcedCalls (sentEvents s) = msgToolCalls (assistantOf u)" "committed = Some (assistantOf u)"
        "relayState env [] ''length'' u" by blast
    have "assistantOf u = plainMessage ''assistant'' JNull"
      using u(3) by (simp add: assistantOf_def relayState_def responseStatus_def plainMessage_def)
    with u(1,2) False show ?thesis by (simp add: run plainMessage_def)
  qed
qed

subsection \<open>A concrete pipe\<close>

definition pipeBudget :: budgetEnv where
  "pipeBudget = \<lparr>beEncode = (\<lambda>_. None), beSettings = defaultRuntimeSettings (\<lambda>_. None), beEnviron = (\<lambda>_. None),
     beSprint = (\<lambda>_. []), beTools = (\<lambda>_. [])\<rparr>"

definition pipeCall :: "detectedToolCall list" where
  "pipeCall = [\<lparr>callID = ''c1'', callName = ''ls'', callArguments = ''{}''\<rparr>]"

abbreviation oneRef :: completionRef where
  "oneRef \<equiv> \<lparr>cpID = ''x'', cpModel = ''m'', cpCreated = 0\<rparr>"

definition pipeFrames :: "json list" where
  "pipeFrames = [roleChunk oneRef, callChunk oneRef 0 (hd pipeCall), chatChunk oneRef [] (JStr ''tool_calls''),
                 chatChunk oneRef [] (JStr ''length'')]"

definition pipeStream :: streamEnv where
  "pipeStream = demoStream\<lparr>seUnmarshal := map_of (map (\<lambda>v. (mustJSON v, canon v)) pipeFrames)\<rparr>"

definition pipeRun :: streamRun where
  "pipeRun = demoRun (scanLines (concat (fst (writeToolStream pipeBudget (\<lambda>_. True) oneRef pipeCall 0 False))))"

lemma demoRun_lines: "linesOf (srInputs (demoRun ls)) = ls"
  by (induction ls) (simp_all add: linesOf_def demoRun_def List.map_filter_simps)

lemma pipe_texts: "distinct (map (\<lambda>v. length (mustJSON v)) pipeFrames)"
  by code_simp

lemma table_decodes: "distinct (map f vs) \<Longrightarrow> v \<in> set vs \<Longrightarrow> map_of (map (\<lambda>v. (f v, g v)) vs) (f v) = Some (g v)"
  by (rule map_of_is_SomeI) (auto simp: comp_def)

lemma pipe_decodes: "v \<in> set pipeFrames \<Longrightarrow> decodes pipeStream v"
proof -
  assume v: "v \<in> set pipeFrames"
  have "distinct (map mustJSON pipeFrames)"
    using pipe_texts distinct_map [of length "map mustJSON pipeFrames"] by (simp add: comp_def)
  from table_decodes [OF this v] show ?thesis by (simp add: pipeStream_def)
qed

theorem tool_calls_cross_protocols_witness:
  "announcedCalls (sentEvents (fst (streamResponses pipeStream \<lparr>rrID = ''r'', rrModel = ''m'', rrFields = []\<rparr> 0 pipeRun)))
     = toolCallMaps pipeCall"
proof -
  have parse: "\<forall>v \<in> set (toolFrames oneRef False pipeCall) \<union> set (lengthFrames oneRef False). decodes pipeStream v"
    by (rule ballI, rule pipe_decodes) (auto simp: pipeFrames_def toolFrames_def lengthFrames_def pipeCall_def)
  have fit: "toolCallsFitOutputLimit pipeBudget (cpModel oneRef) pipeCall 0" by (simp add: toolCallsFitOutputLimit_def)
  have rest: "\<forall>i < length pipeCall. seIndex pipeStream (showNat i) = int i" "\<forall>n. seWrites pipeStream n" "pipeCall \<noteq> []"
    by (simp_all add: pipeCall_def pipeStream_def demoStream_def)
  have run: "srScanErr pipeRun = None" "srCommit pipeRun = Some (\<lambda>_. True)" by (simp_all add: pipeRun_def demoRun_def)
  have piped: "linesOf (srInputs pipeRun)
      = scanLines (concat (fst (writeToolStream pipeBudget (\<lambda>_. True) oneRef pipeCall 0 False)))"
    by (simp add: pipeRun_def demoRun_lines)
  show ?thesis
    using tool_calls_cross_protocols [OF parse rest(1,2) _ rest(3) piped run, of "\<lparr>rrID = ''r'', rrModel = ''m'', rrFields = []\<rparr>" 0] fit
    by (simp add: Let_def split_beta)
qed

end
