(* ===== verification/StreamGuard.thy ===== *)
theory StreamGuard
  imports ModelCapabilities PromptBudget Utf8Laws
begin

text \<open>
  What stands between the upstream text deltas and the client: the guard against overload sentences,
  internal/web/upstream_placeholder.go, and the text helpers of a resumed stream in server.go
  (backfillTerminalStreamText, visibleStreamResumePrompt, trimContinuationOverlap).
\<close>

subsection \<open>Overload sentences\<close>

definition upstreamThrottlePlaceholders :: "string list" where
  "upstreamThrottlePlaceholders =
     [''we'' @ [CHR 0x27] @ ''re temporarily unable to respond to this volume of requests. please try again later.'',
      ''we are temporarily unable to respond to this volume of requests. please try again later.'']"

text \<open>\<open>strings.Fields\<close>: the maximal pieces without a space rune.\<close>

fun fieldsFrom :: "string \<Rightarrow> string list \<Rightarrow> string list" where
  "fieldsFrom acc [] = (if acc = [] then [] else [acc])"
| "fieldsFrom acc (r # rs) =
     (if isSpaceRune r then (if acc = [] then fieldsFrom [] rs else acc # fieldsFrom [] rs)
      else fieldsFrom (acc @ r) rs)"

definition textFields :: "string \<Rightarrow> string list" where
  "textFields s = fieldsFrom [] (runes s)"

definition normalizedPlaceholderText :: "string \<Rightarrow> string" where
  "normalizedPlaceholderText txt = ToLower (joinStrings '' '' (textFields (TrimSpace txt)))"

definition isUpstreamThrottlePlaceholderText :: "string \<Rightarrow> bool" where
  "isUpstreamThrottlePlaceholderText txt =
     (let normalized = normalizedPlaceholderText txt
      in if normalized = [] \<or> length normalized > 512 then False
         else normalized \<in> set upstreamThrottlePlaceholders)"

record streamPlaceholderGuard =
  pgPending :: string
  pgReleased :: bool

definition freshGuard :: streamPlaceholderGuard where
  "freshGuard = \<lparr>pgPending = [], pgReleased = False\<rparr>"

text \<open>The text released by a chunk, and whether it is held back.\<close>

definition Feed :: "string \<Rightarrow> streamPlaceholderGuard \<Rightarrow> (string \<times> bool) \<times> streamPlaceholderGuard" where
  "Feed chunk g =
     (if chunk = [] then (([], False), g)
      else if pgReleased g then ((chunk, False), g)
      else
        let pending = pgPending g @ chunk;
            normalized = normalizedPlaceholderText pending
        in if list_ex (\<lambda>p. HasPrefix p normalized \<or> normalized = p) upstreamThrottlePlaceholders
           then (([], True), g\<lparr>pgPending := pending\<rparr>)
           else ((pending, False), g\<lparr>pgPending := [], pgReleased := True\<rparr>))"

definition finishGuard :: "bool \<Rightarrow> streamPlaceholderGuard \<Rightarrow> string \<times> streamPlaceholderGuard" where
  "finishGuard placeholder g =
     (if pgReleased g then ([], g)
      else if placeholder then ([], g\<lparr>pgPending := []\<rparr>)
      else (pgPending g, g\<lparr>pgPending := [], pgReleased := True\<rparr>))"

definition resetGuard :: "streamPlaceholderGuard \<Rightarrow> streamPlaceholderGuard" where
  "resetGuard g = g\<lparr>pgPending := [], pgReleased := False\<rparr>"

subsection \<open>Resumed streams\<close>

definition maxTailRunes :: nat where
  "maxTailRunes = 16000"

definition visibleStreamResumePrompt :: "string \<Rightarrow> string" where
  "visibleStreamResumePrompt partial =
     (let rs = runes partial;
          rs = (if length rs > maxTailRunes then drop (length rs - maxTailRunes) rs else rs)
      in ''The transport disconnected after the assistant text below was already shown to the user. Continue exactly from the next missing point. Do not repeat, summarize, restart, or mention the disconnection.''
         @ [CHR 0x0A] @ ''[ALREADY_DELIVERED_ASSISTANT_TAIL]'' @ [CHR 0x0A] @ runesString rs)"

text \<open>The longest overlap first, down from the limit.\<close>

fun overlapFrom :: "string list \<Rightarrow> string list \<Rightarrow> nat \<Rightarrow> nat" where
  "overlapFrom left right 0 = 0"
| "overlapFrom left right (Suc n) =
     (if runesString (drop (length left - Suc n) left) = runesString (take (Suc n) right) then Suc n
      else overlapFrom left right n)"

definition trimContinuationOverlap :: "string \<Rightarrow> string \<Rightarrow> string" where
  "trimContinuationOverlap partial continuation =
     (let left = runes partial; right = runes continuation;
          overlap = overlapFrom left right (min (min (length left) (length right)) 2048)
      in if overlap = 0 then continuation else runesString (drop overlap right))"

text \<open>The text to emit, and the delivered text, when the terminal event is the only one with content.\<close>

definition backfillTerminalStreamText :: "string \<Rightarrow> string \<Rightarrow> bool \<Rightarrow> string option \<times> string" where
  "backfillTerminalStreamText txt delivered guarded =
     (if delivered \<noteq> [] \<or> blank txt then (None, delivered)
      else if guarded then (None, delivered @ txt)
      else (Some txt, delivered))"

subsection \<open>Laws of the fields\<close>

lemma runes_append: "ValidString a \<Longrightarrow> runes (a @ b) = runes a @ runes b"
proof (induction a rule: valid_induct)
  case (rune s)
  have n: "max 1 (runeLen s) = runeLen s" "runeLen (s @ b) = runeLen s" "runeLen s \<le> length s"
    using rune(2) by (simp_all add: runeLen_append runeLen_le)
  show ?case
    using rune by (simp add: runes.simps [of "s @ b"] runes.simps [of s] n)
qed simp

lemma space_length: "isSpaceRune r \<Longrightarrow> runeLen r = length r"
proof -
  have "asciiSpace c \<Longrightarrow> runeLen [c] = 1" for c
    by (auto simp: asciiSpace_def runeLen_def)
  moreover have "space2 c d \<Longrightarrow> runeLen [c, d] = 2" for c d
    by (auto simp: space2_def runeLen_def lead2_def isCont_def)
  moreover have "space3 c d e \<Longrightarrow> runeLen [c, d, e] = 3" for c d e
    unfolding space3_def by (elim disjE conjE) (auto simp: runeLen_def lead2_def lead3_def isCont_def)
  ultimately show "isSpaceRune r \<Longrightarrow> ?thesis" by (auto simp: isSpaceRune_def split: list.splits)
qed

lemma space_piece: "isSpaceRune r \<Longrightarrow> runes r = [r]"
  using space_length [of r] by (cases "r = []") (simp_all add: runes.simps isSpaceRune_def)

lemma fieldsFrom_spaces: "isSpaceRune r \<Longrightarrow> fieldsFrom acc (rs @ [r]) = fieldsFrom acc rs"
  by (induction rs arbitrary: acc) auto

lemma textFields_left: "textFields (stripSpaces space2 space3 s) = textFields s"
proof (induction s rule: strip_induct [where ?s2.0 = space2 and ?s3.0 = space3])
  case (one c s)
  have "textFields ([c] @ s) = textFields s"
    using space_piece [of "[c]"] one(1) unfolding textFields_def runes_append [OF space_runes(1) [OF one(1)]]
    by (simp add: isSpaceRune_def)
  with one show ?case by (simp add: strip_one)
next
  case (two c d s)
  have "textFields ([c, d] @ s) = textFields s"
    using space_piece [of "[c, d]"] two(2) unfolding textFields_def runes_append [OF space_runes(2) [OF two(2)]]
    by (simp add: isSpaceRune_def)
  with two show ?case by (simp add: strip_two)
next
  case (three c d e s)
  have "textFields ([c, d, e] @ s) = textFields s"
    using space_piece [of "[c, d, e]"] three(3) unfolding textFields_def runes_append [OF space_runes(3) [OF three(3)]]
    by (simp add: isSpaceRune_def)
  with three show ?case by (simp add: strip_three)
qed simp

lemma textFields_trailing:
  assumes "ValidString (a @ r)" "ValidString r" "isSpaceRune r"
  shows "textFields (a @ r) = textFields a"
  using ValidString_suffix [OF assms(2,1)] space_piece [OF assms(3)] assms(3)
  by (simp add: textFields_def runes_append fieldsFrom_spaces)

lemma textFields_right:
  "ValidString (rev r) \<Longrightarrow> textFields (rev (stripSpaces (\<lambda>d c. space2 c d) (\<lambda>e d c. space3 c d e) r)) = textFields (rev r)"
proof (induction r rule: strip_induct [where ?s2.0 = "\<lambda>d c. space2 c d" and ?s3.0 = "\<lambda>e d c. space3 c d e"])
  case (one c s)
  have "ValidString (rev s)" using ValidString_suffix [OF space_runes(1) [OF one(1)]] one(3) by simp
  with one textFields_trailing [of "rev s" "[c]"] show ?case
    by (simp add: strip_one space_runes isSpaceRune_def)
next
  case (two d c s)
  have "ValidString (rev s)" using ValidString_suffix [OF space_runes(2) [OF two(2)]] two(4) by simp
  with two textFields_trailing [of "rev s" "[c, d]"] show ?case
    by (simp add: strip_two space_runes isSpaceRune_def)
next
  case (three e d c s)
  have "ValidString (rev s)" using ValidString_suffix [OF space_runes(3) [OF three(3)]] three(5) by simp
  with three textFields_trailing [of "rev s" "[c, d, e]"] show ?case
    by (simp add: strip_three space_runes isSpaceRune_def)
qed simp

lemma textFields_TrimSpace: "ValidString s \<Longrightarrow> textFields (TrimSpace s) = textFields s"
  unfolding TrimSpace_def trimRight_def
  using textFields_right [of "rev (trimLeft s)"] textFields_left [of s] strip_left_valid [of s] by (simp add: trimLeft_def)

text \<open>The fields of a prefix: all but the last are fields of the whole, the last one begins a field.\<close>

definition beginsFields :: "string list \<Rightarrow> string list \<Rightarrow> bool" where
  "beginsFields F G \<longleftrightarrow> F = [] \<or> (\<exists>fs t u gs. F = fs @ [t] \<and> G = fs @ (t @ u) # gs)"

lemma fieldsFrom_begun: "acc \<noteq> [] \<Longrightarrow> \<exists>u gs. fieldsFrom acc rs = (acc @ u) # gs"
proof (induction rs arbitrary: acc)
  case (Cons r rs)
  show ?case
  proof (cases "isSpaceRune r")
    case False
    from Cons.IH [of "acc @ r"] Cons.prems obtain u gs where "fieldsFrom (acc @ r) rs = ((acc @ r) @ u) # gs" by auto
    with False show ?thesis by simp
  qed (use Cons.prems in simp)
qed simp

lemma beginsFields_Cons: "beginsFields F G \<Longrightarrow> beginsFields (x # F) (x # G)"
  unfolding beginsFields_def by (metis append_Cons append_Nil append_Nil2)

lemma fieldsFrom_append: "beginsFields (fieldsFrom acc rs) (fieldsFrom acc (rs @ qs))"
proof (induction rs arbitrary: acc)
  case Nil
  show ?case
  proof (cases "acc = []")
    case False
    with fieldsFrom_begun [of acc qs] show ?thesis by (auto simp: beginsFields_def)
  qed (simp add: beginsFields_def)
next
  case (Cons r rs)
  then show ?case
    by (auto simp: beginsFields_Cons)
qed

lemma joinStrings_Cons: "joinStrings sep (x # xs) = x @ (if xs = [] then [] else sep @ joinStrings sep xs)"
  by (cases xs) simp_all

lemma beginsFields_join: "beginsFields F G \<Longrightarrow> prefix (joinStrings sep F) (joinStrings sep G)"
proof -
  have "prefix (joinStrings sep (fs @ [t])) (joinStrings sep (fs @ (t @ u) # gs))" for fs t u gs
    by (induction fs) (auto simp: joinStrings_Cons)
  then show "beginsFields F G \<Longrightarrow> ?thesis" by (auto simp: beginsFields_def)
qed

lemma normalized_prefix:
  assumes "ValidString a" "ValidString b"
  shows "prefix (normalizedPlaceholderText a) (normalizedPlaceholderText (a @ b))"
proof -
  have "beginsFields (textFields a) (textFields (a @ b))"
    using fieldsFrom_append [of "[]" "runes a" "runes b"] assms by (simp add: textFields_def runes_append)
  then have "prefix (joinStrings '' '' (textFields a)) (joinStrings '' '' (textFields (a @ b)))"
    by (rule beginsFields_join)
  then show ?thesis
    using assms by (auto simp: normalizedPlaceholderText_def textFields_TrimSpace ValidString_append prefix_def ToLower_append)
qed

subsection \<open>Laws of the guard\<close>

definition heldBack :: "string \<Rightarrow> bool" where
  "heldBack shown \<longleftrightarrow> list_ex (\<lambda>p. HasPrefix p (normalizedPlaceholderText shown)) upstreamThrottlePlaceholders"

lemma heldBack_prefix: "ValidString a \<Longrightarrow> ValidString b \<Longrightarrow> heldBack (a @ b) \<Longrightarrow> heldBack a"
  using normalized_prefix [of a b] prefix_order.trans by (fastforce simp: heldBack_def list_ex_iff)

lemma overload_heldBack: "isUpstreamThrottlePlaceholderText shown \<Longrightarrow> heldBack shown"
  by (auto simp: isUpstreamThrottlePlaceholderText_def heldBack_def Let_def list_ex_iff split: if_splits)

fun feedAll :: "string list \<Rightarrow> streamPlaceholderGuard \<Rightarrow> string list \<times> streamPlaceholderGuard" where
  "feedAll [] g = ([], g)"
| "feedAll (c # cs) g =
     (let ((shown, held), g) = Feed c g; (rest, g) = feedAll cs g in (shown # rest, g))"

lemma Feed_lossless:
  "Feed c g = ((shown, held), g') \<Longrightarrow> (pgReleased g \<Longrightarrow> pgPending g = []) \<Longrightarrow>
   shown @ pgPending g' = pgPending g @ c \<and> (pgReleased g' \<longrightarrow> pgPending g' = [])"
  by (auto simp: Feed_def Let_def split: if_splits)

lemma feedAll_lossless:
  "feedAll cs g = (txts, g') \<Longrightarrow> (pgReleased g \<Longrightarrow> pgPending g = []) \<Longrightarrow>
   concat txts @ pgPending g' = pgPending g @ concat cs \<and> (pgReleased g' \<longrightarrow> pgPending g' = [])"
proof (induction cs arbitrary: g txts)
  case (Cons c cs)
  obtain shown held g1 where f: "Feed c g = ((shown, held), g1)" by (metis prod.collapse)
  obtain rest where r: "feedAll cs g1 = (rest, g')" and t: "txts = shown # rest" using Cons.prems(1) f by (auto split: prod.splits)
  have a: "shown @ pgPending g1 = pgPending g @ c" "pgReleased g1 \<Longrightarrow> pgPending g1 = []"
    using Feed_lossless [OF f Cons.prems(2)] by auto
  have b: "concat rest @ pgPending g' = pgPending g1 @ concat cs" "pgReleased g' \<longrightarrow> pgPending g' = []"
    using Cons.IH [OF r a(2)] by auto
  have "concat txts @ pgPending g' = shown @ pgPending g1 @ concat cs" by (simp add: t b(1))
  also have "\<dots> = pgPending g @ concat (c # cs)" using a(1) by (simp flip: append_assoc)
  finally show ?case using b(2) by blast
qed simp

lemma Feed_heldBack:
  assumes "Feed c g = ((shown, held), g')" and "\<not> pgReleased g" and "heldBack (pgPending g @ c)"
  shows "shown = [] \<and> \<not> pgReleased g' \<and> pgPending g' = pgPending g @ c"
  using assms by (auto simp: Feed_def Let_def heldBack_def list_ex_iff split: if_splits)

lemma feedAll_heldBack:
  "feedAll cs g = (txts, g') \<Longrightarrow> \<not> pgReleased g \<Longrightarrow> ValidString (pgPending g) \<Longrightarrow> \<forall>c \<in> set cs. ValidString c \<Longrightarrow>
   heldBack (pgPending g @ concat cs) \<Longrightarrow> concat txts = [] \<and> \<not> pgReleased g'"
proof (induction cs arbitrary: g txts)
  case (Cons c cs)
  obtain shown held g1 where f: "Feed c g = ((shown, held), g1)" by (metis prod.collapse)
  obtain rest where r: "feedAll cs g1 = (rest, g')" and t: "txts = shown # rest" using Cons.prems(1) f by (auto split: prod.splits)
  have v: "ValidString (pgPending g @ c)" "ValidString (concat cs)"
    using Cons.prems(3,4) by (auto intro: ValidString_append ValidString_concat)
  then have "heldBack (pgPending g @ c)" using heldBack_prefix [OF v] Cons.prems(5) by simp
  from Feed_heldBack [OF f Cons.prems(2) this] Cons.IH [OF r] v Cons.prems(4,5) t show ?case by simp
qed simp

lemma feedAll_open:
  "feedAll cs g = (txts, g') \<Longrightarrow> \<not> pgReleased g' \<Longrightarrow> pgPending g = [] \<or> heldBack (pgPending g) \<Longrightarrow>
   pgPending g' = [] \<or> heldBack (pgPending g')"
proof (induction cs arbitrary: g txts)
  case (Cons c cs)
  obtain shown held g1 where f: "Feed c g = ((shown, held), g1)" by (metis prod.collapse)
  obtain rest where r: "feedAll cs g1 = (rest, g')" and t: "txts = shown # rest" using Cons.prems(1) f by (auto split: prod.splits)
  have "pgPending g1 = [] \<or> heldBack (pgPending g1)"
    using f Cons.prems(3) by (auto simp: Feed_def Let_def heldBack_def list_ex_iff split: if_splits)
  from Cons.IH [OF r Cons.prems(2) this] show ?case .
qed simp

lemma feedAll_closed: "feedAll cs g = (txts, g') \<Longrightarrow> \<not> pgReleased g \<Longrightarrow> \<not> pgReleased g' \<Longrightarrow> concat txts = []"
proof (induction cs arbitrary: g txts)
  case (Cons c cs)
  obtain shown held g1 where f: "Feed c g = ((shown, held), g1)" by (metis prod.collapse)
  obtain rest where r: "feedAll cs g1 = (rest, g')" and t: "txts = shown # rest" using Cons.prems(1) f by (auto split: prod.splits)
  have "pgReleased h \<Longrightarrow> pgReleased (snd (feedAll cs h))" for cs h
  proof (induction cs arbitrary: h)
    case (Cons c cs)
    then have "pgReleased (snd (Feed c h))" by (simp add: Feed_def)
    with Cons.IH show ?case by (auto simp: split_beta)
  qed simp
  with r Cons.prems(3) have "\<not> pgReleased g1" by (metis snd_conv)
  moreover from this f have "shown = []" by (auto simp: Feed_def Let_def split: if_splits)
  ultimately show ?case using Cons.IH [OF r] Cons.prems(3) t by simp
qed simp

text \<open>C36: what the overload guard does with a stream. Whatever chunks the upstream sends, the pieces it releases and
  what Finish(false) releases at the end are together exactly the text received, in order. While the text so far
  may still become an overload sentence (or is one), nothing has been released; otherwise everything has been, so
  no other text is ever delayed. A stream that is an overload sentence and nothing else is therefore not shown
  before its end, where the caller decides: Finish(true) drops it, and Finish(false) releases it whole.\<close>

theorem overload_guard_lossless:
  assumes run: "feedAll chunks freshGuard = (txts, g)" and valid: "\<forall>c \<in> set chunks. ValidString c"
  shows "concat txts @ fst (finishGuard False g) = concat chunks
    \<and> concat txts = (if heldBack (concat chunks) then [] else concat chunks)
    \<and> (isUpstreamThrottlePlaceholderText (concat chunks) \<longrightarrow>
         concat txts = [] \<and> fst (finishGuard True g) = [] \<and> fst (finishGuard False g) = concat chunks)"
proof -
  have total: "concat txts @ pgPending g = concat chunks" "pgReleased g \<Longrightarrow> pgPending g = []"
    using feedAll_lossless [OF run] by (simp_all add: freshGuard_def)
  have held: "concat txts = [] \<and> \<not> pgReleased g" if "heldBack (concat chunks)"
    using feedAll_heldBack [OF run] valid that by (simp add: freshGuard_def)
  have pending: "pgPending g = [] \<or> heldBack (pgPending g)" if "\<not> pgReleased g"
    using feedAll_open [OF run that] by (simp add: freshGuard_def)
  have closed: "concat txts = []" if "\<not> pgReleased g"
    using feedAll_closed [OF run _ that] by (simp add: freshGuard_def)
  have "heldBack (concat chunks)" if "\<not> pgReleased g" "pgPending g \<noteq> []"
    using that(2) pending [OF that(1)] closed [OF that(1)] total(1) by (metis append_Nil)
  then have "pgPending g = []" if "\<not> heldBack (concat chunks)" using total(2) that by blast
  with total held have "concat txts = (if heldBack (concat chunks) then [] else concat chunks)" by auto
  with total held overload_heldBack show ?thesis by (auto simp: finishGuard_def)
qed

theorem overload_guard_lossless_witness:
  "concat (fst (feedAll [''We are '', ''here''] freshGuard)) @ fst (finishGuard False (snd (feedAll [''We are '', ''here''] freshGuard)))
     = ''We are here''"
proof -
  have "\<forall>c \<in> set [''We are '', ''here'']. ValidString c" by code_simp
  from conjunct1 [OF overload_guard_lossless [OF surjective_pairing this]] show ?thesis by simp
qed

subsection \<open>Laws of a resumed stream\<close>

lemma overlapFrom_le: "overlapFrom left right n \<le> n"
  by (induction n) auto

lemma overlapFrom_matches:
  "overlapFrom left right n = k \<Longrightarrow> 0 < k \<Longrightarrow> runesString (drop (length left - k) left) = runesString (take k right)"
  by (induction n) (auto split: if_splits)

lemma overlapFrom_longest:
  "overlapFrom left right n < k \<Longrightarrow> k \<le> n \<Longrightarrow> runesString (drop (length left - k) left) \<noteq> runesString (take k right)"
  by (induction n) (auto simp: le_Suc_eq split: if_splits)

lemma runesString_append: "runesString (a @ b) = runesString a @ runesString b"
  by (simp add: runesString_def)

lemma runesString_runes: "ValidString s \<Longrightarrow> runesString (runes s) = s"
  by (simp add: runesString_valid)

text \<open>A resumed answer: what is shown of the continuation is the continuation without a piece that ends what was shown.\<close>

lemma trimContinuation_splits:
  assumes "ValidString partial" and "ValidString continuation"
  obtains piece where "continuation = piece @ trimContinuationOverlap partial continuation" and "suffix piece partial"
proof (cases "overlapFrom (runes partial) (runes continuation) (min (min (length (runes partial)) (length (runes continuation))) 2048)")
  case 0
  then show thesis using that [of "[]"] by (simp add: trimContinuationOverlap_def)
next
  case (Suc k)
  let ?l = "runes partial" let ?r = "runes continuation"
  have m: "runesString (drop (length ?l - Suc k) ?l) = runesString (take (Suc k) ?r)"
    using overlapFrom_matches [OF Suc] by simp
  have "runesString ?r = runesString (take (Suc k) ?r) @ runesString (drop (Suc k) ?r)"
    by (simp flip: runesString_append)
  then have "continuation = runesString (take (Suc k) ?r) @ trimContinuationOverlap partial continuation"
    using Suc assms(2) by (simp add: trimContinuationOverlap_def Let_def runesString_runes)
  moreover have "partial = runesString (take (length ?l - Suc k) ?l) @ runesString (drop (length ?l - Suc k) ?l)"
    using assms(1) by (simp add: runesString_runes flip: runesString_append)
  then have "suffix (runesString (take (Suc k) ?r)) partial" unfolding m by (metis suffixI)
  ultimately show thesis by (rule that)
qed

end
