(* ===== verification/ToolRouter.thy ===== *)
theory ToolRouter
  imports StreamGuard ToolCalls PromptSelect AgentLedger
begin

text \<open>
  The private call that selects the next tool: internal/web/model_tool_router.go with normalizedToolChoiceMode of
  compat_metadata.go. The texts sent are as in the code, byte for byte. A decoded object is the list of its members;
  encoding/json matches the names of the fields of a structure without regard to case.
\<close>

subsection \<open>Recent context\<close>

abbreviation foldedRole :: "oaiMsg \<Rightarrow> string \<Rightarrow> bool" where
  "foldedRole m role \<equiv> EqualFold (TrimSpace (msgRole m)) role"

text \<open>The messages before the last user turn, newest first; none when there is no turn before it.\<close>

definition beforeLastUser :: "oaiMsg list \<Rightarrow> oaiMsg list" where
  "beforeLastUser messages =
     (case dropWhile (\<lambda>m. \<not> foldedRole m ''user'') (rev messages) of [] \<Rightarrow> [] | _ # older \<Rightarrow> older)"

text \<open>At most so many of the wanted texts, and none from the first that exceeds the bytes on.\<close>

fun collectRecent :: "(oaiMsg \<Rightarrow> string option) \<Rightarrow> nat \<Rightarrow> nat \<Rightarrow> nat \<Rightarrow> oaiMsg list \<Rightarrow> string list" where
  "collectRecent wanted limit bytes used [] = []"
| "collectRecent wanted limit bytes used (m # ms) =
     (if limit = 0 then []
      else case wanted m of
             None \<Rightarrow> collectRecent wanted limit bytes used ms
           | Some s \<Rightarrow> if used + length s > bytes then []
                       else s # collectRecent wanted (limit - 1) bytes (used + length s) ms)"

definition userTaskText :: "(json \<Rightarrow> string) \<Rightarrow> oaiMsg \<Rightarrow> string option" where
  "userTaskText sprint m =
     (let s = TrimSpace (contentToString sprint (msgContent m))
      in if \<not> foldedRole m ''user'' \<or> s = [] then None else Some (compactToolResult s 4096))"

definition recentUserTaskContext :: "(json \<Rightarrow> string) \<Rightarrow> oaiMsg list \<Rightarrow> string" where
  "recentUserTaskContext sprint messages =
     joinStrings newline (map (\<lambda>s. ''user: '' @ s)
       (rev (collectRecent (userTaskText sprint) 6 (24 * 1024) 0 (beforeLastUser messages))))"

text \<open>The Chinese words by their bytes: scheme, plan, next step, begin to execute, I will, needs changes, path, directory,
  project, repair, deploy, verify, test.\<close>

definition planMarkers :: "string list" where
  "planMarkers =
     [[CHR 0xE6, CHR 0x96, CHR 0xB9, CHR 0xE6, CHR 0xA1, CHR 0x88],
      [CHR 0xE8, CHR 0xAE, CHR 0xA1, CHR 0xE5, CHR 0x88, CHR 0x92],
      [CHR 0xE4, CHR 0xB8, CHR 0x8B, CHR 0xE4, CHR 0xB8, CHR 0x80, CHR 0xE6, CHR 0xAD, CHR 0xA5],
      [CHR 0xE5, CHR 0xBC, CHR 0x80, CHR 0xE5, CHR 0xA7, CHR 0x8B, CHR 0xE6, CHR 0x89, CHR 0xA7, CHR 0xE8, CHR 0xA1, CHR 0x8C],
      [CHR 0xE6, CHR 0x88, CHR 0x91, CHR 0xE5, CHR 0xB0, CHR 0x86],
      [CHR 0xE9, CHR 0x9C, CHR 0x80, CHR 0xE8, CHR 0xA6, CHR 0x81, CHR 0xE4, CHR 0xBF, CHR 0xAE, CHR 0xE6, CHR 0x94, CHR 0xB9],
      [CHR 0xE8, CHR 0xB7, CHR 0xAF, CHR 0xE5, CHR 0xBE, CHR 0x84],
      [CHR 0xE7, CHR 0x9B, CHR 0xAE, CHR 0xE5, CHR 0xBD, CHR 0x95],
      [CHR 0xE9, CHR 0xA1, CHR 0xB9, CHR 0xE7, CHR 0x9B, CHR 0xAE],
      [CHR 0xE4, CHR 0xBF, CHR 0xAE, CHR 0xE5, CHR 0xA4, CHR 0x8D],
      [CHR 0xE9, CHR 0x83, CHR 0xA8, CHR 0xE7, CHR 0xBD, CHR 0xB2],
      [CHR 0xE9, CHR 0xAA, CHR 0x8C, CHR 0xE8, CHR 0xAF, CHR 0x81],
      [CHR 0xE6, CHR 0xB5, CHR 0x8B, CHR 0xE8, CHR 0xAF, CHR 0x95],
      ''plan'', ''next step'', ''i will'', ''will update'', ''will change'', ''implement'',
      ''repair'', ''fix'', ''deploy'', ''verify'', ''test'', ''project'',
      ''workspace'', ''directory'', ''path'', ''source'']"

definition pathMarkers :: "string list" where
  "pathMarkers = ['':'' @ [CHR 0x5C], ''./'', ''../'', [CHR 0x60] @ ''/'']"

definition isPlan :: "string \<Rightarrow> bool" where
  "isPlan s \<longleftrightarrow> list_ex (Contains (ToLower s)) planMarkers \<or> list_ex (Contains s) pathMarkers"

definition assistantPlanText :: "(json \<Rightarrow> string) \<Rightarrow> oaiMsg \<Rightarrow> string option" where
  "assistantPlanText sprint m =
     (let s = TrimSpace (contentToString sprint (msgContent m))
      in if \<not> foldedRole m ''assistant'' \<or> s = [] \<or> \<not> isPlan s then None else Some (compactToolResult s (6 * 1024)))"

definition recentAssistantPlanContext :: "(json \<Rightarrow> string) \<Rightarrow> oaiMsg list \<Rightarrow> string" where
  "recentAssistantPlanContext sprint messages =
     joinStrings newline (map (\<lambda>s. ''assistant_plan: '' @ s)
       (rev (collectRecent (assistantPlanText sprint) 4 (16 * 1024) 0 (beforeLastUser messages))))"

definition modelToolRouterContext :: "ledgerEnv \<Rightarrow> oaiMsg list \<Rightarrow> string \<Rightarrow> agentLedger \<Rightarrow> string" where
  "modelToolRouterContext env messages fallback ledger =
     (let sprint = leSprint env;
          instructionText = fst (flattenPromptMessages sprint (filter (\<lambda>m. isInstructionRole (roleOf m)) messages) []);
          activeText = fst (flattenPromptMessages sprint (activeMessages messages) []);
          activeText = (if blank activeText then fallback else activeText)
      in ''[SYSTEM_AND_DEVELOPER_INSTRUCTIONS]'' @ newline @ instructionText @ newline
         @ ''[RECENT_USER_TASK_CONTEXT]'' @ newline @ recentUserTaskContext sprint messages @ newline
         @ ''[RECENT_ASSISTANT_PLAN_AND_COMMITMENTS]'' @ newline @ recentAssistantPlanContext sprint messages @ newline
         @ ''[ACTIVE_TASK_AND_TOOL_EVIDENCE]'' @ newline @ activeText @ newline
         @ agentLedgerPrompt env ledger)"

subsection \<open>The prompts\<close>

definition normalizedToolChoiceMode :: "json \<Rightarrow> string" where
  "normalizedToolChoiceMode chosen =
     (case chosen of
        JStr s \<Rightarrow> s
      | JObj m \<Rightarrow>
          (case member (asObject (member m ''function'')) ''name'' of
             JStr n \<Rightarrow> ''named:'' @ n
           | _ \<Rightarrow> (case member m ''name'' of JStr n \<Rightarrow> ''named:'' @ n | _ \<Rightarrow> ''auto''))
      | _ \<Rightarrow> ''auto'')"

definition toolChoiceRequiresCall :: "json \<Rightarrow> bool" where
  "toolChoiceRequiresCall chosen \<longleftrightarrow>
     (let mode = normalizedToolChoiceMode chosen in mode = ''required'' \<or> HasPrefix mode ''named:'')"

definition toolDefinitions :: "jsonObject list \<Rightarrow> string" where
  "toolDefinitions tools = mustJSON (JArr (map JObj tools))"

definition routerRules :: string where
  "routerRules =
     ''Analyze the application request data below and produce the next action plan as JSON. ''
     @ ''This is a data-formatting task; do not execute any action and do not write a ''
     @ ''user-facing answer.'' @ newline @ newline @ ''OUTPUT SCHEMA:'' @ newline @ ''{''
     @ [CHR 0x22] @ ''calls'' @ [CHR 0x22] @ '':[{'' @ [CHR 0x22] @ ''name'' @ [CHR 0x22] @ '':''
     @ [CHR 0x22] @ ''function_name'' @ [CHR 0x22] @ '','' @ [CHR 0x22] @ ''arguments'' @ [CHR 0x22]
     @ '':{}}]}'' @ newline @ newline @ ''RULES:'' @ newline
     @ ''- Every name must exactly match one function in FUNCTION_DEFINITIONS.'' @ newline
     @ ''- Every arguments object must satisfy that function'' @ [CHR 0x27]
     @ ''s parameters schema.'' @ newline
     @ ''- MODE auto: use calls only when external action or information is still necessary.''
     @ newline @ ''- MODE required: return at least one valid call.'' @ newline
     @ ''- MODE named:function_name: return exactly one valid call to function_name; never ''
     @ ''return an empty calls array.'' @ newline
     @ ''- Calls in one response must be independent; dependent actions belong in later turns.''
     @ newline @ ''- Completed evidence must not be repeated.'' @ newline
     @ ''- When the request or persisted task anchors contain an explicit absolute path, URL, ''
     @ ''shortcut file, or numbered server target, use that exact target. Do not replace it ''
     @ ''with a relative search in the current workspace and do not ask the user to provide it ''
     @ ''again before attempting an applicable available tool.'' @ newline
     @ ''- On Windows, a .lnk target is not source text. Prefer an available shell/terminal ''
     @ ''capability that can resolve the shortcut metadata; do not Glob for the shortcut''
     @ [CHR 0x27] @ ''s basename inside the current project.'' @ newline
     @ ''- If unfinished work remains after completed evidence, select the next applicable ''
     @ ''action.'' @ newline
     @ ''- For exploration, diagnosis, or project analysis tasks: once project directory ''
     @ ''structure and primary configuration files (e.g. go.mod, package.json, pom.xml, ''
     @ ''Cargo.toml, README) have been inspected, you have sufficient evidence; return {''
     @ [CHR 0x22] @ ''calls'' @ [CHR 0x22]
     @ '':[]} immediately to proceed to the final answer instead of endlessly reading ''
     @ ''secondary files.'' @ newline
     @ ''- Preserve every source-code character and every whitespace sequence inside string ''
     @ ''arguments.'' @ newline @ ''- In JSON string values encode literal <, >, and & as ''
     @ [CHR 0x5C] @ ''u003c, '' @ [CHR 0x5C] @ ''u003e, and '' @ [CHR 0x5C]
     @ ''u0026. This prevents the chat transport from treating source code as rich HTML; JSON ''
     @ ''decoding restores the original characters for the tool.'' @ newline @ ''- Return {''
     @ [CHR 0x22] @ ''calls'' @ [CHR 0x22] @ '':[]} only when no further external action is needed.''
     @ newline @ ''- Return JSON only, without markdown or commentary.'' @ newline @ newline"

definition modelToolRouterPrompt :: "string \<Rightarrow> jsonObject list \<Rightarrow> json \<Rightarrow> string" where
  "modelToolRouterPrompt prompt tools chosen =
     routerRules @ ''MODE: '' @ normalizedToolChoiceMode chosen @ newline
     @ ''FUNCTION_DEFINITIONS: '' @ toolDefinitions tools @ newline
     @ ''APPLICATION_REQUEST_AND_EVIDENCE: '' @ prompt"

definition modelToolRequiredRetryPrompt :: "string \<Rightarrow> jsonObject list \<Rightarrow> json \<Rightarrow> string" where
  "modelToolRequiredRetryPrompt prompt tools chosen =
     (let mode = normalizedToolChoiceMode chosen;
          requirement = (if HasPrefix mode ''named:'' then ''Select exactly one call to '' @ drop 6 mode @ ''.''
                         else ''Select at least one valid next tool call.'')
      in requirement @ '' Validate every argument against its schema. Return JSON only as {'' @ [CHR 0x22] @ ''calls''
         @ [CHR 0x22] @ '':[{'' @ [CHR 0x22] @ ''name'' @ [CHR 0x22] @ '':'' @ [CHR 0x22]
         @ ''function_name'' @ [CHR 0x22] @ '','' @ [CHR 0x22] @ ''arguments'' @ [CHR 0x22] @ '':{}}]}.''
         @ newline @ ''MODE: '' @ mode @ newline
         @ ''APPLICATION_REQUEST_AND_EVIDENCE:'' @ newline @ prompt @ newline
         @ ''FUNCTION_DEFINITIONS:'' @ newline @ toolDefinitions tools)"

definition modelToolRouterTone :: "string \<Rightarrow> string" where
  "modelToolRouterTone model =
     (let m = ToLower (TrimSpace model)
      in if m \<in> {''gpt-5.2'', ''gpt-5.2-reasoning''} then ''Gpt_5_2_Chat''
         else if m \<in> {''gpt-5.3'', ''gpt-5.3-reasoning'', ''gpt-5.3-think-deeper''} then ''Gpt_5_3_Chat''
         else if m \<in> {''gpt-5.4'', ''gpt-5.4-reasoning'', ''gpt-5.4-quick''} then ''Gpt_5_4_Chat''
         else if m \<in> {''gpt-5.5'', ''gpt-5.5-reasoning''} then ''Gpt_5_5_Chat''
         else if m \<in> {''gpt-5.6'', ''gpt-5.6-sol'', ''gpt-5.6-reasoning''} then ''Gpt_5_6_Chat''
         else if m \<in> {''claude'', ''claude-sonnet'', ''claude-sonnet-reasoning''} then ''Claude_Sonnet''
         else modelTone model)"

subsection \<open>The decision\<close>

text \<open>The object in the answer: the text behind a fence when there is one, from the first brace to the last.\<close>

definition trimPrefix :: "string \<Rightarrow> string \<Rightarrow> string" where
  "trimPrefix s p = (if HasPrefix s p then drop (length p) s else s)"

definition trimSuffix :: "string \<Rightarrow> string \<Rightarrow> string" where
  "trimSuffix s p = (if HasSuffix s p then take (length s - length p) s else s)"

definition decisionText :: "string \<Rightarrow> string option" where
  "decisionText txt =
     (let txt = TrimSpace txt;
          txt = (case IndexOf txt fence of
                   Some i \<Rightarrow> TrimSpace (trimPrefix (trimSuffix (drop (i + 3) txt) fence) ''json'') | None \<Rightarrow> txt)
      in case (IndexOf txt [CHR 0x7B], LastIndexOf txt [CHR 0x7D]) of
           (Some start, Some stop) \<Rightarrow> if stop \<le> start then None else Some (take (stop + 1 - start) (drop start txt))
         | _ \<Rightarrow> None)"

text \<open>A structure: an absent or null member leaves its field as it was; None is a type error.\<close>

definition structMember :: "jsonObject \<Rightarrow> string \<Rightarrow> json" where
  "structMember m name =
     (case filter (\<lambda>kv. EqualFold (fst kv) name) m of [] \<Rightarrow> JNull | kvs \<Rightarrow> snd (last kvs))"

definition decodedCall :: "json \<Rightarrow> (string \<times> jsonObject option) option" where
  "decodedCall v =
     (case v of
        JNull \<Rightarrow> Some ([], None)
      | JObj m \<Rightarrow>
          (case structMember m ''name'' of
             JStr _ \<Rightarrow> (case structMember m ''arguments'' of
                         JObj args \<Rightarrow> Some (asString (structMember m ''name''), Some args)
                       | JNull \<Rightarrow> Some (asString (structMember m ''name''), None)
                       | _ \<Rightarrow> None)
           | JNull \<Rightarrow> (case structMember m ''arguments'' of
                         JObj args \<Rightarrow> Some ([], Some args) | JNull \<Rightarrow> Some ([], None) | _ \<Rightarrow> None)
           | _ \<Rightarrow> None)
      | _ \<Rightarrow> None)"

fun allSome :: "'a option list \<Rightarrow> 'a list option" where
  "allSome [] = Some []"
| "allSome (x # xs) = (case (x, allSome xs) of (Some y, Some ys) \<Rightarrow> Some (y # ys) | _ \<Rightarrow> None)"

text \<open>The calls of an envelope; no list of calls is no decision.\<close>

definition decodedCalls :: "json \<Rightarrow> (string \<times> jsonObject option) list option" where
  "decodedCalls v =
     (case v of
        JObj m \<Rightarrow> (case structMember m ''calls'' of JArr vs \<Rightarrow> allSome (map decodedCall vs) | _ \<Rightarrow> None)
      | _ \<Rightarrow> None)"

definition decidedCall ::
  "toolEnv \<Rightarrow> jsonObject list \<Rightarrow> json \<Rightarrow> nat \<times> string \<times> jsonObject option \<Rightarrow> detectedToolCall option" where
  "decidedCall env tools chosen numbered =
     (case numbered of
        (i, name, Some args) \<Rightarrow>
          (case toolFunction name tools of
             Some fn \<Rightarrow>
               if \<not> toolChoiceAllows chosen name \<or> schemaValid (teIntegral env) (Some args) fn \<noteq> None then None
               else (let encoded = mustJSON (JObj args)
                     in Some \<lparr>callID = mkCallID (teHash env) name encoded i, callName = name, callArguments = encoded\<rparr>)
           | None \<Rightarrow> None)
      | _ \<Rightarrow> None)"

definition parseModelToolDecision ::
  "toolEnv \<Rightarrow> string \<Rightarrow> jsonObject list \<Rightarrow> json \<Rightarrow> detectedToolCall list option" where
  "parseModelToolDecision env txt tools chosen =
     (case decisionText txt of
        None \<Rightarrow> None
      | Some t \<Rightarrow>
          (case teUnmarshal env t of
             None \<Rightarrow> None
           | Some v \<Rightarrow>
               (case decodedCalls v of
                  None \<Rightarrow> None
                | Some calls \<Rightarrow> allSome (map (decidedCall env tools chosen) (enumerate 0 calls)))))"

subsection \<open>Laws\<close>

lemma allSome_map [simp]: "allSome (map Some ys) = Some ys"
  by (induction ys) simp_all

lemma allSome_Some: "allSome xs = Some ys \<longleftrightarrow> xs = map Some ys"
proof
  show "allSome xs = Some ys \<Longrightarrow> xs = map Some ys"
    by (induction xs arbitrary: ys) (auto split: option.splits)
qed simp

lemma decidedCall_Some:
  "decidedCall env tools chosen (i, name, args) = Some c \<longleftrightarrow>
     (\<exists>a. args = Some a \<and> wellTyped env tools chosen (name, JObj a)
        \<and> c = \<lparr>callID = mkCallID (teHash env) name (mustJSON (JObj a)) i, callName = name, callArguments = mustJSON (JObj a)\<rparr>)"
  by (auto simp: decidedCall_def wellTyped_def typedCall_def hasArguments_def argumentObject_def schemaValid_conforms Let_def split: option.split if_splits)

definition callOf :: "toolEnv \<Rightarrow> nat \<times> string \<times> jsonObject \<Rightarrow> detectedToolCall" where
  "callOf env d =
     (let (i, n, a) = d
      in \<lparr>callID = mkCallID (teHash env) n (mustJSON (JObj a)) i, callName = n, callArguments = mustJSON (JObj a)\<rparr>)"

lemma decided_back:
  "\<forall>(n, a) \<in> set ds. wellTyped env tools chosen (n, JObj a) \<Longrightarrow>
   map (decidedCall env tools chosen) (enumerate k (map (\<lambda>(n, a). (n, Some a)) ds)) = map Some (map (callOf env) (enumerate k ds))"
  by (induction ds arbitrary: k) (auto simp: decidedCall_Some callOf_def)

lemma decided_all:
  "map (decidedCall env tools chosen) (enumerate k cs) = map Some calls \<Longrightarrow>
   \<exists>ds. cs = map (\<lambda>(n, a). (n, Some a)) ds \<and> (\<forall>(n, a) \<in> set ds. wellTyped env tools chosen (n, JObj a))
      \<and> calls = map (callOf env) (enumerate k ds)"
proof (induction cs arbitrary: k calls)
  case (Cons c cs)
  obtain n args where c: "c = (n, args)" by force
  from Cons.prems obtain d rest where calls: "calls = d # rest" by (cases calls) auto
  have first: "decidedCall env tools chosen (k, n, args) = Some d"
    and others: "map (decidedCall env tools chosen) (enumerate (Suc k) cs) = map Some rest"
    using Cons.prems by (simp_all add: c calls)
  obtain a where a: "args = Some a" "wellTyped env tools chosen (n, JObj a)" "d = callOf env (k, n, a)"
    using first by (auto simp: decidedCall_Some callOf_def)
  obtain ds where ds: "cs = map (\<lambda>(n, a). (n, Some a)) ds" "\<forall>(n, a) \<in> set ds. wellTyped env tools chosen (n, JObj a)"
      "rest = map (callOf env) (enumerate (Suc k) ds)"
    using Cons.IH [OF others] by blast
  show ?case using c a ds by (intro exI [of _ "(n, a) # ds"]) (simp add: calls)
qed simp

text \<open>A routing decision is all or nothing. The answer of the routing call counts as a decision exactly when it
  carries an envelope with a list of calls each of which names an offered tool that the choice allows and has
  arguments of the schema of that tool; the calls reported are then those of the envelope, all of them, in their
  order, with the identities of their positions.\<close>

lemma decision_all_or_nothing:
  "parseModelToolDecision env txt tools chosen = Some calls \<longleftrightarrow>
     (\<exists>t v ds. decisionText txt = Some t \<and> teUnmarshal env t = Some v \<and> decodedCalls v = Some (map (\<lambda>(n, a). (n, Some a)) ds)
        \<and> (\<forall>(n, a) \<in> set ds. wellTyped env tools chosen (n, JObj a))
        \<and> calls = map (callOf env) (enumerate 0 ds))"
proof -
  have "allSome (map (decidedCall env tools chosen) (enumerate 0 cs)) = Some calls \<longleftrightarrow>
     (\<exists>ds. cs = map (\<lambda>(n, a). (n, Some a)) ds \<and> (\<forall>(n, a) \<in> set ds. wellTyped env tools chosen (n, JObj a))
        \<and> calls = map (callOf env) (enumerate 0 ds))" for cs
    unfolding allSome_Some
  proof
    assume "map (decidedCall env tools chosen) (enumerate 0 cs) = map Some calls"
    then show "\<exists>ds. cs = map (\<lambda>(n, a). (n, Some a)) ds \<and> (\<forall>(n, a) \<in> set ds. wellTyped env tools chosen (n, JObj a))
        \<and> calls = map (callOf env) (enumerate 0 ds)" by (rule decided_all)
  qed (use decided_back [of _ env tools chosen 0] in \<open>elim exE conjE, simp\<close>)
  note calls = this
  show ?thesis
  proof (cases "decisionText txt")
    case t: (Some t)
    show ?thesis
    proof (cases "teUnmarshal env t")
      case v: (Some v)
      show ?thesis
        by (cases "decodedCalls v") (simp_all only: parseModelToolDecision_def t v calls option.case option.inject option.distinct ex_simps simp_thms)
    qed (simp add: parseModelToolDecision_def t)
  qed (simp add: parseModelToolDecision_def)
qed

definition listTool :: jsonObject where
  "listTool = [(''type'', JStr ''function''), (''function'', JObj [(''name'', JStr ''ls'')])]"

definition decisionEnv :: toolEnv where
  "decisionEnv = \<lparr>teHash = (\<lambda>s. s), teIntegral = (\<lambda>_. True),
     teUnmarshal = (\<lambda>_. Some (JObj [(''calls'', JArr [JObj [(''name'', JStr ''ls''), (''arguments'', JObj [])]])]))\<rparr>"

lemma decision_all_or_nothing_witness:
  "\<exists>calls ds. parseModelToolDecision decisionEnv ''{c}'' [listTool] (JStr ''auto'') = Some calls
     \<and> map callName calls = [''ls''] \<and> (\<forall>(n, a) \<in> set ds. wellTyped decisionEnv [listTool] (JStr ''auto'') (n, JObj a))
     \<and> calls = map (callOf decisionEnv) (enumerate 0 ds)"
proof -
  have "map_option (map callName) (parseModelToolDecision decisionEnv ''{c}'' [listTool] (JStr ''auto'')) = Some [''ls'']"
    by code_simp
  then obtain calls where p: "parseModelToolDecision decisionEnv ''{c}'' [listTool] (JStr ''auto'') = Some calls"
    and n: "map callName calls = [''ls'']" by (auto simp: map_option_eq_Some)
  from iffD1 [OF decision_all_or_nothing p] obtain ds where
    "\<forall>(n, a) \<in> set ds. wellTyped decisionEnv [listTool] (JStr ''auto'') (n, JObj a)" "calls = map (callOf decisionEnv) (enumerate 0 ds)"
    by (elim exE conjE)
  with p n show ?thesis by (intro exI conjI)
qed

end
