(* ===== verification/UsageStats.thy ===== *)
theory UsageStats
  imports PromptSelect AccountRouter
begin

text \<open>
  Usage counters: estimateChatUsage of internal/web/token_usage.go and the counters of server.go with their file.
  Request counts and the dirty flag are part of the router's state (bumpAccountStats); counters are 64-bit.
\<close>

subsection \<open>The estimate\<close>

definition serializedTokenCount :: "(string \<Rightarrow> int) \<Rightarrow> json \<Rightarrow> int" where
  "serializedTokenCount count v = (case v of JStr s \<Rightarrow> count (toValid s) | _ \<Rightarrow> count (mustJSON v))"

text \<open>A message as it is after encoding and decoding: a name or calls that are left out are null.\<close>

definition messageFields :: "oaiMsg \<Rightarrow> json list" where
  "messageFields m =
     [JStr (msgRole m), msgContent m, (if msgName m = [] then JNull else JStr (msgName m)),
      (if msgToolCalls m = [] then JNull else JArr (map JObj (msgToolCalls m)))]"

text \<open>The tools are passed as an interface value, which is never nil: no tools count as the text null.\<close>

definition estimateChatUsage :: "budgetEnv \<Rightarrow> string \<Rightarrow> oaiMsg list \<Rightarrow> offeredTool list \<Rightarrow> string \<Rightarrow> int \<times> int" where
  "estimateChatUsage env model messages tools output =
     (let count = tokensIn env model;
          inp = 4 + 3 + (\<Sum>m \<leftarrow> messages. 4 + (\<Sum>v \<leftarrow> messageFields m. serializedTokenCount count v))
                + 6 + count (beTools env tools);
          out = count output + (if output = [] then 0 else 3)
      in (inp, out))"

definition estimateTokens :: "string \<Rightarrow> nat" where
  "estimateTokens s =
     (let rs = runes s
      in (length (filter asciiRune rs) + 3) div 4 + length (filter (\<lambda>r. \<not> asciiRune r) rs))"

subsection \<open>The counters\<close>

record statsFile =
  sfVersion :: int
  sfStats :: "(string, int) gomap"
  sfTokenIn :: "(string, int) gomap"
  sfTokenOut :: "(string, int) gomap"

record tokenUsage =
  tuIn :: "(string, int) gomap"
  tuOut :: "(string, int) gomap"
  tuPath :: string
  tuFile :: "statsFile diskfile"

definition addTokens :: "string \<Rightarrow> int \<Rightarrow> int \<Rightarrow> server \<times> tokenUsage \<Rightarrow> server \<times> tokenUsage" where
  "addTokens aid inp out su =
     (if aid = [] then su
      else ((fst su)\<lparr>statsDirty := True\<rparr>,
            (snd su)\<lparr>tuIn := AList.update aid (wrapInt64 (getOr 0 (tuIn (snd su)) aid + inp)) (tuIn (snd su)),
                     tuOut := AList.update aid (wrapInt64 (getOr 0 (tuOut (snd su)) aid + out)) (tuOut (snd su))\<rparr>))"

definition recordTokens ::
  "budgetEnv \<Rightarrow> string \<Rightarrow> string \<Rightarrow> string \<Rightarrow> server \<times> tokenUsage \<Rightarrow> server \<times> tokenUsage" where
  "recordTokens env aid inputText outputText su =
     addTokens aid (tokensIn env ''m365-copilot'' inputText) (tokensIn env ''m365-copilot'' outputText) su"

text \<open>The file read at start-up: an error, nothing, or its content; an absent member is an empty map.\<close>

definition loadStats :: "(unit + statsFile) option \<Rightarrow> server \<times> tokenUsage \<Rightarrow> bool \<times> server \<times> tokenUsage" where
  "loadStats content su =
     (if tuPath (snd su) = [] then (True, su)
      else case content of
             None \<Rightarrow> (True, su)
           | Some (Inl _) \<Rightarrow> (False, su)
           | Some (Inr f) \<Rightarrow>
               (True, (fst su)\<lparr>accountStats := fold (\<lambda>(k, v). AList.update k v) (sfStats f) (accountStats (fst su))\<rparr>,
                (snd su)\<lparr>tuIn := fold (\<lambda>(k, v). AList.update k v) (sfTokenIn f) (tuIn (snd su)),
                         tuOut := fold (\<lambda>(k, v). AList.update k v) (sfTokenOut f) (tuOut (snd su))\<rparr>))"

definition statsSnapshot :: "server \<times> tokenUsage \<Rightarrow> statsFile" where
  "statsSnapshot su =
     \<lparr>sfVersion = 1, sfStats = accountStats (fst su), sfTokenIn = tuIn (snd su), sfTokenOut = tuOut (snd su)\<rparr>"

definition saveStats :: "server \<times> tokenUsage \<Rightarrow> bool \<times> server \<times> tokenUsage" where
  "saveStats su =
     (if tuPath (snd su) = [] \<or> \<not> statsDirty (fst su) then (True, su)
      else case writeFile (statsSnapshot su) (tuFile (snd su)) of
             (True, f) \<Rightarrow> (True, (fst su)\<lparr>statsDirty := False\<rparr>, (snd su)\<lparr>tuFile := f\<rparr>)
           | (False, f) \<Rightarrow> (False, fst su, (snd su)\<lparr>tuFile := f\<rparr>))"

text \<open>One turn of the periodic saver; its next one retries a failed write.\<close>

definition statsSaverTick :: "server \<times> tokenUsage \<Rightarrow> server \<times> tokenUsage" where
  "statsSaverTick su = (if statsDirty (fst su) then snd (saveStats su) else su)"

definition resetStats :: "server \<times> tokenUsage \<Rightarrow> bool \<times> server \<times> tokenUsage" where
  "resetStats su =
     saveStats ((fst su)\<lparr>accountStats := [], statsDirty := True\<rparr>, (snd su)\<lparr>tuIn := [], tuOut := []\<rparr>)"

datatype resetOutcome = ResetNotAllowed | ResetUnauthorized | ResetStorageError | ResetDone

definition resetStatsHandler :: "string \<Rightarrow> bool \<Rightarrow> server \<times> tokenUsage \<Rightarrow> resetOutcome \<times> server \<times> tokenUsage" where
  "resetStatsHandler verb adminSession su =
     (if verb \<noteq> ''POST'' then (ResetNotAllowed, su)
      else if \<not> adminSession then (ResetUnauthorized, su)
      else case resetStats su of (ok, su') \<Rightarrow> (if ok then ResetDone else ResetStorageError, su'))"

subsection \<open>Laws\<close>

text \<open>Once a snapshot was written and nothing is pending, a restart reads back the counters in memory.\<close>

definition statsOnDisk :: "server \<times> tokenUsage \<Rightarrow> bool" where
  "statsOnDisk su \<longleftrightarrow> statsDirty (fst su) \<or> contents (tuFile (snd su)) = Some (statsSnapshot su)"

lemma saveStats_onDisk: "statsOnDisk su \<Longrightarrow> statsOnDisk (snd (saveStats su))"
  by (auto simp: saveStats_def statsOnDisk_def statsSnapshot_def split: prod.split bool.split dest!: writeFile_ok)

lemma addTokens_onDisk: "statsOnDisk su \<Longrightarrow> statsOnDisk (addTokens aid i j su)"
  by (simp add: addTokens_def statsOnDisk_def)

lemma bump_onDisk: "statsOnDisk (s, u) \<Longrightarrow> statsOnDisk (bumpAccountStats aid s, u)"
  by (simp add: bumpAccountStats_def statsOnDisk_def)

lemma resetStats_onDisk: "statsOnDisk (snd (resetStats su))"
  unfolding resetStats_def by (rule saveStats_onDisk) (simp add: statsOnDisk_def)

lemma saveStats_pending:
  "tuPath (snd su) \<noteq> [] \<Longrightarrow> fst (saveStats su) \<Longrightarrow> \<not> statsDirty (fst (snd (saveStats su)))"
  by (auto simp: saveStats_def split: prod.split bool.split)

lemma map_of_fold_updates: "map_of (fold (\<lambda>(k, v). AList.update k v) kvs m) = map_of m ++ map_of (rev kvs)"
  by (induction kvs arbitrary: m) (auto simp: fun_eq_iff map_add_def split: option.split)

lemma load_fresh:
  "wf_map kvs \<Longrightarrow> map_of (fold (\<lambda>(k, v). AList.update k v) kvs []) = map_of kvs"
proof -
  assume d: "wf_map kvs"
  then have "map_of (rev kvs) k = Some v \<longleftrightarrow> map_of kvs k = Some v" for k v
    by (simp add: rev_map [symmetric])
  then have "map_of (rev kvs) = map_of kvs" by (intro ext) (metis not_Some_eq)
  then show ?thesis by (simp add: map_of_fold_updates)
qed

text \<open>A saved snapshot is what a restart reads.\<close>

lemma stats_survive_restart:
  assumes "statsOnDisk (s, u)" "\<not> statsDirty s" "tuPath u' = tuPath u" "tuPath u \<noteq> []"
    and "wf_map (accountStats s)" "wf_map (tuIn u)" "wf_map (tuOut u)"
    and "accountStats s0 = []" "tuIn u' = []" "tuOut u' = []"
  shows "case loadStats (map_option Inr (contents (tuFile u))) (s0, u') of (ok, s1, u1) \<Rightarrow>
     ok \<and> map_of (accountStats s1) = map_of (accountStats s) \<and> map_of (tuIn u1) = map_of (tuIn u) \<and> map_of (tuOut u1) = map_of (tuOut u)"
  using assms by (simp add: statsOnDisk_def loadStats_def statsSnapshot_def load_fresh)

end
