(* ===== verification/GatewayTurn.thy ===== *)
theory GatewayTurn
  imports ToolRouter UsageStats ResponseSession ChatStream PolicyRefusal ToolResponse ProtocolRequests
begin

text \<open>
  The state and the shared steps of a chat request, internal/web/server.go and the chatActive functions of
  account_router.go. A request is a sequence of steps on the shared state of the gateway; between two steps other
  requests may change that state in any way (geMeanwhile). The upstream is an argument that answers the n-th call of
  the request; what ChatHub does in a call is modelled in ChatStream. HTTP headers and log lines are not modelled.
\<close>

subsection \<open>Results of upstream calls\<close>

record upstreamResult = chatResult +
  uxConversationID :: string
  uxSessionID :: string
  uxRequestID :: string
  uxImages :: "string list"

definition emptyResult :: upstreamResult where
  "emptyResult =
     \<lparr>crText = [], crFullText = [], crThrottling = JNull, crRawResult = [], crEvents = [], crTruncated = False,
      uxConversationID = [], uxSessionID = [], uxRequestID = [], uxImages = []\<rparr>"

text \<open>An exhausted allowance in the throttling payload; whether a number is at most zero is an argument.\<close>

definition allowanceSpent :: "(string \<Rightarrow> bool) \<Rightarrow> json \<Rightarrow> bool option" where
  "allowanceSpent nonPositive cq =
     (case cq of
        JObj m \<Rightarrow> (case member m ''remainingAllowance'' of JNum n \<Rightarrow> Some (nonPositive n) | _ \<Rightarrow> None)
      | _ \<Rightarrow> None)"

definition webQuotaExhausted :: "(string \<Rightarrow> bool) \<Rightarrow> json \<Rightarrow> bool" where
  "webQuotaExhausted nonPositive t =
     (case t of
        JObj m \<Rightarrow>
          (case member m ''CostQuota'' of
             JNum n \<Rightarrow> nonPositive n
           | cq \<Rightarrow>
               (case allowanceSpent nonPositive cq of
                  Some spent \<Rightarrow> spent
                | None \<Rightarrow>
                    allowanceSpent nonPositive (member (asObject (member m ''metering'')) ''CostQuota'') = Some True))
      | _ \<Rightarrow> False)"

definition quotaFailureWithoutContent ::
  "toolEnv \<Rightarrow> (string \<Rightarrow> bool) \<Rightarrow> upstreamResult \<Rightarrow> offeredTool list \<Rightarrow> bool" where
  "quotaFailureWithoutContent env nonPositive res tools =
     (if isUpstreamThrottlePlaceholderText (firstNonEmpty [crText res, crFullText res]) then True
      else
        let content = (\<not> blank (crText res) \<or> \<not> blank (crFullText res) \<or> uxImages res \<noteq> []);
            content = (if \<not> content \<and> tools \<noteq> [] then nativeToolCalls env (crEvents res) tools \<noteq> [] else content)
        in \<not> content \<and> webQuotaExhausted nonPositive (crThrottling res))"

text \<open>The claims of an access token; base64 decoding is an argument.\<close>

definition extractOIDTID :: "(string \<Rightarrow> string option) \<Rightarrow> (string \<Rightarrow> json option) \<Rightarrow> string \<Rightarrow> string \<times> string" where
  "extractOIDTID decode unmarshal accessToken =
     (case splitOn (CHR ''.'') accessToken of
        _ # payload # _ \<Rightarrow>
          (case decode payload of
             Some raw \<Rightarrow>
               (case decodeObject unmarshal raw of
                  Some m \<Rightarrow> (memberString m ''oid'', memberString m ''tid'')
                | None \<Rightarrow> ([], []))
           | None \<Rightarrow> ([], []))
      | _ \<Rightarrow> ([], []))"

definition bindingOf :: "(string \<Rightarrow> int) \<Rightarrow> upstreamResult \<Rightarrow> turnBinding" where
  "bindingOf trunc res =
     \<lparr>tbConversationID = uxConversationID res, tbSessionID = uxSessionID res,
      tbUserMessages = (case member (asObject (crThrottling res)) ''numUserMessagesInConversation'' of
                          JNum n \<Rightarrow> Some (trunc n) | _ \<Rightarrow> None)\<rparr>"

subsection \<open>Environment and state\<close>

record upstreamCall =
  ucText :: string
  ucTone :: string
  ucConversationID :: string
  ucSessionID :: string
  ucAttachments :: "attachment list"
  ucTools :: "offeredTool list"
  ucToolChoice :: json

text \<open>The deltas of an answer, its end, and the result that comes with a delta the client refused.\<close>

record upstreamReply =
  urDeltas :: "string list"
  urEvents :: "streamEvent list"
  urError :: "goerror option"
  urResult :: upstreamResult
  urCut :: "goerror \<times> upstreamResult"

record gateway =
  gwServer :: server
  gwSessions :: sessionStore
  gwUsage :: tokenUsage

record turnEnv =
  geNow :: "nat \<Rightarrow> gotime"
  geMeanwhile :: "nat \<Rightarrow> gateway \<Rightarrow> gateway"
  geRoute :: "nat \<Rightarrow> routeEnv"
  geGone :: "nat \<Rightarrow> bool"
  geExpired :: "nat \<Rightarrow> bool"
  geWrites :: "nat \<Rightarrow> bool"
  geUpstream :: "nat \<Rightarrow> string \<Rightarrow> upstreamCall \<Rightarrow> upstreamReply"
  geBudget :: budgetEnv
  geTool :: toolEnv
  geLedger :: ledgerEnv
  geSession :: sessionEnv
  geSettings :: settingsStore
  geDigest :: digest
  geBase64 :: "string \<Rightarrow> string option"
  geNonPositive :: "string \<Rightarrow> bool"
  geTrunc :: "string \<Rightarrow> int"
  geQuote :: "string \<Rightarrow> string"
  geCredential :: string
  geFlushes :: bool
  geDecode :: "string \<Rightarrow> oaiReq option"
  geID :: string
  geCreated :: int

datatype streamFrame = Comment string | Frame json | Named string json | DoneMark

fun frameText :: "streamFrame \<Rightarrow> string" where
  "frameText (Comment c) = '': '' @ c @ newline @ newline"
| "frameText (Frame v) = dataPayload (mustJSON v)"
| "frameText (Named name v) = ''event: '' @ name @ newline @ dataPayload (mustJSON v)"
| "frameText DoneMark = dataPayload ''[DONE]''"

text \<open>A call as the request made it: on which account, and what the client had been sent by then.\<close>

record loggedCall =
  lcAccount :: string
  lcShown :: "streamFrame list"
  lcRequest :: upstreamCall

text \<open>tnPreflight records whether the account was changed before the first call; the code only keeps accountSwitched.\<close>

record turn =
  tnGate :: gateway
  tnClock :: nat
  tnCalls :: "loggedCall list"
  tnOut :: "streamFrame list"
  tnWrites :: nat
  tnVisible :: bool
  tnAccount :: accountToken
  tnActiveID :: string
  tnSwitched :: bool
  tnPreflight :: bool
  tnContext :: callContext
  tnRelease :: "64 word option"
  tnConversationID :: string
  tnSessionID :: string

text \<open>One step on the shared state.\<close>

definition atStep ::
  "turnEnv \<Rightarrow> (gotime \<Rightarrow> gateway \<Rightarrow> 'x \<times> gateway) \<Rightarrow> 'a turn_scheme \<Rightarrow> 'x \<times> 'a turn_scheme" where
  "atStep env f t =
     (let n = tnClock t; (x, g) = f (geNow env n) (geMeanwhile env n (tnGate t))
      in (x, t\<lparr>tnGate := g, tnClock := n + 1\<rparr>))"

definition onServer :: "(server \<Rightarrow> 'x \<times> server) \<Rightarrow> gateway \<Rightarrow> 'x \<times> gateway" where
  "onServer f g = (let (x, s) = f (gwServer g) in (x, g\<lparr>gwServer := s\<rparr>))"

definition clientGone :: "turnEnv \<Rightarrow> 'a turn_scheme \<Rightarrow> bool \<times> 'a turn_scheme" where
  "clientGone env t = (geGone env (tnClock t), t\<lparr>tnClock := tnClock t + 1\<rparr>)"

text \<open>The context of the turn is done: the client has gone, the time is up, or its lease was cancelled.\<close>

definition turnDone :: "turnEnv \<Rightarrow> 'a turn_scheme \<Rightarrow> bool \<times> 'a turn_scheme" where
  "turnDone env t =
     (let n = tnClock t;
          (cancelled, t) = atStep env (\<lambda>_ g. (list_ex (\<lambda>l. l \<in> set (cancelledLeases (gwServer g))) (ctxLeases (tnContext t)), g)) t
      in (geGone env n \<or> geExpired env n \<or> cancelled, t))"

definition sendFrame :: "turnEnv \<Rightarrow> streamFrame \<Rightarrow> 'a turn_scheme \<Rightarrow> bool \<times> 'a turn_scheme" where
  "sendFrame env f t =
     (if geWrites env (tnWrites t) then (True, t\<lparr>tnOut := tnOut t @ [f], tnWrites := tnWrites t + 1\<rparr>)
      else (False, t\<lparr>tnWrites := tnWrites t + 1\<rparr>))"

text \<open>Frames up to the first failed write.\<close>

fun sendFrames :: "turnEnv \<Rightarrow> streamFrame list \<Rightarrow> 'a turn_scheme \<Rightarrow> bool \<times> 'a turn_scheme" where
  "sendFrames env [] t = (True, t)"
| "sendFrames env (f # fs) t =
     (case sendFrame env f t of (True, t) \<Rightarrow> sendFrames env fs t | (False, t) \<Rightarrow> (False, t))"

text \<open>Frames whose failure is ignored.\<close>

definition tryFrames :: "turnEnv \<Rightarrow> streamFrame list \<Rightarrow> 'a turn_scheme \<Rightarrow> 'a turn_scheme" where
  "tryFrames env fs t = fold (\<lambda>f t. snd (sendFrame env f t)) fs t"

definition errorFrame :: "string \<Rightarrow> string \<Rightarrow> string \<Rightarrow> json" where
  "errorFrame message typ code =
     JObj [(''error'', JObj [(''message'', JStr message), (''type'', JStr typ), (''code'', JStr code)])]"

definition failStream :: "turnEnv \<Rightarrow> string \<Rightarrow> string \<Rightarrow> string \<Rightarrow> 'a turn_scheme \<Rightarrow> 'a turn_scheme" where
  "failStream env message typ code t = tryFrames env [Frame (errorFrame message typ code), DoneMark] t"

subsection \<open>Calls\<close>

definition releaseTurn :: "turnEnv \<Rightarrow> 64 word option \<Rightarrow> 'a turn_scheme \<Rightarrow> 'a turn_scheme" where
  "releaseTurn env r t = snd (atStep env (\<lambda>_. onServer (\<lambda>s. ((), releaseLease r s))) t)"

text \<open>A refused delta ends the call.\<close>

fun feedDeltas :: "('d \<Rightarrow> 't \<Rightarrow> bool \<times> 't) \<Rightarrow> 'd list \<Rightarrow> 't \<Rightarrow> bool \<times> 't" where
  "feedDeltas handle [] t = (True, t)"
| "feedDeltas handle (d # ds) t =
     (case handle d t of (True, t) \<Rightarrow> feedDeltas handle ds t | (False, t) \<Rightarrow> (False, t))"

definition chatActiveWith ::
  "turnEnv \<Rightarrow> (upstreamReply \<Rightarrow> 'a turn_scheme \<Rightarrow> bool \<times> 'a turn_scheme) \<Rightarrow> upstreamCall \<Rightarrow> 'a turn_scheme \<Rightarrow>
   (goerror option \<times> upstreamResult) \<times> 'a turn_scheme" where
  "chatActiveWith env deliver req t =
     (let aid = accID (tnAccount t); parent = tnContext t
      in case atStep env (\<lambda>now. onServer (beginActiveAccountCall now parent aid)) t of
           (Inl e, t) \<Rightarrow> ((Some e, emptyResult), t)
         | (Inr (ctx, release), t) \<Rightarrow>
             let reply = geUpstream env (length (tnCalls t)) aid req;
                 t = t\<lparr>tnCalls := tnCalls t @ [\<lparr>lcAccount = aid, lcShown = tnOut t, lcRequest = req\<rparr>]\<rparr>;
                 (whole, t) = deliver reply t;
                 t = releaseTurn env release t
             in (if whole then (urError reply, urResult reply) else (Some (fst (urCut reply)), snd (urCut reply)), t))"

definition chatActiveWithDelta ::
  "turnEnv \<Rightarrow> (string \<Rightarrow> 'a turn_scheme \<Rightarrow> bool \<times> 'a turn_scheme) \<Rightarrow> upstreamCall \<Rightarrow> 'a turn_scheme \<Rightarrow>
   (goerror option \<times> upstreamResult) \<times> 'a turn_scheme" where
  "chatActiveWithDelta env handle req t = chatActiveWith env (\<lambda>reply. feedDeltas handle (urDeltas reply)) req t"

definition chatActiveWithEvents ::
  "turnEnv \<Rightarrow> (streamEvent \<Rightarrow> 'a turn_scheme \<Rightarrow> bool \<times> 'a turn_scheme) \<Rightarrow> upstreamCall \<Rightarrow> 'a turn_scheme \<Rightarrow>
   (goerror option \<times> upstreamResult) \<times> 'a turn_scheme" where
  "chatActiveWithEvents env handle req t = chatActiveWith env (\<lambda>reply. feedDeltas handle (urEvents reply)) req t"

definition chatActive ::
  "turnEnv \<Rightarrow> upstreamCall \<Rightarrow> 'a turn_scheme \<Rightarrow> (goerror option \<times> upstreamResult) \<times> 'a turn_scheme" where
  "chatActive env req t = chatActiveWith env (\<lambda>_ t. (True, t)) req t"

subsection \<open>Failover\<close>

text \<open>The object and tenant of an account, from its token when they are missing.\<close>

definition withIdentity :: "turnEnv \<Rightarrow> accountToken \<Rightarrow> accountToken" where
  "withIdentity env acc =
     (if accOID acc = [] \<or> accTID acc = []
      then (let (oid, tid) = extractOIDTID (geBase64 env) (teUnmarshal (geTool env)) (accAccessToken acc)
            in if oid = [] then acc else acc\<lparr>accOID := oid, accTID := tid\<rparr>)
      else acc)"

definition quotaFailed :: "turnEnv \<Rightarrow> upstreamResult \<Rightarrow> offeredTool list \<Rightarrow> bool" where
  "quotaFailed env res tools = quotaFailureWithoutContent (geTool env) (geNonPositive env) res tools"

definition nextHealthyAccount :: "turnEnv \<Rightarrow> 'a turn_scheme \<Rightarrow> (goerror + accountToken) \<times> 'a turn_scheme" where
  "nextHealthyAccount env t =
     (let n = tnClock t in atStep env (\<lambda>_. onServer (resolveActiveAccountWithoutAdvance (geRoute env n))) t)"

text \<open>The turn moves to the account the failure has activated, at most once, and not after visible text.\<close>

definition activateNextAccount ::
  "turnEnv \<Rightarrow> offeredTool list \<Rightarrow> goerror option \<Rightarrow> upstreamResult \<Rightarrow> bool \<Rightarrow> 'a turn_scheme \<Rightarrow> bool \<times> 'a turn_scheme" where
  "activateNextAccount env tools failure result visibleOutput t =
     (case turnDone env t of (isDone, t) \<Rightarrow>
      if isDone \<or> \<not> shouldFailoverAccount (tnSwitched t) visibleOutput failure (quotaFailed env result tools) then (False, t)
      else
        let failure = (if failure = None then Some strictQuotaExhaustedError else failure)
        in case atStep env (\<lambda>now. onServer (markAccountResult now (accID (tnAccount t)) failure)) t of
             (False, t) \<Rightarrow> (False, t)
           | (True, t) \<Rightarrow>
          (case nextHealthyAccount env t of
             (Inl e, t) \<Rightarrow> (False, t)
           | (Inr next, t) \<Rightarrow>
               let next = withIdentity env next
               in if accOID next = [] \<or> accTID next = [] then (False, t)
                  else
                    let t = releaseTurn env (tnRelease t) t
                    in case atStep env (\<lambda>now. onServer (beginActiveAccountRequest now \<lparr>ctxRequestLease = None, ctxLeases = []\<rparr> (accID next))) t of
                         (Inl e, t) \<Rightarrow> (False, t)
                       | (Inr (ctx, release), t) \<Rightarrow>
                           (True, t\<lparr>tnContext := ctx, tnRelease := release, tnAccount := next, tnActiveID := accID next,
                                    tnConversationID := [], tnSessionID := [], tnSwitched := True\<rparr>)))"

definition markTerminalFailure :: "turnEnv \<Rightarrow> string \<Rightarrow> goerror \<Rightarrow> 'a turn_scheme \<Rightarrow> 'a turn_scheme" where
  "markTerminalFailure env prompt failure t =
     (let t = (if IsDisengaged (Some failure)
               then snd (atStep env (\<lambda>now. onServer (\<lambda>s. ((), s\<lparr>policyRefusals :=
                           rememberPolicyRefusal (teHash (geTool env)) now prompt (policyRefusals s)\<rparr>))) t)
               else t);
          (isDone, t) = turnDone env t
      in if isDone then t
         else if tnSwitched t
         then snd (atStep env (\<lambda>now. onServer (\<lambda>s. ((), recordAccountFailureWithoutAdvance now (accID (tnAccount t)) failure s))) t)
         else snd (atStep env (\<lambda>now. onServer (markAccountResult now (accID (tnAccount t)) (Some failure))) t))"

definition persistTurn ::
  "turnEnv \<Rightarrow> string \<Rightarrow> string \<Rightarrow> string \<Rightarrow> upstreamResult \<Rightarrow> bool \<Rightarrow> 'a turn_scheme \<Rightarrow> bool \<times> 'a turn_scheme" where
  "persistTurn env key account prompt res clear t =
     atStep env (\<lambda>now g.
       (case persistSession (geSession env) now key account prompt (bindingOf (geTrunc env) res) clear (gwSessions g) (gwServer g) of
          (e, ss, s) \<Rightarrow> (e = None, g\<lparr>gwSessions := ss, gwServer := s\<rparr>))) t"

definition markTurnSuccess :: "turnEnv \<Rightarrow> 'a turn_scheme \<Rightarrow> 'a turn_scheme" where
  "markTurnSuccess env t = snd (atStep env (\<lambda>now. onServer (\<lambda>s. ((), markAccountSuccess now (accID (tnAccount t)) s))) t)"

definition addTurnTokens :: "turnEnv \<Rightarrow> int \<Rightarrow> int \<Rightarrow> 'a turn_scheme \<Rightarrow> 'a turn_scheme" where
  "addTurnTokens env inp out t =
     snd (atStep env (\<lambda>_ g. (case addTokens (accID (tnAccount t)) inp out (gwServer g, gwUsage g) of
                               (s, u) \<Rightarrow> ((), g\<lparr>gwServer := s, gwUsage := u\<rparr>))) t)"

end
