(* ===== verification/TurnStart.thy ===== *)
theory TurnStart
  imports GatewayTurn ProtocolRequests ToolProtocol
begin

text \<open>
  What openaiChat of internal/web/server.go does with a request before it asks the upstream anything: the checks, the
  session it continues, the evidence ledger, the selected prompt, the account and its lease. The body is given
  decoded; the retry header of an error is not modelled.
\<close>

subsection \<open>Replies\<close>

datatype turnReply = PlainReply int string | JSONReply int json | StreamReply

fun replyStatus :: "turnReply \<Rightarrow> int" where
  "replyStatus (PlainReply s m) = s"
| "replyStatus (JSONReply s v) = s"
| "replyStatus StreamReply = 200"

definition writeOpenAIError :: "int \<Rightarrow> string \<Rightarrow> string \<Rightarrow> turnReply" where
  "writeOpenAIError status typ msg =
     JSONReply status (JObj [(''error'', JObj [(''message'', JStr msg), (''type'', JStr typ)])])"

definition accountResolutionError :: "goerror \<Rightarrow> turnReply" where
  "accountResolutionError err =
     (if errorsIs err ErrUpstreamCircuitOpen
      then writeOpenAIError 503 ''upstream_temporarily_unavailable''
             ''shared upstream connectivity is unstable; retry after the circuit rest window''
      else if errorsIs err ErrInactiveAccount \<or> errorsIs err ErrPinnedAccountUnavailable
      then writeOpenAIError 409 ''account_temporarily_unavailable''
             ''the active account changed or is resting; retry the request''
      else writeOpenAIError 400 ''account_error'' ''no usable active account is available'')"

definition resolutionReply :: "goerror \<Rightarrow> turnReply" where
  "resolutionReply err =
     (if errorsIs err ErrUpstreamCircuitOpen then accountResolutionError err else PlainReply 400 ''bad request'')"

subsection \<open>The request\<close>

text \<open>What stays fixed once the request has been checked.\<close>

record turnTask =
  tkBody :: oaiReq
  tkLimit :: int
  tkTone :: string
  tkRouterTone :: string
  tkExplicit :: bool
  tkPersistKey :: string
  tkLedger :: agentLedger
  tkMessages :: "oaiMsg list"
  tkPrompt :: string
  tkAttachments :: "attachment list"
  tkToolMaps :: "jsonObject list"
  tkChoice :: json
  tkRouterInput :: string

definition toneErrorText :: "(string \<Rightarrow> string) \<Rightarrow> string \<Rightarrow> toneError \<Rightarrow> string" where
  "toneErrorText quote effort e =
     (case e of
        UnsupportedEffort \<Rightarrow> ''unsupported reasoning effort '' @ quote (ToLower (TrimSpace effort))
                             @ ''; use none, minimal, low, medium, high, max, or xhigh''
      | NoReasoningTone \<Rightarrow>
          ''model gpt-5.3 does not expose a reliable reasoning tone; use gpt-5.3 without reasoning effort'')"

definition requestEffort :: "oaiReq \<Rightarrow> string" where
  "requestEffort body =
     (case oqReasoning body of
        Some r \<Rightarrow> if \<not> blank (rcEffort r) then rcEffort r else oqReasoningEffort body
      | None \<Rightarrow> oqReasoningEffort body)"

text \<open>The output limit, the model and its tone.\<close>

definition checkedRequest :: "turnEnv \<Rightarrow> oaiReq \<Rightarrow> turnReply + oaiReq \<times> int \<times> string" where
  "checkedRequest env body =
     (case requestedOutputLimit [oqMaxOutputTokens body, oqMaxCompletionTokens body, oqMaxTokens body]
             (MaxOutputTokens (setCurrent (geSettings env))) of
        None \<Rightarrow> Inl (writeOpenAIError 400 ''invalid_request_error'' ''output token limit must be greater than zero'')
      | Some limit \<Rightarrow>
          (case canonicalGatewayModel (oqModel body) of
             (model, supported) \<Rightarrow>
               if \<not> supported
               then Inl (writeOpenAIError 400 ''invalid_request_error'' (''unsupported model '' @ oqModel body))
               else (case reasoningTone model (requestEffort body) of
                       Inl e \<Rightarrow> Inl (writeOpenAIError 400 ''invalid_request_error''
                                        (toneErrorText (geQuote env) (requestEffort body) e))
                     | Inr tone \<Rightarrow> Inr (normalizeLegacyTools (body\<lparr>oqModel := model\<rparr>), limit, tone))))"

definition unavailableResponse :: "string \<Rightarrow> turnReply" where
  "unavailableResponse msg = writeOpenAIError 409 ''previous_response_unavailable'' msg"

text \<open>
  The account of a stored session becomes the one of a request that names none; the upstream conversation is taken over
  only from a session of the account of the request.
\<close>

definition adoptSession :: "conversation \<Rightarrow> 'a turn_scheme \<Rightarrow> 'a turn_scheme" where
  "adoptSession v t =
     (let t = (if tnActiveID t = [] then t\<lparr>tnActiveID := cvAccountID v\<rparr> else t)
      in if tnActiveID t \<noteq> [] \<and> tnActiveID t = cvAccountID v
         then t\<lparr>tnConversationID := firstNonEmpty [tnConversationID t, cvConversationID v],
                tnSessionID := firstNonEmpty [tnSessionID t, cvSessionID v]\<rparr>
         else t)"

text \<open>
  The stored session: its history, and its upstream conversation when it belongs to the account of the request. Only a
  request that refers to a previous response fails when there is nothing to restore.
\<close>

definition restoreSession :: "turnEnv \<Rightarrow> oaiReq \<Rightarrow> 'a turn_scheme \<Rightarrow> (turnReply + oaiReq \<times> bool) \<times> 'a turn_scheme" where
  "restoreSession env body t =
     (if oqSessionKey body = [] then (Inr (body, False), t)
      else case atStep env (\<lambda>_ g. (getSession (geSession env) (oqSessionKey body) (gwSessions g), g)) t of
        (None, t) \<Rightarrow>
          if oqRestoreHistory body
          then (Inl (unavailableResponse ''previous_response_id is unknown, expired, or belongs to another API credential''), t)
          else (Inr (body, False), t)
      | (Some v, t) \<Rightarrow>
          let restored = (oqRestoreHistory body \<and> cvPortableMessages v \<noteq> []);
              body = (if restored
                      then body\<lparr>oqMessages := mergePortableMessages (beSprint (geBudget env)) (cvPortableMessages v) (oqMessages body)\<rparr>
                      else body);
              t = adoptSession v t;
              continuing = (tnActiveID t \<noteq> [] \<and> tnActiveID t = cvAccountID v
                            \<and> tnConversationID t \<noteq> [] \<and> tnSessionID t \<noteq> [])
          in if oqRestoreHistory body \<and> \<not> restored \<and> allowResponsesToolContinuation (oqToolContinuation body) (oqMessages body)
             then (case atStep env (\<lambda>now. onServer (currentActiveAccountID now)) t of
                     (currentID, t) \<Rightarrow>
                       (Inl (unavailableResponse
                          (if cvAccountID v \<noteq> [] \<and> currentID \<noteq> [] \<and> cvAccountID v \<noteq> currentID
                           then ''previous_response_id predates portable history and cannot be migrated to the active account''
                           else ''previous_response_id predates verifiable tool history; start a new response'')), t))
             else (Inr (body, continuing), t))"

subsection \<open>The conversation\<close>

definition roundLimit :: "turnEnv \<Rightarrow> int" where
  "roundLimit env =
     maxToolRounds (beEnviron (geBudget env) ''M365_MAX_TOOL_ROUNDS'') (MaxToolRounds (setCurrent (geSettings env)))"

definition callLimit :: "turnEnv \<Rightarrow> oaiReq \<Rightarrow> int" where
  "callLimit env body = effectiveToolCallLimit (oqParallelToolCalls body) (beEnviron (geBudget env)) (geSettings env)"

definition checkedConversation :: "turnEnv \<Rightarrow> oaiReq \<Rightarrow> turnReply + oaiReq \<times> agentLedger" where
  "checkedConversation env body =
     (let body = body\<lparr>oqMessages := withRequestInstructions (oqMessages body) (oqInstructions body)\<rparr>
      in case validateToolConversation (oqMessages body) of
           Some e \<Rightarrow> Inl (writeOpenAIError 400 ''tool_protocol_error'' e)
         | None \<Rightarrow>
             let ledger = buildAgentLedger (geLedger env) (activeMessages (oqMessages body))
             in if alPending ledger \<noteq> []
                then Inl (writeOpenAIError 400 ''invalid_request_error'' ''pending tool results must be returned before another turn'')
                else if alRepeatedFailure ledger \<and> int (alToolRounds ledger) \<ge> roundLimit env
                then Inl (JSONReply 409 (JObj [(''error'', JObj [(''type'', JStr ''tool_loop_detected''),
                            (''message'', JStr ''repeated tool failure detected''),
                            (''completed_calls'', JNum (showNat (length (alCompleted ledger))))])]))
                else Inr (body, ledger))"

text \<open>The messages that fit, the prompt they make and the attachments.\<close>

definition selectPrompt :: "turnEnv \<Rightarrow> oaiReq \<Rightarrow> bool \<Rightarrow> turnReply + oaiMsg list \<times> string \<times> attachment list" where
  "selectPrompt env body continuing =
     (case selectPromptMessages (geBudget env) (oqMessages body) (oqModel body) (oqTools body) (oqAttachments body) continuing of
        (messages, stats) \<Rightarrow>
          (case psExceededReason stats of
             Some reason \<Rightarrow> Inl (writeOpenAIError 413 ''context_length_exceeded'' reason)
           | None \<Rightarrow>
               (case flattenPromptMessages (beSprint (geBudget env)) messages (oqAttachments body) of
                  (prompt, attachments) \<Rightarrow>
                    let prompt = TrimSpace prompt
                    in if prompt = [] then Inl (PlainReply 400 ''messages required'')
                       else Inr (messages, prompt, attachments))))"

definition refusedRecently :: "turnEnv \<Rightarrow> string \<Rightarrow> 'a turn_scheme \<Rightarrow> bool \<times> 'a turn_scheme" where
  "refusedRecently env prompt t =
     atStep env (\<lambda>now. onServer (\<lambda>s.
       (case recentPolicyRefusal (teHash (geTool env)) now prompt (policyRefusals s) of
          (found, r) \<Rightarrow> (found, s\<lparr>policyRefusals := r\<rparr>)))) t"

subsection \<open>The account\<close>

definition resolveAccount ::
  "turnEnv \<Rightarrow> string \<Rightarrow> bool \<Rightarrow> 'a turn_scheme \<Rightarrow> (goerror + accountToken \<times> bool) \<times> 'a turn_scheme" where
  "resolveAccount env requested explicit t =
     (let n = tnClock t
      in case atStep env (\<lambda>_. onServer (resolveRequestAccount (geRoute env n) (geRoute env (n + 1)) requested explicit))
                (t\<lparr>tnClock := n + 1\<rparr>) of
           (r, t) \<Rightarrow> (r, t\<lparr>tnPreflight := (case r of Inr (acc, moved) \<Rightarrow> moved | Inl e \<Rightarrow> False)\<rparr>))"

definition freshContext :: callContext where
  "freshContext = \<lparr>ctxRequestLease = None, ctxLeases = []\<rparr>"

text \<open>The account the turn starts on and the prompt for it: leaving the bound account loses the conversation.\<close>

definition chooseAccount ::
  "turnEnv \<Rightarrow> oaiReq \<Rightarrow> bool \<Rightarrow> oaiMsg list \<times> string \<times> attachment list \<Rightarrow> 'a turn_scheme \<Rightarrow>
   (turnReply + oaiMsg list \<times> string \<times> attachment list) \<times> 'a turn_scheme" where
  "chooseAccount env body explicit chosen t =
     (case resolveAccount env (tnActiveID t) explicit t of
        (Inl e, t) \<Rightarrow> (Inl (resolutionReply e), t)
      | (Inr (acc, preflightSwitched), t) \<Rightarrow>
          let t = (if preflightSwitched
                   then t\<lparr>tnSwitched := True, tnActiveID := accID acc, tnConversationID := [], tnSessionID := []\<rparr>
                   else t)
          in (case (if preflightSwitched then selectPrompt env body False else Inr chosen) of
                Inl r \<Rightarrow> (Inl r, t)
              | Inr chosen \<Rightarrow>
                  let acc = withIdentity env acc
                  in if accOID acc = [] \<or> accTID acc = [] then (Inl (PlainReply 400 ''account missing oid/tid''), t)
                     else (Inr chosen, t\<lparr>tnAccount := acc\<rparr>)))"

definition leaseTurn :: "turnEnv \<Rightarrow> 'a turn_scheme \<Rightarrow> bool \<times> 'a turn_scheme" where
  "leaseTurn env t =
     (case atStep env (\<lambda>now. onServer (beginActiveAccountRequest now freshContext (accID (tnAccount t)))) t of
        (Inl e, t) \<Rightarrow> (False, t)
      | (Inr (ctx, release), t) \<Rightarrow> (True, t\<lparr>tnContext := ctx, tnRelease := release\<rparr>))"

subsection \<open>The task\<close>

definition turnToolMaps :: "turnEnv \<Rightarrow> offeredTool list \<Rightarrow> jsonObject list" where
  "turnToolMaps env tools =
     map (\<lambda>t. [(''type'', JStr (otType t)),
                (''function'', (case teUnmarshal (geTool env) (otFunction t) of Some (JObj f) \<Rightarrow> JObj f | _ \<Rightarrow> JNull))]) tools"

definition routerInputFor :: "turnEnv \<Rightarrow> oaiReq \<Rightarrow> oaiMsg list \<Rightarrow> string \<Rightarrow> agentLedger \<Rightarrow> string" where
  "routerInputFor env body messages prompt ledger =
     modelToolRouterContext (geLedger env) messages prompt ledger @ RecoveryInstruction ledger
     @ newline @ ''[TOOL_CALL_LIMIT]'' @ newline @ ''Return no more than '' @ showInt (callLimit env body)
     @ '' call(s) in this turn.''"

definition taskOf ::
  "turnEnv \<Rightarrow> oaiReq \<Rightarrow> int \<Rightarrow> string \<Rightarrow> agentLedger \<Rightarrow> oaiMsg list \<times> string \<times> attachment list \<Rightarrow> turnTask" where
  "taskOf env body limit tone ledger chosen =
     (case chosen of (messages, prompt, attachments) \<Rightarrow>
      let tools = turnToolMaps env (oqTools body)
      in \<lparr>tkBody = body, tkLimit = limit, tkTone = tone, tkRouterTone = modelToolRouterTone (oqModel body),
          tkExplicit = (TrimSpace (oqAccountID body) \<noteq> []),
          tkPersistKey = firstNonEmpty [oqSessionWriteKey body, oqSessionKey body], tkLedger = ledger,
          tkMessages = messages, tkPrompt = prompt, tkAttachments = attachments, tkToolMaps = tools,
          tkChoice = (if oqToolChoice body = JNull \<and> tools \<noteq> [] then JStr ''auto'' else oqToolChoice body),
          tkRouterInput = routerInputFor env body messages prompt ledger\<rparr>)"

definition scopedKeys :: "turnEnv \<Rightarrow> oaiReq \<Rightarrow> oaiReq" where
  "scopedKeys env body =
     body\<lparr>oqSessionKey := scopedSessionKey (geDigest env) (geCredential env) (oqSessionKey body),
          oqSessionWriteKey := scopedSessionKey (geDigest env) (geCredential env) (oqSessionWriteKey body)\<rparr>"

definition startTurn :: "gateway \<Rightarrow> oaiReq \<Rightarrow> turn" where
  "startTurn g body =
     \<lparr>tnGate = g, tnClock = 0, tnCalls = [], tnOut = [], tnWrites = 0, tnVisible = False, tnAccount = emptyAccount,
      tnActiveID = TrimSpace (oqAccountID body), tnSwitched = False, tnPreflight = False, tnContext = freshContext, tnRelease = None,
      tnConversationID = oqConversationID body, tnSessionID = oqSessionID body\<rparr>"

text \<open>Everything before the first call; the prompt refused a short while ago is refused here.\<close>

definition prepareTurn :: "turnEnv \<Rightarrow> oaiReq \<Rightarrow> 'a turn_scheme \<Rightarrow> (turnReply + turnTask) \<times> 'a turn_scheme" where
  "prepareTurn env body t =
     (case checkedRequest env body of
        Inl r \<Rightarrow> (Inl r, t)
      | Inr (body, limit, tone) \<Rightarrow>
     (case restoreSession env (scopedKeys env body) t of
        (Inl r, t) \<Rightarrow> (Inl r, t)
      | (Inr (body, continuing), t) \<Rightarrow>
     (case checkedConversation env body of
        Inl r \<Rightarrow> (Inl r, t)
      | Inr (body, ledger) \<Rightarrow>
     (case selectPrompt env body continuing of
        Inl r \<Rightarrow> (Inl r, t)
      | Inr chosen \<Rightarrow>
     (case refusedRecently env (fst (snd chosen)) t of
        (True, t) \<Rightarrow>
          (Inl (writeOpenAIError 422 ''policy_refusal''
             ''this exact prompt was recently refused by upstream policy and will not be replayed under another account''), t)
      | (False, t) \<Rightarrow>
     (case chooseAccount env body (TrimSpace (oqAccountID body) \<noteq> []) chosen t of
        (Inl r, t) \<Rightarrow> (Inl r, t)
      | (Inr chosen, t) \<Rightarrow>
     (case leaseTurn env t of
        (False, t) \<Rightarrow>
          (Inl (writeOpenAIError 409 ''account_route_changed''
             ''active account changed while the request was starting; retry the request''), t)
      | (True, t) \<Rightarrow> (Inr (taskOf env body limit tone ledger chosen), t))))))))"

end
