(* ===== verification/TurnRoute.thy ===== *)
theory TurnRoute
  imports TurnStart
begin

text \<open>
  The routing phase of openaiChat, internal/web/server.go: before it answers, a request with tools asks the model
  which tool to call. A streamed request and a synchronous one have each their own code. The clock of a reply is one
  argument; the deadline of the phase is among the errors a call may end with.
\<close>

subsection \<open>Prompts after a change of account\<close>

definition streamAnswerRule :: string where
  "streamAnswerRule =
     ''FINAL ANSWER RULE: Answer the user directly. If a tool is explicitly required, emit its structured call; otherwise return ordinary text.''"

definition syncAnswerRule :: string where
  "syncAnswerRule =
     ''FINAL ANSWER RULE: Report only actions supported by completed tool results. If the goal is not fully verified, state exactly what remains unconfirmed.''"

definition rebuildFullHistoryPrompt ::
  "budgetEnv \<Rightarrow> oaiMsg list \<Rightarrow> string \<Rightarrow> offeredTool list \<Rightarrow> attachment list \<Rightarrow> string \<Rightarrow> string \<Rightarrow> string option" where
  "rebuildFullHistoryPrompt env messages model tools attachments routerContext rule =
     (case selectPromptMessages env messages model tools attachments False of
        (ms, stats) \<Rightarrow>
          if psExceededReason stats \<noteq> None \<or> ms = [] then None
          else let p = TrimSpace (fst (flattenPromptMessages (beSprint env) ms attachments))
               in if p = [] then None else Some (p @ newline @ routerContext @ newline @ rule))"

subsection \<open>Asking\<close>

definition plainCall :: "string \<Rightarrow> string \<Rightarrow> upstreamCall" where
  "plainCall txt tone =
     \<lparr>ucText = txt, ucTone = tone, ucConversationID = [], ucSessionID = [], ucAttachments = [], ucTools = [],
      ucToolChoice = JNull\<rparr>"

text \<open>One question to the router, asked again on the next account when the failure activates it.\<close>

definition askRouter ::
  "turnEnv \<Rightarrow> turnTask \<Rightarrow> string \<Rightarrow> 'a turn_scheme \<Rightarrow> (goerror option \<times> upstreamResult) \<times> 'a turn_scheme" where
  "askRouter env task txt t =
     (let req = plainCall txt (tkRouterTone task)
      in case chatActive env req t of
           ((None, res), t) \<Rightarrow> ((None, res), t)
         | ((Some e, res), t) \<Rightarrow>
             (case activateNextAccount env (oqTools (tkBody task)) (Some e) emptyResult False t of
                (True, t) \<Rightarrow> chatActive env req t
              | (False, t) \<Rightarrow> ((Some e, res), t)))"

definition decisionOf :: "turnEnv \<Rightarrow> turnTask \<Rightarrow> string \<Rightarrow> detectedToolCall list option" where
  "decisionOf env task txt = parseModelToolDecision (geTool env) txt (tkToolMaps task) (tkChoice task)"

definition filterRepeatedCalls :: "turnEnv \<Rightarrow> turnTask \<Rightarrow> detectedToolCall list \<Rightarrow> detectedToolCall list" where
  "filterRepeatedCalls env task calls = fst (removeRepeatedToolCalls (geLedger env) calls (tkLedger task))"

definition routePromptOf :: "turnTask \<Rightarrow> string" where
  "routePromptOf task = modelToolRouterPrompt (tkRouterInput task) (tkToolMaps task) (tkChoice task)"

text \<open>The raw string of the streaming variant ends in a backslash and an n, not in a line feed.\<close>

definition repairShape :: string where
  "repairShape =
     ''Repair this tool routing output into JSON only with shape {'' @ [CHR 0x22] @ ''calls''
      @ [CHR 0x22] @ '':[{'' @ [CHR 0x22] @ ''name'' @ [CHR 0x22] @ '':'' @ [CHR 0x22]
      @ ''function_name'' @ [CHR 0x22] @ '','' @ [CHR 0x22] @ ''arguments'' @ [CHR 0x22] @ '':{}}]}. ''"

definition streamRepairPrompt :: string where
  "streamRepairPrompt =
     repairShape @ ''Use {'' @ [CHR 0x22] @ ''calls'' @ [CHR 0x22]
      @ '':[]} if no tool is needed. OUTPUT:'' @ [CHR 0x5C] @ ''n''"

definition syncRepairPrompt :: string where
  "syncRepairPrompt =
     repairShape @ ''Do not invent calls; use {'' @ [CHR 0x22] @ ''calls'' @ [CHR 0x22]
      @ '':[]} if unrecoverable. OUTPUT:'' @ newline"

text \<open>The decision of the router, repaired once when it cannot be read.\<close>

definition decideTool ::
  "turnEnv \<Rightarrow> turnTask \<Rightarrow> string \<Rightarrow> 'a turn_scheme \<Rightarrow>
   (goerror + detectedToolCall list option \<times> upstreamResult) \<times> 'a turn_scheme" where
  "decideTool env task repair t =
     (case askRouter env task (routePromptOf task) t of
        ((Some e, res), t) \<Rightarrow> (Inl e, t)
      | ((None, res), t) \<Rightarrow>
          (case decisionOf env task (crText res) of
             Some calls \<Rightarrow> (Inr (Some (filterRepeatedCalls env task calls), res), t)
           | None \<Rightarrow>
               (case askRouter env task (repair @ compactToolResult (crText res) 6000) t of
                  ((Some e, repaired), t) \<Rightarrow> (Inr (None, res), t)
                | ((None, repaired), t) \<Rightarrow>
                    (Inr (map_option (filterRepeatedCalls env task) (decisionOf env task (crText repaired)), res), t))))"

text \<open>The retry that insists on a call; its decision and its result.\<close>

definition retryRequired ::
  "turnEnv \<Rightarrow> turnTask \<Rightarrow> 'a turn_scheme \<Rightarrow> (detectedToolCall list option \<times> upstreamResult) \<times> 'a turn_scheme" where
  "retryRequired env task t =
     (case askRouter env task (modelToolRequiredRetryPrompt (tkRouterInput task) (tkToolMaps task) (tkChoice task)) t of
        ((Some e, res), t) \<Rightarrow> ((None, res), t)
      | ((None, res), t) \<Rightarrow> ((decisionOf env task (crText res), res), t))"

definition routingNeeded :: "turnEnv \<Rightarrow> turnTask \<Rightarrow> bool" where
  "routingNeeded env task \<longleftrightarrow>
     tkToolMaps task \<noteq> [] \<and> beSprint (geBudget env) (tkChoice task) \<noteq> ''none''
     \<and> int (alToolRounds (tkLedger task)) < roundLimit env"

subsection \<open>Selected calls\<close>

definition turnModel :: "turnTask \<Rightarrow> string" where
  "turnModel task = firstNonEmpty [oqModel (tkBody task), ''m365-copilot'']"

definition turnRef :: "turnEnv \<Rightarrow> turnTask \<Rightarrow> completionRef" where
  "turnRef env task = \<lparr>cpID = geID env, cpModel = turnModel task, cpCreated = geCreated env\<rparr>"

definition callScope :: "turnTask \<Rightarrow> string \<Rightarrow> string" where
  "callScope task tag =
     showNat (length (oqMessages (tkBody task))) @ '':['' @ joinStrings '' '' (completedCallIDs (tkLedger task)) @ '']'' @ tag"

definition scopedCalls :: "turnEnv \<Rightarrow> turnTask \<Rightarrow> string \<Rightarrow> detectedToolCall list \<Rightarrow> detectedToolCall list" where
  "scopedCalls env task tag calls =
     limitToolCalls
       (map (\<lambda>(i, c). c\<lparr>callID := scopedCallID (teHash (geTool env)) (callName c) (callArguments c) i (callScope task tag)\<rparr>)
          (enumerate 0 calls))
       (callLimit env (tkBody task))"

definition eventValues :: "turnEnv \<Rightarrow> upstreamResult \<Rightarrow> json list" where
  "eventValues env res = List.map_filter (teUnmarshal (geTool env)) (crEvents res)"

definition envTrue :: "environment \<Rightarrow> string \<Rightarrow> bool" where
  "envTrue env name \<longleftrightarrow> ToLower (TrimSpace (Getenv env name)) \<in> {''1'', ''true'', ''yes'', ''on''}"

definition metadataOf :: "turnEnv \<Rightarrow> upstreamResult \<Rightarrow> jsonObject" where
  "metadataOf env res =
     compatM365Metadata (envTrue (beEnviron (geBudget env)) ''M365_INCLUDE_UPSTREAM_EVENTS'') (uxConversationID res)
       (uxSessionID res) (uxRequestID res) (eventValues env res) (crTruncated res)"

definition toolReply :: "turnEnv \<Rightarrow> turnTask \<Rightarrow> detectedToolCall list \<Rightarrow> upstreamResult \<Rightarrow> turnReply" where
  "toolReply env task calls res =
     JSONReply 200 (toolResponseJSON (geBudget env) (turnRef env task) calls (tkLimit task) (metadataOf env res))"

definition toolReplyFrames :: "turnEnv \<Rightarrow> turnTask \<Rightarrow> detectedToolCall list \<Rightarrow> streamFrame list" where
  "toolReplyFrames env task calls =
     map Frame (if toolCallsFitOutputLimit (geBudget env) (turnModel task) calls (tkLimit task)
                then toolFrames (turnRef env task) False calls else lengthFrames (turnRef env task) False)
     @ [DoneMark]"

text \<open>The router's own conversation is thrown away: the thread keeps its binding, or loses it with the old account.\<close>

definition persistRouted :: "turnEnv \<Rightarrow> turnTask \<Rightarrow> 'a turn_scheme \<Rightarrow> bool \<times> 'a turn_scheme" where
  "persistRouted env task t =
     persistTurn env (tkPersistKey task) (tnActiveID t) (tkPrompt task) emptyResult (tnSwitched t) t"

definition failPersist :: "turnEnv \<Rightarrow> 'a turn_scheme \<Rightarrow> 'a turn_scheme" where
  "failPersist env t =
     failStream env ''response state could not be persisted'' ''session_persistence_error'' ''session_persistence_error'' t"

definition persistFailedReply :: turnReply where
  "persistFailedReply = writeOpenAIError 500 ''session_persistence_error'' ''response state could not be persisted''"

subsection \<open>Streaming\<close>

definition streamRetry ::
  "turnEnv \<Rightarrow> turnTask \<Rightarrow> detectedToolCall list option \<times> upstreamResult \<Rightarrow> 'a turn_scheme \<Rightarrow>
   (detectedToolCall list option \<times> upstreamResult) \<times> 'a turn_scheme" where
  "streamRetry env task decided t =
     (if (fst decided = None \<or> fst decided = Some []) \<and> toolChoiceRequiresCall (tkChoice task)
      then (case retryRequired env task t of
              ((Some (c # cs), res), t) \<Rightarrow> ((Some (filterRepeatedCalls env task (c # cs)), res), t)
            | (_, t) \<Rightarrow> (decided, t))
      else (decided, t))"

text \<open>True: the turn has ended.\<close>

definition routeStream :: "turnEnv \<Rightarrow> turnTask \<Rightarrow> 'a turn_scheme \<Rightarrow> bool \<times> 'a turn_scheme" where
  "routeStream env task t =
     (if \<not> routingNeeded env task then (False, t)
      else case decideTool env task streamRepairPrompt t of
        (Inl e, t) \<Rightarrow>
          (True, failStream env (''tool router: '' @ errText e) ''upstream_error'' ''upstream_error''
                   (markTerminalFailure env (tkPrompt task) e t))
      | (Inr decided, t) \<Rightarrow>
          (case streamRetry env task decided t of
             ((Some (c # cs), res), t) \<Rightarrow>
               (case persistRouted env task t of
                  (False, t) \<Rightarrow> (True, failPersist env t)
                | (True, t) \<Rightarrow>
                    (True, snd (sendFrames env (toolReplyFrames env task (scopedCalls env task '':stream'' (c # cs)))
                                  (markTurnSuccess env t))))
           | (_, t) \<Rightarrow>
               if toolChoiceRequiresCall (tkChoice task)
               then (True, failStream env ''model did not select the required tool after constrained retry''
                             ''upstream_error'' ''required_tool_missing'' t)
               else (False, t)))"

subsection \<open>Synchronous\<close>

definition routedReply ::
  "turnEnv \<Rightarrow> turnTask \<Rightarrow> string \<Rightarrow> detectedToolCall list \<Rightarrow> upstreamResult \<Rightarrow> 'a turn_scheme \<Rightarrow> turnReply \<times> 'a turn_scheme" where
  "routedReply env task tag calls res t =
     (case persistRouted env task t of
        (False, t) \<Rightarrow> (persistFailedReply, t)
      | (True, t) \<Rightarrow> (toolReply env task (scopedCalls env task tag calls) res, t))"

definition routeSync :: "turnEnv \<Rightarrow> turnTask \<Rightarrow> 'a turn_scheme \<Rightarrow> turnReply option \<times> 'a turn_scheme" where
  "routeSync env task t =
     (if \<not> routingNeeded env task then (None, t)
      else case decideTool env task syncRepairPrompt t of
        (Inl e, t) \<Rightarrow> (Some (PlainReply 502 (''tool router: '' @ errText e)), t)
      | (Inr (None, res), t) \<Rightarrow> (Some (PlainReply 502 ''model returned an invalid tool routing decision''), t)
      | (Inr (Some (c # cs), res), t) \<Rightarrow> apfst Some (routedReply env task [] (c # cs) res t)
      | (Inr (Some [], res), t) \<Rightarrow>
          if \<not> toolChoiceRequiresCall (tkChoice task) then (None, t)
          else (case retryRequired env task t of
                  ((calls, res), t) \<Rightarrow>
                    (case map_option (filterRepeatedCalls env task) calls of
                       Some (c # cs) \<Rightarrow> apfst Some (routedReply env task '':required-retry'' (c # cs) res t)
                     | _ \<Rightarrow> (Some (PlainReply 502 ''model did not select a required tool after constrained retry''), t))))"

end
