(* ===== verification/TurnAnswer.thy ===== *)
theory TurnAnswer
  imports TurnRoute
begin

text \<open>
  The streamed answer of openaiChat, internal/web/server.go: the deltas with the overload guard and the output limit,
  the failover, the resumed answer, the continuations of an answer cut by the upstream, the evidence gate and the
  closing frames. Frames are those of the request itself: keep-alive comments are left out.
\<close>

subsection \<open>State\<close>

record answerTurn = turn +
  anDelivered :: string
  anWriteFailed :: bool
  anLimitReached :: bool
  anGuard :: streamPlaceholderGuard
  anNext :: streamPlaceholderGuard
  anFirst :: bool

definition openAnswer :: "turn \<Rightarrow> answerTurn" where
  "openAnswer t = turn.extend t (answerTurn.fields [] False False freshGuard freshGuard True)"

definition offeredTools :: "turnTask \<Rightarrow> offeredTool list" where
  "offeredTools task = oqTools (tkBody task)"

definition turnTokens :: "turnEnv \<Rightarrow> turnTask \<Rightarrow> string \<Rightarrow> int" where
  "turnTokens env task txt = tokensIn (geBudget env) (oqModel (tkBody task)) txt"

definition clipText :: "turnEnv \<Rightarrow> turnTask \<Rightarrow> string \<Rightarrow> string \<times> bool" where
  "clipText env task txt = truncateToOutputLimit (beEncode (geBudget env)) (oqModel (tkBody task)) txt (tkLimit task)"

subsection \<open>Deltas\<close>

text \<open>What a text adds within the output limit, and whether it reaches it.\<close>

definition withinLimit :: "turnEnv \<Rightarrow> turnTask \<Rightarrow> string \<Rightarrow> string \<Rightarrow> string \<times> bool" where
  "withinLimit env task delivered content =
     (if content \<noteq> [] \<and> tkLimit task > 0
      then (case clipText env task (delivered @ content) of
              (clipped, truncated) \<Rightarrow> if truncated then (trimPrefix delivered clipped, True) else (content, False))
      else (content, False))"

definition answerChunk :: "turnEnv \<Rightarrow> turnTask \<Rightarrow> bool \<Rightarrow> string \<Rightarrow> json" where
  "answerChunk env task started content =
     chatChunk (turnRef env task)
       ((if started then [] else [(''role'', JStr ''assistant'')]) @ (if content = [] then [] else [(''content'', JStr content)])) JNull"

text \<open>With tools the text is only collected.\<close>

definition emitAnswerDelta :: "turnEnv \<Rightarrow> turnTask \<Rightarrow> string \<Rightarrow> answerTurn \<Rightarrow> bool \<times> answerTurn" where
  "emitAnswerDelta env task content t =
     (if anLimitReached t then (True, t)
      else case Feed content (anGuard t) of
        ((released, held), g) \<Rightarrow>
          let t = t\<lparr>anGuard := g\<rparr>
          in if held then (True, t)
             else case withinLimit env task (anDelivered t) released of
               (content, reached) \<Rightarrow>
                 let t = t\<lparr>anLimitReached := reached, anDelivered := anDelivered t @ content\<rparr>
                 in if offeredTools task \<noteq> [] then (True, t)
                    else case sendFrame env (Frame (answerChunk env task (tnVisible t) content)) t of
                      (False, t) \<Rightarrow> (False, t\<lparr>anWriteFailed := True\<rparr>)
                    | (True, t) \<Rightarrow> (True, t\<lparr>tnVisible := True\<rparr>))"

text \<open>A continuation has a guard of its own and starts on a new line.\<close>

definition continuationDelta :: "turnEnv \<Rightarrow> turnTask \<Rightarrow> string \<Rightarrow> answerTurn \<Rightarrow> bool \<times> answerTurn" where
  "continuationDelta env task content t =
     (case Feed content (anNext t) of
        ((released, held), g) \<Rightarrow>
          let t = t\<lparr>anNext := g\<rparr>
          in if held then (True, t)
             else if anFirst t \<and> released \<noteq> []
             then (case emitAnswerDelta env task newline (t\<lparr>anFirst := False\<rparr>) of
                     (False, t) \<Rightarrow> (False, t)
                   | (True, t) \<Rightarrow> emitAnswerDelta env task released t)
             else emitAnswerDelta env task released t)"

subsection \<open>Prompts\<close>

definition answerTag :: "turnEnv \<Rightarrow> turnTask \<Rightarrow> string \<Rightarrow> string" where
  "answerTag env task rule =
     (if offeredTools task = [] then []
      else newline @ agentLedgerPrompt (geLedger env) (tkLedger task) @ RecoveryInstruction (tkLedger task) @ newline @ rule)"

definition rebuiltPrompt :: "turnEnv \<Rightarrow> turnTask \<Rightarrow> string \<Rightarrow> string option" where
  "rebuiltPrompt env task rule =
     rebuildFullHistoryPrompt (geBudget env) (oqMessages (tkBody task)) (oqModel (tkBody task)) (offeredTools task)
       (tkAttachments task) (agentLedgerPrompt (geLedger env) (tkLedger task)) (if offeredTools task = [] then [] else rule)"

definition orElse :: "'b option \<Rightarrow> 'b \<Rightarrow> 'b" where
  "orElse x d = (case x of Some v \<Rightarrow> v | None \<Rightarrow> d)"

text \<open>An account without the thread's history gets all of it.\<close>

definition answerPrompt :: "turnEnv \<Rightarrow> turnTask \<Rightarrow> string \<Rightarrow> bool \<Rightarrow> string" where
  "answerPrompt env task rule switched =
     (let plain = tkPrompt task @ answerTag env task rule
      in if switched then orElse (rebuiltPrompt env task rule) plain else plain)"

subsection \<open>The first answer\<close>

definition streamRequest :: "turnEnv \<Rightarrow> turnTask \<Rightarrow> 'a turn_scheme \<Rightarrow> upstreamCall" where
  "streamRequest env task t =
     \<lparr>ucText = answerPrompt env task streamAnswerRule (tnSwitched t), ucTone = tkTone task,
      ucConversationID = tnConversationID t, ucSessionID = tnSessionID t, ucAttachments = tkAttachments task,
      ucTools = offeredTools task, ucToolChoice = tkChoice task\<rparr>"

definition firstAnswer ::
  "turnEnv \<Rightarrow> turnTask \<Rightarrow> answerTurn \<Rightarrow> (goerror option \<times> upstreamResult) \<times> answerTurn" where
  "firstAnswer env task t =
     (let req = streamRequest env task t
      in case chatActiveWithDelta env (emitAnswerDelta env task) req t of
        ((err, res), t) \<Rightarrow>
          if anWriteFailed t then ((err, res), t)
          else case clientGone env t of
            (True, t) \<Rightarrow> ((err, res), t)
          | (False, t) \<Rightarrow>
              (case activateNextAccount env (offeredTools task) err res (tnVisible t) t of
                 (False, t) \<Rightarrow> ((err, res), t)
               | (True, t) \<Rightarrow>
                   chatActiveWithDelta env (emitAnswerDelta env task)
                     (req\<lparr>ucConversationID := [], ucSessionID := [],
                          ucText := orElse (rebuiltPrompt env task streamAnswerRule) (ucText req)\<rparr>)
                     (t\<lparr>anGuard := resetGuard (anGuard t)\<rparr>)))"

definition withText :: "string \<Rightarrow> upstreamResult \<Rightarrow> upstreamResult" where
  "withText txt res = res\<lparr>crText := txt, crFullText := txt\<rparr>"

definition appendResult :: "upstreamResult \<Rightarrow> upstreamResult \<Rightarrow> upstreamResult" where
  "appendResult res extra =
     res\<lparr>uxConversationID := uxConversationID extra, uxSessionID := uxSessionID extra,
         crEvents := crEvents res @ crEvents extra, uxImages := uxImages res @ uxImages extra\<rparr>"

subsection \<open>A broken connection\<close>

definition recoveryError :: "goerror \<Rightarrow> goerror \<Rightarrow> goerror" where
  "recoveryError err resumeErr =
     GoError (errText err @ ''; same-conversation stream recovery failed: '' @ errText resumeErr) (PlainError # errChain err)"

text \<open>One attempt to go on in the same conversation; None: the client is gone, the turn ends silently.\<close>

definition resumeAnswer ::
  "turnEnv \<Rightarrow> turnTask \<Rightarrow> goerror \<Rightarrow> upstreamResult \<Rightarrow> answerTurn \<Rightarrow>
   (goerror option \<times> upstreamResult) option \<times> answerTurn" where
  "resumeAnswer env task err res t =
     (let partial = anDelivered t;
          req = (plainCall (visibleStreamResumePrompt partial) (tkTone task))
                  \<lparr>ucConversationID := uxConversationID res, ucSessionID := uxSessionID res\<rparr>
      in case chatActive env req t of
        ((resumeErr, resume), t) \<Rightarrow>
          let resumeErr = (if resumeErr = None \<and> quotaFailed env resume [] then Some strictQuotaExhaustedError else resumeErr)
          in case resumeErr of
               Some e \<Rightarrow> (Some (Some (recoveryError err e), res), t)
             | None \<Rightarrow>
                 if blank (crText resume)
                 then (Some (Some (recoveryError err (plainError ''upstream returned an empty stream recovery'')), res), t)
                 else
                   let continuation = trimContinuationOverlap partial (crText resume)
                   in case (if continuation = [] then (True, t) else emitAnswerDelta env task continuation t) of
                        (False, t) \<Rightarrow> (None, t)
                      | (True, t) \<Rightarrow>
                          (Some (None, (appendResult (withText (anDelivered t) res) resume)
                                         \<lparr>crThrottling := crThrottling resume, crRawResult := crRawResult resume,
                                          crTruncated := (crTruncated res \<or> crTruncated resume)\<rparr>), t))"

definition recoverAnswer ::
  "turnEnv \<Rightarrow> turnTask \<Rightarrow> goerror option \<times> upstreamResult \<Rightarrow> answerTurn \<Rightarrow>
   (goerror option \<times> upstreamResult) option \<times> answerTurn" where
  "recoverAnswer env task r t =
     (case r of
        (None, res) \<Rightarrow> (Some (None, res), t)
      | (Some err, res) \<Rightarrow>
          if anLimitReached t \<and> tnVisible t then (Some (None, withText (anDelivered t) res), t)
          else if \<not> tnVisible t \<or> anWriteFailed t then (Some (Some err, res), t)
          else case clientGone env t of
            (True, t) \<Rightarrow> (Some (Some err, res), t)
          | (False, t) \<Rightarrow>
              if offeredTools task = [] \<and> IsTransientUpstream (Some err) \<and> uxConversationID res \<noteq> [] \<and> uxSessionID res \<noteq> []
              then resumeAnswer env task err res t
              else (Some (Some err, res), t))"

subsection \<open>Continuations\<close>

definition outputSoftCapTokens :: int where
  "outputSoftCapTokens = 3000"

text \<open>Go on without repeating, from the last sentence: the Chinese text of the request.\<close>

definition continuePrompt :: string where
  "continuePrompt =
     [CHR 0xE7, CHR 0xBB, CHR 0xA7, CHR 0xE7, CHR 0xBB, CHR 0xAD, CHR 0xEF, CHR 0xBC, CHR 0x8C, CHR 0xE4, CHR 0xB8, CHR 0x8D,
      CHR 0xE8, CHR 0xA6, CHR 0x81, CHR 0xE9, CHR 0x87, CHR 0x8D, CHR 0xE5, CHR 0xA4, CHR 0x8D, CHR 0xEF, CHR 0xBC, CHR 0x8C,
      CHR 0xE4, CHR 0xBB, CHR 0x8E, CHR 0xE4, CHR 0xB8, CHR 0x8A, CHR 0xE6, CHR 0xAC, CHR 0xA1, CHR 0xE6, CHR 0x9C, CHR 0x80,
      CHR 0xE5, CHR 0x90, CHR 0x8E, CHR 0xE4, CHR 0xB8, CHR 0x80, CHR 0xE5, CHR 0x8F, CHR 0xA5, CHR 0xE6, CHR 0x8E, CHR 0xA5,
      CHR 0xE7, CHR 0x9D, CHR 0x80, CHR 0xE5, CHR 0x86, CHR 0x99, CHR 0xE5, CHR 0xAE, CHR 0x8C, CHR 0xE6, CHR 0x95, CHR 0xB4,
      CHR 0xE3, CHR 0x80, CHR 0x82]"

definition continueRequest :: "turnTask \<Rightarrow> upstreamResult \<Rightarrow> upstreamCall" where
  "continueRequest task res =
     (plainCall continuePrompt (tkTone task))\<lparr>ucConversationID := uxConversationID res, ucSessionID := uxSessionID res\<rparr>"

definition isPlaceholderResult :: "upstreamResult \<Rightarrow> bool" where
  "isPlaceholderResult res = isUpstreamThrottlePlaceholderText (firstNonEmpty [crText res, crFullText res])"

definition recordFailure :: "turnEnv \<Rightarrow> goerror \<Rightarrow> 'a turn_scheme \<Rightarrow> 'a turn_scheme" where
  "recordFailure env e t =
     snd (atStep env (\<lambda>now. onServer (\<lambda>s. ((), recordAccountFailureWithoutAdvance now (accID (tnAccount t)) e s))) t)"

definition joinTexts :: "upstreamResult \<Rightarrow> upstreamResult \<Rightarrow> upstreamResult" where
  "joinTexts res cont =
     res\<lparr>crText := crText res @ newline @ crText cont, crFullText := crFullText res @ newline @ crFullText cont\<rparr>"

text \<open>The first argument counts the continuations left; the result says whether the answer is still incomplete.\<close>

fun continueAnswer ::
  "nat \<Rightarrow> turnEnv \<Rightarrow> turnTask \<Rightarrow> string \<Rightarrow> upstreamResult \<Rightarrow> answerTurn \<Rightarrow> (upstreamResult \<times> bool) option \<times> answerTurn" where
  "continueAnswer 0 env task lastSegment res t = (Some (res, False), t)"
| "continueAnswer (Suc n) env task lastSegment res t =
     (if turnTokens env task lastSegment < outputSoftCapTokens \<or> anLimitReached t then (Some (res, False), t)
      else case chatActiveWithDelta env (continuationDelta env task) (continueRequest task res)
                  (t\<lparr>anNext := freshGuard, anFirst := True\<rparr>) of
        ((err, cont), t) \<Rightarrow>
          let placeholder = isPlaceholderResult cont
          in if err \<noteq> None \<or> blank (crText cont) \<or> placeholder
             then (Some (res, True),
                   case (if placeholder then Some strictQuotaExhaustedError else err) of
                     Some e \<Rightarrow> recordFailure env e t | None \<Rightarrow> t)
             else
               (case finishGuard False (anNext t) of
                  (pending, g) \<Rightarrow>
                    let t = t\<lparr>anNext := g\<rparr>
                    in case (if pending = [] then (True, t) else continuationDelta env task pending t) of
                         (False, t) \<Rightarrow> (None, t)
                       | (True, t) \<Rightarrow>
                           let res = appendResult (joinTexts res cont) cont
                           in if n = 0 \<and> turnTokens env task (crFullText cont) \<ge> outputSoftCapTokens
                              then (Some (res, True), t)
                              else continueAnswer n env task (crFullText cont) res t))"

definition completedAnswer ::
  "turnEnv \<Rightarrow> turnTask \<Rightarrow> goerror option \<times> upstreamResult \<Rightarrow> answerTurn \<Rightarrow> (upstreamResult \<times> bool) option \<times> answerTurn" where
  "completedAnswer env task r t =
     (if fst r = None \<and> nativeToolCalls (geTool env) (crEvents (snd r)) (offeredTools task) = []
         \<and> \<not> anLimitReached t \<and> uxConversationID (snd r) \<noteq> []
      then continueAnswer 4 env task (crFullText (snd r)) (snd r) t
      else (Some (snd r, False), t))"

subsection \<open>Closing frames\<close>

definition unverifiedText :: string where
  "unverifiedText =
     ''I cannot confirm completion because no successful matching tool results were returned. No external action has been verified.''"

text \<open>With tools, a claim of success that no tool result supports is replaced.\<close>

definition gatedAnswer ::
  "turnEnv \<Rightarrow> turnTask \<Rightarrow> detectedToolCall list \<Rightarrow> upstreamResult \<Rightarrow> answerTurn \<Rightarrow> upstreamResult \<times> answerTurn" where
  "gatedAnswer env task calls res t =
     (if offeredTools task \<noteq> [] \<and> calls = [] \<and> \<not> completionEvidenceAllows (crText res) (tkLedger task)
      then (case clipText env task unverifiedText of
              (verified, truncated) \<Rightarrow>
                (withText verified res, t\<lparr>anLimitReached := (anLimitReached t \<or> truncated), anDelivered := verified\<rparr>))
      else (res, t))"

text \<open>Calls that do not fit what the text leaves of the limit are dropped.\<close>

definition affordedCalls ::
  "turnEnv \<Rightarrow> turnTask \<Rightarrow> detectedToolCall list \<Rightarrow> answerTurn \<Rightarrow> detectedToolCall list \<times> answerTurn" where
  "affordedCalls env task calls t =
     (let remaining = tkLimit task - turnTokens env task (anDelivered t)
      in if tkLimit task > 0
            \<and> (remaining < 1 \<or> \<not> toolCallsFitOutputLimit (geBudget env) (oqModel (tkBody task)) calls remaining)
         then ([], t\<lparr>anLimitReached := True\<rparr>) else (calls, t))"

definition answerFrames :: "turnEnv \<Rightarrow> turnTask \<Rightarrow> detectedToolCall list \<Rightarrow> answerTurn \<Rightarrow> streamFrame list" where
  "answerFrames env task calls t =
     (let whole = (offeredTools task \<noteq> [] \<and> anDelivered t \<noteq> [])
      in (if whole then [Frame (answerChunk env task False (anDelivered t))] else [])
         @ (if \<not> whole \<and> \<not> tnVisible t \<and> calls \<noteq> [] then [Frame (roleChunk (turnRef env task))] else [])
         @ map (\<lambda>(i, c). Frame (callChunk (turnRef env task) i c)) (enumerate 0 calls))"

definition finishReason :: "detectedToolCall list \<Rightarrow> bool \<Rightarrow> string" where
  "finishReason calls isCut = (if calls \<noteq> [] then ''tool_calls'' else if isCut then ''length'' else ''stop'')"

text \<open>Success is recorded, then the session is stored, then the turn is closed.\<close>

definition settleTurn :: "turnEnv \<Rightarrow> turnTask \<Rightarrow> upstreamResult \<Rightarrow> bool \<Rightarrow> 'a turn_scheme \<Rightarrow> bool \<times> 'a turn_scheme" where
  "settleTurn env task res clear t =
     (let t = markTurnSuccess env t;
          (inp, out) = estimateChatUsage (geBudget env) (turnModel task) (tkMessages task) (offeredTools task) (crFullText res);
          t = addTurnTokens env inp out t
      in persistTurn env (tkPersistKey task) (accID (tnAccount t)) (tkPrompt task) res clear t)"

definition deliverAnswer :: "turnEnv \<Rightarrow> turnTask \<Rightarrow> upstreamResult \<Rightarrow> bool \<Rightarrow> answerTurn \<Rightarrow> answerTurn" where
  "deliverAnswer env task res incomplete t =
     (let res = res\<lparr>crText := fst (clipText env task (crText res)), crFullText := fst (clipText env task (crFullText res))\<rparr>
      in case backfillTerminalStreamText (crText res) (anDelivered t) (offeredTools task \<noteq> []) of
        (late, delivered) \<Rightarrow>
     (case (case late of Some txt \<Rightarrow> emitAnswerDelta env task txt (t\<lparr>anDelivered := delivered\<rparr>)
                       | None \<Rightarrow> (True, t\<lparr>anDelivered := delivered\<rparr>)) of
        (False, t) \<Rightarrow> t
      | (True, t) \<Rightarrow>
          let calls = limitToolCalls (nativeToolCalls (geTool env) (crEvents res) (offeredTools task)) (callLimit env (tkBody task))
          in case gatedAnswer env task calls res t of
        (res, t) \<Rightarrow>
     (case affordedCalls env task calls t of
        (calls, t) \<Rightarrow>
     (case sendFrames env (answerFrames env task calls t) t of
        (False, t) \<Rightarrow> t
      | (True, t) \<Rightarrow>
     (case settleTurn env task res (anLimitReached t) t of
        (False, t) \<Rightarrow> failPersist env t
      | (True, t) \<Rightarrow>
          snd (sendFrames env
            [Frame (chatChunk (turnRef env task) [] (JStr (finishReason calls (anLimitReached t \<or> incomplete)))), DoneMark] t))))))"

subsection \<open>The whole answer\<close>

definition failUpstream :: "turnEnv \<Rightarrow> turnTask \<Rightarrow> goerror \<Rightarrow> answerTurn \<Rightarrow> answerTurn" where
  "failUpstream env task err t =
     (if anWriteFailed t then t
      else case clientGone env t of
        (True, t) \<Rightarrow> t
      | (False, t) \<Rightarrow>
          failStream env (''upstream error: '' @ errText err) ''upstream_error'' ''upstream_error''
            (markTerminalFailure env (tkPrompt task) err t))"

definition flushGuard :: "turnEnv \<Rightarrow> turnTask \<Rightarrow> answerTurn \<Rightarrow> bool \<times> answerTurn" where
  "flushGuard env task t =
     (case finishGuard False (anGuard t) of
        (pending, g) \<Rightarrow>
          let t = t\<lparr>anGuard := g\<rparr> in if pending = [] then (True, t) else emitAnswerDelta env task pending t)"

definition streamAnswer :: "turnEnv \<Rightarrow> turnTask \<Rightarrow> answerTurn \<Rightarrow> answerTurn" where
  "streamAnswer env task t =
     (case firstAnswer env task t of
        (r, t) \<Rightarrow>
     (case recoverAnswer env task r t of
        (None, t) \<Rightarrow> t
      | (Some (err, res), t) \<Rightarrow>
          if err = None \<and> quotaFailed env res (offeredTools task)
          then failStream env ''Microsoft Copilot quota exhausted (throttled), please retry later or refresh accounts''
                 ''upstream_error'' ''upstream_throttled'' (markTerminalFailure env (tkPrompt task) strictQuotaExhaustedError t)
          else
     (case flushGuard env task t of
        (False, t) \<Rightarrow> t
      | (True, t) \<Rightarrow>
     (case err of
        Some e \<Rightarrow> failUpstream env task e t
      | None \<Rightarrow>
     (case completedAnswer env task (None, res) t of
        (None, t) \<Rightarrow> t
      | (Some (res, incomplete), t) \<Rightarrow> deliverAnswer env task res incomplete t)))))"

end
