(* ===== verification/TurnChat.thy ===== *)
theory TurnChat
  imports TurnAnswer
begin

text \<open>
  The synchronous answer of openaiChat and the whole handler, internal/web/server.go, with the two native chat
  handlers chatOnce (server.go) and chatStream (stream.go).
\<close>

subsection \<open>The synchronous answer\<close>

definition syncRequest :: "turnEnv \<Rightarrow> turnTask \<Rightarrow> 'a turn_scheme \<Rightarrow> upstreamCall" where
  "syncRequest env task t =
     (plainCall (answerPrompt env task syncAnswerRule (tnSwitched t)) (tkTone task))
       \<lparr>ucConversationID := tnConversationID t, ucSessionID := tnSessionID t, ucAttachments := tkAttachments task\<rparr>"

definition firstSyncAnswer ::
  "turnEnv \<Rightarrow> turnTask \<Rightarrow> 'a turn_scheme \<Rightarrow> (goerror option \<times> upstreamResult) \<times> 'a turn_scheme" where
  "firstSyncAnswer env task t =
     (let req = syncRequest env task t
      in case chatActive env req t of
        ((err, res), t) \<Rightarrow>
          (case activateNextAccount env (offeredTools task) err res False t of
             (False, t) \<Rightarrow> ((err, res), t)
           | (True, t) \<Rightarrow>
               chatActive env (req\<lparr>ucConversationID := [], ucSessionID := [],
                                    ucText := orElse (rebuiltPrompt env task syncAnswerRule) (ucText req)\<rparr>) t))"

text \<open>The first argument counts the continuations left; all of them go to the conversation of the first answer.\<close>

fun continueSync ::
  "nat \<Rightarrow> turnEnv \<Rightarrow> turnTask \<Rightarrow> upstreamResult \<Rightarrow> 'a turn_scheme \<Rightarrow> (upstreamResult \<times> bool) \<times> 'a turn_scheme" where
  "continueSync 0 env task res t = ((res, False), t)"
| "continueSync (Suc n) env task res t =
     (case chatActive env (continueRequest task res) t of
        ((Some e, cont), t) \<Rightarrow> ((res, True), recordFailure env e t)
      | ((None, cont), t) \<Rightarrow>
          if blank (crText cont) then ((res, True), t)
          else
            let res = (joinTexts res cont)\<lparr>crEvents := crEvents res @ crEvents cont\<rparr>
            in if tkLimit task > 0 \<and> turnTokens env task (crFullText res) \<ge> tkLimit task then ((res, True), t)
               else if turnTokens env task (crFullText cont) < outputSoftCapTokens then ((res, False), t)
               else if n = 0 then ((res, True), t)
               else continueSync n env task res t)"

definition completedSync ::
  "turnEnv \<Rightarrow> turnTask \<Rightarrow> goerror option \<times> upstreamResult \<Rightarrow> 'a turn_scheme \<Rightarrow> (upstreamResult \<times> bool) \<times> 'a turn_scheme" where
  "completedSync env task r t =
     (if fst r = None \<and> turnTokens env task (crFullText (snd r)) \<ge> outputSoftCapTokens
         \<and> uxConversationID (snd r) \<noteq> []
         \<and> (tkLimit task \<le> 0 \<or> turnTokens env task (crFullText (snd r)) < tkLimit task)
      then continueSync 4 env task (snd r) t
      else ((snd r, False), t))"

definition unconfirmedText :: string where
  "unconfirmedText =
     ''I cannot confirm completion because no matching tool results were returned. No external action has been verified.''"

definition contentJSON :: "upstreamResult \<Rightarrow> json" where
  "contentJSON res =
     (if uxImages res = [] then JStr (crText res)
      else JArr (JObj [(''type'', JStr ''text''), (''text'', JStr (crText res))]
                 # map (\<lambda>u. JObj [(''type'', JStr ''image_url''), (''image_url'', JObj [(''url'', JStr u)])]) (uxImages res)))"

definition answerJSON :: "turnEnv \<Rightarrow> turnTask \<Rightarrow> upstreamResult \<Rightarrow> bool \<Rightarrow> json" where
  "answerJSON env task res isCut =
     JObj [(''id'', JStr (geID env)), (''object'', JStr ''chat.completion''), (''created'', numberJSON (geCreated env)),
           (''model'', JStr (let m = oqModel (tkBody task) in if m = [] then ''m365-copilot'' else m)),
           (''choices'', JArr [JObj [(''index'', JNum ''0''),
              (''message'', JObj [(''role'', JStr ''assistant''), (''content'', contentJSON res)]),
              (''finish_reason'', JStr (finishReason [] isCut))]]),
           (''m365'', JObj (metadataOf env res))]"

text \<open>Calls written into the text come before calls among the events.\<close>

definition answerCalls :: "turnEnv \<Rightarrow> turnTask \<Rightarrow> upstreamResult \<Rightarrow> detectedToolCall list" where
  "answerCalls env task res =
     (let fenced = fencedToolCalls (geTool env) (crText res) (tkToolMaps task) (tkChoice task)
      in limitToolCalls (if fenced \<noteq> [] then fenced else nativeToolCalls (geTool env) (crEvents res) (offeredTools task))
           (callLimit env (tkBody task)))"

definition syncReply :: "turnEnv \<Rightarrow> turnTask \<Rightarrow> upstreamResult \<Rightarrow> bool \<Rightarrow> turnReply" where
  "syncReply env task res isCut =
     (let calls = answerCalls env task res
      in if calls \<noteq> [] then toolReply env task calls res
         else
           let res = (if offeredTools task \<noteq> [] \<and> \<not> completionEvidenceAllows (crText res) (tkLedger task)
                      then res\<lparr>crText := unconfirmedText\<rparr> else res)
           in JSONReply 200 (answerJSON env task res isCut))"

definition syncAnswer :: "turnEnv \<Rightarrow> turnTask \<Rightarrow> 'a turn_scheme \<Rightarrow> turnReply \<times> 'a turn_scheme" where
  "syncAnswer env task t =
     (case firstSyncAnswer env task t of
        ((err, res), t) \<Rightarrow>
     (case completedSync env task (err, res) t of
        ((res, incomplete), t) \<Rightarrow>
     (case err of
        Some e \<Rightarrow> (PlainReply 502 ''upstream error'', markTerminalFailure env (tkPrompt task) e t)
      | None \<Rightarrow>
          if quotaFailed env res (offeredTools task)
          then (writeOpenAIError 502 ''upstream_throttled'' ''Microsoft Copilot quota exhausted'',
                markTerminalFailure env (tkPrompt task) strictQuotaExhaustedError t)
          else
            let clipped = clipText env task (crText res);
                res = res\<lparr>crText := fst clipped, crFullText := fst (clipText env task (crFullText res))\<rparr>
            in case settleTurn env task res (snd clipped) t of
                 (False, t) \<Rightarrow> (persistFailedReply, t)
               | (True, t) \<Rightarrow> (syncReply env task res (incomplete \<or> snd clipped), t))))"

subsection \<open>The handler\<close>

text \<open>A prepared turn; the last step gives up the lease.\<close>

definition runStream :: "turnEnv \<Rightarrow> turnTask \<Rightarrow> turn \<Rightarrow> turn" where
  "runStream env task t =
     (case sendFrame env (Comment ''connected'') t of
        (False, t) \<Rightarrow> t
      | (True, t) \<Rightarrow>
          (case routeStream env task t of
             (True, t) \<Rightarrow> t
           | (False, t) \<Rightarrow> turn.truncate (streamAnswer env task (openAnswer t))))"

definition runSync :: "turnEnv \<Rightarrow> turnTask \<Rightarrow> turn \<Rightarrow> turnReply \<times> turn" where
  "runSync env task t =
     (case routeSync env task t of
        (Some r, t) \<Rightarrow> (r, t)
      | (None, t) \<Rightarrow> syncAnswer env task t)"

definition runTurn :: "turnEnv \<Rightarrow> turnTask \<Rightarrow> turn \<Rightarrow> turnReply \<times> turn" where
  "runTurn env task t =
     (let (reply, t) =
        (if oqStream (tkBody task)
         then (if geFlushes env then (StreamReply, runStream env task t) else (PlainReply 500 ''streaming unsupported'', t))
         else runSync env task t)
      in (reply, releaseTurn env (tnRelease t) t))"

text \<open>The request as read, if it could be read.\<close>

definition openaiChat :: "turnEnv \<Rightarrow> bool \<Rightarrow> string option \<Rightarrow> gateway \<Rightarrow> turnReply \<times> turn" where
  "openaiChat env post input g =
     (if \<not> post then (PlainReply 405 ''method not allowed'', startTurn g emptyReq)
      else case input of
        None \<Rightarrow> (PlainReply 400 ''read body'', startTurn g emptyReq)
      | Some raw \<Rightarrow>
          (case geDecode env raw of
             None \<Rightarrow> (PlainReply 400 ''bad json'', startTurn g emptyReq)
           | Some body \<Rightarrow>
               (case prepareTurn env body (startTurn g body) of
                  (Inl r, t) \<Rightarrow> (r, t)
                | (Inr task, t) \<Rightarrow> runTurn env task t)))"

end
