(* ===== verification/NativeChat.thy ===== *)
theory NativeChat
  imports TurnChat
begin

text \<open>
  The gateway's own chat endpoints: chatOnce of internal/web/server.go and chatStream of internal/web/stream.go. They
  hold no lease for the turn, only one for each call.
\<close>

subsection \<open>Before the call\<close>

record chatBody =
  cbAccountID :: string
  cbMessage :: string
  cbPrompt :: string
  cbTone :: string
  cbConversationID :: string
  cbSessionID :: string
  cbSessionKey :: string
  cbAttachments :: "attachment list"
  cbTools :: "offeredTool list"

definition chatText :: "chatBody \<Rightarrow> string" where
  "chatText body = TrimSpace (firstNonEmpty [cbMessage body, cbPrompt body])"

definition startNative :: "gateway \<Rightarrow> chatBody \<Rightarrow> turn" where
  "startNative g body =
     (startTurn g emptyReq)\<lparr>tnActiveID := TrimSpace (cbAccountID body), tnConversationID := cbConversationID body,
                            tnSessionID := cbSessionID body\<rparr>"

definition bindSession :: "turnEnv \<Rightarrow> string \<Rightarrow> turn \<Rightarrow> turn" where
  "bindSession env key t =
     (if key = [] then t
      else case atStep env (\<lambda>_ g. (getSession (geSession env) key (gwSessions g), g)) t of
        (None, t) \<Rightarrow> t
      | (Some v, t) \<Rightarrow> adoptSession v t)"

definition nativeAccount :: "turnEnv \<Rightarrow> chatBody \<Rightarrow> string \<Rightarrow> turn \<Rightarrow> turnReply option \<times> turn" where
  "nativeAccount env body missing t =
     (case resolveAccount env (tnActiveID t) (TrimSpace (cbAccountID body) \<noteq> []) t of
        (Inl e, t) \<Rightarrow> (Some (resolutionReply e), t)
      | (Inr (acc, preflightSwitched), t) \<Rightarrow>
          let t = (if preflightSwitched
                   then t\<lparr>tnSwitched := True, tnActiveID := accID acc, tnConversationID := [], tnSessionID := []\<rparr>
                   else t);
              acc = withIdentity env acc
          in if accOID acc = [] \<or> accTID acc = [] then (Some (PlainReply 400 missing), t)
             else (None, t\<lparr>tnAccount := acc\<rparr>))"

definition prepareNative :: "turnEnv \<Rightarrow> string \<Rightarrow> bool \<Rightarrow> chatBody option \<Rightarrow> gateway \<Rightarrow> (turnReply + chatBody) \<times> turn" where
  "prepareNative env missing post input g =
     (if \<not> post then (Inl (PlainReply 405 ''method not allowed''), startTurn g emptyReq)
      else case input of
        None \<Rightarrow> (Inl (PlainReply 400 ''bad json''), startTurn g emptyReq)
      | Some body \<Rightarrow>
          if chatText body = [] then (Inl (PlainReply 400 ''message required''), startNative g body)
          else (case nativeAccount env body missing (bindSession env (cbSessionKey body) (startNative g body)) of
                  (Some r, t) \<Rightarrow> (Inl r, t)
                | (None, t) \<Rightarrow> (Inr body, t)))"

subsection \<open>The call\<close>

definition nativeRequest :: "chatBody \<Rightarrow> turn \<Rightarrow> upstreamCall" where
  "nativeRequest body t =
     (plainCall (chatText body) (cbTone body))
       \<lparr>ucConversationID := tnConversationID t, ucSessionID := tnSessionID t, ucAttachments := cbAttachments body\<rparr>"

text \<open>
  The next account after a failure that may move the request: chatOnce reads both identifiers from the token again when
  one is missing and needs both, chatStream takes what it finds and goes on without them.
\<close>

definition nativeSuccessor ::
  "turnEnv \<Rightarrow> bool \<Rightarrow> chatBody \<Rightarrow> goerror option \<Rightarrow> upstreamResult \<Rightarrow> bool \<Rightarrow> turn \<Rightarrow> accountToken option \<times> turn" where
  "nativeSuccessor env streamed body err res visible t =
     (case clientGone env t of
        (True, t) \<Rightarrow> (None, t)
      | (False, t) \<Rightarrow>
          if \<not> shouldFailoverAccount (tnSwitched t) visible err (quotaFailed env res (cbTools body)) then (None, t)
          else
            let failure = (if err = None then Some strictQuotaExhaustedError else err)
            in case atStep env (\<lambda>now. onServer (markAccountResult now (accID (tnAccount t)) failure)) t of
                 (False, t) \<Rightarrow> (None, t)
               | (True, t) \<Rightarrow>
              (case nextHealthyAccount env t of
                 (Inl e, t) \<Rightarrow> (None, t)
               | (Inr acc, t) \<Rightarrow>
                   if streamed then (Some (withIdentity env acc), t)
                   else
                     let acc = (if accOID acc = [] \<or> accTID acc = []
                                then (let (oid, tid) = extractOIDTID (geBase64 env) (teUnmarshal (geTool env)) (accAccessToken acc)
                                      in acc\<lparr>accOID := oid, accTID := tid\<rparr>)
                                else acc)
                     in (if accOID acc \<noteq> [] \<and> accTID acc \<noteq> [] then Some acc else None, t)))"

definition moveTo :: "accountToken \<Rightarrow> turn \<Rightarrow> turn" where
  "moveTo acc t =
     t\<lparr>tnAccount := acc, tnActiveID := accID acc, tnConversationID := [], tnSessionID := [], tnSwitched := True\<rparr>"

definition nativeFailure :: "turnEnv \<Rightarrow> goerror \<Rightarrow> turn \<Rightarrow> turn" where
  "nativeFailure env failure t =
     (if tnSwitched t then recordFailure env failure t
      else snd (atStep env (\<lambda>now. onServer (markAccountResult now (accID (tnAccount t)) (Some failure))) t))"

definition recordNativeTokens :: "turnEnv \<Rightarrow> string \<Rightarrow> upstreamResult \<Rightarrow> turn \<Rightarrow> turn" where
  "recordNativeTokens env txt res t =
     snd (atStep env (\<lambda>_ g. (case recordTokens (geBudget env) (accID (tnAccount t)) txt (crFullText res) (gwServer g, gwUsage g) of
                               (s, u) \<Rightarrow> ((), g\<lparr>gwServer := s, gwUsage := u\<rparr>))) t)"

definition persistNative :: "turnEnv \<Rightarrow> chatBody \<Rightarrow> upstreamResult \<Rightarrow> turn \<Rightarrow> bool \<times> turn" where
  "persistNative env body res t =
     (if cbSessionKey body = [] then (True, t)
      else persistTurn env (cbSessionKey body) (accID (tnAccount t)) (chatText body) res False t)"

subsection \<open>One answer\<close>

definition chatOnceJSON :: "turnEnv \<Rightarrow> upstreamResult \<Rightarrow> turn \<Rightarrow> json" where
  "chatOnceJSON env res t =
     JObj [(''status'', JStr ''ok''), (''text'', JStr (crText res)), (''conversationId'', JStr (uxConversationID res)),
           (''sessionId'', JStr (uxSessionID res)), (''requestId'', JStr (uxRequestID res)), (''throttling'', crThrottling res),
           (''result'', JStr (crRawResult res)), (''events'', JArr (eventValues env res)),
           (''eventsTruncated'', JBool (crTruncated res)), (''images'', JArr (map JStr (uxImages res))),
           (''account'', JObj [(''id'', JStr (accID (tnAccount t))), (''email'', JStr (accEmail (tnAccount t)))])]"

definition onceResult :: "turnEnv \<Rightarrow> chatBody \<Rightarrow> turn \<Rightarrow> (goerror option \<times> upstreamResult) \<times> turn" where
  "onceResult env body t =
     (case chatActive env (nativeRequest body t) t of
        ((err, res), t) \<Rightarrow>
          (case nativeSuccessor env False body err res False t of
             (None, t) \<Rightarrow> ((err, res), t)
           | (Some acc, t) \<Rightarrow> (let t = moveTo acc t in chatActive env (nativeRequest body t) t)))"

definition chatOnce :: "turnEnv \<Rightarrow> bool \<Rightarrow> chatBody option \<Rightarrow> gateway \<Rightarrow> turnReply \<times> turn" where
  "chatOnce env post input g =
     (case prepareNative env ''account missing oid/tid; re-login with PKCE browser client'' post input g of
        (Inl r, t) \<Rightarrow> (r, t)
      | (Inr body, t) \<Rightarrow>
     (case onceResult env body t of
        ((Some e, res), t) \<Rightarrow>
          (PlainReply 502 ''upstream error'',
           case clientGone env t of (True, t) \<Rightarrow> t | (False, t) \<Rightarrow> nativeFailure env e t)
      | ((None, res), t) \<Rightarrow>
          if quotaFailed env res (cbTools body)
          then (writeOpenAIError 502 ''upstream_throttled'' ''Microsoft Copilot quota exhausted'',
                nativeFailure env strictQuotaExhaustedError t)
          else
     (case persistNative env body res (recordNativeTokens env (chatText body) res (markTurnSuccess env t)) of
        (False, t) \<Rightarrow> (persistFailedReply, t)
      | (True, t) \<Rightarrow> (JSONReply 200 (chatOnceJSON env res t), t))))"

subsection \<open>A stream of events\<close>

record eventTurn = turn +
  evIndex :: nat
  evFailed :: bool

definition rawJSON :: "turnEnv \<Rightarrow> string \<Rightarrow> json" where
  "rawJSON env raw = (case teUnmarshal (geTool env) raw of Some v \<Rightarrow> v | None \<Rightarrow> JNull)"

definition eventPayload :: "turnEnv \<Rightarrow> nat \<Rightarrow> streamEvent \<Rightarrow> json" where
  "eventPayload env i e =
     JObj [(''index'', JNum (showNat i)), (''type'', JStr ''chathub.event''), (''kind'', JStr (evKind e)),
           (''text'', JStr (evText e)), (''messageType'', JStr (evMessageType e)), (''contentType'', JStr (evContentType e)),
           (''toolName'', JStr (evToolName e)), (''arguments'', rawJSON env (evArguments e)), (''raw'', rawJSON env (evRaw e))]"

definition handleEvent :: "turnEnv \<Rightarrow> streamEvent \<Rightarrow> eventTurn \<Rightarrow> bool \<times> eventTurn" where
  "handleEvent env e t =
     (case sendFrame env (Named ''event'' (eventPayload env (evIndex t) e)) t of
        (False, t) \<Rightarrow> (False, t\<lparr>evFailed := True\<rparr>)
      | (True, t) \<Rightarrow> (True, t\<lparr>evIndex := evIndex t + 1, tnVisible := True\<rparr>))"

definition onTurn :: "(turn \<Rightarrow> 'x \<times> turn) \<Rightarrow> eventTurn \<Rightarrow> 'x \<times> eventTurn" where
  "onTurn f t = (let (x, u) = f (turn.truncate t) in (x, turn.extend u (eventTurn.fields (evIndex t) (evFailed t))))"

definition streamResult :: "turnEnv \<Rightarrow> chatBody \<Rightarrow> eventTurn \<Rightarrow> (goerror option \<times> upstreamResult) \<times> eventTurn" where
  "streamResult env body t =
     (case chatActiveWithEvents env (handleEvent env) (nativeRequest body (turn.truncate t)) t of
        ((err, res), t) \<Rightarrow>
          if evFailed t then ((err, res), t)
          else (case onTurn (nativeSuccessor env True body err res (tnVisible t)) t of
                  (None, t) \<Rightarrow> ((err, res), t)
                | (Some acc, t) \<Rightarrow>
                    (let t = snd (onTurn (\<lambda>t. ((), moveTo acc t)) t)
                     in chatActiveWithEvents env (handleEvent env) (nativeRequest body (turn.truncate t)) t)))"

definition failEvents :: "turnEnv \<Rightarrow> jsonObject \<Rightarrow> turn \<Rightarrow> turn" where
  "failEvents env m t = tryFrames env [Named ''error'' (JObj m)] t"

definition doneJSON :: "upstreamResult \<Rightarrow> json" where
  "doneJSON res =
     JObj [(''type'', JStr ''done''), (''text'', JStr (crText res)), (''conversationId'', JStr (uxConversationID res)),
           (''sessionId'', JStr (uxSessionID res)), (''requestId'', JStr (uxRequestID res)), (''throttling'', crThrottling res)]"

definition closeEvents ::
  "turnEnv \<Rightarrow> chatBody \<Rightarrow> goerror option \<times> upstreamResult \<Rightarrow> bool \<Rightarrow> turn \<Rightarrow> turn" where
  "closeEvents env body r failed t =
     (case r of
        (Some e, res) \<Rightarrow>
          if failed then t
          else (case clientGone env t of
                  (True, t) \<Rightarrow> t
                | (False, t) \<Rightarrow>
                    failEvents env [(''type'', JStr ''upstream_error''), (''message'', JStr (errText e))] (nativeFailure env e t))
      | (None, res) \<Rightarrow>
          if quotaFailed env res (cbTools body) \<and> \<not> tnVisible t
          then failEvents env [(''type'', JStr ''upstream_error''), (''code'', JStr ''upstream_throttled''),
                               (''message'', JStr ''Microsoft Copilot quota exhausted'')]
                 (nativeFailure env strictQuotaExhaustedError t)
          else (case persistNative env body res (markTurnSuccess env t) of
                  (False, t) \<Rightarrow>
                    failEvents env [(''type'', JStr ''session_persistence_error''),
                                    (''message'', JStr ''response state could not be persisted'')] t
                | (True, t) \<Rightarrow>
                    tryFrames env [Named ''done'' (doneJSON res)] (recordNativeTokens env (chatText body) res t)))"

definition chatStream :: "turnEnv \<Rightarrow> bool \<Rightarrow> chatBody option \<Rightarrow> gateway \<Rightarrow> turnReply \<times> turn" where
  "chatStream env post input g =
     (case prepareNative env ''account missing oid/tid'' post input g of
        (Inl r, t) \<Rightarrow> (r, t)
      | (Inr body, t) \<Rightarrow>
     (if \<not> geFlushes env then (PlainReply 500 ''stream unsupported'', t)
      else case sendFrame env (Comment ''connected'') t of
        (False, t) \<Rightarrow> (StreamReply, t)
      | (True, t) \<Rightarrow>
     (case streamResult env body (turn.extend t (eventTurn.fields 0 False)) of
        (r, t) \<Rightarrow> (StreamReply, closeEvents env body r (evFailed t) (turn.truncate t)))))"

end
