(* ===== verification/TurnLaws.thy ===== *)
theory TurnLaws
  imports NativeChat
begin

text \<open>
  Laws of the chat turn: what a step leaves alone, how many calls each part makes and on which accounts. Other requests
  may change the shared state between any two steps (geMeanwhile), so the laws are about the turn's own part.
\<close>

subsection \<open>What a step leaves alone\<close>

definition turnView ::
  "'a turn_scheme \<Rightarrow> loggedCall list \<times> streamFrame list \<times> nat \<times> bool \<times> accountToken \<times> bool \<times> bool \<times> 'a" where
  "turnView t = (tnCalls t, tnOut t, tnWrites t, tnVisible t, tnAccount t, tnSwitched t, tnPreflight t, turn.more t)"

named_theorems kept

lemma kept_atStep [kept]: "turnView (snd (atStep env f t)) = turnView t"
  by (simp add: atStep_def turnView_def Let_def split: prod.splits)

lemma kept_clientGone [kept]: "turnView (snd (clientGone env t)) = turnView t"
  by (simp add: clientGone_def turnView_def)

lemma kept_turnDone [kept]: "turnView (snd (turnDone env t)) = turnView t"
proof -
  let ?f = "\<lambda>_ g. (list_ex (\<lambda>l. l \<in> set (cancelledLeases (gwServer g))) (ctxLeases (tnContext t)), g)"
  have "snd (turnDone env t) = snd (atStep env ?f t)"
    by (simp add: turnDone_def Let_def split: prod.splits)
  then show ?thesis by (simp add: kept)
qed

lemma kept_releaseTurn [kept]: "turnView (releaseTurn env r t) = turnView t"
  by (simp add: releaseTurn_def kept)

lemma kept_recordFailure [kept]: "turnView (recordFailure env e t) = turnView t"
  by (simp add: recordFailure_def kept)

lemma kept_persistTurn [kept]: "turnView (snd (persistTurn env key aid p res c t)) = turnView t"
  by (simp add: persistTurn_def kept)

lemma kept_markTurnSuccess [kept]: "turnView (markTurnSuccess env t) = turnView t"
  by (simp add: markTurnSuccess_def kept)

lemma kept_addTurnTokens [kept]: "turnView (addTurnTokens env a b t) = turnView t"
  by (simp add: addTurnTokens_def kept)

lemma kept_settleTurn [kept]: "turnView (snd (settleTurn env task res c t)) = turnView t"
  by (simp add: settleTurn_def kept Let_def split: prod.splits)

lemma kept_nextHealthyAccount [kept]: "turnView (snd (nextHealthyAccount env t)) = turnView t"
  by (simp add: nextHealthyAccount_def kept Let_def)

lemma kept_persistRouted [kept]: "turnView (snd (persistRouted env task t)) = turnView t"
  by (simp add: persistRouted_def kept)

lemma kept_markTerminalFailure [kept]: "turnView (markTerminalFailure env p e t) = turnView t"
proof -
  define u where "u = (if IsDisengaged (Some e)
               then snd (atStep env (\<lambda>now. onServer (\<lambda>s. ((), s\<lparr>policyRefusals :=
                           rememberPolicyRefusal (teHash (geTool env)) now p (policyRefusals s)\<rparr>))) t)
               else t)"
  have u: "turnView u = turnView t" by (simp add: u_def kept)
  obtain d v where v: "turnDone env u = (d, v)" by fastforce
  then have "turnView v = turnView t" using kept_turnDone [of env u] u by simp
  then show ?thesis
    by (simp add: markTerminalFailure_def Let_def u_def [symmetric] v kept)
qed

text \<open>The view of the second component of a result.\<close>

lemma keptE: "turnView (snd p) = turnView t \<Longrightarrow> p = (x, u) \<Longrightarrow> turnView u = turnView t"
  by simp

subsection \<open>Calls\<close>

lemma chatActiveWith_cases:
  assumes "chatActiveWith env deliver req t = ((err, res), u)"
  obtains (refused) e where "err = Some e" and "res = emptyResult" and "turnView u = turnView t"
  | (called) reply t1 whole t2 where
      "turnView t1 = turnView (t\<lparr>tnCalls := tnCalls t @ [\<lparr>lcAccount = accID (tnAccount t), lcShown = tnOut t, lcRequest = req\<rparr>]\<rparr>)"
      and "deliver reply t1 = (whole, t2)" and "turnView u = turnView t2"
      and "(err, res) = (if whole then (urError reply, urResult reply) else (Some (fst (urCut reply)), snd (urCut reply)))"
proof -
  obtain b v where b: "atStep env (\<lambda>now. onServer (beginActiveAccountCall now (tnContext t) (accID (tnAccount t)))) t = (b, v)"
    by fastforce
  from kept_atStep [of env _ t] b have v: "turnView v = turnView t" by (metis snd_conv)
  show thesis
  proof (cases b)
    case (Inl e)
    with assms b v show thesis by (intro refused [of e]) (auto simp: chatActiveWith_def Let_def)
  next
    case (Inr cr)
    then obtain ctx release where cr: "b = Inr (ctx, release)" by (cases cr) auto
    let ?reply = "geUpstream env (length (tnCalls v)) (accID (tnAccount t)) req"
    let ?t1 = "v\<lparr>tnCalls := tnCalls v @ [\<lparr>lcAccount = accID (tnAccount t), lcShown = tnOut v, lcRequest = req\<rparr>]\<rparr>"
    obtain whole t2 where d: "deliver ?reply ?t1 = (whole, t2)" by fastforce
    show thesis
    proof (rule called [of ?t1 ?reply whole t2])
      show "turnView ?t1 = turnView (t\<lparr>tnCalls := tnCalls t @ [\<lparr>lcAccount = accID (tnAccount t), lcShown = tnOut t, lcRequest = req\<rparr>]\<rparr>)"
        using v by (simp add: turnView_def)
      show "deliver ?reply ?t1 = (whole, t2)" by (fact d)
      from assms b cr d show "turnView u = turnView t2"
        by (auto simp: chatActiveWith_def Let_def kept)
      from assms b cr d
      show "(err, res) = (if whole then (urError ?reply, urResult ?reply) else (Some (fst (urCut ?reply)), snd (urCut ?reply)))"
        by (auto simp: chatActiveWith_def Let_def)
    qed
  qed
qed

lemma activateNextAccount_stays:
  assumes "activateNextAccount env tools failure result v t = (False, u)"
  shows "turnView u = turnView t"
proof -
  note def = activateNextAccount_def Let_def
  obtain d t1 where t1: "turnDone env t = (d, t1)" by fastforce
  then have v1: "turnView t1 = turnView t" by (rule keptE [OF kept_turnDone])
  show ?thesis
  proof (cases "d \<or> \<not> shouldFailoverAccount (tnSwitched t1) v failure (quotaFailed env result tools)")
    case True
    with assms t1 v1 show ?thesis by (auto simp: def)
  next
    case go: False
    let ?failure = "if failure = None then Some strictQuotaExhaustedError else failure"
    obtain m t2 where t2: "atStep env (\<lambda>now. onServer (markAccountResult now (accID (tnAccount t1)) ?failure)) t1 = (m, t2)"
      by fastforce
    then have v2: "turnView t2 = turnView t" using keptE [OF kept_atStep t2] v1 by simp
    obtain n t3 where t3: "nextHealthyAccount env t2 = (n, t3)" by fastforce
    then have v3: "turnView t3 = turnView t" using keptE [OF kept_nextHealthyAccount t3] v2 by simp
    show ?thesis
    proof (cases m)
      case False
      with assms t1 go t2 v2 show ?thesis by (auto simp: def)
    next
      case m: True
      show ?thesis
      proof (cases n)
        case (Inl e)
        with assms t1 go t2 m t3 v3 show ?thesis by (auto simp: def)
      next
        case (Inr acc)
        let ?acc = "withIdentity env acc"
        let ?t = "releaseTurn env (tnRelease t3) t3"
        obtain l t4 where t4: "atStep env (\<lambda>now. onServer (beginActiveAccountRequest now \<lparr>ctxRequestLease = None, ctxLeases = []\<rparr> (accID ?acc))) ?t = (l, t4)"
          by fastforce
        have v4: "turnView t4 = turnView t" using keptE [OF kept_atStep t4] v3 by (simp add: kept)
        from assms t1 go t2 m t3 Inr t4 v3 v4 show ?thesis
          by (cases l) (auto simp: def split: if_splits)
      qed
    qed
  qed
qed

lemma activateNextAccount_moves:
  assumes "activateNextAccount env tools failure result v t = (True, u)"
  shows "\<not> tnSwitched t" and "\<not> v" and "tnSwitched u" and "tnCalls u = tnCalls t" and "tnVisible u = tnVisible t"
    and "tnOut u = tnOut t" and "tnWrites u = tnWrites t" and "turn.more u = turn.more t" and "tnPreflight u = tnPreflight t"
proof -
  note def = activateNextAccount_def Let_def
  obtain d t1 where t1: "turnDone env t = (d, t1)" by fastforce
  then have v1: "turnView t1 = turnView t" by (rule keptE [OF kept_turnDone])
  have go: "\<not> d \<and> shouldFailoverAccount (tnSwitched t1) v failure (quotaFailed env result tools)"
    using assms t1 by (auto simp: def split: if_splits)
  let ?failure = "if failure = None then Some strictQuotaExhaustedError else failure"
  obtain m t2 where t2: "atStep env (\<lambda>now. onServer (markAccountResult now (accID (tnAccount t1)) ?failure)) t1 = (m, t2)"
    by fastforce
  then have v2: "turnView t2 = turnView t" using keptE [OF kept_atStep t2] v1 by simp
  have m: m using assms t1 go t2 by (auto simp: def split: bool.splits)
  obtain n t3 where t3: "nextHealthyAccount env t2 = (n, t3)" by fastforce
  then have v3: "turnView t3 = turnView t" using keptE [OF kept_nextHealthyAccount t3] v2 by simp
  obtain acc where acc: "n = Inr acc"
    using assms t1 go t2 m t3 by (cases n) (auto simp: def)
  let ?acc = "withIdentity env acc"
  let ?t = "releaseTurn env (tnRelease t3) t3"
  obtain l t4 where t4: "atStep env (\<lambda>now. onServer (beginActiveAccountRequest now \<lparr>ctxRequestLease = None, ctxLeases = []\<rparr> (accID ?acc))) ?t = (l, t4)"
    by fastforce
  have v4: "turnView t4 = turnView t" using keptE [OF kept_atStep t4] v3 by (simp add: kept)
  obtain ctx release where l: "l = Inr (ctx, release)"
    using assms t1 go t2 m t3 acc t4 by (cases l) (auto simp: def split: if_splits)
  have u: "u = t4\<lparr>tnContext := ctx, tnRelease := release, tnAccount := ?acc, tnActiveID := accID ?acc,
                  tnConversationID := [], tnSessionID := [], tnSwitched := True\<rparr>"
    using assms t1 go t2 m t3 acc t4 l by (auto simp: def split: if_splits)
  from go v1 show "\<not> tnSwitched t" and "\<not> v"
    by (auto simp: shouldFailoverAccount_def turnView_def split: if_splits)
  from u v4 show "tnSwitched u" and "tnCalls u = tnCalls t" and "tnVisible u = tnVisible t"
    and "tnOut u = tnOut t" and "tnWrites u = tnWrites t" and "turn.more u = turn.more t" and "tnPreflight u = tnPreflight t"
    by (simp_all add: turnView_def)
qed

end
