(* ===== verification/TurnBounds.thy ===== *)
theory TurnBounds
  imports TurnLaws
begin

text \<open>
  How many calls a turn makes and on which accounts. turnCost counts the calls and the change of account that is still
  possible; a question costs one, also when it is asked again on the next account.
\<close>

subsection \<open>The invariant\<close>

text \<open>A frame of the stream that brings text of the answer to the client.\<close>

definition textFrame :: "streamFrame \<Rightarrow> bool" where
  "textFrame f =
     (case f of
        Frame v \<Rightarrow>
          list_ex (\<lambda>c. case member (asObject (member (asObject c) ''delta'')) ''content'' of JStr s \<Rightarrow> s \<noteq> [] | _ \<Rightarrow> False)
            (asArray (member (asObject v) ''choices''))
      | _ \<Rightarrow> False)"

text \<open>The client has seen text, or the turn takes it to have.\<close>

definition exposed :: "'a turn_scheme \<Rightarrow> bool" where
  "exposed t \<longleftrightarrow> tnVisible t \<or> list_ex textFrame (tnOut t)"

text \<open>The turn knows when the client has seen text.\<close>

definition heard :: "'a turn_scheme \<Rightarrow> bool" where
  "heard t \<longleftrightarrow> (exposed t \<longrightarrow> tnVisible t)"

text \<open>At most one change of account, to the current one, and not after the client has seen text.\<close>

definition oneSwitch :: "bool \<Rightarrow> string \<Rightarrow> loggedCall list \<Rightarrow> bool" where
  "oneSwitch switched aid calls \<longleftrightarrow>
     (\<exists>old new a. calls = old @ new \<and> list_all (\<lambda>c. lcAccount c = a) old \<and> list_all (\<lambda>c. lcAccount c = aid) new
        \<and> (old \<noteq> [] \<and> new \<noteq> [] \<longrightarrow> \<not> list_ex textFrame (lcShown (hd new))) \<and> (switched \<or> old = []))"

definition turnCost :: "'a turn_scheme \<Rightarrow> nat" where
  "turnCost t = length (tnCalls t) + (if tnSwitched t then 0 else 1)"

definition trail :: "'a turn_scheme \<Rightarrow> bool" where
  "trail t \<longleftrightarrow> oneSwitch (tnSwitched t) (accID (tnAccount t)) (tnCalls t)
     \<and> (tnPreflight t \<longrightarrow> tnSwitched t \<and> list_all (\<lambda>c. lcAccount c = accID (tnAccount t)) (tnCalls t))"

definition settled :: "'a turn_scheme \<Rightarrow> bool" where
  "settled t \<longleftrightarrow> tnCalls t \<noteq> [] \<and> lcAccount (last (tnCalls t)) = accID (tnAccount t)"

definition sound :: "'a turn_scheme \<Rightarrow> bool" where
  "sound t \<longleftrightarrow> trail t \<and> (exposed t \<longrightarrow> settled t)"

definition turnCore :: "'a turn_scheme \<Rightarrow> loggedCall list \<times> accountToken \<times> bool \<times> bool" where
  "turnCore t = (tnCalls t, tnAccount t, tnSwitched t, tnPreflight t)"

lemma view_core: "turnView u = turnView t \<Longrightarrow> turnCore u = turnCore t"
  by (simp add: turnView_def turnCore_def)

lemma view_exposed: "turnView u = turnView t \<Longrightarrow> exposed u = exposed t"
  by (simp add: turnView_def exposed_def)

lemma view_heard: "turnView u = turnView t \<Longrightarrow> heard u = heard t"
  by (simp add: turnView_def heard_def exposed_def)

lemma core_cost: "turnCore u = turnCore t \<Longrightarrow> turnCost u = turnCost t"
  by (simp add: turnCore_def turnCost_def)

lemma core_trail: "turnCore u = turnCore t \<Longrightarrow> trail u = trail t"
  by (simp add: turnCore_def trail_def)

lemma core_settled: "turnCore u = turnCore t \<Longrightarrow> settled u = settled t"
  by (simp add: turnCore_def settled_def)

lemma core_sound: "turnCore u = turnCore t \<Longrightarrow> sound t \<Longrightarrow> exposed u = exposed t \<or> settled t \<Longrightarrow> sound u"
  by (metis sound_def core_trail core_settled)

lemma view_sound: "turnView u = turnView t \<Longrightarrow> sound t \<Longrightarrow> sound u"
  by (meson core_sound view_core view_exposed)

lemma oneSwitch_call:
  assumes "oneSwitch switched aid calls" and "lcAccount c = aid"
    and "\<not> list_ex textFrame (lcShown c) \<or> (calls \<noteq> [] \<and> lcAccount (last calls) = aid)"
  shows "oneSwitch switched aid (calls @ [c])"
proof -
  from assms(1) obtain old new a where d: "calls = old @ new" "list_all (\<lambda>c. lcAccount c = a) old"
    "list_all (\<lambda>c. lcAccount c = aid) new" "old \<noteq> [] \<and> new \<noteq> [] \<longrightarrow> \<not> list_ex textFrame (lcShown (hd new))" "switched \<or> old = []"
    by (auto simp: oneSwitch_def)
  show ?thesis
  proof (cases "new = [] \<and> old \<noteq> [] \<and> list_ex textFrame (lcShown c)")
    case True
    then have "a = aid" using assms(3) d by (cases old rule: rev_cases) auto
    then show ?thesis
      unfolding oneSwitch_def using d assms(2) True
      by (intro exI [of _ "[]"] exI [of _ "calls @ [c]"] exI [of _ aid]) auto
  next
    case False
    then show ?thesis
      unfolding oneSwitch_def using d assms(2)
      by (intro exI [of _ old] exI [of _ "new @ [c]"] exI [of _ a]) (auto simp: hd_append)
  qed
qed

lemma trail_moved:
  assumes "trail t" and "\<not> tnSwitched t" and "tnSwitched u" and "tnCalls u = tnCalls t" and "tnPreflight u = tnPreflight t"
  shows "trail u"
proof -
  from assms obtain a where "list_all (\<lambda>c. lcAccount c = a) (tnCalls t)" and "\<not> tnPreflight t"
    by (auto simp: trail_def oneSwitch_def)
  with assms show ?thesis
    unfolding trail_def oneSwitch_def
    by (intro conjI exI [of _ "tnCalls t"] exI [of _ "[]"] exI [of _ a]) simp_all
qed

subsection \<open>Calls\<close>

lemma chatActiveWith_sound:
  assumes run: "chatActiveWith env deliver req t = ((err, res), u)"
    and keeps: "\<And>r t. turnCore (snd (deliver r t)) = turnCore t" and "sound t"
  shows "sound u" and "turnCost u \<le> turnCost t + 1" and "err = None \<Longrightarrow> settled u" and "tnSwitched u = tnSwitched t"
proof -
  have "sound u \<and> turnCost u \<le> turnCost t + 1 \<and> (err = None \<longrightarrow> settled u) \<and> tnSwitched u = tnSwitched t"
    using run
  proof (cases rule: chatActiveWith_cases)
    case (refused e)
    note core = view_core [OF refused(3)]
    from core have "tnSwitched u = tnSwitched t" by (simp add: turnCore_def)
    with view_sound [OF refused(3) assms(3)] core_cost [OF core] refused(1) show ?thesis by simp
  next
    case (called reply t1 whole t2)
    let ?c = "\<lparr>lcAccount = accID (tnAccount t), lcShown = tnOut t, lcRequest = req\<rparr>"
    have core: "turnCore u = (tnCalls t @ [?c], tnAccount t, tnSwitched t, tnPreflight t)"
      using keeps [of reply t1] called(2) view_core [OF called(1)] view_core [OF called(3)]
      by (simp add: turnCore_def)
    have "trail u"
      using core assms(3)
      by (auto simp: turnCore_def trail_def sound_def settled_def exposed_def intro!: oneSwitch_call)
    moreover have "settled u" using core by (simp add: turnCore_def settled_def)
    ultimately show ?thesis using core by (simp add: sound_def turnCore_def turnCost_def)
  qed
  then show "sound u" and "turnCost u \<le> turnCost t + 1" and "err = None \<Longrightarrow> settled u" and "tnSwitched u = tnSwitched t"
    by auto
qed

lemma chatActive_sound:
  assumes run: "chatActive env req t = ((err, res), u)" and "sound t"
  shows "sound u" and "turnCost u \<le> turnCost t + 1" and "err = None \<Longrightarrow> settled u" and "exposed u = exposed t"
    and "tnSwitched u = tnSwitched t" and "turn.more u = turn.more t" and "tnOut u = tnOut t"
proof -
  note run' = run [unfolded chatActive_def]
  show "sound u" and "turnCost u \<le> turnCost t + 1" and "err = None \<Longrightarrow> settled u" and "tnSwitched u = tnSwitched t"
    using chatActiveWith_sound [OF run' _ assms(2)] by simp_all
  from run' show "exposed u = exposed t" and "turn.more u = turn.more t" and "tnOut u = tnOut t"
    by (cases rule: chatActiveWith_cases; simp add: turnView_def exposed_def)+
qed

lemma activate_sound:
  assumes run: "activateNextAccount env tools failure result v t = (b, u)" and "sound t" and "v \<or> \<not> exposed t"
  shows "sound u" and "turnCost u + (if b then 1 else 0) = turnCost t" and "exposed u = exposed t"
    and "turn.more u = turn.more t"
proof -
  have "sound u \<and> turnCost u + (if b then 1 else 0) = turnCost t \<and> exposed u = exposed t \<and> turn.more u = turn.more t"
  proof (cases b)
    case False
    with run have v: "turnView u = turnView t" by (auto dest: activateNextAccount_stays)
    then show ?thesis
      using False view_sound [OF v assms(2)] core_cost [OF view_core [OF v]] view_exposed [OF v]
      by (simp add: turnView_def)
  next
    case True
    with run have r: "activateNextAccount env tools failure result v t = (True, u)" by simp
    note m = activateNextAccount_moves [OF r]
    have "trail u" using trail_moved [of t u] m assms(2) by (simp add: sound_def)
    moreover have "exposed u = exposed t" using m by (simp add: exposed_def)
    ultimately show ?thesis using m assms(3) True by (simp add: sound_def turnCost_def)
  qed
  then show "sound u" and "turnCost u + (if b then 1 else 0) = turnCost t" and "exposed u = exposed t"
    and "turn.more u = turn.more t" by auto
qed

subsection \<open>Frames\<close>

lemma sendFrame_core [simp]: "turnCore (snd (sendFrame env f t)) = turnCore t"
  by (simp add: sendFrame_def turnCore_def)

lemma sendFrame_exposed: "\<not> textFrame f \<Longrightarrow> exposed (snd (sendFrame env f t)) = exposed t"
  by (simp add: sendFrame_def exposed_def)

lemma sendFrames_core [simp]: "turnCore (snd (sendFrames env fs t)) = turnCore t"
proof (induction fs arbitrary: t)
  case Nil
  then show ?case by simp
next
  case (Cons f fs)
  obtain b u where "sendFrame env f t = (b, u)" by fastforce
  then show ?case using Cons [of u] sendFrame_core [of env f t] by (cases b) simp_all
qed

lemma sendFrames_exposed:
  "list_all (\<lambda>f. \<not> textFrame f) fs \<Longrightarrow> exposed (snd (sendFrames env fs t)) = exposed t"
proof (induction fs arbitrary: t)
  case Nil
  then show ?case by simp
next
  case (Cons f fs)
  obtain b u where "sendFrame env f t = (b, u)" by fastforce
  then show ?case using Cons.IH [of u] Cons.prems sendFrame_exposed [of f env t] by (cases b) simp_all
qed

lemma tryFrames_core [simp]: "turnCore (tryFrames env fs t) = turnCore t"
  by (induction fs arbitrary: t) (simp_all add: tryFrames_def)

lemma tryFrames_exposed: "list_all (\<lambda>f. \<not> textFrame f) fs \<Longrightarrow> exposed (tryFrames env fs t) = exposed t"
  by (induction fs arbitrary: t) (simp_all add: tryFrames_def sendFrame_exposed)

lemma failStream_core [simp]: "turnCore (failStream env m ty co t) = turnCore t"
  by (simp add: failStream_def)

lemma failStream_exposed [simp]: "exposed (failStream env m ty co t) = exposed t"
  unfolding failStream_def by (rule tryFrames_exposed) (simp add: textFrame_def errorFrame_def asObject_def asArray_def getOr_def)

lemma toolReplyFrames_quiet: "list_all (\<lambda>f. \<not> textFrame f) (toolReplyFrames env task calls)"
  by (auto simp: toolReplyFrames_def toolFrames_def lengthFrames_def textFrame_def roleChunk_def callChunk_def chatChunk_def
      asObject_def asArray_def getOr_def list_all_iff)

lemma toolReplyFrames_exposed [simp]:
  "exposed (snd (sendFrames env (toolReplyFrames env task calls) t)) = exposed t"
  by (rule sendFrames_exposed [OF toolReplyFrames_quiet])

subsection \<open>Routing\<close>

text \<open>Nothing is shown to the client while the request is routed.\<close>

definition unheard :: "'a turn_scheme \<Rightarrow> bool" where
  "unheard t \<longleftrightarrow> sound t \<and> \<not> exposed t"

text \<open>A unheard part of the turn that costs at most k calls.\<close>

definition costs :: "nat \<Rightarrow> 'a turn_scheme \<Rightarrow> 'a turn_scheme \<Rightarrow> bool" where
  "costs k t u \<longleftrightarrow> (unheard t \<longrightarrow> unheard u \<and> turnCost u \<le> turnCost t + k)"

lemma costs_trans: "costs j t u \<Longrightarrow> costs k u v \<Longrightarrow> j + k \<le> n \<Longrightarrow> costs n t v"
  by (fastforce simp: costs_def)

lemma costs_core: "turnCore u = turnCore t \<Longrightarrow> exposed u = exposed t \<Longrightarrow> costs k t u"
  unfolding costs_def unheard_def by (metis core_sound core_cost le_add1)

lemma costs_view: "turnView u = turnView t \<Longrightarrow> costs k t u"
  by (rule costs_core [OF view_core view_exposed])

lemma costs_mono: "costs j t u \<Longrightarrow> j \<le> k \<Longrightarrow> costs k t u"
  by (fastforce simp: costs_def)

lemma askRouter_costs: "askRouter env task x t = (r, u) \<Longrightarrow> costs 1 t u"
proof (unfold costs_def unheard_def, intro impI, elim conjE)
  assume run: "askRouter env task x t = (r, u)" and t: "sound t" "\<not> exposed t"
  let ?req = "plainCall x (tkRouterTone task)"
  obtain err res t1 where c: "chatActive env ?req t = ((err, res), t1)" by (metis surj_pair)
  note c1 = chatActive_sound [OF c t(1)]
  show "(sound u \<and> \<not> exposed u) \<and> turnCost u \<le> turnCost t + 1"
  proof (cases err)
    case None
    with run c c1 t(2) show ?thesis by (simp add: askRouter_def)
  next
    case (Some e)
    obtain b t2 where a: "activateNextAccount env (oqTools (tkBody task)) (Some e) emptyResult False t1 = (b, t2)"
      by fastforce
    note a1 = activate_sound [OF a c1(1)]
    show ?thesis
    proof (cases b)
      case False
      with run c Some a a1 c1 t(2) show ?thesis by (auto simp: askRouter_def)
    next
      case True
      obtain err' res' where c': "chatActive env ?req t2 = ((err', res'), u)"
        using run c Some a True by (cases r) (simp add: askRouter_def)
      note c2 = chatActive_sound [OF c' a1(1)]
      from c2 a1 c1 t(2) True show ?thesis by simp
    qed
  qed
qed

lemma decideTool_costs:
  assumes "decideTool env task repair t = (r, u)"
  shows "costs 2 t u"
proof -
  obtain err res t1 where a: "askRouter env task (routePromptOf task) t = ((err, res), t1)" by (metis surj_pair)
  have 1: "costs 1 t t1" by (rule askRouter_costs [OF a])
  obtain r2 t2 where b: "askRouter env task (repair @ compactToolResult (crText res) 6000) t1 = (r2, t2)" by fastforce
  have 2: "costs 2 t t2" by (rule costs_trans [OF 1 askRouter_costs [OF b]]) simp
  have "u = t1 \<or> u = t2"
    using assms a b by (auto simp: decideTool_def split: option.splits prod.splits)
  with 1 2 show ?thesis by (auto intro: costs_mono)
qed

lemma retryRequired_costs:
  assumes "retryRequired env task t = (r, u)"
  shows "costs 1 t u"
proof -
  obtain r1 t1 where a: "askRouter env task (modelToolRequiredRetryPrompt (tkRouterInput task) (tkToolMaps task) (tkChoice task)) t = (r1, t1)"
    by fastforce
  have "u = t1" using assms a by (auto simp: retryRequired_def split: option.splits prod.splits)
  with askRouter_costs [OF a] show ?thesis by simp
qed

lemma streamRetry_costs:
  assumes "streamRetry env task d t = (r, u)"
  shows "costs 1 t u"
proof -
  obtain r1 t1 where a: "retryRequired env task t = (r1, t1)" by fastforce
  have "u = t1 \<or> u = t"
    using assms a by (auto simp: streamRetry_def split: if_splits option.splits prod.splits list.splits)
  with retryRequired_costs [OF a] show ?thesis by (auto intro: costs_view)
qed

lemma routeStream_costs:
  assumes run: "routeStream env task t = (b, u)"
  shows "costs 3 t u"
proof (cases "routingNeeded env task")
  case False
  with run show ?thesis by (auto simp: routeStream_def intro: costs_view)
next
  case True
  obtain d t1 where d: "decideTool env task streamRepairPrompt t = (d, t1)" by fastforce
  have 1: "costs 2 t t1" by (rule decideTool_costs [OF d])
  show ?thesis
  proof (cases d)
    case (Inl e)
    have "u = failStream env (''tool router: '' @ errText e) ''upstream_error'' ''upstream_error''
                (markTerminalFailure env (tkPrompt task) e t1)"
      using run True d Inl by (simp add: routeStream_def)
    then have "costs 0 t1 u"
      by (intro costs_core) (simp_all add: view_core [OF kept_markTerminalFailure] view_exposed [OF kept_markTerminalFailure])
    with 1 show ?thesis by (rule costs_trans) simp
  next
    case (Inr decided)
    obtain calls res t2 where s: "streamRetry env task decided t1 = ((calls, res), t2)" by (metis surj_pair)
    have 2: "costs 3 t t2" by (rule costs_trans [OF 1 streamRetry_costs [OF s]]) simp
    obtain ok t3 where p: "persistRouted env task t2 = (ok, t3)" by fastforce
    have v3: "turnView t3 = turnView t2" by (rule keptE [OF kept_persistRouted p])
    have "turnCore u = turnCore t2 \<and> exposed u = exposed t2"
    proof (cases "calls = None \<or> calls = Some []")
      case True
      with run \<open>routingNeeded env task\<close> d Inr s show ?thesis
        by (auto simp: routeStream_def split: if_splits)
    next
      case False
      then obtain c cs where "calls = Some (c # cs)" by (cases calls) (auto simp: neq_Nil_conv)
      with run \<open>routingNeeded env task\<close> d Inr s p have "u = (if ok
          then snd (sendFrames env (toolReplyFrames env task (scopedCalls env task '':stream'' (c # cs))) (markTurnSuccess env t3))
          else failPersist env t3)"
        by (simp add: routeStream_def split: bool.splits)
      then show ?thesis
        by (simp add: failPersist_def view_core [OF v3] view_exposed [OF v3] view_core [OF kept_markTurnSuccess]
            view_exposed [OF kept_markTurnSuccess])
    qed
    then have "costs 0 t2 u" by (simp add: costs_core)
    with 2 show ?thesis by (rule costs_trans) simp
  qed
qed

lemma routedReply_view: "turnView (snd (routedReply env task tag calls res t)) = turnView t"
proof -
  obtain ok u where p: "persistRouted env task t = (ok, u)" by fastforce
  have "turnView u = turnView t" by (rule keptE [OF kept_persistRouted p])
  with p show ?thesis by (simp add: routedReply_def split: bool.splits)
qed

lemma routeSync_costs:
  assumes run: "routeSync env task t = (r, u)"
  shows "costs 3 t u"
proof (cases "routingNeeded env task")
  case False
  with run show ?thesis by (auto simp: routeSync_def intro: costs_view)
next
  case needed: True
  obtain d t1 where d: "decideTool env task syncRepairPrompt t = (d, t1)" by fastforce
  have 1: "costs 2 t t1" by (rule decideTool_costs [OF d])
  obtain calls res t2 where q: "retryRequired env task t1 = ((calls, res), t2)" by (metis surj_pair)
  have 2: "costs 3 t t2" by (rule costs_trans [OF 1 retryRequired_costs [OF q]]) simp
  have "turnView u = turnView t1 \<or> turnView u = turnView t2"
  proof (cases d)
    case (Inl e)
    with run needed d show ?thesis by (simp add: routeSync_def)
  next
    case (Inr dr)
    obtain p res0 where dr: "dr = (p, res0)" by fastforce
    show ?thesis
    proof (cases p)
      case None
      with run needed d Inr dr show ?thesis by (simp add: routeSync_def)
    next
      case (Some cs)
      show ?thesis
      proof (cases cs)
        case (Cons c cs')
        with run needed d Inr dr Some have "u = snd (routedReply env task [] (c # cs') res0 t1)"
          by (cases "routedReply env task [] (c # cs') res0 t1") (simp add: routeSync_def)
        then show ?thesis by (simp add: routedReply_view)
      next
        case Nil
        note eq = run needed d Inr dr Some Nil q
        show ?thesis
        proof (cases "map_option (filterRepeatedCalls env task) calls = None \<or> map_option (filterRepeatedCalls env task) calls = Some []")
          case True
          with eq show ?thesis by (auto simp: routeSync_def split: if_splits)
        next
          case False
          then obtain c cs' where c: "map_option (filterRepeatedCalls env task) calls = Some (c # cs')"
            by (cases "map_option (filterRepeatedCalls env task) calls") (auto simp: neq_Nil_conv)
          with eq have "u = t1 \<or> u = snd (routedReply env task '':required-retry'' (c # cs') res t2)"
            by (cases "routedReply env task '':required-retry'' (c # cs') res t2") (auto simp: routeSync_def split: if_splits)
          then show ?thesis by (auto simp: routedReply_view)
        qed
      qed
    qed
  qed
  then show ?thesis
  proof
    assume "turnView u = turnView t1"
    then show ?thesis by (intro costs_trans [OF 1 costs_view [of u t1 1]]) simp_all
  next
    assume "turnView u = turnView t2"
    then show ?thesis by (intro costs_trans [OF 2 costs_view [of u t2 0]]) simp_all
  qed
qed

end
