(* ===== verification/TurnSpend.thy ===== *)
theory TurnSpend
  imports TurnBounds
begin

text \<open>
  The calls of an answer: one question, one resumption, four continuations; and those of the whole handler.
\<close>

subsection \<open>The streamed answer\<close>

lemma openAnswer_keeps [simp]:
  "tnCalls (openAnswer t) = tnCalls t" "tnSwitched (openAnswer t) = tnSwitched t" "tnAccount (openAnswer t) = tnAccount t"
  "tnVisible (openAnswer t) = tnVisible t" "tnPreflight (openAnswer t) = tnPreflight t" "tnOut (openAnswer t) = tnOut t" "anWriteFailed (openAnswer t) = False"
  by (simp_all add: openAnswer_def turn.defs answerTurn.defs)

lemma truncate_keeps [simp]:
  "tnCalls (turn.truncate t) = tnCalls t" "tnSwitched (turn.truncate t) = tnSwitched t"
  "tnAccount (turn.truncate t) = tnAccount t" "tnVisible (turn.truncate t) = tnVisible t" "tnOut (turn.truncate t) = tnOut t"
  "tnPreflight (turn.truncate t) = tnPreflight t"
  by (simp_all add: turn.defs)

lemma exposed_openAnswer [simp]: "exposed (openAnswer t) = exposed t"
  by (simp add: exposed_def)

lemma exposed_update [simp]:
  "exposed (t\<lparr>anGuard := g\<rparr>) = exposed t" "exposed (t\<lparr>anNext := g\<rparr>) = exposed t" "exposed (t\<lparr>anFirst := b\<rparr>) = exposed t"
  by (simp_all add: exposed_def)

lemma heard_update [simp]:
  "heard (t\<lparr>anGuard := g\<rparr>) = heard t" "heard (t\<lparr>anNext := g\<rparr>) = heard t" "heard (t\<lparr>anFirst := b\<rparr>) = heard t"
  by (simp_all add: heard_def exposed_def)

lemma core_update [simp]:
  "turnCore (t\<lparr>anGuard := g\<rparr>) = turnCore t" "turnCore (t\<lparr>anNext := g\<rparr>) = turnCore t" "turnCore (t\<lparr>anFirst := b\<rparr>) = turnCore t"
  "turnCore (t\<lparr>anDelivered := d\<rparr>) = turnCore t" "turnCore (t\<lparr>anWriteFailed := b\<rparr>) = turnCore t"
  "turnCore (t\<lparr>anLimitReached := b\<rparr>) = turnCore t" "turnCore (t\<lparr>tnVisible := b\<rparr>) = turnCore t"
  by (simp_all add: turnCore_def)

lemma emitAnswerDelta_core: "turnCore (snd (emitAnswerDelta env task c t)) = turnCore t"
proof -
  obtain rel held g where f: "Feed c (anGuard t) = ((rel, held), g)" by (metis surj_pair)
  obtain c' r where w: "withinLimit env task (anDelivered t) rel = (c', r)" by fastforce
  let ?t = "t\<lparr>anGuard := g, anLimitReached := r, anDelivered := anDelivered t @ c'\<rparr>"
  obtain b u where s: "sendFrame env (Frame (answerChunk env task (tnVisible t) c')) ?t = (b, u)" by fastforce
  have "turnCore u = turnCore t" using sendFrame_core [of env _ ?t] s by (metis snd_conv core_update)
  with f w s show ?thesis by (cases b) (simp_all add: emitAnswerDelta_def Let_def)
qed

text \<open>A delta that brings text to the client is noted.\<close>

lemma emitAnswerDelta_heard: "heard t \<Longrightarrow> heard (snd (emitAnswerDelta env task c t))"
  by (auto simp: emitAnswerDelta_def Let_def sendFrame_def heard_def exposed_def split: prod.splits)

lemma continuationDelta_core: "turnCore (snd (continuationDelta env task c t)) = turnCore t"
proof -
  obtain rel held g where f: "Feed c (anNext t) = ((rel, held), g)" by (metis surj_pair)
  let ?t = "t\<lparr>anNext := g, anFirst := False\<rparr>"
  obtain b u where e: "emitAnswerDelta env task newline ?t = (b, u)" by fastforce
  have "turnCore u = turnCore t" using emitAnswerDelta_core [of env task newline ?t] e by simp
  with f e show ?thesis
    by (cases b) (simp_all add: continuationDelta_def Let_def emitAnswerDelta_core)
qed

lemma feedDeltas_core:
  assumes "\<And>d t. turnCore (snd (h d t)) = turnCore t"
  shows "turnCore (snd (feedDeltas h ds t)) = turnCore t"
proof (induction ds arbitrary: t)
  case Nil
  then show ?case by simp
next
  case (Cons d ds)
  obtain b u where "h d t = (b, u)" by fastforce
  then show ?case using Cons [of u] assms [of d t] by (cases b) simp_all
qed

lemma deltaCall_sound:
  assumes "chatActiveWithDelta env h req t = ((err, res), u)" and "\<And>d t. turnCore (snd (h d t)) = turnCore t" and "sound t"
  shows "sound u" and "turnCost u \<le> turnCost t + 1" and "err = None \<Longrightarrow> settled u" and "tnSwitched u = tnSwitched t"
  using chatActiveWith_sound [OF assms(1) [unfolded chatActiveWithDelta_def] feedDeltas_core [OF assms(2)] assms(3)] by simp_all

lemma feedDeltas_heard:
  assumes "\<And>d t. heard t \<Longrightarrow> heard (snd (h d t))"
  shows "heard t \<Longrightarrow> heard (snd (feedDeltas h ds t))"
proof (induction ds arbitrary: t)
  case Nil
  then show ?case by simp
next
  case (Cons d ds)
  obtain b u where "h d t = (b, u)" by fastforce
  then show ?case using Cons.IH [of u] Cons.prems assms [of t d] by (cases b) simp_all
qed

lemma deltaCall_heard:
  assumes run: "chatActiveWithDelta env h req t = (r, u)" and keeps: "\<And>d t. heard t \<Longrightarrow> heard (snd (h d t))" and "heard t"
  shows "heard u"
proof -
  obtain err res where "r = (err, res)" by fastforce
  then have "chatActiveWith env (\<lambda>reply. feedDeltas h (urDeltas reply)) req t = ((err, res), u)"
    using run by (simp add: chatActiveWithDelta_def)
  then show ?thesis
  proof (cases rule: chatActiveWith_cases)
    case (refused e)
    with view_heard assms(3) show ?thesis by blast
  next
    case (called reply t1 whole t2)
    have "heard t1" using view_heard [OF called(1)] assms(3) by (simp add: heard_def exposed_def)
    then have "heard t2" using feedDeltas_heard [of h t1 "urDeltas reply", OF keeps] called(2) by simp
    with view_heard [OF called(3)] show ?thesis by simp
  qed
qed

lemma firstAnswer_sound:
  assumes run: "firstAnswer env task t = ((err, res), u)" and "sound t" and "heard t"
  shows "sound u" and "turnCost u \<le> turnCost t + 1" and "err = None \<Longrightarrow> settled u"
proof -
  let ?req = "streamRequest env task t"
  obtain err1 res1 t1 where c: "chatActiveWithDelta env (emitAnswerDelta env task) ?req t = ((err1, res1), t1)" by (metis surj_pair)
  note c1 = deltaCall_sound [OF c emitAnswerDelta_core assms(2)]
  have h1: "heard t1" by (rule deltaCall_heard [OF c emitAnswerDelta_heard assms(3)])
  have "sound u \<and> turnCost u \<le> turnCost t + 1 \<and> (err = None \<longrightarrow> settled u)"
  proof (cases "anWriteFailed t1")
    case True
    with run c c1 show ?thesis by (simp add: firstAnswer_def)
  next
    case wf: False
    obtain gone t2 where g: "clientGone env t1 = (gone, t2)" by fastforce
    have v2: "turnView t2 = turnView t1" by (rule keptE [OF kept_clientGone g])
    note core2 = view_core [OF v2]
    have h2: "tnVisible t2 \<or> \<not> exposed t2" using h1 view_heard [OF v2] by (auto simp: heard_def)
    have s2: "sound t2" by (rule view_sound [OF v2 c1(1)])
    show ?thesis
    proof (cases gone)
      case True
      with run c wf g c1 s2 core_cost [OF core2] core_settled [OF core2] show ?thesis by (simp add: firstAnswer_def)
    next
      case False
      obtain b t3 where a: "activateNextAccount env (offeredTools task) err1 res1 (tnVisible t2) t2 = (b, t3)" by fastforce
      note a3 = activate_sound [OF a s2 h2]
      show ?thesis
      proof (cases b)
        case True
        let ?req' = "?req\<lparr>ucConversationID := [], ucSessionID := [],
                          ucText := orElse (rebuiltPrompt env task streamAnswerRule) (ucText ?req)\<rparr>"
        let ?t = "t3\<lparr>anGuard := resetGuard (anGuard t3)\<rparr>"
        have again: "chatActiveWithDelta env (emitAnswerDelta env task) ?req' ?t = ((err, res), u)"
          using run c wf g False a True by (simp add: firstAnswer_def Let_def)
        have "sound ?t" by (rule core_sound [OF _ a3(1)]) simp_all
        note c4 = deltaCall_sound [OF again emitAnswerDelta_core this]
        have "turnCost ?t = turnCost t3" by (rule core_cost) simp
        with c4 a3(2) True c1(2) core_cost [OF core2] show ?thesis by simp
      next
        case stay: False
        with a have v3: "turnView t3 = turnView t2" by (auto dest: activateNextAccount_stays)
        have "settled t3 = settled t1" using core_settled [OF view_core [OF v3]] core_settled [OF core2] by simp
        with run c wf g False a stay a3 c1 core_cost [OF core2] show ?thesis by (simp add: firstAnswer_def)
      qed
    qed
  qed
  then show "sound u" and "turnCost u \<le> turnCost t + 1" and "err = None \<Longrightarrow> settled u" by auto
qed

text \<open>The outcome of a step that may go on with the answer: it goes on only when the last call was on this account.\<close>

definition answeredWithin :: "nat \<Rightarrow> 'a turn_scheme \<Rightarrow> bool \<Rightarrow> 'a turn_scheme \<Rightarrow> bool" where
  "answeredWithin k t goesOn u \<longleftrightarrow> trail u \<and> turnCost u \<le> turnCost t + k \<and> (goesOn \<longrightarrow> settled u)"

lemma answeredWithin_core: "turnCore v = turnCore u \<Longrightarrow> answeredWithin k t b u \<Longrightarrow> answeredWithin k t b v"
  by (metis answeredWithin_def core_cost core_settled core_trail)

lemma sound_settled: "sound t \<Longrightarrow> trail t" "trail t \<Longrightarrow> settled t \<Longrightarrow> sound t"
  by (simp_all add: sound_def)

lemma resumeAnswer_answeredWithin:
  assumes run: "resumeAnswer env task err res t = (r, u)" and "sound t"
  shows "answeredWithin 1 t (\<exists>res'. r = Some (None, res')) u"
proof -
  let ?req = "(plainCall (visibleStreamResumePrompt (anDelivered t)) (tkTone task))
                \<lparr>ucConversationID := uxConversationID res, ucSessionID := uxSessionID res\<rparr>"
  obtain rerr resume t1 where c: "chatActive env ?req t = ((rerr, resume), t1)" by (metis surj_pair)
  note c1 = chatActive_sound [OF c assms(2)]
  let ?rerr = "if rerr = None \<and> quotaFailed env resume [] then Some strictQuotaExhaustedError else rerr"
  let ?cont = "trimContinuationOverlap (anDelivered t) (crText resume)"
  obtain b t2 where e: "(if ?cont = [] then (True, t1) else emitAnswerDelta env task ?cont t1) = (b, t2)" by fastforce
  have core2: "turnCore t2 = turnCore t1"
    using e emitAnswerDelta_core [of env task ?cont t1] by (auto split: if_splits)
  show ?thesis
  proof (cases "?rerr = None \<and> \<not> blank (crText resume)")
    case True
    then have "rerr = None" by (auto split: if_splits)
    moreover have "u = t2"
      using run c True e by (auto simp: resumeAnswer_def Let_def split: bool.splits)
    ultimately show ?thesis
      using c1 core_cost [OF core2] core_trail [OF core2] core_settled [OF core2] by (simp add: answeredWithin_def sound_def)
  next
    case False
    then have "u = t1 \<and> (\<forall>res'. r \<noteq> Some (None, res'))"
      using run c by (cases ?rerr) (auto simp: resumeAnswer_def Let_def)
    with c1 show ?thesis by (simp add: answeredWithin_def sound_def)
  qed
qed

lemma recoverAnswer_answeredWithin:
  assumes run: "recoverAnswer env task (err, res) t = (r, u)" and "sound t" and "err = None \<Longrightarrow> settled t"
  shows "answeredWithin 1 t (\<exists>res'. r = Some (None, res')) u"
proof (cases err)
  case None
  with run assms(2,3) show ?thesis by (auto simp: recoverAnswer_def answeredWithin_def sound_def)
next
  case (Some e)
  obtain gone t1 where g: "clientGone env t = (gone, t1)" by fastforce
  have v1: "turnView t1 = turnView t" by (rule keptE [OF kept_clientGone g])
  have s1: "sound t1" by (rule view_sound [OF v1 assms(2)])
  note core1 = view_core [OF v1]
  show ?thesis
  proof (cases "(anLimitReached t \<and> tnVisible t) \<or> \<not> tnVisible t \<or> anWriteFailed t")
    case True
    with run Some assms(2) show ?thesis
      by (auto simp: recoverAnswer_def answeredWithin_def sound_def exposed_def split: if_splits)
  next
    case False
    note early = this
    show ?thesis
    proof (cases "\<not> gone \<and> offeredTools task = [] \<and> IsTransientUpstream (Some e) \<and> uxConversationID res \<noteq> [] \<and> uxSessionID res \<noteq> []")
      case True
      then have "resumeAnswer env task e res t1 = (r, u)"
        using run Some early g by (auto simp: recoverAnswer_def)
      from resumeAnswer_answeredWithin [OF this s1] show ?thesis
        using core_cost [OF core1] by (simp add: answeredWithin_def)
    next
      case False
      then have "u = t1 \<and> (\<forall>res'. r \<noteq> Some (None, res'))"
        using run Some early g by (cases gone) (auto simp: recoverAnswer_def)
      with s1 core_cost [OF core1] show ?thesis by (simp add: answeredWithin_def sound_def)
    qed
  qed
qed

lemma answeredWithin_trans:
  assumes "answeredWithin j t True u" and "sound u \<Longrightarrow> answeredWithin k u b v"
  shows "answeredWithin (j + k) t b v"
  using assms sound_settled(2) [of u] by (fastforce simp: answeredWithin_def)

lemma answeredWithin_stop: "answeredWithin k t True u \<Longrightarrow> turnCore v = turnCore u \<Longrightarrow> answeredWithin k t b v"
  by (metis answeredWithin_core answeredWithin_def)

lemma continueAnswer_answeredWithin:
  assumes "continueAnswer n env task seg res t = (r, u)" and "sound t" and "settled t"
  shows "answeredWithin n t (r \<noteq> None) u"
  using assms
proof (induction n arbitrary: seg res t)
  case 0
  then show ?case by (auto simp: answeredWithin_def sound_def)
next
  case (Suc n)
  let ?t = "t\<lparr>anNext := freshGuard, anFirst := True\<rparr>"
  obtain err cont t1 where c: "chatActiveWithDelta env (continuationDelta env task) (continueRequest task res) ?t = ((err, cont), t1)"
    by (metis surj_pair)
  have core0: "turnCore ?t = turnCore t" by simp
  have "sound ?t" using core_sound [OF core0 Suc.prems(2)] Suc.prems(3) by simp
  note c1 = deltaCall_sound [OF c continuationDelta_core this]
  show ?case
  proof (cases "turnTokens env task seg < outputSoftCapTokens \<or> anLimitReached t")
    case True
    with Suc.prems show ?thesis by (auto simp: answeredWithin_def sound_def)
  next
    case go: False
    show ?thesis
    proof (cases "err \<noteq> None \<or> blank (crText cont) \<or> isPlaceholderResult cont")
      case True
      have u: "r = Some (res, True) \<and> u = (case (if isPlaceholderResult cont then Some strictQuotaExhaustedError else err) of
                     Some e \<Rightarrow> recordFailure env e t1 | None \<Rightarrow> t1)"
        using Suc.prems(1) go c True by (auto simp: Let_def)
      then have core: "turnCore u = turnCore t1"
        by (auto split: option.splits simp: view_core [OF kept_recordFailure])
      have "settled t1"
      proof (cases err)
        case None
        then show ?thesis using c1 by simp
      next
        case (Some e)
        show ?thesis
          using c [unfolded chatActiveWithDelta_def]
        proof (cases rule: chatActiveWith_cases)
          case (refused e')
          with Suc.prems(3) core0 show ?thesis by (metis core_settled view_core)
        next
          case (called reply v whole w)
          have "turnCore t1 = turnCore v"
            using view_core [OF called(3)] called(2) feedDeltas_core [of "continuationDelta env task" "urDeltas reply" v, OF continuationDelta_core] by simp
          moreover have "settled v" using view_core [OF called(1)] by (simp add: turnCore_def settled_def)
          ultimately show ?thesis using core_settled by blast
        qed
      qed
      with c1 core_cost [OF core0] show ?thesis
        by (intro answeredWithin_core [OF core]) (simp add: answeredWithin_def sound_def)
    next
      case ok: False
      obtain pending g where f: "finishGuard False (anNext t1) = (pending, g)" by fastforce
      let ?t1 = "t1\<lparr>anNext := g\<rparr>"
      obtain b t2 where e: "(if pending = [] then (True, ?t1) else continuationDelta env task pending ?t1) = (b, t2)"
        by fastforce
      have core2: "turnCore t2 = turnCore t1"
        using e continuationDelta_core [of env task pending ?t1] by (auto split: if_splits)
      from ok c1 have "settled t1" and "trail t1" by (simp_all add: sound_def)
      then have s2: "settled t2" and t2: "trail t2"
        using core_settled [OF core2] core_trail [OF core2] by simp_all
      have cost2: "turnCost t2 \<le> turnCost t + 1" using c1(2) core_cost [OF core2] core_cost [OF core0] by simp
      have base: "answeredWithin 1 t True t2" using s2 t2 cost2 by (simp add: answeredWithin_def)
      let ?res = "appendResult (joinTexts res cont) cont"
      show ?thesis
      proof (cases b)
        case False
        with Suc.prems(1) go c ok f e have "r = None \<and> u = t2" by (simp add: Let_def)
        with base show ?thesis by (auto simp: answeredWithin_def)
      next
        case True
        show ?thesis
        proof (cases "n = 0 \<and> turnTokens env task (crFullText cont) \<ge> outputSoftCapTokens")
          case True
          with Suc.prems(1) go c ok f e \<open>b\<close> have "r = Some (?res, True) \<and> u = t2" by (simp add: Let_def)
          with base show ?thesis by (auto simp: answeredWithin_def)
        next
          case False
          with Suc.prems(1) go c ok f e \<open>b\<close>
          have "continueAnswer n env task (crFullText cont) ?res t2 = (r, u)" by (auto simp: Let_def split: if_splits)
          from Suc.IH [OF this] s2 sound_settled(2) [OF t2 s2] have "answeredWithin n t2 (r \<noteq> None) u" by simp
          with base show ?thesis using answeredWithin_trans [of 1 t t2 n "r \<noteq> None" u] by simp
        qed
      qed
    qed
  qed
qed

lemma settleTurn_core [simp]: "turnCore (snd (settleTurn env task res c t)) = turnCore t"
  by (rule view_core [OF kept_settleTurn])

lemma gatedAnswer_core [simp]: "turnCore (snd (gatedAnswer env task calls res t)) = turnCore t"
  by (simp add: gatedAnswer_def split: prod.splits)

lemma affordedCalls_core [simp]: "turnCore (snd (affordedCalls env task calls t)) = turnCore t"
  by (simp add: affordedCalls_def Let_def)

lemma failPersist_core [simp]: "turnCore (failPersist env t) = turnCore t"
  by (simp add: failPersist_def)

lemma core_of: "turnCore (snd p) = turnCore t \<Longrightarrow> p = (x, u) \<Longrightarrow> turnCore u = turnCore t"
  by simp

lemma deliverAnswer_core: "turnCore (deliverAnswer env task res incomplete t) = turnCore t"
proof -
  let ?res = "res\<lparr>crText := fst (clipText env task (crText res)), crFullText := fst (clipText env task (crFullText res))\<rparr>"
  obtain late del where l: "backfillTerminalStreamText (crText ?res) (anDelivered t) (offeredTools task \<noteq> []) = (late, del)"
    by fastforce
  let ?t = "t\<lparr>anDelivered := del\<rparr>"
  obtain b t1 where e: "(case late of Some x \<Rightarrow> emitAnswerDelta env task x ?t | None \<Rightarrow> (True, ?t)) = (b, t1)" by fastforce
  have 1: "turnCore t1 = turnCore t"
    using e emitAnswerDelta_core [of env task _ ?t] by (cases late) (auto dest: core_of [OF emitAnswerDelta_core])
  let ?calls = "limitToolCalls (nativeToolCalls (geTool env) (crEvents ?res) (offeredTools task)) (callLimit env (tkBody task))"
  obtain res2 t2 where g: "gatedAnswer env task ?calls ?res t1 = (res2, t2)" by fastforce
  obtain calls t3 where a: "affordedCalls env task ?calls t2 = (calls, t3)" by fastforce
  obtain c t4 where s: "sendFrames env (answerFrames env task calls t3) t3 = (c, t4)" by fastforce
  obtain d t5 where p: "settleTurn env task res2 (anLimitReached t4) t4 = (d, t5)" by fastforce
  have 4: "turnCore t4 = turnCore t" and 5: "turnCore t5 = turnCore t"
    using 1 core_of [OF gatedAnswer_core g] core_of [OF affordedCalls_core a] core_of [OF sendFrames_core s]
      core_of [OF settleTurn_core p] by simp_all
  show ?thesis
    using l e g a s p 1 4 5 by (auto simp: deliverAnswer_def Let_def simp del: sendFrames.simps split: bool.splits)
qed

lemma failUpstream_core: "turnCore (failUpstream env task e t) = turnCore t"
proof -
  obtain gone t1 where g: "clientGone env t = (gone, t1)" by fastforce
  have "turnCore t1 = turnCore t" by (rule view_core [OF keptE [OF kept_clientGone g]])
  with g show ?thesis
    by (cases gone) (simp_all add: failUpstream_def view_core [OF kept_markTerminalFailure])
qed

lemma flushGuard_core: "turnCore (snd (flushGuard env task t)) = turnCore t"
  by (simp add: flushGuard_def Let_def emitAnswerDelta_core split: prod.splits)

lemma streamAnswer_answeredWithin:
  assumes "sound t" and "heard t"
  shows "answeredWithin 6 t False (streamAnswer env task t)"
proof -
  obtain err res t1 where f: "firstAnswer env task t = ((err, res), t1)" by (metis surj_pair)
  note f1 = firstAnswer_sound [OF f assms]
  obtain r t2 where rc: "recoverAnswer env task (err, res) t1 = (r, t2)" by fastforce
  have 2: "answeredWithin 2 t (\<exists>res'. r = Some (None, res')) t2"
    using recoverAnswer_answeredWithin [OF rc f1(1) f1(3)] f1(2) by (auto simp: answeredWithin_def)
  show ?thesis
  proof (cases r)
    case None
    with 2 f rc show ?thesis by (auto simp: streamAnswer_def answeredWithin_def)
  next
    case (Some er)
    obtain err2 res2 where er: "er = (err2, res2)" by fastforce
    show ?thesis
    proof (cases "err2 = None \<and> quotaFailed env res2 (offeredTools task)")
      case True
      let ?u = "streamAnswer env task t"
      have "turnCore ?u = turnCore t2"
        using f rc Some er True by (simp add: streamAnswer_def view_core [OF kept_markTerminalFailure])
      from answeredWithin_core [OF this 2] show ?thesis by (auto simp: answeredWithin_def)
    next
      case proceed: False
      obtain b t3 where fl: "flushGuard env task t2 = (b, t3)" by fastforce
      have core3: "turnCore t3 = turnCore t2" by (rule core_of [OF flushGuard_core fl])
      have 3: "answeredWithin 2 t (\<exists>res'. r = Some (None, res')) t3" by (rule answeredWithin_core [OF core3 2])
      show ?thesis
      proof (cases b)
        case False
        with 3 f rc Some er proceed fl show ?thesis by (auto simp: streamAnswer_def answeredWithin_def)
      next
        case b: True
        show ?thesis
        proof (cases err2)
          case (Some e)
          have "turnCore (streamAnswer env task t) = turnCore t3"
            using f rc \<open>r = Some er\<close> er proceed fl b Some by (simp add: streamAnswer_def failUpstream_core)
          with 3 have "answeredWithin 2 t (\<exists>res'. r = Some (None, res')) (streamAnswer env task t)" by (rule answeredWithin_core [rotated])
          then show ?thesis by (auto simp: answeredWithin_def)
        next
          case None
          with 3 Some er have 3: "answeredWithin 2 t True t3" by simp
          obtain o4 t4 where c: "completedAnswer env task (None, res2) t3 = (o4, t4)" by fastforce
          have "answeredWithin (2 + 4) t (o4 \<noteq> None) t4"
          proof (rule answeredWithin_trans [OF 3])
            assume s3: "sound t3"
            show "answeredWithin 4 t3 (o4 \<noteq> None) t4"
            proof (cases "continueAnswer 4 env task (crFullText res2) res2 t3 = (o4, t4)")
              case True
              then show ?thesis by (rule continueAnswer_answeredWithin [OF _ s3]) (use 3 in \<open>simp add: answeredWithin_def\<close>)
            next
              case False
              with c have "t4 = t3" by (auto simp: completedAnswer_def split: if_splits)
              with 3 s3 show ?thesis by (simp add: answeredWithin_def sound_def)
            qed
          qed
          then have 4: "answeredWithin 6 t False t4" by (auto simp: answeredWithin_def)
          show ?thesis
          proof (cases o4)
            case None
            with f rc \<open>r = Some er\<close> er proceed fl b \<open>err2 = None\<close> c 4 show ?thesis by (simp add: streamAnswer_def)
          next
            case (Some ri)
            with f rc \<open>r = Some er\<close> er proceed fl b \<open>err2 = None\<close> c
            have "turnCore (streamAnswer env task t) = turnCore t4"
              by (cases ri) (simp add: streamAnswer_def deliverAnswer_core)
            then show ?thesis by (rule answeredWithin_core [OF _ 4])
          qed
        qed
      qed
    qed
  qed
qed

subsection \<open>The synchronous answer\<close>

lemma chatActive_costs: "chatActive env req t = (r, u) \<Longrightarrow> costs 1 t u"
  by (cases r) (auto simp: costs_def unheard_def dest: chatActive_sound)

lemma firstSyncAnswer_costs:
  assumes run: "firstSyncAnswer env task t = (r, u)"
  shows "costs 1 t u"
proof -
  let ?req = "syncRequest env task t"
  obtain err res t1 where c: "chatActive env ?req t = ((err, res), t1)" by (metis surj_pair)
  have 1: "costs 1 t t1" by (rule chatActive_costs [OF c])
  obtain b t2 where a: "activateNextAccount env (offeredTools task) err res False t1 = (b, t2)" by fastforce
  show ?thesis
  proof (cases b)
    case False
    with run c a have "u = t2" by (simp add: firstSyncAnswer_def)
    moreover have "turnView t2 = turnView t1" using a False by (auto dest: activateNextAccount_stays)
    ultimately have "costs 0 t1 u" by (simp add: costs_view)
    with 1 show ?thesis by (rule costs_trans) simp
  next
    case True
    with run c a have again: "chatActive env (?req\<lparr>ucConversationID := [], ucSessionID := [],
        ucText := orElse (rebuiltPrompt env task syncAnswerRule) (ucText ?req)\<rparr>) t2 = (r, u)"
      by (simp add: firstSyncAnswer_def Let_def)
    show ?thesis
    proof (unfold costs_def, intro impI)
      assume "unheard t"
      then have 1: "sound t1" "\<not> exposed t1" "turnCost t1 \<le> turnCost t + 1"
        using 1 by (simp_all add: costs_def unheard_def)
      note 2 = activate_sound [OF a 1(1) disjI2 [OF 1(2)]]
      have "unheard t2" using 2 1(2) by (simp add: unheard_def)
      then have "unheard u \<and> turnCost u \<le> turnCost t2 + 1"
        using chatActive_costs [OF again] by (simp add: costs_def)
      with 2(2) True 1(3) show "unheard u \<and> turnCost u \<le> turnCost t + 1" by simp
    qed
  qed
qed

lemma continueSync_costs: "continueSync n env task res t = (r, u) \<Longrightarrow> costs n t u"
proof (induction n arbitrary: res t)
  case 0
  then show ?case by (simp add: costs_view)
next
  case (Suc n)
  obtain err cont t1 where c: "chatActive env (continueRequest task res) t = ((err, cont), t1)" by (metis surj_pair)
  have 1: "costs 1 t t1" by (rule chatActive_costs [OF c])
  let ?res = "(joinTexts res cont)\<lparr>crEvents := crEvents res @ crEvents cont\<rparr>"
  show ?case
  proof (cases "continueSync n env task ?res t1 = (r, u)")
    case True
    from costs_trans [OF 1 Suc.IH [OF this]] show ?thesis by simp
  next
    case False
    have "turnView u = turnView t1"
      using Suc.prems c False
      by (cases err) (auto simp: Let_def kept split: if_splits)
    from costs_trans [OF 1 costs_view [of u t1 0, OF this]] show ?thesis by simp
  qed
qed

lemma syncAnswer_costs:
  assumes run: "syncAnswer env task t = (r, u)"
  shows "costs 5 t u"
proof -
  obtain err res t1 where f: "firstSyncAnswer env task t = ((err, res), t1)" by (metis surj_pair)
  have 1: "costs 1 t t1" by (rule firstSyncAnswer_costs [OF f])
  obtain res2 incomplete t2 where c: "completedSync env task (err, res) t1 = ((res2, incomplete), t2)" by (metis surj_pair)
  have "costs 4 t1 t2"
  proof (cases "continueSync 4 env task res t1 = ((res2, incomplete), t2)")
    case True
    then show ?thesis by (rule continueSync_costs)
  next
    case False
    with c have "t2 = t1" by (auto simp: completedSync_def split: if_splits)
    then show ?thesis by (simp add: costs_view)
  qed
  with 1 have 2: "costs 5 t t2" by (rule costs_trans) simp
  have "turnView u = turnView t2"
  proof (cases err)
    case (Some e)
    with run f c show ?thesis by (auto simp: syncAnswer_def kept)
  next
    case None
    show ?thesis
    proof (cases "quotaFailed env res2 (offeredTools task)")
      case True
      with run f c None show ?thesis by (auto simp: syncAnswer_def kept)
    next
      case False
      let ?res = "res2\<lparr>crText := fst (clipText env task (crText res2)), crFullText := fst (clipText env task (crFullText res2))\<rparr>"
      obtain b t3 where s: "settleTurn env task ?res (snd (clipText env task (crText res2))) t2 = (b, t3)" by fastforce
      have "turnView t3 = turnView t2" by (rule keptE [OF kept_settleTurn s])
      with run f c None False s show ?thesis by (cases b) (auto simp: syncAnswer_def Let_def)
    qed
  qed
  from costs_trans [OF 2 costs_view [of u t2 0, OF this]] show ?thesis by simp
qed

subsection \<open>The handler\<close>

definition fresh :: "'a turn_scheme \<Rightarrow> bool" where
  "fresh t \<longleftrightarrow> tnCalls t = [] \<and> \<not> tnVisible t \<and> tnOut t = [] \<and> (tnPreflight t \<longrightarrow> tnSwitched t)"

lemma fresh_view: "turnView u = turnView t \<Longrightarrow> fresh t \<Longrightarrow> fresh u"
  by (simp add: turnView_def fresh_def)

lemma fresh_unheard: "fresh t \<Longrightarrow> unheard t" "fresh t \<Longrightarrow> turnCost t \<le> 1"
  by (auto simp: fresh_def unheard_def sound_def trail_def oneSwitch_def turnCost_def exposed_def)

lemma restoreSession_fresh: "restoreSession env body t = (r, u) \<Longrightarrow> fresh t \<Longrightarrow> fresh u"
proof -
  assume run: "restoreSession env body t = (r, u)" and t: "fresh t"
  obtain v t1 where s: "atStep env (\<lambda>_ g. (getSession (geSession env) (oqSessionKey body) (gwSessions g), g)) t = (v, t1)"
    by fastforce
  have 1: "fresh t1" by (rule fresh_view [OF keptE [OF kept_atStep s] t])
  have *: "fresh (snd (atStep env f t'))" if "fresh t'" for f :: "gotime \<Rightarrow> gateway \<Rightarrow> string \<times> gateway" and t' :: "'a turn_scheme"
    using fresh_view [OF kept_atStep that] .
  have 2: "fresh (adoptSession cv t1)" for cv using 1 by (simp add: adoptSession_def fresh_def Let_def)
  show "fresh u"
  proof (cases "oqSessionKey body = []")
    case True
    with run t show ?thesis by (simp add: restoreSession_def)
  next
    case False
    show ?thesis
    proof (cases v)
      case None
      with run False s 1 show ?thesis by (auto simp: restoreSession_def split: if_splits)
    next
      case (Some cv)
      have "u = adoptSession cv t1 \<or> u = snd (atStep env (\<lambda>now. onServer (currentActiveAccountID now)) (adoptSession cv t1))"
        using run False s Some by (auto simp: restoreSession_def Let_def split: if_splits prod.splits)
      with 2 * [OF 2] show ?thesis by blast
    qed
  qed
qed

lemma chooseAccount_fresh: "chooseAccount env body ex ch t = (r, u) \<Longrightarrow> fresh t \<Longrightarrow> fresh u"
proof -
  assume run: "chooseAccount env body ex ch t = (r, u)" and t: "fresh t"
  obtain a t1 where s: "resolveAccount env (tnActiveID t) ex t = (a, t1)" by fastforce
  define t0 where "t0 = snd (atStep env (\<lambda>_. onServer (resolveRequestAccount (geRoute env (tnClock t))
                          (geRoute env (tnClock t + 1)) (tnActiveID t) ex)) (t\<lparr>tnClock := tnClock t + 1\<rparr>))"
  have t1: "t1 = t0\<lparr>tnPreflight := (case a of Inr (acc, moved) \<Rightarrow> moved | Inl e \<Rightarrow> False)\<rparr>"
    using s by (auto simp: resolveAccount_def Let_def t0_def case_prod_beta)
  have "turnView t0 = turnView (t\<lparr>tnClock := tnClock t + 1\<rparr>)" unfolding t0_def by (rule kept_atStep)
  with t have 1: "tnCalls t1 = []" "\<not> tnVisible t1" "tnOut t1 = []"
    by (simp_all add: t1 turnView_def fresh_def)
  show "fresh u"
  proof (cases a)
    case (Inl e)
    have "\<not> tnPreflight t1" using t1 Inl by simp
    with run s 1 Inl show ?thesis by (simp add: chooseAccount_def fresh_def)
  next
    case (Inr p)
    obtain acc switched where p: "p = (acc, switched)" by fastforce
    define t2 where "t2 = (if switched
       then t1\<lparr>tnSwitched := True, tnActiveID := accID acc, tnConversationID := [], tnSessionID := []\<rparr> else t1)"
    have 2: "fresh t2" "fresh (t2\<lparr>tnAccount := x\<rparr>)" for x using 1 t1 Inr p by (simp_all add: t2_def fresh_def)
    have "u = t2 \<or> (\<exists>x. u = t2\<lparr>tnAccount := x\<rparr>)"
    proof (cases "if switched then selectPrompt env body False else Inr ch")
      case (Inl e)
      with run s \<open>a = Inr p\<close> p show ?thesis by (simp add: chooseAccount_def Let_def t2_def)
    next
      case (Inr ch')
      with run s \<open>a = Inr p\<close> p show ?thesis
        by (simp add: chooseAccount_def Let_def t2_def [symmetric] split: if_splits) blast+
    qed
    with 2 show ?thesis by blast
  qed
qed

lemma prepareTurn_fresh:
  assumes run: "prepareTurn env body t = (r, u)" and t: "fresh t"
  shows "fresh u"
proof (cases "checkedRequest env body")
  case (Inl e)
  with run t show ?thesis by (simp add: prepareTurn_def)
next
  case (Inr c)
  obtain b1 limit tone where c: "c = (b1, limit, tone)" by (metis surj_pair)
  obtain r1 t1 where s1: "restoreSession env (scopedKeys env b1) t = (r1, t1)" by fastforce
  have 1: "fresh t1" by (rule restoreSession_fresh [OF s1 t])
  show ?thesis
  proof (cases r1)
    case (Inl e)
    with run \<open>checkedRequest env body = Inr c\<close> c s1 1 show ?thesis by (simp add: prepareTurn_def)
  next
    case (Inr bc)
    obtain b2 continuing where bc: "bc = (b2, continuing)" by fastforce
    note eq = run \<open>checkedRequest env body = Inr c\<close> c s1 Inr bc
    show ?thesis
    proof (cases "checkedConversation env b2")
      case (Inl e)
      with eq 1 show ?thesis by (simp add: prepareTurn_def)
    next
      case (Inr bl)
      obtain b3 ledger where bl: "bl = (b3, ledger)" by fastforce
      note eq = eq Inr bl
      show ?thesis
      proof (cases "selectPrompt env b3 continuing")
        case (Inl e)
        with eq 1 show ?thesis by (simp add: prepareTurn_def)
      next
        case (Inr chosen)
        note eq = eq Inr
        obtain refused t2 where s2: "refusedRecently env (fst (snd chosen)) t1 = (refused, t2)" by fastforce
        have 2: "fresh t2" using s2 [unfolded refusedRecently_def] by (rule fresh_view [OF keptE [OF kept_atStep] 1])
        show ?thesis
        proof (cases refused)
          case True
          with eq s2 2 show ?thesis by (simp add: prepareTurn_def)
        next
          case False
          note eq = eq s2 False
          obtain r3 t3 where s3: "chooseAccount env b3 (TrimSpace (oqAccountID b3) \<noteq> []) chosen t2 = (r3, t3)"
            by fastforce
          have 3: "fresh t3" by (rule chooseAccount_fresh [OF s3 2])
          show ?thesis
          proof (cases r3)
            case (Inl e)
            with eq s3 3 show ?thesis by (simp add: prepareTurn_def)
          next
            case (Inr chosen')
            obtain l t4 where s4: "atStep env (\<lambda>now. onServer (beginActiveAccountRequest now freshContext (accID (tnAccount t3)))) t3 = (l, t4)"
              by fastforce
            have 4: "fresh t4" by (rule fresh_view [OF keptE [OF kept_atStep s4] 3])
            from eq s3 Inr s4 4 show ?thesis
              by (cases l) (auto simp: prepareTurn_def leaseTurn_def fresh_def)
          qed
        qed
      qed
    qed
  qed
qed

text \<open>A prepared turn makes at most nine calls, and one more when it changes the account.\<close>

lemma runStream_answeredWithin:
  assumes "unheard t"
  shows "answeredWithin 9 t False (runStream env task t)"
proof -
  obtain b t1 where s: "sendFrame env (Comment ''connected'') t = (b, t1)" by fastforce
  have core: "turnCore t1 = turnCore t" and vis: "exposed t1 = exposed t"
    using sendFrame_core [of env "Comment ''connected''" t] sendFrame_exposed [of "Comment ''connected''" env t] s
    by (simp_all add: textFrame_def)
  have 1: "unheard t1" "turnCost t1 = turnCost t"
    using costs_core [OF core vis, of 0] assms core_cost [OF core] by (simp_all add: costs_def)
  obtain e t2 where r: "routeStream env task t1 = (e, t2)" by fastforce
  have 2: "unheard t2" "turnCost t2 \<le> turnCost t + 3" using routeStream_costs [OF r] 1 by (simp_all add: costs_def)
  have "sound (openAnswer t2)" and "heard (openAnswer t2)"
    using 2(1) by (simp_all add: unheard_def sound_def trail_def settled_def heard_def)
  then have 3: "answeredWithin 6 (openAnswer t2) False (streamAnswer env task (openAnswer t2))"
    by (rule streamAnswer_answeredWithin)
  have 4: "answeredWithin 9 t False (turn.truncate (streamAnswer env task (openAnswer t2)))"
    using 3 2(2) by (simp add: answeredWithin_def trail_def turnCost_def)
  show ?thesis
    using s r 1 2 4 by (auto simp: runStream_def answeredWithin_def unheard_def sound_def split: bool.splits)
qed

lemma runSync_costs: "runSync env task t = (r, u) \<Longrightarrow> costs 8 t u"
proof -
  assume run: "runSync env task t = (r, u)"
  obtain r1 t1 where s: "routeSync env task t = (r1, t1)" by fastforce
  have 1: "costs 3 t t1" by (rule routeSync_costs [OF s])
  show ?thesis
  proof (cases r1)
    case None
    with run s have "syncAnswer env task t1 = (r, u)" by (simp add: runSync_def)
    from costs_trans [OF 1 syncAnswer_costs [OF this]] show ?thesis by simp
  next
    case (Some x)
    with run s 1 show ?thesis by (auto simp: runSync_def intro: costs_mono)
  qed
qed

lemma runTurn_answeredWithin:
  assumes run: "runTurn env task t = (r, u)" and "unheard t"
  shows "answeredWithin 9 t False u"
proof -
  have "\<exists>v. turnView u = turnView v \<and> answeredWithin 9 t False v"
  proof (cases "oqStream (tkBody task) \<and> geFlushes env")
    case True
    with run have "turnView u = turnView (runStream env task t)"
      by (auto simp: runTurn_def kept)
    with runStream_answeredWithin [OF assms(2)] show ?thesis by blast
  next
    case other: False
    show ?thesis
    proof (cases "oqStream (tkBody task)")
      case True
      with run other have "turnView u = turnView t" by (auto simp: runTurn_def kept)
      with assms(2) show ?thesis by (intro exI [of _ t]) (simp add: answeredWithin_def unheard_def sound_def)
    next
      case False
      obtain r1 t1 where s: "runSync env task t = (r1, t1)" by fastforce
      have "turnView u = turnView t1" using run False s by (auto simp: runTurn_def kept)
      moreover have "answeredWithin 9 t False t1"
        using runSync_costs [OF s] assms(2) by (auto simp: costs_def answeredWithin_def unheard_def sound_def)
      ultimately show ?thesis by blast
    qed
  qed
  then show ?thesis using answeredWithin_core view_core by blast
qed

lemma openaiChat_answeredWithin:
  assumes "openaiChat env post input g = (r, u)"
  shows "trail u \<and> length (tnCalls u) \<le> 10"
proof -
  have start: "fresh (startTurn g body)" for body by (simp add: fresh_def startTurn_def)
  have none: "trail u \<and> length (tnCalls u) \<le> 10" if "fresh u"
    using fresh_unheard [OF that] that by (simp add: unheard_def sound_def fresh_def)
  show ?thesis
  proof (cases "post \<and> (\<exists>raw body task v. input = Some raw \<and> geDecode env raw = Some body
                     \<and> prepareTurn env body (startTurn g body) = (Inr task, v))")
    case True
    then obtain raw body task v where p: "input = Some raw" "geDecode env raw = Some body"
      "prepareTurn env body (startTurn g body) = (Inr task, v)" by blast
    have v: "fresh v" by (rule prepareTurn_fresh [OF p(3) start])
    have "runTurn env task v = (r, u)" using assms p True by (simp add: openaiChat_def)
    from runTurn_answeredWithin [OF this fresh_unheard(1) [OF v]] fresh_unheard(2) [OF v]
    show ?thesis by (auto simp: answeredWithin_def turnCost_def split: if_splits)
  next
    case False
    have "fresh u"
    proof (cases "post \<and> (\<exists>raw body. input = Some raw \<and> geDecode env raw = Some body)")
      case True
      then obtain raw body where b: "input = Some raw" "geDecode env raw = Some body" "post" by blast
      obtain p v where p: "prepareTurn env body (startTurn g body) = (p, v)" by fastforce
      with False b obtain e where "p = Inl e" by (cases p) auto
      with assms b p have "u = v" by (simp add: openaiChat_def)
      with prepareTurn_fresh [OF p start] show ?thesis by simp
    next
      case False
      with assms start show ?thesis by (auto simp: openaiChat_def split: if_splits option.splits)
    qed
    then show ?thesis by (rule none)
  qed
qed

end
