(* ===== verification/TurnFrames.thy ===== *)
theory TurnFrames
  imports TurnSpend
begin

text \<open>
  The frames of a streamed turn while the client reads: nothing is refused, and the end mark is written once, last.
\<close>

subsection \<open>Writing\<close>

text \<open>The client reads everything and stays.\<close>

definition attentive :: "turnEnv \<Rightarrow> bool" where
  "attentive env \<longleftrightarrow> (\<forall>n. geWrites env n \<and> \<not> geGone env n)"

definition closes :: "streamFrame list \<Rightarrow> streamFrame list \<Rightarrow> bool" where
  "closes before out \<longleftrightarrow> (\<exists>fs. out = before @ fs @ [DoneMark] \<and> DoneMark \<notin> set fs)"

definition extends :: "streamFrame list \<Rightarrow> streamFrame list \<Rightarrow> bool" where
  "extends before out \<longleftrightarrow> (\<exists>fs. out = before @ fs \<and> DoneMark \<notin> set fs)"

lemma extends_refl [simp]: "extends b b"
  by (simp add: extends_def)

lemma extends_trans: "extends a b \<Longrightarrow> extends b c \<Longrightarrow> extends a c"
  by (fastforce simp: extends_def)

lemma extends_closes: "extends a b \<Longrightarrow> closes b c \<Longrightarrow> closes a c"
  unfolding extends_def closes_def
proof (elim exE conjE)
  fix fs gs
  assume "b = a @ fs" "DoneMark \<notin> set fs" "c = b @ gs @ [DoneMark]" "DoneMark \<notin> set gs"
  then show "\<exists>hs. c = a @ hs @ [DoneMark] \<and> DoneMark \<notin> set hs" by (intro exI [of _ "fs @ gs"]) simp
qed

lemma sendFrame_attentive: "attentive env \<Longrightarrow> sendFrame env f t = (True, t\<lparr>tnOut := tnOut t @ [f], tnWrites := tnWrites t + 1\<rparr>)"
  by (simp add: attentive_def sendFrame_def)

lemma sendFrames_attentive:
  assumes "attentive env"
  shows "sendFrames env fs t = (True, t\<lparr>tnOut := tnOut t @ fs, tnWrites := tnWrites t + length fs\<rparr>)"
  by (induction fs arbitrary: t) (simp_all add: sendFrame_attentive [OF assms])

lemma failStream_closes: "attentive env \<Longrightarrow> closes (tnOut t) (tnOut (failStream env m ty co t))"
  by (auto simp: failStream_def tryFrames_def sendFrame_attentive closes_def intro!: exI [of _ "[Frame (errorFrame m ty co)]"])

lemma sendFrames_closes:
  "attentive env \<Longrightarrow> DoneMark \<notin> set fs \<Longrightarrow> closes (tnOut t) (tnOut (snd (sendFrames env (fs @ [DoneMark]) t)))"
  by (simp only: sendFrames_attentive snd_conv) (auto simp: closes_def)

lemma view_out: "turnView u = turnView t \<Longrightarrow> tnOut u = tnOut t"
  by (simp add: turnView_def)

lemma clientGone_attentive: "attentive env \<Longrightarrow> clientGone env t = (False, t\<lparr>tnClock := tnClock t + 1\<rparr>)"
  by (simp add: clientGone_def attentive_def)

subsection \<open>Routing\<close>

lemma chatActive_out: "chatActive env req t = (r, u) \<Longrightarrow> tnOut u = tnOut t"
proof -
  assume "chatActive env req t = (r, u)"
  then obtain err res where "chatActiveWith env (\<lambda>_ t. (True, t)) req t = ((err, res), u)"
    by (metis chatActive_def surj_pair)
  then show ?thesis by (cases rule: chatActiveWith_cases) (simp_all add: turnView_def)
qed

lemma activate_out: "activateNextAccount env tools failure result v t = (b, u) \<Longrightarrow> tnOut u = tnOut t"
  by (cases b) (auto dest: activateNextAccount_moves(6) activateNextAccount_stays intro: view_out)

lemma askRouter_out: "askRouter env task x t = (r, u) \<Longrightarrow> tnOut u = tnOut t"
proof -
  assume run: "askRouter env task x t = (r, u)"
  obtain err res t1 where c: "chatActive env (plainCall x (tkRouterTone task)) t = ((err, res), t1)" by (metis surj_pair)
  show ?thesis
  proof (cases err)
    case None
    with run c chatActive_out [OF c] show ?thesis by (simp add: askRouter_def)
  next
    case (Some e)
    obtain b t2 where a: "activateNextAccount env (oqTools (tkBody task)) (Some e) emptyResult False t1 = (b, t2)" by fastforce
    from run c Some a chatActive_out [OF c] activate_out [OF a] show ?thesis
      by (cases b) (auto simp: askRouter_def dest: chatActive_out)
  qed
qed

lemma decideTool_out: "decideTool env task repair t = (r, u) \<Longrightarrow> tnOut u = tnOut t"
  by (auto simp: decideTool_def split: prod.splits option.splits dest!: askRouter_out)

lemma streamRetry_out: "streamRetry env task d t = (r, u) \<Longrightarrow> tnOut u = tnOut t"
proof -
  assume run: "streamRetry env task d t = (r, u)"
  obtain r1 t1 where q: "retryRequired env task t = (r1, t1)" by fastforce
  then have "tnOut t1 = tnOut t"
    by (auto simp: retryRequired_def split: prod.splits option.splits dest!: askRouter_out)
  with run q show ?thesis by (auto simp: streamRetry_def split: if_splits option.splits prod.splits list.splits)
qed

lemma toolReplyFrames_split: "\<exists>fs. toolReplyFrames env task calls = fs @ [DoneMark] \<and> DoneMark \<notin> set fs"
  by (auto simp: toolReplyFrames_def)

lemma routeStream_out:
  assumes a: "attentive env" and run: "routeStream env task t = (b, u)"
  shows "if b then closes (tnOut t) (tnOut u) else tnOut u = tnOut t"
proof (cases "routingNeeded env task")
  case False
  with run show ?thesis by (simp add: routeStream_def)
next
  case needed: True
  obtain d t1 where d: "decideTool env task streamRepairPrompt t = (d, t1)" by fastforce
  have 1: "tnOut t1 = tnOut t" by (rule decideTool_out [OF d])
  show ?thesis
  proof (cases d)
    case (Inl e)
    have "tnOut (markTerminalFailure env (tkPrompt task) e t1) = tnOut t"
      by (simp add: view_out [OF kept_markTerminalFailure] 1)
    with run needed d Inl show ?thesis
      using failStream_closes [OF a, of "markTerminalFailure env (tkPrompt task) e t1"] by (auto simp: routeStream_def)
  next
    case (Inr decided)
    obtain calls res t2 where s: "streamRetry env task decided t1 = ((calls, res), t2)" by (metis surj_pair)
    have 2: "tnOut t2 = tnOut t" using streamRetry_out [OF s] 1 by simp
    show ?thesis
    proof (cases "calls = None \<or> calls = Some []")
      case True
      with run needed d Inr s 2 failStream_closes [OF a, of t2] show ?thesis
        by (auto simp: routeStream_def split: if_splits)
    next
      case False
      then obtain c cs where c: "calls = Some (c # cs)" by (cases calls) (auto simp: neq_Nil_conv)
      obtain ok t3 where p: "persistRouted env task t2 = (ok, t3)" by fastforce
      have 3: "tnOut t3 = tnOut t" using view_out [OF keptE [OF kept_persistRouted p]] 2 by simp
      let ?calls = "scopedCalls env task '':stream'' (c # cs)"
      obtain fs where fs: "toolReplyFrames env task ?calls = fs @ [DoneMark]" "DoneMark \<notin> set fs"
        using toolReplyFrames_split by blast
      show ?thesis
      proof (cases ok)
        case True
        with run needed d Inr s c p
        have "b" and "u = snd (sendFrames env (fs @ [DoneMark]) (markTurnSuccess env t3))"
          by (simp_all add: routeStream_def fs(1))
        with sendFrames_closes [OF a fs(2), of "markTurnSuccess env t3"] view_out [OF kept_markTurnSuccess, of env t3] 3
        show ?thesis by simp
      next
        case False
        with run needed d Inr s c p have "b" and "u = failPersist env t3" by (simp_all add: routeStream_def)
        with failStream_closes [OF a, of t3] 3 show ?thesis by (simp add: failPersist_def)
      qed
    qed
  qed
qed

subsection \<open>The answer\<close>

text \<open>The answer of an attentive client: its frames grow and no write fails.\<close>

definition flows :: "answerTurn \<Rightarrow> answerTurn \<Rightarrow> bool" where
  "flows t u \<longleftrightarrow> (\<not> anWriteFailed t \<longrightarrow> extends (tnOut t) (tnOut u) \<and> \<not> anWriteFailed u)"

lemma flows_refl [simp]: "flows t t"
  by (simp add: flows_def)

lemma flows_trans: "flows t u \<Longrightarrow> flows u v \<Longrightarrow> flows t v"
  by (auto simp: flows_def intro: extends_trans)

lemma view_flows: "turnView u = turnView t \<Longrightarrow> flows t u"
  by (cases t; cases u) (simp add: turnView_def flows_def)

lemma flows_keeps: "tnOut u = tnOut t \<Longrightarrow> turn.more u = turn.more t \<Longrightarrow> flows t u"
  by (cases t; cases u) (simp add: flows_def)

lemma flows_update [simp]:
  "flows t (u\<lparr>anGuard := g\<rparr>) = flows t u" "flows t (u\<lparr>anNext := g\<rparr>) = flows t u" "flows t (u\<lparr>anFirst := b\<rparr>) = flows t u"
  "flows t (u\<lparr>anDelivered := d\<rparr>) = flows t u" "flows t (u\<lparr>anLimitReached := b\<rparr>) = flows t u"
  "flows t (u\<lparr>tnVisible := b\<rparr>) = flows t u"
  "flows (t\<lparr>anGuard := g\<rparr>) u = flows t u" "flows (t\<lparr>anNext := g\<rparr>) u = flows t u" "flows (t\<lparr>anFirst := b\<rparr>) u = flows t u"
  by (simp_all add: flows_def)

lemma emitAnswerDelta_flows:
  assumes "attentive env" and "emitAnswerDelta env task c t = (b, u)"
  shows "b \<and> flows t u"
  using assms(2)
  by (auto simp: emitAnswerDelta_def Let_def sendFrame_attentive [OF assms(1)] flows_def extends_def split: if_splits prod.splits)

lemma continuationDelta_flows:
  assumes a: "attentive env" and run: "continuationDelta env task c t = (b, u)"
  shows "b \<and> flows t u"
proof -
  obtain rel held g where f: "Feed c (anNext t) = ((rel, held), g)" by (metis surj_pair)
  let ?t = "t\<lparr>anNext := g, anFirst := False\<rparr>"
  obtain b1 t1 where e: "emitAnswerDelta env task newline ?t = (b1, t1)" by fastforce
  have 1: "b1 \<and> flows t t1"
    using emitAnswerDelta_flows [OF a e] by (simp add: flows_def)
  have "(b \<and> u = t\<lparr>anNext := g\<rparr>) \<or> emitAnswerDelta env task rel t1 = (b, u) \<or> emitAnswerDelta env task rel (t\<lparr>anNext := g\<rparr>) = (b, u)"
    using run f e 1 by (auto simp: continuationDelta_def Let_def split: if_splits)
  then show ?thesis
  proof (elim disjE)
    assume "emitAnswerDelta env task rel t1 = (b, u)"
    from emitAnswerDelta_flows [OF a this] 1 show ?thesis by (auto intro: flows_trans)
  next
    assume "emitAnswerDelta env task rel (t\<lparr>anNext := g\<rparr>) = (b, u)"
    from emitAnswerDelta_flows [OF a this] show ?thesis by simp
  qed simp
qed

lemma feedDeltas_flows:
  assumes h: "\<And>d t b u. h d t = (b, u) \<Longrightarrow> b \<and> flows t u" and run: "feedDeltas h ds t = (b, u)"
  shows "b \<and> flows t u"
  using run
proof (induction ds arbitrary: t)
  case Nil
  then show ?case by simp
next
  case (Cons d ds)
  obtain b1 t1 where d: "h d t = (b1, t1)" by fastforce
  from h [OF d] Cons.prems d have "feedDeltas h ds t1 = (b, u)" by simp
  from Cons.IH [OF this] h [OF d] show ?case by (auto intro: flows_trans)
qed

lemma deltaCall_flows:
  assumes h: "\<And>d t b u. h d t = (b, u) \<Longrightarrow> b \<and> flows t u" and run: "chatActiveWithDelta env h req t = (r, u)"
  shows "flows t u"
proof -
  obtain err res where "chatActiveWith env (\<lambda>reply. feedDeltas h (urDeltas reply)) req t = ((err, res), u)"
    using run by (metis chatActiveWithDelta_def surj_pair)
  then show ?thesis
  proof (cases rule: chatActiveWith_cases)
    case (refused e)
    then show ?thesis by (simp add: view_flows)
  next
    case (called reply t1 whole t2)
    have "flows t t1" using called(1) by (intro flows_keeps) (simp_all add: turnView_def)
    moreover have "whole \<and> flows t1 t2" by (rule feedDeltas_flows [OF _ called(2)]) (rule h)
    moreover have "flows t2 u" by (rule view_flows [OF called(3)])
    ultimately show ?thesis by (blast intro: flows_trans)
  qed
qed

lemma chatActive_flows: "chatActive env req t = (r, u) \<Longrightarrow> flows t u"
proof -
  assume run: "chatActive env req t = (r, u)"
  then obtain err res where "chatActiveWith env (\<lambda>_ t. (True, t)) req t = ((err, res), u)"
    by (metis chatActive_def surj_pair)
  then show ?thesis by (cases rule: chatActiveWith_cases) (auto intro: flows_keeps simp: turnView_def)
qed

lemma activate_flows: "activateNextAccount env tools failure result v t = (b, u) \<Longrightarrow> flows t u"
  by (cases b) (auto dest: activateNextAccount_stays activateNextAccount_moves(6,8) intro: view_flows flows_keeps)

lemma firstAnswer_flows:
  assumes a: "attentive env" and run: "firstAnswer env task t = (r, u)"
  shows "flows t u"
proof -
  have call: "flows t u" if "chatActiveWithDelta env (emitAnswerDelta env task) req t = (r, u)" for req t r u
    by (rule deltaCall_flows [OF _ that]) (rule emitAnswerDelta_flows [OF a])
  let ?req = "streamRequest env task t"
  obtain err res t1 where c: "chatActiveWithDelta env (emitAnswerDelta env task) ?req t = ((err, res), t1)" by (metis surj_pair)
  have 1: "flows t t1" by (rule call [OF c])
  let ?t1 = "t1\<lparr>tnClock := tnClock t1 + 1\<rparr>"
  obtain b t2 where ac: "activateNextAccount env (offeredTools task) err res (tnVisible t1) ?t1 = (b, t2)" by fastforce
  have "flows t ?t1" by (rule flows_trans [OF 1 flows_keeps]) simp_all
  from flows_trans [OF this activate_flows [OF ac]] have 2: "flows t t2" .
  have "u = t1 \<or> u = t2 \<or> (\<exists>req g. chatActiveWithDelta env (emitAnswerDelta env task) req (t2\<lparr>anGuard := g\<rparr>) = (r, u))"
    using run c ac clientGone_attentive [OF a, of t1]
    by (auto simp: firstAnswer_def Let_def split: if_splits bool.splits)
  then show ?thesis
  proof (elim disjE exE)
    fix req g
    assume "chatActiveWithDelta env (emitAnswerDelta env task) req (t2\<lparr>anGuard := g\<rparr>) = (r, u)"
    from call [OF this] 2 show ?thesis by (auto intro: flows_trans)
  qed (simp_all add: 1 2)
qed

lemma recoverAnswer_flows:
  assumes a: "attentive env" and run: "recoverAnswer env task r t = (x, u)"
  shows "x \<noteq> None \<and> flows t u"
proof -
  obtain err res where r: "r = (err, res)" by fastforce
  let ?t = "t\<lparr>tnClock := tnClock t + 1\<rparr>"
  have 0: "flows t ?t" by (rule flows_keeps) simp_all
  have resume: "x \<noteq> None \<and> flows t u" if "resumeAnswer env task e res ?t = (x, u)" for e
  proof -
    let ?req = "(plainCall (visibleStreamResumePrompt (anDelivered ?t)) (tkTone task))
                  \<lparr>ucConversationID := uxConversationID res, ucSessionID := uxSessionID res\<rparr>"
    obtain rerr resume t1 where c: "chatActive env ?req ?t = ((rerr, resume), t1)" by (metis surj_pair)
    have 1: "flows t t1" using 0 chatActive_flows [OF c] by (rule flows_trans)
    let ?cont = "trimContinuationOverlap (anDelivered ?t) (crText resume)"
    obtain b t2 where e: "(if ?cont = [] then (True, t1) else emitAnswerDelta env task ?cont t1) = (b, t2)" by fastforce
    have 2: "b \<and> flows t t2"
    proof (cases "?cont = []")
      case True
      with e 1 show ?thesis by auto
    next
      case False
      with e have "emitAnswerDelta env task ?cont t1 = (b, t2)" by simp
      from emitAnswerDelta_flows [OF a this] 1 show ?thesis by (auto intro: flows_trans)
    qed
    show ?thesis
      using that c e 1 2 by (auto simp: resumeAnswer_def Let_def split: option.splits if_splits)
  qed
  show ?thesis
  proof (cases err)
    case None
    with run r show ?thesis by (auto simp: recoverAnswer_def)
  next
    case (Some e)
    have "(x \<noteq> None \<and> (u = t \<or> u = ?t)) \<or> resumeAnswer env task e res ?t = (x, u)"
      using run r Some clientGone_attentive [OF a, of t] by (auto simp: recoverAnswer_def split: if_splits)
    with resume 0 show ?thesis by auto
  qed
qed

lemma flushGuard_flows:
  assumes "attentive env" and "flushGuard env task t = (b, u)"
  shows "b \<and> flows t u"
proof -
  obtain p g where f: "finishGuard False (anGuard t) = (p, g)" by fastforce
  have "(b \<and> u = t\<lparr>anGuard := g\<rparr>) \<or> emitAnswerDelta env task p (t\<lparr>anGuard := g\<rparr>) = (b, u)"
    using assms(2) f by (auto simp: flushGuard_def Let_def split: if_splits)
  then show ?thesis
  proof (elim disjE)
    assume "emitAnswerDelta env task p (t\<lparr>anGuard := g\<rparr>) = (b, u)"
    from emitAnswerDelta_flows [OF assms(1) this] show ?thesis by simp
  qed simp
qed

lemma continueAnswer_flows:
  assumes a: "attentive env"
  shows "continueAnswer n env task seg res t = (r, u) \<Longrightarrow> r \<noteq> None \<and> flows t u"
proof (induction n arbitrary: seg res t)
  case 0
  then show ?case by auto
next
  case (Suc n)
  let ?t = "t\<lparr>anNext := freshGuard, anFirst := True\<rparr>"
  obtain err cont t1 where c: "chatActiveWithDelta env (continuationDelta env task) (continueRequest task res) ?t = ((err, cont), t1)"
    by (metis surj_pair)
  have "flows ?t t1" by (rule deltaCall_flows [OF _ c]) (rule continuationDelta_flows [OF a])
  then have 1: "flows t t1" by (simp add: flows_def)
  obtain pending g where f: "finishGuard False (anNext t1) = (pending, g)" by fastforce
  let ?t1 = "t1\<lparr>anNext := g\<rparr>"
  obtain b t2 where e: "(if pending = [] then (True, ?t1) else continuationDelta env task pending ?t1) = (b, t2)"
    by fastforce
  have 2: "b \<and> flows t t2"
  proof (cases "pending = []")
    case True
    with e 1 show ?thesis by auto
  next
    case False
    with e have "continuationDelta env task pending ?t1 = (b, t2)" by simp
    from continuationDelta_flows [OF a this] 1 show ?thesis by (auto simp: flows_def intro: extends_trans)
  qed
  have failed: "flows t (recordFailure env e t1)" for e
    by (rule flows_trans [OF 1 view_flows [OF kept_recordFailure]])
  show ?case
  proof (cases "turnTokens env task seg < outputSoftCapTokens \<or> anLimitReached t")
    case True
    with Suc.prems show ?thesis by auto
  next
    case go: False
    show ?thesis
    proof (cases "err \<noteq> None \<or> blank (crText cont) \<or> isPlaceholderResult cont")
      case True
      with Suc.prems go c 1 failed show ?thesis by (auto simp: Let_def split: option.splits)
    next
      case ok: False
      let ?res = "appendResult (joinTexts res cont) cont"
      have "(r \<noteq> None \<and> u = t2) \<or> continueAnswer n env task (crFullText cont) ?res t2 = (r, u)"
        using Suc.prems go c ok f e 2 by (auto simp: Let_def split: if_splits)
      with 2 show ?thesis by (auto dest!: Suc.IH intro: flows_trans)
    qed
  qed
qed

subsection \<open>The end\<close>

lemma answerFrames_plain: "DoneMark \<notin> set (answerFrames env task calls t)"
  by (auto simp: answerFrames_def Let_def)

lemma gatedAnswer_out: "tnOut (snd (gatedAnswer env task calls res t)) = tnOut t"
  by (simp add: gatedAnswer_def split: prod.splits)

lemma affordedCalls_out: "tnOut (snd (affordedCalls env task calls t)) = tnOut t"
  by (simp add: affordedCalls_def Let_def)

lemma out_of: "tnOut (snd p) = x \<Longrightarrow> p = (y, u) \<Longrightarrow> tnOut u = x"
  by simp

lemma deliverAnswer_closes:
  assumes a: "attentive env" and t: "\<not> anWriteFailed t"
  shows "closes (tnOut t) (tnOut (deliverAnswer env task res incomplete t))"
proof -
  let ?res = "res\<lparr>crText := fst (clipText env task (crText res)), crFullText := fst (clipText env task (crFullText res))\<rparr>"
  obtain late del where l: "backfillTerminalStreamText (crText ?res) (anDelivered t) (offeredTools task \<noteq> []) = (late, del)"
    by fastforce
  let ?t = "t\<lparr>anDelivered := del\<rparr>"
  obtain b t1 where e: "(case late of Some x \<Rightarrow> emitAnswerDelta env task x ?t | None \<Rightarrow> (True, ?t)) = (b, t1)" by fastforce
  have 1: "b" "extends (tnOut t) (tnOut t1)"
    using e t by (cases late; auto dest!: emitAnswerDelta_flows [OF a] simp: flows_def)+
  let ?calls = "limitToolCalls (nativeToolCalls (geTool env) (crEvents ?res) (offeredTools task)) (callLimit env (tkBody task))"
  obtain res2 t2 where g: "gatedAnswer env task ?calls ?res t1 = (res2, t2)" by fastforce
  obtain calls t3 where af: "affordedCalls env task ?calls t2 = (calls, t3)" by fastforce
  have 3: "tnOut t3 = tnOut t1" using out_of [OF gatedAnswer_out g] out_of [OF affordedCalls_out af] by simp
  obtain t4 where s: "sendFrames env (answerFrames env task calls t3) t3 = (True, t4)"
    and o4: "tnOut t4 = tnOut t3 @ answerFrames env task calls t3"
    by (simp add: sendFrames_attentive [OF a])
  have 4: "extends (tnOut t) (tnOut t4)"
    using 1(2) 3 o4 answerFrames_plain by (fastforce simp: extends_def)
  obtain d t5 where p: "settleTurn env task res2 (anLimitReached t4) t4 = (d, t5)" by fastforce
  have 5: "tnOut t5 = tnOut t4" using view_out [OF keptE [OF kept_settleTurn p]] .
  let ?last = "Frame (chatChunk (turnRef env task) [] (JStr (finishReason calls (anLimitReached t5 \<or> incomplete))))"
  have "deliverAnswer env task res incomplete t =
    (if d then snd (sendFrames env ([?last] @ [DoneMark]) t5) else failPersist env t5)"
    using l e 1(1) g af s p by (simp add: deliverAnswer_def Let_def del: sendFrames.simps)
  moreover have "closes (tnOut t5) (tnOut (snd (sendFrames env ([?last] @ [DoneMark]) t5)))"
    by (rule sendFrames_closes [OF a]) simp
  moreover have "closes (tnOut t5) (tnOut (failPersist env t5))"
    unfolding failPersist_def by (rule failStream_closes [OF a])
  ultimately have "closes (tnOut t5) (tnOut (deliverAnswer env task res incomplete t))" by simp
  then show ?thesis using 4 5 by (auto intro: extends_closes)
qed

lemma failUpstream_closes:
  assumes a: "attentive env" and t: "\<not> anWriteFailed t"
  shows "closes (tnOut t) (tnOut (failUpstream env task e t))"
proof -
  let ?t = "markTerminalFailure env (tkPrompt task) e (t\<lparr>tnClock := tnClock t + 1\<rparr>)"
  have "tnOut ?t = tnOut t" by (simp add: view_out [OF kept_markTerminalFailure])
  moreover have "failUpstream env task e t = failStream env (''upstream error: '' @ errText e) ''upstream_error'' ''upstream_error'' ?t"
    using t clientGone_attentive [OF a, of t] by (simp add: failUpstream_def)
  ultimately show ?thesis using failStream_closes [OF a, of ?t] by simp
qed

lemma streamAnswer_closes:
  assumes a: "attentive env" and t: "\<not> anWriteFailed t"
  shows "closes (tnOut t) (tnOut (streamAnswer env task t))"
proof -
  obtain r1 t1 where f: "firstAnswer env task t = (r1, t1)" by fastforce
  have 1: "flows t t1" by (rule firstAnswer_flows [OF a f])
  obtain x t2 where rc: "recoverAnswer env task r1 t1 = (x, t2)" by fastforce
  from recoverAnswer_flows [OF a rc] obtain err res where x: "x = Some (err, res)" and 2: "flows t t2"
    using 1 by (cases x) (auto intro: flows_trans)
  show ?thesis
  proof (cases "err = None \<and> quotaFailed env res (offeredTools task)")
    case True
    let ?t = "markTerminalFailure env (tkPrompt task) strictQuotaExhaustedError t2"
    have "tnOut ?t = tnOut t2" by (simp add: view_out [OF kept_markTerminalFailure])
    moreover obtain m where "streamAnswer env task t = failStream env m ''upstream_error'' ''upstream_throttled'' ?t"
      using f rc x True by (simp add: streamAnswer_def)
    ultimately have "closes (tnOut t2) (tnOut (streamAnswer env task t))" using failStream_closes [OF a, of ?t] by simp
    with 2 t show ?thesis by (auto simp: flows_def intro: extends_closes)
  next
    case proceed: False
    obtain b t3 where fl: "flushGuard env task t2 = (b, t3)" by fastforce
    from flushGuard_flows [OF a fl] have b: b and 3: "flows t t3" using 2 by (auto intro: flows_trans)
    have t3: "\<not> anWriteFailed t3" using 3 t by (simp add: flows_def)
    show ?thesis
    proof (cases err)
      case (Some e)
      with f rc x proceed fl b have "streamAnswer env task t = failUpstream env task e t3" by (simp add: streamAnswer_def)
      with failUpstream_closes [OF a t3, of task e] 3 t show ?thesis by (auto simp: flows_def intro: extends_closes)
    next
      case None
      obtain y t4 where c: "completedAnswer env task (None, res) t3 = (y, t4)" by fastforce
      have "y \<noteq> None \<and> flows t3 t4"
        using c continueAnswer_flows [OF a, of 4 task "crFullText res" res t3 y t4]
        by (auto simp: completedAnswer_def split: if_splits)
      then obtain res2 incomplete where y: "y = Some (res2, incomplete)" and 4: "flows t t4"
        using 3 by (cases y) (auto intro: flows_trans)
      have t4: "\<not> anWriteFailed t4" using 4 t by (simp add: flows_def)
      have "streamAnswer env task t = deliverAnswer env task res2 incomplete t4"
        using f rc x proceed fl b None c y by (simp add: streamAnswer_def)
      with deliverAnswer_closes [OF a t4, of task res2 incomplete] 4 t show ?thesis by (auto simp: flows_def intro: extends_closes)
    qed
  qed
qed

lemma runStream_closes:
  assumes a: "attentive env"
  shows "closes (tnOut t @ [Comment ''connected'']) (tnOut (runStream env task t))"
proof -
  let ?t = "t\<lparr>tnOut := tnOut t @ [Comment ''connected''], tnWrites := tnWrites t + 1\<rparr>"
  obtain b u where r: "routeStream env task ?t = (b, u)" by fastforce
  note 1 = routeStream_out [OF a r]
  show ?thesis
  proof (cases b)
    case True
    with 1 r show ?thesis by (simp add: runStream_def sendFrame_attentive [OF a])
  next
    case False
    with 1 have "tnOut (openAnswer u) = tnOut ?t" by simp
    with streamAnswer_closes [OF a, of "openAnswer u" task] r False
    show ?thesis by (simp add: runStream_def sendFrame_attentive [OF a])
  qed
qed

end
