(* ===== verification/GatewayProps.thy ===== *)
theory GatewayProps
  imports TurnFrames RouterProps SessionProps
begin

text \<open>
  Properties of a whole chat request (openaiChat of internal/web/server.go), under any interference of other requests,
  with a small gateway for the witnesses: two accounts, of which the first gives half an answer and fails.
\<close>

subsection \<open>A gateway for the witnesses\<close>

definition demoDecode :: "string \<Rightarrow> json option" where
  "demoDecode s = (if s = ''{}'' then Some (JObj [(''name'', JStr ''run'')]) else None)"

definition demoReply :: "string list \<Rightarrow> goerror option \<Rightarrow> string \<Rightarrow> upstreamReply" where
  "demoReply ds e txt =
     \<lparr>urDeltas = ds, urEvents = [], urError = e,
      urResult = emptyResult\<lparr>crText := txt, crFullText := txt, uxConversationID := ''k'', uxSessionID := ''s''\<rparr>,
      urCut = (plainError ''refused'', emptyResult)\<rparr>"

text \<open>The first account gives half an answer and then refuses, every other one answers.\<close>

definition demoUpstream :: "nat \<Rightarrow> string \<Rightarrow> upstreamCall \<Rightarrow> upstreamReply" where
  "demoUpstream n aid req =
     (if aid = ''a'' then demoReply [''half ''] (Some exRateLimit) [] else demoReply [''whole''] None ''whole'')"

definition demoSettings :: runtimeSettings where
  "demoSettings = (defaultRuntimeSettings (\<lambda>_. None))"

definition demoRefresh :: refreshEnv where
  "demoRefresh = \<lparr>envStart = seconds 10, envEnd = seconds 10, envNet = (\<lambda>_. ClientError (plainError ''offline'')),
     envJoined = (emptyAccount, None), envOthers = id, envBetween = (\<lambda>_. id), envFormat = (\<lambda>_. None),
     envClientID = ''c'', envStamp = ''1'', envRFC3339 = (\<lambda>_. [])\<rparr>"

definition demoBody :: oaiReq where
  "demoBody = emptyReq\<lparr>oqModel := ''gpt-5.5'', oqStream := True, oqMessages := [plainMessage ''user'' (JStr ''hello'')],
     oqToolChoice := JStr ''none''\<rparr>"

definition demoTurnEnv :: turnEnv where
  "demoTurnEnv =
     \<lparr>geNow = (\<lambda>_. seconds 10), geMeanwhile = (\<lambda>_ g. g),
      geRoute = (\<lambda>_. \<lparr>reNow1 = seconds 10, reNow2 = seconds 10, reToken = demoRefresh, reOthers = id\<rparr>),
      geGone = (\<lambda>_. False), geExpired = (\<lambda>_. False), geWrites = (\<lambda>_. True), geUpstream = demoUpstream,
      geBudget = \<lparr>beEncode = (\<lambda>s. Some (length s)), beSettings = demoSettings, beEnviron = (\<lambda>_. None),
                  beSprint = (\<lambda>v. case v of JStr s \<Rightarrow> s | _ \<Rightarrow> []), beTools = (\<lambda>_. ''[]'')\<rparr>,
      geTool = \<lparr>teHash = (\<lambda>s. s), teIntegral = (\<lambda>_. True), teUnmarshal = demoDecode\<rparr>,
      geLedger = \<lparr>leUnmarshal = demoDecode, leSprint = (\<lambda>_. []), leNumber = (\<lambda>_. None), leHash = (\<lambda>s. s)\<rparr>,
      geSession = exampleEnv, geSettings = \<lparr>setCurrent = demoSettings, setFile = File None []\<rparr>, geDigest = (\<lambda>s. s),
      geBase64 = (\<lambda>_. None), geNonPositive = (\<lambda>_. False), geTrunc = (\<lambda>_. 0), geQuote = id, geCredential = ''key'',
      geFlushes = True,
      geDecode = (\<lambda>raw. if raw = [] then None else Some demoBody),
      geID = ''id'', geCreated = 7\<rparr>"

definition demoGateway :: gateway where
  "demoGateway =
     \<lparr>gwServer = exServer\<lparr>tokens := exTokens\<lparr>tokAccounts := map (\<lambda>i. (exAccount i)\<lparr>accOID := ''o'', accTID := ''t''\<rparr>) [''a'', ''b'']\<rparr>\<rparr>,
      gwSessions = exampleSessions,
      gwUsage = \<lparr>tuIn = [], tuOut = [], tuPath = [], tuFile = File None []\<rparr>\<rparr>"

definition demoStart :: turn where
  "demoStart = startTurn demoGateway demoBody"

definition demoChosen :: "oaiMsg list \<times> string \<times> attachment list" where
  "demoChosen = ([plainMessage ''user'' (JStr ''hello'')], ''hello'', [])"

definition noEvidence :: agentLedger where
  "noEvidence = \<lparr>alCompleted = [], alPending = [], alToolRounds = 0, alRepeatedCall = False, alRepeatedFailure = False,
     alRepetitionSignature = []\<rparr>"

definition demoLeasing :: turn where
  "demoLeasing = snd (chooseAccount demoTurnEnv demoBody False demoChosen (demoStart\<lparr>tnClock := 1\<rparr>))"

lemma demo_checked: "checkedRequest demoTurnEnv demoBody = Inr (demoBody, 16384, ''Gpt_5_5_Chat'')" by code_simp

lemma demo_conversation: "checkedConversation demoTurnEnv demoBody = Inr (demoBody, noEvidence)" by code_simp

lemma demo_selected: "selectPrompt demoTurnEnv demoBody False = Inr demoChosen" by code_simp

lemma demo_account: "isl (fst (chooseAccount demoTurnEnv demoBody False demoChosen (demoStart\<lparr>tnClock := 1\<rparr>))) = False" by code_simp

lemma demo_lease: "fst (leaseTurn demoTurnEnv demoLeasing)" by code_simp

text \<open>The demonstration request gets as far as its first call.\<close>

lemma demo_prepared:
  obtains task t where "prepareTurn demoTurnEnv demoBody (startTurn demoGateway demoBody) = (Inr task, t)"
    and "oqStream (tkBody task)"
proof -
  have keys: "scopedKeys demoTurnEnv demoBody = demoBody"
    by (simp add: scopedKeys_def scopedSessionKey_def demoBody_def emptyReq_def)
  have restore: "restoreSession demoTurnEnv demoBody demoStart = (Inr (demoBody, False), demoStart)"
    by (simp add: restoreSession_def demoBody_def emptyReq_def)
  have refused: "refusedRecently demoTurnEnv ''hello'' demoStart = (False, demoStart\<lparr>tnClock := 1\<rparr>)"
    by code_simp
  have noID: "(TrimSpace (oqAccountID demoBody) \<noteq> []) = False" by code_simp
  obtain chosen where account: "chooseAccount demoTurnEnv demoBody False demoChosen (demoStart\<lparr>tnClock := 1\<rparr>) = (Inr chosen, demoLeasing)"
    using demo_account unfolding demoLeasing_def
    by (cases "chooseAccount demoTurnEnv demoBody False demoChosen (demoStart\<lparr>tnClock := 1\<rparr>)"; cases "fst (chooseAccount demoTurnEnv demoBody False demoChosen (demoStart\<lparr>tnClock := 1\<rparr>))") auto
  obtain t where lease: "leaseTurn demoTurnEnv demoLeasing = (True, t)"
    using demo_lease by (cases "leaseTurn demoTurnEnv demoLeasing") auto
  have "prepareTurn demoTurnEnv demoBody demoStart = (Inr (taskOf demoTurnEnv demoBody 16384 ''Gpt_5_5_Chat'' noEvidence chosen), t)"
    by (simp add: prepareTurn_def demo_checked keys restore demo_conversation demo_selected demoChosen_def
        refused noID account [unfolded demoChosen_def One_nat_def] lease)
  moreover have "oqStream (tkBody (taskOf demoTurnEnv demoBody 16384 ''Gpt_5_5_Chat'' noEvidence chosen))"
    by (simp add: taskOf_def Let_def demoBody_def split: prod.splits)
  ultimately show thesis using that unfolding demoStart_def by blast
qed

subsection \<open>Calls and accounts\<close>

text \<open>C32: one request to the gateway makes at most ten calls to the upstream (three to route it, the answer, one
  resumption, four continuations, and one more when it changes the account), whatever the upstream answers, whatever
  other requests do in between and wherever the client stops reading. Retries cannot multiply.\<close>

theorem upstream_calls_bounded: "length (tnCalls (snd (openaiChat env post input g))) \<le> 10"
  by (cases "openaiChat env post input g") (simp add: openaiChat_answeredWithin)

text \<open>The calls that are made on another account than the call before them.\<close>

fun accountChanges :: "loggedCall list \<Rightarrow> loggedCall list" where
  "accountChanges (c # d # cs) = (if lcAccount d = lcAccount c then [] else [d]) @ accountChanges (d # cs)"
| "accountChanges cs = []"

lemma accountChanges_same: "list_all (\<lambda>c. lcAccount c = a) cs \<Longrightarrow> accountChanges cs = []"
  by (induction cs rule: accountChanges.induct) auto

lemma accountChanges_append:
  assumes "list_all (\<lambda>c. lcAccount c = a) xs" and "list_all (\<lambda>c. lcAccount c = b) ys"
  shows "accountChanges (xs @ ys) = (if xs = [] \<or> ys = [] \<or> a = b then [] else [hd ys])"
  using assms
proof (induction xs)
  case Nil
  then show ?case by (simp add: accountChanges_same)
next
  case (Cons x xs)
  then show ?case
    by (cases xs; cases ys) (auto simp: accountChanges_same)
qed

text \<open>C33: a request changes the account at most once, the change before its first call included (an account that
  resolveRequestAccount finds resting), and when a call is made on another account than the one before it, no frame that
  the client has been sent by then brings it text: an answer that has begun is never repeated by another account.\<close>

theorem one_account_change:
  "(let t = snd (openaiChat env post input g)
    in (if tnPreflight t then 1 else 0) + length (accountChanges (tnCalls t)) \<le> 1
       \<and> list_all (\<lambda>c. \<not> list_ex textFrame (lcShown c)) (accountChanges (tnCalls t)))"
proof -
  obtain r u where run: "openaiChat env post input g = (r, u)" by fastforce
  from openaiChat_answeredWithin [OF run] obtain old new a where
    "tnCalls u = old @ new" "list_all (\<lambda>c. lcAccount c = a) old" "list_all (\<lambda>c. lcAccount c = accID (tnAccount u)) new"
    "old \<noteq> [] \<and> new \<noteq> [] \<longrightarrow> \<not> list_ex textFrame (lcShown (hd new))"
    by (auto simp: trail_def oneSwitch_def)
  moreover have "tnPreflight u \<Longrightarrow> accountChanges (tnCalls u) = []"
    using openaiChat_answeredWithin [OF run] accountChanges_same by (auto simp: trail_def)
  ultimately show ?thesis using run by (auto simp: Let_def accountChanges_append split: if_splits)
qed

subsection \<open>The end of a stream\<close>

text \<open>C34: a streamed request that has got as far as the upstream is always brought to an end the client can see: when
  the client keeps reading, the stream starts with the comment that opens it and closes with exactly one end mark,
  whatever happens in between (failures, a change of account, a broken connection, a session that cannot be stored).\<close>

theorem stream_reply_ends:
  assumes "geDecode env raw = Some body" and "prepareTurn env body (startTurn g body) = (Inr task, t)"
    and "oqStream (tkBody task)" and "geFlushes env" and "attentive env"
  shows "fst (openaiChat env True (Some raw) g) = StreamReply
     \<and> (\<exists>fs. tnOut (snd (openaiChat env True (Some raw) g)) = Comment ''connected'' # fs @ [DoneMark] \<and> DoneMark \<notin> set fs)"
proof -
  let ?t = "releaseTurn env (tnRelease (runStream env task t)) (runStream env task t)"
  have run: "openaiChat env True (Some raw) g = (StreamReply, ?t)"
    using assms(1-4) by (simp add: openaiChat_def runTurn_def)
  have "fresh t" by (rule prepareTurn_fresh [OF assms(2)]) (simp add: fresh_def startTurn_def)
  then have "tnOut t = []" by (simp add: fresh_def)
  with runStream_closes [OF assms(5), of t task] view_out [OF kept_releaseTurn, of env "tnRelease (runStream env task t)" "runStream env task t"]
  show ?thesis by (simp add: run closes_def)
qed

theorem stream_reply_ends_witness:
  "fst (openaiChat demoTurnEnv True (Some ''{}'') demoGateway) = StreamReply
   \<and> last (tnOut (snd (openaiChat demoTurnEnv True (Some ''{}'') demoGateway))) = DoneMark"
proof (rule demo_prepared)
  fix task t
  assume p: "prepareTurn demoTurnEnv demoBody (startTurn demoGateway demoBody) = (Inr task, t)" "oqStream (tkBody task)"
  have "geDecode demoTurnEnv ''{}'' = Some demoBody" "geFlushes demoTurnEnv" "attentive demoTurnEnv"
    by (simp_all add: demoTurnEnv_def attentive_def)
  from stream_reply_ends [OF this(1) p this(2,3)] show ?thesis by (metis last.simps last_appendR list.discI append_Cons)
qed

subsection \<open>Replies\<close>

lemma routedReply_status: "routedReply env task tag calls res t = (r, u) \<Longrightarrow> replyStatus r \<in> {200, 500}"
  by (auto simp: routedReply_def persistFailedReply_def writeOpenAIError_def toolReply_def split: prod.splits bool.splits)

lemma routeSync_status: "routeSync env task t = (Some r, u) \<Longrightarrow> replyStatus r \<in> {200, 500, 502}"
  by (auto simp: routeSync_def apfst_def map_prod_def split: prod.splits sum.splits option.splits list.splits if_splits
      dest!: routedReply_status)

lemma syncAnswer_status: "syncAnswer env task t = (r, u) \<Longrightarrow> replyStatus r \<in> {200, 500, 502}"
  by (auto simp: syncAnswer_def syncReply_def persistFailedReply_def writeOpenAIError_def toolReply_def Let_def
      split: prod.splits option.splits bool.splits if_splits)

lemma runTurn_status: "runTurn env task t = (r, u) \<Longrightarrow> replyStatus r \<in> {200, 500, 502}"
  by (auto simp: runTurn_def runSync_def Let_def split: prod.splits option.splits if_splits
      dest: routeSync_status syncAnswer_status)

text \<open>C35: a request that is refused as the client's error (a status of the 4xx class: a bad body or model, an unusable
  conversation, a prompt that does not fit or was refused by the policy a short while ago, a route that changed) has cost
  no call to the upstream and has shown nothing.\<close>

theorem client_errors_cost_nothing:
  assumes "400 \<le> replyStatus (fst (openaiChat env post input g))" and "replyStatus (fst (openaiChat env post input g)) < 500"
  shows "tnCalls (snd (openaiChat env post input g)) = [] \<and> tnOut (snd (openaiChat env post input g)) = []"
proof -
  obtain r u where run: "openaiChat env post input g = (r, u)" by fastforce
  have start: "fresh (startTurn g body)" for body by (simp add: fresh_def startTurn_def)
  have "fresh u"
  proof (cases "post \<and> (\<exists>raw body. input = Some raw \<and> geDecode env raw = Some body)")
    case True
    then obtain raw body where b: "input = Some raw" "geDecode env raw = Some body" "post" by blast
    obtain p v where p: "prepareTurn env body (startTurn g body) = (p, v)" by fastforce
    have v: "fresh v" by (rule prepareTurn_fresh [OF p start])
    show ?thesis
    proof (cases p)
      case (Inl e)
      with run b p v show ?thesis by (simp add: openaiChat_def)
    next
      case (Inr task)
      with run b p have "runTurn env task v = (r, u)" by (simp add: openaiChat_def)
      from runTurn_status [OF this] assms run show ?thesis by auto
    qed
  next
    case False
    with run start show ?thesis by (auto simp: openaiChat_def split: if_splits option.splits)
  qed
  with run show ?thesis by (simp add: fresh_def)
qed

theorem client_errors_cost_nothing_witness:
  "tnCalls (snd (openaiChat demoTurnEnv True (Some []) demoGateway)) = []"
proof -
  have "fst (openaiChat demoTurnEnv True (Some []) demoGateway) = PlainReply 400 ''bad json''"
    by (simp add: openaiChat_def demoTurnEnv_def)
  then show ?thesis using client_errors_cost_nothing [of demoTurnEnv True "Some []" demoGateway] by simp
qed

text \<open>A request that must end in a tool call never gets prose instead: while the limit on tool rounds leaves room for
  routing, the routing phase ends the turn itself, with calls or with an error, streamed or not.\<close>

lemma required_call_never_prose:
  assumes "routingNeeded env task" and "toolChoiceRequiresCall (tkChoice task)"
  shows "fst (routeStream env task t) \<and> fst (routeSync env task t) \<noteq> None"
proof
  show "fst (routeStream env task t)"
    using assms by (auto simp: routeStream_def split: prod.splits sum.splits option.splits list.splits bool.splits)
  show "fst (routeSync env task t) \<noteq> None"
    using assms by (auto simp: routeSync_def apfst_def map_prod_def split: prod.splits sum.splits option.splits list.splits)
qed

definition demoTask :: turnTask where
  "demoTask = \<lparr>tkBody = demoBody\<lparr>oqTools := [\<lparr>otType = ''function'', otFunction = ''{}''\<rparr>]\<rparr>, tkLimit = 0, tkTone = ''Gpt_5_5_Chat'', tkRouterTone = [],
     tkExplicit = False, tkPersistKey = [], tkLedger = noEvidence, tkMessages = fst demoChosen, tkPrompt = ''hello'',
     tkAttachments = [], tkToolMaps = [], tkChoice = JStr ''none'', tkRouterInput = []\<rparr>"

definition demoLeased :: answerTurn where
  "demoLeased = openAnswer (snd (leaseTurn demoTurnEnv demoLeasing))"

definition demoRequired :: turnTask where
  "demoRequired = demoTask\<lparr>tkToolMaps := [[(''type'', JStr ''function'')]], tkChoice := JStr ''required''\<rparr>"

lemma required_call_never_prose_witness: "fst (routeStream demoTurnEnv demoRequired demoLeasing)"
proof -
  have "routingNeeded demoTurnEnv demoRequired" and "toolChoiceRequiresCall (tkChoice demoRequired)" by code_simp+
  then show ?thesis using required_call_never_prose by blast
qed

subsection \<open>A finding\<close>

text \<open>
  With tools the deltas are held back, so a failover is still allowed after the first account has sent some; what it sent
  stays in the collected text, and the answer of the second account is appended to it.
\<close>

lemma abandoned_text_is_delivered: "anDelivered (snd (firstAnswer demoTurnEnv demoTask demoLeased)) = ''half whole''"
  by code_simp

end
