(* ===== verification/ProtocolReplies.thy ===== *)
theory ProtocolReplies
  imports TurnChat
begin

text \<open>
  The replies of the two other protocols to a collected chat completion: internal/web/protocol_response.go and the
  error readers of protocol_errors.go, with assistantPortableMessageFromOpenAI of portable_history.go. JSON decoding,
  fresh identities, the clock and \<open>fmt.Sprint\<close> of odd contents are arguments. The branch of
  writeResponsesResultWithIDFields that streams is left out: its only caller has answered streamed requests before.
\<close>

subsection \<open>Reading the completion\<close>

text \<open>The message of the first choice, if it is an object, and its finish reason.\<close>

definition openAIChoice :: "jsonObject \<Rightarrow> jsonObject option \<times> string" where
  "openAIChoice v =
     (case asArray (member v ''choices'') of
        [] \<Rightarrow> (None, [])
      | c # _ \<Rightarrow>
          (let c = asObject c
           in ((case member c ''message'' of JObj m \<Rightarrow> Some m | _ \<Rightarrow> None), memberString c ''finish_reason'')))"

definition messageOf :: "jsonObject \<Rightarrow> jsonObject" where
  "messageOf v = (case fst (openAIChoice v) of Some m \<Rightarrow> m | None \<Rightarrow> [])"

definition responsesOutputHasContent :: "jsonObject \<Rightarrow> bool" where
  "responsesOutputHasContent src =
     (case fst (openAIChoice src) of
        None \<Rightarrow> False
      | Some msg \<Rightarrow> asArray (member msg ''tool_calls'') \<noteq> [] \<or> TrimSpace (memberString msg ''content'') \<noteq> [])"

definition objectCall :: "json \<Rightarrow> jsonObject option" where
  "objectCall raw = (case raw of JObj c \<Rightarrow> Some c | _ \<Rightarrow> None)"

definition assistantPortableMessageFromOpenAI :: "(json \<Rightarrow> string) \<Rightarrow> jsonObject \<Rightarrow> oaiMsg option" where
  "assistantPortableMessageFromOpenAI sprint source =
     (case fst (openAIChoice source) of
        None \<Rightarrow> None
      | Some message \<Rightarrow>
          sanitizePortableMessage sprint
            ((plainMessage ''assistant'' (member message ''content''))
               \<lparr>msgToolCalls := List.map_filter objectCall (asArray (member message ''tool_calls''))\<rparr>))"

subsection \<open>Errors\<close>

definition replyErrorField :: "(string \<Rightarrow> json option) \<Rightarrow> string \<Rightarrow> string \<Rightarrow> string" where
  "replyErrorField unmarshal name raw =
     (case decodeObject unmarshal raw of
        Some v \<Rightarrow> memberString (asObject (member v ''error'')) name
      | None \<Rightarrow> [])"

definition errorMessage :: "(string \<Rightarrow> json option) \<Rightarrow> string \<Rightarrow> string \<Rightarrow> string" where
  "errorMessage unmarshal raw fallback =
     (let s = replyErrorField unmarshal ''message'' raw
      in if s \<noteq> [] then s else if TrimSpace raw \<noteq> [] then TrimSpace raw else fallback)"

definition errorType :: "(string \<Rightarrow> json option) \<Rightarrow> string \<Rightarrow> string \<Rightarrow> string" where
  "errorType unmarshal raw fallback =
     (let s = replyErrorField unmarshal ''type'' raw in if TrimSpace s \<noteq> [] then s else fallback)"

definition writeResponsesError :: "int \<Rightarrow> string \<Rightarrow> string \<Rightarrow> turnReply" where
  "writeResponsesError status typ msg = writeOpenAIError status typ msg"

definition writeAnthropicError :: "int \<Rightarrow> string \<Rightarrow> string \<Rightarrow> turnReply" where
  "writeAnthropicError status typ msg =
     JSONReply status (JObj [(''type'', JStr ''error''),
                             (''error'', JObj [(''type'', JStr typ), (''message'', JStr msg)])])"

subsection \<open>A Responses resource\<close>

text \<open>The identity of the response and of its items, the clock, and the fields that echo the request.\<close>

record replyEnv =
  reID :: string
  reModel :: string
  reItem :: "nat \<Rightarrow> string"
  reCreated :: int
  reCompleted :: int
  reFields :: jsonObject

definition callResultItem :: "replyEnv \<Rightarrow> string \<Rightarrow> nat \<times> json \<Rightarrow> json" where
  "callResultItem env status indexed =
     (let (i, raw) = indexed; tc = asObject raw; fn = asObject (member tc ''function'')
      in JObj [(''type'', JStr ''function_call''), (''id'', JStr (''fc_'' @ reItem env i)), (''call_id'', member tc ''id''),
               (''name'', member fn ''name''), (''arguments'', member fn ''arguments''), (''status'', JStr status)])"

definition resultOutput :: "replyEnv \<Rightarrow> string \<Rightarrow> jsonObject \<Rightarrow> json list" where
  "resultOutput env status src =
     (case member (messageOf src) ''tool_calls'' of
        JArr calls \<Rightarrow> map (callResultItem env status) (enumerate 0 calls)
      | _ \<Rightarrow>
          if fst (openAIChoice src) = None \<and> snd (openAIChoice src) = ''length'' then []
          else [JObj [(''type'', JStr ''message''), (''id'', JStr (''msg_'' @ reItem env 0)), (''role'', JStr ''assistant''),
                      (''status'', JStr status),
                      (''content'', JArr [JObj (textPartOf (memberString (messageOf src) ''content''))])]])"

text \<open>A slice nothing was appended to is encoded as null.\<close>

definition sliceJSON :: "json list \<Rightarrow> json" where
  "sliceJSON vs = (if vs = [] then JNull else JArr vs)"

definition responsesResult :: "replyEnv \<Rightarrow> jsonObject \<Rightarrow> jsonObject" where
  "responsesResult env src =
     (let isCut = (snd (openAIChoice src) = ''length'');
          status = (if isCut then ''incomplete'' else ''completed'');
          resp = applyResponsesResourceFields
            [(''id'', JStr (reID env)), (''object'', JStr ''response''), (''created_at'', numberJSON (reCreated env)),
             (''status'', JStr status), (''model'', JStr (reModel env)),
             (''output'', sliceJSON (resultOutput env status src)),
             (''incomplete_details'', if isCut then JObj [(''reason'', JStr ''max_output_tokens'')] else JNull)]
            (reFields env)
      in if isCut then resp else AList.update ''completed_at'' (numberJSON (reCompleted env)) resp)"

definition writeResponsesResult :: "replyEnv \<Rightarrow> jsonObject \<Rightarrow> turnReply" where
  "writeResponsesResult env src = JSONReply 200 (JObj (responsesResult env src))"

subsection \<open>An Anthropic message\<close>

datatype anthropicContent = TextContent string | ToolUse json json json

fun blockJSON :: "anthropicContent \<Rightarrow> json" where
  "blockJSON (TextContent t) = JObj [(''type'', JStr ''text''), (''text'', JStr t)]"
| "blockJSON (ToolUse ident name input) =
     JObj [(''type'', JStr ''tool_use''), (''id'', ident), (''name'', name), (''input'', input)]"

text \<open>\<open>fmt.Sprint\<close> of a decoded content.\<close>

definition sprintValue :: "(json \<Rightarrow> string) \<Rightarrow> json \<Rightarrow> string" where
  "sprintValue sprint v = (case v of JNull \<Rightarrow> ''<nil>'' | JStr s \<Rightarrow> s | _ \<Rightarrow> sprint v)"

definition toolInput :: "(string \<Rightarrow> json option) \<Rightarrow> json \<Rightarrow> json" where
  "toolInput unmarshal args =
     (case args of
        JStr a \<Rightarrow> (case unmarshal a of Some v \<Rightarrow> v | None \<Rightarrow> JObj [])
      | _ \<Rightarrow> JObj [])"

definition toolUseOf :: "(string \<Rightarrow> json option) \<Rightarrow> json \<Rightarrow> anthropicContent" where
  "toolUseOf unmarshal raw =
     (let tc = asObject raw; fn = asObject (member tc ''function'')
      in ToolUse (member tc ''id'') (member fn ''name'') (toolInput unmarshal (member fn ''arguments'')))"

text \<open>The content blocks and the stop reason.\<close>

definition anthropicResult :: "(string \<Rightarrow> json option) \<Rightarrow> (json \<Rightarrow> string) \<Rightarrow> jsonObject \<Rightarrow> anthropicContent list \<times> string" where
  "anthropicResult unmarshal sprint src =
     (case member (messageOf src) ''tool_calls'' of
        JArr calls \<Rightarrow> (map (toolUseOf unmarshal) calls, ''tool_use'')
      | _ \<Rightarrow> ([TextContent (sprintValue sprint (member (messageOf src) ''content''))], ''end_turn''))"

definition zeroUsage :: json where
  "zeroUsage = JObj [(''input_tokens'', JNum ''0''), (''output_tokens'', JNum ''0'')]"

definition anthropicMessageJSON :: "string \<Rightarrow> string \<Rightarrow> anthropicContent list \<Rightarrow> string \<Rightarrow> json" where
  "anthropicMessageJSON ident model blocks stop =
     JObj [(''id'', JStr ident), (''type'', JStr ''message''), (''role'', JStr ''assistant''), (''model'', JStr model),
           (''content'', JArr (map blockJSON blocks)), (''stop_reason'', JStr stop), (''stop_sequence'', JNull),
           (''usage'', zeroUsage),
           (''m365'', JObj [(''usage_source'', JStr ''unavailable_from_chathub''),
                            (''usage_values_are_placeholders'', JBool True)])]"

text \<open>
  The events of a streamed message: a block starts, is followed by one delta and stops. A tool_use block starts with
  empty input.
\<close>

datatype anthropicEvent =
    MessageStart json
  | BlockStart nat anthropicContent
  | TextPiece nat string
  | InputPiece nat string
  | BlockStop nat
  | MessageDelta string
  | MessageStop

definition blockEvents :: "nat \<times> anthropicContent \<Rightarrow> anthropicEvent list" where
  "blockEvents indexed =
     (let (i, b) = indexed
      in case b of
           TextContent t \<Rightarrow> [BlockStart i b, TextPiece i t, BlockStop i]
         | ToolUse ident name input \<Rightarrow>
             [BlockStart i (ToolUse ident name (JObj [])), InputPiece i (mustJSON input), BlockStop i])"

definition anthropicEvents :: "string \<Rightarrow> string \<Rightarrow> anthropicContent list \<Rightarrow> string \<Rightarrow> anthropicEvent list" where
  "anthropicEvents ident model blocks stop =
     MessageStart (JObj [(''id'', JStr ident), (''type'', JStr ''message''), (''role'', JStr ''assistant''),
                         (''model'', JStr model), (''content'', JArr []), (''stop_reason'', JNull), (''usage'', zeroUsage)])
     # concat (map blockEvents (enumerate 0 blocks)) @ [MessageDelta stop, MessageStop]"

fun anthropicName :: "anthropicEvent \<Rightarrow> string" where
  "anthropicName (MessageStart m) = ''message_start''"
| "anthropicName (BlockStart i b) = ''content_block_start''"
| "anthropicName (TextPiece i t) = ''content_block_delta''"
| "anthropicName (InputPiece i t) = ''content_block_delta''"
| "anthropicName (BlockStop i) = ''content_block_stop''"
| "anthropicName (MessageDelta stop) = ''message_delta''"
| "anthropicName MessageStop = ''message_stop''"

fun anthropicBody :: "anthropicEvent \<Rightarrow> jsonObject" where
  "anthropicBody (MessageStart m) = [(''message'', m)]"
| "anthropicBody (BlockStart i b) = [(''index'', JNum (showNat i)), (''content_block'', blockJSON b)]"
| "anthropicBody (TextPiece i t) =
     [(''index'', JNum (showNat i)), (''delta'', JObj [(''type'', JStr ''text_delta''), (''text'', JStr t)])]"
| "anthropicBody (InputPiece i t) =
     [(''index'', JNum (showNat i)), (''delta'', JObj [(''type'', JStr ''input_json_delta''), (''partial_json'', JStr t)])]"
| "anthropicBody (BlockStop i) = [(''index'', JNum (showNat i))]"
| "anthropicBody (MessageDelta stop) =
     [(''delta'', JObj [(''stop_reason'', JStr stop), (''stop_sequence'', JNull)]),
      (''usage'', JObj [(''output_tokens'', JNum ''0'')])]"
| "anthropicBody MessageStop = []"

definition anthropicText :: "anthropicEvent \<Rightarrow> string" where
  "anthropicText ev = writeSSE (anthropicName ev) (JObj ((''type'', JStr (anthropicName ev)) # anthropicBody ev))"

end
