(* ===== verification/ProtocolHandlers.thy ===== *)
theory ProtocolHandlers
  imports ProtocolReplies
begin

text \<open>
  The handlers of the Responses and Anthropic protocols, internal/web/protocol_handlers.go: they convert the request,
  run openaiChat on it behind a recorder or a pipe, and convert its reply. A Responses request holds a lease on its
  source and its own key meanwhile; other requests may change the gateway and the held keys between its steps
  (heMeanwhile). The encoding of the inner request, JSON decoding, its error texts, identities and the clock are
  arguments. The inner handler is run to its end before its lines are scanned: a commit needs the end of the pipe, and
  after a failed write to the client nothing of the inner stream is used. The wait of at most five seconds for the
  inner handler and the headers are not modelled.
\<close>

record handlerState =
  hsGate :: gateway
  hsHeld :: "string set"

record handlerEnv =
  heTurn :: turnEnv
  heProto :: protoEnv
  heStream :: streamEnv
  heReply :: replyEnv
  heEncode :: "oaiReq \<Rightarrow> string"
  heResponses :: "string \<Rightarrow> responsesRequest option"
  heFieldNames :: "string \<Rightarrow> string list option"
  heAnthropic :: "string \<Rightarrow> anthropicRequest option"
  heDecodeError :: "string \<Rightarrow> string"
  heMeanwhile :: "nat \<Rightarrow> handlerState \<Rightarrow> handlerState"
  heNow :: gotime
  heTicks :: "nat \<Rightarrow> gotime list"
  heLineTime :: "nat \<Rightarrow> gotime"
  heStart :: gotime
  heCommitTicks :: "gotime list"

subsection \<open>The inner request\<close>

text \<open>What openaiChat has written: http.Error and the JSON encoder both end with a line feed.\<close>

definition replyBody :: "turnReply \<Rightarrow> turn \<Rightarrow> string" where
  "replyBody reply t =
     (case reply of
        PlainReply status m \<Rightarrow> m @ newline
      | JSONReply status v \<Rightarrow> mustJSON v @ newline
      | StreamReply \<Rightarrow> concat (map frameText (tnOut t)))"

definition runOpenAIAdapter :: "handlerEnv \<Rightarrow> oaiReq \<Rightarrow> gateway \<Rightarrow> (jsonObject option \<times> string \<times> int) \<times> gateway" where
  "runOpenAIAdapter env q g =
     (case openaiChat (heTurn env) True (Some (heEncode env (q\<lparr>oqStream := False\<rparr>))) g of
        (reply, t) \<Rightarrow>
          (let raw = replyBody reply t
           in ((decodeObject (peUnmarshal (heProto env)) raw, raw, replyStatus reply), tnGate t)))"

definition modelOr :: "string \<Rightarrow> string" where
  "modelOr m = (if m = [] then ''m365-copilot'' else m)"

subsection \<open>The lease of a Responses request\<close>

definition targetKey :: "handlerEnv \<Rightarrow> string" where
  "targetKey env = responseIDSessionKey (geDigest (heTurn env)) (reID (heReply env))"

definition scopedKey :: "handlerEnv \<Rightarrow> string \<Rightarrow> string" where
  "scopedKey env key = scopedSessionKey (geDigest (heTurn env)) (geCredential (heTurn env)) key"

definition withTarget :: "handlerEnv \<Rightarrow> oaiReq \<Rightarrow> oaiReq" where
  "withTarget env q =
     (q\<lparr>oqSessionKey := (if oqSessionKey q = [] then targetKey env else oqSessionKey q)\<rparr>)\<lparr>oqSessionWriteKey := targetKey env\<rparr>"

fun leaseError :: "responseError \<Rightarrow> string" where
  "leaseError TargetMissing = ''response target missing''"
| "leaseError SourceActive =
     ''stable response session already active; retry after the in-flight response completes''"
| "leaseError SourceNotFound = ''previous response session not found''"
| "leaseError _ = []"

definition openLease :: "handlerEnv \<Rightarrow> oaiReq \<Rightarrow> bool \<Rightarrow> handlerState \<Rightarrow> (responseError + responseLease) \<times> handlerState" where
  "openLease env q requireSource h =
     (case prepareResponseTarget (geSession (heTurn env)) (scopedKey env (oqSessionKey q)) (scopedKey env (oqSessionWriteKey q))
             requireSource (gwSessions (hsGate h)) (hsHeld h) of
        (r, s, held) \<Rightarrow> (r, \<lparr>hsGate = (hsGate h)\<lparr>gwSessions := s\<rparr>, hsHeld = held\<rparr>))"

definition closeLease :: "handlerEnv \<Rightarrow> bool \<Rightarrow> responseLease \<Rightarrow> handlerState \<Rightarrow> handlerState" where
  "closeLease env committed lease h =
     (case finishResponseTarget (geSession (heTurn env)) committed lease (gwSessions (hsGate h)) (hsHeld h) of
        (s, held) \<Rightarrow> \<lparr>hsGate = (hsGate h)\<lparr>gwSessions := s\<rparr>, hsHeld = held\<rparr>)"

definition commitTurn :: "handlerEnv \<Rightarrow> oaiReq \<Rightarrow> bool \<Rightarrow> oaiMsg \<Rightarrow> handlerState \<Rightarrow> bool \<times> handlerState" where
  "commitTurn env q previous assistant h =
     (case commitResponsePortableHistory (geSession (heTurn env)) (heNow env) (scopedKey env (oqSessionKey q))
             (scopedKey env (oqSessionWriteKey q)) (oqMessages q) assistant (\<not> previous)
             (gwSessions (hsGate h)) (Some (gwServer (hsGate h))) of
        (err, s, srv) \<Rightarrow>
          (err = None,
           h\<lparr>hsGate := (hsGate h)\<lparr>gwSessions := s, gwServer := (case srv of Some r \<Rightarrow> r | None \<Rightarrow> gwServer (hsGate h))\<rparr>\<rparr>))"

text \<open>The reply to a client: one body, the events of a Responses stream, or those of an Anthropic stream.\<close>

datatype handlerReply =
    Body turnReply
  | ResponseStream "(nat \<times> responseEvent) list"
  | MessageStream "anthropicEvent list"

text \<open>The deferred release of the lease; the flag says whether the response has been committed.\<close>

definition underLease ::
  "handlerEnv \<Rightarrow> oaiReq \<Rightarrow> bool \<Rightarrow> (handlerState \<Rightarrow> (handlerReply \<times> bool) \<times> handlerState) \<Rightarrow> handlerState \<Rightarrow>
   handlerReply \<times> handlerState" where
  "underLease env q previous run h =
     (case openLease env q previous h of
        (Inl e, h) \<Rightarrow> (Body (writeResponsesError 409 ''previous_response_unavailable'' (leaseError e)), h)
      | (Inr lease, h) \<Rightarrow>
          (case run (heMeanwhile env 0 h) of
             ((reply, committed), h) \<Rightarrow> (reply, closeLease env committed lease (heMeanwhile env 2 h))))"

subsection \<open>Responses without streaming\<close>

definition emptyAnswer :: string where
  "emptyAnswer = ''ChatHub returned an empty response; no reusable message was created''"

definition notPersisted :: turnReply where
  "notPersisted =
     writeResponsesError 500 ''session_persistence_error'' ''response state could not be persisted for continuation''"

text \<open>The message to commit: an answer that was cut may be empty.\<close>

definition collectedAssistant :: "handlerEnv \<Rightarrow> jsonObject \<Rightarrow> oaiMsg option" where
  "collectedAssistant env out =
     (case assistantPortableMessageFromOpenAI (sePrint (geSession (heTurn env))) out of
        Some m \<Rightarrow> Some m
      | None \<Rightarrow> if snd (openAIChoice out) = ''length'' then Some (plainMessage ''assistant'' (JStr [])) else None)"

definition collectedReply ::
  "handlerEnv \<Rightarrow> oaiReq \<Rightarrow> bool \<Rightarrow> jsonObject \<Rightarrow> handlerState \<Rightarrow> (handlerReply \<times> bool) \<times> handlerState" where
  "collectedReply env q previous out h =
     (if snd (openAIChoice out) \<noteq> ''length'' \<and> \<not> responsesOutputHasContent out
      then ((Body (writeResponsesError 502 ''upstream_error'' emptyAnswer), False), h)
      else case collectedAssistant env out of
             None \<Rightarrow> ((Body (writeResponsesResult (heReply env) out), False), h)
           | Some assistant \<Rightarrow>
               (case commitTurn env q previous assistant h of
                  (False, h) \<Rightarrow> ((Body notPersisted, False), h)
                | (True, h) \<Rightarrow> ((Body (writeResponsesResult (heReply env) out), True), h)))"

definition collectResponse ::
  "handlerEnv \<Rightarrow> oaiReq \<Rightarrow> bool \<Rightarrow> handlerState \<Rightarrow> (handlerReply \<times> bool) \<times> handlerState" where
  "collectResponse env q previous h =
     (case runOpenAIAdapter env q (hsGate h) of
        ((out, raw, status), g) \<Rightarrow>
          (let h = heMeanwhile env 1 (h\<lparr>hsGate := g\<rparr>); unmarshal = peUnmarshal (heProto env)
           in if status \<ge> 400
              then ((Body (writeResponsesError status (errorType unmarshal raw ''upstream_error'')
                             (errorMessage unmarshal raw ''upstream protocol error'')), False), h)
              else case out of
                     None \<Rightarrow>
                       ((Body (writeResponsesError 502 ''upstream_error''
                                 (''upstream protocol error: '' @ heDecodeError env raw)), False), h)
                   | Some v \<Rightarrow> collectedReply env q previous v h))"

subsection \<open>Responses with streaming\<close>

text \<open>The scanner of the pipe gives up at a line that does not fit its buffer.\<close>

definition scannerLimit :: nat where
  "scannerLimit = 8 * 1024 * 1024"

definition scannedLines :: "string \<Rightarrow> string list" where
  "scannedLines body = takeWhile (\<lambda>l. length l < scannerLimit) (scanLines body)"

definition scanFailure :: "string \<Rightarrow> string option" where
  "scanFailure body = (if scannedLines body = scanLines body then None else Some ''bufio.Scanner: token too long'')"

text \<open>The lines with the ticks of the heartbeat before each of them and after the last.\<close>

definition ticked :: "handlerEnv \<Rightarrow> nat \<Rightarrow> (gotime \<times> scanInput) list" where
  "ticked env i = map (\<lambda>now. (now, ScanTick)) (heTicks env i)"

definition timedLines :: "handlerEnv \<Rightarrow> string list \<Rightarrow> (gotime \<times> scanInput) list" where
  "timedLines env ls =
     concat (map (\<lambda>(i, l). ticked env i @ [(heLineTime env i, ScanLine l)]) (enumerate 0 ls)) @ ticked env (length ls)"

definition adapterRun :: "handlerEnv \<Rightarrow> oaiReq \<Rightarrow> bool \<Rightarrow> string \<Rightarrow> handlerState \<Rightarrow> streamRun" where
  "adapterRun env q previous body h =
     \<lparr>srInputs = timedLines env (scannedLines body), srScanErr = scanFailure body,
      srEndTime = heLineTime env (length (scannedLines body)), srCommitTicks = heCommitTicks env,
      srCommit = Some (\<lambda>assistant. fst (commitTurn env q previous assistant h)), srCommitTime = heNow env,
      srCompletedAt = reCompleted (heReply env)\<rparr>"

definition responseRefOf :: "handlerEnv \<Rightarrow> responseRef" where
  "responseRefOf env = \<lparr>rrID = reID (heReply env), rrModel = reModel (heReply env), rrFields = reFields (heReply env)\<rparr>"

text \<open>The pipe can be flushed; the commit, when it is reached, happens once.\<close>

definition streamResponse ::
  "handlerEnv \<Rightarrow> oaiReq \<Rightarrow> bool \<Rightarrow> handlerState \<Rightarrow> (handlerReply \<times> bool) \<times> handlerState" where
  "streamResponse env q previous h =
     (case openaiChat ((heTurn env)\<lparr>geFlushes := True\<rparr>) True (Some (heEncode env (q\<lparr>oqStream := True\<rparr>))) (hsGate h) of
        (reply, t) \<Rightarrow>
          (let h = heMeanwhile env 1 (h\<lparr>hsGate := tnGate t\<rparr>);
               (s, reached) = streamResponses (heStream env) (responseRefOf env) (heStart env)
                                (adapterRun env q previous (replyBody reply t) h);
               (committed, h) = (case reached of Some assistant \<Rightarrow> commitTurn env q previous assistant h | None \<Rightarrow> (False, h))
           in ((ResponseStream (rsSent s), committed), h)))"

subsection \<open>The handlers\<close>

text \<open>A Responses request as read, if it could be read.\<close>

definition checkedResponses :: "handlerEnv \<Rightarrow> bool \<Rightarrow> string option \<Rightarrow> turnReply + responsesRequest \<times> oaiReq" where
  "checkedResponses env post input =
     (if \<not> post then Inl (writeResponsesError 405 ''invalid_request_error'' ''method not allowed'')
      else case Option.bind input (heResponses env) of
             None \<Rightarrow> Inl (writeResponsesError 400 ''invalid_request_error'' ''bad json'')
           | Some body \<Rightarrow>
               (case Option.bind input (heFieldNames env) of
                  None \<Rightarrow> Inl (writeResponsesError 400 ''invalid_request_error'' ''request body must be a JSON object'')
                | Some names \<Rightarrow>
                    (case validateSemantics (peQuote (heProto env)) body names of
                       Some e \<Rightarrow> Inl (writeResponsesError 400 ''unsupported_parameter'' e)
                     | None \<Rightarrow>
                         (case responsesOpenAI (heProto env) body of
                            Inl e \<Rightarrow> Inl (writeResponsesError 400 ''invalid_request_error'' e)
                          | Inr q \<Rightarrow> Inr (body, q)))))"

definition replyFor :: "handlerEnv \<Rightarrow> responsesRequest \<Rightarrow> handlerEnv" where
  "replyFor env body =
     env\<lparr>heReply := (heReply env)\<lparr>reModel := modelOr (rqModel body), reFields := responsesResourceFields body\<rparr>\<rparr>"

definition responsesHandler :: "handlerEnv \<Rightarrow> bool \<Rightarrow> string option \<Rightarrow> handlerState \<Rightarrow> handlerReply \<times> handlerState" where
  "responsesHandler env post input h =
     (case checkedResponses env post input of
        Inl r \<Rightarrow> (Body r, h)
      | Inr (body, q) \<Rightarrow>
          (let env = replyFor env body;
               previous = (\<not> blank (trPreviousResponseID body));
               q = withTarget env q
           in underLease env q previous ((if rqStream body then streamResponse else collectResponse) env q previous) h))"

definition anthropicHandler :: "handlerEnv \<Rightarrow> bool \<Rightarrow> string option \<Rightarrow> gateway \<Rightarrow> handlerReply \<times> gateway" where
  "anthropicHandler env post input g =
     (if \<not> post then (Body (writeAnthropicError 405 ''invalid_request_error'' ''method not allowed''), g)
      else case Option.bind input (heAnthropic env) of
        None \<Rightarrow> (Body (writeAnthropicError 400 ''invalid_request_error'' ''bad json''), g)
      | Some body \<Rightarrow>
     (case anthropicOpenAI body of
        Inl e \<Rightarrow> (Body (writeAnthropicError 400 ''invalid_request_error'' e), g)
      | Inr q \<Rightarrow>
     (case runOpenAIAdapter env q g of
        ((out, raw, status), g) \<Rightarrow>
          (let unmarshal = peUnmarshal (heProto env); ident = ''msg_'' @ reItem (heReply env) 0
           in if status \<ge> 400
              then (Body (writeAnthropicError status ''api_error'' (errorMessage unmarshal raw ''upstream protocol error'')), g)
              else case out of
                     None \<Rightarrow>
                       (Body (writeAnthropicError 502 ''api_error'' (''upstream protocol error: '' @ heDecodeError env raw)), g)
                   | Some v \<Rightarrow>
                       (case anthropicResult unmarshal (sePrint (geSession (heTurn env))) v of
                          (blocks, stop) \<Rightarrow>
                            if arStream body then (MessageStream (anthropicEvents ident (modelOr (arModel body)) blocks stop), g)
                            else (Body (JSONReply 200 (anthropicMessageJSON ident (modelOr (arModel body)) blocks stop)), g))))))"

end
