(* ===== verification/HandlerProps.thy ===== *)
theory HandlerProps
  imports ProtocolHandlers GatewayProps BridgeProps ResponseProps
begin

text \<open>
  What the handlers of the Responses and Anthropic protocols promise: a lease is given back on every path, what a client
  of an Anthropic stream knows at the end, and which answers do not survive the conversion.
\<close>

subsection \<open>The lease\<close>

lemma openLease_refused:
  assumes "storeInv (sePrint (geSession (heTurn env))) (gwSessions (hsGate h))"
    and "scopedKey env (oqSessionKey q) \<noteq> scopedKey env (oqSessionWriteKey q)" and "openLease env q previous h = (Inl e, h')"
  shows "h' = h"
proof -
  obtain s held where p: "prepareResponseTarget (geSession (heTurn env)) (scopedKey env (oqSessionKey q))
      (scopedKey env (oqSessionWriteKey q)) previous (gwSessions (hsGate h)) (hsHeld h) = (Inl e, s, held)"
    and h': "h' = \<lparr>hsGate = (hsGate h)\<lparr>gwSessions := s\<rparr>, hsHeld = held\<rparr>"
    using assms(3) by (auto simp: openLease_def split: prod.splits)
  from assms(1) p assms(2) have "s = gwSessions (hsGate h) \<and> held = hsHeld h"
    by (cases rule: prepare_cases) auto
  then show ?thesis by (simp add: h')
qed

lemma openLease_locks:
  assumes "openLease env q False h = (Inr lease, h')" and "scopedKey env (oqSessionKey q) \<noteq> scopedKey env (oqSessionWriteKey q)"
    and "scopedKey env (oqSessionKey q) \<noteq> []"
  shows "scopedKey env (oqSessionKey q) \<notin> hsHeld h \<and> scopedKey env (oqSessionKey q) \<in> hsHeld h'
    \<and> (\<exists>pinned. lease = Branch (scopedKey env (oqSessionKey q)) (scopedKey env (oqSessionWriteKey q)) pinned (scopedKey env (oqSessionKey q)))"
  using assms
  by (auto simp: openLease_def prepareResponseTarget_def lockStableResponseSession_def Let_def split: prod.splits if_splits)

lemma closeLease_unlocks: "k \<noteq> [] \<Longrightarrow> k \<notin> hsHeld (closeLease env committed (Branch s t p k) h)"
  by (auto simp: closeLease_def finishResponseTarget_def unlockStable_def Let_def split: prod.splits)

text \<open>A request on a stable head is refused while the head is in use, and leaves it free whatever has happened.\<close>

lemma stable_head_exclusive:
  assumes "storeInv (sePrint (geSession (heTurn env))) (gwSessions (hsGate h))"
    and "scopedKey env (oqSessionKey q) \<noteq> scopedKey env (oqSessionWriteKey q)" and "scopedKey env (oqSessionKey q) \<noteq> []"
    and "underLease env q False run h = (reply, h')"
  shows "if scopedKey env (oqSessionKey q) \<in> hsHeld h \<or> scopedKey env (oqSessionWriteKey q) = []
    then h' = h \<and> (\<exists>m. reply = Body (writeResponsesError 409 ''previous_response_unavailable'' m))
    else scopedKey env (oqSessionKey q) \<notin> hsHeld h'"
proof (cases "openLease env q False h")
  case (Pair r t)
  show ?thesis
  proof (cases r)
    case (Inl e)
    from openLease_refused [OF assms(1,2)] Pair Inl have t: "t = h" by simp
    have "scopedKey env (oqSessionKey q) \<in> hsHeld h \<or> scopedKey env (oqSessionWriteKey q) = []"
      using Pair Inl assms(2,3)
      by (auto simp: openLease_def prepareResponseTarget_def lockStableResponseSession_def Let_def split: prod.splits if_splits)
    moreover have "reply = Body (writeResponsesError 409 ''previous_response_unavailable'' (leaseError e)) \<and> h' = h"
      using assms(4) Pair Inl t by (simp add: underLease_def)
    ultimately show ?thesis by auto
  next
    case (Inr lease)
    with Pair openLease_locks [OF _ assms(2,3), of h lease t] obtain pinned where
      free: "scopedKey env (oqSessionKey q) \<notin> hsHeld h"
      and l: "lease = Branch (scopedKey env (oqSessionKey q)) (scopedKey env (oqSessionWriteKey q)) pinned (scopedKey env (oqSessionKey q))"
      by auto
    have "scopedKey env (oqSessionWriteKey q) \<noteq> []"
      using Pair Inr by (auto simp: openLease_def prepareResponseTarget_def split: prod.splits if_splits)
    moreover obtain committed u where "h' = closeLease env committed lease u"
      using assms(4) Pair Inr by (auto simp: underLease_def split: prod.splits)
    ultimately show ?thesis using free l closeLease_unlocks [OF assms(3)] by simp
  qed
qed

subsection \<open>Errors of the inner request\<close>

text \<open>The status and the message of a refused inner request reach the client.\<close>

lemma collect_status:
  assumes "runOpenAIAdapter env q (hsGate h) = ((out, raw, status), g)" and "status \<ge> 400"
  shows "\<exists>typ msg. collectResponse env q previous h
    = ((Body (writeResponsesError status typ msg), False), heMeanwhile env 1 (h\<lparr>hsGate := g\<rparr>))"
  using assms by (auto simp: collectResponse_def Let_def)

subsection \<open>A client of an Anthropic stream\<close>

text \<open>
  What a client collects for a block: the block it started with, the text that was appended to it, and the pieces of its
  input. At the stop the pieces are decoded; an input without pieces stays as it was.
\<close>

record openBlock =
  obStart :: anthropicContent
  obText :: string
  obInput :: string

fun applyEvent :: "anthropicEvent \<Rightarrow> openBlock list \<Rightarrow> openBlock list" where
  "applyEvent (BlockStart i b) bs =
     (if i = length bs then bs @ [\<lparr>obStart = b, obText = [], obInput = []\<rparr>] else bs)"
| "applyEvent (TextPiece i t) bs = (if i < length bs then bs[i := (bs ! i)\<lparr>obText := obText (bs ! i) @ t\<rparr>] else bs)"
| "applyEvent (InputPiece i t) bs = (if i < length bs then bs[i := (bs ! i)\<lparr>obInput := obInput (bs ! i) @ t\<rparr>] else bs)"
| "applyEvent _ bs = bs"

definition closedBlock :: "(string \<Rightarrow> json option) \<Rightarrow> openBlock \<Rightarrow> anthropicContent" where
  "closedBlock unmarshal b =
     (case obStart b of
        TextContent t \<Rightarrow> TextContent (t @ obText b)
      | ToolUse ident name input \<Rightarrow>
          ToolUse ident name
            (if obInput b = [] then input else case unmarshal (obInput b) of Some v \<Rightarrow> v | None \<Rightarrow> input))"

definition rebuiltBlocks :: "(string \<Rightarrow> json option) \<Rightarrow> anthropicEvent list \<Rightarrow> anthropicContent list" where
  "rebuiltBlocks unmarshal evs = map (closedBlock unmarshal) (fold applyEvent evs [])"

fun openOf :: "anthropicContent \<Rightarrow> openBlock" where
  "openOf (TextContent t) = \<lparr>obStart = TextContent t, obText = t, obInput = []\<rparr>"
| "openOf (ToolUse ident name input) =
     \<lparr>obStart = ToolUse ident name (JObj []), obText = [], obInput = mustJSON input\<rparr>"

lemma apply_block: "fold applyEvent (blockEvents (length bs, b)) bs = bs @ [openOf b]"
  by (cases b) (simp_all add: blockEvents_def nth_append list_update_append)

lemma apply_blocks: "fold applyEvent (concat (map blockEvents (enumerate (length bs) blocks))) bs = bs @ map openOf blocks"
proof (induction blocks arbitrary: bs)
  case (Cons b blocks)
  from Cons.IH [of "bs @ [openOf b]"] show ?case by (simp add: apply_block)
qed simp

text \<open>What arrives: a tool call with its input in canonical form, a text twice.\<close>

fun receivedBlock :: "anthropicContent \<Rightarrow> anthropicContent" where
  "receivedBlock (TextContent t) = TextContent (t @ t)"
| "receivedBlock (ToolUse ident name input) = ToolUse ident name (canon input)"

text \<open>The inputs of the tool calls of a message, and that they can be decoded again.\<close>

definition inputsDecode :: "(string \<Rightarrow> json option) \<Rightarrow> anthropicContent list \<Rightarrow> bool" where
  "inputsDecode unmarshal blocks \<longleftrightarrow> unmarshal [] = None
     \<and> (\<forall>ident name input. ToolUse ident name input \<in> set blocks \<longrightarrow> unmarshal (mustJSON input) = Some (canon input))"

lemma closed_block:
  "inputsDecode unmarshal blocks \<Longrightarrow> b \<in> set blocks \<Longrightarrow> closedBlock unmarshal (openOf b) = receivedBlock b"
  by (cases b) (force simp: inputsDecode_def closedBlock_def)+

lemma rebuilt_blocks:
  "inputsDecode unmarshal blocks \<Longrightarrow> rebuiltBlocks unmarshal (anthropicEvents ident model blocks stop) = map receivedBlock blocks"
  using apply_blocks [of "[]" blocks] by (simp add: rebuiltBlocks_def anthropicEvents_def closed_block)

lemma collected_request:
  "anthropicOpenAI (body\<lparr>arStream := b\<rparr>) = map_sum id (\<lambda>q. q\<lparr>oqStream := b\<rparr>) (anthropicOpenAI body)"
  by (simp add: anthropicOpenAI_def emptyReq_def split: sum.split)

lemma adapter_collects: "runOpenAIAdapter env (q\<lparr>oqStream := b\<rparr>) g = runOpenAIAdapter env q g"
  by (simp add: runOpenAIAdapter_def)

definition withoutStream :: "handlerEnv \<Rightarrow> handlerEnv" where
  "withoutStream env = env\<lparr>heAnthropic := \<lambda>raw. map_option (\<lambda>body. body\<lparr>arStream := False\<rparr>) (heAnthropic env raw)\<rparr>"

lemma withoutStream_fields [simp]:
  "heAnthropic (withoutStream env) raw = map_option (\<lambda>body. body\<lparr>arStream := False\<rparr>) (heAnthropic env raw)"
  "heProto (withoutStream env) = heProto env" "heReply (withoutStream env) = heReply env"
  "heTurn (withoutStream env) = heTurn env" "heDecodeError (withoutStream env) = heDecodeError env"
  by (simp_all add: withoutStream_def)

lemma adapter_without [simp]: "runOpenAIAdapter (withoutStream env) q g = runOpenAIAdapter env q g"
  by (simp add: runOpenAIAdapter_def withoutStream_def)

subsection \<open>Properties\<close>

text \<open>C40: anthropicMessages, streamed and collected: a streamed request gets the content of the collected reply to the
  same request. A client that follows the events by block index ends with the same blocks in the same order, each tool
  call with its identity, its name and its input, but with every text twice: the block starts with its whole text, and
  the delta brings it again.\<close>

theorem anthropic_stream_blocks:
  assumes "anthropicHandler env True (Some raw) g = (MessageStream evs, g')"
  shows "\<exists>blocks ident model stop.
    anthropicHandler (withoutStream env) True (Some raw) g = (Body (JSONReply 200 (anthropicMessageJSON ident model blocks stop)), g')
    \<and> evs = anthropicEvents ident model blocks stop
    \<and> (inputsDecode unmarshal blocks \<longrightarrow> rebuiltBlocks unmarshal evs = map receivedBlock blocks)"
proof -
  obtain body where body: "heAnthropic env raw = Some body"
    using assms(1) by (auto simp: anthropicHandler_def split: option.splits)
  obtain q where q: "anthropicOpenAI body = Inr q"
    using assms(1) body by (auto simp: anthropicHandler_def split: sum.splits)
  obtain out rawOut status g1 where run: "runOpenAIAdapter env q g = ((out, rawOut, status), g1)" by (metis surj_pair)
  obtain v where v: "out = Some v" "status < 400" "g1 = g'" "arStream body"
    and ev: "evs = (case anthropicResult (peUnmarshal (heProto env)) (sePrint (geSession (heTurn env))) v of
      (blocks, stop) \<Rightarrow> anthropicEvents (''msg_'' @ reItem (heReply env) 0) (modelOr (arModel body)) blocks stop)"
    using assms(1) body q run by (auto simp: anthropicHandler_def Let_def split: option.splits if_splits prod.splits)
  obtain blocks stop where r: "anthropicResult (peUnmarshal (heProto env)) (sePrint (geSession (heTurn env))) v = (blocks, stop)"
    by force
  have "anthropicHandler (withoutStream env) True (Some raw) g
      = (Body (JSONReply 200 (anthropicMessageJSON (''msg_'' @ reItem (heReply env) 0) (modelOr (arModel body)) blocks stop)), g')"
    using body q run v r by (simp add: anthropicHandler_def collected_request adapter_collects)
  moreover have "evs = anthropicEvents (''msg_'' @ reItem (heReply env) 0) (modelOr (arModel body)) blocks stop"
    using ev r by simp
  moreover from this have "inputsDecode unmarshal blocks \<longrightarrow> rebuiltBlocks unmarshal evs = map receivedBlock blocks"
    by (simp add: rebuilt_blocks)
  ultimately show ?thesis by blast
qed

text \<open>A client of the Messages protocol that asks for ``hello'' and reads the answer ``hi'' as a stream.\<close>

definition demoCompletion :: json where
  "demoCompletion = JObj [(''choices'', JArr [JObj [(''message'', JObj [(''content'', JStr ''hi'')]),
                                                       (''finish_reason'', JStr ''stop'')]])]"

definition demoCompleted :: "string \<Rightarrow> json option" where
  "demoCompleted s = Some demoCompletion"

definition demoMessages :: anthropicRequest where
  "demoMessages = \<lparr>arModel = [], arSystem = JNull, arMessages = [anthropicMessage ''user'' (JStr ''hello'')], arTools = [],
     arToolChoice = JNull, arStream = True, arMaxTokens = 9\<rparr>"

definition demoMessagesRequest :: oaiReq where
  "demoMessagesRequest = emptyReq\<lparr>oqStream := True, oqMessages := [plainMessage ''user'' (JStr ''hello'')]\<rparr>"

definition demoHandlerEnv :: handlerEnv where
  "demoHandlerEnv =
     \<lparr>heTurn = demoTurnEnv, heProto = \<lparr>peUnmarshal = demoCompleted, peSha = (\<lambda>s. s), peQuote = id\<rparr>, heStream = demoStream,
      heReply = \<lparr>reID = ''r'', reModel = [], reItem = (\<lambda>_. ''0''), reCreated = 7, reCompleted = 8, reFields = []\<rparr>,
      heEncode = (\<lambda>_. ''{}''), heResponses = (\<lambda>_. None), heFieldNames = (\<lambda>_. None), heAnthropic = (\<lambda>_. Some demoMessages),
      heDecodeError = (\<lambda>_. []), heMeanwhile = (\<lambda>_ h. h), heNow = 0, heTicks = (\<lambda>_. []), heLineTime = (\<lambda>_. 0), heStart = 0,
      heCommitTicks = []\<rparr>"

lemma demo_handled: "\<exists>g'. anthropicHandler demoHandlerEnv True (Some ''{}'') demoGateway
  = (MessageStream (anthropicEvents ''msg_0'' ''m365-copilot'' [TextContent ''hi''] ''end_turn''), g')"
proof (rule demo_prepared)
  fix task t
  assume p: "prepareTurn demoTurnEnv demoBody (startTurn demoGateway demoBody) = (Inr task, t)" "oqStream (tkBody task)"
  have "geDecode demoTurnEnv ''{}'' = Some demoBody" "geFlushes demoTurnEnv" by (simp_all add: demoTurnEnv_def)
  with p obtain u where "openaiChat demoTurnEnv True (Some ''{}'') demoGateway = (StreamReply, u)"
    by (simp add: openaiChat_def runTurn_def)
  moreover have "anthropicOpenAI demoMessages = Inr demoMessagesRequest"
    by (simp add: anthropicOpenAI_def demoMessages_def demoMessagesRequest_def anthropicMessages_def anthropicChoice_def emptyReq_def)
  moreover have "anthropicResult demoCompleted (sePrint (geSession demoTurnEnv)) (asObject demoCompletion) = ([TextContent ''hi''], ''end_turn'')"
    by code_simp
  ultimately show ?thesis
    by (simp add: anthropicHandler_def demoHandlerEnv_def runOpenAIAdapter_def decodeObject_def demoCompleted_def
        demoCompletion_def asObject_def modelOr_def demoMessages_def)
qed

theorem anthropic_stream_blocks_witness:
  "\<exists>evs g' blocks ident model stop. anthropicHandler demoHandlerEnv True (Some ''{}'') demoGateway = (MessageStream evs, g')
     \<and> anthropicHandler (withoutStream demoHandlerEnv) True (Some ''{}'') demoGateway
         = (Body (JSONReply 200 (anthropicMessageJSON ident model blocks stop)), g')
     \<and> rebuiltBlocks demoDecode evs = [TextContent ''hihi'']"
proof -
  obtain g' where run: "anthropicHandler demoHandlerEnv True (Some ''{}'') demoGateway
      = (MessageStream (anthropicEvents ''msg_0'' ''m365-copilot'' [TextContent ''hi''] ''end_turn''), g')"
    using demo_handled by blast
  have rebuilt: "rebuiltBlocks demoDecode (anthropicEvents ''msg_0'' ''m365-copilot'' [TextContent ''hi''] ''end_turn'') = [TextContent ''hihi'']"
    by code_simp
  from anthropic_stream_blocks [OF run, of demoDecode] obtain blocks ident model stop where
    "anthropicHandler (withoutStream demoHandlerEnv) True (Some ''{}'') demoGateway
       = (Body (JSONReply 200 (anthropicMessageJSON ident model blocks stop)), g')" by blast
  with run rebuilt show ?thesis by blast
qed

text \<open>An answer with images has a list of parts as its content, which the Responses handler takes for an empty answer.\<close>

lemma image_content: "uxImages res \<noteq> [] \<Longrightarrow> \<exists>parts. contentJSON res = JArr parts"
  by (simp add: contentJSON_def)

lemma image_answer_refused:
  assumes "openAIChoice out = (Some msg, ''stop'')" and "member msg ''content'' = JArr parts"
    and "asArray (member msg ''tool_calls'') = []"
  shows "collectedReply env q previous out h = ((Body (writeResponsesError 502 ''upstream_error'' emptyAnswer), False), h)"
  using assms by (simp add: collectedReply_def responsesOutputHasContent_def asString_def)

end
