(* ===== verification/DebugLog.thy ===== *)
theory DebugLog
  imports PortableHistory ChatFrames Settings
begin

text \<open>
  The request log of internal/web/debug.go: redaction and bounds of what is kept, the ring of records in memory, the log
  file with its rotation, the capture of bodies, and the middleware that makes a record of a request. Each system call may
  fail, and a failing write may leave a part of its line. JSON decoding, identities and the text of a time are arguments.
  The endpoints that read the ring, debugList and debugDetail, only encode it.
\<close>

definition debugMaxRecords :: nat where "debugMaxRecords = 500"
definition debugSnippetBytes :: nat where "debugSnippetBytes = 4 * 1024"
definition debugValueBytes :: nat where "debugValueBytes = 10 * 1024"
definition debugRecordBytes :: nat where "debugRecordBytes = 24 * 1024"
definition debugPathBytes :: nat where "debugPathBytes = 1024"
definition debugLogMaxBytes :: int where "debugLogMaxBytes = 10 * 1024 * 1024"
definition debugLogMaxFiles :: int where "debugLogMaxFiles = 3"

subsection \<open>Redaction\<close>

definition redacted :: string where
  "redacted = ''[redacted]''"

definition sensitiveNames :: "string list" where
  "sensitiveNames =
     [''apikey'', ''authorization'', ''proxyauthorization'', ''accesstoken'', ''refreshtoken'', ''idtoken'', ''token'',
      ''password'', ''clientsecret'', ''secret'', ''cookie'', ''setcookie'', ''proxy'']"

definition sensitiveDebugKey :: "string \<Rightarrow> bool" where
  "sensitiveDebugKey key =
     (let normalized = filter (\<lambda>c. c \<notin> set ''_-.'') (ToLower (TrimSpace key))
      in normalized \<in> set sensitiveNames \<or> HasSuffix normalized ''password'' \<or> HasSuffix normalized ''secret'')"

fun redactDebugValue :: "string \<Rightarrow> json \<Rightarrow> json" where
  "redactDebugValue key (JObj ms) =
     (if sensitiveDebugKey key then JStr redacted else JObj (map (\<lambda>(k, v). (k, redactDebugValue k v)) ms))"
| "redactDebugValue key (JArr vs) =
     (if sensitiveDebugKey key then JStr redacted else JArr (map (redactDebugValue []) vs))"
| "redactDebugValue key v = (if sensitiveDebugKey key then JStr redacted else v)"

text \<open>
  A replacement that keeps the text of a group: the expression is the group followed by the rest. The preferred match is
  the first of the group's that the rest can follow.
\<close>

definition groupMatch :: "regex \<Rightarrow> regex \<Rightarrow> string list \<Rightarrow> string list \<Rightarrow> (string list \<times> cursor) option" where
  "groupMatch grp rest prev s =
     (case concat (map (\<lambda>(prev', s'). map (\<lambda>e. (take (length s - length s') s, e)) (ends rest prev' s')) (ends grp prev s)) of
        [] \<Rightarrow> None
      | m # _ \<Rightarrow> Some m)"

function replaceGroupFrom :: "regex \<Rightarrow> regex \<Rightarrow> (string \<Rightarrow> string) \<Rightarrow> string list \<Rightarrow> string list \<Rightarrow> string list" where
  "replaceGroupFrom grp rest f prev s =
     (case groupMatch grp rest prev s of
        Some (kept, prev', s') \<Rightarrow>
          (if length s' < length s then f (concat kept) # replaceGroupFrom grp rest f prev' s'
           else (case s of [] \<Rightarrow> [] | x # xs \<Rightarrow> x # replaceGroupFrom grp rest f (x # prev) xs))
      | None \<Rightarrow> (case s of [] \<Rightarrow> [] | x # xs \<Rightarrow> x # replaceGroupFrom grp rest f (x # prev) xs))"
  by pat_completeness auto
termination by (relation "measure (\<lambda>(_, _, _, _, s). length s)") auto

declare replaceGroupFrom.simps [simp del]

definition replaceGroup :: "regex \<Rightarrow> regex \<Rightarrow> (string \<Rightarrow> string) \<Rightarrow> string \<Rightarrow> string" where
  "replaceGroup grp rest f s = concat (replaceGroupFrom grp rest f [] (runes s))"

definition quoteMark :: regex where
  "quoteMark = lit [CHR 0x22]"

definition dashed :: "string \<Rightarrow> string \<Rightarrow> regex" where
  "dashed a b = sequence [foldedLit a, maybe (oneOf [[CHR ''_''], [CHR ''-'']]), foldedLit b]"

definition secretField :: regex where
  "secretField =
     sequence [quoteMark,
       choice [dashed ''api'' ''key'', foldedLit ''authorization'', dashed ''proxy'' ''authorization'',
               dashed ''access'' ''token'', dashed ''refresh'' ''token'', dashed ''id'' ''token'', foldedLit ''password'',
               dashed ''client'' ''secret'', foldedLit ''secret'', foldedLit ''cookie'', foldedLit ''proxy''],
       quoteMark, Star True spaceRune, lit '':'', Star True spaceRune]"

text \<open>A quoted value: escapes of any rune but a line feed, and runes that are neither a quote nor a backslash.\<close>

definition quotedValue :: regex where
  "quotedValue =
     sequence [quoteMark,
       Star True (Alt (Cat (lit [CHR 0x5C]) (noneOf [[CHR 0x0A]])) (noneOf [[CHR 0x22], [CHR 0x5C]])),
       quoteMark]"

definition bearerRune :: regex where
  "bearerRune = Rune (\<lambda>x. foldsTo ''k'' x \<or> foldsTo ''s'' x \<or>
     (case x of [c] \<Rightarrow> isDigit c \<or> 97 \<le> byteVal (lowerChar c) \<and> byteVal (lowerChar c) \<le> 122 \<or> c \<in> set ''._~+/=-'' | _ \<Rightarrow> False))"

definition bearerTokenRE :: regex where
  "bearerTokenRE =
     sequence [WordBoundary, foldedLit ''bearer'', plus1 (oneOf [[CHR 0x20], [CHR 0x09]]), plus1 bearerRune]"

definition proxyScheme :: regex where
  "proxyScheme =
     Cat WordBoundary
       (choice [Cat (foldedLit ''http'') (maybe (foldedLit ''s'')), Cat (foldedLit ''socks5'') (maybe (foldedLit ''h'')),
                foldedLit ''socks4''])"

definition proxyCredential :: regex where
  "proxyCredential =
     sequence [lit ''://'',
       plus1 (noneOf [[CHR ''/''], [CHR ''@''], [CHR 0x09], [CHR 0x0A], [CHR 0x0C], [CHR 0x0D], [CHR 0x20], [CHR '':'']]),
       lit '':'',
       plus1 (noneOf [[CHR ''/''], [CHR ''@''], [CHR 0x09], [CHR 0x0A], [CHR 0x0C], [CHR 0x0D], [CHR 0x20]]),
       lit ''@'']"

definition quotedRedacted :: string where
  "quotedRedacted = CHR 0x22 # redacted @ [CHR 0x22]"

definition redactRawSnippet :: "string \<Rightarrow> string" where
  "redactRawSnippet raw =
     (let raw = replaceGroup secretField quotedValue (\<lambda>g. g @ quotedRedacted) raw;
          raw = replaceGroup (Cat secretField quoteMark) (Cat (Star True (noneOf [[CHR 0x22]])) TextEnd) (\<lambda>g. g @ redacted) raw;
          raw = ReplaceAllString bearerTokenRE (''Bearer '' @ redacted) raw
      in replaceGroup proxyScheme proxyCredential (\<lambda>g. g @ ''://'' @ redacted @ ''@'') raw)"

definition redactBody :: "(string \<Rightarrow> json option) \<Rightarrow> string \<Rightarrow> json" where
  "redactBody unmarshal b =
     (case unmarshal b of None \<Rightarrow> JStr (redactRawSnippet b) | Some v \<Rightarrow> redactDebugValue [] v)"

subsection \<open>Levels\<close>

definition debugLevel :: "int \<Rightarrow> string" where
  "debugLevel status = (if status \<ge> 500 then ''error'' else if status \<ge> 400 then ''warn'' else ''info'')"

definition debugLevelRank :: "string \<Rightarrow> nat" where
  "debugLevelRank level =
     (if level = ''debug'' then 0 else if level = ''info'' then 1 else if level = ''warn'' then 2
      else if level = ''error'' then 3 else if level = ''silent'' then 4 else 1)"

definition configuredDebugLevel :: "environment \<Rightarrow> runtimeSettings \<Rightarrow> string" where
  "configuredDebugLevel env settings =
     (let level = TrimSpace (Getenv env ''M365_LOG_LEVEL'')
      in if level \<noteq> [] then level
         else let level = TrimSpace (LogLevel settings) in if level = [] then ''warn'' else level)"

text \<open>
  The implicit level at the start of the process; the level in the settings file, when it has one, is given as decoded.
\<close>

definition applyDefaultDebugLogLevel :: "environment \<Rightarrow> string option \<Rightarrow> runtimeSettings \<Rightarrow> runtimeSettings" where
  "applyDefaultDebugLogLevel env stored settings =
     (if \<not> blank (Getenv env ''M365_LOG_LEVEL'') then settings
      else if (case stored of Some level \<Rightarrow> \<not> blank level | None \<Rightarrow> False) then settings
      else if LogLevel settings = [] \<or> LogLevel settings = ''info'' then settings\<lparr>LogLevel := ''warn''\<rparr>
      else settings)"

subsection \<open>Records\<close>

record debugRecord =
  drID :: string
  drRequestID :: string
  drAt :: gotime
  drPath :: string
  drMethod :: string
  drStatus :: int
  drLevel :: string
  drDurationMS :: int
  drTokenSource :: string
  drCacheSource :: string
  drClient :: json
  drUpstream :: json
  drGateway :: json

definition debugRecordJSON :: "(gotime \<Rightarrow> string) \<Rightarrow> debugRecord \<Rightarrow> json" where
  "debugRecordJSON stamp r =
     JObj ([(''id'', JStr (drID r))] @ (if drRequestID r = [] then [] else [(''requestId'', JStr (drRequestID r))])
       @ [(''at'', JStr (stamp (drAt r))), (''path'', JStr (drPath r)), (''method'', JStr (drMethod r)),
          (''status'', JNum (showInt (drStatus r))), (''level'', JStr (drLevel r)), (''durationMs'', JNum (showInt (drDurationMS r))),
          (''inputTokens'', JNull), (''outputTokens'', JNull), (''tokenSource'', JStr (drTokenSource r)),
          (''cacheHit'', JNull), (''cacheSource'', JStr (drCacheSource r)),
          (''client'', drClient r), (''upstream'', drUpstream r), (''gateway'', drGateway r)])"

text \<open>The members of a structure are written in its order, those of a map in the order of their names.\<close>

definition marshalRecord :: "(gotime \<Rightarrow> string) \<Rightarrow> debugRecord \<Rightarrow> string" where
  "marshalRecord stamp r =
     render (debugRecordJSON stamp (r\<lparr>drClient := canon (drClient r), drUpstream := canon (drUpstream r),
                                     drGateway := canon (drGateway r)\<rparr>))"

definition ellipsis :: string where
  "ellipsis = [CHR 0xE2, CHR 0x80, CHR 0xA6]"

definition truncateDebugString :: "string \<Rightarrow> nat \<Rightarrow> string" where
  "truncateDebugString value maxBytes =
     (if maxBytes < 1 \<or> length value \<le> maxBytes then value else shrinkValid (take maxBytes value) @ ellipsis)"

definition notCaptured :: "string \<Rightarrow> (string \<times> json) list \<Rightarrow> json" where
  "notCaptured reason extra = JObj ([(''captured'', JBool False), (''reason'', JStr reason)] @ extra)"

definition boundDebugValue :: "json \<Rightarrow> nat \<Rightarrow> json" where
  "boundDebugValue value maxBytes =
     (let n = length (mustJSON value)
      in if n \<le> maxBytes then value else notCaptured ''value_too_large'' [(''bytes'', JNum (showNat n))])"

definition boundDebugRecord :: "(gotime \<Rightarrow> string) \<Rightarrow> debugRecord \<Rightarrow> debugRecord" where
  "boundDebugRecord stamp r =
     (let r = r\<lparr>drID := truncateDebugString (drID r) 256, drRequestID := truncateDebugString (drRequestID r) 256,
               drPath := truncateDebugString (drPath r) debugPathBytes, drMethod := truncateDebugString (drMethod r) 32,
               drLevel := truncateDebugString (drLevel r) 16, drTokenSource := truncateDebugString (drTokenSource r) 128,
               drCacheSource := truncateDebugString (drCacheSource r) 128,
               drClient := boundDebugValue (drClient r) debugValueBytes,
               drUpstream := boundDebugValue (drUpstream r) debugValueBytes,
               drGateway := boundDebugValue (drGateway r) debugValueBytes\<rparr>;
          limit = notCaptured ''record_size_limit'' []
      in if length (marshalRecord stamp r) > debugRecordBytes
         then r\<lparr>drClient := limit, drUpstream := limit, drGateway := limit\<rparr> else r)"

subsection \<open>The log file\<close>

text \<open>The files by their number, 0 being the one that is written, and the number of system calls made so far.\<close>

record logDisk =
  ldFiles :: "(nat, string) gomap"
  ldCalls :: nat

record diskEnv =
  deFails :: "nat \<Rightarrow> bool"
  dePartial :: "nat \<Rightarrow> nat"

definition diskCall :: "diskEnv \<Rightarrow> (logDisk \<Rightarrow> logDisk) \<Rightarrow> logDisk \<Rightarrow> bool \<times> logDisk" where
  "diskCall env f d =
     (let n = ldCalls d; d = d\<lparr>ldCalls := n + 1\<rparr> in if deFails env n then (False, d) else (True, f d))"

text \<open>A missing file is no error for either.\<close>

definition removeLog :: "diskEnv \<Rightarrow> nat \<Rightarrow> logDisk \<Rightarrow> bool \<times> logDisk" where
  "removeLog env i d = diskCall env (\<lambda>d. d\<lparr>ldFiles := AList.delete i (ldFiles d)\<rparr>) d"

definition renameLog :: "diskEnv \<Rightarrow> nat \<Rightarrow> nat \<Rightarrow> logDisk \<Rightarrow> bool \<times> logDisk" where
  "renameLog env i j d =
     diskCall env
       (\<lambda>d. case map_of (ldFiles d) i of
              Some c \<Rightarrow> d\<lparr>ldFiles := AList.update j c (AList.delete i (ldFiles d))\<rparr>
            | None \<Rightarrow> d) d"

fun shiftLogs :: "diskEnv \<Rightarrow> nat \<Rightarrow> logDisk \<Rightarrow> bool \<times> logDisk" where
  "shiftLogs env 0 d = (True, d)"
| "shiftLogs env (Suc i) d =
     (case renameLog env (Suc i) (Suc (Suc i)) d of
        (False, d) \<Rightarrow> (False, d)
      | (True, d) \<Rightarrow> shiftLogs env i d)"

definition rotateLocked :: "diskEnv \<Rightarrow> nat \<Rightarrow> logDisk \<Rightarrow> bool \<times> logDisk" where
  "rotateLocked env maxFiles d =
     (if maxFiles \<le> 1 then removeLog env 0 d
      else case removeLog env (maxFiles - 1) d of
             (False, d) \<Rightarrow> (False, d)
           | (True, d) \<Rightarrow>
               (case shiftLogs env (maxFiles - 2) d of
                  (False, d) \<Rightarrow> (False, d)
                | (True, d) \<Rightarrow> renameLog env 0 1 d))"

definition openLogFile :: "diskEnv \<Rightarrow> logDisk \<Rightarrow> bool \<times> logDisk" where
  "openLogFile env d = diskCall env (\<lambda>d. d\<lparr>ldFiles := AList.update 0 (getOr [] (ldFiles d) 0) (ldFiles d)\<rparr>) d"

definition extendLog :: "string \<Rightarrow> logDisk \<Rightarrow> logDisk" where
  "extendLog s d = d\<lparr>ldFiles := AList.update 0 (getOr [] (ldFiles d) 0 @ s) (ldFiles d)\<rparr>"

text \<open>Opening, changing the mode, writing and closing; a failing write may have written the beginning of the line.\<close>

definition writeLog :: "diskEnv \<Rightarrow> string \<Rightarrow> logDisk \<Rightarrow> bool \<times> logDisk" where
  "writeLog env line d =
     (case openLogFile env d of
        (False, d) \<Rightarrow> (False, d)
      | (True, d) \<Rightarrow>
     (case diskCall env id d of
        (False, d) \<Rightarrow> (False, snd (diskCall env id d))
      | (True, d) \<Rightarrow>
     (case diskCall env (extendLog line) d of
        (False, d') \<Rightarrow> (False, snd (diskCall env id (extendLog (take (dePartial env (ldCalls d)) line) d')))
      | (True, d) \<Rightarrow> diskCall env id d)))"

record debugStore =
  dsRecords :: "debugRecord list"
  dsMaxBytes :: int
  dsMaxFiles :: int
  dsLastError :: gotime
  dsDisk :: logDisk

definition fileLimits :: "debugStore \<Rightarrow> int \<times> int" where
  "fileLimits s =
     ((if dsMaxBytes s \<le> 0 then debugLogMaxBytes else dsMaxBytes s), (if dsMaxFiles s \<le> 0 then debugLogMaxFiles else dsMaxFiles s))"

text \<open>The active file is rotated away when the line would not fit in it.\<close>

definition makeRoom :: "diskEnv \<Rightarrow> int \<Rightarrow> nat \<Rightarrow> string \<Rightarrow> logDisk \<Rightarrow> bool \<times> logDisk" where
  "makeRoom env maxBytes maxFiles line d =
     (case diskCall env id d of
        (False, d) \<Rightarrow> (False, d)
      | (True, d) \<Rightarrow>
          (case map_of (ldFiles d) 0 of
             Some c \<Rightarrow> if int (length c) + int (length line) > maxBytes then rotateLocked env maxFiles d else (True, d)
           | None \<Rightarrow> (True, d)))"

definition appendLines :: "diskEnv \<Rightarrow> int \<Rightarrow> nat \<Rightarrow> string \<Rightarrow> logDisk \<Rightarrow> bool \<times> logDisk" where
  "appendLines env maxBytes maxFiles line d =
     (if int (length line) > maxBytes then (False, d)
      else case diskCall env id d of
             (False, d) \<Rightarrow> (False, d)
           | (True, d) \<Rightarrow>
               (case makeRoom env maxBytes maxFiles line d of
                  (False, d) \<Rightarrow> (False, d)
                | (True, d) \<Rightarrow> writeLog env line d))"

definition appendLocked :: "diskEnv \<Rightarrow> string \<Rightarrow> debugStore \<Rightarrow> bool \<times> debugStore" where
  "appendLocked env line s =
     (case fileLimits s of
        (maxBytes, maxFiles) \<Rightarrow>
          apsnd (\<lambda>d. s\<lparr>dsDisk := d\<rparr>) (appendLines env maxBytes (nat maxFiles) line (dsDisk s)))"

definition reportWriteErrorLocked :: "gotime \<Rightarrow> debugStore \<Rightarrow> debugStore" where
  "reportWriteErrorLocked now s = (if now - dsLastError s < minutes 1 then s else s\<lparr>dsLastError := now\<rparr>)"

record debugEnv =
  dbDisk :: diskEnv
  dbStamp :: "gotime \<Rightarrow> string"
  dbEnviron :: environment
  dbSettings :: runtimeSettings

definition addRecord :: "debugEnv \<Rightarrow> gotime \<Rightarrow> debugRecord \<Rightarrow> debugStore \<Rightarrow> debugStore" where
  "addRecord env now r s =
     (let configured = configuredDebugLevel (dbEnviron env) (dbSettings env)
      in if configured = ''silent'' \<or> debugLevelRank (drLevel r) < debugLevelRank configured then s
         else
           let r = boundDebugRecord (dbStamp env) r;
               line = marshalRecord (dbStamp env) r @ newline;
               rs = dsRecords s @ [r];
               s = s\<lparr>dsRecords := drop (length rs - debugMaxRecords) rs\<rparr>
           in case appendLocked (dbDisk env) line s of
                (True, s) \<Rightarrow> s
              | (False, s) \<Rightarrow> reportWriteErrorLocked now s)"

definition listRecords :: "debugStore \<Rightarrow> debugRecord list" where
  "listRecords s = rev (dsRecords s)"

definition getRecord :: "string \<Rightarrow> debugStore \<Rightarrow> debugRecord option" where
  "getRecord ident s = find (\<lambda>r. drID r = ident) (dsRecords s)"

subsection \<open>Captured bodies\<close>

record byteCapture =
  bcTotal :: nat
  bcBody :: string
  bcTail :: string

definition emptyCapture :: byteCapture where
  "emptyCapture = \<lparr>bcTotal = 0, bcBody = [], bcTail = []\<rparr>"

definition captureBytes :: "string \<Rightarrow> byteCapture \<Rightarrow> byteCapture" where
  "captureBytes p c =
     (let tail = bcTail c @ p;
          remaining = debugSnippetBytes - length (bcBody c)
      in \<lparr>bcTotal = bcTotal c + length p, bcBody = bcBody c @ take remaining p,
          bcTail = drop (length tail - debugSnippetBytes) tail\<rparr>)"

text \<open>The view of a capture; the length of the request is negative when it is not known.\<close>

definition captureView :: "(string \<Rightarrow> json option) \<Rightarrow> bool \<Rightarrow> int \<Rightarrow> byteCapture \<Rightarrow> json" where
  "captureView unmarshal includeBody contentLength c =
     (let cutShort = bcTotal c > length (bcBody c)
      in JObj ([(''bytes'', JNum (showNat (bcTotal c))), (''truncated'', JBool cutShort)]
           @ (if contentLength \<ge> 0 then [(''contentLength'', JNum (showInt contentLength))] else [])
           @ (if includeBody \<and> bcBody c \<noteq> []
              then [(''body'', boundDebugValue (redactBody unmarshal (bcBody c)) debugValueBytes)]
                   @ (if cutShort \<and> bcTail c \<noteq> []
                      then [(''tail'', boundDebugValue (redactBody unmarshal (bcTail c)) debugValueBytes)] else [])
              else [])))"

definition jsonMember :: "string \<Rightarrow> string \<Rightarrow> string" where
  "jsonMember name value = [CHR 0x22] @ name @ [CHR 0x22, CHR '':'', CHR 0x22] @ value @ [CHR 0x22]"

definition failureMarkers :: "string list" where
  "failureMarkers =
     [jsonMember ''type'' ''response.failed'', jsonMember ''type'' ''upstream_error'',
      jsonMember ''type'' ''session_persistence_error'', jsonMember ''code'' ''required_tool_missing'',
      jsonMember ''code'' ''tool_loop_detected'', ''event: error'']"

definition hasStreamTerminalFailure :: "byteCapture \<Rightarrow> bool" where
  "hasStreamTerminalFailure c =
     (let snippet = bcBody c @ (if bcTotal c > length (bcBody c) then newline @ bcTail c else [])
      in list_ex (Contains snippet) failureMarkers)"

text \<open>The writer that watches the response; a write is given with the number of bytes that were accepted.\<close>

datatype writerCall = CallWriteHeader int | CallFlush | CallWrite string nat

record captureWriter =
  cwStatus :: int
  cwCapture :: byteCapture

fun watchCall :: "writerCall \<Rightarrow> captureWriter \<Rightarrow> captureWriter" where
  "watchCall (CallWriteHeader status) w = (if cwStatus w \<noteq> 0 then w else w\<lparr>cwStatus := status\<rparr>)"
| "watchCall CallFlush w = (if cwStatus w = 0 then w\<lparr>cwStatus := 200\<rparr> else w)"
| "watchCall (CallWrite p n) w =
     (let w = (if cwStatus w = 0 then w\<lparr>cwStatus := 200\<rparr> else w)
      in if n > 0 then w\<lparr>cwCapture := captureBytes (take n p) (cwCapture w)\<rparr> else w)"

definition watchCalls :: "writerCall list \<Rightarrow> captureWriter" where
  "watchCalls calls =
     (let w = fold watchCall calls \<lparr>cwStatus = 0, cwCapture = emptyCapture\<rparr>
      in if cwStatus w = 0 then w\<lparr>cwStatus := 200\<rparr> else w)"

subsection \<open>The middleware\<close>

text \<open>A request and what its handler did: the pieces of the body it read, and its calls of the writer.\<close>

record handledRequest =
  hqPath :: string
  hqMethod :: string
  hqRequestID :: string
  hqLength :: int
  hqReads :: "string list"
  hqCalls :: "writerCall list"
  hqStart :: gotime
  hqEnd :: gotime

definition handledRecord :: "(string \<Rightarrow> json option) \<Rightarrow> string \<Rightarrow> handledRequest \<Rightarrow> debugRecord" where
  "handledRecord unmarshal ident q =
     (let w = watchCalls (hqCalls q);
          failed = hasStreamTerminalFailure (cwCapture w);
          includeBody = (cwStatus w \<ge> 400 \<or> failed)
      in \<lparr>drID = ''dbg_'' @ ident, drRequestID = hqRequestID q, drAt = hqStart q, drPath = hqPath q, drMethod = hqMethod q,
          drStatus = cwStatus w, drLevel = (if failed then ''error'' else debugLevel (cwStatus w)),
          drDurationMS = (hqEnd q - hqStart q) div 1000000, drTokenSource = ''unavailable_from_chathub'',
          drCacheSource = ''not_reported_by_upstream'',
          drClient = captureView unmarshal includeBody (hqLength q) (fold captureBytes (hqReads q) emptyCapture),
          drUpstream = notCaptured ''ChatHub transport tracing not attached to request context'' [],
          drGateway = captureView unmarshal includeBody (-1) (cwCapture w)\<rparr>)"

definition debugMiddleware :: "debugEnv \<Rightarrow> (string \<Rightarrow> json option) \<Rightarrow> string \<Rightarrow> handledRequest \<Rightarrow> debugStore \<Rightarrow> debugStore" where
  "debugMiddleware env unmarshal ident q s =
     (if HasPrefix (hqPath q) ''/v1/'' then addRecord env (hqEnd q) (handledRecord unmarshal ident q) s else s)"

end
