(* ===== verification/DebugProps.thy ===== *)
theory DebugProps
  imports DebugLog Utf8Laws
begin

text \<open>What the request log promises: its bounds in memory and on disk, and what redaction removes.\<close>

subsection \<open>The files\<close>

text \<open>All files together, the oldest first.\<close>

definition logText :: "nat \<Rightarrow> logDisk \<Rightarrow> string" where
  "logText n d = concat (map (getOr [] (ldFiles d)) (rev [0..<n]))"

definition logBounded :: "nat \<Rightarrow> int \<Rightarrow> logDisk \<Rightarrow> bool" where
  "logBounded n m d \<longleftrightarrow> (\<forall>i c. map_of (ldFiles d) i = Some c \<longrightarrow> i < n \<and> int (length c) \<le> m)"

text \<open>A step that keeps the bounds and loses at most the oldest bytes.\<close>

definition thinsLog :: "nat \<Rightarrow> int \<Rightarrow> logDisk \<Rightarrow> logDisk \<Rightarrow> bool" where
  "thinsLog n m d d' \<longleftrightarrow> (logBounded n m d \<longrightarrow> logBounded n m d' \<and> suffix (logText n d') (logText n d))"

lemma thinsLog_refl: "ldFiles d' = ldFiles d \<Longrightarrow> thinsLog n m d d'"
  by (simp add: thinsLog_def logBounded_def logText_def)

lemma thinsLog_trans: "thinsLog n m d d' \<Longrightarrow> thinsLog n m d' d'' \<Longrightarrow> thinsLog n m d d''"
  unfolding thinsLog_def by (meson suffix_order.trans)

lemma diskCall_id: "ldFiles (snd (diskCall env id d)) = ldFiles d"
  by (simp add: diskCall_def Let_def)

lemma split_indices: "i < n \<Longrightarrow> rev [0..<n] = rev [Suc i..<n] @ i # rev [0..<i]"
  using upt_conv_Cons [of i n] upt_add_eq_append [of 0 i "n - i"] by simp

text \<open>Deleting the last file, when none comes after it.\<close>

lemma logText_delete_last:
  assumes "0 < n" and "f = AList.delete (n - 1) (ldFiles d)" and "ldFiles d' = f"
  shows "suffix (logText n d') (logText n d)"
proof -
  have r: "rev [0..<n] = (n - 1) # rev [0..<n - 1]" using split_indices [of "n - 1" n] assms(1) by simp
  have m: "map (getOr [] f) (rev [0..<n - 1]) = map (getOr [] (ldFiles d)) (rev [0..<n - 1])"
    by (auto simp: assms(2) getOr_def delete_conv')
  have last: "getOr [] f (n - 1) = []" by (simp add: assms(2) getOr_def delete_conv')
  have "logText n d = getOr [] (ldFiles d) (n - 1) @ logText n d'"
    by (simp only: logText_def r assms(3) list.map concat.simps m last append_Nil)
  then show ?thesis by (simp add: suffix_def)
qed

text \<open>Moving a file to the free number behind it changes nothing.\<close>

lemma logText_move:
  assumes "Suc i < n" and "map_of (ldFiles d) i = Some c" and "map_of (ldFiles d) (Suc i) = None"
    and "ldFiles d' = AList.update (Suc i) c (AList.delete i (ldFiles d))"
  shows "logText n d' = logText n d"
proof -
  have r: "rev [0..<n] = rev [Suc (Suc i)..<n] @ Suc i # i # rev [0..<i]"
    using split_indices [of "Suc i" n] split_indices [of i "Suc i"] assms(1) by simp
  have far: "getOr [] (ldFiles d') j = getOr [] (ldFiles d) j" if "j \<noteq> i" "j \<noteq> Suc i" for j
    using that by (simp add: assms(4) getOr_def update_conv' delete_conv')
  have near: "getOr [] (ldFiles d') (Suc i) = c" "getOr [] (ldFiles d') i = []"
    "getOr [] (ldFiles d) i = c" "getOr [] (ldFiles d) (Suc i) = []"
    using assms(2,3) by (simp_all add: assms(4) getOr_def update_conv' delete_conv')
  have m: "map (getOr [] (ldFiles d')) (rev [Suc (Suc i)..<n]) = map (getOr [] (ldFiles d)) (rev [Suc (Suc i)..<n])"
    "map (getOr [] (ldFiles d')) (rev [0..<i]) = map (getOr [] (ldFiles d)) (rev [0..<i])"
    by (auto intro!: far)
  show ?thesis
    by (simp only: logText_def r map_append list.map concat_append concat.simps near m append_Nil append_Nil2)
qed

lemma removeLog_thins:
  assumes "removeLog env (n - 1) d = (ok, d')" and "0 < n"
  shows "thinsLog n m d d' \<and> (ok \<longrightarrow> map_of (ldFiles d') (n - 1) = None)"
proof (cases ok)
  case True
  with assms(1) have f: "ldFiles d' = AList.delete (n - 1) (ldFiles d)"
    by (auto simp: removeLog_def diskCall_def Let_def split: if_splits)
  with logText_delete_last [OF assms(2) refl f] show ?thesis
    by (auto simp: thinsLog_def logBounded_def delete_conv' split: if_splits)
next
  case False
  with assms(1) show ?thesis by (auto simp: removeLog_def diskCall_def Let_def split: if_splits intro: thinsLog_refl)
qed

lemma renameLog_thins:
  assumes "renameLog env i (Suc i) d = (ok, d')" and "Suc i < n" and "map_of (ldFiles d) (Suc i) = None"
  shows "thinsLog n m d d' \<and> (ok \<longrightarrow> map_of (ldFiles d') i = None)"
proof (cases "ok \<and> map_of (ldFiles d) i \<noteq> None")
  case True
  then obtain c where c: "map_of (ldFiles d) i = Some c" by auto
  with True assms(1) have f: "ldFiles d' = AList.update (Suc i) c (AList.delete i (ldFiles d))"
    by (auto simp: renameLog_def diskCall_def Let_def split: if_splits)
  with logText_move [OF assms(2) c assms(3) f] c assms(2) show ?thesis
    by (auto simp: thinsLog_def logBounded_def update_conv' delete_conv' split: if_splits)
next
  case False
  with assms(1) show ?thesis
    by (auto simp: renameLog_def diskCall_def Let_def split: if_splits option.splits intro: thinsLog_refl)
qed

lemma shiftLogs_thins:
  "shiftLogs env i d = (ok, d') \<Longrightarrow> Suc i < n \<Longrightarrow> map_of (ldFiles d) (Suc i) = None
   \<Longrightarrow> thinsLog n m d d' \<and> (ok \<longrightarrow> map_of (ldFiles d') 1 = None)"
proof (induction i arbitrary: d)
  case 0
  then show ?case by (auto intro: thinsLog_refl)
next
  case (Suc i)
  obtain b e where r: "renameLog env (Suc i) (Suc (Suc i)) d = (b, e)" by force
  note law = renameLog_thins [OF r Suc.prems(2,3), of m]
  show ?case
  proof (cases b)
    case True
    with Suc.prems(1) r have "shiftLogs env i e = (ok, d')" by simp
    with Suc.IH [of e] law True Suc.prems(2) show ?thesis by (auto intro: thinsLog_trans)
  next
    case False
    with Suc.prems(1) r law show ?thesis by auto
  qed
qed

lemma rotate_thins:
  assumes "rotateLocked env n d = (ok, d')" and "0 < n"
  shows "thinsLog n m d d' \<and> (ok \<longrightarrow> map_of (ldFiles d') 0 = None)"
proof (cases "n \<le> 1")
  case True
  with assms have "removeLog env (n - 1) d = (ok, d')" by (simp add: rotateLocked_def)
  with removeLog_thins [OF this assms(2)] True show ?thesis by simp
next
  case False
  obtain b e where r: "removeLog env (n - 1) d = (b, e)" by force
  note law = removeLog_thins [OF r assms(2), of m]
  show ?thesis
  proof (cases b)
    case False
    with assms(1) r law \<open>\<not> n \<le> 1\<close> show ?thesis by (auto simp: rotateLocked_def)
  next
    case b: True
    obtain b' e' where s: "shiftLogs env (n - 2) e = (b', e')" by force
    have "Suc (n - 2) = n - 1" using False by simp
    then have law': "thinsLog n m e e' \<and> (b' \<longrightarrow> map_of (ldFiles e') 1 = None)"
      using shiftLogs_thins [OF s, of n m] False law b by auto
    show ?thesis
    proof (cases b')
      case True
      then have "renameLog env 0 (Suc 0) e' = (ok, d')" using assms(1) r b s False by (simp add: rotateLocked_def)
      from renameLog_thins [OF this, of n m] False True law law' show ?thesis by (auto intro: thinsLog_trans)
    next
      case False
      with assms(1) r b s law law' \<open>\<not> n \<le> 1\<close> show ?thesis by (auto simp: rotateLocked_def intro: thinsLog_trans)
    qed
  qed
qed

subsection \<open>Appending\<close>

lemma logText_extend:
  assumes "0 < n" and "ldFiles d' = AList.update 0 (getOr [] (ldFiles d) 0 @ s) (ldFiles d)"
  shows "logText n d' = logText n d @ s"
proof -
  have r: "rev [0..<n] = rev [Suc 0..<n] @ [0]" using split_indices [of 0 n] assms(1) by simp
  have m: "map (getOr [] (ldFiles d')) (rev [Suc 0..<n]) = map (getOr [] (ldFiles d)) (rev [Suc 0..<n])"
    by (auto simp: assms(2) getOr_def update_conv')
  have z: "getOr [] (ldFiles d') 0 = getOr [] (ldFiles d) 0 @ s" by (simp add: assms(2) getOr_def update_conv')
  show ?thesis
    by (simp only: logText_def r map_append list.map concat_append concat.simps m z append_Nil append_Nil2 append_assoc)
qed

text \<open>A step that appends a beginning of a line, where it fits.\<close>

definition appendsLog :: "nat \<Rightarrow> int \<Rightarrow> string \<Rightarrow> logDisk \<Rightarrow> logDisk \<Rightarrow> bool" where
  "appendsLog n m line d d' \<longleftrightarrow>
     (logBounded n m d \<longrightarrow> logBounded n m d' \<and> (\<exists>p. prefix p line \<and> suffix (logText n d') (logText n d @ p)))"

lemma thins_appends: "thinsLog n m d d' \<Longrightarrow> appendsLog n m line d d'"
  unfolding thinsLog_def appendsLog_def by (metis Nil_prefix append_Nil2)

lemma thins_then_appends: "thinsLog n m d e \<Longrightarrow> appendsLog n m line e d' \<Longrightarrow> appendsLog n m line d d'"
  unfolding thinsLog_def appendsLog_def by (meson suffix_order.trans suffix_appendI same_suffix_suffix)

lemma bounded_extend:
  assumes "logBounded n m d" and "0 < n" and "int (length (getOr [] (ldFiles d) 0)) + int (length s) \<le> m"
    and "ldFiles d' = AList.update 0 (getOr [] (ldFiles d) 0 @ s) (ldFiles d)"
  shows "logBounded n m d'"
  using assms by (auto simp: logBounded_def update_conv' split: if_splits)

lemma extend_appends:
  assumes "0 < n" and "int (length (getOr [] (ldFiles d) 0)) + int (length line) \<le> m" and "prefix p line"
    and "ldFiles d' = AList.update 0 (getOr [] (ldFiles d) 0 @ p) (ldFiles d)"
  shows "appendsLog n m line d d'"
proof -
  have "int (length (getOr [] (ldFiles d) 0)) + int (length p) \<le> m"
    using assms(2,3) prefix_length_le [of p line] by simp
  with bounded_extend [OF _ assms(1) _ assms(4)] logText_extend [OF assms(1,4)] assms(3) show ?thesis
    unfolding appendsLog_def by (metis suffix_order.order_refl)
qed

lemma diskCall_files:
  "diskCall env f d = (ok, d') \<Longrightarrow> ldFiles d' = (if ok then ldFiles (f (d\<lparr>ldCalls := ldCalls d + 1\<rparr>)) else ldFiles d)"
  by (auto simp: diskCall_def Let_def split: if_splits)

lemma update_twice: "AList.update k v (AList.update k w m) = AList.update k v m"
  by (induction m) auto

lemma writeLog_files:
  assumes "writeLog env line d = (ok, d')"
  shows "ldFiles d' = ldFiles d \<or> (\<exists>p. prefix p line \<and> ldFiles d' = AList.update 0 (getOr [] (ldFiles d) 0 @ p) (ldFiles d))"
proof -
  obtain b1 d1 where c1: "openLogFile env d = (b1, d1)" by force
  obtain b2 d2 where c2: "diskCall env id d1 = (b2, d2)" by force
  obtain b3 d3 where c3: "diskCall env (extendLog line) d2 = (b3, d3)" by force
  note f1 = diskCall_files [OF c1 [unfolded openLogFile_def]]
    and f2 = diskCall_files [OF c2, unfolded id_apply] and f3 = diskCall_files [OF c3]
  have same: "ldFiles d2 = ldFiles d1" using f2 by simp
  show ?thesis
  proof (cases b1)
    case False
    with assms c1 f1 show ?thesis by (simp add: writeLog_def)
  next
    case True
    with f1 have opened: "ldFiles d1 = AList.update 0 (getOr [] (ldFiles d) 0) (ldFiles d)" by simp
    have base: "getOr [] (ldFiles d1) 0 = getOr [] (ldFiles d) 0"
      "AList.update 0 c (ldFiles d1) = AList.update 0 c (ldFiles d)" for c
      by (simp_all add: opened getOr_def update_conv' update_twice)
    consider (chmod) "\<not> b2" | (cut) "b2" "\<not> b3" | (whole) "b2" "b3" by blast
    then show ?thesis
    proof cases
      case chmod
      with assms c1 c2 True same have "ldFiles d' = ldFiles d1" by (auto simp: writeLog_def diskCall_id)
      then show ?thesis using opened by (intro disjI2 exI [of _ "[]"]) simp
    next
      case cut
      with assms c1 c2 c3 True have "ldFiles d' = ldFiles (extendLog (take (dePartial env (ldCalls d2)) line) d3)"
        by (auto simp: writeLog_def diskCall_id)
      with f3 cut same base show ?thesis
        by (intro disjI2 exI [of _ "take (dePartial env (ldCalls d2)) line"]) (simp add: extendLog_def take_is_prefix)
    next
      case whole
      with assms c1 c2 c3 True have "ldFiles d' = ldFiles d3"
        using diskCall_id [of env d3] by (auto simp: writeLog_def)
      with f3 whole same base show ?thesis by (intro disjI2 exI [of _ line]) (simp add: extendLog_def)
    qed
  qed
qed

lemma writeLog_appends:
  assumes "writeLog env line d = (ok, d')" and "0 < n" and "int (length (getOr [] (ldFiles d) 0)) + int (length line) \<le> m"
  shows "appendsLog n m line d d'"
  using writeLog_files [OF assms(1)] extend_appends [OF assms(2,3)] thins_appends [OF thinsLog_refl] by blast

lemma makeRoom_thins:
  assumes "makeRoom env m n line d = (ok, d')" and "0 < n" and "int (length line) \<le> m"
  shows "thinsLog n m d d' \<and> (ok \<longrightarrow> int (length (getOr [] (ldFiles d') 0)) + int (length line) \<le> m)"
proof -
  obtain b e where c: "diskCall env id d = (b, e)" by force
  have same: "ldFiles e = ldFiles d" using diskCall_id [of env d] c by simp
  then have thin: "thinsLog n m d e" by (rule thinsLog_refl)
  show ?thesis
  proof (cases "b \<and> (\<exists>c. map_of (ldFiles d) 0 = Some c \<and> int (length c) + int (length line) > m)")
    case True
    then have "rotateLocked env n e = (ok, d')" using assms(1) c same by (auto simp: makeRoom_def)
    from rotate_thins [OF this assms(2), of m] thin assms(3) show ?thesis by (auto intro: thinsLog_trans simp: getOr_def)
  next
    case False
    with assms(1,3) c same thin show ?thesis
      by (auto simp: makeRoom_def getOr_def split: bool.splits option.splits if_splits)
  qed
qed

lemma appendLines_law:
  assumes "appendLines env m n line d = (ok, d')" and "0 < n"
  shows "appendsLog n m line d d'"
proof (cases "int (length line) > m")
  case True
  with assms(1) show ?thesis by (auto simp: appendLines_def intro: thins_appends thinsLog_refl)
next
  case False
  obtain b e where c: "diskCall env id d = (b, e)" by force
  have thin: "thinsLog n m d e" using diskCall_id [of env d] c by (intro thinsLog_refl) simp
  obtain b' e' where r: "makeRoom env m n line e = (b', e')" by force
  note law = makeRoom_thins [OF r assms(2)]
  have l: "int (length line) \<le> m" using False by simp
  consider (stop) "d' = e" | (full) "d' = e'" "b" | (put) "b" "b'" "writeLog env line e' = (ok, d')"
    using assms(1) c r False by (cases b; cases b') (auto simp: appendLines_def)
  then show ?thesis
  proof cases
    case stop
    then show ?thesis using thin by (simp add: thins_appends)
  next
    case full
    then show ?thesis using thin law [OF l] by (blast intro: thins_appends thinsLog_trans)
  next
    case put
    then show ?thesis using thin law [OF l] writeLog_appends [OF put(3) assms(2)]
      by (blast intro: thins_then_appends thinsLog_trans)
  qed
qed

text \<open>When no call fails, the whole line is appended.\<close>

lemma diskCall_ok: "\<forall>k. \<not> deFails env k \<Longrightarrow> diskCall env f d = (True, f (d\<lparr>ldCalls := ldCalls d + 1\<rparr>))"
  by (simp add: diskCall_def Let_def)

lemma shiftLogs_ok: "\<forall>k. \<not> deFails env k \<Longrightarrow> fst (shiftLogs env i d)"
  by (induction i arbitrary: d) (simp_all add: renameLog_def diskCall_ok)

lemma rotate_ok: "\<forall>k. \<not> deFails env k \<Longrightarrow> fst (rotateLocked env n d)"
  using shiftLogs_ok [of env "n - 2"]
  by (auto simp: rotateLocked_def removeLog_def renameLog_def diskCall_ok split: prod.splits bool.splits) (metis fst_conv)+

lemma makeRoom_ok: "\<forall>k. \<not> deFails env k \<Longrightarrow> fst (makeRoom env m n line d)"
  by (auto simp: makeRoom_def diskCall_ok rotate_ok split: option.split)

lemma writeLog_whole:
  "\<forall>k. \<not> deFails env k \<Longrightarrow> writeLog env line d = (ok, d') \<Longrightarrow>
   ldFiles d' = AList.update 0 (getOr [] (ldFiles d) 0 @ line) (ldFiles d)"
  by (auto simp: writeLog_def openLogFile_def extendLog_def diskCall_ok update_twice getOr_def)

lemma appendLines_whole:
  assumes "\<forall>k. \<not> deFails env k" and "int (length line) \<le> m" and "0 < n" and "logBounded n m d"
    and "appendLines env m n line d = (ok, d')"
  shows "suffix (logText n d') (logText n d @ line) \<and> suffix line (logText n d')"
proof -
  define e where "e = d\<lparr>ldCalls := ldCalls d + 1\<rparr>"
  obtain e' where r: "makeRoom env m n line e = (True, e')"
    using makeRoom_ok [OF assms(1), of m n line e] by (cases "makeRoom env m n line e") auto
  have w: "writeLog env line e' = (ok, d')"
    using assms(2,5) r by (simp add: appendLines_def diskCall_ok [OF assms(1)] e_def)
  have "thinsLog n m d e" by (rule thinsLog_refl) (simp add: e_def)
  with makeRoom_thins [OF r assms(3,2)] assms(4) have "suffix (logText n e') (logText n d)"
    by (auto simp: thinsLog_def intro: suffix_order.trans)
  with logText_extend [OF assms(3) writeLog_whole [OF assms(1) w]] show ?thesis
    by (simp add: suffixI same_suffix_suffix)
qed

subsection \<open>The ring and the files together\<close>

definition admitted :: "debugEnv \<Rightarrow> debugRecord \<Rightarrow> bool" where
  "admitted env r \<longleftrightarrow>
     (let configured = configuredDebugLevel (dbEnviron env) (dbSettings env)
      in configured \<noteq> ''silent'' \<and> debugLevelRank configured \<le> debugLevelRank (drLevel r))"

definition keptRecords :: "debugEnv \<Rightarrow> (gotime \<times> debugRecord) list \<Rightarrow> debugRecord list" where
  "keptRecords env rs = map (boundDebugRecord (dbStamp env)) (filter (admitted env) (map snd rs))"

definition logLines :: "debugEnv \<Rightarrow> (gotime \<times> debugRecord) list \<Rightarrow> string list" where
  "logLines env rs = map (\<lambda>r. marshalRecord (dbStamp env) r @ newline) (keptRecords env rs)"

text \<open>No call fails and every line fits into a file.\<close>

definition diskWorks :: "debugEnv \<Rightarrow> int \<Rightarrow> (gotime \<times> debugRecord) list \<Rightarrow> bool" where
  "diskWorks env m rs \<longleftrightarrow> (\<forall>k. \<not> deFails (dbDisk env) k) \<and> (\<forall>l \<in> set (logLines env rs). int (length l) \<le> m)"

definition emptyDebugStore :: "int \<Rightarrow> int \<Rightarrow> debugStore" where
  "emptyDebugStore m n =
     \<lparr>dsRecords = [], dsMaxBytes = m, dsMaxFiles = n, dsLastError = 0, dsDisk = \<lparr>ldFiles = [], ldCalls = 0\<rparr>\<rparr>"

definition addRecords :: "debugEnv \<Rightarrow> (gotime \<times> debugRecord) list \<Rightarrow> debugStore \<Rightarrow> debugStore" where
  "addRecords env rs s = fold (\<lambda>(now, r). addRecord env now r) rs s"

lemma reportWrite_fields [simp]:
  "dsRecords (reportWriteErrorLocked now s) = dsRecords s" "dsDisk (reportWriteErrorLocked now s) = dsDisk s"
  "dsMaxBytes (reportWriteErrorLocked now s) = dsMaxBytes s" "dsMaxFiles (reportWriteErrorLocked now s) = dsMaxFiles s"
  by (simp_all add: reportWriteErrorLocked_def)

lemma addRecord_skips: "\<not> admitted env r \<Longrightarrow> addRecord env now r s = s"
  by (auto simp: addRecord_def admitted_def Let_def)

lemma addRecord_adds:
  assumes "admitted env r" and "fileLimits s = (m, n)"
  defines "r' \<equiv> boundDebugRecord (dbStamp env) r"
  shows "dsRecords (addRecord env now r s) = drop (length (dsRecords s @ [r']) - debugMaxRecords) (dsRecords s @ [r'])
    \<and> fileLimits (addRecord env now r s) = (m, n)
    \<and> (\<exists>ok. appendLines (dbDisk env) m (nat n) (marshalRecord (dbStamp env) r' @ newline) (dsDisk s)
             = (ok, dsDisk (addRecord env now r s)))"
proof -
  obtain ok d where a: "appendLines (dbDisk env) m (nat n) (marshalRecord (dbStamp env) r' @ newline) (dsDisk s) = (ok, d)" by force
  have lim: "fileLimits (s\<lparr>dsRecords := x\<rparr>) = (m, n)" for x using assms(2) by (auto simp: fileLimits_def)
  have lim': "fileLimits (s\<lparr>dsRecords := x, dsDisk := d\<rparr>) = (m, n)" for x using assms(2) by (auto simp: fileLimits_def)
  have rep: "fileLimits (reportWriteErrorLocked now t) = fileLimits t" for t by (simp add: fileLimits_def)
  from assms(1) show ?thesis
    by (cases ok) (auto simp: addRecord_def admitted_def Let_def appendLocked_def lim lim' rep a r'_def [symmetric] simp del: append_assoc)
qed

lemma ring_step:
  "drop (length (drop (length xs - k) xs @ [x]) - k) (drop (length xs - k) xs @ [x]) = drop (length (xs @ [x]) - k) (xs @ [x])"
  by (cases "length xs < k") (auto simp: Suc_diff_le)

lemma addRecords_law:
  assumes "fileLimits (emptyDebugStore m0 n0) = (m, n)"
  shows "let s = addRecords env rs (emptyDebugStore m0 n0); kept = keptRecords env rs
    in fileLimits s = (m, n) \<and> dsRecords s = drop (length kept - debugMaxRecords) kept \<and> logBounded (nat n) m (dsDisk s)
       \<and> (\<exists>ps. list_all2 prefix ps (logLines env rs) \<and> suffix (logText (nat n) (dsDisk s)) (concat ps))
       \<and> (diskWorks env m rs \<longrightarrow> suffix (logText (nat n) (dsDisk s)) (concat (logLines env rs))
            \<and> (logLines env rs \<noteq> [] \<longrightarrow> suffix (last (logLines env rs)) (logText (nat n) (dsDisk s))))"
proof (induction rs rule: rev_induct)
  case Nil
  from assms show ?case
    by (simp add: addRecords_def keptRecords_def logLines_def emptyDebugStore_def logBounded_def logText_def getOr_def)
next
  case (snoc x rs)
  obtain now r where x: "x = (now, r)" by force
  define s where "s = addRecords env rs (emptyDebugStore m0 n0)"
  have run: "addRecords env (rs @ [x]) (emptyDebugStore m0 n0) = addRecord env now r s"
    by (simp add: addRecords_def s_def x)
  from snoc have IH: "fileLimits s = (m, n)" "dsRecords s = drop (length (keptRecords env rs) - debugMaxRecords) (keptRecords env rs)"
    "logBounded (nat n) m (dsDisk s)" "\<exists>ps. list_all2 prefix ps (logLines env rs) \<and> suffix (logText (nat n) (dsDisk s)) (concat ps)"
    and works: "diskWorks env m rs \<longrightarrow> suffix (logText (nat n) (dsDisk s)) (concat (logLines env rs))
      \<and> (logLines env rs \<noteq> [] \<longrightarrow> suffix (last (logLines env rs)) (logText (nat n) (dsDisk s)))"
    by (simp_all add: s_def Let_def)
  show ?case
  proof (cases "admitted env r")
    case False
    then have "keptRecords env (rs @ [x]) = keptRecords env rs" by (simp add: keptRecords_def x)
    then have same: "keptRecords env (rs @ [x]) = keptRecords env rs" "logLines env (rs @ [x]) = logLines env rs"
      "diskWorks env m (rs @ [x]) = diskWorks env m rs" by (simp_all add: logLines_def diskWorks_def)
    show ?thesis unfolding run same addRecord_skips [OF False] Let_def using IH works by blast
  next
    case True
    define r' where "r' = boundDebugRecord (dbStamp env) r"
    have kept: "keptRecords env (rs @ [x]) = keptRecords env rs @ [r']" using True by (simp add: keptRecords_def x r'_def)
    from addRecord_adds [OF True IH(1), of now, folded r'_def] obtain ok where
      ring: "dsRecords (addRecord env now r s) = drop (length (dsRecords s @ [r']) - debugMaxRecords) (dsRecords s @ [r'])"
      and lim: "fileLimits (addRecord env now r s) = (m, n)"
      and app: "appendLines (dbDisk env) m (nat n) (marshalRecord (dbStamp env) r' @ newline) (dsDisk s)
        = (ok, dsDisk (addRecord env now r s))" by blast
    have pos: "0 < nat n" using IH(1) by (auto simp: fileLimits_def debugLogMaxFiles_def split: if_splits)
    from appendLines_law [OF app pos] IH(3) obtain p where
      p: "prefix p (marshalRecord (dbStamp env) r' @ newline)" "suffix (logText (nat n) (dsDisk (addRecord env now r s))) (logText (nat n) (dsDisk s) @ p)"
      and bounded: "logBounded (nat n) m (dsDisk (addRecord env now r s))"
      unfolding appendsLog_def by blast
    from IH(4) obtain ps where ps: "list_all2 prefix ps (logLines env rs)" "suffix (logText (nat n) (dsDisk s)) (concat ps)" by blast
    have "list_all2 prefix (ps @ [p]) (logLines env (rs @ [x]))"
      using ps(1) p(1) kept by (simp add: logLines_def list_all2_appendI)
    moreover have "suffix (logText (nat n) (dsDisk (addRecord env now r s))) (concat (ps @ [p]))"
      using p(2) ps(2) by (auto intro: suffix_order.trans simp: same_suffix_suffix)
    moreover have "suffix (logText (nat n) (dsDisk (addRecord env now r s))) (concat (logLines env (rs @ [x])))
        \<and> suffix (last (logLines env (rs @ [x]))) (logText (nat n) (dsDisk (addRecord env now r s)))"
      if w: "diskWorks env m (rs @ [x])"
    proof -
      have ls: "logLines env (rs @ [x]) = logLines env rs @ [marshalRecord (dbStamp env) r' @ newline]"
        using kept by (simp add: logLines_def)
      with w have "diskWorks env m rs" and len: "int (length (marshalRecord (dbStamp env) r' @ newline)) \<le> m"
        and nofail: "\<forall>k. \<not> deFails (dbDisk env) k" by (auto simp: diskWorks_def)
      with works have "suffix (logText (nat n) (dsDisk s)) (concat (logLines env rs))" by blast
      then have "suffix (logText (nat n) (dsDisk s) @ marshalRecord (dbStamp env) r' @ newline) (concat (logLines env (rs @ [x])))"
        by (simp add: ls same_suffix_suffix)
      with appendLines_whole [OF nofail len pos IH(3) app] show ?thesis
        unfolding ls by (auto intro: suffix_order.trans)
    qed
    ultimately show ?thesis
      using lim bounded ring unfolding run Let_def kept IH(2) ring_step by blast
  qed
qed

subsection \<open>Redaction\<close>

fun secretsHidden :: "json \<Rightarrow> bool" where
  "secretsHidden (JObj ms) \<longleftrightarrow> list_all (\<lambda>(k, v). if sensitiveDebugKey k then v = JStr redacted else secretsHidden v) ms"
| "secretsHidden (JArr vs) \<longleftrightarrow> list_all secretsHidden vs"
| "secretsHidden _ \<longleftrightarrow> True"

lemma not_sensitive_Nil [simp]: "\<not> sensitiveDebugKey []"
  by code_simp

lemma redact_sensitive: "sensitiveDebugKey key \<Longrightarrow> redactDebugValue key v = JStr redacted"
  by (cases v) auto

lemma redact_hides: "\<not> sensitiveDebugKey key \<Longrightarrow> secretsHidden (redactDebugValue key v)"
  by (induction key v rule: redactDebugValue.induct) (fastforce simp: list_all_iff redact_sensitive)+

text \<open>A captured body is its beginning and its end.\<close>

lemma capture_pieces:
  "fold captureBytes ps emptyCapture
   = \<lparr>bcTotal = length (concat ps), bcBody = take debugSnippetBytes (concat ps),
      bcTail = drop (length (concat ps) - debugSnippetBytes) (concat ps)\<rparr>"
proof (induction ps rule: rev_induct)
  case (snoc p ps)
  have "drop (length (drop (length xs - k) xs @ p) - k) (drop (length xs - k) xs @ p) = drop (length (xs @ p) - k) (xs @ p)"
    for xs :: string and k :: nat
    by (cases "length xs \<le> k") (auto simp: drop_append add.commute)
  with snoc show ?case by (simp add: captureBytes_def Let_def min_def)
qed (simp add: emptyCapture_def)

subsection \<open>Recorded requests\<close>

definition recordHidden :: "debugRecord \<Rightarrow> bool" where
  "recordHidden r \<longleftrightarrow> secretsHidden (drClient r) \<and> secretsHidden (drUpstream r) \<and> secretsHidden (drGateway r)"

lemma sensitive_view [simp]:
  "\<not> sensitiveDebugKey ''bytes''" "\<not> sensitiveDebugKey ''truncated''" "\<not> sensitiveDebugKey ''contentLength''"
  "\<not> sensitiveDebugKey ''body''" "\<not> sensitiveDebugKey ''tail''" "\<not> sensitiveDebugKey ''captured''"
  "\<not> sensitiveDebugKey ''reason''"
  by code_simp+

lemma hidden_notCaptured: "list_all (\<lambda>(k, v). \<not> sensitiveDebugKey k \<and> secretsHidden v) extra \<Longrightarrow> secretsHidden (notCaptured reason extra)"
  by (auto simp: notCaptured_def list_all_iff)

lemma hidden_bound: "secretsHidden v \<Longrightarrow> secretsHidden (boundDebugValue v n)"
  by (simp add: boundDebugValue_def Let_def hidden_notCaptured)

lemma hidden_body: "secretsHidden (redactBody unmarshal b)"
  by (simp add: redactBody_def redact_hides split: option.split)

lemma hidden_view: "secretsHidden (captureView unmarshal inc n c)"
  by (simp add: captureView_def Let_def hidden_bound hidden_body)

lemma hidden_record: "recordHidden (boundDebugRecord stamp (handledRecord unmarshal ident q))"
  by (simp add: recordHidden_def boundDebugRecord_def handledRecord_def Let_def hidden_bound hidden_view hidden_notCaptured)

lemma addRecord_hidden:
  "recordHidden (boundDebugRecord (dbStamp env) r) \<Longrightarrow> list_all recordHidden (dsRecords s)
   \<Longrightarrow> list_all recordHidden (dsRecords (addRecord env now r s))"
proof (cases "admitted env r")
  case True
  assume h: "recordHidden (boundDebugRecord (dbStamp env) r)" "list_all recordHidden (dsRecords s)"
  obtain m n where "fileLimits s = (m, n)" by force
  from addRecord_adds [OF True this, of now] h show ?thesis by (auto simp: list_all_iff dest: in_set_dropD)
qed (simp add: addRecord_skips)

interpretation requestLog: op_system "\<lambda>(ident, q). debugMiddleware env unmarshal ident q" "\<lambda>_. True"
    "\<lambda>s. list_all recordHidden (dsRecords s)" for env unmarshal
  by unfold_locales (auto simp: debugMiddleware_def addRecord_hidden hidden_record)

text \<open>
  Where redaction ends: a body of more than four kilobytes is not decoded but cut. A password with an escaped quote that
  is cut off is no quoted value, and what follows the quote keeps the expression for cut values from matching; the kept end
  of a body may begin inside a value whose name has been cut off.
\<close>

definition cutPassword :: string where
  "cutPassword = jsonMember ''password'' (''ab'' @ [CHR 0x5C, CHR 0x22] @ ''cd'')"

lemma cut_password_kept: "redactRawSnippet (butlast cutPassword) = butlast cutPassword"
  by code_simp

lemma tail_of_password_kept: "redactRawSnippet (drop 15 (jsonMember ''password'' ''abcdef'')) = ''def'' @ [CHR 0x22]"
  by code_simp

subsection \<open>Properties\<close>

text \<open>C38: the request log is bounded. After any records and whatever system calls fail in between, the newest 500
  admitted records are in memory; no more files exist than configured, none longer than its limit; and the files together,
  oldest first, are the end of what has been written: of every admitted line its beginning, in order, nothing lost but
  the oldest bytes. When no call fails and every line fits into a file, all lines are written whole, and the newest is
  there.\<close>

theorem debug_log_bounded:
  "let limits = fileLimits (emptyDebugStore m0 n0); s = addRecords env rs (emptyDebugStore m0 n0); kept = keptRecords env rs
   in dsRecords s = drop (length kept - 500) kept \<and> logBounded (nat (snd limits)) (fst limits) (dsDisk s)
      \<and> (\<exists>ps. list_all2 prefix ps (logLines env rs) \<and> suffix (logText (nat (snd limits)) (dsDisk s)) (concat ps))
      \<and> (diskWorks env (fst limits) rs \<longrightarrow> suffix (logText (nat (snd limits)) (dsDisk s)) (concat (logLines env rs))
           \<and> (logLines env rs \<noteq> [] \<longrightarrow> suffix (last (logLines env rs)) (logText (nat (snd limits)) (dsDisk s))))"
proof -
  obtain m n where "fileLimits (emptyDebugStore m0 n0) = (m, n)" by force
  with addRecords_law [OF this, of env rs] show ?thesis by (simp add: Let_def debugMaxRecords_def)
qed

text \<open>A request that is refused twice.\<close>

definition demoDebug :: debugEnv where
  "demoDebug = \<lparr>dbDisk = \<lparr>deFails = (\<lambda>_. False), dePartial = (\<lambda>_. 0)\<rparr>, dbStamp = (\<lambda>_. ''0''), dbEnviron = (\<lambda>_. None),
     dbSettings = defaultRuntimeSettings (\<lambda>_. None)\<rparr>"

definition demoRefused :: handledRequest where
  "demoRefused = \<lparr>hqPath = ''/v1/models'', hqMethod = ''GET'', hqRequestID = [], hqLength = 0, hqReads = [],
     hqCalls = [CallWriteHeader 401, CallWrite ''no'' 2], hqStart = 0, hqEnd = 1\<rparr>"

definition demoLogged :: "(gotime \<times> debugRecord) list" where
  "demoLogged = [(1, handledRecord (\<lambda>_. None) ''a'' demoRefused), (2, handledRecord (\<lambda>_. None) ''b'' demoRefused)]"

lemma demo_admitted: "map (admitted demoDebug \<circ> snd) demoLogged = [True, True]"
  by code_simp

lemma demo_kept: "length (keptRecords demoDebug demoLogged) = 2"
  using demo_admitted by (simp add: keptRecords_def demoLogged_def)

text \<open>A size that all lines fit into.\<close>

definition demoSize :: int where
  "demoSize = 1 + int (length (concat (logLines demoDebug demoLogged)))"

lemma demo_works: "diskWorks demoDebug demoSize demoLogged"
proof -
  have "length l \<le> length (concat ls)" if "l \<in> set ls" for l :: string and ls
    using that by (induction ls) auto
  then show ?thesis by (fastforce simp: diskWorks_def demoDebug_def demoSize_def)
qed

theorem debug_log_bounded_witness:
  "let s = addRecords demoDebug demoLogged (emptyDebugStore demoSize 2)
   in length (dsRecords s) = 2 \<and> suffix (last (logLines demoDebug demoLogged)) (logText 2 (dsDisk s))"
proof -
  have "demoSize > 0" by (simp add: demoSize_def add_pos_nonneg)
  then have lim: "fileLimits (emptyDebugStore demoSize 2) = (demoSize, 2)" by (simp add: fileLimits_def emptyDebugStore_def)
  have "length (logLines demoDebug demoLogged) = 2" using demo_kept by (simp add: logLines_def)
  then have l: "logLines demoDebug demoLogged \<noteq> []" by auto
  from debug_log_bounded [of demoSize 2 demoDebug demoLogged] demo_works l demo_kept show ?thesis by (simp add: lim Let_def)
qed

subsection \<open>What redaction leaves alone\<close>

text \<open>A place in a value, and what stands there: scalars as they are, objects by their names, lists by their length.\<close>

datatype place = Member string | Element nat

fun valueAt :: "place list \<Rightarrow> json \<Rightarrow> json option" where
  "valueAt [] v = Some v"
| "valueAt (Member k # path) (JObj ms) = (case map_of ms k of Some v \<Rightarrow> valueAt path v | None \<Rightarrow> None)"
| "valueAt (Element i # path) (JArr vs) = (if i < length vs then valueAt path (vs ! i) else None)"
| "valueAt _ _ = None"

fun outline :: "json \<Rightarrow> json" where
  "outline (JObj ms) = JObj (map (\<lambda>(k, _). (k, JNull)) ms)"
| "outline (JArr vs) = JArr (map (\<lambda>_. JNull) vs)"
| "outline v = v"

definition openPlace :: "place list \<Rightarrow> bool" where
  "openPlace path \<longleftrightarrow>
     list_all (\<lambda>st. case st of Member k \<Rightarrow> \<not> sensitiveDebugKey k | Element _ \<Rightarrow> True) path"

lemma openPlace_simps [simp]:
  "openPlace []" "openPlace (Member k # path) \<longleftrightarrow> \<not> sensitiveDebugKey k \<and> openPlace path"
  "openPlace (Element i # path) \<longleftrightarrow> openPlace path"
  by (simp_all add: openPlace_def)

lemma map_of_keyed: "map_of (map (\<lambda>(k, v). (k, f k v)) ms) k = map_option (f k) (map_of ms k)"
  by (induction ms) auto

lemma redact_open: "\<not> sensitiveDebugKey k \<Longrightarrow> redactDebugValue k v = redactDebugValue [] v"
  by (cases v) simp_all

lemma outline_redact [simp]: "outline (redactDebugValue [] v) = outline v"
  by (cases v) (auto simp: comp_def case_prod_beta)

lemma valueAt_redacted:
  "\<not> sensitiveDebugKey k \<Longrightarrow> valueAt (Member k # path) (redactDebugValue [] v) =
     (case v of
        JObj ms \<Rightarrow> (case map_of ms k of Some w \<Rightarrow> valueAt path (redactDebugValue [] w) | None \<Rightarrow> None)
      | _ \<Rightarrow> None)"
  "valueAt (Element i # path) (redactDebugValue [] v) =
     (case v of JArr vs \<Rightarrow> if i < length vs then valueAt path (redactDebugValue [] (vs ! i)) else None | _ \<Rightarrow> None)"
  using redact_open [of k] by (cases v; simp add: map_of_keyed split: option.split)+

lemma redact_outside:
  "openPlace path \<Longrightarrow> map_option outline (valueAt path (redactDebugValue [] v)) = map_option outline (valueAt path v)"
proof (induction path arbitrary: v)
  case (Cons st path)
  show ?case
  proof (cases st)
    case (Member k)
    with Cons show ?thesis
      by (cases v) (simp_all add: valueAt_redacted del: redactDebugValue.simps split: option.split)
  next
    case (Element i)
    with Cons show ?thesis by (cases v) (simp_all add: valueAt_redacted del: redactDebugValue.simps)
  qed
qed simp

lemma redact_marks:
  "openPlace path \<Longrightarrow> sensitiveDebugKey k \<Longrightarrow>
   valueAt (path @ [Member k]) (redactDebugValue [] v)
     = map_option (\<lambda>_. JStr redacted) (valueAt (path @ [Member k]) v)"
proof (induction path arbitrary: v)
  case Nil
  then show ?case by (cases v) (auto simp: map_of_keyed redact_sensitive split: option.split)
next
  case (Cons st path)
  show ?case
  proof (cases st)
    case (Member j)
    with Cons show ?thesis
      by (cases v) (simp_all add: valueAt_redacted del: redactDebugValue.simps split: option.split)
  next
    case (Element i)
    with Cons show ?thesis by (cases v) (simp_all add: valueAt_redacted del: redactDebugValue.simps)
  qed
qed

text \<open>C39: whatever requests are handled, no record in memory has anything under a sensitive name but the mark
  [redacted], at any depth of a body that could be decoded. Redaction puts the mark at every sensitive name and
  changes nothing else: at a place that no sensitive name leads to, every scalar stays as it is, every object
  keeps its names in order and every list its length.\<close>

theorem secrets_redacted:
  "list_all recordHidden (dsRecords (fold (\<lambda>(ident, q). debugMiddleware env unmarshal ident q) qs (emptyDebugStore m n)))
   \<and> (openPlace path \<longrightarrow>
        map_option outline (valueAt path (redactDebugValue [] v)) = map_option outline (valueAt path v)
      \<and> (sensitiveDebugKey k \<longrightarrow>
           valueAt (path @ [Member k]) (redactDebugValue [] v)
             = map_option (\<lambda>_. JStr redacted) (valueAt (path @ [Member k]) v)))"
proof
  show "list_all recordHidden (dsRecords (fold (\<lambda>(ident, q). debugMiddleware env unmarshal ident q) qs (emptyDebugStore m n)))"
    by (rule requestLog.run_inv) (simp_all add: emptyDebugStore_def)
qed (simp add: redact_outside redact_marks)

definition exSecrets :: json where
  "exSecrets = JObj [(''messages'', JArr [JObj [(''password'', JStr ''x''), (''role'', JStr ''user'')]])]"

theorem secrets_redacted_witness:
  "valueAt [Member ''messages'', Element 0, Member ''password''] (redactDebugValue [] exSecrets) = Some (JStr redacted)
   \<and> map_option outline (valueAt [Member ''messages'', Element 0, Member ''role''] (redactDebugValue [] exSecrets))
      = Some (JStr ''user'')"
proof -
  have o: "openPlace [Member ''messages'', Element 0]" "openPlace [Member ''messages'', Element 0, Member ''role'']"
    and k: "sensitiveDebugKey ''password''"
    by code_simp+
  have v: "valueAt [Member ''messages'', Element 0, Member ''password''] exSecrets = Some (JStr ''x'')"
    "valueAt [Member ''messages'', Element 0, Member ''role''] exSecrets = Some (JStr ''user'')"
    by (simp_all add: exSecrets_def)
  from secrets_redacted [of _ _ "[]" 0 0 "[Member ''messages'', Element 0]" exSecrets "''password''"]
    secrets_redacted [of _ _ "[]" 0 0 "[Member ''messages'', Element 0, Member ''role'']" exSecrets "''password''"]
  show ?thesis using o k v by simp
qed

end
