(* ===== verification/KeepAlive.thy ===== *)
theory KeepAlive
  imports ChatFrames
begin

text \<open>
  The comment heartbeat of event streams, internal/web/sse_keepalive.go: a response writer whose writes are serialised by
  a mutex, and a goroutine that writes a comment when nothing has been written for fifteen seconds. The steps are the
  critical sections of the mutex and the choices of the goroutine's select; they interleave arbitrarily. The goroutine
  looks at the time of the last write before it takes the mutex, so the handler may write in between. How many bytes of a
  write are accepted and whether it fails are given with the step, as is the reading of the clock. HandlerHeader is a call
  of WriteHeader or Flush; the flush after a write and the deadline of a heartbeat are not modelled.
\<close>

definition sseHeartbeatIdle :: duration where
  "sseHeartbeatIdle = seconds 15"

definition keepaliveComment :: string where
  "keepaliveComment = '': keepalive'' @ newline @ newline"

datatype sseWrite = Payload string | Beat string

text \<open>The goroutine waits for the first write of a stream, for a tick, or for the mutex; or it has ended.\<close>

datatype beatPhase = BeatWaiting | BeatTicking | BeatDue gotime | BeatEnded

record sseResponseWriter =
  kaContentType :: string
  kaStarted :: bool
  kaStop :: bool
  kaCancelled :: bool
  kaReturned :: bool
  kaPhase :: beatPhase
  kaLast :: gotime
  kaOut :: "(gotime \<times> sseWrite) list"

definition newSSEResponseWriter :: "gotime \<Rightarrow> sseResponseWriter" where
  "newSSEResponseWriter now =
     \<lparr>kaContentType = [], kaStarted = False, kaStop = False, kaCancelled = False, kaReturned = False, kaPhase = BeatWaiting,
      kaLast = now, kaOut = []\<rparr>"

definition isEventStream :: "string \<Rightarrow> bool" where
  "isEventStream v \<longleftrightarrow> HasPrefix (ToLower v) ''text/event-stream''"

definition startIfSSELocked :: "sseResponseWriter \<Rightarrow> sseResponseWriter" where
  "startIfSSELocked s = (if isEventStream (kaContentType s) then s\<lparr>kaStarted := True\<rparr> else s)"

text \<open>A write of which n bytes were accepted at the given time.\<close>

definition accept :: "gotime \<Rightarrow> nat \<Rightarrow> (string \<Rightarrow> sseWrite) \<Rightarrow> string \<Rightarrow> sseResponseWriter \<Rightarrow> sseResponseWriter" where
  "accept now n kind p s =
     (if n > 0 then s\<lparr>kaLast := now, kaOut := kaOut s @ [(now, kind (take n p))]\<rparr> else s)"

definition writeHeartbeat :: "gotime \<Rightarrow> nat \<Rightarrow> bool \<Rightarrow> sseResponseWriter \<Rightarrow> sseResponseWriter" where
  "writeHeartbeat now n failed s =
     (let s = accept now n Beat keepaliveComment s
      in if failed then s\<lparr>kaCancelled := True, kaPhase := BeatEnded\<rparr> else s\<lparr>kaPhase := BeatTicking\<rparr>)"

datatype sseStep =
    SetContentType string
  | HandlerHeader
  | HandlerWrite gotime string nat
  | HandlerReturns
  | ContextDone
  | BeatStarts
  | BeatTick gotime
  | BeatWrites gotime nat bool
  | BeatStops

text \<open>
  Whether a step can be taken. The handler acts until it returns, the goroutine until it ends; a goroutine that waits for
  a tick may take the tick although it has been told to stop, because select chooses among all that is ready.
\<close>

fun sseEnabled :: "sseStep \<Rightarrow> sseResponseWriter \<Rightarrow> bool" where
  "sseEnabled (SetContentType v) s \<longleftrightarrow> \<not> kaReturned s"
| "sseEnabled HandlerHeader s \<longleftrightarrow> \<not> kaReturned s"
| "sseEnabled (HandlerWrite now p n) s \<longleftrightarrow> \<not> kaReturned s"
| "sseEnabled HandlerReturns s \<longleftrightarrow> \<not> kaReturned s"
| "sseEnabled ContextDone s \<longleftrightarrow> True"
| "sseEnabled BeatStarts s \<longleftrightarrow> kaPhase s = BeatWaiting \<and> kaStarted s"
| "sseEnabled (BeatTick now) s \<longleftrightarrow> kaPhase s = BeatTicking"
| "sseEnabled (BeatWrites now n failed) s \<longleftrightarrow> (case kaPhase s of BeatDue since \<Rightarrow> True | _ \<Rightarrow> False)"
| "sseEnabled BeatStops s \<longleftrightarrow> kaPhase s \<in> {BeatWaiting, BeatTicking} \<and> (kaStop s \<or> kaCancelled s)"

fun sseTake :: "sseStep \<Rightarrow> sseResponseWriter \<Rightarrow> sseResponseWriter" where
  "sseTake (SetContentType v) s = s\<lparr>kaContentType := v\<rparr>"
| "sseTake HandlerHeader s = startIfSSELocked s"
| "sseTake (HandlerWrite now p n) s = accept now n Payload p (startIfSSELocked s)"
| "sseTake HandlerReturns s = s\<lparr>kaReturned := True, kaStop := True\<rparr>"
| "sseTake ContextDone s = s\<lparr>kaCancelled := True\<rparr>"
| "sseTake BeatStarts s = s\<lparr>kaPhase := BeatTicking\<rparr>"
| "sseTake (BeatTick now) s =
     (if now - kaLast s < sseHeartbeatIdle then s else s\<lparr>kaPhase := BeatDue now\<rparr>)"
| "sseTake (BeatWrites now n failed) s = writeHeartbeat now n failed s"
| "sseTake BeatStops s = s\<lparr>kaPhase := BeatEnded\<rparr>"

text \<open>A step that cannot be taken does not happen.\<close>

definition sseExec :: "sseStep \<Rightarrow> sseResponseWriter \<Rightarrow> sseResponseWriter" where
  "sseExec ev s = (if sseEnabled ev s then sseTake ev s else s)"

text \<open>The request is finished when the handler has returned and the goroutine has ended.\<close>

definition sseFinished :: "sseResponseWriter \<Rightarrow> bool" where
  "sseFinished s \<longleftrightarrow> kaReturned s \<and> kaPhase s = BeatEnded"

definition sseRun :: "sseStep list \<Rightarrow> sseResponseWriter \<Rightarrow> sseResponseWriter" where
  "sseRun evs s = fold sseExec evs s"

subsection \<open>What the client reads\<close>

fun isBeat :: "gotime \<times> sseWrite \<Rightarrow> bool" where
  "isBeat (t, Beat b) \<longleftrightarrow> True"
| "isBeat (t, Payload p) \<longleftrightarrow> False"

fun beatStep :: "sseStep \<Rightarrow> bool" where
  "beatStep BeatStarts \<longleftrightarrow> True"
| "beatStep (BeatTick now) \<longleftrightarrow> True"
| "beatStep (BeatWrites now n failed) \<longleftrightarrow> True"
| "beatStep BeatStops \<longleftrightarrow> True"
| "beatStep _ \<longleftrightarrow> False"

definition payloads :: "sseResponseWriter \<Rightarrow> (gotime \<times> sseWrite) list" where
  "payloads s = filter (Not \<circ> isBeat) (kaOut s)"

lemma startIfSSE_fields [simp]:
  "kaContentType (startIfSSELocked s) = kaContentType s" "kaReturned (startIfSSELocked s) = kaReturned s"
  "kaOut (startIfSSELocked s) = kaOut s" "kaPhase (startIfSSELocked s) = kaPhase s" "kaLast (startIfSSELocked s) = kaLast s"
  "kaStop (startIfSSELocked s) = kaStop s"
  "kaStarted (startIfSSELocked s) = (kaStarted s \<or> isEventStream (kaContentType s))"
  by (simp_all add: startIfSSELocked_def)

lemma accept_fields [simp]:
  "kaContentType (accept now n kind p s) = kaContentType s" "kaReturned (accept now n kind p s) = kaReturned s"
  "kaStarted (accept now n kind p s) = kaStarted s" "kaPhase (accept now n kind p s) = kaPhase s"
  "kaOut (accept now n kind p s) = kaOut s @ (if n > 0 then [(now, kind (take n p))] else [])"
  "kaLast (accept now n kind p s) = (if n > 0 then now else kaLast s)"
  by (simp_all add: accept_def)

lemma heartbeat_fields [simp]:
  "kaContentType (writeHeartbeat now n f s) = kaContentType s" "kaReturned (writeHeartbeat now n f s) = kaReturned s"
  "kaStarted (writeHeartbeat now n f s) = kaStarted s"
  "kaOut (writeHeartbeat now n f s) = kaOut s @ (if n > 0 then [(now, Beat (take n keepaliveComment))] else [])"
  "kaLast (writeHeartbeat now n f s) = (if n > 0 then now else kaLast s)"
  "kaPhase (writeHeartbeat now n f s) = (if f then BeatEnded else BeatTicking)"
  by (simp_all add: writeHeartbeat_def Let_def)

text \<open>What the handler sees of the writer.\<close>

definition handlerView :: "sseResponseWriter \<Rightarrow> string \<times> bool \<times> bool \<times> (gotime \<times> sseWrite) list" where
  "handlerView s = (kaContentType s, kaStarted s, kaReturned s, payloads s)"

lemma beat_invisible: "beatStep ev \<Longrightarrow> handlerView (sseExec ev s) = handlerView s"
  by (cases ev) (simp_all add: handlerView_def payloads_def sseExec_def)

lemma handler_view: "\<not> beatStep ev \<Longrightarrow> handlerView s = handlerView t \<Longrightarrow> handlerView (sseExec ev s) = handlerView (sseExec ev t)"
  by (cases ev) (auto simp: handlerView_def payloads_def sseExec_def)

lemma run_view: "handlerView s = handlerView t \<Longrightarrow> handlerView (sseRun evs s) = handlerView (sseRun (filter (Not \<circ> beatStep) evs) t)"
  unfolding sseRun_def
proof (induction evs arbitrary: s t)
  case (Cons ev evs)
  show ?case
  proof (cases "beatStep ev")
    case True
    then have "handlerView (sseExec ev s) = handlerView t" by (simp only: beat_invisible Cons.prems)
    from Cons.IH [OF this] True show ?thesis by (simp only: fold.simps filter.simps o_apply if_False not_True_eq_False)
  next
    case False
    from Cons.IH [OF handler_view [OF False Cons.prems]] False show ?thesis
      by (simp only: fold.simps filter.simps o_apply if_True not_False_eq_True)
  qed
qed simp

subsection \<open>When a heartbeat is written\<close>

text \<open>The goroutine leaves its first phase only when the stream has started, and writes nothing in it.\<close>

definition beatsStarted :: "sseResponseWriter \<Rightarrow> bool" where
  "beatsStarted s \<longleftrightarrow> (\<not> kaStarted s \<longrightarrow> kaPhase s \<in> {BeatWaiting, BeatEnded} \<and> filter isBeat (kaOut s) = [])"

lemma beatsStarted_exec: "beatsStarted s \<Longrightarrow> beatsStarted (sseExec ev s)"
  by (cases ev) (auto simp: beatsStarted_def sseExec_def split: beatPhase.splits)

interpretation keepalive: op_system sseExec "\<lambda>_. True" beatsStarted
  by unfold_locales (rule beatsStarted_exec)

lemma finished_exec: "sseFinished s \<Longrightarrow> sseFinished (sseExec ev s) \<and> kaOut (sseExec ev s) = kaOut s"
  by (cases ev) (auto simp: sseFinished_def sseExec_def)

lemma finished_run: "sseFinished s \<Longrightarrow> kaOut (sseRun evs s) = kaOut s"
  unfolding sseRun_def by (induction evs arbitrary: s) (simp_all add: finished_exec)

text \<open>The times of the heartbeats.\<close>

definition beatTimes :: "sseResponseWriter \<Rightarrow> gotime list" where
  "beatTimes s = map fst (filter isBeat (kaOut s))"

fun stepTime :: "sseStep \<Rightarrow> gotime option" where
  "stepTime (HandlerWrite now p n) = Some now"
| "stepTime (BeatTick now) = Some now"
| "stepTime (BeatWrites now n failed) = Some now"
| "stepTime _ = None"

definition spacedUntil :: "gotime \<Rightarrow> sseResponseWriter \<Rightarrow> bool" where
  "spacedUntil c s \<longleftrightarrow> kaLast s \<le> c \<and> (\<forall>t \<in> set (beatTimes s). t \<le> kaLast s)
     \<and> sorted_wrt (\<lambda>a b. b - a \<ge> sseHeartbeatIdle) (beatTimes s)
     \<and> (\<forall>since. kaPhase s = BeatDue since \<longrightarrow> since \<le> c \<and> (\<forall>t \<in> set (beatTimes s). since - t \<ge> sseHeartbeatIdle))"

lemma spaced_later: "spacedUntil c s \<Longrightarrow> c \<le> d \<Longrightarrow> spacedUntil d s"
  by (fastforce simp: spacedUntil_def)

lemma spaced_exec:
  assumes "spacedUntil c s" and "case stepTime ev of Some now \<Rightarrow> c \<le> now | None \<Rightarrow> True"
  shows "spacedUntil (case stepTime ev of Some now \<Rightarrow> now | None \<Rightarrow> c) (sseExec ev s)"
proof (cases "sseEnabled ev s")
  case False
  with assms show ?thesis by (auto simp: sseExec_def split: option.splits intro: spaced_later)
next
  case True
  show ?thesis
  proof (cases ev)
    case (BeatWrites now n failed)
    with True obtain since where "kaPhase s = BeatDue since" by (auto split: beatPhase.splits)
    with BeatWrites assms True show ?thesis
      by (fastforce simp: spacedUntil_def sseExec_def beatTimes_def sorted_wrt_append)
  qed (use True assms in \<open>fastforce simp: spacedUntil_def sseExec_def beatTimes_def\<close>)+
qed

lemma spaced_run:
  "spacedUntil c s \<Longrightarrow> sorted (c # List.map_filter stepTime evs) \<Longrightarrow> \<exists>d. spacedUntil d (sseRun evs s)"
  unfolding sseRun_def
proof (induction evs arbitrary: c s)
  case (Cons ev evs)
  define d where "d = (case stepTime ev of Some now \<Rightarrow> now | None \<Rightarrow> c)"
  have "spacedUntil d (sseExec ev s)" unfolding d_def
    by (rule spaced_exec [OF Cons.prems(1)]) (use Cons.prems(2) in \<open>auto simp: List.map_filter_simps split: option.splits\<close>)
  moreover have "sorted (d # List.map_filter stepTime evs)"
    using Cons.prems(2) by (auto simp: d_def List.map_filter_simps split: option.splits)
  ultimately show ?case using Cons.IH by simp
qed auto

subsection \<open>Properties\<close>

text \<open>C37: the heartbeat of an event stream is transparent and bounded. Whatever the goroutine does and however its steps
  fall between those of the handler, the bytes of the handler reach the client in its order, undivided, as if there were
  no heartbeat; none is written before the handler has started an event stream, and nothing at all once the request is
  finished. While the clock does not go back, two heartbeats are at least fifteen seconds apart.\<close>

theorem heartbeat_transparent:
  shows "payloads (sseRun evs (newSSEResponseWriter now))
      = payloads (sseRun (filter (Not \<circ> beatStep) evs) (newSSEResponseWriter now))
    \<and> (\<not> kaStarted (sseRun evs (newSSEResponseWriter now)) \<longrightarrow> beatTimes (sseRun evs (newSSEResponseWriter now)) = [])
    \<and> (sseFinished (sseRun evs (newSSEResponseWriter now)) \<longrightarrow>
         kaOut (sseRun (evs @ later) (newSSEResponseWriter now)) = kaOut (sseRun evs (newSSEResponseWriter now)))
    \<and> (sorted (now # List.map_filter stepTime evs) \<longrightarrow>
         sorted_wrt (\<lambda>a b. b - a \<ge> sseHeartbeatIdle) (beatTimes (sseRun evs (newSSEResponseWriter now))))"
proof -
  have "payloads (sseRun evs (newSSEResponseWriter now)) = payloads (sseRun (filter (Not \<circ> beatStep) evs) (newSSEResponseWriter now))"
    using run_view [of "newSSEResponseWriter now" "newSSEResponseWriter now" evs] by (simp add: handlerView_def)
  moreover have "beatsStarted (sseRun evs (newSSEResponseWriter now))"
    unfolding sseRun_def by (rule keepalive.run_inv) (simp_all add: beatsStarted_def newSSEResponseWriter_def)
  moreover have "spacedUntil now (newSSEResponseWriter now)"
    by (simp add: spacedUntil_def newSSEResponseWriter_def beatTimes_def)
  moreover have "sseRun (evs @ later) (newSSEResponseWriter now) = sseRun later (sseRun evs (newSSEResponseWriter now))"
    by (simp add: sseRun_def)
  ultimately show ?thesis
    using spaced_run [of now "newSSEResponseWriter now" evs] finished_run [of "sseRun evs (newSSEResponseWriter now)" later]
    by (auto simp: beatsStarted_def beatTimes_def spacedUntil_def)
qed

text \<open>A stream that is idle for twenty seconds and then goes on.\<close>

definition idleStream :: "sseStep list" where
  "idleStream =
     [SetContentType ''text/event-stream'', HandlerWrite 0 ''data: a'' 7, BeatStarts, BeatTick (seconds 10), BeatTick (seconds 20),
      BeatWrites (seconds 20) 13 False, HandlerWrite (seconds 21) ''data: b'' 7, BeatTick (seconds 40), BeatWrites (seconds 40) 13 False,
      HandlerReturns, BeatStops]"

theorem heartbeat_transparent_witness:
  "sseFinished (sseRun idleStream (newSSEResponseWriter 0)) \<and> length (kaOut (sseRun idleStream (newSSEResponseWriter 0))) = 4
   \<and> kaOut (sseRun (idleStream @ [BeatTick (seconds 60)]) (newSSEResponseWriter 0)) = kaOut (sseRun idleStream (newSSEResponseWriter 0))
   \<and> sorted_wrt (\<lambda>a b. b - a \<ge> sseHeartbeatIdle) (beatTimes (sseRun idleStream (newSSEResponseWriter 0)))"
proof -
  have f: "sseFinished (sseRun idleStream (newSSEResponseWriter 0))" by code_simp
  have l: "length (kaOut (sseRun idleStream (newSSEResponseWriter 0))) = 4" by code_simp
  have t: "sorted (0 # List.map_filter stepTime idleStream)" by code_simp
  from heartbeat_transparent [of idleStream 0 "[BeatTick (seconds 60)]"] f l t show ?thesis by blast
qed

end
