(* ===== verification/Spec2Isabelle.thy ===== *)
theory Spec2Isabelle
  imports RouterProps StoreProps AdminSecurity ModelCapabilities ResponseProps ChatLimits ChatImages ToolCalls LedgerProps PromptProps BridgeProps GatewayProps HandlerProps DebugProps KeepAlive
begin

text \<open>
  The gateway of this repository gives clients of the OpenAI and Anthropic chat interfaces access
  to the Microsoft 365 Copilot service ("ChatHub"), with a pool of accounts behind it. This
  library models its Go code under src/internal and proves what makes it correct.

  \<^bold>\<open>The program.\<close> A request passes the middleware (administrator session or API key), is
  decoded and, for the Responses and Anthropic protocols, converted into a chat completion
  request. openaiChat then checks it, finds the conversation it continues in the session store,
  builds the evidence ledger of the tool loop, selects the messages that fit the input budget,
  resolves the one active account (refreshing its token) and takes a lease on it. With tools it
  first asks the model which tool to call; otherwise, or when no tool is chosen, it asks for the
  answer, streams or collects it, moves to the next account at most once when the active one fails,
  resumes an interrupted stream, continues a cut answer, drops an answer that claims success
  without evidence, and binds the finished turn in the session store. Accounts, health,
  refusals, sessions, keys and settings are kept in files that are replaced atomically.

  \<^bold>\<open>Theories and sources\<close> (files of src/internal/web unless a directory is given).
  \<^item> GoPrelude, GoText, GoRegexp, Utf8Laws, GoJson: Go strings as byte strings, numbers and runes,
    maps as association lists, the regular expressions of the program, UTF-8, decoded JSON and its
    encoding; JsonText: what encoded JSON consists of.
  \<^item> AtomicFile: atomic_file.go and atomicWrite of auth/cache.go, each system call with its
    failure. ApiKeys: keys.go. AdminSecurity: admin_security.go and the login and middleware of
    server.go. Settings: settings.go. UsageStats: the counters of token_usage.go and server.go.
  \<^item> TokenFile, TokenStore, TokenFlight: auth/cache.go, the JSON document of the cache file, the
    account list and the single flight of a token refresh, lock section by lock section. AccountHealth: account_health.go. PolicyRefusal: policy_refusal.go. UpstreamErrors:
    the error values of chathub/client.go and their classes. AccountRouter (laws in RouterLaws,
    the system of its operations in RouterSystem): account_router.go.
  \<^item> PortableHistory (laws in PortableLaws): portable_history.go. Sessions: sessions.go and session_admin.go, with
    SessionLaws, SessionOpen (start-up), SessionPrune and SessionSteps (the transition system).
    ResponseSession, ResponseLocks: response_session.go, its lease and its locks.
  \<^item> AnswerStream, ChatFrames, ChatStream, ChatImages: chathub/answer_stream.go,
    stream_events.go, events.go, client.go and images.go, one attempt after the request is sent.
  \<^item> ToolSchema, ToolCalls: tooldecision.go, toolloop.go, native_tools.go, fenced_tools.go.
    ToolProtocol: tool_state.go. AgentLedger: agent_ledger.go. ToolRouter: model_tool_router.go.
    ToolResponse: tool_response.go.
  \<^item> PromptBudget, PromptSelect (laws in PromptLaws): multimodal.go, prompt.go, prompt_budget.go. ModelCapabilities:
    model_capabilities.go. StreamGuard: upstream_placeholder.go and the text helpers of a resumed
    stream in server.go.
  \<^item> ProtocolRequests: protocol_compat.go, tool_progress.go. ResponsesStream (laws in
    ResponsesLaws): the streaming adapter of protocol_handlers.go, with writeSSE of stream.go.
  \<^item> GatewayTurn, TurnStart, TurnRoute, TurnAnswer, TurnChat: openaiChat of server.go, in the order
    of its code. NativeChat: chatOnce of server.go and chatStream of stream.go.
  \<^item> ProtocolReplies, ProtocolHandlers (laws in HandlerProps): protocol_response.go,
    protocol_errors.go and the handlers of protocol_handlers.go around openaiChat.
  \<^item> KeepAlive: sse_keepalive.go, the writer and its heartbeat. DebugLog (laws in DebugProps):
    debug.go, redaction, the ring of records, the rotated file and the middleware.

  \<^bold>\<open>How state corresponds.\<close> A Go structure is a record with a prefix for its fields; the shared
  state of the gateway is the record gateway, which extends the router's, the session store's
  and the counters' states. A critical section is one function from state to state with the
  clock reading as argument. A turn (record turn) carries the shared state and what the handler
  keeps in variables; between any two of its steps other requests may change the shared state in
  any way (the argument geMeanwhile), so no law of a turn depends on being alone. Errors are
  values (an option of goerror, or a sum), a failed write is a state that accepts no more writes,
  times are integers of nanoseconds, and a range over a Go map visits the members in list order,
  one of the possible runs.

  \<^bold>\<open>What is proved.\<close>
  \<^item> Accounts (RouterProps, StoreProps): the route advances to the first available account in
    list order, only on a failure that belongs to the active account, and not while the
    breaker is open; two accounts with the same shared failure open the breaker; a resolved account
    is the active one; route file and memory agree; one refresh per account at a time; the accounts
    are read back from their file as they were in memory, whatever operations and sections of
    refreshes have run and whatever writes have failed.
  \<^item> Access (ApiKeys, AdminSecurity): the life of a key, the lockout within a window that is fixed
    by its first failure, what the middleware admits.
  \<^item> Conversations (SessionProps, PortableProps, LockProps, ResponseProps): snapshots never change,
    a commit appends its turn, also to a target that is bound already, pruning reaches its limits
    apart from what pins hold, the transition of two histories
    is inverted by its application, bounded histories, and the reference-counted locks refine a
    set of held keys.
  \<^item> ChatHub (ChatProps, ChatLimits): when an attempt succeeds, that the streamed pieces form a
    prefix of the answer, and that it ends by its deadline also on a connection that falls silent,
    because every read has one.
  \<^item> Tools (ToolCalls, ToolProtocol, LedgerProps, ToolRouter): schema validation is a typing relation,
    every reported call is well typed, the protocol checker accepts exactly a grammar, the ledger
    detects exactly the repetitions of the history.
  \<^item> Prompts (PromptProps): the selected prompt fits its budget, keeps the contract messages and
    whole tool rounds.
  \<^item> Responses (ResponsesProps, BridgeProps): one terminal event and it is the last, a client that
    follows the events knows the output of the final resource, no finished arguments and no finished
    call are sent before the commit, and tool calls cross from one protocol to the other unchanged.
  \<^item> Turns (GatewayProps with TurnLaws, TurnBounds, TurnSpend, TurnFrames): at most ten upstream
    calls, at most one change of account (one before the first call included) and none after a frame
    with text, one end mark and it is last, and a refusal with a client error costs no call.
  \<^item> Around the turn (StreamGuard, KeepAlive, DebugProps, HandlerProps): the overload guard loses
    nothing and delays only what may be an overload sentence, the heartbeat leaves the stream alone,
    the log is bounded and has no secret of a decoded body, and a streamed Anthropic message has the
    blocks of the collected one.

  \<^bold>\<open>Bounds.\<close> Every definition is total. Loops over an upstream are recursions over its finite
  script (the reads of a connection, the lines and ticks of a stream), which is an argument. A
  read of a connection carries the time its message arrives, if it ever does; ReadMessage gives the
  message or a timeout at the deadline the loop has set, and without a deadline a silent read would
  never return. The termination property needs as many reads as there are nanoseconds left to the
  deadline. The continuations of a cut answer recurse over the
  four rounds the code allows. Integers the code keeps at 64 bits and that may wrap (Retry-After,
  counters, parsed numbers) are wrapped; counts of list elements and tokens are unbounded.

  \<^bold>\<open>Interfaces.\<close> Four locales carry laws that several components share. op_system (GoPrelude) is an
  invariant kept by every admissible operation, interpreted on keys, administrator sessions,
  settings, refusals, the token store, the router, the lines of a Responses stream, the heartbeat
  and the request log; monitored_system is a step relation
  with an observation that no step changes while its subject lives, interpreted on the session
  store; durable_store (AtomicFile) is a store whose file follows its memory, interpreted on keys,
  settings and the token store; answer_client (ChatLaws) is what the read loop needs of the answer
  tracker, interpreted on what has been delivered.

  \<^bold>\<open>Arguments.\<close> The layout of JSON as text in the files, the formatting and parsing of times, SHA-256, bcrypt, random bytes, UUIDs, encoding/json's decoder, base64, url.Parse,
  fmt.Sprint of odd values, the BPE tokenizer, the clock, the network and the other requests are
  arguments, usually collected in an environment record; hypotheses about them are named in the
  theorems that need them. Two simplifications of the standard library: ToLower and EqualFold fold
  ASCII letters only, and token counts are unbounded integers.

  \<^bold>\<open>Not modelled.\<close> Log lines and HTTP headers; the wiring of net/http, the administration endpoints
  that format stored state, the exchanges with the identity service (their results are
  arguments), SOCKS and HTTP dialling, image generation, the JSON payload and URL of a ChatHub request, and the web interface: input and
  output, or static structure without a decision of its own.
\<close>

end
